(* ===== verification/Prelude.thy ===== *)
theory Prelude
  imports Main "HOL-Library.Word"
begin

text \<open>
  What every component of the development shares: the machine integers of the
  code, its exceptions, operations that may throw (a result together with the
  state at the throw), the parts of the C++ standard library the components use,
  and generic lemmas on lists and words.
\<close>

subsection \<open>Lemma collections\<close>

named_theorems cpp_op_simps \<open>evaluation of operations that may throw\<close>
named_theorems byte_class_simps \<open>the character classes of the code, on the byte's value\<close>

subsection \<open>Machine integers\<close>

text \<open>
  \<^verbatim>\<open>int32_t\<close> and \<^verbatim>\<open>int64_t\<close> are words read with \<open>sint\<close>; arithmetic on them is two's
  complement (the code is built for targets where a signed overflow, which C++
  leaves undefined, wraps). A \<^verbatim>\<open>size_t\<close> that counts bytes or elements in memory is a
  \<open>nat\<close>; where the code converts an \<^verbatim>\<open>int32_t\<close> to \<^verbatim>\<open>size_t\<close>, the conversion is
  written out at the width of 64 bits.
\<close>

type_synonym int32 = "32 word"
type_synonym int64 = "64 word"

definition npos :: nat where
  "npos = 2 ^ 64 - 1"

definition int32_to_size_t :: "int32 \<Rightarrow> nat" where
  "int32_to_size_t w = unat (scast w :: 64 word)"

lemma uint_scast_int32: "uint (scast (w :: int32) :: 64 word) = sint w mod 2 ^ 64"
  unfolding scast_eq uint_word_of_int by simp

lemma int32_to_size_t_mod: "int32_to_size_t w = nat (sint w mod 2 ^ 64)"
  unfolding int32_to_size_t_def unat_eq_nat_uint uint_scast_int32 ..

lemma sint32_bounds: "- (2 ^ 31) \<le> sint (w :: int32)" "sint w < 2 ^ 31"
  using sint_range_size [of w] by (simp_all add: word_size)

lemma int32_to_size_t_nonneg: "0 \<le> sint w \<Longrightarrow> int32_to_size_t w = nat (sint w)"
  unfolding int32_to_size_t_mod using sint32_bounds [of w]
  by (subst mod_pos_pos_trivial) auto

lemma int_mod_negative: "- (2 ^ 31) \<le> (v :: int) \<Longrightarrow> v < 0 \<Longrightarrow> v mod 2 ^ 64 = v + 2 ^ 64"
  by (subst mod_add_self2 [symmetric], rule mod_pos_pos_trivial) simp_all

lemma int32_to_size_t_neg:
  assumes neg: "sint w < 0"
  shows "2 ^ 63 \<le> int32_to_size_t w"
proof -
  have "2 ^ 63 \<le> nat (v + 2 ^ 64)" if "- (2 ^ 31) \<le> v" for v :: int
    using that by simp
  then show ?thesis
    unfolding int32_to_size_t_mod int_mod_negative [OF sint32_bounds(1) neg]
    using sint32_bounds(1) by blast
qed

subsection \<open>Exceptions and operations that may throw\<close>

text \<open>
  The exceptions the modelled code throws or catches. An operation on a state
  returns the exception or the value, and in both cases the state it leaves
  behind: C++ does not roll the object back when an exception passes. The last is no
  exception of C++ but stands for behaviour that C++ leaves undefined, as the dereference of a
  null pointer, which ends the model's run.
\<close>

datatype cpp_exception =
    JsonLexerException string
  | JsonParserException string
  | LogicError string
  | InvalidArgument string
  | OutOfRange string
  | UndefinedBehaviour string

type_synonym ('s, 'a) cpp_op = "'s \<Rightarrow> (cpp_exception + 'a) \<times> 's"

definition op_return :: "'a \<Rightarrow> ('s, 'a) cpp_op" where
  "op_return a = (\<lambda>s. (Inr a, s))"

definition op_throw :: "cpp_exception \<Rightarrow> ('s, 'a) cpp_op" where
  "op_throw e = (\<lambda>s. (Inl e, s))"

definition op_bind :: "('s, 'a) cpp_op \<Rightarrow> ('a \<Rightarrow> ('s, 'b) cpp_op) \<Rightarrow> ('s, 'b) cpp_op" where
  "op_bind m f = (\<lambda>s. case m s of (Inl e, s') \<Rightarrow> (Inl e, s') | (Inr a, s') \<Rightarrow> f a s')"

definition op_modify :: "('s \<Rightarrow> 's) \<Rightarrow> ('s, unit) cpp_op" where
  "op_modify f = (\<lambda>s. (Inr (), f s))"

lemma op_return_apply [cpp_op_simps]: "op_return a s = (Inr a, s)"
  by (simp add: op_return_def)

lemma op_throw_apply [cpp_op_simps]: "op_throw e s = (Inl e, s)"
  by (simp add: op_throw_def)

lemma op_modify_apply [cpp_op_simps]: "op_modify f s = (Inr (), f s)"
  by (simp add: op_modify_def)

lemma op_bind_Inr [cpp_op_simps]: "m s = (Inr a, s') \<Longrightarrow> op_bind m f s = f a s'"
  by (simp add: op_bind_def)

lemma op_bind_Inl [cpp_op_simps]: "m s = (Inl e, s') \<Longrightarrow> op_bind m f s = (Inl e, s')"
  by (simp add: op_bind_def)

lemma op_bind_assoc: "op_bind (op_bind m f) g = op_bind m (\<lambda>a. op_bind (f a) g)"
  by (auto simp: op_bind_def fun_eq_iff split: prod.splits sum.splits)

lemma op_bind_return_left [simp]: "op_bind (op_return a) f = f a"
  by (simp add: op_bind_def op_return_def)

lemma op_bind_InrE:
  assumes "op_bind m f s = (Inr b, t)"
  obtains a s' where "m s = (Inr a, s')" and "f a s' = (Inr b, t)"
  using assms by (auto simp: op_bind_def split: prod.splits sum.splits)

lemma op_bind_InlE:
  assumes "op_bind m f s = (Inl e, t)"
  obtains "m s = (Inl e, t)"
  | a s' where "m s = (Inr a, s')" and "f a s' = (Inl e, t)"
  using assms by (auto simp: op_bind_def split: prod.splits sum.splits)

subsection \<open>Bytes and character classes of the standard library\<close>

text \<open>
  A \<^verbatim>\<open>std::string\<close> is a list of bytes. The classification functions are those of the
  classic locale: a byte above 127 is in no class.
\<close>

definition byte_of :: "char \<Rightarrow> nat" where
  "byte_of c = of_char c"

lemma byte_of_less [simp]: "byte_of c < 256"
  by (simp add: byte_of_def)

lemma byte_of_inject [simp]: "byte_of a = byte_of b \<longleftrightarrow> a = b"
  by (simp add: byte_of_def)

lemma char_of_byte_of [simp]: "char_of (byte_of c) = c"
  by (simp add: byte_of_def)

lemma byte_of_char_of: "n < 256 \<Longrightarrow> byte_of (char_of n) = n"
  by (simp add: byte_of_def)

definition std_isspace :: "char \<Rightarrow> bool" where
  "std_isspace c \<longleftrightarrow> byte_of c = 32 \<or> (9 \<le> byte_of c \<and> byte_of c \<le> 13)"

definition std_isdigit :: "char \<Rightarrow> bool" where
  "std_isdigit c \<longleftrightarrow> 48 \<le> byte_of c \<and> byte_of c \<le> 57"

definition std_isxdigit :: "char \<Rightarrow> bool" where
  "std_isxdigit c \<longleftrightarrow> std_isdigit c \<or> (65 \<le> byte_of c \<and> byte_of c \<le> 70)
     \<or> (97 \<le> byte_of c \<and> byte_of c \<le> 102)"

definition std_tolower :: "char \<Rightarrow> char" where
  "std_tolower c = (if 65 \<le> byte_of c \<and> byte_of c \<le> 90 then char_of (byte_of c + 32) else c)"

definition digit_value :: "char \<Rightarrow> nat" where
  "digit_value c =
     (if byte_of c \<le> 57 then byte_of c - 48
      else if byte_of c \<le> 70 then byte_of c - 55
      else byte_of c - 87)"

text \<open>The value of a sequence of digits in a base, most significant digit first.\<close>

definition digits_value :: "nat \<Rightarrow> string \<Rightarrow> nat" where
  "digits_value base ds = foldl (\<lambda>n d. n * base + digit_value d) 0 ds"

lemma digits_value_Nil [simp]: "digits_value b [] = 0"
  by (simp add: digits_value_def)

lemma digits_value_snoc [simp]:
  "digits_value b (ds @ [d]) = digits_value b ds * b + digit_value d"
  by (simp add: digits_value_def)

subsection \<open>Generic lemmas on lists\<close>

lemma dropWhile_length_le: "length (dropWhile P xs) \<le> length xs"
  by (induction xs) auto

lemma filter_append_partition:
  "(\<And>x. x \<in> set xs \<Longrightarrow> P x) \<Longrightarrow> (\<And>y. y \<in> set ys \<Longrightarrow> \<not> P y) \<Longrightarrow>
     filter P (xs @ ys) = xs \<and> filter (\<lambda>x. \<not> P x) (xs @ ys) = ys"
  by (induction xs) auto

lemma takeWhile_append_stop:
  "(\<And>x. x \<in> set xs \<Longrightarrow> P x) \<Longrightarrow> \<not> P y \<Longrightarrow> takeWhile P (xs @ y # ys) = xs"
  by (induction xs) auto

lemma dropWhile_append_stop:
  "(\<And>x. x \<in> set xs \<Longrightarrow> P x) \<Longrightarrow> \<not> P y \<Longrightarrow> dropWhile P (xs @ y # ys) = y # ys"
  by (induction xs) auto

end
