(* ===== verification/Containers.thy ===== *)
theory Containers
  imports Prelude
begin

text \<open>
  The containers the components keep their state in. \<^verbatim>\<open>std::unordered_map\<close> with a key
  equality and a hash is an association list in iteration order; the laws the
  standard asks of equality and hash are the locale \<open>hashed_key\<close>, in which the lookup
  by bucket is proved to be the lookup in the list and the usual equations of lookup,
  update and erasure are derived. \<^verbatim>\<open>core::util::SynchronizedQueue\<close>
  (src/core/util/SynchronizedQueue.h) is the list behind its mutex; the locale
  \<open>fifo_queue\<close> states what its clients rely on.
\<close>

subsection \<open>Unordered maps\<close>

type_synonym ('k, 'v) unordered_map = "('k \<times> 'v) list"

primrec um_find :: "('k \<Rightarrow> 'k \<Rightarrow> bool) \<Rightarrow> 'k \<Rightarrow> ('k, 'v) unordered_map \<Rightarrow> 'v option" where
  "um_find keq k [] = None"
| "um_find keq k (e # m) = (if keq (fst e) k then Some (snd e) else um_find keq k m)"

text \<open>\<open>insert\<close> keeps an entry that is there; \<open>um_put\<close> is the assignment through \<^verbatim>\<open>operator[]\<close>.\<close>

definition um_insert :: "('k \<Rightarrow> 'k \<Rightarrow> bool) \<Rightarrow> 'k \<Rightarrow> 'v \<Rightarrow> ('k, 'v) unordered_map \<Rightarrow> ('k, 'v) unordered_map" where
  "um_insert keq k v m = (if um_find keq k m = None then m @ [(k, v)] else m)"

primrec um_put :: "('k \<Rightarrow> 'k \<Rightarrow> bool) \<Rightarrow> 'k \<Rightarrow> 'v \<Rightarrow> ('k, 'v) unordered_map \<Rightarrow> ('k, 'v) unordered_map" where
  "um_put keq k v [] = [(k, v)]"
| "um_put keq k v (e # m) = (if keq (fst e) k then (fst e, v) # m else e # um_put keq k v m)"

text \<open>Changing the value an iterator points to.\<close>

primrec um_modify :: "('k \<Rightarrow> 'k \<Rightarrow> bool) \<Rightarrow> 'k \<Rightarrow> ('v \<Rightarrow> 'v) \<Rightarrow> ('k, 'v) unordered_map \<Rightarrow> ('k, 'v) unordered_map" where
  "um_modify keq k f [] = []"
| "um_modify keq k f (e # m) = (if keq (fst e) k then (fst e, f (snd e)) # m else e # um_modify keq k f m)"

definition um_erase :: "('k \<Rightarrow> 'k \<Rightarrow> bool) \<Rightarrow> 'k \<Rightarrow> ('k, 'v) unordered_map \<Rightarrow> ('k, 'v) unordered_map" where
  "um_erase keq k m = filter (\<lambda>e. \<not> keq (fst e) k) m"

fun um_distinct :: "('k \<Rightarrow> 'k \<Rightarrow> bool) \<Rightarrow> ('k, 'v) unordered_map \<Rightarrow> bool" where
  "um_distinct keq [] = True"
| "um_distinct keq (e # m) \<longleftrightarrow> um_find keq (fst e) m = None \<and> um_distinct keq m"

text \<open>The lookup the hash table performs: only the bucket of the key is searched.\<close>

definition um_find_in_bucket ::
    "('k \<Rightarrow> 'k \<Rightarrow> bool) \<Rightarrow> ('k \<Rightarrow> 64 word) \<Rightarrow> nat \<Rightarrow> 'k \<Rightarrow> ('k, 'v) unordered_map \<Rightarrow> 'v option" where
  "um_find_in_bucket keq hash buckets k m =
     um_find keq k (filter (\<lambda>e. unat (hash (fst e)) mod buckets = unat (hash k) mod buckets) m)"

lemma um_find_append:
  "um_find keq k (m @ n) = (case um_find keq k m of None \<Rightarrow> um_find keq k n | Some v \<Rightarrow> Some v)"
  by (induction m) auto

lemma um_find_None_iff: "um_find keq k m = None \<longleftrightarrow> list_all (\<lambda>e. \<not> keq (fst e) k) m"
  by (induction m) auto

lemma um_modify_absent: "um_find keq k m = None \<Longrightarrow> um_modify keq k f m = m"
  by (induction m) (auto split: if_splits)

lemma um_find_split:
  "um_find keq k m = Some v \<Longrightarrow> \<exists>m1 k' m2. m = m1 @ (k', v) # m2 \<and> keq k' k \<and> um_find keq k m1 = None"
proof (induction m)
  case (Cons e m)
  show ?case
  proof (cases "keq (fst e) k")
    case True
    then show ?thesis using Cons.prems by (intro exI [of _ "[]"]) (cases e; auto)
  next
    case False
    then obtain m1 k' m2 where "m = m1 @ (k', v) # m2" "keq k' k" "um_find keq k m1 = None"
      using Cons by auto
    then show ?thesis using False by (intro exI [of _ "e # m1"]) auto
  qed
qed simp

lemma um_modify_split:
  "um_find keq k m1 = None \<Longrightarrow> keq k' k \<Longrightarrow>
    um_modify keq k f (m1 @ (k', v) # m2) = m1 @ (k', f v) # m2"
  by (induction m1) (auto split: if_splits)

lemma um_modify_fst: "map fst (um_modify keq k f m) = map fst m"
  by (induction m) auto

lemma um_find_None_fst: "map fst m = map fst n \<Longrightarrow> um_find keq k m = None \<longleftrightarrow> um_find keq k n = None"
  by (simp add: um_find_None_iff list_all_length) (metis length_map nth_map)

lemma um_distinct_fst: "map fst m = map fst n \<Longrightarrow> um_distinct keq m = um_distinct keq n"
proof (induction m arbitrary: n)
  case (Cons e m)
  then obtain b n' where n: "n = (fst e, b) # n'" "map fst m = map fst n'" by (cases n) auto
  then show ?case using Cons.IH um_find_None_fst [OF n(2)] by simp
qed simp

lemma um_modify_distinct: "um_distinct keq (um_modify keq k f m) = um_distinct keq m"
  by (rule um_distinct_fst [OF um_modify_fst])

subsection \<open>What the standard asks of a key equality and a hash\<close>

locale hashed_key =
  fixes keq :: "'k \<Rightarrow> 'k \<Rightarrow> bool" and hash :: "'k \<Rightarrow> 64 word"
  assumes keq_refl: "keq a a"
    and keq_sym: "keq a b \<Longrightarrow> keq b a"
    and keq_trans: "keq a b \<Longrightarrow> keq b c \<Longrightarrow> keq a c"
    and keq_hash: "keq a b \<Longrightarrow> hash a = hash b"
begin

lemma keq_cong: "keq k k' \<Longrightarrow> keq a k = keq a k'"
  using keq_sym keq_trans by blast

lemma keq_left: "keq a b \<Longrightarrow> keq a c = keq b c"
  using keq_sym keq_trans by blast

lemma find_cong: "keq k k' \<Longrightarrow> um_find keq k m = um_find keq k' m"
  by (induction m) (simp_all add: keq_cong)

lemma find_in_bucket: "um_find_in_bucket keq hash buckets k m = um_find keq k m"
  by (induction m) (use keq_hash in \<open>auto simp: um_find_in_bucket_def\<close>)

lemma find_insert:
  "um_find keq k (um_insert keq k' v m) =
    (case um_find keq k m of Some w \<Rightarrow> Some w | None \<Rightarrow> if keq k' k then Some v else None)"
proof (cases "um_find keq k' m")
  case None
  then show ?thesis by (simp add: um_insert_def um_find_append split: option.splits)
next
  case (Some w)
  then show ?thesis
    using find_cong [of k' k m] by (auto simp: um_insert_def split: option.splits)
qed

lemma find_put: "um_find keq k (um_put keq k' v m) = (if keq k' k then Some v else um_find keq k m)"
proof (induction m)
  case (Cons e m)
  then show ?case using keq_left [of "fst e" k' k] keq_cong [of k' k "fst e"] by auto
qed simp

lemma find_modify:
  "um_find keq k (um_modify keq k' f m) =
    (if keq k' k then map_option f (um_find keq k m) else um_find keq k m)"
proof (induction m)
  case (Cons e m)
  then show ?case using keq_left [of "fst e" k' k] keq_cong [of k' k "fst e"] by auto
qed simp

lemma find_erase: "um_find keq k (um_erase keq k' m) = (if keq k' k then None else um_find keq k m)"
proof (induction m)
  case (Cons e m)
  then show ?case using keq_left [of "fst e" k' k] keq_cong [of k' k "fst e"] by (auto simp: um_erase_def)
qed (simp add: um_erase_def)

lemma distinct_insert: "um_distinct keq m \<Longrightarrow> um_distinct keq (um_insert keq k v m)"
proof -
  have "um_find keq k m = None \<Longrightarrow> um_distinct keq m \<Longrightarrow> um_distinct keq (m @ [(k, v)])" for m
  proof (induction m)
    case (Cons e m)
    then show ?case using keq_sym [of k "fst e"] by (auto simp: um_find_append split: if_splits)
  qed simp
  then show "um_distinct keq m \<Longrightarrow> um_distinct keq (um_insert keq k v m)"
    by (simp add: um_insert_def)
qed

lemma distinct_put: "um_distinct keq m \<Longrightarrow> um_distinct keq (um_put keq k v m)"
proof (induction m)
  case (Cons e m)
  then show ?case
    using find_put [of "fst e" k v m] keq_sym [of k "fst e"] by (auto split: if_splits)
qed simp

lemma distinct_erase: "um_distinct keq m \<Longrightarrow> um_distinct keq (um_erase keq k m)"
proof (induction m)
  case (Cons e m)
  moreover have "um_find keq (fst e) (filter (\<lambda>e. \<not> keq (fst e) k) m) = None"
    if "um_find keq (fst e) m = None"
    using that by (auto simp: um_find_None_iff list_all_iff)
  ultimately show ?case by (auto simp: um_erase_def)
qed (simp add: um_erase_def)

lemma erase_split:
  "um_distinct keq (m1 @ (k', v) # m2) \<Longrightarrow> keq k' k \<Longrightarrow> um_erase keq k (m1 @ (k', v) # m2) = m1 @ m2"
proof (induction m1)
  case Nil
  then have "um_find keq k m2 = None" using find_cong [of k' k m2] by simp
  then show ?case using Nil by (auto simp: um_erase_def um_find_None_iff list_all_iff filter_id_conv)
next
  case (Cons e m1)
  then have "\<not> keq (fst e) k"
    using keq_cong [of k' k "fst e"] keq_sym [of "fst e" k']
    by (auto simp: um_find_append split: option.splits if_splits)
  then show ?case using Cons by (simp add: um_erase_def)
qed

end

subsection \<open>The synchronized queue\<close>

text \<open>The state is \<^verbatim>\<open>mList\<close>; each operation runs under the mutex.\<close>

definition queue_put :: "'a \<Rightarrow> 'a list \<Rightarrow> 'a list" where
  "queue_put entry mList = mList @ [entry]"

definition queue_get :: "'a \<Rightarrow> 'a list \<Rightarrow> 'a \<times> 'a list" where
  "queue_get defaultItem mList = (case mList of [] \<Rightarrow> (defaultItem, []) | x # xs \<Rightarrow> (x, xs))"

primrec queue_remove :: "'a \<Rightarrow> 'a list \<Rightarrow> bool \<times> 'a list" where
  "queue_remove entry [] = (False, [])"
| "queue_remove entry (x # xs) =
     (if x = entry then (True, xs)
      else (let (found, ys) = queue_remove entry xs in (found, x # ys)))"

definition queue_clear :: "'a list \<Rightarrow> 'a list" where
  "queue_clear mList = []"

definition queue_isEmpty :: "'a list \<Rightarrow> bool" where
  "queue_isEmpty mList \<longleftrightarrow> mList = []"

definition queue_toStdVector :: "'a list \<Rightarrow> 'a list" where
  "queue_toStdVector mList = mList"

definition queue_size :: "'a list \<Rightarrow> nat" where
  "queue_size mList = length mList"

text \<open>
  What the users of the queue rely on: the queue is seen through the vector of its
  elements, \<open>put\<close> adds at the end, \<open>get\<close> takes the first, \<open>remove\<close> takes out the first
  occurrence.
\<close>

locale fifo_queue =
  fixes put :: "'a \<Rightarrow> 'q \<Rightarrow> 'q" and get :: "'a \<Rightarrow> 'q \<Rightarrow> 'a \<times> 'q"
    and remove :: "'a \<Rightarrow> 'q \<Rightarrow> bool \<times> 'q" and elements :: "'q \<Rightarrow> 'a list"
  assumes put: "elements (put x q) = elements q @ [x]"
    and get_empty: "elements q = [] \<Longrightarrow> fst (get d q) = d \<and> elements (snd (get d q)) = []"
    and get_first: "elements q = x # xs \<Longrightarrow> fst (get d q) = x \<and> elements (snd (get d q)) = xs"
    and remove: "fst (remove x q) = (x \<in> set (elements q)) \<and> elements (snd (remove x q)) = remove1 x (elements q)"
begin

text \<open>Emptying the queue yields what was put, in the order of the puts.\<close>

primrec drain :: "nat \<Rightarrow> 'a \<Rightarrow> 'q \<Rightarrow> 'a list" where
  "drain 0 d q = []"
| "drain (Suc n) d q = fst (get d q) # drain n d (snd (get d q))"

lemma elements_puts: "elements (fold put xs q) = elements q @ xs"
  by (induction xs arbitrary: q) (simp_all add: put)

lemma drain_elements: "drain (length (elements q)) d q = elements q"
proof (induction "elements q" arbitrary: q)
  case (Cons x xs)
  from Cons.hyps(2) get_first [of q x xs d]
  have g: "fst (get d q) = x" "elements (snd (get d q)) = xs" by auto
  have "drain (length xs) d (snd (get d q)) = xs" using Cons.hyps(1) g(2) by metis
  then show ?case using Cons.hyps(2) [symmetric] g by simp
qed simp

lemma first_in_first_out: "elements q = [] \<Longrightarrow> drain (length xs) d (fold put xs q) = xs"
  using drain_elements [of "fold put xs q"] elements_puts [of xs q] by simp

lemma remove_keeps_others: "y \<noteq> x \<Longrightarrow> y \<in> set (elements (snd (remove x q))) \<longleftrightarrow> y \<in> set (elements q)"
  using remove [of x q] by (simp add: in_set_remove1)

end

lemma queue_remove_eq: "queue_remove x q = (x \<in> set q, remove1 x q)"
  by (induction q) auto

interpretation synchronized_queue: fifo_queue queue_put queue_get queue_remove queue_toStdVector
  by unfold_locales (auto simp: queue_put_def queue_get_def queue_toStdVector_def queue_remove_eq)

text \<open>\<^verbatim>\<open>std::string\<close> keys with the standard hash, which is any function of the bytes.\<close>

interpretation std_string_key: hashed_key "(=) :: string \<Rightarrow> string \<Rightarrow> bool" string_hash
  for string_hash
  by unfold_locales auto

end
