(* ===== verification/Utf8_String.thy ===== *)
theory Utf8_String
  imports Prelude
begin

unbundle bit_operations_syntax

text \<open>
  \<^verbatim>\<open>core::UTF8String\<close> (src/core/UTF8String.cxx): the string type of all data that
  is sent. The class keeps the bytes (\<open>mData\<close>) and the number of characters
  (\<open>mStringLength\<close>). The model follows the constructor's validation loop byte by
  byte, and the character-wise search and substring operations. The lemmas relate
  the bytes kept to sequences of complete multi-byte characters.
\<close>

subsection \<open>State and byte classification\<close>

record UTF8String =
  mData :: string
  mStringLength :: nat

definition UTF8String_empty :: UTF8String where
  "UTF8String_empty = \<lparr>mData = [], mStringLength = 0\<rparr>"

definition isPartOfPreviousUtf8Multibyte :: "char \<Rightarrow> bool" where
  "isPartOfPreviousUtf8Multibyte character \<longleftrightarrow>
     (of_char character :: 8 word) AND 0xC0 = 0x80"

definition getByteWidthOfCharacter :: "char \<Rightarrow> nat" where
  "getByteWidthOfCharacter character =
     (let c = (of_char character :: 8 word) in
      if c AND 0x80 = 0 then 1
      else if c AND 0xE0 = 0xC0 then 2
      else if c AND 0xF0 = 0xE0 then 3
      else if c AND 0xF8 = 0xF0 then 4
      else 0)"

lemma isPart_code: "\<forall>c. isPartOfPreviousUtf8Multibyte c \<longleftrightarrow> 128 \<le> byte_of c \<and> byte_of c < 192"
  by code_simp

lemma byteWidth_code: "\<forall>c. getByteWidthOfCharacter c =
  (let n = byte_of c in if n < 128 then 1 else if n < 192 then 0 else if n < 224 then 2
     else if n < 240 then 3 else if n < 248 then 4 else 0)"
  by code_simp

lemma isPart_iff [byte_class_simps]:
  "isPartOfPreviousUtf8Multibyte c \<longleftrightarrow> 128 \<le> byte_of c \<and> byte_of c < 192"
  using isPart_code by blast

lemma byteWidth_eq [byte_class_simps]:
  "getByteWidthOfCharacter c =
    (if byte_of c < 128 then 1 else if byte_of c < 192 then 0 else if byte_of c < 224 then 2
     else if byte_of c < 240 then 3 else if byte_of c < 248 then 4 else 0)"
  using byteWidth_code by (auto simp: Let_def)

lemma byteWidth_le_4: "getByteWidthOfCharacter c \<le> 4"
  by (simp add: byteWidth_eq)

subsection \<open>The validating constructor\<close>

text \<open>
  A C string is the list of its bytes; the terminating NUL follows the last byte.
  \<open>isStringTerminationCharacter\<close> looks at the bytes from an offset on.
\<close>

definition c_at :: "string \<Rightarrow> nat \<Rightarrow> char" where
  "c_at s i = (if i < length s then s ! i else CHR 0x00)"

definition isStringTerminationCharacter :: "string \<Rightarrow> nat \<Rightarrow> bool" where
  "isStringTerminationCharacter stringData offset \<longleftrightarrow>
     (let character = c_at stringData offset in
      character = CHR 0x00 \<or>
      character = CHR 0xC0 \<and> c_at stringData (offset + 1) = CHR 0x80)"

function byteLength_from :: "string \<Rightarrow> nat \<Rightarrow> nat" where
  "byteLength_from stringData byteLength =
     (if isStringTerminationCharacter stringData byteLength then byteLength
      else byteLength_from stringData (byteLength + 1))"
  by pat_completeness auto
termination
proof (relation "measure (\<lambda>(s, n). length s - n)")
  show "wf (measure (\<lambda>(s :: string, n). length s - n))" by simp
next
  fix s :: string and n
  assume "\<not> isStringTerminationCharacter s n"
  then have "n < length s"
    by (auto simp: isStringTerminationCharacter_def c_at_def Let_def split: if_splits)
  then show "((s, n + 1), s, n) \<in> measure (\<lambda>(s, n). length s - n)" by simp
qed

declare byteLength_from.simps [simp del]

definition replacementCharacterASCII :: string where
  "replacementCharacterASCII = [CHR 0xEF, CHR 0xBF, CHR 0xBD]"

text \<open>The variables of the validation loop.\<close>

record validation =
  multibyteSeqenceLength :: int
  multibyteSequencePosition :: int
  validData :: string
  characterCount :: nat

definition validateByte :: "string \<Rightarrow> nat \<Rightarrow> validation \<Rightarrow> validation" where
  "validateByte stringData i v =
     (let byteWidthOfCurrentCharacter = getByteWidthOfCharacter (stringData ! i) in
      if isPartOfPreviousUtf8Multibyte (stringData ! i) then
        (let pos = multibyteSequencePosition v + 1;
             len = multibyteSeqenceLength v in
         if pos > len - 1 then
           v\<lparr>validData := validData v @ replacementCharacterASCII,
             characterCount := characterCount v + 1,
             multibyteSeqenceLength := -1, multibyteSequencePosition := -1\<rparr>
         else if pos = len - 1 then
           (let offset = int i - len + 1 in
            v\<lparr>validData := validData v @ map (\<lambda>j. stringData ! nat (offset + int j)) [0..<nat len],
              characterCount := characterCount v + 1,
              multibyteSeqenceLength := -1, multibyteSequencePosition := -1\<rparr>)
         else v\<lparr>multibyteSequencePosition := pos\<rparr>)
      else if byteWidthOfCurrentCharacter = 1 then
        (let v' = (if multibyteSeqenceLength v \<ge> 0
                   then v\<lparr>validData := validData v @ replacementCharacterASCII,
                          characterCount := characterCount v + 1\<rparr>
                   else v) in
         v'\<lparr>validData := validData v' @ [stringData ! i],
            multibyteSeqenceLength := -1, multibyteSequencePosition := -1,
            characterCount := characterCount v' + 1\<rparr>)
      else if byteWidthOfCurrentCharacter > 1 then
        (let v' = (if multibyteSeqenceLength v \<noteq> -1
                   then v\<lparr>validData := validData v @ replacementCharacterASCII,
                          characterCount := characterCount v + 1\<rparr>
                   else v) in
         v'\<lparr>multibyteSeqenceLength := int byteWidthOfCurrentCharacter,
            multibyteSequencePosition := 0\<rparr>)
      else v)"

definition validation_init :: validation where
  "validation_init = \<lparr>multibyteSeqenceLength = -1, multibyteSequencePosition = -1,
     validData = [], characterCount = 0\<rparr>"

definition validateString :: "string \<Rightarrow> UTF8String" where
  "validateString stringData =
     (let byteLength = byteLength_from stringData 0;
          v = fold (validateByte stringData) [0..<byteLength] validation_init in
      if c_at stringData 0 = CHR 0x00 \<or> byteLength = 0
      then UTF8String_empty
      else \<lparr>mData = validData v, mStringLength = characterCount v\<rparr>)"

text \<open>The constructor from a \<^verbatim>\<open>const char*\<close>, which may be null, and from a \<^verbatim>\<open>std::string\<close>.\<close>

definition UTF8String_of_ptr :: "string option \<Rightarrow> UTF8String" where
  "UTF8String_of_ptr p = (case p of None \<Rightarrow> UTF8String_empty | Some s \<Rightarrow> validateString s)"

definition UTF8String_of :: "string \<Rightarrow> UTF8String" where
  "UTF8String_of s = validateString s"

subsection \<open>Comparison, concatenation, search and substring\<close>

definition equals :: "UTF8String \<Rightarrow> UTF8String \<Rightarrow> bool" where
  "equals a b \<longleftrightarrow> mData a = mData b"

definition utf8_isEmpty :: "UTF8String \<Rightarrow> bool" where
  "utf8_isEmpty s \<longleftrightarrow> mStringLength s = 0"

definition concatenate :: "UTF8String \<Rightarrow> UTF8String \<Rightarrow> UTF8String" where
  "concatenate a b =
     (if mStringLength b > 0
      then a\<lparr>mData := mData a @ mData b, mStringLength := mStringLength a + mStringLength b\<rparr>
      else a)"

definition concatenate_ptr :: "UTF8String \<Rightarrow> string \<Rightarrow> UTF8String" where
  "concatenate_ptr a s = concatenate a (UTF8String_of s)"

text \<open>
  \<open>getIndexOf\<close> walks a pointer over \<open>mData\<close> while its loop counter counts
  iterations. Reading the byte after the last one is allowed (it is the NUL of the
  \<^verbatim>\<open>std::string\<close>), reading beyond it is not: then the result is \<open>Inl\<close> with the
  offset of the byte read. The comparison of a multi-byte character reads
  \<open>numberOfBytesCurrent\<close> bytes.
\<close>

function getIndexOf_loop :: "string \<Rightarrow> string \<Rightarrow> nat \<Rightarrow> nat \<Rightarrow> nat \<Rightarrow> nat + nat" where
  "getIndexOf_loop d cmp offset i cur =
     (if i < length d then
        (if cur > length d then Inl cur
         else
          (let w = getByteWidthOfCharacter (c_at cmp 0);
               numberOfBytesCurrent = getByteWidthOfCharacter (c_at d cur) in
           if i \<ge> offset \<and> w = numberOfBytesCurrent \<and>
              (numberOfBytesCurrent = 1 \<and> c_at d cur = c_at cmp 0 \<or>
               numberOfBytesCurrent > 1 \<and>
                 take numberOfBytesCurrent (drop cur d) = take numberOfBytesCurrent cmp)
           then Inr i
           else getIndexOf_loop d cmp offset (i + 1) (cur + numberOfBytesCurrent)))
      else Inr npos)"
  by pat_completeness auto
termination
  by (relation "measure (\<lambda>(d, cmp, off, i, cur). length d - i)") auto

declare getIndexOf_loop.simps [simp del]

definition getIndexOf :: "UTF8String \<Rightarrow> string \<Rightarrow> nat \<Rightarrow> nat + nat" where
  "getIndexOf s comparisonCharacter offset =
     (if offset = npos \<and> offset \<ge> length (mData s) then Inr npos
      else getIndexOf_loop (mData s) comparisonCharacter offset 0 0)"

text \<open>The loop of \<open>substring\<close>: its five indices.\<close>

record substring_vars =
  byteIndex :: nat
  byteOffsetStart :: nat
  byteOffsetEnd :: int
  characterIndex :: nat
  characterCounter :: nat

definition substring_step :: "string \<Rightarrow> nat \<Rightarrow> substring_vars \<Rightarrow> substring_vars" where
  "substring_step d start v =
     (let numberOfBytes = getByteWidthOfCharacter (d ! byteIndex v) in
      v\<lparr>byteOffsetStart := (if characterIndex v = start then byteIndex v else byteOffsetStart v),
        characterCounter := (if characterIndex v \<ge> start then characterCounter v + 1
                             else characterCounter v),
        byteOffsetEnd := int (byteIndex v) + int numberOfBytes - 1,
        byteIndex := byteIndex v + numberOfBytes,
        characterIndex := characterIndex v + 1\<rparr>)"

function substring_loop :: "string \<Rightarrow> nat \<Rightarrow> nat \<Rightarrow> substring_vars \<Rightarrow> substring_vars" where
  "substring_loop d start len v =
     (if byteIndex v < length d \<and> characterCounter v < len
      then substring_loop d start len (substring_step d start v)
      else v)"
  by pat_completeness auto
termination
  by (relation "measure (\<lambda>(d, start, len, v). (len - characterCounter v) + (start - characterIndex v))")
    (auto simp: substring_step_def Let_def)

declare substring_loop.simps [simp del]

text \<open>
  \<^verbatim>\<open>byteOffsetEnd\<close> is a \<^verbatim>\<open>size_t\<close>: the value -1 it takes when a character of width 0
  stands first is the largest one, so the checks \<^verbatim>\<open>start <= end\<close> and
  \<^verbatim>\<open>end < mData.size()\<close> read it through \<open>mod 2 ^ 64\<close>.
\<close>

definition substring :: "UTF8String \<Rightarrow> nat \<Rightarrow> nat \<Rightarrow> UTF8String" where
  "substring s start len =
     (if len = 0 \<or> start > length (mData s) then UTF8String_empty
      else
        (let v = substring_loop (mData s) start len
               \<lparr>byteIndex = 0, byteOffsetStart = 0, byteOffsetEnd = 0, characterIndex = 0,
                characterCounter = 0\<rparr>;
             e = nat (byteOffsetEnd v mod 2 ^ 64) in
         if byteOffsetStart v \<noteq> npos \<and> byteOffsetStart v \<le> e \<and> e < length (mData s)
         then \<lparr>mData = take (e + 1 - byteOffsetStart v) (drop (byteOffsetStart v) (mData s)),
               mStringLength = characterCounter v\<rparr>
         else UTF8String_empty))"

text \<open>
  \<open>split\<close> reads items with \<^verbatim>\<open>std::getline\<close>: each item ends at the delimiter, an empty
  rest after the last delimiter is no item, and each item is validated again.
\<close>

function getline_items :: "char \<Rightarrow> string \<Rightarrow> string list" where
  "getline_items delim s =
     (if s = [] then []
      else takeWhile (\<lambda>c. c \<noteq> delim) s #
             getline_items delim (drop 1 (dropWhile (\<lambda>c. c \<noteq> delim) s)))"
  by pat_completeness auto
termination
proof (relation "measure (\<lambda>(d, s). length s)")
  show "wf (measure (\<lambda>(d :: char, s :: string). length s))" by simp
next
  fix d :: char and s :: string
  assume "s \<noteq> []"
  moreover have "length (dropWhile (\<lambda>c. c \<noteq> d) s) \<le> length s" by (rule dropWhile_length_le)
  ultimately have "length (drop 1 (dropWhile (\<lambda>c. c \<noteq> d) s)) < length s"
    by (cases s) auto
  then show "((d, drop 1 (dropWhile (\<lambda>c. c \<noteq> d) s)), d, s) \<in> measure (\<lambda>(d, s). length s)"
    by simp
qed

declare getline_items.simps [simp del]

definition split :: "UTF8String \<Rightarrow> char \<Rightarrow> UTF8String list" where
  "split s delimiter = map UTF8String_of (getline_items delimiter (mData s))"

subsection \<open>Complete characters\<close>

text \<open>
  The reference notion: a character is a lead byte and as many continuation bytes
  as the lead byte announces; a text is a sequence of characters.
\<close>

definition utf8_char :: "string \<Rightarrow> bool" where
  "utf8_char cs \<longleftrightarrow> cs \<noteq> [] \<and> getByteWidthOfCharacter (hd cs) = length cs \<and>
     list_all isPartOfPreviousUtf8Multibyte (tl cs)"

definition utf8_text :: "string list \<Rightarrow> bool" where
  "utf8_text css \<longleftrightarrow> list_all utf8_char css"

text \<open>The two characters at which a C string of this code ends are no part of a text.\<close>

definition terminator_free :: "string list \<Rightarrow> bool" where
  "terminator_free css \<longleftrightarrow> [CHR 0x00] \<notin> set css \<and> [CHR 0xC0, CHR 0x80] \<notin> set css"

lemma utf8_text_simps [simp]:
  "utf8_text []"
  "utf8_text (c # css) \<longleftrightarrow> utf8_char c \<and> utf8_text css"
  "utf8_text (css @ dss) \<longleftrightarrow> utf8_text css \<and> utf8_text dss"
  by (simp_all add: utf8_text_def)

lemma utf8_char_length: "utf8_char cs \<Longrightarrow> 1 \<le> length cs \<and> length cs \<le> 4"
  using byteWidth_le_4 [of "hd cs"] by (cases cs) (auto simp: utf8_char_def)

lemma utf8_char_cases [consumes 1, case_names one two three four]:
  assumes "utf8_char cs"
  obtains
    (one) a where "cs = [a]" "getByteWidthOfCharacter a = 1"
  | (two) a b where "cs = [a, b]" "getByteWidthOfCharacter a = 2"
      "isPartOfPreviousUtf8Multibyte b"
  | (three) a b c where "cs = [a, b, c]" "getByteWidthOfCharacter a = 3"
      "isPartOfPreviousUtf8Multibyte b" "isPartOfPreviousUtf8Multibyte c"
  | (four) a b c d where "cs = [a, b, c, d]" "getByteWidthOfCharacter a = 4"
      "isPartOfPreviousUtf8Multibyte b" "isPartOfPreviousUtf8Multibyte c"
      "isPartOfPreviousUtf8Multibyte d"
proof -
  have "length cs \<in> {1, 2, 3, 4}"
    using utf8_char_length [OF assms] by auto
  then consider "length cs = 1" | "length cs = 2" | "length cs = 3" | "length cs = 4" by auto
  then show thesis
    using assms that
    by cases (auto simp: utf8_char_def length_Suc_conv numeral_eq_Suc)
qed

lemma lead_not_part: "0 < getByteWidthOfCharacter a \<Longrightarrow> \<not> isPartOfPreviousUtf8Multibyte a"
  by (auto simp: byte_class_simps split: if_splits)

lemma part_width_0: "isPartOfPreviousUtf8Multibyte a \<Longrightarrow> getByteWidthOfCharacter a = 0"
  by (auto simp: byte_class_simps split: if_splits)

lemma utf8_char_replacement: "utf8_char replacementCharacterASCII"
  by (simp add: utf8_char_def replacementCharacterASCII_def byte_class_simps byte_of_def)

lemma concat_utf8_length: "utf8_text css \<Longrightarrow> length css \<le> length (concat css)"
proof (induction css)
  case (Cons c css)
  then show ?case using utf8_char_length [of c] by auto
qed simp

subsection \<open>The validation keeps complete characters\<close>

definition idle :: "validation \<Rightarrow> bool" where
  "idle v \<longleftrightarrow> multibyteSeqenceLength v = -1 \<and> multibyteSequencePosition v = -1"

lemma upt_parts:
  "[n..<n + 1] = [n]" "[n..<n + 2] = [n, n + 1]" "[n..<n + 3] = [n, n + 1, n + 2]"
  "[n..<n + 4] = [n, n + 1, n + 2, n + 3]"
  by (simp_all add: numeral_eq_Suc)

lemma fold_validate_char:
  assumes c: "utf8_char c" and v: "idle v"
  shows "fold (validateByte (pre @ c @ post)) [length pre..<length pre + length c] v =
    v\<lparr>validData := validData v @ c, characterCount := characterCount v + 1\<rparr>"
  using c
proof (cases rule: utf8_char_cases)
  case (one a)
  then show ?thesis using v lead_not_part [of a]
    by (simp add: validateByte_def idle_def nth_append)
next
  case (two a b)
  then show ?thesis using v lead_not_part [of a]
    by (simp add: validateByte_def idle_def nth_append upt_parts numeral_eq_Suc nat_add_distrib)
next
  case (three a b c)
  then show ?thesis using v lead_not_part [of a]
    by (simp add: validateByte_def idle_def nth_append upt_parts numeral_eq_Suc nat_add_distrib)
next
  case (four a b c d)
  then show ?thesis using v lead_not_part [of a]
    by (simp add: validateByte_def idle_def nth_append upt_parts numeral_eq_Suc nat_add_distrib)
qed

lemma fold_validate_text:
  "utf8_text css \<Longrightarrow> idle v \<Longrightarrow>
   fold (validateByte (pre @ concat css @ post)) [length pre..<length pre + length (concat css)] v =
    v\<lparr>validData := validData v @ concat css, characterCount := characterCount v + length css\<rparr>"
proof (induction css arbitrary: pre v)
  case (Cons c css)
  let ?v = "v\<lparr>validData := validData v @ c, characterCount := characterCount v + 1\<rparr>"
  let ?s = "pre @ concat (c # css) @ post"
  have split_upt: "[length pre..<length pre + length (concat (c # css))] =
    [length pre..<length pre + length c] @ [length (pre @ c)..<length (pre @ c) + length (concat css)]"
    using upt_add_eq_append [of "length pre" "length pre + length c" "length (concat css)"]
    by (simp add: add.assoc)
  have "fold (validateByte ?s) [length pre..<length pre + length c] v = ?v"
    using fold_validate_char [of c v pre "concat css @ post"] Cons.prems by simp
  moreover have "fold (validateByte ?s) [length (pre @ c)..<length (pre @ c) + length (concat css)] ?v =
    ?v\<lparr>validData := validData ?v @ concat css, characterCount := characterCount ?v + length css\<rparr>"
    using Cons.IH [of ?v "pre @ c"] Cons.prems by (simp add: idle_def)
  ultimately show ?case unfolding split_upt fold_append comp_apply by simp
qed simp

lemma byteLength_from_stops:
  assumes "\<And>i. n \<le> i \<Longrightarrow> i < m \<Longrightarrow> \<not> isStringTerminationCharacter s i"
    and "isStringTerminationCharacter s m" and "n \<le> m"
  shows "byteLength_from s n = m"
  using assms
proof (induction "m - n" arbitrary: n)
  case 0
  then show ?case by (subst byteLength_from.simps) simp
next
  case (Suc k)
  then have "\<not> isStringTerminationCharacter s n" by simp
  moreover have "byteLength_from s (n + 1) = m" using Suc by simp
  ultimately show ?case by (subst byteLength_from.simps) simp
qed

lemma termination_at_end: "isStringTerminationCharacter s (length s)"
  by (simp add: isStringTerminationCharacter_def c_at_def)

lemma width_terminators:
  "getByteWidthOfCharacter (CHR 0x00) = 1" "getByteWidthOfCharacter (CHR 0xC0) = 2"
  by code_simp+

lemma utf8_char_tail_part: "utf8_char c \<Longrightarrow> 0 < i \<Longrightarrow> i < length c \<Longrightarrow> getByteWidthOfCharacter (c ! i) = 0"
  by (rule part_width_0) (cases c; auto simp: utf8_char_def list_all_length)

lemma char_not_terminated:
  assumes c: "utf8_char c" and nt: "c \<noteq> [CHR 0x00]" "c \<noteq> [CHR 0xC0, CHR 0x80]" and i: "i < length c"
  shows "\<not> isStringTerminationCharacter (c @ t) i"
proof -
  have ci: "c_at (c @ t) i = c ! i" using i by (simp add: c_at_def nth_append)
  show ?thesis
  proof (cases "i = 0")
    case False
    then have "getByteWidthOfCharacter (c ! i) = 0" using utf8_char_tail_part c i by simp
    then show ?thesis
      using width_terminators ci by (auto simp: isStringTerminationCharacter_def Let_def)
  next
    case True
    then have hd: "getByteWidthOfCharacter (c ! i) = length c"
      using c by (auto simp: utf8_char_def hd_conv_nth)
    have "c ! i \<noteq> CHR 0x00"
    proof
      assume z: "c ! i = CHR 0x00"
      then have "length c = 1" using hd width_terminators by simp
      then show False using nt(1) z True by (cases c) auto
    qed
    moreover have False if z: "c ! i = CHR 0xC0" "c_at (c @ t) (i + 1) = CHR 0x80"
    proof -
      have "length c = 2" using hd width_terminators z by simp
      then show False using nt(2) z True by (auto simp: length_Suc_conv numeral_2_eq_2 c_at_def)
    qed
    ultimately show ?thesis using ci by (auto simp: isStringTerminationCharacter_def Let_def)
  qed
qed

lemma text_not_terminated:
  assumes "utf8_text css" and "terminator_free css" and "i < length (concat css)"
  shows "\<not> isStringTerminationCharacter (concat css) i"
  using assms
proof (induction css arbitrary: i)
  case (Cons c css)
  show ?case
  proof (cases "i < length c")
    case True
    then show ?thesis
      using char_not_terminated [of c i "concat css"] Cons.prems by (auto simp: terminator_free_def)
  next
    case False
    have "c_at (concat (c # css)) (i + k) = c_at (concat css) (i - length c + k)" for k
      using False by (auto simp: c_at_def nth_append)
    from this [of 0] this [of 1]
    have "isStringTerminationCharacter (concat (c # css)) i
        = isStringTerminationCharacter (concat css) (i - length c)"
      by (simp add: isStringTerminationCharacter_def)
    then show ?thesis
      using Cons.IH [of "i - length c"] Cons.prems False by (auto simp: terminator_free_def)
  qed
qed simp

lemma byteLength_text:
  "utf8_text css \<Longrightarrow> terminator_free css \<Longrightarrow> byteLength_from (concat css) 0 = length (concat css)"
  by (intro byteLength_from_stops text_not_terminated termination_at_end) auto

lemma validateString_text:
  assumes "utf8_text css" and "terminator_free css"
  shows "validateString (concat css) = \<lparr>mData = concat css, mStringLength = length css\<rparr>"
proof (cases "css = []")
  case False
  then obtain c cs' where css: "css = c # cs'" by (cases css) auto
  have "concat css \<noteq> []" using assms(1) css utf8_char_length [of c] by auto
  moreover have "\<not> isStringTerminationCharacter (concat css) 0"
    using text_not_terminated [OF assms, of 0] calculation by blast
  ultimately show ?thesis
    using fold_validate_text [of css validation_init "[]" "[]"] assms byteLength_text [OF assms]
    by (auto simp: validateString_def Let_def isStringTerminationCharacter_def idle_def
        validation_init_def)
qed (simp add: validateString_def UTF8String_empty_def c_at_def)

subsection \<open>The validation yields complete characters\<close>

definition pending :: "string \<Rightarrow> nat \<Rightarrow> validation \<Rightarrow> bool" where
  "pending s i v \<longleftrightarrow> (\<exists>p w. multibyteSequencePosition v = int p \<and> multibyteSeqenceLength v = int w \<and>
     p + 1 < w \<and> p + 1 \<le> i \<and> getByteWidthOfCharacter (s ! (i - 1 - p)) = w \<and>
     (\<forall>k. i - 1 - p < k \<and> k < i \<longrightarrow> isPartOfPreviousUtf8Multibyte (s ! k)))"

definition kept :: "validation \<Rightarrow> bool" where
  "kept v \<longleftrightarrow> (\<exists>css. utf8_text css \<and> terminator_free css \<and> validData v = concat css \<and>
     characterCount v = length css)"

definition validation_invariant :: "string \<Rightarrow> nat \<Rightarrow> validation \<Rightarrow> bool" where
  "validation_invariant s i v \<longleftrightarrow> kept v \<and> (idle v \<or> pending s i v)"

lemma kept_append:
  assumes "kept v" and "utf8_char c" and "c \<noteq> [CHR 0x00]" and "c \<noteq> [CHR 0xC0, CHR 0x80]"
    and "validData v' = validData v @ c" and "characterCount v' = characterCount v + 1"
  shows "kept v'"
proof -
  obtain css where "utf8_text css" "terminator_free css" "validData v = concat css"
    "characterCount v = length css" using assms(1) by (auto simp: kept_def)
  then show ?thesis
    unfolding kept_def using assms(2-)
    by (intro exI [of _ "css @ [c]"]) (auto simp: terminator_free_def)
qed

lemma kept_cong: "kept v \<Longrightarrow> validData v' = validData v \<Longrightarrow> characterCount v' = characterCount v \<Longrightarrow> kept v'"
  by (simp add: kept_def)

lemma kept_replacement:
  "kept v \<Longrightarrow> validData v' = validData v @ replacementCharacterASCII \<Longrightarrow>
    characterCount v' = characterCount v + 1 \<Longrightarrow> kept v'"
  by (rule kept_append) (auto simp: utf8_char_replacement, auto simp: replacementCharacterASCII_def)

lemma sequence_complete:
  assumes "p + 2 = w" "p + 1 \<le> i" "getByteWidthOfCharacter (s ! (i - 1 - p)) = w"
    and "\<forall>k. i - 1 - p < k \<and> k \<le> i \<longrightarrow> isPartOfPreviousUtf8Multibyte (s ! k)"
  defines "c \<equiv> map (\<lambda>j. s ! (i - 1 - p + j)) [0..<w]"
  shows "utf8_char c"
proof -
  have "hd c = s ! (i - 1 - p)" using assms(1) by (simp add: c_def hd_map)
  moreover have "list_all isPartOfPreviousUtf8Multibyte (tl c)"
    unfolding list_all_length
  proof (intro allI impI)
    fix n
    assume n: "n < length (tl c)"
    then have "n + 1 < w" by (simp add: c_def)
    then have "tl c ! n = s ! (i - 1 - p + (n + 1))"
      using n nth_map_upt [of "n + 1" w 0 "\<lambda>j. s ! (i - 1 - p + j)"] by (simp add: c_def nth_tl)
    moreover have "isPartOfPreviousUtf8Multibyte (s ! (i - 1 - p + (n + 1)))"
      using assms(1,2) \<open>n + 1 < w\<close> by (intro assms(4) [rule_format]) linarith
    ultimately show "isPartOfPreviousUtf8Multibyte (tl c ! n)" by simp
  qed
  ultimately show ?thesis using assms(1,3) by (auto simp: utf8_char_def c_def)
qed

lemma no_terminator_char:
  assumes "\<not> isStringTerminationCharacter s b" and "w + b \<le> length s" and "0 < w"
  shows "map (\<lambda>j. s ! (b + j)) [0..<w] \<noteq> [CHR 0x00]"
    and "map (\<lambda>j. s ! (b + j)) [0..<w] \<noteq> [CHR 0xC0, CHR 0x80]"
  using assms by (auto simp: isStringTerminationCharacter_def c_at_def Let_def map_eq_Cons_conv
      upt_eq_Cons_conv)

lemma validateByte_part:
  assumes inv: "validation_invariant s i v" and i: "i < length s"
    and nt: "\<And>k. k \<le> i \<Longrightarrow> \<not> isStringTerminationCharacter s k"
    and part: "isPartOfPreviousUtf8Multibyte (s ! i)"
  shows "validation_invariant s (i + 1) (validateByte s i v)"
proof -
  from inv consider "kept v" "idle v" | (p) "kept v" "pending s i v"
    by (auto simp: validation_invariant_def)
  then show ?thesis
  proof cases
    case 1
    then show ?thesis using part
      by (auto simp: validation_invariant_def idle_def validateByte_def Let_def
          intro: kept_replacement)
  next
    case p
    then obtain q w where q: "multibyteSequencePosition v = int q" "multibyteSeqenceLength v = int w"
      "q + 1 < w" "q + 1 \<le> i" "getByteWidthOfCharacter (s ! (i - 1 - q)) = w"
      "\<forall>k. i - 1 - q < k \<and> k < i \<longrightarrow> isPartOfPreviousUtf8Multibyte (s ! k)"
      by (auto simp: pending_def)
    have parts: "\<forall>k. i - 1 - q < k \<and> k \<le> i \<longrightarrow> isPartOfPreviousUtf8Multibyte (s ! k)"
      using q(6) part by (auto simp: le_less)
    show ?thesis
    proof (cases "q + 2 = w")
      case True
      let ?c = "map (\<lambda>j. s ! (i - 1 - q + j)) [0..<w]"
      let ?v = "validateByte s i v"
      have idx: "nat (int i - int w + 1 + int j) = i - 1 - q + j" for j
        using True q(4) by linarith
      have v': "validData ?v = validData v @ ?c" "characterCount ?v = characterCount v + 1" "idle ?v"
        using True part q(1,2) by (simp_all add: validateByte_def Let_def idx idle_def del: One_nat_def)
      have "utf8_char ?c" using sequence_complete [OF True q(4,5) parts] .
      moreover have "\<not> isStringTerminationCharacter s (i - 1 - q)" "w + (i - 1 - q) \<le> length s" "0 < w"
        using nt True q(4) i by auto
      ultimately have "kept ?v"
        by (intro kept_append [OF p(1) _ no_terminator_char v'(1,2)])
      then show ?thesis using v'(3) by (simp add: validation_invariant_def)
    next
      case False
      then have v': "validateByte s i v = v\<lparr>multibyteSequencePosition := int (q + 1)\<rparr>"
        using part q(1-3) by (simp add: validateByte_def Let_def)
      have "pending s (i + 1) (validateByte s i v)"
        unfolding v' pending_def using q(2-5) parts False
        by (intro exI [of _ "q + 1"] exI [of _ w]) auto
      moreover have "kept (validateByte s i v)" using p(1) by (rule kept_cong) (simp_all add: v')
      ultimately show ?thesis by (simp add: validation_invariant_def)
    qed
  qed
qed

lemma validateByte_ascii:
  assumes inv: "validation_invariant s i v" and i: "i < length s"
    and nt: "\<not> isStringTerminationCharacter s i"
    and w: "getByteWidthOfCharacter (s ! i) = 1"
  shows "validation_invariant s (i + 1) (validateByte s i v)"
proof -
  let ?v = "if multibyteSeqenceLength v \<ge> 0
            then v\<lparr>validData := validData v @ replacementCharacterASCII,
                   characterCount := characterCount v + 1\<rparr> else v"
  have k: "kept v" using inv by (simp add: validation_invariant_def)
  then have "kept ?v" using kept_replacement [OF k] by auto
  moreover have "utf8_char [s ! i]" "[s ! i] \<noteq> [CHR 0x00]"
    using w nt i by (auto simp: utf8_char_def isStringTerminationCharacter_def c_at_def)
  ultimately have "kept (validateByte s i v)"
    using w lead_not_part [of "s ! i"]
    by (elim kept_append [of ?v "[s ! i]"]) (simp_all add: validateByte_def Let_def)
  moreover have "idle (validateByte s i v)"
    using w lead_not_part [of "s ! i"] by (simp add: validateByte_def Let_def idle_def)
  ultimately show ?thesis by (simp add: validation_invariant_def)
qed

lemma validateByte_lead:
  assumes inv: "validation_invariant s i v"
    and w: "getByteWidthOfCharacter (s ! i) > 1"
  shows "validation_invariant s (i + 1) (validateByte s i v)"
proof -
  have k: "kept v" using inv by (simp add: validation_invariant_def)
  have np: "\<not> isPartOfPreviousUtf8Multibyte (s ! i)" using w lead_not_part by simp
  have "kept (validateByte s i v)"
  proof (cases "multibyteSeqenceLength v = -1")
    case True
    then show ?thesis using k w np by (elim kept_cong) (simp_all add: validateByte_def Let_def)
  next
    case False
    then show ?thesis using k w np by (elim kept_replacement) (simp_all add: validateByte_def Let_def)
  qed
  moreover have "pending s (i + 1) (validateByte s i v)"
    unfolding pending_def using w np
    by (intro exI [of _ 0] exI [of _ "getByteWidthOfCharacter (s ! i)"])
      (auto simp: validateByte_def Let_def)
  ultimately show ?thesis by (simp add: validation_invariant_def)
qed

text \<open>Bytes that occur in no encoding of a character: 0xF8 to 0xFF.\<close>

definition utf8_bytes :: "string \<Rightarrow> bool" where
  "utf8_bytes s \<longleftrightarrow> list_all (\<lambda>c. byte_of c < 248) s"

lemma byte_kinds:
  "byte_of c < 248 \<Longrightarrow>
    isPartOfPreviousUtf8Multibyte c \<or> getByteWidthOfCharacter c = 1 \<or> getByteWidthOfCharacter c > 1"
  by (simp add: byte_class_simps)

lemma validateByte_invariant:
  assumes "validation_invariant s i v" and "i < length s" and "utf8_bytes s"
    and "\<And>k. k \<le> i \<Longrightarrow> \<not> isStringTerminationCharacter s k"
  shows "validation_invariant s (i + 1) (validateByte s i v)"
  using byte_kinds [of "s ! i"] assms validateByte_part validateByte_ascii validateByte_lead
  by (metis list_all_length order_refl utf8_bytes_def)

lemma fold_validateByte_invariant:
  assumes "utf8_bytes s" and "n \<le> length s" and "\<And>k. k < n \<Longrightarrow> \<not> isStringTerminationCharacter s k"
  shows "validation_invariant s n (fold (validateByte s) [0..<n] validation_init)"
  using assms(2,3)
proof (induction n)
  case 0
  have "kept validation_init"
    by (auto simp: kept_def validation_init_def terminator_free_def intro: exI [of _ "[]"])
  then show ?case by (simp add: validation_invariant_def idle_def validation_init_def)
next
  case (Suc n)
  then show ?case
    using validateByte_invariant [of s n, OF _ _ assms(1)] by (simp add: less_Suc_eq_le)
qed

lemma byteLength_from_spec:
  "(\<forall>k<n. \<not> isStringTerminationCharacter s k) \<Longrightarrow> n \<le> length s \<Longrightarrow>
    byteLength_from s n \<le> length s \<and>
    (\<forall>k < byteLength_from s n. \<not> isStringTerminationCharacter s k)"
proof (induction s n rule: byteLength_from.induct)
  case (1 s n)
  show ?case
  proof (cases "isStringTerminationCharacter s n")
    case True
    then show ?thesis using "1.prems" by (subst (1 2) byteLength_from.simps) simp
  next
    case False
    then have "n < length s" using termination_at_end [of s] "1.prems" by (metis le_neq_implies_less)
    then show ?thesis
      using "1.IH" [OF False] False "1.prems" by (subst (1 2) byteLength_from.simps)
        (auto simp: less_Suc_eq)
  qed
qed

lemma validateString_well_formed:
  assumes "utf8_bytes s"
  shows "\<exists>css. utf8_text css \<and> terminator_free css \<and>
    validateString s = \<lparr>mData = concat css, mStringLength = length css\<rparr>"
proof (cases "c_at s 0 = CHR 0x00 \<or> byteLength_from s 0 = 0")
  case True
  then show ?thesis
    by (intro exI [of _ "[]"]) (auto simp: validateString_def UTF8String_empty_def terminator_free_def)
next
  case False
  have "byteLength_from s 0 \<le> length s"
    "\<forall>k < byteLength_from s 0. \<not> isStringTerminationCharacter s k"
    using byteLength_from_spec [of 0 s] by auto
  then have "kept (fold (validateByte s) [0..<byteLength_from s 0] validation_init)"
    using fold_validateByte_invariant assms by (simp add: validation_invariant_def)
  then show ?thesis using False by (auto simp: validateString_def Let_def kept_def)
qed

subsection \<open>Substrings of a text\<close>

text \<open>
  The loop of \<open>substring\<close> on a text: its variables after \<open>k\<close> characters.
\<close>

definition substring_at :: "string list \<Rightarrow> nat \<Rightarrow> nat \<Rightarrow> substring_vars" where
  "substring_at css start k =
     \<lparr>byteIndex = length (concat (take k css)),
      byteOffsetStart = (if start < k then length (concat (take start css)) else 0),
      byteOffsetEnd = (if k = 0 then 0 else int (length (concat (take k css))) - 1),
      characterIndex = k,
      characterCounter = k - start\<rparr>"

lemma substring_at_sel:
  "byteIndex (substring_at css start k) = length (concat (take k css))"
  "characterCounter (substring_at css start k) = k - start"
  by (simp_all add: substring_at_def)

lemma concat_take_Suc:
  "k < length css \<Longrightarrow> length (concat (take (Suc k) css)) = length (concat (take k css)) + length (css ! k)"
  by (simp add: take_Suc_conv_app_nth)

lemma concat_nth_take:
  assumes "k < length css" and "css ! k \<noteq> []"
  shows "length (concat (take k css)) < length (concat css)"
    and "concat css ! length (concat (take k css)) = hd (css ! k)"
proof -
  have "css = take k css @ css ! k # drop (Suc k) css" using assms(1) by (simp add: id_take_nth_drop)
  then have "concat css = concat (take k css) @ css ! k @ concat (drop (Suc k) css)"
    by (metis concat.simps(2) concat_append)
  then show "length (concat (take k css)) < length (concat css)"
    "concat css ! length (concat (take k css)) = hd (css ! k)"
    using assms(2) by (auto simp: nth_append hd_conv_nth)
qed

lemma utf8_text_nth: "utf8_text css \<Longrightarrow> k < length css \<Longrightarrow> utf8_char (css ! k)"
  by (simp add: utf8_text_def list_all_length)

lemma substring_step_at:
  assumes "utf8_text css" and "k < length css"
  shows "substring_step (concat css) start (substring_at css start k) = substring_at css start (Suc k)"
proof -
  have c: "utf8_char (css ! k)" using assms by (rule utf8_text_nth)
  then have ne: "css ! k \<noteq> []" by (simp add: utf8_char_def)
  have "getByteWidthOfCharacter (concat css ! length (concat (take k css))) = length (css ! k)"
    using concat_nth_take(2) [OF assms(2) ne] c by (simp add: utf8_char_def)
  then show ?thesis
    using concat_take_Suc [OF assms(2)]
    by (auto simp: substring_step_def substring_at_def Let_def)
qed

lemma substring_loop_at:
  assumes "utf8_text css" and "k \<le> min (length css) (start + len)" and "0 < len"
  shows "substring_loop (concat css) start len (substring_at css start k) =
    substring_at css start (min (length css) (start + len))"
  using assms(2)
proof (induction "min (length css) (start + len) - k" arbitrary: k)
  case 0
  then have k: "k = min (length css) (start + len)" by simp
  show ?case
    by (subst substring_loop.simps) (auto simp: k substring_at_def min_def)
next
  case (Suc n)
  then have k: "k < length css" "k < start + len" by auto
  then have "css ! k \<noteq> []" using utf8_text_nth [OF assms(1)] by (auto simp: utf8_char_def)
  then have "length (concat (take k css)) < length (concat css)"
    using concat_nth_take(1) k(1) by blast
  moreover have "k - start < len" using k(2) assms(3) by (cases "k < start") auto
  moreover have "Suc k \<le> min (length css) (start + len)"
    "n = min (length css) (start + len) - Suc k" using k Suc.hyps(2) by auto
  ultimately show ?case
    using Suc.hyps(1) [of "Suc k"] substring_step_at [OF assms(1) k(1)]
    by (subst substring_loop.simps) (simp add: substring_at_sel)
qed
lemma length_concat_take_mono: "i \<le> j \<Longrightarrow> length (concat (take i css)) \<le> length (concat (take j css))"
proof -
  assume "i \<le> j"
  then have "take j css = take i css @ take (j - i) (drop i css)"
    by (metis le_add_diff_inverse take_add)
  then show ?thesis by simp
qed

lemma concat_take_bounded: "length (concat (take k css)) \<le> length (concat css)"
  using length_concat_take_mono [of k "max k (length css)" css] by simp

lemma concat_middle:
  assumes "i \<le> j"
  shows "take (length (concat (take j css)) - length (concat (take i css)))
      (drop (length (concat (take i css))) (concat css)) = concat (take (j - i) (drop i css))"
proof -
  have "css = take i css @ take (j - i) (drop i css) @ drop j css"
    by (metis append_take_drop_id assms drop_drop le_add_diff_inverse2)
  then have c: "concat css = concat (take i css) @ concat (take (j - i) (drop i css)) @ concat (drop j css)"
    by (metis concat_append)
  have "take j css = take i css @ take (j - i) (drop i css)"
    using assms by (metis le_add_diff_inverse take_add)
  then have "length (concat (take j css)) - length (concat (take i css)) = length (concat (take (j - i) (drop i css)))"
    by simp
  then show ?thesis by (simp only: c) simp
qed

lemma size_t_pred: "0 < n \<Longrightarrow> n < npos \<Longrightarrow> nat ((int n - 1) mod 2 ^ 64) = n - 1"
proof -
  assume n: "0 < n" "n < npos"
  then have "(int n - 1) mod 2 ^ 64 = int n - 1"
    by (intro mod_pos_pos_trivial) (simp_all add: npos_def)
  then show ?thesis using n by simp
qed

lemma substring_text:
  assumes wf: "utf8_text css" and start: "start < length css" and len: "0 < len"
    and size: "length (concat css) < npos"
  shows "substring \<lparr>mData = concat css, mStringLength = n\<rparr> start len =
    \<lparr>mData = concat (take len (drop start css)), mStringLength = min len (length css - start)\<rparr>"
proof -
  let ?K = "min (length css) (start + len)"
  let ?d = "concat css"
  let ?v = "substring_at css start ?K"
  have K: "start < ?K" using start len by simp
  have loop: "substring_loop ?d start len (substring_at css start 0) = ?v"
    using substring_loop_at [OF wf, of 0 start len] len by simp
  have "css ! start \<noteq> []" using utf8_text_nth [OF wf start] by (auto simp: utf8_char_def)
  then have "length (concat (take start css)) < length (concat (take (Suc start) css))"
    using concat_take_Suc [OF start] by (cases "css ! start") auto
  also have "\<dots> \<le> length (concat (take ?K css))" using K by (intro length_concat_take_mono) simp
  finally have less: "length (concat (take start css)) < length (concat (take ?K css))" .
  have le: "length (concat (take ?K css)) \<le> length ?d" by (rule concat_take_bounded)
  have e: "nat (byteOffsetEnd ?v mod 2 ^ 64) = length (concat (take ?K css)) - 1"
    using size_t_pred [OF le_less_trans [OF le0 less] le_less_trans [OF le size]] K
    by (simp add: substring_at_def)
  have start_at: "substring_at css start 0 =
      \<lparr>byteIndex = 0, byteOffsetStart = 0, byteOffsetEnd = 0, characterIndex = 0, characterCounter = 0\<rparr>"
    by (simp add: substring_at_def)
  have v: "byteOffsetStart ?v = length (concat (take start css))"
    "characterCounter ?v = min len (length css - start)"
    using K by (auto simp: substring_at_def)
  have m: "take (length (concat (take ?K css)) - length (concat (take start css)))
      (drop (length (concat (take start css))) ?d) = concat (take len (drop start css))"
    using concat_middle [of start ?K css] K by (auto simp: min_def)
  have g: "\<not> (len = 0 \<or> start > length ?d)" using start len concat_utf8_length [OF wf] by simp
  have k: "length (concat (take start css)) \<noteq> npos \<and>
      length (concat (take start css)) \<le> length (concat (take ?K css)) - 1 \<and>
      length (concat (take ?K css)) - 1 < length ?d"
    using less le size by linarith
  have n: "length (concat (take ?K css)) - 1 + 1 = length (concat (take ?K css))"
    using less by linarith
  show ?thesis
    unfolding substring_def Let_def UTF8String.select_convs loop [unfolded start_at] e v if_not_P [OF g]
      if_P [OF k] n m ..
qed

lemma substring_behind_text:
  assumes wf: "utf8_text css" and start: "length css \<le> start" "start \<le> length (concat css)"
    and len: "0 < len" and ne: "css \<noteq> []" and size: "length (concat css) < npos"
  shows "substring \<lparr>mData = concat css, mStringLength = n\<rparr> start len =
    \<lparr>mData = concat css, mStringLength = 0\<rparr>"
proof -
  let ?v = "substring_at css start (length css)"
  have loop: "substring_loop (concat css) start len
      \<lparr>byteIndex = 0, byteOffsetStart = 0, byteOffsetEnd = 0, characterIndex = 0, characterCounter = 0\<rparr> = ?v"
    using substring_loop_at [OF wf, of 0 start len] start len by (simp add: min_def substring_at_def)
  have pos: "0 < length (concat css)"
    using concat_utf8_length [OF wf] ne by (metis length_greater_0_conv less_le_trans)
  have e: "nat (byteOffsetEnd ?v mod 2 ^ 64) = length (concat css) - 1"
    using size_t_pred [OF pos size] ne by (simp add: substring_at_def)
  have v: "byteOffsetStart ?v = 0" "characterCounter ?v = 0"
    using start by (simp_all add: substring_at_def)
  have "\<not> (len = 0 \<or> start > length (concat css))" using start len by simp
  then show ?thesis
    unfolding substring_def Let_def UTF8String.select_convs loop e v
    using pos by (simp add: npos_def del: length_concat)
qed

subsection \<open>Search in ASCII data, and the items of a split\<close>

lemma ascii_width: "byte_of c < 128 \<Longrightarrow> getByteWidthOfCharacter c = 1"
  by (simp add: byteWidth_eq)

lemma getIndexOf_loop_ascii:
  assumes d: "list_all (\<lambda>c. byte_of c < 128) d" and c: "byte_of c < 128"
  shows "getIndexOf_loop d (c # cs) offset i i =
    Inr (case find (\<lambda>j. offset \<le> j \<and> d ! j = c) [i..<length d] of None \<Rightarrow> npos | Some k \<Rightarrow> k)"
proof (induction "length d - i" arbitrary: i)
  case 0
  then show ?case by (subst getIndexOf_loop.simps) simp
next
  case (Suc n)
  then have i: "i < length d" by simp
  then have w: "getByteWidthOfCharacter (c_at d i) = 1" "c_at d i = d ! i"
    using d ascii_width by (auto simp: c_at_def list_all_length)
  have "[i..<length d] = i # [i + 1..<length d]" using i by (simp add: upt_conv_Cons)
  moreover have "n = length d - (i + 1)" using Suc.hyps(2) by simp
  ultimately show ?case
    using Suc.hyps(1) [of "i + 1"] i w ascii_width [OF c]
    by (subst getIndexOf_loop.simps) (auto simp: Let_def c_at_def)
qed

fun join_with :: "char \<Rightarrow> string list \<Rightarrow> string" where
  "join_with d [] = []"
| "join_with d [p] = p"
| "join_with d (p # q # ps) = p @ d # join_with d (q # ps)"

lemma getline_items_unfold:
  "getline_items d [] = []"
  "s \<noteq> [] \<Longrightarrow> getline_items d s = takeWhile (\<lambda>c. c \<noteq> d) s #
     getline_items d (drop 1 (dropWhile (\<lambda>c. c \<noteq> d) s))"
  by (subst getline_items.simps, simp)+

lemma getline_items_join:
  "list_all (\<lambda>p. d \<notin> set p) ps \<Longrightarrow> ps \<noteq> [] \<Longrightarrow> last ps \<noteq> [] \<Longrightarrow>
   getline_items d (join_with d ps) = ps"
proof (induction d ps rule: join_with.induct)
  case (2 d p)
  then have d: "d \<notin> set p" and ne: "p \<noteq> []" by simp_all
  then have t: "takeWhile (\<lambda>c. c \<noteq> d) p = p" and w: "dropWhile (\<lambda>c. c \<noteq> d) p = []"
    by (auto simp: takeWhile_eq_all_conv dropWhile_eq_Nil_conv)
  show ?case unfolding join_with.simps getline_items_unfold(2) [OF ne] t w
    by (simp add: getline_items_unfold)
next
  case (3 d p q ps)
  let ?r = "join_with d (q # ps)"
  have "takeWhile (\<lambda>c. c \<noteq> d) (p @ d # ?r) = p" "dropWhile (\<lambda>c. c \<noteq> d) (p @ d # ?r) = d # ?r"
    using 3 by (auto intro!: takeWhile_append_stop dropWhile_append_stop)
  then have "getline_items d (p @ d # ?r) = p # getline_items d ?r"
    by (simp add: getline_items_unfold)
  then show ?case using 3 by simp
qed simp_all

subsection \<open>Properties\<close>

text \<open>A text of complete characters without a string terminator passes the constructor
  unchanged: the string keeps exactly its bytes, and the length it reports is the
  number of characters, not of bytes.\<close>

theorem UTF8String_keeps_text:
  assumes "utf8_text css" and "terminator_free css"
  shows "UTF8String_of (concat css) = \<lparr>mData = concat css, mStringLength = length css\<rparr>"
  unfolding UTF8String_of_def using assms by (rule validateString_text)

lemma UTF8String_keeps_text_witness:
  "UTF8String_of (concat [[CHR 0x41], [CHR 0xC3, CHR 0xA4], [CHR 0xE2, CHR 0x82, CHR 0xAC]])
    = \<lparr>mData = [CHR 0x41, CHR 0xC3, CHR 0xA4, CHR 0xE2, CHR 0x82, CHR 0xAC], mStringLength = 3\<rparr>"
  using UTF8String_keeps_text [of "[[CHR 0x41], [CHR 0xC3, CHR 0xA4], [CHR 0xE2, CHR 0x82, CHR 0xAC]]"]
  by (simp add: utf8_char_def byte_class_simps byte_of_def terminator_free_def)

text \<open>C32: Whatever the sequence of bytes below 0xF8 given to the constructor, truncated and
  misplaced sequences included, the string built consists of complete characters,
  their number is the length reported, and building a string from its data again
  changes nothing.\<close>

theorem UTF8String_well_formed:
  assumes "utf8_bytes s"
  shows "(\<exists>css. utf8_text css \<and> mData (UTF8String_of s) = concat css \<and>
            mStringLength (UTF8String_of s) = length css)
    \<and> UTF8String_of (mData (UTF8String_of s)) = UTF8String_of s"
proof -
  obtain css where "utf8_text css" "terminator_free css"
    "validateString s = \<lparr>mData = concat css, mStringLength = length css\<rparr>"
    using validateString_well_formed [OF assms] by blast
  then show ?thesis using validateString_text [of css] by (auto simp: UTF8String_of_def)
qed

lemma UTF8String_well_formed_witness:
  "UTF8String_of (mData (UTF8String_of [CHR 0x41, CHR 0xE2, CHR 0x82, CHR 0x42, CHR 0xAC]))
    = UTF8String_of [CHR 0x41, CHR 0xE2, CHR 0x82, CHR 0x42, CHR 0xAC]"
proof -
  have "utf8_bytes [CHR 0x41, CHR 0xE2, CHR 0x82, CHR 0x42, CHR 0xAC]"
    by (simp add: utf8_bytes_def byte_of_def)
  from UTF8String_well_formed [OF this] show ?thesis by (rule conjunct2)
qed

text \<open>A byte from 0xF8 to 0xFF inside a sequence is not noticed: the sequence then counts
  as complete, with the wrong bytes, and its data begins with a byte that starts no
  character.\<close>

theorem UTF8String_invalid_byte_kept:
  "UTF8String_of [CHR 0xE2, CHR 0xFF, CHR 0x82, CHR 0xAC]
     = \<lparr>mData = [CHR 0xFF, CHR 0x82, CHR 0xAC], mStringLength = 1\<rparr>
   \<and> getByteWidthOfCharacter (CHR 0xFF) = 0"
proof -
  have "byteLength_from [CHR 0xE2, CHR 0xFF, CHR 0x82, CHR 0xAC] 0 = 4"
    by code_simp
  then show ?thesis
    by (simp add: UTF8String_of_def validateString_def validateByte_def Let_def byte_class_simps
        byte_of_def validation_init_def c_at_def upt_parts upt_rec numeral_eq_Suc)
qed

text \<open>For a start inside the text, \<open>substring\<close> returns exactly the wanted characters, cut
  at the end of the text, and reports their number.\<close>

theorem substring_characters:
  assumes "utf8_text css" and "start < length css" and "0 < len" and "length (concat css) < npos"
  shows "substring \<lparr>mData = concat css, mStringLength = length css\<rparr> start len =
    \<lparr>mData = concat (take len (drop start css)), mStringLength = min len (length css - start)\<rparr>"
  using assms by (rule substring_text)

lemma substring_characters_witness:
  "substring \<lparr>mData = concat [[CHR 0xC3, CHR 0xA4], [CHR 0x41], [CHR 0xC3, CHR 0xB6], [CHR 0x42]],
      mStringLength = 4\<rparr> 1 2
    = \<lparr>mData = [CHR 0x41, CHR 0xC3, CHR 0xB6], mStringLength = 2\<rparr>"
proof -
  let ?css = "[[CHR 0xC3, CHR 0xA4], [CHR 0x41], [CHR 0xC3, CHR 0xB6], [CHR 0x42]]"
  have "utf8_text ?css" by (simp add: utf8_char_def byte_class_simps byte_of_def)
  moreover have "length (concat ?css) < npos" by (simp add: npos_def)
  ultimately show ?thesis
    using substring_characters [of ?css 1 2] by (simp add: numeral_eq_Suc)
qed

text \<open>For a start behind the last character but not behind the last byte, \<open>substring\<close>
  does not return the empty string: it returns all the data, with length 0.\<close>

theorem substring_behind_end:
  assumes "utf8_text css" and "css \<noteq> []" and "length css \<le> start" and "start \<le> length (concat css)"
    and "0 < len" and "length (concat css) < npos"
  shows "substring \<lparr>mData = concat css, mStringLength = length css\<rparr> start len =
    \<lparr>mData = concat css, mStringLength = 0\<rparr>"
  using assms by (intro substring_behind_text)

lemma substring_behind_end_witness:
  "substring \<lparr>mData = ''cp='', mStringLength = 3\<rparr> 3 npos = \<lparr>mData = ''cp='', mStringLength = 0\<rparr>"
proof -
  have "utf8_text [''c'', ''p'', ''='']" by (simp add: utf8_char_def byte_class_simps byte_of_def)
  moreover have "length (concat [''c'', ''p'', ''='']) < npos" "0 < npos" by (simp_all add: npos_def)
  ultimately show ?thesis
    using substring_behind_end [of "[''c'', ''p'', ''='']" 3 npos] by (simp add: numeral_eq_Suc)
qed

text \<open>In ASCII data \<open>getIndexOf\<close> finds the first occurrence of the character at or behind
  the offset, and reads no byte outside the string.\<close>

theorem getIndexOf_ascii:
  assumes "list_all (\<lambda>c. byte_of c < 128) (mData s)" and "byte_of c < 128"
  shows "getIndexOf s [c] offset =
    Inr (case find (\<lambda>j. offset \<le> j \<and> mData s ! j = c) [0..<length (mData s)] of
           None \<Rightarrow> npos | Some k \<Rightarrow> k)"
proof (cases "offset = npos \<and> offset \<ge> length (mData s)")
  case True
  then have "find (\<lambda>j. offset \<le> j \<and> mData s ! j = c) [0..<length (mData s)] = None"
    by (auto simp: find_None_iff)
  then show ?thesis using True by (simp add: getIndexOf_def)
next
  case False
  then show ?thesis unfolding getIndexOf_def if_not_P [OF False]
    using getIndexOf_loop_ascii [OF assms, of "[]" offset 0] by simp
qed

lemma getIndexOf_ascii_witness:
  "getIndexOf \<lparr>mData = ''a=b=c'', mStringLength = 5\<rparr> ''='' 2 = Inr 3"
  using getIndexOf_ascii [of "\<lparr>mData = ''a=b=c'', mStringLength = 5\<rparr>" "CHR ''=''" 2]
  by (simp add: byte_of_def upt_rec)

text \<open>
  In data with multi-byte characters the loop of \<open>getIndexOf\<close> runs once per byte but
  advances by characters, so that it reads behind the string when it finds nothing.
\<close>

lemma getIndexOf_reads_behind_end:
  "getIndexOf \<lparr>mData = [CHR 0xF0, CHR 0x9F, CHR 0x98, CHR 0x80], mStringLength = 1\<rparr> ''='' 0 = Inl 5"
  by (simp add: getIndexOf_def npos_def getIndexOf_loop.simps c_at_def byteWidth_eq byte_of_def)

end
