(* ===== verification/Beacon_Cache_Entry.thy ===== *)
theory Beacon_Cache_Entry
  imports Containers Utf8_String
begin

text \<open>
  The records of one beacon (src/core/caching/BeaconCacheRecord.cxx,
  BeaconCacheEntry.cxx, BeaconKey.cxx): two lists that collect events and actions, and
  two that hold what is being sent. The lemmas give the number of records a chunk
  takes, the text of a chunk, the accounting of the bytes, and the abstraction of an
  entry to the two queues of records it stands for.
\<close>

unbundle bit_operations_syntax

subsection \<open>Beacon keys\<close>

record BeaconKey =
  mBeaconId :: int32
  mBeaconSequenceNumber :: int32

definition hashCombine :: "64 word \<Rightarrow> 64 word \<Rightarrow> 64 word" where
  "hashCombine seed value =
     seed XOR (value + 0x9e3779b9 + push_bit 6 seed + drop_bit 2 seed)"

definition BeaconKey_Hash :: "BeaconKey \<Rightarrow> 64 word" where
  "BeaconKey_Hash beaconKey =
     hashCombine (hashCombine 0 (scast (mBeaconId beaconKey))) (scast (mBeaconSequenceNumber beaconKey))"

definition BeaconKey_eq :: "BeaconKey \<Rightarrow> BeaconKey \<Rightarrow> bool" where
  "BeaconKey_eq a b \<longleftrightarrow> mBeaconId a = mBeaconId b \<and> mBeaconSequenceNumber a = mBeaconSequenceNumber b"

lemma BeaconKey_eq_iff [simp]: "BeaconKey_eq a b \<longleftrightarrow> a = b"
  by (cases a; cases b) (simp add: BeaconKey_eq_def)

interpretation beacon_key: hashed_key BeaconKey_eq BeaconKey_Hash
  by unfold_locales auto

subsection \<open>Records\<close>

record BeaconCacheRecord =
  mTimestamp :: int64
  mRecordData :: UTF8String
  mMarkedForSending :: bool

definition BeaconCacheRecord_new :: "int64 \<Rightarrow> UTF8String \<Rightarrow> BeaconCacheRecord" where
  "BeaconCacheRecord_new timestamp d = \<lparr>mTimestamp = timestamp, mRecordData = d, mMarkedForSending = False\<rparr>"

definition getDataSizeInBytes :: "BeaconCacheRecord \<Rightarrow> int64" where
  "getDataSizeInBytes r =
     (if utf8_isEmpty (mRecordData r) then 0 else word_of_nat (length (mData (mRecordData r))))"

definition markForSending :: "BeaconCacheRecord \<Rightarrow> BeaconCacheRecord" where
  "markForSending r = r\<lparr>mMarkedForSending := True\<rparr>"

definition unsetSending :: "BeaconCacheRecord \<Rightarrow> BeaconCacheRecord" where
  "unsetSending r = r\<lparr>mMarkedForSending := False\<rparr>"

definition record_eq :: "BeaconCacheRecord \<Rightarrow> BeaconCacheRecord \<Rightarrow> bool" where
  "record_eq a b \<longleftrightarrow> mTimestamp a = mTimestamp b \<and> equals (mRecordData a) (mRecordData b) \<and>
     mMarkedForSending a = mMarkedForSending b"

subsection \<open>The entry and its operations\<close>

record BeaconCacheEntry =
  mEventData :: "BeaconCacheRecord list"
  mActionData :: "BeaconCacheRecord list"
  mEventDataBeingSent :: "BeaconCacheRecord list"
  mActionDataBeingSent :: "BeaconCacheRecord list"
  mTotalNumBytes :: int64

definition BeaconCacheEntry_new :: BeaconCacheEntry where
  "BeaconCacheEntry_new =
     \<lparr>mEventData = [], mActionData = [], mEventDataBeingSent = [], mActionDataBeingSent = [],
      mTotalNumBytes = 0\<rparr>"

definition entry_addEventData :: "BeaconCacheRecord \<Rightarrow> BeaconCacheEntry \<Rightarrow> BeaconCacheEntry" where
  "entry_addEventData r e =
     e\<lparr>mEventData := mEventData e @ [r], mTotalNumBytes := mTotalNumBytes e + getDataSizeInBytes r\<rparr>"

definition entry_addActionData :: "BeaconCacheRecord \<Rightarrow> BeaconCacheEntry \<Rightarrow> BeaconCacheEntry" where
  "entry_addActionData r e =
     e\<lparr>mActionData := mActionData e @ [r], mTotalNumBytes := mTotalNumBytes e + getDataSizeInBytes r\<rparr>"

definition needsDataCopyBeforeSending :: "BeaconCacheEntry \<Rightarrow> bool" where
  "needsDataCopyBeforeSending e \<longleftrightarrow>
     mActionDataBeingSent e = [] \<and> mEventDataBeingSent e = [] \<and> (mEventData e \<noteq> [] \<or> mActionData e \<noteq> [])"

text \<open>\<^verbatim>\<open>splice\<close> moves the elements to the front of the target and empties the source.\<close>

definition copyDataForSending :: "BeaconCacheEntry \<Rightarrow> BeaconCacheEntry" where
  "copyDataForSending e =
     e\<lparr>mActionDataBeingSent := mActionData e @ mActionDataBeingSent e, mActionData := [],
       mEventDataBeingSent := mEventData e @ mEventDataBeingSent e, mEventData := [],
       mTotalNumBytes := 0\<rparr>"

definition hasDataToSend :: "BeaconCacheEntry \<Rightarrow> bool" where
  "hasDataToSend e \<longleftrightarrow> mEventDataBeingSent e \<noteq> [] \<or> mActionDataBeingSent e \<noteq> []"

primrec chunkifyDataList ::
    "UTF8String \<Rightarrow> BeaconCacheRecord list \<Rightarrow> nat \<Rightarrow> UTF8String \<Rightarrow> UTF8String \<times> BeaconCacheRecord list" where
  "chunkifyDataList chunk [] maxSize delimiter = (chunk, [])"
| "chunkifyDataList chunk (r # dataBeingSent) maxSize delimiter =
     (if mStringLength chunk \<le> maxSize
      then (let (chunk', rest) =
                  chunkifyDataList (concatenate (concatenate chunk delimiter) (mRecordData r))
                    dataBeingSent maxSize delimiter
            in (chunk', markForSending r # rest))
      else (chunk, r # dataBeingSent))"

definition getNextChunk ::
    "UTF8String \<Rightarrow> nat \<Rightarrow> UTF8String \<Rightarrow> BeaconCacheEntry \<Rightarrow> UTF8String \<times> BeaconCacheEntry" where
  "getNextChunk chunkPrefix maxSize delimiter e =
     (let chunk = concatenate UTF8String_empty chunkPrefix;
          (chunk, events) = chunkifyDataList chunk (mEventDataBeingSent e) maxSize delimiter;
          (chunk, actions) = chunkifyDataList chunk (mActionDataBeingSent e) maxSize delimiter
      in (chunk, e\<lparr>mEventDataBeingSent := events, mActionDataBeingSent := actions\<rparr>))"

definition getChunk ::
    "UTF8String \<Rightarrow> nat \<Rightarrow> UTF8String \<Rightarrow> BeaconCacheEntry \<Rightarrow> UTF8String \<times> BeaconCacheEntry" where
  "getChunk chunkPrefix maxSize delimiter e =
     (if \<not> hasDataToSend e then (UTF8String_empty, e)
      else getNextChunk chunkPrefix maxSize delimiter e)"

text \<open>The first traversal always reaches the end of the event list, so both lists are cleaned.\<close>

definition removeDataMarkedForSending :: "BeaconCacheEntry \<Rightarrow> BeaconCacheEntry" where
  "removeDataMarkedForSending e =
     (if \<not> hasDataToSend e then e
      else e\<lparr>mEventDataBeingSent := filter (\<lambda>r. \<not> mMarkedForSending r) (mEventDataBeingSent e),
             mActionDataBeingSent := filter (\<lambda>r. \<not> mMarkedForSending r) (mActionDataBeingSent e)\<rparr>)"

definition resetDataMarkedForSending :: "BeaconCacheEntry \<Rightarrow> BeaconCacheEntry" where
  "resetDataMarkedForSending e =
     (if \<not> hasDataToSend e then e
      else
        (let events = map unsetSending (mEventDataBeingSent e);
             actions = map unsetSending (mActionDataBeingSent e);
             numBytes = sum_list (map getDataSizeInBytes events) + sum_list (map getDataSizeInBytes actions)
         in e\<lparr>mEventData := events @ mEventData e, mEventDataBeingSent := [],
              mActionData := actions @ mActionData e, mActionDataBeingSent := [],
              mTotalNumBytes := mTotalNumBytes e + numBytes\<rparr>))"

primrec records_removeOlderThan ::
    "int64 \<Rightarrow> BeaconCacheRecord list \<Rightarrow> int32 \<times> BeaconCacheRecord list" where
  "records_removeOlderThan minTimestamp [] = (0, [])"
| "records_removeOlderThan minTimestamp (r # records) =
     (let (numRecordsRemoved, rest) = records_removeOlderThan minTimestamp records in
      if sint (mTimestamp r) < sint minTimestamp then (numRecordsRemoved + 1, rest)
      else (numRecordsRemoved, r # rest))"

definition removeRecordsOlderThan :: "int64 \<Rightarrow> BeaconCacheEntry \<Rightarrow> int32 \<times> BeaconCacheEntry" where
  "removeRecordsOlderThan minTimestamp e =
     (let (n, events) = records_removeOlderThan minTimestamp (mEventData e);
          (m, actions) = records_removeOlderThan minTimestamp (mActionData e)
      in (n + m, e\<lparr>mEventData := events, mActionData := actions\<rparr>))"

text \<open>
  Both iterators stay at the beginning of their list, since only the first element is
  ever erased.
\<close>

function removeOldest_loop ::
    "int32 \<Rightarrow> int32 \<Rightarrow> BeaconCacheRecord list \<Rightarrow> BeaconCacheRecord list
      \<Rightarrow> int32 \<times> BeaconCacheRecord list \<times> BeaconCacheRecord list" where
  "removeOldest_loop numRecords numRecordsRemoved events actions =
     (if sint numRecordsRemoved < sint numRecords \<and> (events \<noteq> [] \<or> actions \<noteq> []) then
        (if events = [] then
           removeOldest_loop numRecords (numRecordsRemoved + 1) events (tl actions)
         else if actions = [] then
           removeOldest_loop numRecords (numRecordsRemoved + 1) (tl events) actions
         else if sint (mTimestamp (hd actions)) < sint (mTimestamp (hd events)) then
           removeOldest_loop numRecords (numRecordsRemoved + 1) events (tl actions)
         else
           removeOldest_loop numRecords (numRecordsRemoved + 1) (tl events) actions)
      else (numRecordsRemoved, events, actions))"
  by pat_completeness auto
termination
  by (relation "measure (\<lambda>(n, r, es, as). length es + length as)") auto

declare removeOldest_loop.simps [simp del]

definition removeOldestRecords :: "int32 \<Rightarrow> BeaconCacheEntry \<Rightarrow> int32 \<times> BeaconCacheEntry" where
  "removeOldestRecords numRecords e =
     (let (numRecordsRemoved, events, actions) = removeOldest_loop numRecords 0 (mEventData e) (mActionData e)
      in (numRecordsRemoved, e\<lparr>mEventData := events, mActionData := actions\<rparr>))"

subsection \<open>The text and the extent of a chunk\<close>

definition chunk_append :: "UTF8String \<Rightarrow> UTF8String \<Rightarrow> BeaconCacheRecord \<Rightarrow> UTF8String" where
  "chunk_append delimiter chunk r = concatenate (concatenate chunk delimiter) (mRecordData r)"

definition chunk_text :: "UTF8String \<Rightarrow> UTF8String \<Rightarrow> BeaconCacheRecord list \<Rightarrow> UTF8String" where
  "chunk_text delimiter chunk rs = foldl (chunk_append delimiter) chunk rs"

primrec chunk_count :: "UTF8String \<Rightarrow> BeaconCacheRecord list \<Rightarrow> nat \<Rightarrow> UTF8String \<Rightarrow> nat" where
  "chunk_count chunk [] maxSize delimiter = 0"
| "chunk_count chunk (r # rs) maxSize delimiter =
     (if mStringLength chunk \<le> maxSize
      then Suc (chunk_count (chunk_append delimiter chunk r) rs maxSize delimiter) else 0)"

lemma chunk_text_Nil [simp]: "chunk_text d c [] = c"
  by (simp add: chunk_text_def)

lemma chunk_text_Cons: "chunk_text d c (r # rs) = chunk_text d (chunk_append d c r) rs"
  by (simp add: chunk_text_def)

lemma chunkify_eq:
  "chunkifyDataList chunk rs maxSize d =
    (let n = chunk_count chunk rs maxSize d in
      (chunk_text d chunk (take n rs), map markForSending (take n rs) @ drop n rs))"
  by (induction rs arbitrary: chunk)
    (simp_all add: Let_def chunk_append_def [symmetric] chunk_text_Cons)

lemma chunkify_append:
  "chunkifyDataList chunk (xs @ ys) maxSize d =
    (let (c, xs') = chunkifyDataList chunk xs maxSize d;
         (c', ys') = chunkifyDataList c ys maxSize d in (c', xs' @ ys'))"
proof (induction xs arbitrary: chunk)
  case (Cons x xs)
  then show ?case
    by (cases ys) (auto simp: Let_def split: prod.splits)
qed simp

lemma chunk_count_le: "chunk_count chunk rs maxSize d \<le> length rs"
  by (induction rs arbitrary: chunk) auto

lemma chunk_count_bound:
  "i < chunk_count chunk rs maxSize d \<Longrightarrow> mStringLength (chunk_text d chunk (take i rs)) \<le> maxSize"
proof (induction rs arbitrary: chunk i)
  case (Cons r rs)
  then show ?case by (cases i) (auto simp: chunk_text_Cons split: if_splits)
qed simp

lemma chunk_count_stop:
  "chunk_count chunk rs maxSize d < length rs \<Longrightarrow>
    maxSize < mStringLength (chunk_text d chunk (take (chunk_count chunk rs maxSize d) rs))"
  by (induction rs arbitrary: chunk) (auto simp: chunk_text_Cons)

lemma chunk_count_pos_iff:
  "0 < chunk_count chunk rs maxSize d \<longleftrightarrow> rs \<noteq> [] \<and> mStringLength chunk \<le> maxSize"
  by (cases rs) auto

text \<open>The characters of a chunk, when no record is empty.\<close>

lemma concatenate_data: "(mStringLength b = 0 \<Longrightarrow> mData b = []) \<Longrightarrow> mData (concatenate a b) = mData a @ mData b"
  by (auto simp: concatenate_def)

lemma chunk_text_data:
  assumes "mStringLength d = 0 \<Longrightarrow> mData d = []"
    and "\<And>r. r \<in> set rs \<Longrightarrow> mStringLength (mRecordData r) = 0 \<Longrightarrow> mData (mRecordData r) = []"
  shows "mData (chunk_text d c rs) = mData c @ concat (map (\<lambda>r. mData d @ mData (mRecordData r)) rs)"
  using assms
  by (induction rs arbitrary: c) (simp_all add: chunk_text_Cons chunk_append_def concatenate_data)

subsection \<open>What is being sent\<close>

definition sending :: "BeaconCacheEntry \<Rightarrow> BeaconCacheRecord list" where
  "sending e = mEventDataBeingSent e @ mActionDataBeingSent e"

definition waiting :: "BeaconCacheEntry \<Rightarrow> BeaconCacheRecord list" where
  "waiting e = mEventData e @ mActionData e"

definition chunk_start :: "UTF8String \<Rightarrow> UTF8String" where
  "chunk_start chunkPrefix = concatenate UTF8String_empty chunkPrefix"

lemma chunk_start_length: "mStringLength (chunk_start p) = mStringLength p"
  by (simp add: chunk_start_def concatenate_def UTF8String_empty_def)

lemma hasDataToSend_iff: "hasDataToSend e \<longleftrightarrow> sending e \<noteq> []"
  by (simp add: hasDataToSend_def sending_def)

lemma getChunk_eq:
  assumes "sending e \<noteq> []" and n_def: "n = chunk_count (chunk_start p) (sending e) maxSize d"
  shows "fst (getChunk p maxSize d e) = chunk_text d (chunk_start p) (take n (sending e))"
    and "sending (snd (getChunk p maxSize d e)) =
      map markForSending (take n (sending e)) @ drop n (sending e)"
proof -
  obtain c xs where x: "chunkifyDataList (chunk_start p) (mEventDataBeingSent e) maxSize d = (c, xs)"
    by fastforce
  obtain c' ys where y: "chunkifyDataList c (mActionDataBeingSent e) maxSize d = (c', ys)" by fastforce
  have "chunkifyDataList (chunk_start p) (sending e) maxSize d = (c', xs @ ys)"
    by (simp add: sending_def chunkify_append x y)
  then have r: "c' = chunk_text d (chunk_start p) (take n (sending e))"
    "xs @ ys = map markForSending (take n (sending e)) @ drop n (sending e)"
    by (simp_all add: chunkify_eq n_def Let_def)
  have "getChunk p maxSize d e = (c', e\<lparr>mEventDataBeingSent := xs, mActionDataBeingSent := ys\<rparr>)"
    using assms(1) x y
    by (simp add: getChunk_def getNextChunk_def hasDataToSend_iff chunk_start_def)
  then show "fst (getChunk p maxSize d e) = chunk_text d (chunk_start p) (take n (sending e))"
    "sending (snd (getChunk p maxSize d e)) = map markForSending (take n (sending e)) @ drop n (sending e)"
    using r by (simp_all add: sending_def)
qed

lemma getChunk_none: "sending e = [] \<Longrightarrow> getChunk p maxSize d e = (UTF8String_empty, e)"
  by (simp add: getChunk_def hasDataToSend_iff)

lemma chunkify_length: "length (snd (chunkifyDataList c rs m d)) = length rs"
  by (simp add: chunkify_eq Let_def)

lemma getChunk_keeps:
  "mEventData (snd (getChunk p m d e)) = mEventData e"
  "mActionData (snd (getChunk p m d e)) = mActionData e"
  "mTotalNumBytes (snd (getChunk p m d e)) = mTotalNumBytes e"
  "length (mEventDataBeingSent (snd (getChunk p m d e))) = length (mEventDataBeingSent e)"
  "length (mActionDataBeingSent (snd (getChunk p m d e))) = length (mActionDataBeingSent e)"
  using chunkify_length [of _ "mEventDataBeingSent e"] chunkify_length [of _ "mActionDataBeingSent e"]
  by (auto simp: getChunk_def getNextChunk_def Let_def split: prod.splits)
    (metis snd_conv)+

subsection \<open>The marks, the bytes and the two queues of an entry\<close>

definition record_content :: "BeaconCacheRecord \<Rightarrow> int64 \<times> UTF8String" where
  "record_content r = (mTimestamp r, mRecordData r)"

lemma record_marks [simp]:
  "mMarkedForSending (markForSending r)" "\<not> mMarkedForSending (unsetSending r)"
  "record_content (markForSending r) = record_content r"
  "record_content (unsetSending r) = record_content r"
  "getDataSizeInBytes (markForSending r) = getDataSizeInBytes r"
  "getDataSizeInBytes (unsetSending r) = getDataSizeInBytes r"
  by (simp_all add: markForSending_def unsetSending_def record_content_def getDataSizeInBytes_def)

definition records_bytes :: "BeaconCacheRecord list \<Rightarrow> int64" where
  "records_bytes rs = sum_list (map getDataSizeInBytes rs)"

lemma records_bytes_simps [simp]:
  "records_bytes [] = 0"
  "records_bytes (r # rs) = getDataSizeInBytes r + records_bytes rs"
  "records_bytes (rs @ qs) = records_bytes rs + records_bytes qs"
  "records_bytes (map unsetSending rs) = records_bytes rs"
  by (simp_all add: records_bytes_def comp_def)

text \<open>The total of an entry counts the records that wait, not those being sent.\<close>

definition entry_accounted :: "BeaconCacheEntry \<Rightarrow> bool" where
  "entry_accounted e \<longleftrightarrow> mTotalNumBytes e = records_bytes (waiting e)"

text \<open>Marked records are those of the last chunk: a first part of what is being sent.\<close>

definition marked_count :: "BeaconCacheEntry \<Rightarrow> nat" where
  "marked_count e = length (filter mMarkedForSending (sending e))"

definition marks_ok :: "BeaconCacheEntry \<Rightarrow> bool" where
  "marks_ok e \<longleftrightarrow> list_all (\<lambda>r. \<not> mMarkedForSending r) (waiting e) \<and>
     (\<exists>xs ys. sending e = xs @ ys \<and> list_all mMarkedForSending xs \<and>
        list_all (\<lambda>r. \<not> mMarkedForSending r) ys)"

definition pendingEvents :: "BeaconCacheEntry \<Rightarrow> (int64 \<times> UTF8String) list" where
  "pendingEvents e = map record_content (mEventDataBeingSent e @ mEventData e)"

definition pendingActions :: "BeaconCacheEntry \<Rightarrow> (int64 \<times> UTF8String) list" where
  "pendingActions e = map record_content (mActionDataBeingSent e @ mActionData e)"

lemma filter_none: "list_all (\<lambda>x. \<not> P x) xs \<Longrightarrow> filter P xs = []"
  by (simp add: filter_empty_conv list_all_iff)

lemma filter_all: "list_all P xs \<Longrightarrow> filter P xs = xs"
  by (simp add: filter_id_conv list_all_iff)

lemma marks_split:
  assumes "marks_ok e"
  shows "list_all mMarkedForSending (take (marked_count e) (sending e))"
    and "list_all (\<lambda>r. \<not> mMarkedForSending r) (drop (marked_count e) (sending e))"
proof -
  obtain xs ys where s: "sending e = xs @ ys" "list_all mMarkedForSending xs"
    "list_all (\<lambda>r. \<not> mMarkedForSending r) ys" using assms by (auto simp: marks_ok_def)
  then have "marked_count e = length xs" by (simp add: marked_count_def filter_none filter_all)
  then show "list_all mMarkedForSending (take (marked_count e) (sending e))"
    "list_all (\<lambda>r. \<not> mMarkedForSending r) (drop (marked_count e) (sending e))"
    using s by simp_all
qed

lemma sending_remove:
  assumes "marks_ok e"
  shows "sending (removeDataMarkedForSending e) = drop (marked_count e) (sending e)"
proof -
  have "sending (removeDataMarkedForSending e) = filter (\<lambda>r. \<not> mMarkedForSending r) (sending e)"
    by (auto simp: removeDataMarkedForSending_def hasDataToSend_def sending_def)
  also have "\<dots> = drop (marked_count e) (sending e)"
    using marks_split [OF assms]
    by (subst append_take_drop_id [of "marked_count e", symmetric], unfold filter_append)
      (simp add: filter_all filter_none)
  finally show ?thesis .
qed

lemma marksI:
  assumes "sending e = xs @ ys" and "list_all mMarkedForSending xs"
    and "list_all (\<lambda>r. \<not> mMarkedForSending r) ys"
    and "list_all (\<lambda>r. \<not> mMarkedForSending r) (waiting e)"
  shows "marks_ok e \<and> marked_count e = length xs"
  using assms by (auto simp: marks_ok_def marked_count_def filter_none filter_all)

lemma marked_count_le: "marked_count e \<le> length (sending e)"
  by (simp add: marked_count_def)

lemma list_all_takeD: "list_all P (take k xs) \<Longrightarrow> n \<le> k \<Longrightarrow> list_all P (take n xs)"
  by (metis list_all_append min.absorb1 take_add take_take le_add_diff_inverse)

lemma list_all_dropD: "list_all P (drop k xs) \<Longrightarrow> k \<le> n \<Longrightarrow> list_all P (drop n xs)"
  by (metis append_take_drop_id drop_drop le_add_diff_inverse2 list_all_append)

lemma getChunk_marks:
  assumes ok: "marks_ok e" and ne: "sending e \<noteq> []"
    and n: "n = chunk_count (chunk_start p) (sending e) maxSize d"
  shows "marks_ok (snd (getChunk p maxSize d e)) \<and>
    marked_count (snd (getChunk p maxSize d e)) = max n (marked_count e)"
proof -
  let ?k = "marked_count e" and ?e = "snd (getChunk p maxSize d e)" and ?S = "sending e"
  have le: "n \<le> length ?S" "?k \<le> length ?S"
    using chunk_count_le n marked_count_le by auto
  have sp: "sending ?e = map markForSending (take n ?S) @ drop n ?S"
    using getChunk_eq(2) [OF ne n] .
  have w: "list_all (\<lambda>r. \<not> mMarkedForSending r) (waiting ?e)"
    using ok by (simp add: waiting_def getChunk_keeps marks_ok_def)
  have m: "list_all mMarkedForSending (map markForSending rs)" for rs
    by (simp add: list_all_iff)
  note split = marks_split [OF ok]
  show ?thesis
  proof (cases "n \<le> ?k")
    case True
    have "drop n ?S = drop n (take ?k ?S) @ drop ?k ?S"
      using True le by (metis append_take_drop_id drop_append length_take min.absorb2 diff_is_0_eq drop0)
    moreover have "list_all mMarkedForSending (drop n (take ?k ?S))"
      using split(1) by (metis append_take_drop_id list_all_append)
    ultimately show ?thesis
      using marksI [of ?e "map markForSending (take n ?S) @ drop n (take ?k ?S)" "drop ?k ?S"]
        sp m w split(2) le True by (simp add: max_def)
  next
    case False
    then show ?thesis
      using marksI [of ?e "map markForSending (take n ?S)" "drop n ?S"] sp m w le
        list_all_dropD [OF split(2)] by (simp add: max_def)
  qed
qed

text \<open>Every operation keeps the marks in order; sending and resetting leave no mark.\<close>

lemma marks_new: "marks_ok BeaconCacheEntry_new"
  by (auto simp: marks_ok_def BeaconCacheEntry_new_def waiting_def sending_def)

lemma marks_add:
  "marks_ok e \<Longrightarrow> \<not> mMarkedForSending r \<Longrightarrow> marks_ok (entry_addEventData r e)"
  "marks_ok e \<Longrightarrow> \<not> mMarkedForSending r \<Longrightarrow> marks_ok (entry_addActionData r e)"
  by (auto simp: marks_ok_def entry_addEventData_def entry_addActionData_def waiting_def sending_def)

lemma marks_copy:
  "marks_ok e \<Longrightarrow> needsDataCopyBeforeSending e \<Longrightarrow>
    marks_ok (copyDataForSending e) \<and> marked_count (copyDataForSending e) = 0"
  using marksI [of "copyDataForSending e" "[]" "waiting e"]
  by (auto simp: marks_ok_def needsDataCopyBeforeSending_def copyDataForSending_def waiting_def sending_def)

lemma waiting_remove: "waiting (removeDataMarkedForSending e) = waiting e"
  by (simp add: removeDataMarkedForSending_def waiting_def)

lemma marks_remove:
  "marks_ok e \<Longrightarrow> marks_ok (removeDataMarkedForSending e) \<and>
    marked_count (removeDataMarkedForSending e) = 0"
  using marksI [of "removeDataMarkedForSending e" "[]" "drop (marked_count e) (sending e)"]
    sending_remove marks_split(2) by (auto simp: waiting_remove marks_ok_def)

lemma sending_reset: "sending (resetDataMarkedForSending e) = []"
  by (auto simp: resetDataMarkedForSending_def sending_def hasDataToSend_def Let_def)

lemma marks_reset: "marks_ok e \<Longrightarrow> marks_ok (resetDataMarkedForSending e)"
  by (auto simp: marks_ok_def sending_reset)
    (auto simp: resetDataMarkedForSending_def waiting_def Let_def list_all_iff)

text \<open>The accounting of each operation.\<close>

lemma accounted_new: "entry_accounted BeaconCacheEntry_new"
  by (simp add: entry_accounted_def BeaconCacheEntry_new_def waiting_def)

lemma accounted_add:
  "entry_accounted e \<Longrightarrow> entry_accounted (entry_addEventData r e)"
  "entry_accounted e \<Longrightarrow> entry_accounted (entry_addActionData r e)"
  by (simp_all add: entry_accounted_def entry_addEventData_def entry_addActionData_def waiting_def)

lemma accounted_copy: "entry_accounted (copyDataForSending e)"
  by (simp add: entry_accounted_def copyDataForSending_def waiting_def)

lemma accounted_remove: "entry_accounted e \<Longrightarrow> entry_accounted (removeDataMarkedForSending e)"
  by (simp add: entry_accounted_def waiting_remove) (simp add: removeDataMarkedForSending_def)

lemma accounted_reset: "entry_accounted e \<Longrightarrow> entry_accounted (resetDataMarkedForSending e)"
  by (simp add: entry_accounted_def resetDataMarkedForSending_def waiting_def Let_def
      records_bytes_def [symmetric] del: map_map)

lemma accounted_getChunk: "entry_accounted e \<Longrightarrow> entry_accounted (snd (getChunk p m d e))"
  by (simp add: entry_accounted_def waiting_def getChunk_keeps)

text \<open>
  The abstraction to two queues: adding appends to the queue, removing takes off the
  first part that was marked, and every other operation leaves the queues as they are.
\<close>

lemma pending_add:
  "pendingEvents (entry_addEventData r e) = pendingEvents e @ [record_content r]"
  "pendingActions (entry_addEventData r e) = pendingActions e"
  "pendingEvents (entry_addActionData r e) = pendingEvents e"
  "pendingActions (entry_addActionData r e) = pendingActions e @ [record_content r]"
  by (simp_all add: pendingEvents_def pendingActions_def entry_addEventData_def entry_addActionData_def)

lemma pending_copy:
  "needsDataCopyBeforeSending e \<Longrightarrow> pendingEvents (copyDataForSending e) = pendingEvents e"
  "needsDataCopyBeforeSending e \<Longrightarrow> pendingActions (copyDataForSending e) = pendingActions e"
  by (simp_all add: pendingEvents_def pendingActions_def needsDataCopyBeforeSending_def copyDataForSending_def)

lemma pending_reset:
  "pendingEvents (resetDataMarkedForSending e) = pendingEvents e"
  "pendingActions (resetDataMarkedForSending e) = pendingActions e"
  by (simp_all add: pendingEvents_def pendingActions_def resetDataMarkedForSending_def Let_def)

lemma chunkify_content:
  "map record_content (snd (chunkifyDataList c rs m d)) = map record_content rs"
  by (simp add: chunkify_eq Let_def comp_def)
    (metis append_take_drop_id map_append)

lemma pending_getChunk:
  "pendingEvents (snd (getChunk p m d e)) = pendingEvents e"
  "pendingActions (snd (getChunk p m d e)) = pendingActions e"
  using chunkify_content [of _ "mEventDataBeingSent e"] chunkify_content [of _ "mActionDataBeingSent e"]
  by (auto simp: pendingEvents_def pendingActions_def getChunk_def getNextChunk_def Let_def split: prod.splits)
    (metis snd_conv)+

subsection \<open>Eviction from an entry\<close>

lemma records_removeOlderThan_eq:
  "records_removeOlderThan t rs =
    (word_of_nat (length (filter (\<lambda>r. sint (mTimestamp r) < sint t) rs)),
     filter (\<lambda>r. \<not> sint (mTimestamp r) < sint t) rs)"
  by (induction rs) (simp_all add: Let_def)

lemma removeRecordsOlderThan_waiting:
  "waiting (snd (removeRecordsOlderThan t e)) = filter (\<lambda>r. \<not> sint (mTimestamp r) < sint t) (waiting e)"
  "sending (snd (removeRecordsOlderThan t e)) = sending e"
  "mTotalNumBytes (snd (removeRecordsOlderThan t e)) = mTotalNumBytes e"
  by (simp_all add: removeRecordsOlderThan_def records_removeOlderThan_eq waiting_def sending_def)

definition by_time :: "BeaconCacheRecord list \<Rightarrow> bool" where
  "by_time rs \<longleftrightarrow> sorted (map (\<lambda>r. sint (mTimestamp r)) rs)"

lemma by_time_Cons: "by_time (r # rs) \<longleftrightarrow> list_all (\<lambda>q. sint (mTimestamp r) \<le> sint (mTimestamp q)) rs \<and> by_time rs"
  by (auto simp: by_time_def list_all_iff)

lemma sint_succ_below:
  fixes r n :: int32
  assumes "sint r < sint n"
  shows "sint (r + 1) = sint r + 1"
proof -
  have "sint r + 1 < 2 ^ 31" "- (2 ^ 31) \<le> sint r + 1"
    using assms sint32_bounds [of n] sint32_bounds [of r] by linarith+
  moreover have "sint (r + 1) = signed_take_bit 31 (sint r + 1)"
    by (simp add: sint_word_ariths)
  ultimately show ?thesis by (simp add: signed_take_bit_int_eq_self)
qed

text \<open>The order of the records removed: of the two first records the older one goes.\<close>

definition oldest_split ::
    "int32 \<Rightarrow> int32 \<Rightarrow> BeaconCacheRecord list \<Rightarrow> BeaconCacheRecord list \<Rightarrow> nat \<Rightarrow> nat \<Rightarrow> bool" where
  "oldest_split n r es as i j \<longleftrightarrow>
     removeOldest_loop n r es as = (r + word_of_nat i + word_of_nat j, drop i es, drop j as) \<and>
     i \<le> length es \<and> j \<le> length as \<and>
     i + j = min (nat (sint n - sint r)) (length es + length as) \<and>
     (by_time es \<longrightarrow> by_time as \<longrightarrow>
       (\<forall>x \<in> set (take i es @ take j as). \<forall>y \<in> set (drop i es @ drop j as).
          sint (mTimestamp x) \<le> sint (mTimestamp y)))"

lemma nat_succ_diff: "(r :: int) < n \<Longrightarrow> nat (n - r) = Suc (nat (n - (r + 1)))"
  by simp

lemma oldest_split_event:
  assumes "sint r < sint n" and "oldest_split n (r + 1) es as i j"
    and "removeOldest_loop n r (e # es) as = removeOldest_loop n (r + 1) es as"
    and "list_all (\<lambda>a. sint (mTimestamp e) \<le> sint (mTimestamp a)) as \<or>
      (as \<noteq> [] \<and> sint (mTimestamp e) \<le> sint (mTimestamp (hd as)))"
  shows "oldest_split n r (e # es) as (Suc i) j"
proof -
  have le: "by_time as \<Longrightarrow> list_all (\<lambda>a. sint (mTimestamp e) \<le> sint (mTimestamp a)) as"
    using assms(4) by (cases as) (auto simp: by_time_Cons list_all_iff)
  show ?thesis
    using assms(1-3) le sint_succ_below [OF assms(1)] nat_succ_diff [OF assms(1)]
    unfolding oldest_split_def
    by (auto simp: by_time_Cons list_all_iff algebra_simps dest!: in_set_dropD)
qed

lemma oldest_split_action:
  assumes "sint r < sint n" and "oldest_split n (r + 1) es as i j"
    and "removeOldest_loop n r es (a # as) = removeOldest_loop n (r + 1) es as"
    and "es \<noteq> [] \<Longrightarrow> sint (mTimestamp a) < sint (mTimestamp (hd es))"
  shows "oldest_split n r es (a # as) i (Suc j)"
proof -
  have le: "by_time es \<Longrightarrow> list_all (\<lambda>e. sint (mTimestamp a) \<le> sint (mTimestamp e)) es"
    using assms(4) by (cases es) (auto simp: by_time_Cons list_all_iff)
  show ?thesis
    using assms(1-3) le sint_succ_below [OF assms(1)] nat_succ_diff [OF assms(1)]
    unfolding oldest_split_def
    by (auto simp: by_time_Cons list_all_iff algebra_simps dest!: in_set_dropD)
qed

lemma removeOldest_loop_split: "\<exists>i j. oldest_split n r es as i j"
proof (induction n r es as rule: removeOldest_loop.induct)
  case (1 n r es as)
  show ?case
  proof (cases "sint r < sint n \<and> (es \<noteq> [] \<or> as \<noteq> [])")
    case False
    then have "removeOldest_loop n r es as = (r, es, as)"
      by (subst removeOldest_loop.simps) (rule if_not_P [OF False])
    then show ?thesis using False
      by (intro exI [of _ 0]) (auto simp: oldest_split_def)
  next
    case True
    then have lt: "sint r < sint n" by simp
    consider (a) "es = []" | (e) "as = []" "es \<noteq> []"
      | (both) "es \<noteq> []" "as \<noteq> []" by auto
    then show ?thesis
    proof cases
      case a
      then obtain x xs where as: "as = x # xs" using True by (cases as) auto
      from "1.IH"(1) [OF True a] obtain i j where "oldest_split n (r + 1) es xs i j" by (auto simp: as)
      moreover have "removeOldest_loop n r es (x # xs) = removeOldest_loop n (r + 1) es xs"
        by (subst removeOldest_loop.simps) (use a lt in simp)
      ultimately show ?thesis unfolding as using oldest_split_action [OF lt] a by blast
    next
      case e
      then obtain x xs where es: "es = x # xs" by (cases es) auto
      from "1.IH"(2) [OF True e(2,1)] obtain i j where "oldest_split n (r + 1) xs as i j" by (auto simp: es)
      moreover have "removeOldest_loop n r (x # xs) as = removeOldest_loop n (r + 1) xs as"
        by (subst removeOldest_loop.simps) (use e lt in simp)
      ultimately show ?thesis unfolding es using oldest_split_event [OF lt] e(1)
        by (metis list.pred_inject(1))
    next
      case both
      then obtain x xs y ys where l: "es = x # xs" "as = y # ys" by (cases es; cases as) auto
      show ?thesis
      proof (cases "sint (mTimestamp (hd as)) < sint (mTimestamp (hd es))")
        case less: True
        from "1.IH"(3) [OF True both less] obtain i j where "oldest_split n (r + 1) es ys i j" by (auto simp: l)
        moreover have "removeOldest_loop n r es (y # ys) = removeOldest_loop n (r + 1) es ys"
          by (subst removeOldest_loop.simps) (use both less lt l in simp)
        ultimately show ?thesis unfolding l(2) using oldest_split_action [OF lt] less l(2)
          by (metis list.sel(1))
      next
        case ge: False
        from "1.IH"(4) [OF True both ge] obtain i j where "oldest_split n (r + 1) xs as i j" by (auto simp: l)
        moreover have "removeOldest_loop n r (x # xs) as = removeOldest_loop n (r + 1) xs as"
          by (subst removeOldest_loop.simps) (use both ge lt l in simp)
        ultimately show ?thesis unfolding l(1) using oldest_split_event [OF lt] ge both(2) l(1)
          by (metis list.sel(1) not_less)
      qed
    qed
  qed
qed

subsection \<open>Properties of an entry\<close>

text \<open>Evicting the oldest records removes exactly the number asked for, or all when there
  are fewer, from the front of the two lists; and with the lists in the order of their
  timestamps, no record removed is newer than a record that stays.\<close>

theorem removeOldestRecords_oldest:
  assumes "by_time (mEventData e)" and "by_time (mActionData e)"
  shows "\<exists>i j. mEventData (snd (removeOldestRecords n e)) = drop i (mEventData e)
     \<and> mActionData (snd (removeOldestRecords n e)) = drop j (mActionData e)
     \<and> i + j = min (nat (sint n)) (length (waiting e))
     \<and> fst (removeOldestRecords n e) = word_of_nat (i + j)
     \<and> (\<forall>x \<in> set (take i (mEventData e) @ take j (mActionData e)).
          \<forall>y \<in> set (waiting (snd (removeOldestRecords n e))). sint (mTimestamp x) \<le> sint (mTimestamp y))"
proof -
  obtain i j where "oldest_split n 0 (mEventData e) (mActionData e) i j"
    using removeOldest_loop_split by blast
  then show ?thesis using assms
    by - (rule exI [of _ i], rule exI [of _ j],
      simp del: of_nat_add add: of_nat_add [symmetric] oldest_split_def removeOldestRecords_def waiting_def)
qed

definition sample_record :: "int64 \<Rightarrow> string \<Rightarrow> BeaconCacheRecord" where
  "sample_record t s = BeaconCacheRecord_new t (UTF8String_of s)"

lemma removeOldestRecords_oldest_witness:
  "fst (removeOldestRecords 2 (BeaconCacheEntry_new\<lparr>mEventData := [sample_record 1 ''a'', sample_record 5 ''b''],
         mActionData := [sample_record 3 ''c'']\<rparr>)) = 2"
proof -
  let ?e = "BeaconCacheEntry_new\<lparr>mEventData := [sample_record 1 ''a'', sample_record 5 ''b''],
         mActionData := [sample_record 3 ''c'']\<rparr>"
  have "by_time (mEventData ?e)" "by_time (mActionData ?e)"
    by (simp_all add: by_time_def sample_record_def BeaconCacheRecord_new_def)
  from removeOldestRecords_oldest [OF this, of 2] obtain i j where
    "i + j = min (nat (sint (2 :: int32))) (length (waiting ?e))"
    "fst (removeOldestRecords 2 ?e) = word_of_nat (i + j)" by blast
  then show ?thesis by (simp add: waiting_def BeaconCacheEntry_new_def del: of_nat_add)
qed

end
