(* ===== verification/Beacon_Cache.thy ===== *)
theory Beacon_Cache
  imports Beacon_Cache_Entry
begin

text \<open>
  The beacon cache (src/core/caching/BeaconCache.cxx, IBeaconCache.h): one entry per
  beacon key, the number of bytes in the cache, and the observers that are told about
  new data. Each operation is modelled as it runs alone. The lemmas establish the
  accounting of the bytes over any sequence of operations and the abstraction of each
  entry to its queues of records.
\<close>

subsection \<open>State and operations\<close>

text \<open>
  The map holds shared pointers to the entries; an entry is reached through the map
  only, so the model keeps the entry itself. Observers are known by number;
  \<open>mNotified\<close> is the sequence of their \<open>update\<close> calls.
\<close>

record BeaconCache =
  mBeacons :: "(BeaconKey, BeaconCacheEntry) unordered_map"
  mCacheSizeInBytes :: int64
  mObservers :: "nat list"
  mNotified :: "nat list"

definition BeaconCache_new :: BeaconCache where
  "BeaconCache_new = \<lparr>mBeacons = [], mCacheSizeInBytes = 0, mObservers = [], mNotified = []\<rparr>"

definition addObserver :: "nat option \<Rightarrow> BeaconCache \<Rightarrow> BeaconCache" where
  "addObserver observer c =
     (case observer of None \<Rightarrow> c | Some i \<Rightarrow> c\<lparr>mObservers := mObservers c @ [i]\<rparr>)"

definition onDataAdded :: "BeaconCache \<Rightarrow> BeaconCache" where
  "onDataAdded c = c\<lparr>mNotified := mNotified c @ mObservers c\<rparr>"

definition getCachedEntry :: "BeaconKey \<Rightarrow> BeaconCache \<Rightarrow> BeaconCacheEntry option" where
  "getCachedEntry beaconKey c = um_find BeaconKey_eq beaconKey (mBeacons c)"

definition getCachedEntryOrInsert :: "BeaconKey \<Rightarrow> BeaconCache \<Rightarrow> BeaconCache" where
  "getCachedEntryOrInsert beaconKey c =
     (case getCachedEntry beaconKey c of
        None \<Rightarrow> c\<lparr>mBeacons := um_insert BeaconKey_eq beaconKey BeaconCacheEntry_new (mBeacons c)\<rparr>
      | Some entry \<Rightarrow> c)"

definition modify_entry :: "BeaconKey \<Rightarrow> (BeaconCacheEntry \<Rightarrow> BeaconCacheEntry) \<Rightarrow> BeaconCache \<Rightarrow> BeaconCache" where
  "modify_entry beaconKey f c = c\<lparr>mBeacons := um_modify BeaconKey_eq beaconKey f (mBeacons c)\<rparr>"

definition addEventData :: "BeaconKey \<Rightarrow> int64 \<Rightarrow> UTF8String \<Rightarrow> BeaconCache \<Rightarrow> BeaconCache" where
  "addEventData beaconKey timestamp d c =
     (let r = BeaconCacheRecord_new timestamp d;
          c = modify_entry beaconKey (entry_addEventData r) (getCachedEntryOrInsert beaconKey c);
          c = c\<lparr>mCacheSizeInBytes := mCacheSizeInBytes c + getDataSizeInBytes r\<rparr>
      in onDataAdded c)"

definition addActionData :: "BeaconKey \<Rightarrow> int64 \<Rightarrow> UTF8String \<Rightarrow> BeaconCache \<Rightarrow> BeaconCache" where
  "addActionData beaconKey timestamp d c =
     (let r = BeaconCacheRecord_new timestamp d;
          c = modify_entry beaconKey (entry_addActionData r) (getCachedEntryOrInsert beaconKey c);
          c = c\<lparr>mCacheSizeInBytes := mCacheSizeInBytes c + getDataSizeInBytes r\<rparr>
      in onDataAdded c)"

definition deleteCacheEntry :: "BeaconKey \<Rightarrow> BeaconCache \<Rightarrow> BeaconCache" where
  "deleteCacheEntry beaconKey c =
     (case getCachedEntry beaconKey c of
        None \<Rightarrow> c
      | Some entry \<Rightarrow>
          c\<lparr>mCacheSizeInBytes := mCacheSizeInBytes c - mTotalNumBytes entry,
            mBeacons := um_erase BeaconKey_eq beaconKey (mBeacons c)\<rparr>)"

definition prepareDataForSending :: "BeaconKey \<Rightarrow> BeaconCache \<Rightarrow> BeaconCache" where
  "prepareDataForSending beaconKey c =
     (case getCachedEntry beaconKey c of
        None \<Rightarrow> c
      | Some entry \<Rightarrow>
          if needsDataCopyBeforeSending entry
          then (let numBytes = mTotalNumBytes entry;
                    c = modify_entry beaconKey copyDataForSending c
                in c\<lparr>mCacheSizeInBytes := mCacheSizeInBytes c - numBytes\<rparr>)
          else c)"

definition hasDataForSending :: "BeaconKey \<Rightarrow> BeaconCache \<Rightarrow> bool" where
  "hasDataForSending beaconKey c =
     (case getCachedEntry beaconKey c of None \<Rightarrow> False | Some entry \<Rightarrow> hasDataToSend entry)"

definition getNextBeaconChunk ::
    "BeaconKey \<Rightarrow> UTF8String \<Rightarrow> int32 \<Rightarrow> UTF8String \<Rightarrow> BeaconCache \<Rightarrow> UTF8String \<times> BeaconCache" where
  "getNextBeaconChunk beaconKey chunkPrefix maxSize delimiter c =
     (case getCachedEntry beaconKey c of
        None \<Rightarrow> (UTF8String_empty, c)
      | Some entry \<Rightarrow>
          (let chunk_entry = getChunk chunkPrefix (int32_to_size_t maxSize) delimiter entry
           in (fst chunk_entry, modify_entry beaconKey (\<lambda>_. snd chunk_entry) c)))"

definition removeChunkedData :: "BeaconKey \<Rightarrow> BeaconCache \<Rightarrow> BeaconCache" where
  "removeChunkedData beaconKey c =
     (case getCachedEntry beaconKey c of
        None \<Rightarrow> c
      | Some entry \<Rightarrow> modify_entry beaconKey removeDataMarkedForSending c)"

definition resetChunkedData :: "BeaconKey \<Rightarrow> BeaconCache \<Rightarrow> BeaconCache" where
  "resetChunkedData beaconKey c =
     (case getCachedEntry beaconKey c of
        None \<Rightarrow> c
      | Some entry \<Rightarrow>
          (let oldSize = mTotalNumBytes entry;
               newSize = mTotalNumBytes (resetDataMarkedForSending entry);
               numBytes = newSize - oldSize;
               c = modify_entry beaconKey resetDataMarkedForSending c
           in onDataAdded (c\<lparr>mCacheSizeInBytes := mCacheSizeInBytes c + numBytes\<rparr>)))"

definition extractData :: "BeaconCacheRecord list \<Rightarrow> UTF8String list" where
  "extractData eventData = map mRecordData eventData"

definition getEvents :: "BeaconKey \<Rightarrow> BeaconCache \<Rightarrow> UTF8String list" where
  "getEvents beaconKey c =
     (case getCachedEntry beaconKey c of None \<Rightarrow> [] | Some entry \<Rightarrow> extractData (mEventData entry))"

definition getEventsBeingSent :: "BeaconKey \<Rightarrow> BeaconCache \<Rightarrow> BeaconCacheRecord list" where
  "getEventsBeingSent beaconKey c =
     (case getCachedEntry beaconKey c of None \<Rightarrow> [] | Some entry \<Rightarrow> mEventDataBeingSent entry)"

definition getActions :: "BeaconKey \<Rightarrow> BeaconCache \<Rightarrow> UTF8String list" where
  "getActions beaconKey c =
     (case getCachedEntry beaconKey c of None \<Rightarrow> [] | Some entry \<Rightarrow> extractData (mActionData entry))"

definition getActionsBeingSent :: "BeaconKey \<Rightarrow> BeaconCache \<Rightarrow> BeaconCacheRecord list" where
  "getActionsBeingSent beaconKey c =
     (case getCachedEntry beaconKey c of None \<Rightarrow> [] | Some entry \<Rightarrow> mActionDataBeingSent entry)"

definition getBeaconKeys :: "BeaconCache \<Rightarrow> BeaconKey list" where
  "getBeaconKeys c = map fst (mBeacons c)"

text \<open>The \<^verbatim>\<open>int32_t\<close> count of the entry is returned as \<^verbatim>\<open>uint32_t\<close>: the same 32 bits.\<close>

definition evictRecordsByAge :: "BeaconKey \<Rightarrow> int64 \<Rightarrow> BeaconCache \<Rightarrow> int32 \<times> BeaconCache" where
  "evictRecordsByAge beaconKey minTimestamp c =
     (case getCachedEntry beaconKey c of
        None \<Rightarrow> (0, c)
      | Some entry \<Rightarrow>
          (let n_entry = removeRecordsOlderThan minTimestamp entry
           in (fst n_entry, modify_entry beaconKey (\<lambda>_. snd n_entry) c)))"

definition evictRecordsByNumber :: "BeaconKey \<Rightarrow> int32 \<Rightarrow> BeaconCache \<Rightarrow> int32 \<times> BeaconCache" where
  "evictRecordsByNumber beaconKey numRecords c =
     (case getCachedEntry beaconKey c of
        None \<Rightarrow> (0, c)
      | Some entry \<Rightarrow>
          (let n_entry = removeOldestRecords numRecords entry
           in (fst n_entry, modify_entry beaconKey (\<lambda>_. snd n_entry) c)))"

definition getNumBytesInCache :: "BeaconCache \<Rightarrow> int64" where
  "getNumBytesInCache c = mCacheSizeInBytes c"

definition cache_isEmpty :: "BeaconKey \<Rightarrow> BeaconCache \<Rightarrow> bool" where
  "cache_isEmpty beaconKey c =
     (case getCachedEntry beaconKey c of None \<Rightarrow> True | Some entry \<Rightarrow> mTotalNumBytes entry = 0)"

subsection \<open>Entries of the cache after an operation\<close>

lemma entry_after_modify:
  "getCachedEntry k (modify_entry k' f c) =
    (if k = k' then map_option f (getCachedEntry k c) else getCachedEntry k c)"
  by (auto simp: getCachedEntry_def modify_entry_def beacon_key.find_modify)

lemma entry_after_insert:
  "getCachedEntry k (getCachedEntryOrInsert k' c) =
    (if k = k' then Some (case getCachedEntry k c of None \<Rightarrow> BeaconCacheEntry_new | Some e \<Rightarrow> e)
     else getCachedEntry k c)"
  by (auto simp: getCachedEntryOrInsert_def getCachedEntry_def beacon_key.find_insert split: option.splits)

lemma entry_ignores [simp]:
  "getCachedEntry k (c\<lparr>mCacheSizeInBytes := n\<rparr>) = getCachedEntry k c"
  "getCachedEntry k (onDataAdded c) = getCachedEntry k c"
  by (simp_all add: getCachedEntry_def onDataAdded_def)

lemma entry_after_addEventData:
  "getCachedEntry k (addEventData k' t d c) =
    (if k = k' then Some (entry_addEventData (BeaconCacheRecord_new t d)
        (case getCachedEntry k c of None \<Rightarrow> BeaconCacheEntry_new | Some e \<Rightarrow> e))
     else getCachedEntry k c)"
  by (simp add: addEventData_def Let_def entry_after_modify entry_after_insert)

lemma entry_after_addActionData:
  "getCachedEntry k (addActionData k' t d c) =
    (if k = k' then Some (entry_addActionData (BeaconCacheRecord_new t d)
        (case getCachedEntry k c of None \<Rightarrow> BeaconCacheEntry_new | Some e \<Rightarrow> e))
     else getCachedEntry k c)"
  by (simp add: addActionData_def Let_def entry_after_modify entry_after_insert)

lemma entry_after_delete:
  "getCachedEntry k (deleteCacheEntry k' c) = (if k = k' then None else getCachedEntry k c)"
  by (auto simp: deleteCacheEntry_def getCachedEntry_def beacon_key.find_erase split: option.splits)

lemma entry_after_prepare:
  "getCachedEntry k (prepareDataForSending k' c) =
    map_option (\<lambda>e. if k = k' \<and> needsDataCopyBeforeSending e then copyDataForSending e else e)
      (getCachedEntry k c)"
  by (auto simp: prepareDataForSending_def Let_def entry_after_modify option.map_ident split: option.splits)

lemma entry_after_chunk:
  "getCachedEntry k (snd (getNextBeaconChunk k' p m d c)) =
    map_option (\<lambda>e. if k = k' then snd (getChunk p (int32_to_size_t m) d e) else e) (getCachedEntry k c)"
  by (cases "k = k'") (auto simp: getNextBeaconChunk_def Let_def entry_after_modify option.map_ident split: option.splits)

lemma entry_after_remove:
  "getCachedEntry k (removeChunkedData k' c) =
    map_option (\<lambda>e. if k = k' then removeDataMarkedForSending e else e) (getCachedEntry k c)"
  by (auto simp: removeChunkedData_def entry_after_modify option.map_ident split: option.splits)

lemma entry_after_reset:
  "getCachedEntry k (resetChunkedData k' c) =
    map_option (\<lambda>e. if k = k' then resetDataMarkedForSending e else e) (getCachedEntry k c)"
  by (auto simp: resetChunkedData_def Let_def entry_after_modify option.map_ident split: option.splits)

lemma entry_after_evictByAge:
  "getCachedEntry k (snd (evictRecordsByAge k' t c)) =
    map_option (\<lambda>e. if k = k' then snd (removeRecordsOlderThan t e) else e) (getCachedEntry k c)"
  by (cases "k = k'") (auto simp: evictRecordsByAge_def Let_def entry_after_modify option.map_ident split: option.splits)

lemma entry_after_evictByNumber:
  "getCachedEntry k (snd (evictRecordsByNumber k' n c)) =
    map_option (\<lambda>e. if k = k' then snd (removeOldestRecords n e) else e) (getCachedEntry k c)"
  by (cases "k = k'") (auto simp: evictRecordsByNumber_def Let_def entry_after_modify option.map_ident split: option.splits)

subsection \<open>The number of bytes in the cache\<close>

definition total_bytes :: "BeaconCache \<Rightarrow> int64" where
  "total_bytes c = sum_list (map (\<lambda>e. mTotalNumBytes (snd e)) (mBeacons c))"

definition size_accounted :: "BeaconCache \<Rightarrow> bool" where
  "size_accounted c \<longleftrightarrow> um_distinct BeaconKey_eq (mBeacons c) \<and> mCacheSizeInBytes c = total_bytes c"

lemma sum_list_change:
  fixes f :: "'a \<Rightarrow> 'b :: ab_group_add"
  shows "sum_list (map f (xs @ y # ys)) = sum_list (map f (xs @ x # ys)) + (f y - f x)"
    and "sum_list (map f (xs @ ys)) = sum_list (map f (xs @ x # ys)) - f x"
  by (simp_all add: algebra_simps)

lemma total_modify:
  assumes "getCachedEntry k c = Some e"
  shows "total_bytes (modify_entry k f c) = total_bytes c + (mTotalNumBytes (f e) - mTotalNumBytes e)"
proof -
  obtain m1 k' m2 where "mBeacons c = m1 @ (k', e) # m2" "BeaconKey_eq k' k"
    "um_find BeaconKey_eq k m1 = None"
    using um_find_split [OF assms [unfolded getCachedEntry_def]] by (elim exE conjE)
  then have "mBeacons (modify_entry k f c) = m1 @ (k', f e) # m2" "mBeacons c = m1 @ (k', e) # m2"
    by (simp_all add: modify_entry_def um_modify_split del: BeaconKey_eq_iff)
  then show ?thesis
    unfolding total_bytes_def
    using sum_list_change(1) [of "\<lambda>e. mTotalNumBytes (snd e)" m1 "(k', f e)" m2 "(k', e)"]
    by (simp only: snd_conv)
qed

lemma total_ignores [simp]:
  "total_bytes (c\<lparr>mCacheSizeInBytes := n\<rparr>) = total_bytes c"
  "total_bytes (onDataAdded c) = total_bytes c"
  by (simp_all add: total_bytes_def onDataAdded_def)

lemma total_insert: "total_bytes (getCachedEntryOrInsert k c) = total_bytes c"
  by (auto simp: total_bytes_def getCachedEntryOrInsert_def getCachedEntry_def um_insert_def
      BeaconCacheEntry_new_def split: option.splits)

lemma total_erase:
  assumes "um_distinct BeaconKey_eq (mBeacons c)" and "getCachedEntry k c = Some e"
  shows "total_bytes (c\<lparr>mBeacons := um_erase BeaconKey_eq k (mBeacons c)\<rparr>) = total_bytes c - mTotalNumBytes e"
proof -
  obtain m1 k' m2 where m: "mBeacons c = m1 @ (k', e) # m2" "BeaconKey_eq k' k"
    using um_find_split [OF assms(2) [unfolded getCachedEntry_def]] by (elim exE conjE)
  then have "um_erase BeaconKey_eq k (mBeacons c) = m1 @ m2"
    using beacon_key.erase_split assms(1) by metis
  moreover have "mBeacons (c\<lparr>mBeacons := m\<rparr>) = m" for m by simp
  ultimately show ?thesis
    unfolding total_bytes_def
    using m(1) sum_list_change(2) [of "\<lambda>e. mTotalNumBytes (snd e)" m1 m2 "(k', e)"]
    by (simp only: snd_conv)
qed

lemma size_modify [simp]: "mCacheSizeInBytes (modify_entry k f c) = mCacheSizeInBytes c"
  by (simp add: modify_entry_def)

lemma size_insert [simp]: "mCacheSizeInBytes (getCachedEntryOrInsert k c) = mCacheSizeInBytes c"
  by (simp add: getCachedEntryOrInsert_def split: option.splits)

lemma size_added [simp]: "mCacheSizeInBytes (onDataAdded c) = mCacheSizeInBytes c"
  by (simp add: onDataAdded_def)

lemma distinct_ops [simp]:
  "um_distinct BeaconKey_eq (mBeacons (modify_entry k f c)) = um_distinct BeaconKey_eq (mBeacons c)"
  "um_distinct BeaconKey_eq (mBeacons c) \<Longrightarrow> um_distinct BeaconKey_eq (mBeacons (getCachedEntryOrInsert k c))"
  "mBeacons (onDataAdded c) = mBeacons c"
  by (simp_all add: modify_entry_def um_modify_distinct getCachedEntryOrInsert_def
      beacon_key.distinct_insert onDataAdded_def split: option.splits)

lemma size_change:
  assumes "size_accounted c" and "getCachedEntry k c = Some e"
    and "mBeacons c' = mBeacons (modify_entry k f c)"
    and "mCacheSizeInBytes c' = mCacheSizeInBytes c + (mTotalNumBytes (f e) - mTotalNumBytes e)"
  shows "size_accounted c'"
  using assms total_modify [OF assms(2), of f] by (simp add: size_accounted_def total_bytes_def)

lemma size_accounted_add:
  assumes "size_accounted c"
  shows "size_accounted (addEventData k t d c)" and "size_accounted (addActionData k t d c)"
proof -
  let ?c = "getCachedEntryOrInsert k c" and ?r = "BeaconCacheRecord_new t d"
  have c: "size_accounted ?c" using assms by (simp add: size_accounted_def total_insert)
  obtain e where e: "getCachedEntry k ?c = Some e" by (simp add: entry_after_insert)
  have a: "mTotalNumBytes (entry_addEventData ?r e) - mTotalNumBytes e = getDataSizeInBytes ?r"
    "mTotalNumBytes (entry_addActionData ?r e) - mTotalNumBytes e = getDataSizeInBytes ?r"
    by (simp_all add: entry_addEventData_def entry_addActionData_def)
  show "size_accounted (addEventData k t d c)"
    by (rule size_change [OF c e, of _ "entry_addEventData ?r"])
      (simp_all add: addEventData_def Let_def onDataAdded_def a)
  show "size_accounted (addActionData k t d c)"
    by (rule size_change [OF c e, of _ "entry_addActionData ?r"])
      (simp_all add: addActionData_def Let_def onDataAdded_def a)
qed

lemma size_accounted_delete: "size_accounted c \<Longrightarrow> size_accounted (deleteCacheEntry k c)"
  using total_erase [of c k]
  by (auto simp: size_accounted_def deleteCacheEntry_def total_bytes_def beacon_key.distinct_erase
      split: option.splits)

lemma size_accounted_prepare:
  assumes "size_accounted c"
  shows "size_accounted (prepareDataForSending k c)"
proof (cases "\<exists>e. getCachedEntry k c = Some e \<and> needsDataCopyBeforeSending e")
  case True
  then obtain e where e: "getCachedEntry k c = Some e" "needsDataCopyBeforeSending e" by blast
  have "mTotalNumBytes (copyDataForSending e) = 0" by (simp add: copyDataForSending_def)
  then show ?thesis
    by (intro size_change [OF assms e(1), of _ copyDataForSending])
      (simp_all add: prepareDataForSending_def e Let_def)
next
  case False
  then have "prepareDataForSending k c = c"
    by (auto simp: prepareDataForSending_def split: option.splits)
  then show ?thesis using assms by simp
qed

text \<open>An operation on one entry that leaves its total alone.\<close>

lemma size_accounted_same:
  assumes "size_accounted c" and "\<And>e. getCachedEntry k c = Some e \<Longrightarrow> mTotalNumBytes (f e) = mTotalNumBytes e"
  shows "size_accounted (modify_entry k f c)"
proof (cases "getCachedEntry k c")
  case None
  then have "modify_entry k f c = c"
    by (simp add: modify_entry_def getCachedEntry_def um_modify_absent)
  then show ?thesis using assms(1) by simp
next
  case (Some e)
  then show ?thesis
    using assms(2) by (intro size_change [OF assms(1) Some, of _ f]) simp_all
qed

lemma size_accounted_chunk: "size_accounted c \<Longrightarrow> size_accounted (snd (getNextBeaconChunk k p m d c))"
  by (auto simp: getNextBeaconChunk_def Let_def getChunk_keeps intro!: size_accounted_same split: option.splits)

lemma size_accounted_remove: "size_accounted c \<Longrightarrow> size_accounted (removeChunkedData k c)"
  by (auto simp: removeChunkedData_def removeDataMarkedForSending_def intro!: size_accounted_same
      split: option.splits)

lemma size_accounted_reset:
  assumes "size_accounted c"
  shows "size_accounted (resetChunkedData k c)"
proof (cases "getCachedEntry k c")
  case (Some e)
  then show ?thesis
    by (intro size_change [OF assms Some, of _ resetDataMarkedForSending])
      (simp_all add: resetChunkedData_def Let_def onDataAdded_def)
qed (use assms in \<open>simp add: resetChunkedData_def\<close>)

lemma size_accounted_evict:
  assumes "size_accounted c"
  shows "size_accounted (snd (evictRecordsByAge k t c))" and "size_accounted (snd (evictRecordsByNumber k n c))"
  using assms
  by (auto simp: evictRecordsByAge_def evictRecordsByNumber_def Let_def removeRecordsOlderThan_waiting
      removeOldestRecords_def intro!: size_accounted_same split: option.splits prod.splits)

subsection \<open>Sequences of operations\<close>

text \<open>
  The calls other components make, in any order: the session adds data, the sending
  thread prepares, chunks, removes and resets, the evictor evicts, and an entry may be
  deleted at any time.
\<close>

datatype cache_op =
    AddEvent BeaconKey int64 UTF8String
  | AddAction BeaconKey int64 UTF8String
  | DeleteEntry BeaconKey
  | Prepare BeaconKey
  | NextChunk BeaconKey UTF8String int32 UTF8String
  | RemoveChunked BeaconKey
  | ResetChunked BeaconKey
  | EvictByAge BeaconKey int64
  | EvictByNumber BeaconKey int32

primrec cache_run :: "cache_op \<Rightarrow> BeaconCache \<Rightarrow> BeaconCache" where
  "cache_run (AddEvent k t d) c = addEventData k t d c"
| "cache_run (AddAction k t d) c = addActionData k t d c"
| "cache_run (DeleteEntry k) c = deleteCacheEntry k c"
| "cache_run (Prepare k) c = prepareDataForSending k c"
| "cache_run (NextChunk k p m d) c = snd (getNextBeaconChunk k p m d c)"
| "cache_run (RemoveChunked k) c = removeChunkedData k c"
| "cache_run (ResetChunked k) c = resetChunkedData k c"
| "cache_run (EvictByAge k t) c = snd (evictRecordsByAge k t c)"
| "cache_run (EvictByNumber k n) c = snd (evictRecordsByNumber k n c)"

fun is_eviction :: "cache_op \<Rightarrow> bool" where
  "is_eviction (EvictByAge k t) = True"
| "is_eviction (EvictByNumber k n) = True"
| "is_eviction _ = False"

fun deletes :: "BeaconKey \<Rightarrow> cache_op \<Rightarrow> bool" where
  "deletes k (DeleteEntry k') = (k = k')"
| "deletes k _ = False"

lemma size_accounted_run: "size_accounted c \<Longrightarrow> size_accounted (cache_run op c)"
  by (cases op) (simp_all add: size_accounted_add size_accounted_delete size_accounted_prepare
      size_accounted_chunk size_accounted_remove size_accounted_reset size_accounted_evict)

lemma size_accounted_new: "size_accounted BeaconCache_new"
  by (simp add: size_accounted_def BeaconCache_new_def total_bytes_def)

text \<open>A property that holds of every entry, and the operations that keep it.\<close>

definition all_entries :: "(BeaconCacheEntry \<Rightarrow> bool) \<Rightarrow> BeaconCache \<Rightarrow> bool" where
  "all_entries P c \<longleftrightarrow> (\<forall>k e. getCachedEntry k c = Some e \<longrightarrow> P e)"

lemma all_entries_new: "all_entries P BeaconCache_new"
  by (simp add: all_entries_def BeaconCache_new_def getCachedEntry_def)

lemmas entry_after_op = entry_after_addEventData entry_after_addActionData entry_after_delete
  entry_after_prepare entry_after_chunk entry_after_remove entry_after_reset

lemma all_entries_run:
  assumes "all_entries P c" and "\<not> is_eviction op"
    and "P BeaconCacheEntry_new"
    and "\<And>e r. P e \<Longrightarrow> \<not> mMarkedForSending r \<Longrightarrow> P (entry_addEventData r e) \<and> P (entry_addActionData r e)"
    and "\<And>e. P e \<Longrightarrow> needsDataCopyBeforeSending e \<Longrightarrow> P (copyDataForSending e)"
    and "\<And>e p m d. P e \<Longrightarrow> P (snd (getChunk p m d e))"
    and "\<And>e. P e \<Longrightarrow> P (removeDataMarkedForSending e)"
    and "\<And>e. P e \<Longrightarrow> P (resetDataMarkedForSending e)"
  shows "all_entries P (cache_run op c)"
proof -
  have new: "\<not> mMarkedForSending (BeaconCacheRecord_new t d)" for t d
    by (simp add: BeaconCacheRecord_new_def)
  show ?thesis
    using assms new by (cases op) (auto simp: all_entries_def entry_after_op split: option.splits)
qed

lemma all_entries_accounted:
  "all_entries entry_accounted c \<Longrightarrow> \<not> is_eviction op \<Longrightarrow> all_entries entry_accounted (cache_run op c)"
  by (rule all_entries_run)
    (auto simp: accounted_new accounted_add accounted_copy accounted_getChunk accounted_remove accounted_reset)

lemma all_entries_marks:
  "all_entries marks_ok c \<Longrightarrow> \<not> is_eviction op \<Longrightarrow> all_entries marks_ok (cache_run op c)"
proof (rule all_entries_run)
  show "marks_ok (snd (getChunk p m d e))" if "marks_ok e" for e p m d
    using that getChunk_marks [OF that] getChunk_none [of e p m d] by (cases "sending e = []") auto
qed (auto simp: marks_new marks_add marks_copy marks_remove marks_reset)

lemma entry_in_list:
  "um_distinct BeaconKey_eq m \<Longrightarrow> (k, e) \<in> set m \<Longrightarrow> um_find BeaconKey_eq k m = Some e"
proof (induction m)
  case (Cons x m)
  then show ?case by (auto simp: um_find_None_iff list_all_iff)
qed simp

definition waiting_bytes :: "BeaconCache \<Rightarrow> int64" where
  "waiting_bytes c = sum_list (map (\<lambda>e. records_bytes (waiting (snd e))) (mBeacons c))"

lemma size_is_waiting_bytes:
  assumes "size_accounted c" and "all_entries entry_accounted c"
  shows "mCacheSizeInBytes c = waiting_bytes c"
proof -
  have "mTotalNumBytes (snd x) = records_bytes (waiting (snd x))" if "x \<in> set (mBeacons c)" for x
    using that assms entry_in_list [of "mBeacons c" "fst x" "snd x"]
    by (auto simp: size_accounted_def all_entries_def getCachedEntry_def entry_accounted_def)
  then have "map (\<lambda>x. mTotalNumBytes (snd x)) (mBeacons c) =
      map (\<lambda>x. records_bytes (waiting (snd x))) (mBeacons c)" by simp
  then show ?thesis using assms(1) by (simp only: size_accounted_def total_bytes_def waiting_bytes_def)
qed

text \<open>What a call adds to a beacon, and what it takes out as sent.\<close>

fun added_events :: "BeaconKey \<Rightarrow> cache_op \<Rightarrow> (int64 \<times> UTF8String) list" where
  "added_events k (AddEvent k' t d) = (if k = k' then [(t, d)] else [])"
| "added_events k _ = []"

fun added_actions :: "BeaconKey \<Rightarrow> cache_op \<Rightarrow> (int64 \<times> UTF8String) list" where
  "added_actions k (AddAction k' t d) = (if k = k' then [(t, d)] else [])"
| "added_actions k _ = []"

fun sent_records :: "(BeaconCacheEntry \<Rightarrow> BeaconCacheRecord list) \<Rightarrow> BeaconKey \<Rightarrow> cache_op \<Rightarrow> BeaconCache
    \<Rightarrow> (int64 \<times> UTF8String) list" where
  "sent_records l k (RemoveChunked k') c =
     (if k = k' then (case getCachedEntry k c of None \<Rightarrow> []
        | Some e \<Rightarrow> map record_content (filter mMarkedForSending (l e))) else [])"
| "sent_records l k _ c = []"

primrec sent_records_run :: "(BeaconCacheEntry \<Rightarrow> BeaconCacheRecord list) \<Rightarrow> BeaconKey \<Rightarrow> cache_op list
    \<Rightarrow> BeaconCache \<Rightarrow> (int64 \<times> UTF8String) list" where
  "sent_records_run l k [] c = []"
| "sent_records_run l k (op # ops) c = sent_records l k op c @ sent_records_run l k ops (cache_run op c)"

definition queued :: "(BeaconCacheEntry \<Rightarrow> (int64 \<times> UTF8String) list) \<Rightarrow> BeaconKey \<Rightarrow> BeaconCache
    \<Rightarrow> (int64 \<times> UTF8String) list" where
  "queued q k c = (case getCachedEntry k c of None \<Rightarrow> [] | Some e \<Rightarrow> q e)"

lemma marked_prefix_part:
  assumes "xs @ ys = us @ vs" "list_all P us" "list_all (\<lambda>x. \<not> P x) vs"
  shows "xs = filter P xs @ filter (\<lambda>x. \<not> P x) xs" and "ys = filter P ys @ filter (\<lambda>x. \<not> P x) ys"
proof -
  from assms(1) consider zs where "xs = us @ zs" "zs @ ys = vs" | zs where "xs @ zs = us" "ys = zs @ vs"
    by (auto simp: append_eq_append_conv2)
  then show "xs = filter P xs @ filter (\<lambda>x. \<not> P x) xs" "ys = filter P ys @ filter (\<lambda>x. \<not> P x) ys"
    using assms(2,3) by (cases; auto simp: filter_all filter_none)+
qed

lemma pending_remove:
  assumes "marks_ok e"
  shows "pendingEvents e = map record_content (filter mMarkedForSending (mEventDataBeingSent e))
      @ pendingEvents (removeDataMarkedForSending e)"
    and "pendingActions e = map record_content (filter mMarkedForSending (mActionDataBeingSent e))
      @ pendingActions (removeDataMarkedForSending e)"
proof -
  obtain us vs where "mEventDataBeingSent e @ mActionDataBeingSent e = us @ vs"
    "list_all mMarkedForSending us" "list_all (\<lambda>r. \<not> mMarkedForSending r) vs"
    using assms by (auto simp: marks_ok_def sending_def)
  note p = marked_prefix_part [OF this]
  have r: "mEventDataBeingSent (removeDataMarkedForSending e) =
      filter (\<lambda>r. \<not> mMarkedForSending r) (mEventDataBeingSent e)"
    "mActionDataBeingSent (removeDataMarkedForSending e) =
      filter (\<lambda>r. \<not> mMarkedForSending r) (mActionDataBeingSent e)"
    "mEventData (removeDataMarkedForSending e) = mEventData e"
    "mActionData (removeDataMarkedForSending e) = mActionData e"
    by (auto simp: removeDataMarkedForSending_def hasDataToSend_def)
  show "pendingEvents e = map record_content (filter mMarkedForSending (mEventDataBeingSent e))
      @ pendingEvents (removeDataMarkedForSending e)"
    unfolding pendingEvents_def r by (subst p(1)) (simp only: map_append append_assoc)
  show "pendingActions e = map record_content (filter mMarkedForSending (mActionDataBeingSent e))
      @ pendingActions (removeDataMarkedForSending e)"
    unfolding pendingActions_def r by (subst p(2)) (simp only: map_append append_assoc)
qed

lemma record_content_new: "record_content (BeaconCacheRecord_new t d) = (t, d)"
  by (simp add: record_content_def BeaconCacheRecord_new_def)

lemma pending_new: "pendingEvents BeaconCacheEntry_new = []" "pendingActions BeaconCacheEntry_new = []"
  by (simp_all add: pendingEvents_def pendingActions_def BeaconCacheEntry_new_def)

lemma queued_step:
  assumes "all_entries marks_ok c" and "\<not> is_eviction op" and "\<not> deletes k op"
  shows "queued pendingEvents k c @ added_events k op =
      sent_records mEventDataBeingSent k op c @ queued pendingEvents k (cache_run op c)"
    and "queued pendingActions k c @ added_actions k op =
      sent_records mActionDataBeingSent k op c @ queued pendingActions k (cache_run op c)"
  using assms
  by (cases op; auto simp: queued_def entry_after_op pending_add pending_copy pending_reset
      pending_getChunk record_content_new pending_new all_entries_def pending_remove split: option.splits)+

lemma append_chain: "a @ b = s @ q \<Longrightarrow> q @ r = t @ u \<Longrightarrow> a @ (b @ r) = (s @ t) @ u"
  by (metis append_assoc)

lemma queued_run:
  assumes "all_entries marks_ok c" and "list_all (\<lambda>op. \<not> is_eviction op \<and> \<not> deletes k op) ops"
  shows "queued pendingEvents k c @ concat (map (added_events k) ops) =
      sent_records_run mEventDataBeingSent k ops c @ queued pendingEvents k (fold cache_run ops c)
    \<and> queued pendingActions k c @ concat (map (added_actions k) ops) =
      sent_records_run mActionDataBeingSent k ops c @ queued pendingActions k (fold cache_run ops c)"
  using assms
proof (induction ops arbitrary: c)
  case (Cons op ops)
  let ?c = "cache_run op c"
  have op: "\<not> is_eviction op" "\<not> deletes k op" using Cons.prems(2) by auto
  have "all_entries marks_ok ?c" using all_entries_marks Cons.prems(1) op(1) by blast
  then have ih: "queued pendingEvents k ?c @ concat (map (added_events k) ops) =
      sent_records_run mEventDataBeingSent k ops ?c @ queued pendingEvents k (fold cache_run ops ?c)
    \<and> queued pendingActions k ?c @ concat (map (added_actions k) ops) =
      sent_records_run mActionDataBeingSent k ops ?c @ queued pendingActions k (fold cache_run ops ?c)"
    using Cons by simp
  note step = queued_step [OF Cons.prems(1) op]
  show ?case
    unfolding list.map concat.simps sent_records_run.simps fold_Cons comp_apply
    by (rule conjI [OF append_chain [OF step(1) conjunct1 [OF ih]]
          append_chain [OF step(2) conjunct2 [OF ih]]])
qed simp

subsection \<open>Properties of the cache\<close>

text \<open>C18: After any sequence of cache operations that evicts nothing, the number of bytes the
  cache reports is the number of bytes of the records that wait in it (in 64-bit
  arithmetic); records being sent do not count, and a reset counts them again.\<close>

theorem cache_size_exact:
  assumes "list_all (\<lambda>op. \<not> is_eviction op) ops"
  shows "getNumBytesInCache (fold cache_run ops BeaconCache_new) =
    waiting_bytes (fold cache_run ops BeaconCache_new)"
proof -
  have "size_accounted c \<and> all_entries entry_accounted c \<longrightarrow>
      size_accounted (fold cache_run ops c) \<and> all_entries entry_accounted (fold cache_run ops c)" for c
    using assms
    by (induction ops arbitrary: c) (auto simp: size_accounted_run all_entries_accounted)
  then show ?thesis
    using size_is_waiting_bytes size_accounted_new all_entries_new unfolding getNumBytesInCache_def by blast
qed

definition sample_key :: BeaconKey where
  "sample_key = \<lparr>mBeaconId = 1, mBeaconSequenceNumber = 0\<rparr>"

lemma cache_size_exact_witness:
  "getNumBytesInCache (fold cache_run [AddEvent sample_key 1 \<lparr>mData = ''et=1'', mStringLength = 4\<rparr>,
      Prepare sample_key, AddAction sample_key 2 \<lparr>mData = ''et=22'', mStringLength = 5\<rparr>,
      ResetChunked sample_key] BeaconCache_new) =
   waiting_bytes (fold cache_run [AddEvent sample_key 1 \<lparr>mData = ''et=1'', mStringLength = 4\<rparr>,
      Prepare sample_key, AddAction sample_key 2 \<lparr>mData = ''et=22'', mStringLength = 5\<rparr>,
      ResetChunked sample_key] BeaconCache_new)"
  by (rule cache_size_exact) simp

text \<open>Eviction takes records out of an entry but never lowers the number of bytes the cache
  reports, whatever it removes.\<close>

theorem eviction_keeps_cache_size:
  "getNumBytesInCache (snd (evictRecordsByNumber k n c)) = getNumBytesInCache c
   \<and> getNumBytesInCache (snd (evictRecordsByAge k t c)) = getNumBytesInCache c"
  by (auto simp: getNumBytesInCache_def evictRecordsByNumber_def evictRecordsByAge_def Let_def
      split: option.splits)

text \<open>C17: No record is lost, duplicated or reordered: over any sequence of calls that neither
  evicts nor deletes the beacon's entry, the events added for a beacon are, in order, the
  events removed as sent followed by the events still in the cache, and likewise the
  actions; preparing, chunking and resetting change nothing of it.\<close>

theorem cache_fifo:
  assumes "list_all (\<lambda>op. \<not> is_eviction op \<and> \<not> deletes k op) ops"
  shows "concat (map (added_events k) ops) =
      sent_records_run mEventDataBeingSent k ops BeaconCache_new
      @ queued pendingEvents k (fold cache_run ops BeaconCache_new)
    \<and> concat (map (added_actions k) ops) =
      sent_records_run mActionDataBeingSent k ops BeaconCache_new
      @ queued pendingActions k (fold cache_run ops BeaconCache_new)"
proof -
  have "queued q k BeaconCache_new = []" for q
    by (simp add: queued_def BeaconCache_new_def getCachedEntry_def)
  then show ?thesis using queued_run [OF all_entries_new assms] by simp
qed

lemma cache_fifo_witness:
  "[(1, UTF8String_empty), (2, UTF8String_empty)] =
      sent_records_run mEventDataBeingSent sample_key
        [AddEvent sample_key 1 UTF8String_empty, Prepare sample_key, AddEvent sample_key 2 UTF8String_empty,
         NextChunk sample_key UTF8String_empty 10 UTF8String_empty, RemoveChunked sample_key] BeaconCache_new
      @ queued pendingEvents sample_key (fold cache_run
        [AddEvent sample_key 1 UTF8String_empty, Prepare sample_key, AddEvent sample_key 2 UTF8String_empty,
         NextChunk sample_key UTF8String_empty 10 UTF8String_empty, RemoveChunked sample_key] BeaconCache_new)"
  using cache_fifo [of sample_key "[AddEvent sample_key 1 UTF8String_empty, Prepare sample_key,
      AddEvent sample_key 2 UTF8String_empty, NextChunk sample_key UTF8String_empty 10 UTF8String_empty,
      RemoveChunked sample_key]"]
  by (simp del: fold_simps cache_run.simps sent_records_run.simps)

end
