(* ===== verification/Beacon_Send.thy ===== *)
theory Beacon_Send
  imports Beacon_Cache "HOL-Library.Multiset"
begin

text \<open>
  The interface \<^verbatim>\<open>IBeaconCache\<close> through which the components use the cache, and the loop of
  \<^verbatim>\<open>protocol::Beacon::send\<close> (src/protocol/Beacon.cxx) over it. The locale \<open>chunk_store\<close>
  holds what the loop relies on; in it the loop is shown to deliver the records
  prepared for sending in order and exactly once, in chunks, and to return. The
  interpretation discharges its laws for the cache.
\<close>

subsection \<open>The interface of the cache\<close>

text \<open>A table of the virtual functions, on the state \<open>'s\<close> of the implementation.\<close>

record 's IBeaconCache =
  vAddEventData :: "BeaconKey \<Rightarrow> int64 \<Rightarrow> UTF8String \<Rightarrow> 's \<Rightarrow> 's"
  vAddActionData :: "BeaconKey \<Rightarrow> int64 \<Rightarrow> UTF8String \<Rightarrow> 's \<Rightarrow> 's"
  vDeleteCacheEntry :: "BeaconKey \<Rightarrow> 's \<Rightarrow> 's"
  vPrepareDataForSending :: "BeaconKey \<Rightarrow> 's \<Rightarrow> 's"
  vHasDataForSending :: "BeaconKey \<Rightarrow> 's \<Rightarrow> bool"
  vGetNextBeaconChunk :: "BeaconKey \<Rightarrow> UTF8String \<Rightarrow> int32 \<Rightarrow> UTF8String \<Rightarrow> 's \<Rightarrow> UTF8String \<times> 's"
  vRemoveChunkedData :: "BeaconKey \<Rightarrow> 's \<Rightarrow> 's"
  vResetChunkedData :: "BeaconKey \<Rightarrow> 's \<Rightarrow> 's"
  vGetBeaconKeys :: "'s \<Rightarrow> BeaconKey list"
  vEvictRecordsByAge :: "BeaconKey \<Rightarrow> int64 \<Rightarrow> 's \<Rightarrow> int32 \<times> 's"
  vEvictRecordsByNumber :: "BeaconKey \<Rightarrow> int32 \<Rightarrow> 's \<Rightarrow> int32 \<times> 's"
  vGetNumBytesInCache :: "'s \<Rightarrow> int64"
  vIsEmpty :: "BeaconKey \<Rightarrow> 's \<Rightarrow> bool"

definition BeaconCache_vtable :: "BeaconCache IBeaconCache" where
  "BeaconCache_vtable = \<lparr>
     vAddEventData = addEventData, vAddActionData = addActionData,
     vDeleteCacheEntry = deleteCacheEntry, vPrepareDataForSending = prepareDataForSending,
     vHasDataForSending = hasDataForSending, vGetNextBeaconChunk = getNextBeaconChunk,
     vRemoveChunkedData = removeChunkedData, vResetChunkedData = resetChunkedData,
     vGetBeaconKeys = getBeaconKeys, vEvictRecordsByAge = evictRecordsByAge,
     vEvictRecordsByNumber = evictRecordsByNumber, vGetNumBytesInCache = getNumBytesInCache,
     vIsEmpty = cache_isEmpty\<rparr>"

lemma BeaconCache_vtable_sel [simp]:
  "vPrepareDataForSending BeaconCache_vtable = prepareDataForSending"
  "vHasDataForSending BeaconCache_vtable = hasDataForSending"
  "vGetNextBeaconChunk BeaconCache_vtable = getNextBeaconChunk"
  "vRemoveChunkedData BeaconCache_vtable = removeChunkedData"
  "vResetChunkedData BeaconCache_vtable = resetChunkedData"
  "vGetBeaconKeys BeaconCache_vtable = getBeaconKeys"
  "vEvictRecordsByAge BeaconCache_vtable = evictRecordsByAge"
  "vEvictRecordsByNumber BeaconCache_vtable = evictRecordsByNumber"
  "vGetNumBytesInCache BeaconCache_vtable = getNumBytesInCache"
  by (simp_all add: BeaconCache_vtable_def)

subsection \<open>The send loop\<close>

text \<open>
  What \<open>send\<close> reads of the beacon and its collaborators: the immutable part of the
  prefix, the mutable part (it holds time stamps, so it depends on the world), the
  HTTP client's \<open>sendBeaconRequest\<close>, and \<open>isErroneousResponse\<close> of its result. The beacon
  size is that of the server configuration.
\<close>

record ('w, 'r) send_env =
  mImmutableBasicBeaconData :: UTF8String
  getMutableBeaconData :: "'w \<Rightarrow> UTF8String"
  sendBeaconRequest :: "UTF8String \<Rightarrow> 'w \<Rightarrow> 'r option \<times> 'w"
  isErroneousResponse :: "'r \<Rightarrow> bool"
  getBeaconSizeInBytes :: int32

definition BEACON_DATA_DELIMITER :: UTF8String where
  "BEACON_DATA_DELIMITER = \<lparr>mData = ''&'', mStringLength = 1\<rparr>"

definition chunk_prefix :: "('w, 'r) send_env \<Rightarrow> 'w \<Rightarrow> UTF8String" where
  "chunk_prefix env w =
     concatenate (concatenate (mImmutableBasicBeaconData env) BEACON_DATA_DELIMITER) (getMutableBeaconData env w)"

partial_function (option) send_loop ::
    "'s IBeaconCache \<Rightarrow> BeaconKey \<Rightarrow> ('w, 'r) send_env \<Rightarrow> 'r option \<Rightarrow> 's \<Rightarrow> 'w \<Rightarrow> ('r option \<times> 's \<times> 'w) option" where
  "send_loop cache mBeaconKey env response s w =
     (if \<not> vHasDataForSending cache mBeaconKey s then Some (response, s, w)
      else
        (let prefix = chunk_prefix env w;
             chunk_s = vGetNextBeaconChunk cache mBeaconKey prefix (getBeaconSizeInBytes env - 1024)
               BEACON_DATA_DELIMITER s;
             chunk = fst chunk_s;
             s1 = snd chunk_s in
         if equals chunk UTF8String_empty \<or> utf8_isEmpty chunk then Some (response, s1, w)
         else
           (let resp_w = sendBeaconRequest env chunk w;
                w1 = snd resp_w in
            case fst resp_w of
              None \<Rightarrow> Some (None, vResetChunkedData cache mBeaconKey s1, w1)
            | Some r \<Rightarrow>
                if isErroneousResponse env r
                then Some (Some r, vResetChunkedData cache mBeaconKey s1, w1)
                else send_loop cache mBeaconKey env (Some r) (vRemoveChunkedData cache mBeaconKey s1) w1)))"

definition beacon_send ::
    "'s IBeaconCache \<Rightarrow> BeaconKey \<Rightarrow> ('w, 'r) send_env \<Rightarrow> 's \<Rightarrow> 'w \<Rightarrow> ('r option \<times> 's \<times> 'w) option" where
  "beacon_send cache mBeaconKey env s w =
     send_loop cache mBeaconKey env None (vPrepareDataForSending cache mBeaconKey s) w"

text \<open>The room for a chunk's records, and a chunk made of a group of records.\<close>

definition chunk_limit :: "('w, 'r) send_env \<Rightarrow> nat" where
  "chunk_limit env = int32_to_size_t (getBeaconSizeInBytes env - 1024)"

definition chunk_of :: "('w, 'r) send_env \<Rightarrow> 'w \<Rightarrow> BeaconCacheRecord list \<Rightarrow> UTF8String" where
  "chunk_of env w rs = chunk_text BEACON_DATA_DELIMITER (chunk_start (chunk_prefix env w)) rs"

text \<open>The world after the groups have been sent, one request for each.\<close>

definition world_after :: "('w, 'r) send_env \<Rightarrow> BeaconCacheRecord list list \<Rightarrow> 'w \<Rightarrow> 'w" where
  "world_after env gs w = foldl (\<lambda>w g. snd (sendBeaconRequest env (chunk_of env w g) w)) w gs"

definition accepted :: "('w, 'r) send_env \<Rightarrow> UTF8String \<Rightarrow> 'w \<Rightarrow> bool" where
  "accepted env chunk w \<longleftrightarrow>
     (case fst (sendBeaconRequest env chunk w) of None \<Rightarrow> False | Some r \<Rightarrow> \<not> isErroneousResponse env r)"

fun all_accepted :: "('w, 'r) send_env \<Rightarrow> BeaconCacheRecord list list \<Rightarrow> 'w \<Rightarrow> bool" where
  "all_accepted env [] w = True"
| "all_accepted env (g # gs) w \<longleftrightarrow> accepted env (chunk_of env w g) w \<and>
     all_accepted env gs (snd (sendBeaconRequest env (chunk_of env w g) w))"

text \<open>
  How a run of the loop ends: the groups \<open>gs\<close> were accepted, one after the other; either
  they are all of \<open>todo\<close>, or the group after them was refused and it and all that follows
  is stored again.
\<close>

definition delivered ::
    "('w, 'r) send_env \<Rightarrow> BeaconCacheRecord list list \<Rightarrow> 'w \<Rightarrow> BeaconCacheRecord list
      \<Rightarrow> BeaconCacheRecord list \<Rightarrow> BeaconCacheRecord list \<Rightarrow> 'w \<Rightarrow> bool" where
  "delivered env gs w todo before after w' \<longleftrightarrow> [] \<notin> set gs \<and> all_accepted env gs w \<and>
     (todo = concat gs \<and> after = before \<and> w' = world_after env gs w
      \<or> (\<exists>g rest. todo = concat gs @ g @ rest \<and> g \<noteq> [] \<and>
           \<not> accepted env (chunk_of env (world_after env gs w) g) (world_after env gs w) \<and>
           mset after = mset (g @ rest @ before) \<and> w' = world_after env (gs @ [g]) w))"

lemma world_after_Cons:
  "world_after env (g # gs) w = world_after env gs (snd (sendBeaconRequest env (chunk_of env w g) w))"
  by (simp add: world_after_def)

lemma delivered_Cons:
  assumes "g \<noteq> []" and "accepted env (chunk_of env w g) w"
    and "delivered env gs (snd (sendBeaconRequest env (chunk_of env w g) w)) todo before after w'"
  shows "delivered env (g # gs) w (g @ todo) before after w'"
proof -
  let ?w = "snd (sendBeaconRequest env (chunk_of env w g) w)"
  have ok: "[] \<notin> set (g # gs)" "all_accepted env (g # gs) w"
    using assms by (auto simp: delivered_def)
  from assms(3) consider
    (all) "todo = concat gs" "after = before" "w' = world_after env gs ?w"
  | (cut) h rest where "todo = concat gs @ h @ rest" "h \<noteq> []"
      "\<not> accepted env (chunk_of env (world_after env gs ?w) h) (world_after env gs ?w)"
      "mset after = mset (h @ rest @ before)" "w' = world_after env (gs @ [h]) ?w"
    unfolding delivered_def by blast
  then show ?thesis
  proof cases
    case all
    then show ?thesis using ok by (simp add: delivered_def world_after_Cons)
  next
    case cut
    have "g @ todo = concat (g # gs) @ h @ rest" using cut(1) by simp
    then show ?thesis
      using ok cut(2-) unfolding delivered_def append_Cons world_after_Cons by blast
  qed
qed

lemma chunk_count_zero: "maxSize < mStringLength chunk \<Longrightarrow> chunk_count chunk rs maxSize d = 0"
  by (cases rs) auto

lemma chunk_prefix_length: "0 < mStringLength (chunk_prefix env w)"
  by (simp add: chunk_prefix_def concatenate_def BEACON_DATA_DELIMITER_def)

lemma chunk_text_length: "mStringLength c \<le> mStringLength (chunk_text d c rs)"
proof (induction rs arbitrary: c)
  case (Cons r rs)
  have "mStringLength c \<le> mStringLength (chunk_append d c r)"
    by (simp add: chunk_append_def concatenate_def)
  also have "\<dots> \<le> mStringLength (chunk_text d (chunk_append d c r) rs)" by (rule Cons)
  finally show ?case by (simp add: chunk_text_Cons)
qed simp

lemma chunk_of_not_empty: "0 < mStringLength (chunk_of env w rs) \<and> mData (chunk_of env w rs) \<noteq> []"
proof -
  let ?p = "chunk_start (chunk_prefix env w)"
  have "mData ?p \<noteq> []"
    by (auto simp: chunk_start_def chunk_prefix_def concatenate_def BEACON_DATA_DELIMITER_def UTF8String_empty_def)
  moreover have "mData c \<noteq> [] \<Longrightarrow> mData (chunk_text d c rs) \<noteq> []" for d c
    by (induction rs arbitrary: c) (auto simp: chunk_text_Cons chunk_append_def concatenate_def)
  moreover have "0 < mStringLength ?p"
    using chunk_prefix_length by (simp add: chunk_start_length)
  ultimately show ?thesis
    using chunk_text_length [of ?p BEACON_DATA_DELIMITER rs] by (auto simp: chunk_of_def)
qed

subsection \<open>What the loop relies on\<close>

text \<open>
  \<open>to_send\<close> is what is being sent, in the order events before actions; \<open>stored\<close> is what
  waits. A state is \<open>fresh\<close> when no chunk has been taken since the last removal or reset.
\<close>

locale chunk_store =
  fixes cache :: "'s IBeaconCache" and key :: BeaconKey
    and fresh :: "'s \<Rightarrow> bool" and to_send :: "'s \<Rightarrow> BeaconCacheRecord list"
    and stored :: "'s \<Rightarrow> BeaconCacheRecord list"
  assumes has_data: "vHasDataForSending cache key s \<longleftrightarrow> to_send s \<noteq> []"
    and prepare: "fresh s \<Longrightarrow> fresh (vPrepareDataForSending cache key s) \<and>
      to_send (vPrepareDataForSending cache key s) = (if to_send s = [] then stored s else to_send s)"
    and chunk: "to_send s \<noteq> [] \<Longrightarrow> n = chunk_count (chunk_start p) (to_send s) (int32_to_size_t m) d \<Longrightarrow>
      fst (vGetNextBeaconChunk cache key p m d s) = chunk_text d (chunk_start p) (take n (to_send s))"
    and chunk_remove: "fresh s \<Longrightarrow> to_send s \<noteq> [] \<Longrightarrow>
      n = chunk_count (chunk_start p) (to_send s) (int32_to_size_t m) d \<Longrightarrow>
      s' = vRemoveChunkedData cache key (snd (vGetNextBeaconChunk cache key p m d s)) \<Longrightarrow>
      fresh s' \<and> to_send s' = drop n (to_send s) \<and> stored s' = stored s"
    and chunk_reset: "fresh s \<Longrightarrow> to_send s \<noteq> [] \<Longrightarrow>
      s' = vResetChunkedData cache key (snd (vGetNextBeaconChunk cache key p m d s)) \<Longrightarrow>
      fresh s' \<and> to_send s' = [] \<and> mset (stored s') = mset (to_send s @ stored s)"
begin

text \<open>One iteration of the loop.\<close>

definition group_size :: "('w, 'r) send_env \<Rightarrow> 's \<Rightarrow> 'w \<Rightarrow> nat" where
  "group_size env s w =
     chunk_count (chunk_start (chunk_prefix env w)) (to_send s) (chunk_limit env) BEACON_DATA_DELIMITER"

lemma loop_done: "to_send s = [] \<Longrightarrow> send_loop cache key env r s w = Some (r, s, w)"
  by (subst send_loop.simps) (simp add: has_data)

lemma loop_step:
  assumes ne: "to_send s \<noteq> []"
    and g_def: "g = take (group_size env s w) (to_send s)"
    and s1_def: "s1 = snd (vGetNextBeaconChunk cache key (chunk_prefix env w) (getBeaconSizeInBytes env - 1024)
      BEACON_DATA_DELIMITER s)"
    and w1_def: "w1 = snd (sendBeaconRequest env (chunk_of env w g) w)"
  shows "accepted env (chunk_of env w g) w \<Longrightarrow> send_loop cache key env r s w =
      send_loop cache key env (fst (sendBeaconRequest env (chunk_of env w g) w)) (vRemoveChunkedData cache key s1) w1"
    and "\<not> accepted env (chunk_of env w g) w \<Longrightarrow> send_loop cache key env r s w =
      Some (fst (sendBeaconRequest env (chunk_of env w g) w), vResetChunkedData cache key s1, w1)"
proof -
  have c: "fst (vGetNextBeaconChunk cache key (chunk_prefix env w) (getBeaconSizeInBytes env - 1024)
      BEACON_DATA_DELIMITER s) = chunk_of env w g"
    using chunk [OF ne refl] by (simp add: chunk_of_def g_def group_size_def chunk_limit_def)
  have e: "\<not> (equals (chunk_of env w g) UTF8String_empty \<or> utf8_isEmpty (chunk_of env w g))"
    using chunk_of_not_empty [of env w g] by (auto simp: equals_def UTF8String_empty_def utf8_isEmpty_def)
  have h: "vHasDataForSending cache key s" using ne has_data by simp
  show "accepted env (chunk_of env w g) w \<Longrightarrow> send_loop cache key env r s w =
      send_loop cache key env (fst (sendBeaconRequest env (chunk_of env w g) w)) (vRemoveChunkedData cache key s1) w1"
    by (subst send_loop.simps) (use h c e in \<open>auto simp: Let_def accepted_def s1_def w1_def split: option.splits\<close>)
  show "\<not> accepted env (chunk_of env w g) w \<Longrightarrow> send_loop cache key env r s w =
      Some (fst (sendBeaconRequest env (chunk_of env w g) w), vResetChunkedData cache key s1, w1)"
    by (subst send_loop.simps) (use h c e in \<open>auto simp: Let_def accepted_def s1_def w1_def split: option.splits\<close>)
qed

text \<open>
  The loop delivers groups of records; the groups accepted, in order, are a first part
  of what was to be sent. When a group is refused, it and all that follows is stored
  again.
\<close>

lemma loop_delivers:
  assumes "fresh s" and room: "\<And>w. mStringLength (chunk_prefix env w) \<le> chunk_limit env"
  shows "\<exists>gs r' s' w'. send_loop cache key env r s w = Some (r', s', w') \<and> fresh s' \<and> to_send s' = [] \<and>
    delivered env gs w (to_send s) (stored s) (stored s') w'"
  using assms(1)
proof (induction "length (to_send s)" arbitrary: s w r rule: less_induct)
  case less
  show ?case
  proof (cases "to_send s = []")
    case True
    have "delivered env [] w [] (stored s) (stored s) w" by (simp add: delivered_def world_after_def)
    then show ?thesis using loop_done [OF True] less.prems True by fastforce
  next
    case False
    let ?n = "group_size env s w"
    let ?g = "take ?n (to_send s)"
    let ?c = "vGetNextBeaconChunk cache key (chunk_prefix env w) (getBeaconSizeInBytes env - 1024)
      BEACON_DATA_DELIMITER s"
    have pos: "0 < ?n" unfolding group_size_def chunk_count_pos_iff
      using False room by (simp add: chunk_start_length)
    then have g: "?g \<noteq> []" using False by simp
    show ?thesis
    proof (cases "accepted env (chunk_of env w ?g) w")
      case True
      let ?s = "vRemoveChunkedData cache key (snd ?c)"
      let ?w = "snd (sendBeaconRequest env (chunk_of env w ?g) w)"
      have s: "fresh ?s" "to_send ?s = drop ?n (to_send s)" "stored ?s = stored s"
        using chunk_remove [OF less.prems False refl refl] by (simp_all add: group_size_def chunk_limit_def)
      have "length (to_send ?s) < length (to_send s)" using s(2) pos False by simp
      from less.hyps [OF this s(1), of "fst (sendBeaconRequest env (chunk_of env w ?g) w)" ?w]
      obtain gs r' s' w' where
        ih: "send_loop cache key env (fst (sendBeaconRequest env (chunk_of env w ?g) w)) ?s ?w = Some (r', s', w')"
          "fresh s'" "to_send s' = []" "delivered env gs ?w (to_send ?s) (stored ?s) (stored s') w'" by blast
      have "?g @ to_send ?s = to_send s" using s(2) by simp
      then have "delivered env (?g # gs) w (to_send s) (stored s) (stored s') w'"
        using delivered_Cons [OF g True ih(4)] s(3) by simp
      then show ?thesis
        using loop_step(1) [OF False refl refl refl True, of r] ih(1-3) by auto
    next
      case refused: False
      let ?s = "vResetChunkedData cache key (snd ?c)"
      have s: "fresh ?s" "to_send ?s = []" "mset (stored ?s) = mset (to_send s @ stored s)"
        using chunk_reset [OF less.prems False refl] by simp_all
      have "to_send s @ stored s = ?g @ drop ?n (to_send s) @ stored s" by simp
      then have "mset (stored ?s) = mset (?g @ drop ?n (to_send s) @ stored s)" using s(3) by metis
      moreover have "to_send s = concat [] @ ?g @ drop ?n (to_send s)" by simp
      moreover have "world_after env ([] @ [?g]) w = snd (sendBeaconRequest env (chunk_of env w ?g) w)"
        "world_after env [] w = w"
        by (simp_all add: world_after_def)
      moreover have "[] \<notin> set []" "all_accepted env [] w" by simp_all
      ultimately have "delivered env [] w (to_send s) (stored s) (stored ?s)
          (snd (sendBeaconRequest env (chunk_of env w ?g) w))"
        using g refused unfolding delivered_def by metis
      then show ?thesis
        using s(1,2) loop_step(2) [OF False refl refl refl refused, of r] by blast
    qed
  qed
qed

text \<open>With a prefix that leaves no room, no group ever holds a record and the loop runs on.\<close>

lemma loop_diverges:
  assumes "fresh s" and "to_send s \<noteq> []"
    and long: "\<And>w. chunk_limit env < mStringLength (chunk_prefix env w)"
    and acc: "\<And>w chunk. accepted env chunk w"
  shows "send_loop cache key env r s w = None"
proof -
  have returns: "ca = cache \<and> k = key \<and> en = env \<longrightarrow> \<not> (fresh s \<and> to_send s \<noteq> [])"
    if returned: "send_loop ca k en r s w = Some y" for ca k en r s w y
  proof (rule send_loop.raw_induct [where P = "\<lambda>ca k en r s w y.
      ca = cache \<and> k = key \<and> en = env \<longrightarrow> \<not> (fresh s \<and> to_send s \<noteq> [])"], goal_cases)
    case (1 f ca k en r s w y)
    show ?case
    proof (intro impI notI)
      assume eq: "ca = cache \<and> k = key \<and> en = env" and fs: "fresh s \<and> to_send s \<noteq> []"
      let ?c = "vGetNextBeaconChunk cache key (chunk_prefix env w) (getBeaconSizeInBytes env - 1024)
        BEACON_DATA_DELIMITER s"
      have n: "chunk_count (chunk_start (chunk_prefix env w)) (to_send s)
          (int32_to_size_t (getBeaconSizeInBytes env - 1024)) BEACON_DATA_DELIMITER = 0"
        using long [of w] by (intro chunk_count_zero) (simp add: chunk_start_length chunk_limit_def)
      have c: "fst ?c = chunk_of env w []"
        using chunk [OF _ n [symmetric]] fs by (simp add: chunk_of_def)
      have e: "\<not> (equals (chunk_of env w []) UTF8String_empty \<or> utf8_isEmpty (chunk_of env w []))"
        using chunk_of_not_empty [of env w "[]"]
        by (auto simp: equals_def UTF8String_empty_def utf8_isEmpty_def)
      have "fresh (vRemoveChunkedData cache key (snd ?c)) \<and>
          to_send (vRemoveChunkedData cache key (snd ?c)) = to_send s"
        using chunk_remove [OF _ _ n [symmetric] refl] fs by simp
      then show False
        using 1 eq fs has_data [of s] c e acc [of "chunk_of env w []" w]
        by (auto simp: Let_def accepted_def split: option.splits if_splits)
    qed
  next
    show "send_loop ca k en r s w = Some y" by (rule returned)
  qed
  then show ?thesis using assms(1,2) by (cases "send_loop cache key env r s w") blast+
qed

end

subsection \<open>The cache provides it\<close>

definition entry_view :: "(BeaconCacheEntry \<Rightarrow> BeaconCacheRecord list) \<Rightarrow> BeaconKey \<Rightarrow> BeaconCache \<Rightarrow> BeaconCacheRecord list" where
  "entry_view f k c = (case getCachedEntry k c of None \<Rightarrow> [] | Some e \<Rightarrow> f e)"

definition cache_fresh :: "BeaconKey \<Rightarrow> BeaconCache \<Rightarrow> bool" where
  "cache_fresh k c =
     (case getCachedEntry k c of None \<Rightarrow> True | Some e \<Rightarrow> marks_ok e \<and> marked_count e = 0)"

lemma copy_views:
  "needsDataCopyBeforeSending e \<Longrightarrow> sending (copyDataForSending e) = waiting e"
  "sending e = [] \<Longrightarrow> \<not> needsDataCopyBeforeSending e \<Longrightarrow> waiting e = []"
  "needsDataCopyBeforeSending e \<Longrightarrow> sending e = []"
  by (auto simp: needsDataCopyBeforeSending_def copyDataForSending_def sending_def waiting_def)

lemma waiting_getChunk: "waiting (snd (getChunk p m d e)) = waiting e"
  by (simp add: waiting_def getChunk_keeps)

lemma unset_unmarked: "list_all (\<lambda>r. \<not> mMarkedForSending r) rs \<Longrightarrow> map unsetSending rs = rs"
  by (induction rs) (auto simp: unsetSending_def)

lemma unset_mark: "unsetSending (markForSending r) = unsetSending r"
  by (simp add: unsetSending_def markForSending_def)

lemma reset_chunk_views:
  assumes ok: "marks_ok e" "marked_count e = 0" and ne: "sending e \<noteq> []"
  shows "mset (waiting (resetDataMarkedForSending (snd (getChunk p m d e)))) = mset (sending e @ waiting e)"
proof -
  let ?e = "snd (getChunk p m d e)"
  have unm: "list_all (\<lambda>r. \<not> mMarkedForSending r) (sending e)"
    using marks_split(2) [OF ok(1)] ok(2) by simp
  have "map unsetSending (sending ?e) = map unsetSending (sending e)"
    using getChunk_eq(2) [OF ne refl, of p m d]
    by (simp add: unset_mark comp_def) (metis append_take_drop_id map_append)
  then have u: "map unsetSending (sending ?e) = sending e" using unset_unmarked [OF unm] by simp
  have h: "hasDataToSend ?e"
    using u ne by (auto simp: hasDataToSend_iff)
  have "mset (waiting (resetDataMarkedForSending ?e)) = mset (map unsetSending (sending ?e)) + mset (waiting ?e)"
    using h by (simp add: resetDataMarkedForSending_def Let_def waiting_def sending_def)
  then show ?thesis by (simp add: u waiting_getChunk)
qed

interpretation cache_store: chunk_store BeaconCache_vtable key "cache_fresh key" "entry_view sending key"
    "entry_view waiting key" for key
proof (unfold_locales, goal_cases)
  case (1 s)
  show ?case by (simp add: hasDataForSending_def entry_view_def hasDataToSend_iff
      split: option.split)
next
  case (2 s)
  then show ?case
    by (auto simp: cache_fresh_def entry_view_def entry_after_prepare marks_copy
        copy_views split: option.splits)
next
  case (3 s n p m d)
  then show ?case
    by (auto simp: getNextBeaconChunk_def entry_view_def getChunk_eq Let_def
        split: option.splits)
next
  case (4 s n p m d s')
  then obtain e where e: "getCachedEntry key s = Some e" "marks_ok e" "marked_count e = 0" "sending e \<noteq> []"
    by (auto simp: cache_fresh_def entry_view_def split: option.splits)
  let ?e = "snd (getChunk p (int32_to_size_t m) d e)"
  have n: "n = chunk_count (chunk_start p) (sending e) (int32_to_size_t m) d"
    using 4(3) e(1) by (simp add: entry_view_def)
  note m = getChunk_marks [OF e(2,4) n]
  have "sending (removeDataMarkedForSending ?e) = drop n (sending e)"
    using sending_remove [of ?e] m e(3) getChunk_eq(2) [OF e(4) n] chunk_count_le n by simp
  then show ?case
    using 4(4) e m marks_remove [of ?e]
    by (simp add: cache_fresh_def entry_view_def entry_after_remove entry_after_chunk
        waiting_remove waiting_getChunk)
next
  case (5 s s' p m d)
  then obtain e where e: "getCachedEntry key s = Some e" "marks_ok e" "marked_count e = 0" "sending e \<noteq> []"
    by (auto simp: cache_fresh_def entry_view_def split: option.splits)
  let ?e = "snd (getChunk p (int32_to_size_t m) d e)"
  have "marks_ok ?e" using getChunk_marks [OF e(2,4) refl] by blast
  then have r: "marks_ok (resetDataMarkedForSending ?e)" "marked_count (resetDataMarkedForSending ?e) = 0"
    using marks_reset by (auto simp: marked_count_def sending_reset)
  show ?case
    using 5(3) e(1) r sending_reset [of ?e] reset_chunk_views [OF e(2-4)]
    by (simp add: cache_fresh_def entry_view_def entry_after_reset entry_after_chunk)
qed

subsection \<open>Properties of sending\<close>

text \<open>C1: When the prefix of a chunk leaves room (it is no longer than the beacon size of the
  server configuration less 1024 bytes), \<open>Beacon::send\<close> returns, whatever the server
  answers. The records to send, events before actions, are delivered in order and each
  exactly once in non-empty chunks up to the first request that fails; the records of
  that request and all behind it are back in the cache.\<close>

theorem beacon_send_delivers:
  assumes "cache_fresh k c" and "entry_view sending k c = []"
    and "\<And>w. mStringLength (chunk_prefix env w) \<le> chunk_limit env"
  shows "\<exists>gs r c' w'. beacon_send BeaconCache_vtable k env c w = Some (r, c', w')
    \<and> delivered env gs w (entry_view waiting k c)
        (entry_view waiting k (prepareDataForSending k c)) (entry_view waiting k c') w'
    \<and> entry_view sending k c' = []"
proof -
  let ?c = "prepareDataForSending k c"
  have p: "vPrepareDataForSending BeaconCache_vtable k c = ?c" by simp
  then have "cache_fresh k ?c" "entry_view sending k ?c = entry_view waiting k c"
    using cache_store.prepare [OF assms(1)] assms(2) by auto
  then show ?thesis
    using cache_store.loop_delivers [of k ?c env] assms(3) p unfolding beacon_send_def by metis
qed

definition sample_env :: "int32 \<Rightarrow> (string list, unit) send_env" where
  "sample_env bytes = \<lparr>
     mImmutableBasicBeaconData = \<lparr>mData = ''vv=3'', mStringLength = 4\<rparr>,
     getMutableBeaconData = (\<lambda>w. \<lparr>mData = ''tv=1'', mStringLength = 4\<rparr>),
     sendBeaconRequest = (\<lambda>chunk w. (Some (), w @ [mData chunk])),
     isErroneousResponse = (\<lambda>_. False),
     getBeaconSizeInBytes = bytes\<rparr>"

definition sample_cache :: BeaconCache where
  "sample_cache = addEventData sample_key 1 \<lparr>mData = ''et=1'', mStringLength = 4\<rparr> BeaconCache_new"

lemma sample_cache_entry:
  "getCachedEntry sample_key sample_cache =
    Some (entry_addEventData (BeaconCacheRecord_new 1 \<lparr>mData = ''et=1'', mStringLength = 4\<rparr>) BeaconCacheEntry_new)"
proof -
  have "getCachedEntry sample_key BeaconCache_new = None" by (simp add: BeaconCache_new_def getCachedEntry_def)
  then show ?thesis by (simp add: sample_cache_def entry_after_addEventData)
qed

lemma sample_cache_fresh:
  "cache_fresh sample_key sample_cache" "entry_view sending sample_key sample_cache = []"
  "entry_view waiting sample_key sample_cache \<noteq> []"
  using marks_add(1) [OF marks_new, of "BeaconCacheRecord_new 1 \<lparr>mData = ''et=1'', mStringLength = 4\<rparr>"]
  by (simp_all add: cache_fresh_def entry_view_def sample_cache_entry marked_count_def
      entry_addEventData_def BeaconCacheEntry_new_def sending_def waiting_def BeaconCacheRecord_new_def)

lemma sample_prefix_length: "mStringLength (chunk_prefix (sample_env bytes) w) = 9"
  by (simp add: chunk_prefix_def sample_env_def concatenate_def BEACON_DATA_DELIMITER_def)

lemma sample_limit: "chunk_limit (sample_env 2048) = 1024" "chunk_limit (sample_env 1024) = 0"
proof -
  have s: "sint (1024 :: int32) = 1024" "sint (0 :: int32) = 0" by simp_all
  show "chunk_limit (sample_env 2048) = 1024" "chunk_limit (sample_env 1024) = 0"
    using int32_to_size_t_nonneg [of 1024] int32_to_size_t_nonneg [of 0]
    by (simp_all add: chunk_limit_def sample_env_def s)
qed

lemma beacon_send_delivers_witness:
  "\<exists>r c' w'. beacon_send BeaconCache_vtable sample_key (sample_env 2048) sample_cache [] = Some (r, c', w')
    \<and> entry_view sending sample_key c' = []"
  using beacon_send_delivers [OF sample_cache_fresh(1,2), of "sample_env 2048" "[]"]
  by (auto simp: sample_prefix_length sample_limit)

text \<open>C39: When the prefix is longer than that (a server configuration with a beacon size of
  1 kB leaves no room at all), a chunk holds no record, so that a server which accepts
  every request never lets \<open>Beacon::send\<close> return.\<close>

theorem beacon_send_never_returns:
  assumes "cache_fresh k c" and "entry_view sending k c = []" and "entry_view waiting k c \<noteq> []"
    and "\<And>w. chunk_limit env < mStringLength (chunk_prefix env w)"
    and "\<And>w chunk. accepted env chunk w"
  shows "beacon_send BeaconCache_vtable k env c w = None"
proof -
  let ?c = "prepareDataForSending k c"
  have p: "vPrepareDataForSending BeaconCache_vtable k c = ?c" by simp
  then have "cache_fresh k ?c" "entry_view sending k ?c \<noteq> []"
    using cache_store.prepare [OF assms(1)] assms(2,3) by auto
  then show ?thesis
    using cache_store.loop_diverges [of k ?c env] assms(4,5) p unfolding beacon_send_def by metis
qed

lemma beacon_send_never_returns_witness:
  "beacon_send BeaconCache_vtable sample_key (sample_env 1024) sample_cache [] = None"
proof (rule beacon_send_never_returns [OF sample_cache_fresh])
  show "chunk_limit (sample_env 1024) < mStringLength (chunk_prefix (sample_env 1024) w)" for w
    by (simp add: sample_prefix_length sample_limit)
  show "accepted (sample_env 1024) chunk w" for w chunk
    by (simp add: accepted_def sample_env_def)
qed

text \<open>A chunk takes records as long as the text so far is no longer than the maximum,
  counted in characters: every proper first part of it fits, and unless all records are
  in it the chunk itself is longer than the maximum.\<close>

theorem chunk_extent:
  assumes "entry_view sending k c \<noteq> []"
  shows "\<exists>n \<le> length (entry_view sending k c).
      fst (getNextBeaconChunk k prefix maxSize delimiter c)
        = chunk_text delimiter (chunk_start prefix) (take n (entry_view sending k c))
    \<and> (\<forall>i < n. mStringLength (chunk_text delimiter (chunk_start prefix) (take i (entry_view sending k c)))
          \<le> int32_to_size_t maxSize)
    \<and> (n < length (entry_view sending k c) \<longrightarrow>
          int32_to_size_t maxSize < mStringLength (fst (getNextBeaconChunk k prefix maxSize delimiter c)))"
proof -
  let ?n = "chunk_count (chunk_start prefix) (entry_view sending k c) (int32_to_size_t maxSize) delimiter"
  have t: "fst (getNextBeaconChunk k prefix maxSize delimiter c)
      = chunk_text delimiter (chunk_start prefix) (take ?n (entry_view sending k c))"
    using cache_store.chunk [OF assms refl, of prefix maxSize delimiter] by simp
  show ?thesis
    using chunk_count_le chunk_count_bound chunk_count_stop t by (intro exI [of _ ?n]) fastforce
qed

definition sent_cache :: BeaconCache where
  "sent_cache = prepareDataForSending sample_key sample_cache"

lemma chunk_extent_witness:
  "\<exists>n \<le> length (entry_view sending sample_key sent_cache).
    fst (getNextBeaconChunk sample_key UTF8String_empty 0 BEACON_DATA_DELIMITER sent_cache)
      = chunk_text BEACON_DATA_DELIMITER (chunk_start UTF8String_empty)
          (take n (entry_view sending sample_key sent_cache))"
proof -
  have "entry_view sending sample_key sent_cache \<noteq> []"
    using cache_store.prepare [OF sample_cache_fresh(1)] sample_cache_fresh(2,3)
    by (simp add: sent_cache_def BeaconCache_vtable_def)
  from chunk_extent [OF this, of UTF8String_empty 0 BEACON_DATA_DELIMITER] show ?thesis by blast
qed

end
