(* ===== verification/Eviction.thy ===== *)
theory Eviction
  imports Beacon_Send
begin

text \<open>
  The eviction strategies and the eviction thread (src/core/caching/TimeEvictionStrategy.cxx,
  SpaceEvictionStrategy.cxx, BeaconCacheEvictor.cxx). The strategies work on the
  interface of the cache; the locale \<open>age_eviction\<close> holds what eviction by age relies on.
  The thread is a step relation over its two flags.
\<close>

subsection \<open>Configuration and environment\<close>

record BeaconCacheConfiguration =
  mMaxRecordAge :: int64
  mCacheSizeLowerBound :: int64
  mCacheSizeUpperBound :: int64

text \<open>The timing provider and the stop request are read from a world that goes on by itself.\<close>

record 'w evict_env =
  provideTimestampInMilliseconds :: "'w \<Rightarrow> int64 \<times> 'w"
  mIsStopRequested :: "'w \<Rightarrow> bool \<times> 'w"
  isInfoEnabled :: bool

subsection \<open>Eviction by age\<close>

record TimeEvictionStrategy =
  mLastRunTimestamp :: int64
  mTimeInfoShown :: bool

definition TimeEvictionStrategy_new :: TimeEvictionStrategy where
  "TimeEvictionStrategy_new = \<lparr>mLastRunTimestamp = -1, mTimeInfoShown = False\<rparr>"

definition time_isStrategyDisabled :: "BeaconCacheConfiguration \<Rightarrow> bool" where
  "time_isStrategyDisabled cfg \<longleftrightarrow> sint (mMaxRecordAge cfg) \<le> 0"

definition time_shouldRun ::
    "BeaconCacheConfiguration \<Rightarrow> 'w evict_env \<Rightarrow> TimeEvictionStrategy \<Rightarrow> 'w \<Rightarrow> bool \<times> 'w" where
  "time_shouldRun cfg env st w =
     (let (currentTimestamp, w) = provideTimestampInMilliseconds env w
      in (sint (mMaxRecordAge cfg) \<le> sint (currentTimestamp - mLastRunTimestamp st), w))"

primrec time_evictKeys ::
    "'s IBeaconCache \<Rightarrow> 'w evict_env \<Rightarrow> int64 \<Rightarrow> BeaconKey list \<Rightarrow> 's \<Rightarrow> 'w \<Rightarrow> 's \<times> 'w" where
  "time_evictKeys cache env minTimestamp [] s w = (s, snd (mIsStopRequested env w))"
| "time_evictKeys cache env minTimestamp (k # beaconKeys) s w =
     (let (stop, w) = mIsStopRequested env w in
      if stop then (s, w)
      else time_evictKeys cache env minTimestamp beaconKeys
             (snd (vEvictRecordsByAge cache k minTimestamp s)) w)"

definition time_doExecute ::
    "'s IBeaconCache \<Rightarrow> BeaconCacheConfiguration \<Rightarrow> 'w evict_env
      \<Rightarrow> TimeEvictionStrategy \<Rightarrow> 's \<Rightarrow> 'w \<Rightarrow> TimeEvictionStrategy \<times> 's \<times> 'w" where
  "time_doExecute cache cfg env st s w =
     (let beaconKeys = vGetBeaconKeys cache s in
      if beaconKeys = [] then
        (let (now, w) = provideTimestampInMilliseconds env w
         in (st\<lparr>mLastRunTimestamp := now\<rparr>, s, w))
      else
        (let (currentTimestamp, w) = provideTimestampInMilliseconds env w;
             smallestAllowedBeaconTimestamp = currentTimestamp - mMaxRecordAge cfg;
             (s, w) = time_evictKeys cache env smallestAllowedBeaconTimestamp beaconKeys s w
         in (st\<lparr>mLastRunTimestamp := currentTimestamp\<rparr>, s, w)))"

definition time_execute ::
    "'s IBeaconCache \<Rightarrow> BeaconCacheConfiguration \<Rightarrow> 'w evict_env
      \<Rightarrow> TimeEvictionStrategy \<Rightarrow> 's \<Rightarrow> 'w \<Rightarrow> TimeEvictionStrategy \<times> 's \<times> 'w" where
  "time_execute cache cfg env st s w =
     (if time_isStrategyDisabled cfg then
        (if \<not> mTimeInfoShown st \<and> isInfoEnabled env then (st\<lparr>mTimeInfoShown := True\<rparr>, s, w) else (st, s, w))
      else
        (let (st, w) =
               (if sint (mLastRunTimestamp st) < 0
                then (let (now, w) = provideTimestampInMilliseconds env w in (st\<lparr>mLastRunTimestamp := now\<rparr>, w))
                else (st, w));
             (run, w) = time_shouldRun cfg env st w
         in if run then time_doExecute cache cfg env st s w else (st, s, w)))"

subsection \<open>Eviction by space\<close>

text \<open>The counts per beacon are kept for a log message only and are left out.\<close>

definition space_isStrategyDisabled :: "BeaconCacheConfiguration \<Rightarrow> bool" where
  "space_isStrategyDisabled cfg \<longleftrightarrow>
     sint (mCacheSizeLowerBound cfg) \<le> 0 \<or> sint (mCacheSizeUpperBound cfg) \<le> 0 \<or>
     sint (mCacheSizeUpperBound cfg) < sint (mCacheSizeLowerBound cfg)"

definition space_shouldRun :: "'s IBeaconCache \<Rightarrow> BeaconCacheConfiguration \<Rightarrow> 's \<Rightarrow> bool" where
  "space_shouldRun cache cfg s \<longleftrightarrow> sint (mCacheSizeUpperBound cfg) < sint (vGetNumBytesInCache cache s)"

primrec space_evictKeys ::
    "'s IBeaconCache \<Rightarrow> BeaconCacheConfiguration \<Rightarrow> 'w evict_env \<Rightarrow> BeaconKey list \<Rightarrow> 's \<Rightarrow> 'w \<Rightarrow> 's \<times> 'w" where
  "space_evictKeys cache cfg env [] s w = (s, snd (mIsStopRequested env w))"
| "space_evictKeys cache cfg env (k # beaconKeys) s w =
     (let (stop, w) = mIsStopRequested env w in
      if stop \<or> \<not> sint (mCacheSizeLowerBound cfg) < sint (vGetNumBytesInCache cache s) then (s, w)
      else space_evictKeys cache cfg env beaconKeys (snd (vEvictRecordsByNumber cache k 1 s)) w)"

partial_function (option) space_doExecute ::
    "'s IBeaconCache \<Rightarrow> BeaconCacheConfiguration \<Rightarrow> 'w evict_env \<Rightarrow> 's \<Rightarrow> 'w \<Rightarrow> ('s \<times> 'w) option" where
  "space_doExecute cache cfg env s w =
     (let stop_w = mIsStopRequested env w in
      if fst stop_w \<or> \<not> sint (mCacheSizeLowerBound cfg) < sint (vGetNumBytesInCache cache s)
      then Some (s, snd stop_w)
      else
        (let s_w = space_evictKeys cache cfg env (vGetBeaconKeys cache s) s (snd stop_w)
         in space_doExecute cache cfg env (fst s_w) (snd s_w)))"

definition space_execute ::
    "'s IBeaconCache \<Rightarrow> BeaconCacheConfiguration \<Rightarrow> 'w evict_env \<Rightarrow> bool \<Rightarrow> 's \<Rightarrow> 'w \<Rightarrow> (bool \<times> 's \<times> 'w) option" where
  "space_execute cache cfg env infoShown s w =
     (if space_isStrategyDisabled cfg then
        Some (infoShown \<or> isInfoEnabled env, s, w)
      else if space_shouldRun cache cfg s then
        map_option (\<lambda>(s, w). (infoShown, s, w)) (space_doExecute cache cfg env s w)
      else Some (infoShown, s, w))"

subsection \<open>What eviction by age relies on\<close>

definition never_stops :: "'w evict_env \<Rightarrow> bool" where
  "never_stops env \<longleftrightarrow> (\<forall>w. \<not> fst (mIsStopRequested env w))"

definition older_than :: "int64 \<Rightarrow> BeaconCacheRecord \<Rightarrow> bool" where
  "older_than t r \<longleftrightarrow> sint (mTimestamp r) < sint t"

locale age_eviction =
  fixes cache :: "'s IBeaconCache" and stored :: "BeaconKey \<Rightarrow> 's \<Rightarrow> BeaconCacheRecord list"
  assumes keys: "stored k s \<noteq> [] \<Longrightarrow> k \<in> set (vGetBeaconKeys cache s)"
    and by_age: "stored k (snd (vEvictRecordsByAge cache k' t s)) =
      (if k = k' then filter (\<lambda>r. \<not> older_than t r) (stored k s) else stored k s)"
begin

lemma evictKeys_stored:
  assumes "never_stops env"
  shows "stored k (fst (time_evictKeys cache env t ks s w)) =
    (if k \<in> set ks then filter (\<lambda>r. \<not> older_than t r) (stored k s) else stored k s)"
proof (induction ks arbitrary: s w)
  case (Cons k' ks)
  obtain w' where "mIsStopRequested env w = (False, w')"
    using assms by (metis never_stops_def prod.collapse)
  then show ?case by (simp add: Cons by_age)
qed simp

lemma doExecute_stored:
  assumes "never_stops env"
    and "provideTimestampInMilliseconds env w = (now, w')"
    and "time_doExecute cache cfg env st s w = (st', s', w'')"
  shows "stored k s' = filter (\<lambda>r. \<not> older_than (now - mMaxRecordAge cfg) r) (stored k s)"
    and "mLastRunTimestamp st' = now"
proof -
  show "mLastRunTimestamp st' = now"
    using assms(2,3) by (auto simp: time_doExecute_def Let_def split: if_splits prod.splits)
  show "stored k s' = filter (\<lambda>r. \<not> older_than (now - mMaxRecordAge cfg) r) (stored k s)"
  proof (cases "vGetBeaconKeys cache s = []")
    case True
    then have "stored k s = []" using keys [of k s] by auto
    moreover have "s' = s" using True assms(2,3) by (simp add: time_doExecute_def)
    ultimately show ?thesis by simp
  next
    case False
    then have "s' = fst (time_evictKeys cache env (now - mMaxRecordAge cfg) (vGetBeaconKeys cache s) s w')"
      using assms(2,3) by (auto simp: time_doExecute_def Let_def split: prod.splits)
    then show ?thesis
      using evictKeys_stored [OF assms(1)] keys [of k s] by (cases "stored k s = []") auto
  qed
qed

end

lemma waiting_evictByAge:
  "entry_view waiting k (snd (evictRecordsByAge k' t c)) =
    (if k = k' then filter (\<lambda>r. \<not> older_than t r) (entry_view waiting k c) else entry_view waiting k c)"
  by (auto simp: entry_view_def entry_after_evictByAge removeRecordsOlderThan_waiting older_than_def
      split: option.splits)

interpretation cache_by_age: age_eviction BeaconCache_vtable "entry_view waiting"
proof (unfold_locales, goal_cases)
  case (1 k s)
  then obtain e where "um_find BeaconKey_eq k (mBeacons s) = Some e"
    by (auto simp: entry_view_def getCachedEntry_def split: option.splits)
  then show ?case
    using um_find_split [of BeaconKey_eq k "mBeacons s" e] by (auto simp: getBeaconKeys_def)
next
  case (2 k k' t s)
  show ?case by (simp add: waiting_evictByAge)
qed

subsection \<open>Eviction by space on the cache\<close>

text \<open>One pass over the beacons, and several in a row.\<close>

definition space_round ::
    "BeaconCacheConfiguration \<Rightarrow> 'w evict_env \<Rightarrow> BeaconCache \<times> 'w \<Rightarrow> BeaconCache \<times> 'w" where
  "space_round cfg env = (\<lambda>(c, w).
     space_evictKeys BeaconCache_vtable cfg env (getBeaconKeys c) c (snd (mIsStopRequested env w)))"

lemma evictByNumber_bytes: "mCacheSizeInBytes (snd (evictRecordsByNumber k n c)) = mCacheSizeInBytes c"
  by (auto simp: evictRecordsByNumber_def Let_def split: option.splits)

lemma evictByNumber_keys: "getBeaconKeys (snd (evictRecordsByNumber k n c)) = getBeaconKeys c"
  by (auto simp: evictRecordsByNumber_def Let_def getBeaconKeys_def modify_entry_def um_modify_fst
      split: option.splits)

lemma removeOldest_one: "length (waiting (snd (removeOldestRecords 1 e))) = length (waiting e) - 1"
proof -
  obtain i j where s: "oldest_split 1 0 (mEventData e) (mActionData e) i j"
    using removeOldest_loop_split by blast
  then have "length (waiting (snd (removeOldestRecords 1 e))) = length (waiting e) - (i + j)"
    by (auto simp: oldest_split_def removeOldestRecords_def waiting_def)
  moreover have "i + j = min 1 (length (waiting e))" using s by (simp add: oldest_split_def waiting_def)
  ultimately show ?thesis by simp
qed

lemma waiting_evictByNumber:
  "length (entry_view waiting k (snd (evictRecordsByNumber k' 1 c))) =
    length (entry_view waiting k c) - (if k = k' then 1 else 0)"
  by (auto simp: entry_view_def entry_after_evictByNumber removeOldest_one split: option.splits)

lemma space_evictKeys_all:
  assumes "never_stops env" and "sint (mCacheSizeLowerBound cfg) < sint (mCacheSizeInBytes c)" and "distinct ks"
  shows "mCacheSizeInBytes (fst (space_evictKeys BeaconCache_vtable cfg env ks c w)) = mCacheSizeInBytes c \<and>
    getBeaconKeys (fst (space_evictKeys BeaconCache_vtable cfg env ks c w)) = getBeaconKeys c \<and>
    length (entry_view waiting k (fst (space_evictKeys BeaconCache_vtable cfg env ks c w))) =
      length (entry_view waiting k c) - (if k \<in> set ks then 1 else 0)"
  using assms(2,3)
proof (induction ks arbitrary: c w)
  case (Cons k' ks)
  obtain w' where w': "mIsStopRequested env w = (False, w')"
    using assms(1) by (metis never_stops_def prod.collapse)
  let ?c = "snd (evictRecordsByNumber k' 1 c)"
  have step: "space_evictKeys BeaconCache_vtable cfg env (k' # ks) c w =
      space_evictKeys BeaconCache_vtable cfg env ks ?c w'"
    using Cons.prems(1) w' by (simp add: getNumBytesInCache_def)
  have "sint (mCacheSizeLowerBound cfg) < sint (mCacheSizeInBytes ?c)" "distinct ks"
    using Cons.prems by (simp_all add: evictByNumber_bytes)
  note ih = Cons.IH [OF this, of w']
  show ?case
    unfolding step using ih Cons.prems(2) by (auto simp: evictByNumber_bytes evictByNumber_keys waiting_evictByNumber)
qed simp_all

lemma keys_distinct: "um_distinct BeaconKey_eq m \<Longrightarrow> distinct (map fst m)"
  by (induction m) (auto simp: um_find_None_iff list_all_iff)

lemma waiting_not_key: "k \<notin> set (getBeaconKeys c) \<Longrightarrow> entry_view waiting k c = []"
  using cache_by_age.keys [of k c] by auto

lemma space_round_effect:
  assumes "never_stops env" and "sint (mCacheSizeLowerBound cfg) < sint (mCacheSizeInBytes c)"
    and "distinct (getBeaconKeys c)"
  shows "mCacheSizeInBytes (fst (space_round cfg env (c, w))) = mCacheSizeInBytes c"
    and "getBeaconKeys (fst (space_round cfg env (c, w))) = getBeaconKeys c"
    and "length (entry_view waiting k (fst (space_round cfg env (c, w)))) = length (entry_view waiting k c) - 1"
  using space_evictKeys_all [OF assms] waiting_not_key [of k c] by (auto simp: space_round_def)

lemma space_rounds_effect:
  assumes "never_stops env" and "sint (mCacheSizeLowerBound cfg) < sint (mCacheSizeInBytes c)"
    and "distinct (getBeaconKeys c)"
  shows "mCacheSizeInBytes (fst ((space_round cfg env ^^ n) (c, w))) = mCacheSizeInBytes c \<and>
    getBeaconKeys (fst ((space_round cfg env ^^ n) (c, w))) = getBeaconKeys c \<and>
    length (entry_view waiting k (fst ((space_round cfg env ^^ n) (c, w)))) = length (entry_view waiting k c) - n"
proof (induction n)
  case (Suc n)
  obtain c' w' where cw: "(space_round cfg env ^^ n) (c, w) = (c', w')" by fastforce
  then show ?case using Suc space_round_effect [OF assms(1), of cfg c'] assms(2,3) by simp
qed simp

lemma space_doExecute_diverges:
  assumes "never_stops env" and "sint (mCacheSizeLowerBound cfg) < sint (mCacheSizeInBytes c)"
    and "distinct (getBeaconKeys c)"
  shows "space_doExecute BeaconCache_vtable cfg env c w = None"
proof -
  have "vt = BeaconCache_vtable \<and> cf = cfg \<and> en = env \<longrightarrow>
      \<not> (sint (mCacheSizeLowerBound cfg) < sint (mCacheSizeInBytes c) \<and> distinct (getBeaconKeys c))"
    if returned: "space_doExecute vt cf en c w = Some y" for vt cf en c w y
  proof (rule space_doExecute.raw_induct [where P = "\<lambda>vt cf en c w y.
      vt = BeaconCache_vtable \<and> cf = cfg \<and> en = env \<longrightarrow>
      \<not> (sint (mCacheSizeLowerBound cfg) < sint (mCacheSizeInBytes c) \<and> distinct (getBeaconKeys c))"], goal_cases)
    case (1 f vt cf en c w y)
    show ?case
    proof (intro impI notI)
      assume eq: "vt = BeaconCache_vtable \<and> cf = cfg \<and> en = env"
        and c: "sint (mCacheSizeLowerBound cfg) < sint (mCacheSizeInBytes c) \<and> distinct (getBeaconKeys c)"
      have "\<not> fst (mIsStopRequested env w)" using assms(1) by (simp add: never_stops_def)
      then show False
        using 1 eq c space_evictKeys_all [OF assms(1), of cfg c "getBeaconKeys c"]
        by (simp add: Let_def getNumBytesInCache_def) (metis surjective_pairing)
    qed
  next
    show "space_doExecute vt cf en c w = Some y" by (rule returned)
  qed
  then show ?thesis using assms(2,3) by (cases "space_doExecute BeaconCache_vtable cfg env c w") blast+
qed

subsection \<open>Properties of the strategies\<close>

definition sample_evict_env :: "nat evict_env" where
  "sample_evict_env = \<lparr>provideTimestampInMilliseconds = (\<lambda>w. (word_of_nat (100 * w), w + 1)),
     mIsStopRequested = (\<lambda>w. (False, w)), isInfoEnabled = False\<rparr>"

lemma sample_never_stops: "never_stops sample_evict_env"
  by (simp add: never_stops_def sample_evict_env_def)

text \<open>C34: An execution of the time eviction that is not stopped removes, for every beacon, exactly
  the waiting records whose time stamp is below the current time less the maximum age; the
  others stay, in their order, and the time of the run is remembered.\<close>

theorem time_eviction_exact:
  assumes "never_stops env"
    and "provideTimestampInMilliseconds env w = (now, w')"
    and "time_doExecute BeaconCache_vtable cfg env st c w = (st', c', w'')"
  shows "entry_view waiting k c' = filter (\<lambda>r. \<not> older_than (now - mMaxRecordAge cfg) r) (entry_view waiting k c)
    \<and> mLastRunTimestamp st' = now"
  using cache_by_age.doExecute_stored [OF assms] by simp

lemma time_eviction_exact_witness:
  "entry_view waiting sample_key (fst (snd (time_doExecute BeaconCache_vtable
      \<lparr>mMaxRecordAge = 50, mCacheSizeLowerBound = 1, mCacheSizeUpperBound = 2\<rparr> sample_evict_env
      TimeEvictionStrategy_new sample_cache 2))) =
   filter (\<lambda>r. \<not> older_than 150 r) (entry_view waiting sample_key sample_cache)"
proof -
  let ?cfg = "\<lparr>mMaxRecordAge = 50, mCacheSizeLowerBound = 1, mCacheSizeUpperBound = 2\<rparr> :: BeaconCacheConfiguration"
  obtain st' c' w'' where r: "time_doExecute BeaconCache_vtable ?cfg sample_evict_env TimeEvictionStrategy_new
      sample_cache 2 = (st', c', w'')" by (metis prod_cases3)
  have "provideTimestampInMilliseconds sample_evict_env 2 = (200, 3)" by (simp add: sample_evict_env_def)
  from time_eviction_exact [OF sample_never_stops this r, of sample_key] show ?thesis by (simp add: r)
qed

text \<open>Once the cache is above the lower bound, the space eviction does not return unless it is
  stopped: it removes one record of each beacon in every pass, until no beacon has any
  left, and goes on, because the number of bytes it looks at never changes.\<close>

theorem space_eviction_never_returns:
  assumes "never_stops env" and "sint (mCacheSizeLowerBound cfg) < sint (getNumBytesInCache c)"
    and "distinct (getBeaconKeys c)"
  shows "space_doExecute BeaconCache_vtable cfg env c w = None
    \<and> length (entry_view waiting k (fst ((space_round cfg env ^^ n) (c, w)))) = length (entry_view waiting k c) - n
    \<and> getNumBytesInCache (fst ((space_round cfg env ^^ n) (c, w))) = getNumBytesInCache c"
  using space_doExecute_diverges [OF assms(1)] space_rounds_effect [OF assms(1), of cfg c n w k] assms(2,3)
  by (simp add: getNumBytesInCache_def)

lemma space_eviction_never_returns_witness:
  "space_doExecute BeaconCache_vtable \<lparr>mMaxRecordAge = 50, mCacheSizeLowerBound = 1, mCacheSizeUpperBound = 2\<rparr>
     sample_evict_env sample_cache 0 = None"
proof -
  let ?cfg = "\<lparr>mMaxRecordAge = 50, mCacheSizeLowerBound = 1, mCacheSizeUpperBound = 2\<rparr> :: BeaconCacheConfiguration"
  have "getNumBytesInCache sample_cache = 4"
    by (simp add: getNumBytesInCache_def sample_cache_def addEventData_def Let_def onDataAdded_def
        BeaconCache_new_def BeaconCacheRecord_new_def getDataSizeInBytes_def utf8_isEmpty_def)
  then have "sint (mCacheSizeLowerBound ?cfg) < sint (getNumBytesInCache sample_cache)" by simp
  moreover have "distinct (getBeaconKeys sample_cache)"
    using size_accounted_add(1) [OF size_accounted_new]
    by (auto simp: sample_cache_def getBeaconKeys_def size_accounted_def intro: keys_distinct)
  ultimately show ?thesis using space_eviction_never_returns [OF sample_never_stops] by blast
qed

subsection \<open>The eviction thread\<close>

text \<open>
  \<open>BeaconCacheEvictor\<close>: the thread waits for \<open>mRecordAdded\<close> or \<open>mStop\<close>, resets the first
  flag and runs the strategies. The other threads call \<open>update\<close> (once the thread has
  registered as observer of the cache) and \<open>stop\<close>. \<open>updates\<close> counts the calls of \<open>update\<close>, and
  \<open>served\<close> is their number when the last run of the strategies began.
\<close>

datatype evictor_phase = NotStarted | Registering | Waiting | Running | Exited

record BeaconCacheEvictor =
  mStop :: bool
  mRecordAdded :: bool
  phase :: evictor_phase
  updates :: nat
  served :: nat

definition BeaconCacheEvictor_new :: BeaconCacheEvictor where
  "BeaconCacheEvictor_new =
     \<lparr>mStop = False, mRecordAdded = False, phase = NotStarted, updates = 0, served = 0\<rparr>"

inductive evictor_step :: "BeaconCacheEvictor \<Rightarrow> BeaconCacheEvictor \<Rightarrow> bool" where
  start: "phase e = NotStarted \<Longrightarrow> evictor_step e (e\<lparr>phase := Registering\<rparr>)"
| register: "phase e = Registering \<Longrightarrow> evictor_step e (e\<lparr>phase := Waiting\<rparr>)"
| update: "phase e \<notin> {NotStarted, Registering} \<Longrightarrow>
    evictor_step e (e\<lparr>mRecordAdded := True, updates := updates e + 1\<rparr>)"
| stop: "phase e \<notin> {NotStarted, Exited} \<Longrightarrow> evictor_step e (e\<lparr>mStop := True\<rparr>)"
| exit: "phase e = Waiting \<Longrightarrow> mStop e \<Longrightarrow> evictor_step e (e\<lparr>phase := Exited\<rparr>)"
| run: "phase e = Waiting \<Longrightarrow> \<not> mStop e \<Longrightarrow> mRecordAdded e \<Longrightarrow>
    evictor_step e (e\<lparr>mRecordAdded := False, phase := Running, served := updates e\<rparr>)"
| finish: "phase e = Running \<Longrightarrow> evictor_step e (e\<lparr>phase := Waiting\<rparr>)"

inductive_cases evictor_stepE: "evictor_step e e'"

definition evictor_reachable :: "BeaconCacheEvictor \<Rightarrow> bool" where
  "evictor_reachable e \<longleftrightarrow> evictor_step\<^sup>*\<^sup>* BeaconCacheEvictor_new e"

definition evictor_invariant :: "BeaconCacheEvictor \<Rightarrow> bool" where
  "evictor_invariant e \<longleftrightarrow> served e \<le> updates e \<and> (mRecordAdded e \<longleftrightarrow> served e < updates e) \<and>
     (phase e = Exited \<longrightarrow> mStop e) \<and> (phase e \<in> {NotStarted, Registering} \<longrightarrow> updates e = 0)"

lemma evictor_invariant_step: "evictor_step e e' \<Longrightarrow> evictor_invariant e \<Longrightarrow> evictor_invariant e'"
  by (erule evictor_stepE) (auto simp: evictor_invariant_def)

lemma evictor_invariant_reachable: "evictor_reachable e \<Longrightarrow> evictor_invariant e"
  unfolding evictor_reachable_def
  by (induction rule: rtranclp_induct)
    (auto simp: evictor_invariant_step, simp add: evictor_invariant_def BeaconCacheEvictor_new_def)



end
