(* ===== verification/Number_Text.thy ===== *)
theory Number_Text
  imports Utf8_String
begin

text \<open>
  Decimal numbers as text: what the code uses of \<^verbatim>\<open>std::to_string\<close>, \<^verbatim>\<open>strtol\<close>, \<^verbatim>\<open>stoi\<close> and
  \<^verbatim>\<open>stoll\<close>, and the string helpers of src/core/util/StringUtil.cxx. The lemmas show that a
  number written and read again is the same number.
\<close>

unbundle bit_operations_syntax

subsection \<open>Decimal digits\<close>

definition digit_char :: "nat \<Rightarrow> char" where
  "digit_char d = char_of (48 + d)"

fun decimal_digits :: "nat \<Rightarrow> string" where
  "decimal_digits n = (if n < 10 then [digit_char n] else decimal_digits (n div 10) @ [digit_char (n mod 10)])"

declare decimal_digits.simps [simp del]

definition show_int :: "int \<Rightarrow> string" where
  "show_int i = (if i < 0 then CHR ''-'' # decimal_digits (nat (- i)) else decimal_digits (nat i))"

lemma byte_of_digit_char: "d < 10 \<Longrightarrow> byte_of (digit_char d) = 48 + d"
  by (simp add: digit_char_def byte_of_char_of)

lemma digit_char_isdigit: "d < 10 \<Longrightarrow> std_isdigit (digit_char d)"
  by (simp add: std_isdigit_def byte_of_digit_char)

lemma digit_value_digit_char: "d < 10 \<Longrightarrow> digit_value (digit_char d) = d"
  by (simp add: digit_value_def byte_of_digit_char)

lemma decimal_digits_all: "list_all std_isdigit (decimal_digits n)"
proof (induction n rule: decimal_digits.induct)
  case (1 n)
  then show ?case by (subst decimal_digits.simps) (simp add: digit_char_isdigit)
qed

lemma decimal_digits_not_Nil [simp]: "decimal_digits n \<noteq> []"
  by (subst decimal_digits.simps) simp

lemma digits_value_decimal: "digits_value 10 (decimal_digits n) = n"
proof (induction n rule: decimal_digits.induct)
  case (1 n)
  show ?case
  proof (cases "n < 10")
    case True
    then show ?thesis
      using digits_value_snoc [of 10 "[]" "digit_char n"]
      by (subst decimal_digits.simps) (simp add: digit_value_digit_char)
  next
    case False
    then show ?thesis
      using 1 by (subst decimal_digits.simps) (simp add: digit_value_digit_char)
  qed
qed

lemma decimal_digits_hd: "n \<noteq> 0 \<Longrightarrow> hd (decimal_digits n) \<noteq> CHR ''0''"
proof (induction n rule: decimal_digits.induct)
  case (1 n)
  have z: "byte_of (CHR ''0'') = 48" by (simp add: byte_of_def)
  show ?case
  proof (cases "n < 10")
    case True
    then have "byte_of (digit_char n) \<noteq> byte_of (CHR ''0'')" using 1(2) z by (simp add: byte_of_digit_char)
    then show ?thesis using True by (subst decimal_digits.simps) auto
  next
    case False
    then show ?thesis using 1 by (subst decimal_digits.simps) simp
  qed
qed

lemma decimal_digits_zero: "decimal_digits 0 = ''0''"
proof -
  have "digit_char 0 = CHR ''0''" by code_simp
  then show ?thesis by (subst decimal_digits.simps) simp
qed

subsection \<open>Reading numbers\<close>

text \<open>
  The conversion of \<^verbatim>\<open>strtol\<close> and its kind in base 10: white space, a sign, digits. No digit
  is no conversion; otherwise the value and the rest of the string.
\<close>

definition sign_split :: "string \<Rightarrow> bool \<times> string" where
  "sign_split s = (case s of [] \<Rightarrow> (False, [])
     | c # cs \<Rightarrow> if c = CHR ''-'' then (True, cs) else if c = CHR ''+'' then (False, cs) else (False, s))"

definition scan_decimal :: "string \<Rightarrow> (int \<times> string) option" where
  "scan_decimal s =
     (let (neg, s') = sign_split (dropWhile std_isspace s);
          ds = takeWhile std_isdigit s';
          n = int (digits_value 10 ds)
      in if ds = [] then None else Some (if neg then - n else n, dropWhile std_isdigit s'))"

text \<open>\<^verbatim>\<open>strtol\<close> and \<^verbatim>\<open>strtoll\<close> clamp at the ends of the range; \<^verbatim>\<open>stoi\<close> and \<^verbatim>\<open>stoll\<close> throw.\<close>

definition clamp_int64 :: "int \<Rightarrow> int" where
  "clamp_int64 i = max (- (2 ^ 63)) (min (2 ^ 63 - 1) i)"

definition std_stoi :: "string \<Rightarrow> cpp_exception + int32" where
  "std_stoi s = (case scan_decimal s of
       None \<Rightarrow> Inl (InvalidArgument ''stoi'')
     | Some (i, rest) \<Rightarrow> if - (2 ^ 31) \<le> i \<and> i < 2 ^ 31 then Inr (word_of_int i) else Inl (OutOfRange ''stoi''))"

definition std_stoll :: "string \<Rightarrow> cpp_exception + int64" where
  "std_stoll s = (case scan_decimal s of
       None \<Rightarrow> Inl (InvalidArgument ''stoll'')
     | Some (i, rest) \<Rightarrow> if - (2 ^ 63) \<le> i \<and> i < 2 ^ 63 then Inr (word_of_int i) else Inl (OutOfRange ''stoll''))"

lemma isdigit_not_space: "std_isdigit c \<Longrightarrow> \<not> std_isspace c"
  by (auto simp: std_isdigit_def std_isspace_def)

lemma minus_classes: "\<not> std_isspace (CHR ''-'')" "\<not> std_isdigit (CHR ''-'')" "\<not> std_isdigit (CHR ''+'')"
  by (simp_all add: std_isspace_def std_isdigit_def byte_of_def)

lemma dropWhile_hd: "(xs \<noteq> [] \<Longrightarrow> \<not> P (hd xs)) \<Longrightarrow> dropWhile P xs = xs"
  by (cases xs) auto

lemma scan_digits:
  assumes "list_all std_isdigit ds" and "ds \<noteq> []" and "rest \<noteq> [] \<Longrightarrow> \<not> std_isdigit (hd rest)"
  shows "scan_decimal (ds @ rest) = Some (int (digits_value 10 ds), rest)"
    and "scan_decimal (CHR ''-'' # ds @ rest) = Some (- int (digits_value 10 ds), rest)"
proof -
  have tw: "takeWhile std_isdigit (ds @ rest) = ds" "dropWhile std_isdigit (ds @ rest) = rest"
    using assms(1,3) by (cases rest; auto simp: list_all_iff takeWhile_append dropWhile_append)+
  have h: "std_isdigit (hd ds)" using assms(1,2) by (cases ds) auto
  have s: "sign_split (ds @ rest) = (False, ds @ rest)"
    using h assms(2) minus_classes by (cases ds) (auto simp: sign_split_def)
  have d: "dropWhile std_isspace (ds @ rest) = ds @ rest"
    using h assms(2) isdigit_not_space by (intro dropWhile_hd) auto
  show "scan_decimal (ds @ rest) = Some (int (digits_value 10 ds), rest)"
    using assms(2) by (simp add: scan_decimal_def d s tw)
  show "scan_decimal (CHR ''-'' # ds @ rest) = Some (- int (digits_value 10 ds), rest)"
    using assms(2) minus_classes by (simp add: scan_decimal_def sign_split_def tw)
qed

lemma scan_show_int:
  assumes "rest \<noteq> [] \<Longrightarrow> \<not> std_isdigit (hd rest)"
  shows "scan_decimal (show_int i @ rest) = Some (i, rest)"
proof (cases "i < 0")
  case True
  then show ?thesis
    using scan_digits(2) [OF decimal_digits_all decimal_digits_not_Nil assms, of "nat (- i)"]
    by (simp add: show_int_def digits_value_decimal)
next
  case False
  then show ?thesis
    using scan_digits(1) [OF decimal_digits_all decimal_digits_not_Nil assms, of "nat i"]
    by (simp add: show_int_def digits_value_decimal)
qed

lemma sint64_bounds: "- (2 ^ 63) \<le> sint (w :: int64)" "sint w < 2 ^ 63"
  using sint_range_size [of w] by (simp_all add: word_size)

lemma stoll_show: "std_stoll (show_int (sint w)) = Inr w"
  using scan_show_int [of "[]" "sint w"] sint64_bounds [of w] by (simp add: std_stoll_def)

lemma stoi_show: "std_stoi (show_int (sint w)) = Inr w"
  using scan_show_int [of "[]" "sint w"] sint32_bounds [of w] by (simp add: std_stoi_def)

lemma show_int_not_Nil [simp]: "show_int i \<noteq> []"
  by (simp add: show_int_def)

lemma show_int_hd: "\<not> std_isspace (hd (show_int i))"
proof (cases "i < 0")
  case False
  have "std_isdigit (hd (decimal_digits (nat i)))"
    using decimal_digits_all [of "nat i"] decimal_digits_not_Nil [of "nat i"]
    by (cases "decimal_digits (nat i)") auto
  then show ?thesis using False isdigit_not_space by (simp add: show_int_def)
qed (simp add: show_int_def minus_classes)

lemma show_int_last: "std_isdigit (last (show_int i))"
proof -
  have "std_isdigit (last (decimal_digits n))" for n
    using decimal_digits_all [of n] by (metis decimal_digits_not_Nil last_in_set list_all_iff)
  then show ?thesis by (auto simp: show_int_def)
qed

subsection \<open>String helpers\<close>

definition leftTrim :: "string \<Rightarrow> string" where
  "leftTrim s = dropWhile std_isspace s"

definition rightTrim :: "string \<Rightarrow> string" where
  "rightTrim s = rev (dropWhile std_isspace (rev s))"

definition trim :: "string \<Rightarrow> string" where
  "trim s = rightTrim (leftTrim s)"

text \<open>A \<^verbatim>\<open>char\<close> is signed and is extended to 64 bits.\<close>

fun hash64_loop :: "string \<Rightarrow> int64 \<Rightarrow> int64 \<Rightarrow> int64 \<times> int64" where
  "hash64_loop [] hash1 hash2 = (hash1, hash2)"
| "hash64_loop [c] hash1 hash2 = ((push_bit 5 hash1 + hash1) XOR scast (of_char c :: 8 word), hash2)"
| "hash64_loop (c # d # cs) hash1 hash2 =
     hash64_loop cs ((push_bit 5 hash1 + hash1) XOR scast (of_char c :: 8 word))
       ((push_bit 5 hash2 + hash2) XOR scast (of_char d :: 8 word))"

definition to64BitHash :: "string \<Rightarrow> int64" where
  "to64BitHash s =
     (let s = trim s in
      if s = [] then 0
      else (let (hash1, hash2) = hash64_loop s 5381 5381 in hash1 + hash2 * 1566083941))"

definition toNumericOr64BitHash :: "string option \<Rightarrow> int64" where
  "toNumericOr64BitHash p =
     (case p of None \<Rightarrow> 0
      | Some s \<Rightarrow>
          (let s = trim s in
           if s = [] then 0
           else case scan_decimal s of
               Some (i, []) \<Rightarrow> word_of_int (clamp_int64 i)
             | _ \<Rightarrow> to64BitHash s))"

definition isHighSurrogateCharacter :: "int \<Rightarrow> bool" where
  "isHighSurrogateCharacter character \<longleftrightarrow> 0xD800 \<le> character \<and> character \<le> 0xDBFF"

definition isLowSurrogateCharacter :: "int \<Rightarrow> bool" where
  "isLowSurrogateCharacter character \<longleftrightarrow> 0xDC00 \<le> character \<and> character \<le> 0xDFFF"

lemma trim_id:
  assumes "s \<noteq> [] \<Longrightarrow> \<not> std_isspace (hd s)" and "s \<noteq> [] \<Longrightarrow> \<not> std_isspace (last s)"
  shows "trim s = s"
proof -
  have "dropWhile std_isspace (rev s) = rev s"
    using assms(2) by (intro dropWhile_hd) (simp add: hd_rev)
  then show ?thesis
    using dropWhile_hd [of s std_isspace] assms(1) by (simp add: trim_def leftTrim_def rightTrim_def)
qed

lemma hd_dropWhile_not: "dropWhile P xs \<noteq> [] \<Longrightarrow> \<not> P (hd (dropWhile P xs))"
  by (induction xs) auto

lemma trim_hd: "trim s \<noteq> [] \<Longrightarrow> \<not> std_isspace (hd (trim s))"
proof -
  assume ne: "trim s \<noteq> []"
  let ?l = "dropWhile std_isspace s"
  have split: "?l = trim s @ rev (takeWhile std_isspace (rev ?l))"
    by (metis leftTrim_def rightTrim_def rev_append rev_rev_ident takeWhile_dropWhile_id trim_def)
  have "?l \<noteq> []"
  proof
    assume "?l = []"
    then show False using ne by (simp only: trim_def leftTrim_def rightTrim_def) simp
  qed
  then have "\<not> std_isspace (hd ?l)" by (rule hd_dropWhile_not)
  moreover have "hd ?l = hd (trim s)" using ne split by (metis hd_append2)
  ultimately show ?thesis by simp
qed

lemma trim_last: "trim s \<noteq> [] \<Longrightarrow> \<not> std_isspace (last (trim s))"
proof -
  assume "trim s \<noteq> []"
  then have "dropWhile std_isspace (rev (leftTrim s)) \<noteq> []" by (simp add: trim_def rightTrim_def)
  from hd_dropWhile_not [OF this] show ?thesis by (simp add: trim_def rightTrim_def last_rev)
qed

lemma trim_idem: "trim (trim s) = trim s"
  using trim_hd trim_last by (intro trim_id)

text \<open>A number that is sent as an identifier is read back as the number it is: for the
  decimal text of any 64-bit integer, with white space around it or not,
  \<open>toNumericOr64BitHash\<close> returns the integer and not a hash.\<close>

theorem toNumericOr64BitHash_number:
  assumes "list_all std_isspace ws" and "list_all std_isspace us"
  shows "toNumericOr64BitHash (Some (ws @ show_int (sint w) @ us)) = w"
proof -
  let ?n = "show_int (sint w)"
  have l: "\<not> std_isspace (last ?n)" using show_int_last isdigit_not_space by blast
  have "dropWhile std_isspace (?n @ us) = ?n @ us"
    using show_int_hd [of "sint w"] by (intro dropWhile_hd) simp
  then have "leftTrim (ws @ ?n @ us) = ?n @ us"
    using assms(1) by (simp add: leftTrim_def list_all_iff dropWhile_append2)
  moreover have "dropWhile std_isspace (rev ?n) = rev ?n"
    using l by (intro dropWhile_hd) (simp add: hd_rev)
  then have "rightTrim (?n @ us) = ?n"
    using assms(2) dropWhile_append2 [of "rev us" std_isspace "rev ?n"]
    by (simp add: rightTrim_def list_all_iff)
  ultimately have t: "trim (ws @ ?n @ us) = ?n" by (simp add: trim_def)
  have "clamp_int64 (sint w) = sint w" using sint64_bounds [of w] by (simp add: clamp_int64_def)
  then show ?thesis
    using scan_show_int [of "[]" "sint w"] t by (simp add: toNumericOr64BitHash_def)
qed

lemma toNumericOr64BitHash_number_witness:
  "toNumericOr64BitHash (Some ('' '' @ show_int (sint (- 42 :: int64)) @ [])) = - 42"
  by (rule toNumericOr64BitHash_number) (simp_all add: std_isspace_def byte_of_def)

end
