(* ===== verification/Json_Reader.thy ===== *)
theory Json_Reader
  imports Number_Text
begin

text \<open>
  \<^verbatim>\<open>DefaultResettableReader\<close> (src/util/json/reader/DefaultResettableReader.cxx) over a
  \<^verbatim>\<open>std::istringstream\<close>: the position and the two state bits of the stream, and the mark.
  The lemmas reduce the reader to the characters that are left.
\<close>

subsection \<open>State and operations\<close>

record DefaultResettableReader =
  rInput :: string
  rPos :: nat
  rEof :: bool
  rFail :: bool
  mMarkedPosition :: int
  mLookAheadLimit :: int

definition reader_new :: "string \<Rightarrow> DefaultResettableReader" where
  "reader_new input = \<lparr>rInput = input, rPos = 0, rEof = False, rFail = False,
     mMarkedPosition = 0, mLookAheadLimit = -1\<rparr>"

text \<open>
  \<open>get\<close> fails when a state bit is set; at the end of the input it sets both. The value of
  \<^verbatim>\<open>EOF\<close> is -1, that of a character its byte.
\<close>

definition EOF :: int where
  "EOF = -1"

definition reader_read :: "DefaultResettableReader \<Rightarrow> int \<times> DefaultResettableReader" where
  "reader_read r =
     (if rEof r then (EOF, r)
      else if rFail r then (EOF, r)
      else if rPos r < length (rInput r)
        then (int (byte_of (rInput r ! rPos r)), r\<lparr>rPos := rPos r + 1\<rparr>)
      else (EOF, r\<lparr>rEof := True, rFail := True\<rparr>))"

text \<open>\<^verbatim>\<open>tellg\<close> is -1 on a failed stream; \<^verbatim>\<open>seekg\<close> clears the end-of-file bit, and does nothing more on a failed one.\<close>

definition stream_tellg :: "DefaultResettableReader \<Rightarrow> int" where
  "stream_tellg r = (if rFail r then -1 else int (rPos r))"

definition stream_seekg :: "int \<Rightarrow> DefaultResettableReader \<Rightarrow> DefaultResettableReader" where
  "stream_seekg p r =
     (let r = r\<lparr>rEof := False\<rparr> in
      if rFail r then r
      else if 0 \<le> p \<and> p \<le> int (length (rInput r)) then r\<lparr>rPos := nat p\<rparr>
      else r\<lparr>rFail := True\<rparr>)"

definition reader_mark :: "int \<Rightarrow> (DefaultResettableReader, unit) cpp_op" where
  "reader_mark lookAheadLimit = (\<lambda>r.
     if lookAheadLimit < 0 then (Inl (InvalidArgument ''lookAheadLimit < 0''), r)
     else (Inr (), r\<lparr>mLookAheadLimit := lookAheadLimit, mMarkedPosition := stream_tellg r\<rparr>))"

definition reader_reset :: "(DefaultResettableReader, unit) cpp_op" where
  "reader_reset = (\<lambda>r.
     if mLookAheadLimit r < 0 then (Inl (LogicError ''No position has been marked''), r)
     else
       (let currentPos = stream_tellg r in
        if currentPos > mMarkedPosition r + mLookAheadLimit r
        then (Inl (LogicError (''Cannot reset beyond '' @ show_int (mLookAheadLimit r) @
                '' characters. Tried to reset '' @ show_int (currentPos - mMarkedPosition r) @ '' characters'')), r)
        else (Inr (), stream_seekg (mMarkedPosition r) r)))"

text \<open>The lexer always marks with a limit of 1, which cannot fail.\<close>

definition mark1 :: "DefaultResettableReader \<Rightarrow> DefaultResettableReader" where
  "mark1 r = snd (reader_mark 1 r)"

subsection \<open>The characters left\<close>

definition rest :: "DefaultResettableReader \<Rightarrow> string" where
  "rest r = drop (rPos r) (rInput r)"

text \<open>A reader is sound when it is before the end, or at the end with or without the bits set.\<close>

definition reader_ok :: "DefaultResettableReader \<Rightarrow> bool" where
  "reader_ok r \<longleftrightarrow> rPos r \<le> length (rInput r) \<and> (rEof r \<or> rFail r \<longrightarrow> rPos r = length (rInput r) \<and> rEof r \<and> rFail r)"

lemma reader_new_ok [simp]: "reader_ok (reader_new s)" "rest (reader_new s) = s"
  by (simp_all add: reader_ok_def reader_new_def rest_def)

lemma byte_not_EOF [simp]: "int (byte_of c) \<noteq> EOF"
  by (simp add: EOF_def)

lemma mark1_eq: "mark1 r = r\<lparr>mLookAheadLimit := 1, mMarkedPosition := stream_tellg r\<rparr>"
  by (simp add: mark1_def reader_mark_def)

lemma mark1_simps [simp]:
  "rest (mark1 r) = rest r" "reader_ok (mark1 r) = reader_ok r" "rInput (mark1 r) = rInput r"
  "rPos (mark1 r) = rPos r"
  by (simp_all add: mark1_eq rest_def reader_ok_def)

lemma rest_Cons:
  assumes "reader_ok r" and "rest r = c # cs"
  shows "rPos r < length (rInput r)" "rInput r ! rPos r = c" "drop (Suc (rPos r)) (rInput r) = cs"
    "\<not> rEof r" "\<not> rFail r"
proof -
  show l: "rPos r < length (rInput r)" using assms(2) by (metis drop_all list.distinct(1) not_le_imp_less rest_def)
  show "rInput r ! rPos r = c" using assms(2) l by (simp add: rest_def Cons_nth_drop_Suc [symmetric])
  show "drop (Suc (rPos r)) (rInput r) = cs" using assms(2) l by (simp add: rest_def Cons_nth_drop_Suc [symmetric])
  show "\<not> rEof r" "\<not> rFail r" using assms(1) l by (auto simp: reader_ok_def)
qed

lemma read_Cons:
  assumes "reader_ok r" and "rest r = c # cs"
  shows "reader_read r = (int (byte_of c), r\<lparr>rPos := rPos r + 1\<rparr>)"
    and "reader_ok (r\<lparr>rPos := rPos r + 1\<rparr>)" and "rest (r\<lparr>rPos := rPos r + 1\<rparr>) = cs"
  using rest_Cons [OF assms] by (auto simp: reader_read_def reader_ok_def rest_def)

lemma read_Nil:
  assumes "reader_ok r" and "rest r = []"
  shows "fst (reader_read r) = EOF" and "reader_ok (snd (reader_read r))" and "rest (snd (reader_read r)) = []"
  using assms by (auto simp: reader_read_def reader_ok_def rest_def)

text \<open>Looking at the next character: mark, read, reset.\<close>

lemma peek_Cons:
  assumes "reader_ok r" and "rest r = c # cs"
  shows "\<exists>r'. reader_reset ((mark1 r)\<lparr>rPos := rPos r + 1\<rparr>) = (Inr (), r') \<and> reader_ok r' \<and> rest r' = c # cs"
proof -
  note c = rest_Cons [OF assms]
  have "reader_reset ((mark1 r)\<lparr>rPos := rPos r + 1\<rparr>) = (Inr (), (mark1 r)\<lparr>rPos := rPos r, rEof := False\<rparr>)"
    using c by (simp add: reader_reset_def mark1_eq stream_tellg_def stream_seekg_def)
  moreover have "reader_ok ((mark1 r)\<lparr>rPos := rPos r, rEof := False\<rparr>)"
    using c by (simp add: reader_ok_def mark1_eq)
  moreover have "rest ((mark1 r)\<lparr>rPos := rPos r, rEof := False\<rparr>) = c # cs"
    using assms(2) by (simp add: rest_def mark1_eq)
  ultimately show ?thesis by blast
qed

lemma read_after_mark1:
  assumes "reader_ok r" and "rest r = c # cs"
  shows "reader_read (mark1 r) = (int (byte_of c), (mark1 r)\<lparr>rPos := rPos r + 1\<rparr>)"
  using read_Cons(1) [of "mark1 r" c cs] assms by simp

text \<open>No operation of the reader moves behind the input, and reading never moves backwards.\<close>

definition remaining :: "DefaultResettableReader \<Rightarrow> nat" where
  "remaining r = length (rInput r) - rPos r"

lemma read_remaining:
  "reader_read r = (n, r') \<Longrightarrow> n \<noteq> EOF \<Longrightarrow> remaining r' < remaining r"
  "reader_read r = (n, r') \<Longrightarrow> remaining r' \<le> remaining r"
  by (auto simp: reader_read_def remaining_def split: if_splits)

lemma remaining_mark1 [simp]: "remaining (mark1 r) = remaining r"
  by (simp add: remaining_def)

end
