(* ===== verification/Json_Lexer.thy ===== *)
theory Json_Lexer
  imports Json_Reader
begin

text \<open>
  The lexer of the JSON library (src/util/json/lexer/JsonLexer.cxx, JsonToken.cxx,
  src/util/json/constants/JsonLiterals.cxx). The functions are those of the class, on the
  state of the reader; \<open>nextToken\<close> adds the state of the lexer. The loops end because a
  character is consumed in every round; an escape sequence never moves the reader backwards.
\<close>

unbundle bit_operations_syntax

subsection \<open>Tokens\<close>

datatype JsonTokenType =
  VALUE_NUMBER | VALUE_STRING | LITERAL_BOOLEAN | LITERAL_NULL | LEFT_BRACE | RIGHT_BRACE
| LEFT_SQUARE_BRACKET | RIGHT_SQUARE_BRACKET | COMMA | COLON

record JsonToken =
  mTokenType :: JsonTokenType
  mTokenValue :: string

definition JsonToken_new :: "JsonTokenType \<Rightarrow> JsonToken" where
  "JsonToken_new tokenType = \<lparr>mTokenType = tokenType, mTokenValue = []\<rparr>"

definition createStringToken :: "string \<Rightarrow> JsonToken" where
  "createStringToken stringValue = \<lparr>mTokenType = VALUE_STRING, mTokenValue = stringValue\<rparr>"

definition createNumberToken :: "string \<Rightarrow> JsonToken" where
  "createNumberToken numericValue = \<lparr>mTokenType = VALUE_NUMBER, mTokenValue = numericValue\<rparr>"

definition BOOLEAN_TRUE_LITERAL :: string where "BOOLEAN_TRUE_LITERAL = ''true''"
definition BOOLEAN_FALSE_LITERAL :: string where "BOOLEAN_FALSE_LITERAL = ''false''"
definition NULL_LITERAL :: string where "NULL_LITERAL = ''null''"

definition booleanTrueToken :: JsonToken where
  "booleanTrueToken = \<lparr>mTokenType = LITERAL_BOOLEAN, mTokenValue = BOOLEAN_TRUE_LITERAL\<rparr>"

definition booleanFalseToken :: JsonToken where
  "booleanFalseToken = \<lparr>mTokenType = LITERAL_BOOLEAN, mTokenValue = BOOLEAN_FALSE_LITERAL\<rparr>"

definition nullToken :: JsonToken where
  "nullToken = \<lparr>mTokenType = LITERAL_NULL, mTokenValue = NULL_LITERAL\<rparr>"

definition tokenTypeToString :: "JsonTokenType \<Rightarrow> string" where
  "tokenTypeToString tokenType = (case tokenType of
      VALUE_NUMBER \<Rightarrow> ''NUMBER'' | VALUE_STRING \<Rightarrow> ''STRING'' | LITERAL_BOOLEAN \<Rightarrow> ''BOOLEAN''
    | LITERAL_NULL \<Rightarrow> NULL_LITERAL | LEFT_BRACE \<Rightarrow> ''{'' | RIGHT_BRACE \<Rightarrow> ''}''
    | LEFT_SQUARE_BRACKET \<Rightarrow> ''['' | RIGHT_SQUARE_BRACKET \<Rightarrow> '']'' | COMMA \<Rightarrow> '','' | COLON \<Rightarrow> '':'')"

definition token_toString :: "JsonToken \<Rightarrow> string" where
  "token_toString t = ''JsonToken {tokenType='' @ tokenTypeToString (mTokenType t) @ '', value='' @ mTokenValue t @ ''}''"

subsection \<open>Classes of characters\<close>

text \<open>On the \<^verbatim>\<open>int32_t\<close> that \<open>read\<close> returns.\<close>

definition chr :: "char \<Rightarrow> int" where
  "chr c = int (byte_of c)"

definition isJsonWhitespaceCharacter :: "int \<Rightarrow> bool" where
  "isJsonWhitespaceCharacter c \<longleftrightarrow> c \<in> {32, 9, 10, 13}"

definition isJsonStructuralCharacter :: "int \<Rightarrow> bool" where
  "isJsonStructuralCharacter c \<longleftrightarrow> c \<in> {91, 93, 123, 125, 58, 44}"

definition isDigitOrMinus :: "int \<Rightarrow> bool" where
  "isDigitOrMinus c \<longleftrightarrow> c = 45 \<or> (48 \<le> c \<and> c \<le> 57)"

definition isEscapeCharacter :: "int \<Rightarrow> bool" where
  "isEscapeCharacter c \<longleftrightarrow> c = 92"

definition isCharacterThatNeedsEscaping :: "int \<Rightarrow> bool" where
  "isCharacterThatNeedsEscaping c \<longleftrightarrow> c = 34 \<or> c = 92 \<or> (0 \<le> c \<and> c \<le> 0x1F)"

definition isHexCharacter :: "int \<Rightarrow> bool" where
  "isHexCharacter c \<longleftrightarrow> (48 \<le> c \<and> c \<le> 57) \<or> (97 \<le> c \<and> c \<le> 102) \<or> (65 \<le> c \<and> c \<le> 70)"

definition to_char :: "int \<Rightarrow> char" where
  "to_char c = char_of (nat (c mod 256))"

lemma to_char_byte [simp]: "to_char (int (byte_of c)) = c"
  by (simp add: to_char_def)

definition quote :: char where "quote = CHR 0x22"
definition backslash :: char where "backslash = CHR 0x5C"

definition unexpectedLiteralTokenMessage :: "string \<Rightarrow> string" where
  "unexpectedLiteralTokenMessage literalToken = ''Unexpected literal '' @ quote # literalToken @ [quote]"

subsection \<open>Literals and white space\<close>

text \<open>
  The loops read a character after marking. They end because a character was consumed;
  the last argument of \<open>parseLiteral_loop\<close> is the reader after the look-ahead.
\<close>

function parseLiteral_loop ::
    "string \<Rightarrow> int \<Rightarrow> DefaultResettableReader \<Rightarrow> (string \<times> int) \<times> DefaultResettableReader" where
  "parseLiteral_loop literal c r =
     (if c \<noteq> EOF \<and> \<not> isJsonWhitespaceCharacter c \<and> \<not> isJsonStructuralCharacter c
      then (let c_r = reader_read (mark1 r)
            in parseLiteral_loop (literal @ [to_char c]) (fst c_r) (snd c_r))
      else ((literal, c), r))"
  by pat_completeness auto
termination
proof (relation "measure (\<lambda>(l, c, r). remaining r + (if c = EOF then 0 else 1))")
  fix l c r x
  assume "c \<noteq> EOF \<and> \<not> isJsonWhitespaceCharacter c \<and> \<not> isJsonStructuralCharacter c" "x = reader_read (mark1 r)"
  moreover obtain d q where dq: "reader_read (mark1 r) = (d, q)" by fastforce
  ultimately show "((l @ [to_char c], fst x, snd x), l, c, r) \<in> measure (\<lambda>(l, c, r). remaining r + (if c = EOF then 0 else 1))"
    using read_remaining [OF dq] by auto
qed simp

declare parseLiteral_loop.simps [simp del]

definition parseLiteral :: "(DefaultResettableReader, string) cpp_op" where
  "parseLiteral = (\<lambda>r.
     let c_r = reader_read (mark1 r);
         res = parseLiteral_loop [] (fst c_r) (snd c_r);
         literal = fst (fst res);
         c = snd (fst res);
         r = snd res in
     if c \<noteq> EOF then op_bind reader_reset (\<lambda>_. op_return literal) r else (Inr literal, r))"

function consumeWhitespace_loop :: "DefaultResettableReader \<Rightarrow> int \<times> DefaultResettableReader" where
  "consumeWhitespace_loop r =
     (let c_r = reader_read (mark1 r) in
      if fst c_r \<noteq> EOF \<and> isJsonWhitespaceCharacter (fst c_r) then consumeWhitespace_loop (snd c_r)
      else c_r)"
  by pat_completeness auto
termination
proof (relation "measure remaining")
  fix r x
  assume "x = reader_read (mark1 r)" "fst x \<noteq> EOF \<and> isJsonWhitespaceCharacter (fst x)"
  then show "(snd x, r) \<in> measure remaining"
    using read_remaining(1) [of "mark1 r" "fst x" "snd x"] by simp
qed simp

declare consumeWhitespace_loop.simps [simp del]

definition consumeWhitespaceCharacters :: "(DefaultResettableReader, bool) cpp_op" where
  "consumeWhitespaceCharacters = (\<lambda>r.
     let c_r = consumeWhitespace_loop r in
     if fst c_r \<noteq> EOF then op_bind reader_reset (\<lambda>_. op_return False) (snd c_r)
     else (Inr True, snd c_r))"

subsection \<open>Numbers\<close>

text \<open>
  Regular expressions over classes of characters, matched by derivatives, and the number
  pattern of \<open>JsonLiterals\<close>: an optional minus, 0 or digits without a leading 0, an
  optional fraction, an optional exponent.
\<close>

datatype regex =
    REmpty
  | REps
  | RChars string
  | RSeq regex regex
  | RAlt regex regex
  | RStar regex

primrec nullable :: "regex \<Rightarrow> bool" where
  "nullable REmpty = False"
| "nullable REps = True"
| "nullable (RChars cs) = False"
| "nullable (RSeq r s) \<longleftrightarrow> nullable r \<and> nullable s"
| "nullable (RAlt r s) \<longleftrightarrow> nullable r \<or> nullable s"
| "nullable (RStar r) = True"

primrec deriv :: "char \<Rightarrow> regex \<Rightarrow> regex" where
  "deriv c REmpty = REmpty"
| "deriv c REps = REmpty"
| "deriv c (RChars cs) = (if c \<in> set cs then REps else REmpty)"
| "deriv c (RSeq r s) = (if nullable r then RAlt (RSeq (deriv c r) s) (deriv c s) else RSeq (deriv c r) s)"
| "deriv c (RAlt r s) = RAlt (deriv c r) (deriv c s)"
| "deriv c (RStar r) = RSeq (deriv c r) (RStar r)"

definition regex_match :: "string \<Rightarrow> regex \<Rightarrow> bool" where
  "regex_match s r = nullable (fold deriv s r)"

definition ROpt :: "regex \<Rightarrow> regex" where "ROpt r = RAlt REps r"
definition RPlus :: "regex \<Rightarrow> regex" where "RPlus r = RSeq r (RStar r)"

definition NUMBER_INTEGER :: regex where
  "NUMBER_INTEGER = RSeq (ROpt (RChars ''-''))
     (RAlt (RChars ''0'') (RSeq (RChars ''123456789'') (RStar (RChars ''0123456789''))))"

definition NUMBER_FRACTION :: regex where
  "NUMBER_FRACTION = RSeq (RChars ''.'') (RPlus (RChars ''0123456789''))"

definition NUMBER_EXPONENT :: regex where
  "NUMBER_EXPONENT = RSeq (RChars ''eE'') (RSeq (ROpt (RChars ''+-'')) (RPlus (RChars ''0123456789'')))"

definition NUMBER_PATTERN :: regex where
  "NUMBER_PATTERN = RSeq NUMBER_INTEGER (RSeq (ROpt NUMBER_FRACTION) (ROpt NUMBER_EXPONENT))"

definition tryParseNumberToken :: "(DefaultResettableReader, JsonToken) cpp_op" where
  "tryParseNumberToken = op_bind parseLiteral (\<lambda>literal.
     if regex_match literal NUMBER_PATTERN then op_return (createNumberToken literal)
     else op_throw (JsonLexerException (''Invalid number literal '' @ quote # literal @ [quote])))"

definition tryParseBooleanLiteral :: "(DefaultResettableReader, JsonToken) cpp_op" where
  "tryParseBooleanLiteral = op_bind parseLiteral (\<lambda>literal.
     if literal = BOOLEAN_TRUE_LITERAL then op_return booleanTrueToken
     else if literal = BOOLEAN_FALSE_LITERAL then op_return booleanFalseToken
     else op_throw (JsonLexerException (unexpectedLiteralTokenMessage literal)))"

definition tryParseNullLiteral :: "(DefaultResettableReader, JsonToken) cpp_op" where
  "tryParseNullLiteral = op_bind parseLiteral (\<lambda>literal.
     if literal = NULL_LITERAL then op_return nullToken
     else op_throw (JsonLexerException (unexpectedLiteralTokenMessage literal)))"

subsection \<open>Strings\<close>

definition unterminated :: "string \<Rightarrow> cpp_exception" where
  "unterminated s = JsonLexerException (''Unterminated string literal '' @ quote # s @ [quote])"

text \<open>
  Four hexadecimal digits and one character of look-ahead, which is given back. The
  arguments of the loop are the digits so far and the character read.
\<close>

function unicodeEscape_loop :: "string \<Rightarrow> int \<Rightarrow> (DefaultResettableReader, string \<times> int) cpp_op" where
  "unicodeEscape_loop digits nextChar r =
     (if nextChar \<noteq> EOF \<and> length digits < 4
      then (if \<not> isHexCharacter nextChar
            then (Inl (JsonLexerException (''Invalid unicode escape sequence '' @
                    quote # backslash # ''u'' @ digits @ [to_char nextChar, quote])), r)
            else (let c_r = reader_read (mark1 r)
                  in unicodeEscape_loop (digits @ [to_char nextChar]) (fst c_r) (snd c_r)))
      else (Inr (digits, nextChar), r))"
  by pat_completeness auto
termination
  by (relation "measure (\<lambda>(ds, c, r). 4 - length ds)") auto

declare unicodeEscape_loop.simps [simp del]

definition readUnicodeEscapeSequence :: "(DefaultResettableReader, string) cpp_op" where
  "readUnicodeEscapeSequence = (\<lambda>r.
     let c_r = reader_read r in
     op_bind (unicodeEscape_loop [] (fst c_r)) (\<lambda>(digits, nextChar).
       if nextChar = EOF
       then op_throw (JsonLexerException (''Unterminated string literal '' @ quote # backslash # ''u'' @ digits @ [quote]))
       else op_bind reader_reset (\<lambda>_. op_return digits)) (snd c_r))"

text \<open>
  The look-ahead for the second half of a surrogate pair: \<open>None\<close> when it is not there. The
  mark is good for one character only, but two may have been read.
\<close>

definition tryParseLowSurrogateChar :: "(DefaultResettableReader, int option) cpp_op" where
  "tryParseLowSurrogateChar = (\<lambda>r.
     let c_r = reader_read (mark1 r);
         failed = op_bind reader_reset (\<lambda>_. op_return None) in
     if fst c_r = 92
     then (let d_r = reader_read (snd c_r) in
           if fst d_r = 117
           then op_bind readUnicodeEscapeSequence (\<lambda>digits. op_return (Some (int (digits_value 16 digits)))) (snd d_r)
           else failed (snd d_r))
     else failed (snd c_r))"

text \<open>The UTF-8 encoding of the character of a surrogate pair, as \<^verbatim>\<open>codecvt_utf8_utf16\<close> gives it.\<close>

definition convertSurrogatePair :: "int \<Rightarrow> int \<Rightarrow> string" where
  "convertSurrogatePair high low =
     (let cp = nat (0x10000 + (high - 0xD800) * 0x400 + (low - 0xDC00)) in
      [char_of (0xF0 + cp div 0x40000), char_of (0x80 + (cp div 0x1000) mod 0x40),
       char_of (0x80 + (cp div 0x40) mod 0x40), char_of (0x80 + cp mod 0x40)])"

definition tryParseUnicodeEscapeSequence :: "string \<Rightarrow> (DefaultResettableReader, string) cpp_op" where
  "tryParseUnicodeEscapeSequence literalString =
     op_bind readUnicodeEscapeSequence (\<lambda>unicodeSequence.
       let parsedInt = int (digits_value 16 unicodeSequence);
           parsedIntHighPart = char_of (nat (parsedInt div 256));
           parsedIntLowPart = char_of (nat (parsedInt mod 256));
           invalid = op_throw (JsonLexerException (''Invalid UTF-16 surrogate pair '' @
             quote # backslash # ''u'' @ unicodeSequence @ [quote])) in
       if isHighSurrogateCharacter parsedInt then
         op_bind tryParseLowSurrogateChar (\<lambda>lowSurrogate.
           case lowSurrogate of
             None \<Rightarrow> invalid
           | Some low \<Rightarrow>
               if \<not> isLowSurrogateCharacter low then invalid
               else op_return (literalString @ convertSurrogatePair parsedInt low))
       else if isLowSurrogateCharacter parsedInt then invalid
       else op_return (literalString @
         (if parsedIntHighPart \<noteq> CHR 0x00 then [parsedIntHighPart] else []) @ [parsedIntLowPart]))"

definition tryParseEscapeSequence :: "string \<Rightarrow> (DefaultResettableReader, string) cpp_op" where
  "tryParseEscapeSequence literalString = (\<lambda>r.
     let c_r = reader_read r;
         nextChar = fst c_r in
     (if nextChar = EOF then op_throw (unterminated literalString)
      else if nextChar = 34 \<or> nextChar = 92 \<or> nextChar = 47 then op_return (literalString @ [to_char nextChar])
      else if nextChar = 98 then op_return (literalString @ [CHR 0x08])
      else if nextChar = 102 then op_return (literalString @ [CHR 0x0C])
      else if nextChar = 110 then op_return (literalString @ [CHR 0x0A])
      else if nextChar = 114 then op_return (literalString @ [CHR 0x0D])
      else if nextChar = 116 then op_return (literalString @ [CHR 0x09])
      else if nextChar = 117 then tryParseUnicodeEscapeSequence literalString
      else op_throw (JsonLexerException (''Invalid escape sequence '' @ [quote, backslash, to_char nextChar, quote])))
     (snd c_r))"

text \<open>A control character in upper-case hexadecimal with four digits.\<close>

definition control_hex :: "int \<Rightarrow> string" where
  "control_hex c = ''00'' @ [''0123456789ABCDEF'' ! nat (c div 16), ''0123456789ABCDEF'' ! nat (c mod 16)]"

subsubsection \<open>An escape sequence never moves the reader backwards\<close>

definition same_input :: "DefaultResettableReader \<Rightarrow> DefaultResettableReader \<Rightarrow> bool" where
  "same_input r r' \<longleftrightarrow> rInput r' = rInput r"

definition advanced :: "nat \<Rightarrow> DefaultResettableReader \<Rightarrow> bool" where
  "advanced n r \<longleftrightarrow> n \<le> rPos r"

lemma read_advanced: "reader_read r = (c, r') \<Longrightarrow> n \<le> rPos r \<Longrightarrow> n \<le> rPos r' \<and> rInput r' = rInput r"
  by (auto simp: reader_read_def split: if_splits)

lemma reset_advanced:
  "reader_reset r = (x, r') \<Longrightarrow> n \<le> rPos r \<Longrightarrow> mMarkedPosition r = -1 \<or> int n \<le> mMarkedPosition r \<Longrightarrow>
    n \<le> rPos r' \<and> rInput r' = rInput r"
  by (auto simp: reader_reset_def stream_seekg_def Let_def split: if_splits)

lemma read_mark: "reader_read r = (c, r') \<Longrightarrow> mMarkedPosition r' = mMarkedPosition r"
  by (auto simp: reader_read_def split: if_splits)

lemma mark1_mark: "mMarkedPosition (mark1 r) = -1 \<or> mMarkedPosition (mark1 r) = int (rPos r)"
  by (simp add: mark1_eq stream_tellg_def)

lemma unicodeEscape_loop_advanced:
  "unicodeEscape_loop ds c r = (x, r') \<Longrightarrow> n \<le> rPos r \<Longrightarrow>
    length ds \<ge> 4 \<or> c = EOF \<longrightarrow> mMarkedPosition r = -1 \<or> int n \<le> mMarkedPosition r \<or> c = EOF \<Longrightarrow>
    n \<le> rPos r' \<and> rInput r' = rInput r \<and>
    (\<forall>ds' c'. x = Inr (ds', c') \<longrightarrow> c' \<noteq> EOF \<longrightarrow> mMarkedPosition r' = -1 \<or> int n \<le> mMarkedPosition r')"
proof (induction ds c r rule: unicodeEscape_loop.induct)
  case (1 ds c r)
  show ?case
  proof (cases "c \<noteq> EOF \<and> length ds < 4")
    case False
    then have "unicodeEscape_loop ds c r = (Inr (ds, c), r)" by (subst unicodeEscape_loop.simps) auto
    then show ?thesis using "1.prems" False by auto
  next
    case True
    show ?thesis
    proof (cases "isHexCharacter c")
      case False
      have "unicodeEscape_loop ds c r = (Inl (JsonLexerException (''Invalid unicode escape sequence '' @
          quote # backslash # ''u'' @ ds @ [to_char c, quote])), r)"
        using True False by (subst unicodeEscape_loop.simps) auto
      then show ?thesis using "1.prems" by auto
    next
      case hex: True
      obtain d q where d: "reader_read (mark1 r) = (d, q)" by fastforce
      have "unicodeEscape_loop ds c r = unicodeEscape_loop (ds @ [to_char c]) d q"
        using True hex d by (subst unicodeEscape_loop.simps) auto
      moreover have "n \<le> rPos q \<and> rInput q = rInput r"
        using read_advanced [OF d, of n] "1.prems"(2) by simp
      moreover have "mMarkedPosition q = -1 \<or> int n \<le> mMarkedPosition q"
        using read_mark [OF d] mark1_mark [of r] "1.prems"(2) by auto
      ultimately show ?thesis
        using "1.IH" [OF True] hex d "1.prems"(1) by auto
    qed
  qed
qed

text \<open>Operations that leave the reader where it is or further on.\<close>

definition forward :: "(DefaultResettableReader, 'a) cpp_op \<Rightarrow> bool" where
  "forward m \<longleftrightarrow> (\<forall>r x r'. m r = (x, r') \<longrightarrow> rPos r \<le> rPos r' \<and> rInput r' = rInput r)"

lemma forwardD: "forward m \<Longrightarrow> m r = (x, r') \<Longrightarrow> rPos r \<le> rPos r' \<and> rInput r' = rInput r"
  by (simp add: forward_def)

lemma forward_return: "forward (op_return a)" and forward_throw: "forward (op_throw e)"
  by (simp_all add: forward_def op_return_def op_throw_def)

lemma forward_bind:
  assumes "forward m" and "\<And>a. forward (f a)"
  shows "forward (op_bind m f)"
  unfolding forward_def
proof (intro allI impI)
  fix r x r'
  assume b: "op_bind m f r = (x, r')"
  obtain y q where m: "m r = (y, q)" by fastforce
  note q = forwardD [OF assms(1) m]
  show "rPos r \<le> rPos r' \<and> rInput r' = rInput r"
  proof (cases y)
    case (Inl e)
    then show ?thesis using b m q by (simp add: op_bind_def)
  next
    case (Inr a)
    then have "f a q = (x, r')" using b m by (simp add: op_bind_def)
    then show ?thesis using forwardD [OF assms(2)] q by fastforce
  qed
qed

lemma forward_read:
  assumes "\<And>c. forward (f c)"
  shows "forward (\<lambda>r. f (fst (reader_read r)) (snd (reader_read r)))"
  unfolding forward_def
proof (intro allI impI)
  fix r x r'
  obtain c q where c: "reader_read r = (c, q)" by fastforce
  assume "f (fst (reader_read r)) (snd (reader_read r)) = (x, r')"
  then have "f c q = (x, r')" using c by simp
  then show "rPos r \<le> rPos r' \<and> rInput r' = rInput r"
    using forwardD [OF assms, of c q x r'] read_advanced [OF c, of "rPos r"] by auto
qed

lemma forward_if: "forward m \<Longrightarrow> forward m' \<Longrightarrow> forward (if b then m else m')"
  by simp

lemma forward_readUnicode: "forward readUnicodeEscapeSequence"
  unfolding forward_def
proof (intro allI impI)
  fix r x r'
  assume x: "readUnicodeEscapeSequence r = (x, r')"
  obtain c q where c: "reader_read r = (c, q)" by fastforce
  have q: "rPos r \<le> rPos q \<and> rInput q = rInput r" using read_advanced [OF c order_refl] .
  obtain y p where l: "unicodeEscape_loop [] c q = (y, p)" by fastforce
  have p: "rPos r \<le> rPos p \<and> rInput p = rInput q \<and>
      (\<forall>ds' c'. y = Inr (ds', c') \<longrightarrow> c' \<noteq> EOF \<longrightarrow> mMarkedPosition p = -1 \<or> int (rPos r) \<le> mMarkedPosition p)"
    using unicodeEscape_loop_advanced [OF l, of "rPos r"] q by simp
  show "rPos r \<le> rPos r' \<and> rInput r' = rInput r"
  proof (cases y)
    case (Inl e)
    then have "r' = p" using x c l by (simp add: readUnicodeEscapeSequence_def op_bind_def)
    then show ?thesis using p q by simp
  next
    case (Inr b)
    obtain ds c' where b: "b = (ds, c')" by fastforce
    show ?thesis
    proof (cases "c' = EOF")
      case True
      then have "r' = p" using x c l Inr b by (simp add: readUnicodeEscapeSequence_def op_bind_def op_throw_def)
      then show ?thesis using p q by simp
    next
      case False
      obtain z t where t: "reader_reset p = (z, t)" by fastforce
      have "r' = t" using x c l Inr b False t
        by (cases z) (auto simp: readUnicodeEscapeSequence_def op_bind_def op_return_def)
      then show ?thesis using reset_advanced [OF t, of "rPos r"] p q Inr b False by auto
    qed
  qed
qed

lemma forward_reset_none:
  assumes "op_bind reader_reset (\<lambda>_. op_return None) p = (x, r')"
    and "n \<le> rPos p" and "mMarkedPosition p = -1 \<or> int n \<le> mMarkedPosition p"
  shows "n \<le> rPos r' \<and> rInput r' = rInput p"
proof -
  obtain z t where t: "reader_reset p = (z, t)" by fastforce
  have "r' = t" using assms(1) t by (cases z) (auto simp: op_bind_def op_return_def)
  then show ?thesis using reset_advanced [OF t assms(2,3)] by simp
qed

lemma forward_lowSurrogate: "forward tryParseLowSurrogateChar"
  unfolding forward_def
proof (intro allI impI)
  fix r x r'
  assume x: "tryParseLowSurrogateChar r = (x, r')"
  obtain c q where c: "reader_read (mark1 r) = (c, q)" by fastforce
  obtain d p where d: "reader_read q = (d, p)" by fastforce
  have q: "rPos r \<le> rPos q \<and> rInput q = rInput r" using read_advanced [OF c, of "rPos r"] by simp
  have p: "rPos r \<le> rPos p \<and> rInput p = rInput r" using read_advanced [OF d, of "rPos r"] q by simp
  have m: "mMarkedPosition q = -1 \<or> int (rPos r) \<le> mMarkedPosition q" "mMarkedPosition p = mMarkedPosition q"
    using read_mark [OF c] read_mark [OF d] mark1_mark [of r] by auto
  consider (pair) "c = 92" "d = 117" | (one) "c = 92" "d \<noteq> 117" | (none) "c \<noteq> 92" by blast
  then show "rPos r \<le> rPos r' \<and> rInput r' = rInput r"
  proof cases
    case pair
    then have "op_bind readUnicodeEscapeSequence (\<lambda>digits. op_return (Some (int (digits_value 16 digits)))) p = (x, r')"
      using x c d by (simp add: tryParseLowSurrogateChar_def)
    from forwardD [OF forward_bind [OF forward_readUnicode forward_return] this] show ?thesis using p by auto
  next
    case one
    then have "op_bind reader_reset (\<lambda>_. op_return None) p = (x, r')"
      using x c d by (simp add: tryParseLowSurrogateChar_def)
    from forward_reset_none [OF this, of "rPos r"] show ?thesis using p m by auto
  next
    case none
    then have "op_bind reader_reset (\<lambda>_. op_return None) q = (x, r')"
      using x c by (simp add: tryParseLowSurrogateChar_def)
    from forward_reset_none [OF this, of "rPos r"] show ?thesis using q m by auto
  qed
qed

lemma forward_unicodeEscape: "forward (tryParseUnicodeEscapeSequence s)"
  unfolding tryParseUnicodeEscapeSequence_def Let_def
  by (intro forward_bind forward_readUnicode forward_if forward_lowSurrogate forward_throw forward_return)
    (simp add: forward_throw forward_return split: option.split)

lemma forward_escape: "forward (tryParseEscapeSequence s)"
  unfolding tryParseEscapeSequence_def Let_def
  by (rule forward_read) (intro forward_if forward_throw forward_return forward_unicodeEscape)

lemma escape_advanced: "tryParseEscapeSequence s r = (x, r') \<Longrightarrow> remaining r' \<le> remaining r"
  using forwardD [OF forward_escape] by (fastforce simp: remaining_def)

subsubsection \<open>The string token\<close>

function string_loop ::
    "string \<Rightarrow> int \<Rightarrow> (DefaultResettableReader, string \<times> int) cpp_op" where
  "string_loop stringValue nextChar r =
     (if nextChar \<noteq> EOF \<and> nextChar \<noteq> 34 then
        (if isEscapeCharacter nextChar then
           (case tryParseEscapeSequence stringValue r of
              (Inl e, r') \<Rightarrow> (Inl e, r')
            | (Inr stringValue', r') \<Rightarrow>
                (let c_r = reader_read r' in string_loop stringValue' (fst c_r) (snd c_r)))
         else if isCharacterThatNeedsEscaping nextChar then
           (Inl (JsonLexerException (''Invalid control character '' @
              quote # backslash # ''u'' @ control_hex nextChar @ [quote])), r)
         else
           (let c_r = reader_read r in string_loop (stringValue @ [to_char nextChar]) (fst c_r) (snd c_r)))
      else (Inr (stringValue, nextChar), r))"
  by pat_completeness auto
termination
proof (relation "measure (\<lambda>(s, c, r). remaining r + (if c = EOF then 0 else 1))", goal_cases)
  case (2 s c r x r' s' z)
  obtain d q where d: "reader_read r' = (d, q)" by fastforce
  show ?case using 2 escape_advanced [of s r x r'] read_remaining [OF d] d by auto
next
  case (3 s c r x)
  obtain d q where d: "reader_read r = (d, q)" by fastforce
  show ?case using 3 read_remaining [OF d] d by auto
qed simp

declare string_loop.simps [simp del]

definition tryParseStringToken :: "(DefaultResettableReader, JsonToken) cpp_op" where
  "tryParseStringToken = (\<lambda>r.
     let c_r = reader_read r in
     op_bind (string_loop [] (fst c_r)) (\<lambda>(stringValue, nextChar).
       if nextChar \<noteq> EOF then op_return (createStringToken stringValue)
       else op_throw (unterminated stringValue)) (snd c_r))"

subsection \<open>The next token\<close>

definition doParseNextToken :: "(DefaultResettableReader, JsonToken) cpp_op" where
  "doParseNextToken = (\<lambda>r.
     let c_r = reader_read (mark1 r);
         nextChar = fst c_r in
     (if nextChar = 91 then op_return (JsonToken_new LEFT_SQUARE_BRACKET)
      else if nextChar = 93 then op_return (JsonToken_new RIGHT_SQUARE_BRACKET)
      else if nextChar = 123 then op_return (JsonToken_new LEFT_BRACE)
      else if nextChar = 125 then op_return (JsonToken_new RIGHT_BRACE)
      else if nextChar = 58 then op_return (JsonToken_new COLON)
      else if nextChar = 44 then op_return (JsonToken_new COMMA)
      else if nextChar = 116 \<or> nextChar = 102 then op_bind reader_reset (\<lambda>_. tryParseBooleanLiteral)
      else if nextChar = 110 then op_bind reader_reset (\<lambda>_. tryParseNullLiteral)
      else if nextChar = 34 then tryParseStringToken
      else if isDigitOrMinus nextChar then op_bind reader_reset (\<lambda>_. tryParseNumberToken)
      else op_bind reader_reset (\<lambda>_. op_bind parseLiteral (\<lambda>literalToken.
             op_throw (JsonLexerException (unexpectedLiteralTokenMessage literalToken)))))
     (snd c_r))"

datatype JsonLexerState = LEXER_INITIAL | LEXER_PARSING | LEXER_END_OF_FILE | LEXER_ERROR

record JsonLexer =
  mReader :: DefaultResettableReader
  mLexerState :: JsonLexerState

definition JsonLexer_new :: "string \<Rightarrow> JsonLexer" where
  "JsonLexer_new input = \<lparr>mReader = reader_new input, mLexerState = LEXER_INITIAL\<rparr>"

text \<open>
  \<open>None\<close> is the end of the input. A lexer exception puts the lexer into its error state;
  any other exception passes and leaves the state as it is. The stream throws no
  \<^verbatim>\<open>ios_base::failure\<close>, since no exception mask is set.
\<close>

definition nextToken :: "(JsonLexer, JsonToken option) cpp_op" where
  "nextToken = (\<lambda>l.
     if mLexerState l = LEXER_ERROR then (Inl (JsonLexerException ''JSON Lexer is in erroneous state''), l)
     else if mLexerState l = LEXER_END_OF_FILE then (Inr None, l)
     else
       (case consumeWhitespaceCharacters (mReader l) of
          (Inl e, r) \<Rightarrow> (Inl e, l\<lparr>mReader := r,
            mLexerState := (case e of JsonLexerException _ \<Rightarrow> LEXER_ERROR | _ \<Rightarrow> mLexerState l)\<rparr>)
        | (Inr True, r) \<Rightarrow> (Inr None, l\<lparr>mReader := r, mLexerState := LEXER_END_OF_FILE\<rparr>)
        | (Inr False, r) \<Rightarrow>
            (case doParseNextToken r of
               (Inl e, r) \<Rightarrow> (Inl e, l\<lparr>mReader := r,
                 mLexerState := (case e of JsonLexerException _ \<Rightarrow> LEXER_ERROR | _ \<Rightarrow> LEXER_PARSING)\<rparr>)
             | (Inr token, r) \<Rightarrow> (Inr (Some token), l\<lparr>mReader := r, mLexerState := LEXER_PARSING\<rparr>))))"

end
