(* ===== verification/Json_Lexing.thy ===== *)
theory Json_Lexing
  imports Json_Lexer
begin

text \<open>
  What the JSON lexer does on the characters that are left: the token and the rest for every
  kind of token, the language of the number pattern, the escapes of strings, that every token
  consumes a character, and the exceptions.
\<close>

subsection \<open>Literals and white space on the characters left\<close>

definition whitespace :: "char \<Rightarrow> bool" where
  "whitespace c \<longleftrightarrow> isJsonWhitespaceCharacter (int (byte_of c))"

definition literal_char :: "char \<Rightarrow> bool" where
  "literal_char c \<longleftrightarrow> \<not> whitespace c \<and> \<not> isJsonStructuralCharacter (int (byte_of c))"

lemma read_mark1_Cons:
  assumes "reader_ok r" and "rest r = c # cs"
  obtains q where "reader_read (mark1 r) = (int (byte_of c), q)" "reader_ok q" "rest q = cs"
    "q = (mark1 r)\<lparr>rPos := rPos r + 1\<rparr>"
  using read_Cons [of "mark1 r" c cs] assms by auto

lemma read_mark1_Nil:
  assumes "reader_ok r" and "rest r = []"
  obtains q where "reader_read (mark1 r) = (EOF, q)" "reader_ok q" "rest q = []"
  using read_Nil [of "mark1 r"] assms by (metis mark1_simps(1,2) prod.collapse)

text \<open>The state after the look-ahead: at the end, or one character behind the place to go back to.\<close>

definition looked_ahead :: "int \<Rightarrow> DefaultResettableReader \<Rightarrow> string \<Rightarrow> bool" where
  "looked_ahead c r s \<longleftrightarrow>
     (case s of [] \<Rightarrow> c = EOF \<and> reader_ok r \<and> rest r = []
      | x # xs \<Rightarrow> c = int (byte_of x) \<and> (\<exists>q. reader_ok q \<and> rest q = s \<and> r = (mark1 q)\<lparr>rPos := rPos q + 1\<rparr>))"

lemma looked_ahead_EOF: "looked_ahead EOF r s \<Longrightarrow> s = [] \<and> reader_ok r \<and> rest r = []"
  by (cases s) (auto simp: looked_ahead_def EOF_def)

lemma looked_ahead_char: "looked_ahead c r s \<Longrightarrow> c \<noteq> EOF \<Longrightarrow> s \<noteq> []"
  by (cases s) (auto simp: looked_ahead_def)

lemma looked_ahead_reset:
  assumes "looked_ahead c r s" and "c \<noteq> EOF"
  shows "\<exists>r'. reader_reset r = (Inr (), r') \<and> reader_ok r' \<and> rest r' = s"
proof -
  obtain x xs q where "s = x # xs" "reader_ok q" "rest q = x # xs" "r = (mark1 q)\<lparr>rPos := rPos q + 1\<rparr>"
    using assms by (cases s) (auto simp: looked_ahead_def)
  then show ?thesis using peek_Cons [of q x xs] by simp
qed

lemma looked_ahead_read:
  assumes "reader_ok r"
  shows "looked_ahead (fst (reader_read (mark1 r))) (snd (reader_read (mark1 r))) (rest r)"
proof (cases "rest r")
  case Nil
  obtain q where "reader_read (mark1 r) = (EOF, q)" "reader_ok q" "rest q = []"
    by (rule read_mark1_Nil [OF assms Nil])
  then show ?thesis using Nil by (simp add: looked_ahead_def)
next
  case (Cons x xs)
  obtain q where q: "reader_read (mark1 r) = (int (byte_of x), q)" "q = (mark1 r)\<lparr>rPos := rPos r + 1\<rparr>"
    using read_mark1_Cons [OF assms Cons] by blast
  then show ?thesis using Cons assms by (auto simp: looked_ahead_def)
qed

lemma parseLiteral_loop_rest:
  assumes "reader_ok r"
  shows "\<exists>c q. parseLiteral_loop acc (fst (reader_read (mark1 r))) (snd (reader_read (mark1 r)))
      = ((acc @ takeWhile literal_char (rest r), c), q) \<and> looked_ahead c q (dropWhile literal_char (rest r))"
  using assms
proof (induction "rest r" arbitrary: r acc)
  case Nil
  then obtain q where q: "reader_read (mark1 r) = (EOF, q)" "reader_ok q" "rest q = []"
    using read_mark1_Nil by metis
  then have "parseLiteral_loop acc EOF q = ((acc, EOF), q)" by (subst parseLiteral_loop.simps) simp
  then show ?case using q Nil.hyps [symmetric] by (simp add: looked_ahead_def)
next
  case (Cons x xs)
  obtain q where q: "reader_read (mark1 r) = (int (byte_of x), q)" "reader_ok q" "rest q = xs"
    using read_mark1_Cons [OF Cons.prems Cons.hyps(2) [symmetric]] by metis
  show ?case
  proof (cases "literal_char x")
    case True
    then have "parseLiteral_loop acc (int (byte_of x)) q =
        parseLiteral_loop (acc @ [x]) (fst (reader_read (mark1 q))) (snd (reader_read (mark1 q)))"
      by (subst parseLiteral_loop.simps) (simp add: literal_char_def whitespace_def Let_def)
    then show ?thesis
      using Cons.hyps(1) [of q "acc @ [x]"] q Cons.hyps(2) [symmetric] True by simp
  next
    case False
    then have "parseLiteral_loop acc (int (byte_of x)) q = ((acc, int (byte_of x)), q)"
      by (subst parseLiteral_loop.simps) (auto simp: literal_char_def whitespace_def)
    then show ?thesis
      using q looked_ahead_read [OF Cons.prems] Cons.hyps(2) [symmetric] False by simp
  qed
qed

lemma parseLiteral_rest:
  assumes "reader_ok r"
  shows "\<exists>r'. parseLiteral r = (Inr (takeWhile literal_char (rest r)), r') \<and> reader_ok r' \<and>
    rest r' = dropWhile literal_char (rest r)"
proof -
  obtain c q where l: "parseLiteral_loop [] (fst (reader_read (mark1 r))) (snd (reader_read (mark1 r)))
      = ((takeWhile literal_char (rest r), c), q)" "looked_ahead c q (dropWhile literal_char (rest r))"
    using parseLiteral_loop_rest [OF assms, of "[]"] by auto
  show ?thesis
  proof (cases "c = EOF")
    case True
    then have e: "reader_ok q" "rest q = []" "dropWhile literal_char (rest r) = []"
      using looked_ahead_EOF l(2) by blast+
    have "parseLiteral r = (Inr (takeWhile literal_char (rest r)), q)"
      using l(1) True by (simp add: parseLiteral_def Let_def)
    then show ?thesis using e by metis
  next
    case False
    obtain r' where r': "reader_reset q = (Inr (), r')" "reader_ok r'"
      "rest r' = dropWhile literal_char (rest r)"
      using looked_ahead_reset [OF l(2) False] by blast
    have "parseLiteral r = (Inr (takeWhile literal_char (rest r)), r')"
      using r'(1) l(1) False by (simp add: parseLiteral_def Let_def op_bind_def op_return_def)
    then show ?thesis using r' by metis
  qed
qed

lemma consumeWhitespace_loop_rest:
  assumes "reader_ok r"
  shows "looked_ahead (fst (consumeWhitespace_loop r)) (snd (consumeWhitespace_loop r)) (dropWhile whitespace (rest r))"
  using assms
proof (induction "rest r" arbitrary: r)
  case Nil
  then obtain q where q: "reader_read (mark1 r) = (EOF, q)" "reader_ok q" "rest q = []"
    using read_mark1_Nil by metis
  then have "consumeWhitespace_loop r = (EOF, q)" by (subst consumeWhitespace_loop.simps) simp
  then show ?case using q Nil.hyps [symmetric] by (simp add: looked_ahead_def)
next
  case (Cons x xs)
  obtain q where q: "reader_read (mark1 r) = (int (byte_of x), q)" "reader_ok q" "rest q = xs"
    using read_mark1_Cons [OF Cons.prems Cons.hyps(2) [symmetric]] by metis
  show ?case
  proof (cases "whitespace x")
    case True
    then have "consumeWhitespace_loop r = consumeWhitespace_loop q"
      using q by (subst consumeWhitespace_loop.simps) (simp add: whitespace_def)
    then show ?thesis using Cons.hyps(1) [of q] q Cons.hyps(2) [symmetric] True by simp
  next
    case False
    then have "consumeWhitespace_loop r = (int (byte_of x), q)"
      using q by (subst consumeWhitespace_loop.simps) (simp add: whitespace_def)
    then show ?thesis
      using q looked_ahead_read [OF Cons.prems] Cons.hyps(2) [symmetric] False by simp
  qed
qed

lemma consumeWhitespace_rest:
  assumes "reader_ok r"
  shows "\<exists>r'. consumeWhitespaceCharacters r = (Inr (dropWhile whitespace (rest r) = []), r') \<and> reader_ok r' \<and>
    rest r' = dropWhile whitespace (rest r)"
proof -
  let ?c = "consumeWhitespace_loop r"
  have l: "looked_ahead (fst ?c) (snd ?c) (dropWhile whitespace (rest r))"
    using consumeWhitespace_loop_rest [OF assms] .
  show ?thesis
  proof (cases "fst ?c = EOF")
    case True
    then have e: "dropWhile whitespace (rest r) = []" "reader_ok (snd ?c)" "rest (snd ?c) = []"
      using looked_ahead_EOF l by metis+
    have "consumeWhitespaceCharacters r = (Inr True, snd ?c)"
      using True by (simp add: consumeWhitespaceCharacters_def Let_def)
    then show ?thesis using e by metis
  next
    case False
    have ne: "dropWhile whitespace (rest r) \<noteq> []" by (rule looked_ahead_char [OF l False])
    obtain r' where r': "reader_reset (snd ?c) = (Inr (), r')" "reader_ok r'"
      "rest r' = dropWhile whitespace (rest r)"
      using looked_ahead_reset [OF l False] by blast
    have "consumeWhitespaceCharacters r = (Inr False, r')"
      using r'(1) False by (simp add: consumeWhitespaceCharacters_def Let_def op_bind_def op_return_def)
    then show ?thesis using r' ne by metis
  qed
qed

subsection \<open>The language of the regular expressions\<close>

inductive_set star :: "string set \<Rightarrow> string set" for A where
  star_Nil: "[] \<in> star A"
| star_append: "x \<in> A \<Longrightarrow> y \<in> star A \<Longrightarrow> x @ y \<in> star A"

primrec lang :: "regex \<Rightarrow> string set" where
  "lang REmpty = {}"
| "lang REps = {[]}"
| "lang (RChars cs) = {[c] | c. c \<in> set cs}"
| "lang (RSeq r s) = {x @ y | x y. x \<in> lang r \<and> y \<in> lang s}"
| "lang (RAlt r s) = lang r \<union> lang s"
| "lang (RStar r) = star (lang r)"

lemma nullable_lang: "nullable r \<longleftrightarrow> [] \<in> lang r"
  by (induction r) (auto intro: star_Nil)

lemma star_Cons:
  "c # s \<in> star A \<longleftrightarrow> (\<exists>x y. s = x @ y \<and> c # x \<in> A \<and> y \<in> star A)"
proof
  assume "c # s \<in> star A"
  then show "\<exists>x y. s = x @ y \<and> c # x \<in> A \<and> y \<in> star A"
  proof (induction "c # s" arbitrary: c s rule: star.induct)
    case (star_append x y)
    show ?case
    proof (cases x)
      case Nil
      then show ?thesis using star_append by simp
    next
      case (Cons d x')
      then show ?thesis using star_append by auto
    qed
  qed
next
  assume "\<exists>x y. s = x @ y \<and> c # x \<in> A \<and> y \<in> star A"
  then show "c # s \<in> star A" using star_append [of "c # _" A] by (metis append_Cons)
qed

lemma deriv_lang: "s \<in> lang (deriv c r) \<longleftrightarrow> c # s \<in> lang r"
proof (induction r arbitrary: s)
  case (RSeq r1 r2)
  have "c # s \<in> lang (RSeq r1 r2) \<longleftrightarrow>
      (\<exists>x y. s = x @ y \<and> c # x \<in> lang r1 \<and> y \<in> lang r2) \<or> ([] \<in> lang r1 \<and> c # s \<in> lang r2)"
    by (auto simp: Cons_eq_append_conv)
  then show ?case using RSeq by (auto simp: nullable_lang)
next
  case (RStar r)
  then show ?case by (auto simp: star_Cons)
qed (auto simp: Cons_eq_append_conv)

lemma regex_match_lang: "regex_match s r \<longleftrightarrow> s \<in> lang r"
proof -
  have "nullable (fold deriv s r) \<longleftrightarrow> s \<in> lang r"
    by (induction s arbitrary: r) (simp_all add: nullable_lang deriv_lang)
  then show ?thesis by (simp add: regex_match_def)
qed

lemma digit_chars: "c \<in> set ''0123456789'' \<longleftrightarrow> std_isdigit c"
proof -
  have "\<forall>c. c \<in> set ''0123456789'' \<longleftrightarrow> std_isdigit c" by code_simp
  then show ?thesis by blast
qed

lemma star_chars: "s \<in> star {[c] | c. c \<in> set cs} \<longleftrightarrow> set s \<subseteq> set cs"
  by (induction s) (auto simp: star_Cons intro: star_Nil)

lemma lang_digits: "s \<in> lang (RStar (RChars ''0123456789'')) \<longleftrightarrow> list_all std_isdigit s"
  unfolding lang.simps(3,6) star_chars unfolding subset_iff digit_chars list_all_iff by blast

lemma lang_chars_seq: "s \<in> lang (RSeq (RChars cs) r) \<longleftrightarrow> s \<noteq> [] \<and> hd s \<in> set cs \<and> tl s \<in> lang r"
proof
  assume "s \<noteq> [] \<and> hd s \<in> set cs \<and> tl s \<in> lang r"
  then have "s = [hd s] @ tl s" "[hd s] \<in> lang (RChars cs)" "tl s \<in> lang r" by auto
  then show "s \<in> lang (RSeq (RChars cs) r)" unfolding lang.simps(4) by blast
qed auto

lemma lang_opt: "s \<in> lang (ROpt r) \<longleftrightarrow> s = [] \<or> s \<in> lang r"
  by (simp add: ROpt_def)

lemma lang_opt_seq: "s \<in> lang (RSeq (ROpt r) q) \<longleftrightarrow> s \<in> lang q \<or> (\<exists>x y. s = x @ y \<and> x \<in> lang r \<and> y \<in> lang q)"
  by (auto simp: ROpt_def)

lemma lang_digits1: "s \<in> lang (RPlus (RChars ''0123456789'')) \<longleftrightarrow> s \<noteq> [] \<and> list_all std_isdigit s"
  unfolding RPlus_def lang_chars_seq lang_digits digit_chars by (cases s) simp_all

text \<open>The parts of a number.\<close>

definition integer_part :: "string \<Rightarrow> bool" where
  "integer_part s \<longleftrightarrow> s = ''0'' \<or> (s \<noteq> [] \<and> list_all std_isdigit s \<and> hd s \<noteq> CHR ''0'')"

definition fraction_part :: "string \<Rightarrow> bool" where
  "fraction_part s \<longleftrightarrow> s = [] \<or> (\<exists>ds. s = CHR ''.'' # ds \<and> ds \<noteq> [] \<and> list_all std_isdigit ds)"

definition exponent_part :: "string \<Rightarrow> bool" where
  "exponent_part s \<longleftrightarrow> s = [] \<or>
     (\<exists>e sg ds. s = e # sg @ ds \<and> e \<in> {CHR ''e'', CHR ''E''} \<and> sg \<in> {[], ''+'', ''-''} \<and>
        ds \<noteq> [] \<and> list_all std_isdigit ds)"

lemma nonzero_digit: "c \<in> set ''123456789'' \<longleftrightarrow> std_isdigit c \<and> c \<noteq> CHR ''0''"
proof -
  have "\<forall>c. c \<in> set ''123456789'' \<longleftrightarrow> std_isdigit c \<and> c \<noteq> CHR ''0''" by code_simp
  then show ?thesis by blast
qed

lemma lang_integer:
  "s \<in> lang NUMBER_INTEGER \<longleftrightarrow> (\<exists>ip. (s = ip \<or> s = CHR ''-'' # ip) \<and> integer_part ip)"
proof -
  have nz: "x \<in> lang (RSeq (RChars ''123456789'') (RStar (RChars ''0123456789''))) \<longleftrightarrow>
      x \<noteq> [] \<and> list_all std_isdigit x \<and> hd x \<noteq> CHR ''0''" for x
    unfolding lang_chars_seq lang_digits nonzero_digit by (cases x) auto
  have ip: "x \<in> lang (RAlt (RChars ''0'') (RSeq (RChars ''123456789'') (RStar (RChars ''0123456789'')))) \<longleftrightarrow> integer_part x" for x
    unfolding lang.simps(5) Un_iff nz integer_part_def by auto
  show ?thesis
    unfolding NUMBER_INTEGER_def lang_opt_seq ip by auto
qed

lemma lang_fraction: "s \<in> lang (ROpt NUMBER_FRACTION) \<longleftrightarrow> fraction_part s"
  unfolding lang_opt NUMBER_FRACTION_def lang_chars_seq lang_digits1 fraction_part_def
  by (cases s) auto

lemma lang_exponent: "s \<in> lang (ROpt NUMBER_EXPONENT) \<longleftrightarrow> exponent_part s"
proof (cases s)
  case (Cons c cs)
  have "cs \<in> lang (RSeq (ROpt (RChars ''+-'')) (RPlus (RChars ''0123456789''))) \<longleftrightarrow>
      (\<exists>sg ds. cs = sg @ ds \<and> sg \<in> {[], ''+'', ''-''} \<and> ds \<noteq> [] \<and> list_all std_isdigit ds)"
    unfolding lang_opt_seq lang_digits1 by auto
  then show ?thesis
    unfolding Cons lang_opt NUMBER_EXPONENT_def lang_chars_seq exponent_part_def by auto
qed (simp add: lang_opt exponent_part_def)

lemma number_literal_parts:
  "regex_match s NUMBER_PATTERN \<longleftrightarrow>
    (\<exists>ip f e. (s = ip @ f @ e \<or> s = CHR ''-'' # ip @ f @ e) \<and> integer_part ip \<and> fraction_part f \<and> exponent_part e)"
proof -
  have "s \<in> lang NUMBER_PATTERN \<longleftrightarrow>
      (\<exists>i f e. s = i @ f @ e \<and> i \<in> lang NUMBER_INTEGER \<and> fraction_part f \<and> exponent_part e)"
    unfolding NUMBER_PATTERN_def lang.simps(4) using lang_fraction lang_exponent by auto
  then show ?thesis unfolding regex_match_lang lang_integer by (metis append_Cons)
qed

subsection \<open>Escapes on the characters left\<close>

definition is_hex :: "char \<Rightarrow> bool" where
  "is_hex c \<longleftrightarrow> isHexCharacter (int (byte_of c))"

lemma unicodeEscape_loop_rest:
  assumes "reader_ok r" and "rest r = ds @ x # t" and "list_all is_hex ds" and "length acc + length ds = 4"
  shows "\<exists>q. unicodeEscape_loop acc (fst (reader_read (mark1 r))) (snd (reader_read (mark1 r)))
      = (Inr (acc @ ds, int (byte_of x)), q) \<and> looked_ahead (int (byte_of x)) q (x # t)"
  using assms
proof (induction ds arbitrary: r acc)
  case Nil
  obtain q where q: "reader_read (mark1 r) = (int (byte_of x), q)"
    using read_mark1_Cons Nil.prems(1,2) by (metis append_Nil)
  have "unicodeEscape_loop acc (int (byte_of x)) q = (Inr (acc, int (byte_of x)), q)"
    using Nil.prems(4) by (subst unicodeEscape_loop.simps) simp
  then show ?case using looked_ahead_read [OF Nil.prems(1)] q Nil.prems(2) by simp
next
  case (Cons d ds)
  obtain q where q: "reader_read (mark1 r) = (int (byte_of d), q)" "reader_ok q" "rest q = ds @ x # t"
    using read_mark1_Cons [OF Cons.prems(1), of d "ds @ x # t"] Cons.prems(2) by auto
  have "unicodeEscape_loop acc (int (byte_of d)) q =
      unicodeEscape_loop (acc @ [d]) (fst (reader_read (mark1 q))) (snd (reader_read (mark1 q)))"
    using Cons.prems(3,4) by (subst unicodeEscape_loop.simps) (simp add: is_hex_def Let_def)
  then show ?case using Cons.IH [OF q(2,3), of "acc @ [d]"] Cons.prems(3,4) q(1) by simp
qed

lemma readUnicode_rest:
  assumes "reader_ok r" and "rest r = ds @ x # t" and "list_all is_hex ds" and "length ds = 4"
  shows "\<exists>r'. readUnicodeEscapeSequence r = (Inr ds, r') \<and> reader_ok r' \<and> rest r' = x # t"
proof -
  obtain d es where ds: "ds = d # es" using assms(4) by (cases ds) auto
  let ?q = "r\<lparr>rPos := rPos r + 1\<rparr>"
  have q: "reader_read r = (int (byte_of d), ?q)" "reader_ok ?q" "rest ?q = es @ x # t"
    using read_Cons [OF assms(1), of d "es @ x # t"] assms(2) ds by simp_all
  have "unicodeEscape_loop [] (int (byte_of d)) ?q =
      unicodeEscape_loop [d] (fst (reader_read (mark1 ?q))) (snd (reader_read (mark1 ?q)))"
    using assms(3) ds by (subst unicodeEscape_loop.simps) (simp add: is_hex_def Let_def)
  moreover obtain p where p: "unicodeEscape_loop [d] (fst (reader_read (mark1 ?q))) (snd (reader_read (mark1 ?q)))
      = (Inr (ds, int (byte_of x)), p)" "looked_ahead (int (byte_of x)) p (x # t)"
    using unicodeEscape_loop_rest [OF q(2,3), of "[d]"] assms(3,4) ds by auto
  moreover obtain r' where "reader_reset p = (Inr (), r')" "reader_ok r'" "rest r' = x # t"
    using looked_ahead_reset [OF p(2)] by auto
  ultimately show ?thesis
    using q(1) by (simp add: readUnicodeEscapeSequence_def op_bind_def op_return_def)
qed

lemma escape_rest:
  assumes "reader_ok r" and "rest r = c # t"
  shows "tryParseEscapeSequence s r =
     (if c \<in> {CHR 0x22, CHR 0x5C, CHR ''/''} then op_return (s @ [c])
      else if c = CHR ''b'' then op_return (s @ [CHR 0x08])
      else if c = CHR ''f'' then op_return (s @ [CHR 0x0C])
      else if c = CHR ''n'' then op_return (s @ [CHR 0x0A])
      else if c = CHR ''r'' then op_return (s @ [CHR 0x0D])
      else if c = CHR ''t'' then op_return (s @ [CHR 0x09])
      else if c = CHR ''u'' then tryParseUnicodeEscapeSequence s
      else op_throw (JsonLexerException (''Invalid escape sequence '' @ [quote, backslash, c, quote])))
     (r\<lparr>rPos := rPos r + 1\<rparr>)"
proof -
  have b: "int (byte_of c) = int k \<longleftrightarrow> c = char_of k" if "k < 256" for k
    using that by (metis byte_of_char_of char_of_byte_of of_nat_eq_iff)
  have "char_of (34 :: nat) = CHR 0x22" "char_of (92 :: nat) = CHR 0x5C" "char_of (47 :: nat) = CHR ''/''"
    "char_of (98 :: nat) = CHR ''b''" "char_of (102 :: nat) = CHR ''f''" "char_of (110 :: nat) = CHR ''n''"
    "char_of (114 :: nat) = CHR ''r''" "char_of (116 :: nat) = CHR ''t''" "char_of (117 :: nat) = CHR ''u''"
    by code_simp+
  then have "int (byte_of c) = 34 \<longleftrightarrow> c = CHR 0x22" "int (byte_of c) = 92 \<longleftrightarrow> c = CHR 0x5C"
    "int (byte_of c) = 47 \<longleftrightarrow> c = CHR ''/''" "int (byte_of c) = 98 \<longleftrightarrow> c = CHR ''b''"
    "int (byte_of c) = 102 \<longleftrightarrow> c = CHR ''f''" "int (byte_of c) = 110 \<longleftrightarrow> c = CHR ''n''"
    "int (byte_of c) = 114 \<longleftrightarrow> c = CHR ''r''" "int (byte_of c) = 116 \<longleftrightarrow> c = CHR ''t''"
    "int (byte_of c) = 117 \<longleftrightarrow> c = CHR ''u''"
    using b [of 34] b [of 92] b [of 47] b [of 98] b [of 102] b [of 110] b [of 114] b [of 116] b [of 117] by simp_all
  then show ?thesis
    using read_Cons(1) [OF assms] by (simp add: tryParseEscapeSequence_def Let_def)
qed

lemma unicode_rest:
  assumes "reader_ok r" and "rest r = ds @ x # t" and "list_all is_hex ds" and "length ds = 4"
    and "\<not> isHighSurrogateCharacter (int (digits_value 16 ds))" and "\<not> isLowSurrogateCharacter (int (digits_value 16 ds))"
  shows "\<exists>r'. tryParseUnicodeEscapeSequence s r =
      (Inr (s @ (if char_of (digits_value 16 ds div 256) \<noteq> CHR 0x00 then [char_of (digits_value 16 ds div 256)] else [])
          @ [char_of (digits_value 16 ds mod 256)]), r') \<and> reader_ok r' \<and> rest r' = x # t"
proof -
  obtain r' where r': "readUnicodeEscapeSequence r = (Inr ds, r')" "reader_ok r'" "rest r' = x # t"
    using readUnicode_rest [OF assms(1-4)] by blast
  have "nat (int (digits_value 16 ds) div 256) = digits_value 16 ds div 256"
    "nat (int (digits_value 16 ds) mod 256) = digits_value 16 ds mod 256"
    by (simp_all add: nat_div_distrib nat_mod_distrib)
  then show ?thesis
    using r' assms(5,6) by (simp add: tryParseUnicodeEscapeSequence_def op_bind_def op_return_def Let_def)
qed

subsection \<open>The string token on the characters left\<close>

text \<open>One round of the loop, from a reader to a reader.\<close>

definition string_from :: "string \<Rightarrow> (DefaultResettableReader, string \<times> int) cpp_op" where
  "string_from s r = string_loop s (fst (reader_read r)) (snd (reader_read r))"

lemma string_from_quote:
  assumes "reader_ok r" and "rest r = CHR 0x22 # t"
  shows "string_from s r = (Inr (s, 34), r\<lparr>rPos := rPos r + 1\<rparr>) \<and> reader_ok (r\<lparr>rPos := rPos r + 1\<rparr>) \<and>
    rest (r\<lparr>rPos := rPos r + 1\<rparr>) = t"
proof -
  have "int (byte_of (CHR 0x22)) = 34" by (simp add: byte_of_def)
  then show ?thesis
    unfolding string_from_def using read_Cons [OF assms] by (subst string_loop.simps) (simp add: EOF_def)
qed

lemma string_from_plain:
  assumes "reader_ok r" and "rest r = c # t" and "\<not> isCharacterThatNeedsEscaping (int (byte_of c))"
  shows "string_from s r = string_from (s @ [c]) (r\<lparr>rPos := rPos r + 1\<rparr>)"
  unfolding string_from_def using read_Cons(1) [OF assms(1,2)] assms(3)
  by (subst string_loop.simps) (simp add: isCharacterThatNeedsEscaping_def isEscapeCharacter_def Let_def)

lemma string_from_escape:
  assumes "reader_ok r" and "rest r = CHR 0x5C # t"
    and "tryParseEscapeSequence s (r\<lparr>rPos := rPos r + 1\<rparr>) = (Inr s', r')"
  shows "string_from s r = string_from s' r'"
proof -
  have "int (byte_of (CHR 0x5C)) = 92" by (simp add: byte_of_def)
  then show ?thesis
    unfolding string_from_def using read_Cons(1) [OF assms(1,2)] assms(3)
    by (subst string_loop.simps) (simp add: isEscapeCharacter_def EOF_def Let_def)
qed

lemma tryParseStringToken_from:
  "tryParseStringToken r = op_bind (string_from []) (\<lambda>(stringValue, nextChar).
       if nextChar \<noteq> EOF then op_return (createStringToken stringValue)
       else op_throw (unterminated stringValue)) r"
  by (simp add: tryParseStringToken_def op_bind_def string_from_def Let_def)

subsection \<open>Tokens on the characters left\<close>

lemma doParse_reset:
  assumes "reader_ok r" and "rest r = c # s"
  shows "\<exists>q. op_bind reader_reset (\<lambda>_. m) (snd (reader_read (mark1 r))) = m q \<and> reader_ok q \<and> rest q = c # s"
proof -
  obtain q where "reader_reset ((mark1 r)\<lparr>rPos := rPos r + 1\<rparr>) = (Inr (), q)" "reader_ok q" "rest q = c # s"
    using peek_Cons [OF assms] by blast
  then show ?thesis using read_after_mark1 [OF assms] by (auto simp: op_bind_def)
qed

text \<open>What \<open>doParseNextToken\<close> does on the first character, with the reader on that character or behind it.\<close>

lemma doParse_structural:
  assumes "reader_ok r" and "rest r = c # s"
    and "(c, tokenType) \<in> {(CHR ''['', LEFT_SQUARE_BRACKET), (CHR '']'', RIGHT_SQUARE_BRACKET), (CHR ''{'', LEFT_BRACE),
      (CHR ''}'', RIGHT_BRACE), (CHR '':'', COLON), (CHR '','', COMMA)}"
  shows "\<exists>r'. doParseNextToken r = (Inr (JsonToken_new tokenType), r') \<and> reader_ok r' \<and> rest r' = s"
proof -
  obtain q where q: "reader_read (mark1 r) = (int (byte_of c), q)" "reader_ok q" "rest q = s"
    using read_mark1_Cons [OF assms(1,2)] by metis
  have b: "byte_of (CHR ''['') = 91" "byte_of (CHR '']'') = 93" "byte_of (CHR ''{'') = 123"
    "byte_of (CHR ''}'') = 125" "byte_of (CHR '':'') = 58" "byte_of (CHR '','') = 44"
    by (simp_all add: byte_of_def)
  then show ?thesis
    using q assms(3) by (auto simp: doParseNextToken_def op_return_def Let_def)
qed

lemma doParse_string:
  assumes "reader_ok r" and "rest r = CHR 0x22 # s"
  shows "\<exists>q. doParseNextToken r = tryParseStringToken q \<and> reader_ok q \<and> rest q = s"
proof -
  obtain q where q: "reader_read (mark1 r) = (int (byte_of (CHR 0x22)), q)" "reader_ok q" "rest q = s"
    using read_mark1_Cons [OF assms(1,2)] by metis
  have "byte_of (CHR 0x22) = 34" by (simp add: byte_of_def)
  then show ?thesis using q by (intro exI [of _ q]) (simp add: doParseNextToken_def)
qed

lemma doParse_other:
  assumes "reader_ok r" and "rest r = c # s"
  shows "c \<in> {CHR ''t'', CHR ''f''} \<Longrightarrow>
      \<exists>q. doParseNextToken r = tryParseBooleanLiteral q \<and> reader_ok q \<and> rest q = c # s"
    and "c = CHR ''n'' \<Longrightarrow> \<exists>q. doParseNextToken r = tryParseNullLiteral q \<and> reader_ok q \<and> rest q = c # s"
    and "isDigitOrMinus (int (byte_of c)) \<Longrightarrow>
      \<exists>q. doParseNextToken r = tryParseNumberToken q \<and> reader_ok q \<and> rest q = c # s"
proof -
  have b: "byte_of (CHR ''t'') = 116" "byte_of (CHR ''f'') = 102" "byte_of (CHR ''n'') = 110"
    by (simp_all add: byte_of_def)
  have p: "fst (reader_read (mark1 r)) = int (byte_of c)" using read_after_mark1 [OF assms] by simp
  show "\<exists>q. doParseNextToken r = tryParseBooleanLiteral q \<and> reader_ok q \<and> rest q = c # s"
    if "c \<in> {CHR ''t'', CHR ''f''}"
  proof -
    have "doParseNextToken r = op_bind reader_reset (\<lambda>_. tryParseBooleanLiteral) (snd (reader_read (mark1 r)))"
      using p that b by (auto simp: doParseNextToken_def Let_def)
    then show ?thesis using doParse_reset [OF assms, of tryParseBooleanLiteral] by metis
  qed
  show "\<exists>q. doParseNextToken r = tryParseNullLiteral q \<and> reader_ok q \<and> rest q = c # s" if "c = CHR ''n''"
  proof -
    have "doParseNextToken r = op_bind reader_reset (\<lambda>_. tryParseNullLiteral) (snd (reader_read (mark1 r)))"
      using p that b by (auto simp: doParseNextToken_def Let_def)
    then show ?thesis using doParse_reset [OF assms, of tryParseNullLiteral] by metis
  qed
  show "\<exists>q. doParseNextToken r = tryParseNumberToken q \<and> reader_ok q \<and> rest q = c # s"
    if d: "isDigitOrMinus (int (byte_of c))"
  proof -
    have "int (byte_of c) \<notin> {91, 93, 123, 125, 58, 44, 116, 102, 110, 34}"
      using d by (auto simp: isDigitOrMinus_def)
    then have "doParseNextToken r = op_bind reader_reset (\<lambda>_. tryParseNumberToken) (snd (reader_read (mark1 r)))"
      using p d by (simp add: doParseNextToken_def Let_def)
    then show ?thesis using doParse_reset [OF assms, of tryParseNumberToken] by metis
  qed
qed

text \<open>The lexer before a text, and what it returns there.\<close>

definition lexer_at :: "JsonLexer \<Rightarrow> string \<Rightarrow> bool" where
  "lexer_at l s \<longleftrightarrow> mLexerState l \<in> {LEXER_INITIAL, LEXER_PARSING} \<and> reader_ok (mReader l) \<and> rest (mReader l) = s"

definition token_at :: "string \<Rightarrow> JsonToken \<Rightarrow> string \<Rightarrow> bool" where
  "token_at s t s' \<longleftrightarrow> (\<forall>l. lexer_at l s \<longrightarrow> (\<exists>l'. nextToken l = (Inr (Some t), l') \<and> lexer_at l' s'))"

definition error_at :: "string \<Rightarrow> string \<Rightarrow> bool" where
  "error_at s msg \<longleftrightarrow> (\<forall>l. lexer_at l s \<longrightarrow>
     (\<exists>l'. nextToken l = (Inl (JsonLexerException msg), l') \<and> mLexerState l' = LEXER_ERROR))"

lemma lexer_at_new [simp]: "lexer_at (JsonLexer_new s) s"
  by (simp add: lexer_at_def JsonLexer_new_def)

lemma nextToken_skip:
  assumes "lexer_at l s" and "dropWhile whitespace s = c # t"
  obtains r where "reader_ok r" "rest r = c # t" "nextToken l =
    (case doParseNextToken r of
       (Inl e, r) \<Rightarrow> (Inl e, l\<lparr>mReader := r,
         mLexerState := (case e of JsonLexerException _ \<Rightarrow> LEXER_ERROR | _ \<Rightarrow> LEXER_PARSING)\<rparr>)
     | (Inr token, r) \<Rightarrow> (Inr (Some token), l\<lparr>mReader := r, mLexerState := LEXER_PARSING\<rparr>))"
proof -
  have "reader_ok (mReader l)" "rest (mReader l) = s" "mLexerState l \<noteq> LEXER_ERROR" "mLexerState l \<noteq> LEXER_END_OF_FILE"
    using assms(1) by (auto simp: lexer_at_def)
  moreover obtain r where "consumeWhitespaceCharacters (mReader l) = (Inr False, r)" "reader_ok r" "rest r = c # t"
    using consumeWhitespace_rest [of "mReader l"] calculation assms(2) by auto
  ultimately show ?thesis using that [of r] by (simp add: nextToken_def)
qed

lemma nextToken_end:
  assumes "lexer_at l s" and "dropWhile whitespace s = []"
  shows "\<exists>l'. nextToken l = (Inr None, l') \<and> mLexerState l' = LEXER_END_OF_FILE"
proof -
  have "reader_ok (mReader l)" "rest (mReader l) = s" "mLexerState l \<noteq> LEXER_ERROR" "mLexerState l \<noteq> LEXER_END_OF_FILE"
    using assms(1) by (auto simp: lexer_at_def)
  moreover obtain r where "consumeWhitespaceCharacters (mReader l) = (Inr True, r)"
    using consumeWhitespace_rest [of "mReader l"] calculation assms(2) by auto
  ultimately show ?thesis by (simp add: nextToken_def)
qed

lemma token_atI:
  assumes "dropWhile whitespace s = c # t"
    and "\<And>r. reader_ok r \<Longrightarrow> rest r = c # t \<Longrightarrow>
      \<exists>r'. doParseNextToken r = (Inr tok, r') \<and> reader_ok r' \<and> rest r' = s'"
  shows "token_at s tok s'"
  unfolding token_at_def
proof (intro allI impI)
  fix l
  assume l: "lexer_at l s"
  show "\<exists>l'. nextToken l = (Inr (Some tok), l') \<and> lexer_at l' s'"
  proof (rule nextToken_skip [OF l assms(1)])
    fix r
    assume r: "reader_ok r" "rest r = c # t"
      and n: "nextToken l =
        (case doParseNextToken r of
           (Inl e, r) \<Rightarrow> (Inl e, l\<lparr>mReader := r,
             mLexerState := (case e of JsonLexerException _ \<Rightarrow> LEXER_ERROR | _ \<Rightarrow> LEXER_PARSING)\<rparr>)
         | (Inr token, r) \<Rightarrow> (Inr (Some token), l\<lparr>mReader := r, mLexerState := LEXER_PARSING\<rparr>))"
    obtain r' where "doParseNextToken r = (Inr tok, r')" "reader_ok r'" "rest r' = s'"
      using assms(2) [OF r] by blast
    then show ?thesis using n by (simp add: lexer_at_def)
  qed
qed

lemma error_atI:
  assumes "dropWhile whitespace s = c # t"
    and "\<And>r. reader_ok r \<Longrightarrow> rest r = c # t \<Longrightarrow> \<exists>r'. doParseNextToken r = (Inl (JsonLexerException msg), r')"
  shows "error_at s msg"
  unfolding error_at_def
proof (intro allI impI)
  fix l
  assume l: "lexer_at l s"
  show "\<exists>l'. nextToken l = (Inl (JsonLexerException msg), l') \<and> mLexerState l' = LEXER_ERROR"
  proof (rule nextToken_skip [OF l assms(1)])
    fix r
    assume r: "reader_ok r" "rest r = c # t"
      and n: "nextToken l =
        (case doParseNextToken r of
           (Inl e, r) \<Rightarrow> (Inl e, l\<lparr>mReader := r,
             mLexerState := (case e of JsonLexerException _ \<Rightarrow> LEXER_ERROR | _ \<Rightarrow> LEXER_PARSING)\<rparr>)
         | (Inr token, r) \<Rightarrow> (Inr (Some token), l\<lparr>mReader := r, mLexerState := LEXER_PARSING\<rparr>))"
    obtain r' where "doParseNextToken r = (Inl (JsonLexerException msg), r')"
      using assms(2) [OF r] by blast
    then show ?thesis using n by simp
  qed
qed

lemma token_at_structural:
  assumes "(c, tokenType) \<in> {(CHR ''['', LEFT_SQUARE_BRACKET), (CHR '']'', RIGHT_SQUARE_BRACKET), (CHR ''{'', LEFT_BRACE),
      (CHR ''}'', RIGHT_BRACE), (CHR '':'', COLON), (CHR '','', COMMA)}"
  shows "token_at (c # s) (JsonToken_new tokenType) s"
proof (rule token_atI)
  have "\<not> whitespace c"
    using assms by (auto simp: whitespace_def isJsonWhitespaceCharacter_def byte_of_def)
  then show "dropWhile whitespace (c # s) = c # s" by simp
qed (rule doParse_structural [OF _ _ assms])

lemma token_literal:
  assumes "dropWhile whitespace s = c # t" and "c \<in> {CHR ''t'', CHR ''f'', CHR ''n''}"
    and "takeWhile literal_char (c # t) = lit" and "dropWhile literal_char (c # t) = s'"
    and "(lit, tok) \<in> {(BOOLEAN_TRUE_LITERAL, booleanTrueToken), (BOOLEAN_FALSE_LITERAL, booleanFalseToken), (NULL_LITERAL, nullToken)}"
  shows "token_at s tok s'"
proof (rule token_atI [OF assms(1)])
  fix r
  assume r: "reader_ok r" "rest r = c # t"
  have hd: "lit \<noteq> [] \<Longrightarrow> c = hd lit" using assms(3) by (auto split: if_splits)
  have p: "\<exists>r'. parseLiteral q = (Inr lit, r') \<and> reader_ok r' \<and> rest r' = s'" if "reader_ok q" "rest q = c # t" for q
    using parseLiteral_rest [OF that(1)] that(2) assms(3,4) by simp
  consider "c \<in> {CHR ''t'', CHR ''f''}" | "c = CHR ''n''" using assms(2) by auto
  then show "\<exists>r'. doParseNextToken r = (Inr tok, r') \<and> reader_ok r' \<and> rest r' = s'"
  proof cases
    case 1
    obtain q where q: "doParseNextToken r = tryParseBooleanLiteral q" "reader_ok q" "rest q = c # t"
      using doParse_other(1) [OF r 1] by blast
    have "(lit, tok) \<in> {(BOOLEAN_TRUE_LITERAL, booleanTrueToken), (BOOLEAN_FALSE_LITERAL, booleanFalseToken)}"
      using assms(5) hd 1 by (auto simp: NULL_LITERAL_def)
    then show ?thesis
      using p [OF q(2,3)] q(1) by (auto simp: tryParseBooleanLiteral_def op_bind_def op_return_def
        BOOLEAN_TRUE_LITERAL_def BOOLEAN_FALSE_LITERAL_def)
  next
    case 2
    obtain q where q: "doParseNextToken r = tryParseNullLiteral q" "reader_ok q" "rest q = c # t"
      using doParse_other(2) [OF r 2] by blast
    have "(lit, tok) = (NULL_LITERAL, nullToken)"
      using assms(5) hd 2 by (auto simp: BOOLEAN_TRUE_LITERAL_def BOOLEAN_FALSE_LITERAL_def)
    then show ?thesis
      using p [OF q(2,3)] q(1) by (auto simp: tryParseNullLiteral_def op_bind_def op_return_def)
  qed
qed

lemma tryParseNumber_rest:
  assumes "reader_ok r"
  shows "\<exists>r'. tryParseNumberToken r =
      (if regex_match (takeWhile literal_char (rest r)) NUMBER_PATTERN
       then Inr (createNumberToken (takeWhile literal_char (rest r)))
       else Inl (JsonLexerException (''Invalid number literal '' @ quote # takeWhile literal_char (rest r) @ [quote])), r') \<and>
      reader_ok r' \<and> rest r' = dropWhile literal_char (rest r)"
proof -
  obtain r' where "parseLiteral r = (Inr (takeWhile literal_char (rest r)), r')" "reader_ok r'"
    "rest r' = dropWhile literal_char (rest r)"
    using parseLiteral_rest [OF assms] by blast
  then show ?thesis by (auto simp: tryParseNumberToken_def op_bind_def op_return_def op_throw_def)
qed

lemma token_number:
  assumes "dropWhile whitespace s = c # t" and "isDigitOrMinus (int (byte_of c))"
    and "regex_match (takeWhile literal_char (c # t)) NUMBER_PATTERN"
  shows "token_at s (createNumberToken (takeWhile literal_char (c # t))) (dropWhile literal_char (c # t))"
proof (rule token_atI [OF assms(1)])
  fix r
  assume r: "reader_ok r" "rest r = c # t"
  obtain q where q: "doParseNextToken r = tryParseNumberToken q" "reader_ok q" "rest q = c # t"
    using doParse_other(3) [OF r assms(2)] by blast
  show "\<exists>r'. doParseNextToken r = (Inr (createNumberToken (takeWhile literal_char (c # t))), r') \<and> reader_ok r' \<and>
      rest r' = dropWhile literal_char (c # t)"
    using tryParseNumber_rest [OF q(2)] assms(3) unfolding q(1,3) by presburger
qed

lemma error_number:
  assumes "dropWhile whitespace s = c # t" and "isDigitOrMinus (int (byte_of c))"
    and "\<not> regex_match (takeWhile literal_char (c # t)) NUMBER_PATTERN"
  shows "error_at s (''Invalid number literal '' @ quote # takeWhile literal_char (c # t) @ [quote])"
proof (rule error_atI [OF assms(1)])
  fix r
  assume r: "reader_ok r" "rest r = c # t"
  obtain q where q: "doParseNextToken r = tryParseNumberToken q" "reader_ok q" "rest q = c # t"
    using doParse_other(3) [OF r assms(2)] by blast
  show "\<exists>r'. doParseNextToken r = (Inl (JsonLexerException
      (''Invalid number literal '' @ quote # takeWhile literal_char (c # t) @ [quote])), r')"
    using tryParseNumber_rest [OF q(2)] unfolding q(1,3) if_not_P [OF assms(3)] by blast
qed

text \<open>The body of a string: a text that the loop reads as a value, up to the closing quote.\<close>

definition string_body :: "string \<Rightarrow> string \<Rightarrow> string \<Rightarrow> bool" where
  "string_body s v s' \<longleftrightarrow> (\<forall>r acc. reader_ok r \<longrightarrow> rest r = s \<longrightarrow>
     (\<exists>r'. string_from acc r = (Inr (acc @ v, 34), r') \<and> reader_ok r' \<and> rest r' = s'))"

lemma string_body_quote: "string_body (CHR 0x22 # s) [] s"
  using string_from_quote by (fastforce simp: string_body_def)

lemma string_body_plain:
  assumes "string_body s v s'" and "\<not> isCharacterThatNeedsEscaping (int (byte_of c))"
  shows "string_body (c # s) (c # v) s'"
  unfolding string_body_def
proof (intro allI impI)
  fix r acc
  assume r: "reader_ok r" "rest r = c # s"
  have "\<exists>r'. string_from (acc @ [c]) (r\<lparr>rPos := rPos r + 1\<rparr>) = (Inr ((acc @ [c]) @ v, 34), r') \<and> reader_ok r' \<and> rest r' = s'"
    using assms(1) read_Cons(2,3) [OF r] unfolding string_body_def by blast
  then show "\<exists>r'. string_from acc r = (Inr (acc @ c # v, 34), r') \<and> reader_ok r' \<and> rest r' = s'"
    using string_from_plain [OF r assms(2)] by simp
qed

text \<open>An escape sequence, behind its backslash: the text it stands for.\<close>

definition escape_at :: "string \<Rightarrow> string \<Rightarrow> string \<Rightarrow> bool" where
  "escape_at s v s' \<longleftrightarrow> (\<forall>r acc. reader_ok r \<longrightarrow> rest r = s \<longrightarrow>
     (\<exists>r'. tryParseEscapeSequence acc r = (Inr (acc @ v), r') \<and> reader_ok r' \<and> rest r' = s'))"

lemma string_body_escape:
  assumes "escape_at s v s1" and "string_body s1 w s'"
  shows "string_body (CHR 0x5C # s) (v @ w) s'"
  unfolding string_body_def
proof (intro allI impI)
  fix r acc
  assume r: "reader_ok r" "rest r = CHR 0x5C # s"
  obtain q where q: "tryParseEscapeSequence acc (r\<lparr>rPos := rPos r + 1\<rparr>) = (Inr (acc @ v), q)" "reader_ok q" "rest q = s1"
    using assms(1) read_Cons(2,3) [OF r] unfolding escape_at_def by blast
  have "\<exists>r'. string_from (acc @ v) q = (Inr ((acc @ v) @ w, 34), r') \<and> reader_ok r' \<and> rest r' = s'"
    using assms(2) q(2,3) unfolding string_body_def by blast
  then show "\<exists>r'. string_from acc r = (Inr (acc @ v @ w, 34), r') \<and> reader_ok r' \<and> rest r' = s'"
    using string_from_escape [OF r q(1)] by simp
qed

definition simple_escapes :: "(char \<times> char) list" where
  "simple_escapes = [(CHR 0x22, CHR 0x22), (CHR 0x5C, CHR 0x5C), (CHR ''/'', CHR ''/''), (CHR ''b'', CHR 0x08),
     (CHR ''f'', CHR 0x0C), (CHR ''n'', CHR 0x0A), (CHR ''r'', CHR 0x0D), (CHR ''t'', CHR 0x09)]"

lemma escape_at_simple:
  assumes "(c, d) \<in> set simple_escapes"
  shows "escape_at (c # s) [d] s"
  unfolding escape_at_def
proof (intro allI impI)
  fix r acc
  assume r: "reader_ok r" "rest r = c # s"
  have "tryParseEscapeSequence acc r = (Inr (acc @ [d]), r\<lparr>rPos := rPos r + 1\<rparr>)"
    using escape_rest [OF r, of acc] assms by (auto simp: simple_escapes_def op_return_def)
  then show "\<exists>r'. tryParseEscapeSequence acc r = (Inr (acc @ [d]), r') \<and> reader_ok r' \<and> rest r' = s"
    using read_Cons(2,3) [OF r] by blast
qed

text \<open>A unicode escape that is no surrogate stands for the bytes of its number, without a leading zero byte.\<close>

definition unicode_bytes :: "string \<Rightarrow> string" where
  "unicode_bytes ds =
     (let n = digits_value 16 ds in
      (if char_of (n div 256) \<noteq> CHR 0x00 then [char_of (n div 256)] else []) @ [char_of (n mod 256)])"

lemma escape_at_unicode:
  assumes "list_all is_hex ds" and "length ds = 4"
    and "\<not> isHighSurrogateCharacter (int (digits_value 16 ds))" and "\<not> isLowSurrogateCharacter (int (digits_value 16 ds))"
  shows "escape_at (CHR ''u'' # ds @ x # s) (unicode_bytes ds) (x # s)"
  unfolding escape_at_def
proof (intro allI impI)
  fix r acc
  assume r: "reader_ok r" "rest r = CHR ''u'' # ds @ x # s"
  have "tryParseEscapeSequence acc r = tryParseUnicodeEscapeSequence acc (r\<lparr>rPos := rPos r + 1\<rparr>)"
    using escape_rest [OF r, of acc] by simp
  then show "\<exists>r'. tryParseEscapeSequence acc r = (Inr (acc @ unicode_bytes ds), r') \<and> reader_ok r' \<and> rest r' = x # s"
    using unicode_rest [OF read_Cons(2,3) [OF r] assms, of acc] by (simp only: unicode_bytes_def Let_def)
qed

lemma token_string:
  assumes "string_body s v s'"
  shows "token_at (CHR 0x22 # s) (createStringToken v) s'"
proof (rule token_atI)
  have "\<not> whitespace (CHR 0x22)" by (simp add: whitespace_def isJsonWhitespaceCharacter_def byte_of_def)
  then show "dropWhile whitespace (CHR 0x22 # s) = CHR 0x22 # s" by simp
next
  fix r
  assume r: "reader_ok r" "rest r = CHR 0x22 # s"
  obtain q where q: "doParseNextToken r = tryParseStringToken q" "reader_ok q" "rest q = s"
    using doParse_string [OF r] by blast
  obtain p where "string_from [] q = (Inr ([] @ v, 34), p)" "reader_ok p" "rest p = s'"
    using assms q(2,3) unfolding string_body_def by blast
  then show "\<exists>r'. doParseNextToken r = (Inr (createStringToken v), r') \<and> reader_ok r' \<and> rest r' = s'"
    unfolding q(1) tryParseStringToken_from by (simp add: op_bind_def op_return_def EOF_def)
qed

subsection \<open>Every token consumes a character\<close>

lemma reset_marked:
  assumes "reader_reset r = (Inr (), r')"
  shows "rInput r' = rInput r \<and> (rPos r' = rPos r \<or> int (rPos r') = mMarkedPosition r)"
  using assms by (auto simp: reader_reset_def stream_seekg_def Let_def split: if_splits)

lemma read_mark1_char:
  assumes "reader_read (mark1 r) = (c, q)" and "c \<noteq> EOF"
  shows "rPos q = rPos r + 1" "mMarkedPosition q = int (rPos r)" "rInput q = rInput r" "rPos r < length (rInput r)"
  using assms by (auto simp: reader_read_def mark1_eq stream_tellg_def split: if_splits)

lemma parseLiteral_loop_forward:
  assumes "parseLiteral_loop lit c r = ((lit', c'), r')" and "n + length lit \<le> rPos r"
    and "c \<noteq> EOF \<longrightarrow> n + length lit + 1 \<le> rPos r \<and> int (n + length lit) \<le> mMarkedPosition r"
  shows "rInput r' = rInput r \<and> n + length lit' \<le> rPos r' \<and> (c' \<noteq> EOF \<longrightarrow> int (n + length lit') \<le> mMarkedPosition r')"
  using assms
proof (induction lit c r rule: parseLiteral_loop.induct)
  case (1 lit c r)
  show ?case
  proof (cases "c \<noteq> EOF \<and> \<not> isJsonWhitespaceCharacter c \<and> \<not> isJsonStructuralCharacter c")
    case True
    obtain d q where d: "reader_read (mark1 r) = (d, q)" by fastforce
    have "parseLiteral_loop (lit @ [to_char c]) d q = ((lit', c'), r')"
      using "1.prems"(1) True d by (subst (asm) parseLiteral_loop.simps) (simp add: Let_def)
    moreover have "rPos r \<le> rPos q" "rInput q = rInput r" using read_advanced [OF d, of "rPos r"] by simp_all
    moreover have "d \<noteq> EOF \<Longrightarrow> rPos q = rPos r + 1 \<and> mMarkedPosition q = int (rPos r)"
      using read_mark1_char [OF d] by simp
    ultimately show ?thesis using "1.IH" [OF True] d "1.prems"(3) True by auto
  next
    case False
    then have "lit' = lit \<and> c' = c \<and> r' = r"
      using "1.prems"(1) by (subst (asm) parseLiteral_loop.simps) auto
    then show ?thesis using "1.prems" by auto
  qed
qed

lemma parseLiteral_forward:
  assumes "parseLiteral r = (Inr lit, r')"
  shows "rInput r' = rInput r \<and> rPos r + length lit \<le> rPos r'"
proof -
  obtain c q where c: "reader_read (mark1 r) = (c, q)" by fastforce
  obtain lit' d p where l: "parseLiteral_loop [] c q = ((lit', d), p)" by (metis prod.collapse)
  have q: "rPos r \<le> rPos q" "rInput q = rInput r" using read_advanced [OF c, of "rPos r"] by simp_all
  have p: "rInput p = rInput r \<and> rPos r + length lit' \<le> rPos p \<and> (d \<noteq> EOF \<longrightarrow> int (rPos r + length lit') \<le> mMarkedPosition p)"
    using parseLiteral_loop_forward [OF l, of "rPos r"] q read_mark1_char [OF c] by auto
  show ?thesis
  proof (cases "d = EOF")
    case True
    then show ?thesis using assms c l p by (simp add: parseLiteral_def)
  next
    case False
    obtain x t where x: "reader_reset p = (x, t)" by fastforce
    have "x = Inr () \<and> t = r' \<and> lit' = lit"
      using assms c l False x by (cases x) (auto simp: parseLiteral_def op_bind_def op_return_def)
    then show ?thesis using reset_marked [of p r'] x p False by auto
  qed
qed

lemma consumeWhitespace_loop_forward:
  assumes "consumeWhitespace_loop r = (c, r')"
  shows "rInput r' = rInput r \<and> rPos r \<le> rPos r' \<and> (c \<noteq> EOF \<longrightarrow> int (rPos r) \<le> mMarkedPosition r')"
  using assms
proof (induction r rule: consumeWhitespace_loop.induct)
  case (1 r)
  obtain d q where d: "reader_read (mark1 r) = (d, q)" by fastforce
  have q: "rPos r \<le> rPos q" "rInput q = rInput r" using read_advanced [OF d, of "rPos r"] by simp_all
  show ?case
  proof (cases "d \<noteq> EOF \<and> isJsonWhitespaceCharacter d")
    case True
    then have "consumeWhitespace_loop q = (c, r')"
      using "1.prems" d by (subst (asm) consumeWhitespace_loop.simps) simp
    then show ?thesis using "1.IH" d True q by fastforce
  next
    case False
    then have "c = d \<and> r' = q" using "1.prems" d by (subst (asm) consumeWhitespace_loop.simps) auto
    then show ?thesis using q read_mark1_char(2) [OF d] by auto
  qed
qed

lemma consumeWhitespace_forward:
  assumes "consumeWhitespaceCharacters r = (Inr b, r')"
  shows "rInput r' = rInput r \<and> rPos r \<le> rPos r'"
proof -
  obtain c q where c: "consumeWhitespace_loop r = (c, q)" by fastforce
  note f = consumeWhitespace_loop_forward [OF c]
  show ?thesis
  proof (cases "c = EOF")
    case True
    then show ?thesis using assms c f by (simp add: consumeWhitespaceCharacters_def)
  next
    case False
    obtain x t where x: "reader_reset q = (x, t)" by fastforce
    have "x = Inr () \<and> t = r'"
      using assms c False x by (cases x) (auto simp: consumeWhitespaceCharacters_def op_bind_def op_return_def)
    then show ?thesis using reset_marked [of q r'] x f False by auto
  qed
qed

lemma forward_string_loop:
  "string_loop s c r = (x, r') \<Longrightarrow> rPos r \<le> rPos r' \<and> rInput r' = rInput r"
proof (induction s c r rule: string_loop.induct)
  case (1 s c r)
  consider (stop) "c = EOF \<or> c = 34" | (escape) "c \<noteq> EOF \<and> c \<noteq> 34" "isEscapeCharacter c"
    | (control) "c \<noteq> EOF \<and> c \<noteq> 34" "\<not> isEscapeCharacter c" "isCharacterThatNeedsEscaping c"
    | (plain) "c \<noteq> EOF \<and> c \<noteq> 34" "\<not> isEscapeCharacter c" "\<not> isCharacterThatNeedsEscaping c"
    by blast
  then show ?case
  proof cases
    case stop
    then show ?thesis using "1.prems" by (subst (asm) string_loop.simps) auto
  next
    case escape
    obtain y q where y: "tryParseEscapeSequence s r = (y, q)" by fastforce
    have q: "rPos r \<le> rPos q \<and> rInput q = rInput r" using forwardD [OF forward_escape y] .
    show ?thesis
    proof (cases y)
      case (Inl e)
      then show ?thesis using "1.prems" escape y q by (subst (asm) string_loop.simps) auto
    next
      case (Inr s')
      obtain d p where d: "reader_read q = (d, p)" by fastforce
      have p: "rPos r \<le> rPos p \<and> rInput p = rInput q" using read_advanced [OF d, of "rPos r"] q by simp
      have "string_loop s' d p = (x, r')"
        using "1.prems" escape y Inr d by (subst (asm) string_loop.simps) (simp add: Let_def)
      then have "rPos p \<le> rPos r' \<and> rInput r' = rInput p"
        using "1.IH"(1) [OF escape y [symmetric] Inr, of "(d, p)"] d by simp
      then show ?thesis using p q by simp
    qed
  next
    case control
    then show ?thesis using "1.prems" by (subst (asm) string_loop.simps) auto
  next
    case plain
    obtain d p where d: "reader_read r = (d, p)" by fastforce
    have p: "rPos r \<le> rPos p \<and> rInput p = rInput r" using read_advanced [OF d, of "rPos r"] by simp
    have "string_loop (s @ [to_char c]) d p = (x, r')"
      using "1.prems" plain d by (subst (asm) string_loop.simps) (simp add: Let_def)
    then have "rPos p \<le> rPos r' \<and> rInput r' = rInput p"
      using "1.IH"(2) [OF plain, of "(d, p)"] d by simp
    then show ?thesis using p by simp
  qed
qed

lemma forward_string_token: "forward tryParseStringToken"
  unfolding tryParseStringToken_def Let_def
  by (rule forward_read, rule forward_bind)
    (auto simp: forward_def op_return_def op_throw_def dest: forward_string_loop split: if_splits)

lemma op_bind_Inr_D: "op_bind m f s = (Inr b, t) \<Longrightarrow> \<exists>a s'. m s = (Inr a, s') \<and> f a s' = (Inr b, t)"
  by (auto simp: op_bind_def split: prod.splits sum.splits)

lemma literal_progress:
  assumes "m \<in> {tryParseBooleanLiteral, tryParseNullLiteral, tryParseNumberToken}" and "m p = (Inr t, r')"
  shows "rInput r' = rInput p \<and> rPos p < rPos r'"
proof -
  have ne: "\<not> regex_match [] NUMBER_PATTERN" by code_simp
  consider "tryParseBooleanLiteral p = (Inr t, r')" | "tryParseNullLiteral p = (Inr t, r')"
    | "tryParseNumberToken p = (Inr t, r')"
    using assms by auto
  then obtain lit where l: "parseLiteral p = (Inr lit, r')" and n: "lit \<noteq> []"
  proof cases
    case 1
    then obtain lit q where "parseLiteral p = (Inr lit, q)" "lit \<noteq> []" "q = r'"
      by (auto simp: tryParseBooleanLiteral_def op_return_def op_throw_def BOOLEAN_TRUE_LITERAL_def
        BOOLEAN_FALSE_LITERAL_def dest!: op_bind_Inr_D split: if_splits)
    then show ?thesis using that by blast
  next
    case 2
    then obtain lit q where "parseLiteral p = (Inr lit, q)" "lit \<noteq> []" "q = r'"
      by (auto simp: tryParseNullLiteral_def op_return_def op_throw_def NULL_LITERAL_def
        dest!: op_bind_Inr_D split: if_splits)
    then show ?thesis using that by blast
  next
    case 3
    then obtain lit q where "parseLiteral p = (Inr lit, q)" "regex_match lit NUMBER_PATTERN" "q = r'"
      by (auto simp: tryParseNumberToken_def op_return_def op_throw_def dest!: op_bind_Inr_D split: if_splits)
    then show ?thesis using that ne by metis
  qed
  then show ?thesis using parseLiteral_forward [OF l] by (cases lit) auto
qed

lemma doParse_progress:
  assumes "doParseNextToken r = (Inr t, r')"
  shows "rInput r' = rInput r \<and> rPos r < rPos r' \<and> rPos r < length (rInput r)"
proof -
  obtain c q where c: "reader_read (mark1 r) = (c, q)" by fastforce
  have other: "doParseNextToken r = op_bind reader_reset (\<lambda>_. op_bind parseLiteral (\<lambda>literalToken.
        op_throw (JsonLexerException (unexpectedLiteralTokenMessage literalToken)))) q"
    if "c \<notin> {91, 93, 123, 125, 58, 44, 116, 102, 110, 34}" "\<not> isDigitOrMinus c"
    using that c by (simp add: doParseNextToken_def)
  have throws: "\<not> (c \<notin> {91, 93, 123, 125, 58, 44, 116, 102, 110, 34} \<and> \<not> isDigitOrMinus c)"
  proof
    assume o: "c \<notin> {91, 93, 123, 125, 58, 44, 116, 102, 110, 34} \<and> \<not> isDigitOrMinus c"
    then have "op_bind reader_reset (\<lambda>_. op_bind parseLiteral (\<lambda>literalToken.
        op_throw (JsonLexerException (unexpectedLiteralTokenMessage literalToken)))) q = (Inr t, r')"
      using other assms by simp
    then show False by (auto simp: op_throw_def dest!: op_bind_Inr_D)
  qed
  then have "c \<noteq> EOF" by (auto simp: EOF_def isDigitOrMinus_def)
  note q = read_mark1_char [OF c this]
  have reset: "?thesis" if b: "op_bind reader_reset (\<lambda>_. m) q = (Inr t, r')"
    and m: "m \<in> {tryParseBooleanLiteral, tryParseNullLiteral, tryParseNumberToken}" for m
  proof -
    obtain p where p: "reader_reset q = (Inr (), p)" "m p = (Inr t, r')"
      using op_bind_Inr_D [OF b] by auto
    show ?thesis using literal_progress [OF m p(2)] reset_marked [OF p(1)] q by auto
  qed
  consider (structural) "c \<in> {91, 93, 123, 125, 58, 44}" | (string) "c = 34" | (bool) "c \<in> {116, 102}" | (null) "c = 110"
    | (number) "c \<notin> {91, 93, 123, 125, 58, 44, 116, 102, 110, 34}" "isDigitOrMinus c"
    using throws by auto
  then show ?thesis
  proof cases
    case structural
    then have "r' = q" using assms c by (auto simp: doParseNextToken_def op_return_def)
    then show ?thesis using q by simp
  next
    case string
    then have "tryParseStringToken q = (Inr t, r')" using assms c by (simp add: doParseNextToken_def)
    then show ?thesis using forwardD [OF forward_string_token] q by fastforce
  next
    case bool
    then have "op_bind reader_reset (\<lambda>_. tryParseBooleanLiteral) q = (Inr t, r')"
      using assms c by (auto simp: doParseNextToken_def)
    then show ?thesis by (rule reset) simp
  next
    case null
    then have "op_bind reader_reset (\<lambda>_. tryParseNullLiteral) q = (Inr t, r')"
      using assms c by (simp add: doParseNextToken_def)
    then show ?thesis by (rule reset) simp
  next
    case number
    then have "op_bind reader_reset (\<lambda>_. tryParseNumberToken) q = (Inr t, r')"
      using assms c by (simp add: doParseNextToken_def)
    then show ?thesis by (rule reset) simp
  qed
qed

lemma nextToken_progress:
  assumes "nextToken l = (Inr (Some t), l')"
  shows "rInput (mReader l') = rInput (mReader l) \<and> remaining (mReader l') < remaining (mReader l)"
proof -
  obtain r r' where c: "consumeWhitespaceCharacters (mReader l) = (Inr False, r)"
    and d: "doParseNextToken r = (Inr t, r')" and l': "mReader l' = r'"
    using assms by (auto simp: nextToken_def split: if_splits prod.splits sum.splits bool.splits)
  show ?thesis
    using consumeWhitespace_forward [OF c] doParse_progress [OF d] unfolding l' remaining_def by auto
qed

subsection \<open>The exceptions of the lexer\<close>

definition lexer_exception :: "cpp_exception \<Rightarrow> bool" where
  "lexer_exception e \<longleftrightarrow> (\<exists>s. e = JsonLexerException s \<or> e = LogicError s)"

definition lexer_throws :: "(DefaultResettableReader, 'a) cpp_op \<Rightarrow> bool" where
  "lexer_throws m \<longleftrightarrow> (\<forall>r e r'. m r = (Inl e, r') \<longrightarrow> lexer_exception e)"

named_theorems lexer_throws_intros \<open>operations that throw the exceptions of the lexer only\<close>

lemma lexer_throws_bind [lexer_throws_intros]:
  "lexer_throws m \<Longrightarrow> (\<And>a. lexer_throws (f a)) \<Longrightarrow> lexer_throws (op_bind m f)"
  unfolding lexer_throws_def by (metis op_bind_InlE)

lemma lexer_throws_basic [lexer_throws_intros]:
  "lexer_throws (op_return a)" "lexer_throws (op_throw (JsonLexerException s))" "lexer_throws reader_reset"
  by (auto simp: lexer_throws_def lexer_exception_def op_return_def op_throw_def reader_reset_def Let_def split: if_splits)

lemma lexer_throws_if [lexer_throws_intros]: "lexer_throws m \<Longrightarrow> lexer_throws n \<Longrightarrow> lexer_throws (if b then m else n)"
  by simp

lemma lexer_throws_read:
  "(\<And>c. lexer_throws (f c)) \<Longrightarrow> lexer_throws (\<lambda>r. f (fst (reader_read r)) (snd (reader_read r)))"
  "(\<And>c. lexer_throws (f c)) \<Longrightarrow> lexer_throws (\<lambda>r. f (fst (reader_read (mark1 r))) (snd (reader_read (mark1 r))))"
  by (auto simp: lexer_throws_def)

lemma lexer_throwsD: "lexer_throws m \<Longrightarrow> m r = (Inl e, r') \<Longrightarrow> lexer_exception e"
  by (auto simp: lexer_throws_def)

lemma lexer_throws_literal [lexer_throws_intros]: "lexer_throws parseLiteral" "lexer_throws consumeWhitespaceCharacters"
  using lexer_throws_basic(3)
  by (auto simp: lexer_throws_def parseLiteral_def consumeWhitespaceCharacters_def Let_def op_bind_def op_return_def
    split: if_splits prod.splits sum.splits)

lemma unicodeEscape_loop_throws: "unicodeEscape_loop ds c r = (Inl e, r') \<Longrightarrow> lexer_exception e"
proof (induction ds c r rule: unicodeEscape_loop.induct)
  case (1 ds c r)
  show ?case
  proof (cases "c \<noteq> EOF \<and> length ds < 4 \<and> isHexCharacter c")
    case True
    then show ?thesis
      using "1.prems" "1.IH" by (subst (asm) unicodeEscape_loop.simps) (auto simp: Let_def)
  next
    case False
    then show ?thesis
      using "1.prems" by (subst (asm) unicodeEscape_loop.simps) (auto simp: lexer_exception_def split: if_splits)
  qed
qed

lemma lexer_throws_escapes [lexer_throws_intros]:
  "lexer_throws readUnicodeEscapeSequence" "lexer_throws tryParseLowSurrogateChar"
  "lexer_throws (tryParseUnicodeEscapeSequence s)" "lexer_throws (tryParseEscapeSequence s)"
proof -
  have u: "lexer_throws (unicodeEscape_loop ds c)" for ds c
    using unicodeEscape_loop_throws by (auto simp: lexer_throws_def)
  show r: "lexer_throws readUnicodeEscapeSequence"
    unfolding readUnicodeEscapeSequence_def Let_def
    by (rule lexer_throws_read(1)) (auto intro!: lexer_throws_intros u)
  have f: "lexer_throws (op_bind reader_reset (\<lambda>_. op_return (None :: int option)))"
    by (intro lexer_throws_intros)
  have g: "lexer_throws (op_bind readUnicodeEscapeSequence (\<lambda>digits. op_return (Some (int (digits_value 16 digits)))))"
    by (intro lexer_throws_intros r)
  show l: "lexer_throws tryParseLowSurrogateChar"
    using f g unfolding tryParseLowSurrogateChar_def Let_def lexer_throws_def by (auto split: if_splits)
  show q: "lexer_throws (tryParseUnicodeEscapeSequence s)" for s
    unfolding tryParseUnicodeEscapeSequence_def Let_def
    by (intro lexer_throws_intros r l) (auto intro!: lexer_throws_intros split: option.split)
  show "lexer_throws (tryParseEscapeSequence s)"
    unfolding tryParseEscapeSequence_def Let_def unterminated_def
    by (rule lexer_throws_read(1)) (intro lexer_throws_intros q)
qed

lemma string_loop_throws: "string_loop s c r = (Inl e, r') \<Longrightarrow> lexer_exception e"
proof (induction s c r rule: string_loop.induct)
  case (1 s c r)
  consider (stop) "c = EOF \<or> c = 34" | (escape) "c \<noteq> EOF \<and> c \<noteq> 34" "isEscapeCharacter c"
    | (control) "c \<noteq> EOF \<and> c \<noteq> 34" "\<not> isEscapeCharacter c" "isCharacterThatNeedsEscaping c"
    | (plain) "c \<noteq> EOF \<and> c \<noteq> 34" "\<not> isEscapeCharacter c" "\<not> isCharacterThatNeedsEscaping c"
    by blast
  then show ?case
  proof cases
    case stop
    then show ?thesis using "1.prems" by (subst (asm) string_loop.simps) auto
  next
    case escape
    obtain y q where y: "tryParseEscapeSequence s r = (y, q)" by fastforce
    show ?thesis
    proof (cases y)
      case (Inl f)
      then have "f = e" using "1.prems" escape y by (subst (asm) string_loop.simps) auto
      then show ?thesis using lexer_throws_escapes(4) y Inl unfolding lexer_throws_def by blast
    next
      case (Inr s')
      have "string_loop s' (fst (reader_read q)) (snd (reader_read q)) = (Inl e, r')"
        using "1.prems" escape y Inr by (subst (asm) string_loop.simps) (simp add: Let_def)
      then show ?thesis using "1.IH"(1) [OF escape y [symmetric] Inr refl] by simp
    qed
  next
    case control
    then show ?thesis using "1.prems" by (subst (asm) string_loop.simps) (auto simp: lexer_exception_def)
  next
    case plain
    have "string_loop (s @ [to_char c]) (fst (reader_read r)) (snd (reader_read r)) = (Inl e, r')"
      using "1.prems" plain by (subst (asm) string_loop.simps) (simp add: Let_def)
    then show ?thesis using "1.IH"(2) [OF plain refl] by simp
  qed
qed

lemma lexer_throws_token: "lexer_throws doParseNextToken"
proof -
  have l: "lexer_throws (string_loop s c)" for s c
    using string_loop_throws by (auto simp: lexer_throws_def)
  have s: "lexer_throws tryParseStringToken"
    unfolding tryParseStringToken_def Let_def unterminated_def
    by (rule lexer_throws_read(1)) (auto intro!: lexer_throws_intros l)
  have t: "lexer_throws tryParseBooleanLiteral" "lexer_throws tryParseNullLiteral" "lexer_throws tryParseNumberToken"
    unfolding tryParseBooleanLiteral_def tryParseNullLiteral_def tryParseNumberToken_def by (intro lexer_throws_intros)+
  show ?thesis
    unfolding doParseNextToken_def Let_def
    by (rule lexer_throws_read(2)) (intro lexer_throws_intros s t)
qed

lemma nextToken_throws:
  assumes "nextToken l = (Inl e, l')"
  shows "lexer_exception e"
proof -
  have "lexer_exception (JsonLexerException s)" for s by (simp add: lexer_exception_def)
  then show ?thesis
    using assms
    by (auto simp: nextToken_def split: if_splits prod.splits sum.splits bool.splits
      dest: lexer_throwsD [OF lexer_throws_literal(2)] lexer_throwsD [OF lexer_throws_token])
qed

subsection \<open>Properties\<close>

text \<open>A text that begins with a digit or a minus sign, after white space, is lexed as a
  number exactly when the characters up to the next white space or structural character are a
  minus sign at most, an integer without leading zeros, and optionally a fraction and an
  exponent; the token holds these characters and the lexer goes on behind them. Otherwise
  the lexer throws and stays in its error state.\<close>

theorem number_token_iff_grammar:
  assumes "dropWhile whitespace s = c # t" and "isDigitOrMinus (int (byte_of c))"
    and "takeWhile literal_char (c # t) = lit"
  shows "if \<exists>ip f e. (lit = ip @ f @ e \<or> lit = CHR ''-'' # ip @ f @ e) \<and> integer_part ip \<and> fraction_part f \<and> exponent_part e
    then token_at s (createNumberToken lit) (dropWhile literal_char (c # t))
    else error_at s (''Invalid number literal '' @ quote # lit @ [quote])"
  unfolding number_literal_parts [symmetric]
  using token_number [OF assms(1,2)] error_number [OF assms(1,2)] assms(3) by simp

lemma number_token_iff_grammar_witness:
  "token_at '' -10.5e+3,'' (createNumberToken ''-10.5e+3'') '','' \<and>
   error_at ''-01]'' (''Invalid number literal '' @ quote # ''-01'' @ [quote])"
proof -
  have e: "dropWhile whitespace '' -10.5e+3,'' = CHR ''-'' # ''10.5e+3,''" "isDigitOrMinus (int (byte_of (CHR ''-'')))"
    "takeWhile literal_char (CHR ''-'' # ''10.5e+3,'') = ''-10.5e+3''"
    "dropWhile literal_char (CHR ''-'' # ''10.5e+3,'') = '',''"
    "regex_match ''-10.5e+3'' NUMBER_PATTERN"
    "dropWhile whitespace ''-01]'' = CHR ''-'' # ''01]''"
    "takeWhile literal_char (CHR ''-'' # ''01]'') = ''-01''" "\<not> regex_match ''-01'' NUMBER_PATTERN"
    by code_simp+
  have "token_at '' -10.5e+3,'' (createNumberToken ''-10.5e+3'') '',''"
    using number_token_iff_grammar [OF e(1,2,3)] e(4,5) unfolding number_literal_parts [symmetric] by simp
  moreover have "error_at ''-01]'' (''Invalid number literal '' @ quote # ''-01'' @ [quote])"
    using number_token_iff_grammar [OF e(6,2,7)] e(8) unfolding number_literal_parts [symmetric] by simp
  ultimately show ?thesis ..
qed

text \<open>A lexer that is in its error state throws on every later call and does not change.
  A lexer at the end of its input returns the end again and does not change.\<close>

theorem lexer_end_states:
  "(mLexerState l = LEXER_ERROR \<longrightarrow> nextToken l = (Inl (JsonLexerException ''JSON Lexer is in erroneous state''), l)) \<and>
   (mLexerState l = LEXER_END_OF_FILE \<longrightarrow> nextToken l = (Inr None, l)) \<and>
   (nextToken l = (Inl (JsonLexerException msg), l') \<longrightarrow> mLexerState l' = LEXER_ERROR) \<and>
   (nextToken l = (Inr None, l') \<longrightarrow> mLexerState l' = LEXER_END_OF_FILE)"
  by (auto simp: nextToken_def split: if_splits prod.splits sum.splits bool.splits)

lemma lexer_end_states_witness:
  "(\<exists>l. mLexerState l = LEXER_ERROR \<and> nextToken l = (Inl (JsonLexerException ''JSON Lexer is in erroneous state''), l)) \<and>
   (\<exists>l. mLexerState l = LEXER_END_OF_FILE \<and> nextToken l = (Inr None, l))"
proof
  let ?e = "(JsonLexer_new [])\<lparr>mLexerState := LEXER_ERROR\<rparr>"
  show "\<exists>l. mLexerState l = LEXER_ERROR \<and> nextToken l = (Inl (JsonLexerException ''JSON Lexer is in erroneous state''), l)"
    using lexer_end_states [of ?e] by (intro exI [of _ ?e]) simp
  let ?f = "(JsonLexer_new [])\<lparr>mLexerState := LEXER_END_OF_FILE\<rparr>"
  show "\<exists>l. mLexerState l = LEXER_END_OF_FILE \<and> nextToken l = (Inr None, l)"
    using lexer_end_states [of ?f] by (intro exI [of _ ?f]) simp
qed

subsubsection \<open>Surrogates\<close>

lemma backslash_byte: "byte_of (CHR 0x5C) = 92" "byte_of (CHR ''u'') = 117" "byte_of (CHR 0x22) = 34"
  by (simp_all add: byte_of_def)

lemma lowSurrogate_rest:
  assumes "reader_ok r" and "rest r = CHR 0x5C # CHR ''u'' # ds @ x # t" and "list_all is_hex ds" and "length ds = 4"
  shows "\<exists>r'. tryParseLowSurrogateChar r = (Inr (Some (int (digits_value 16 ds))), r') \<and> reader_ok r' \<and> rest r' = x # t"
proof -
  obtain q where q: "reader_read (mark1 r) = (int (byte_of (CHR 0x5C)), q)" "reader_ok q" "rest q = CHR ''u'' # ds @ x # t"
    using read_mark1_Cons [OF assms(1,2)] by metis
  obtain r' where "readUnicodeEscapeSequence (q\<lparr>rPos := rPos q + 1\<rparr>) = (Inr ds, r')" "reader_ok r'" "rest r' = x # t"
    using readUnicode_rest [OF read_Cons(2,3) [OF q(2,3)] assms(3,4)] by blast
  then show ?thesis
    using q(1) read_Cons(1) [OF q(2,3)]
    by (simp add: tryParseLowSurrogateChar_def backslash_byte op_bind_def op_return_def)
qed

text \<open>The two characters behind a high surrogate are looked at, but only one may be given back.\<close>

lemma lowSurrogate_no_u:
  assumes "reader_ok r" and "rest r = CHR 0x5C # c # t" and "c \<noteq> CHR ''u''"
  shows "\<exists>r'. tryParseLowSurrogateChar r = (Inl (LogicError ''Cannot reset beyond 1 characters. Tried to reset 2 characters''), r')"
proof -
  have m: "\<not> rFail r" "rPos r < length (rInput r)" using rest_Cons [OF assms(1,2)] by simp_all
  obtain q where q: "reader_read (mark1 r) = (int (byte_of (CHR 0x5C)), q)" "reader_ok q" "rest q = c # t"
    "q = (mark1 r)\<lparr>rPos := rPos r + 1\<rparr>"
    using read_mark1_Cons [OF assms(1,2)] by metis
  have c: "byte_of c \<noteq> 117" using assms(3) by (metis backslash_byte(2) byte_of_inject)
  have one: "show_int 1 = ''1''" "show_int 2 = ''2''" by code_simp+
  have "reader_reset (q\<lparr>rPos := rPos q + 1\<rparr>) = (Inl (LogicError ''Cannot reset beyond 1 characters. Tried to reset 2 characters''),
      q\<lparr>rPos := rPos q + 1\<rparr>)"
    unfolding q(4) using m by (simp add: reader_reset_def mark1_eq stream_tellg_def one)
  then show ?thesis
    using q(1) read_Cons(1) [OF q(2,3)] c
    by (simp add: tryParseLowSurrogateChar_def backslash_byte op_bind_def)
qed

lemma escape_at_surrogates:
  assumes "list_all is_hex ds" and "length ds = 4" and "isHighSurrogateCharacter (int (digits_value 16 ds))"
    and "list_all is_hex es" and "length es = 4" and "isLowSurrogateCharacter (int (digits_value 16 es))"
  shows "escape_at (CHR ''u'' # ds @ CHR 0x5C # CHR ''u'' # es @ x # s)
    (convertSurrogatePair (int (digits_value 16 ds)) (int (digits_value 16 es))) (x # s)"
  unfolding escape_at_def
proof (intro allI impI)
  fix r acc
  assume r: "reader_ok r" "rest r = CHR ''u'' # ds @ CHR 0x5C # CHR ''u'' # es @ x # s"
  have e: "tryParseEscapeSequence acc r = tryParseUnicodeEscapeSequence acc (r\<lparr>rPos := rPos r + 1\<rparr>)"
    using escape_rest [OF r, of acc] by simp
  obtain q where q: "readUnicodeEscapeSequence (r\<lparr>rPos := rPos r + 1\<rparr>) = (Inr ds, q)" "reader_ok q"
    "rest q = CHR 0x5C # CHR ''u'' # es @ x # s"
    using readUnicode_rest [OF read_Cons(2,3) [OF r] assms(1,2)] by blast
  obtain r' where "tryParseLowSurrogateChar q = (Inr (Some (int (digits_value 16 es))), r')" "reader_ok r'" "rest r' = x # s"
    using lowSurrogate_rest [OF q(2,3) assms(4,5)] by blast
  then show "\<exists>r'. tryParseEscapeSequence acc r = (Inr (acc @ convertSurrogatePair (int (digits_value 16 ds)) (int (digits_value 16 es))), r') \<and>
      reader_ok r' \<and> rest r' = x # s"
    unfolding e using q(1) assms(3,6)
    by (simp add: tryParseUnicodeEscapeSequence_def op_bind_def op_return_def Let_def)
qed

text \<open>In a string token two unicode escapes that are a surrogate pair become the four
  bytes of the UTF-8 encoding of the character 0x10000 + (high - 0xD800) * 0x400 + (low - 0xDC00).
  The digits may be in either case.\<close>

theorem surrogate_pair_token:
  assumes "list_all is_hex hi" and "length hi = 4" and "isHighSurrogateCharacter (int (digits_value 16 hi))"
    and "list_all is_hex lo" and "length lo = 4" and "isLowSurrogateCharacter (int (digits_value 16 lo))"
    and "string_body s v s'"
  shows "token_at (quote # backslash # CHR ''u'' # hi @ backslash # CHR ''u'' # lo @ s)
    (createStringToken (convertSurrogatePair (int (digits_value 16 hi)) (int (digits_value 16 lo)) @ v)) s'"
proof (cases s)
  case Nil
  have "\<not> string_body [] v s'"
  proof
    assume "string_body [] v s'"
    then obtain r' where "string_from [] (reader_new []) = (Inr ([] @ v, 34), r')"
      using reader_new_ok [of "[]"] unfolding string_body_def by blast
    moreover have "string_from [] (reader_new []) = (Inr ([], EOF), snd (reader_read (reader_new [])))"
      using read_Nil(1) [of "reader_new []"] reader_new_ok [of "[]"]
      unfolding string_from_def by (subst string_loop.simps) simp
    ultimately show False by (simp add: EOF_def)
  qed
  then show ?thesis using assms(7) Nil by simp
next
  case (Cons x t)
  show ?thesis
    unfolding quote_def backslash_def Cons
    by (rule token_string, rule string_body_escape [OF escape_at_surrogates [OF assms(1-6)]])
      (use assms(7) Cons in simp)
qed

lemma surrogate_pair_token_witness:
  "token_at (quote # backslash # ''uD834'' @ backslash # ''udd1E'' @ ''!'' @ [quote])
    (createStringToken ([CHR 0xF0, CHR 0x9D, CHR 0x84, CHR 0x9E] @ ''!'')) []"
proof -
  have b: "string_body (''!'' @ [quote]) ''!'' []"
    unfolding quote_def append.simps
    by (rule string_body_plain [OF string_body_quote]) (simp add: isCharacterThatNeedsEscaping_def byte_of_def)
  have v: "digits_value 16 ''D834'' = 0xD834" "digits_value 16 ''dd1E'' = 0xDD1E"
    by (simp_all add: digits_value_def digit_value_def byte_of_def)
  have c: "char_of (240 :: nat) = CHR 0xF0" "char_of (157 :: nat) = CHR 0x9D" "char_of (132 :: nat) = CHR 0x84"
    "char_of (158 :: nat) = CHR 0x9E"
    by code_simp+
  have "list_all is_hex ''D834'' \<and> length ''D834'' = 4" "isHighSurrogateCharacter (int (digits_value 16 ''D834''))"
    "list_all is_hex ''dd1E'' \<and> length ''dd1E'' = 4" "isLowSurrogateCharacter (int (digits_value 16 ''dd1E''))"
    "convertSurrogatePair (int (digits_value 16 ''D834'')) (int (digits_value 16 ''dd1E'')) = [CHR 0xF0, CHR 0x9D, CHR 0x84, CHR 0x9E]"
    by (simp_all add: v c is_hex_def isHexCharacter_def byte_of_def isHighSurrogateCharacter_def isLowSurrogateCharacter_def
      convertSurrogatePair_def Let_def)
  then show ?thesis using surrogate_pair_token [OF _ _ _ _ _ _ b, of "''D834''" "''dd1E''"] by simp
qed

text \<open>A unicode escape that is no surrogate becomes the one or two bytes of its number, high
  byte first, not the UTF-8 encoding of the character: the euro sign, written as the escape
  20AC, becomes the bytes 20 and AC.\<close>

theorem unicode_escape_raw_bytes:
  assumes "list_all is_hex ds" and "length ds = 4"
    and "\<not> isHighSurrogateCharacter (int (digits_value 16 ds))" and "\<not> isLowSurrogateCharacter (int (digits_value 16 ds))"
  shows "token_at (quote # backslash # CHR ''u'' # ds @ quote # s) (createStringToken (unicode_bytes ds)) s"
proof -
  have "string_body (CHR 0x5C # CHR ''u'' # ds @ CHR 0x22 # s) (unicode_bytes ds @ []) s"
    by (rule string_body_escape [OF escape_at_unicode [OF assms] string_body_quote])
  then show ?thesis using token_string unfolding quote_def backslash_def by simp
qed

lemma unicode_escape_raw_bytes_witness:
  "token_at (quote # backslash # ''u20AC'' @ [quote]) (createStringToken [CHR 0x20, CHR 0xAC]) []"
proof -
  have v: "digits_value 16 ''20AC'' = 0x20AC" by (simp add: digits_value_def digit_value_def byte_of_def)
  have c: "char_of (32 :: nat) = CHR 0x20" "char_of (172 :: nat) = CHR 0xAC" by code_simp+
  then have c2: "char_of (8364 :: nat) = CHR 0xAC" using char_of_mod_256 [of "8364 :: nat"] by simp
  have "list_all is_hex ''20AC'' \<and> length ''20AC'' = 4" "\<not> isHighSurrogateCharacter (int (digits_value 16 ''20AC''))"
    "\<not> isLowSurrogateCharacter (int (digits_value 16 ''20AC''))" "unicode_bytes ''20AC'' = [CHR 0x20, CHR 0xAC]"
    by (simp_all add: v c c2 is_hex_def isHexCharacter_def byte_of_def isHighSurrogateCharacter_def isLowSurrogateCharacter_def
      unicode_bytes_def Let_def)
  then show ?thesis using unicode_escape_raw_bytes [of "''20AC''" "[]"] by simp
qed

text \<open>A high surrogate followed by another escape sequence than a unicode one, as in a
  surrogate escape before a line feed escape, makes the lexer leave with the
  \<open>logic_error\<close> of the reader, which it does not catch, and not with an exception of its
  own; its state remains that of a lexer that is parsing.\<close>

theorem surrogate_lookahead_error:
  assumes "list_all is_hex hi" and "length hi = 4" and "isHighSurrogateCharacter (int (digits_value 16 hi))"
    and "c \<noteq> CHR ''u''" and "lexer_at l (quote # backslash # CHR ''u'' # hi @ backslash # c # t)"
  shows "\<exists>l'. nextToken l = (Inl (LogicError ''Cannot reset beyond 1 characters. Tried to reset 2 characters''), l') \<and>
    mLexerState l' = LEXER_PARSING"
proof -
  let ?e = "LogicError ''Cannot reset beyond 1 characters. Tried to reset 2 characters''"
  have nw: "\<not> whitespace (CHR 0x22)" by (simp add: whitespace_def isJsonWhitespaceCharacter_def byte_of_def)
  have d: "dropWhile whitespace (quote # backslash # CHR ''u'' # hi @ backslash # c # t) =
      CHR 0x22 # CHR 0x5C # CHR ''u'' # hi @ CHR 0x5C # c # t"
    unfolding quote_def backslash_def dropWhile.simps if_not_P [OF nw] ..
  obtain r where r: "reader_ok r" "rest r = CHR 0x22 # CHR 0x5C # CHR ''u'' # hi @ CHR 0x5C # c # t"
    and n: "nextToken l =
    (case doParseNextToken r of
       (Inl e, r) \<Rightarrow> (Inl e, l\<lparr>mReader := r,
         mLexerState := (case e of JsonLexerException _ \<Rightarrow> LEXER_ERROR | _ \<Rightarrow> LEXER_PARSING)\<rparr>)
     | (Inr token, r) \<Rightarrow> (Inr (Some token), l\<lparr>mReader := r, mLexerState := LEXER_PARSING\<rparr>))"
    by (rule nextToken_skip [OF assms(5) d])
  obtain q where q: "doParseNextToken r = tryParseStringToken q" "reader_ok q"
    "rest q = CHR 0x5C # CHR ''u'' # hi @ CHR 0x5C # c # t"
    using doParse_string [OF r] by blast
  let ?q = "q\<lparr>rPos := rPos q + 1\<rparr>"
  have q1: "reader_read q = (92, ?q)" "reader_ok ?q" "rest ?q = CHR ''u'' # hi @ CHR 0x5C # c # t"
    using read_Cons [OF q(2,3)] by (simp_all add: backslash_byte)
  let ?p = "?q\<lparr>rPos := rPos ?q + 1\<rparr>"
  obtain u where u: "readUnicodeEscapeSequence ?p = (Inr hi, u)" "reader_ok u" "rest u = CHR 0x5C # c # t"
    using readUnicode_rest [OF read_Cons(2,3) [OF q1(2,3)] assms(1,2)] by blast
  obtain v where v: "tryParseLowSurrogateChar u = (Inl ?e, v)"
    using lowSurrogate_no_u [OF u(2,3) assms(4)] by blast
  have "tryParseEscapeSequence [] ?q = tryParseUnicodeEscapeSequence [] ?p"
    using escape_rest [OF q1(2,3), of "[]"] by simp
  also have "\<dots> = (Inl ?e, v)"
    using u(1) v assms(3) by (simp add: tryParseUnicodeEscapeSequence_def op_bind_def Let_def)
  finally have "string_from [] q = (Inl ?e, v)"
    unfolding string_from_def using q1(1) by (subst string_loop.simps) (simp add: isEscapeCharacter_def EOF_def)
  then have "doParseNextToken r = (Inl ?e, v)"
    unfolding q(1) tryParseStringToken_from by (simp add: op_bind_def)
  then show ?thesis using n by simp
qed

lemma surrogate_lookahead_error_witness:
  "\<exists>l'. nextToken (JsonLexer_new (quote # backslash # ''uD83D'' @ backslash # ''n'' @ [quote])) =
     (Inl (LogicError ''Cannot reset beyond 1 characters. Tried to reset 2 characters''), l') \<and> mLexerState l' = LEXER_PARSING"
proof -
  have "digits_value 16 ''D83D'' = 0xD83D"
    by (simp add: digits_value_def digit_value_def byte_of_def)
  then have "list_all is_hex ''D83D'' \<and> length ''D83D'' = 4" "isHighSurrogateCharacter (int (digits_value 16 ''D83D''))"
    by (simp_all add: is_hex_def isHexCharacter_def byte_of_def isHighSurrogateCharacter_def)
  then show ?thesis
    using surrogate_lookahead_error [of "''D83D''" "CHR ''n''" _ "[quote]"] lexer_at_new by simp
qed

end
