(* ===== verification/Url_Encoding.thy ===== *)
theory Url_Encoding
  imports Number_Text
begin

text \<open>
  Percent encoding of the values of the beacon protocol
  (src/core/util/URLEncoding.cxx).
\<close>

unbundle bit_operations_syntax

subsection \<open>Encoding and decoding\<close>

definition UNRESERVED_CHARACTERS_RFC3986 :: string where
  "UNRESERVED_CHARACTERS_RFC3986 =
     ''ABCDEFGHIJKLMNOPQRSTUVWXYZabcdefghijklmnopqrstuvwxyz0123456789-_.~''"

definition HEX_CHARACTERS :: string where
  "HEX_CHARACTERS = ''0123456789ABCDEF''"

definition encode_byte :: "char \<Rightarrow> string" where
  "encode_byte character =
     (let b = of_char character :: 8 word in
      [CHR ''%'', HEX_CHARACTERS ! unat (drop_bit 4 b AND 0x0F), HEX_CHARACTERS ! unat (b AND 0x0F)])"

definition urlencode_bytes :: "char list \<Rightarrow> string \<Rightarrow> string" where
  "urlencode_bytes additionalReservedCharacters s =
     concat (map (\<lambda>character.
       if character \<in> set UNRESERVED_CHARACTERS_RFC3986 \<and> character \<notin> set additionalReservedCharacters
       then [character] else encode_byte character) s)"

definition urlencode :: "UTF8String \<Rightarrow> char list \<Rightarrow> UTF8String" where
  "urlencode s additionalReservedCharacters =
     UTF8String_of (urlencode_bytes additionalReservedCharacters (mData s))"

text \<open>
  Two bytes must follow a percent sign, otherwise decoding stops; when they are not two
  hexadecimal digits, a question mark and the two bytes are put out.
\<close>

fun urldecode_bytes :: "string \<Rightarrow> string" where
  "urldecode_bytes [] = []"
| "urldecode_bytes (c # s) =
     (if c \<noteq> CHR ''%'' then c # urldecode_bytes s
      else (case s of
          a # b # rest \<Rightarrow>
            (if std_isxdigit a \<and> std_isxdigit b
             then char_of (digits_value 16 [a, b]) # urldecode_bytes rest
             else CHR ''?'' # a # b # urldecode_bytes rest)
        | _ \<Rightarrow> []))"

definition urldecode :: "UTF8String \<Rightarrow> UTF8String" where
  "urldecode s = UTF8String_of (urldecode_bytes (mData s))"

subsection \<open>Lemmas\<close>

lemma unat_of_char: "unat (of_char c :: 8 word) = byte_of c"
proof -
  have "(of_char c :: 8 word) = of_nat (byte_of c)" by (simp add: byte_of_def of_nat_of_char)
  then show ?thesis by (simp add: unat_of_nat take_bit_nat_eq_self)
qed

lemma byte_div_16: "byte_of c div 16 < 16"
  using byte_of_less [of c] by (simp only: div_less_iff_less_mult)

lemma nibbles:
  "unat (drop_bit 4 (of_char c :: 8 word) AND 0x0F) = byte_of c div 16"
  "unat ((of_char c :: 8 word) AND 0x0F) = byte_of c mod 16"
proof -
  have m: "w AND 0x0F = take_bit 4 w" for w :: "8 word"
    using take_bit_eq_mask [of 4 w] by (simp add: mask_eq_exp_minus_1)
  have "byte_of c div 16 < 16" by (rule byte_div_16)
  then show "unat (drop_bit 4 (of_char c :: 8 word) AND 0x0F) = byte_of c div 16"
    "unat ((of_char c :: 8 word) AND 0x0F) = byte_of c mod 16"
    by (simp_all add: m unsigned_take_bit_eq unsigned_drop_bit_eq unat_of_char take_bit_eq_mod drop_bit_eq_div unat_div unat_mod)
qed

lemma hex_digits:
  "\<forall>n \<in> set [0..<16]. std_isxdigit (HEX_CHARACTERS ! n) \<and> digit_value (HEX_CHARACTERS ! n) = n"
  by code_simp

lemma hex_digit: "n < 16 \<Longrightarrow> std_isxdigit (HEX_CHARACTERS ! n) \<and> digit_value (HEX_CHARACTERS ! n) = n
    \<and> HEX_CHARACTERS ! n \<in> set HEX_CHARACTERS"
proof -
  assume n: "n < 16"
  then have "n < length HEX_CHARACTERS" by (simp add: HEX_CHARACTERS_def)
  then show ?thesis using hex_digits n by (simp add: nth_mem)
qed

lemma encode_byte_cases:
  obtains a b where "encode_byte c = [CHR ''%'', a, b]" "std_isxdigit a" "std_isxdigit b"
    "a \<in> set HEX_CHARACTERS" "b \<in> set HEX_CHARACTERS" "char_of (digits_value 16 [a, b]) = c"
proof (rule that)
  let ?a = "HEX_CHARACTERS ! (byte_of c div 16)" and ?b = "HEX_CHARACTERS ! (byte_of c mod 16)"
  have l: "byte_of c div 16 < 16" "byte_of c mod 16 < 16" using byte_div_16 by simp_all
  show "encode_byte c = [CHR ''%'', ?a, ?b]" by (simp add: encode_byte_def nibbles)
  show "std_isxdigit ?a" "std_isxdigit ?b" "?a \<in> set HEX_CHARACTERS" "?b \<in> set HEX_CHARACTERS"
    using hex_digit l by blast+
  have "digits_value 16 [?a, ?b] = byte_of c"
    using hex_digit [OF l(1)] hex_digit [OF l(2)] by (simp add: digits_value_def)
  then show "char_of (digits_value 16 [?a, ?b]) = c" by simp
qed

lemma decode_encode_byte: "urldecode_bytes (encode_byte c @ s) = c # urldecode_bytes s"
  by (rule encode_byte_cases [of c]) simp

lemma percent_reserved: "CHR ''%'' \<notin> set UNRESERVED_CHARACTERS_RFC3986"
  by code_simp

lemma decode_encode_bytes: "urldecode_bytes (urlencode_bytes R s) = s"
proof (induction s)
  case (Cons c s)
  then show ?case
    using percent_reserved decode_encode_byte [of c "urlencode_bytes R s"]
    by (auto simp: urlencode_bytes_def)
qed (simp add: urlencode_bytes_def)

lemma encoded_chars:
  "x \<in> set (urlencode_bytes R s) \<Longrightarrow> x = CHR ''%'' \<or> x \<in> set HEX_CHARACTERS \<or>
    (x \<in> set UNRESERVED_CHARACTERS_RFC3986 \<and> x \<notin> set R)"
proof (induction s)
  case (Cons c s)
  show ?case
  proof (cases "c \<in> set UNRESERVED_CHARACTERS_RFC3986 \<and> c \<notin> set R")
    case False
    obtain a b where "encode_byte c = [CHR ''%'', a, b]" "a \<in> set HEX_CHARACTERS" "b \<in> set HEX_CHARACTERS"
      by (rule encode_byte_cases)
    then show ?thesis using Cons False by (auto simp: urlencode_bytes_def)
  qed (use Cons in \<open>auto simp: urlencode_bytes_def\<close>)
qed (simp add: urlencode_bytes_def)

lemma ascii_code:
  "list_all (\<lambda>x. 0 < byte_of x \<and> byte_of x < 128) (CHR ''%'' # HEX_CHARACTERS @ UNRESERVED_CHARACTERS_RFC3986)"
  by (simp add: HEX_CHARACTERS_def UNRESERVED_CHARACTERS_RFC3986_def byte_of_def)

lemma ascii_text: "list_all (\<lambda>x. 0 < byte_of x \<and> byte_of x < 128) s \<Longrightarrow>
    utf8_text (map (\<lambda>c. [c]) s) \<and> terminator_free (map (\<lambda>c. [c]) s)"
proof (induction s)
  case (Cons c s)
  have z: "byte_of (CHR 0x00) = 0" by (simp add: byte_of_def)
  have b: "0 < byte_of c" "byte_of c < 128" using Cons.prems by simp_all
  have "utf8_char [c]" using ascii_width [OF b(2)] by (simp add: utf8_char_def)
  moreover have "c \<noteq> CHR 0x00" using z b(1) by (metis less_irrefl)
  ultimately have "utf8_char [c]" "c \<noteq> CHR 0x00" by blast+
  then show ?case using Cons by (simp add: terminator_free_def)
qed (simp add: terminator_free_def)

lemma concat_singletons: "concat (map (\<lambda>c. [c]) s) = s"
  by (induction s) auto

lemma UTF8String_of_ascii:
  "list_all (\<lambda>x. 0 < byte_of x \<and> byte_of x < 128) s \<Longrightarrow> UTF8String_of s = \<lparr>mData = s, mStringLength = length s\<rparr>"
  using validateString_text [of "map (\<lambda>c. [c]) s"] ascii_text [of s]
  by (simp add: UTF8String_of_def concat_singletons)

lemma urlencode_data:
  "urlencode s R = \<lparr>mData = urlencode_bytes R (mData s), mStringLength = length (urlencode_bytes R (mData s))\<rparr>"
proof -
  have "list_all (\<lambda>x. 0 < byte_of x \<and> byte_of x < 128) (urlencode_bytes R (mData s))"
    using encoded_chars [of _ R "mData s"] ascii_code unfolding list_all_iff by auto
  then show ?thesis by (simp add: urlencode_def UTF8String_of_ascii)
qed

subsection \<open>Properties\<close>

text \<open>C33: Decoding undoes encoding for every well-formed text, whatever characters are reserved
  in addition, and the encoded text holds nothing but percent signs, hexadecimal digits in
  upper case and unreserved characters that are not reserved in addition.\<close>

theorem urlencode_roundtrip:
  assumes "utf8_text css" and "terminator_free css"
    and "s = \<lparr>mData = concat css, mStringLength = length css\<rparr>"
  shows "urldecode (urlencode s R) = s
    \<and> set (mData (urlencode s R)) \<subseteq>
        {CHR ''%''} \<union> set HEX_CHARACTERS \<union> (set UNRESERVED_CHARACTERS_RFC3986 - set R)"
proof -
  have d: "mData (urlencode s R) = urlencode_bytes R (concat css)"
    using assms(3) by (simp add: urlencode_data)
  then have "urldecode (urlencode s R) = s"
    using validateString_text [OF assms(1,2)] assms(3)
    by (simp add: urldecode_def decode_encode_bytes UTF8String_of_def)
  moreover have "set (mData (urlencode s R)) \<subseteq>
      {CHR ''%''} \<union> set HEX_CHARACTERS \<union> (set UNRESERVED_CHARACTERS_RFC3986 - set R)"
    unfolding d using encoded_chars by blast
  ultimately show ?thesis ..
qed

lemma urlencode_roundtrip_witness:
  "urldecode (urlencode \<lparr>mData = [CHR 0xC3, CHR 0xA4, CHR ''_''], mStringLength = 2\<rparr> ''_'')
     = \<lparr>mData = [CHR 0xC3, CHR 0xA4, CHR ''_''], mStringLength = 2\<rparr>"
  using urlencode_roundtrip [of "[[CHR 0xC3, CHR 0xA4], ''_'']" "\<lparr>mData = [CHR 0xC3, CHR 0xA4, CHR ''_''], mStringLength = 2\<rparr>" "''_''"]
  by (simp add: utf8_char_def byte_class_simps byte_of_def terminator_free_def)

end
