(* ===== verification/Inet_Address.thy ===== *)
theory Inet_Address
  imports Json_Lexing Url_Encoding
begin

text \<open>
  The validation of the client's address (src/core/util/InetAddressValidator.cxx) with its
  regular expressions, over the expressions and the matching of the JSON lexer.
\<close>

subsection \<open>The expressions\<close>

primrec RTimes :: "nat \<Rightarrow> regex \<Rightarrow> regex" where
  "RTimes 0 r = REps"
| "RTimes (Suc n) r = RSeq r (RTimes n r)"

definition DIGIT :: regex where "DIGIT = RChars ''0123456789''"

definition HEX_BLOCK :: regex where
  "HEX_BLOCK = (let h = RChars ''0123456789ABCDEFabcdef'' in RSeq h (RTimes 3 (ROpt h)))"

definition IPV4_BLOCK :: regex where
  "IPV4_BLOCK = RAlt (RSeq (RChars ''2'') (RSeq (RChars ''5'') (RChars ''012345'')))
     (RAlt (RSeq (RChars ''2'') (RSeq (RChars ''01234'') DIGIT))
       (RSeq (ROpt (RChars ''01'')) (RSeq (ROpt DIGIT) DIGIT)))"

definition IPV4_REGEX :: regex where
  "IPV4_REGEX = RSeq IPV4_BLOCK (RTimes 3 (RSeq (RChars ''.'') IPV4_BLOCK))"

definition IPV6_STD_REGEX :: regex where
  "IPV6_STD_REGEX = RSeq (RTimes 7 (RSeq HEX_BLOCK (RChars '':''))) HEX_BLOCK"

text \<open>Blocks separated by colons, any number of them or none.\<close>

definition HEX_BLOCKS :: regex where
  "HEX_BLOCKS = ROpt (RSeq HEX_BLOCK (RStar (RSeq (RChars '':'') HEX_BLOCK)))"

definition IPV6_HEX_COMPRESSED_REGEX :: regex where
  "IPV6_HEX_COMPRESSED_REGEX = RSeq HEX_BLOCKS (RSeq (RChars '':'') (RSeq (RChars '':'') HEX_BLOCKS))"

definition IPV6_MIXED_COMPRESSED_REGEX :: regex where
  "IPV6_MIXED_COMPRESSED_REGEX = RSeq HEX_BLOCKS (RSeq (RChars '':'') (RSeq (RChars '':'')
     (ROpt (RSeq (RSeq HEX_BLOCK (RChars '':'')) (RStar (RSeq HEX_BLOCK (RChars '':'')))))))"

definition IPV6_MIXED_NON_COMPRESSED_REGEX :: regex where
  "IPV6_MIXED_NON_COMPRESSED_REGEX = RTimes 6 (RSeq HEX_BLOCK (RChars '':''))"

subsection \<open>The validation\<close>

definition IsIPv4Address :: "UTF8String \<Rightarrow> bool" where
  "IsIPv4Address ipAddress \<longleftrightarrow> regex_match (mData ipAddress) IPV4_REGEX"

definition IsIPv6StdAddress :: "UTF8String \<Rightarrow> bool" where
  "IsIPv6StdAddress ipAddress \<longleftrightarrow> regex_match (mData ipAddress) IPV6_STD_REGEX"

definition IsIPv6HexCompressedAddress :: "UTF8String \<Rightarrow> bool" where
  "IsIPv6HexCompressedAddress ipAddress \<longleftrightarrow> regex_match (mData ipAddress) IPV6_HEX_COMPRESSED_REGEX"

text \<open>\<open>find_last_of\<close>: the index of the last byte that is the character.\<close>

definition find_last_of :: "char \<Rightarrow> string \<Rightarrow> nat option" where
  "find_last_of c s = find (\<lambda>i. s ! i = c) (rev [0..<length s])"

definition IsIPv6MixedAddress :: "UTF8String \<Rightarrow> bool" where
  "IsIPv6MixedAddress ipAddress =
     (case find_last_of CHR '':'' (mData ipAddress) of
        None \<Rightarrow> False
      | Some splitIndex \<Rightarrow>
          (let ipv4PartIsValid = IsIPv4Address (substring ipAddress (splitIndex + 1) npos);
               ipV6Part = substring ipAddress 0 (splitIndex + 1)
           in if equals ipV6Part (UTF8String_of ''::'') then ipv4PartIsValid
              else ipv4PartIsValid \<and>
                (regex_match (mData ipV6Part) IPV6_MIXED_NON_COMPRESSED_REGEX
                 \<or> regex_match (mData ipV6Part) IPV6_MIXED_COMPRESSED_REGEX)))"

text \<open>\<open>Inl\<close>: the search for the percent sign reads behind the end of the string.\<close>

definition IsLinkLocalIPv6WithZoneIndex :: "UTF8String \<Rightarrow> nat + bool" where
  "IsLinkLocalIPv6WithZoneIndex ipAddress =
     (case getIndexOf ipAddress ''%'' 5 of
        Inl i \<Rightarrow> Inl i
      | Inr positionOfZoneIndex \<Rightarrow>
          Inr (if mStringLength ipAddress > 5 \<and> positionOfZoneIndex \<noteq> npos \<and> positionOfZoneIndex < mStringLength ipAddress - 1
               then (let ipPart = substring ipAddress 0 positionOfZoneIndex in
                     IsIPv6StdAddress ipPart \<or> IsIPv6HexCompressedAddress ipPart)
               else False))"

definition IsIPv6Address :: "UTF8String \<Rightarrow> nat + bool" where
  "IsIPv6Address ipAddress =
     (if IsIPv6StdAddress ipAddress \<or> IsIPv6HexCompressedAddress ipAddress \<or> IsIPv6MixedAddress ipAddress then Inr True
      else IsLinkLocalIPv6WithZoneIndex ipAddress)"

definition IsValidIP :: "UTF8String \<Rightarrow> nat + bool" where
  "IsValidIP ipAddress = (if IsIPv4Address ipAddress then Inr True else IsIPv6Address ipAddress)"

subsection \<open>The languages of the expressions\<close>

lemma lang_times: "s \<in> lang (RTimes n r) \<longleftrightarrow> (\<exists>xs. length xs = n \<and> set xs \<subseteq> lang r \<and> s = concat xs)"
proof (induction n arbitrary: s)
  case (Suc n)
  show ?case
  proof
    assume "s \<in> lang (RTimes (Suc n) r)"
    then obtain x xs where "s = x @ concat xs" "x \<in> lang r" "length xs = n" "set xs \<subseteq> lang r" using Suc by auto
    then show "\<exists>xs. length xs = Suc n \<and> set xs \<subseteq> lang r \<and> s = concat xs" by (intro exI [of _ "x # xs"]) simp
  next
    assume "\<exists>xs. length xs = Suc n \<and> set xs \<subseteq> lang r \<and> s = concat xs"
    then obtain x xs where "length xs = n" "set (x # xs) \<subseteq> lang r" "s = concat (x # xs)" by (auto simp: length_Suc_conv)
    then show "s \<in> lang (RTimes (Suc n) r)" using Suc [of "concat xs"] by auto
  qed
qed simp

lemma lang_seq: "s \<in> lang (RSeq r q) \<longleftrightarrow> (\<exists>x y. s = x @ y \<and> x \<in> lang r \<and> y \<in> lang q)"
  by auto

text \<open>A block of an IPv4 address: one to three digits of a number below 256.\<close>

definition octet :: "string \<Rightarrow> bool" where
  "octet s \<longleftrightarrow> list_all std_isdigit s \<and> 1 \<le> length s \<and> length s \<le> 3 \<and> digits_value 10 s < 256"

lemma digit_classes:
  "c \<in> set ''2'' \<longleftrightarrow> std_isdigit c \<and> digit_value c = 2"
  "c \<in> set ''5'' \<longleftrightarrow> std_isdigit c \<and> digit_value c = 5"
  "c \<in> set ''01'' \<longleftrightarrow> std_isdigit c \<and> digit_value c \<le> 1"
  "c \<in> set ''01234'' \<longleftrightarrow> std_isdigit c \<and> digit_value c \<le> 4"
  "c \<in> set ''012345'' \<longleftrightarrow> std_isdigit c \<and> digit_value c \<le> 5"
proof -
  have "\<forall>c. (c \<in> set ''2'' \<longleftrightarrow> std_isdigit c \<and> digit_value c = 2) \<and> (c \<in> set ''5'' \<longleftrightarrow> std_isdigit c \<and> digit_value c = 5) \<and>
      (c \<in> set ''01'' \<longleftrightarrow> std_isdigit c \<and> digit_value c \<le> 1) \<and> (c \<in> set ''01234'' \<longleftrightarrow> std_isdigit c \<and> digit_value c \<le> 4) \<and>
      (c \<in> set ''012345'' \<longleftrightarrow> std_isdigit c \<and> digit_value c \<le> 5)"
    by code_simp
  then show "c \<in> set ''2'' \<longleftrightarrow> std_isdigit c \<and> digit_value c = 2"
    "c \<in> set ''5'' \<longleftrightarrow> std_isdigit c \<and> digit_value c = 5" "c \<in> set ''01'' \<longleftrightarrow> std_isdigit c \<and> digit_value c \<le> 1"
    "c \<in> set ''01234'' \<longleftrightarrow> std_isdigit c \<and> digit_value c \<le> 4" "c \<in> set ''012345'' \<longleftrightarrow> std_isdigit c \<and> digit_value c \<le> 5"
    by blast+
qed

lemma digit_below_10: "std_isdigit c \<Longrightarrow> digit_value c < 10"
  by (auto simp: std_isdigit_def digit_value_def)

lemma lang_chars: "s \<in> lang (RChars cs) \<longleftrightarrow> (\<exists>c. s = [c] \<and> c \<in> set cs)"
  by auto

lemma lang_opt_chars_seq:
  "s \<in> lang (RSeq (ROpt (RChars cs)) r) \<longleftrightarrow> s \<in> lang r \<or> (s \<noteq> [] \<and> hd s \<in> set cs \<and> tl s \<in> lang r)"
  unfolding lang_opt_seq lang_chars_seq [symmetric] by auto

lemma lang_octet: "s \<in> lang IPV4_BLOCK \<longleftrightarrow> octet s"
proof -
  consider "s = []" | a where "s = [a]" | a b where "s = [a, b]" | a b c where "s = [a, b, c]" | a b c d t where "s = a # b # c # d # t"
    by (metis list.exhaust)
  note shapes = this
  have one: "digit_value a < 256" if "std_isdigit a" for a using digit_below_10 [OF that] by simp
  have two: "digit_value a * 10 + digit_value b < 256" if "std_isdigit a" "std_isdigit b" for a b
    using digit_below_10 [OF that(1)] digit_below_10 [OF that(2)] by presburger
  have "octet s \<longleftrightarrow> (\<exists>a. s = [a] \<and> std_isdigit a) \<or> (\<exists>a b. s = [a, b] \<and> std_isdigit a \<and> std_isdigit b) \<or>
      (\<exists>a b c. s = [a, b, c] \<and> std_isdigit a \<and> std_isdigit b \<and> std_isdigit c \<and> digit_value a * 100 + digit_value b * 10 + digit_value c < 256)"
    using shapes one two by cases (auto simp: octet_def digits_value_def)
  moreover have "s \<in> lang IPV4_BLOCK \<longleftrightarrow>
      (\<exists>a b c. s = [a, b, c] \<and> std_isdigit a \<and> std_isdigit b \<and> std_isdigit c \<and> digit_value a = 2 \<and> digit_value b = 5 \<and> digit_value c \<le> 5) \<or>
      (\<exists>a b c. s = [a, b, c] \<and> std_isdigit a \<and> std_isdigit b \<and> std_isdigit c \<and> digit_value a = 2 \<and> digit_value b \<le> 4) \<or>
      (\<exists>a. s = [a] \<and> std_isdigit a) \<or> (\<exists>a b. s = [a, b] \<and> std_isdigit a \<and> std_isdigit b) \<or>
      (\<exists>a b c. s = [a, b, c] \<and> std_isdigit a \<and> std_isdigit b \<and> std_isdigit c \<and> digit_value a \<le> 1)"
    unfolding IPV4_BLOCK_def DIGIT_def lang.simps(5) Un_iff lang_chars_seq lang_opt_chars_seq lang_chars digit_classes digit_chars
    using shapes by cases (simp_all, blast+)
  moreover have "x * 100 + y * 10 + z < 256 \<longleftrightarrow> x = 2 \<and> y = 5 \<and> z \<le> 5 \<or> x = 2 \<and> y \<le> 4 \<or> x \<le> 1"
    if "x < 10" "y < 10" "z < 10" for x y z :: nat
  proof -
    consider "x \<le> 1" | "x = 2" "y \<le> 4" | "x = 2" "y = 5" | "x = 2" "6 \<le> y" | "3 \<le> x" by linarith
    then show ?thesis using that by cases auto
  qed
  then have "digit_value a * 100 + digit_value b * 10 + digit_value c < 256 \<longleftrightarrow>
      digit_value a = 2 \<and> digit_value b = 5 \<and> digit_value c \<le> 5 \<or> digit_value a = 2 \<and> digit_value b \<le> 4 \<or> digit_value a \<le> 1"
    if "std_isdigit a" "std_isdigit b" "std_isdigit c" for a b c
    using digit_below_10 that by blast
  ultimately show ?thesis by blast
qed

subsection \<open>Addresses as their blocks\<close>

text \<open>A block of an IPv6 address: one to four hexadecimal digits.\<close>

definition hex_block :: "string \<Rightarrow> bool" where
  "hex_block s \<longleftrightarrow> list_all std_isxdigit s \<and> 1 \<le> length s \<and> length s \<le> 4"

lemma hex_chars: "c \<in> set ''0123456789ABCDEFabcdef'' \<longleftrightarrow> std_isxdigit c"
proof -
  have "\<forall>c. c \<in> set ''0123456789ABCDEFabcdef'' \<longleftrightarrow> std_isxdigit c" by code_simp
  then show ?thesis by blast
qed

lemma lang_hex_block: "s \<in> lang HEX_BLOCK \<longleftrightarrow> hex_block s"
proof -
  have opt: "x \<in> lang (RTimes n (ROpt (RChars cs))) \<longleftrightarrow> length x \<le> n \<and> set x \<subseteq> set cs" for x n cs
    by (induction n arbitrary: x) (auto simp: lang_opt_chars_seq simp del: lang.simps(4); case_tac x; auto)+
  have "set x \<subseteq> set ''0123456789ABCDEFabcdef'' \<longleftrightarrow> list_all std_isxdigit x" for x
    unfolding subset_iff hex_chars list_all_iff by blast
  then show ?thesis
    unfolding HEX_BLOCK_def Let_def lang_chars_seq opt hex_chars hex_block_def by (cases s) auto
qed

lemma lang_block_colon: "s \<in> lang (RSeq (RChars [c]) HEX_BLOCK) \<longleftrightarrow> (\<exists>b. s = c # b \<and> hex_block b)"
  unfolding lang_chars_seq lang_hex_block by (cases s) auto

lemma star_blocks: "s \<in> lang (RStar (RSeq (RChars [c]) HEX_BLOCK)) \<longleftrightarrow> (\<exists>bs. list_all hex_block bs \<and> s = concat (map (\<lambda>b. c # b) bs))"
proof -
  have "(\<exists>bs. list_all hex_block bs \<and> s = concat (map (\<lambda>b. c # b) bs))" if "s \<in> star (lang (RSeq (RChars [c]) HEX_BLOCK))"
    using that
  proof (induction rule: star.induct)
    case (star_append x y)
    then obtain b bs where "x = c # b" "hex_block b" "list_all hex_block bs" "y = concat (map (\<lambda>b. c # b) bs)"
      by (auto simp: lang_block_colon simp del: lang.simps)
    then show ?case by (intro exI [of _ "b # bs"]) simp
  qed (auto intro: exI [of _ "[]"])
  moreover have "list_all hex_block bs \<Longrightarrow> concat (map (\<lambda>b. c # b) bs) \<in> star (lang (RSeq (RChars [c]) HEX_BLOCK))" for bs
  proof (induction bs)
    case (Cons b bs)
    then have "c # b \<in> lang (RSeq (RChars [c]) HEX_BLOCK)" by (simp add: lang_block_colon del: lang.simps)
    then show ?case using star_append [of "c # b"] Cons by (simp del: lang.simps)
  qed (simp add: star_Nil)
  ultimately show ?thesis by (auto simp del: lang.simps(4) simp: lang.simps(6))
qed

lemma join_with_concat: "join_with d (x # xs) = x @ concat (map (\<lambda>b. d # b) xs)"
  by (induction xs arbitrary: x) auto

lemma lang_hex_blocks: "s \<in> lang HEX_BLOCKS \<longleftrightarrow> (\<exists>bs. list_all hex_block bs \<and> s = join_with CHR '':'' bs)"
proof -
  have "s \<in> lang HEX_BLOCKS \<longleftrightarrow> s = [] \<or> (\<exists>b bs. hex_block b \<and> list_all hex_block bs \<and> s = join_with CHR '':'' (b # bs))"
    unfolding HEX_BLOCKS_def lang_opt lang_seq lang_hex_block star_blocks join_with_concat by blast
  also have "\<dots> \<longleftrightarrow> (\<exists>bs. list_all hex_block bs \<and> s = join_with CHR '':'' bs)"
  proof
    assume "s = [] \<or> (\<exists>b bs. hex_block b \<and> list_all hex_block bs \<and> s = join_with CHR '':'' (b # bs))"
    then show "\<exists>bs. list_all hex_block bs \<and> s = join_with CHR '':'' bs"
    proof
      assume "s = []"
      then show ?thesis by (intro exI [of _ "[]"]) simp
    next
      assume "\<exists>b bs. hex_block b \<and> list_all hex_block bs \<and> s = join_with CHR '':'' (b # bs)"
      then obtain b bs where "hex_block b" "list_all hex_block bs" "s = join_with CHR '':'' (b # bs)" by blast
      then show ?thesis by (intro exI [of _ "b # bs"]) simp
    qed
  next
    assume "\<exists>bs. list_all hex_block bs \<and> s = join_with CHR '':'' bs"
    then obtain bs where "list_all hex_block bs" "s = join_with CHR '':'' bs" by blast
    then show "s = [] \<or> (\<exists>b bs. hex_block b \<and> list_all hex_block bs \<and> s = join_with CHR '':'' (b # bs))"
      by (cases bs) auto
  qed
  finally show ?thesis .
qed

lemma lang_times_map:
  assumes "\<And>x. x \<in> lang r \<longleftrightarrow> (\<exists>b. x = f b \<and> P b)"
  shows "s \<in> lang (RTimes n r) \<longleftrightarrow> (\<exists>bs. length bs = n \<and> list_all P bs \<and> s = concat (map f bs))"
proof -
  have "lang r = f ` Collect P" using assms by auto
  moreover have "set xs \<subseteq> f ` Collect P \<longleftrightarrow> xs \<in> map f ` lists (Collect P)" for xs
  proof -
    have "set xs \<subseteq> f ` Collect P \<longleftrightarrow> xs \<in> lists (f ` Collect P)" by (simp add: lists_eq_set)
    then show ?thesis by (simp only: lists_image)
  qed
  ultimately have "set xs \<subseteq> lang r \<longleftrightarrow> (\<exists>bs. list_all P bs \<and> xs = map f bs)" for xs
    by (auto simp: image_iff Bex_def lists_eq_set list_all_iff subset_iff)
  then show ?thesis unfolding lang_times by (metis length_map)
qed

lemma join_with_snoc: "concat (map (\<lambda>b. b @ [d]) xs) @ x = join_with d (xs @ [x])"
  by (induction d xs rule: join_with.induct) auto

lemma lang_dotted: "s \<in> lang IPV4_REGEX \<longleftrightarrow> (\<exists>bs. length bs = 4 \<and> list_all octet bs \<and> s = join_with CHR ''.'' bs)"
proof -
  have "x \<in> lang (RSeq (RChars ''.'') IPV4_BLOCK) \<longleftrightarrow> (\<exists>b. x = CHR ''.'' # b \<and> octet b)" for x
    unfolding lang_chars_seq lang_octet by (cases x) auto
  note rest = lang_times_map [OF this]
  have "s \<in> lang IPV4_REGEX \<longleftrightarrow> (\<exists>b bs. s = join_with CHR ''.'' (b # bs) \<and> octet b \<and> length bs = 3 \<and> list_all octet bs)"
    unfolding IPV4_REGEX_def lang_seq lang_octet rest join_with_concat by auto
  also have "\<dots> \<longleftrightarrow> (\<exists>bs. length bs = 4 \<and> list_all octet bs \<and> s = join_with CHR ''.'' bs)"
  proof
    assume "\<exists>b bs. s = join_with CHR ''.'' (b # bs) \<and> octet b \<and> length bs = 3 \<and> list_all octet bs"
    then obtain b bs where "s = join_with CHR ''.'' (b # bs)" "octet b" "length bs = 3" "list_all octet bs" by blast
    then show "\<exists>bs. length bs = 4 \<and> list_all octet bs \<and> s = join_with CHR ''.'' bs" by (intro exI [of _ "b # bs"]) simp
  next
    assume "\<exists>bs. length bs = 4 \<and> list_all octet bs \<and> s = join_with CHR ''.'' bs"
    then obtain b bs where "length (b # bs) = 4" "list_all octet (b # bs)" "s = join_with CHR ''.'' (b # bs)"
      by (metis length_0_conv list.exhaust zero_neq_numeral)
    then show "\<exists>b bs. s = join_with CHR ''.'' (b # bs) \<and> octet b \<and> length bs = 3 \<and> list_all octet bs" by auto
  qed
  finally show ?thesis .
qed

lemma lang_eight_blocks:
  "s \<in> lang IPV6_STD_REGEX \<longleftrightarrow> (\<exists>bs. length bs = 8 \<and> list_all hex_block bs \<and> s = join_with CHR '':'' bs)"
proof -
  have "x \<in> lang (RSeq HEX_BLOCK (RChars '':'')) \<longleftrightarrow> (\<exists>b. x = b @ '':'' \<and> hex_block b)" for x
    unfolding lang_seq lang_hex_block lang_chars by auto
  note first = lang_times_map [OF this]
  have "s \<in> lang IPV6_STD_REGEX \<longleftrightarrow> (\<exists>bs b. s = join_with CHR '':'' (bs @ [b]) \<and> length bs = 7 \<and> list_all hex_block bs \<and> hex_block b)"
    unfolding IPV6_STD_REGEX_def lang_seq lang_hex_block first join_with_snoc [symmetric] by auto
  also have "\<dots> \<longleftrightarrow> (\<exists>bs. length bs = 8 \<and> list_all hex_block bs \<and> s = join_with CHR '':'' bs)"
  proof
    assume "\<exists>bs b. s = join_with CHR '':'' (bs @ [b]) \<and> length bs = 7 \<and> list_all hex_block bs \<and> hex_block b"
    then obtain bs b where "s = join_with CHR '':'' (bs @ [b])" "length bs = 7" "list_all hex_block bs" "hex_block b" by blast
    then show "\<exists>bs. length bs = 8 \<and> list_all hex_block bs \<and> s = join_with CHR '':'' bs" by (intro exI [of _ "bs @ [b]"]) simp
  next
    assume "\<exists>bs. length bs = 8 \<and> list_all hex_block bs \<and> s = join_with CHR '':'' bs"
    then obtain bs b where "length (bs @ [b]) = 8" "list_all hex_block (bs @ [b])" "s = join_with CHR '':'' (bs @ [b])"
      by (metis length_0_conv rev_exhaust zero_neq_numeral)
    then show "\<exists>bs b. s = join_with CHR '':'' (bs @ [b]) \<and> length bs = 7 \<and> list_all hex_block bs \<and> hex_block b" by auto
  qed
  finally show ?thesis .
qed

lemma lang_compressed:
  "s \<in> lang IPV6_HEX_COMPRESSED_REGEX \<longleftrightarrow> (\<exists>bs cs. list_all hex_block (bs @ cs) \<and>
     s = join_with CHR '':'' bs @ ''::'' @ join_with CHR '':'' cs)"
  unfolding IPV6_HEX_COMPRESSED_REGEX_def lang_seq lang_chars lang_hex_blocks by fastforce

text \<open>C38: The client's address is taken for an IPv4 address exactly when it is four numbers below 256 of
  at most three digits between dots, for a full IPv6 address exactly when it is eight blocks of one
  to four hexadecimal digits between colons, and for a shortened one exactly when it is any two
  lists of such blocks around a double colon: their number is not limited.\<close>

theorem addresses_as_blocks:
  "(IsIPv4Address u \<longleftrightarrow> (\<exists>bs. length bs = 4 \<and> list_all octet bs \<and> mData u = join_with CHR ''.'' bs)) \<and>
   (IsIPv6StdAddress u \<longleftrightarrow> (\<exists>bs. length bs = 8 \<and> list_all hex_block bs \<and> mData u = join_with CHR '':'' bs)) \<and>
   (IsIPv6HexCompressedAddress u \<longleftrightarrow> (\<exists>bs cs. list_all hex_block (bs @ cs) \<and>
      mData u = join_with CHR '':'' bs @ ''::'' @ join_with CHR '':'' cs)) \<and>
   IsValidIP u = (if IsIPv4Address u \<or> IsIPv6StdAddress u \<or> IsIPv6HexCompressedAddress u \<or> IsIPv6MixedAddress u
     then Inr True else IsLinkLocalIPv6WithZoneIndex u)"
  unfolding IsIPv4Address_def IsIPv6StdAddress_def IsIPv6HexCompressedAddress_def regex_match_lang
    lang_dotted lang_eight_blocks lang_compressed IsValidIP_def IsIPv6Address_def by auto

end
