(* ===== verification/Response_Attributes.thy ===== *)
theory Response_Attributes
  imports Utf8_String
begin

text \<open>
  The attributes of a server response (src/protocol/ResponseAttributes.cxx,
  ResponseAttributesDefaults.cxx): which attributes are set, their values, the builder and the
  merge of a later response into an earlier one. Every attribute is accessed by a getter and a
  builder function with the laws of the locale \<open>attribute_accessor\<close>.
\<close>

subsection \<open>State\<close>

datatype ResponseAttribute =
  MAX_BEACON_SIZE | MAX_SESSION_DURATION | MAX_EVENTS_PER_SESSION | SESSION_IDLE_TIMEOUT | SEND_INTERVAL
| VISIT_STORE_VERSION | IS_CAPTURE | IS_CAPTURE_CRASHES | IS_CAPTURE_ERRORS | TRAFFIC_CONTROL_PERCENTAGE
| APPLICATION_ID | MULTIPLICITY | SERVER_ID | STATUS | TIMESTAMP

definition ALL_RESPONSE_ATTRIBUTES :: "ResponseAttribute list" where
  "ALL_RESPONSE_ATTRIBUTES =
     [MAX_BEACON_SIZE, MAX_SESSION_DURATION, MAX_EVENTS_PER_SESSION, SESSION_IDLE_TIMEOUT, SEND_INTERVAL,
      VISIT_STORE_VERSION, IS_CAPTURE, IS_CAPTURE_CRASHES, IS_CAPTURE_ERRORS, TRAFFIC_CONTROL_PERCENTAGE,
      APPLICATION_ID, MULTIPLICITY, SERVER_ID, STATUS, TIMESTAMP]"

text \<open>The builder has the same fields as the object it builds; building copies them.\<close>

record ResponseAttributes =
  mSetAttributes :: "ResponseAttribute set"
  mMaxBeaconSizeInBytes :: int32
  mMaxSessionDurationInMilliseconds :: int32
  mMaxEventsPerSession :: int32
  mSessionTimeoutInMilliseconds :: int32
  mSendIntervalInMilliseconds :: int32
  mVisitStoreVersion :: int32
  mIsCapture :: bool
  mIsCaptureCrashes :: bool
  mIsCaptureErrors :: bool
  mTrafficControlPercentage :: int32
  mApplicationId :: UTF8String
  mMultiplicity :: int32
  mServerId :: int32
  mStatus :: UTF8String
  mTimestampInMilliseconds :: int64

type_synonym Builder = ResponseAttributes

definition isAttributeSet :: "ResponseAttribute \<Rightarrow> ResponseAttributes \<Rightarrow> bool" where
  "isAttributeSet attribute r \<longleftrightarrow> attribute \<in> mSetAttributes r"

definition setAttribute :: "ResponseAttribute \<Rightarrow> Builder \<Rightarrow> Builder" where
  "setAttribute attribute b = b\<lparr>mSetAttributes := insert attribute (mSetAttributes b)\<rparr>"

text \<open>The constructor copies the values and sets one after the other the attributes that are set.\<close>

definition Builder_new :: "ResponseAttributes \<Rightarrow> Builder" where
  "Builder_new defaults =
     fold (\<lambda>attribute b. if isAttributeSet attribute defaults then setAttribute attribute b else b)
       ALL_RESPONSE_ATTRIBUTES (defaults\<lparr>mSetAttributes := {}\<rparr>)"

definition build :: "Builder \<Rightarrow> ResponseAttributes" where
  "build b = b"

subsection \<open>Defaults\<close>

definition AbstractResponseDefaults :: ResponseAttributes where
  "AbstractResponseDefaults =
     \<lparr>mSetAttributes = {}, mMaxBeaconSizeInBytes = 0, mMaxSessionDurationInMilliseconds = 0,
      mMaxEventsPerSession = 0, mSessionTimeoutInMilliseconds = 0, mSendIntervalInMilliseconds = 120 * 1000,
      mVisitStoreVersion = 1, mIsCapture = True, mIsCaptureCrashes = True, mIsCaptureErrors = True,
      mTrafficControlPercentage = 100, mApplicationId = UTF8String_empty, mMultiplicity = 1, mServerId = 1,
      mStatus = UTF8String_empty, mTimestampInMilliseconds = 0\<rparr>"

definition JsonResponseDefaults :: ResponseAttributes where
  "JsonResponseDefaults = AbstractResponseDefaults
     \<lparr>mMaxBeaconSizeInBytes := 150 * 1024, mMaxSessionDurationInMilliseconds := 360 * 60 * 1000,
      mMaxEventsPerSession := 200, mSessionTimeoutInMilliseconds := 600 * 1000\<rparr>"

definition KeyValueResponseDefaults :: ResponseAttributes where
  "KeyValueResponseDefaults = AbstractResponseDefaults
     \<lparr>mMaxBeaconSizeInBytes := 30 * 1024, mMaxSessionDurationInMilliseconds := -1,
      mMaxEventsPerSession := -1, mSessionTimeoutInMilliseconds := -1\<rparr>"

definition UndefinedDefaults :: ResponseAttributes where
  "UndefinedDefaults = AbstractResponseDefaults
     \<lparr>mMaxBeaconSizeInBytes := 30 * 1024, mMaxSessionDurationInMilliseconds := -1,
      mMaxEventsPerSession := -1, mSessionTimeoutInMilliseconds := -1, mServerId := -1\<rparr>"

text \<open>The defaults have a merge of their own.\<close>

definition defaults_merge :: "ResponseAttributes \<Rightarrow> ResponseAttributes \<Rightarrow> ResponseAttributes" where
  "defaults_merge defaults attributes = attributes"

definition withJsonDefaults :: Builder where "withJsonDefaults = Builder_new JsonResponseDefaults"
definition withKeyValueDefaults :: Builder where "withKeyValueDefaults = Builder_new KeyValueResponseDefaults"
definition withUndefinedDefaults :: Builder where "withUndefinedDefaults = Builder_new UndefinedDefaults"

subsection \<open>The builder\<close>

definition withMaxBeaconSizeInBytes :: "int32 \<Rightarrow> Builder \<Rightarrow> Builder" where
  "withMaxBeaconSizeInBytes maxBeaconSizeInBytes b = setAttribute MAX_BEACON_SIZE (b\<lparr>mMaxBeaconSizeInBytes := maxBeaconSizeInBytes\<rparr>)"

definition withMaxSessionDurationInMilliseconds :: "int32 \<Rightarrow> Builder \<Rightarrow> Builder" where
  "withMaxSessionDurationInMilliseconds maxSessionDurationInMilliseconds b = setAttribute MAX_SESSION_DURATION (b\<lparr>mMaxSessionDurationInMilliseconds := maxSessionDurationInMilliseconds\<rparr>)"

definition withMaxEventsPerSession :: "int32 \<Rightarrow> Builder \<Rightarrow> Builder" where
  "withMaxEventsPerSession maxEventsPerSession b = setAttribute MAX_EVENTS_PER_SESSION (b\<lparr>mMaxEventsPerSession := maxEventsPerSession\<rparr>)"

definition withSessionTimeoutInMilliseconds :: "int32 \<Rightarrow> Builder \<Rightarrow> Builder" where
  "withSessionTimeoutInMilliseconds sessionTimeoutInMilliseconds b = setAttribute SESSION_IDLE_TIMEOUT (b\<lparr>mSessionTimeoutInMilliseconds := sessionTimeoutInMilliseconds\<rparr>)"

definition withSendIntervalInMilliseconds :: "int32 \<Rightarrow> Builder \<Rightarrow> Builder" where
  "withSendIntervalInMilliseconds sendIntervalInMilliseconds b = setAttribute SEND_INTERVAL (b\<lparr>mSendIntervalInMilliseconds := sendIntervalInMilliseconds\<rparr>)"

definition withVisitStoreVersion :: "int32 \<Rightarrow> Builder \<Rightarrow> Builder" where
  "withVisitStoreVersion visitStoreVersion b = setAttribute VISIT_STORE_VERSION (b\<lparr>mVisitStoreVersion := visitStoreVersion\<rparr>)"

definition withCapture :: "bool \<Rightarrow> Builder \<Rightarrow> Builder" where
  "withCapture capture b = setAttribute IS_CAPTURE (b\<lparr>mIsCapture := capture\<rparr>)"

definition withCaptureCrashes :: "bool \<Rightarrow> Builder \<Rightarrow> Builder" where
  "withCaptureCrashes captureCrashes b = setAttribute IS_CAPTURE_CRASHES (b\<lparr>mIsCaptureCrashes := captureCrashes\<rparr>)"

definition withCaptureErrors :: "bool \<Rightarrow> Builder \<Rightarrow> Builder" where
  "withCaptureErrors captureErrors b = setAttribute IS_CAPTURE_ERRORS (b\<lparr>mIsCaptureErrors := captureErrors\<rparr>)"

definition withTrafficControlPercentage :: "int32 \<Rightarrow> Builder \<Rightarrow> Builder" where
  "withTrafficControlPercentage trafficControlPercentage b = setAttribute TRAFFIC_CONTROL_PERCENTAGE (b\<lparr>mTrafficControlPercentage := trafficControlPercentage\<rparr>)"

definition withApplicationId :: "UTF8String \<Rightarrow> Builder \<Rightarrow> Builder" where
  "withApplicationId applicationId b = setAttribute APPLICATION_ID (b\<lparr>mApplicationId := applicationId\<rparr>)"

definition withMultiplicity :: "int32 \<Rightarrow> Builder \<Rightarrow> Builder" where
  "withMultiplicity multiplicity b = setAttribute MULTIPLICITY (b\<lparr>mMultiplicity := multiplicity\<rparr>)"

definition withServerId :: "int32 \<Rightarrow> Builder \<Rightarrow> Builder" where
  "withServerId serverId b = setAttribute SERVER_ID (b\<lparr>mServerId := serverId\<rparr>)"

definition withStatus :: "UTF8String \<Rightarrow> Builder \<Rightarrow> Builder" where
  "withStatus status b = setAttribute STATUS (b\<lparr>mStatus := status\<rparr>)"

definition withTimestampInMilliseconds :: "int64 \<Rightarrow> Builder \<Rightarrow> Builder" where
  "withTimestampInMilliseconds timestampInMilliseconds b = setAttribute TIMESTAMP (b\<lparr>mTimestampInMilliseconds := timestampInMilliseconds\<rparr>)"

subsection \<open>Merging\<close>

definition applyBeaconSize :: "ResponseAttributes \<Rightarrow> Builder \<Rightarrow> Builder" where
  "applyBeaconSize attributes b = (if isAttributeSet MAX_BEACON_SIZE attributes then withMaxBeaconSizeInBytes (mMaxBeaconSizeInBytes attributes) b else b)"

definition applySessionDuration :: "ResponseAttributes \<Rightarrow> Builder \<Rightarrow> Builder" where
  "applySessionDuration attributes b = (if isAttributeSet MAX_SESSION_DURATION attributes then withMaxSessionDurationInMilliseconds (mMaxSessionDurationInMilliseconds attributes) b else b)"

definition applyEventsPerSession :: "ResponseAttributes \<Rightarrow> Builder \<Rightarrow> Builder" where
  "applyEventsPerSession attributes b = (if isAttributeSet MAX_EVENTS_PER_SESSION attributes then withMaxEventsPerSession (mMaxEventsPerSession attributes) b else b)"

definition applySessionTimeout :: "ResponseAttributes \<Rightarrow> Builder \<Rightarrow> Builder" where
  "applySessionTimeout attributes b = (if isAttributeSet SESSION_IDLE_TIMEOUT attributes then withSessionTimeoutInMilliseconds (mSessionTimeoutInMilliseconds attributes) b else b)"

definition applySendInterval :: "ResponseAttributes \<Rightarrow> Builder \<Rightarrow> Builder" where
  "applySendInterval attributes b = (if isAttributeSet SEND_INTERVAL attributes then withSendIntervalInMilliseconds (mSendIntervalInMilliseconds attributes) b else b)"

definition applyVisitStoreVersion :: "ResponseAttributes \<Rightarrow> Builder \<Rightarrow> Builder" where
  "applyVisitStoreVersion attributes b = (if isAttributeSet VISIT_STORE_VERSION attributes then withVisitStoreVersion (mVisitStoreVersion attributes) b else b)"

definition applyCapture :: "ResponseAttributes \<Rightarrow> Builder \<Rightarrow> Builder" where
  "applyCapture attributes b = (if isAttributeSet IS_CAPTURE attributes then withCapture (mIsCapture attributes) b else b)"

definition applyCaptureCrashes :: "ResponseAttributes \<Rightarrow> Builder \<Rightarrow> Builder" where
  "applyCaptureCrashes attributes b = (if isAttributeSet IS_CAPTURE_CRASHES attributes then withCaptureCrashes (mIsCaptureCrashes attributes) b else b)"

definition applyCaptureErrors :: "ResponseAttributes \<Rightarrow> Builder \<Rightarrow> Builder" where
  "applyCaptureErrors attributes b = (if isAttributeSet IS_CAPTURE_ERRORS attributes then withCaptureErrors (mIsCaptureErrors attributes) b else b)"

definition applyTrafficControlPercentage :: "ResponseAttributes \<Rightarrow> Builder \<Rightarrow> Builder" where
  "applyTrafficControlPercentage attributes b = (if isAttributeSet TRAFFIC_CONTROL_PERCENTAGE attributes then withTrafficControlPercentage (mTrafficControlPercentage attributes) b else b)"

definition applyApplicationId :: "ResponseAttributes \<Rightarrow> Builder \<Rightarrow> Builder" where
  "applyApplicationId attributes b = (if isAttributeSet APPLICATION_ID attributes then withApplicationId (mApplicationId attributes) b else b)"

definition applyMultiplicity :: "ResponseAttributes \<Rightarrow> Builder \<Rightarrow> Builder" where
  "applyMultiplicity attributes b = (if isAttributeSet MULTIPLICITY attributes then withMultiplicity (mMultiplicity attributes) b else b)"

definition applyServerId :: "ResponseAttributes \<Rightarrow> Builder \<Rightarrow> Builder" where
  "applyServerId attributes b = (if isAttributeSet SERVER_ID attributes then withServerId (mServerId attributes) b else b)"

definition applyStatus :: "ResponseAttributes \<Rightarrow> Builder \<Rightarrow> Builder" where
  "applyStatus attributes b = (if isAttributeSet STATUS attributes then withStatus (mStatus attributes) b else b)"

definition applyTimestamp :: "ResponseAttributes \<Rightarrow> Builder \<Rightarrow> Builder" where
  "applyTimestamp attributes b = (if isAttributeSet TIMESTAMP attributes then withTimestampInMilliseconds (mTimestampInMilliseconds attributes) b else b)"

definition merge :: "ResponseAttributes \<Rightarrow> ResponseAttributes \<Rightarrow> ResponseAttributes" where
  "merge r attributes =
     (let b = Builder_new r;
          b = applyBeaconSize attributes b;
          b = applySessionDuration attributes b;
          b = applyEventsPerSession attributes b;
          b = applySessionTimeout attributes b;
          b = applySendInterval attributes b;
          b = applyVisitStoreVersion attributes b;
          b = applyCapture attributes b;
          b = applyCaptureCrashes attributes b;
          b = applyCaptureErrors attributes b;
          b = applyTrafficControlPercentage attributes b;
          b = applyApplicationId attributes b;
          b = applyMultiplicity attributes b;
          b = applyServerId attributes b;
          b = applyStatus attributes b;
          b = applyTimestamp attributes b
      in build b)"

subsection \<open>The contract of an attribute\<close>

locale attribute_accessor =
  fixes attribute :: ResponseAttribute
    and get :: "ResponseAttributes \<Rightarrow> 'v"
    and set_value :: "'v \<Rightarrow> Builder \<Rightarrow> Builder"
  assumes get_set: "get (set_value v b) = v"
    and set_get: "attribute \<in> mSetAttributes b \<Longrightarrow> set_value (get b) b = b"
    and set_attributes: "mSetAttributes (set_value v b) = insert attribute (mSetAttributes b)"
begin

text \<open>Taking over an attribute that is set, as the functions of the merge do.\<close>

definition take_over :: "ResponseAttributes \<Rightarrow> Builder \<Rightarrow> Builder" where
  "take_over r b = (if isAttributeSet attribute r then set_value (get r) b else b)"

lemma get_take_over: "get (take_over r b) = (if isAttributeSet attribute r then get r else get b)"
  by (simp add: take_over_def get_set)

lemma take_over_attributes: "mSetAttributes (take_over r b) = mSetAttributes b \<union> (mSetAttributes r \<inter> {attribute})"
  by (auto simp: take_over_def set_attributes isAttributeSet_def)

lemma take_over_same: "take_over b b = b"
  by (simp add: take_over_def set_get isAttributeSet_def)

end

text \<open>The accessors of the code.\<close>

lemma setAttribute_simps [simp]:
  "mSetAttributes (setAttribute a b) = insert a (mSetAttributes b)"
  "mMaxBeaconSizeInBytes (setAttribute a b) = mMaxBeaconSizeInBytes b"
  "mMaxSessionDurationInMilliseconds (setAttribute a b) = mMaxSessionDurationInMilliseconds b"
  "mMaxEventsPerSession (setAttribute a b) = mMaxEventsPerSession b"
  "mSessionTimeoutInMilliseconds (setAttribute a b) = mSessionTimeoutInMilliseconds b"
  "mSendIntervalInMilliseconds (setAttribute a b) = mSendIntervalInMilliseconds b"
  "mVisitStoreVersion (setAttribute a b) = mVisitStoreVersion b"
  "mIsCapture (setAttribute a b) = mIsCapture b"
  "mIsCaptureCrashes (setAttribute a b) = mIsCaptureCrashes b"
  "mIsCaptureErrors (setAttribute a b) = mIsCaptureErrors b"
  "mTrafficControlPercentage (setAttribute a b) = mTrafficControlPercentage b"
  "mApplicationId (setAttribute a b) = mApplicationId b"
  "mMultiplicity (setAttribute a b) = mMultiplicity b"
  "mServerId (setAttribute a b) = mServerId b"
  "mStatus (setAttribute a b) = mStatus b"
  "mTimestampInMilliseconds (setAttribute a b) = mTimestampInMilliseconds b"
  by (simp_all add: setAttribute_def)

lemma setAttribute_set: "a \<in> mSetAttributes b \<Longrightarrow> setAttribute a b = b"
  by (simp add: setAttribute_def insert_absorb)

interpretation attr_MaxBeaconSizeInBytes: attribute_accessor MAX_BEACON_SIZE mMaxBeaconSizeInBytes withMaxBeaconSizeInBytes
  by unfold_locales (simp_all add: withMaxBeaconSizeInBytes_def setAttribute_set)

interpretation attr_MaxSessionDurationInMilliseconds: attribute_accessor MAX_SESSION_DURATION mMaxSessionDurationInMilliseconds withMaxSessionDurationInMilliseconds
  by unfold_locales (simp_all add: withMaxSessionDurationInMilliseconds_def setAttribute_set)

interpretation attr_MaxEventsPerSession: attribute_accessor MAX_EVENTS_PER_SESSION mMaxEventsPerSession withMaxEventsPerSession
  by unfold_locales (simp_all add: withMaxEventsPerSession_def setAttribute_set)

interpretation attr_SessionTimeoutInMilliseconds: attribute_accessor SESSION_IDLE_TIMEOUT mSessionTimeoutInMilliseconds withSessionTimeoutInMilliseconds
  by unfold_locales (simp_all add: withSessionTimeoutInMilliseconds_def setAttribute_set)

interpretation attr_SendIntervalInMilliseconds: attribute_accessor SEND_INTERVAL mSendIntervalInMilliseconds withSendIntervalInMilliseconds
  by unfold_locales (simp_all add: withSendIntervalInMilliseconds_def setAttribute_set)

interpretation attr_VisitStoreVersion: attribute_accessor VISIT_STORE_VERSION mVisitStoreVersion withVisitStoreVersion
  by unfold_locales (simp_all add: withVisitStoreVersion_def setAttribute_set)

interpretation attr_IsCapture: attribute_accessor IS_CAPTURE mIsCapture withCapture
  by unfold_locales (simp_all add: withCapture_def setAttribute_set)

interpretation attr_IsCaptureCrashes: attribute_accessor IS_CAPTURE_CRASHES mIsCaptureCrashes withCaptureCrashes
  by unfold_locales (simp_all add: withCaptureCrashes_def setAttribute_set)

interpretation attr_IsCaptureErrors: attribute_accessor IS_CAPTURE_ERRORS mIsCaptureErrors withCaptureErrors
  by unfold_locales (simp_all add: withCaptureErrors_def setAttribute_set)

interpretation attr_TrafficControlPercentage: attribute_accessor TRAFFIC_CONTROL_PERCENTAGE mTrafficControlPercentage withTrafficControlPercentage
  by unfold_locales (simp_all add: withTrafficControlPercentage_def setAttribute_set)

interpretation attr_ApplicationId: attribute_accessor APPLICATION_ID mApplicationId withApplicationId
  by unfold_locales (simp_all add: withApplicationId_def setAttribute_set)

interpretation attr_Multiplicity: attribute_accessor MULTIPLICITY mMultiplicity withMultiplicity
  by unfold_locales (simp_all add: withMultiplicity_def setAttribute_set)

interpretation attr_ServerId: attribute_accessor SERVER_ID mServerId withServerId
  by unfold_locales (simp_all add: withServerId_def setAttribute_set)

interpretation attr_Status: attribute_accessor STATUS mStatus withStatus
  by unfold_locales (simp_all add: withStatus_def setAttribute_set)

interpretation attr_TimestampInMilliseconds: attribute_accessor TIMESTAMP mTimestampInMilliseconds withTimestampInMilliseconds
  by unfold_locales (simp_all add: withTimestampInMilliseconds_def setAttribute_set)

text \<open>Every builder function writes one field.\<close>

lemma with_frame [simp]:
  "mMaxBeaconSizeInBytes (withMaxBeaconSizeInBytes v b) = v"
  "mMaxSessionDurationInMilliseconds (withMaxBeaconSizeInBytes v b) = mMaxSessionDurationInMilliseconds b"
  "mMaxEventsPerSession (withMaxBeaconSizeInBytes v b) = mMaxEventsPerSession b"
  "mSessionTimeoutInMilliseconds (withMaxBeaconSizeInBytes v b) = mSessionTimeoutInMilliseconds b"
  "mSendIntervalInMilliseconds (withMaxBeaconSizeInBytes v b) = mSendIntervalInMilliseconds b"
  "mVisitStoreVersion (withMaxBeaconSizeInBytes v b) = mVisitStoreVersion b"
  "mIsCapture (withMaxBeaconSizeInBytes v b) = mIsCapture b"
  "mIsCaptureCrashes (withMaxBeaconSizeInBytes v b) = mIsCaptureCrashes b"
  "mIsCaptureErrors (withMaxBeaconSizeInBytes v b) = mIsCaptureErrors b"
  "mTrafficControlPercentage (withMaxBeaconSizeInBytes v b) = mTrafficControlPercentage b"
  "mApplicationId (withMaxBeaconSizeInBytes v b) = mApplicationId b"
  "mMultiplicity (withMaxBeaconSizeInBytes v b) = mMultiplicity b"
  "mServerId (withMaxBeaconSizeInBytes v b) = mServerId b"
  "mStatus (withMaxBeaconSizeInBytes v b) = mStatus b"
  "mTimestampInMilliseconds (withMaxBeaconSizeInBytes v b) = mTimestampInMilliseconds b"
  "mMaxBeaconSizeInBytes (withMaxSessionDurationInMilliseconds v b) = mMaxBeaconSizeInBytes b"
  "mMaxSessionDurationInMilliseconds (withMaxSessionDurationInMilliseconds v b) = v"
  "mMaxEventsPerSession (withMaxSessionDurationInMilliseconds v b) = mMaxEventsPerSession b"
  "mSessionTimeoutInMilliseconds (withMaxSessionDurationInMilliseconds v b) = mSessionTimeoutInMilliseconds b"
  "mSendIntervalInMilliseconds (withMaxSessionDurationInMilliseconds v b) = mSendIntervalInMilliseconds b"
  "mVisitStoreVersion (withMaxSessionDurationInMilliseconds v b) = mVisitStoreVersion b"
  "mIsCapture (withMaxSessionDurationInMilliseconds v b) = mIsCapture b"
  "mIsCaptureCrashes (withMaxSessionDurationInMilliseconds v b) = mIsCaptureCrashes b"
  "mIsCaptureErrors (withMaxSessionDurationInMilliseconds v b) = mIsCaptureErrors b"
  "mTrafficControlPercentage (withMaxSessionDurationInMilliseconds v b) = mTrafficControlPercentage b"
  "mApplicationId (withMaxSessionDurationInMilliseconds v b) = mApplicationId b"
  "mMultiplicity (withMaxSessionDurationInMilliseconds v b) = mMultiplicity b"
  "mServerId (withMaxSessionDurationInMilliseconds v b) = mServerId b"
  "mStatus (withMaxSessionDurationInMilliseconds v b) = mStatus b"
  "mTimestampInMilliseconds (withMaxSessionDurationInMilliseconds v b) = mTimestampInMilliseconds b"
  "mMaxBeaconSizeInBytes (withMaxEventsPerSession v b) = mMaxBeaconSizeInBytes b"
  "mMaxSessionDurationInMilliseconds (withMaxEventsPerSession v b) = mMaxSessionDurationInMilliseconds b"
  "mMaxEventsPerSession (withMaxEventsPerSession v b) = v"
  "mSessionTimeoutInMilliseconds (withMaxEventsPerSession v b) = mSessionTimeoutInMilliseconds b"
  "mSendIntervalInMilliseconds (withMaxEventsPerSession v b) = mSendIntervalInMilliseconds b"
  "mVisitStoreVersion (withMaxEventsPerSession v b) = mVisitStoreVersion b"
  "mIsCapture (withMaxEventsPerSession v b) = mIsCapture b"
  "mIsCaptureCrashes (withMaxEventsPerSession v b) = mIsCaptureCrashes b"
  "mIsCaptureErrors (withMaxEventsPerSession v b) = mIsCaptureErrors b"
  "mTrafficControlPercentage (withMaxEventsPerSession v b) = mTrafficControlPercentage b"
  "mApplicationId (withMaxEventsPerSession v b) = mApplicationId b"
  "mMultiplicity (withMaxEventsPerSession v b) = mMultiplicity b"
  "mServerId (withMaxEventsPerSession v b) = mServerId b"
  "mStatus (withMaxEventsPerSession v b) = mStatus b"
  "mTimestampInMilliseconds (withMaxEventsPerSession v b) = mTimestampInMilliseconds b"
  "mMaxBeaconSizeInBytes (withSessionTimeoutInMilliseconds v b) = mMaxBeaconSizeInBytes b"
  "mMaxSessionDurationInMilliseconds (withSessionTimeoutInMilliseconds v b) = mMaxSessionDurationInMilliseconds b"
  "mMaxEventsPerSession (withSessionTimeoutInMilliseconds v b) = mMaxEventsPerSession b"
  "mSessionTimeoutInMilliseconds (withSessionTimeoutInMilliseconds v b) = v"
  "mSendIntervalInMilliseconds (withSessionTimeoutInMilliseconds v b) = mSendIntervalInMilliseconds b"
  "mVisitStoreVersion (withSessionTimeoutInMilliseconds v b) = mVisitStoreVersion b"
  "mIsCapture (withSessionTimeoutInMilliseconds v b) = mIsCapture b"
  "mIsCaptureCrashes (withSessionTimeoutInMilliseconds v b) = mIsCaptureCrashes b"
  "mIsCaptureErrors (withSessionTimeoutInMilliseconds v b) = mIsCaptureErrors b"
  "mTrafficControlPercentage (withSessionTimeoutInMilliseconds v b) = mTrafficControlPercentage b"
  "mApplicationId (withSessionTimeoutInMilliseconds v b) = mApplicationId b"
  "mMultiplicity (withSessionTimeoutInMilliseconds v b) = mMultiplicity b"
  "mServerId (withSessionTimeoutInMilliseconds v b) = mServerId b"
  "mStatus (withSessionTimeoutInMilliseconds v b) = mStatus b"
  "mTimestampInMilliseconds (withSessionTimeoutInMilliseconds v b) = mTimestampInMilliseconds b"
  "mMaxBeaconSizeInBytes (withSendIntervalInMilliseconds v b) = mMaxBeaconSizeInBytes b"
  "mMaxSessionDurationInMilliseconds (withSendIntervalInMilliseconds v b) = mMaxSessionDurationInMilliseconds b"
  "mMaxEventsPerSession (withSendIntervalInMilliseconds v b) = mMaxEventsPerSession b"
  "mSessionTimeoutInMilliseconds (withSendIntervalInMilliseconds v b) = mSessionTimeoutInMilliseconds b"
  "mSendIntervalInMilliseconds (withSendIntervalInMilliseconds v b) = v"
  "mVisitStoreVersion (withSendIntervalInMilliseconds v b) = mVisitStoreVersion b"
  "mIsCapture (withSendIntervalInMilliseconds v b) = mIsCapture b"
  "mIsCaptureCrashes (withSendIntervalInMilliseconds v b) = mIsCaptureCrashes b"
  "mIsCaptureErrors (withSendIntervalInMilliseconds v b) = mIsCaptureErrors b"
  "mTrafficControlPercentage (withSendIntervalInMilliseconds v b) = mTrafficControlPercentage b"
  "mApplicationId (withSendIntervalInMilliseconds v b) = mApplicationId b"
  "mMultiplicity (withSendIntervalInMilliseconds v b) = mMultiplicity b"
  "mServerId (withSendIntervalInMilliseconds v b) = mServerId b"
  "mStatus (withSendIntervalInMilliseconds v b) = mStatus b"
  "mTimestampInMilliseconds (withSendIntervalInMilliseconds v b) = mTimestampInMilliseconds b"
  "mMaxBeaconSizeInBytes (withVisitStoreVersion v b) = mMaxBeaconSizeInBytes b"
  "mMaxSessionDurationInMilliseconds (withVisitStoreVersion v b) = mMaxSessionDurationInMilliseconds b"
  "mMaxEventsPerSession (withVisitStoreVersion v b) = mMaxEventsPerSession b"
  "mSessionTimeoutInMilliseconds (withVisitStoreVersion v b) = mSessionTimeoutInMilliseconds b"
  "mSendIntervalInMilliseconds (withVisitStoreVersion v b) = mSendIntervalInMilliseconds b"
  "mVisitStoreVersion (withVisitStoreVersion v b) = v"
  "mIsCapture (withVisitStoreVersion v b) = mIsCapture b"
  "mIsCaptureCrashes (withVisitStoreVersion v b) = mIsCaptureCrashes b"
  "mIsCaptureErrors (withVisitStoreVersion v b) = mIsCaptureErrors b"
  "mTrafficControlPercentage (withVisitStoreVersion v b) = mTrafficControlPercentage b"
  "mApplicationId (withVisitStoreVersion v b) = mApplicationId b"
  "mMultiplicity (withVisitStoreVersion v b) = mMultiplicity b"
  "mServerId (withVisitStoreVersion v b) = mServerId b"
  "mStatus (withVisitStoreVersion v b) = mStatus b"
  "mTimestampInMilliseconds (withVisitStoreVersion v b) = mTimestampInMilliseconds b"
  "mMaxBeaconSizeInBytes (withCapture c b) = mMaxBeaconSizeInBytes b"
  "mMaxSessionDurationInMilliseconds (withCapture c b) = mMaxSessionDurationInMilliseconds b"
  "mMaxEventsPerSession (withCapture c b) = mMaxEventsPerSession b"
  "mSessionTimeoutInMilliseconds (withCapture c b) = mSessionTimeoutInMilliseconds b"
  "mSendIntervalInMilliseconds (withCapture c b) = mSendIntervalInMilliseconds b"
  "mVisitStoreVersion (withCapture c b) = mVisitStoreVersion b"
  "mIsCapture (withCapture c b) = c"
  "mIsCaptureCrashes (withCapture c b) = mIsCaptureCrashes b"
  "mIsCaptureErrors (withCapture c b) = mIsCaptureErrors b"
  "mTrafficControlPercentage (withCapture c b) = mTrafficControlPercentage b"
  "mApplicationId (withCapture c b) = mApplicationId b"
  "mMultiplicity (withCapture c b) = mMultiplicity b"
  "mServerId (withCapture c b) = mServerId b"
  "mStatus (withCapture c b) = mStatus b"
  "mTimestampInMilliseconds (withCapture c b) = mTimestampInMilliseconds b"
  "mMaxBeaconSizeInBytes (withCaptureCrashes c b) = mMaxBeaconSizeInBytes b"
  "mMaxSessionDurationInMilliseconds (withCaptureCrashes c b) = mMaxSessionDurationInMilliseconds b"
  "mMaxEventsPerSession (withCaptureCrashes c b) = mMaxEventsPerSession b"
  "mSessionTimeoutInMilliseconds (withCaptureCrashes c b) = mSessionTimeoutInMilliseconds b"
  "mSendIntervalInMilliseconds (withCaptureCrashes c b) = mSendIntervalInMilliseconds b"
  "mVisitStoreVersion (withCaptureCrashes c b) = mVisitStoreVersion b"
  "mIsCapture (withCaptureCrashes c b) = mIsCapture b"
  "mIsCaptureCrashes (withCaptureCrashes c b) = c"
  "mIsCaptureErrors (withCaptureCrashes c b) = mIsCaptureErrors b"
  "mTrafficControlPercentage (withCaptureCrashes c b) = mTrafficControlPercentage b"
  "mApplicationId (withCaptureCrashes c b) = mApplicationId b"
  "mMultiplicity (withCaptureCrashes c b) = mMultiplicity b"
  "mServerId (withCaptureCrashes c b) = mServerId b"
  "mStatus (withCaptureCrashes c b) = mStatus b"
  "mTimestampInMilliseconds (withCaptureCrashes c b) = mTimestampInMilliseconds b"
  "mMaxBeaconSizeInBytes (withCaptureErrors c b) = mMaxBeaconSizeInBytes b"
  "mMaxSessionDurationInMilliseconds (withCaptureErrors c b) = mMaxSessionDurationInMilliseconds b"
  "mMaxEventsPerSession (withCaptureErrors c b) = mMaxEventsPerSession b"
  "mSessionTimeoutInMilliseconds (withCaptureErrors c b) = mSessionTimeoutInMilliseconds b"
  "mSendIntervalInMilliseconds (withCaptureErrors c b) = mSendIntervalInMilliseconds b"
  "mVisitStoreVersion (withCaptureErrors c b) = mVisitStoreVersion b"
  "mIsCapture (withCaptureErrors c b) = mIsCapture b"
  "mIsCaptureCrashes (withCaptureErrors c b) = mIsCaptureCrashes b"
  "mIsCaptureErrors (withCaptureErrors c b) = c"
  "mTrafficControlPercentage (withCaptureErrors c b) = mTrafficControlPercentage b"
  "mApplicationId (withCaptureErrors c b) = mApplicationId b"
  "mMultiplicity (withCaptureErrors c b) = mMultiplicity b"
  "mServerId (withCaptureErrors c b) = mServerId b"
  "mStatus (withCaptureErrors c b) = mStatus b"
  "mTimestampInMilliseconds (withCaptureErrors c b) = mTimestampInMilliseconds b"
  "mMaxBeaconSizeInBytes (withTrafficControlPercentage v b) = mMaxBeaconSizeInBytes b"
  "mMaxSessionDurationInMilliseconds (withTrafficControlPercentage v b) = mMaxSessionDurationInMilliseconds b"
  "mMaxEventsPerSession (withTrafficControlPercentage v b) = mMaxEventsPerSession b"
  "mSessionTimeoutInMilliseconds (withTrafficControlPercentage v b) = mSessionTimeoutInMilliseconds b"
  "mSendIntervalInMilliseconds (withTrafficControlPercentage v b) = mSendIntervalInMilliseconds b"
  "mVisitStoreVersion (withTrafficControlPercentage v b) = mVisitStoreVersion b"
  "mIsCapture (withTrafficControlPercentage v b) = mIsCapture b"
  "mIsCaptureCrashes (withTrafficControlPercentage v b) = mIsCaptureCrashes b"
  "mIsCaptureErrors (withTrafficControlPercentage v b) = mIsCaptureErrors b"
  "mTrafficControlPercentage (withTrafficControlPercentage v b) = v"
  "mApplicationId (withTrafficControlPercentage v b) = mApplicationId b"
  "mMultiplicity (withTrafficControlPercentage v b) = mMultiplicity b"
  "mServerId (withTrafficControlPercentage v b) = mServerId b"
  "mStatus (withTrafficControlPercentage v b) = mStatus b"
  "mTimestampInMilliseconds (withTrafficControlPercentage v b) = mTimestampInMilliseconds b"
  "mMaxBeaconSizeInBytes (withApplicationId str b) = mMaxBeaconSizeInBytes b"
  "mMaxSessionDurationInMilliseconds (withApplicationId str b) = mMaxSessionDurationInMilliseconds b"
  "mMaxEventsPerSession (withApplicationId str b) = mMaxEventsPerSession b"
  "mSessionTimeoutInMilliseconds (withApplicationId str b) = mSessionTimeoutInMilliseconds b"
  "mSendIntervalInMilliseconds (withApplicationId str b) = mSendIntervalInMilliseconds b"
  "mVisitStoreVersion (withApplicationId str b) = mVisitStoreVersion b"
  "mIsCapture (withApplicationId str b) = mIsCapture b"
  "mIsCaptureCrashes (withApplicationId str b) = mIsCaptureCrashes b"
  "mIsCaptureErrors (withApplicationId str b) = mIsCaptureErrors b"
  "mTrafficControlPercentage (withApplicationId str b) = mTrafficControlPercentage b"
  "mApplicationId (withApplicationId str b) = str"
  "mMultiplicity (withApplicationId str b) = mMultiplicity b"
  "mServerId (withApplicationId str b) = mServerId b"
  "mStatus (withApplicationId str b) = mStatus b"
  "mTimestampInMilliseconds (withApplicationId str b) = mTimestampInMilliseconds b"
  "mMaxBeaconSizeInBytes (withMultiplicity v b) = mMaxBeaconSizeInBytes b"
  "mMaxSessionDurationInMilliseconds (withMultiplicity v b) = mMaxSessionDurationInMilliseconds b"
  "mMaxEventsPerSession (withMultiplicity v b) = mMaxEventsPerSession b"
  "mSessionTimeoutInMilliseconds (withMultiplicity v b) = mSessionTimeoutInMilliseconds b"
  "mSendIntervalInMilliseconds (withMultiplicity v b) = mSendIntervalInMilliseconds b"
  "mVisitStoreVersion (withMultiplicity v b) = mVisitStoreVersion b"
  "mIsCapture (withMultiplicity v b) = mIsCapture b"
  "mIsCaptureCrashes (withMultiplicity v b) = mIsCaptureCrashes b"
  "mIsCaptureErrors (withMultiplicity v b) = mIsCaptureErrors b"
  "mTrafficControlPercentage (withMultiplicity v b) = mTrafficControlPercentage b"
  "mApplicationId (withMultiplicity v b) = mApplicationId b"
  "mMultiplicity (withMultiplicity v b) = v"
  "mServerId (withMultiplicity v b) = mServerId b"
  "mStatus (withMultiplicity v b) = mStatus b"
  "mTimestampInMilliseconds (withMultiplicity v b) = mTimestampInMilliseconds b"
  "mMaxBeaconSizeInBytes (withServerId v b) = mMaxBeaconSizeInBytes b"
  "mMaxSessionDurationInMilliseconds (withServerId v b) = mMaxSessionDurationInMilliseconds b"
  "mMaxEventsPerSession (withServerId v b) = mMaxEventsPerSession b"
  "mSessionTimeoutInMilliseconds (withServerId v b) = mSessionTimeoutInMilliseconds b"
  "mSendIntervalInMilliseconds (withServerId v b) = mSendIntervalInMilliseconds b"
  "mVisitStoreVersion (withServerId v b) = mVisitStoreVersion b"
  "mIsCapture (withServerId v b) = mIsCapture b"
  "mIsCaptureCrashes (withServerId v b) = mIsCaptureCrashes b"
  "mIsCaptureErrors (withServerId v b) = mIsCaptureErrors b"
  "mTrafficControlPercentage (withServerId v b) = mTrafficControlPercentage b"
  "mApplicationId (withServerId v b) = mApplicationId b"
  "mMultiplicity (withServerId v b) = mMultiplicity b"
  "mServerId (withServerId v b) = v"
  "mStatus (withServerId v b) = mStatus b"
  "mTimestampInMilliseconds (withServerId v b) = mTimestampInMilliseconds b"
  "mMaxBeaconSizeInBytes (withStatus str b) = mMaxBeaconSizeInBytes b"
  "mMaxSessionDurationInMilliseconds (withStatus str b) = mMaxSessionDurationInMilliseconds b"
  "mMaxEventsPerSession (withStatus str b) = mMaxEventsPerSession b"
  "mSessionTimeoutInMilliseconds (withStatus str b) = mSessionTimeoutInMilliseconds b"
  "mSendIntervalInMilliseconds (withStatus str b) = mSendIntervalInMilliseconds b"
  "mVisitStoreVersion (withStatus str b) = mVisitStoreVersion b"
  "mIsCapture (withStatus str b) = mIsCapture b"
  "mIsCaptureCrashes (withStatus str b) = mIsCaptureCrashes b"
  "mIsCaptureErrors (withStatus str b) = mIsCaptureErrors b"
  "mTrafficControlPercentage (withStatus str b) = mTrafficControlPercentage b"
  "mApplicationId (withStatus str b) = mApplicationId b"
  "mMultiplicity (withStatus str b) = mMultiplicity b"
  "mServerId (withStatus str b) = mServerId b"
  "mStatus (withStatus str b) = str"
  "mTimestampInMilliseconds (withStatus str b) = mTimestampInMilliseconds b"
  "mMaxBeaconSizeInBytes (withTimestampInMilliseconds t b) = mMaxBeaconSizeInBytes b"
  "mMaxSessionDurationInMilliseconds (withTimestampInMilliseconds t b) = mMaxSessionDurationInMilliseconds b"
  "mMaxEventsPerSession (withTimestampInMilliseconds t b) = mMaxEventsPerSession b"
  "mSessionTimeoutInMilliseconds (withTimestampInMilliseconds t b) = mSessionTimeoutInMilliseconds b"
  "mSendIntervalInMilliseconds (withTimestampInMilliseconds t b) = mSendIntervalInMilliseconds b"
  "mVisitStoreVersion (withTimestampInMilliseconds t b) = mVisitStoreVersion b"
  "mIsCapture (withTimestampInMilliseconds t b) = mIsCapture b"
  "mIsCaptureCrashes (withTimestampInMilliseconds t b) = mIsCaptureCrashes b"
  "mIsCaptureErrors (withTimestampInMilliseconds t b) = mIsCaptureErrors b"
  "mTrafficControlPercentage (withTimestampInMilliseconds t b) = mTrafficControlPercentage b"
  "mApplicationId (withTimestampInMilliseconds t b) = mApplicationId b"
  "mMultiplicity (withTimestampInMilliseconds t b) = mMultiplicity b"
  "mServerId (withTimestampInMilliseconds t b) = mServerId b"
  "mStatus (withTimestampInMilliseconds t b) = mStatus b"
  "mTimestampInMilliseconds (withTimestampInMilliseconds t b) = t"
  by (simp_all add: withMaxBeaconSizeInBytes_def
    withMaxSessionDurationInMilliseconds_def
    withMaxEventsPerSession_def
    withSessionTimeoutInMilliseconds_def
    withSendIntervalInMilliseconds_def
    withVisitStoreVersion_def
    withCapture_def
    withCaptureCrashes_def
    withCaptureErrors_def
    withTrafficControlPercentage_def
    withApplicationId_def
    withMultiplicity_def
    withServerId_def
    withStatus_def
    withTimestampInMilliseconds_def)

lemmas with_attributes [simp] =
  attr_MaxBeaconSizeInBytes.set_attributes
  attr_MaxSessionDurationInMilliseconds.set_attributes
  attr_MaxEventsPerSession.set_attributes
  attr_SessionTimeoutInMilliseconds.set_attributes
  attr_SendIntervalInMilliseconds.set_attributes
  attr_VisitStoreVersion.set_attributes
  attr_IsCapture.set_attributes
  attr_IsCaptureCrashes.set_attributes
  attr_IsCaptureErrors.set_attributes
  attr_TrafficControlPercentage.set_attributes
  attr_ApplicationId.set_attributes
  attr_Multiplicity.set_attributes
  attr_ServerId.set_attributes
  attr_Status.set_attributes
  attr_TimestampInMilliseconds.set_attributes

lemma apply_take_over:
  "applyBeaconSize = attr_MaxBeaconSizeInBytes.take_over"
  "applySessionDuration = attr_MaxSessionDurationInMilliseconds.take_over"
  "applyEventsPerSession = attr_MaxEventsPerSession.take_over"
  "applySessionTimeout = attr_SessionTimeoutInMilliseconds.take_over"
  "applySendInterval = attr_SendIntervalInMilliseconds.take_over"
  "applyVisitStoreVersion = attr_VisitStoreVersion.take_over"
  "applyCapture = attr_IsCapture.take_over"
  "applyCaptureCrashes = attr_IsCaptureCrashes.take_over"
  "applyCaptureErrors = attr_IsCaptureErrors.take_over"
  "applyTrafficControlPercentage = attr_TrafficControlPercentage.take_over"
  "applyApplicationId = attr_ApplicationId.take_over"
  "applyMultiplicity = attr_Multiplicity.take_over"
  "applyServerId = attr_ServerId.take_over"
  "applyStatus = attr_Status.take_over"
  "applyTimestamp = attr_TimestampInMilliseconds.take_over"
  by (simp_all add: fun_eq_iff applyBeaconSize_def applySessionDuration_def applyEventsPerSession_def applySessionTimeout_def applySendInterval_def applyVisitStoreVersion_def applyCapture_def applyCaptureCrashes_def applyCaptureErrors_def applyTrafficControlPercentage_def applyApplicationId_def applyMultiplicity_def applyServerId_def applyStatus_def applyTimestamp_def
    attr_MaxBeaconSizeInBytes.take_over_def attr_MaxSessionDurationInMilliseconds.take_over_def attr_MaxEventsPerSession.take_over_def attr_SessionTimeoutInMilliseconds.take_over_def attr_SendIntervalInMilliseconds.take_over_def attr_VisitStoreVersion.take_over_def attr_IsCapture.take_over_def attr_IsCaptureCrashes.take_over_def attr_IsCaptureErrors.take_over_def attr_TrafficControlPercentage.take_over_def attr_ApplicationId.take_over_def attr_Multiplicity.take_over_def attr_ServerId.take_over_def attr_Status.take_over_def attr_TimestampInMilliseconds.take_over_def)

subsection \<open>What a merge gives\<close>

lemma all_attributes: "set ALL_RESPONSE_ATTRIBUTES = UNIV"
proof -
  have "a \<in> set ALL_RESPONSE_ATTRIBUTES" for a by (cases a) (simp_all add: ALL_RESPONSE_ATTRIBUTES_def)
  then show ?thesis by blast
qed

lemma Builder_new_fold:
  "fold (\<lambda>attribute b. if isAttributeSet attribute d then setAttribute attribute b else b) as b =
    b\<lparr>mSetAttributes := mSetAttributes b \<union> (set as \<inter> mSetAttributes d)\<rparr>"
  by (induction as arbitrary: b) (auto simp: isAttributeSet_def setAttribute_def insert_absorb)

lemma Builder_new_eq: "Builder_new d = d"
  unfolding Builder_new_def Builder_new_fold all_attributes by simp

text \<open>The value of an attribute in a merge, for each attribute; and the attributes that are set.\<close>

definition chosen :: "ResponseAttribute \<Rightarrow> (ResponseAttributes \<Rightarrow> 'v) \<Rightarrow> ResponseAttributes \<Rightarrow> ResponseAttributes \<Rightarrow> 'v" where
  "chosen attribute get r attributes = (if isAttributeSet attribute attributes then get attributes else get r)"

definition with_values :: "ResponseAttributes \<Rightarrow> ResponseAttributes \<Rightarrow> ResponseAttributes" where
  "with_values r s =
     \<lparr>mSetAttributes = mSetAttributes r \<union> mSetAttributes s,
      mMaxBeaconSizeInBytes = chosen MAX_BEACON_SIZE mMaxBeaconSizeInBytes r s,
      mMaxSessionDurationInMilliseconds = chosen MAX_SESSION_DURATION mMaxSessionDurationInMilliseconds r s,
      mMaxEventsPerSession = chosen MAX_EVENTS_PER_SESSION mMaxEventsPerSession r s,
      mSessionTimeoutInMilliseconds = chosen SESSION_IDLE_TIMEOUT mSessionTimeoutInMilliseconds r s,
      mSendIntervalInMilliseconds = chosen SEND_INTERVAL mSendIntervalInMilliseconds r s,
      mVisitStoreVersion = chosen VISIT_STORE_VERSION mVisitStoreVersion r s,
      mIsCapture = chosen IS_CAPTURE mIsCapture r s,
      mIsCaptureCrashes = chosen IS_CAPTURE_CRASHES mIsCaptureCrashes r s,
      mIsCaptureErrors = chosen IS_CAPTURE_ERRORS mIsCaptureErrors r s,
      mTrafficControlPercentage = chosen TRAFFIC_CONTROL_PERCENTAGE mTrafficControlPercentage r s,
      mApplicationId = chosen APPLICATION_ID mApplicationId r s,
      mMultiplicity = chosen MULTIPLICITY mMultiplicity r s,
      mServerId = chosen SERVER_ID mServerId r s,
      mStatus = chosen STATUS mStatus r s,
      mTimestampInMilliseconds = chosen TIMESTAMP mTimestampInMilliseconds r s\<rparr>"

lemma apply_simps [simp]:
  "mSetAttributes (applyBeaconSize s b) = mSetAttributes b \<union> (mSetAttributes s \<inter> {MAX_BEACON_SIZE})"
  "mMaxBeaconSizeInBytes (applyBeaconSize s b) = chosen MAX_BEACON_SIZE mMaxBeaconSizeInBytes b s"
  "mSetAttributes (applySessionDuration s b) = mSetAttributes b \<union> (mSetAttributes s \<inter> {MAX_SESSION_DURATION})"
  "mMaxSessionDurationInMilliseconds (applySessionDuration s b) = chosen MAX_SESSION_DURATION mMaxSessionDurationInMilliseconds b s"
  "mSetAttributes (applyEventsPerSession s b) = mSetAttributes b \<union> (mSetAttributes s \<inter> {MAX_EVENTS_PER_SESSION})"
  "mMaxEventsPerSession (applyEventsPerSession s b) = chosen MAX_EVENTS_PER_SESSION mMaxEventsPerSession b s"
  "mSetAttributes (applySessionTimeout s b) = mSetAttributes b \<union> (mSetAttributes s \<inter> {SESSION_IDLE_TIMEOUT})"
  "mSessionTimeoutInMilliseconds (applySessionTimeout s b) = chosen SESSION_IDLE_TIMEOUT mSessionTimeoutInMilliseconds b s"
  "mSetAttributes (applySendInterval s b) = mSetAttributes b \<union> (mSetAttributes s \<inter> {SEND_INTERVAL})"
  "mSendIntervalInMilliseconds (applySendInterval s b) = chosen SEND_INTERVAL mSendIntervalInMilliseconds b s"
  "mSetAttributes (applyVisitStoreVersion s b) = mSetAttributes b \<union> (mSetAttributes s \<inter> {VISIT_STORE_VERSION})"
  "mVisitStoreVersion (applyVisitStoreVersion s b) = chosen VISIT_STORE_VERSION mVisitStoreVersion b s"
  "mSetAttributes (applyCapture s b) = mSetAttributes b \<union> (mSetAttributes s \<inter> {IS_CAPTURE})"
  "mIsCapture (applyCapture s b) = chosen IS_CAPTURE mIsCapture b s"
  "mSetAttributes (applyCaptureCrashes s b) = mSetAttributes b \<union> (mSetAttributes s \<inter> {IS_CAPTURE_CRASHES})"
  "mIsCaptureCrashes (applyCaptureCrashes s b) = chosen IS_CAPTURE_CRASHES mIsCaptureCrashes b s"
  "mSetAttributes (applyCaptureErrors s b) = mSetAttributes b \<union> (mSetAttributes s \<inter> {IS_CAPTURE_ERRORS})"
  "mIsCaptureErrors (applyCaptureErrors s b) = chosen IS_CAPTURE_ERRORS mIsCaptureErrors b s"
  "mSetAttributes (applyTrafficControlPercentage s b) = mSetAttributes b \<union> (mSetAttributes s \<inter> {TRAFFIC_CONTROL_PERCENTAGE})"
  "mTrafficControlPercentage (applyTrafficControlPercentage s b) = chosen TRAFFIC_CONTROL_PERCENTAGE mTrafficControlPercentage b s"
  "mSetAttributes (applyApplicationId s b) = mSetAttributes b \<union> (mSetAttributes s \<inter> {APPLICATION_ID})"
  "mApplicationId (applyApplicationId s b) = chosen APPLICATION_ID mApplicationId b s"
  "mSetAttributes (applyMultiplicity s b) = mSetAttributes b \<union> (mSetAttributes s \<inter> {MULTIPLICITY})"
  "mMultiplicity (applyMultiplicity s b) = chosen MULTIPLICITY mMultiplicity b s"
  "mSetAttributes (applyServerId s b) = mSetAttributes b \<union> (mSetAttributes s \<inter> {SERVER_ID})"
  "mServerId (applyServerId s b) = chosen SERVER_ID mServerId b s"
  "mSetAttributes (applyStatus s b) = mSetAttributes b \<union> (mSetAttributes s \<inter> {STATUS})"
  "mStatus (applyStatus s b) = chosen STATUS mStatus b s"
  "mSetAttributes (applyTimestamp s b) = mSetAttributes b \<union> (mSetAttributes s \<inter> {TIMESTAMP})"
  "mTimestampInMilliseconds (applyTimestamp s b) = chosen TIMESTAMP mTimestampInMilliseconds b s"
  by (simp_all only: apply_take_over chosen_def attr_MaxBeaconSizeInBytes.take_over_attributes attr_MaxBeaconSizeInBytes.get_take_over
    attr_MaxSessionDurationInMilliseconds.take_over_attributes attr_MaxSessionDurationInMilliseconds.get_take_over
    attr_MaxEventsPerSession.take_over_attributes attr_MaxEventsPerSession.get_take_over
    attr_SessionTimeoutInMilliseconds.take_over_attributes attr_SessionTimeoutInMilliseconds.get_take_over
    attr_SendIntervalInMilliseconds.take_over_attributes attr_SendIntervalInMilliseconds.get_take_over
    attr_VisitStoreVersion.take_over_attributes attr_VisitStoreVersion.get_take_over
    attr_IsCapture.take_over_attributes attr_IsCapture.get_take_over
    attr_IsCaptureCrashes.take_over_attributes attr_IsCaptureCrashes.get_take_over
    attr_IsCaptureErrors.take_over_attributes attr_IsCaptureErrors.get_take_over
    attr_TrafficControlPercentage.take_over_attributes attr_TrafficControlPercentage.get_take_over
    attr_ApplicationId.take_over_attributes attr_ApplicationId.get_take_over
    attr_Multiplicity.take_over_attributes attr_Multiplicity.get_take_over
    attr_ServerId.take_over_attributes attr_ServerId.get_take_over
    attr_Status.take_over_attributes attr_Status.get_take_over
    attr_TimestampInMilliseconds.take_over_attributes attr_TimestampInMilliseconds.get_take_over)

text \<open>The other attributes are left alone.\<close>

lemma apply_frame [simp]:
  "mMaxSessionDurationInMilliseconds (applyBeaconSize s b) = mMaxSessionDurationInMilliseconds b"
  "mMaxEventsPerSession (applyBeaconSize s b) = mMaxEventsPerSession b"
  "mSessionTimeoutInMilliseconds (applyBeaconSize s b) = mSessionTimeoutInMilliseconds b"
  "mSendIntervalInMilliseconds (applyBeaconSize s b) = mSendIntervalInMilliseconds b"
  "mVisitStoreVersion (applyBeaconSize s b) = mVisitStoreVersion b"
  "mIsCapture (applyBeaconSize s b) = mIsCapture b"
  "mIsCaptureCrashes (applyBeaconSize s b) = mIsCaptureCrashes b"
  "mIsCaptureErrors (applyBeaconSize s b) = mIsCaptureErrors b"
  "mTrafficControlPercentage (applyBeaconSize s b) = mTrafficControlPercentage b"
  "mApplicationId (applyBeaconSize s b) = mApplicationId b"
  "mMultiplicity (applyBeaconSize s b) = mMultiplicity b"
  "mServerId (applyBeaconSize s b) = mServerId b"
  "mStatus (applyBeaconSize s b) = mStatus b"
  "mTimestampInMilliseconds (applyBeaconSize s b) = mTimestampInMilliseconds b"
  "mMaxBeaconSizeInBytes (applySessionDuration s b) = mMaxBeaconSizeInBytes b"
  "mMaxEventsPerSession (applySessionDuration s b) = mMaxEventsPerSession b"
  "mSessionTimeoutInMilliseconds (applySessionDuration s b) = mSessionTimeoutInMilliseconds b"
  "mSendIntervalInMilliseconds (applySessionDuration s b) = mSendIntervalInMilliseconds b"
  "mVisitStoreVersion (applySessionDuration s b) = mVisitStoreVersion b"
  "mIsCapture (applySessionDuration s b) = mIsCapture b"
  "mIsCaptureCrashes (applySessionDuration s b) = mIsCaptureCrashes b"
  "mIsCaptureErrors (applySessionDuration s b) = mIsCaptureErrors b"
  "mTrafficControlPercentage (applySessionDuration s b) = mTrafficControlPercentage b"
  "mApplicationId (applySessionDuration s b) = mApplicationId b"
  "mMultiplicity (applySessionDuration s b) = mMultiplicity b"
  "mServerId (applySessionDuration s b) = mServerId b"
  "mStatus (applySessionDuration s b) = mStatus b"
  "mTimestampInMilliseconds (applySessionDuration s b) = mTimestampInMilliseconds b"
  "mMaxBeaconSizeInBytes (applyEventsPerSession s b) = mMaxBeaconSizeInBytes b"
  "mMaxSessionDurationInMilliseconds (applyEventsPerSession s b) = mMaxSessionDurationInMilliseconds b"
  "mSessionTimeoutInMilliseconds (applyEventsPerSession s b) = mSessionTimeoutInMilliseconds b"
  "mSendIntervalInMilliseconds (applyEventsPerSession s b) = mSendIntervalInMilliseconds b"
  "mVisitStoreVersion (applyEventsPerSession s b) = mVisitStoreVersion b"
  "mIsCapture (applyEventsPerSession s b) = mIsCapture b"
  "mIsCaptureCrashes (applyEventsPerSession s b) = mIsCaptureCrashes b"
  "mIsCaptureErrors (applyEventsPerSession s b) = mIsCaptureErrors b"
  "mTrafficControlPercentage (applyEventsPerSession s b) = mTrafficControlPercentage b"
  "mApplicationId (applyEventsPerSession s b) = mApplicationId b"
  "mMultiplicity (applyEventsPerSession s b) = mMultiplicity b"
  "mServerId (applyEventsPerSession s b) = mServerId b"
  "mStatus (applyEventsPerSession s b) = mStatus b"
  "mTimestampInMilliseconds (applyEventsPerSession s b) = mTimestampInMilliseconds b"
  "mMaxBeaconSizeInBytes (applySessionTimeout s b) = mMaxBeaconSizeInBytes b"
  "mMaxSessionDurationInMilliseconds (applySessionTimeout s b) = mMaxSessionDurationInMilliseconds b"
  "mMaxEventsPerSession (applySessionTimeout s b) = mMaxEventsPerSession b"
  "mSendIntervalInMilliseconds (applySessionTimeout s b) = mSendIntervalInMilliseconds b"
  "mVisitStoreVersion (applySessionTimeout s b) = mVisitStoreVersion b"
  "mIsCapture (applySessionTimeout s b) = mIsCapture b"
  "mIsCaptureCrashes (applySessionTimeout s b) = mIsCaptureCrashes b"
  "mIsCaptureErrors (applySessionTimeout s b) = mIsCaptureErrors b"
  "mTrafficControlPercentage (applySessionTimeout s b) = mTrafficControlPercentage b"
  "mApplicationId (applySessionTimeout s b) = mApplicationId b"
  "mMultiplicity (applySessionTimeout s b) = mMultiplicity b"
  "mServerId (applySessionTimeout s b) = mServerId b"
  "mStatus (applySessionTimeout s b) = mStatus b"
  "mTimestampInMilliseconds (applySessionTimeout s b) = mTimestampInMilliseconds b"
  "mMaxBeaconSizeInBytes (applySendInterval s b) = mMaxBeaconSizeInBytes b"
  "mMaxSessionDurationInMilliseconds (applySendInterval s b) = mMaxSessionDurationInMilliseconds b"
  "mMaxEventsPerSession (applySendInterval s b) = mMaxEventsPerSession b"
  "mSessionTimeoutInMilliseconds (applySendInterval s b) = mSessionTimeoutInMilliseconds b"
  "mVisitStoreVersion (applySendInterval s b) = mVisitStoreVersion b"
  "mIsCapture (applySendInterval s b) = mIsCapture b"
  "mIsCaptureCrashes (applySendInterval s b) = mIsCaptureCrashes b"
  "mIsCaptureErrors (applySendInterval s b) = mIsCaptureErrors b"
  "mTrafficControlPercentage (applySendInterval s b) = mTrafficControlPercentage b"
  "mApplicationId (applySendInterval s b) = mApplicationId b"
  "mMultiplicity (applySendInterval s b) = mMultiplicity b"
  "mServerId (applySendInterval s b) = mServerId b"
  "mStatus (applySendInterval s b) = mStatus b"
  "mTimestampInMilliseconds (applySendInterval s b) = mTimestampInMilliseconds b"
  "mMaxBeaconSizeInBytes (applyVisitStoreVersion s b) = mMaxBeaconSizeInBytes b"
  "mMaxSessionDurationInMilliseconds (applyVisitStoreVersion s b) = mMaxSessionDurationInMilliseconds b"
  "mMaxEventsPerSession (applyVisitStoreVersion s b) = mMaxEventsPerSession b"
  "mSessionTimeoutInMilliseconds (applyVisitStoreVersion s b) = mSessionTimeoutInMilliseconds b"
  "mSendIntervalInMilliseconds (applyVisitStoreVersion s b) = mSendIntervalInMilliseconds b"
  "mIsCapture (applyVisitStoreVersion s b) = mIsCapture b"
  "mIsCaptureCrashes (applyVisitStoreVersion s b) = mIsCaptureCrashes b"
  "mIsCaptureErrors (applyVisitStoreVersion s b) = mIsCaptureErrors b"
  "mTrafficControlPercentage (applyVisitStoreVersion s b) = mTrafficControlPercentage b"
  "mApplicationId (applyVisitStoreVersion s b) = mApplicationId b"
  "mMultiplicity (applyVisitStoreVersion s b) = mMultiplicity b"
  "mServerId (applyVisitStoreVersion s b) = mServerId b"
  "mStatus (applyVisitStoreVersion s b) = mStatus b"
  "mTimestampInMilliseconds (applyVisitStoreVersion s b) = mTimestampInMilliseconds b"
  "mMaxBeaconSizeInBytes (applyCapture s b) = mMaxBeaconSizeInBytes b"
  "mMaxSessionDurationInMilliseconds (applyCapture s b) = mMaxSessionDurationInMilliseconds b"
  "mMaxEventsPerSession (applyCapture s b) = mMaxEventsPerSession b"
  "mSessionTimeoutInMilliseconds (applyCapture s b) = mSessionTimeoutInMilliseconds b"
  "mSendIntervalInMilliseconds (applyCapture s b) = mSendIntervalInMilliseconds b"
  "mVisitStoreVersion (applyCapture s b) = mVisitStoreVersion b"
  "mIsCaptureCrashes (applyCapture s b) = mIsCaptureCrashes b"
  "mIsCaptureErrors (applyCapture s b) = mIsCaptureErrors b"
  "mTrafficControlPercentage (applyCapture s b) = mTrafficControlPercentage b"
  "mApplicationId (applyCapture s b) = mApplicationId b"
  "mMultiplicity (applyCapture s b) = mMultiplicity b"
  "mServerId (applyCapture s b) = mServerId b"
  "mStatus (applyCapture s b) = mStatus b"
  "mTimestampInMilliseconds (applyCapture s b) = mTimestampInMilliseconds b"
  "mMaxBeaconSizeInBytes (applyCaptureCrashes s b) = mMaxBeaconSizeInBytes b"
  "mMaxSessionDurationInMilliseconds (applyCaptureCrashes s b) = mMaxSessionDurationInMilliseconds b"
  "mMaxEventsPerSession (applyCaptureCrashes s b) = mMaxEventsPerSession b"
  "mSessionTimeoutInMilliseconds (applyCaptureCrashes s b) = mSessionTimeoutInMilliseconds b"
  "mSendIntervalInMilliseconds (applyCaptureCrashes s b) = mSendIntervalInMilliseconds b"
  "mVisitStoreVersion (applyCaptureCrashes s b) = mVisitStoreVersion b"
  "mIsCapture (applyCaptureCrashes s b) = mIsCapture b"
  "mIsCaptureErrors (applyCaptureCrashes s b) = mIsCaptureErrors b"
  "mTrafficControlPercentage (applyCaptureCrashes s b) = mTrafficControlPercentage b"
  "mApplicationId (applyCaptureCrashes s b) = mApplicationId b"
  "mMultiplicity (applyCaptureCrashes s b) = mMultiplicity b"
  "mServerId (applyCaptureCrashes s b) = mServerId b"
  "mStatus (applyCaptureCrashes s b) = mStatus b"
  "mTimestampInMilliseconds (applyCaptureCrashes s b) = mTimestampInMilliseconds b"
  "mMaxBeaconSizeInBytes (applyCaptureErrors s b) = mMaxBeaconSizeInBytes b"
  "mMaxSessionDurationInMilliseconds (applyCaptureErrors s b) = mMaxSessionDurationInMilliseconds b"
  "mMaxEventsPerSession (applyCaptureErrors s b) = mMaxEventsPerSession b"
  "mSessionTimeoutInMilliseconds (applyCaptureErrors s b) = mSessionTimeoutInMilliseconds b"
  "mSendIntervalInMilliseconds (applyCaptureErrors s b) = mSendIntervalInMilliseconds b"
  "mVisitStoreVersion (applyCaptureErrors s b) = mVisitStoreVersion b"
  "mIsCapture (applyCaptureErrors s b) = mIsCapture b"
  "mIsCaptureCrashes (applyCaptureErrors s b) = mIsCaptureCrashes b"
  "mTrafficControlPercentage (applyCaptureErrors s b) = mTrafficControlPercentage b"
  "mApplicationId (applyCaptureErrors s b) = mApplicationId b"
  "mMultiplicity (applyCaptureErrors s b) = mMultiplicity b"
  "mServerId (applyCaptureErrors s b) = mServerId b"
  "mStatus (applyCaptureErrors s b) = mStatus b"
  "mTimestampInMilliseconds (applyCaptureErrors s b) = mTimestampInMilliseconds b"
  "mMaxBeaconSizeInBytes (applyTrafficControlPercentage s b) = mMaxBeaconSizeInBytes b"
  "mMaxSessionDurationInMilliseconds (applyTrafficControlPercentage s b) = mMaxSessionDurationInMilliseconds b"
  "mMaxEventsPerSession (applyTrafficControlPercentage s b) = mMaxEventsPerSession b"
  "mSessionTimeoutInMilliseconds (applyTrafficControlPercentage s b) = mSessionTimeoutInMilliseconds b"
  "mSendIntervalInMilliseconds (applyTrafficControlPercentage s b) = mSendIntervalInMilliseconds b"
  "mVisitStoreVersion (applyTrafficControlPercentage s b) = mVisitStoreVersion b"
  "mIsCapture (applyTrafficControlPercentage s b) = mIsCapture b"
  "mIsCaptureCrashes (applyTrafficControlPercentage s b) = mIsCaptureCrashes b"
  "mIsCaptureErrors (applyTrafficControlPercentage s b) = mIsCaptureErrors b"
  "mApplicationId (applyTrafficControlPercentage s b) = mApplicationId b"
  "mMultiplicity (applyTrafficControlPercentage s b) = mMultiplicity b"
  "mServerId (applyTrafficControlPercentage s b) = mServerId b"
  "mStatus (applyTrafficControlPercentage s b) = mStatus b"
  "mTimestampInMilliseconds (applyTrafficControlPercentage s b) = mTimestampInMilliseconds b"
  "mMaxBeaconSizeInBytes (applyApplicationId s b) = mMaxBeaconSizeInBytes b"
  "mMaxSessionDurationInMilliseconds (applyApplicationId s b) = mMaxSessionDurationInMilliseconds b"
  "mMaxEventsPerSession (applyApplicationId s b) = mMaxEventsPerSession b"
  "mSessionTimeoutInMilliseconds (applyApplicationId s b) = mSessionTimeoutInMilliseconds b"
  "mSendIntervalInMilliseconds (applyApplicationId s b) = mSendIntervalInMilliseconds b"
  "mVisitStoreVersion (applyApplicationId s b) = mVisitStoreVersion b"
  "mIsCapture (applyApplicationId s b) = mIsCapture b"
  "mIsCaptureCrashes (applyApplicationId s b) = mIsCaptureCrashes b"
  "mIsCaptureErrors (applyApplicationId s b) = mIsCaptureErrors b"
  "mTrafficControlPercentage (applyApplicationId s b) = mTrafficControlPercentage b"
  "mMultiplicity (applyApplicationId s b) = mMultiplicity b"
  "mServerId (applyApplicationId s b) = mServerId b"
  "mStatus (applyApplicationId s b) = mStatus b"
  "mTimestampInMilliseconds (applyApplicationId s b) = mTimestampInMilliseconds b"
  "mMaxBeaconSizeInBytes (applyMultiplicity s b) = mMaxBeaconSizeInBytes b"
  "mMaxSessionDurationInMilliseconds (applyMultiplicity s b) = mMaxSessionDurationInMilliseconds b"
  "mMaxEventsPerSession (applyMultiplicity s b) = mMaxEventsPerSession b"
  "mSessionTimeoutInMilliseconds (applyMultiplicity s b) = mSessionTimeoutInMilliseconds b"
  "mSendIntervalInMilliseconds (applyMultiplicity s b) = mSendIntervalInMilliseconds b"
  "mVisitStoreVersion (applyMultiplicity s b) = mVisitStoreVersion b"
  "mIsCapture (applyMultiplicity s b) = mIsCapture b"
  "mIsCaptureCrashes (applyMultiplicity s b) = mIsCaptureCrashes b"
  "mIsCaptureErrors (applyMultiplicity s b) = mIsCaptureErrors b"
  "mTrafficControlPercentage (applyMultiplicity s b) = mTrafficControlPercentage b"
  "mApplicationId (applyMultiplicity s b) = mApplicationId b"
  "mServerId (applyMultiplicity s b) = mServerId b"
  "mStatus (applyMultiplicity s b) = mStatus b"
  "mTimestampInMilliseconds (applyMultiplicity s b) = mTimestampInMilliseconds b"
  "mMaxBeaconSizeInBytes (applyServerId s b) = mMaxBeaconSizeInBytes b"
  "mMaxSessionDurationInMilliseconds (applyServerId s b) = mMaxSessionDurationInMilliseconds b"
  "mMaxEventsPerSession (applyServerId s b) = mMaxEventsPerSession b"
  "mSessionTimeoutInMilliseconds (applyServerId s b) = mSessionTimeoutInMilliseconds b"
  "mSendIntervalInMilliseconds (applyServerId s b) = mSendIntervalInMilliseconds b"
  "mVisitStoreVersion (applyServerId s b) = mVisitStoreVersion b"
  "mIsCapture (applyServerId s b) = mIsCapture b"
  "mIsCaptureCrashes (applyServerId s b) = mIsCaptureCrashes b"
  "mIsCaptureErrors (applyServerId s b) = mIsCaptureErrors b"
  "mTrafficControlPercentage (applyServerId s b) = mTrafficControlPercentage b"
  "mApplicationId (applyServerId s b) = mApplicationId b"
  "mMultiplicity (applyServerId s b) = mMultiplicity b"
  "mStatus (applyServerId s b) = mStatus b"
  "mTimestampInMilliseconds (applyServerId s b) = mTimestampInMilliseconds b"
  "mMaxBeaconSizeInBytes (applyStatus s b) = mMaxBeaconSizeInBytes b"
  "mMaxSessionDurationInMilliseconds (applyStatus s b) = mMaxSessionDurationInMilliseconds b"
  "mMaxEventsPerSession (applyStatus s b) = mMaxEventsPerSession b"
  "mSessionTimeoutInMilliseconds (applyStatus s b) = mSessionTimeoutInMilliseconds b"
  "mSendIntervalInMilliseconds (applyStatus s b) = mSendIntervalInMilliseconds b"
  "mVisitStoreVersion (applyStatus s b) = mVisitStoreVersion b"
  "mIsCapture (applyStatus s b) = mIsCapture b"
  "mIsCaptureCrashes (applyStatus s b) = mIsCaptureCrashes b"
  "mIsCaptureErrors (applyStatus s b) = mIsCaptureErrors b"
  "mTrafficControlPercentage (applyStatus s b) = mTrafficControlPercentage b"
  "mApplicationId (applyStatus s b) = mApplicationId b"
  "mMultiplicity (applyStatus s b) = mMultiplicity b"
  "mServerId (applyStatus s b) = mServerId b"
  "mTimestampInMilliseconds (applyStatus s b) = mTimestampInMilliseconds b"
  "mMaxBeaconSizeInBytes (applyTimestamp s b) = mMaxBeaconSizeInBytes b"
  "mMaxSessionDurationInMilliseconds (applyTimestamp s b) = mMaxSessionDurationInMilliseconds b"
  "mMaxEventsPerSession (applyTimestamp s b) = mMaxEventsPerSession b"
  "mSessionTimeoutInMilliseconds (applyTimestamp s b) = mSessionTimeoutInMilliseconds b"
  "mSendIntervalInMilliseconds (applyTimestamp s b) = mSendIntervalInMilliseconds b"
  "mVisitStoreVersion (applyTimestamp s b) = mVisitStoreVersion b"
  "mIsCapture (applyTimestamp s b) = mIsCapture b"
  "mIsCaptureCrashes (applyTimestamp s b) = mIsCaptureCrashes b"
  "mIsCaptureErrors (applyTimestamp s b) = mIsCaptureErrors b"
  "mTrafficControlPercentage (applyTimestamp s b) = mTrafficControlPercentage b"
  "mApplicationId (applyTimestamp s b) = mApplicationId b"
  "mMultiplicity (applyTimestamp s b) = mMultiplicity b"
  "mServerId (applyTimestamp s b) = mServerId b"
  "mStatus (applyTimestamp s b) = mStatus b"
  by (simp_all add: applyBeaconSize_def withMaxBeaconSizeInBytes_def
    applySessionDuration_def withMaxSessionDurationInMilliseconds_def
    applyEventsPerSession_def withMaxEventsPerSession_def
    applySessionTimeout_def withSessionTimeoutInMilliseconds_def
    applySendInterval_def withSendIntervalInMilliseconds_def
    applyVisitStoreVersion_def withVisitStoreVersion_def
    applyCapture_def withCapture_def
    applyCaptureCrashes_def withCaptureCrashes_def
    applyCaptureErrors_def withCaptureErrors_def
    applyTrafficControlPercentage_def withTrafficControlPercentage_def
    applyApplicationId_def withApplicationId_def
    applyMultiplicity_def withMultiplicity_def
    applyServerId_def withServerId_def
    applyStatus_def withStatus_def
    applyTimestamp_def withTimestampInMilliseconds_def)

lemma merge_with_values: "merge r s = with_values r s"
proof (rule ResponseAttributes.equality)
  have "mSetAttributes s = (\<Union>a \<in> set ALL_RESPONSE_ATTRIBUTES. mSetAttributes s \<inter> {a})" unfolding all_attributes by auto
  then show "mSetAttributes (merge r s) = mSetAttributes (with_values r s)"
    unfolding merge_def Let_def build_def Builder_new_eq with_values_def
    by (simp add: ALL_RESPONSE_ATTRIBUTES_def Un_ac)
qed (simp_all add: merge_def build_def Builder_new_eq with_values_def chosen_def Let_def)

subsection \<open>Properties\<close>

text \<open>C24: Merging a response into an earlier one sets the attributes that are set in either, and gives
  every attribute the value of the later response if it is set there and otherwise the earlier
  value.\<close>

theorem merge_values:
  "mSetAttributes (merge r s) = mSetAttributes r \<union> mSetAttributes s \<and>
   mMaxBeaconSizeInBytes (merge r s) = (if isAttributeSet MAX_BEACON_SIZE s then mMaxBeaconSizeInBytes s else mMaxBeaconSizeInBytes r) \<and>
   mMaxSessionDurationInMilliseconds (merge r s) = (if isAttributeSet MAX_SESSION_DURATION s then mMaxSessionDurationInMilliseconds s else mMaxSessionDurationInMilliseconds r) \<and>
   mMaxEventsPerSession (merge r s) = (if isAttributeSet MAX_EVENTS_PER_SESSION s then mMaxEventsPerSession s else mMaxEventsPerSession r) \<and>
   mSessionTimeoutInMilliseconds (merge r s) = (if isAttributeSet SESSION_IDLE_TIMEOUT s then mSessionTimeoutInMilliseconds s else mSessionTimeoutInMilliseconds r) \<and>
   mSendIntervalInMilliseconds (merge r s) = (if isAttributeSet SEND_INTERVAL s then mSendIntervalInMilliseconds s else mSendIntervalInMilliseconds r) \<and>
   mVisitStoreVersion (merge r s) = (if isAttributeSet VISIT_STORE_VERSION s then mVisitStoreVersion s else mVisitStoreVersion r) \<and>
   mIsCapture (merge r s) = (if isAttributeSet IS_CAPTURE s then mIsCapture s else mIsCapture r) \<and>
   mIsCaptureCrashes (merge r s) = (if isAttributeSet IS_CAPTURE_CRASHES s then mIsCaptureCrashes s else mIsCaptureCrashes r) \<and>
   mIsCaptureErrors (merge r s) = (if isAttributeSet IS_CAPTURE_ERRORS s then mIsCaptureErrors s else mIsCaptureErrors r) \<and>
   mTrafficControlPercentage (merge r s) = (if isAttributeSet TRAFFIC_CONTROL_PERCENTAGE s then mTrafficControlPercentage s else mTrafficControlPercentage r) \<and>
   mApplicationId (merge r s) = (if isAttributeSet APPLICATION_ID s then mApplicationId s else mApplicationId r) \<and>
   mMultiplicity (merge r s) = (if isAttributeSet MULTIPLICITY s then mMultiplicity s else mMultiplicity r) \<and>
   mServerId (merge r s) = (if isAttributeSet SERVER_ID s then mServerId s else mServerId r) \<and>
   mStatus (merge r s) = (if isAttributeSet STATUS s then mStatus s else mStatus r) \<and>
   mTimestampInMilliseconds (merge r s) = (if isAttributeSet TIMESTAMP s then mTimestampInMilliseconds s else mTimestampInMilliseconds r)"
  unfolding merge_with_values by (simp add: with_values_def chosen_def)

text \<open>Merging is associative and idempotent, so a sequence of responses can be merged in any
  grouping and a repeated response changes nothing; a response without set attributes changes
  nothing either.\<close>

theorem merge_laws:
  "merge (merge r s) t = merge r (merge s t) \<and> merge r r = r \<and> merge (merge r s) s = merge r s \<and>
   (mSetAttributes s = {} \<longrightarrow> merge r s = r)"
  unfolding merge_with_values
  by (intro conjI impI ResponseAttributes.equality)
    (auto simp: with_values_def chosen_def isAttributeSet_def)

lemma merge_laws_witness:
  "mSetAttributes JsonResponseDefaults = {} \<and>
   merge (withServerId 7 KeyValueResponseDefaults) JsonResponseDefaults = withServerId 7 KeyValueResponseDefaults"
proof -
  have "mSetAttributes JsonResponseDefaults = {}" by (simp add: JsonResponseDefaults_def AbstractResponseDefaults_def)
  then show ?thesis using merge_laws [of _ JsonResponseDefaults] by simp
qed

end
