(* ===== verification/Configuration.thy ===== *)
theory Configuration
  imports Response_Attributes Number_Text Url_Encoding
begin

text \<open>
  The configurations (src/core/configuration) and the builder they are made of
  (src/api/DynatraceOpenKitBuilder.cxx). A function pointer of the application is its address.
\<close>

subsection \<open>Levels and privacy\<close>

datatype DataCollectionLevel = DATA_OFF | PERFORMANCE | USER_BEHAVIOR

datatype CrashReportingLevel = CRASH_OFF | OPT_OUT_CRASHES | OPT_IN_CRASHES

text \<open>The number of an enumerator.\<close>

definition data_level_number :: "DataCollectionLevel \<Rightarrow> int32" where
  "data_level_number l = (case l of DATA_OFF \<Rightarrow> 0 | PERFORMANCE \<Rightarrow> 1 | USER_BEHAVIOR \<Rightarrow> 2)"

definition crash_level_number :: "CrashReportingLevel \<Rightarrow> int32" where
  "crash_level_number l = (case l of CRASH_OFF \<Rightarrow> 0 | OPT_OUT_CRASHES \<Rightarrow> 1 | OPT_IN_CRASHES \<Rightarrow> 2)"

record PrivacyConfiguration =
  mDataCollectionLevel :: DataCollectionLevel
  mCrashReportingLevel :: CrashReportingLevel

definition isDeviceIdSendingAllowed :: "PrivacyConfiguration \<Rightarrow> bool" where
  "isDeviceIdSendingAllowed p \<longleftrightarrow> mDataCollectionLevel p = USER_BEHAVIOR"

definition isSessionNumberReportingAllowed :: "PrivacyConfiguration \<Rightarrow> bool" where
  "isSessionNumberReportingAllowed p \<longleftrightarrow> mDataCollectionLevel p = USER_BEHAVIOR"

definition isWebRequestTracingAllowed :: "PrivacyConfiguration \<Rightarrow> bool" where
  "isWebRequestTracingAllowed p \<longleftrightarrow> mDataCollectionLevel p \<noteq> DATA_OFF"

definition isSessionReportingAllowed :: "PrivacyConfiguration \<Rightarrow> bool" where
  "isSessionReportingAllowed p \<longleftrightarrow> mDataCollectionLevel p \<noteq> DATA_OFF"

definition isActionReportingAllowed :: "PrivacyConfiguration \<Rightarrow> bool" where
  "isActionReportingAllowed p \<longleftrightarrow> mDataCollectionLevel p \<noteq> DATA_OFF"

definition isValueReportingAllowed :: "PrivacyConfiguration \<Rightarrow> bool" where
  "isValueReportingAllowed p \<longleftrightarrow> mDataCollectionLevel p = USER_BEHAVIOR"

definition isEventReportingAllowed :: "PrivacyConfiguration \<Rightarrow> bool" where
  "isEventReportingAllowed p \<longleftrightarrow> mDataCollectionLevel p = USER_BEHAVIOR"

definition isErrorReportingAllowed :: "PrivacyConfiguration \<Rightarrow> bool" where
  "isErrorReportingAllowed p \<longleftrightarrow> mDataCollectionLevel p \<noteq> DATA_OFF"

definition isCrashReportingAllowed :: "PrivacyConfiguration \<Rightarrow> bool" where
  "isCrashReportingAllowed p \<longleftrightarrow> mCrashReportingLevel p = OPT_IN_CRASHES"

definition isUserIdentificationAllowed :: "PrivacyConfiguration \<Rightarrow> bool" where
  "isUserIdentificationAllowed p \<longleftrightarrow> mDataCollectionLevel p = USER_BEHAVIOR"

subsection \<open>Loggers, trust managers and interceptors\<close>

datatype LogLevel = LOG_LEVEL_DEBUG | LOG_LEVEL_INFO | LOG_LEVEL_WARN | LOG_LEVEL_ERROR

definition log_level_number :: "LogLevel \<Rightarrow> int32" where
  "log_level_number l = (case l of LOG_LEVEL_DEBUG \<Rightarrow> 0 | LOG_LEVEL_INFO \<Rightarrow> 10 | LOG_LEVEL_WARN \<Rightarrow> 20 | LOG_LEVEL_ERROR \<Rightarrow> 30)"

text \<open>A custom logger is a function that tells whether a level is enabled and one that takes a message.\<close>

datatype ILogger = DefaultLogger LogLevel | CustomLogger nat nat

text \<open>Whether an error or a warning is written: a custom logger does not ask for the level of these two.\<close>

definition logger_writes :: "LogLevel \<Rightarrow> ILogger \<Rightarrow> bool" where
  "logger_writes l g = (case g of DefaultLogger m \<Rightarrow> sint (log_level_number l) \<ge> sint (log_level_number m) | CustomLogger e w \<Rightarrow> True)"

datatype ISSLTrustManager = SSLStrictTrustManager | SSLBlindTrustManager | CustomTrustManager nat

datatype IHttpRequestInterceptor = NullHttpRequestInterceptor | CustomHttpRequestInterceptor nat

datatype IHttpResponseInterceptor = NullHttpResponseInterceptor | CustomHttpResponseInterceptor nat

subsection \<open>The builder and the configuration of OpenKit\<close>

record OpenKitBuilder =
  okbEndpointURL :: string
  okbApplicationID :: string
  okbDeviceID :: int64
  okbOrigDeviceID :: string
  okbApplicationVersion :: string
  okbOperatingSystem :: string
  okbManufacturer :: string
  okbModelID :: string
  okbLogLevel :: LogLevel
  okbLogger :: "ILogger option"
  okbTrustManager :: ISSLTrustManager
  okbBeaconCacheMaxRecordAge :: int64
  okbBeaconCacheLowerMemoryBoundary :: int64
  okbBeaconCacheUpperMemoryBoundary :: int64
  okbHttpRequestInterceptor :: IHttpRequestInterceptor
  okbHttpResponseInterceptor :: IHttpResponseInterceptor
  okbDataCollectionLevel :: DataCollectionLevel
  okbCrashReportingLevel :: CrashReportingLevel

definition DEFAULT_MAX_RECORD_AGE_IN_MILLIS :: int64 where "DEFAULT_MAX_RECORD_AGE_IN_MILLIS = 45 * 60 * 1000"
definition DEFAULT_UPPER_MEMORY_BOUNDARY_IN_BYTES :: int64 where "DEFAULT_UPPER_MEMORY_BOUNDARY_IN_BYTES = 100 * 1024 * 1024"
definition DEFAULT_LOWER_MEMORY_BOUNDARY_IN_BYTES :: int64 where "DEFAULT_LOWER_MEMORY_BOUNDARY_IN_BYTES = 80 * 1024 * 1024"

text \<open>The version and the company are defined in a header that the build generates.\<close>

definition DynatraceOpenKitBuilder :: "string \<Rightarrow> string \<Rightarrow> string \<Rightarrow> string \<Rightarrow> int64 \<Rightarrow> OpenKitBuilder" where
  "DynatraceOpenKitBuilder version company endpointURL applicationID deviceID =
     \<lparr>okbEndpointURL = endpointURL, okbApplicationID = applicationID, okbDeviceID = deviceID,
      okbOrigDeviceID = show_int (sint deviceID), okbApplicationVersion = version,
      okbOperatingSystem = ''OpenKit '' @ version, okbManufacturer = company,
      okbModelID = ''OpenKitDevice'', okbLogLevel = LOG_LEVEL_WARN, okbLogger = None, okbTrustManager = SSLStrictTrustManager,
      okbBeaconCacheMaxRecordAge = DEFAULT_MAX_RECORD_AGE_IN_MILLIS,
      okbBeaconCacheLowerMemoryBoundary = DEFAULT_LOWER_MEMORY_BOUNDARY_IN_BYTES,
      okbBeaconCacheUpperMemoryBoundary = DEFAULT_UPPER_MEMORY_BOUNDARY_IN_BYTES,
      okbHttpRequestInterceptor = NullHttpRequestInterceptor, okbHttpResponseInterceptor = NullHttpResponseInterceptor,
      okbDataCollectionLevel = USER_BEHAVIOR, okbCrashReportingLevel = OPT_IN_CRASHES\<rparr>"

text \<open>A null pointer and an empty string change nothing.\<close>

definition given :: "string option \<Rightarrow> string \<Rightarrow> string" where
  "given p s = (case p of None \<Rightarrow> s | Some t \<Rightarrow> if t = [] then s else t)"

definition withApplicationVersion :: "string option \<Rightarrow> OpenKitBuilder \<Rightarrow> OpenKitBuilder" where
  "withApplicationVersion p b = b\<lparr>okbApplicationVersion := given p (okbApplicationVersion b)\<rparr>"

definition withOperatingSystem :: "string option \<Rightarrow> OpenKitBuilder \<Rightarrow> OpenKitBuilder" where
  "withOperatingSystem p b = b\<lparr>okbOperatingSystem := given p (okbOperatingSystem b)\<rparr>"

definition withManufacturer :: "string option \<Rightarrow> OpenKitBuilder \<Rightarrow> OpenKitBuilder" where
  "withManufacturer p b = b\<lparr>okbManufacturer := given p (okbManufacturer b)\<rparr>"

definition withModelID :: "string option \<Rightarrow> OpenKitBuilder \<Rightarrow> OpenKitBuilder" where
  "withModelID p b = b\<lparr>okbModelID := given p (okbModelID b)\<rparr>"

definition withDataCollectionLevel :: "DataCollectionLevel \<Rightarrow> OpenKitBuilder \<Rightarrow> OpenKitBuilder" where
  "withDataCollectionLevel l b = b\<lparr>okbDataCollectionLevel := l\<rparr>"

definition withCrashReportingLevel :: "CrashReportingLevel \<Rightarrow> OpenKitBuilder \<Rightarrow> OpenKitBuilder" where
  "withCrashReportingLevel l b = b\<lparr>okbCrashReportingLevel := l\<rparr>"

text \<open>A null pointer to a logger is taken as it is; one to a trust manager or an interceptor changes nothing.\<close>

definition withLogLevel :: "LogLevel \<Rightarrow> OpenKitBuilder \<Rightarrow> OpenKitBuilder" where
  "withLogLevel l b = b\<lparr>okbLogLevel := l\<rparr>"

definition withLogger :: "ILogger option \<Rightarrow> OpenKitBuilder \<Rightarrow> OpenKitBuilder" where
  "withLogger p b = b\<lparr>okbLogger := p\<rparr>"

definition withTrustManager :: "ISSLTrustManager option \<Rightarrow> OpenKitBuilder \<Rightarrow> OpenKitBuilder" where
  "withTrustManager p b = (case p of None \<Rightarrow> b | Some t \<Rightarrow> b\<lparr>okbTrustManager := t\<rparr>)"

definition withBeaconCacheMaxRecordAge :: "int64 \<Rightarrow> OpenKitBuilder \<Rightarrow> OpenKitBuilder" where
  "withBeaconCacheMaxRecordAge v b = b\<lparr>okbBeaconCacheMaxRecordAge := v\<rparr>"

definition withBeaconCacheLowerMemoryBoundary :: "int64 \<Rightarrow> OpenKitBuilder \<Rightarrow> OpenKitBuilder" where
  "withBeaconCacheLowerMemoryBoundary v b = b\<lparr>okbBeaconCacheLowerMemoryBoundary := v\<rparr>"

definition withBeaconCacheUpperMemoryBoundary :: "int64 \<Rightarrow> OpenKitBuilder \<Rightarrow> OpenKitBuilder" where
  "withBeaconCacheUpperMemoryBoundary v b = b\<lparr>okbBeaconCacheUpperMemoryBoundary := v\<rparr>"

definition withHttpRequestInterceptor :: "IHttpRequestInterceptor option \<Rightarrow> OpenKitBuilder \<Rightarrow> OpenKitBuilder" where
  "withHttpRequestInterceptor p b = (case p of None \<Rightarrow> b | Some i \<Rightarrow> b\<lparr>okbHttpRequestInterceptor := i\<rparr>)"

definition withHttpResponseInterceptor :: "IHttpResponseInterceptor option \<Rightarrow> OpenKitBuilder \<Rightarrow> OpenKitBuilder" where
  "withHttpResponseInterceptor p b = (case p of None \<Rightarrow> b | Some i \<Rightarrow> b\<lparr>okbHttpResponseInterceptor := i\<rparr>)"

definition builder_getLogger :: "OpenKitBuilder \<Rightarrow> ILogger" where
  "builder_getLogger b = (case okbLogger b of Some g \<Rightarrow> g | None \<Rightarrow> DefaultLogger (okbLogLevel b))"

definition PrivacyConfiguration_from :: "OpenKitBuilder \<Rightarrow> PrivacyConfiguration" where
  "PrivacyConfiguration_from b =
     \<lparr>mDataCollectionLevel = okbDataCollectionLevel b, mCrashReportingLevel = okbCrashReportingLevel b\<rparr>"

definition DEFAULT_SERVER_ID :: int32 where "DEFAULT_SERVER_ID = 1"

record OpenKitConfiguration =
  okEndpointUrl :: UTF8String
  okDeviceId :: int64
  okOrigDeviceId :: UTF8String
  okApplicationId :: UTF8String
  okPercentEncodedApplicationId :: UTF8String
  okApplicationVersion :: UTF8String
  okOperatingSystem :: UTF8String
  okManufacturer :: UTF8String
  okModelId :: UTF8String
  okDefaultServerId :: int32

definition OpenKitConfiguration_from :: "OpenKitBuilder \<Rightarrow> OpenKitConfiguration" where
  "OpenKitConfiguration_from b =
     \<lparr>okEndpointUrl = UTF8String_of (okbEndpointURL b), okDeviceId = okbDeviceID b,
      okOrigDeviceId = UTF8String_of (okbOrigDeviceID b), okApplicationId = UTF8String_of (okbApplicationID b),
      okPercentEncodedApplicationId = urlencode (UTF8String_of (okbApplicationID b)) ''_'',
      okApplicationVersion = UTF8String_of (okbApplicationVersion b), okOperatingSystem = UTF8String_of (okbOperatingSystem b),
      okManufacturer = UTF8String_of (okbManufacturer b), okModelId = UTF8String_of (okbModelID b), okDefaultServerId = DEFAULT_SERVER_ID\<rparr>"

subsection \<open>The configuration of the HTTP client\<close>

record HTTPClientConfiguration =
  hcBaseURL :: UTF8String
  hcServerID :: int32
  hcApplicationID :: UTF8String

definition HTTPClientConfiguration_from :: "OpenKitConfiguration \<Rightarrow> HTTPClientConfiguration" where
  "HTTPClientConfiguration_from ok =
     \<lparr>hcBaseURL = okEndpointUrl ok, hcServerID = okDefaultServerId ok, hcApplicationID = okApplicationId ok\<rparr>"

definition withServerID :: "int32 \<Rightarrow> HTTPClientConfiguration \<Rightarrow> HTTPClientConfiguration" where
  "withServerID v b = b\<lparr>hcServerID := v\<rparr>"

subsection \<open>The configuration of the server\<close>

record ServerConfiguration =
  scIsCaptureEnabled :: bool
  scIsCrashReportingEnabled :: bool
  scIsErrorReportingEnabled :: bool
  scServerId :: int32
  scBeaconSizeInBytes :: int32
  scMultiplicity :: int32
  scSendIntervalInMilliseconds :: int32
  scMaxSessionDurationInMilliseconds :: int32
  scIsSessionSplitBySessionDurationEnabled :: bool
  scMaxEventsPerSession :: int32
  scIsSessionSplitByEventsEnabled :: bool
  scSessionTimeoutInMilliseconds :: int32
  scIsSessionSplitByIdleTimeoutEnabled :: bool
  scVisitStoreVersion :: int32
  scTrafficControlPercentage :: int32

text \<open>The builder has the same fields; building copies them.\<close>

type_synonym ServerConfigurationBuilder = ServerConfiguration

definition sc_withCapture :: "bool \<Rightarrow> ServerConfigurationBuilder \<Rightarrow> ServerConfigurationBuilder" where
  "sc_withCapture v b = b\<lparr>scIsCaptureEnabled := v\<rparr>"

definition sc_withCrashReporting :: "bool \<Rightarrow> ServerConfigurationBuilder \<Rightarrow> ServerConfigurationBuilder" where
  "sc_withCrashReporting v b = b\<lparr>scIsCrashReportingEnabled := v\<rparr>"

definition sc_withErrorReporting :: "bool \<Rightarrow> ServerConfigurationBuilder \<Rightarrow> ServerConfigurationBuilder" where
  "sc_withErrorReporting v b = b\<lparr>scIsErrorReportingEnabled := v\<rparr>"

definition sc_withServerId :: "int32 \<Rightarrow> ServerConfigurationBuilder \<Rightarrow> ServerConfigurationBuilder" where
  "sc_withServerId v b = b\<lparr>scServerId := v\<rparr>"

definition sc_withBeaconSizeInBytes :: "int32 \<Rightarrow> ServerConfigurationBuilder \<Rightarrow> ServerConfigurationBuilder" where
  "sc_withBeaconSizeInBytes v b = b\<lparr>scBeaconSizeInBytes := v\<rparr>"

definition sc_withMultiplicity :: "int32 \<Rightarrow> ServerConfigurationBuilder \<Rightarrow> ServerConfigurationBuilder" where
  "sc_withMultiplicity v b = b\<lparr>scMultiplicity := v\<rparr>"

definition sc_withSendIntervalInMilliseconds :: "int32 \<Rightarrow> ServerConfigurationBuilder \<Rightarrow> ServerConfigurationBuilder" where
  "sc_withSendIntervalInMilliseconds v b = b\<lparr>scSendIntervalInMilliseconds := v\<rparr>"

definition sc_withMaxSessionDurationInMilliseconds :: "int32 \<Rightarrow> ServerConfigurationBuilder \<Rightarrow> ServerConfigurationBuilder" where
  "sc_withMaxSessionDurationInMilliseconds v b = b\<lparr>scMaxSessionDurationInMilliseconds := v\<rparr>"

definition sc_withSessionSplitBySessionDurationEnabled :: "bool \<Rightarrow> ServerConfigurationBuilder \<Rightarrow> ServerConfigurationBuilder" where
  "sc_withSessionSplitBySessionDurationEnabled v b = b\<lparr>scIsSessionSplitBySessionDurationEnabled := v\<rparr>"

definition sc_withMaxEventsPerSession :: "int32 \<Rightarrow> ServerConfigurationBuilder \<Rightarrow> ServerConfigurationBuilder" where
  "sc_withMaxEventsPerSession v b = b\<lparr>scMaxEventsPerSession := v\<rparr>"

definition sc_withSessionSplitByEventsEnabled :: "bool \<Rightarrow> ServerConfigurationBuilder \<Rightarrow> ServerConfigurationBuilder" where
  "sc_withSessionSplitByEventsEnabled v b = b\<lparr>scIsSessionSplitByEventsEnabled := v\<rparr>"

definition sc_withSessionTimeoutInMilliseconds :: "int32 \<Rightarrow> ServerConfigurationBuilder \<Rightarrow> ServerConfigurationBuilder" where
  "sc_withSessionTimeoutInMilliseconds v b = b\<lparr>scSessionTimeoutInMilliseconds := v\<rparr>"

definition sc_withSessionSplitByIdleTimeoutEnabled :: "bool \<Rightarrow> ServerConfigurationBuilder \<Rightarrow> ServerConfigurationBuilder" where
  "sc_withSessionSplitByIdleTimeoutEnabled v b = b\<lparr>scIsSessionSplitByIdleTimeoutEnabled := v\<rparr>"

definition sc_withVisitStoreVersion :: "int32 \<Rightarrow> ServerConfigurationBuilder \<Rightarrow> ServerConfigurationBuilder" where
  "sc_withVisitStoreVersion v b = b\<lparr>scVisitStoreVersion := v\<rparr>"

definition sc_withTrafficControlPercentage :: "int32 \<Rightarrow> ServerConfigurationBuilder \<Rightarrow> ServerConfigurationBuilder" where
  "sc_withTrafficControlPercentage v b = b\<lparr>scTrafficControlPercentage := v\<rparr>"


text \<open>Three of the getters are not those of a field.\<close>

definition isSessionSplitBySessionDurationEnabled :: "ServerConfiguration \<Rightarrow> bool" where
  "isSessionSplitBySessionDurationEnabled c \<longleftrightarrow>
     scIsSessionSplitBySessionDurationEnabled c \<and> 0 < sint (scMaxSessionDurationInMilliseconds c)"

definition isSessionSplitByEventsEnabled :: "ServerConfiguration \<Rightarrow> bool" where
  "isSessionSplitByEventsEnabled c \<longleftrightarrow> scIsSessionSplitByEventsEnabled c \<and> 0 < sint (scMaxEventsPerSession c)"

definition isSessionSplitByIdleTimeoutEnabled :: "ServerConfiguration \<Rightarrow> bool" where
  "isSessionSplitByIdleTimeoutEnabled c \<longleftrightarrow>
     scIsSessionSplitByIdleTimeoutEnabled c \<and> 0 < sint (scSessionTimeoutInMilliseconds c)"

definition isSendingDataAllowed :: "ServerConfiguration \<Rightarrow> bool" where
  "isSendingDataAllowed c \<longleftrightarrow> scIsCaptureEnabled c \<and> 0 < sint (scMultiplicity c)"

definition isSendingCrashesAllowed :: "ServerConfiguration \<Rightarrow> bool" where
  "isSendingCrashesAllowed c \<longleftrightarrow> scIsCrashReportingEnabled c \<and> isSendingDataAllowed c"

definition isSendingErrorsAllowed :: "ServerConfiguration \<Rightarrow> bool" where
  "isSendingErrorsAllowed c \<longleftrightarrow> scIsErrorReportingEnabled c \<and> isSendingDataAllowed c"

definition ServerConfiguration_from :: "ResponseAttributes \<Rightarrow> ServerConfigurationBuilder" where
  "ServerConfiguration_from a =
     \<lparr>scIsCaptureEnabled = mIsCapture a, scIsCrashReportingEnabled = mIsCaptureCrashes a,
      scIsErrorReportingEnabled = mIsCaptureErrors a, scServerId = mServerId a,
      scBeaconSizeInBytes = mMaxBeaconSizeInBytes a, scMultiplicity = mMultiplicity a,
      scSendIntervalInMilliseconds = mSendIntervalInMilliseconds a,
      scMaxSessionDurationInMilliseconds = mMaxSessionDurationInMilliseconds a,
      scIsSessionSplitBySessionDurationEnabled = isAttributeSet MAX_SESSION_DURATION a,
      scMaxEventsPerSession = mMaxEventsPerSession a,
      scIsSessionSplitByEventsEnabled = isAttributeSet MAX_EVENTS_PER_SESSION a,
      scSessionTimeoutInMilliseconds = mSessionTimeoutInMilliseconds a,
      scIsSessionSplitByIdleTimeoutEnabled = isAttributeSet SESSION_IDLE_TIMEOUT a,
      scVisitStoreVersion = mVisitStoreVersion a, scTrafficControlPercentage = mTrafficControlPercentage a\<rparr>"

text \<open>The builder for a configuration reads it with its getters.\<close>

definition ServerConfiguration_copy :: "ServerConfiguration \<Rightarrow> ServerConfigurationBuilder" where
  "ServerConfiguration_copy c =
     c\<lparr>scIsSessionSplitBySessionDurationEnabled := isSessionSplitBySessionDurationEnabled c,
       scIsSessionSplitByEventsEnabled := isSessionSplitByEventsEnabled c,
       scIsSessionSplitByIdleTimeoutEnabled := isSessionSplitByIdleTimeoutEnabled c\<rparr>"

definition server_merge :: "ServerConfiguration \<Rightarrow> ServerConfiguration \<Rightarrow> ServerConfiguration" where
  "server_merge c other =
     (let b = ServerConfiguration_copy other;
          b = sc_withMultiplicity (scMultiplicity c) b;
          b = sc_withServerId (scServerId c) b;
          b = sc_withMaxSessionDurationInMilliseconds (scMaxSessionDurationInMilliseconds c) b;
          b = sc_withSessionSplitBySessionDurationEnabled (isSessionSplitBySessionDurationEnabled c) b;
          b = sc_withMaxEventsPerSession (scMaxEventsPerSession c) b;
          b = sc_withSessionSplitByEventsEnabled (isSessionSplitByEventsEnabled c) b;
          b = sc_withSessionTimeoutInMilliseconds (scSessionTimeoutInMilliseconds c) b;
          b = sc_withSessionSplitByIdleTimeoutEnabled (isSessionSplitByIdleTimeoutEnabled c) b;
          b = sc_withVisitStoreVersion (scVisitStoreVersion c) b;
          b = sc_withTrafficControlPercentage (scTrafficControlPercentage c) b
      in b)"

text \<open>
  A pointer to a configuration: null, the one default instance, or an object of its own. The
  code compares pointers with the one to the default instance.
\<close>

datatype ServerConfigurationPtr = NullConfiguration | DefaultInstance | Created ServerConfiguration

definition defaultInstance :: ServerConfiguration where
  "defaultInstance = ServerConfiguration_from UndefinedDefaults"

definition getServerConfigurationOrDefault :: "ServerConfigurationPtr \<Rightarrow> ServerConfiguration" where
  "getServerConfigurationOrDefault p = (case p of Created c \<Rightarrow> c | _ \<Rightarrow> defaultInstance)"

subsection \<open>The configuration of a beacon\<close>

record BeaconConfiguration =
  bcOpenKitConfiguration :: OpenKitConfiguration
  bcPrivacyConfiguration :: PrivacyConfiguration
  bcHTTPClientConfiguration :: HTTPClientConfiguration
  bcServerConfiguration :: ServerConfigurationPtr
  bcIsServerConfigurationSet :: bool
  bcServerConfigurationUpdateCallback :: bool

definition BeaconConfiguration_from :: "OpenKitConfiguration \<Rightarrow> PrivacyConfiguration \<Rightarrow> int32 \<Rightarrow> BeaconConfiguration" where
  "BeaconConfiguration_from openKitConfig privacyConfig serverId =
     \<lparr>bcOpenKitConfiguration = openKitConfig, bcPrivacyConfiguration = privacyConfig,
      bcHTTPClientConfiguration = withServerID serverId (HTTPClientConfiguration_from openKitConfig),
      bcServerConfiguration = NullConfiguration, bcIsServerConfigurationSet = False,
      bcServerConfigurationUpdateCallback = False\<rparr>"

definition getServerConfiguration :: "BeaconConfiguration \<Rightarrow> ServerConfiguration" where
  "getServerConfiguration b = getServerConfigurationOrDefault (bcServerConfiguration b)"

text \<open>The second component is the configuration the callback is called with, if it is.\<close>

definition bc_initializeServerConfiguration ::
    "ServerConfigurationPtr \<Rightarrow> BeaconConfiguration \<Rightarrow> BeaconConfiguration \<times> ServerConfiguration option" where
  "bc_initializeServerConfiguration initialServerConfiguration b =
     (case initialServerConfiguration of
        Created c \<Rightarrow>
          if bcIsServerConfigurationSet b then (b, None)
          else (b\<lparr>bcServerConfiguration := initialServerConfiguration\<rparr>,
                if bcServerConfigurationUpdateCallback b then Some c else None)
      | _ \<Rightarrow> (b, None))"

definition bc_updateServerConfiguration ::
    "ServerConfigurationPtr \<Rightarrow> BeaconConfiguration \<Rightarrow> BeaconConfiguration \<times> ServerConfiguration option" where
  "bc_updateServerConfiguration newServerConfiguration b =
     (if newServerConfiguration = NullConfiguration then (b, None)
      else
        (let p = (if bcIsServerConfigurationSet b
                  then Created (server_merge (getServerConfiguration b) (getServerConfigurationOrDefault newServerConfiguration))
                  else newServerConfiguration)
         in (b\<lparr>bcServerConfiguration := p, bcIsServerConfigurationSet := True\<rparr>,
             if bcServerConfigurationUpdateCallback b then Some (getServerConfigurationOrDefault p) else None)))"

definition updateCaptureWith :: "bool \<Rightarrow> BeaconConfiguration \<Rightarrow> BeaconConfiguration" where
  "updateCaptureWith captureState b =
     b\<lparr>bcServerConfiguration := Created (sc_withCapture captureState (ServerConfiguration_copy (getServerConfiguration b))),
       bcIsServerConfigurationSet := True\<rparr>"

definition bc_enableCapture :: "BeaconConfiguration \<Rightarrow> BeaconConfiguration" where
  "bc_enableCapture b = updateCaptureWith True b"

definition bc_disableCapture :: "BeaconConfiguration \<Rightarrow> BeaconConfiguration" where
  "bc_disableCapture b = updateCaptureWith False b"

definition bc_setServerConfigurationUpdateCallback :: "bool \<Rightarrow> BeaconConfiguration \<Rightarrow> BeaconConfiguration" where
  "bc_setServerConfigurationUpdateCallback callback b = b\<lparr>bcServerConfigurationUpdateCallback := callback\<rparr>"

subsection \<open>What a session keeps of its first configuration\<close>

text \<open>The settings that a merge takes from the earlier configuration, read with the getters.\<close>

definition session_settings :: "ServerConfiguration \<Rightarrow> int32 list \<times> bool list" where
  "session_settings c =
     ([scServerId c, scMultiplicity c, scMaxSessionDurationInMilliseconds c, scMaxEventsPerSession c,
       scSessionTimeoutInMilliseconds c, scVisitStoreVersion c, scTrafficControlPercentage c],
      [isSessionSplitBySessionDurationEnabled c, isSessionSplitByEventsEnabled c, isSessionSplitByIdleTimeoutEnabled c])"

text \<open>And those it takes from the later one.\<close>

definition reporting_settings :: "ServerConfiguration \<Rightarrow> int32 list \<times> bool list" where
  "reporting_settings c =
     ([scBeaconSizeInBytes c, scSendIntervalInMilliseconds c],
      [scIsCaptureEnabled c, scIsCrashReportingEnabled c, scIsErrorReportingEnabled c])"

lemmas settings_defs = session_settings_def reporting_settings_def isSessionSplitBySessionDurationEnabled_def
  isSessionSplitByEventsEnabled_def isSessionSplitByIdleTimeoutEnabled_def

lemma copy_settings [simp]:
  "session_settings (ServerConfiguration_copy c) = session_settings c"
  "reporting_settings (ServerConfiguration_copy c) = reporting_settings c"
  "scIsCaptureEnabled (ServerConfiguration_copy c) = scIsCaptureEnabled c"
  by (auto simp: ServerConfiguration_copy_def settings_defs)

lemma with_capture_settings [simp]:
  "session_settings (sc_withCapture v c) = session_settings c" "scIsCaptureEnabled (sc_withCapture v c) = v"
  by (simp_all add: sc_withCapture_def settings_defs)

lemma merge_settings [simp]:
  "session_settings (server_merge c other) = session_settings c"
  "reporting_settings (server_merge c other) = reporting_settings other"
  by (auto simp: server_merge_def ServerConfiguration_copy_def settings_defs Let_def
    sc_withMultiplicity_def sc_withServerId_def sc_withMaxSessionDurationInMilliseconds_def
    sc_withSessionSplitBySessionDurationEnabled_def sc_withMaxEventsPerSession_def sc_withSessionSplitByEventsEnabled_def
    sc_withSessionTimeoutInMilliseconds_def sc_withSessionSplitByIdleTimeoutEnabled_def sc_withVisitStoreVersion_def
    sc_withTrafficControlPercentage_def)

lemma merge_capture [simp]: "scIsCaptureEnabled (server_merge c other) = scIsCaptureEnabled other"
  using merge_settings(2) [of c other] by (simp add: reporting_settings_def)

text \<open>The calls that change the configuration of a beacon.\<close>

datatype configuration_call = Initialize ServerConfigurationPtr | Update ServerConfigurationPtr | EnableCapture | DisableCapture
| SetCallback bool

fun configuration_step :: "configuration_call \<Rightarrow> BeaconConfiguration \<Rightarrow> BeaconConfiguration" where
  "configuration_step (Initialize p) b = fst (bc_initializeServerConfiguration p b)"
| "configuration_step (Update p) b = fst (bc_updateServerConfiguration p b)"
| "configuration_step EnableCapture b = bc_enableCapture b"
| "configuration_step DisableCapture b = bc_disableCapture b"
| "configuration_step (SetCallback v) b = bc_setServerConfigurationUpdateCallback v b"

text \<open>The reporting settings and the capture flag that the calls leave, whatever was before.\<close>

fun configures :: "configuration_call \<Rightarrow> bool" where
  "configures (Update p) \<longleftrightarrow> p \<noteq> NullConfiguration"
| "configures EnableCapture \<longleftrightarrow> True"
| "configures DisableCapture \<longleftrightarrow> True"
| "configures _ \<longleftrightarrow> False"

fun capture_after :: "configuration_call \<Rightarrow> bool \<Rightarrow> bool" where
  "capture_after (Update p) c = (if p = NullConfiguration then c else scIsCaptureEnabled (getServerConfigurationOrDefault p))"
| "capture_after EnableCapture c = True"
| "capture_after DisableCapture c = False"
| "capture_after _ c = c"

lemma configuration_step_set:
  "bcIsServerConfigurationSet (configuration_step call b) \<longleftrightarrow> bcIsServerConfigurationSet b \<or> configures call"
  by (cases call) (auto simp: bc_initializeServerConfiguration_def bc_updateServerConfiguration_def bc_enableCapture_def
    bc_disableCapture_def updateCaptureWith_def bc_setServerConfigurationUpdateCallback_def Let_def split: ServerConfigurationPtr.split)

lemma configuration_step_settings:
  assumes "bcIsServerConfigurationSet b"
  shows "session_settings (getServerConfiguration (configuration_step call b)) = session_settings (getServerConfiguration b)"
    and "scIsCaptureEnabled (getServerConfiguration (configuration_step call b)) =
      capture_after call (scIsCaptureEnabled (getServerConfiguration b))"
  using assms
  by (cases call; auto simp: bc_initializeServerConfiguration_def bc_updateServerConfiguration_def bc_enableCapture_def
    bc_disableCapture_def updateCaptureWith_def bc_setServerConfigurationUpdateCallback_def getServerConfiguration_def
    getServerConfigurationOrDefault_def Let_def split: ServerConfigurationPtr.split)+

lemma configuration_set_from:
  "bcIsServerConfigurationSet (fold configuration_step calls b) \<longleftrightarrow> bcIsServerConfigurationSet b \<or> list_ex configures calls"
  by (induction calls arbitrary: b) (auto simp: configuration_step_set)

subsection \<open>Properties\<close>

text \<open>C23: Once a beacon is configured, which the first update with a configuration or a switch of
  the capturing does and nothing undoes, no call changes its server id, multiplicity, visit store
  version, traffic control percentage or the limits at which its session is split; whether it
  captures is what the last update or switch has said.\<close>

theorem session_settings_stable:
  assumes "b = fold configuration_step first (BeaconConfiguration_from openKitConfig privacyConfig serverId)"
  shows "bcIsServerConfigurationSet b = list_ex configures first \<and>
    (bcIsServerConfigurationSet b \<longrightarrow>
      bcIsServerConfigurationSet (fold configuration_step calls b) \<and>
      session_settings (getServerConfiguration (fold configuration_step calls b)) = session_settings (getServerConfiguration b) \<and>
      scIsCaptureEnabled (getServerConfiguration (fold configuration_step calls b)) =
        fold capture_after calls (scIsCaptureEnabled (getServerConfiguration b)))"
proof -
  have "bcIsServerConfigurationSet b \<Longrightarrow>
      session_settings (getServerConfiguration (fold configuration_step calls b)) = session_settings (getServerConfiguration b) \<and>
      scIsCaptureEnabled (getServerConfiguration (fold configuration_step calls b)) =
        fold capture_after calls (scIsCaptureEnabled (getServerConfiguration b))" for b
    by (induction calls arbitrary: b) (simp_all add: configuration_step_settings configuration_step_set)
  then show ?thesis
    using configuration_set_from [of first] configuration_set_from [of calls b] assms by (simp add: BeaconConfiguration_from_def)
qed

lemma session_settings_stable_witness:
  "\<forall>openKitConfig privacyConfig c.
     scIsCaptureEnabled (getServerConfiguration (fold configuration_step [Update (Created c), EnableCapture]
       (fold configuration_step [Update DefaultInstance] (BeaconConfiguration_from openKitConfig privacyConfig 1)))) \<and>
     scServerId (getServerConfiguration (fold configuration_step [Update (Created c), EnableCapture]
       (fold configuration_step [Update DefaultInstance] (BeaconConfiguration_from openKitConfig privacyConfig 1)))) = -1"
proof (intro allI)
  fix openKitConfig :: OpenKitConfiguration and privacyConfig :: PrivacyConfiguration and c :: ServerConfiguration
  let ?b = "fold configuration_step [Update DefaultInstance] (BeaconConfiguration_from openKitConfig privacyConfig 1)"
  have "scServerId (getServerConfiguration ?b) = -1"
    by (simp add: bc_updateServerConfiguration_def BeaconConfiguration_from_def getServerConfiguration_def
      getServerConfigurationOrDefault_def defaultInstance_def ServerConfiguration_from_def UndefinedDefaults_def)
  then show "scIsCaptureEnabled (getServerConfiguration (fold configuration_step [Update (Created c), EnableCapture] ?b)) \<and>
     scServerId (getServerConfiguration (fold configuration_step [Update (Created c), EnableCapture] ?b)) = -1"
    using session_settings_stable [of ?b "[Update DefaultInstance]" openKitConfig privacyConfig 1 "[Update (Created c), EnableCapture]"]
    by (simp add: session_settings_def)
qed

end
