(* ===== verification/Json_Value.thy ===== *)
theory Json_Value
  imports Json_Lexing Containers
begin

text \<open>
  The values of the JSON library (src/util/json/objects/*.cxx) and the writer
  (src/util/json/JsonWriter.cxx). A null \<^verbatim>\<open>shared_ptr\<close> is \<open>None\<close>: the number value of a
  literal out of range is one. The lemmas give the text of the escapes.
\<close>

subsection \<open>Numbers\<close>

text \<open>
  What the code uses of \<^verbatim>\<open>double\<close>: reading and printing in the classic locale (\<open>None\<close> is a
  failed or partial read), conversion from and to \<^verbatim>\<open>int64_t\<close>, and \<^verbatim>\<open>isfinite\<close>.
\<close>

record 'd double_ops =
  double_read :: "string \<Rightarrow> 'd option"
  double_print :: "'d \<Rightarrow> string"
  double_of_int64 :: "int64 \<Rightarrow> 'd"
  double_to_int64 :: "'d \<Rightarrow> int64"
  double_finite :: "'d \<Rightarrow> bool"

record 'd JsonNumberValue =
  mIsInteger :: bool
  mLongValue :: int64
  mDoubleValue :: 'd

definition fromLong :: "'d double_ops \<Rightarrow> int64 \<Rightarrow> 'd JsonNumberValue" where
  "fromLong fp longValue = \<lparr>mIsInteger = True, mLongValue = longValue, mDoubleValue = double_of_int64 fp longValue\<rparr>"

definition fromDouble :: "'d double_ops \<Rightarrow> 'd \<Rightarrow> 'd JsonNumberValue" where
  "fromDouble fp doubleValue = \<lparr>mIsInteger = False, mLongValue = double_to_int64 fp doubleValue, mDoubleValue = doubleValue\<rparr>"

definition parseLongValue :: "'d double_ops \<Rightarrow> string \<Rightarrow> 'd JsonNumberValue option" where
  "parseLongValue fp literalValue =
     (case scan_decimal literalValue of
        None \<Rightarrow> None
      | Some (i, left) \<Rightarrow>
          if - (2 ^ 63) \<le> i \<and> i < 2 ^ 63 \<and> left = [] then Some (fromLong fp (word_of_int i)) else None)"

definition parseDoubleValue :: "'d double_ops \<Rightarrow> string \<Rightarrow> 'd JsonNumberValue option" where
  "parseDoubleValue fp literalValue =
     (case double_read fp literalValue of None \<Rightarrow> None | Some d \<Rightarrow> Some (fromDouble fp d))"

text \<open>
  The second and the third group of the pattern are the fraction, which begins with the
  only point, and the exponent, which begins with the only \<^verbatim>\<open>e\<close> or \<^verbatim>\<open>E\<close>.
\<close>

definition fromNumberLiteral :: "'d double_ops \<Rightarrow> string \<Rightarrow> 'd JsonNumberValue option" where
  "fromNumberLiteral fp literalValue =
     (if \<not> regex_match literalValue NUMBER_PATTERN then None
      else if CHR ''.'' \<notin> set literalValue \<and> CHR ''e'' \<notin> set literalValue \<and> CHR ''E'' \<notin> set literalValue
        then parseLongValue fp literalValue
      else parseDoubleValue fp literalValue)"

definition isInt32Value :: "'d JsonNumberValue \<Rightarrow> bool" where
  "isInt32Value n \<longleftrightarrow> mIsInteger n \<and> - (2 ^ 31) \<le> sint (mLongValue n) \<and> sint (mLongValue n) \<le> 2 ^ 31 - 1"

definition getInt32Value :: "'d JsonNumberValue \<Rightarrow> int32" where
  "getInt32Value n = ucast (mLongValue n)"

definition getLongValue :: "'d JsonNumberValue \<Rightarrow> int64" where
  "getLongValue n = mLongValue n"

definition isFinite :: "'d double_ops \<Rightarrow> 'd JsonNumberValue \<Rightarrow> bool" where
  "isFinite fp n \<longleftrightarrow> mIsInteger n \<or> double_finite fp (mDoubleValue n)"

subsection \<open>Values\<close>

datatype 'd JsonValue =
    JsonNullValue
  | JsonBooleanValue bool
  | JsonStringValue string
  | JsonNumber "'d JsonNumberValue"
  | JsonArrayValue "'d JsonValue option list"
  | JsonObjectValue "(string \<times> 'd JsonValue option) list"

datatype JsonValueType = NULL_VALUE | BOOLEAN_VALUE | NUMBER_VALUE | STRING_VALUE | ARRAY_VALUE | OBJECT_VALUE

primrec getValueType :: "'d JsonValue \<Rightarrow> JsonValueType" where
  "getValueType JsonNullValue = NULL_VALUE"
| "getValueType (JsonBooleanValue b) = BOOLEAN_VALUE"
| "getValueType (JsonStringValue s) = STRING_VALUE"
| "getValueType (JsonNumber n) = NUMBER_VALUE"
| "getValueType (JsonArrayValue vs) = ARRAY_VALUE"
| "getValueType (JsonObjectValue m) = OBJECT_VALUE"

definition boolean_fromLiteral :: "string \<Rightarrow> 'd JsonValue option" where
  "boolean_fromLiteral value =
     (if value = BOOLEAN_TRUE_LITERAL then Some (JsonBooleanValue True)
      else if value = BOOLEAN_FALSE_LITERAL then Some (JsonBooleanValue False)
      else None)"

type_synonym 'd JsonObjectMap = "(string, 'd JsonValue option) unordered_map"

definition object_find :: "string \<Rightarrow> 'd JsonObjectMap \<Rightarrow> 'd JsonValue option option" where
  "object_find key m = um_find (=) key m"

definition object_containsKey :: "string \<Rightarrow> 'd JsonObjectMap \<Rightarrow> bool" where
  "object_containsKey key m \<longleftrightarrow> object_find key m \<noteq> None"

text \<open>\<^verbatim>\<open>operator[]\<close> of the class goes to that of the map, which inserts a null pointer for a missing key.\<close>

definition object_index :: "string \<Rightarrow> 'd JsonObjectMap \<Rightarrow> 'd JsonValue option \<times> 'd JsonObjectMap" where
  "object_index key m =
     (case um_find (=) key m of Some v \<Rightarrow> (v, m) | None \<Rightarrow> (None, um_put (=) key None m))"

subsection \<open>The writer\<close>

type_synonym JsonWriter = string

definition hex_digit :: "nat \<Rightarrow> char" where
  "hex_digit d = (if d < 10 then char_of (48 + d) else char_of (87 + d))"

definition escapeChar :: "char \<Rightarrow> string" where
  "escapeChar c =
     (if c = CHR 0x08 then [backslash, CHR ''b'']
      else if c = CHR 0x0C then [backslash, CHR ''f'']
      else if c = CHR 0x0A then [backslash, CHR ''n'']
      else if c = CHR 0x0D then [backslash, CHR ''r'']
      else if c = CHR 0x09 then [backslash, CHR ''t'']
      else if c = CHR ''/'' then [backslash, CHR ''/'']
      else if c = quote then [backslash, quote]
      else if c = backslash then [backslash, backslash]
      else if byte_of c \<le> 0x1F then
        [backslash, CHR ''u'', CHR ''0'', CHR ''0'', hex_digit (byte_of c div 16), hex_digit (byte_of c mod 16)]
      else [c])"

definition escapeString :: "string \<Rightarrow> string" where
  "escapeString value = concat (map escapeChar value)"

definition openArray :: "JsonWriter \<Rightarrow> JsonWriter" where "openArray w = w @ ''[''"
definition closeArray :: "JsonWriter \<Rightarrow> JsonWriter" where "closeArray w = w @ '']''"
definition openObject :: "JsonWriter \<Rightarrow> JsonWriter" where "openObject w = w @ ''{''"
definition closeObject :: "JsonWriter \<Rightarrow> JsonWriter" where "closeObject w = w @ ''}''"

definition insertKey :: "string \<Rightarrow> JsonWriter \<Rightarrow> JsonWriter" where
  "insertKey key w = w @ [quote] @ escapeString key @ [quote]"

definition insertStringValue :: "string \<Rightarrow> JsonWriter \<Rightarrow> JsonWriter" where
  "insertStringValue value w = w @ [quote] @ escapeString value @ [quote]"

definition insertValue :: "string \<Rightarrow> JsonWriter \<Rightarrow> JsonWriter" where
  "insertValue value w = w @ escapeString value"

definition insertKeyValueSeperator :: "JsonWriter \<Rightarrow> JsonWriter" where "insertKeyValueSeperator w = w @ '':''"
definition insertElementSeperator :: "JsonWriter \<Rightarrow> JsonWriter" where "insertElementSeperator w = w @ '',''"

definition number_writeJsonString :: "'d double_ops \<Rightarrow> 'd JsonNumberValue \<Rightarrow> JsonWriter \<Rightarrow> JsonWriter" where
  "number_writeJsonString fp n =
     insertValue (if mIsInteger n then show_int (sint (mLongValue n))
       else if isFinite fp n then double_print fp (mDoubleValue n)
       else ''null'')"

text \<open>
  \<open>None\<close>: a null pointer was dereferenced. The number counts the elements written.
\<close>

fun writeJsonString :: "'d double_ops \<Rightarrow> 'd JsonValue \<Rightarrow> JsonWriter \<Rightarrow> JsonWriter option"
  and write_elements :: "'d double_ops \<Rightarrow> nat \<Rightarrow> 'd JsonValue option list \<Rightarrow> JsonWriter \<Rightarrow> JsonWriter option"
  and write_members :: "'d double_ops \<Rightarrow> nat \<Rightarrow> (string \<times> 'd JsonValue option) list \<Rightarrow> JsonWriter \<Rightarrow> JsonWriter option" where
  "writeJsonString fp JsonNullValue w = Some (insertValue ''null'' w)"
| "writeJsonString fp (JsonBooleanValue b) w = Some (insertValue (if b then ''true'' else ''false'') w)"
| "writeJsonString fp (JsonStringValue s) w = Some (insertStringValue s w)"
| "writeJsonString fp (JsonNumber n) w = Some (number_writeJsonString fp n w)"
| "writeJsonString fp (JsonArrayValue vs) w = map_option closeArray (write_elements fp 0 vs (openArray w))"
| "writeJsonString fp (JsonObjectValue m) w = map_option closeObject (write_members fp 0 m (openObject w))"
| "write_elements fp n [] w = Some w"
| "write_elements fp n (None # vs) w = None"
| "write_elements fp n (Some v # vs) w =
     (case writeJsonString fp v (if n > 0 then insertElementSeperator w else w) of
        None \<Rightarrow> None
      | Some w' \<Rightarrow> write_elements fp (n + 1) vs w')"
| "write_members fp n [] w = Some w"
| "write_members fp n ((k, None) # m) w = None"
| "write_members fp n ((k, Some v) # m) w =
     (case writeJsonString fp v
        (insertKeyValueSeperator (insertKey k (if n > 0 then insertElementSeperator w else w))) of
        None \<Rightarrow> None
      | Some w' \<Rightarrow> write_members fp (n + 1) m w')"

definition value_toString :: "'d double_ops \<Rightarrow> 'd JsonValue \<Rightarrow> string option" where
  "value_toString fp v = writeJsonString fp v []"

subsection \<open>The written text is lexed as the value\<close>

lemma hex_digit_value: "d < 16 \<Longrightarrow> digit_value (hex_digit d) = d"
  by (simp add: hex_digit_def digit_value_def byte_of_char_of)

lemma hex_digit_is_hex: "d < 16 \<Longrightarrow> is_hex (hex_digit d)"
  by (simp add: hex_digit_def is_hex_def isHexCharacter_def byte_of_char_of)

lemma control_escape:
  assumes "byte_of c \<le> 0x1F"
  shows "escape_at (CHR ''u'' # [CHR ''0'', CHR ''0'', hex_digit (byte_of c div 16), hex_digit (byte_of c mod 16)] @ x # s) [c] (x # s)"
proof -
  let ?ds = "[CHR ''0'', CHR ''0'', hex_digit (byte_of c div 16), hex_digit (byte_of c mod 16)]"
  have z: "digit_value (CHR ''0'') = 0" "is_hex (CHR ''0'')"
    by (simp_all add: digit_value_def byte_of_def is_hex_def isHexCharacter_def)
  have "byte_of c div 16 < 16" using assms by simp
  then have v: "digits_value 16 ?ds = byte_of c"
    using hex_digit_value [of "byte_of c div 16"] hex_digit_value [of "byte_of c mod 16"]
    by (simp add: digits_value_def z)
  have h: "list_all is_hex ?ds" "length ?ds = 4"
    using hex_digit_is_hex [of "byte_of c div 16"] hex_digit_is_hex [of "byte_of c mod 16"] assms z by simp_all
  have n: "\<not> isHighSurrogateCharacter (int (digits_value 16 ?ds))" "\<not> isLowSurrogateCharacter (int (digits_value 16 ?ds))"
    unfolding v isHighSurrogateCharacter_def isLowSurrogateCharacter_def using assms by simp_all
  have "char_of (0 :: nat) = CHR 0x00" by code_simp
  then have "unicode_bytes ?ds = [c]"
    unfolding unicode_bytes_def v using assms by (simp add: Let_def)
  then show ?thesis using escape_at_unicode [OF h n, of x s] by simp
qed

lemma escaped_char_body:
  assumes "string_body (x # s) v s'"
  shows "string_body (escapeChar c @ x # s) (c # v) s'"
proof -
  consider (simple) d where "(d, c) \<in> set simple_escapes" "escapeChar c = [backslash, d]"
    | (control) "byte_of c \<le> 0x1F" "escapeChar c =
        [backslash, CHR ''u'', CHR ''0'', CHR ''0'', hex_digit (byte_of c div 16), hex_digit (byte_of c mod 16)]"
    | (plain) "escapeChar c = [c]" "\<not> isCharacterThatNeedsEscaping (int (byte_of c))"
  proof -
    have q: "byte_of c \<noteq> 34" "byte_of c \<noteq> 92" if "c \<noteq> quote" "c \<noteq> backslash"
      using that by (metis backslash_byte byte_of_inject quote_def backslash_def)+
    show ?thesis
    proof (cases "c \<in> {CHR 0x08, CHR 0x0C, CHR 0x0A, CHR 0x0D, CHR 0x09, CHR ''/'', quote, backslash}")
      case True
      then have "\<exists>d. (d, c) \<in> set simple_escapes \<and> escapeChar c = [backslash, d]"
        unfolding insert_iff empty_iff
        by (elim disjE) (simp_all add: simple_escapes_def escapeChar_def quote_def backslash_def)
      then show ?thesis using simple by blast
    next
      case False
      then show ?thesis
        using control plain q
        by (cases "byte_of c \<le> 0x1F") (simp_all add: escapeChar_def isCharacterThatNeedsEscaping_def)
    qed
  qed
  then show ?thesis
  proof cases
    case simple
    show ?thesis
      using string_body_escape [OF escape_at_simple [OF simple(1)] assms] simple(2) by (simp add: backslash_def)
  next
    case control
    show ?thesis
      using string_body_escape [OF control_escape [OF control(1)] assms] control(2) by (simp add: backslash_def)
  next
    case plain
    show ?thesis using string_body_plain [OF assms plain(2)] plain(1) by simp
  qed
qed

lemma escaped_body: "string_body (escapeString v @ quote # s) v s"
proof (induction v)
  case Nil
  show ?case using string_body_quote by (simp add: escapeString_def quote_def)
next
  case (Cons c v)
  obtain x t where "escapeString v @ quote # s = x # t" by (cases "escapeString v") auto
  then show ?case using escaped_char_body [of x t v s c] Cons by (simp add: escapeString_def)
qed

text \<open>Every string of bytes that the writer writes, as a value or as a key, is lexed as
  one string token with the same bytes, and the lexer goes on right behind it.\<close>

theorem written_string_token:
  "token_at (insertStringValue v [] @ s) (createStringToken v) s \<and>
   token_at (insertKey v [] @ s) (createStringToken v) s"
  using token_string [OF escaped_body, of v s] by (simp_all add: insertStringValue_def insertKey_def quote_def)

subsubsection \<open>Numbers\<close>

lemma digits_literal: "list_all std_isdigit ds \<Longrightarrow> list_all literal_char ds"
  by (auto simp: list_all_iff std_isdigit_def literal_char_def whitespace_def isJsonWhitespaceCharacter_def
    isJsonStructuralCharacter_def)

text \<open>The text of a literal token ends where the next character is no part of it.\<close>

definition literal_ends :: "string \<Rightarrow> bool" where
  "literal_ends s \<longleftrightarrow> s = [] \<or> \<not> literal_char (hd s)"

lemma literal_takeWhile:
  assumes "list_all literal_char lit" and "literal_ends s"
  shows "takeWhile literal_char (lit @ s) = lit" "dropWhile literal_char (lit @ s) = s"
  using assms by (cases s; auto simp: list_all_iff literal_ends_def takeWhile_append dropWhile_append)+

lemma show_int_number: "\<exists>ip. (show_int i = ip @ [] @ [] \<or> show_int i = CHR ''-'' # ip @ [] @ []) \<and> integer_part ip"
proof -
  have "integer_part (decimal_digits n)" for n
    using decimal_digits_all [of n] decimal_digits_hd [of n] decimal_digits_zero
    by (cases "n = 0") (simp_all add: integer_part_def)
  then show ?thesis
    by (intro exI [of _ "decimal_digits (nat \<bar>i\<bar>)"]) (simp add: show_int_def)
qed

lemma show_int_literal: "list_all literal_char (show_int i)" and show_int_start: "isDigitOrMinus (int (byte_of (hd (show_int i))))"
  and show_int_no_part: "CHR ''.'' \<notin> set (show_int i) \<and> CHR ''e'' \<notin> set (show_int i) \<and> CHR ''E'' \<notin> set (show_int i)"
proof -
  have m: "literal_char (CHR ''-'')" "\<not> std_isdigit (CHR ''.'')" "\<not> std_isdigit (CHR ''e'')" "\<not> std_isdigit (CHR ''E'')"
    "byte_of (CHR ''-'') = 45"
    by (simp_all add: literal_char_def whitespace_def isJsonWhitespaceCharacter_def isJsonStructuralCharacter_def
      byte_of_def std_isdigit_def)
  note d = decimal_digits_all
  show "list_all literal_char (show_int i)"
    using digits_literal [OF d [of "nat i"]] digits_literal [OF d [of "nat (- i)"]] m by (simp add: show_int_def)
  show "isDigitOrMinus (int (byte_of (hd (show_int i))))"
  proof (cases "i < 0")
    case False
    have "std_isdigit (hd (decimal_digits (nat i)))"
      using d [of "nat i"] decimal_digits_not_Nil [of "nat i"] by (cases "decimal_digits (nat i)") auto
    then show ?thesis using False by (simp add: show_int_def isDigitOrMinus_def std_isdigit_def)
  qed (simp add: show_int_def isDigitOrMinus_def m)
  show "CHR ''.'' \<notin> set (show_int i) \<and> CHR ''e'' \<notin> set (show_int i) \<and> CHR ''E'' \<notin> set (show_int i)"
    using d [of "nat i"] d [of "nat (- i)"] m by (auto simp: show_int_def list_all_iff)
qed

lemma show_int_match: "regex_match (show_int i) NUMBER_PATTERN"
proof -
  have "fraction_part []" "exponent_part []" by (simp_all add: fraction_part_def exponent_part_def)
  then show ?thesis unfolding number_literal_parts using show_int_number [of i] by blast
qed

lemma fromNumberLiteral_int:
  "fromNumberLiteral fp (show_int i) = (if - (2 ^ 63) \<le> i \<and> i < 2 ^ 63 then Some (fromLong fp (word_of_int i)) else None)"
  using scan_show_int [of "[]" i] show_int_match [of i] show_int_no_part [of i]
  by (simp add: fromNumberLiteral_def parseLongValue_def)

lemma token_show_int:
  assumes "literal_ends s"
  shows "token_at (show_int i @ s) (createNumberToken (show_int i)) s"
proof -
  obtain c t where c: "show_int i = c # t" using show_int_not_Nil by (cases "show_int i") auto
  have w: "\<not> whitespace c" using show_int_literal [of i] c by (simp add: literal_char_def)
  note tw = literal_takeWhile [OF show_int_literal assms, of i]
  have d: "dropWhile whitespace (show_int i @ s) = c # t @ s" using w c by simp
  show ?thesis
    using token_number [OF d] show_int_start [of i] show_int_match [of i] tw c by simp
qed

lemma token_written_literal:
  assumes "literal_ends s"
  shows "token_at (NULL_LITERAL @ s) nullToken s" "token_at (BOOLEAN_TRUE_LITERAL @ s) booleanTrueToken s"
    "token_at (BOOLEAN_FALSE_LITERAL @ s) booleanFalseToken s"
proof -
  have l: "list_all literal_char NULL_LITERAL" "list_all literal_char BOOLEAN_TRUE_LITERAL"
    "list_all literal_char BOOLEAN_FALSE_LITERAL"
    "\<not> whitespace (CHR ''n'')" "\<not> whitespace (CHR ''t'')" "\<not> whitespace (CHR ''f'')"
    by code_simp+
  show "token_at (NULL_LITERAL @ s) nullToken s"
    by (rule token_literal [of _ "CHR ''n''" "''ull'' @ s" NULL_LITERAL])
      (use l literal_takeWhile [OF l(1) assms] in \<open>simp_all add: NULL_LITERAL_def\<close>)
  show "token_at (BOOLEAN_TRUE_LITERAL @ s) booleanTrueToken s"
    by (rule token_literal [of _ "CHR ''t''" "''rue'' @ s" BOOLEAN_TRUE_LITERAL])
      (use l literal_takeWhile [OF l(2) assms] in \<open>simp_all add: BOOLEAN_TRUE_LITERAL_def\<close>)
  show "token_at (BOOLEAN_FALSE_LITERAL @ s) booleanFalseToken s"
    by (rule token_literal [of _ "CHR ''f''" "''alse'' @ s" BOOLEAN_FALSE_LITERAL])
      (use l literal_takeWhile [OF l(3) assms] in \<open>simp_all add: BOOLEAN_FALSE_LITERAL_def\<close>)
qed

end
