(* ===== verification/Json_Parser.thy ===== *)
theory Json_Parser
  imports Json_Value
begin

text \<open>
  The parser of the JSON library (src/util/json/JsonParser.cxx), a push-down automaton with a
  stack of states and a stack of the composite values being built. Each \<open>parseIn...\<close> function
  is the handler of one state; \<open>doParse_loop\<close> runs them on the tokens of the lexer.
\<close>

subsection \<open>State\<close>

datatype JsonParserState =
  INIT | IN_ARRAY_START | IN_ARRAY_VALUE | IN_ARRAY_DELIMITER | IN_OBJECT_START | IN_OBJECT_KEY
| IN_OBJECT_COLON | IN_OBJECT_VALUE | IN_OBJECT_DELIMITER | PARSER_END | PARSER_ERROR

primrec state_number :: "JsonParserState \<Rightarrow> int" where
  "state_number INIT = 0"
| "state_number IN_ARRAY_START = 1"
| "state_number IN_ARRAY_VALUE = 2"
| "state_number IN_ARRAY_DELIMITER = 3"
| "state_number IN_OBJECT_START = 4"
| "state_number IN_OBJECT_KEY = 5"
| "state_number IN_OBJECT_COLON = 6"
| "state_number IN_OBJECT_VALUE = 7"
| "state_number IN_OBJECT_DELIMITER = 8"
| "state_number PARSER_END = 9"
| "state_number PARSER_ERROR = 10"

text \<open>
  A container shares its list or map with its JSON value; the value is read off the
  backing. A simple value, possibly a null pointer, has no backing.
\<close>

datatype 'd Backing =
    NoBacking "'d JsonValue option"
  | BackingList "'d JsonValue option list"
  | BackingMap "'d JsonObjectMap"

record 'd JsonValueContainer =
  mBacking :: "'d Backing"
  mLastParsedObjectKey :: string
  mLastParsedObjectValue :: "'d JsonValue option"

definition JsonValueContainer_new :: "'d Backing \<Rightarrow> 'd JsonValueContainer" where
  "JsonValueContainer_new backing = \<lparr>mBacking = backing, mLastParsedObjectKey = [], mLastParsedObjectValue = None\<rparr>"

definition mJsonValue :: "'d JsonValueContainer \<Rightarrow> 'd JsonValue option" where
  "mJsonValue c = (case mBacking c of
      NoBacking v \<Rightarrow> v | BackingList l \<Rightarrow> Some (JsonArrayValue l) | BackingMap m \<Rightarrow> Some (JsonObjectValue m))"

text \<open>The stacks have their top first.\<close>

record 'd JsonParser =
  mLexer :: JsonLexer
  mState :: JsonParserState
  mParsedValue :: "'d JsonValue option"
  mStateStack :: "JsonParserState list"
  mValueStack :: "'d JsonValueContainer list"

definition JsonParser_new :: "string \<Rightarrow> 'd JsonParser" where
  "JsonParser_new input = \<lparr>mLexer = JsonLexer_new input, mState = INIT, mParsedValue = None,
     mStateStack = [], mValueStack = []\<rparr>"

type_synonym ('d, 'a) parser_op = "('d JsonParser, 'a) cpp_op"

definition set_state :: "JsonParserState \<Rightarrow> ('d, unit) parser_op" where
  "set_state st = op_modify (\<lambda>p. p\<lparr>mState := st\<rparr>)"

subsection \<open>Errors\<close>

definition internalParserErrorMessage :: "JsonParserState \<Rightarrow> string \<Rightarrow> string" where
  "internalParserErrorMessage st suffix =
     ''Internal parser error: [state='' @ [quote] @ show_int (state_number st) @ [quote] @ ''] '' @ suffix"

definition unexpectedTokenErrorMessage :: "JsonToken \<Rightarrow> string \<Rightarrow> string" where
  "unexpectedTokenErrorMessage token suffix =
     ''Unexpected token '' @ [quote] @ token_toString token @ [quote] @ '' '' @ suffix"

definition throw_internal :: "string \<Rightarrow> ('d, 'a) parser_op" where
  "throw_internal suffix = (\<lambda>p. (Inl (JsonParserException (internalParserErrorMessage (mState p) suffix)), p))"

definition error_state_throw :: "string \<Rightarrow> ('d, 'a) parser_op" where
  "error_state_throw msg = (\<lambda>p. (Inl (JsonParserException msg), p\<lparr>mState := PARSER_ERROR\<rparr>))"

definition ensureTokenIsNotNull :: "JsonToken option \<Rightarrow> string \<Rightarrow> ('d, JsonToken) parser_op" where
  "ensureTokenIsNotNull token exceptionMessage =
     (case token of None \<Rightarrow> error_state_throw exceptionMessage | Some t \<Rightarrow> op_return t)"

definition ensureValueContainerStackIsNotEmpty :: "('d, 'd JsonValueContainer) parser_op" where
  "ensureValueContainerStackIsNotEmpty = (\<lambda>p.
     case mValueStack p of
       [] \<Rightarrow> throw_internal ''mValueStack is empty'' p
     | c # cs \<Rightarrow> (Inr c, p))"

definition ensureTopLevelElementIsAJsonArray :: "('d, 'd JsonValue option list) parser_op" where
  "ensureTopLevelElementIsAJsonArray = op_bind ensureValueContainerStackIsNotEmpty (\<lambda>c.
     case mBacking c of
       BackingList l \<Rightarrow> op_return l
     | NoBacking None \<Rightarrow> op_throw (UndefinedBehaviour ''null value on the stack'')
     | _ \<Rightarrow> throw_internal ''top level element is not a JSON array'')"

definition ensureTopLevelElementIsAJsonObject :: "('d, 'd JsonObjectMap) parser_op" where
  "ensureTopLevelElementIsAJsonObject = op_bind ensureValueContainerStackIsNotEmpty (\<lambda>c.
     case mBacking c of
       BackingMap m \<Rightarrow> op_return m
     | NoBacking None \<Rightarrow> op_throw (UndefinedBehaviour ''null value on the stack'')
     | _ \<Rightarrow> throw_internal ''top level element is not a JSON object'')"

definition ensureKeyValuePairWasParsed :: "('d, 'd JsonValueContainer) parser_op" where
  "ensureKeyValuePairWasParsed = op_bind ensureValueContainerStackIsNotEmpty (\<lambda>c.
     if mLastParsedObjectKey c = [] then throw_internal ''mLastParsedObjectKey is not set''
     else if mLastParsedObjectValue c = None then throw_internal ''mLastParsedObjectValue is null''
     else op_return c)"

subsection \<open>Building values\<close>

definition tokenToSimpleJsonValue :: "'d double_ops \<Rightarrow> JsonToken \<Rightarrow> ('d, 'd JsonValue option) parser_op" where
  "tokenToSimpleJsonValue fp token = (case mTokenType token of
       LITERAL_NULL \<Rightarrow> op_return (Some JsonNullValue)
     | LITERAL_BOOLEAN \<Rightarrow> op_return (boolean_fromLiteral (mTokenValue token))
     | VALUE_STRING \<Rightarrow> op_return (Some (JsonStringValue (mTokenValue token)))
     | VALUE_NUMBER \<Rightarrow> op_return (map_option JsonNumber (fromNumberLiteral fp (mTokenValue token)))
     | _ \<Rightarrow> op_throw (JsonParserException (''Internal parser error: Unexpected JSON token '' @ [quote] @
              token_toString token @ [quote])))"

definition push_value :: "'d Backing \<Rightarrow> ('d, unit) parser_op" where
  "push_value backing = op_modify (\<lambda>p. p\<lparr>mValueStack := JsonValueContainer_new backing # mValueStack p\<rparr>)"

definition push_state :: "JsonParserState \<Rightarrow> ('d, unit) parser_op" where
  "push_state st = op_modify (\<lambda>p. p\<lparr>mStateStack := st # mStateStack p\<rparr>)"

text \<open>Changing the container on top of the stack, which is there.\<close>

definition modify_top :: "('d JsonValueContainer \<Rightarrow> 'd JsonValueContainer) \<Rightarrow> ('d, unit) parser_op" where
  "modify_top f = op_modify (\<lambda>p. p\<lparr>mValueStack :=
     (case mValueStack p of [] \<Rightarrow> [] | c # cs \<Rightarrow> f c # cs)\<rparr>)"

definition push_back :: "'d JsonValue option \<Rightarrow> ('d, unit) parser_op" where
  "push_back v = op_bind ensureTopLevelElementIsAJsonArray (\<lambda>l.
     modify_top (\<lambda>c. c\<lparr>mBacking := BackingList (l @ [v])\<rparr>))"

definition parseStartOfNestedObject :: "('d, unit) parser_op" where
  "parseStartOfNestedObject = op_bind (push_state IN_ARRAY_VALUE) (\<lambda>_. op_bind (push_value (BackingMap []))
     (\<lambda>_. set_state IN_OBJECT_START))"

definition parseStartOfNestedArray :: "('d, unit) parser_op" where
  "parseStartOfNestedArray = op_bind (push_state IN_ARRAY_VALUE) (\<lambda>_. op_bind (push_value (BackingList []))
     (\<lambda>_. set_state IN_ARRAY_START))"

text \<open>The last container has been closed: its value goes to the container below, and the state below is restored.\<close>

definition add_to_parent :: "'d JsonValue option \<Rightarrow> ('d, unit) parser_op" where
  "add_to_parent currentValue =
     op_bind (op_modify (\<lambda>p. p\<lparr>mValueStack := tl (mValueStack p)\<rparr>)) (\<lambda>_.
     op_bind ensureValueContainerStackIsNotEmpty (\<lambda>c.
     op_bind (case mBacking c of
         BackingList l \<Rightarrow> modify_top (\<lambda>c. c\<lparr>mBacking := BackingList (l @ [currentValue])\<rparr>)
       | BackingMap m \<Rightarrow> modify_top (\<lambda>c. c\<lparr>mLastParsedObjectValue := currentValue\<rparr>)
       | NoBacking None \<Rightarrow> op_throw (UndefinedBehaviour ''null value on the stack'')
       | NoBacking (Some _) \<Rightarrow> throw_internal ''not a composite top level object'') (\<lambda>_.
     op_modify (\<lambda>p. p\<lparr>mState := hd (mStateStack p), mStateStack := tl (mStateStack p)\<rparr>))))"

text \<open>The sizes of the stacks are compared before the last container is treated.\<close>

definition closeCompositeJsonValueAndRestoreState :: "('d, unit) parser_op" where
  "closeCompositeJsonValueAndRestoreState = op_bind ensureValueContainerStackIsNotEmpty (\<lambda>firstElement p.
     if length (mValueStack p) \<noteq> length (mStateStack p) + 1
     then throw_internal ''mValueStack and mStateStack sizes mismatch'' p
     else if length (mValueStack p) = 1 then set_state PARSER_END p
     else add_to_parent (mJsonValue firstElement) p)"

text \<open>The assignment of the last pair to the map of the container that was found on top.\<close>

definition put_pair :: "'d JsonValueContainer \<Rightarrow> 'd JsonValueContainer" where
  "put_pair c = (case mBacking c of
      BackingMap m \<Rightarrow> c\<lparr>mBacking := BackingMap (um_put (=) (mLastParsedObjectKey c) (mLastParsedObjectValue c) m)\<rparr>
    | _ \<Rightarrow> c)"

definition putLastParsedKeyValuePairIntoObject :: "('d, unit) parser_op" where
  "putLastParsedKeyValuePairIntoObject = op_bind ensureKeyValuePairWasParsed (\<lambda>_.
     op_bind ensureTopLevelElementIsAJsonObject (\<lambda>_.
     modify_top (\<lambda>c. (put_pair c)\<lparr>mLastParsedObjectKey := [], mLastParsedObjectValue := None\<rparr>)))"

subsection \<open>The handlers of the states\<close>

definition UNTERMINATED_JSON_ARRAY_ERROR :: string where
  "UNTERMINATED_JSON_ARRAY_ERROR = ''Unterminated JSON array''"

definition UNTERMINATED_JSON_OBJECT_ERROR :: string where
  "UNTERMINATED_JSON_OBJECT_ERROR = ''Unterminated JSON object''"

definition is_simple :: "JsonTokenType \<Rightarrow> bool" where
  "is_simple t \<longleftrightarrow> t \<in> {LITERAL_NULL, LITERAL_BOOLEAN, VALUE_STRING, VALUE_NUMBER}"

definition parseInitState :: "'d double_ops \<Rightarrow> JsonToken option \<Rightarrow> ('d, unit) parser_op" where
  "parseInitState fp token = op_bind (ensureTokenIsNotNull token ''No JSON object could be decoded'') (\<lambda>t.
     if is_simple (mTokenType t) then
       op_bind (tokenToSimpleJsonValue fp t) (\<lambda>v. op_bind (push_value (NoBacking v)) (\<lambda>_. set_state PARSER_END))
     else if mTokenType t = LEFT_SQUARE_BRACKET then
       op_bind (push_value (BackingList [])) (\<lambda>_. set_state IN_ARRAY_START)
     else if mTokenType t = LEFT_BRACE then
       op_bind (push_value (BackingMap [])) (\<lambda>_. set_state IN_OBJECT_START)
     else error_state_throw (unexpectedTokenErrorMessage t ''at start of input''))"

definition array_simple_value :: "'d double_ops \<Rightarrow> JsonToken \<Rightarrow> ('d, unit) parser_op" where
  "array_simple_value fp t = op_bind ensureTopLevelElementIsAJsonArray (\<lambda>_.
     op_bind (tokenToSimpleJsonValue fp t) (\<lambda>v. op_bind (push_back v) (\<lambda>_. set_state IN_ARRAY_VALUE)))"

definition parseInArrayStartState :: "'d double_ops \<Rightarrow> JsonToken option \<Rightarrow> ('d, unit) parser_op" where
  "parseInArrayStartState fp token = op_bind (ensureTokenIsNotNull token UNTERMINATED_JSON_ARRAY_ERROR) (\<lambda>t.
     if is_simple (mTokenType t) then array_simple_value fp t
     else if mTokenType t = LEFT_SQUARE_BRACKET then parseStartOfNestedArray
     else if mTokenType t = LEFT_BRACE then parseStartOfNestedObject
     else if mTokenType t = RIGHT_SQUARE_BRACKET then closeCompositeJsonValueAndRestoreState
     else error_state_throw (unexpectedTokenErrorMessage t ''at beginning of array''))"

definition parseInArrayValueState :: "JsonToken option \<Rightarrow> ('d, unit) parser_op" where
  "parseInArrayValueState token = op_bind (ensureTokenIsNotNull token UNTERMINATED_JSON_ARRAY_ERROR) (\<lambda>t.
     if mTokenType t = COMMA then set_state IN_ARRAY_DELIMITER
     else if mTokenType t = RIGHT_SQUARE_BRACKET then closeCompositeJsonValueAndRestoreState
     else error_state_throw (unexpectedTokenErrorMessage t ''in array after value was parsed''))"

definition parseInArrayDelimiterState :: "'d double_ops \<Rightarrow> JsonToken option \<Rightarrow> ('d, unit) parser_op" where
  "parseInArrayDelimiterState fp token = op_bind (ensureTokenIsNotNull token UNTERMINATED_JSON_ARRAY_ERROR) (\<lambda>t.
     if is_simple (mTokenType t) then array_simple_value fp t
     else if mTokenType t = LEFT_SQUARE_BRACKET then parseStartOfNestedArray
     else if mTokenType t = LEFT_BRACE then parseStartOfNestedObject
     else error_state_throw (unexpectedTokenErrorMessage t ''in array after delimiter''))"

definition object_key :: "JsonToken \<Rightarrow> ('d, unit) parser_op" where
  "object_key t = op_bind (modify_top (\<lambda>c. c\<lparr>mLastParsedObjectKey := mTokenValue t\<rparr>)) (\<lambda>_. set_state IN_OBJECT_KEY)"

definition parseInObjectStartState :: "JsonToken option \<Rightarrow> ('d, unit) parser_op" where
  "parseInObjectStartState token = op_bind (ensureTokenIsNotNull token UNTERMINATED_JSON_OBJECT_ERROR) (\<lambda>t.
     op_bind ensureTopLevelElementIsAJsonObject (\<lambda>_.
     if mTokenType t = RIGHT_BRACE then closeCompositeJsonValueAndRestoreState
     else if mTokenType t = VALUE_STRING then object_key t
     else error_state_throw (unexpectedTokenErrorMessage t ''encountered - object key expected'')))"

definition parseInObjectKeyState :: "JsonToken option \<Rightarrow> ('d, unit) parser_op" where
  "parseInObjectKeyState token = op_bind (ensureTokenIsNotNull token UNTERMINATED_JSON_OBJECT_ERROR) (\<lambda>t.
     if mTokenType t = COLON then set_state IN_OBJECT_COLON
     else error_state_throw (unexpectedTokenErrorMessage t ''encountered - key-value delimiter expected''))"

text \<open>The last branch throws without a change of the state.\<close>

definition parseInObjectColonState :: "'d double_ops \<Rightarrow> JsonToken option \<Rightarrow> ('d, unit) parser_op" where
  "parseInObjectColonState fp token = op_bind (ensureTokenIsNotNull token UNTERMINATED_JSON_OBJECT_ERROR) (\<lambda>t.
     op_bind ensureTopLevelElementIsAJsonObject (\<lambda>_.
     if is_simple (mTokenType t) then
       op_bind (tokenToSimpleJsonValue fp t) (\<lambda>v.
       op_bind (modify_top (\<lambda>c. c\<lparr>mLastParsedObjectValue := v\<rparr>)) (\<lambda>_. set_state IN_OBJECT_VALUE))
     else if mTokenType t = LEFT_BRACE then
       op_bind (push_value (BackingMap [])) (\<lambda>_. op_bind (push_state IN_OBJECT_VALUE) (\<lambda>_. set_state IN_OBJECT_START))
     else if mTokenType t = LEFT_SQUARE_BRACKET then
       op_bind (push_value (BackingList [])) (\<lambda>_. op_bind (push_state IN_OBJECT_VALUE) (\<lambda>_. set_state IN_ARRAY_START))
     else op_throw (JsonParserException (unexpectedTokenErrorMessage t ''after key-value pair encountered''))))"

definition parseInObjectValueState :: "JsonToken option \<Rightarrow> ('d, unit) parser_op" where
  "parseInObjectValueState token = op_bind (ensureTokenIsNotNull token UNTERMINATED_JSON_OBJECT_ERROR) (\<lambda>t.
     op_bind ensureTopLevelElementIsAJsonObject (\<lambda>_.
     if mTokenType t = RIGHT_BRACE then
       op_bind ensureKeyValuePairWasParsed (\<lambda>_.
       op_bind (modify_top put_pair) (\<lambda>_. closeCompositeJsonValueAndRestoreState))
     else if mTokenType t = COMMA then
       op_bind putLastParsedKeyValuePairIntoObject (\<lambda>_. set_state IN_OBJECT_DELIMITER)
     else error_state_throw (unexpectedTokenErrorMessage t ''after key-value pair encountered'')))"

definition parseInObjectDelimiterState :: "JsonToken option \<Rightarrow> ('d, unit) parser_op" where
  "parseInObjectDelimiterState token = op_bind (ensureTokenIsNotNull token UNTERMINATED_JSON_OBJECT_ERROR) (\<lambda>t.
     op_bind ensureTopLevelElementIsAJsonObject (\<lambda>_.
     if mTokenType t = VALUE_STRING then object_key t
     else error_state_throw (unexpectedTokenErrorMessage t ''encountered - object key expected'')))"

definition parseEndState :: "JsonToken option \<Rightarrow> ('d, unit) parser_op" where
  "parseEndState token = (case token of
      None \<Rightarrow> op_return ()
    | Some t \<Rightarrow> error_state_throw (unexpectedTokenErrorMessage t ''at end of input''))"

text \<open>The error state is not reached: \<open>toString\<close> of a null token would be undefined.\<close>

definition parse_token :: "'d double_ops \<Rightarrow> JsonToken option \<Rightarrow> ('d, unit) parser_op" where
  "parse_token fp token = (\<lambda>p.
     (case mState p of
        INIT \<Rightarrow> parseInitState fp token
      | IN_ARRAY_START \<Rightarrow> parseInArrayStartState fp token
      | IN_ARRAY_VALUE \<Rightarrow> parseInArrayValueState token
      | IN_ARRAY_DELIMITER \<Rightarrow> parseInArrayDelimiterState fp token
      | IN_OBJECT_START \<Rightarrow> parseInObjectStartState token
      | IN_OBJECT_KEY \<Rightarrow> parseInObjectKeyState token
      | IN_OBJECT_COLON \<Rightarrow> parseInObjectColonState fp token
      | IN_OBJECT_VALUE \<Rightarrow> parseInObjectValueState token
      | IN_OBJECT_DELIMITER \<Rightarrow> parseInObjectDelimiterState token
      | PARSER_END \<Rightarrow> parseEndState token
      | PARSER_ERROR \<Rightarrow> (case token of
            None \<Rightarrow> op_throw (UndefinedBehaviour ''null token'')
          | Some t \<Rightarrow> op_throw (JsonParserException (unexpectedTokenErrorMessage t ''in error state'')))) p)"

subsubsection \<open>The handlers do not touch the lexer\<close>

definition lexer_free :: "('d, 'a) parser_op \<Rightarrow> bool" where
  "lexer_free m \<longleftrightarrow> (\<forall>p l. m (p\<lparr>mLexer := l\<rparr>) = apsnd (\<lambda>q. q\<lparr>mLexer := l\<rparr>) (m p))"

named_theorems lexer_free_intros \<open>operations that do not touch the lexer\<close>

lemma lexer_free_bind [lexer_free_intros]:
  assumes "lexer_free m" and "\<And>a. lexer_free (f a)"
  shows "lexer_free (op_bind m f)"
  using assms by (auto simp: lexer_free_def op_bind_def split: prod.splits sum.splits)

lemma lexer_free_basic [lexer_free_intros]:
  "lexer_free (op_return a)" "lexer_free (op_throw e)" "lexer_free (set_state st)" "lexer_free (throw_internal msg)"
  "lexer_free (error_state_throw msg)" "lexer_free (push_value b)" "lexer_free (push_state st)" "lexer_free (modify_top f)"
  "lexer_free ensureValueContainerStackIsNotEmpty"
  by (auto simp: lexer_free_def op_return_def op_throw_def set_state_def op_modify_def throw_internal_def
    error_state_throw_def push_value_def push_state_def modify_top_def ensureValueContainerStackIsNotEmpty_def split: list.split)

lemma lexer_free_if [lexer_free_intros]: "lexer_free m \<Longrightarrow> lexer_free n \<Longrightarrow> lexer_free (if b then m else n)"
  by simp

lemma lexer_free_ensure [lexer_free_intros]:
  "lexer_free (ensureTokenIsNotNull t msg)" "lexer_free ensureTopLevelElementIsAJsonArray"
  "lexer_free ensureTopLevelElementIsAJsonObject" "lexer_free ensureKeyValuePairWasParsed"
  "lexer_free (tokenToSimpleJsonValue fp tok)"
  unfolding ensureTokenIsNotNull_def ensureTopLevelElementIsAJsonArray_def ensureTopLevelElementIsAJsonObject_def
    ensureKeyValuePairWasParsed_def tokenToSimpleJsonValue_def
  by (auto intro!: lexer_free_intros split: option.split Backing.split JsonTokenType.split)

lemma lexer_free_parent [lexer_free_intros]: "lexer_free (add_to_parent v)"
proof -
  have m: "lexer_free (op_modify (\<lambda>p. p\<lparr>mValueStack := tl (mValueStack p)\<rparr>))"
    "lexer_free (op_modify (\<lambda>p. p\<lparr>mState := hd (mStateStack p), mStateStack := tl (mStateStack p)\<rparr>))"
    by (simp_all add: lexer_free_def op_modify_def)
  show ?thesis
    unfolding add_to_parent_def
    by (intro lexer_free_intros m) (auto intro!: lexer_free_intros split: Backing.split option.split)
qed

lemma lexer_free_cond:
  assumes "\<And>p l. b (p\<lparr>mLexer := l\<rparr>) = b p" and "lexer_free m" and "lexer_free n"
  shows "lexer_free (\<lambda>p. if b p then m p else n p)"
  using assms by (simp add: lexer_free_def)

lemma lexer_free_close [lexer_free_intros]: "lexer_free closeCompositeJsonValueAndRestoreState"
  unfolding closeCompositeJsonValueAndRestoreState_def
  by (rule lexer_free_bind, rule lexer_free_basic, (rule lexer_free_cond, simp, rule lexer_free_intros)+)
    (rule lexer_free_parent)

lemma lexer_free_handlers [lexer_free_intros]:
  "lexer_free (parseInitState fp t)" "lexer_free (parseInArrayStartState fp t)" "lexer_free (parseInArrayValueState t)"
  "lexer_free (parseInArrayDelimiterState fp t)" "lexer_free (parseInObjectStartState t)" "lexer_free (parseInObjectKeyState t)"
  "lexer_free (parseInObjectColonState fp t)" "lexer_free (parseInObjectValueState t)" "lexer_free (parseInObjectDelimiterState t)"
  "lexer_free (parseEndState t)"
  unfolding parseInitState_def parseInArrayStartState_def parseInArrayValueState_def parseInArrayDelimiterState_def
    parseInObjectStartState_def parseInObjectKeyState_def parseInObjectColonState_def parseInObjectValueState_def
    parseInObjectDelimiterState_def parseEndState_def array_simple_value_def parseStartOfNestedArray_def
    parseStartOfNestedObject_def object_key_def push_back_def putLastParsedKeyValuePairIntoObject_def
  by (cases t; auto intro!: lexer_free_intros)+

lemma parse_token_lexer_free: "parse_token fp t (p\<lparr>mLexer := l\<rparr>) = apsnd (\<lambda>q. q\<lparr>mLexer := l\<rparr>) (parse_token fp t p)"
proof -
  have h: "lexer_free (case st of
        INIT \<Rightarrow> parseInitState fp t
      | IN_ARRAY_START \<Rightarrow> parseInArrayStartState fp t
      | IN_ARRAY_VALUE \<Rightarrow> parseInArrayValueState t
      | IN_ARRAY_DELIMITER \<Rightarrow> parseInArrayDelimiterState fp t
      | IN_OBJECT_START \<Rightarrow> parseInObjectStartState t
      | IN_OBJECT_KEY \<Rightarrow> parseInObjectKeyState t
      | IN_OBJECT_COLON \<Rightarrow> parseInObjectColonState fp t
      | IN_OBJECT_VALUE \<Rightarrow> parseInObjectValueState t
      | IN_OBJECT_DELIMITER \<Rightarrow> parseInObjectDelimiterState t
      | PARSER_END \<Rightarrow> parseEndState t
      | PARSER_ERROR \<Rightarrow> (case t of
            None \<Rightarrow> op_throw (UndefinedBehaviour ''null token'')
          | Some t \<Rightarrow> op_throw (JsonParserException (unexpectedTokenErrorMessage t ''in error state''))))" for st
    by (cases st; cases t) (simp_all add: lexer_free_handlers lexer_free_basic)
  show ?thesis using h [of "mState p"] unfolding lexer_free_def parse_token_def by simp
qed

lemma parse_token_mLexer:
  assumes "parse_token fp t p = (x, p')"
  shows "mLexer p' = mLexer p"
  using arg_cong [OF parse_token_lexer_free [where fp = fp and t = t and p = p and l = "mLexer p"], of "\<lambda>z. mLexer (snd z)"] assms
  by simp

subsection \<open>Parsing\<close>

text \<open>The loop ends because every token consumes a character.\<close>

function doParse_loop :: "'d double_ops \<Rightarrow> ('d, unit) parser_op" where
  "doParse_loop fp p =
     (case nextToken (mLexer p) of
        (Inl e, l) \<Rightarrow> (Inl e, p\<lparr>mLexer := l\<rparr>)
      | (Inr None, l) \<Rightarrow> parse_token fp None (p\<lparr>mLexer := l\<rparr>)
      | (Inr (Some t), l) \<Rightarrow>
          (case parse_token fp (Some t) (p\<lparr>mLexer := l\<rparr>) of
             (Inl e, p') \<Rightarrow> (Inl e, p')
           | (Inr _, p') \<Rightarrow> doParse_loop fp p'))"
  by pat_completeness auto
termination
proof (relation "measure (\<lambda>(fp, p). remaining (mReader (mLexer p)))", goal_cases)
  case (2 fp p res l r t res' p' u)
  then have "nextToken (mLexer p) = (Inr (Some t), l)" "parse_token fp (Some t) (p\<lparr>mLexer := l\<rparr>) = (Inr u, p')"
    by simp_all
  then show ?case using nextToken_progress parse_token_mLexer by fastforce
qed simp

declare doParse_loop.simps [simp del]

definition doParse :: "'d double_ops \<Rightarrow> ('d, 'd JsonValue option) parser_op" where
  "doParse fp = op_bind (doParse_loop fp) (\<lambda>_. op_bind ensureValueContainerStackIsNotEmpty (\<lambda>c. op_return (mJsonValue c)))"

text \<open>Only exceptions of the lexer are caught; the new exception is nested around them.\<close>

definition parse :: "'d double_ops \<Rightarrow> ('d, 'd JsonValue option) parser_op" where
  "parse fp = (\<lambda>p.
     if mState p = PARSER_END then (Inr (mParsedValue p), p)
     else if mState p = PARSER_ERROR then (Inl (JsonParserException ''JSON parser is in erroneous state''), p)
     else
       (case doParse fp p of
          (Inl (JsonLexerException _), p') \<Rightarrow>
            (Inl (JsonParserException ''Caught exception from lexical analysis''), p'\<lparr>mState := PARSER_ERROR\<rparr>)
        | (Inl e, p') \<Rightarrow> (Inl e, p')
        | (Inr v, p') \<Rightarrow> (Inr v, p'\<lparr>mParsedValue := v\<rparr>)))"

end
