(* ===== verification/Json_Grammar.thy ===== *)
theory Json_Grammar
  imports Json_Parser
begin

text \<open>
  The grammar that the JSON parser implements. A relation says what a sequence of tokens means;
  the parser run on the tokens is complete for it (every value is built at every place of a
  value) and sound (the stacks of the parser are accounted for by the tokens consumed). The
  last part gives the exceptions of the parser.
\<close>

subsection \<open>The grammar of the tokens\<close>

definition simple_value :: "'d double_ops \<Rightarrow> JsonToken \<Rightarrow> 'd JsonValue option" where
  "simple_value fp t = (case mTokenType t of
       LITERAL_NULL \<Rightarrow> Some JsonNullValue
     | LITERAL_BOOLEAN \<Rightarrow> boolean_fromLiteral (mTokenValue t)
     | VALUE_STRING \<Rightarrow> Some (JsonStringValue (mTokenValue t))
     | _ \<Rightarrow> map_option JsonNumber (fromNumberLiteral fp (mTokenValue t)))"

text \<open>The map of the members in the order of the text: a later member replaces an earlier one.\<close>

definition object_of :: "(string \<times> 'd JsonValue option) list \<Rightarrow> 'd JsonObjectMap \<Rightarrow> 'd JsonObjectMap" where
  "object_of kvs m = fold (\<lambda>kv. um_put (=) (fst kv) (snd kv)) kvs m"

text \<open>
  What a sequence of tokens means: a value, the elements of an array separated by commas, the
  members of an object separated by commas.
\<close>

inductive json_value :: "'d double_ops \<Rightarrow> JsonToken list \<Rightarrow> 'd JsonValue option \<Rightarrow> bool"
  and json_elements :: "'d double_ops \<Rightarrow> JsonToken list \<Rightarrow> 'd JsonValue option list \<Rightarrow> bool"
  and json_members :: "'d double_ops \<Rightarrow> JsonToken list \<Rightarrow> (string \<times> 'd JsonValue option) list \<Rightarrow> bool"
  for fp :: "'d double_ops" where
  json_simple: "is_simple (mTokenType t) \<Longrightarrow> json_value fp [t] (simple_value fp t)"
| json_empty_array: "mTokenType a = LEFT_SQUARE_BRACKET \<Longrightarrow> mTokenType b = RIGHT_SQUARE_BRACKET \<Longrightarrow>
    json_value fp [a, b] (Some (JsonArrayValue []))"
| json_array: "mTokenType a = LEFT_SQUARE_BRACKET \<Longrightarrow> json_elements fp ts vs \<Longrightarrow> mTokenType b = RIGHT_SQUARE_BRACKET \<Longrightarrow>
    json_value fp (a # ts @ [b]) (Some (JsonArrayValue vs))"
| json_empty_object: "mTokenType a = LEFT_BRACE \<Longrightarrow> mTokenType b = RIGHT_BRACE \<Longrightarrow>
    json_value fp [a, b] (Some (JsonObjectValue []))"
| json_object: "mTokenType a = LEFT_BRACE \<Longrightarrow> json_members fp ts kvs \<Longrightarrow> mTokenType b = RIGHT_BRACE \<Longrightarrow>
    json_value fp (a # ts @ [b]) (Some (JsonObjectValue (object_of kvs [])))"
| json_element: "json_value fp ts v \<Longrightarrow> json_elements fp ts [v]"
| json_more_elements: "json_elements fp ts vs \<Longrightarrow> mTokenType c = COMMA \<Longrightarrow> json_value fp us v \<Longrightarrow>
    json_elements fp (ts @ c # us) (vs @ [v])"
| json_member: "mTokenType k = VALUE_STRING \<Longrightarrow> mTokenValue k \<noteq> [] \<Longrightarrow> mTokenType c = COLON \<Longrightarrow> json_value fp ts (Some v) \<Longrightarrow>
    json_members fp (k # c # ts) [(mTokenValue k, Some v)]"
| json_more_members: "json_members fp ts kvs \<Longrightarrow> mTokenType d = COMMA \<Longrightarrow> mTokenType k = VALUE_STRING \<Longrightarrow>
    mTokenValue k \<noteq> [] \<Longrightarrow> mTokenType c = COLON \<Longrightarrow> json_value fp us (Some v) \<Longrightarrow>
    json_members fp (ts @ d # k # c # us) (kvs @ [(mTokenValue k, Some v)])"

subsection \<open>Running on tokens\<close>

primrec feed :: "'d double_ops \<Rightarrow> JsonToken list \<Rightarrow> ('d, unit) parser_op" where
  "feed fp [] = op_return ()"
| "feed fp (t # ts) = op_bind (parse_token fp (Some t)) (\<lambda>_. feed fp ts)"

lemma feed_append: "feed fp (ts @ us) = op_bind (feed fp ts) (\<lambda>_. feed fp us)"
  by (induction ts) (simp_all add: op_bind_assoc)

lemma feed_step: "parse_token fp (Some t) p = (Inr (), q) \<Longrightarrow> feed fp (t # ts) p = feed fp ts q"
  by (simp add: op_bind_def)

lemma feed_steps: "feed fp ts p = (Inr (), q) \<Longrightarrow> feed fp (ts @ us) p = feed fp us q"
  by (simp add: feed_append op_bind_def)

lemma feed_lexer: "feed fp ts (p\<lparr>mLexer := l\<rparr>) = apsnd (\<lambda>q. q\<lparr>mLexer := l\<rparr>) (feed fp ts p)"
proof -
  have "lexer_free (feed fp ts)"
  proof (induction ts)
    case (Cons t ts)
    have "lexer_free (parse_token fp (Some t))" by (simp add: lexer_free_def parse_token_lexer_free)
    then show ?case using Cons.IH by (simp add: lexer_free_bind)
  qed (simp add: lexer_free_basic)
  then show ?thesis by (simp add: lexer_free_def)
qed

text \<open>The places of a value, and the state of the parser before and behind it.\<close>

definition array_place :: "'d JsonParser \<Rightarrow> bool" where
  "array_place p \<longleftrightarrow> mState p \<in> {IN_ARRAY_START, IN_ARRAY_DELIMITER}"

definition value_place :: "'d JsonParser \<Rightarrow> bool" where
  "value_place p \<longleftrightarrow>
     (if mState p = INIT then mValueStack p = [] \<and> mStateStack p = []
      else (case mValueStack p of [] \<Rightarrow> False
        | c # cs \<Rightarrow> length cs = length (mStateStack p) \<and>
            (case mBacking c of
               BackingList l \<Rightarrow> array_place p
             | BackingMap m \<Rightarrow> mState p = IN_OBJECT_COLON
             | NoBacking v \<Rightarrow> False)))"

definition behind_value :: "'d JsonValue option \<Rightarrow> 'd JsonParser \<Rightarrow> 'd JsonParser \<Rightarrow> bool" where
  "behind_value v p q \<longleftrightarrow>
     (case mValueStack p of
        [] \<Rightarrow> \<exists>c. mJsonValue c = v \<and> q = p\<lparr>mState := PARSER_END, mValueStack := [c]\<rparr>
      | c # cs \<Rightarrow>
          (case mBacking c of
             BackingList l \<Rightarrow> q = p\<lparr>mState := IN_ARRAY_VALUE, mValueStack := c\<lparr>mBacking := BackingList (l @ [v])\<rparr> # cs\<rparr>
           | BackingMap m \<Rightarrow> q = p\<lparr>mState := IN_OBJECT_VALUE, mValueStack := c\<lparr>mLastParsedObjectValue := v\<rparr> # cs\<rparr>
           | NoBacking u \<Rightarrow> False))"

text \<open>The state behind the opening bracket of a composite value.\<close>

definition resume_state :: "'d JsonParser \<Rightarrow> JsonParserState list" where
  "resume_state p = (if mState p = INIT then [] else if array_place p then [IN_ARRAY_VALUE] else [IN_OBJECT_VALUE])"

definition opened :: "JsonParserState \<Rightarrow> 'd JsonValueContainer \<Rightarrow> 'd JsonParser \<Rightarrow> 'd JsonParser" where
  "opened st c p = p\<lparr>mState := st, mStateStack := resume_state p @ mStateStack p, mValueStack := c # mValueStack p\<rparr>"

named_theorems parser_simps \<open>evaluation of the parser\<close>

lemmas [parser_simps] = op_bind_def op_return_def op_throw_def op_modify_def set_state_def throw_internal_def
  error_state_throw_def ensureTokenIsNotNull_def ensureValueContainerStackIsNotEmpty_def
  ensureTopLevelElementIsAJsonArray_def ensureTopLevelElementIsAJsonObject_def ensureKeyValuePairWasParsed_def
  push_value_def push_state_def modify_top_def push_back_def parse_token_def is_simple_def

lemma value_place_cases:
  assumes "value_place p"
  obtains (start) "mState p = INIT" "mValueStack p = []" "mStateStack p = []"
  | (array) c cs l where "array_place p" "mValueStack p = c # cs" "length cs = length (mStateStack p)" "mBacking c = BackingList l"
  | (object) c cs m where "mState p = IN_OBJECT_COLON" "mValueStack p = c # cs" "length cs = length (mStateStack p)"
      "mBacking c = BackingMap m"
  using assms by (auto simp: value_place_def split: if_splits list.splits Backing.splits)

lemma open_array:
  assumes "value_place p" and "mTokenType t = LEFT_SQUARE_BRACKET"
  shows "parse_token fp (Some t) p = (Inr (), opened IN_ARRAY_START (JsonValueContainer_new (BackingList [])) p)"
  using assms(1)
proof (cases rule: value_place_cases)
  case start
  then show ?thesis
    using assms(2) by (simp add: parser_simps parseInitState_def opened_def resume_state_def)
next
  case array
  then show ?thesis
    using assms(2)
    by (auto simp: parser_simps parseInArrayStartState_def parseInArrayDelimiterState_def parseStartOfNestedArray_def
      opened_def resume_state_def array_place_def)
next
  case object
  then show ?thesis
    using assms(2)
    by (simp add: parser_simps parseInObjectColonState_def opened_def resume_state_def array_place_def)
qed

lemma open_object:
  assumes "value_place p" and "mTokenType t = LEFT_BRACE"
  shows "parse_token fp (Some t) p = (Inr (), opened IN_OBJECT_START (JsonValueContainer_new (BackingMap [])) p)"
  using assms(1)
proof (cases rule: value_place_cases)
  case start
  then show ?thesis
    using assms(2) by (simp add: parser_simps parseInitState_def opened_def resume_state_def)
next
  case array
  then show ?thesis
    using assms(2)
    by (auto simp: parser_simps parseInArrayStartState_def parseInArrayDelimiterState_def parseStartOfNestedObject_def
      opened_def resume_state_def array_place_def)
next
  case object
  then show ?thesis
    using assms(2)
    by (simp add: parser_simps parseInObjectColonState_def opened_def resume_state_def array_place_def)
qed

lemma tokenToSimple:
  "is_simple (mTokenType t) \<Longrightarrow> tokenToSimpleJsonValue fp t = op_return (simple_value fp t)"
  by (auto simp: is_simple_def tokenToSimpleJsonValue_def simple_value_def)

lemma read_simple:
  assumes "value_place p" and "is_simple (mTokenType t)"
  shows "\<exists>q. parse_token fp (Some t) p = (Inr (), q) \<and> behind_value (simple_value fp t) p q"
  using assms(1)
proof (cases rule: value_place_cases)
  case start
  have "mJsonValue (JsonValueContainer_new (NoBacking (simple_value fp t))) = simple_value fp t"
    by (simp add: mJsonValue_def JsonValueContainer_new_def)
  moreover have "parse_token fp (Some t) p =
      (Inr (), p\<lparr>mState := PARSER_END, mValueStack := [JsonValueContainer_new (NoBacking (simple_value fp t))]\<rparr>)"
    using start assms(2) by (simp add: parser_simps parseInitState_def tokenToSimple is_simple_def)
  ultimately show ?thesis using start by (auto simp: behind_value_def)
next
  case (array c cs l)
  then show ?thesis
    using assms(2) tokenToSimple [OF assms(2), of fp]
    by (auto simp: parser_simps parseInArrayStartState_def parseInArrayDelimiterState_def array_simple_value_def
      array_place_def behind_value_def)
next
  case (object c cs m)
  then show ?thesis
    using assms(2) tokenToSimple [OF assms(2), of fp]
    by (auto simp: parser_simps parseInObjectColonState_def behind_value_def)
qed

lemma close_reached:
  assumes "value_place p" and "q = (opened st c p)"
  shows "\<exists>r. closeCompositeJsonValueAndRestoreState q = (Inr (), r) \<and> behind_value (mJsonValue c) p r"
  using assms(1)
proof (cases rule: value_place_cases)
  case start
  then have "closeCompositeJsonValueAndRestoreState q = (Inr (), p\<lparr>mState := PARSER_END, mValueStack := [c]\<rparr>)"
    using assms(2) by (simp add: closeCompositeJsonValueAndRestoreState_def parser_simps opened_def resume_state_def)
  then show ?thesis using start by (auto simp: behind_value_def)
next
  case (array d cs l)
  then have "mState p \<noteq> INIT" by (auto simp: array_place_def)
  then show ?thesis
    using array assms(2)
    by (simp add: closeCompositeJsonValueAndRestoreState_def add_to_parent_def parser_simps opened_def resume_state_def
      behind_value_def)
next
  case (object d cs m)
  then show ?thesis
    using assms(2)
    by (simp add: closeCompositeJsonValueAndRestoreState_def add_to_parent_def parser_simps opened_def resume_state_def
      behind_value_def array_place_def)
qed

lemma opened_depth: "value_place p \<Longrightarrow> length (mValueStack p) = length (resume_state p @ mStateStack p)"
  by (erule value_place_cases) (auto simp: resume_state_def array_place_def)

lemma value_place_opened:
  assumes "value_place p"
  shows "mBacking c = BackingList l \<Longrightarrow> st \<in> {IN_ARRAY_START, IN_ARRAY_DELIMITER} \<Longrightarrow> value_place (opened st c p)"
    and "mBacking c = BackingMap m \<Longrightarrow> value_place (opened IN_OBJECT_COLON c p)"
  using opened_depth [OF assms] by (auto simp: value_place_def opened_def array_place_def)

lemma behind_value_opened:
  "mBacking c = BackingList l \<Longrightarrow> behind_value v (opened st c p) q \<Longrightarrow>
    q = opened IN_ARRAY_VALUE (c\<lparr>mBacking := BackingList (l @ [v])\<rparr>) p"
  "mBacking c = BackingMap m \<Longrightarrow> behind_value v (opened st c p) q \<Longrightarrow>
    q = opened IN_OBJECT_VALUE (c\<lparr>mLastParsedObjectValue := v\<rparr>) p"
  by (simp_all add: behind_value_def opened_def)

text \<open>The handlers inside an array or object, on the container on top.\<close>

lemma array_tokens:
  "mTokenType t = COMMA \<Longrightarrow> parse_token fp (Some t) (opened IN_ARRAY_VALUE c p) = (Inr (), opened IN_ARRAY_DELIMITER c p)"
  "mTokenType t = RIGHT_SQUARE_BRACKET \<Longrightarrow> st \<in> {IN_ARRAY_START, IN_ARRAY_VALUE} \<Longrightarrow>
    parse_token fp (Some t) (opened st c p) = closeCompositeJsonValueAndRestoreState (opened st c p)"
  by (auto simp: parser_simps parseInArrayValueState_def parseInArrayStartState_def opened_def)

lemma object_tokens:
  assumes "mBacking c = BackingMap m"
  shows "mTokenType t = VALUE_STRING \<Longrightarrow> st \<in> {IN_OBJECT_START, IN_OBJECT_DELIMITER} \<Longrightarrow>
      parse_token fp (Some t) (opened st c p) = (Inr (), opened IN_OBJECT_KEY (c\<lparr>mLastParsedObjectKey := mTokenValue t\<rparr>) p)"
    and "mTokenType t = COLON \<Longrightarrow> parse_token fp (Some t) (opened IN_OBJECT_KEY c p) = (Inr (), opened IN_OBJECT_COLON c p)"
    and "mTokenType t = RIGHT_BRACE \<Longrightarrow>
      parse_token fp (Some t) (opened IN_OBJECT_START c p) = closeCompositeJsonValueAndRestoreState (opened IN_OBJECT_START c p)"
  using assms by (auto simp: parser_simps parseInObjectStartState_def parseInObjectDelimiterState_def
    parseInObjectKeyState_def object_key_def opened_def)

text \<open>A container with a pair that is not in its map yet.\<close>

definition pending :: "'d JsonObjectMap \<Rightarrow> 'd JsonValueContainer \<Rightarrow> bool" where
  "pending m c \<longleftrightarrow> (\<exists>m0. mBacking c = BackingMap m0 \<and> mLastParsedObjectKey c \<noteq> [] \<and> mLastParsedObjectValue c \<noteq> None \<and>
     um_put (=) (mLastParsedObjectKey c) (mLastParsedObjectValue c) m0 = m)"

lemma object_value_tokens:
  assumes "pending m c"
  shows "mTokenType t = COMMA \<Longrightarrow> \<exists>d. parse_token fp (Some t) (opened IN_OBJECT_VALUE c p) = (Inr (), opened IN_OBJECT_DELIMITER d p) \<and>
      mBacking d = BackingMap m"
    and "mTokenType t = RIGHT_BRACE \<Longrightarrow> \<exists>d. parse_token fp (Some t) (opened IN_OBJECT_VALUE c p) =
      closeCompositeJsonValueAndRestoreState (opened IN_OBJECT_VALUE d p) \<and> mBacking d = BackingMap m"
proof -
  obtain m0 v where c: "mBacking c = BackingMap m0" "mLastParsedObjectKey c \<noteq> []" "mLastParsedObjectValue c = Some v"
    "um_put (=) (mLastParsedObjectKey c) (Some v) m0 = m"
    using assms by (auto simp: pending_def)
  have put: "put_pair c = c\<lparr>mBacking := BackingMap m\<rparr>" using c by (simp add: put_pair_def)
  show "\<exists>d. parse_token fp (Some t) (opened IN_OBJECT_VALUE c p) = (Inr (), opened IN_OBJECT_DELIMITER d p) \<and> mBacking d = BackingMap m"
    if "mTokenType t = COMMA"
    using that c put
    by (intro exI [of _ "(put_pair c)\<lparr>mLastParsedObjectKey := [], mLastParsedObjectValue := None\<rparr>"])
      (simp add: parser_simps parseInObjectValueState_def putLastParsedKeyValuePairIntoObject_def opened_def)
  show "\<exists>d. parse_token fp (Some t) (opened IN_OBJECT_VALUE c p) =
      closeCompositeJsonValueAndRestoreState (opened IN_OBJECT_VALUE d p) \<and> mBacking d = BackingMap m"
    if "mTokenType t = RIGHT_BRACE"
    using that c put
    by (intro exI [of _ "put_pair c"]) (simp add: parser_simps parseInObjectValueState_def opened_def)
qed

text \<open>One member, from the key to behind the value.\<close>

lemma feed_member:
  assumes "value_place p" and "mBacking c = BackingMap m" and "st \<in> {IN_OBJECT_START, IN_OBJECT_DELIMITER}"
    and "mTokenType k = VALUE_STRING" and "mTokenValue k \<noteq> []" and "mTokenType d = COLON"
    and "\<And>q. value_place q \<Longrightarrow> \<exists>r. feed fp us q = (Inr (), r) \<and> behind_value (Some v) q r"
  shows "\<exists>e. feed fp (k # d # us) (opened st c p) = (Inr (), opened IN_OBJECT_VALUE e p) \<and>
    pending (um_put (=) (mTokenValue k) (Some v) m) e"
proof -
  let ?c = "c\<lparr>mLastParsedObjectKey := mTokenValue k\<rparr>"
  have b: "mBacking ?c = BackingMap m" using assms(2) by simp
  note steps = feed_step [OF object_tokens(1) [OF assms(2,4,3)]] feed_step [OF object_tokens(2) [OF b assms(6)]]
  obtain r where r: "feed fp us (opened IN_OBJECT_COLON ?c p) = (Inr (), r)" "behind_value (Some v) (opened IN_OBJECT_COLON ?c p) r"
    using assms(7) [OF value_place_opened(2) [OF assms(1) b]] by blast
  have "r = opened IN_OBJECT_VALUE (?c\<lparr>mLastParsedObjectValue := Some v\<rparr>) p"
    by (rule behind_value_opened(2) [OF b r(2)])
  moreover have "pending (um_put (=) (mTokenValue k) (Some v) m) (?c\<lparr>mLastParsedObjectValue := Some v\<rparr>)"
    using assms(2,5) by (simp add: pending_def)
  ultimately show ?thesis using r(1) steps by metis
qed

lemma feed_json:
  "json_value fp ts v \<Longrightarrow> \<forall>p. value_place p \<longrightarrow> (\<exists>q. feed fp ts p = (Inr (), q) \<and> behind_value v p q)"
  "json_elements fp us vs \<Longrightarrow> \<forall>p c l st. value_place p \<longrightarrow> mBacking c = BackingList l \<longrightarrow> st \<in> {IN_ARRAY_START, IN_ARRAY_DELIMITER} \<longrightarrow>
      feed fp us (opened st c p) = (Inr (), opened IN_ARRAY_VALUE (c\<lparr>mBacking := BackingList (l @ vs)\<rparr>) p)"
  "json_members fp ws kvs \<Longrightarrow> \<forall>p c m st. value_place p \<longrightarrow> mBacking c = BackingMap m \<longrightarrow> st \<in> {IN_OBJECT_START, IN_OBJECT_DELIMITER} \<longrightarrow>
      (\<exists>e. feed fp ws (opened st c p) = (Inr (), opened IN_OBJECT_VALUE e p) \<and> pending (object_of kvs m) e)"
proof (induction rule: json_value_json_elements_json_members.inducts)
  case (json_simple t)
  then show ?case using read_simple feed_step [where ts = "[]"] by (fastforce simp: op_return_def)
next
  case (json_empty_array a b)
  show ?case
  proof (intro allI impI)
    fix p :: "'a JsonParser"
    assume p: "value_place p"
    let ?c = "JsonValueContainer_new (BackingList []) :: 'a JsonValueContainer"
    obtain r where "closeCompositeJsonValueAndRestoreState (opened IN_ARRAY_START ?c p) = (Inr (), r)"
      "behind_value (mJsonValue ?c) p r"
      using close_reached [OF p refl] by metis
    moreover have "mJsonValue ?c = Some (JsonArrayValue [])" by (simp add: mJsonValue_def JsonValueContainer_new_def)
    moreover have "feed fp [a, b] p = feed fp [b] (opened IN_ARRAY_START ?c p)"
      by (rule feed_step [OF open_array [OF p json_empty_array(1)]])
    ultimately show "\<exists>q. feed fp [a, b] p = (Inr (), q) \<and> behind_value (Some (JsonArrayValue [])) p q"
      using array_tokens(2) [OF json_empty_array(2), where st = IN_ARRAY_START and p = p and fp = fp and c = ?c] by (simp add: op_bind_def op_return_def)
  qed
next
  case (json_array a ts vs b)
  show ?case
  proof (intro allI impI)
    fix p :: "'a JsonParser"
    assume p: "value_place p"
    let ?c = "JsonValueContainer_new (BackingList []) :: 'a JsonValueContainer"
    let ?d = "?c\<lparr>mBacking := BackingList vs\<rparr>"
    obtain r where r: "closeCompositeJsonValueAndRestoreState (opened IN_ARRAY_VALUE ?d p) = (Inr (), r)"
      "behind_value (mJsonValue ?d) p r"
      using close_reached [OF p refl] by metis
    have v: "mJsonValue ?d = Some (JsonArrayValue vs)" by (simp add: mJsonValue_def)
    have "feed fp ts (opened IN_ARRAY_START ?c p) = (Inr (), opened IN_ARRAY_VALUE ?d p)"
      using json_array.IH p by (simp add: JsonValueContainer_new_def)
    then have "feed fp (a # ts @ [b]) p = feed fp [b] (opened IN_ARRAY_VALUE ?d p)"
      using feed_step [OF open_array [OF p json_array.hyps(1)]] feed_steps by metis
    also have "\<dots> = (Inr (), r)"
      using array_tokens(2) [OF json_array.hyps(2), where st = IN_ARRAY_VALUE and p = p and fp = fp and c = ?d] r(1) by (simp add: op_bind_def op_return_def)
    finally show "\<exists>q. feed fp (a # ts @ [b]) p = (Inr (), q) \<and> behind_value (Some (JsonArrayValue vs)) p q"
      using r(2) v by auto
  qed
next
  case (json_empty_object a b)
  show ?case
  proof (intro allI impI)
    fix p :: "'a JsonParser"
    assume p: "value_place p"
    let ?c = "JsonValueContainer_new (BackingMap []) :: 'a JsonValueContainer"
    have b: "mBacking ?c = BackingMap []" by (simp add: JsonValueContainer_new_def)
    obtain r where "closeCompositeJsonValueAndRestoreState (opened IN_OBJECT_START ?c p) = (Inr (), r)"
      "behind_value (mJsonValue ?c) p r"
      using close_reached [OF p refl] by metis
    moreover have "mJsonValue ?c = Some (JsonObjectValue [])" by (simp add: mJsonValue_def JsonValueContainer_new_def)
    moreover have "feed fp [a, b] p = feed fp [b] (opened IN_OBJECT_START ?c p)"
      by (rule feed_step [OF open_object [OF p json_empty_object(1)]])
    ultimately show "\<exists>q. feed fp [a, b] p = (Inr (), q) \<and> behind_value (Some (JsonObjectValue [])) p q"
      using object_tokens(3) [OF b json_empty_object(2), where p = p and fp = fp] by (simp add: op_bind_def op_return_def)
  qed
next
  case (json_object a ts kvs b)
  show ?case
  proof (intro allI impI)
    fix p :: "'a JsonParser"
    assume p: "value_place p"
    let ?c = "JsonValueContainer_new (BackingMap []) :: 'a JsonValueContainer"
    have b: "mBacking ?c = BackingMap []" by (simp add: JsonValueContainer_new_def)
    obtain e where e: "feed fp ts (opened IN_OBJECT_START ?c p) = (Inr (), opened IN_OBJECT_VALUE e p)" "pending (object_of kvs []) e"
      using json_object.IH p b by blast
    obtain d where d: "parse_token fp (Some b) (opened IN_OBJECT_VALUE e p) =
        closeCompositeJsonValueAndRestoreState (opened IN_OBJECT_VALUE d p)" "mBacking d = BackingMap (object_of kvs [])"
      using object_value_tokens(2) [OF e(2) json_object.hyps(2)] by metis
    obtain r where r: "closeCompositeJsonValueAndRestoreState (opened IN_OBJECT_VALUE d p) = (Inr (), r)"
      "behind_value (mJsonValue d) p r"
      using close_reached [OF p refl] by metis
    have v: "mJsonValue d = Some (JsonObjectValue (object_of kvs []))" using d(2) by (simp add: mJsonValue_def)
    have "feed fp (a # ts @ [b]) p = feed fp [b] (opened IN_OBJECT_VALUE e p)"
      using feed_step [OF open_object [OF p json_object.hyps(1)]] feed_steps [OF e(1)] by metis
    also have "\<dots> = (Inr (), r)" using d(1) r(1) by (simp add: op_bind_def op_return_def)
    finally show "\<exists>q. feed fp (a # ts @ [b]) p = (Inr (), q) \<and> behind_value (Some (JsonObjectValue (object_of kvs []))) p q"
      using r(2) v by auto
  qed
next
  case (json_element ts v)
  then show ?case using value_place_opened(1) behind_value_opened(1) by metis
next
  case (json_more_elements ts vs c us v)
  show ?case
  proof (intro allI impI)
    fix p :: "'a JsonParser" and e :: "'a JsonValueContainer" and l st
    assume p: "value_place p" "mBacking e = BackingList l" "st \<in> {IN_ARRAY_START, IN_ARRAY_DELIMITER}"
    let ?e = "e\<lparr>mBacking := BackingList (l @ vs)\<rparr>"
    have 1: "feed fp ts (opened st e p) = (Inr (), opened IN_ARRAY_VALUE ?e p)" using json_more_elements.IH(2) p by blast
    have b: "mBacking ?e = BackingList (l @ vs)" by simp
    obtain q where q: "feed fp us (opened IN_ARRAY_DELIMITER ?e p) = (Inr (), q)" "behind_value v (opened IN_ARRAY_DELIMITER ?e p) q"
      using json_more_elements.IH(4) value_place_opened(1) [OF p(1) b] by blast
    have "q = opened IN_ARRAY_VALUE (?e\<lparr>mBacking := BackingList ((l @ vs) @ [v])\<rparr>) p"
      by (rule behind_value_opened(1) [OF b q(2)])
    then show "feed fp (ts @ c # us) (opened st e p) = (Inr (), opened IN_ARRAY_VALUE (e\<lparr>mBacking := BackingList (l @ vs @ [v])\<rparr>) p)"
      using q(1) by (simp add: feed_steps [OF 1] feed_step [OF array_tokens(1) [OF json_more_elements.hyps(1)]] del: feed.simps(2))
  qed
next
  case (json_member k c ts v)
  show ?case
  proof (intro allI impI)
    fix p :: "'a JsonParser" and e :: "'a JsonValueContainer" and m st
    assume p: "value_place p" "mBacking e = BackingMap m" "st \<in> {IN_OBJECT_START, IN_OBJECT_DELIMITER}"
    show "\<exists>f. feed fp (k # c # ts) (opened st e p) = (Inr (), opened IN_OBJECT_VALUE f p) \<and>
        pending (object_of [(mTokenValue k, Some v)] m) f"
      using feed_member [OF p json_member.hyps(1-3), of fp ts v] json_member.IH by (simp add: object_of_def)
  qed
next
  case (json_more_members ts kvs d k c us v)
  show ?case
  proof (intro allI impI)
    fix p :: "'a JsonParser" and e :: "'a JsonValueContainer" and m st
    assume p: "value_place p" "mBacking e = BackingMap m" "st \<in> {IN_OBJECT_START, IN_OBJECT_DELIMITER}"
    obtain f where f: "feed fp ts (opened st e p) = (Inr (), opened IN_OBJECT_VALUE f p)" "pending (object_of kvs m) f"
      using json_more_members.IH(2) p by blast
    obtain g where g: "parse_token fp (Some d) (opened IN_OBJECT_VALUE f p) = (Inr (), opened IN_OBJECT_DELIMITER g p)"
      "mBacking g = BackingMap (object_of kvs m)"
      using object_value_tokens(1) [OF f(2) json_more_members.hyps(1)] by metis
    obtain h where "feed fp (k # c # us) (opened IN_OBJECT_DELIMITER g p) = (Inr (), opened IN_OBJECT_VALUE h p)"
      "pending (um_put (=) (mTokenValue k) (Some v) (object_of kvs m)) h"
      using feed_member [OF p(1) g(2), of IN_OBJECT_DELIMITER k c fp us v] json_more_members.hyps(2-4) json_more_members.IH(4) by auto
    then show "\<exists>f. feed fp (ts @ d # k # c # us) (opened st e p) = (Inr (), opened IN_OBJECT_VALUE f p) \<and>
        pending (object_of (kvs @ [(mTokenValue k, Some v)]) m) f"
      by (auto simp: feed_steps [OF f(1)] feed_step [OF g(1)] object_of_def simp del: feed.simps(2))
  qed
qed

subsection \<open>The tokens consumed so far\<close>

text \<open>
  What a container on the stack has seen. An array that waits for a value has its bracket, or
  elements and a comma behind it; an object that waits for a value has a key and a colon.
\<close>

definition array_prefix :: "'d double_ops \<Rightarrow> JsonToken list \<Rightarrow> 'd JsonValue option list \<Rightarrow> bool" where
  "array_prefix fp ws l \<longleftrightarrow> (\<exists>a pre. mTokenType a = LEFT_SQUARE_BRACKET \<and> ws = a # pre \<and>
     (pre = [] \<and> l = [] \<or> (\<exists>es d. json_elements fp es l \<and> mTokenType d = COMMA \<and> pre = es @ [d])))"

definition object_prefix :: "'d double_ops \<Rightarrow> JsonToken list \<Rightarrow> 'd JsonObjectMap \<Rightarrow> bool" where
  "object_prefix fp ws m \<longleftrightarrow> (\<exists>a pre. mTokenType a = LEFT_BRACE \<and> ws = a # pre \<and>
     (pre = [] \<and> m = [] \<or>
      (\<exists>es d kvs. json_members fp es kvs \<and> mTokenType d = COMMA \<and> pre = es @ [d] \<and> m = object_of kvs [])))"

definition waits :: "'d double_ops \<Rightarrow> JsonToken list \<Rightarrow> 'd JsonValueContainer \<Rightarrow> bool" where
  "waits fp ws c \<longleftrightarrow>
     (case mBacking c of
        BackingList l \<Rightarrow> array_prefix fp ws l
      | BackingMap m \<Rightarrow> (\<exists>pre k col. object_prefix fp pre m \<and> mTokenType k = VALUE_STRING \<and> mTokenType col = COLON \<and>
          mLastParsedObjectKey c = mTokenValue k \<and> ws = pre @ [k, col])
      | NoBacking v \<Rightarrow> False)"

text \<open>The containers that wait for a value, innermost first, with the tokens they have seen.\<close>

inductive outer :: "'d double_ops \<Rightarrow> JsonToken list \<Rightarrow> 'd JsonValueContainer list \<Rightarrow> bool" for fp :: "'d double_ops" where
  outer_Nil: "outer fp [] []"
| outer_Cons: "outer fp ts cs \<Longrightarrow> waits fp ws c \<Longrightarrow> outer fp (ts @ ws) (c # cs)"

inductive_cases outer_NilE: "outer fp ts []"
inductive_cases outer_ConsE: "outer fp ts (c # cs)"

definition resume_of :: "'d JsonValueContainer \<Rightarrow> JsonParserState" where
  "resume_of c = (case mBacking c of BackingList l \<Rightarrow> IN_ARRAY_VALUE | _ \<Rightarrow> IN_OBJECT_VALUE)"

text \<open>What is known of the innermost container in a state.\<close>

definition seen :: "'d double_ops \<Rightarrow> JsonParserState \<Rightarrow> JsonToken list \<Rightarrow> 'd JsonValueContainer \<Rightarrow> bool" where
  "seen fp st ws c \<longleftrightarrow>
     (case mBacking c of
        BackingList l \<Rightarrow>
          (st = IN_ARRAY_START \<and> l = [] \<and> (\<exists>a. mTokenType a = LEFT_SQUARE_BRACKET \<and> ws = [a])) \<or>
          (st = IN_ARRAY_VALUE \<and> (\<exists>a es. mTokenType a = LEFT_SQUARE_BRACKET \<and> json_elements fp es l \<and> ws = a # es)) \<or>
          (st = IN_ARRAY_DELIMITER \<and> array_prefix fp ws l)
      | BackingMap m \<Rightarrow>
          (st = IN_OBJECT_START \<and> m = [] \<and> (\<exists>a. mTokenType a = LEFT_BRACE \<and> ws = [a])) \<or>
          (st = IN_OBJECT_DELIMITER \<and> object_prefix fp ws m) \<or>
          (st = IN_OBJECT_KEY \<and> (\<exists>pre k. object_prefix fp pre m \<and> mTokenType k = VALUE_STRING \<and>
             mLastParsedObjectKey c = mTokenValue k \<and> ws = pre @ [k])) \<or>
          (st = IN_OBJECT_COLON \<and> waits fp ws c) \<or>
          (st = IN_OBJECT_VALUE \<and> (\<exists>pre k col us. object_prefix fp pre m \<and> mTokenType k = VALUE_STRING \<and>
             mTokenType col = COLON \<and> mLastParsedObjectKey c = mTokenValue k \<and>
             json_value fp us (mLastParsedObjectValue c) \<and> ws = pre @ k # col # us))
      | NoBacking v \<Rightarrow> False)"

definition consumed :: "'d double_ops \<Rightarrow> JsonToken list \<Rightarrow> 'd JsonParser \<Rightarrow> bool" where
  "consumed fp ts p \<longleftrightarrow>
     (if mState p = INIT then ts = [] \<and> mValueStack p = [] \<and> mStateStack p = []
      else if mState p = PARSER_END then (\<exists>c. mValueStack p = [c] \<and> mStateStack p = [] \<and> json_value fp ts (mJsonValue c))
      else (\<exists>c cs us ws. mValueStack p = c # cs \<and> mStateStack p = map resume_of cs \<and> ts = us @ ws \<and>
        outer fp us cs \<and> seen fp (mState p) ws c))"

lemma consumed_new: "consumed fp [] (JsonParser_new s)"
  by (simp add: consumed_def JsonParser_new_def)

text \<open>Inside a container, the parser is \<open>opened\<close> from a place of a value.\<close>

definition place_below :: "'d JsonParser \<Rightarrow> 'd JsonParser" where
  "place_below p = p\<lparr>mValueStack := tl (mValueStack p), mStateStack := tl (mStateStack p),
     mState := (case tl (mValueStack p) of [] \<Rightarrow> INIT
       | c # cs \<Rightarrow> (case mBacking c of BackingList l \<Rightarrow> IN_ARRAY_START | _ \<Rightarrow> IN_OBJECT_COLON))\<rparr>"

lemma outer_backing:
  assumes "outer fp ts (c # cs)"
  obtains l where "mBacking c = BackingList l" | m where "mBacking c = BackingMap m"
  using assms by (auto elim!: outer_ConsE simp: waits_def split: Backing.splits)

lemma as_opened:
  assumes "mValueStack p = c # cs" and "mStateStack p = map resume_of cs" and "outer fp us cs"
  shows "value_place (place_below p) \<and> p = opened (mState p) c (place_below p) \<and> mValueStack (place_below p) = cs"
proof (cases cs)
  case Nil
  then show ?thesis using assms by (simp add: place_below_def value_place_def opened_def resume_state_def)
next
  case (Cons d ds)
  have "outer fp us (d # ds)" using assms(3) Cons by simp
  then consider l where "mBacking d = BackingList l" | m where "mBacking d = BackingMap m"
    by (rule outer_backing)
  then show ?thesis
    using assms Cons
    by cases (simp_all add: place_below_def value_place_def opened_def resume_state_def array_place_def resume_of_def)
qed

text \<open>A value at its place.\<close>

lemma elements_append:
  assumes "array_prefix fp ws l" and "json_value fp us v"
  shows "\<exists>a es. mTokenType a = LEFT_SQUARE_BRACKET \<and> json_elements fp es (l @ [v]) \<and> ws @ us = a # es"
  using assms json_element [OF assms(2)] json_more_elements [OF _ _ assms(2)] unfolding array_prefix_def by fastforce

lemma waits_backing: "waits fp ws c \<Longrightarrow> mBacking c = BackingMap m \<Longrightarrow>
    \<exists>pre k col. object_prefix fp pre m \<and> mTokenType k = VALUE_STRING \<and> mTokenType col = COLON \<and>
      mLastParsedObjectKey c = mTokenValue k \<and> ws = pre @ [k, col]"
  by (simp add: waits_def)

lemma consumedI:
  "mState p \<notin> {INIT, PARSER_END} \<Longrightarrow> mValueStack p = c # cs \<Longrightarrow> mStateStack p = map resume_of cs \<Longrightarrow>
    outer fp us cs \<Longrightarrow> seen fp (mState p) ws c \<Longrightarrow> consumed fp (us @ ws) p"
  by (auto simp: consumed_def)

lemma consumed_behind:
  assumes "value_place p" and "outer fp ts (mValueStack p)" and "mStateStack p = map resume_of (tl (mValueStack p))"
    and "json_value fp us v" and "behind_value v p q"
  shows "consumed fp (ts @ us) q"
  using assms(1)
proof (cases rule: value_place_cases)
  case start
  then have "ts = []" using assms(2) by (auto elim: outer_NilE)
  then show ?thesis using start assms(4,5) by (auto simp: behind_value_def consumed_def)
next
  case (array c cs l)
  have q: "q = p\<lparr>mState := IN_ARRAY_VALUE, mValueStack := c\<lparr>mBacking := BackingList (l @ [v])\<rparr> # cs\<rparr>"
    using assms(5) array by (simp add: behind_value_def)
  obtain t1 ws where t: "ts = t1 @ ws" "outer fp t1 cs" "waits fp ws c"
    using assms(2) array(2) by (auto elim: outer_ConsE)
  have "array_prefix fp ws l" using t(3) array(4) by (simp add: waits_def)
  then have "seen fp IN_ARRAY_VALUE (ws @ us) (c\<lparr>mBacking := BackingList (l @ [v])\<rparr>)"
    using elements_append [OF _ assms(4)] by (simp add: seen_def)
  then have "consumed fp (t1 @ ws @ us) q"
    using t(2) q array(2) assms(3) by (intro consumedI [where cs = cs]) simp_all
  then show ?thesis using t(1) by simp
next
  case (object c cs m)
  have q: "q = p\<lparr>mState := IN_OBJECT_VALUE, mValueStack := c\<lparr>mLastParsedObjectValue := v\<rparr> # cs\<rparr>"
    using assms(5) object by (simp add: behind_value_def)
  obtain t1 ws where t: "ts = t1 @ ws" "outer fp t1 cs" "waits fp ws c"
    using assms(2) object(2) by (auto elim: outer_ConsE)
  have "seen fp IN_OBJECT_VALUE (ws @ us) (c\<lparr>mLastParsedObjectValue := v\<rparr>)"
    using waits_backing [OF t(3) object(4)] object(4) assms(4) by (fastforce simp: seen_def)
  then have "consumed fp (t1 @ ws @ us) q"
    using t(2) q object(2) assms(3) by (intro consumedI [where cs = cs]) simp_all
  then show ?thesis using t(1) by simp
qed

lemma resume_place:
  "value_place p \<Longrightarrow> mStateStack p = map resume_of (tl (mValueStack p)) \<Longrightarrow>
    resume_state p @ mStateStack p = map resume_of (mValueStack p)"
  by (erule value_place_cases) (auto simp: resume_state_def resume_of_def array_place_def)

lemma consumed_close:
  assumes "mValueStack p = c # cs" and "mStateStack p = map resume_of cs" and "outer fp us cs"
    and "json_value fp ws (mJsonValue c)" and "closeCompositeJsonValueAndRestoreState p = (Inr (), q)"
  shows "consumed fp (us @ ws) q"
proof -
  let ?p = "place_below p"
  have o: "value_place ?p" "p = opened (mState p) c ?p" "mValueStack ?p = cs"
    using as_opened [OF assms(1-3)] by auto
  have s: "mStateStack ?p = map resume_of (tl cs)" using assms(2) by (simp add: place_below_def map_tl)
  obtain r where "closeCompositeJsonValueAndRestoreState p = (Inr (), r)" "behind_value (mJsonValue c) ?p r"
    using close_reached [OF o(1,2)] by blast
  then show ?thesis
    using consumed_behind [OF o(1), of fp us ws "mJsonValue c" q] o(3) s assms(3-5) by simp
qed

lemma consumed_value_place:
  assumes "value_place p" and "outer fp ts (mValueStack p)" and "mStateStack p = map resume_of (tl (mValueStack p))"
    and "parse_token fp (Some t) p = (Inr (), q)" and "\<not> (mState p = IN_ARRAY_START \<and> mTokenType t = RIGHT_SQUARE_BRACKET)"
  shows "consumed fp (ts @ [t]) q"
proof -
  consider (simple) "is_simple (mTokenType t)" | (array) "mTokenType t = LEFT_SQUARE_BRACKET" | (object) "mTokenType t = LEFT_BRACE"
    | (other) "mTokenType t \<in> {RIGHT_BRACE, RIGHT_SQUARE_BRACKET, COMMA, COLON}"
    by (cases "mTokenType t") (auto simp: is_simple_def)
  then show ?thesis
  proof cases
    case simple
    then obtain r where "parse_token fp (Some t) p = (Inr (), r)" "behind_value (simple_value fp t) p r"
      using read_simple [OF assms(1)] by blast
    then show ?thesis using consumed_behind [OF assms(1-3) json_simple [OF simple]] assms(4) by simp
  next
    case array
    then have q: "q = opened IN_ARRAY_START (JsonValueContainer_new (BackingList [])) p"
      using open_array [OF assms(1) array, of fp] assms(4) by simp
    have "consumed fp (ts @ [t]) q"
      unfolding q using array assms(2) resume_place [OF assms(1,3)]
      by (intro consumedI) (auto simp: opened_def seen_def JsonValueContainer_new_def)
    then show ?thesis .
  next
    case object
    then have q: "q = opened IN_OBJECT_START (JsonValueContainer_new (BackingMap [])) p"
      using open_object [OF assms(1) object, of fp] assms(4) by simp
    have "consumed fp (ts @ [t]) q"
      unfolding q using object assms(2) resume_place [OF assms(1,3)]
      by (intro consumedI) (auto simp: opened_def seen_def JsonValueContainer_new_def)
    then show ?thesis .
  next
    case other
    have False using assms(1)
    proof (cases rule: value_place_cases)
      case start
      then show ?thesis using other assms(4) by (auto simp: parser_simps parseInitState_def)
    next
      case array
      then show ?thesis
        using other assms(4,5)
        by (auto simp: parser_simps parseInArrayStartState_def parseInArrayDelimiterState_def array_place_def)
    next
      case object
      then show ?thesis using other assms(4) by (auto simp: parser_simps parseInObjectColonState_def)
    qed
    then show ?thesis ..
  qed
qed

lemma object_prefix_append:
  assumes "object_prefix fp pre m" and "mTokenType k = VALUE_STRING" and "mTokenValue k \<noteq> []" and "mTokenType col = COLON"
    and "json_value fp us (Some v)"
  shows "\<exists>a es kvs. mTokenType a = LEFT_BRACE \<and> json_members fp es kvs \<and> pre @ k # col # us = a # es \<and>
    um_put (=) (mTokenValue k) (Some v) m = object_of kvs []"
proof -
  obtain a pre' where a: "mTokenType a = LEFT_BRACE" "pre = a # pre'" and c: "pre' = [] \<and> m = [] \<or>
      (\<exists>es d kvs. json_members fp es kvs \<and> mTokenType d = COMMA \<and> pre' = es @ [d] \<and> m = object_of kvs [])"
    using assms(1) unfolding object_prefix_def by blast
  from c show ?thesis
  proof (elim disjE exE conjE)
    assume "pre' = []" "m = []"
    then show ?thesis
      using a json_member [OF assms(2-5)]
      by (intro exI [of _ a] exI [of _ "k # col # us"] exI [of _ "[(mTokenValue k, Some v)]"]) (simp add: object_of_def)
  next
    fix es d kvs
    assume p: "json_members fp es kvs" "mTokenType d = COMMA" "pre' = es @ [d]" "m = object_of kvs []"
    show ?thesis
      using a p json_more_members [OF p(1,2) assms(2-5)]
      by (intro exI [of _ a] exI [of _ "es @ d # k # col # us"] exI [of _ "kvs @ [(mTokenValue k, Some v)]"]) (simp add: object_of_def)
  qed
qed

lemma consumed_object_value:
  assumes "mState p = IN_OBJECT_VALUE" and "mValueStack p = c # cs" and "mStateStack p = map resume_of cs"
    and "outer fp us cs" and "seen fp IN_OBJECT_VALUE ws c" and "parse_token fp (Some t) p = (Inr (), q)"
  shows "consumed fp (us @ ws @ [t]) q"
proof -
  obtain m pre k col vs where b: "mBacking c = BackingMap m" and s: "object_prefix fp pre m" "mTokenType k = VALUE_STRING"
    "mTokenType col = COLON" "mLastParsedObjectKey c = mTokenValue k" "json_value fp vs (mLastParsedObjectValue c)"
    "ws = pre @ k # col # vs"
    using assms(5) by (auto simp: seen_def split: Backing.splits)
  have kv: "mTokenType t \<in> {RIGHT_BRACE, COMMA}" "mLastParsedObjectKey c \<noteq> []" "mLastParsedObjectValue c \<noteq> None"
    using assms(1,2,6) b
    by (auto simp: parser_simps parseInObjectValueState_def putLastParsedKeyValuePairIntoObject_def split: if_splits)
  then obtain v where v: "mLastParsedObjectValue c = Some v" by auto
  let ?m = "um_put (=) (mTokenValue k) (Some v) m"
  have vs: "json_value fp vs (Some v)" using s(5) v by simp
  obtain a es kvs where e: "mTokenType a = LEFT_BRACE" "json_members fp es kvs" "ws = a # es" "?m = object_of kvs []"
    using object_prefix_append [OF s(1,2) _ s(3) vs] kv(2) s(4,6) by auto
  have pend: "pending ?m c" using b kv(2) v s(4) by (simp add: pending_def)
  have o: "value_place (place_below p)" "p = opened IN_OBJECT_VALUE c (place_below p)" "mValueStack (place_below p) = cs"
    using as_opened [OF assms(2-4)] assms(1) by auto
  have st: "resume_state (place_below p) @ mStateStack (place_below p) = map resume_of cs"
    using arg_cong [OF o(2), of mStateStack] assms(3) by (simp add: opened_def)
  show ?thesis
  proof (cases "mTokenType t = COMMA")
    case True
    obtain d where d: "parse_token fp (Some t) p = (Inr (), opened IN_OBJECT_DELIMITER d (place_below p))" "mBacking d = BackingMap ?m"
      using object_value_tokens(1) [OF pend True, of fp "place_below p"] o(2) by auto
    then have q: "q = opened IN_OBJECT_DELIMITER d (place_below p)" using assms(6) by simp
    have "object_prefix fp (ws @ [t]) ?m" unfolding object_prefix_def using e True by auto
    then show ?thesis
      unfolding q using d(2) st o(3) assms(4) by (intro consumedI) (auto simp: opened_def seen_def)
  next
    case False
    then have t: "mTokenType t = RIGHT_BRACE" using kv(1) by simp
    obtain d where d: "parse_token fp (Some t) p = closeCompositeJsonValueAndRestoreState (opened IN_OBJECT_VALUE d (place_below p))"
      "mBacking d = BackingMap ?m"
      using object_value_tokens(2) [OF pend t, of fp "place_below p"] o(2) by auto
    have "mJsonValue d = Some (JsonObjectValue (object_of kvs []))" using d(2) e(4) by (simp add: mJsonValue_def)
    then have "json_value fp (ws @ [t]) (mJsonValue d)" using json_object [OF e(1,2) t] e(3) by simp
    then show ?thesis
      using consumed_close [of "opened IN_OBJECT_VALUE d (place_below p)" d cs fp us] d(1) assms(4,6) st o(3)
      by (simp add: opened_def)
  qed
qed

lemma consumed_cases:
  assumes "consumed fp ts p"
  obtains (init) "mState p = INIT" "ts = []" "mValueStack p = []" "mStateStack p = []"
  | (finished) c where "mState p = PARSER_END" "mValueStack p = [c]" "json_value fp ts (mJsonValue c)"
  | (inside) c cs us ws where "mValueStack p = c # cs" "mStateStack p = map resume_of cs" "ts = us @ ws" "outer fp us cs"
      "seen fp (mState p) ws c"
  using assms by (auto simp: consumed_def split: if_splits)

lemma seen_states:
  assumes "seen fp st ws c"
  shows "st \<in> {IN_ARRAY_START, IN_ARRAY_VALUE, IN_ARRAY_DELIMITER} \<Longrightarrow> \<exists>l. mBacking c = BackingList l"
    and "st \<in> {IN_OBJECT_START, IN_OBJECT_KEY, IN_OBJECT_COLON, IN_OBJECT_VALUE, IN_OBJECT_DELIMITER} \<Longrightarrow> \<exists>m. mBacking c = BackingMap m"
    and "st \<notin> {INIT, PARSER_END, PARSER_ERROR}"
  using assms by (auto simp: seen_def split: Backing.splits)

lemma value_place_inside:
  assumes "mValueStack p = c # cs" and "mStateStack p = map resume_of cs" and "outer fp us cs" and "seen fp (mState p) ws c"
    and "mState p \<in> {IN_ARRAY_START, IN_ARRAY_DELIMITER, IN_OBJECT_COLON}"
  shows "value_place p \<and> outer fp (us @ ws) (mValueStack p) \<and> mStateStack p = map resume_of (tl (mValueStack p))"
proof -
  have "waits fp ws c"
    using assms(4,5) by (auto simp: seen_def waits_def array_prefix_def split: Backing.splits)
  moreover have "value_place p"
    using assms seen_states [OF assms(4)] by (auto simp: value_place_def array_place_def seen_def split: Backing.splits)
  ultimately show ?thesis using assms(1-3) outer_Cons by fastforce
qed

lemma consumed_step:
  assumes "consumed fp ts p" and "parse_token fp (Some t) p = (Inr (), q)"
  shows "consumed fp (ts @ [t]) q"
  using assms(1)
proof (cases rule: consumed_cases)
  case init
  have "value_place p" using init by (simp add: value_place_def)
  then show ?thesis
    using consumed_value_place [OF _ _ _ assms(2), of ts] init outer_Nil [of fp] by simp
next
  case finished
  then show ?thesis using assms(2) by (simp add: parser_simps parseEndState_def)
next
  case (inside c cs us ws)
  note place = consumed_value_place [OF _ _ _ assms(2), of "us @ ws"] value_place_inside [OF inside(1,2,4,5)]
  consider (array) "mState p = IN_ARRAY_START \<or> mState p = IN_ARRAY_VALUE" "mTokenType t = RIGHT_SQUARE_BRACKET"
    | (valued) "mState p \<in> {IN_ARRAY_START, IN_ARRAY_DELIMITER, IN_OBJECT_COLON}"
        "\<not> (mState p = IN_ARRAY_START \<and> mTokenType t = RIGHT_SQUARE_BRACKET)"
    | (comma) "mState p = IN_ARRAY_VALUE" "mTokenType t \<noteq> RIGHT_SQUARE_BRACKET"
    | (ostart) "mState p = IN_OBJECT_START" | (okey) "mState p = IN_OBJECT_KEY"
    | (ovalue) "mState p = IN_OBJECT_VALUE" | (odelim) "mState p = IN_OBJECT_DELIMITER"
    using seen_states(3) [OF inside(5)] by (cases "mState p") auto
  then show ?thesis
  proof cases
    case array
    have close: "closeCompositeJsonValueAndRestoreState p = (Inr (), q)"
      using array assms(2) by (auto simp: parser_simps parseInArrayStartState_def parseInArrayValueState_def)
    have "json_value fp (ws @ [t]) (mJsonValue c)"
      using array inside(5) json_empty_array [OF _ array(2)] json_array [OF _ _ array(2)]
      by (auto simp: seen_def mJsonValue_def array_prefix_def split: Backing.splits)
    then show ?thesis using consumed_close [OF inside(1,2,4) _ close] inside(3) by simp
  next
    case valued
    then show ?thesis using place inside(3) by simp
  next
    case comma
    have t: "mTokenType t = COMMA" and q: "q = p\<lparr>mState := IN_ARRAY_DELIMITER\<rparr>"
      using comma assms(2) by (auto simp: parser_simps parseInArrayValueState_def split: if_splits)
    have "seen fp IN_ARRAY_DELIMITER (ws @ [t]) c"
      using comma(1) inside(5) t by (auto simp: seen_def array_prefix_def split: Backing.splits)
    then show ?thesis unfolding q using inside consumedI [of q c cs fp us "ws @ [t]"] q by simp
  next
    case ostart
    obtain a where b: "mBacking c = BackingMap []" "mTokenType a = LEFT_BRACE" "ws = [a]"
      using ostart inside(5) by (auto simp: seen_def split: Backing.splits)
    consider (close) "mTokenType t = RIGHT_BRACE" "closeCompositeJsonValueAndRestoreState p = (Inr (), q)"
      | (key) "mTokenType t = VALUE_STRING"
          "q = p\<lparr>mState := IN_OBJECT_KEY, mValueStack := c\<lparr>mLastParsedObjectKey := mTokenValue t\<rparr> # cs\<rparr>"
      using ostart assms(2) inside(1) b
      by (auto simp: parser_simps parseInObjectStartState_def object_key_def split: if_splits)
    then show ?thesis
    proof cases
      case close
      have "json_value fp (ws @ [t]) (mJsonValue c)"
        using json_empty_object [OF b(2) close(1)] b by (simp add: mJsonValue_def)
      then show ?thesis using consumed_close [OF inside(1,2,4) _ close(2)] inside(3) by simp
    next
      case key
      have "object_prefix fp ws []" using b(2,3) by (simp add: object_prefix_def)
      then have "seen fp IN_OBJECT_KEY (ws @ [t]) (c\<lparr>mLastParsedObjectKey := mTokenValue t\<rparr>)"
        using b(1) key(1) by (simp add: seen_def)
      then have "consumed fp (us @ ws @ [t]) q"
        unfolding key(2) using inside(2,4) by (intro consumedI) simp_all
      then show ?thesis using inside(3) by simp
    qed
  next
    case okey
    have t: "mTokenType t = COLON" and q: "q = p\<lparr>mState := IN_OBJECT_COLON\<rparr>"
      using okey assms(2) by (auto simp: parser_simps parseInObjectKeyState_def split: if_splits)
    obtain m pre k where s: "mBacking c = BackingMap m" "object_prefix fp pre m" "mTokenType k = VALUE_STRING"
      "mLastParsedObjectKey c = mTokenValue k" "ws = pre @ [k]"
      using okey inside(5) by (auto simp: seen_def split: Backing.splits)
    have "waits fp (ws @ [t]) c" using s t by (auto simp: waits_def)
    then have "seen fp IN_OBJECT_COLON (ws @ [t]) c" using s(1) by (simp add: seen_def)
    then have "consumed fp (us @ ws @ [t]) q"
      unfolding q using inside(1,2,4) by (intro consumedI) simp_all
    then show ?thesis using inside(3) by simp
  next
    case ovalue
    then show ?thesis using consumed_object_value [OF ovalue inside(1,2,4) _ assms(2)] inside(3,5) by simp
  next
    case odelim
    obtain m where s: "mBacking c = BackingMap m" "object_prefix fp ws m"
      using odelim inside(5) by (auto simp: seen_def split: Backing.splits)
    have t: "mTokenType t = VALUE_STRING"
      and q: "q = p\<lparr>mState := IN_OBJECT_KEY, mValueStack := c\<lparr>mLastParsedObjectKey := mTokenValue t\<rparr> # cs\<rparr>"
      using odelim assms(2) inside(1) s
      by (auto simp: parser_simps parseInObjectDelimiterState_def object_key_def split: if_splits)
    have "seen fp IN_OBJECT_KEY (ws @ [t]) (c\<lparr>mLastParsedObjectKey := mTokenValue t\<rparr>)"
      using s t by (simp add: seen_def)
    then have "consumed fp (us @ ws @ [t]) q"
      unfolding q using inside(2,4) by (intro consumedI) simp_all
    then show ?thesis using inside(3) by simp
  qed
qed

lemma consumed_lexer [simp]: "consumed fp ts (p\<lparr>mLexer := l\<rparr>) = consumed fp ts p"
  by (simp add: consumed_def)

text \<open>The end of the input is accepted in the end state only.\<close>

lemma consumed_end:
  assumes "consumed fp ts p" and "parse_token fp None p = (Inr u, q)"
  shows "q = p \<and> (\<exists>c. mValueStack p = [c] \<and> json_value fp ts (mJsonValue c) \<and> mState p = PARSER_END)"
  using assms(1)
proof (cases rule: consumed_cases)
  case init
  then show ?thesis using assms(2) by (simp add: parser_simps parseInitState_def)
next
  case (finished c)
  then show ?thesis using assms(2) by (simp add: parser_simps parseEndState_def)
next
  case (inside c cs us ws)
  then show ?thesis
    using assms(2) seen_states(3) [OF inside(5)]
    by (cases "mState p") (auto simp: parser_simps parseInArrayStartState_def parseInArrayValueState_def
      parseInArrayDelimiterState_def parseInObjectStartState_def parseInObjectKeyState_def parseInObjectColonState_def
      parseInObjectValueState_def parseInObjectDelimiterState_def)
qed

text \<open>The tokens that a lexer gives, up to the end of its input.\<close>

primrec lexer_tokens :: "JsonLexer \<Rightarrow> JsonToken list \<Rightarrow> bool" where
  "lexer_tokens l [] \<longleftrightarrow> fst (nextToken l) = Inr None"
| "lexer_tokens l (t # ts) \<longleftrightarrow> fst (nextToken l) = Inr (Some t) \<and> lexer_tokens (snd (nextToken l)) ts"

lemma loop_sound:
  assumes "doParse_loop fp p = (Inr u, q)" and "consumed fp ts p"
  shows "\<exists>us c. lexer_tokens (mLexer p) us \<and> mState q = PARSER_END \<and> mValueStack q = [c] \<and> json_value fp (ts @ us) (mJsonValue c)"
  using assms
proof (induction fp p arbitrary: ts rule: doParse_loop.induct)
  case (1 fp p)
  obtain x l where n: "nextToken (mLexer p) = (x, l)" by fastforce
  show ?case
  proof (cases x)
    case (Inl e)
    then show ?thesis using "1.prems"(1) n by (subst (asm) doParse_loop.simps) simp
  next
    case (Inr tok)
    show ?thesis
    proof (cases tok)
      case None
      then have "parse_token fp None (p\<lparr>mLexer := l\<rparr>) = (Inr u, q)"
        using "1.prems"(1) n Inr by (subst (asm) doParse_loop.simps) simp
      then show ?thesis
        using consumed_end [of fp ts "p\<lparr>mLexer := l\<rparr>"] "1.prems"(2) n Inr None
        by (intro exI [of _ "[]"]) auto
    next
      case (Some t)
      obtain y p' where y: "parse_token fp (Some t) (p\<lparr>mLexer := l\<rparr>) = (y, p')" by fastforce
      have "y = Inr ()" and loop: "doParse_loop fp p' = (Inr u, q)"
        using "1.prems"(1) n Inr Some y by (cases y; subst (asm) doParse_loop.simps; simp)+
      then have c: "consumed fp (ts @ [t]) p'"
        using consumed_step [of fp ts "p\<lparr>mLexer := l\<rparr>" t p'] "1.prems"(2) y by simp
      have l: "mLexer p' = l" using parse_token_mLexer [OF y] by simp
      obtain us d where "lexer_tokens (mLexer p') us" "mState q = PARSER_END" "mValueStack q = [d]"
        "json_value fp ((ts @ [t]) @ us) (mJsonValue d)"
        using "1.IH" [OF n [symmetric] Inr Some y [symmetric] \<open>y = Inr ()\<close> loop c] by blast
      then show ?thesis
        using n Inr Some l by (intro exI [of _ "t # us"]) simp
    qed
  qed
qed

lemma loop_complete:
  assumes "lexer_tokens (mLexer p) ts" and "feed fp ts p = (Inr (), q)" and "mState q = PARSER_END"
  shows "\<exists>l. doParse_loop fp p = (Inr (), q\<lparr>mLexer := l\<rparr>)"
  using assms
proof (induction ts arbitrary: p q)
  case Nil
  then obtain l where "nextToken (mLexer p) = (Inr None, l)" by (metis lexer_tokens.simps(1) prod.collapse)
  then show ?case
    using Nil.prems by (intro exI [of _ l], subst doParse_loop.simps)
      (simp add: parser_simps parseEndState_def)
next
  case (Cons t ts)
  obtain l where l: "nextToken (mLexer p) = (Inr (Some t), l)" "lexer_tokens l ts"
    using Cons.prems(1) by (metis lexer_tokens.simps(2) prod.collapse)
  obtain r where r: "parse_token fp (Some t) p = (Inr (), r)" "feed fp ts r = (Inr (), q)"
    using Cons.prems(2) by (auto simp: op_bind_def split: prod.splits sum.splits)
  have "feed fp ts (r\<lparr>mLexer := l\<rparr>) = (Inr (), q\<lparr>mLexer := l\<rparr>)"
    using feed_lexer [where fp = fp and ts = ts and p = r and l = l] r(2) by simp
  then obtain k where "doParse_loop fp (r\<lparr>mLexer := l\<rparr>) = (Inr (), q\<lparr>mLexer := l\<rparr>\<lparr>mLexer := k\<rparr>)"
    using Cons.IH [of "r\<lparr>mLexer := l\<rparr>" "q\<lparr>mLexer := l\<rparr>"] l(2) Cons.prems(3) by auto
  moreover have "doParse_loop fp p = doParse_loop fp (r\<lparr>mLexer := l\<rparr>)"
    using l(1) r(1) parse_token_lexer_free [where fp = fp and t = "Some t" and p = p and l = l]
    by (subst doParse_loop.simps) simp
  ultimately show ?case by auto
qed

text \<open>The exceptions that leave the parser in another state than its error state.\<close>

definition stays_in_state :: "cpp_exception \<Rightarrow> JsonParserState \<Rightarrow> bool" where
  "stays_in_state e st \<longleftrightarrow>
     (st = IN_OBJECT_COLON \<and> (\<exists>t. e = JsonParserException (unexpectedTokenErrorMessage t ''after key-value pair encountered''))) \<or>
     (st = IN_OBJECT_VALUE \<and> e = JsonParserException (internalParserErrorMessage IN_OBJECT_VALUE ''mLastParsedObjectKey is not set'')) \<or>
     (st = IN_OBJECT_VALUE \<and> e = JsonParserException (internalParserErrorMessage IN_OBJECT_VALUE ''mLastParsedObjectValue is null''))"

lemma consumed_error:
  assumes "consumed fp ts p" and "parse_token fp tok p = (Inl e, q)"
  shows "(mState q = PARSER_ERROR \<and> (\<exists>msg. e = JsonParserException msg)) \<or> stays_in_state e (mState q)"
  using assms(1)
proof (cases rule: consumed_cases)
  case init
  then show ?thesis
    using assms(2) tokenToSimple [of _ fp]
    by (cases tok) (auto simp: parser_simps parseInitState_def split: if_splits)
next
  case finished
  then show ?thesis using assms(2) by (cases tok) (auto simp: parser_simps parseEndState_def)
next
  case (inside c cs us ws)
  show ?thesis
  proof (cases tok)
    case None
    then show ?thesis
      using assms(2) seen_states(3) [OF inside(5)]
      by (cases "mState p") (auto simp: parser_simps parseInArrayStartState_def parseInArrayValueState_def
        parseInArrayDelimiterState_def parseInObjectStartState_def parseInObjectKeyState_def parseInObjectColonState_def
        parseInObjectValueState_def parseInObjectDelimiterState_def)
  next
    case (Some t)
    have close: "closeCompositeJsonValueAndRestoreState (opened st d (place_below p)) \<noteq> (Inl e, q)" for st d
      using close_reached [of "place_below p" _ st d] as_opened [OF inside(1,2,4)] by fastforce
    have close0: "closeCompositeJsonValueAndRestoreState p \<noteq> (Inl e, q)"
      using close [of "mState p" c] as_opened [OF inside(1,2,4)] by simp
    note vp = value_place_inside [OF inside(1,2,4,5)]
    show ?thesis
    proof (cases "mState p \<in> {IN_ARRAY_START, IN_ARRAY_DELIMITER, IN_OBJECT_COLON}")
      case True
      then have v: "value_place p" using vp by blast
      have "\<not> is_simple (mTokenType t)" using read_simple [OF v, of t fp] assms(2) Some by auto
      moreover have "mTokenType t \<noteq> LEFT_SQUARE_BRACKET" "mTokenType t \<noteq> LEFT_BRACE"
        using open_array [OF v, of t fp] open_object [OF v, of t fp] assms(2) Some by auto
      ultimately show ?thesis
        using True assms(2) Some close0 inside(1) seen_states(2) [OF inside(5)]
        by (auto simp: parser_simps parseInArrayStartState_def parseInArrayDelimiterState_def parseInObjectColonState_def
          stays_in_state_def split: if_splits)
    next
      case False
      consider (avalue) "mState p = IN_ARRAY_VALUE" | (ostart) "mState p = IN_OBJECT_START" | (okey) "mState p = IN_OBJECT_KEY"
        | (ovalue) "mState p = IN_OBJECT_VALUE" | (odelim) "mState p = IN_OBJECT_DELIMITER"
        using False seen_states(3) [OF inside(5)] by (cases "mState p") auto
      then show ?thesis
      proof cases
        case avalue
        then show ?thesis
          using assms(2) Some close0 by (auto simp: parser_simps parseInArrayValueState_def split: if_splits)
      next
        case ostart
        then show ?thesis
          using assms(2) Some close0 inside(1) seen_states(2) [OF inside(5)]
          by (auto simp: parser_simps parseInObjectStartState_def object_key_def split: if_splits)
      next
        case okey
        then show ?thesis using assms(2) Some by (auto simp: parser_simps parseInObjectKeyState_def split: if_splits)
      next
        case odelim
        then show ?thesis
          using assms(2) Some inside(1) seen_states(2) [OF inside(5)]
          by (auto simp: parser_simps parseInObjectDelimiterState_def object_key_def split: if_splits)
      next
        case ovalue
        obtain m where b: "mBacking c = BackingMap m" using seen_states(2) [OF inside(5)] ovalue by auto
        show ?thesis
        proof (cases "mTokenType t \<in> {RIGHT_BRACE, COMMA} \<and> mLastParsedObjectKey c \<noteq> [] \<and> mLastParsedObjectValue c \<noteq> None")
          case True
          then have pend: "pending (um_put (=) (mLastParsedObjectKey c) (mLastParsedObjectValue c) m) c"
            using b by (simp add: pending_def)
          have p: "p = opened IN_OBJECT_VALUE c (place_below p)" using as_opened [OF inside(1,2,4)] ovalue by simp
          show ?thesis
            using object_value_tokens [OF pend, of t fp "place_below p"] p True assms(2) Some close by force
        next
          case False
          then show ?thesis
            using ovalue assms(2) Some inside(1) b
            by (auto simp: parser_simps parseInObjectValueState_def putLastParsedKeyValuePairIntoObject_def
              stays_in_state_def split: if_splits)
        qed
      qed
    qed
  qed
qed

lemma loop_errors:
  assumes "doParse_loop fp p = (Inl e, q)" and "consumed fp ts p"
  shows "(mState q = PARSER_ERROR \<and> (\<exists>msg. e = JsonParserException msg)) \<or> stays_in_state e (mState q) \<or> lexer_exception e"
  using assms
proof (induction fp p arbitrary: ts rule: doParse_loop.induct)
  case (1 fp p)
  obtain x l where n: "nextToken (mLexer p) = (x, l)" by fastforce
  show ?case
  proof (cases x)
    case (Inl f)
    then have "f = e" using "1.prems"(1) n by (subst (asm) doParse_loop.simps) simp
    then show ?thesis using nextToken_throws n Inl by blast
  next
    case (Inr tok)
    show ?thesis
    proof (cases tok)
      case None
      then have "parse_token fp None (p\<lparr>mLexer := l\<rparr>) = (Inl e, q)"
        using "1.prems"(1) n Inr by (subst (asm) doParse_loop.simps) simp
      then show ?thesis using consumed_error [of fp ts "p\<lparr>mLexer := l\<rparr>"] "1.prems"(2) by auto
    next
      case (Some t)
      obtain y p' where y: "parse_token fp (Some t) (p\<lparr>mLexer := l\<rparr>) = (y, p')" by fastforce
      show ?thesis
      proof (cases y)
        case (Inl f)
        then have "parse_token fp (Some t) (p\<lparr>mLexer := l\<rparr>) = (Inl e, q)"
          using "1.prems"(1) n Inr Some y by (subst (asm) doParse_loop.simps) simp
        then show ?thesis using consumed_error [of fp ts "p\<lparr>mLexer := l\<rparr>"] "1.prems"(2) by auto
      next
        case (Inr v)
        have loop: "doParse_loop fp p' = (Inl e, q)"
          using "1.prems"(1) n \<open>x = Inr tok\<close> Some y Inr by (subst (asm) doParse_loop.simps) simp
        have "consumed fp (ts @ [t]) p'"
          using consumed_step [of fp ts "p\<lparr>mLexer := l\<rparr>" t p'] "1.prems"(2) y Inr by simp
        then show ?thesis using "1.IH" [OF n [symmetric] \<open>x = Inr tok\<close> Some y [symmetric] Inr loop] by blast
      qed
    qed
  qed
qed

subsection \<open>Properties\<close>

text \<open>C20: The parser accepts exactly the grammar: a parse of a text returns a value if and only if
  the tokens that the lexer gives for the text, up to its end, are a JSON value of the grammar
  and mean this value. The value is a null pointer for a number that cannot be represented.\<close>

theorem parser_equals_grammar:
  "(\<exists>p. parse fp (JsonParser_new s) = (Inr v, p)) \<longleftrightarrow> (\<exists>ts. lexer_tokens (JsonLexer_new s) ts \<and> json_value fp ts v)"
proof
  let ?p = "JsonParser_new s :: 'a JsonParser"
  have new: "mState ?p = INIT" "mLexer ?p = JsonLexer_new s" by (simp_all add: JsonParser_new_def)
  {
    assume "\<exists>p. parse fp ?p = (Inr v, p)"
    then obtain q where d: "doParse fp ?p = (Inr v, q)"
      using new by (auto simp: parse_def split: prod.splits sum.splits cpp_exception.splits)
    then obtain r where r: "doParse_loop fp ?p = (Inr (), r)"
      by (auto simp: doParse_def op_bind_def split: prod.splits sum.splits)
    obtain ts c where "lexer_tokens (JsonLexer_new s) ts" "mValueStack r = [c]" "json_value fp ts (mJsonValue c)"
      using loop_sound [OF r consumed_new] new by auto
    moreover from this have "v = mJsonValue c"
      using d r by (simp add: doParse_def op_bind_def op_return_def ensureValueContainerStackIsNotEmpty_def)
    ultimately show "\<exists>ts. lexer_tokens (JsonLexer_new s) ts \<and> json_value fp ts v" by blast
  next
    assume "\<exists>ts. lexer_tokens (JsonLexer_new s) ts \<and> json_value fp ts v"
    then obtain ts where ts: "lexer_tokens (mLexer ?p) ts" "json_value fp ts v" using new by auto
    have "value_place ?p" by (simp add: value_place_def JsonParser_new_def)
    then obtain q where q: "feed fp ts ?p = (Inr (), q)" "behind_value v ?p q"
      using feed_json(1) [OF ts(2)] by blast
    then obtain c where c: "mJsonValue c = v" "q = ?p\<lparr>mState := PARSER_END, mValueStack := [c]\<rparr>"
      by (auto simp: behind_value_def JsonParser_new_def)
    obtain l where "doParse_loop fp ?p = (Inr (), q\<lparr>mLexer := l\<rparr>)"
      using loop_complete [OF ts(1) q(1)] c(2) by auto
    then have "doParse fp ?p = (Inr v, q\<lparr>mLexer := l\<rparr>)"
      using c by (simp add: doParse_def op_bind_def op_return_def ensureValueContainerStackIsNotEmpty_def)
    then show "\<exists>p. parse fp ?p = (Inr v, p)" using new by (simp add: parse_def)
  }
qed

text \<open>When a parse throws, the parser is in its error state and the exception is a parser
  exception, or one of three parser exceptions has passed that leave the state as it is (a
  structural token where a value of an object is expected, an empty key, a value that is a null
  pointer), or the lexer has thrown its \<open>logic_error\<close>. None of the other internal errors of
  the parser can occur, and no undefined behaviour.\<close>

theorem parser_exceptions:
  assumes "parse fp (JsonParser_new s) = (Inl e, p)"
  shows "(mState p = PARSER_ERROR \<and> (\<exists>msg. e = JsonParserException msg)) \<or> stays_in_state e (mState p) \<or> (\<exists>msg. e = LogicError msg)"
proof -
  let ?p = "JsonParser_new s :: 'a JsonParser"
  have new: "mState ?p = INIT" by (simp add: JsonParser_new_def)
  obtain f q where d: "doParse fp ?p = (Inl f, q)"
    and fe: "(case f of JsonLexerException m \<Rightarrow> (JsonParserException ''Caught exception from lexical analysis'', q\<lparr>mState := PARSER_ERROR\<rparr>)
      | _ \<Rightarrow> (f, q)) = (e, p)"
    using assms new by (auto simp: parse_def split: prod.splits sum.splits cpp_exception.splits)
  have "doParse_loop fp ?p = (Inl f, q)"
  proof (rule ccontr)
    assume n: "doParse_loop fp ?p \<noteq> (Inl f, q)"
    then obtain r where r: "doParse_loop fp ?p = (Inr (), r)"
      using d by (auto simp: doParse_def op_bind_def split: prod.splits sum.splits)
    obtain c where "mValueStack r = [c]" using loop_sound [OF r consumed_new] by auto
    then show False using d r
      by (simp add: doParse_def op_bind_def op_return_def ensureValueContainerStackIsNotEmpty_def)
  qed
  from loop_errors [OF this consumed_new]
  show ?thesis using fe by (auto simp: lexer_exception_def stays_in_state_def)
qed

lemma parser_exceptions_witness:
  "\<forall>fp :: int double_ops. \<exists>e p. parse fp (JsonParser_new []) = (Inl e, p) \<and>
    ((mState p = PARSER_ERROR \<and> (\<exists>msg. e = JsonParserException msg)) \<or> stays_in_state e (mState p) \<or> (\<exists>msg. e = LogicError msg))"
proof
  fix fp :: "int double_ops"
  obtain l where "nextToken (JsonLexer_new []) = (Inr None, l)"
    using nextToken_end [of "JsonLexer_new []" "[]"] by auto
  then have "doParse_loop fp (JsonParser_new [] :: int JsonParser) =
      (Inl (JsonParserException ''No JSON object could be decoded''), (JsonParser_new [])\<lparr>mLexer := l, mState := PARSER_ERROR\<rparr>)"
    by (subst doParse_loop.simps) (simp add: JsonParser_new_def parser_simps parseInitState_def)
  then have "\<exists>e p. parse fp (JsonParser_new [] :: int JsonParser) = (Inl e, p)"
    by (simp add: parse_def doParse_def op_bind_def JsonParser_new_def)
  then show "\<exists>e p. parse fp (JsonParser_new []) = (Inl e, p) \<and>
      ((mState p = PARSER_ERROR \<and> (\<exists>msg. e = JsonParserException msg)) \<or> stays_in_state e (mState p) \<or> (\<exists>msg. e = LogicError msg))"
    using parser_exceptions by blast
qed

text \<open>Once the parser is in its end state every later parse returns the parsed value again, and
  once it is in its error state every later parse throws; in both cases nothing changes.\<close>

theorem parser_final_states:
  "(mState p = PARSER_END \<longrightarrow> parse fp p = (Inr (mParsedValue p), p)) \<and>
   (mState p = PARSER_ERROR \<longrightarrow> parse fp p = (Inl (JsonParserException ''JSON parser is in erroneous state''), p))"
  by (simp add: parse_def)

lemma parser_final_states_witness:
  "\<forall>(fp :: int double_ops) p. parse fp (p\<lparr>mState := PARSER_END, mParsedValue := Some JsonNullValue\<rparr>) =
     (Inr (Some JsonNullValue), p\<lparr>mState := PARSER_END, mParsedValue := Some JsonNullValue\<rparr>) \<and>
   parse fp (p\<lparr>mState := PARSER_ERROR\<rparr>) =
     (Inl (JsonParserException ''JSON parser is in erroneous state''), p\<lparr>mState := PARSER_ERROR\<rparr>)"
proof (intro allI)
  fix fp :: "int double_ops" and p :: "int JsonParser"
  show "parse fp (p\<lparr>mState := PARSER_END, mParsedValue := Some JsonNullValue\<rparr>) =
     (Inr (Some JsonNullValue), p\<lparr>mState := PARSER_END, mParsedValue := Some JsonNullValue\<rparr>) \<and>
   parse fp (p\<lparr>mState := PARSER_ERROR\<rparr>) =
     (Inl (JsonParserException ''JSON parser is in erroneous state''), p\<lparr>mState := PARSER_ERROR\<rparr>)"
    using parser_final_states [of "p\<lparr>mState := PARSER_END, mParsedValue := Some JsonNullValue\<rparr>" fp]
      parser_final_states [of "p\<lparr>mState := PARSER_ERROR\<rparr>" fp]
    by simp
qed

end
