(* ===== verification/Json_Text.thy ===== *)
theory Json_Text
  imports Json_Grammar
begin

text \<open>
  The texts that the writer produces: their tokens, and that the parser reads the value back.
\<close>

subsection \<open>Parsing a text\<close>

text \<open>The tokens of a text, up to a rest.\<close>

primrec lexes_to :: "string \<Rightarrow> JsonToken list \<Rightarrow> string \<Rightarrow> bool" where
  "lexes_to s [] s' \<longleftrightarrow> s = s'"
| "lexes_to s (t # ts) s' \<longleftrightarrow> (\<exists>s1. token_at s t s1 \<and> lexes_to s1 ts s')"

lemma lexes_to_append: "lexes_to s (ts @ us) s' \<longleftrightarrow> (\<exists>s1. lexes_to s ts s1 \<and> lexes_to s1 us s')"
  by (induction ts arbitrary: s) auto

lemma doParse_loop_token:
  assumes "lexer_at (mLexer p) s" and "token_at s t s1" and "parse_token fp (Some t) p = (Inr (), q)"
  shows "\<exists>l. doParse_loop fp p = doParse_loop fp (q\<lparr>mLexer := l\<rparr>) \<and> lexer_at l s1"
proof -
  obtain l where l: "nextToken (mLexer p) = (Inr (Some t), l)" "lexer_at l s1"
    using assms(1,2) unfolding token_at_def by blast
  have "doParse_loop fp p = doParse_loop fp (q\<lparr>mLexer := l\<rparr>)"
    using l(1) assms(3) parse_token_lexer_free [where fp = fp and t = "Some t" and p = p and l = l]
    by (subst doParse_loop.simps) simp
  then show ?thesis using l(2) by blast
qed

lemma doParse_loop_feed:
  assumes "lexer_at (mLexer p) s" and "lexes_to s ts s'" and "feed fp ts p = (Inr (), q)"
  shows "\<exists>l. doParse_loop fp p = doParse_loop fp (q\<lparr>mLexer := l\<rparr>) \<and> lexer_at l s'"
  using assms
proof (induction ts arbitrary: s p q)
  case Nil
  then have "q = p" by (simp add: op_return_def)
  then show ?case using Nil.prems by (intro exI [of _ "mLexer p"]) simp
next
  case (Cons t ts)
  obtain s1 where s1: "token_at s t s1" "lexes_to s1 ts s'" using Cons.prems(2) by auto
  obtain r where r: "parse_token fp (Some t) p = (Inr (), r)" "feed fp ts r = (Inr (), q)"
    using Cons.prems(3) by (auto simp: op_bind_def split: prod.splits sum.splits)
  obtain l where l: "doParse_loop fp p = doParse_loop fp (r\<lparr>mLexer := l\<rparr>)" "lexer_at l s1"
    using doParse_loop_token [OF Cons.prems(1) s1(1) r(1)] by blast
  have "feed fp ts (r\<lparr>mLexer := l\<rparr>) = (Inr (), q\<lparr>mLexer := l\<rparr>)"
    using feed_lexer [where fp = fp and ts = ts and p = r and l = l] r(2) by simp
  then obtain k where "doParse_loop fp (r\<lparr>mLexer := l\<rparr>) = doParse_loop fp (q\<lparr>mLexer := l\<rparr>\<lparr>mLexer := k\<rparr>)" "lexer_at k s'"
    using Cons.IH [of "r\<lparr>mLexer := l\<rparr>" s1 "q\<lparr>mLexer := l\<rparr>"] l(2) s1(2) by auto
  then show ?case using l(1) by auto
qed

lemma parse_accepts:
  assumes "lexes_to s ts s'" and "dropWhile whitespace s' = []" and "json_value fp ts v"
  shows "\<exists>p. parse fp (JsonParser_new s) = (Inr v, p) \<and> mState p = PARSER_END \<and> mParsedValue p = v"
proof -
  let ?p = "JsonParser_new s :: 'a JsonParser"
  have "value_place ?p" by (simp add: value_place_def JsonParser_new_def)
  then obtain q where q: "feed fp ts ?p = (Inr (), q)" "behind_value v ?p q"
    using feed_json(1) [OF assms(3)] by blast
  then obtain c where c: "mJsonValue c = v" "q = ?p\<lparr>mState := PARSER_END, mValueStack := [c]\<rparr>"
    by (auto simp: behind_value_def JsonParser_new_def)
  have "lexer_at (mLexer ?p) s" by (simp add: JsonParser_new_def)
  then obtain l where l: "doParse_loop fp ?p = doParse_loop fp (q\<lparr>mLexer := l\<rparr>)" "lexer_at l s'"
    using doParse_loop_feed [OF _ assms(1) q(1)] by blast
  obtain k where "nextToken l = (Inr None, k)" using nextToken_end [OF l(2) assms(2)] by blast
  then have "doParse_loop fp (q\<lparr>mLexer := l\<rparr>) = (Inr (), q\<lparr>mLexer := k\<rparr>)"
    using c(2) by (subst doParse_loop.simps) (simp add: parse_token_def parseEndState_def op_return_def)
  then have "doParse fp ?p = (Inr v, q\<lparr>mLexer := k\<rparr>)"
    using l(1) c by (simp add: doParse_def op_bind_def op_return_def ensureValueContainerStackIsNotEmpty_def)
  moreover have "mState ?p = INIT" by (simp add: JsonParser_new_def)
  ultimately show ?thesis using c(2) by (simp add: parse_def)
qed

subsection \<open>The tokens of a written value\<close>

text \<open>
  Values that can be written and read again: no null pointers, no empty keys, the keys of an
  object are different, and numbers are integers.
\<close>

fun writable :: "'d double_ops \<Rightarrow> 'd JsonValue \<Rightarrow> bool"
  and writable_elements :: "'d double_ops \<Rightarrow> 'd JsonValue option list \<Rightarrow> bool"
  and writable_members :: "'d double_ops \<Rightarrow> (string \<times> 'd JsonValue option) list \<Rightarrow> bool" where
  "writable fp (JsonNumber n) \<longleftrightarrow> n = fromLong fp (mLongValue n)"
| "writable fp (JsonArrayValue vs) \<longleftrightarrow> writable_elements fp vs"
| "writable fp (JsonObjectValue m) \<longleftrightarrow> writable_members fp m \<and> distinct (map fst m)"
| "writable fp v \<longleftrightarrow> True"
| "writable_elements fp [] \<longleftrightarrow> True"
| "writable_elements fp (None # vs) \<longleftrightarrow> False"
| "writable_elements fp (Some v # vs) \<longleftrightarrow> writable fp v \<and> writable_elements fp vs"
| "writable_members fp [] \<longleftrightarrow> True"
| "writable_members fp ((k, None) # m) \<longleftrightarrow> False"
| "writable_members fp ((k, Some v) # m) \<longleftrightarrow> k \<noteq> [] \<and> writable fp v \<and> writable_members fp m"

lemma um_put_fresh: "k \<notin> fst ` set m \<Longrightarrow> um_put (=) k v m = m @ [(k, v)]"
  by (induction m) auto

lemma object_of_distinct: "distinct (map fst (m @ kvs)) \<Longrightarrow> object_of kvs m = m @ kvs"
proof (induction kvs arbitrary: m)
  case (Cons kv kvs)
  have "um_put (=) (fst kv) (snd kv) m = m @ [kv]" using Cons.prems um_put_fresh [of "fst kv" m "snd kv"] by auto
  then show ?case using Cons.IH [of "m @ [kv]"] Cons.prems by (simp add: object_of_def)
qed (simp add: object_of_def)

definition lexed_as :: "string \<Rightarrow> JsonToken list \<Rightarrow> bool" where
  "lexed_as txt ts \<longleftrightarrow> (\<forall>s. literal_ends s \<longrightarrow> lexes_to (txt @ s) ts s)"

definition continues :: "string \<Rightarrow> bool" where
  "continues txt \<longleftrightarrow> txt = [] \<or> hd txt = CHR '',''"

lemma literal_ends_structural: "c \<in> {CHR '','', CHR '']'', CHR ''}''} \<Longrightarrow> literal_ends (c # s)"
  by (auto simp: literal_ends_def literal_char_def isJsonStructuralCharacter_def byte_of_def)

lemma continues_ends: "continues txt \<Longrightarrow> literal_ends s \<Longrightarrow> literal_ends (txt @ s)"
  using literal_ends_structural [of "CHR '',''"] by (cases "txt") (auto simp: continues_def)

lemma lexed_as_append:
  assumes "lexed_as a ts" and "lexed_as b us" and "continues b"
  shows "lexed_as (a @ b) (ts @ us)"
  using assms continues_ends unfolding lexed_as_def lexes_to_append by fastforce

lemma lexed_as_structural:
  assumes "(c, tokenType) \<in> {(CHR ''['', LEFT_SQUARE_BRACKET), (CHR '']'', RIGHT_SQUARE_BRACKET), (CHR ''{'', LEFT_BRACE),
      (CHR ''}'', RIGHT_BRACE), (CHR '':'', COLON), (CHR '','', COMMA)}" and "lexed_as a ts"
  shows "lexed_as (c # a) (JsonToken_new tokenType # ts)"
  using assms(2) token_at_structural [OF assms(1)] by (auto simp: lexed_as_def)

lemma lexed_as_key:
  assumes "lexed_as a ts"
  shows "lexed_as (quote # escapeString k @ quote # a) (createStringToken k # ts)"
  using assms token_string [OF escaped_body, of k] unfolding lexed_as_def by (auto simp: quote_def)

lemma lexed_as_bracketed:
  assumes "(c, l) \<in> {(CHR ''['', LEFT_SQUARE_BRACKET), (CHR ''{'', LEFT_BRACE)}"
    and "(d, r) \<in> {(CHR '']'', RIGHT_SQUARE_BRACKET), (CHR ''}'', RIGHT_BRACE)}" and "lexed_as a ts"
  shows "lexed_as (c # a @ [d]) (JsonToken_new l # ts @ [JsonToken_new r])"
proof (rule lexed_as_structural)
  show "lexed_as (a @ [d]) (ts @ [JsonToken_new r])"
    unfolding lexed_as_def
  proof (intro allI impI)
    fix s
    have "literal_ends (d # s)" using assms(2) by (intro literal_ends_structural) auto
    then have "lexes_to (a @ d # s) ts (d # s)" using assms(3) by (simp add: lexed_as_def)
    moreover have "token_at (d # s) (JsonToken_new r) s" using assms(2) by (intro token_at_structural) auto
    ultimately show "lexes_to ((a @ [d]) @ s) (ts @ [JsonToken_new r]) s" by (auto simp: lexes_to_append)
  qed
qed (use assms(1) in auto)

lemma lexed_as_string: "lexed_as (quote # escapeString v @ [quote]) [createStringToken v]"
  using lexed_as_key [of "[]" "[]" v] by (simp add: lexed_as_def)

lemma json_string_key: "mTokenType (createStringToken k) = VALUE_STRING" "mTokenValue (createStringToken k) = k"
  by (simp_all add: createStringToken_def)

lemma escape_plain: "list_all (\<lambda>c. c \<notin> {quote, backslash, CHR ''/''} \<and> byte_of c > 0x1F) s \<Longrightarrow> escapeString s = s"
proof (induction s)
  case (Cons c s)
  have "byte_of (CHR 0x08) \<le> 0x1F" "byte_of (CHR 0x0C) \<le> 0x1F" "byte_of (CHR 0x0A) \<le> 0x1F"
    "byte_of (CHR 0x0D) \<le> 0x1F" "byte_of (CHR 0x09) \<le> 0x1F"
    by (simp_all add: byte_of_def)
  then have "escapeChar c = [c]" using Cons.prems by (auto simp: escapeChar_def)
  then show ?case using Cons by (simp add: escapeString_def)
qed (simp add: escapeString_def)

lemma escape_literals: "escapeString ''null'' = ''null''" "escapeString ''true'' = ''true''" "escapeString ''false'' = ''false''"
  by (simp_all add: escape_plain quote_def backslash_def byte_of_def)

lemma escape_show_int: "escapeString (show_int i) = show_int i"
proof (rule escape_plain)
  have d: "list_all (\<lambda>c. c \<notin> {quote, backslash, CHR ''/''} \<and> byte_of c > 0x1F) (decimal_digits n)" for n
    using decimal_digits_all [of n]
    by (auto simp: list_all_iff std_isdigit_def quote_def backslash_def byte_of_def)
  show "list_all (\<lambda>c. c \<notin> {quote, backslash, CHR ''/''} \<and> byte_of c > 0x1F) (show_int i)"
    using d by (simp add: show_int_def quote_def backslash_def byte_of_def)
qed

lemma simple_written:
  "simple_value fp nullToken = Some JsonNullValue"
  "simple_value fp booleanTrueToken = Some (JsonBooleanValue True)"
  "simple_value fp booleanFalseToken = Some (JsonBooleanValue False)"
  "simple_value fp (createStringToken s) = Some (JsonStringValue s)"
  "simple_value fp (createNumberToken (show_int (sint w))) = Some (JsonNumber (fromLong fp w))"
  using sint64_bounds [of w]
  by (simp_all add: simple_value_def nullToken_def booleanTrueToken_def booleanFalseToken_def createStringToken_def
    createNumberToken_def boolean_fromLiteral_def BOOLEAN_TRUE_LITERAL_def BOOLEAN_FALSE_LITERAL_def fromNumberLiteral_int)

lemma json_simple_written:
  assumes "tok \<in> {nullToken, booleanTrueToken, booleanFalseToken, createStringToken s, createNumberToken n}"
  shows "json_value fp [tok] (simple_value fp tok)"
  using assms
  by (intro json_simple) (auto simp: is_simple_def nullToken_def booleanTrueToken_def booleanFalseToken_def
    createStringToken_def createNumberToken_def)

lemma token_types [simp]: "mTokenType (JsonToken_new t) = t"
  by (simp add: JsonToken_new_def)

text \<open>The text that is added for the elements of an array or the members of an object.\<close>

definition elements_text :: "'d double_ops \<Rightarrow> nat \<Rightarrow> JsonToken list \<Rightarrow> 'd JsonValue option list \<Rightarrow> bool" where
  "elements_text fp n ts vs \<longleftrightarrow>
     (if n = 0 then if vs = [] then ts = [] else json_elements fp ts vs
      else \<forall>us ws. json_elements fp us ws \<longrightarrow> json_elements fp (us @ ts) (ws @ vs))"

definition members_text :: "'d double_ops \<Rightarrow> nat \<Rightarrow> JsonToken list \<Rightarrow> (string \<times> 'd JsonValue option) list \<Rightarrow> bool" where
  "members_text fp n ts kvs \<longleftrightarrow>
     (if n = 0 then if kvs = [] then ts = [] else json_members fp ts kvs
      else \<forall>us ws. json_members fp us ws \<longrightarrow> json_members fp (us @ ts) (ws @ kvs))"

lemma elements_text_Cons:
  assumes "json_value fp ts v" and "elements_text fp (n + 1) us vs"
  shows "elements_text fp n ((if n > 0 then JsonToken_new COMMA # ts else ts) @ us) (v # vs)"
proof (cases "n = 0")
  case True
  then show ?thesis using assms json_element [OF assms(1)] by (fastforce simp: elements_text_def)
next
  case False
  have "json_elements fp (ws @ (JsonToken_new COMMA # ts) @ us) (xs @ v # vs)" if "json_elements fp ws xs" for ws xs
  proof -
    have "json_elements fp (ws @ JsonToken_new COMMA # ts) (xs @ [v])"
      by (rule json_more_elements [OF that _ assms(1)]) simp
    then show ?thesis using assms(2) by (fastforce simp: elements_text_def)
  qed
  then show ?thesis using False by (simp add: elements_text_def)
qed

lemma members_text_Cons:
  assumes "json_value fp ts (Some v)" and "k \<noteq> []" and "members_text fp (n + 1) us kvs"
  shows "members_text fp n ((if n > 0 then JsonToken_new COMMA # createStringToken k # JsonToken_new COLON # ts
     else createStringToken k # JsonToken_new COLON # ts) @ us) ((k, Some v) # kvs)"
proof (cases "n = 0")
  case True
  have "json_members fp (createStringToken k # JsonToken_new COLON # ts) [(k, Some v)]"
    using json_member [of "createStringToken k" "JsonToken_new COLON" fp ts v] assms(1,2) by (simp add: json_string_key)
  then show ?thesis using assms(3) True by (fastforce simp: members_text_def)
next
  case False
  have "json_members fp (ws @ (JsonToken_new COMMA # createStringToken k # JsonToken_new COLON # ts) @ us) (xs @ (k, Some v) # kvs)"
    if "json_members fp ws xs" for ws xs
  proof -
    have "json_members fp (ws @ JsonToken_new COMMA # createStringToken k # JsonToken_new COLON # ts) (xs @ [(k, Some v)])"
      using json_more_members [OF that, of "JsonToken_new COMMA" "createStringToken k" "JsonToken_new COLON" ts v] assms(1,2)
      by (simp add: json_string_key)
    then show ?thesis using assms(3) by (fastforce simp: members_text_def)
  qed
  then show ?thesis using False by (simp add: members_text_def)
qed

lemma lexed_as_comma: "lexed_as a ts \<Longrightarrow> lexed_as (CHR '','' # a) (JsonToken_new COMMA # ts)"
  by (rule lexed_as_structural) simp

lemma lexed_as_literals: "lexed_as ''null'' [nullToken]" "lexed_as ''true'' [booleanTrueToken]"
  "lexed_as ''false'' [booleanFalseToken]" "lexed_as (show_int i) [createNumberToken (show_int i)]"
  using token_written_literal token_show_int
  by (auto simp: lexed_as_def NULL_LITERAL_def BOOLEAN_TRUE_LITERAL_def BOOLEAN_FALSE_LITERAL_def)

lemma written_tokens:
  "writable fp v \<Longrightarrow> \<exists>a ts. writeJsonString fp v w = Some (w @ a) \<and> lexed_as a ts \<and> json_value fp ts (Some v)"
  "writable_elements fp vs \<Longrightarrow> \<exists>a ts. write_elements fp n vs w = Some (w @ a) \<and> lexed_as a ts \<and>
      (n > 0 \<longrightarrow> continues a) \<and> elements_text fp n ts vs"
  "writable_members fp kvs \<Longrightarrow> \<exists>a ts. write_members fp n kvs w = Some (w @ a) \<and> lexed_as a ts \<and>
      (n > 0 \<longrightarrow> continues a) \<and> members_text fp n ts kvs"
proof (induction fp v w and fp n vs w and fp n kvs w rule: writeJsonString_write_elements_write_members.induct)
  case (1 fp w)
  show ?case
    using lexed_as_literals(1) json_simple_written [of nullToken "[]" "[]" fp]
    by (auto simp: insertValue_def escape_literals simple_written(1))
next
  case (2 fp b w)
  show ?case
    using lexed_as_literals(2,3) json_simple_written [of booleanTrueToken "[]" "[]" fp] json_simple_written [of booleanFalseToken "[]" "[]" fp]
    by (cases b) (auto simp: insertValue_def escape_literals simple_written(2,3))
next
  case (3 fp s w)
  show ?case
    using lexed_as_string [of s] json_simple_written [of "createStringToken s" s "[]" fp]
    by (auto simp: insertStringValue_def simple_written(4))
next
  case (4 fp n w)
  then obtain l where n: "n = fromLong fp l" by auto
  have i: "mIsInteger n" "mLongValue n = l" by (simp_all add: n fromLong_def)
  have "json_value fp [createNumberToken (show_int (sint l))] (Some (JsonNumber n))"
    using json_simple_written [of "createNumberToken (show_int (sint l))" _ "show_int (sint l)" fp] n simple_written(5) [of fp l] by simp
  then show ?case
    using lexed_as_literals(4) [of "sint l"] i
    by (auto simp: number_writeJsonString_def insertValue_def escape_show_int)
next
  case (5 fp vs w)
  then obtain a ts where a: "write_elements fp 0 vs (openArray w) = Some (openArray w @ a)" "lexed_as a ts" "elements_text fp 0 ts vs"
    by auto
  have "lexed_as (CHR ''['' # a @ '']'') (JsonToken_new LEFT_SQUARE_BRACKET # ts @ [JsonToken_new RIGHT_SQUARE_BRACKET])"
    by (rule lexed_as_bracketed [OF _ _ a(2)]) simp_all
  moreover have "json_value fp (JsonToken_new LEFT_SQUARE_BRACKET # ts @ [JsonToken_new RIGHT_SQUARE_BRACKET]) (Some (JsonArrayValue vs))"
    using a(3) json_empty_array [of "JsonToken_new LEFT_SQUARE_BRACKET" "JsonToken_new RIGHT_SQUARE_BRACKET" fp]
      json_array [of "JsonToken_new LEFT_SQUARE_BRACKET" fp ts vs "JsonToken_new RIGHT_SQUARE_BRACKET"]
    by (auto simp: elements_text_def split: if_splits)
  ultimately show ?case using a(1) by (force simp: openArray_def closeArray_def)
next
  case (6 fp m w)
  then obtain a ts where a: "write_members fp 0 m (openObject w) = Some (openObject w @ a)" "lexed_as a ts" "members_text fp 0 ts m"
    by auto
  have "lexed_as (CHR ''{'' # a @ ''}'') (JsonToken_new LEFT_BRACE # ts @ [JsonToken_new RIGHT_BRACE])"
    by (rule lexed_as_bracketed [OF _ _ a(2)]) simp_all
  moreover have "object_of m [] = m" using "6.prems" object_of_distinct [of "[]" m] by simp
  then have "json_value fp (JsonToken_new LEFT_BRACE # ts @ [JsonToken_new RIGHT_BRACE]) (Some (JsonObjectValue m))"
    using a(3) json_empty_object [of "JsonToken_new LEFT_BRACE" "JsonToken_new RIGHT_BRACE" fp]
      json_object [of "JsonToken_new LEFT_BRACE" fp ts m "JsonToken_new RIGHT_BRACE"]
    by (auto simp: members_text_def split: if_splits)
  ultimately show ?case using a(1) by (force simp: openObject_def closeObject_def)
next
  case (7 fp n w)
  then show ?case by (auto simp: lexed_as_def continues_def elements_text_def intro!: exI [of _ "[]"])
next
  case (8 fp n vs w)
  then show ?case by simp
next
  case (9 fp n v vs w)
  let ?w = "if n > 0 then insertElementSeperator w else w"
  obtain a ts where a: "writeJsonString fp v ?w = Some (?w @ a)" "lexed_as a ts" "json_value fp ts (Some v)"
    using 9 by auto
  obtain b us where b: "write_elements fp (n + 1) vs (?w @ a) = Some ((?w @ a) @ b)" "lexed_as b us" "continues b"
    "elements_text fp (n + 1) us vs"
    using 9(2) [OF a(1)] 9(3) by auto
  let ?a = "if n > 0 then CHR '','' # a else a" and ?ts = "if n > 0 then JsonToken_new COMMA # ts else ts"
  have "lexed_as ?a ?ts" using a(2) lexed_as_comma by simp
  then have "lexed_as (?a @ b) (?ts @ us)" using b(2,3) lexed_as_append by metis
  moreover have "write_elements fp n (Some v # vs) w = Some (w @ ?a @ b)"
    using a(1) b(1) by (simp add: insertElementSeperator_def)
  moreover have "n > 0 \<longrightarrow> continues (?a @ b)" by (simp add: continues_def)
  ultimately show ?case using elements_text_Cons [OF a(3) b(4)] by metis
next
  case (10 fp n w)
  then show ?case by (auto simp: lexed_as_def continues_def members_text_def intro!: exI [of _ "[]"])
next
  case (11 fp n k m w)
  then show ?case by simp
next
  case (12 fp n k v m w)
  let ?w = "insertKeyValueSeperator (insertKey k (if n > 0 then insertElementSeperator w else w))"
  obtain a ts where a: "writeJsonString fp v ?w = Some (?w @ a)" "lexed_as a ts" "json_value fp ts (Some v)"
    using 12 by auto
  obtain b us where b: "write_members fp (n + 1) m (?w @ a) = Some ((?w @ a) @ b)" "lexed_as b us" "continues b"
    "members_text fp (n + 1) us m"
    using 12(2) [OF a(1)] 12(3) by auto
  let ?k = "quote # escapeString k @ quote # CHR '':'' # a"
  let ?kt = "createStringToken k # JsonToken_new COLON # ts"
  let ?a = "if n > 0 then CHR '','' # ?k else ?k" and ?ts = "if n > 0 then JsonToken_new COMMA # ?kt else ?kt"
  have "lexed_as (CHR '':'' # a) (JsonToken_new COLON # ts)" by (rule lexed_as_structural [OF _ a(2)]) simp
  then have "lexed_as ?k ?kt" by (rule lexed_as_key)
  then have "lexed_as ?a ?ts" using lexed_as_comma by simp
  then have "lexed_as (?a @ b) (?ts @ us)" using b(2,3) lexed_as_append by metis
  moreover have "write_members fp n ((k, Some v) # m) w = Some (w @ ?a @ b)"
    using a(1) b(1) by (simp add: insertElementSeperator_def insertKey_def insertKeyValueSeperator_def)
  moreover have "n > 0 \<longrightarrow> continues (?a @ b)" by (simp add: continues_def)
  moreover have "members_text fp n (?ts @ us) ((k, Some v) # m)"
    using members_text_Cons [OF a(3) _ b(4)] "12.prems" by simp
  ultimately show ?case by metis
qed

lemma written_value_parsed:
  assumes "writable fp v"
  shows "\<exists>s p. value_toString fp v = Some s \<and> parse fp (JsonParser_new s) = (Inr (Some v), p) \<and> mState p = PARSER_END"
proof -
  obtain a ts where a: "writeJsonString fp v [] = Some ([] @ a)" "lexed_as a ts" "json_value fp ts (Some v)"
    using written_tokens(1) [OF assms] by blast
  have "literal_ends []" by (simp add: literal_ends_def)
  then have l: "lexes_to a ts []" using a(2) by (metis append_Nil2 lexed_as_def)
  then obtain p where "parse fp (JsonParser_new a) = (Inr (Some v), p)" "mState p = PARSER_END"
    using parse_accepts [OF l _ a(3)] by auto
  then show ?thesis using a(1) by (simp add: value_toString_def)
qed

subsection \<open>Properties\<close>

text \<open>C19: Every value that holds no null pointers, no empty or repeated keys and no other numbers than
  64-bit integers can be written, and the parser reads from the text the same value. (The
  members of an object come in the order of the text; the iteration order of the code's map is
  not specified.)\<close>

theorem json_roundtrip:
  assumes "writable fp v"
  shows "\<exists>s p. value_toString fp v = Some s \<and> parse fp (JsonParser_new s) = (Inr (Some v), p) \<and> mState p = PARSER_END"
  using assms by (rule written_value_parsed)

lemma json_roundtrip_witness:
  "\<forall>fp :: int double_ops. \<exists>s p. value_toString fp (JsonObjectValue [(''a'', Some (JsonArrayValue [Some (JsonNumber (fromLong fp (-7))), Some JsonNullValue])),
      (''b'', Some (JsonStringValue [CHR 0x0A, CHR 0x22]))]) = Some s \<and>
    parse fp (JsonParser_new s) = (Inr (Some (JsonObjectValue [(''a'', Some (JsonArrayValue [Some (JsonNumber (fromLong fp (-7))), Some JsonNullValue])),
      (''b'', Some (JsonStringValue [CHR 0x0A, CHR 0x22]))])), p) \<and> mState p = PARSER_END"
  by (rule allI, rule json_roundtrip) (simp add: fromLong_def)

text \<open>An object with an empty key, which JSON allows, is not parsed: the parser throws its
  internal error that no key is set, and does not go to its error state.\<close>

theorem empty_key_rejected:
  assumes "writable fp v" and "value_toString fp v = Some txt"
  shows "\<exists>p. parse fp (JsonParser_new (CHR ''{'' # quote # quote # CHR '':'' # txt @ ''}'')) =
      (Inl (JsonParserException (internalParserErrorMessage IN_OBJECT_VALUE ''mLastParsedObjectKey is not set'')), p) \<and>
    mState p = IN_OBJECT_VALUE"
proof -
  let ?s = "CHR ''{'' # quote # quote # CHR '':'' # txt @ ''}''"
  let ?p = "JsonParser_new ?s :: 'a JsonParser"
  let ?lb = "JsonToken_new LEFT_BRACE" and ?k = "createStringToken []" and ?c = "JsonToken_new COLON"
  obtain ts where a: "lexed_as txt ts" "json_value fp ts (Some v)"
    using written_tokens(1) [OF assms(1), of "[]"] assms(2) by (auto simp: value_toString_def)
  have "lexes_to (txt @ ''}'') ts ''}''"
    using a(1) literal_ends_structural [of "CHR ''}''" "[]"] by (simp add: lexed_as_def)
  moreover have "token_at ?s ?lb (quote # quote # CHR '':'' # txt @ ''}'')" by (rule token_at_structural) simp
  moreover have "token_at (quote # quote # CHR '':'' # txt @ ''}'') ?k (CHR '':'' # txt @ ''}'')"
    using token_string [OF escaped_body, of "[]"] by (simp add: escapeString_def quote_def)
  moreover have "token_at (CHR '':'' # txt @ ''}'') ?c (txt @ ''}'')" by (rule token_at_structural) simp
  ultimately have lexes: "lexes_to ?s (?lb # ?k # ?c # ts) ''}''" unfolding lexes_to.simps by blast
  let ?new = "JsonValueContainer_new (BackingMap []) :: 'a JsonValueContainer"
  let ?cont = "?new\<lparr>mLastParsedObjectKey := []\<rparr>"
  have b: "mBacking ?new = BackingMap []" "mBacking ?cont = BackingMap []" by (simp_all add: JsonValueContainer_new_def)
  have vp: "value_place ?p" by (simp add: value_place_def JsonParser_new_def)
  obtain r where r: "feed fp ts (opened IN_OBJECT_COLON ?cont ?p) = (Inr (), r)" "behind_value (Some v) (opened IN_OBJECT_COLON ?cont ?p) r"
    using feed_json(1) [OF a(2)] value_place_opened(2) [OF vp b(2)] by blast
  let ?q = "opened IN_OBJECT_VALUE (?cont\<lparr>mLastParsedObjectValue := Some v\<rparr>) ?p"
  have "r = ?q" by (rule behind_value_opened(2) [OF b(2) r(2)])
  moreover have "feed fp (?lb # ?k # ?c # ts) ?p = feed fp (?k # ?c # ts) (opened IN_OBJECT_START ?new ?p)"
    by (rule feed_step [OF open_object [OF vp]]) simp
  moreover have "feed fp (?k # ?c # ts) (opened IN_OBJECT_START ?new ?p) = feed fp (?c # ts) (opened IN_OBJECT_KEY ?cont ?p)"
    using feed_step [OF object_tokens(1) [OF b(1), of ?k IN_OBJECT_START fp ?p], of "?c # ts"] by (simp add: json_string_key)
  moreover have "feed fp (?c # ts) (opened IN_OBJECT_KEY ?cont ?p) = feed fp ts (opened IN_OBJECT_COLON ?cont ?p)"
    by (rule feed_step [OF object_tokens(2) [OF b(2)]]) simp
  ultimately have fed: "feed fp (?lb # ?k # ?c # ts) ?p = (Inr (), ?q)" using r(1) by simp
  have "lexer_at (mLexer ?p) ?s" by (simp add: JsonParser_new_def)
  then obtain l where l: "doParse_loop fp ?p = doParse_loop fp (?q\<lparr>mLexer := l\<rparr>)" "lexer_at l ''}''"
    using doParse_loop_feed [OF _ lexes fed] by blast
  have "token_at ''}'' (JsonToken_new RIGHT_BRACE) []" by (rule token_at_structural) simp
  then obtain m where m: "nextToken l = (Inr (Some (JsonToken_new RIGHT_BRACE)), m)" using l(2) unfolding token_at_def by blast
  have "parse_token fp (Some (JsonToken_new RIGHT_BRACE)) (?q\<lparr>mLexer := m\<rparr>) =
      (Inl (JsonParserException (internalParserErrorMessage IN_OBJECT_VALUE ''mLastParsedObjectKey is not set'')), ?q\<lparr>mLexer := m\<rparr>)"
    using b by (simp add: parser_simps parseInObjectValueState_def opened_def)
  then have "doParse_loop fp ?p =
      (Inl (JsonParserException (internalParserErrorMessage IN_OBJECT_VALUE ''mLastParsedObjectKey is not set'')), ?q\<lparr>mLexer := m\<rparr>)"
    unfolding l(1) using m by (subst doParse_loop.simps) simp
  moreover have "mState ?p = INIT" by (simp add: JsonParser_new_def)
  ultimately show ?thesis by (simp add: parse_def doParse_def op_bind_def opened_def)
qed

lemma empty_key_rejected_witness:
  "\<forall>fp :: int double_ops. \<exists>p. parse fp (JsonParser_new (CHR ''{'' # quote # quote # CHR '':'' # ''true'' @ ''}'')) =
      (Inl (JsonParserException (internalParserErrorMessage IN_OBJECT_VALUE ''mLastParsedObjectKey is not set'')), p) \<and>
    mState p = IN_OBJECT_VALUE"
proof
  fix fp :: "int double_ops"
  have w: "writable fp (JsonBooleanValue True)" by simp
  have t: "value_toString fp (JsonBooleanValue True) = Some ''true''"
    by (simp add: value_toString_def insertValue_def escape_literals)
  show "\<exists>p. parse fp (JsonParser_new (CHR ''{'' # quote # quote # CHR '':'' # ''true'' @ ''}'')) =
      (Inl (JsonParserException (internalParserErrorMessage IN_OBJECT_VALUE ''mLastParsedObjectKey is not set'')), p) \<and>
    mState p = IN_OBJECT_VALUE"
    by (rule empty_key_rejected [OF w t])
qed

text \<open>An integer literal is parsed to its value when it fits 64 bits; otherwise the parse ends
  regularly and returns a null pointer.\<close>

theorem integer_text_parsed:
  "\<exists>p. parse fp (JsonParser_new (show_int i)) =
     (Inr (if - (2 ^ 63) \<le> i \<and> i < 2 ^ 63 then Some (JsonNumber (fromLong fp (word_of_int i))) else None), p) \<and> mState p = PARSER_END"
proof -
  let ?t = "createNumberToken (show_int i)"
  have v: "simple_value fp ?t = (if - (2 ^ 63) \<le> i \<and> i < 2 ^ 63 then Some (JsonNumber (fromLong fp (word_of_int i))) else None)"
    by (simp add: simple_value_def createNumberToken_def fromNumberLiteral_int)
  have "literal_ends []" by (simp add: literal_ends_def)
  then have "lexes_to (show_int i) [?t] []"
    using lexed_as_literals(4) [of i] unfolding lexed_as_def by fastforce
  moreover have "json_value fp [?t] (simple_value fp ?t)" by (rule json_simple_written [of _ "[]" "show_int i"]) simp
  ultimately show ?thesis using parse_accepts [of "show_int i" "[?t]" "[]" fp "simple_value fp ?t"] v by auto
qed

end
