(* ===== verification/Http_Headers.thy ===== *)
theory Http_Headers
  imports Containers
begin

text \<open>
  HTTP header names and the header collection (src/protocol/http/HttpHeaderUtil.cxx,
  HttpHeaderCollection.cxx, HttpRequest.cxx, HttpResponse.cxx). Names are compared and
  hashed without regard to case; the collection is an unordered map over them.
\<close>

unbundle bit_operations_syntax

subsection \<open>Header names\<close>

definition FNV_OFFSET_BASIS :: "64 word" where
  "FNV_OFFSET_BASIS = 0xcbf29ce484222325"

definition FNV_PRIME :: "64 word" where
  "FNV_PRIME = 0x100000001b3"

text \<open>A \<^verbatim>\<open>char\<close> is signed: it is extended with its sign before the exclusive or.\<close>

definition HeaderNameHasher :: "string \<Rightarrow> 64 word" where
  "HeaderNameHasher name =
     fold (\<lambda>c hash. (hash XOR scast (of_char (std_tolower c) :: 8 word)) * FNV_PRIME) name FNV_OFFSET_BASIS"

definition HeaderNameEqualityComparer :: "string \<Rightarrow> string \<Rightarrow> bool" where
  "HeaderNameEqualityComparer lhs rhs \<longleftrightarrow>
     length lhs = length rhs \<and>
     list_all2 (\<lambda>c1 c2. c1 = c2 \<or> std_tolower c1 = std_tolower c2) lhs rhs"

lemma header_name_eq_iff: "HeaderNameEqualityComparer a b \<longleftrightarrow> map std_tolower a = map std_tolower b"
  by (auto simp: HeaderNameEqualityComparer_def list_all2_conv_all_nth list_eq_iff_nth_eq)

lemma hash_lower: "HeaderNameHasher name =
  fold (\<lambda>c hash. (hash XOR scast (of_char c :: 8 word)) * FNV_PRIME) (map std_tolower name) FNV_OFFSET_BASIS"
  by (simp add: HeaderNameHasher_def fold_map comp_def)

interpretation header_name: hashed_key HeaderNameEqualityComparer HeaderNameHasher
  by unfold_locales (simp_all add: header_name_eq_iff hash_lower)

subsection \<open>The collection\<close>

type_synonym HttpHeaderCollection = "(string, string list) unordered_map"

definition headers_getHeaderNames :: "HttpHeaderCollection \<Rightarrow> string list" where
  "headers_getHeaderNames m = map fst m"

definition headers_contains :: "string \<Rightarrow> HttpHeaderCollection \<Rightarrow> bool" where
  "headers_contains name m \<longleftrightarrow> um_find HeaderNameEqualityComparer name m \<noteq> None"

definition headers_getHeader :: "string \<Rightarrow> HttpHeaderCollection \<Rightarrow> cpp_exception + string list" where
  "headers_getHeader name m =
     (case um_find HeaderNameEqualityComparer name m of
        None \<Rightarrow> Inl (InvalidArgument (''Header '' @ [CHR 0x22] @ name @ [CHR 0x22] @ '' not found''))
      | Some values \<Rightarrow> Inr values)"

definition headers_setHeader :: "string \<Rightarrow> string \<Rightarrow> HttpHeaderCollection \<Rightarrow> HttpHeaderCollection" where
  "headers_setHeader name value m =
     um_insert HeaderNameEqualityComparer name [value] (um_erase HeaderNameEqualityComparer name m)"

definition headers_appendHeader :: "string \<Rightarrow> string \<Rightarrow> HttpHeaderCollection \<Rightarrow> HttpHeaderCollection" where
  "headers_appendHeader name value m =
     (if um_find HeaderNameEqualityComparer name m \<noteq> None
      then um_modify HeaderNameEqualityComparer name (\<lambda>values. values @ [value]) m
      else um_insert HeaderNameEqualityComparer name [value] m)"

definition headers_empty :: "HttpHeaderCollection \<Rightarrow> bool" where
  "headers_empty m \<longleftrightarrow> m = []"

definition headers_clear :: "HttpHeaderCollection \<Rightarrow> HttpHeaderCollection" where
  "headers_clear m = []"

lemma find_setHeader:
  "um_find HeaderNameEqualityComparer n (headers_setHeader name value m) =
    (if HeaderNameEqualityComparer name n then Some [value] else um_find HeaderNameEqualityComparer n m)"
  by (auto simp: headers_setHeader_def header_name.find_insert header_name.find_erase split: option.splits)

lemma find_appendHeader:
  "um_find HeaderNameEqualityComparer n (headers_appendHeader name value m) =
    (if HeaderNameEqualityComparer name n
     then Some ((case um_find HeaderNameEqualityComparer n m of None \<Rightarrow> [] | Some vs \<Rightarrow> vs) @ [value])
     else um_find HeaderNameEqualityComparer n m)"
  using header_name.find_cong [of name n m]
  by (auto simp: headers_appendHeader_def header_name.find_insert header_name.find_modify
      split: option.splits)

lemma headers_distinct:
  "um_distinct HeaderNameEqualityComparer m \<Longrightarrow>
    um_distinct HeaderNameEqualityComparer (headers_setHeader name value m)"
  "um_distinct HeaderNameEqualityComparer m \<Longrightarrow>
    um_distinct HeaderNameEqualityComparer (headers_appendHeader name value m)"
  by (auto simp: headers_setHeader_def headers_appendHeader_def header_name.distinct_insert
      header_name.distinct_erase um_modify_distinct)

subsection \<open>Requests and responses\<close>

record HttpRequest =
  mUri :: string
  mMethod :: string
  mHeaders :: HttpHeaderCollection

definition RESTRICTED_HEADERS :: "string list" where
  "RESTRICTED_HEADERS =
    [''Access-Control-Request-Headers'', ''Access-Control-Request-Method'', ''Connection'',
     ''Content-Length'', ''Content-Transfer-Encoding'', ''Host'', ''Keep-Alive'', ''Origin'',
     ''Trailer'', ''Transfer-Encoding'', ''Upgrade'', ''Via'']"

definition HttpRequest_new :: "string \<Rightarrow> string \<Rightarrow> HttpRequest" where
  "HttpRequest_new uri method_name = \<lparr>mUri = uri, mMethod = method_name, mHeaders = []\<rparr>"

definition isHeaderRestricted :: "string \<Rightarrow> bool" where
  "isHeaderRestricted name \<longleftrightarrow> list_ex (\<lambda>h. HeaderNameEqualityComparer h name) RESTRICTED_HEADERS"

definition request_containsHeader :: "string \<Rightarrow> HttpRequest \<Rightarrow> bool" where
  "request_containsHeader name r \<longleftrightarrow> headers_contains name (mHeaders r)"

text \<open>\<open>front\<close> of an empty value list would be undefined; the collection never holds one.\<close>

definition request_getHeader :: "string \<Rightarrow> HttpRequest \<Rightarrow> cpp_exception + string" where
  "request_getHeader name r =
     (if \<not> request_containsHeader name r then Inr []
      else map_sum id hd (headers_getHeader name (mHeaders r)))"

definition request_setHeader :: "string \<Rightarrow> string \<Rightarrow> HttpRequest \<Rightarrow> HttpRequest" where
  "request_setHeader name value r =
     (if isHeaderRestricted name then r
      else r\<lparr>mHeaders := headers_setHeader name value (mHeaders r)\<rparr>)"

record HttpResponse =
  mRequestUri :: string
  mRequestMethod :: string
  mStatusCode :: int32
  mReasonPhrase :: string
  mResponseHeaders :: HttpHeaderCollection
  mResponseBody :: string

definition response_getHeader :: "string \<Rightarrow> HttpResponse \<Rightarrow> cpp_exception + string list" where
  "response_getHeader name r =
     (if \<not> headers_contains name (mResponseHeaders r) then Inr []
      else headers_getHeader name (mResponseHeaders r))"

text \<open>What a sequence of \<open>setHeader\<close> calls of an interceptor leaves for a name.\<close>

lemma restricted_cong: "HeaderNameEqualityComparer a b \<Longrightarrow> isHeaderRestricted a = isHeaderRestricted b"
  using header_name.keq_cong by (simp add: isHeaderRestricted_def list_ex_iff)

lemma find_request_setHeader:
  "um_find HeaderNameEqualityComparer n (mHeaders (request_setHeader name value r)) =
    (if HeaderNameEqualityComparer name n \<and> \<not> isHeaderRestricted n then Some [value]
     else um_find HeaderNameEqualityComparer n (mHeaders r))"
  using restricted_cong [of name n] by (auto simp: request_setHeader_def find_setHeader)

lemma find_request_setHeaders:
  "um_find HeaderNameEqualityComparer n
     (mHeaders (fold (\<lambda>nv. request_setHeader (fst nv) (snd nv)) nvs r)) =
    (if isHeaderRestricted n then um_find HeaderNameEqualityComparer n (mHeaders r)
     else case find (\<lambda>nv. HeaderNameEqualityComparer (fst nv) n) (rev nvs) of
       None \<Rightarrow> um_find HeaderNameEqualityComparer n (mHeaders r) | Some nv \<Rightarrow> Some [snd nv])"
proof (induction nvs rule: rev_induct)
  case (snoc nv nvs)
  then show ?case by (auto simp: find_request_setHeader)
qed simp

text \<open>Whatever headers an interceptor sets on a request, in whatever case, a name that the
  SDK reserves stays unset, and any other name reads as the value it was last set to,
  or as the empty string when it was never set.\<close>

theorem request_headers_set:
  "request_getHeader n (fold (\<lambda>nv. request_setHeader (fst nv) (snd nv)) nvs (HttpRequest_new uri meth)) =
    Inr (if isHeaderRestricted n then []
         else case find (\<lambda>nv. HeaderNameEqualityComparer (fst nv) n) (rev nvs) of
           None \<Rightarrow> [] | Some nv \<Rightarrow> snd nv)"
  using find_request_setHeaders [of n nvs "HttpRequest_new uri meth"]
  by (auto simp: request_getHeader_def request_containsHeader_def headers_contains_def
      headers_getHeader_def HttpRequest_new_def split: option.splits)

end
