(* ===== verification/Response_Parsing.thy ===== *)
theory Response_Parsing
  imports Response_Attributes Json_Text Http_Headers Url_Encoding
begin

text \<open>
  Reading the responses of the server: \<^verbatim>\<open>JsonResponseParser\<close>, \<^verbatim>\<open>KeyValueResponseParser\<close>, the
  choice between them in \<^verbatim>\<open>ResponseParser\<close>, and \<^verbatim>\<open>StatusResponse\<close> (src/protocol/*.cxx). The
  products of an \<^verbatim>\<open>int32_t\<close> with a unit wrap around at 32 bits.
\<close>

subsection \<open>Responses in JSON\<close>

text \<open>The casts of the code: a null pointer unless the value is of the kind wanted.\<close>

definition cast_object :: "'d JsonValue option \<Rightarrow> 'd JsonObjectMap option" where
  "cast_object v = (case v of Some (JsonObjectValue m) \<Rightarrow> Some m | _ \<Rightarrow> None)"

definition cast_string :: "'d JsonValue option \<Rightarrow> string option" where
  "cast_string v = (case v of Some (JsonStringValue s) \<Rightarrow> Some s | _ \<Rightarrow> None)"

definition cast_number :: "'d JsonValue option \<Rightarrow> 'd JsonNumberValue option" where
  "cast_number v = (case v of Some (JsonNumber n) \<Rightarrow> Some n | _ \<Rightarrow> None)"

definition getJsonObjectFrom :: "'d JsonObjectMap \<Rightarrow> string \<Rightarrow> 'd JsonObjectMap option" where
  "getJsonObjectFrom jsonObject key = (case object_find key jsonObject of None \<Rightarrow> None | Some v \<Rightarrow> cast_object v)"

definition getJsonStringFrom :: "'d JsonObjectMap \<Rightarrow> string \<Rightarrow> string option" where
  "getJsonStringFrom jsonObject key = (case object_find key jsonObject of None \<Rightarrow> None | Some v \<Rightarrow> cast_string v)"

definition getJsonNumberFrom :: "'d JsonObjectMap \<Rightarrow> string \<Rightarrow> 'd JsonNumberValue option" where
  "getJsonNumberFrom jsonObject key = (case object_find key jsonObject of None \<Rightarrow> None | Some v \<Rightarrow> cast_number v)"

subsubsection \<open>Agent configuration\<close>

definition json_applyBeaconSizeInKb :: "'d JsonObjectMap \<Rightarrow> Builder \<Rightarrow> Builder" where
  "json_applyBeaconSizeInKb agentConfigObject b = (case getJsonNumberFrom agentConfigObject ''maxBeaconSizeKb'' of
      None \<Rightarrow> b
    | Some numberValue \<Rightarrow> withMaxBeaconSizeInBytes (getInt32Value numberValue * 1024) b)"

definition json_applyMaxSessionDurationInMin :: "'d JsonObjectMap \<Rightarrow> Builder \<Rightarrow> Builder" where
  "json_applyMaxSessionDurationInMin agentConfigObject b = (case getJsonNumberFrom agentConfigObject ''maxSessionDurationMins'' of
      None \<Rightarrow> b
    | Some numberValue \<Rightarrow> withMaxSessionDurationInMilliseconds (getInt32Value numberValue * 60 * 1000) b)"

definition json_applyMaxEventsPerSession :: "'d JsonObjectMap \<Rightarrow> Builder \<Rightarrow> Builder" where
  "json_applyMaxEventsPerSession agentConfigObject b = (case getJsonNumberFrom agentConfigObject ''maxEventsPerSession'' of
      None \<Rightarrow> b
    | Some numberValue \<Rightarrow> withMaxEventsPerSession (getInt32Value numberValue) b)"

definition json_applySessionTimeoutInSec :: "'d JsonObjectMap \<Rightarrow> Builder \<Rightarrow> Builder" where
  "json_applySessionTimeoutInSec agentConfigObject b = (case getJsonNumberFrom agentConfigObject ''sessionTimeoutSec'' of
      None \<Rightarrow> b
    | Some numberValue \<Rightarrow> withSessionTimeoutInMilliseconds (getInt32Value numberValue * 1000) b)"

definition json_applySendIntervalInSec :: "'d JsonObjectMap \<Rightarrow> Builder \<Rightarrow> Builder" where
  "json_applySendIntervalInSec agentConfigObject b = (case getJsonNumberFrom agentConfigObject ''sendIntervalSec'' of
      None \<Rightarrow> b
    | Some numberValue \<Rightarrow> withSendIntervalInMilliseconds (getInt32Value numberValue * 1000) b)"

definition json_applyVisitStoreVersion :: "'d JsonObjectMap \<Rightarrow> Builder \<Rightarrow> Builder" where
  "json_applyVisitStoreVersion agentConfigObject b = (case getJsonNumberFrom agentConfigObject ''visitStoreVersion'' of
      None \<Rightarrow> b
    | Some numberValue \<Rightarrow> withVisitStoreVersion (getInt32Value numberValue) b)"

definition applyAgentConfiguration :: "'d JsonObjectMap \<Rightarrow> Builder \<Rightarrow> Builder" where
  "applyAgentConfiguration rootObject b = (case getJsonObjectFrom rootObject ''mobileAgentConfig'' of
      None \<Rightarrow> b
    | Some agentConfigObject \<Rightarrow>
        (let b = json_applyBeaconSizeInKb agentConfigObject b;
             b = json_applyMaxSessionDurationInMin agentConfigObject b;
             b = json_applyMaxEventsPerSession agentConfigObject b;
             b = json_applySessionTimeoutInSec agentConfigObject b;
             b = json_applySendIntervalInSec agentConfigObject b;
             b = json_applyVisitStoreVersion agentConfigObject b
         in b))"

subsubsection \<open>Application configuration\<close>

definition json_applyCapture :: "'d JsonObjectMap \<Rightarrow> Builder \<Rightarrow> Builder" where
  "json_applyCapture appConfigObject b = (case getJsonNumberFrom appConfigObject ''capture'' of
      None \<Rightarrow> b
    | Some numberValue \<Rightarrow> withCapture (getInt32Value numberValue = 1) b)"

definition json_applyReportCrashes :: "'d JsonObjectMap \<Rightarrow> Builder \<Rightarrow> Builder" where
  "json_applyReportCrashes appConfigObject b = (case getJsonNumberFrom appConfigObject ''reportCrashes'' of
      None \<Rightarrow> b
    | Some numberValue \<Rightarrow> withCaptureCrashes (getInt32Value numberValue \<noteq> 0) b)"

definition json_applyReportErrors :: "'d JsonObjectMap \<Rightarrow> Builder \<Rightarrow> Builder" where
  "json_applyReportErrors appConfigObject b = (case getJsonNumberFrom appConfigObject ''reportErrors'' of
      None \<Rightarrow> b
    | Some numberValue \<Rightarrow> withCaptureErrors (getInt32Value numberValue \<noteq> 0) b)"

definition json_applyTrafficControlPercentage :: "'d JsonObjectMap \<Rightarrow> Builder \<Rightarrow> Builder" where
  "json_applyTrafficControlPercentage appConfigObject b = (case getJsonNumberFrom appConfigObject ''trafficControlPercentage'' of
      None \<Rightarrow> b
    | Some numberValue \<Rightarrow> withTrafficControlPercentage (getInt32Value numberValue) b)"

definition json_applyApplicationId :: "'d JsonObjectMap \<Rightarrow> Builder \<Rightarrow> Builder" where
  "json_applyApplicationId appConfigObject b = (case getJsonStringFrom appConfigObject ''applicationId'' of
      None \<Rightarrow> b
    | Some applicationId \<Rightarrow> withApplicationId (UTF8String_of applicationId) b)"

definition applyApplicationConfiguration :: "'d JsonObjectMap \<Rightarrow> Builder \<Rightarrow> Builder" where
  "applyApplicationConfiguration rootObject b = (case getJsonObjectFrom rootObject ''appConfig'' of
      None \<Rightarrow> b
    | Some appConfigObject \<Rightarrow>
        (let b = json_applyCapture appConfigObject b;
             b = json_applyReportCrashes appConfigObject b;
             b = json_applyReportErrors appConfigObject b;
             b = json_applyTrafficControlPercentage appConfigObject b;
             b = json_applyApplicationId appConfigObject b
         in b))"

subsubsection \<open>Dynamic configuration\<close>

definition json_applyMultiplicity :: "'d JsonObjectMap \<Rightarrow> Builder \<Rightarrow> Builder" where
  "json_applyMultiplicity dynConfigObject b = (case getJsonNumberFrom dynConfigObject ''multiplicity'' of
      None \<Rightarrow> b
    | Some numberValue \<Rightarrow> withMultiplicity (getInt32Value numberValue) b)"

definition json_applyServerId :: "'d JsonObjectMap \<Rightarrow> Builder \<Rightarrow> Builder" where
  "json_applyServerId dynConfigObject b = (case getJsonNumberFrom dynConfigObject ''serverId'' of
      None \<Rightarrow> b
    | Some numberValue \<Rightarrow> withServerId (getInt32Value numberValue) b)"

definition json_applyStatus :: "'d JsonObjectMap \<Rightarrow> Builder \<Rightarrow> Builder" where
  "json_applyStatus dynConfigObject b = (case getJsonStringFrom dynConfigObject ''status'' of
      None \<Rightarrow> b
    | Some status \<Rightarrow> withStatus (UTF8String_of status) b)"

definition applyDynamicConfiguration :: "'d JsonObjectMap \<Rightarrow> Builder \<Rightarrow> Builder" where
  "applyDynamicConfiguration rootObject b = (case getJsonObjectFrom rootObject ''dynamicConfig'' of
      None \<Rightarrow> b
    | Some dynConfigObject \<Rightarrow>
        (let b = json_applyMultiplicity dynConfigObject b;
             b = json_applyServerId dynConfigObject b;
             b = json_applyStatus dynConfigObject b
         in b))"

definition applyRootAttributes :: "'d JsonObjectMap \<Rightarrow> Builder \<Rightarrow> Builder" where
  "applyRootAttributes rootObject b = (case getJsonNumberFrom rootObject ''timestamp'' of
      None \<Rightarrow> b
    | Some numberValue \<Rightarrow> withTimestampInMilliseconds (getLongValue numberValue) b)"

text \<open>
  The object of the root is not checked: for a value of another kind the first lookup
  dereferences a null pointer.
\<close>

definition attributes_of_root :: "'d JsonObjectMap \<Rightarrow> ResponseAttributes" where
  "attributes_of_root rootObject =
     (let b = withJsonDefaults;
          b = applyAgentConfiguration rootObject b;
          b = applyApplicationConfiguration rootObject b;
          b = applyDynamicConfiguration rootObject b;
          b = applyRootAttributes rootObject b
      in build b)"

definition JsonResponseParser_parse :: "'d double_ops \<Rightarrow> UTF8String \<Rightarrow> cpp_exception + ResponseAttributes" where
  "JsonResponseParser_parse fp jsonResponse =
     (case fst (parse fp (JsonParser_new (mData jsonResponse))) of
        Inl e \<Rightarrow> Inl e
      | Inr parsedValue \<Rightarrow>
          (case cast_object parsedValue of
             None \<Rightarrow> Inl (UndefinedBehaviour ''null pointer dereferenced'')
           | Some rootObject \<Rightarrow> Inr (attributes_of_root rootObject)))"

subsection \<open>Responses as key-value pairs\<close>

text \<open>\<open>insert\<close> keeps the first value of a key. A part without a separator, and an empty key or value, is skipped.\<close>

definition keyValue_part :: "UTF8String \<Rightarrow> (string, string) unordered_map \<Rightarrow> cpp_exception + (string, string) unordered_map" where
  "keyValue_part part keyValuePairs =
     (case getIndexOf part ''='' 0 of
        Inl found \<Rightarrow> Inl (UndefinedBehaviour ''read behind the end of a string'')
      | Inr found \<Rightarrow>
          if found = npos then Inr keyValuePairs
          else
            (let key = substring part 0 found;
                 val = substring part (found + 1) npos in
             if utf8_isEmpty key \<or> utf8_isEmpty val then Inr keyValuePairs
             else Inr (um_insert (=) (mData key) (mData val) keyValuePairs)))"

fun keyValue_parts :: "UTF8String list \<Rightarrow> (string, string) unordered_map \<Rightarrow> cpp_exception + (string, string) unordered_map" where
  "keyValue_parts [] m = Inr m"
| "keyValue_parts (part # parts) m =
     (case keyValue_part part m of Inl e \<Rightarrow> Inl e | Inr m' \<Rightarrow> keyValue_parts parts m')"

type_synonym kv_apply = "(string, string) unordered_map \<Rightarrow> Builder \<Rightarrow> cpp_exception + Builder"

definition kv_number :: "string \<Rightarrow> (int32 \<Rightarrow> Builder \<Rightarrow> Builder) \<Rightarrow> kv_apply" where
  "kv_number key f keyValuePairs b =
     (case um_find (=) key keyValuePairs of
        None \<Rightarrow> Inr b
      | Some entry \<Rightarrow> (case std_stoi entry of Inl e \<Rightarrow> Inl e | Inr n \<Rightarrow> Inr (f n b)))"

definition kv_applyBeaconSizeInKb :: kv_apply where
  "kv_applyBeaconSizeInKb = kv_number ''bl'' (\<lambda>n. withMaxBeaconSizeInBytes (n * 1024))"

definition kv_applySendIntervalInSec :: kv_apply where
  "kv_applySendIntervalInSec = kv_number ''si'' (\<lambda>n. withSendIntervalInMilliseconds (n * 1000))"

definition kv_applyCapture :: kv_apply where
  "kv_applyCapture = kv_number ''cp'' (\<lambda>n. withCapture (n = 1))"

definition kv_applyReportCrashes :: kv_apply where
  "kv_applyReportCrashes = kv_number ''cr'' (\<lambda>n. withCaptureCrashes (n \<noteq> 0))"

definition kv_applyReportErrors :: kv_apply where
  "kv_applyReportErrors = kv_number ''er'' (\<lambda>n. withCaptureErrors (n \<noteq> 0))"

definition kv_applyTrafficControlPercentage :: kv_apply where
  "kv_applyTrafficControlPercentage = kv_number ''tc'' (\<lambda>n. withTrafficControlPercentage n)"

definition kv_applyServerId :: kv_apply where
  "kv_applyServerId = kv_number ''id'' (\<lambda>n. withServerId n)"

definition kv_applyMultiplicity :: kv_apply where
  "kv_applyMultiplicity = kv_number ''mp'' (\<lambda>n. withMultiplicity n)"

text \<open>The functions run in this order; the first exception ends the parse.\<close>

fun kv_apply_all :: "kv_apply list \<Rightarrow> kv_apply" where
  "kv_apply_all [] m b = Inr b"
| "kv_apply_all (f # fs) m b = (case f m b of Inl e \<Rightarrow> Inl e | Inr b' \<Rightarrow> kv_apply_all fs m b')"

definition KeyValueResponseParser_parse :: "UTF8String \<Rightarrow> cpp_exception + ResponseAttributes" where
  "KeyValueResponseParser_parse keyValuePairResponse =
     (case keyValue_parts (split keyValuePairResponse CHR ''&'') [] of
        Inl e \<Rightarrow> Inl e
      | Inr keyValuePairs \<Rightarrow>
          (case kv_apply_all [kv_applyBeaconSizeInKb, kv_applySendIntervalInSec, kv_applyCapture, kv_applyReportCrashes,
               kv_applyReportErrors, kv_applyTrafficControlPercentage, kv_applyServerId, kv_applyMultiplicity]
             keyValuePairs withKeyValueDefaults of
             Inl e \<Rightarrow> Inl e
           | Inr b \<Rightarrow> Inr (build b)))"

subsection \<open>The choice of the parser\<close>

definition isKeyValuePairResponse :: "UTF8String \<Rightarrow> bool" where
  "isKeyValuePairResponse responseString \<longleftrightarrow>
     (let response = mData responseString in
      response = ''type=m'' \<or> take (length ''type=m&'') response = ''type=m&'')"

definition parseResponse :: "'d double_ops \<Rightarrow> UTF8String \<Rightarrow> cpp_exception + ResponseAttributes" where
  "parseResponse fp responseString =
     (if isKeyValuePairResponse responseString then KeyValueResponseParser_parse responseString
      else JsonResponseParser_parse fp responseString)"

subsection \<open>Status responses\<close>

record StatusResponse =
  mResponseAttributes :: ResponseAttributes
  mResponseCode :: int32
  mResponseHeaders :: HttpHeaderCollection

definition createSuccessResponse :: "ResponseAttributes \<Rightarrow> int32 \<Rightarrow> HttpHeaderCollection \<Rightarrow> StatusResponse" where
  "createSuccessResponse responseAttributes responseCode responseHeaders =
     \<lparr>mResponseAttributes = responseAttributes, mResponseCode = responseCode, mResponseHeaders = responseHeaders\<rparr>"

definition createErrorResponse :: "int32 \<Rightarrow> HttpHeaderCollection \<Rightarrow> StatusResponse" where
  "createErrorResponse responseCode responseHeaders =
     \<lparr>mResponseAttributes = build withUndefinedDefaults, mResponseCode = responseCode, mResponseHeaders = responseHeaders\<rparr>"

definition RESPONSE_STATUS_ERROR :: UTF8String where
  "RESPONSE_STATUS_ERROR = UTF8String_of ''ERROR''"

definition isErroneousResponse :: "StatusResponse \<Rightarrow> bool" where
  "isErroneousResponse r \<longleftrightarrow> 400 \<le> sint (mResponseCode r) \<or>
     (isAttributeSet STATUS (mResponseAttributes r) \<and> equals (mStatus (mResponseAttributes r)) RESPONSE_STATUS_ERROR)"

definition isTooManyRequestsResponse :: "StatusResponse \<Rightarrow> bool" where
  "isTooManyRequestsResponse r \<longleftrightarrow> mResponseCode r = 429"

definition DEFAULT_RETRY_AFTER_IN_MILLISECONDS :: int64 where
  "DEFAULT_RETRY_AFTER_IN_MILLISECONDS = 10 * 60 * 1000"

text \<open>The list of values of the header is read only when the header is there, so \<open>getHeader\<close> does not throw.\<close>

definition getRetryAfterInMilliseconds :: "StatusResponse \<Rightarrow> int64" where
  "getRetryAfterInMilliseconds r =
     (if \<not> headers_contains ''retry-after'' (mResponseHeaders r) then DEFAULT_RETRY_AFTER_IN_MILLISECONDS
      else
        (case headers_getHeader ''retry-after'' (mResponseHeaders r) of
           Inr [stringValue] \<Rightarrow>
             (case std_stoi stringValue of
                Inl e \<Rightarrow> DEFAULT_RETRY_AFTER_IN_MILLISECONDS
              | Inr delaySeconds \<Rightarrow> scast delaySeconds * 1000)
         | _ \<Rightarrow> DEFAULT_RETRY_AFTER_IN_MILLISECONDS))"

subsection \<open>The attributes of a JSON response\<close>

text \<open>Every function writes its attribute when the value is there.\<close>

definition when_set :: "'v option \<Rightarrow> ('v \<Rightarrow> 'a) \<Rightarrow> 'a \<Rightarrow> 'a" where
  "when_set v f d = (case v of None \<Rightarrow> d | Some n \<Rightarrow> f n)"

definition attribute_when :: "ResponseAttribute \<Rightarrow> 'v option \<Rightarrow> ResponseAttribute set" where
  "attribute_when a v = (if v = None then {} else {a})"

lemma json_apply_sets [simp]:
  "mSetAttributes (json_applyBeaconSizeInKb m b) = mSetAttributes b \<union> attribute_when MAX_BEACON_SIZE (getJsonNumberFrom m ''maxBeaconSizeKb'')"
  "mSetAttributes (json_applyMaxSessionDurationInMin m b) = mSetAttributes b \<union> attribute_when MAX_SESSION_DURATION (getJsonNumberFrom m ''maxSessionDurationMins'')"
  "mSetAttributes (json_applyMaxEventsPerSession m b) = mSetAttributes b \<union> attribute_when MAX_EVENTS_PER_SESSION (getJsonNumberFrom m ''maxEventsPerSession'')"
  "mSetAttributes (json_applySessionTimeoutInSec m b) = mSetAttributes b \<union> attribute_when SESSION_IDLE_TIMEOUT (getJsonNumberFrom m ''sessionTimeoutSec'')"
  "mSetAttributes (json_applySendIntervalInSec m b) = mSetAttributes b \<union> attribute_when SEND_INTERVAL (getJsonNumberFrom m ''sendIntervalSec'')"
  "mSetAttributes (json_applyVisitStoreVersion m b) = mSetAttributes b \<union> attribute_when VISIT_STORE_VERSION (getJsonNumberFrom m ''visitStoreVersion'')"
  "mSetAttributes (json_applyCapture m b) = mSetAttributes b \<union> attribute_when IS_CAPTURE (getJsonNumberFrom m ''capture'')"
  "mSetAttributes (json_applyReportCrashes m b) = mSetAttributes b \<union> attribute_when IS_CAPTURE_CRASHES (getJsonNumberFrom m ''reportCrashes'')"
  "mSetAttributes (json_applyReportErrors m b) = mSetAttributes b \<union> attribute_when IS_CAPTURE_ERRORS (getJsonNumberFrom m ''reportErrors'')"
  "mSetAttributes (json_applyTrafficControlPercentage m b) = mSetAttributes b \<union> attribute_when TRAFFIC_CONTROL_PERCENTAGE (getJsonNumberFrom m ''trafficControlPercentage'')"
  "mSetAttributes (json_applyApplicationId m b) = mSetAttributes b \<union> attribute_when APPLICATION_ID (getJsonStringFrom m ''applicationId'')"
  "mSetAttributes (json_applyMultiplicity m b) = mSetAttributes b \<union> attribute_when MULTIPLICITY (getJsonNumberFrom m ''multiplicity'')"
  "mSetAttributes (json_applyServerId m b) = mSetAttributes b \<union> attribute_when SERVER_ID (getJsonNumberFrom m ''serverId'')"
  "mSetAttributes (json_applyStatus m b) = mSetAttributes b \<union> attribute_when STATUS (getJsonStringFrom m ''status'')"
  by (auto simp: attribute_when_def json_applyBeaconSizeInKb_def json_applyMaxSessionDurationInMin_def json_applyMaxEventsPerSession_def json_applySessionTimeoutInSec_def json_applySendIntervalInSec_def json_applyVisitStoreVersion_def json_applyCapture_def json_applyReportCrashes_def json_applyReportErrors_def json_applyTrafficControlPercentage_def json_applyApplicationId_def json_applyMultiplicity_def json_applyServerId_def json_applyStatus_def split: option.splits)

lemma json_apply_values [simp]:
  "mMaxBeaconSizeInBytes (json_applyBeaconSizeInKb m b) = when_set (getJsonNumberFrom m ''maxBeaconSizeKb'') (\<lambda>n. getInt32Value n * 1024) (mMaxBeaconSizeInBytes b)"
  "mMaxSessionDurationInMilliseconds (json_applyBeaconSizeInKb m b) = mMaxSessionDurationInMilliseconds b"
  "mMaxEventsPerSession (json_applyBeaconSizeInKb m b) = mMaxEventsPerSession b"
  "mSessionTimeoutInMilliseconds (json_applyBeaconSizeInKb m b) = mSessionTimeoutInMilliseconds b"
  "mSendIntervalInMilliseconds (json_applyBeaconSizeInKb m b) = mSendIntervalInMilliseconds b"
  "mVisitStoreVersion (json_applyBeaconSizeInKb m b) = mVisitStoreVersion b"
  "mIsCapture (json_applyBeaconSizeInKb m b) = mIsCapture b"
  "mIsCaptureCrashes (json_applyBeaconSizeInKb m b) = mIsCaptureCrashes b"
  "mIsCaptureErrors (json_applyBeaconSizeInKb m b) = mIsCaptureErrors b"
  "mTrafficControlPercentage (json_applyBeaconSizeInKb m b) = mTrafficControlPercentage b"
  "mApplicationId (json_applyBeaconSizeInKb m b) = mApplicationId b"
  "mMultiplicity (json_applyBeaconSizeInKb m b) = mMultiplicity b"
  "mServerId (json_applyBeaconSizeInKb m b) = mServerId b"
  "mStatus (json_applyBeaconSizeInKb m b) = mStatus b"
  "mTimestampInMilliseconds (json_applyBeaconSizeInKb m b) = mTimestampInMilliseconds b"
  "mMaxBeaconSizeInBytes (json_applyMaxSessionDurationInMin m b) = mMaxBeaconSizeInBytes b"
  "mMaxSessionDurationInMilliseconds (json_applyMaxSessionDurationInMin m b) = when_set (getJsonNumberFrom m ''maxSessionDurationMins'') (\<lambda>n. getInt32Value n * 60 * 1000) (mMaxSessionDurationInMilliseconds b)"
  "mMaxEventsPerSession (json_applyMaxSessionDurationInMin m b) = mMaxEventsPerSession b"
  "mSessionTimeoutInMilliseconds (json_applyMaxSessionDurationInMin m b) = mSessionTimeoutInMilliseconds b"
  "mSendIntervalInMilliseconds (json_applyMaxSessionDurationInMin m b) = mSendIntervalInMilliseconds b"
  "mVisitStoreVersion (json_applyMaxSessionDurationInMin m b) = mVisitStoreVersion b"
  "mIsCapture (json_applyMaxSessionDurationInMin m b) = mIsCapture b"
  "mIsCaptureCrashes (json_applyMaxSessionDurationInMin m b) = mIsCaptureCrashes b"
  "mIsCaptureErrors (json_applyMaxSessionDurationInMin m b) = mIsCaptureErrors b"
  "mTrafficControlPercentage (json_applyMaxSessionDurationInMin m b) = mTrafficControlPercentage b"
  "mApplicationId (json_applyMaxSessionDurationInMin m b) = mApplicationId b"
  "mMultiplicity (json_applyMaxSessionDurationInMin m b) = mMultiplicity b"
  "mServerId (json_applyMaxSessionDurationInMin m b) = mServerId b"
  "mStatus (json_applyMaxSessionDurationInMin m b) = mStatus b"
  "mTimestampInMilliseconds (json_applyMaxSessionDurationInMin m b) = mTimestampInMilliseconds b"
  "mMaxBeaconSizeInBytes (json_applyMaxEventsPerSession m b) = mMaxBeaconSizeInBytes b"
  "mMaxSessionDurationInMilliseconds (json_applyMaxEventsPerSession m b) = mMaxSessionDurationInMilliseconds b"
  "mMaxEventsPerSession (json_applyMaxEventsPerSession m b) = when_set (getJsonNumberFrom m ''maxEventsPerSession'') (\<lambda>n. getInt32Value n) (mMaxEventsPerSession b)"
  "mSessionTimeoutInMilliseconds (json_applyMaxEventsPerSession m b) = mSessionTimeoutInMilliseconds b"
  "mSendIntervalInMilliseconds (json_applyMaxEventsPerSession m b) = mSendIntervalInMilliseconds b"
  "mVisitStoreVersion (json_applyMaxEventsPerSession m b) = mVisitStoreVersion b"
  "mIsCapture (json_applyMaxEventsPerSession m b) = mIsCapture b"
  "mIsCaptureCrashes (json_applyMaxEventsPerSession m b) = mIsCaptureCrashes b"
  "mIsCaptureErrors (json_applyMaxEventsPerSession m b) = mIsCaptureErrors b"
  "mTrafficControlPercentage (json_applyMaxEventsPerSession m b) = mTrafficControlPercentage b"
  "mApplicationId (json_applyMaxEventsPerSession m b) = mApplicationId b"
  "mMultiplicity (json_applyMaxEventsPerSession m b) = mMultiplicity b"
  "mServerId (json_applyMaxEventsPerSession m b) = mServerId b"
  "mStatus (json_applyMaxEventsPerSession m b) = mStatus b"
  "mTimestampInMilliseconds (json_applyMaxEventsPerSession m b) = mTimestampInMilliseconds b"
  "mMaxBeaconSizeInBytes (json_applySessionTimeoutInSec m b) = mMaxBeaconSizeInBytes b"
  "mMaxSessionDurationInMilliseconds (json_applySessionTimeoutInSec m b) = mMaxSessionDurationInMilliseconds b"
  "mMaxEventsPerSession (json_applySessionTimeoutInSec m b) = mMaxEventsPerSession b"
  "mSessionTimeoutInMilliseconds (json_applySessionTimeoutInSec m b) = when_set (getJsonNumberFrom m ''sessionTimeoutSec'') (\<lambda>n. getInt32Value n * 1000) (mSessionTimeoutInMilliseconds b)"
  "mSendIntervalInMilliseconds (json_applySessionTimeoutInSec m b) = mSendIntervalInMilliseconds b"
  "mVisitStoreVersion (json_applySessionTimeoutInSec m b) = mVisitStoreVersion b"
  "mIsCapture (json_applySessionTimeoutInSec m b) = mIsCapture b"
  "mIsCaptureCrashes (json_applySessionTimeoutInSec m b) = mIsCaptureCrashes b"
  "mIsCaptureErrors (json_applySessionTimeoutInSec m b) = mIsCaptureErrors b"
  "mTrafficControlPercentage (json_applySessionTimeoutInSec m b) = mTrafficControlPercentage b"
  "mApplicationId (json_applySessionTimeoutInSec m b) = mApplicationId b"
  "mMultiplicity (json_applySessionTimeoutInSec m b) = mMultiplicity b"
  "mServerId (json_applySessionTimeoutInSec m b) = mServerId b"
  "mStatus (json_applySessionTimeoutInSec m b) = mStatus b"
  "mTimestampInMilliseconds (json_applySessionTimeoutInSec m b) = mTimestampInMilliseconds b"
  "mMaxBeaconSizeInBytes (json_applySendIntervalInSec m b) = mMaxBeaconSizeInBytes b"
  "mMaxSessionDurationInMilliseconds (json_applySendIntervalInSec m b) = mMaxSessionDurationInMilliseconds b"
  "mMaxEventsPerSession (json_applySendIntervalInSec m b) = mMaxEventsPerSession b"
  "mSessionTimeoutInMilliseconds (json_applySendIntervalInSec m b) = mSessionTimeoutInMilliseconds b"
  "mSendIntervalInMilliseconds (json_applySendIntervalInSec m b) = when_set (getJsonNumberFrom m ''sendIntervalSec'') (\<lambda>n. getInt32Value n * 1000) (mSendIntervalInMilliseconds b)"
  "mVisitStoreVersion (json_applySendIntervalInSec m b) = mVisitStoreVersion b"
  "mIsCapture (json_applySendIntervalInSec m b) = mIsCapture b"
  "mIsCaptureCrashes (json_applySendIntervalInSec m b) = mIsCaptureCrashes b"
  "mIsCaptureErrors (json_applySendIntervalInSec m b) = mIsCaptureErrors b"
  "mTrafficControlPercentage (json_applySendIntervalInSec m b) = mTrafficControlPercentage b"
  "mApplicationId (json_applySendIntervalInSec m b) = mApplicationId b"
  "mMultiplicity (json_applySendIntervalInSec m b) = mMultiplicity b"
  "mServerId (json_applySendIntervalInSec m b) = mServerId b"
  "mStatus (json_applySendIntervalInSec m b) = mStatus b"
  "mTimestampInMilliseconds (json_applySendIntervalInSec m b) = mTimestampInMilliseconds b"
  "mMaxBeaconSizeInBytes (json_applyVisitStoreVersion m b) = mMaxBeaconSizeInBytes b"
  "mMaxSessionDurationInMilliseconds (json_applyVisitStoreVersion m b) = mMaxSessionDurationInMilliseconds b"
  "mMaxEventsPerSession (json_applyVisitStoreVersion m b) = mMaxEventsPerSession b"
  "mSessionTimeoutInMilliseconds (json_applyVisitStoreVersion m b) = mSessionTimeoutInMilliseconds b"
  "mSendIntervalInMilliseconds (json_applyVisitStoreVersion m b) = mSendIntervalInMilliseconds b"
  "mVisitStoreVersion (json_applyVisitStoreVersion m b) = when_set (getJsonNumberFrom m ''visitStoreVersion'') (\<lambda>n. getInt32Value n) (mVisitStoreVersion b)"
  "mIsCapture (json_applyVisitStoreVersion m b) = mIsCapture b"
  "mIsCaptureCrashes (json_applyVisitStoreVersion m b) = mIsCaptureCrashes b"
  "mIsCaptureErrors (json_applyVisitStoreVersion m b) = mIsCaptureErrors b"
  "mTrafficControlPercentage (json_applyVisitStoreVersion m b) = mTrafficControlPercentage b"
  "mApplicationId (json_applyVisitStoreVersion m b) = mApplicationId b"
  "mMultiplicity (json_applyVisitStoreVersion m b) = mMultiplicity b"
  "mServerId (json_applyVisitStoreVersion m b) = mServerId b"
  "mStatus (json_applyVisitStoreVersion m b) = mStatus b"
  "mTimestampInMilliseconds (json_applyVisitStoreVersion m b) = mTimestampInMilliseconds b"
  "mMaxBeaconSizeInBytes (json_applyCapture m b) = mMaxBeaconSizeInBytes b"
  "mMaxSessionDurationInMilliseconds (json_applyCapture m b) = mMaxSessionDurationInMilliseconds b"
  "mMaxEventsPerSession (json_applyCapture m b) = mMaxEventsPerSession b"
  "mSessionTimeoutInMilliseconds (json_applyCapture m b) = mSessionTimeoutInMilliseconds b"
  "mSendIntervalInMilliseconds (json_applyCapture m b) = mSendIntervalInMilliseconds b"
  "mVisitStoreVersion (json_applyCapture m b) = mVisitStoreVersion b"
  "mIsCapture (json_applyCapture m b) = when_set (getJsonNumberFrom m ''capture'') (\<lambda>n. getInt32Value n = 1) (mIsCapture b)"
  "mIsCaptureCrashes (json_applyCapture m b) = mIsCaptureCrashes b"
  "mIsCaptureErrors (json_applyCapture m b) = mIsCaptureErrors b"
  "mTrafficControlPercentage (json_applyCapture m b) = mTrafficControlPercentage b"
  "mApplicationId (json_applyCapture m b) = mApplicationId b"
  "mMultiplicity (json_applyCapture m b) = mMultiplicity b"
  "mServerId (json_applyCapture m b) = mServerId b"
  "mStatus (json_applyCapture m b) = mStatus b"
  "mTimestampInMilliseconds (json_applyCapture m b) = mTimestampInMilliseconds b"
  "mMaxBeaconSizeInBytes (json_applyReportCrashes m b) = mMaxBeaconSizeInBytes b"
  "mMaxSessionDurationInMilliseconds (json_applyReportCrashes m b) = mMaxSessionDurationInMilliseconds b"
  "mMaxEventsPerSession (json_applyReportCrashes m b) = mMaxEventsPerSession b"
  "mSessionTimeoutInMilliseconds (json_applyReportCrashes m b) = mSessionTimeoutInMilliseconds b"
  "mSendIntervalInMilliseconds (json_applyReportCrashes m b) = mSendIntervalInMilliseconds b"
  "mVisitStoreVersion (json_applyReportCrashes m b) = mVisitStoreVersion b"
  "mIsCapture (json_applyReportCrashes m b) = mIsCapture b"
  "mIsCaptureCrashes (json_applyReportCrashes m b) = when_set (getJsonNumberFrom m ''reportCrashes'') (\<lambda>n. getInt32Value n \<noteq> 0) (mIsCaptureCrashes b)"
  "mIsCaptureErrors (json_applyReportCrashes m b) = mIsCaptureErrors b"
  "mTrafficControlPercentage (json_applyReportCrashes m b) = mTrafficControlPercentage b"
  "mApplicationId (json_applyReportCrashes m b) = mApplicationId b"
  "mMultiplicity (json_applyReportCrashes m b) = mMultiplicity b"
  "mServerId (json_applyReportCrashes m b) = mServerId b"
  "mStatus (json_applyReportCrashes m b) = mStatus b"
  "mTimestampInMilliseconds (json_applyReportCrashes m b) = mTimestampInMilliseconds b"
  "mMaxBeaconSizeInBytes (json_applyReportErrors m b) = mMaxBeaconSizeInBytes b"
  "mMaxSessionDurationInMilliseconds (json_applyReportErrors m b) = mMaxSessionDurationInMilliseconds b"
  "mMaxEventsPerSession (json_applyReportErrors m b) = mMaxEventsPerSession b"
  "mSessionTimeoutInMilliseconds (json_applyReportErrors m b) = mSessionTimeoutInMilliseconds b"
  "mSendIntervalInMilliseconds (json_applyReportErrors m b) = mSendIntervalInMilliseconds b"
  "mVisitStoreVersion (json_applyReportErrors m b) = mVisitStoreVersion b"
  "mIsCapture (json_applyReportErrors m b) = mIsCapture b"
  "mIsCaptureCrashes (json_applyReportErrors m b) = mIsCaptureCrashes b"
  "mIsCaptureErrors (json_applyReportErrors m b) = when_set (getJsonNumberFrom m ''reportErrors'') (\<lambda>n. getInt32Value n \<noteq> 0) (mIsCaptureErrors b)"
  "mTrafficControlPercentage (json_applyReportErrors m b) = mTrafficControlPercentage b"
  "mApplicationId (json_applyReportErrors m b) = mApplicationId b"
  "mMultiplicity (json_applyReportErrors m b) = mMultiplicity b"
  "mServerId (json_applyReportErrors m b) = mServerId b"
  "mStatus (json_applyReportErrors m b) = mStatus b"
  "mTimestampInMilliseconds (json_applyReportErrors m b) = mTimestampInMilliseconds b"
  "mMaxBeaconSizeInBytes (json_applyTrafficControlPercentage m b) = mMaxBeaconSizeInBytes b"
  "mMaxSessionDurationInMilliseconds (json_applyTrafficControlPercentage m b) = mMaxSessionDurationInMilliseconds b"
  "mMaxEventsPerSession (json_applyTrafficControlPercentage m b) = mMaxEventsPerSession b"
  "mSessionTimeoutInMilliseconds (json_applyTrafficControlPercentage m b) = mSessionTimeoutInMilliseconds b"
  "mSendIntervalInMilliseconds (json_applyTrafficControlPercentage m b) = mSendIntervalInMilliseconds b"
  "mVisitStoreVersion (json_applyTrafficControlPercentage m b) = mVisitStoreVersion b"
  "mIsCapture (json_applyTrafficControlPercentage m b) = mIsCapture b"
  "mIsCaptureCrashes (json_applyTrafficControlPercentage m b) = mIsCaptureCrashes b"
  "mIsCaptureErrors (json_applyTrafficControlPercentage m b) = mIsCaptureErrors b"
  "mTrafficControlPercentage (json_applyTrafficControlPercentage m b) = when_set (getJsonNumberFrom m ''trafficControlPercentage'') (\<lambda>n. getInt32Value n) (mTrafficControlPercentage b)"
  "mApplicationId (json_applyTrafficControlPercentage m b) = mApplicationId b"
  "mMultiplicity (json_applyTrafficControlPercentage m b) = mMultiplicity b"
  "mServerId (json_applyTrafficControlPercentage m b) = mServerId b"
  "mStatus (json_applyTrafficControlPercentage m b) = mStatus b"
  "mTimestampInMilliseconds (json_applyTrafficControlPercentage m b) = mTimestampInMilliseconds b"
  "mMaxBeaconSizeInBytes (json_applyApplicationId m b) = mMaxBeaconSizeInBytes b"
  "mMaxSessionDurationInMilliseconds (json_applyApplicationId m b) = mMaxSessionDurationInMilliseconds b"
  "mMaxEventsPerSession (json_applyApplicationId m b) = mMaxEventsPerSession b"
  "mSessionTimeoutInMilliseconds (json_applyApplicationId m b) = mSessionTimeoutInMilliseconds b"
  "mSendIntervalInMilliseconds (json_applyApplicationId m b) = mSendIntervalInMilliseconds b"
  "mVisitStoreVersion (json_applyApplicationId m b) = mVisitStoreVersion b"
  "mIsCapture (json_applyApplicationId m b) = mIsCapture b"
  "mIsCaptureCrashes (json_applyApplicationId m b) = mIsCaptureCrashes b"
  "mIsCaptureErrors (json_applyApplicationId m b) = mIsCaptureErrors b"
  "mTrafficControlPercentage (json_applyApplicationId m b) = mTrafficControlPercentage b"
  "mApplicationId (json_applyApplicationId m b) = when_set (getJsonStringFrom m ''applicationId'') (\<lambda>n. UTF8String_of n) (mApplicationId b)"
  "mMultiplicity (json_applyApplicationId m b) = mMultiplicity b"
  "mServerId (json_applyApplicationId m b) = mServerId b"
  "mStatus (json_applyApplicationId m b) = mStatus b"
  "mTimestampInMilliseconds (json_applyApplicationId m b) = mTimestampInMilliseconds b"
  "mMaxBeaconSizeInBytes (json_applyMultiplicity m b) = mMaxBeaconSizeInBytes b"
  "mMaxSessionDurationInMilliseconds (json_applyMultiplicity m b) = mMaxSessionDurationInMilliseconds b"
  "mMaxEventsPerSession (json_applyMultiplicity m b) = mMaxEventsPerSession b"
  "mSessionTimeoutInMilliseconds (json_applyMultiplicity m b) = mSessionTimeoutInMilliseconds b"
  "mSendIntervalInMilliseconds (json_applyMultiplicity m b) = mSendIntervalInMilliseconds b"
  "mVisitStoreVersion (json_applyMultiplicity m b) = mVisitStoreVersion b"
  "mIsCapture (json_applyMultiplicity m b) = mIsCapture b"
  "mIsCaptureCrashes (json_applyMultiplicity m b) = mIsCaptureCrashes b"
  "mIsCaptureErrors (json_applyMultiplicity m b) = mIsCaptureErrors b"
  "mTrafficControlPercentage (json_applyMultiplicity m b) = mTrafficControlPercentage b"
  "mApplicationId (json_applyMultiplicity m b) = mApplicationId b"
  "mMultiplicity (json_applyMultiplicity m b) = when_set (getJsonNumberFrom m ''multiplicity'') (\<lambda>n. getInt32Value n) (mMultiplicity b)"
  "mServerId (json_applyMultiplicity m b) = mServerId b"
  "mStatus (json_applyMultiplicity m b) = mStatus b"
  "mTimestampInMilliseconds (json_applyMultiplicity m b) = mTimestampInMilliseconds b"
  "mMaxBeaconSizeInBytes (json_applyServerId m b) = mMaxBeaconSizeInBytes b"
  "mMaxSessionDurationInMilliseconds (json_applyServerId m b) = mMaxSessionDurationInMilliseconds b"
  "mMaxEventsPerSession (json_applyServerId m b) = mMaxEventsPerSession b"
  "mSessionTimeoutInMilliseconds (json_applyServerId m b) = mSessionTimeoutInMilliseconds b"
  "mSendIntervalInMilliseconds (json_applyServerId m b) = mSendIntervalInMilliseconds b"
  "mVisitStoreVersion (json_applyServerId m b) = mVisitStoreVersion b"
  "mIsCapture (json_applyServerId m b) = mIsCapture b"
  "mIsCaptureCrashes (json_applyServerId m b) = mIsCaptureCrashes b"
  "mIsCaptureErrors (json_applyServerId m b) = mIsCaptureErrors b"
  "mTrafficControlPercentage (json_applyServerId m b) = mTrafficControlPercentage b"
  "mApplicationId (json_applyServerId m b) = mApplicationId b"
  "mMultiplicity (json_applyServerId m b) = mMultiplicity b"
  "mServerId (json_applyServerId m b) = when_set (getJsonNumberFrom m ''serverId'') (\<lambda>n. getInt32Value n) (mServerId b)"
  "mStatus (json_applyServerId m b) = mStatus b"
  "mTimestampInMilliseconds (json_applyServerId m b) = mTimestampInMilliseconds b"
  "mMaxBeaconSizeInBytes (json_applyStatus m b) = mMaxBeaconSizeInBytes b"
  "mMaxSessionDurationInMilliseconds (json_applyStatus m b) = mMaxSessionDurationInMilliseconds b"
  "mMaxEventsPerSession (json_applyStatus m b) = mMaxEventsPerSession b"
  "mSessionTimeoutInMilliseconds (json_applyStatus m b) = mSessionTimeoutInMilliseconds b"
  "mSendIntervalInMilliseconds (json_applyStatus m b) = mSendIntervalInMilliseconds b"
  "mVisitStoreVersion (json_applyStatus m b) = mVisitStoreVersion b"
  "mIsCapture (json_applyStatus m b) = mIsCapture b"
  "mIsCaptureCrashes (json_applyStatus m b) = mIsCaptureCrashes b"
  "mIsCaptureErrors (json_applyStatus m b) = mIsCaptureErrors b"
  "mTrafficControlPercentage (json_applyStatus m b) = mTrafficControlPercentage b"
  "mApplicationId (json_applyStatus m b) = mApplicationId b"
  "mMultiplicity (json_applyStatus m b) = mMultiplicity b"
  "mServerId (json_applyStatus m b) = mServerId b"
  "mStatus (json_applyStatus m b) = when_set (getJsonStringFrom m ''status'') (\<lambda>n. UTF8String_of n) (mStatus b)"
  "mTimestampInMilliseconds (json_applyStatus m b) = mTimestampInMilliseconds b"
  by (simp_all add: when_set_def json_applyBeaconSizeInKb_def json_applyMaxSessionDurationInMin_def json_applyMaxEventsPerSession_def json_applySessionTimeoutInSec_def json_applySendIntervalInSec_def json_applyVisitStoreVersion_def json_applyCapture_def json_applyReportCrashes_def json_applyReportErrors_def json_applyTrafficControlPercentage_def json_applyApplicationId_def json_applyMultiplicity_def json_applyServerId_def json_applyStatus_def split: option.splits)

text \<open>The number or string under a key of one of the objects in the root.\<close>

definition config_number :: "string \<Rightarrow> string \<Rightarrow> 'd JsonObjectMap \<Rightarrow> 'd JsonNumberValue option" where
  "config_number config key root =
     (case getJsonObjectFrom root config of None \<Rightarrow> None | Some m \<Rightarrow> getJsonNumberFrom m key)"

definition config_string :: "string \<Rightarrow> string \<Rightarrow> 'd JsonObjectMap \<Rightarrow> string option" where
  "config_string config key root =
     (case getJsonObjectFrom root config of None \<Rightarrow> None | Some m \<Rightarrow> getJsonStringFrom m key)"

lemma when_set_None [simp]: "when_set None f d = d" and attribute_when_None [simp]: "attribute_when a None = {}"
  by (simp_all add: when_set_def attribute_when_def)

lemma config_apply_sets [simp]:
  "mSetAttributes (applyAgentConfiguration m b) = mSetAttributes b \<union> attribute_when MAX_BEACON_SIZE (config_number ''mobileAgentConfig'' ''maxBeaconSizeKb'' m) \<union>
     attribute_when MAX_SESSION_DURATION (config_number ''mobileAgentConfig'' ''maxSessionDurationMins'' m) \<union>
     attribute_when MAX_EVENTS_PER_SESSION (config_number ''mobileAgentConfig'' ''maxEventsPerSession'' m) \<union>
     attribute_when SESSION_IDLE_TIMEOUT (config_number ''mobileAgentConfig'' ''sessionTimeoutSec'' m) \<union>
     attribute_when SEND_INTERVAL (config_number ''mobileAgentConfig'' ''sendIntervalSec'' m) \<union>
     attribute_when VISIT_STORE_VERSION (config_number ''mobileAgentConfig'' ''visitStoreVersion'' m)"
  "mSetAttributes (applyApplicationConfiguration m b) = mSetAttributes b \<union> attribute_when IS_CAPTURE (config_number ''appConfig'' ''capture'' m) \<union>
     attribute_when IS_CAPTURE_CRASHES (config_number ''appConfig'' ''reportCrashes'' m) \<union>
     attribute_when IS_CAPTURE_ERRORS (config_number ''appConfig'' ''reportErrors'' m) \<union>
     attribute_when TRAFFIC_CONTROL_PERCENTAGE (config_number ''appConfig'' ''trafficControlPercentage'' m) \<union>
     attribute_when APPLICATION_ID (config_string ''appConfig'' ''applicationId'' m)"
  "mSetAttributes (applyDynamicConfiguration m b) = mSetAttributes b \<union> attribute_when MULTIPLICITY (config_number ''dynamicConfig'' ''multiplicity'' m) \<union>
     attribute_when SERVER_ID (config_number ''dynamicConfig'' ''serverId'' m) \<union>
     attribute_when STATUS (config_string ''dynamicConfig'' ''status'' m)"
  by (auto simp: applyAgentConfiguration_def applyApplicationConfiguration_def applyDynamicConfiguration_def
    config_number_def config_string_def Let_def split: option.splits)

lemma config_apply_values [simp]:
  "mMaxBeaconSizeInBytes (applyAgentConfiguration m b) = when_set (config_number ''mobileAgentConfig'' ''maxBeaconSizeKb'' m) (\<lambda>n. getInt32Value n * 1024) (mMaxBeaconSizeInBytes b)"
  "mMaxSessionDurationInMilliseconds (applyAgentConfiguration m b) = when_set (config_number ''mobileAgentConfig'' ''maxSessionDurationMins'' m) (\<lambda>n. getInt32Value n * 60 * 1000) (mMaxSessionDurationInMilliseconds b)"
  "mMaxEventsPerSession (applyAgentConfiguration m b) = when_set (config_number ''mobileAgentConfig'' ''maxEventsPerSession'' m) (\<lambda>n. getInt32Value n) (mMaxEventsPerSession b)"
  "mSessionTimeoutInMilliseconds (applyAgentConfiguration m b) = when_set (config_number ''mobileAgentConfig'' ''sessionTimeoutSec'' m) (\<lambda>n. getInt32Value n * 1000) (mSessionTimeoutInMilliseconds b)"
  "mSendIntervalInMilliseconds (applyAgentConfiguration m b) = when_set (config_number ''mobileAgentConfig'' ''sendIntervalSec'' m) (\<lambda>n. getInt32Value n * 1000) (mSendIntervalInMilliseconds b)"
  "mVisitStoreVersion (applyAgentConfiguration m b) = when_set (config_number ''mobileAgentConfig'' ''visitStoreVersion'' m) (\<lambda>n. getInt32Value n) (mVisitStoreVersion b)"
  "mIsCapture (applyAgentConfiguration m b) = mIsCapture b"
  "mIsCaptureCrashes (applyAgentConfiguration m b) = mIsCaptureCrashes b"
  "mIsCaptureErrors (applyAgentConfiguration m b) = mIsCaptureErrors b"
  "mTrafficControlPercentage (applyAgentConfiguration m b) = mTrafficControlPercentage b"
  "mApplicationId (applyAgentConfiguration m b) = mApplicationId b"
  "mMultiplicity (applyAgentConfiguration m b) = mMultiplicity b"
  "mServerId (applyAgentConfiguration m b) = mServerId b"
  "mStatus (applyAgentConfiguration m b) = mStatus b"
  "mTimestampInMilliseconds (applyAgentConfiguration m b) = mTimestampInMilliseconds b"
  "mMaxBeaconSizeInBytes (applyApplicationConfiguration m b) = mMaxBeaconSizeInBytes b"
  "mMaxSessionDurationInMilliseconds (applyApplicationConfiguration m b) = mMaxSessionDurationInMilliseconds b"
  "mMaxEventsPerSession (applyApplicationConfiguration m b) = mMaxEventsPerSession b"
  "mSessionTimeoutInMilliseconds (applyApplicationConfiguration m b) = mSessionTimeoutInMilliseconds b"
  "mSendIntervalInMilliseconds (applyApplicationConfiguration m b) = mSendIntervalInMilliseconds b"
  "mVisitStoreVersion (applyApplicationConfiguration m b) = mVisitStoreVersion b"
  "mIsCapture (applyApplicationConfiguration m b) = when_set (config_number ''appConfig'' ''capture'' m) (\<lambda>n. getInt32Value n = 1) (mIsCapture b)"
  "mIsCaptureCrashes (applyApplicationConfiguration m b) = when_set (config_number ''appConfig'' ''reportCrashes'' m) (\<lambda>n. getInt32Value n \<noteq> 0) (mIsCaptureCrashes b)"
  "mIsCaptureErrors (applyApplicationConfiguration m b) = when_set (config_number ''appConfig'' ''reportErrors'' m) (\<lambda>n. getInt32Value n \<noteq> 0) (mIsCaptureErrors b)"
  "mTrafficControlPercentage (applyApplicationConfiguration m b) = when_set (config_number ''appConfig'' ''trafficControlPercentage'' m) (\<lambda>n. getInt32Value n) (mTrafficControlPercentage b)"
  "mApplicationId (applyApplicationConfiguration m b) = when_set (config_string ''appConfig'' ''applicationId'' m) (\<lambda>n. UTF8String_of n) (mApplicationId b)"
  "mMultiplicity (applyApplicationConfiguration m b) = mMultiplicity b"
  "mServerId (applyApplicationConfiguration m b) = mServerId b"
  "mStatus (applyApplicationConfiguration m b) = mStatus b"
  "mTimestampInMilliseconds (applyApplicationConfiguration m b) = mTimestampInMilliseconds b"
  "mMaxBeaconSizeInBytes (applyDynamicConfiguration m b) = mMaxBeaconSizeInBytes b"
  "mMaxSessionDurationInMilliseconds (applyDynamicConfiguration m b) = mMaxSessionDurationInMilliseconds b"
  "mMaxEventsPerSession (applyDynamicConfiguration m b) = mMaxEventsPerSession b"
  "mSessionTimeoutInMilliseconds (applyDynamicConfiguration m b) = mSessionTimeoutInMilliseconds b"
  "mSendIntervalInMilliseconds (applyDynamicConfiguration m b) = mSendIntervalInMilliseconds b"
  "mVisitStoreVersion (applyDynamicConfiguration m b) = mVisitStoreVersion b"
  "mIsCapture (applyDynamicConfiguration m b) = mIsCapture b"
  "mIsCaptureCrashes (applyDynamicConfiguration m b) = mIsCaptureCrashes b"
  "mIsCaptureErrors (applyDynamicConfiguration m b) = mIsCaptureErrors b"
  "mTrafficControlPercentage (applyDynamicConfiguration m b) = mTrafficControlPercentage b"
  "mApplicationId (applyDynamicConfiguration m b) = mApplicationId b"
  "mMultiplicity (applyDynamicConfiguration m b) = when_set (config_number ''dynamicConfig'' ''multiplicity'' m) (\<lambda>n. getInt32Value n) (mMultiplicity b)"
  "mServerId (applyDynamicConfiguration m b) = when_set (config_number ''dynamicConfig'' ''serverId'' m) (\<lambda>n. getInt32Value n) (mServerId b)"
  "mStatus (applyDynamicConfiguration m b) = when_set (config_string ''dynamicConfig'' ''status'' m) (\<lambda>n. UTF8String_of n) (mStatus b)"
  "mTimestampInMilliseconds (applyDynamicConfiguration m b) = mTimestampInMilliseconds b"
  by (simp_all add: applyAgentConfiguration_def applyApplicationConfiguration_def applyDynamicConfiguration_def
    config_number_def config_string_def Let_def split: option.split)

lemma applyRootAttributes_values [simp]:
  "mSetAttributes (applyRootAttributes m b) = mSetAttributes b \<union> attribute_when TIMESTAMP (getJsonNumberFrom m ''timestamp'')"
  "mMaxBeaconSizeInBytes (applyRootAttributes m b) = mMaxBeaconSizeInBytes b"
  "mMaxSessionDurationInMilliseconds (applyRootAttributes m b) = mMaxSessionDurationInMilliseconds b"
  "mMaxEventsPerSession (applyRootAttributes m b) = mMaxEventsPerSession b"
  "mSessionTimeoutInMilliseconds (applyRootAttributes m b) = mSessionTimeoutInMilliseconds b"
  "mSendIntervalInMilliseconds (applyRootAttributes m b) = mSendIntervalInMilliseconds b"
  "mVisitStoreVersion (applyRootAttributes m b) = mVisitStoreVersion b"
  "mIsCapture (applyRootAttributes m b) = mIsCapture b"
  "mIsCaptureCrashes (applyRootAttributes m b) = mIsCaptureCrashes b"
  "mIsCaptureErrors (applyRootAttributes m b) = mIsCaptureErrors b"
  "mTrafficControlPercentage (applyRootAttributes m b) = mTrafficControlPercentage b"
  "mApplicationId (applyRootAttributes m b) = mApplicationId b"
  "mMultiplicity (applyRootAttributes m b) = mMultiplicity b"
  "mServerId (applyRootAttributes m b) = mServerId b"
  "mStatus (applyRootAttributes m b) = mStatus b"
  "mTimestampInMilliseconds (applyRootAttributes m b) = when_set (getJsonNumberFrom m ''timestamp'') getLongValue (mTimestampInMilliseconds b)"
  by (auto simp: applyRootAttributes_def when_set_def attribute_when_def split: option.splits)

lemma json_defaults: "withJsonDefaults = JsonResponseDefaults"
  by (simp add: withJsonDefaults_def Builder_new_eq)

text \<open>An object written as text begins with a brace, so it is no key-value response.\<close>

lemma written_prefix:
  "writeJsonString fp v w = Some w' \<Longrightarrow> \<exists>t. w' = w @ t"
  "write_elements fp n vs w = Some w' \<Longrightarrow> \<exists>t. w' = w @ t"
  "write_members fp n kvs w = Some w' \<Longrightarrow> \<exists>t. w' = w @ t"
  by (induction fp v w and fp n vs w and fp n kvs w arbitrary: w' and w' and w'
      rule: writeJsonString_write_elements_write_members.induct)
    (fastforce simp: insertValue_def insertStringValue_def number_writeJsonString_def openArray_def closeArray_def
      openObject_def closeObject_def insertElementSeperator_def insertKey_def insertKeyValueSeperator_def
      split: option.splits if_splits)+

lemma object_text:
  assumes "value_toString fp (JsonObjectValue m) = Some s"
  shows "\<exists>t. s = CHR ''{'' # t"
proof -
  obtain u where u: "write_members fp 0 m ''{'' = Some u" "s = u @ ''}''"
    using assms by (auto simp: value_toString_def openObject_def closeObject_def)
  obtain t where "u = ''{'' @ t" using written_prefix(3) [OF u(1)] by blast
  then show ?thesis using u(2) by simp
qed

lemma array_text:
  assumes "value_toString fp (JsonArrayValue vs) = Some s"
  shows "\<exists>t. s = CHR ''['' # t"
proof -
  obtain u where u: "write_elements fp 0 vs ''['' = Some u" "s = u @ '']''"
    using assms by (auto simp: value_toString_def openArray_def closeArray_def)
  obtain t where "u = ''['' @ t" using written_prefix(2) [OF u(1)] by blast
  then show ?thesis using u(2) by simp
qed

lemma show_int_no_letter: "show_int i \<noteq> CHR ''t'' # t"
proof
  assume a: "show_int i = CHR ''t'' # t"
  have "list_all (\<lambda>c. c \<noteq> CHR ''t'') (show_int i)"
    using decimal_digits_all [of "nat i"] decimal_digits_all [of "nat (- i)"]
    by (auto simp: show_int_def list_all_iff std_isdigit_def byte_of_def)
  then show False using a by simp
qed

lemma value_is_no_pairs:
  assumes "writable fp v" and "value_toString fp v = Some (mData u)"
  shows "\<not> isKeyValuePairResponse u"
proof (cases v)
  case (JsonNumber n)
  then have "mIsInteger n" using assms(1) by (metis JsonNumberValue.select_convs(1) fromLong_def writable.simps(1))
  then have "mData u = show_int (sint (mLongValue n))"
    using assms(2) JsonNumber by (simp add: value_toString_def number_writeJsonString_def insertValue_def escape_show_int)
  moreover obtain c t where c: "show_int (sint (mLongValue n)) = c # t" by (cases "show_int (sint (mLongValue n))") auto
  moreover have "c \<noteq> CHR ''t''" using show_int_no_letter c by blast
  ultimately show ?thesis by (simp add: isKeyValuePairResponse_def)
next
  case (JsonStringValue t)
  then have "mData u = quote # escapeString t @ [quote]" using assms(2) by (simp add: value_toString_def insertStringValue_def)
  then show ?thesis by (simp add: isKeyValuePairResponse_def quote_def)
next
  case (JsonArrayValue vs)
  then obtain t where "mData u = CHR ''['' # t" using array_text assms(2) by blast
  then show ?thesis by (simp add: isKeyValuePairResponse_def)
next
  case (JsonObjectValue m)
  then obtain t where "mData u = CHR ''{'' # t" using object_text assms(2) by blast
  then show ?thesis by (simp add: isKeyValuePairResponse_def)
next
  case JsonNullValue
  then have "mData u = ''null''" using assms(2) by (simp add: value_toString_def insertValue_def escape_literals)
  then show ?thesis by (simp add: isKeyValuePairResponse_def)
next
  case (JsonBooleanValue b)
  then have "mData u = (if b then ''true'' else ''false'')"
    using assms(2) by (simp add: value_toString_def insertValue_def escape_literals split: if_splits)
  then show ?thesis by (simp add: isKeyValuePairResponse_def)
qed

lemma parse_written_object:
  assumes "writable fp (JsonObjectValue m)" and "value_toString fp (JsonObjectValue m) = Some (mData u)"
  shows "parseResponse fp u = Inr (attributes_of_root m)"
proof -
  obtain t p where a: "value_toString fp (JsonObjectValue m) = Some t"
      "parse fp (JsonParser_new t) = (Inr (Some (JsonObjectValue m)), p)"
    using written_value_parsed [OF assms(1)] by blast
  then have "fst (parse fp (JsonParser_new (mData u))) = Inr (Some (JsonObjectValue m))" using assms(2) by simp
  then show ?thesis
    using value_is_no_pairs [OF assms] by (simp add: parseResponse_def JsonResponseParser_parse_def cast_object_def)
qed

subsection \<open>Properties of JSON responses\<close>

text \<open>C21: The attributes read from a JSON response: an attribute is set when the response has its
  key in the right object with a value of the right kind, and then has that value, converted
  to the unit of the attribute; every other attribute has its default.\<close>

theorem json_response_attributes:
  assumes "writable fp (JsonObjectValue m)" and "value_toString fp (JsonObjectValue m) = Some (mData u)"
  shows "\<exists>r. parseResponse fp u = Inr r \<and>
    mSetAttributes r =
      attribute_when MAX_BEACON_SIZE (config_number ''mobileAgentConfig'' ''maxBeaconSizeKb'' m) \<union>
      attribute_when MAX_SESSION_DURATION (config_number ''mobileAgentConfig'' ''maxSessionDurationMins'' m) \<union>
      attribute_when MAX_EVENTS_PER_SESSION (config_number ''mobileAgentConfig'' ''maxEventsPerSession'' m) \<union>
      attribute_when SESSION_IDLE_TIMEOUT (config_number ''mobileAgentConfig'' ''sessionTimeoutSec'' m) \<union>
      attribute_when SEND_INTERVAL (config_number ''mobileAgentConfig'' ''sendIntervalSec'' m) \<union>
      attribute_when VISIT_STORE_VERSION (config_number ''mobileAgentConfig'' ''visitStoreVersion'' m) \<union>
      attribute_when IS_CAPTURE (config_number ''appConfig'' ''capture'' m) \<union>
      attribute_when IS_CAPTURE_CRASHES (config_number ''appConfig'' ''reportCrashes'' m) \<union>
      attribute_when IS_CAPTURE_ERRORS (config_number ''appConfig'' ''reportErrors'' m) \<union>
      attribute_when TRAFFIC_CONTROL_PERCENTAGE (config_number ''appConfig'' ''trafficControlPercentage'' m) \<union>
      attribute_when APPLICATION_ID (config_string ''appConfig'' ''applicationId'' m) \<union>
      attribute_when MULTIPLICITY (config_number ''dynamicConfig'' ''multiplicity'' m) \<union>
      attribute_when SERVER_ID (config_number ''dynamicConfig'' ''serverId'' m) \<union>
      attribute_when STATUS (config_string ''dynamicConfig'' ''status'' m) \<union>
      attribute_when TIMESTAMP (getJsonNumberFrom m ''timestamp'') \<and>
    mMaxBeaconSizeInBytes r = when_set (config_number ''mobileAgentConfig'' ''maxBeaconSizeKb'' m) (\<lambda>n. getInt32Value n * 1024) (150 * 1024) \<and>
    mMaxSessionDurationInMilliseconds r = when_set (config_number ''mobileAgentConfig'' ''maxSessionDurationMins'' m) (\<lambda>n. getInt32Value n * 60 * 1000) (360 * 60 * 1000) \<and>
    mMaxEventsPerSession r = when_set (config_number ''mobileAgentConfig'' ''maxEventsPerSession'' m) getInt32Value 200 \<and>
    mSessionTimeoutInMilliseconds r = when_set (config_number ''mobileAgentConfig'' ''sessionTimeoutSec'' m) (\<lambda>n. getInt32Value n * 1000) (600 * 1000) \<and>
    mSendIntervalInMilliseconds r = when_set (config_number ''mobileAgentConfig'' ''sendIntervalSec'' m) (\<lambda>n. getInt32Value n * 1000) (120 * 1000) \<and>
    mVisitStoreVersion r = when_set (config_number ''mobileAgentConfig'' ''visitStoreVersion'' m) getInt32Value 1 \<and>
    mIsCapture r = when_set (config_number ''appConfig'' ''capture'' m) (\<lambda>n. getInt32Value n = 1) True \<and>
    mIsCaptureCrashes r = when_set (config_number ''appConfig'' ''reportCrashes'' m) (\<lambda>n. getInt32Value n \<noteq> 0) True \<and>
    mIsCaptureErrors r = when_set (config_number ''appConfig'' ''reportErrors'' m) (\<lambda>n. getInt32Value n \<noteq> 0) True \<and>
    mTrafficControlPercentage r = when_set (config_number ''appConfig'' ''trafficControlPercentage'' m) getInt32Value 100 \<and>
    mApplicationId r = when_set (config_string ''appConfig'' ''applicationId'' m) UTF8String_of UTF8String_empty \<and>
    mMultiplicity r = when_set (config_number ''dynamicConfig'' ''multiplicity'' m) getInt32Value 1 \<and>
    mServerId r = when_set (config_number ''dynamicConfig'' ''serverId'' m) getInt32Value 1 \<and>
    mStatus r = when_set (config_string ''dynamicConfig'' ''status'' m) UTF8String_of UTF8String_empty \<and>
    mTimestampInMilliseconds r = when_set (getJsonNumberFrom m ''timestamp'') getLongValue 0"
  unfolding parse_written_object [OF assms] attributes_of_root_def Let_def build_def json_defaults
  by (intro exI conjI, rule refl)
    (simp_all add: JsonResponseDefaults_def AbstractResponseDefaults_def Un_ac)

lemma json_response_attributes_witness:
  "\<forall>fp :: int double_ops. \<exists>r u.
     mData u = (CHR ''{'' # quote # ''dynamicConfig'' @ quote # CHR '':'' # CHR ''{'' # quote # ''serverId'' @ quote # '':7}}'') \<and>
     parseResponse fp u = Inr r \<and> mSetAttributes r = {SERVER_ID} \<and> mServerId r = 7 \<and> mMultiplicity r = 1"
proof
  fix fp :: "int double_ops"
  define m where "m = [(''dynamicConfig'', Some (JsonObjectValue [(''serverId'', Some (JsonNumber (fromLong fp 7)))]))]"
  let ?t = "CHR ''{'' # quote # ''dynamicConfig'' @ quote # CHR '':'' # CHR ''{'' # quote # ''serverId'' @ quote # '':7}}''"
  define u where "u = \<lparr>mData = ?t, mStringLength = 32\<rparr>"
  then have u: "mData u = ?t" by simp
  have e: "escapeString ''dynamicConfig'' = ''dynamicConfig''" "escapeString ''serverId'' = ''serverId''"
    by (rule escape_plain, simp add: quote_def backslash_def byte_of_def)+
  have "show_int 7 = ''7''" by (simp add: show_int_def decimal_digits.simps digit_char_def char_of_eq_iff)
  then have t: "value_toString fp (JsonObjectValue m) = Some (mData u)"
    using escape_show_int [of 7]
    by (simp add: m_def u value_toString_def openObject_def closeObject_def insertKey_def insertKeyValueSeperator_def
      number_writeJsonString_def insertValue_def e fromLong_def)
  have w: "writable fp (JsonObjectValue m)" by (simp add: m_def fromLong_def)
  have n: "config_number ''dynamicConfig'' ''serverId'' m = Some (fromLong fp 7)"
    "config_number ''dynamicConfig'' ''multiplicity'' m = None" "config_string ''dynamicConfig'' ''status'' m = None"
    "config_number ''mobileAgentConfig'' k m = None" "config_number ''appConfig'' k m = None"
    "config_string ''appConfig'' k m = None" "getJsonNumberFrom m ''timestamp'' = None" for k
    by (simp_all add: m_def config_number_def config_string_def getJsonObjectFrom_def getJsonNumberFrom_def getJsonStringFrom_def
      object_find_def cast_object_def cast_number_def)
  have g: "getInt32Value (fromLong fp 7) = 7" by (simp add: getInt32Value_def fromLong_def)
  obtain r where r: "parseResponse fp u = Inr r" "mSetAttributes r = {SERVER_ID}" "mServerId r = 7" "mMultiplicity r = 1"
    using json_response_attributes [OF w t] by (auto simp: n g attribute_when_def when_set_def)
  show "\<exists>r u. mData u = ?t \<and> parseResponse fp u = Inr r \<and> mSetAttributes r = {SERVER_ID} \<and> mServerId r = 7 \<and> mMultiplicity r = 1"
    using u r by blast
qed

text \<open>A response that is JSON but not an object (a number, a string, an array) makes the parser
  dereference a null pointer: the cast of the root is not checked.\<close>

theorem json_root_not_object:
  assumes "writable fp v" and "value_toString fp v = Some (mData u)" and "\<forall>m. v \<noteq> JsonObjectValue m"
  shows "parseResponse fp u = Inl (UndefinedBehaviour ''null pointer dereferenced'')"
proof -
  obtain t p where a: "value_toString fp v = Some t" "parse fp (JsonParser_new t) = (Inr (Some v), p)"
    using written_value_parsed [OF assms(1)] by blast
  then have "fst (parse fp (JsonParser_new (mData u))) = Inr (Some v)" using assms(2) by simp
  moreover have "cast_object (Some v) = None" using assms(3) by (cases v) (auto simp: cast_object_def)
  ultimately show ?thesis
    using value_is_no_pairs [OF assms(1,2)] by (simp add: parseResponse_def JsonResponseParser_parse_def)
qed

lemma json_root_not_object_witness:
  "\<forall>fp :: int double_ops. parseResponse fp \<lparr>mData = ''true'', mStringLength = 4\<rparr> = Inl (UndefinedBehaviour ''null pointer dereferenced'')"
proof
  fix fp :: "int double_ops"
  show "parseResponse fp \<lparr>mData = ''true'', mStringLength = 4\<rparr> = Inl (UndefinedBehaviour ''null pointer dereferenced'')"
    by (rule json_root_not_object [of fp "JsonBooleanValue True"])
      (simp_all add: value_toString_def insertValue_def escape_literals)
qed

subsection \<open>The text of a key-value response\<close>

definition plain :: "string \<Rightarrow> bool" where
  "plain s \<longleftrightarrow> s \<noteq> [] \<and> list_all (\<lambda>c. 0 < byte_of c \<and> byte_of c < 128 \<and> c \<noteq> CHR ''='' \<and> c \<noteq> CHR ''&'') s"

definition pair_text :: "string \<times> string \<Rightarrow> string" where
  "pair_text kv = fst kv @ CHR ''='' # snd kv"

definition plain_pair :: "string \<times> string \<Rightarrow> bool" where
  "plain_pair kv \<longleftrightarrow> plain (fst kv) \<and> plain (snd kv)"

lemma show_int_plain: "plain (show_int i)"
proof -
  have "list_all (\<lambda>c. 0 < byte_of c \<and> byte_of c < 128 \<and> c \<noteq> CHR ''='' \<and> c \<noteq> CHR ''&'') (decimal_digits n)" for n
    using decimal_digits_all [of n] by (auto simp: list_all_iff std_isdigit_def byte_of_def)
  then show ?thesis by (simp add: plain_def show_int_def byte_of_def)
qed

lemma pair_text_ascii:
  assumes "plain_pair kv"
  shows "list_all (\<lambda>x. 0 < byte_of x \<and> byte_of x < 128) (pair_text kv)" "CHR ''&'' \<notin> set (pair_text kv)" "pair_text kv \<noteq> []"
  using assms by (auto simp: plain_pair_def plain_def pair_text_def list_all_iff byte_of_def)

lemma index_of_separator:
  assumes "plain_pair kv"
  shows "getIndexOf (UTF8String_of (pair_text kv)) ''='' 0 = Inr (length (fst kv))"
proof -
  let ?d = "pair_text kv"
  have d: "mData (UTF8String_of ?d) = ?d" using UTF8String_of_ascii [OF pair_text_ascii(1) [OF assms]] by simp
  have a: "list_all (\<lambda>c. byte_of c < 128) ?d" using pair_text_ascii(1) [OF assms] by (simp add: list_all_iff)
  have "?d ! j \<noteq> CHR ''=''" if "j < length (fst kv)" for j
    using that assms by (auto simp: pair_text_def nth_append plain_pair_def plain_def list_all_iff)
  then have "find (\<lambda>j. 0 \<le> j \<and> ?d ! j = CHR ''='') [0..<length ?d] = Some (length (fst kv))"
    by (auto simp: find_Some_iff pair_text_def nth_append intro!: exI [of _ "length (fst kv)"])
  then show ?thesis
    using getIndexOf_loop_ascii [OF a, of "CHR ''=''" "[]" 0 0] by (simp add: getIndexOf_def d byte_of_def npos_def)
qed

lemma parts_of_pair:
  assumes "plain_pair kv" and "length (pair_text kv) < npos"
  shows "substring (UTF8String_of (pair_text kv)) 0 (length (fst kv)) = \<lparr>mData = fst kv, mStringLength = length (fst kv)\<rparr>"
    and "substring (UTF8String_of (pair_text kv)) (length (fst kv) + 1) npos = \<lparr>mData = snd kv, mStringLength = length (snd kv)\<rparr>"
proof -
  let ?css = "map (\<lambda>c. [c]) (pair_text kv)"
  have c: "concat ?css = pair_text kv" by (rule concat_singletons)
  have u: "UTF8String_of (pair_text kv) = \<lparr>mData = concat ?css, mStringLength = length (pair_text kv)\<rparr>"
    using UTF8String_of_ascii [OF pair_text_ascii(1) [OF assms(1)]] by (simp add: c)
  have wf: "utf8_text ?css" using ascii_text [OF pair_text_ascii(1) [OF assms(1)]] by simp
  have n: "length (concat ?css) < npos" using assms(2) by (simp add: c)
  have ne: "fst kv \<noteq> []" "snd kv \<noteq> []" using assms(1) by (simp_all add: plain_pair_def plain_def)
  have ch: "concat (map (\<lambda>c. [c]) s) = s" for s :: string by (rule concat_singletons)
  show "substring (UTF8String_of (pair_text kv)) 0 (length (fst kv)) = \<lparr>mData = fst kv, mStringLength = length (fst kv)\<rparr>"
    unfolding u by (subst substring_text [OF wf _ _ n]) (use ne in \<open>simp_all add: take_map ch pair_text_def\<close>)
  have "take npos (snd kv) = snd kv" using assms(2) by (simp add: pair_text_def)
  then show "substring (UTF8String_of (pair_text kv)) (length (fst kv) + 1) npos = \<lparr>mData = snd kv, mStringLength = length (snd kv)\<rparr>"
    unfolding u using assms(2)
    by (subst substring_text [OF wf _ _ n]) (use ne in \<open>simp_all add: drop_map take_map ch pair_text_def npos_def\<close>)
qed

lemma keyValue_part_pair:
  assumes "plain_pair kv" and "length (pair_text kv) < npos"
  shows "keyValue_part (UTF8String_of (pair_text kv)) m = Inr (um_insert (=) (fst kv) (snd kv) m)"
proof -
  have "fst kv \<noteq> []" "snd kv \<noteq> []" "length (fst kv) \<noteq> npos"
    using assms by (auto simp: plain_pair_def plain_def pair_text_def)
  then show ?thesis
    using index_of_separator [OF assms(1)] parts_of_pair [OF assms] by (simp add: keyValue_part_def utf8_isEmpty_def)
qed

lemma keyValue_parts_pairs:
  "list_all plain_pair kvs \<Longrightarrow> list_all (\<lambda>kv. length (pair_text kv) < npos) kvs \<Longrightarrow>
   \<exists>m'. keyValue_parts (map (\<lambda>kv. UTF8String_of (pair_text kv)) kvs) m = Inr m' \<and>
     (\<forall>k. um_find (=) k m' = (case um_find (=) k m of None \<Rightarrow> map_of kvs k | Some v \<Rightarrow> Some v))"
proof (induction kvs arbitrary: m)
  case (Cons kv kvs)
  let ?m = "um_insert (=) (fst kv) (snd kv) m"
  obtain m' where "keyValue_parts (map (\<lambda>kv. UTF8String_of (pair_text kv)) kvs) ?m = Inr m'"
      "\<forall>k. um_find (=) k m' = (case um_find (=) k ?m of None \<Rightarrow> map_of kvs k | Some v \<Rightarrow> Some v)"
    using Cons.IH [of ?m] Cons.prems by auto
  moreover have "keyValue_part (UTF8String_of (pair_text kv)) m = Inr ?m" using Cons.prems by (simp add: keyValue_part_pair)
  moreover have "um_find (=) k ?m = (case um_find (=) k m of None \<Rightarrow> (if fst kv = k then Some (snd kv) else None) | Some v \<Rightarrow> Some v)" for k
    by (auto simp: um_insert_def um_find_append split: option.split)
  ultimately show ?case by (auto split: option.split)
qed (auto split: option.split)

definition pairs_text :: "(string \<times> string) list \<Rightarrow> string" where
  "pairs_text kvs = join_with CHR ''&'' (map pair_text kvs)"

lemma join_with_lengths: "p \<in> set ps \<Longrightarrow> length p \<le> length (join_with d ps)"
  by (induction d ps rule: join_with.induct) auto

lemma pairs_text_chars:
  assumes "list_all plain_pair kvs"
  shows "list_all (\<lambda>x. 0 < byte_of x \<and> byte_of x < 128) (pairs_text kvs)"
proof -
  have "list_all (list_all (\<lambda>x. 0 < byte_of x \<and> byte_of x < 128)) ps \<Longrightarrow>
      list_all (\<lambda>x. 0 < byte_of x \<and> byte_of x < 128) (join_with CHR ''&'' ps)" for ps
    by (induction "CHR ''&''" ps rule: join_with.induct) (auto simp: byte_of_def)
  moreover have "list_all (list_all (\<lambda>x. 0 < byte_of x \<and> byte_of x < 128)) (map pair_text kvs)"
    using assms pair_text_ascii(1) by (auto simp: list_all_iff)
  ultimately show ?thesis by (simp add: pairs_text_def)
qed

lemma split_pairs:
  assumes "list_all plain_pair kvs" and "kvs \<noteq> []"
  shows "split (UTF8String_of (pairs_text kvs)) CHR ''&'' = map (\<lambda>kv. UTF8String_of (pair_text kv)) kvs"
proof -
  have "mData (UTF8String_of (pairs_text kvs)) = pairs_text kvs" using UTF8String_of_ascii [OF pairs_text_chars [OF assms(1)]] by simp
  moreover have "getline_items CHR ''&'' (pairs_text kvs) = map pair_text kvs"
    unfolding pairs_text_def
    using assms pair_text_ascii(2,3) by (intro getline_items_join) (auto simp: list_all_iff last_map)
  ultimately show ?thesis by (simp add: split_def)
qed

lemma keyValue_pairs:
  assumes "list_all plain_pair kvs" and "kvs \<noteq> []" and "length (pairs_text kvs) < npos"
  shows "\<exists>m. keyValue_parts (split (UTF8String_of (pairs_text kvs)) CHR ''&'') [] = Inr m \<and> (\<forall>k. um_find (=) k m = map_of kvs k)"
proof -
  have "length (pair_text kv) < npos" if "kv \<in> set kvs" for kv
    using that assms(3) join_with_lengths [of "pair_text kv" "map pair_text kvs" "CHR ''&''"] by (simp add: pairs_text_def)
  then have "list_all (\<lambda>kv. length (pair_text kv) < npos) kvs" by (simp add: list_all_iff)
  then show ?thesis using keyValue_parts_pairs [OF assms(1), of "[]"] by (simp add: split_pairs [OF assms(1,2)])
qed

text \<open>A builder function that runs when a value is there changes no other field.\<close>

definition when_step :: "'v option \<Rightarrow> ('v \<Rightarrow> Builder \<Rightarrow> Builder) \<Rightarrow> Builder \<Rightarrow> Builder" where
  "when_step v f b = when_set v (\<lambda>n. f n b) b"

lemma when_step_frame:
  "(\<And>n b. mMaxBeaconSizeInBytes (f n b) = mMaxBeaconSizeInBytes b) \<Longrightarrow> mMaxBeaconSizeInBytes (when_step v f b) = mMaxBeaconSizeInBytes b"
  "(\<And>n b. mMaxSessionDurationInMilliseconds (f n b) = mMaxSessionDurationInMilliseconds b) \<Longrightarrow> mMaxSessionDurationInMilliseconds (when_step v f b) = mMaxSessionDurationInMilliseconds b"
  "(\<And>n b. mMaxEventsPerSession (f n b) = mMaxEventsPerSession b) \<Longrightarrow> mMaxEventsPerSession (when_step v f b) = mMaxEventsPerSession b"
  "(\<And>n b. mSessionTimeoutInMilliseconds (f n b) = mSessionTimeoutInMilliseconds b) \<Longrightarrow> mSessionTimeoutInMilliseconds (when_step v f b) = mSessionTimeoutInMilliseconds b"
  "(\<And>n b. mSendIntervalInMilliseconds (f n b) = mSendIntervalInMilliseconds b) \<Longrightarrow> mSendIntervalInMilliseconds (when_step v f b) = mSendIntervalInMilliseconds b"
  "(\<And>n b. mVisitStoreVersion (f n b) = mVisitStoreVersion b) \<Longrightarrow> mVisitStoreVersion (when_step v f b) = mVisitStoreVersion b"
  "(\<And>n b. mIsCapture (f n b) = mIsCapture b) \<Longrightarrow> mIsCapture (when_step v f b) = mIsCapture b"
  "(\<And>n b. mIsCaptureCrashes (f n b) = mIsCaptureCrashes b) \<Longrightarrow> mIsCaptureCrashes (when_step v f b) = mIsCaptureCrashes b"
  "(\<And>n b. mIsCaptureErrors (f n b) = mIsCaptureErrors b) \<Longrightarrow> mIsCaptureErrors (when_step v f b) = mIsCaptureErrors b"
  "(\<And>n b. mTrafficControlPercentage (f n b) = mTrafficControlPercentage b) \<Longrightarrow> mTrafficControlPercentage (when_step v f b) = mTrafficControlPercentage b"
  "(\<And>n b. mApplicationId (f n b) = mApplicationId b) \<Longrightarrow> mApplicationId (when_step v f b) = mApplicationId b"
  "(\<And>n b. mMultiplicity (f n b) = mMultiplicity b) \<Longrightarrow> mMultiplicity (when_step v f b) = mMultiplicity b"
  "(\<And>n b. mServerId (f n b) = mServerId b) \<Longrightarrow> mServerId (when_step v f b) = mServerId b"
  "(\<And>n b. mStatus (f n b) = mStatus b) \<Longrightarrow> mStatus (when_step v f b) = mStatus b"
  "(\<And>n b. mTimestampInMilliseconds (f n b) = mTimestampInMilliseconds b) \<Longrightarrow> mTimestampInMilliseconds (when_step v f b) = mTimestampInMilliseconds b"
  by (simp_all add: when_step_def when_set_def split: option.split)

lemma when_step_values:
  "mMaxBeaconSizeInBytes (when_step v (\<lambda>n. withMaxBeaconSizeInBytes (q n)) b) = when_set v q (mMaxBeaconSizeInBytes b)"
  "mSetAttributes (when_step v (\<lambda>n. withMaxBeaconSizeInBytes (q n)) b) = attribute_when MAX_BEACON_SIZE v \<union> mSetAttributes b"
  "mSendIntervalInMilliseconds (when_step v (\<lambda>n. withSendIntervalInMilliseconds (q n)) b) = when_set v q (mSendIntervalInMilliseconds b)"
  "mSetAttributes (when_step v (\<lambda>n. withSendIntervalInMilliseconds (q n)) b) = attribute_when SEND_INTERVAL v \<union> mSetAttributes b"
  "mIsCapture (when_step v (\<lambda>n. withCapture (p n)) b) = when_set v p (mIsCapture b)"
  "mSetAttributes (when_step v (\<lambda>n. withCapture (p n)) b) = attribute_when IS_CAPTURE v \<union> mSetAttributes b"
  "mIsCaptureCrashes (when_step v (\<lambda>n. withCaptureCrashes (p n)) b) = when_set v p (mIsCaptureCrashes b)"
  "mSetAttributes (when_step v (\<lambda>n. withCaptureCrashes (p n)) b) = attribute_when IS_CAPTURE_CRASHES v \<union> mSetAttributes b"
  "mIsCaptureErrors (when_step v (\<lambda>n. withCaptureErrors (p n)) b) = when_set v p (mIsCaptureErrors b)"
  "mSetAttributes (when_step v (\<lambda>n. withCaptureErrors (p n)) b) = attribute_when IS_CAPTURE_ERRORS v \<union> mSetAttributes b"
  "mTrafficControlPercentage (when_step v (\<lambda>n. withTrafficControlPercentage (q n)) b) = when_set v q (mTrafficControlPercentage b)"
  "mSetAttributes (when_step v (\<lambda>n. withTrafficControlPercentage (q n)) b) = attribute_when TRAFFIC_CONTROL_PERCENTAGE v \<union> mSetAttributes b"
  "mServerId (when_step v (\<lambda>n. withServerId (q n)) b) = when_set v q (mServerId b)"
  "mSetAttributes (when_step v (\<lambda>n. withServerId (q n)) b) = attribute_when SERVER_ID v \<union> mSetAttributes b"
  "mMultiplicity (when_step v (\<lambda>n. withMultiplicity (q n)) b) = when_set v q (mMultiplicity b)"
  "mSetAttributes (when_step v (\<lambda>n. withMultiplicity (q n)) b) = attribute_when MULTIPLICITY v \<union> mSetAttributes b"
  by (simp_all add: when_step_def when_set_def attribute_when_def split: option.split)

lemmas when_step_fields = when_step_frame when_step_values

lemma kv_number_value:
  assumes "um_find (=) k m = map_option (\<lambda>n. show_int (sint n)) v"
  shows "kv_number k f m b = Inr (when_step v f b)"
  using assms by (simp add: kv_number_def when_step_def when_set_def stoi_show split: option.split)

definition number_pairs :: "(string \<times> int32) list \<Rightarrow> (string \<times> string) list" where
  "number_pairs kvs = map (\<lambda>kv. (fst kv, show_int (sint (snd kv)))) kvs"

lemma map_of_number_pairs: "map_of (number_pairs kvs) k = map_option (\<lambda>n. show_int (sint n)) (map_of kvs k)"
  by (induction kvs) (auto simp: number_pairs_def)

subsection \<open>Properties of key-value responses\<close>

text \<open>C22: The attributes read from a key-value response: an attribute is set when its key occurs, and
  has then the value at the first occurrence of the key, converted to the unit of the attribute;
  every other attribute has its default, and unknown keys are ignored.\<close>

theorem key_value_response_attributes:
  assumes "list_all (\<lambda>kv. plain (fst kv)) kvs"
    and "txt = pairs_text ((''type'', ''m'') # number_pairs kvs)" and "length txt < npos"
  shows "\<exists>r. parseResponse fp (UTF8String_of txt) = Inr r \<and>
    mSetAttributes r =
      attribute_when MAX_BEACON_SIZE (map_of kvs ''bl'') \<union>
      attribute_when SEND_INTERVAL (map_of kvs ''si'') \<union>
      attribute_when IS_CAPTURE (map_of kvs ''cp'') \<union>
      attribute_when IS_CAPTURE_CRASHES (map_of kvs ''cr'') \<union>
      attribute_when IS_CAPTURE_ERRORS (map_of kvs ''er'') \<union>
      attribute_when TRAFFIC_CONTROL_PERCENTAGE (map_of kvs ''tc'') \<union>
      attribute_when SERVER_ID (map_of kvs ''id'') \<union>
      attribute_when MULTIPLICITY (map_of kvs ''mp'') \<and>
    mMaxBeaconSizeInBytes r = when_set (map_of kvs ''bl'') (\<lambda>n. n * 1024) (30 * 1024) \<and>
    mMaxSessionDurationInMilliseconds r = -1 \<and>
    mMaxEventsPerSession r = -1 \<and>
    mSessionTimeoutInMilliseconds r = -1 \<and>
    mSendIntervalInMilliseconds r = when_set (map_of kvs ''si'') (\<lambda>n. n * 1000) (120 * 1000) \<and>
    mVisitStoreVersion r = 1 \<and>
    mIsCapture r = when_set (map_of kvs ''cp'') (\<lambda>n. n = 1) True \<and>
    mIsCaptureCrashes r = when_set (map_of kvs ''cr'') (\<lambda>n. n \<noteq> 0) True \<and>
    mIsCaptureErrors r = when_set (map_of kvs ''er'') (\<lambda>n. n \<noteq> 0) True \<and>
    mTrafficControlPercentage r = when_set (map_of kvs ''tc'') (\<lambda>n. n) 100 \<and>
    mApplicationId r = UTF8String_empty \<and>
    mMultiplicity r = when_set (map_of kvs ''mp'') (\<lambda>n. n) 1 \<and>
    mServerId r = when_set (map_of kvs ''id'') (\<lambda>n. n) 1 \<and>
    mStatus r = UTF8String_empty \<and>
    mTimestampInMilliseconds r = 0"
proof -
  let ?kvs = "(''type'', ''m'') # number_pairs kvs"
  have p: "list_all plain_pair ?kvs"
    using assms(1) show_int_plain by (auto simp: list_all_iff number_pairs_def plain_pair_def plain_def byte_of_def)
  obtain m where m: "keyValue_parts (split (UTF8String_of txt) CHR ''&'') [] = Inr m" "\<forall>k. um_find (=) k m = map_of ?kvs k"
    using keyValue_pairs [OF p] assms(2,3) by auto
  have "um_find (=) k m = map_option (\<lambda>n. show_int (sint n)) (map_of kvs k)" if "k \<noteq> ''type''" for k
    using m(2) that by (simp add: map_of_number_pairs)
  note found = kv_number_value [OF this]
  have d: "mData (UTF8String_of txt) = txt" using UTF8String_of_ascii [OF pairs_text_chars [OF p]] assms(2) by simp
  have "txt = ''type=m'' \<or> take (length ''type=m&'') txt = ''type=m&''"
    unfolding assms(2) by (cases "number_pairs kvs") (simp_all add: pairs_text_def pair_text_def)
  then have "parseResponse fp (UTF8String_of txt) = KeyValueResponseParser_parse (UTF8String_of txt)"
    by (simp add: parseResponse_def isKeyValuePairResponse_def d)
  then show ?thesis
    by (simp add: KeyValueResponseParser_parse_def m(1) found kv_applyBeaconSizeInKb_def kv_applySendIntervalInSec_def
      kv_applyCapture_def kv_applyReportCrashes_def kv_applyReportErrors_def kv_applyTrafficControlPercentage_def
      kv_applyServerId_def kv_applyMultiplicity_def when_step_fields build_def withKeyValueDefaults_def Builder_new_eq
      KeyValueResponseDefaults_def AbstractResponseDefaults_def Un_ac)
qed

lemma key_value_response_attributes_witness:
  "\<forall>fp :: int double_ops. \<exists>r. parseResponse fp (UTF8String_of ''type=m&id=3&id=4'') = Inr r \<and>
     mSetAttributes r = {SERVER_ID} \<and> mServerId r = 3 \<and> mMultiplicity r = 1"
proof
  fix fp :: "int double_ops"
  let ?kvs = "[(''id'', 3), (''id'', 4)] :: (string \<times> int32) list"
  have "show_int 3 = ''3''" "show_int 4 = ''4''"
    by (simp_all add: show_int_def decimal_digits.simps digit_char_def char_of_eq_iff)
  then have t: "''type=m&id=3&id=4'' = pairs_text ((''type'', ''m'') # number_pairs ?kvs)"
    by (simp add: pairs_text_def number_pairs_def pair_text_def)
  have p: "list_all (\<lambda>kv. plain (fst kv)) ?kvs" by (simp add: plain_def byte_of_def)
  have l: "length ''type=m&id=3&id=4'' < npos" by (simp add: npos_def)
  have m: "map_of ?kvs ''id'' = Some 3" "k \<noteq> ''id'' \<Longrightarrow> map_of ?kvs k = None" for k by auto
  obtain r where "parseResponse fp (UTF8String_of ''type=m&id=3&id=4'') = Inr r" "mSetAttributes r = {SERVER_ID}"
      "mServerId r = 3" "mMultiplicity r = 1"
    using key_value_response_attributes [OF p t l, of fp] by (auto simp: m attribute_when_def when_set_def simp del: map_of.simps)
  then show "\<exists>r. parseResponse fp (UTF8String_of ''type=m&id=3&id=4'') = Inr r \<and>
     mSetAttributes r = {SERVER_ID} \<and> mServerId r = 3 \<and> mMultiplicity r = 1" by blast
qed

text \<open>The delay that a response asks for is the value of its only header line with the name
  retry-after, in whatever case the name is written, and ten minutes when there is no such line,
  more than one, or a value that is no number; the product with a thousand never wraps around.\<close>

theorem retry_after_delay:
  "sint (getRetryAfterInMilliseconds r) =
     (case um_find HeaderNameEqualityComparer ''retry-after'' (mResponseHeaders r) of
        Some [v] \<Rightarrow> (case std_stoi v of Inr n \<Rightarrow> sint n * 1000 | Inl e \<Rightarrow> 600000)
      | _ \<Rightarrow> 600000)"
proof -
  have p: "sint (scast (n :: int32) * 1000 :: int64) = sint n * 1000" for n
  proof -
    have "sint (scast n :: int64) = sint n" by (simp add: sint_up_scast is_up)
    moreover have "- (2 ^ 31) \<le> sint n" "sint n < 2 ^ 31" using sint32_bounds [of n] by simp_all
    moreover have "sint (scast n * 1000 :: int64) = signed_take_bit 63 (sint (scast n :: int64) * sint (1000 :: int64))"
      by (simp add: sint_word_mult)
    ultimately show ?thesis by (simp add: signed_take_bit_int_eq_self)
  qed
  have d: "sint DEFAULT_RETRY_AFTER_IN_MILLISECONDS = 600000" by (simp add: DEFAULT_RETRY_AFTER_IN_MILLISECONDS_def)
  show ?thesis
    by (auto simp: getRetryAfterInMilliseconds_def headers_contains_def headers_getHeader_def p d split: option.split sum.split list.split)
qed

end
