(* ===== verification/Http_Transfer.thy ===== *)
theory Http_Transfer
  imports Response_Parsing
begin

text \<open>
  Sending requests: \<^verbatim>\<open>HTTPResponseParser\<close> and \<^verbatim>\<open>HTTPClient\<close> (src/protocol). The library libcurl,
  the compression, the interceptors of the application and the thread suspender are parameters,
  collected in the record \<open>http_env\<close>; their state is a value of type \<open>'w\<close> passed through the calls.
\<close>

subsection \<open>Reading the lines of a response\<close>

record HTTPResponseParser =
  mResponseStatus :: int32
  mParsedReasonPhrase :: string
  mParsedHeaders :: HttpHeaderCollection
  mParsedBody :: string

definition HTTPResponseParser_new :: HTTPResponseParser where
  "HTTPResponseParser_new =
     \<lparr>mResponseStatus = -1, mParsedReasonPhrase = [], mParsedHeaders = [], mParsedBody = []\<rparr>"

definition parser_clear :: "HTTPResponseParser \<Rightarrow> HTTPResponseParser" where
  "parser_clear p = p\<lparr>mResponseStatus := -1, mParsedReasonPhrase := [], mParsedHeaders := headers_clear (mParsedHeaders p), mParsedBody := []\<rparr>"

definition digit_int32 :: "char \<Rightarrow> int32" where
  "digit_int32 c = of_int (int (byte_of c) - 48)"

text \<open>A line without a colon: the version, spaces, three digits and, behind a space, the reason phrase.\<close>

definition parse_status_line :: "string \<Rightarrow> HTTPResponseParser \<Rightarrow> HTTPResponseParser" where
  "parse_status_line l p =
     (let rest = dropWhile std_isspace (dropWhile (\<lambda>c. \<not> std_isspace c) l) in
      if length rest \<ge> 3 \<and> std_isdigit (rest ! 0) \<and> std_isdigit (rest ! 1) \<and> std_isdigit (rest ! 2)
         \<and> (length rest = 3 \<or> std_isspace (rest ! 3))
      then (parser_clear p)
        \<lparr>mResponseStatus := digit_int32 (rest ! 0) * 100 + digit_int32 (rest ! 1) * 10 + digit_int32 (rest ! 2),
         mParsedReasonPhrase := dropWhile std_isspace (drop 3 rest)\<rparr>
      else p)"

definition responseHeaderData :: "string \<Rightarrow> HTTPResponseParser \<Rightarrow> HTTPResponseParser" where
  "responseHeaderData buffer p =
     (let l = trim buffer in
      if l = [] then p
      else
        (let headerName = takeWhile (\<lambda>c. c \<noteq> CHR '':'') l in
         if headerName \<noteq> l then
           if headerName \<noteq> []
           then p\<lparr>mParsedHeaders :=
                  headers_appendHeader headerName (dropWhile std_isspace (drop (length headerName + 1) l)) (mParsedHeaders p)\<rparr>
           else p
         else parse_status_line l p))"

definition responseBodyData :: "string \<Rightarrow> HTTPResponseParser \<Rightarrow> HTTPResponseParser" where
  "responseBodyData buffer p = p\<lparr>mParsedBody := mParsedBody p @ buffer\<rparr>"

subsection \<open>URLs\<close>

definition query_key :: "string \<Rightarrow> UTF8String" where
  "query_key key = urlencode (UTF8String_of key) ''_''"

definition appendQueryParam :: "string \<Rightarrow> UTF8String \<Rightarrow> UTF8String \<Rightarrow> UTF8String" where
  "appendQueryParam key val url =
     concatenate (concatenate_ptr (concatenate (concatenate_ptr url ''&'') (query_key key)) ''='') (urlencode val ''_'')"

definition toInvariantString :: "int \<Rightarrow> UTF8String" where
  "toInvariantString i = UTF8String_of (show_int i)"

text \<open>The server id is an \<^verbatim>\<open>int32_t\<close> passed as an \<^verbatim>\<open>uint32_t\<close>.\<close>

definition OPENKIT_VERSION :: string where "OPENKIT_VERSION = ''8.323.30500''"
definition PLATFORM_TYPE_OPENKIT :: string where "PLATFORM_TYPE_OPENKIT = ''1''"
definition AGENT_TECHNOLOGY_TYPE :: string where "AGENT_TECHNOLOGY_TYPE = ''okc''"

definition buildMonitorURL :: "UTF8String \<Rightarrow> UTF8String \<Rightarrow> 32 word \<Rightarrow> UTF8String" where
  "buildMonitorURL baseURL applicationID serverID =
     (let url = concatenate UTF8String_empty baseURL;
          url = concatenate_ptr url ''?'';
          url = concatenate_ptr url ''type=m'';
          url = appendQueryParam ''srvid'' (toInvariantString (uint serverID)) url;
          url = appendQueryParam ''app'' applicationID url;
          url = appendQueryParam ''va'' (UTF8String_of OPENKIT_VERSION) url;
          url = appendQueryParam ''pt'' (UTF8String_of PLATFORM_TYPE_OPENKIT) url;
          url = appendQueryParam ''tt'' (UTF8String_of AGENT_TECHNOLOGY_TYPE) url
      in appendQueryParam ''resp'' (UTF8String_of ''json'') url)"

definition buildNewSessionURL :: "UTF8String \<Rightarrow> UTF8String \<Rightarrow> 32 word \<Rightarrow> UTF8String" where
  "buildNewSessionURL baseURL applicationID serverID =
     appendQueryParam ''ns'' (UTF8String_of ''1'') (buildMonitorURL baseURL applicationID serverID)"

definition appendAdditionalQueryParameters :: "UTF8String \<Rightarrow> int64 \<Rightarrow> UTF8String" where
  "appendAdditionalQueryParameters baseUrl configurationTimestamp =
     appendQueryParam ''cts'' (toInvariantString (sint configurationTimestamp)) baseUrl"

definition appendSessionIdentifierParameter :: "UTF8String \<Rightarrow> int32 \<Rightarrow> int64 \<Rightarrow> UTF8String" where
  "appendSessionIdentifierParameter baseUrl sessionNumber deviceID =
     appendQueryParam ''si'' (UTF8String_of (show_int (sint sessionNumber) @ ''_'' @ show_int (sint deviceID))) baseUrl"

subsection \<open>The client\<close>

datatype HttpMethod = GET | POST

definition getHttpMethodAsString :: "HttpMethod \<Rightarrow> string" where
  "getHttpMethodAsString meth = (case meth of GET \<Rightarrow> ''GET'' | POST \<Rightarrow> ''POST'')"

text \<open>What libcurl is told of a request, and what it calls back while it performs it.\<close>

record curl_request =
  optUrl :: string
  optPost :: bool
  optHeaders :: "string list"
  optPostData :: "string option"

datatype curl_event = HeaderData string | BodyData string

text \<open>
  \<open>performs\<close>: whether \<^verbatim>\<open>curl_easy_perform\<close> succeeds and the data it hands to the callbacks.
  \<open>slist_append\<close>: whether a header can be appended to the list of libcurl. The interceptors
  can set headers of the request; the response is constant for them.
\<close>

record 'w http_env =
  easy_init :: "'w \<Rightarrow> bool \<times> 'w"
  performs :: "curl_request \<Rightarrow> 'w \<Rightarrow> (bool \<times> curl_event list) \<times> 'w"
  slist_append :: "string \<Rightarrow> bool"
  compressMemory :: "string \<Rightarrow> string"
  intercept :: "HttpRequest \<Rightarrow> HttpRequest"
  suspend :: "int \<Rightarrow> 'w \<Rightarrow> 'w"

record HTTPClient =
  mServerID :: int32
  mMonitorURL :: UTF8String
  mNewSessionURL :: UTF8String
  mReadBuffer :: string
  mReadBufferPos :: nat

definition HTTPClient_new :: "UTF8String \<Rightarrow> UTF8String \<Rightarrow> int32 \<Rightarrow> HTTPClient" where
  "HTTPClient_new baseURL applicationID serverID =
     \<lparr>mServerID = serverID, mMonitorURL = buildMonitorURL baseURL applicationID serverID,
      mNewSessionURL = buildNewSessionURL baseURL applicationID serverID, mReadBuffer = [], mReadBufferPos = 0\<rparr>"

text \<open>libcurl asks for the data of a POST request piece by piece, and stops at an empty piece.\<close>

definition readFunction :: "nat \<Rightarrow> HTTPClient \<Rightarrow> string \<times> HTTPClient" where
  "readFunction bytes c =
     (let available = length (mReadBuffer c) - mReadBufferPos c in
      if available > 0
      then (let written = min bytes available in
        (take written (drop (mReadBufferPos c) (mReadBuffer c)), c\<lparr>mReadBufferPos := mReadBufferPos c + written\<rparr>))
      else ([], c))"

definition callback :: "curl_event \<Rightarrow> HTTPResponseParser \<Rightarrow> HTTPResponseParser" where
  "callback e p = (case e of HeaderData b \<Rightarrow> responseHeaderData b p | BodyData b \<Rightarrow> responseBodyData b p)"

definition unknownErrorResponse :: StatusResponse where
  "unknownErrorResponse = createErrorResponse 0x7FFFFFFF []"

text \<open>Undefined behaviour is nothing that the catch block could handle.\<close>

definition handleResponse :: "'d double_ops \<Rightarrow> HttpResponse \<Rightarrow> cpp_exception + StatusResponse" where
  "handleResponse fp httpResponse =
     (if 400 \<le> sint (mStatusCode httpResponse)
      then Inr (createErrorResponse (mStatusCode httpResponse) (HttpResponse.mResponseHeaders httpResponse))
      else
        (case parseResponse fp (UTF8String_of (mResponseBody httpResponse)) of
           Inl (UndefinedBehaviour e) \<Rightarrow> Inl (UndefinedBehaviour e)
         | Inl e \<Rightarrow> Inr unknownErrorResponse
         | Inr responseAttributes \<Rightarrow>
             Inr (createSuccessResponse responseAttributes (mStatusCode httpResponse) (HttpResponse.mResponseHeaders httpResponse))))"

text \<open>The list of headers for libcurl is given up when one cannot be appended.\<close>

definition curl_headers :: "'w http_env \<Rightarrow> HttpRequest \<Rightarrow> string list" where
  "curl_headers env r =
     (let ls = map (\<lambda>(name, values). name @ '': '' @ hd values) (HttpRequest.mHeaders r) in
      if list_all (slist_append env) ls then ls else [])"

text \<open>
  The compression gets as many bytes as the string has characters. Data are only read for a
  POST request that is not empty.
\<close>

definition prepare_request ::
    "'w http_env \<Rightarrow> UTF8String \<Rightarrow> UTF8String \<Rightarrow> UTF8String \<Rightarrow> HttpMethod \<Rightarrow> HTTPClient \<Rightarrow> curl_request \<times> HTTPClient" where
  "prepare_request env url clientIPAddress beaconData meth c =
     (let r = intercept env (HttpRequest_new (mData url) (getHttpMethodAsString meth));
          r = (if utf8_isEmpty clientIPAddress then r else request_setHeader ''X-Client-IP'' (mData clientIPAddress) r);
          r = request_setHeader ''User-Agent'' (''OpenKit/'' @ OPENKIT_VERSION) r;
          upload = (meth = POST \<and> \<not> utf8_isEmpty beaconData);
          c = (if upload
               then c\<lparr>mReadBuffer := compressMemory env (take (mStringLength beaconData) (mData beaconData)), mReadBufferPos := 0\<rparr>
               else c);
          r = (if upload then request_setHeader ''Content-Encoding'' ''gzip'' r else r)
      in (\<lparr>optUrl = mData url, optPost = (meth = POST), optHeaders = curl_headers env r,
           optPostData = (if upload then Some (mReadBuffer c) else None)\<rparr>, c))"

definition received :: "UTF8String \<Rightarrow> HttpMethod \<Rightarrow> curl_event list \<Rightarrow> HttpResponse" where
  "received url meth events =
     (let p = fold callback events HTTPResponseParser_new in
      HttpResponse.make (mData url) (getHttpMethodAsString meth) (mResponseStatus p) (mParsedReasonPhrase p)
        (mParsedHeaders p) (mParsedBody p))"

text \<open>The loop of the attempts: a transfer that fails is repeated after a pause, three times at most.\<close>

definition MAX_SEND_RETRIES :: nat where "MAX_SEND_RETRIES = 3"
definition RETRY_SLEEP_TIME :: int where "RETRY_SLEEP_TIME = 200"

function send_attempts ::
    "'d double_ops \<Rightarrow> 'w http_env \<Rightarrow> UTF8String \<Rightarrow> UTF8String \<Rightarrow> UTF8String \<Rightarrow> HttpMethod \<Rightarrow> nat \<Rightarrow>
     HTTPClient \<Rightarrow> 'w \<Rightarrow> (cpp_exception + StatusResponse) \<times> HTTPClient \<times> 'w" where
  "send_attempts fp env url clientIPAddress beaconData meth retryCount c w =
     (let (request, c) = prepare_request env url clientIPAddress beaconData meth c;
          ((ok, events), w) = performs env request w
      in if ok then (handleResponse fp (received url meth events), c, w)
         else
           (let retryCount = retryCount + 1; w = suspend env RETRY_SLEEP_TIME w in
            if retryCount < MAX_SEND_RETRIES
            then send_attempts fp env url clientIPAddress beaconData meth retryCount c w
            else (Inr unknownErrorResponse, c, w)))"
  by pat_completeness auto
termination by (relation "measure (\<lambda>(fp, env, url, ip, d, meth, n, c, w). MAX_SEND_RETRIES - n)") auto

declare send_attempts.simps [simp del]

definition sendRequestInternal ::
    "'d double_ops \<Rightarrow> 'w http_env \<Rightarrow> UTF8String \<Rightarrow> UTF8String \<Rightarrow> UTF8String \<Rightarrow> HttpMethod \<Rightarrow>
     HTTPClient \<Rightarrow> 'w \<Rightarrow> (cpp_exception + StatusResponse) \<times> HTTPClient \<times> 'w" where
  "sendRequestInternal fp env url clientIPAddress beaconData meth c w =
     (let (ok, w) = easy_init env w in
      if \<not> ok then (Inr unknownErrorResponse, c, w)
      else send_attempts fp env url clientIPAddress beaconData meth 0 c w)"

text \<open>The response is never a null pointer, so the checks of the three callers have no effect.\<close>

definition sendStatusRequest ::
    "'d double_ops \<Rightarrow> 'w http_env \<Rightarrow> int64 \<Rightarrow> HTTPClient \<Rightarrow> 'w \<Rightarrow> (cpp_exception + StatusResponse) \<times> HTTPClient \<times> 'w" where
  "sendStatusRequest fp env configurationTimestamp c =
     sendRequestInternal fp env (appendAdditionalQueryParameters (mMonitorURL c) configurationTimestamp)
       UTF8String_empty UTF8String_empty GET c"

definition sendNewSessionRequest ::
    "'d double_ops \<Rightarrow> 'w http_env \<Rightarrow> int64 \<Rightarrow> HTTPClient \<Rightarrow> 'w \<Rightarrow> (cpp_exception + StatusResponse) \<times> HTTPClient \<times> 'w" where
  "sendNewSessionRequest fp env configurationTimestamp c =
     sendRequestInternal fp env (appendAdditionalQueryParameters (mNewSessionURL c) configurationTimestamp)
       UTF8String_empty UTF8String_empty GET c"

definition sendBeaconRequest ::
    "'d double_ops \<Rightarrow> 'w http_env \<Rightarrow> UTF8String \<Rightarrow> UTF8String \<Rightarrow> int64 \<Rightarrow> int32 \<Rightarrow> int64 \<Rightarrow>
     HTTPClient \<Rightarrow> 'w \<Rightarrow> (cpp_exception + StatusResponse) \<times> HTTPClient \<times> 'w" where
  "sendBeaconRequest fp env clientIPAddress beaconData configurationTimestamp sessionNumber deviceID c =
     (let url = appendAdditionalQueryParameters (mMonitorURL c) configurationTimestamp;
          url = appendSessionIdentifierParameter url sessionNumber deviceID
      in sendRequestInternal fp env url clientIPAddress beaconData POST c)"

text \<open>However libcurl divides its requests for data, it gets the buffer in order.\<close>

fun reads :: "nat list \<Rightarrow> HTTPClient \<Rightarrow> string" where
  "reads [] c = []"
| "reads (n # ns) c = (let (piece, c') = readFunction n c in piece @ reads ns c')"

lemma reads_buffer:
  "mReadBufferPos c \<le> length (mReadBuffer c) \<Longrightarrow>
   reads ns c = take (sum_list ns) (drop (mReadBufferPos c) (mReadBuffer c))"
proof (induction ns arbitrary: c)
  case (Cons n ns)
  let ?k = "min n (length (mReadBuffer c) - mReadBufferPos c)"
  have "reads ns (c\<lparr>mReadBufferPos := mReadBufferPos c + ?k\<rparr>) = take (sum_list ns) (drop (mReadBufferPos c + ?k) (mReadBuffer c))"
    using Cons.IH [of "c\<lparr>mReadBufferPos := mReadBufferPos c + ?k\<rparr>"] Cons.prems by simp
  moreover have "mReadBufferPos c = length (mReadBuffer c)" if "\<not> mReadBufferPos c < length (mReadBuffer c)"
    using that Cons.prems by simp
  ultimately show ?case
    using Cons.IH [OF Cons.prems] by (auto simp: readFunction_def Let_def take_add min_def add.commute)
qed simp

subsection \<open>The lines behind the last status line\<close>

text \<open>A line that starts no response: blank, or with a colon. The field it holds.\<close>

definition no_status_line :: "curl_event \<Rightarrow> bool" where
  "no_status_line e = (case e of HeaderData b \<Rightarrow> trim b = [] \<or> CHR '':'' \<in> set (trim b) | BodyData b \<Rightarrow> True)"

definition field_of :: "curl_event \<Rightarrow> (string \<times> string) list" where
  "field_of e = (case e of
       HeaderData b \<Rightarrow>
         (let l = trim b; name = takeWhile (\<lambda>c. c \<noteq> CHR '':'') l in
          if name = [] then [] else [(name, dropWhile std_isspace (drop (length name + 1) l))])
     | BodyData b \<Rightarrow> [])"

definition body_of :: "curl_event \<Rightarrow> string" where
  "body_of e = (case e of HeaderData b \<Rightarrow> [] | BodyData b \<Rightarrow> b)"

definition append_fields :: "(string \<times> string) list \<Rightarrow> HttpHeaderCollection \<Rightarrow> HttpHeaderCollection" where
  "append_fields fs m = fold (\<lambda>(n, v). headers_appendHeader n v) fs m"

lemma no_colon_takeWhile: "takeWhile (\<lambda>c. c \<noteq> x) l = l \<longleftrightarrow> x \<notin> set l"
  by (auto simp: takeWhile_eq_all_conv)

lemma callback_no_status:
  assumes "no_status_line e"
  shows "callback e p = p\<lparr>mParsedHeaders := append_fields (field_of e) (mParsedHeaders p), mParsedBody := mParsedBody p @ body_of e\<rparr>"
  using assms
  by (cases e) (auto simp: callback_def no_status_line_def responseHeaderData_def responseBodyData_def field_of_def
    body_of_def append_fields_def no_colon_takeWhile Let_def)

lemma fold_callback_no_status:
  "list_all no_status_line es \<Longrightarrow>
   fold callback es p = p\<lparr>mParsedHeaders := append_fields (concat (map field_of es)) (mParsedHeaders p),
     mParsedBody := mParsedBody p @ concat (map body_of es)\<rparr>"
  by (induction es arbitrary: p) (simp_all add: callback_no_status append_fields_def)

text \<open>A status line as a server sends it.\<close>

definition status_line :: "string \<Rightarrow> string \<Rightarrow> string \<Rightarrow> string" where
  "status_line version code reason = version @ '' '' @ code @ (if reason = [] then [] else '' '' @ reason) @ [CHR 0x0D, CHR 0x0A]"

definition status_parts :: "string \<Rightarrow> string \<Rightarrow> string \<Rightarrow> bool" where
  "status_parts version code reason \<longleftrightarrow>
     version \<noteq> [] \<and> list_all (\<lambda>c. \<not> std_isspace c \<and> c \<noteq> CHR '':'') version \<and>
     length code = 3 \<and> list_all std_isdigit code \<and>
     CHR '':'' \<notin> set reason \<and> (reason = [] \<or> \<not> std_isspace (hd reason) \<and> \<not> std_isspace (last reason))"

lemma digit_no_colon: "std_isdigit c \<Longrightarrow> c \<noteq> CHR '':''"
  by (auto simp: std_isdigit_def byte_of_def)

lemma space_space: "std_isspace (CHR '' '')" "std_isspace (CHR 0x0D)" "std_isspace (CHR 0x0A)"
  by (simp_all add: std_isspace_def byte_of_def)

lemma trim_status_line:
  assumes "status_parts version code reason"
  shows "trim (status_line version code reason) = version @ '' '' @ code @ (if reason = [] then [] else '' '' @ reason)"
proof -
  let ?l = "version @ '' '' @ code @ (if reason = [] then [] else '' '' @ reason)"
  have hd: "\<not> std_isspace (hd ?l)" using assms by (cases version) (auto simp: status_parts_def)
  have "last ?l = (if reason = [] then last code else last reason)" using assms by (auto simp: status_parts_def)
  moreover have "last code \<in> set code" using assms by (intro last_in_set) (auto simp: status_parts_def)
  then have "\<not> std_isspace (last code)"
    using assms isdigit_not_space [of "last code"] by (simp add: status_parts_def list_all_iff)
  ultimately have l: "\<not> std_isspace (last ?l)" using assms by (auto simp: status_parts_def)
  have ne: "?l \<noteq> []" by simp
  have "dropWhile std_isspace (?l @ [CHR 0x0D, CHR 0x0A]) = ?l @ [CHR 0x0D, CHR 0x0A]"
    using hd ne by (intro dropWhile_hd) (cases version, simp_all)
  moreover have "dropWhile std_isspace (rev ?l) = rev ?l"
    using l unfolding hd_rev [symmetric] by (rule dropWhile_hd)
  ultimately show ?thesis
    by (simp add: status_line_def trim_def leftTrim_def rightTrim_def space_space)
qed

definition status_code :: "string \<Rightarrow> int32" where
  "status_code code = of_nat (digits_value 10 code)"

lemma three_digits:
  assumes "length code = 3" and "list_all std_isdigit code"
  shows "digit_int32 (code ! 0) * 100 + digit_int32 (code ! 1) * 10 + digit_int32 (code ! 2) = status_code code"
proof -
  obtain a b c where abc: "code = [a, b, c]" using assms(1) by (auto simp: numeral_3_eq_3 length_Suc_conv)
  have d: "digit_int32 x = of_nat (digit_value x)" if "std_isdigit x" for x
    using that by (simp add: digit_int32_def digit_value_def std_isdigit_def of_nat_diff)
  show ?thesis using assms(2) d by (simp add: abc status_code_def digits_value_def algebra_simps)
qed

lemma status_line_callback:
  assumes "status_parts version code reason"
  shows "callback (HeaderData (status_line version code reason)) p =
    p\<lparr>mResponseStatus := status_code code, mParsedReasonPhrase := reason, mParsedHeaders := [], mParsedBody := []\<rparr>"
proof -
  let ?rest = "code @ (if reason = [] then [] else '' '' @ reason)"
  let ?l = "version @ '' '' @ ?rest"
  have t: "trim (status_line version code reason) = ?l" by (rule trim_status_line [OF assms])
  have d: "list_all std_isdigit code" "length code = 3" and r: "reason = [] \<or> \<not> std_isspace (hd reason)"
    using assms by (auto simp: status_parts_def)
  obtain a b c where abc: "code = [a, b, c]" using d(2) by (auto simp: numeral_3_eq_3 length_Suc_conv)
  have "CHR '':'' \<notin> set code" using d(1) digit_no_colon by (auto simp: list_all_iff)
  then have "CHR '':'' \<notin> set ?l" using assms by (auto simp: status_parts_def list_all_iff)
  then have nc: "takeWhile (\<lambda>c. c \<noteq> CHR '':'') ?l = ?l" by (rule no_colon_takeWhile [THEN iffD2])
  have "dropWhile (\<lambda>c. \<not> std_isspace c) ?l = '' '' @ ?rest"
    using assms by (subst dropWhile_append2) (auto simp: status_parts_def list_all_iff space_space)
  moreover have "dropWhile std_isspace ('' '' @ ?rest) = ?rest"
    using d isdigit_not_space by (simp add: abc space_space)
  ultimately have rest: "dropWhile std_isspace (dropWhile (\<lambda>c. \<not> std_isspace c) ?l) = ?rest" by simp
  have sp: "dropWhile std_isspace reason = reason" using r by (cases reason) auto
  have "?rest ! 0 = a" "?rest ! 1 = b" "?rest ! 2 = c" "drop 3 ?rest = (if reason = [] then [] else '' '' @ reason)"
    by (simp_all add: abc)
  moreover have "length ?rest = 3 \<or> std_isspace (?rest ! 3)" by (simp add: abc space_space)
  moreover have "digit_int32 a * 100 + digit_int32 b * 10 + digit_int32 c = status_code code"
    using three_digits [OF d(2,1)] by (simp add: abc)
  ultimately have "parse_status_line ?l p =
      p\<lparr>mResponseStatus := status_code code, mParsedReasonPhrase := reason, mParsedHeaders := [], mParsedBody := []\<rparr>"
    using d(1) sp unfolding parse_status_line_def rest Let_def
    by (simp add: abc parser_clear_def headers_clear_def space_space)
  then show ?thesis unfolding callback_def curl_event.case responseHeaderData_def t Let_def nc by simp
qed

subsection \<open>Properties\<close>

text \<open>C29: Of the responses that libcurl reports for one request, as with redirections or an interim
  response, only the last one counts: the status code and reason phrase of its status line, the
  headers of the lines behind it, and the data of its body in order.\<close>

theorem last_response_counts:
  assumes "status_parts version code reason" and "list_all no_status_line after"
  shows "received url meth (before @ HeaderData (status_line version code reason) # after) =
    \<lparr>mRequestUri = mData url, mRequestMethod = getHttpMethodAsString meth, mStatusCode = status_code code, mReasonPhrase = reason,
     mResponseHeaders = append_fields (concat (map field_of after)) [], mResponseBody = concat (map body_of after)\<rparr>"
  by (simp add: received_def status_line_callback [OF assms(1)] fold_callback_no_status [OF assms(2)] HttpResponse.make_def)

lemma last_response_counts_witness:
  "received (UTF8String_of ''u'') GET
     [HeaderData ''HTTP/1.1 100'', HeaderData ''A: b'', BodyData ''x'', HeaderData (status_line ''HTTP/1.1'' ''200'' ''OK''),
      HeaderData ''Retry-After:5'', BodyData ''y'', BodyData ''z''] =
   \<lparr>mRequestUri = mData (UTF8String_of ''u''), mRequestMethod = ''GET'', mStatusCode = 200, mReasonPhrase = ''OK'',
    mResponseHeaders = [(''Retry-After'', [''5''])], mResponseBody = ''yz''\<rparr>"
proof -
  let ?a = "[HeaderData ''Retry-After:5'', BodyData ''y'', BodyData ''z'']"
  have t: "trim ''Retry-After:5'' = ''Retry-After:5''"
    by (rule trim_id) (simp_all add: std_isspace_def byte_of_def)
  have p: "status_parts ''HTTP/1.1'' ''200'' ''OK''"
    by (simp add: status_parts_def std_isspace_def std_isdigit_def byte_of_def)
  have a: "list_all no_status_line ?a" by (simp add: no_status_line_def t)
  have c: "status_code ''200'' = 200" by (simp add: status_code_def digits_value_def digit_value_def byte_of_def)
  have h: "append_fields (concat (map field_of ?a)) [] = [(''Retry-After'', [''5''])]"
    by (simp add: field_of_def t append_fields_def headers_appendHeader_def um_insert_def std_isspace_def byte_of_def)
  show ?thesis
    using last_response_counts [OF p a, of "UTF8String_of ''u''" GET "[HeaderData ''HTTP/1.1 100'', HeaderData ''A: b'', BodyData ''x'']"]
    unfolding h by (simp add: c body_of_def getHttpMethodAsString_def)
qed

subsection \<open>The outcome of a request\<close>

text \<open>The request of every attempt is the same, and so is the client it leaves behind.\<close>

lemma prepare_request_again:
  "prepare_request env url ip d meth (snd (prepare_request env url ip d meth c)) = prepare_request env url ip d meth c"
  by (simp add: prepare_request_def Let_def)

text \<open>The states in which the attempts are made, one after the other.\<close>

fun attempt_states :: "'w http_env \<Rightarrow> curl_request \<Rightarrow> 'w \<Rightarrow> nat \<Rightarrow> 'w" where
  "attempt_states env r w 0 = w"
| "attempt_states env r w (Suc n) = attempt_states env r (suspend env RETRY_SLEEP_TIME (snd (performs env r w))) n"

definition outcome_from ::
    "'d double_ops \<Rightarrow> 'w http_env \<Rightarrow> UTF8String \<Rightarrow> HttpMethod \<Rightarrow> curl_request \<Rightarrow> nat \<Rightarrow> 'w \<Rightarrow> (cpp_exception + StatusResponse) \<times> 'w" where
  "outcome_from fp env url meth r n w =
     (case find (\<lambda>k. fst (fst (performs env r (attempt_states env r w k)))) [0..<n] of
        None \<Rightarrow> (Inr unknownErrorResponse, attempt_states env r w n)
      | Some k \<Rightarrow> (handleResponse fp (received url meth (snd (fst (performs env r (attempt_states env r w k))))),
                  snd (performs env r (attempt_states env r w k))))"

lemma find_from_0: "find P [0..<Suc n] = (if P 0 then Some 0 else map_option Suc (find (\<lambda>k. P (Suc k)) [0..<n]))"
proof -
  have "find P (map Suc xs) = map_option Suc (find (\<lambda>k. P (Suc k)) xs)" for xs by (induction xs) auto
  moreover have "[0..<Suc n] = 0 # map Suc [0..<n]" unfolding map_Suc_upt by (rule upt_conv_Cons) simp
  ultimately show ?thesis by (simp del: upt_Suc)
qed

lemma outcome_from_unfold:
  "outcome_from fp env url meth r 0 w = (Inr unknownErrorResponse, w)"
  "outcome_from fp env url meth r (Suc n) w =
     (let ((ok, events), w1) = performs env r w in
      if ok then (handleResponse fp (received url meth events), w1)
      else outcome_from fp env url meth r n (suspend env RETRY_SLEEP_TIME w1))"
  by (simp_all add: outcome_from_def find_from_0 del: upt_Suc split: option.split prod.split)

lemma send_attempts_outcome:
  assumes "prepare_request env url ip d meth c = (r, c')" and "n < MAX_SEND_RETRIES"
  shows "send_attempts fp env url ip d meth n c w =
    (let (res, w') = outcome_from fp env url meth r (MAX_SEND_RETRIES - n) w in (res, c', w'))"
  using assms
proof (induction "MAX_SEND_RETRIES - n" arbitrary: n c w)
  case (Suc m)
  obtain ok events w1 where p: "performs env r w = ((ok, events), w1)" by (metis prod.exhaust)
  have again: "prepare_request env url ip d meth c' = (r, c')" using prepare_request_again [of env url ip d meth c] Suc.prems(1) by simp
  have IH: "send_attempts fp env url ip d meth (n + 1) c' w2 =
      (let (res, w') = outcome_from fp env url meth r m w2 in (res, c', w'))" if "n + 1 < MAX_SEND_RETRIES" for w2
  proof -
    have "m = MAX_SEND_RETRIES - (n + 1)" using Suc.hyps(2) by simp
    then show ?thesis using Suc.hyps(1) [OF _ again that, of w2] by simp
  qed
  have "send_attempts fp env url ip d meth n c w =
      (if ok then (handleResponse fp (received url meth events), c', w1)
       else if n + 1 < MAX_SEND_RETRIES then send_attempts fp env url ip d meth (n + 1) c' (suspend env RETRY_SLEEP_TIME w1)
       else (Inr unknownErrorResponse, c', suspend env RETRY_SLEEP_TIME w1))"
    using p Suc.prems(1) by (subst send_attempts.simps) simp
  moreover have "m = 0" if "\<not> n + 1 < MAX_SEND_RETRIES" using that Suc.hyps(2) by simp
  ultimately show ?case
    unfolding Suc.hyps(2) [symmetric] using p IH by (simp add: outcome_from_unfold)
qed simp

text \<open>C30: What a request returns, however libcurl, the server and the interceptors behave: if libcurl
  cannot be initialised or three transfers fail, the response with the largest status code; otherwise
  the response to the first transfer that succeeds, and then no further transfer is made. Nothing
  is thrown, but for the undefined behaviour of the response parser; a transfer whose data cannot be
  parsed gives the response with the largest status code as well.\<close>

theorem request_outcome:
  "sendRequestInternal fp env url ip d meth c w =
     (let (ok, w0) = easy_init env w; (r, c') = prepare_request env url ip d meth c in
      if \<not> ok then (Inr unknownErrorResponse, c, w0)
      else (case find (\<lambda>k. fst (fst (performs env r (attempt_states env r w0 k)))) [0, 1, 2] of
          None \<Rightarrow> (Inr unknownErrorResponse, c', attempt_states env r w0 3)
        | Some k \<Rightarrow> (handleResponse fp (received url meth (snd (fst (performs env r (attempt_states env r w0 k))))), c',
                    snd (performs env r (attempt_states env r w0 k))))) \<and>
   isErroneousResponse unknownErrorResponse \<and>
   (case handleResponse fp h of Inl e \<Rightarrow> \<exists>m. e = UndefinedBehaviour m
    | Inr s \<Rightarrow> StatusResponse.mResponseCode s = mStatusCode h \<or> s = unknownErrorResponse)"
proof -
  have three: "[0..<MAX_SEND_RETRIES] = [0, 1, 2]" "MAX_SEND_RETRIES = 3"
    by (simp_all add: MAX_SEND_RETRIES_def upt_rec)
  have "sendRequestInternal fp env url ip d meth c w =
     (let (ok, w0) = easy_init env w; (r, c') = prepare_request env url ip d meth c in
      if \<not> ok then (Inr unknownErrorResponse, c, w0)
      else (case find (\<lambda>k. fst (fst (performs env r (attempt_states env r w0 k)))) [0, 1, 2] of
          None \<Rightarrow> (Inr unknownErrorResponse, c', attempt_states env r w0 3)
        | Some k \<Rightarrow> (handleResponse fp (received url meth (snd (fst (performs env r (attempt_states env r w0 k))))), c',
                    snd (performs env r (attempt_states env r w0 k)))))"
  proof -
    obtain ok w0 where i: "easy_init env w = (ok, w0)" by (metis prod.exhaust)
    obtain r c' where p: "prepare_request env url ip d meth c = (r, c')" by (metis prod.exhaust)
    have "send_attempts fp env url ip d meth 0 c w0 =
        (let (res, w') = outcome_from fp env url meth r MAX_SEND_RETRIES w0 in (res, c', w'))"
      using send_attempts_outcome [OF p, of 0 fp w0] by (simp add: MAX_SEND_RETRIES_def)
    then show ?thesis
      unfolding outcome_from_def three(1) by (simp add: sendRequestInternal_def i p three(2) split: option.split)
  qed
  moreover have "isErroneousResponse unknownErrorResponse"
    by (simp add: unknownErrorResponse_def createErrorResponse_def isErroneousResponse_def)
  moreover have "case handleResponse fp h of Inl e \<Rightarrow> \<exists>m. e = UndefinedBehaviour m
    | Inr s \<Rightarrow> StatusResponse.mResponseCode s = mStatusCode h \<or> s = unknownErrorResponse"
    by (auto simp: handleResponse_def createErrorResponse_def createSuccessResponse_def split: sum.split cpp_exception.split)
  ultimately show ?thesis by blast
qed

end
