(* ===== verification/Event_Payload.thy ===== *)
theory Event_Payload
  imports Json_Text Http_Transfer
begin

text \<open>
  The payload of events (src/core/objects/EventPayloadBuilder.cxx,
  src/core/util/EventPayloadBuilderUtil.cxx) and the supplementary data of a beacon
  (src/core/objects/SupplementaryBasicData.cxx). A null pointer in place of a JSON value is \<open>None\<close>.
\<close>

subsection \<open>The builder\<close>

definition EventPayloadBuilder_new :: "'d JsonObjectMap option \<Rightarrow> 'd JsonObjectMap" where
  "EventPayloadBuilder_new attributes =
     (case attributes of None \<Rightarrow> [] | Some m \<Rightarrow> fold (\<lambda>(k, v). um_insert (=) k v) m [])"

definition addOverridableAttribute :: "string \<Rightarrow> 'd JsonValue option \<Rightarrow> 'd JsonObjectMap \<Rightarrow> 'd JsonObjectMap" where
  "addOverridableAttribute key v m =
     (if v \<noteq> None then if um_find (=) key m = None then um_insert (=) key v m else m else m)"

definition addNonOverridableAttribute :: "string \<Rightarrow> 'd JsonValue option \<Rightarrow> 'd JsonObjectMap \<Rightarrow> 'd JsonObjectMap" where
  "addNonOverridableAttribute key v m = (if v \<noteq> None then um_put (=) key v m else m)"

definition starts_with :: "string \<Rightarrow> string \<Rightarrow> bool" where
  "starts_with p s \<longleftrightarrow> take (length p) s = p"

definition reserved_attribute :: "string \<Rightarrow> bool" where
  "reserved_attribute k \<longleftrightarrow> k = ''dt'' \<or> starts_with ''dt.'' k \<and> \<not> starts_with ''dt.agent.'' k"

definition cleanReservedInternalAttributes :: "'d JsonObjectMap \<Rightarrow> 'd JsonObjectMap" where
  "cleanReservedInternalAttributes m = filter (\<lambda>(k, v). \<not> reserved_attribute k) m"

definition payload_build :: "'d double_ops \<Rightarrow> 'd JsonObjectMap \<Rightarrow> string option" where
  "payload_build fp m = value_toString fp (JsonObjectValue m)"

text \<open>\<open>None\<close>: a null pointer is dereferenced before a number that is not finite is found.\<close>

fun isItemContainingNonFiniteNumericValues :: "'d double_ops \<Rightarrow> 'd JsonValue \<Rightarrow> bool option"
  and isArrayContainingNonFiniteNumericValues :: "'d double_ops \<Rightarrow> 'd JsonValue option list \<Rightarrow> bool option"
  and isObjectContainingNonFiniteNumericValues :: "'d double_ops \<Rightarrow> (string \<times> 'd JsonValue option) list \<Rightarrow> bool option" where
  "isItemContainingNonFiniteNumericValues fp (JsonObjectValue m) = isObjectContainingNonFiniteNumericValues fp m"
| "isItemContainingNonFiniteNumericValues fp (JsonArrayValue vs) = isArrayContainingNonFiniteNumericValues fp vs"
| "isItemContainingNonFiniteNumericValues fp (JsonNumber n) = Some (\<not> isFinite fp n)"
| "isItemContainingNonFiniteNumericValues fp _ = Some False"
| "isArrayContainingNonFiniteNumericValues fp [] = Some False"
| "isArrayContainingNonFiniteNumericValues fp (None # vs) = None"
| "isArrayContainingNonFiniteNumericValues fp (Some v # vs) =
     (case isItemContainingNonFiniteNumericValues fp v of
        Some False \<Rightarrow> isArrayContainingNonFiniteNumericValues fp vs | r \<Rightarrow> r)"
| "isObjectContainingNonFiniteNumericValues fp [] = Some False"
| "isObjectContainingNonFiniteNumericValues fp ((k, None) # m) = None"
| "isObjectContainingNonFiniteNumericValues fp ((k, Some v) # m) =
     (case isItemContainingNonFiniteNumericValues fp v of
        Some False \<Rightarrow> isObjectContainingNonFiniteNumericValues fp m | r \<Rightarrow> r)"

definition isEventContainingNonFiniteNumericValues :: "'d double_ops \<Rightarrow> 'd JsonObjectMap \<Rightarrow> bool option" where
  "isEventContainingNonFiniteNumericValues fp m = isObjectContainingNonFiniteNumericValues fp m"

subsection \<open>Supplementary data\<close>

datatype ConnectionType = MOBILE | WIFI | OFFLINE | LAN | UNSET

definition ConnectionTypeToString :: "ConnectionType \<Rightarrow> string" where
  "ConnectionTypeToString cT = (case cT of MOBILE \<Rightarrow> ''m'' | WIFI \<Rightarrow> ''w'' | OFFLINE \<Rightarrow> ''o'' | LAN \<Rightarrow> ''l'' | UNSET \<Rightarrow> [])"

record SupplementaryBasicData =
  mCarrier :: UTF8String
  mNetworkTechnology :: UTF8String
  mConnectionType :: ConnectionType
  mCarrierAvailable :: bool
  mNetworkTechnologyAvailable :: bool
  mConnectionTypeAvailable :: bool

definition SupplementaryBasicData_new :: SupplementaryBasicData where
  "SupplementaryBasicData_new =
     \<lparr>mCarrier = UTF8String_empty, mNetworkTechnology = UTF8String_empty, mConnectionType = UNSET,
      mCarrierAvailable = False, mNetworkTechnologyAvailable = False, mConnectionTypeAvailable = False\<rparr>"

definition setCarrier :: "UTF8String \<Rightarrow> SupplementaryBasicData \<Rightarrow> SupplementaryBasicData" where
  "setCarrier carrier d = d\<lparr>mCarrier := carrier, mCarrierAvailable := True\<rparr>"

definition resetCarrier :: "SupplementaryBasicData \<Rightarrow> SupplementaryBasicData" where
  "resetCarrier d = d\<lparr>mCarrierAvailable := False\<rparr>"

definition setNetworkTechnology :: "UTF8String \<Rightarrow> SupplementaryBasicData \<Rightarrow> SupplementaryBasicData" where
  "setNetworkTechnology technology d = d\<lparr>mNetworkTechnology := technology, mNetworkTechnologyAvailable := True\<rparr>"

definition resetNetworkTechnology :: "SupplementaryBasicData \<Rightarrow> SupplementaryBasicData" where
  "resetNetworkTechnology d = d\<lparr>mNetworkTechnologyAvailable := False\<rparr>"

definition setConnectionType :: "ConnectionType \<Rightarrow> SupplementaryBasicData \<Rightarrow> SupplementaryBasicData" where
  "setConnectionType connectionType d = d\<lparr>mConnectionType := connectionType, mConnectionTypeAvailable := True\<rparr>"

definition resetConnectionType :: "SupplementaryBasicData \<Rightarrow> SupplementaryBasicData" where
  "resetConnectionType d = d\<lparr>mConnectionTypeAvailable := False\<rparr>"

subsection \<open>Lookups\<close>

lemma found_insert: "um_find (=) k (um_insert (=) k' v m) =
    (case um_find (=) k m of Some w \<Rightarrow> Some w | None \<Rightarrow> if k' = k then Some v else None)"
  by (auto simp: um_insert_def um_find_append split: option.split)

lemma found_put: "um_find (=) k (um_put (=) k' v m) = (if k' = k then Some v else um_find (=) k m)"
  by (induction m) auto

lemma find_overridable:
  "um_find (=) k (addOverridableAttribute k' (Some v) m) =
     (case um_find (=) k m of Some w \<Rightarrow> Some w | None \<Rightarrow> if k' = k then Some (Some v) else None)"
  by (auto simp: addOverridableAttribute_def found_insert split: option.split)

lemma find_non_overridable:
  "um_find (=) k (addNonOverridableAttribute k' (Some v) m) = (if k' = k then Some (Some v) else um_find (=) k m)"
  by (simp add: addNonOverridableAttribute_def found_put)

lemma find_clean:
  "um_find (=) k (cleanReservedInternalAttributes m) = (if reserved_attribute k then None else um_find (=) k m)"
  by (induction m) (auto simp: cleanReservedInternalAttributes_def)

lemma find_given: "um_find (=) k (EventPayloadBuilder_new (Some m)) = um_find (=) k m"
proof -
  have "um_find (=) k (fold (\<lambda>(k, v). um_insert (=) k v) m n) =
      (case um_find (=) k n of Some w \<Rightarrow> Some w | None \<Rightarrow> um_find (=) k m)" for n
    by (induction m arbitrary: n) (auto simp: found_insert split: option.split)
  then show ?thesis by (simp add: EventPayloadBuilder_new_def)
qed

lemma find_nothing_given: "um_find (=) k (EventPayloadBuilder_new None) = None"
  by (simp add: EventPayloadBuilder_new_def)

lemmas payload_finds = find_overridable find_non_overridable find_clean

end
