(* ===== verification/Beacon_Data.thy ===== *)
theory Beacon_Data
  imports Configuration Inet_Address Event_Payload Beacon_Send
begin

text \<open>
  The data a beacon adds to the cache: \<^verbatim>\<open>protocol::Beacon\<close> (src/protocol/Beacon.cxx), each function
  with its guards, its exceptions and the text it builds. What a call reads of the thread, the
  clock and the random generator is an argument.
\<close>

subsection \<open>State\<close>

record Beacon =
  mBeaconConfiguration :: BeaconConfiguration
  mUseClientIpAddress :: bool
  mClientIPAddress :: UTF8String
  mDeviceID :: int64
  mSequenceNumber :: int32
  mID :: int32
  mBeaconKey :: BeaconKey
  mTrafficControlValue :: int32
  mSessionNumber :: int32
  mSessionSequenceNumber :: int32
  mSessionStartTime :: int64
  mImmutableData :: UTF8String

text \<open>A call reads each provider at most once.\<close>

record readings =
  threadID :: int32
  now :: int64
  nanoseconds :: int64

datatype EventType = ACTION | VALUE_STRING | VALUE_INT | VALUE_DOUBLE | NAMED_EVENT | SESSION_START | SESSION_END | WEBREQUEST
| FAILURE_ERROR | FAILURE_EXCEPTION | FAILURE_CRASH | IDENTIFY_USER | EVENT

fun event_number :: "EventType \<Rightarrow> int" where
  "event_number ACTION = 1" | "event_number VALUE_STRING = 11" | "event_number VALUE_INT = 12"
| "event_number VALUE_DOUBLE = 13" | "event_number NAMED_EVENT = 10" | "event_number SESSION_START = 18"
| "event_number SESSION_END = 19" | "event_number WEBREQUEST = 30" | "event_number FAILURE_ERROR = 40"
| "event_number FAILURE_EXCEPTION = 42" | "event_number FAILURE_CRASH = 50" | "event_number IDENTIFY_USER = 60"
| "event_number EVENT = 98"

definition MAX_NAME_LEN :: nat where "MAX_NAME_LEN = 250"
definition MAX_REASON_LEN :: nat where "MAX_REASON_LEN = 1000"
definition MAX_STACKTRACE_LEN :: nat where "MAX_STACKTRACE_LEN = 128000"
definition EVENT_PAYLOAD_BYTES_LENGTH :: nat where "EVENT_PAYLOAD_BYTES_LENGTH = 16 * 1024"

definition privacy :: "Beacon \<Rightarrow> PrivacyConfiguration" where
  "privacy b = bcPrivacyConfiguration (mBeaconConfiguration b)"

definition server :: "Beacon \<Rightarrow> ServerConfiguration" where
  "server b = getServerConfiguration (mBeaconConfiguration b)"

subsection \<open>Keys and values\<close>

definition appendKey :: "string \<Rightarrow> UTF8String \<Rightarrow> UTF8String" where
  "appendKey key s =
     (let s = (if utf8_isEmpty s then s else concatenate_ptr s ''&'')
      in concatenate_ptr (concatenate s (UTF8String_of key)) ''='')"

definition addKeyValuePair :: "string \<Rightarrow> UTF8String \<Rightarrow> UTF8String \<Rightarrow> UTF8String" where
  "addKeyValuePair key val s = concatenate (appendKey key s) (urlencode val ''_'')"

definition addKeyValuePairIfNotEmpty :: "string \<Rightarrow> UTF8String \<Rightarrow> UTF8String \<Rightarrow> UTF8String" where
  "addKeyValuePairIfNotEmpty key val s = (if mStringLength val > 0 then addKeyValuePair key val s else s)"

definition addKeyNumber :: "string \<Rightarrow> int \<Rightarrow> UTF8String \<Rightarrow> UTF8String" where
  "addKeyNumber key i s = addKeyValuePair key (toInvariantString i) s"

text \<open>A double is printed in fixed notation, and zeros and then dots are cut at the end.\<close>

definition trim_fixed :: "string \<Rightarrow> string" where
  "trim_fixed s = rev (dropWhile (\<lambda>c. c = CHR ''.'') (dropWhile (\<lambda>c. c = CHR ''0'') (rev s)))"

definition addKeyDouble :: "string \<Rightarrow> string \<Rightarrow> UTF8String \<Rightarrow> UTF8String" where
  "addKeyDouble key fixed s = addKeyValuePair key (UTF8String_of (trim_fixed fixed)) s"

definition truncate_to :: "nat \<Rightarrow> UTF8String \<Rightarrow> UTF8String" where
  "truncate_to len s = (if mStringLength s > len then substring s 0 len else s)"

definition truncate_name :: "UTF8String \<Rightarrow> UTF8String" where
  "truncate_name s = truncate_to MAX_NAME_LEN s"

text \<open>The last line break at or before a position: a position in bytes.\<close>

definition find_last_of_until :: "char \<Rightarrow> nat \<Rightarrow> string \<Rightarrow> nat option" where
  "find_last_of_until c pos s = find (\<lambda>i. s ! i = c) (rev [0..<min (pos + 1) (length s)])"

definition stack_trace_limit :: "UTF8String \<Rightarrow> nat" where
  "stack_trace_limit s =
     (if mStringLength s > MAX_STACKTRACE_LEN
      then (case find_last_of_until (CHR 0x0A) MAX_STACKTRACE_LEN (mData s) of None \<Rightarrow> MAX_STACKTRACE_LEN | Some i \<Rightarrow> i)
      else MAX_STACKTRACE_LEN)"

definition createSequenceNumber :: "Beacon \<Rightarrow> int32 \<times> Beacon" where
  "createSequenceNumber b = (mSequenceNumber b + 1, b\<lparr>mSequenceNumber := mSequenceNumber b + 1\<rparr>)"

definition createID :: "Beacon \<Rightarrow> int32 \<times> Beacon" where
  "createID b = (mID b + 1, b\<lparr>mID := mID b + 1\<rparr>)"

definition getTimeSinceSessionStartTime :: "int64 \<Rightarrow> Beacon \<Rightarrow> int64" where
  "getTimeSinceSessionStartTime timestamp b = timestamp - mSessionStartTime b"

definition createBasicEventDataWithoutName :: "readings \<Rightarrow> EventType \<Rightarrow> UTF8String" where
  "createBasicEventDataWithoutName rd eventType =
     addKeyNumber ''it'' (sint (threadID rd)) (addKeyNumber ''et'' (event_number eventType) UTF8String_empty)"

definition createBasicEventData :: "readings \<Rightarrow> EventType \<Rightarrow> UTF8String \<Rightarrow> UTF8String" where
  "createBasicEventData rd eventType eventName =
     (let eventData = createBasicEventDataWithoutName rd eventType in
      if utf8_isEmpty eventName then eventData else addKeyValuePair ''na'' (truncate_name eventName) eventData)"

text \<open>The parent action, the start sequence number and the time, in the order of \<open>buildEvent\<close>.\<close>

definition addStart :: "int32 \<Rightarrow> int32 \<Rightarrow> int64 \<Rightarrow> UTF8String \<Rightarrow> UTF8String" where
  "addStart parentActionID sequenceNumber time s =
     addKeyNumber ''t0'' (sint time) (addKeyNumber ''s0'' (sint sequenceNumber) (addKeyNumber ''pa'' (sint parentActionID) s))"

definition buildEvent :: "readings \<Rightarrow> EventType \<Rightarrow> UTF8String \<Rightarrow> int32 \<Rightarrow> Beacon \<Rightarrow> UTF8String \<times> Beacon" where
  "buildEvent rd eventType name parentActionID b =
     (let eventData = createBasicEventData rd eventType name;
          (sequenceNumber, b) = createSequenceNumber b
      in (addStart parentActionID sequenceNumber (getTimeSinceSessionStartTime (now rd) b) eventData, b))"

subsection \<open>What is captured\<close>

definition isDataCapturingEnabled :: "Beacon \<Rightarrow> bool" where
  "isDataCapturingEnabled b \<longleftrightarrow>
     isSendingDataAllowed (server b) \<and> sint (mTrafficControlValue b) < sint (scTrafficControlPercentage (server b))"

definition isErrorCapturingEnabled :: "Beacon \<Rightarrow> bool" where
  "isErrorCapturingEnabled b \<longleftrightarrow>
     isSendingErrorsAllowed (server b) \<and> sint (mTrafficControlValue b) < sint (scTrafficControlPercentage (server b))"

definition isCrashCapturingEnabled :: "Beacon \<Rightarrow> bool" where
  "isCrashCapturingEnabled b \<longleftrightarrow>
     isSendingCrashesAllowed (server b) \<and> sint (mTrafficControlValue b) < sint (scTrafficControlPercentage (server b))"

definition isActionReportingAllowedByPrivacySettings :: "Beacon \<Rightarrow> bool" where
  "isActionReportingAllowedByPrivacySettings b \<longleftrightarrow> isActionReportingAllowed (privacy b)"

definition beacon_addEventData :: "int64 \<Rightarrow> UTF8String \<Rightarrow> Beacon \<Rightarrow> BeaconCache \<Rightarrow> BeaconCache" where
  "beacon_addEventData timestamp eventData b c =
     (if isDataCapturingEnabled b then addEventData (mBeaconKey b) timestamp eventData c else c)"

definition beacon_addActionData :: "int64 \<Rightarrow> UTF8String \<Rightarrow> Beacon \<Rightarrow> BeaconCache \<Rightarrow> BeaconCache" where
  "beacon_addActionData timestamp actionData b c =
     (if isDataCapturingEnabled b then addActionData (mBeaconKey b) timestamp actionData c else c)"

type_synonym beacon_call = "Beacon \<Rightarrow> BeaconCache \<Rightarrow> cpp_exception + Beacon \<times> BeaconCache"

subsection \<open>Actions and sessions\<close>

text \<open>What the beacon reads of an action that ends.\<close>

record ActionView =
  avName :: UTF8String
  avID :: int32
  avParentID :: int32
  avStartSequenceNumber :: int32
  avStartTime :: int64
  avEndSequenceNumber :: int32
  avEndTime :: int64

definition addAction :: "readings \<Rightarrow> ActionView option \<Rightarrow> beacon_call" where
  "addAction rd action b c =
     (case action of
        None \<Rightarrow> Inl (InvalidArgument ''action is nullptr or action->getName().empty() is true'')
      | Some a \<Rightarrow>
          if utf8_isEmpty (avName a) then Inl (InvalidArgument ''action is nullptr or action->getName().empty() is true'')
          else if \<not> isActionReportingAllowed (privacy b) then Inr (b, c)
          else if \<not> isDataCapturingEnabled b then Inr (b, c)
          else
            (let d = createBasicEventData rd ACTION (avName a);
                 d = addKeyNumber ''ca'' (sint (avID a)) d;
                 d = addStart (avParentID a) (avStartSequenceNumber a) (getTimeSinceSessionStartTime (avStartTime a) b) d;
                 d = addKeyNumber ''s1'' (sint (avEndSequenceNumber a)) d;
                 d = addKeyNumber ''t1'' (sint (avEndTime a - avStartTime a)) d
             in Inr (b, beacon_addActionData (avStartTime a) d b c)))"

definition beacon_startSession :: "readings \<Rightarrow> beacon_call" where
  "beacon_startSession rd b c =
     (if \<not> isDataCapturingEnabled b then Inr (b, c)
      else
        (let d = createBasicEventDataWithoutName rd SESSION_START;
             (sequenceNumber, b) = createSequenceNumber b
         in Inr (b, beacon_addEventData (mSessionStartTime b) (addStart 0 sequenceNumber 0 d) b c)))"

definition beacon_endSession :: "readings \<Rightarrow> beacon_call" where
  "beacon_endSession rd b c =
     (if \<not> isSessionReportingAllowed (privacy b) then Inr (b, c)
      else if \<not> isDataCapturingEnabled b then Inr (b, c)
      else
        (let d = createBasicEventDataWithoutName rd SESSION_END;
             (sequenceNumber, b) = createSequenceNumber b
         in Inr (b, beacon_addEventData (now rd) (addStart 0 sequenceNumber (getTimeSinceSessionStartTime (now rd) b) d) b c)))"

subsection \<open>Values and events\<close>

text \<open>The three functions for values and the one for events have the same shape.\<close>

definition reportValue_long :: "readings \<Rightarrow> int32 \<Rightarrow> UTF8String \<Rightarrow> int64 \<Rightarrow> beacon_call" where
  "reportValue_long rd actionID valueName val b c =
     (if utf8_isEmpty valueName then Inl (InvalidArgument ''valueName.empty() is true'')
      else if \<not> isValueReportingAllowed (privacy b) then Inr (b, c)
      else if \<not> isDataCapturingEnabled b then Inr (b, c)
      else
        (let (d, b) = buildEvent rd VALUE_INT valueName actionID b
         in Inr (b, beacon_addEventData (now rd) (addKeyNumber ''vl'' (sint val) d) b c)))"

definition reportValue_int :: "readings \<Rightarrow> int32 \<Rightarrow> UTF8String \<Rightarrow> int32 \<Rightarrow> beacon_call" where
  "reportValue_int rd actionID valueName val = reportValue_long rd actionID valueName (scast val)"

text \<open>The double comes as its text in fixed notation.\<close>

definition reportValue_double :: "readings \<Rightarrow> int32 \<Rightarrow> UTF8String \<Rightarrow> string \<Rightarrow> beacon_call" where
  "reportValue_double rd actionID valueName fixed b c =
     (if utf8_isEmpty valueName then Inl (InvalidArgument ''valueName.empty() is true'')
      else if \<not> isValueReportingAllowed (privacy b) then Inr (b, c)
      else if \<not> isDataCapturingEnabled b then Inr (b, c)
      else
        (let (d, b) = buildEvent rd VALUE_DOUBLE valueName actionID b
         in Inr (b, beacon_addEventData (now rd) (addKeyDouble ''vl'' fixed d) b c)))"

definition reportValue_string :: "readings \<Rightarrow> int32 \<Rightarrow> UTF8String \<Rightarrow> UTF8String \<Rightarrow> beacon_call" where
  "reportValue_string rd actionID valueName val b c =
     (if utf8_isEmpty valueName then Inl (InvalidArgument ''valueName.empty() is true'')
      else if \<not> isValueReportingAllowed (privacy b) then Inr (b, c)
      else if \<not> isDataCapturingEnabled b then Inr (b, c)
      else
        (let (d, b) = buildEvent rd VALUE_STRING valueName actionID b
         in Inr (b, beacon_addEventData (now rd) (addKeyValuePairIfNotEmpty ''vl'' val d) b c)))"

definition reportEvent :: "readings \<Rightarrow> int32 \<Rightarrow> UTF8String \<Rightarrow> beacon_call" where
  "reportEvent rd actionID eventName b c =
     (if utf8_isEmpty eventName then Inl (InvalidArgument ''eventName.empty() is true'')
      else if \<not> isEventReportingAllowed (privacy b) then Inr (b, c)
      else if \<not> isDataCapturingEnabled b then Inr (b, c)
      else
        (let (d, b) = buildEvent rd NAMED_EVENT eventName actionID b
         in Inr (b, beacon_addEventData (now rd) d b c)))"

subsection \<open>Errors and crashes\<close>

definition reportError_code :: "readings \<Rightarrow> int32 \<Rightarrow> UTF8String \<Rightarrow> int32 \<Rightarrow> beacon_call" where
  "reportError_code rd actionID errorName errorCode b c =
     (if utf8_isEmpty errorName then Inl (InvalidArgument ''errorName.empty() is true'')
      else if \<not> isErrorReportingAllowed (privacy b) then Inr (b, c)
      else if \<not> isErrorCapturingEnabled b then Inr (b, c)
      else
        (let d = createBasicEventData rd FAILURE_ERROR errorName;
             (sequenceNumber, b) = createSequenceNumber b;
             d = addStart actionID sequenceNumber (getTimeSinceSessionStartTime (now rd) b) d;
             d = addKeyNumber ''ev'' (sint errorCode) d;
             d = addKeyValuePair ''tt'' (UTF8String_of ''c'') d
         in Inr (b, beacon_addEventData (now rd) d b c)))"

definition reportError_cause :: "readings \<Rightarrow> int32 \<Rightarrow> UTF8String \<Rightarrow> UTF8String \<Rightarrow> UTF8String \<Rightarrow> UTF8String \<Rightarrow> beacon_call" where
  "reportError_cause rd actionID errorName causeName causeDescription causeStackTrace b c =
     (if utf8_isEmpty errorName then Inl (InvalidArgument ''errorName.empty() is true'')
      else if \<not> isErrorReportingAllowed (privacy b) then Inr (b, c)
      else if \<not> isErrorCapturingEnabled b then Inr (b, c)
      else
        (let maxStackTraceLength = stack_trace_limit causeStackTrace;
             d = createBasicEventData rd FAILURE_EXCEPTION errorName;
             (sequenceNumber, b) = createSequenceNumber b;
             d = addStart actionID sequenceNumber (getTimeSinceSessionStartTime (now rd) b) d;
             d = addKeyValuePairIfNotEmpty ''ev'' causeName d;
             d = addKeyValuePairIfNotEmpty ''rs'' (truncate_to MAX_REASON_LEN causeDescription) d;
             d = addKeyValuePairIfNotEmpty ''st'' (truncate_to maxStackTraceLength causeStackTrace) d;
             d = addKeyValuePair ''tt'' (UTF8String_of ''c'') d
         in Inr (b, beacon_addEventData (now rd) d b c)))"

definition beacon_reportCrash :: "readings \<Rightarrow> UTF8String \<Rightarrow> UTF8String \<Rightarrow> UTF8String \<Rightarrow> beacon_call" where
  "beacon_reportCrash rd errorName reason stacktrace b c =
     (if utf8_isEmpty errorName then Inl (InvalidArgument ''errorName.empty() is true'')
      else if \<not> isCrashReportingAllowed (privacy b) then Inr (b, c)
      else if \<not> isCrashCapturingEnabled b then Inr (b, c)
      else
        (let maxStackTraceLength = stack_trace_limit stacktrace;
             d = createBasicEventData rd FAILURE_CRASH errorName;
             (sequenceNumber, b) = createSequenceNumber b;
             d = addStart 0 sequenceNumber (getTimeSinceSessionStartTime (now rd) b) d;
             d = addKeyValuePairIfNotEmpty ''rs'' (truncate_to MAX_REASON_LEN reason) d;
             d = addKeyValuePairIfNotEmpty ''st'' (truncate_to maxStackTraceLength stacktrace) d;
             d = addKeyValuePair ''tt'' (UTF8String_of ''c'') d
         in Inr (b, beacon_addEventData (now rd) d b c)))"

subsection \<open>Web requests and users\<close>

text \<open>What the beacon reads of a web request tracer that stops; it assigns the two counts to an \<^verbatim>\<open>int32_t\<close>.\<close>

record WebRequestView =
  wvURL :: UTF8String
  wvStartSequenceNo :: int32
  wvStartTime :: int64
  wvEndSequenceNo :: int32
  wvEndTime :: int64
  wvBytesSent :: int64
  wvBytesReceived :: int64
  wvResponseCode :: int32

definition addKeyNumberIfSet :: "string \<Rightarrow> int32 \<Rightarrow> UTF8String \<Rightarrow> UTF8String" where
  "addKeyNumberIfSet key n s = (if sint n > -1 then addKeyNumber key (sint n) s else s)"

definition addWebRequest :: "readings \<Rightarrow> int32 \<Rightarrow> WebRequestView option \<Rightarrow> beacon_call" where
  "addWebRequest rd parentActionID webRequestTracer b c =
     (let e = Inl (InvalidArgument ''webRequestTracer == nullptr || webRequestTracer->getURL().empty() is true'') in
      case webRequestTracer of
        None \<Rightarrow> e
      | Some t \<Rightarrow>
          if utf8_isEmpty (wvURL t) then e
          else if \<not> isWebRequestTracingAllowed (privacy b) then Inr (b, c)
          else if \<not> isDataCapturingEnabled b then Inr (b, c)
          else
            (let d = createBasicEventData rd WEBREQUEST (wvURL t);
                 d = addStart parentActionID (wvStartSequenceNo t) (getTimeSinceSessionStartTime (wvStartTime t) b) d;
                 d = addKeyNumber ''s1'' (sint (wvEndSequenceNo t)) d;
                 d = addKeyNumber ''t1'' (sint (wvEndTime t - wvStartTime t)) d;
                 d = addKeyNumberIfSet ''bs'' (scast (wvBytesSent t)) d;
                 d = addKeyNumberIfSet ''br'' (scast (wvBytesReceived t)) d;
                 d = addKeyNumberIfSet ''rc'' (wvResponseCode t) d
             in Inr (b, beacon_addEventData (wvStartTime t) d b c)))"

definition beacon_identifyUser :: "readings \<Rightarrow> UTF8String \<Rightarrow> beacon_call" where
  "beacon_identifyUser rd userTag b c =
     (if \<not> isUserIdentificationAllowed (privacy b) then Inr (b, c)
      else if \<not> isDataCapturingEnabled b then Inr (b, c)
      else
        (let d = (if utf8_isEmpty userTag then createBasicEventDataWithoutName rd IDENTIFY_USER
                  else createBasicEventData rd IDENTIFY_USER userTag);
             (sequenceNumber, b) = createSequenceNumber b
         in Inr (b, beacon_addEventData (now rd) (addStart 0 sequenceNumber (getTimeSinceSessionStartTime (now rd) b) d) b c)))"

subsection \<open>Events of the application\<close>

definition sendEventPayload :: "'d double_ops \<Rightarrow> readings \<Rightarrow> 'd JsonObjectMap \<Rightarrow> beacon_call" where
  "sendEventPayload fp rd builder b c =
     (case payload_build fp builder of
        None \<Rightarrow> Inl (UndefinedBehaviour ''null pointer dereferenced'')
      | Some jsonPayload \<Rightarrow>
          if length jsonPayload > EVENT_PAYLOAD_BYTES_LENGTH
          then Inl (InvalidArgument (''Event payload is exceeding '' @ show_int (int EVENT_PAYLOAD_BYTES_LENGTH) @ '' bytes!''))
          else
            Inr (b, beacon_addEventData (now rd)
              (addKeyValuePair ''pl'' (UTF8String_of jsonPayload) (addKeyNumber ''et'' (event_number EVENT) UTF8String_empty)) b c))"

definition json_string :: "string \<Rightarrow> 'd JsonValue option" where
  "json_string s = Some (JsonStringValue s)"

definition device_id_text :: "Beacon \<Rightarrow> string" where
  "device_id_text b = show_int (sint (mDeviceID b))"

definition generateEventPayload :: "'d double_ops \<Rightarrow> readings \<Rightarrow> Beacon \<Rightarrow> 'd JsonObjectMap \<Rightarrow> 'd JsonObjectMap" where
  "generateEventPayload fp rd b m =
     (let ok = bcOpenKitConfiguration (mBeaconConfiguration b);
          m = addOverridableAttribute ''timestamp'' (Some (JsonNumber (fromLong fp (nanoseconds rd)))) m;
          m = addNonOverridableAttribute ''dt.rum.application.id'' (json_string (mData (okApplicationId ok))) m;
          m = addNonOverridableAttribute ''dt.rum.instance.id'' (json_string (device_id_text b)) m;
          m = addNonOverridableAttribute ''dt.rum.sid'' (json_string (device_id_text b @ ''_'' @ show_int (sint (mSessionNumber b)))) m;
          m = addNonOverridableAttribute ''dt.rum.schema_version'' (json_string ''1.3'') m;
          m = addOverridableAttribute ''app.version'' (json_string (mData (okApplicationVersion ok))) m;
          m = addOverridableAttribute ''os.name'' (json_string (mData (okOperatingSystem ok))) m;
          m = addOverridableAttribute ''device.manufacturer'' (json_string (mData (okManufacturer ok))) m;
          m = addOverridableAttribute ''device.model.identifier'' (json_string (mData (okModelId ok))) m
      in addOverridableAttribute ''event.provider'' (json_string (mData (okApplicationId ok))) m)"

text \<open>The end of both functions: an attribute tells of numbers that are not finite.\<close>

definition sendChecked :: "'d double_ops \<Rightarrow> readings \<Rightarrow> 'd JsonObjectMap \<Rightarrow> beacon_call" where
  "sendChecked fp rd m b c =
     (case isEventContainingNonFiniteNumericValues fp m of
        None \<Rightarrow> Inl (UndefinedBehaviour ''null pointer dereferenced'')
      | Some nfn \<Rightarrow>
          sendEventPayload fp rd
            (if nfn then addNonOverridableAttribute ''dt.rum.has_nfn_values'' (Some (JsonBooleanValue True)) m else m) b c)"

definition bizEventPayload :: "'d double_ops \<Rightarrow> readings \<Rightarrow> nat \<Rightarrow> Beacon \<Rightarrow> 'd JsonObjectMap \<Rightarrow> 'd JsonObjectMap" where
  "bizEventPayload fp rd n b m =
     (let m = cleanReservedInternalAttributes m;
          m = addNonOverridableAttribute ''dt.rum.custom_attributes_size'' (Some (JsonNumber (fromLong fp (of_nat n)))) m;
          m = generateEventPayload fp rd b m
      in addNonOverridableAttribute ''event.kind'' (json_string ''BIZ_EVENT'') m)"

definition sendBizEvent :: "'d double_ops \<Rightarrow> readings \<Rightarrow> UTF8String \<Rightarrow> 'd JsonObjectMap option \<Rightarrow> beacon_call" where
  "sendBizEvent fp rd eventType attributes b c =
     (if utf8_isEmpty eventType then Inl (InvalidArgument ''type.empty() is true'')
      else if \<not> isDataCapturingEnabled b then Inr (b, c)
      else
        (let m = addNonOverridableAttribute ''event.type'' (json_string (mData eventType)) (EventPayloadBuilder_new attributes) in
         case payload_build fp m of
           None \<Rightarrow> Inl (UndefinedBehaviour ''null pointer dereferenced'')
         | Some inputPayload \<Rightarrow>
             sendChecked fp rd (bizEventPayload fp rd (mStringLength (UTF8String_of inputPayload)) b m) b c))"

definition eventPayload :: "'d double_ops \<Rightarrow> readings \<Rightarrow> UTF8String \<Rightarrow> Beacon \<Rightarrow> 'd JsonObjectMap \<Rightarrow> 'd JsonObjectMap" where
  "eventPayload fp rd name b m =
     (let m = generateEventPayload fp rd b m;
          m = addNonOverridableAttribute ''event.name'' (json_string (mData name)) m
      in addOverridableAttribute ''event.kind'' (json_string ''RUM_EVENT'') m)"

definition sendEvent :: "'d double_ops \<Rightarrow> readings \<Rightarrow> UTF8String \<Rightarrow> 'd JsonObjectMap option \<Rightarrow> beacon_call" where
  "sendEvent fp rd name attributes b c =
     (if utf8_isEmpty name then Inl (InvalidArgument ''name.empty() is true'')
      else if \<not> isEventReportingAllowed (privacy b) then Inr (b, c)
      else if \<not> isDataCapturingEnabled b then Inr (b, c)
      else sendChecked fp rd (eventPayload fp rd name b (EventPayloadBuilder_new attributes)) b c)"

subsection \<open>The tag of web requests\<close>

definition getVisitStoreVersion :: "Beacon \<Rightarrow> int32" where
  "getVisitStoreVersion b = scVisitStoreVersion (server b)"

definition createTag :: "readings \<Rightarrow> int32 \<Rightarrow> int32 \<Rightarrow> Beacon \<Rightarrow> UTF8String" where
  "createTag rd parentActionID sequenceNumber b =
     (if \<not> isWebRequestTracingAllowed (privacy b) then UTF8String_empty
      else
        (let add = (\<lambda>sep i t. concatenate (concatenate_ptr t sep) (toInvariantString i));
             t = UTF8String_of ''MT'';
             t = add ''_'' 3 t;
             t = add ''_'' (sint (scServerId (server b))) t;
             t = add ''_'' (sint (mDeviceID b)) t;
             t = add ''_'' (sint (mSessionNumber b)) t;
             t = (if sint (getVisitStoreVersion b) > 1 then add ''-'' (sint (mSessionSequenceNumber b)) t else t);
             t = concatenate (concatenate_ptr t ''_'')
                   (okPercentEncodedApplicationId (bcOpenKitConfiguration (mBeaconConfiguration b)));
             t = add ''_'' (sint parentActionID) t;
             t = add ''_'' (sint (threadID rd)) t
         in add ''_'' (sint sequenceNumber) t))"

subsection \<open>The prefix of a chunk\<close>

definition createImmutableBeaconData :: "Beacon \<Rightarrow> UTF8String" where
  "createImmutableBeaconData b =
     (let ok = bcOpenKitConfiguration (mBeaconConfiguration b);
          d = addKeyNumber ''vv'' 3 UTF8String_empty;
          d = addKeyValuePair ''va'' (UTF8String_of OPENKIT_VERSION) d;
          d = addKeyValuePair ''ap'' (okApplicationId ok) d;
          d = addKeyValuePairIfNotEmpty ''vn'' (okApplicationVersion ok) d;
          d = addKeyValuePair ''pt'' (UTF8String_of PLATFORM_TYPE_OPENKIT) d;
          d = addKeyValuePair ''tt'' (UTF8String_of AGENT_TECHNOLOGY_TYPE) d;
          d = addKeyNumber ''vi'' (sint (mDeviceID b)) d;
          d = addKeyNumber ''sn'' (sint (mSessionNumber b)) d;
          d = (if mUseClientIpAddress b then addKeyValuePair ''ip'' (mClientIPAddress b) d else d);
          d = addKeyValuePairIfNotEmpty ''os'' (okOperatingSystem ok) d;
          d = addKeyValuePairIfNotEmpty ''mf'' (okManufacturer ok) d;
          d = addKeyValuePairIfNotEmpty ''md'' (okModelId ok) d;
          d = addKeyNumber ''dl'' (sint (data_level_number (mDataCollectionLevel (privacy b)))) d
      in addKeyNumber ''cl'' (sint (crash_level_number (mCrashReportingLevel (privacy b)))) d)"

definition createTimestampData :: "readings \<Rightarrow> Beacon \<Rightarrow> UTF8String" where
  "createTimestampData rd b =
     addKeyNumber ''tv'' (sint (mSessionStartTime b)) (addKeyNumber ''tx'' (sint (now rd)) UTF8String_empty)"

definition createMultiplicityData :: "Beacon \<Rightarrow> UTF8String" where
  "createMultiplicityData b = addKeyNumber ''mp'' (sint (scMultiplicity (server b))) UTF8String_empty"

definition beacon_getMutableBeaconData :: "readings \<Rightarrow> SupplementaryBasicData \<Rightarrow> Beacon \<Rightarrow> UTF8String" where
  "beacon_getMutableBeaconData rd s b =
     (let visitStoreVersion = getVisitStoreVersion b;
          d = addKeyNumber ''vs'' (sint visitStoreVersion) UTF8String_empty;
          d = (if sint visitStoreVersion > 1 then addKeyNumber ''ss'' (sint (mSessionSequenceNumber b)) d else d);
          d = concatenate (concatenate d BEACON_DATA_DELIMITER) (createTimestampData rd b);
          d = concatenate (concatenate d BEACON_DATA_DELIMITER) (createMultiplicityData b);
          d = (if mNetworkTechnologyAvailable s then addKeyValuePair ''np'' (mNetworkTechnology s) d else d);
          d = (if mCarrierAvailable s then addKeyValuePair ''cr'' (truncate_name (mCarrier s)) d else d)
      in if mConnectionTypeAvailable s \<and> mConnectionType s \<noteq> UNSET
         then addKeyValuePair ''ct'' (UTF8String_of (ConnectionTypeToString (mConnectionType s))) d else d)"

subsection \<open>Construction\<close>

text \<open>
  What the initializer provides: the id and the percentage are drawn in any case, the positive
  number only where the device id must not be sent.
\<close>

record BeaconInitializer =
  biUseClientIpAddress :: bool
  biClientIpAddress :: UTF8String
  biNextSessionID :: int32
  biSessionSequenceNumber :: int32
  biNextPercentageValue :: int32
  biNextPositiveInt64 :: int64
  biTimestamp :: int64

definition Beacon_new :: "BeaconInitializer \<Rightarrow> BeaconConfiguration \<Rightarrow> cpp_exception + Beacon" where
  "Beacon_new i configuration =
     (case (if biUseClientIpAddress i then IsValidIP (biClientIpAddress i) else Inr False) of
        Inl n \<Rightarrow> Inl (UndefinedBehaviour ''read behind the end of a string'')
      | Inr valid \<Rightarrow>
          (let p = bcPrivacyConfiguration configuration;
               b = \<lparr>mBeaconConfiguration = configuration, mUseClientIpAddress = valid, mClientIPAddress = biClientIpAddress i,
                    mDeviceID = (if isDeviceIdSendingAllowed p then okDeviceId (bcOpenKitConfiguration configuration)
                                 else biNextPositiveInt64 i),
                    mSequenceNumber = 0, mID = 0,
                    mBeaconKey = \<lparr>mBeaconId = biNextSessionID i, mBeaconSequenceNumber = biSessionSequenceNumber i\<rparr>,
                    mTrafficControlValue = biNextPercentageValue i,
                    mSessionNumber = (if isSessionNumberReportingAllowed p then biNextSessionID i else 1),
                    mSessionSequenceNumber = biSessionSequenceNumber i, mSessionStartTime = biTimestamp i,
                    mImmutableData = UTF8String_empty\<rparr>
           in Inr (b\<lparr>mImmutableData := createImmutableBeaconData b\<rparr>)))"

subsection \<open>Sending\<close>

text \<open>
  What the loop of \<open>send\<close> needs, for a beacon, its supplementary data, the readings and the request
  of the HTTP client. The client gets the address whether it is valid or not.
\<close>

definition beacon_send_env ::
    "Beacon \<Rightarrow> SupplementaryBasicData \<Rightarrow> ('w \<Rightarrow> readings) \<Rightarrow>
     (UTF8String \<Rightarrow> UTF8String \<Rightarrow> int32 \<Rightarrow> int64 \<Rightarrow> 'w \<Rightarrow> StatusResponse option \<times> 'w) \<Rightarrow> ('w, StatusResponse) send_env" where
  "beacon_send_env b s rd client =
     \<lparr>mImmutableBasicBeaconData = mImmutableData b, getMutableBeaconData = (\<lambda>w. beacon_getMutableBeaconData (rd w) s b),
      sendBeaconRequest = (\<lambda>chunk. client (mClientIPAddress b) chunk (mSessionNumber b) (mDeviceID b)),
      isErroneousResponse = Response_Parsing.isErroneousResponse,
      getBeaconSizeInBytes = scBeaconSizeInBytes (server b)\<rparr>"

end
