(* ===== verification/Beacon_Records.thy ===== *)
theory Beacon_Records
  imports Beacon_Data
begin

text \<open>
  What the calls of a beacon leave in the cache: the text of a record as a list of keys and
  values, a decoder for it, and, for every call, its precondition, the settings that allow it and
  the fields of its record.
\<close>

subsection \<open>The text of a record\<close>

definition field_text :: "string \<times> string \<Rightarrow> string" where
  "field_text f = fst f @ CHR ''='' # urlencode_bytes ''_'' (snd f)"

definition record_text :: "(string \<times> string) list \<Rightarrow> string" where
  "record_text fs = join_with (CHR ''&'') (map field_text fs)"

definition record_of :: "(string \<times> string) list \<Rightarrow> UTF8String" where
  "record_of fs = \<lparr>mData = record_text fs, mStringLength = length (record_text fs)\<rparr>"

definition decode_field :: "string \<Rightarrow> string \<times> string" where
  "decode_field s = (takeWhile (\<lambda>c. c \<noteq> CHR ''='') s, urldecode_bytes (drop 1 (dropWhile (\<lambda>c. c \<noteq> CHR ''='') s)))"

definition decode_record :: "string \<Rightarrow> (string \<times> string) list" where
  "decode_record s = map decode_field (getline_items (CHR ''&'') s)"

lemma plain_ascii: "plain k \<Longrightarrow> list_all (\<lambda>x. 0 < byte_of x \<and> byte_of x < 128) k"
  by (simp add: plain_def list_all_iff)

lemma UTF8String_of_plain: "plain k \<Longrightarrow> UTF8String_of k = \<lparr>mData = k, mStringLength = length k\<rparr>"
  using UTF8String_of_ascii plain_ascii by blast

lemma separators: "UTF8String_of ''&'' = \<lparr>mData = ''&'', mStringLength = 1\<rparr>" "UTF8String_of ''='' = \<lparr>mData = ''='', mStringLength = 1\<rparr>"
  using UTF8String_of_ascii [of "''&''"] UTF8String_of_ascii [of "''=''"] by (simp_all add: byte_of_def)

lemma join_with_last: "join_with d (ps @ [p]) = (if ps = [] then p else join_with d ps @ d # p)"
  by (induction d ps rule: join_with.induct) auto

lemma record_text_snoc: "record_text (fs @ [f]) = (if fs = [] then field_text f else record_text fs @ CHR ''&'' # field_text f)"
  by (simp add: record_text_def join_with_last)

lemma record_of_not_empty: "fs \<noteq> [] \<Longrightarrow> 0 < mStringLength (record_of fs)"
  using record_text_snoc [of "butlast fs" "last fs"] by (simp add: record_of_def field_text_def split: if_splits)

lemma empty_record: "UTF8String_empty = record_of []"
  by (simp add: record_of_def record_text_def UTF8String_empty_def)

lemma add_pair: "plain key \<Longrightarrow> addKeyValuePair key v (record_of fs) = record_of (fs @ [(key, mData v)])"
proof -
  assume k: "plain key"
  then have "key \<noteq> []" by (simp add: plain_def)
  then show ?thesis
    by (cases "fs = []")
      (auto simp: addKeyValuePair_def appendKey_def concatenate_def concatenate_ptr_def separators UTF8String_of_plain [OF k]
        utf8_isEmpty_def urlencode_data record_of_def record_text_def join_with_last field_text_def Let_def
        dest: record_of_not_empty)
qed

lemma add_number: "plain key \<Longrightarrow> addKeyNumber key i (record_of fs) = record_of (fs @ [(key, show_int i)])"
  using add_pair [of key "toInvariantString i" fs]
  by (simp add: addKeyNumber_def toInvariantString_def UTF8String_of_plain [OF show_int_plain])

lemma add_if_not_empty:
  "plain key \<Longrightarrow> addKeyValuePairIfNotEmpty key v (record_of fs) =
     record_of (fs @ (if utf8_isEmpty v then [] else [(key, mData v)]))"
  by (simp add: addKeyValuePairIfNotEmpty_def add_pair utf8_isEmpty_def)

lemma add_if_set:
  "plain key \<Longrightarrow> addKeyNumberIfSet key n (record_of fs) =
     record_of (fs @ (if sint n > -1 then [(key, show_int (sint n))] else []))"
  by (simp add: addKeyNumberIfSet_def add_number)

lemma add_double:
  "plain key \<Longrightarrow> addKeyDouble key t (record_of fs) = record_of (fs @ [(key, mData (UTF8String_of (trim_fixed t)))])"
  by (simp add: addKeyDouble_def add_pair)

lemmas add_to_record = add_pair add_number add_if_not_empty add_if_set add_double

lemma decode_field_text: "plain (fst f) \<Longrightarrow> decode_field (field_text f) = f"
proof -
  assume "plain (fst f)"
  then have "CHR ''='' \<notin> set (fst f)" by (auto simp: plain_def list_all_iff)
  then have "takeWhile (\<lambda>c. c \<noteq> CHR ''='') (field_text f) = fst f"
    "dropWhile (\<lambda>c. c \<noteq> CHR ''='') (field_text f) = CHR ''='' # urlencode_bytes ''_'' (snd f)"
    by (auto simp: field_text_def intro!: takeWhile_append_stop dropWhile_append_stop)
  then show ?thesis by (simp add: decode_field_def decode_encode_bytes)
qed

lemma no_separator_encoded: "CHR ''&'' \<notin> set (urlencode_bytes R s)"
  using encoded_chars [of "CHR ''&''" R s] by (auto simp: HEX_CHARACTERS_def UNRESERVED_CHARACTERS_RFC3986_def)

lemma no_separator: "plain (fst f) \<Longrightarrow> CHR ''&'' \<notin> set (field_text f)"
  by (auto simp: field_text_def no_separator_encoded plain_def list_all_iff)

lemma decode_record_text:
  assumes "list_all (\<lambda>f. plain (fst f)) fs" and "fs \<noteq> []"
  shows "decode_record (record_text fs) = fs"
proof -
  have "getline_items (CHR ''&'') (record_text fs) = map field_text fs"
    unfolding record_text_def using assms no_separator
    by (intro getline_items_join) (auto simp: list_all_iff last_map field_text_def)
  moreover have "map (decode_field \<circ> field_text) fs = fs"
    using assms(1) decode_field_text by (intro map_idI) (auto simp: list_all_iff)
  ultimately show ?thesis by (simp add: decode_record_def)
qed

text \<open>The keys of the protocol.\<close>

lemma plain_keys:
  "plain ''et''" "plain ''na''" "plain ''it''" "plain ''ca''" "plain ''pa''" "plain ''s0''" "plain ''t0''" "plain ''s1''" "plain ''t1''"
  "plain ''vl''" "plain ''ev''" "plain ''rs''" "plain ''st''" "plain ''tt''" "plain ''bs''" "plain ''br''" "plain ''rc''" "plain ''pl''"
  by (simp_all add: plain_def byte_of_def)

subsection \<open>The calls\<close>

datatype report =
  EndedAction "ActionView option"
| SessionStart
| SessionEnd
| IntegerValue int32 UTF8String int64
| DoubleValue int32 UTF8String string
| StringValue int32 UTF8String UTF8String
| NamedEvent int32 UTF8String
| ErrorCode int32 UTF8String int32
| ErrorCause int32 UTF8String UTF8String UTF8String UTF8String
| Crash UTF8String UTF8String UTF8String
| WebRequest int32 "WebRequestView option"
| UserTag UTF8String

fun report_call :: "readings \<Rightarrow> report \<Rightarrow> beacon_call" where
  "report_call rd (EndedAction a) = addAction rd a"
| "report_call rd SessionStart = beacon_startSession rd"
| "report_call rd SessionEnd = beacon_endSession rd"
| "report_call rd (IntegerValue i n v) = reportValue_long rd i n v"
| "report_call rd (DoubleValue i n v) = reportValue_double rd i n v"
| "report_call rd (StringValue i n v) = reportValue_string rd i n v"
| "report_call rd (NamedEvent i n) = reportEvent rd i n"
| "report_call rd (ErrorCode i n e) = reportError_code rd i n e"
| "report_call rd (ErrorCause i n cn cd st) = reportError_cause rd i n cn cd st"
| "report_call rd (Crash n r st) = beacon_reportCrash rd n r st"
| "report_call rd (WebRequest i t) = addWebRequest rd i t"
| "report_call rd (UserTag t) = beacon_identifyUser rd t"

text \<open>The exception for an argument that is missing.\<close>

definition required :: "string \<Rightarrow> UTF8String \<Rightarrow> string option" where
  "required e n = (if utf8_isEmpty n then Some e else None)"

fun missing_argument :: "report \<Rightarrow> string option" where
  "missing_argument (EndedAction a) =
     (let e = ''action is nullptr or action->getName().empty() is true'' in
      case a of None \<Rightarrow> Some e | Some a \<Rightarrow> required e (avName a))"
| "missing_argument (IntegerValue i n v) = required ''valueName.empty() is true'' n"
| "missing_argument (DoubleValue i n v) = required ''valueName.empty() is true'' n"
| "missing_argument (StringValue i n v) = required ''valueName.empty() is true'' n"
| "missing_argument (NamedEvent i n) = required ''eventName.empty() is true'' n"
| "missing_argument (ErrorCode i n e) = required ''errorName.empty() is true'' n"
| "missing_argument (ErrorCause i n cn cd st) = required ''errorName.empty() is true'' n"
| "missing_argument (Crash n r st) = required ''errorName.empty() is true'' n"
| "missing_argument (WebRequest i t) =
     (let e = ''webRequestTracer == nullptr || webRequestTracer->getURL().empty() is true'' in
      case t of None \<Rightarrow> Some e | Some t \<Rightarrow> required e (wvURL t))"
| "missing_argument _ = None"

text \<open>The levels of data collection and of crash reporting that allow a call.\<close>

fun level_allows :: "DataCollectionLevel \<Rightarrow> CrashReportingLevel \<Rightarrow> report \<Rightarrow> bool" where
  "level_allows l k SessionStart = True"
| "level_allows l k (Crash n r st) = (k = OPT_IN_CRASHES)"
| "level_allows l k (IntegerValue i n v) = (l = USER_BEHAVIOR)"
| "level_allows l k (DoubleValue i n v) = (l = USER_BEHAVIOR)"
| "level_allows l k (StringValue i n v) = (l = USER_BEHAVIOR)"
| "level_allows l k (NamedEvent i n) = (l = USER_BEHAVIOR)"
| "level_allows l k (UserTag t) = (l = USER_BEHAVIOR)"
| "level_allows l k _ = (l \<noteq> DATA_OFF)"

text \<open>What the server allows: all data, and errors and crashes by settings of their own.\<close>

definition server_captures :: "ServerConfiguration \<Rightarrow> int32 \<Rightarrow> bool" where
  "server_captures s traffic \<longleftrightarrow>
     scIsCaptureEnabled s \<and> 0 < sint (scMultiplicity s) \<and> sint traffic < sint (scTrafficControlPercentage s)"

fun server_allows :: "ServerConfiguration \<Rightarrow> report \<Rightarrow> bool" where
  "server_allows s (ErrorCode i n e) = scIsErrorReportingEnabled s"
| "server_allows s (ErrorCause i n cn cd st) = scIsErrorReportingEnabled s"
| "server_allows s (Crash n r st) = scIsCrashReportingEnabled s"
| "server_allows s _ = True"

definition permitted :: "Beacon \<Rightarrow> report \<Rightarrow> bool" where
  "permitted b r \<longleftrightarrow>
     level_allows (mDataCollectionLevel (privacy b)) (mCrashReportingLevel (privacy b)) r
     \<and> server_captures (server b) (mTrafficControlValue b) \<and> server_allows (server b) r"

text \<open>All but two of the calls take the next sequence number.\<close>

fun takes_number :: "report \<Rightarrow> bool" where
  "takes_number (EndedAction a) = False"
| "takes_number (WebRequest i t) = False"
| "takes_number _ = True"

definition numbered :: "report \<Rightarrow> Beacon \<Rightarrow> Beacon" where
  "numbered r b = (if takes_number r then b\<lparr>mSequenceNumber := mSequenceNumber b + 1\<rparr> else b)"

subsection \<open>The records\<close>

definition basic_fields :: "readings \<Rightarrow> EventType \<Rightarrow> UTF8String \<Rightarrow> (string \<times> string) list" where
  "basic_fields rd et n =
     [(''et'', show_int (event_number et)), (''it'', show_int (sint (threadID rd)))] @
     (if utf8_isEmpty n then [] else [(''na'', mData (truncate_to 250 n))])"

definition start_fields :: "int32 \<Rightarrow> int32 \<Rightarrow> int64 \<Rightarrow> (string \<times> string) list" where
  "start_fields pa s0 t0 = [(''pa'', show_int (sint pa)), (''s0'', show_int (sint s0)), (''t0'', show_int (sint t0))]"

definition text_field :: "string \<Rightarrow> UTF8String \<Rightarrow> (string \<times> string) list" where
  "text_field key v = (if utf8_isEmpty v then [] else [(key, mData v)])"

definition count_field :: "string \<Rightarrow> int32 \<Rightarrow> (string \<times> string) list" where
  "count_field key n = (if sint n > -1 then [(key, show_int (sint n))] else [])"

definition now_fields :: "readings \<Rightarrow> int32 \<Rightarrow> Beacon \<Rightarrow> (string \<times> string) list" where
  "now_fields rd pa b = start_fields pa (mSequenceNumber b) (now rd - mSessionStartTime b)"

fun report_fields :: "readings \<Rightarrow> report \<Rightarrow> Beacon \<Rightarrow> (string \<times> string) list" where
  "report_fields rd (EndedAction (Some a)) b =
     basic_fields rd ACTION (avName a) @ [(''ca'', show_int (sint (avID a)))] @
     start_fields (avParentID a) (avStartSequenceNumber a) (avStartTime a - mSessionStartTime b) @
     [(''s1'', show_int (sint (avEndSequenceNumber a))), (''t1'', show_int (sint (avEndTime a - avStartTime a)))]"
| "report_fields rd (EndedAction None) b = []"
| "report_fields rd SessionStart b = basic_fields rd SESSION_START UTF8String_empty @ start_fields 0 (mSequenceNumber b) 0"
| "report_fields rd SessionEnd b = basic_fields rd SESSION_END UTF8String_empty @ now_fields rd 0 b"
| "report_fields rd (IntegerValue i n v) b = basic_fields rd VALUE_INT n @ now_fields rd i b @ [(''vl'', show_int (sint v))]"
| "report_fields rd (DoubleValue i n v) b =
     basic_fields rd VALUE_DOUBLE n @ now_fields rd i b @ [(''vl'', mData (UTF8String_of (trim_fixed v)))]"
| "report_fields rd (StringValue i n v) b = basic_fields rd VALUE_STRING n @ now_fields rd i b @ text_field ''vl'' v"
| "report_fields rd (NamedEvent i n) b = basic_fields rd NAMED_EVENT n @ now_fields rd i b"
| "report_fields rd (ErrorCode i n e) b =
     basic_fields rd FAILURE_ERROR n @ now_fields rd i b @ [(''ev'', show_int (sint e)), (''tt'', ''c'')]"
| "report_fields rd (ErrorCause i n cn cd st) b =
     basic_fields rd FAILURE_EXCEPTION n @ now_fields rd i b @ text_field ''ev'' cn @ text_field ''rs'' (truncate_to 1000 cd) @
     text_field ''st'' (truncate_to (stack_trace_limit st) st) @ [(''tt'', ''c'')]"
| "report_fields rd (Crash n r st) b =
     basic_fields rd FAILURE_CRASH n @ now_fields rd 0 b @ text_field ''rs'' (truncate_to 1000 r) @
     text_field ''st'' (truncate_to (stack_trace_limit st) st) @ [(''tt'', ''c'')]"
| "report_fields rd (WebRequest i (Some t)) b =
     basic_fields rd WEBREQUEST (wvURL t) @ start_fields i (wvStartSequenceNo t) (wvStartTime t - mSessionStartTime b) @
     [(''s1'', show_int (sint (wvEndSequenceNo t))), (''t1'', show_int (sint (wvEndTime t - wvStartTime t)))] @
     count_field ''bs'' (scast (wvBytesSent t)) @ count_field ''br'' (scast (wvBytesReceived t)) @ count_field ''rc'' (wvResponseCode t)"
| "report_fields rd (WebRequest i None) b = []"
| "report_fields rd (UserTag t) b = basic_fields rd IDENTIFY_USER t @ now_fields rd 0 b"

fun report_time :: "readings \<Rightarrow> report \<Rightarrow> Beacon \<Rightarrow> int64" where
  "report_time rd (EndedAction (Some a)) b = avStartTime a"
| "report_time rd SessionStart b = mSessionStartTime b"
| "report_time rd (WebRequest i (Some t)) b = wvStartTime t"
| "report_time rd _ b = now rd"

definition store :: "readings \<Rightarrow> report \<Rightarrow> Beacon \<Rightarrow> BeaconCache \<Rightarrow> BeaconCache" where
  "store rd r b c =
     (case r of EndedAction a \<Rightarrow> addActionData | _ \<Rightarrow> addEventData) (mBeaconKey b) (report_time rd r b)
       (record_of (report_fields rd r b)) c"

subsection \<open>Every call\<close>

lemmas beacon_basics = createBasicEventData_def createBasicEventDataWithoutName_def buildEvent_def addStart_def
  createSequenceNumber_def getTimeSinceSessionStartTime_def truncate_name_def MAX_NAME_LEN_def MAX_REASON_LEN_def
  Let_def empty_record add_to_record plain_keys

lemmas beacon_guards = isDataCapturingEnabled_def isErrorCapturingEnabled_def isCrashCapturingEnabled_def
  isSendingErrorsAllowed_def isSendingCrashesAllowed_def isSendingDataAllowed_def
  isActionReportingAllowed_def isSessionReportingAllowed_def isValueReportingAllowed_def isEventReportingAllowed_def
  isErrorReportingAllowed_def isCrashReportingAllowed_def isWebRequestTracingAllowed_def isUserIdentificationAllowed_def
  permitted_def server_captures_def required_def numbered_def beacon_addEventData_def beacon_addActionData_def

lemmas field_defs = store_def basic_fields_def now_fields_def start_fields_def text_field_def count_field_def

lemma number_keeps [simp]:
  "server (b\<lparr>mSequenceNumber := n\<rparr>) = server b" "privacy (b\<lparr>mSequenceNumber := n\<rparr>) = privacy b"
  by (simp_all add: server_def privacy_def)

lemma technology [simp]: "mData (UTF8String_of ''c'') = ''c''"
  by (simp add: UTF8String_of_plain plain_def byte_of_def)

lemma nameless [simp]: "utf8_isEmpty (record_of []) \<longleftrightarrow> True"
  by (simp add: utf8_isEmpty_def record_of_def record_text_def)

definition report_outcome :: "readings \<Rightarrow> report \<Rightarrow> beacon_call" where
  "report_outcome rd r b c =
     (case missing_argument r of
        Some e \<Rightarrow> Inl (InvalidArgument e)
      | None \<Rightarrow> if permitted b r then Inr (numbered r b, store rd r (numbered r b) c) else Inr (b, c))"

lemmas call_simps = report_outcome_def beacon_basics beacon_guards field_defs

lemma action_outcomes:
  "report_call rd (EndedAction a) = report_outcome rd (EndedAction a)"
  "report_call rd SessionStart = report_outcome rd SessionStart"
  "report_call rd SessionEnd = report_outcome rd SessionEnd"
  by (auto simp: call_simps addAction_def beacon_startSession_def beacon_endSession_def fun_eq_iff split: option.split)

lemma value_outcomes:
  "report_call rd (IntegerValue i n v) = report_outcome rd (IntegerValue i n v)"
  "report_call rd (DoubleValue i n t) = report_outcome rd (DoubleValue i n t)"
  "report_call rd (StringValue i n s) = report_outcome rd (StringValue i n s)"
  "report_call rd (NamedEvent i n) = report_outcome rd (NamedEvent i n)"
  by (auto simp: call_simps reportValue_long_def reportValue_double_def reportValue_string_def reportEvent_def fun_eq_iff)

lemma error_outcomes:
  "report_call rd (ErrorCode i n e) = report_outcome rd (ErrorCode i n e)"
  "report_call rd (ErrorCause i n cn cd st) = report_outcome rd (ErrorCause i n cn cd st)"
  "report_call rd (Crash n rs st) = report_outcome rd (Crash n rs st)"
  by (auto simp: call_simps reportError_code_def reportError_cause_def beacon_reportCrash_def fun_eq_iff)

lemma other_outcomes:
  "report_call rd (WebRequest i t) = report_outcome rd (WebRequest i t)"
  "report_call rd (UserTag u) = report_outcome rd (UserTag u)"
  by (auto simp: call_simps addWebRequest_def beacon_identifyUser_def fun_eq_iff split: option.split)

lemma report_call_outcome: "report_call rd r = report_outcome rd r"
  by (cases r) (simp_all only: action_outcomes value_outcomes error_outcomes other_outcomes)

lemma report_fields_plain: "missing_argument r = None \<Longrightarrow> list_all (\<lambda>f. plain (fst f)) (report_fields rd r b) \<and> report_fields rd r b \<noteq> []"
  by (cases "(rd, r, b)" rule: report_fields.cases) (auto simp: field_defs plain_keys)

subsection \<open>Truncation\<close>

abbreviation (input) text_of :: "string list \<Rightarrow> UTF8String" where
  "text_of css \<equiv> \<lparr>mData = concat css, mStringLength = length css\<rparr>"

lemma truncate_text:
  assumes "utf8_text css" and "length (concat css) < npos"
  shows "truncate_to n (text_of css) = text_of (take n css)"
proof (cases "length css > n")
  case True
  then have "css \<noteq> []" by auto
  then show ?thesis using True assms substring_text [OF assms(1), of 0 n] 
    by (cases "n = 0") (auto simp: truncate_to_def substring_def UTF8String_empty_def)
qed (simp add: truncate_to_def)

lemma find_rev_Some: "find P (rev [0..<n]) = Some i \<longleftrightarrow> i < n \<and> P i \<and> (\<forall>j. i < j \<and> j < n \<longrightarrow> \<not> P j)"
proof (induction n)
  case (Suc n)
  then show ?case by (auto simp: less_Suc_eq)
qed simp

lemma find_rev_None: "find P (rev [0..<n]) = None \<longleftrightarrow> (\<forall>j<n. \<not> P j)"
  by (simp add: find_None_iff)

text \<open>The cut before the last line break.\<close>

definition last_line_break :: "nat \<Rightarrow> string \<Rightarrow> nat \<Rightarrow> bool" where
  "last_line_break limit s i \<longleftrightarrow> i \<le> limit \<and> i < length s \<and> s ! i = CHR 0x0A \<and>
     CHR 0x0A \<notin> set (drop (Suc i) (take (Suc limit) s))"

lemma last_line_break_iff:
  "find_last_of_until (CHR 0x0A) limit s = Some i \<longleftrightarrow> last_line_break limit s i"
proof -
  have "CHR 0x0A \<notin> set (drop (Suc i) (take (Suc limit) s)) \<longleftrightarrow> (\<forall>j. i < j \<and> j < min (limit + 1) (length s) \<longrightarrow> s ! j \<noteq> CHR 0x0A)"
    if "i \<le> limit" "i < length s"
  proof -
    have "(\<forall>k<length (drop (Suc i) (take (Suc limit) s)). drop (Suc i) (take (Suc limit) s) ! k \<noteq> CHR 0x0A) \<longleftrightarrow>
      (\<forall>j. i < j \<and> j < min (limit + 1) (length s) \<longrightarrow> s ! j \<noteq> CHR 0x0A)"
    proof (intro iffI allI impI, goal_cases)
      case (1 j)
      then have "j - Suc i < length (drop (Suc i) (take (Suc limit) s))" "Suc i + (j - Suc i) = j" by auto
      then show ?case using 1(1) [rule_format, of "j - Suc i"] 1(2) by simp
    next
      case (2 k)
      then have j: "i < Suc i + k \<and> Suc i + k < min (limit + 1) (length s)" by auto
      then have "drop (Suc i) (take (Suc limit) s) ! k = s ! (Suc i + k)" by simp
      then show ?case using 2(1) [rule_format, OF j] by simp
    qed
    then show ?thesis by (simp add: in_set_conv_nth)
  qed
  then show ?thesis unfolding find_last_of_until_def find_rev_Some last_line_break_def by auto
qed

lemma ascii_units:
  assumes "list_all (\<lambda>x. 0 < byte_of x \<and> byte_of x < 128) s"
  shows "utf8_text (map (\<lambda>c. [c]) s)" "concat (map (\<lambda>c. [c]) s) = s"
  using ascii_text [OF assms] concat_singletons by auto

lemma truncate_ascii:
  assumes "list_all (\<lambda>x. 0 < byte_of x \<and> byte_of x < 128) s" and "length s < npos"
  shows "truncate_to n \<lparr>mData = s, mStringLength = length s\<rparr> = \<lparr>mData = take n s, mStringLength = min (length s) n\<rparr>"
  using truncate_text [OF ascii_units(1) [OF assms(1)], of n] assms ascii_units(2) [OF assms(1)]
    concat_singletons [of "take n s"]
  by (simp add: UTF8String_of_ascii take_map)

text \<open>C40: Texts are cut by characters: for a name, a reason or a trace of complete characters, the
  first ones are kept, whole and in order. A stack trace that is ASCII and longer than 128000 bytes
  is cut before its last line break in the first 128001 bytes, and behind 128000 bytes if there is
  none.\<close>

theorem texts_cut:
  assumes "utf8_text css" and "length (concat css) < npos"
    and "list_all (\<lambda>x. 0 < byte_of x \<and> byte_of x < 128) s" and "length s < npos" and "128000 < length s"
  shows "truncate_to n \<lparr>mData = concat css, mStringLength = length css\<rparr> = \<lparr>mData = concat (take n css), mStringLength = min (length css) n\<rparr>
    \<and> (case find_last_of_until (CHR 0x0A) 128000 s of
         Some i \<Rightarrow> last_line_break 128000 s i \<and> mData (truncate_to (stack_trace_limit (UTF8String_of s)) (UTF8String_of s)) = take i s
       | None \<Rightarrow> CHR 0x0A \<notin> set (take 128001 s) \<and> mData (truncate_to (stack_trace_limit (UTF8String_of s)) (UTF8String_of s)) = take 128000 s)"
proof -
  have none: "CHR 0x0A \<notin> set (take 128001 s)" if "find_last_of_until (CHR 0x0A) 128000 s = None"
    using that by (auto simp: find_last_of_until_def find_rev_None in_set_conv_nth)
  have u: "UTF8String_of s = \<lparr>mData = s, mStringLength = length s\<rparr>" by (rule UTF8String_of_ascii [OF assms(3)])
  have l: "stack_trace_limit (UTF8String_of s) =
      (case find_last_of_until (CHR 0x0A) 128000 s of None \<Rightarrow> 128000 | Some i \<Rightarrow> i)"
    using assms(5) by (simp add: u stack_trace_limit_def MAX_STACKTRACE_LEN_def split: option.split)
  have m: "mData (truncate_to k (UTF8String_of s)) = take k s" for k
    using truncate_ascii [OF assms(3,4), of k] by (simp add: u)
  have "(case find_last_of_until (CHR 0x0A) 128000 s of
         Some i \<Rightarrow> last_line_break 128000 s i \<and> mData (truncate_to (stack_trace_limit (UTF8String_of s)) (UTF8String_of s)) = take i s
       | None \<Rightarrow> CHR 0x0A \<notin> set (take 128001 s) \<and> mData (truncate_to (stack_trace_limit (UTF8String_of s)) (UTF8String_of s)) = take 128000 s)"
    unfolding l m using none by (cases "find_last_of_until (CHR 0x0A) 128000 s") (simp_all add: last_line_break_iff [symmetric])
  then show ?thesis using truncate_text [OF assms(1,2), of n] by (simp add: min_def)
qed

lemma texts_cut_witness:
  "mData (truncate_to 1 \<lparr>mData = [CHR 0xC3, CHR 0xA4, CHR ''a''], mStringLength = 2\<rparr>) = [CHR 0xC3, CHR 0xA4]
   \<and> mData (truncate_to (stack_trace_limit (UTF8String_of (replicate 128001 (CHR ''x'')))) (UTF8String_of (replicate 128001 (CHR ''x''))))
      = replicate 128000 (CHR ''x'')"
proof -
  define s where "s = replicate 128001 (CHR ''x'')"
  have s: "list_all (\<lambda>x. 0 < byte_of x \<and> byte_of x < 128) s" "length s < npos" "128000 < length s"
    "CHR 0x0A \<notin> set s" "take 128000 s = replicate 128000 (CHR ''x'')"
    unfolding s_def list_all_iff length_replicate take_replicate set_replicate_conv_if
    by (simp_all add: byte_of_def npos_def)
  have n: "find_last_of_until (CHR 0x0A) 128000 s = None"
  proof (cases "find_last_of_until (CHR 0x0A) 128000 s")
    case (Some i)
    then have "CHR 0x0A \<in> set s" using last_line_break_iff [of 128000 s i] by (simp add: last_line_break_def) (metis nth_mem)
    then show ?thesis using s(4) by blast
  qed
  have "utf8_text [[CHR 0xC3, CHR 0xA4], ''a'']" by (simp add: utf8_char_def byte_class_simps byte_of_def)
  moreover have "length (concat [[CHR 0xC3, CHR 0xA4], ''a'']) < npos" by (simp add: npos_def)
  ultimately show ?thesis
    using texts_cut [OF _ _ s(1-3), of "[[CHR 0xC3, CHR 0xA4], ''a'']" 1]
    unfolding n s_def [symmetric] s(5) by (simp add: numeral_2_eq_2)
qed

text \<open>C2: What a call of the beacon does: it throws when a required argument is missing, it adds one
  record to the cache when the settings permit it, and does nothing otherwise. The record decodes to
  the fields of the call; the next sequence number is taken exactly by the calls that are not the
  end of an action or of a web request.\<close>

theorem calls_recorded:
  "report_call rd r b c =
     (case missing_argument r of
        Some e \<Rightarrow> Inl (InvalidArgument e)
      | None \<Rightarrow> if permitted b r then Inr (numbered r b, store rd r (numbered r b) c) else Inr (b, c))
   \<and> (case missing_argument r of
        Some e \<Rightarrow> True
      | None \<Rightarrow> decode_record (mData (record_of (report_fields rd r (numbered r b)))) = report_fields rd r (numbered r b))"
  using decode_record_text report_fields_plain [of r]
  by (simp add: report_call_outcome report_outcome_def record_of_def split: option.split)

text \<open>C3: A call that changes the cache is allowed by the level of data collection, or, for a crash,
  by the level of crash reporting; the server captures data, and errors or crashes if it is one; and
  the value drawn for the session is below the percentage of the traffic control. With data collection
  off only the start of the session and crashes are recorded.\<close>

theorem recording_permitted:
  assumes "report_call rd r b c = Inr (b', c')" and "c' \<noteq> c"
  shows "level_allows (mDataCollectionLevel (privacy b)) (mCrashReportingLevel (privacy b)) r
    \<and> (mDataCollectionLevel (privacy b) = DATA_OFF \<longrightarrow> r = SessionStart \<or> (\<exists>n rs st. r = Crash n rs st))
    \<and> server_allows (server b) r \<and> server_captures (server b) (mTrafficControlValue b)
    \<and> scIsCaptureEnabled (server b) \<and> sint (mTrafficControlValue b) < sint (scTrafficControlPercentage (server b))"
proof -
  have p: "permitted b r" using assms by (auto simp: report_call_outcome report_outcome_def split: option.splits if_splits)
  moreover have "r = SessionStart \<or> (\<exists>n rs st. r = Crash n rs st)" if "mDataCollectionLevel (privacy b) = DATA_OFF"
    using p that by (cases r) (auto simp: permitted_def)
  ultimately show ?thesis by (auto simp: permitted_def server_captures_def)
qed

definition sample_beacon :: Beacon where
  "sample_beacon =
     (let ok = OpenKitConfiguration_from (DynatraceOpenKitBuilder ''1'' ''c'' ''u'' ''app'' 7);
          p = \<lparr>mDataCollectionLevel = USER_BEHAVIOR, mCrashReportingLevel = OPT_IN_CRASHES\<rparr> in
      \<lparr>mBeaconConfiguration = BeaconConfiguration_from ok p 1, mUseClientIpAddress = False, mClientIPAddress = UTF8String_empty,
       mDeviceID = 7, mSequenceNumber = 0, mID = 0, mBeaconKey = \<lparr>mBeaconId = 1, mBeaconSequenceNumber = 0\<rparr>,
       mTrafficControlValue = 0, mSessionNumber = 1, mSessionSequenceNumber = 0, mSessionStartTime = 100,
       mImmutableData = UTF8String_empty\<rparr>)"

definition sample_readings :: readings where
  "sample_readings = \<lparr>threadID = 3, now = 150, nanoseconds = 9\<rparr>"

lemma sample_server: "server sample_beacon = defaultInstance"
  by (simp add: server_def sample_beacon_def Let_def getServerConfiguration_def getServerConfigurationOrDefault_def BeaconConfiguration_from_def)

lemma sample_privacy: "privacy sample_beacon = \<lparr>mDataCollectionLevel = USER_BEHAVIOR, mCrashReportingLevel = OPT_IN_CRASHES\<rparr>"
  by (simp add: privacy_def sample_beacon_def Let_def BeaconConfiguration_from_def)

lemma sample_captures: "server_captures defaultInstance 0"
  by (simp add: server_captures_def defaultInstance_def ServerConfiguration_from_def UndefinedDefaults_def AbstractResponseDefaults_def)

lemma added: "addEventData k t d BeaconCache_new \<noteq> BeaconCache_new"
proof -
  have "getCachedEntry k (addEventData k t d BeaconCache_new) \<noteq> getCachedEntry k BeaconCache_new"
    by (simp add: entry_after_addEventData) (simp add: getCachedEntry_def BeaconCache_new_def)
  then show ?thesis by auto
qed

lemma recording_permitted_witness:
  "level_allows USER_BEHAVIOR OPT_IN_CRASHES (NamedEvent 0 \<lparr>mData = ''e'', mStringLength = 1\<rparr>) \<and> server_captures defaultInstance 0
   \<and> missing_argument (NamedEvent 0 \<lparr>mData = ''e'', mStringLength = 1\<rparr>) = None"
proof -
  let ?r = "NamedEvent 0 \<lparr>mData = ''e'', mStringLength = 1\<rparr>"
  have m: "missing_argument ?r = None" by (simp add: required_def utf8_isEmpty_def)
  have t: "mTrafficControlValue sample_beacon = 0" by (simp add: sample_beacon_def Let_def)
  have p: "permitted sample_beacon ?r" using sample_captures by (simp add: permitted_def sample_privacy sample_server t)
  have "report_call sample_readings ?r sample_beacon BeaconCache_new =
      Inr (numbered ?r sample_beacon, store sample_readings ?r (numbered ?r sample_beacon) BeaconCache_new)"
    using m p by (simp add: report_call_outcome report_outcome_def)
  moreover have "store sample_readings ?r (numbered ?r sample_beacon) BeaconCache_new \<noteq> BeaconCache_new"
    using added by (simp add: store_def)
  ultimately show ?thesis using recording_permitted [of sample_readings ?r sample_beacon BeaconCache_new] m
    by (simp add: sample_privacy sample_server t)
qed

subsection \<open>The attributes of a business event\<close>

text \<open>The attributes OpenKit sets in any case, and those it sets where the application has not.\<close>

definition fixed_attributes :: "'d double_ops \<Rightarrow> UTF8String \<Rightarrow> nat \<Rightarrow> Beacon \<Rightarrow> (string \<times> 'd JsonValue) list" where
  "fixed_attributes fp ty n b =
     [(''event.kind'', JsonStringValue ''BIZ_EVENT''), (''event.type'', JsonStringValue (mData ty)),
      (''dt.rum.custom_attributes_size'', JsonNumber (fromLong fp (of_nat n))),
      (''dt.rum.schema_version'', JsonStringValue ''1.3''),
      (''dt.rum.application.id'', JsonStringValue (mData (okApplicationId (bcOpenKitConfiguration (mBeaconConfiguration b))))),
      (''dt.rum.instance.id'', JsonStringValue (show_int (sint (mDeviceID b)))),
      (''dt.rum.sid'', JsonStringValue (show_int (sint (mDeviceID b)) @ ''_'' @ show_int (sint (mSessionNumber b))))]"

definition default_attributes :: "'d double_ops \<Rightarrow> readings \<Rightarrow> Beacon \<Rightarrow> (string \<times> 'd JsonValue) list" where
  "default_attributes fp rd b =
     (let ok = bcOpenKitConfiguration (mBeaconConfiguration b) in
     [(''timestamp'', JsonNumber (fromLong fp (nanoseconds rd))), (''app.version'', JsonStringValue (mData (okApplicationVersion ok))),
      (''os.name'', JsonStringValue (mData (okOperatingSystem ok))),
      (''device.manufacturer'', JsonStringValue (mData (okManufacturer ok))),
      (''device.model.identifier'', JsonStringValue (mData (okModelId ok))),
      (''event.provider'', JsonStringValue (mData (okApplicationId ok)))])"

definition biz_attribute :: "'d double_ops \<Rightarrow> readings \<Rightarrow> UTF8String \<Rightarrow> nat \<Rightarrow> Beacon \<Rightarrow> 'd JsonObjectMap \<Rightarrow> string \<Rightarrow> 'd JsonValue option option" where
  "biz_attribute fp rd ty n b m k =
     (case map_of (fixed_attributes fp ty n b) k of
        Some v \<Rightarrow> Some (Some v)
      | None \<Rightarrow> if reserved_attribute k then None
               else (case um_find (=) k m of Some w \<Rightarrow> Some w | None \<Rightarrow> map_option Some (map_of (default_attributes fp rd b) k)))"

lemma reserved_keys:
  "reserved_attribute ''dt.rum.custom_attributes_size''" "\<not> reserved_attribute ''event.kind''" "\<not> reserved_attribute ''event.type''"
  "\<not> reserved_attribute ''timestamp''" "\<not> reserved_attribute ''app.version''" "\<not> reserved_attribute ''os.name''"
  "\<not> reserved_attribute ''device.manufacturer''" "\<not> reserved_attribute ''device.model.identifier''" "\<not> reserved_attribute ''event.provider''"
  by (simp_all add: reserved_attribute_def starts_with_def)

lemma find_other_attribute:
  "k' \<noteq> k \<Longrightarrow> um_find (=) k (addOverridableAttribute k' (Some v) m) = um_find (=) k m"
  "k' \<noteq> k \<Longrightarrow> um_find (=) k (addNonOverridableAttribute k' (Some v) m) = um_find (=) k m"
  by (simp_all add: payload_finds split: option.split)

lemma find_set_attribute:
  "um_find (=) k (addOverridableAttribute k (Some v) m) = (case um_find (=) k m of Some w \<Rightarrow> Some w | None \<Rightarrow> Some (Some v))"
  "um_find (=) k (addNonOverridableAttribute k (Some v) m) = Some (Some v)"
  by (simp_all add: payload_finds split: option.split)

lemmas biz_defs = biz_attribute_def bizEventPayload_def generateEventPayload_def json_string_def device_id_text_def Let_def

lemmas set_attributes = find_set_attribute find_other_attribute find_clean find_given

lemma biz_attributes:
  "um_find (=) k (bizEventPayload fp rd n b (addNonOverridableAttribute ''event.type'' (json_string (mData ty)) (EventPayloadBuilder_new (Some m)))) =
     biz_attribute fp rd ty n b m k"
proof -
  consider (fixed) "k \<in> set (map fst (fixed_attributes fp ty n b :: (string \<times> 'a JsonValue) list))"
    | (default) "k \<in> set (map fst (default_attributes fp rd b :: (string \<times> 'a JsonValue) list))"
    | (other) "k \<notin> set (map fst (fixed_attributes fp ty n b :: (string \<times> 'a JsonValue) list))"
       "k \<notin> set (map fst (default_attributes fp rd b :: (string \<times> 'a JsonValue) list))" by blast
  then show ?thesis
  proof cases
    case fixed
    then show ?thesis
      by (simp add: fixed_attributes_def) (elim disjE; simp add: biz_defs fixed_attributes_def set_attributes reserved_keys)
  next
    case default
    then show ?thesis
      by (simp add: default_attributes_def Let_def)
        (elim disjE; simp add: biz_defs fixed_attributes_def default_attributes_def set_attributes reserved_keys split: option.split)
  next
    case other
    then have "map_of (fixed_attributes fp ty n b :: (string \<times> 'a JsonValue) list) k = None"
      "map_of (default_attributes fp rd b :: (string \<times> 'a JsonValue) list) k = None" by (simp_all add: map_of_eq_None_iff)
    moreover have "\<forall>k' \<in> set (map fst (fixed_attributes fp ty n b @ default_attributes fp rd b :: (string \<times> 'a JsonValue) list)). k' \<noteq> k"
      using other by auto
    ultimately show ?thesis
      by (simp add: fixed_attributes_def default_attributes_def biz_defs set_attributes split: option.split)
  qed
qed

lemma payload_limit: "show_int 16384 = ''16384''" and event_code: "show_int 98 = ''98''"
  by (simp_all add: show_int_def decimal_digits.simps [of "_ :: nat"] digit_char_def char_of_eq_iff)

lemma finite_checked:
  assumes "sendChecked fp rd m b c = Inr (b', c')"
  shows "\<exists>p payload. (\<forall>k. k \<noteq> ''dt.rum.has_nfn_values'' \<longrightarrow> um_find (=) k p = um_find (=) k m)
    \<and> (um_find (=) ''dt.rum.has_nfn_values'' p =
        (if isEventContainingNonFiniteNumericValues fp m = Some True then Some (Some (JsonBooleanValue True))
         else um_find (=) ''dt.rum.has_nfn_values'' m))
    \<and> payload_build fp p = Some payload \<and> length payload \<le> 16384 \<and> b' = b
    \<and> c' = beacon_addEventData (now rd) (record_of [(''et'', show_int 98), (''pl'', mData (UTF8String_of payload))]) b c"
proof -
  obtain nfn where nfn: "isEventContainingNonFiniteNumericValues fp m = Some nfn"
    using assms by (cases "isEventContainingNonFiniteNumericValues fp m") (auto simp: sendChecked_def)
  define p where "p = (if nfn then addNonOverridableAttribute ''dt.rum.has_nfn_values'' (Some (JsonBooleanValue True)) m else m)"
  obtain payload where "payload_build fp p = Some payload" "length payload \<le> 16384" "b' = b"
      "c' = beacon_addEventData (now rd) (record_of [(''et'', show_int 98), (''pl'', mData (UTF8String_of payload))]) b c"
    using assms unfolding sendChecked_def nfn option.case p_def [symmetric] sendEventPayload_def
    by (auto simp: EVENT_PAYLOAD_BYTES_LENGTH_def empty_record add_to_record plain_keys split: option.splits if_splits)
  then show ?thesis
    using nfn by (intro exI [of _ p] exI [of _ payload]) (auto simp: p_def payload_finds)
qed


lemma count_of_64_bits:
  assumes "0 \<le> sint (n :: int64)"
  shows "count_field key (scast n) =
    (if sint n mod 2 ^ 32 < 2 ^ 31 then [(key, show_int (sint n mod 2 ^ 32))] else [])"
proof -
  have s: "sint (scast n :: int32) = signed_take_bit 31 (sint n)" using signed_scast_eq [of n, where 'a = int and 'c = 32] by simp
  have m: "signed_take_bit 31 i = (if i mod 2 ^ 32 < 2 ^ 31 then i mod 2 ^ 32 else i mod 2 ^ 32 - 2 ^ 32)" for i :: int
  proof -
    define r where "r = i mod 2 ^ 32"
    have r: "0 \<le> r" "r < 2 ^ 32" by (simp_all add: r_def)
    have "(i + 2 ^ 31) mod 2 ^ 32 = (r + 2 ^ 31) mod 2 ^ 32" unfolding r_def by (rule mod_add_left_eq [symmetric])
    moreover have "(r + 2 ^ 31) mod 2 ^ 32 = (if r < 2 ^ 31 then r + 2 ^ 31 else r - 2 ^ 31)"
    proof (cases "r < 2 ^ 31")
      case False
      then have "(r + 2 ^ 31) mod 2 ^ 32 = (r - 2 ^ 31 + 2 ^ 32) mod 2 ^ 32" by (simp add: add.commute)
      also have "\<dots> = r - 2 ^ 31" using False r by (simp only: mod_add_self2) (simp add: mod_pos_pos_trivial)
      finally show ?thesis using False by simp
    qed (use r in \<open>simp add: mod_pos_pos_trivial\<close>)
    moreover have e: "signed_take_bit 31 i = (i + 2 ^ 31) mod 2 ^ 32 - 2 ^ 31"
      by (simp add: signed_take_bit_eq_take_bit_shift take_bit_eq_mod)
    ultimately show ?thesis unfolding e r_def [symmetric] by simp
  qed
  define r where "r = sint n mod 2 ^ 32"
  have r: "0 \<le> r" "r < 2 ^ 32" by (simp_all add: r_def)
  show ?thesis
    unfolding count_field_def s m r_def [symmetric] using r by (cases "r < 2 ^ 31") simp_all
qed

text \<open>The counts of bytes, which the application gives in 64 bits, are reported modulo 2^32 as
  a signed number of 32 bits: a count is reported as it is only below 2^31, and up to 2^32 it is not
  reported at all.\<close>

theorem byte_counts_truncated:
  assumes "0 \<le> sint (n :: int64)" and "plain key"
  shows "addKeyNumberIfSet key (scast n) (record_of fs) =
    record_of (fs @ (if sint n mod 2 ^ 32 < 2 ^ 31 then [(key, show_int (sint n mod 2 ^ 32))] else []))"
  using add_if_set [OF assms(2), of "scast n" fs] unfolding count_of_64_bits [OF assms(1), unfolded count_field_def] .

lemma byte_counts_truncated_witness:
  "addKeyNumberIfSet ''bs'' (scast (3000000000 :: int64)) (record_of []) = record_of []
   \<and> addKeyNumberIfSet ''bs'' (scast (4294967301 :: int64)) (record_of []) = record_of [(''bs'', ''5'')]"
proof -
  have "show_int 5 = ''5''" by (simp add: show_int_def decimal_digits.simps digit_char_def char_of_eq_iff)
  then show ?thesis
    using byte_counts_truncated [of 3000000000 "''bs''" "[]"] byte_counts_truncated [of 4294967301 "''bs''" "[]"] plain_keys by simp
qed

end
