(* ===== verification/Open_Kit_Objects.thy ===== *)
theory Open_Kit_Objects
  imports Beacon_Records
begin

text \<open>
  Web request tracers and actions (src/core/objects/WebRequestTracer.cxx, ActionCommonImpl.cxx,
  OpenKitComposite.cxx), the objects below a session. They form a tree, in which every parent keeps
  the list of its children. An object that is closed detaches itself from its parent, so that a
  handle of the application that finds no object in the tree is that of a closed one, on which no call
  has an effect. The operations run as one thread executes them.
\<close>

subsection \<open>What the objects of a session share\<close>

text \<open>
  The beacon, the cache, and the readings of the clock and of the thread: the \<open>n\<close>-th call of a
  provider reads \<open>sReadings n\<close>.
\<close>

record scene =
  sBeacon :: Beacon
  sCache :: BeaconCache
  sReadings :: "nat \<Rightarrow> readings"
  sTick :: nat
  sNextObject :: nat

definition provide :: "('s scene_scheme, readings) cpp_op" where
  "provide = (\<lambda>s. (Inr (sReadings s (sTick s)), s\<lparr>sTick := sTick s + 1\<rparr>))"

definition beacon_do :: "(readings \<Rightarrow> beacon_call) \<Rightarrow> ('s scene_scheme, unit) cpp_op" where
  "beacon_do f = op_bind provide (\<lambda>rd s.
     case f rd (sBeacon s) (sCache s) of
       Inl e \<Rightarrow> (Inl e, s)
     | Inr (b, c) \<Rightarrow> (Inr (), s\<lparr>sBeacon := b, sCache := c\<rparr>))"

definition getCurrentTimestamp :: "('s scene_scheme, int64) cpp_op" where
  "getCurrentTimestamp = op_bind provide (\<lambda>rd. op_return (now rd))"

definition next_number :: "('s scene_scheme, int32) cpp_op" where
  "next_number = (\<lambda>s. let (n, b) = createSequenceNumber (sBeacon s) in (Inr n, s\<lparr>sBeacon := b\<rparr>))"

definition next_id :: "('s scene_scheme, int32) cpp_op" where
  "next_id = (\<lambda>s. let (n, b) = createID (sBeacon s) in (Inr n, s\<lparr>sBeacon := b\<rparr>))"

definition new_object :: "('s scene_scheme, nat) cpp_op" where
  "new_object = (\<lambda>s. (Inr (sNextObject s), s\<lparr>sNextObject := sNextObject s + 1\<rparr>))"

subsection \<open>The objects\<close>

record WebRequestTracer =
  wrParentActionID :: int32
  wrURL :: UTF8String
  wrResponseCode :: int32
  wrBytesSent :: int64
  wrBytesReceived :: int64
  wrStartTime :: int64
  wrEndTime :: int64
  wrStartSequenceNo :: int32
  wrEndSequenceNo :: int32
  wrWebRequestTag :: UTF8String

record ActionCommonImpl =
  acName :: UTF8String
  acStartTime :: int64
  acEndTime :: int64
  acStartSequenceNumber :: int32
  acEndSequenceNumber :: int32
  acActionID :: int32
  acParentID :: int32
  acIsActionLeft :: bool

datatype node = Tracer nat WebRequestTracer | Action nat ActionCommonImpl "node list"

fun node_id :: "node \<Rightarrow> nat" where
  "node_id (Tracer i t) = i"
| "node_id (Action i a cs) = i"

text \<open>The id of a parent that is no action.\<close>

definition DEFAULT_ACTION_ID :: int32 where "DEFAULT_ACTION_ID = 0"

subsection \<open>Web request tracers\<close>

definition ANY_CHARACTER :: string where
  "ANY_CHARACTER = filter (\<lambda>c. c \<noteq> CHR 0x0A \<and> c \<noteq> CHR 0x0D) (map char_of [0..<256])"

definition LETTERS :: string where
  "LETTERS = ''abcdefghijklmnopqrstuvwxyzABCDEFGHIJKLMNOPQRSTUVWXYZ''"

definition SCHEMA_VALIDATION_PATTERN :: regex where
  "SCHEMA_VALIDATION_PATTERN =
     RSeq (RChars LETTERS) (RSeq (RStar (RChars (LETTERS @ ''0123456789+-.'')))
       (RSeq (RChars '':'') (RSeq (RChars ''/'') (RSeq (RChars ''/'')
         (RSeq (RChars ANY_CHARACTER) (RStar (RChars ANY_CHARACTER)))))))"

definition isValidURLScheme :: "UTF8String \<Rightarrow> bool" where
  "isValidURLScheme url \<longleftrightarrow> regex_match (mData url) SCHEMA_VALIDATION_PATTERN"

text \<open>The result of \<open>getIndexOf\<close> is \<open>Inl\<close> where it reads behind the end of the string.\<close>

definition calculateUrlFrom :: "UTF8String \<Rightarrow> cpp_exception + UTF8String" where
  "calculateUrlFrom url =
     (if \<not> isValidURLScheme url then Inr (UTF8String_of ''<unknown>'')
      else (case getIndexOf url ''?'' 0 of
              Inl n \<Rightarrow> Inl (UndefinedBehaviour ''read behind the end of a string'')
            | Inr indexOfQuestionMark \<Rightarrow>
                Inr (if indexOfQuestionMark = npos then url else substring url 0 indexOfQuestionMark)))"

definition WebRequestTracer_new :: "int32 \<Rightarrow> UTF8String \<Rightarrow> ('s scene_scheme, WebRequestTracer) cpp_op" where
  "WebRequestTracer_new parentActionID url =
     (case calculateUrlFrom url of
        Inl e \<Rightarrow> op_throw e
      | Inr u \<Rightarrow>
          op_bind getCurrentTimestamp (\<lambda>startTime.
          op_bind next_number (\<lambda>n.
          op_bind provide (\<lambda>rd s.
            (Inr \<lparr>wrParentActionID = parentActionID, wrURL = u, wrResponseCode = -1, wrBytesSent = -1,
                  wrBytesReceived = -1, wrStartTime = startTime, wrEndTime = -1, wrStartSequenceNo = n,
                  wrEndSequenceNo = -1, wrWebRequestTag = createTag rd parentActionID n (sBeacon s)\<rparr>, s)))))"

definition isStopped :: "WebRequestTracer \<Rightarrow> bool" where
  "isStopped t \<longleftrightarrow> wrEndTime t \<noteq> -1"

definition tracer_setBytesSent :: "int64 \<Rightarrow> WebRequestTracer \<Rightarrow> WebRequestTracer" where
  "tracer_setBytesSent bytesSent t = (if \<not> isStopped t then t\<lparr>wrBytesSent := bytesSent\<rparr> else t)"

definition tracer_setBytesReceived :: "int64 \<Rightarrow> WebRequestTracer \<Rightarrow> WebRequestTracer" where
  "tracer_setBytesReceived bytesReceived t = (if \<not> isStopped t then t\<lparr>wrBytesReceived := bytesReceived\<rparr> else t)"

definition tracer_start :: "WebRequestTracer \<Rightarrow> ('s scene_scheme, WebRequestTracer) cpp_op" where
  "tracer_start t =
     (if \<not> isStopped t then op_bind getCurrentTimestamp (\<lambda>time. op_return (t\<lparr>wrStartTime := time\<rparr>))
      else op_return t)"

definition web_request_view :: "WebRequestTracer \<Rightarrow> WebRequestView" where
  "web_request_view t =
     \<lparr>wvURL = wrURL t, wvStartSequenceNo = wrStartSequenceNo t, wvStartTime = wrStartTime t,
      wvEndSequenceNo = wrEndSequenceNo t, wvEndTime = wrEndTime t, wvBytesSent = wrBytesSent t,
      wvBytesReceived = wrBytesReceived t, wvResponseCode = wrResponseCode t\<rparr>"

text \<open>The result: whether the tracer detaches itself from its parent, and the tracer as it is left.\<close>

definition doStop :: "int32 \<Rightarrow> bool \<Rightarrow> WebRequestTracer \<Rightarrow> ('s scene_scheme, bool \<times> WebRequestTracer) cpp_op" where
  "doStop responseCode discardData t =
     (if isStopped t then op_return (False, t)
      else
        op_bind next_number (\<lambda>n.
        op_bind getCurrentTimestamp (\<lambda>time.
          let t' = t\<lparr>wrResponseCode := responseCode, wrEndSequenceNo := n, wrEndTime := time\<rparr> in
          op_bind (if discardData then op_return ()
                   else beacon_do (\<lambda>rd. addWebRequest rd (wrParentActionID t) (Some (web_request_view t')))) (\<lambda>_.
          op_return (True, t')))))"

subsection \<open>Actions\<close>

definition ActionCommonImpl_new :: "int32 \<Rightarrow> UTF8String \<Rightarrow> ('s scene_scheme, ActionCommonImpl) cpp_op" where
  "ActionCommonImpl_new parentID name =
     op_bind getCurrentTimestamp (\<lambda>startTime.
     op_bind next_number (\<lambda>n.
     op_bind next_id (\<lambda>actionID.
     op_return \<lparr>acName = name, acStartTime = startTime, acEndTime = -1, acStartSequenceNumber = n,
       acEndSequenceNumber = -1, acActionID = actionID, acParentID = parentID, acIsActionLeft = False\<rparr>)))"

definition action_view :: "ActionCommonImpl \<Rightarrow> ActionView" where
  "action_view a =
     \<lparr>avName = acName a, avID = acActionID a, avParentID = acParentID a, avStartSequenceNumber = acStartSequenceNumber a,
      avStartTime = acStartTime a, avEndSequenceNumber = acEndSequenceNumber a, avEndTime = acEndTime a\<rparr>"

definition getDuration :: "ActionCommonImpl \<Rightarrow> ('s scene_scheme, int64) cpp_op" where
  "getDuration a =
     (if acIsActionLeft a then op_return (acEndTime a - acStartTime a)
      else op_bind getCurrentTimestamp (\<lambda>time. op_return (time - acStartTime a)))"

text \<open>
  Closing an object and all objects below it: \<open>close\<close> of a tracer or an action, and \<open>cancel\<close> where
  the data are discarded. The children are closed first, in the order of their list. The result is
  \<open>None\<close> where the object detaches itself from its parent, otherwise the object as it stays there.
\<close>

fun close_node :: "bool \<Rightarrow> node \<Rightarrow> ('s scene_scheme, node option) cpp_op"
  and close_nodes :: "bool \<Rightarrow> node list \<Rightarrow> ('s scene_scheme, node list) cpp_op" where
  "close_node discardData (Tracer i t) =
     op_bind (doStop (wrResponseCode t) discardData t) (\<lambda>(detached, t').
     op_return (if detached then None else Some (Tracer i t')))"
| "close_node discardData (Action i a cs) =
     (if acIsActionLeft a then op_return (Some (Action i a cs))
      else
        op_bind (close_nodes discardData cs) (\<lambda>cs'.
        op_bind getCurrentTimestamp (\<lambda>endTime.
        op_bind next_number (\<lambda>n.
          let a' = a\<lparr>acIsActionLeft := True, acEndTime := endTime, acEndSequenceNumber := n\<rparr> in
          op_bind (if discardData then op_return () else beacon_do (\<lambda>rd. addAction rd (Some (action_view a')))) (\<lambda>_.
          op_return None)))))"
| "close_nodes discardData [] = op_return []"
| "close_nodes discardData (n # ns) =
     op_bind (close_node discardData n) (\<lambda>r.
     op_bind (close_nodes discardData ns) (\<lambda>ns'.
     op_return (case r of None \<Rightarrow> ns' | Some n' \<Rightarrow> n' # ns')))"

text \<open>
  A call on the object behind a handle: it changes the object, removes it, or leaves it; the last
  component is its result, \<open>None\<close> where the object is in the tree no more.
\<close>

fun on_node :: "(node \<Rightarrow> ('s scene_scheme, node option \<times> 'a) cpp_op) \<Rightarrow> nat \<Rightarrow> node \<Rightarrow>
                  ('s scene_scheme, node option \<times> 'a option) cpp_op"
  and on_nodes :: "(node \<Rightarrow> ('s scene_scheme, node option \<times> 'a) cpp_op) \<Rightarrow> nat \<Rightarrow> node list \<Rightarrow>
                  ('s scene_scheme, node list \<times> 'a option) cpp_op" where
  "on_node f i (Tracer j t) =
     (if j = i then op_bind (f (Tracer j t)) (\<lambda>(n', x). op_return (n', Some x)) else op_return (Some (Tracer j t), None))"
| "on_node f i (Action j a cs) =
     (if j = i then op_bind (f (Action j a cs)) (\<lambda>(n', x). op_return (n', Some x))
      else op_bind (on_nodes f i cs) (\<lambda>(cs', r). op_return (Some (Action j a cs'), r)))"
| "on_nodes f i [] = op_return ([], None)"
| "on_nodes f i (n # ns) =
     op_bind (on_node f i n) (\<lambda>(n', r).
       case r of
         Some x \<Rightarrow> op_return (case n' of None \<Rightarrow> ns | Some m \<Rightarrow> m # ns, Some x)
       | None \<Rightarrow> op_bind (on_nodes f i ns) (\<lambda>(ns', r').
                 op_return (case n' of None \<Rightarrow> ns' | Some m \<Rightarrow> m # ns', r')))"

text \<open>
  The calls on an action. The check of the name or of the URL comes first; a call on a left action
  or on no action has no effect. \<open>enterAction\<close> and \<open>traceWebRequest\<close> return the handle of a new
  object, or \<open>None\<close> for a null object.
\<close>

definition unless_left :: "('s scene_scheme, unit) cpp_op \<Rightarrow> node \<Rightarrow> ('s scene_scheme, node option \<times> unit) cpp_op" where
  "unless_left m n =
     (case n of
        Action i a cs \<Rightarrow> op_bind (if acIsActionLeft a then op_return () else m) (\<lambda>_. op_return (Some n, ()))
      | Tracer i t \<Rightarrow> op_return (Some n, ()))"

definition action_id_of :: "node \<Rightarrow> int32" where
  "action_id_of n = (case n of Action i a cs \<Rightarrow> acActionID a | Tracer i t \<Rightarrow> DEFAULT_ACTION_ID)"

definition action_enterAction :: "UTF8String \<Rightarrow> node \<Rightarrow> ('s scene_scheme, node option \<times> nat option) cpp_op" where
  "action_enterAction actionName n =
     (case n of
        Tracer i t \<Rightarrow> op_return (Some n, None)
      | Action i a cs \<Rightarrow>
          if utf8_isEmpty actionName then op_return (Some n, None)
          else if acIsActionLeft a then op_return (Some n, None)
          else
            op_bind (ActionCommonImpl_new (acActionID a) actionName) (\<lambda>child.
            op_bind new_object (\<lambda>j.
            op_return (Some (Action i a (cs @ [Action j child []])), Some j))))"

definition action_traceWebRequest :: "UTF8String \<Rightarrow> node \<Rightarrow> ('s scene_scheme, node option \<times> nat option) cpp_op" where
  "action_traceWebRequest url n =
     (case n of
        Tracer i t \<Rightarrow> op_return (Some n, None)
      | Action i a cs \<Rightarrow>
          if utf8_isEmpty url then op_return (Some n, None)
          else if \<not> isValidURLScheme url then op_return (Some n, None)
          else if acIsActionLeft a then op_return (Some n, None)
          else
            op_bind (WebRequestTracer_new (acActionID a) url) (\<lambda>tracer.
            op_bind new_object (\<lambda>j.
            op_return (Some (Action i a (cs @ [Tracer j tracer])), Some j))))"

definition action_reportEvent :: "UTF8String \<Rightarrow> node \<Rightarrow> ('s scene_scheme, node option \<times> unit) cpp_op" where
  "action_reportEvent eventName n =
     (if utf8_isEmpty eventName then op_return (Some n, ())
      else unless_left (beacon_do (\<lambda>rd. reportEvent rd (action_id_of n) eventName)) n)"

definition action_reportValue_int :: "UTF8String \<Rightarrow> int32 \<Rightarrow> node \<Rightarrow> ('s scene_scheme, node option \<times> unit) cpp_op" where
  "action_reportValue_int valueName v n =
     (if utf8_isEmpty valueName then op_return (Some n, ())
      else unless_left (beacon_do (\<lambda>rd. reportValue_int rd (action_id_of n) valueName v)) n)"

definition action_reportValue_long :: "UTF8String \<Rightarrow> int64 \<Rightarrow> node \<Rightarrow> ('s scene_scheme, node option \<times> unit) cpp_op" where
  "action_reportValue_long valueName v n =
     (if utf8_isEmpty valueName then op_return (Some n, ())
      else unless_left (beacon_do (\<lambda>rd. reportValue_long rd (action_id_of n) valueName v)) n)"

definition action_reportValue_double :: "UTF8String \<Rightarrow> string \<Rightarrow> node \<Rightarrow> ('s scene_scheme, node option \<times> unit) cpp_op" where
  "action_reportValue_double valueName v n =
     (if utf8_isEmpty valueName then op_return (Some n, ())
      else unless_left (beacon_do (\<lambda>rd. reportValue_double rd (action_id_of n) valueName v)) n)"

definition action_reportValue_string :: "UTF8String \<Rightarrow> UTF8String \<Rightarrow> node \<Rightarrow> ('s scene_scheme, node option \<times> unit) cpp_op" where
  "action_reportValue_string valueName v n =
     (if utf8_isEmpty valueName then op_return (Some n, ())
      else unless_left (beacon_do (\<lambda>rd. reportValue_string rd (action_id_of n) valueName v)) n)"

definition action_reportError_code :: "UTF8String \<Rightarrow> int32 \<Rightarrow> node \<Rightarrow> ('s scene_scheme, node option \<times> unit) cpp_op" where
  "action_reportError_code errorName errorCode n =
     (if utf8_isEmpty errorName then op_return (Some n, ())
      else unless_left (beacon_do (\<lambda>rd. reportError_code rd (action_id_of n) errorName errorCode)) n)"

definition action_reportError_cause ::
    "UTF8String \<Rightarrow> UTF8String \<Rightarrow> UTF8String \<Rightarrow> UTF8String \<Rightarrow> node \<Rightarrow> ('s scene_scheme, node option \<times> unit) cpp_op" where
  "action_reportError_cause errorName causeName causeDescription causeStackTrace n =
     (if utf8_isEmpty errorName then op_return (Some n, ())
      else unless_left (beacon_do (\<lambda>rd.
             reportError_cause rd (action_id_of n) errorName causeName causeDescription causeStackTrace)) n)"

definition leaveAction :: "node \<Rightarrow> ('s scene_scheme, node option \<times> bool) cpp_op" where
  "leaveAction n = op_bind (close_node False n) (\<lambda>r. op_return (r, r = None))"

definition cancelAction :: "node \<Rightarrow> ('s scene_scheme, node option \<times> bool) cpp_op" where
  "cancelAction n = op_bind (close_node True n) (\<lambda>r. op_return (r, r = None))"

text \<open>The calls on a tracer.\<close>

definition on_tracer ::
    "(WebRequestTracer \<Rightarrow> ('s scene_scheme, bool \<times> WebRequestTracer) cpp_op) \<Rightarrow> node \<Rightarrow> ('s scene_scheme, node option \<times> unit) cpp_op" where
  "on_tracer f n =
     (case n of
        Tracer i t \<Rightarrow> op_bind (f t) (\<lambda>(detached, t'). op_return (if detached then None else Some (Tracer i t'), ()))
      | Action i a cs \<Rightarrow> op_return (Some n, ()))"

definition tracer_stop :: "int32 \<Rightarrow> node \<Rightarrow> ('s scene_scheme, node option \<times> unit) cpp_op" where
  "tracer_stop responseCode = on_tracer (doStop responseCode False)"

definition tracer_cancel :: "node \<Rightarrow> ('s scene_scheme, node option \<times> unit) cpp_op" where
  "tracer_cancel = on_tracer (\<lambda>t. doStop (wrResponseCode t) True t)"

end
