(* ===== verification/Session_Model.thy ===== *)
theory Session_Model
  imports Open_Kit_Objects
begin

text \<open>
  Sessions (src/core/objects/Session.cxx): the calls of the application, the state of a session from
  its configuration to its end, and what the sender asks of it. A session tells its parent when it has
  ended; the operations return whether they did.
\<close>

record Session = scene +
  mChildren :: "node list"
  mNumRemainingNewSessionRequests :: int32
  mIsSessionFinishing :: bool
  mIsSessionFinished :: bool
  mWasTriedForEnding :: bool
  mSplitByEventsGracePeriodEndTimeInMillis :: int64
  mSupplementaryBasicData :: SupplementaryBasicData

definition MAX_NEW_SESSION_REQUESTS :: int32 where "MAX_NEW_SESSION_REQUESTS = 4"

definition Session_new :: "Beacon \<Rightarrow> SupplementaryBasicData \<Rightarrow> BeaconCache \<Rightarrow> (nat \<Rightarrow> readings) \<Rightarrow> nat \<Rightarrow> nat \<Rightarrow> Session" where
  "Session_new beacon supplementaryBasicData cache rds tick next =
     \<lparr>sBeacon = beacon, sCache = cache, sReadings = rds, sTick = tick, sNextObject = next,
      mChildren = [], mNumRemainingNewSessionRequests = MAX_NEW_SESSION_REQUESTS, mIsSessionFinishing = False,
      mIsSessionFinished = False, mWasTriedForEnding = False, mSplitByEventsGracePeriodEndTimeInMillis = -1,
      mSupplementaryBasicData = supplementaryBasicData\<rparr>"

type_synonym 'a session_op = "(Session, 'a) cpp_op"

definition isFinishingOrFinished :: "Session \<Rightarrow> bool" where
  "isFinishingOrFinished s \<longleftrightarrow> mIsSessionFinishing s \<or> mIsSessionFinished s"

definition isConfigured :: "Session \<Rightarrow> bool" where
  "isConfigured s \<longleftrightarrow> bcIsServerConfigurationSet (mBeaconConfiguration (sBeacon s))"

definition isConfiguredAndFinished :: "Session \<Rightarrow> bool" where
  "isConfiguredAndFinished s \<longleftrightarrow> isConfigured s \<and> mIsSessionFinished s"

definition isConfiguredAndOpen :: "Session \<Rightarrow> bool" where
  "isConfiguredAndOpen s \<longleftrightarrow> isConfigured s \<and> \<not> mIsSessionFinished s"

definition isDataSendingAllowed :: "Session \<Rightarrow> bool" where
  "isDataSendingAllowed s \<longleftrightarrow> isConfigured s \<and> isDataCapturingEnabled (sBeacon s)"

definition canSendNewSessionRequest :: "Session \<Rightarrow> bool" where
  "canSendNewSessionRequest s \<longleftrightarrow> sint (mNumRemainingNewSessionRequests s) > 0"

definition decreaseNumRemainingSessionRequests :: "Session \<Rightarrow> Session" where
  "decreaseNumRemainingSessionRequests s =
     s\<lparr>mNumRemainingNewSessionRequests := mNumRemainingNewSessionRequests s - 1\<rparr>"

definition update_configuration :: "(BeaconConfiguration \<Rightarrow> BeaconConfiguration) \<Rightarrow> Session \<Rightarrow> Session" where
  "update_configuration f s = s\<lparr>sBeacon := (sBeacon s)\<lparr>mBeaconConfiguration := f (mBeaconConfiguration (sBeacon s))\<rparr>\<rparr>"

subsection \<open>The calls of the application\<close>

definition session_startSession :: "unit session_op" where
  "session_startSession = beacon_do beacon_startSession"

text \<open>A call that reaches the beacon only while the session is neither finishing nor finished.\<close>

definition while_open :: "unit session_op \<Rightarrow> unit session_op" where
  "while_open m = (\<lambda>s. if isFinishingOrFinished s then (Inr (), s) else m s)"

definition session_enterAction :: "UTF8String \<Rightarrow> nat option session_op" where
  "session_enterAction actionName = (\<lambda>s.
     if utf8_isEmpty actionName then (Inr None, s)
     else if isFinishingOrFinished s then (Inr None, s)
     else
       op_bind (ActionCommonImpl_new DEFAULT_ACTION_ID actionName) (\<lambda>a.
       op_bind new_object (\<lambda>i.
       op_bind (op_modify (\<lambda>s. s\<lparr>mChildren := mChildren s @ [Action i a []]\<rparr>)) (\<lambda>_.
       op_return (Some i)))) s)"

definition session_identifyUser :: "UTF8String \<Rightarrow> unit session_op" where
  "session_identifyUser userTag = while_open (beacon_do (\<lambda>rd. beacon_identifyUser rd userTag))"

definition session_reportCrash :: "UTF8String \<Rightarrow> UTF8String \<Rightarrow> UTF8String \<Rightarrow> unit session_op" where
  "session_reportCrash errorName reason stacktrace =
     (if utf8_isEmpty errorName then op_return ()
      else while_open (beacon_do (\<lambda>rd. beacon_reportCrash rd errorName reason stacktrace)))"

text \<open>A null pointer takes the setting back; a text that is empty is refused.\<close>

definition session_reportNetworkTechnology :: "string option \<Rightarrow> Session \<Rightarrow> Session" where
  "session_reportNetworkTechnology technology s =
     (let t = UTF8String_of_ptr technology in
      if technology \<noteq> None \<and> utf8_isEmpty t then s
      else s\<lparr>mSupplementaryBasicData :=
             (if technology = None then resetNetworkTechnology else setNetworkTechnology t) (mSupplementaryBasicData s)\<rparr>)"

definition session_reportConnectionType :: "ConnectionType \<Rightarrow> Session \<Rightarrow> Session" where
  "session_reportConnectionType connectionType s =
     s\<lparr>mSupplementaryBasicData :=
        (if connectionType = UNSET then resetConnectionType else setConnectionType connectionType) (mSupplementaryBasicData s)\<rparr>"

definition session_reportCarrier :: "string option \<Rightarrow> Session \<Rightarrow> Session" where
  "session_reportCarrier carrier s =
     (let c = UTF8String_of_ptr carrier in
      if carrier \<noteq> None \<and> utf8_isEmpty c then s
      else s\<lparr>mSupplementaryBasicData :=
             (if carrier = None then resetCarrier else setCarrier c) (mSupplementaryBasicData s)\<rparr>)"

definition session_traceWebRequest :: "UTF8String \<Rightarrow> nat option session_op" where
  "session_traceWebRequest url = (\<lambda>s.
     if utf8_isEmpty url then (Inr None, s)
     else if \<not> isValidURLScheme url then (Inr None, s)
     else if isFinishingOrFinished s then (Inr None, s)
     else
       op_bind (WebRequestTracer_new DEFAULT_ACTION_ID url) (\<lambda>t.
       op_bind new_object (\<lambda>i.
       op_bind (op_modify (\<lambda>s. s\<lparr>mChildren := mChildren s @ [Tracer i t]\<rparr>)) (\<lambda>_.
       op_return (Some i)))) s)"

definition session_sendBizEvent :: "'d double_ops \<Rightarrow> UTF8String \<Rightarrow> 'd JsonObjectMap option \<Rightarrow> unit session_op" where
  "session_sendBizEvent fp eventType attributes =
     (if utf8_isEmpty eventType then op_return ()
      else while_open (beacon_do (\<lambda>rd. sendBizEvent fp rd eventType attributes)))"

definition session_sendEvent :: "'d double_ops \<Rightarrow> UTF8String \<Rightarrow> 'd JsonObjectMap option \<Rightarrow> unit session_op" where
  "session_sendEvent fp name attributes =
     (if utf8_isEmpty name then op_return ()
      else while_open (beacon_do (\<lambda>rd. sendEvent fp rd name attributes)))"

subsection \<open>The end of a session\<close>

definition markAsIsFinishing :: "bool session_op" where
  "markAsIsFinishing = (\<lambda>s.
     if isFinishingOrFinished s then (Inr False, s) else (Inr True, s\<lparr>mIsSessionFinishing := True\<rparr>))"

text \<open>
  While the session is finishing, a child that detaches itself finds it finishing, so that the call
  of \<open>end\<close> in \<open>onChildClosed\<close> has no effect. The result: whether the parent is told.
\<close>

definition session_end :: "bool \<Rightarrow> bool session_op" where
  "session_end sendSessionEndEvent =
     op_bind markAsIsFinishing (\<lambda>marked.
       if \<not> marked then op_return False
       else
         op_bind (\<lambda>s. close_nodes False (mChildren s) s) (\<lambda>cs.
         op_bind (op_modify (\<lambda>s. s\<lparr>mChildren := cs\<rparr>)) (\<lambda>_.
         op_bind (if sendSessionEndEvent then beacon_do beacon_endSession else op_return ()) (\<lambda>_.
         op_bind (op_modify (\<lambda>s. s\<lparr>mIsSessionFinished := True\<rparr>)) (\<lambda>_.
         op_return True)))))"

text \<open>The first component is the result, the second whether the parent is told.\<close>

definition tryEnd :: "(bool \<times> bool) session_op" where
  "tryEnd = (\<lambda>s.
     if isFinishingOrFinished s then (Inr (True, False), s)
     else if mChildren s = [] then op_bind (session_end False) (\<lambda>told. op_return (True, told)) s
     else (Inr (False, False), s\<lparr>mWasTriedForEnding := True\<rparr>))"

text \<open>Called when a child has been removed from the list.\<close>

definition session_onChildClosed :: "bool session_op" where
  "session_onChildClosed = (\<lambda>s.
     if mWasTriedForEnding s \<and> mChildren s = [] then session_end True s else (Inr False, s))"

text \<open>
  A call on the object behind a handle. A child of the session that is closed by it tells the
  session. The result: that of the call, and whether the parent of the session is told.
\<close>

definition session_call ::
    "nat \<Rightarrow> (node \<Rightarrow> (Session, node option \<times> 'a) cpp_op) \<Rightarrow> ('a option \<times> bool) session_op" where
  "session_call i f =
     op_bind (\<lambda>s. on_nodes f i (mChildren s) s) (\<lambda>(cs, r) s.
       let s' = s\<lparr>mChildren := cs\<rparr> in
       if length cs < length (mChildren s)
       then op_bind session_onChildClosed (\<lambda>told. op_return (r, told)) s'
       else (Inr (r, False), s'))"

subsection \<open>The data of a session\<close>

definition session_isEmpty :: "Session \<Rightarrow> bool" where
  "session_isEmpty s \<longleftrightarrow> cache_isEmpty (mBeaconKey (sBeacon s)) (sCache s)"

definition clearCapturedData :: "Session \<Rightarrow> Session" where
  "clearCapturedData s = s\<lparr>sCache := deleteCacheEntry (mBeaconKey (sBeacon s)) (sCache s)\<rparr>"

end
