(* ===== verification/Object_Trees.thy ===== *)
theory Object_Trees
  imports Session_Model
begin

text \<open>
  Facts about the trees of objects (Open_Kit_Objects) that the proofs about sessions share: what an
  operation yields, which part of the state it leaves alone, and that every call keeps the objects of
  a tree live, that is, neither stopped nor left. So closing a tree removes all of it.
\<close>

subsection \<open>Operations and what they leave alone\<close>

definition yields :: "('s, 'a) cpp_op \<Rightarrow> ('a \<Rightarrow> bool) \<Rightarrow> bool" where
  "yields m P \<longleftrightarrow> (\<forall>s a s'. m s = (Inr a, s') \<longrightarrow> P a)"

lemma yields_basic [intro]: "P a \<Longrightarrow> yields (op_return a) P" "yields (op_throw e) P"
  by (simp_all add: yields_def op_return_def op_throw_def)

lemma yields_bind: "yields m Q \<Longrightarrow> (\<And>a. Q a \<Longrightarrow> yields (f a) P) \<Longrightarrow> yields (op_bind m f) P"
  unfolding yields_def by (blast elim!: op_bind_InrE)

lemma yields_any: "yields m (\<lambda>_. True)"
  by (simp add: yields_def)

lemma yields_after: "(\<And>a. yields (f a) P) \<Longrightarrow> yields (op_bind m f) P"
  by (rule yields_bind [OF yields_any])

definition frames :: "('s scene_scheme, 'a) cpp_op \<Rightarrow> bool" where
  "frames m \<longleftrightarrow> (\<forall>s. scene.more (snd (m s)) = scene.more s)"

lemma frames_basic [intro, simp]: "frames (op_return a)" "frames (op_throw e)"
  by (simp_all add: frames_def op_return_def op_throw_def)

lemma frames_bind [intro]: "frames m \<Longrightarrow> (\<And>a. frames (f a)) \<Longrightarrow> frames (op_bind m f)"
  by (auto simp: frames_def op_bind_def split: prod.split sum.split) (metis snd_conv)+

lemma frames_if [intro]: "(b \<Longrightarrow> frames m) \<Longrightarrow> (\<not> b \<Longrightarrow> frames m') \<Longrightarrow> frames (if b then m else m')"
  by simp

lemma frames_providers [intro, simp]: "frames provide" "frames next_number" "frames next_id" "frames new_object"
  by (simp_all add: frames_def provide_def next_number_def next_id_def new_object_def Let_def split: prod.split)

lemma frames_clock [intro, simp]: "frames getCurrentTimestamp"
  unfolding getCurrentTimestamp_def by auto

lemma frames_beacon_do [intro, simp]: "frames (beacon_do f)"
  unfolding beacon_do_def by (rule frames_bind [OF frames_providers(1)]) (auto simp: frames_def split: sum.split prod.split)

lemma frames_tracer_new [intro, simp]: "frames (WebRequestTracer_new i u)"
  unfolding WebRequestTracer_new_def by (auto split: sum.split intro!: frames_bind) (simp add: frames_def)

lemma frames_action_new [intro, simp]: "frames (ActionCommonImpl_new i u)"
  unfolding ActionCommonImpl_new_def by (intro frames_bind frames_basic frames_providers frames_clock)

lemma frames_doStop [intro, simp]: "frames (doStop rc d t)"
  unfolding doStop_def Let_def by (intro frames_bind frames_basic frames_providers frames_clock frames_if frames_beacon_do)

lemma frames_close:
  "frames (close_node d n :: ('s scene_scheme, _) cpp_op)" "frames (close_nodes d ns :: ('s scene_scheme, _) cpp_op)"
  by (induction d n and d ns rule: close_node_close_nodes.induct)
    (auto simp: Let_def split: prod.split intro!: frames_bind)

lemma frames_on:
  fixes f :: "node \<Rightarrow> ('s scene_scheme, node option \<times> 'a) cpp_op"
  shows "(\<And>n. frames (f n)) \<Longrightarrow> frames (on_node f i n)" "(\<And>n. frames (f n)) \<Longrightarrow> frames (on_nodes f i ns)"
  by (induction f i n and f i ns rule: on_node_on_nodes.induct)
    (auto split: prod.split option.split intro!: frames_bind)


lemmas frames_intros = frames_bind frames_basic frames_providers frames_clock frames_if frames_beacon_do
  frames_tracer_new frames_action_new frames_doStop frames_close frames_on

subsection \<open>Live objects\<close>

text \<open>No object in the tree is stopped or left, and every action has a name and every tracer a URL.\<close>

fun live :: "node \<Rightarrow> bool" where
  "live (Tracer i t) \<longleftrightarrow> \<not> isStopped t \<and> \<not> utf8_isEmpty (wrURL t)"
| "live (Action i a cs) \<longleftrightarrow> \<not> acIsActionLeft a \<and> \<not> utf8_isEmpty (acName a) \<and> list_all live cs"

text \<open>A call on a live object leaves it live or removes it.\<close>

definition keeps_live :: "(node \<Rightarrow> ('s scene_scheme, node option \<times> 'a) cpp_op) \<Rightarrow> bool" where
  "keeps_live f \<longleftrightarrow> (\<forall>n. live n \<longrightarrow> yields (f n) (\<lambda>r. pred_option live (fst r)))"

lemma close_live:
  "live n \<Longrightarrow> yields (close_node d n :: ('s scene_scheme, _) cpp_op) (\<lambda>r. r = None)"
  "list_all live ns \<Longrightarrow> yields (close_nodes d ns :: ('s scene_scheme, _) cpp_op) (\<lambda>r. r = [])"
proof (induction d n and d ns rule: close_node_close_nodes.induct)
  case (1 d i t)
  have "yields (doStop (wrResponseCode t) d t) fst"
    using 1 unfolding doStop_def Let_def by (auto intro!: yields_after)
  then show ?case unfolding close_node.simps by (rule yields_bind) (auto split: prod.split)
next
  case (2 d i a cs)
  then show ?case by (auto simp: Let_def intro!: yields_after)
next
  case (4 d n ns)
  then have "yields (close_node d n :: ('s scene_scheme, _) cpp_op) (\<lambda>r. r = None)"
    "yields (close_nodes d ns :: ('s scene_scheme, _) cpp_op) (\<lambda>r. r = [])" by simp_all
  then show ?case unfolding close_nodes.simps by (elim yields_bind) (auto intro: yields_bind)
qed auto

lemma on_nodes_live:
  fixes f :: "node \<Rightarrow> ('s scene_scheme, node option \<times> 'a) cpp_op"
  shows "keeps_live f \<Longrightarrow> live n \<Longrightarrow> yields (on_node f i n) (\<lambda>r. pred_option live (fst r))"
    "keeps_live f \<Longrightarrow> list_all live ns \<Longrightarrow> yields (on_nodes f i ns) (\<lambda>r. list_all live (fst r))"
proof (induction f i n and f i ns rule: on_node_on_nodes.induct)
  case (1 f i j t)
  then have "yields (f (Tracer j t)) (\<lambda>r. pred_option live (fst r))" by (simp add: keeps_live_def)
  then show ?case using 1(2) by (auto elim!: yields_bind split: prod.split)
next
  case (2 f i j a cs)
  show ?case
  proof (cases "j = i")
    case True
    have "yields (f (Action j a cs)) (\<lambda>r. pred_option live (fst r))" using 2 by (simp add: keeps_live_def)
    then show ?thesis using True by (auto elim!: yields_bind split: prod.split)
  next
    case False
    have "yields (on_nodes f i cs) (\<lambda>r. list_all live (fst r))" using 2 False by simp
    then show ?thesis using False 2(3) by (auto elim!: yields_bind split: prod.split)
  qed
next
  case (4 f i n ns)
  have a: "yields (on_node f i n) (\<lambda>r. pred_option live (fst r))" "list_all live ns" using 4 by simp_all
  have b: "yields (on_nodes f i ns) (\<lambda>r. list_all live (fst r))" if "x = None" for x :: "'a option" using 4 that by simp
  show ?case unfolding on_nodes.simps
    by (rule yields_bind [OF a(1)]) (auto split: prod.split option.split intro!: yields_bind [OF b] simp: a(2))
qed auto

subsection \<open>The URL of a web request\<close>

definition well_formed :: "UTF8String \<Rightarrow> bool" where
  "well_formed u \<longleftrightarrow> (\<exists>css. utf8_text css \<and> length (concat css) < npos \<and> u = \<lparr>mData = concat css, mStringLength = length css\<rparr>)"

lemma scheme_start: "isValidURLScheme url \<Longrightarrow> mData url \<noteq> [] \<and> hd (mData url) \<in> set LETTERS"
  unfolding isValidURLScheme_def regex_match_lang SCHEMA_VALIDATION_PATTERN_def lang_chars_seq by simp

lemma getIndexOf_loop_ge: "getIndexOf_loop d cmp off i cur = Inr k \<Longrightarrow> i \<le> k \<or> k = npos"
proof (induction "length d - i" arbitrary: i cur)
  case 0
  then show ?case by (subst (asm) getIndexOf_loop.simps) simp
next
  case (Suc n)
  then have "n = length d - (i + 1)" by simp
  from Suc.hyps(1) [OF this] Suc.prems show ?case
    by (subst (asm) (2) getIndexOf_loop.simps) (fastforce simp: Let_def split: if_splits)
qed

lemma question_mark_behind_start:
  assumes "isValidURLScheme url" and "getIndexOf url ''?'' 0 = Inr k"
  shows "0 < k"
proof -
  have "CHR ''?'' \<notin> set LETTERS" by (simp add: LETTERS_def)
  then have h: "mData url \<noteq> []" "hd (mData url) \<noteq> CHR ''?''" using scheme_start [OF assms(1)] by auto
  have "getIndexOf_loop (mData url) ''?'' 0 0 0 =
      getIndexOf_loop (mData url) ''?'' 0 1 (getByteWidthOfCharacter (hd (mData url)))"
  proof -
    have w: "getByteWidthOfCharacter (CHR ''?'') = 1" "c_at ''?'' 0 = CHR ''?''"
      by (simp_all add: c_at_def byteWidth_eq byte_of_def)
    have c: "c_at (mData url) 0 = hd (mData url)" using h by (simp add: c_at_def hd_conv_nth)
    have n: "\<not> (1 = n \<and> (n = 1 \<and> hd (mData url) = CHR ''?'' \<or> 1 < n \<and> b))" for n :: nat and b
      using h by auto
    show ?thesis
      using h n by (subst getIndexOf_loop.simps) (auto simp add: Let_def w c)
  qed
  then have "getIndexOf_loop (mData url) ''?'' 0 1 (getByteWidthOfCharacter (hd (mData url))) = Inr k"
    using assms(2) by (simp add: getIndexOf_def npos_def)
  from getIndexOf_loop_ge [OF this] show ?thesis by (auto simp: npos_def)
qed

lemma url_not_empty:
  assumes "well_formed url" and "isValidURLScheme url" and "calculateUrlFrom url = Inr u"
  shows "\<not> utf8_isEmpty u"
proof -
  obtain css where css: "utf8_text css" "length (concat css) < npos" "url = \<lparr>mData = concat css, mStringLength = length css\<rparr>"
    using assms(1) by (auto simp: well_formed_def)
  have ne: "css \<noteq> []" using scheme_start [OF assms(2)] css(3) by auto
  obtain k where k: "getIndexOf url ''?'' 0 = Inr k" "u = (if k = npos then url else substring url 0 k)"
    using assms(2,3) by (auto simp: calculateUrlFrom_def split: sum.splits)
  have "0 < k" by (rule question_mark_behind_start [OF assms(2) k(1)])
  then show ?thesis using k(2) css ne substring_text [OF css(1), of 0 k] by (auto simp: utf8_isEmpty_def)
qed

lemma tracer_new_live:
  assumes "well_formed url" and "isValidURLScheme url"
  shows "yields (WebRequestTracer_new i url :: ('s scene_scheme, _) cpp_op) (\<lambda>t. \<not> isStopped t \<and> \<not> utf8_isEmpty (wrURL t))"
  unfolding WebRequestTracer_new_def using url_not_empty [OF assms]
  by (auto split: sum.split intro!: yields_after) (auto simp: yields_def isStopped_def)

lemma action_new_live:
  "\<not> utf8_isEmpty name \<Longrightarrow>
    yields (ActionCommonImpl_new i name :: ('s scene_scheme, _) cpp_op) (\<lambda>a. \<not> acIsActionLeft a \<and> \<not> utf8_isEmpty (acName a))"
  unfolding ActionCommonImpl_new_def by (auto intro!: yields_after)

subsection \<open>The calls on objects keep them live\<close>

lemma unless_left_live: "live n \<Longrightarrow> yields (unless_left m n) (\<lambda>r. pred_option live (fst r))"
  unfolding unless_left_def by (cases n) (auto intro!: yields_after)

lemma report_keeps_live:
  "keeps_live (action_reportEvent u)" "keeps_live (action_reportValue_int u v)" "keeps_live (action_reportValue_long u w)"
  "keeps_live (action_reportValue_double u x)" "keeps_live (action_reportValue_string u y)"
  "keeps_live (action_reportError_code u v)" "keeps_live (action_reportError_cause u y z z')"
  unfolding keeps_live_def action_reportEvent_def action_reportValue_int_def action_reportValue_long_def
    action_reportValue_double_def action_reportValue_string_def action_reportError_code_def action_reportError_cause_def
  by (auto simp: unless_left_live)

lemma leave_keeps_live: "keeps_live leaveAction" "keeps_live cancelAction"
  unfolding keeps_live_def leaveAction_def cancelAction_def
  by (auto intro!: yields_bind [OF close_live(1)])

lemma enter_live: "live n \<Longrightarrow> yields (action_enterAction u n) (\<lambda>r. pred_option live (fst r))"
proof (cases n)
  case (Action i a cs)
  assume l: "live n"
  have "yields (op_bind (ActionCommonImpl_new (acActionID a) u) (\<lambda>child. op_bind new_object (\<lambda>j.
      op_return (Some (Action i a (cs @ [Action j child []])), Some j)))) (\<lambda>r. pred_option live (fst r))"
    if "\<not> utf8_isEmpty u"
    by (rule yields_bind [OF action_new_live [OF that]]) (use l Action in \<open>auto intro!: yields_after\<close>)
  then show ?thesis using l Action by (auto simp: action_enterAction_def)
qed (auto simp: action_enterAction_def)

lemma trace_live: "well_formed u \<Longrightarrow> live n \<Longrightarrow> yields (action_traceWebRequest u n) (\<lambda>r. pred_option live (fst r))"
proof (cases n)
  case (Action i a cs)
  assume u: "well_formed u" and l: "live n"
  have "yields (op_bind (WebRequestTracer_new (acActionID a) u) (\<lambda>t. op_bind new_object (\<lambda>j.
      op_return (Some (Action i a (cs @ [Tracer j t])), Some j)))) (\<lambda>r. pred_option live (fst r))"
    if "isValidURLScheme u"
    by (rule yields_bind [OF tracer_new_live [OF u that]]) (use l Action in \<open>auto intro!: yields_after\<close>)
  then show ?thesis using l Action by (auto simp: action_traceWebRequest_def)
qed (auto simp: action_traceWebRequest_def)

lemma enter_keeps_live: "keeps_live (action_enterAction u)"
  by (simp add: keeps_live_def enter_live)

lemma trace_keeps_live: "well_formed u \<Longrightarrow> keeps_live (action_traceWebRequest u)"
  by (simp add: keeps_live_def trace_live)

lemma on_tracer_live:
  "live n \<Longrightarrow> yields (on_tracer (\<lambda>t. doStop (f t) d t) n) (\<lambda>r. pred_option live (fst r))"
proof -
  have s: "yields (doStop rc d t :: ('s scene_scheme, _) cpp_op) fst" if "\<not> isStopped t" for rc t
    using that unfolding doStop_def Let_def by (auto intro!: yields_after)
  assume "live n"
  then show ?thesis
    unfolding on_tracer_def by (cases n) (auto split: prod.split intro!: yields_bind [OF s])
qed

lemma tracer_keeps_live: "keeps_live (tracer_stop rc)" "keeps_live tracer_cancel"
  using on_tracer_live [where f = "\<lambda>_. rc"] on_tracer_live [where f = wrResponseCode]
  by (auto simp: keeps_live_def tracer_stop_def tracer_cancel_def)

end
