(* ===== verification/Session_Facts.thy ===== *)
theory Session_Facts
  imports Object_Trees
begin

text \<open>
  Properties of sessions: the reports that the end of a session leaves in the cache, the states a
  session can reach by the calls of the application and of the sender, and the silence of a session
  that has ended.
\<close>

subsection \<open>The URL of a web request\<close>

lemma behind_the_end:
  "getIndexOf_loop d cmp 0 (Suc n) (Suc (length d)) = (if Suc n < length d then Inl (Suc (length d)) else Inr npos)"
  by (subst getIndexOf_loop.simps) simp

lemma question_mark_loop:
  assumes "utf8_text (xs @ ys)" and "d = concat (xs @ ys)"
  shows "getIndexOf_loop d ''?'' 0 (length xs) (length (concat xs)) =
    (if ''?'' \<in> set ys then Inr (length xs + length (takeWhile (\<lambda>c. c \<noteq> ''?'') ys))
     else if length d \<le> length (xs @ ys) + 1 then Inr npos else Inl (length d + 1))"
  using assms
proof (induction ys arbitrary: xs)
  case Nil
  have w: "getByteWidthOfCharacter (CHR 0x00) = 1" by (simp add: byteWidth_eq byte_of_def)
  have "c_at d (length d) = CHR 0x00" "c_at ''?'' 0 = CHR ''?''" by (simp_all add: c_at_def)
  then show ?case using Nil w
    by (subst getIndexOf_loop.simps) (auto simp: Let_def behind_the_end)
next
  case (Cons y ys)
  have y: "utf8_char y" "utf8_text xs" using Cons.prems(1) by simp_all
  then have len: "y \<noteq> []" "0 < length y" "getByteWidthOfCharacter (hd y) = length y" "length xs \<le> length (concat xs)"
    by (auto simp: utf8_char_def intro: concat_utf8_length)
  have l: "length xs < length (concat xs) + (length y + length (concat ys))" using len by linarith
  have c: "c_at d (length (concat xs)) = hd y" "length xs < length d" "\<not> length (concat xs) > length d"
    using Cons.prems(2) len l by (auto simp: c_at_def nth_append hd_conv_nth)
  have q: "c_at ''?'' 0 = CHR ''?''" "getByteWidthOfCharacter (CHR ''?'') = 1"
    by (simp_all add: c_at_def byteWidth_eq byte_of_def)
  have e: "1 = length y \<and> (length y = 1 \<and> hd y = CHR ''?'' \<or> 1 < length y \<and> P) \<longleftrightarrow> y = ''?''" for P
    using len(1) by (auto simp: length_Suc_conv)
  have step: "getIndexOf_loop d ''?'' 0 (length xs) (length (concat xs)) =
    (if y = ''?'' then Inr (length xs) else getIndexOf_loop d ''?'' 0 (length xs + 1) (length (concat xs) + length y))"
    using c(2,3) by (subst getIndexOf_loop.simps) (simp only: if_True if_False Let_def c(1) q len(3) e le0 True_implies_equals simp_thms)
  have "getIndexOf_loop d ''?'' 0 (length (xs @ [y])) (length (concat (xs @ [y]))) =
    (if ''?'' \<in> set ys then Inr (length (xs @ [y]) + length (takeWhile (\<lambda>c. c \<noteq> ''?'') ys))
     else if length d \<le> length ((xs @ [y]) @ ys) + 1 then Inr npos else Inl (length d + 1))"
    by (rule Cons.IH) (use Cons.prems in simp_all)
  then show ?case unfolding step by simp
qed

text \<open>The URL a web request is recorded under, for a URL of complete characters that has a valid
  scheme: with a question mark, it is the URL before the first one; without, it is the whole URL,
  unless the URL has two bytes more than characters: then the search for the question mark reads
  behind the end of the string.\<close>

theorem recorded_url:
  assumes "utf8_text css" and "length (concat css) < npos"
    and "isValidURLScheme \<lparr>mData = concat css, mStringLength = length css\<rparr>"
  shows "calculateUrlFrom \<lparr>mData = concat css, mStringLength = length css\<rparr> =
    (let before = takeWhile (\<lambda>c. c \<noteq> ''?'') css in
     if ''?'' \<in> set css \<or> length (concat css) \<le> length css + 1
     then Inr \<lparr>mData = concat before, mStringLength = length before\<rparr>
     else Inl (UndefinedBehaviour ''read behind the end of a string''))"
proof -
  let ?u = "\<lparr>mData = concat css, mStringLength = length css\<rparr>"
  let ?b = "takeWhile (\<lambda>c. c \<noteq> ''?'') css"
  have i: "getIndexOf ?u ''?'' 0 = (if ''?'' \<in> set css then Inr (length ?b)
     else if length (concat css) \<le> length css + 1 then Inr npos else Inl (length (concat css) + 1))"
    using question_mark_loop [of "[]" css "concat css"] assms(1) by (simp add: getIndexOf_def npos_def)
  show ?thesis
  proof (cases "''?'' \<in> set css")
    case True
    have "0 < length ?b" using question_mark_behind_start [OF assms(3)] i True by simp
    moreover have "css \<noteq> []" using True by auto
    ultimately have "substring ?u 0 (length ?b) = \<lparr>mData = concat ?b, mStringLength = length ?b\<rparr>"
      using substring_text [OF assms(1), of 0 "length ?b" "length css"] assms(2)
      by (simp add: takeWhile_eq_take [symmetric] length_takeWhile_le min_absorb1)
    moreover have "length ?b \<noteq> npos"
      using length_takeWhile_le [of "\<lambda>c. c \<noteq> ''?''" css] concat_utf8_length [OF assms(1)] assms(2) by linarith
    ultimately show ?thesis using True i assms(3) by (simp add: calculateUrlFrom_def Let_def)
  next
    case False
    then have b: "?b = css" by (intro takeWhile_eq_all_conv [THEN iffD2]) auto
    show ?thesis unfolding Let_def b using False i assms(3) by (simp add: calculateUrlFrom_def)
  qed
qed

lemma any_character: "c \<in> set ANY_CHARACTER \<longleftrightarrow> c \<noteq> CHR 0x0A \<and> c \<noteq> CHR 0x0D"
proof -
  have "c = char_of (of_char c :: nat)" "(of_char c :: nat) < 256" by simp_all
  then have "c \<in> char_of ` {0..<256::nat}" by (metis atLeastLessThan_iff imageI zero_le)
  then show ?thesis by (auto simp: ANY_CHARACTER_def)
qed

lemma chars_starred: "set xs \<subseteq> set cs \<Longrightarrow> xs \<in> lang (RStar (RChars cs))"
proof (induction xs)
  case (Cons x xs)
  then show ?case using star_append [of "[x]" "lang (RChars cs)" xs] by auto
qed (simp add: star.intros)

lemma valid_scheme:
  assumes "c \<in> set LETTERS" and "set (x # xs) \<subseteq> set ANY_CHARACTER"
  shows "isValidURLScheme \<lparr>mData = c # ''://'' @ x # xs, mStringLength = n\<rparr>"
proof -
  define R where "R = RSeq (RChars '':'') (RSeq (RChars ''/'') (RSeq (RChars ''/'')
         (RSeq (RChars ANY_CHARACTER) (RStar (RChars ANY_CHARACTER)))))"
  have "''://'' @ x # xs \<in> lang R"
    using assms(2) chars_starred [of xs ANY_CHARACTER] unfolding R_def lang_chars_seq by simp
  moreover have "[] \<in> lang (RStar (RChars (LETTERS @ ''0123456789+-.'')))" by (rule chars_starred) simp
  ultimately have "''://'' @ x # xs \<in> lang (RSeq (RStar (RChars (LETTERS @ ''0123456789+-.''))) R)"
    unfolding lang_seq by (metis append_Nil)
  then show ?thesis
    using assms(1) unfolding isValidURLScheme_def regex_match_lang SCHEMA_VALIDATION_PATTERN_def R_def [symmetric] lang_chars_seq
    by simp
qed

text \<open>Two letters of two bytes each are enough for a URL without a query.\<close>

lemma recorded_url_witness:
  "calculateUrlFrom \<lparr>mData = concat [''a'', '':'', ''/'', ''/'', [CHR 0xC3, CHR 0xA4], [CHR 0xC3, CHR 0xA4]], mStringLength = 6\<rparr> =
     Inl (UndefinedBehaviour ''read behind the end of a string'')
   \<and> calculateUrlFrom \<lparr>mData = concat [''a'', '':'', ''/'', ''/'', ''b'', ''?'', ''c''], mStringLength = 7\<rparr> =
     Inr \<lparr>mData = ''a://b'', mStringLength = 5\<rparr>"
proof -
  let ?u = "[''a'', '':'', ''/'', ''/'', [CHR 0xC3, CHR 0xA4], [CHR 0xC3, CHR 0xA4]]"
  let ?v = "[''a'', '':'', ''/'', ''/'', ''b'', ''?'', ''c'']"
  have "utf8_text ?u" "utf8_text ?v" by (simp_all add: utf8_char_def byte_class_simps byte_of_def)
  moreover have "isValidURLScheme \<lparr>mData = concat ?u, mStringLength = length ?u\<rparr>"
    "isValidURLScheme \<lparr>mData = concat ?v, mStringLength = length ?v\<rparr>"
    using valid_scheme [of "CHR ''a''" "CHR 0xC3" "[CHR 0xA4, CHR 0xC3, CHR 0xA4]" "length ?u"] valid_scheme [of "CHR ''a''" "CHR ''b''" "''?c''" "length ?v"]
    by (simp_all add: any_character LETTERS_def)
  moreover have "length (concat ?u) < npos" "length (concat ?v) < npos" by (simp_all add: npos_def)
  ultimately show ?thesis using recorded_url [of ?u] recorded_url [of ?v] by (simp add: Let_def numeral_eq_Suc)
qed

subsection \<open>The reports of closing a tree\<close>

text \<open>The objects of a tree, the children of an action before it.\<close>

fun post_order :: "node \<Rightarrow> node list"
  and post_orders :: "node list \<Rightarrow> node list" where
  "post_order (Tracer i t) = [Tracer i t]"
| "post_order (Action i a cs) = post_orders cs @ [Action i a []]"
| "post_orders [] = []"
| "post_orders (n # ns) = post_order n @ post_orders ns"

fun end_report :: "int64 \<Rightarrow> int32 \<Rightarrow> node \<Rightarrow> report" where
  "end_report time n (Tracer i t) =
     WebRequest (wrParentActionID t) (Some (web_request_view (t\<lparr>wrEndSequenceNo := n, wrEndTime := time\<rparr>)))"
| "end_report time n (Action i a cs) =
     EndedAction (Some (action_view (a\<lparr>acIsActionLeft := True, acEndTime := time, acEndSequenceNumber := n\<rparr>)))"

text \<open>Each object reads the clock twice and takes one sequence number.\<close>

fun closing :: "(nat \<Rightarrow> readings) \<Rightarrow> nat \<Rightarrow> int32 \<Rightarrow> node list \<Rightarrow> (readings \<times> report) list" where
  "closing rds t n [] = []"
| "closing rds t n (x # xs) = (rds (t + 1), end_report (now (rds t)) (n + 1) x) # closing rds (t + 2) (n + 1) xs"

fun record_all :: "Beacon \<Rightarrow> (readings \<times> report) list \<Rightarrow> BeaconCache \<Rightarrow> BeaconCache" where
  "record_all b [] c = c"
| "record_all b ((rd, r) # rs) c = record_all b rs (if permitted b r then store rd r b c else c)"

definition closed_scene :: "node list \<Rightarrow> 's scene_scheme \<Rightarrow> 's scene_scheme" where
  "closed_scene xs s =
     s\<lparr>sBeacon := (sBeacon s)\<lparr>mSequenceNumber := mSequenceNumber (sBeacon s) + of_nat (length xs)\<rparr>,
       sCache := record_all (sBeacon s) (closing (sReadings s) (sTick s) (mSequenceNumber (sBeacon s)) xs) (sCache s),
       sTick := sTick s + 2 * length xs\<rparr>"

lemma closing_append:
  "closing rds t n (xs @ ys) = closing rds t n xs @ closing rds (t + 2 * length xs) (n + of_nat (length xs)) ys"
  by (induction xs arbitrary: t n) (simp_all add: algebra_simps)

lemma record_all_append: "record_all b (rs @ rs') c = record_all b rs' (record_all b rs c)"
  by (induction b rs c rule: record_all.induct) simp_all

lemma closing_number: "(rd, r) \<in> set (closing rds t n xs) \<Longrightarrow> \<exists>time m x. r = end_report time m x"
  by (induction rds t n xs rule: closing.induct) auto

lemma end_report_number:
  "permitted (b\<lparr>mSequenceNumber := m\<rparr>) r = permitted b r"
  "store rd (end_report time n x) (b\<lparr>mSequenceNumber := m\<rparr>) c = store rd (end_report time n x) b c"
  by (simp_all add: permitted_def, cases x) (simp_all add: store_def field_defs)

lemma record_all_number:
  "record_all (b\<lparr>mSequenceNumber := m\<rparr>) (closing rds t n xs) c = record_all b (closing rds t n xs) c"
  by (induction xs arbitrary: t n c) (simp_all add: end_report_number)

lemma closed_scene_append: "closed_scene ys (closed_scene xs s) = closed_scene (xs @ ys) s"
  by (simp add: closed_scene_def closing_append record_all_append record_all_number algebra_simps)

lemma closed_scene_Nil: "closed_scene [] s = s"
  by (simp add: closed_scene_def)

text \<open>A report on the scene.\<close>

lemma beacon_do_report:
  assumes "missing_argument r = None"
  shows "beacon_do (\<lambda>rd. report_call rd r) s =
    (Inr (), s\<lparr>sTick := sTick s + 1,
       sBeacon := (if permitted (sBeacon s) r then numbered r (sBeacon s) else sBeacon s),
       sCache := (if permitted (sBeacon s) r then store (sReadings s (sTick s)) r (numbered r (sBeacon s)) (sCache s) else sCache s)\<rparr>)"
  using assms by (simp add: beacon_do_def op_bind_def provide_def report_call_outcome report_outcome_def)

lemma end_report_numbered: "numbered (end_report time n x) b = b"
  by (cases x) (simp_all add: numbered_def)

lemma end_report_call:
  assumes "missing_argument (end_report time n x) = None"
  shows "beacon_do (\<lambda>rd. report_call rd (end_report time n x)) s =
    (Inr (), s\<lparr>sTick := sTick s + 1, sCache := (if permitted (sBeacon s) (end_report time n x)
        then store (sReadings s (sTick s)) (end_report time n x) (sBeacon s) (sCache s) else sCache s)\<rparr>)"
  by (simp add: beacon_do_report [OF assms] end_report_numbered)

lemma closed_scene_one:
  "closed_scene [x] s = s\<lparr>sBeacon := (sBeacon s)\<lparr>mSequenceNumber := mSequenceNumber (sBeacon s) + 1\<rparr>,
     sTick := sTick s + 2,
     sCache := (let r = end_report (now (sReadings s (sTick s))) (mSequenceNumber (sBeacon s) + 1) x in
        if permitted (sBeacon s) r then store (sReadings s (sTick s + 1)) r (sBeacon s) (sCache s) else sCache s)\<rparr>"
  by (simp add: closed_scene_def Let_def)

text \<open>Both kinds of objects end by taking a number, reading the clock and reporting.\<close>

lemma recorded_end:
  assumes "missing_argument (end_report (now (sReadings s (sTick s))) (mSequenceNumber (sBeacon s) + 1) x) = None"
  shows "beacon_do (\<lambda>rd. report_call rd (end_report (now (sReadings s (sTick s))) (mSequenceNumber (sBeacon s) + 1) x))
      (s\<lparr>sBeacon := (sBeacon s)\<lparr>mSequenceNumber := mSequenceNumber (sBeacon s) + 1\<rparr>, sTick := Suc (sTick s)\<rparr>)
    = (Inr (), closed_scene [x] s)"
  by (simp add: end_report_call [OF assms] closed_scene_one Let_def end_report_number)

lemma scene_swap: "s\<lparr>sTick := t, sBeacon := b\<rparr> = s\<lparr>sBeacon := b, sTick := t\<rparr>"
  by simp

lemmas scene_steps = op_bind_def next_number_def createSequenceNumber_def getCurrentTimestamp_def provide_def op_return_def Let_def

lemma doStop_closes:
  assumes "\<not> isStopped t" and "\<not> utf8_isEmpty (wrURL t)"
  shows "\<exists>t'. doStop (wrResponseCode t) False t s = (Inr (True, t'), closed_scene [Tracer i t] s)"
proof -
  have "missing_argument (end_report (now (sReadings s (sTick s))) (mSequenceNumber (sBeacon s) + 1) (Tracer i t)) = None"
    using assms(2) by (simp add: web_request_view_def required_def Let_def)
  from recorded_end [OF this] show ?thesis
    using assms(1) by (simp add: doStop_def scene_steps)
qed

lemma action_closes:
  assumes "\<not> acIsActionLeft a" and "\<not> utf8_isEmpty (acName a)"
    and cs: "close_nodes False cs s = (Inr [], closed_scene (post_orders cs) s)"
  shows "close_node False (Action i a cs) s = (Inr None, closed_scene (post_order (Action i a cs)) s)"
proof -
  define s' where "s' = closed_scene (post_orders cs) s"
  have "missing_argument (end_report (now (sReadings s' (sTick s'))) (mSequenceNumber (sBeacon s') + 1) (Action i a [])) = None"
    using assms(2) by (simp add: action_view_def required_def Let_def)
  note r = recorded_end [OF this]
  have "close_node False (Action i a cs) s = (Inr None, closed_scene [Action i a []] s')"
    using assms(1) cs r by (simp add: scene_steps s'_def [symmetric] scene_swap)
  then show ?thesis by (simp add: s'_def closed_scene_append)
qed

lemma closing_live:
  fixes s :: "'s scene_scheme"
  shows "live n \<Longrightarrow> close_node False n s = (Inr None, closed_scene (post_order n) s)"
    "list_all live ns \<Longrightarrow> close_nodes False ns s = (Inr [], closed_scene (post_orders ns) s)"
proof (induction n and ns arbitrary: s and s rule: post_order_post_orders.induct)
  case (1 i t)
  then show ?case using doStop_closes [of t s i] by (auto simp: op_bind_def op_return_def)
next
  case (2 i a cs)
  then show ?case by (intro action_closes) simp_all
next
  case 3
  show ?case by (simp add: op_return_def closed_scene_Nil)
next
  case (4 n ns)
  then show ?case by (simp add: op_bind_def op_return_def closed_scene_append)
qed

lemmas end_call = beacon_do_report [of SessionEnd, simplified report_call.simps missing_argument.simps, OF refl]

text \<open>C4: A session that ends while its objects are live closes all of them, the children of an
  action before the action, and records for each one web request or one action, with its own sequence
  number and times, where the settings permit it; the record of the end of the session comes last. It
  never throws, and it leaves no object behind.\<close>

theorem session_end_records:
  assumes "list_all live (mChildren s)" and "\<not> isFinishingOrFinished s"
  shows "let xs = post_orders (mChildren s);
             b = sBeacon s; t = sTick s + 2 * length xs;
             b' = b\<lparr>mSequenceNumber := mSequenceNumber b + of_nat (length xs)\<rparr>;
             c' = record_all b (closing (sReadings s) (sTick s) (mSequenceNumber b) xs) (sCache s)
         in session_end True s =
              (Inr True, s\<lparr>mIsSessionFinishing := True, mIsSessionFinished := True, mChildren := [], sTick := t + 1,
                 sBeacon := (if permitted b SessionEnd then numbered SessionEnd b' else b'),
                 sCache := (if permitted b SessionEnd then store (sReadings s t) SessionEnd (numbered SessionEnd b') c' else c')\<rparr>)"
proof -
  let ?s = "s\<lparr>mIsSessionFinishing := True\<rparr>"
  have "close_nodes False (mChildren s) ?s = (Inr [], closed_scene (post_orders (mChildren s)) ?s)"
    using assms(1) by (rule closing_live(2))
  then show ?thesis
    using assms(2)
    by (simp add: session_end_def markAsIsFinishing_def op_bind_def op_modify_def op_return_def Let_def
        end_call end_report_number(1) closed_scene_def)
qed

definition sample_action :: ActionCommonImpl where
  "sample_action = \<lparr>acName = \<lparr>mData = ''a'', mStringLength = 1\<rparr>, acStartTime = 120, acEndTime = -1,
     acStartSequenceNumber = 1, acEndSequenceNumber = -1, acActionID = 1, acParentID = 0, acIsActionLeft = False\<rparr>"

definition sample_session :: Session where
  "sample_session = Session_new sample_beacon SupplementaryBasicData_new BeaconCache_new (\<lambda>n. sample_readings) 0 1"

lemma session_end_records_witness:
  "\<exists>s'. session_end True (sample_session\<lparr>mChildren := [Action 0 sample_action [Action 1 sample_action []]]\<rparr>) = (Inr True, s')
     \<and> mChildren s' = [] \<and> sTick s' = 5
     \<and> closing (sReadings s') 0 0 (post_orders [Action 0 sample_action [Action 1 sample_action []]]) =
         [(sample_readings, EndedAction (Some (action_view (sample_action\<lparr>acIsActionLeft := True, acEndTime := 150, acEndSequenceNumber := 1\<rparr>)))),
          (sample_readings, EndedAction (Some (action_view (sample_action\<lparr>acIsActionLeft := True, acEndTime := 150, acEndSequenceNumber := 2\<rparr>))))]"
proof -
  let ?s = "sample_session\<lparr>mChildren := [Action 0 sample_action [Action 1 sample_action []]]\<rparr>"
  have "list_all live (mChildren ?s)" "\<not> isFinishingOrFinished ?s" "sReadings ?s = (\<lambda>n. sample_readings)" "sTick ?s = 0"
    by (simp_all add: sample_action_def utf8_isEmpty_def sample_session_def Session_new_def isFinishingOrFinished_def)
  then show ?thesis
    using session_end_records [of ?s] by (simp add: Let_def sample_readings_def)
qed

subsection \<open>The states of a session\<close>

text \<open>The calls on the objects of a session, and those on the session.\<close>

datatype node_input =
  EnterAction UTF8String
| TraceRequest UTF8String
| ReportNamed UTF8String
| ReportInt UTF8String int32
| ReportLong UTF8String int64
| ReportDouble UTF8String string
| ReportText UTF8String UTF8String
| ReportErrorCode UTF8String int32
| ReportErrorCause UTF8String UTF8String UTF8String UTF8String
| LeaveAction
| CancelAction
| StartTracer
| StopTracer int32
| SetBytesSent int64
| SetBytesReceived int64

datatype 'd session_input =
  OnObject nat node_input
| EnterRootAction UTF8String
| TraceRootRequest UTF8String
| IdentifyUser UTF8String
| ReportCrash UTF8String UTF8String UTF8String
| SendBizEvent UTF8String "'d JsonObjectMap option"
| SendEvent UTF8String "'d JsonObjectMap option"
| ReportNetworkTechnology "string option"
| ReportConnectionType ConnectionType
| ReportCarrier "string option"
| EndSession bool
| TryEnd
| Configure "BeaconConfiguration \<Rightarrow> BeaconConfiguration"
| ClearCapturedData

definition result_lost :: "('s, 'a) cpp_op \<Rightarrow> ('s, unit) cpp_op" where
  "result_lost m = op_bind m (\<lambda>_. op_return ())"

definition node_result_lost ::
    "(node \<Rightarrow> ('s scene_scheme, node option \<times> 'a) cpp_op) \<Rightarrow> node \<Rightarrow> ('s scene_scheme, node option \<times> unit) cpp_op" where
  "node_result_lost f n = op_bind (f n) (\<lambda>r. op_return (fst r, ()))"

fun node_call :: "node_input \<Rightarrow> node \<Rightarrow> ('s scene_scheme, node option \<times> unit) cpp_op" where
  "node_call (EnterAction u) = node_result_lost (action_enterAction u)"
| "node_call (TraceRequest u) = node_result_lost (action_traceWebRequest u)"
| "node_call (ReportNamed u) = action_reportEvent u"
| "node_call (ReportInt u v) = action_reportValue_int u v"
| "node_call (ReportLong u v) = action_reportValue_long u v"
| "node_call (ReportDouble u v) = action_reportValue_double u v"
| "node_call (ReportText u v) = action_reportValue_string u v"
| "node_call (ReportErrorCode u v) = action_reportError_code u v"
| "node_call (ReportErrorCause u v w x) = action_reportError_cause u v w x"
| "node_call LeaveAction = node_result_lost leaveAction"
| "node_call CancelAction = node_result_lost cancelAction"
| "node_call StartTracer = on_tracer (\<lambda>t. op_bind (tracer_start t) (\<lambda>t'. op_return (False, t')))"
| "node_call (StopTracer rc) = tracer_stop rc"
| "node_call (SetBytesSent n) = on_tracer (\<lambda>t. op_return (False, tracer_setBytesSent n t))"
| "node_call (SetBytesReceived n) = on_tracer (\<lambda>t. op_return (False, tracer_setBytesReceived n t))"

fun session_step :: "'d double_ops \<Rightarrow> 'd session_input \<Rightarrow> unit session_op" where
  "session_step fp (OnObject i x) = result_lost (session_call i (node_call x))"
| "session_step fp (EnterRootAction u) = result_lost (session_enterAction u)"
| "session_step fp (TraceRootRequest u) = result_lost (session_traceWebRequest u)"
| "session_step fp (IdentifyUser u) = session_identifyUser u"
| "session_step fp (ReportCrash u v w) = session_reportCrash u v w"
| "session_step fp (SendBizEvent u m) = session_sendBizEvent fp u m"
| "session_step fp (SendEvent u m) = session_sendEvent fp u m"
| "session_step fp (ReportNetworkTechnology t) = op_modify (session_reportNetworkTechnology t)"
| "session_step fp (ReportConnectionType t) = op_modify (session_reportConnectionType t)"
| "session_step fp (ReportCarrier t) = op_modify (session_reportCarrier t)"
| "session_step fp (EndSession b) = result_lost (session_end b)"
| "session_step fp TryEnd = result_lost tryEnd"
| "session_step fp (Configure f) = op_modify (update_configuration f)"
| "session_step fp ClearCapturedData = op_modify clearCapturedData"

text \<open>The arguments of a call are strings as the library constructs them.\<close>

fun proper_input :: "'d session_input \<Rightarrow> bool" where
  "proper_input (OnObject i (TraceRequest u)) \<longleftrightarrow> well_formed u"
| "proper_input (TraceRootRequest u) \<longleftrightarrow> well_formed u"
| "proper_input x \<longleftrightarrow> True"

inductive reached :: "'d double_ops \<Rightarrow> Session \<Rightarrow> bool" for fp where
  initial: "reached fp (Session_new b d c rds t n)"
| step: "reached fp s \<Longrightarrow> proper_input x \<Longrightarrow> reached fp (snd (session_step fp x s))"

definition session_ok :: "Session \<Rightarrow> bool" where
  "session_ok s \<longleftrightarrow> list_all live (mChildren s) \<and> mIsSessionFinishing s = mIsSessionFinished s \<and>
     (if mIsSessionFinished s then mChildren s = [] else True)"

lemma tracer_call_live:
  fixes f :: "WebRequestTracer \<Rightarrow> ('s scene_scheme, bool \<times> WebRequestTracer) cpp_op"
  assumes "\<And>t. \<not> isStopped t \<Longrightarrow> yields (f t) (\<lambda>r. \<not> isStopped (snd r) \<and> wrURL (snd r) = wrURL t)"
  shows "keeps_live (on_tracer f)"
proof -
  have "yields (on_tracer f n) (\<lambda>r. pred_option live (fst r))" if l: "live n" for n
  proof (cases n)
    case (Tracer i t)
    with l have "yields (f t) (\<lambda>r. \<not> isStopped (snd r) \<and> wrURL (snd r) = wrURL t)" using assms by simp
    then show ?thesis unfolding on_tracer_def Tracer node.case by (rule yields_bind) (use l Tracer in auto)
  qed (use l in \<open>auto simp: on_tracer_def\<close>)
  then show ?thesis by (simp add: keeps_live_def)
qed

lemma node_result_lost_live: "keeps_live f \<Longrightarrow> keeps_live (node_result_lost f)"
proof -
  assume f: "keeps_live f"
  have "yields (node_result_lost f n) (\<lambda>r. pred_option live (fst r))" if "live n" for n
    unfolding node_result_lost_def
    by (rule yields_bind [where Q = "\<lambda>r. pred_option live (fst r)"]) (use f that in \<open>auto simp: keeps_live_def\<close>)
  then show ?thesis by (simp add: keeps_live_def)
qed

lemma tracer_start_live: "keeps_live (on_tracer (\<lambda>t. op_bind (tracer_start t) (\<lambda>t'. op_return (False, t'))))"
proof (rule tracer_call_live)
  fix t assume t: "\<not> isStopped t"
  show "yields (op_bind (tracer_start t) (\<lambda>t'. op_return (False, t'))) (\<lambda>r. \<not> isStopped (snd r) \<and> wrURL (snd r) = wrURL t)"
    unfolding tracer_start_def if_P [OF t] op_bind_assoc op_bind_return_left
    by (rule yields_after) (use t in \<open>auto simp: isStopped_def\<close>)
qed

lemma tracer_bytes_live:
  "keeps_live (on_tracer (\<lambda>t. op_return (False, tracer_setBytesSent n t)))"
  "keeps_live (on_tracer (\<lambda>t. op_return (False, tracer_setBytesReceived n t)))"
  by (rule tracer_call_live, rule yields_basic,
      simp add: tracer_setBytesSent_def tracer_setBytesReceived_def isStopped_def)+

lemma node_call_live: "proper_input (OnObject i x :: 'd session_input) \<Longrightarrow> keeps_live (node_call x)"
  by (cases x) (auto intro!: node_result_lost_live report_keeps_live leave_keeps_live enter_keeps_live trace_keeps_live
      tracer_keeps_live tracer_start_live tracer_bytes_live)

lemma node_call_frames: "frames (node_call x n)"
  by (cases x)
    (auto simp: node_result_lost_def action_enterAction_def action_traceWebRequest_def leaveAction_def cancelAction_def
      action_reportEvent_def action_reportValue_int_def action_reportValue_long_def action_reportValue_double_def
      action_reportValue_string_def action_reportError_code_def action_reportError_cause_def unless_left_def
      on_tracer_def tracer_stop_def tracer_cancel_def tracer_start_def
      split: node.split prod.split intro!: frames_intros)

lemma frames_session:
  assumes "frames m"
  shows "mChildren (snd (m s)) = mChildren s" "mIsSessionFinishing (snd (m s)) = mIsSessionFinishing s"
    "mIsSessionFinished (snd (m s)) = mIsSessionFinished s"
proof -
  have "scene.more (snd (m s)) = scene.more s" using assms by (simp add: frames_def)
  then show "mChildren (snd (m s)) = mChildren s" "mIsSessionFinishing (snd (m s)) = mIsSessionFinishing s"
    "mIsSessionFinished (snd (m s)) = mIsSessionFinished s"
    by (cases s; cases "snd (m s)"; simp)+
qed

lemma frames_ok: "frames m \<Longrightarrow> session_ok s \<Longrightarrow> session_ok (snd (m s))"
  by (simp add: session_ok_def frames_session)

lemma session_end_ok:
  assumes "list_all live (mChildren s)" and "\<not> isFinishingOrFinished s"
  shows "\<exists>s'. session_end b s = (Inr True, s') \<and> mChildren s' = [] \<and> mIsSessionFinishing s' \<and> mIsSessionFinished s'"
proof -
  let ?s = "s\<lparr>mIsSessionFinishing := True\<rparr>"
  have "close_nodes False (mChildren s) ?s = (Inr [], closed_scene (post_orders (mChildren s)) ?s)"
    using assms(1) by (rule closing_live(2))
  then show ?thesis
    using assms(2)
    by (simp add: session_end_def markAsIsFinishing_def op_bind_def op_modify_def op_return_def end_call closed_scene_def)
qed

lemma session_end_keeps_ok: "session_ok s \<Longrightarrow> session_ok (snd (session_end b s))"
proof (cases "isFinishingOrFinished s")
  case True
  then show "session_ok s \<Longrightarrow> ?thesis" by (simp add: session_end_def markAsIsFinishing_def op_bind_def op_return_def)
next
  case False
  then show "session_ok s \<Longrightarrow> ?thesis" using session_end_ok [of s b] by (auto simp: session_ok_def)
qed

lemma result_lost_state [simp]: "snd (result_lost m s) = snd (m s)"
  by (simp add: result_lost_def op_bind_def op_return_def split: prod.split sum.split)

lemma op_bind_state: "snd (op_bind m (\<lambda>a. op_return (f a)) s) = snd (m s)"
  by (simp add: op_bind_def op_return_def split: prod.split sum.split)

lemma onChildClosed_keeps_ok: "session_ok s \<Longrightarrow> session_ok (snd (session_onChildClosed s))"
  by (simp add: session_onChildClosed_def session_end_keeps_ok)

lemma tryEnd_keeps_ok: "session_ok s \<Longrightarrow> session_ok (snd (tryEnd s))"
  using session_end_keeps_ok [of s False]
  by (auto simp: tryEnd_def op_bind_state) (simp add: session_ok_def isFinishingOrFinished_def)

lemma session_call_keeps_ok:
  assumes ok: "session_ok s" and f: "keeps_live f" "\<And>n. frames (f n)"
  shows "session_ok (snd (session_call i f s))"
proof (cases "mIsSessionFinished s")
  case True
  then have "on_nodes f i (mChildren s) s = (Inr ([], None), s)" "mChildren s = []"
    using ok by (simp_all add: session_ok_def op_return_def)
  then show ?thesis using ok by (simp add: session_call_def op_bind_def session_ok_def)
next
  case unfinished: False
  obtain r t where m: "on_nodes f i (mChildren s) s = (r, t)" by fastforce
  have fr: "frames (on_nodes f i (mChildren s))" by (rule frames_on(2)) (rule f(2))
  have t: "session_ok t" "mIsSessionFinished t = mIsSessionFinished s"
    using frames_ok [OF fr ok] frames_session [OF fr, of s] m by simp_all
  show ?thesis
  proof (cases r)
    case (Inl e)
    then show ?thesis using t m by (simp add: session_call_def op_bind_def)
  next
    case (Inr q)
    obtain cs x where q: "q = (cs, x)" by (cases q)
    have "list_all live cs"
      using on_nodes_live(2) [OF f(1), where i = i and ns = "mChildren s"] ok m Inr q by (auto simp: session_ok_def yields_def)
    then have "session_ok (t\<lparr>mChildren := cs\<rparr>)" using t unfinished by (simp add: session_ok_def)
    then show ?thesis
      using onChildClosed_keeps_ok [of "t\<lparr>mChildren := cs\<rparr>"]
      by (auto simp: session_call_def op_bind_def [of "\<lambda>s. on_nodes f i (mChildren s) s"] m Inr q Let_def op_bind_state)
  qed
qed

lemma while_open_keeps_ok: "frames m \<Longrightarrow> session_ok s \<Longrightarrow> session_ok (snd (while_open m s))"
  by (simp add: while_open_def frames_ok)

text \<open>A new child of the session.\<close>

lemma added_child:
  assumes "session_ok s" and "\<not> isFinishingOrFinished s" and "frames m" and "yields m (\<lambda>x. \<forall>i. live (f i x))"
  shows "session_ok (snd (op_bind m (\<lambda>x. op_bind new_object (\<lambda>i.
      op_bind (op_modify (\<lambda>s. s\<lparr>mChildren := mChildren s @ [f i x]\<rparr>)) (\<lambda>_. op_return (Some i)))) s))"
proof -
  obtain r t where m: "m s = (r, t)" by fastforce
  have t: "session_ok t" "\<not> mIsSessionFinished t"
    using frames_ok [OF assms(3,1)] frames_session [OF assms(3), of s] assms(2) m by (simp_all add: isFinishingOrFinished_def)
  show ?thesis
  proof (cases r)
    case (Inr x)
    then have "\<forall>i. live (f i x)" using assms(4) m by (auto simp: yields_def)
    then show ?thesis using t m Inr
      by (simp add: op_bind_def new_object_def op_modify_def op_return_def session_ok_def)
  qed (use m t in \<open>simp add: op_bind_def\<close>)
qed

lemma enterAction_keeps_ok: "session_ok s \<Longrightarrow> session_ok (snd (session_enterAction u s))"
  using added_child [OF _ _ frames_action_new [of DEFAULT_ACTION_ID u], of s "\<lambda>i a. Action i a []"]
    action_new_live [where i = DEFAULT_ACTION_ID and name = u]
  by (simp add: session_enterAction_def yields_def) blast

lemma traceRequest_keeps_ok: "well_formed u \<Longrightarrow> session_ok s \<Longrightarrow> session_ok (snd (session_traceWebRequest u s))"
  using added_child [OF _ _ frames_tracer_new [of DEFAULT_ACTION_ID u], of s Tracer]
    tracer_new_live [of u, where i = DEFAULT_ACTION_ID]
  by (simp add: session_traceWebRequest_def yields_def) blast

lemma session_ok_fields: "session_ok s \<Longrightarrow>
    mChildren t = mChildren s \<Longrightarrow> mIsSessionFinished t = mIsSessionFinished s \<Longrightarrow>
    mIsSessionFinishing t = mIsSessionFinishing s \<Longrightarrow> session_ok t"
  by (simp add: session_ok_def)

lemma session_step_keeps_ok: "session_ok s \<Longrightarrow> proper_input x \<Longrightarrow> session_ok (snd (session_step fp x s))"
proof (cases x)
  case (OnObject i y)
  assume "session_ok s" "proper_input x"
  then show ?thesis
    using session_call_keeps_ok [OF _ node_call_live node_call_frames] OnObject by simp
qed (auto simp: enterAction_keeps_ok traceRequest_keeps_ok session_end_keeps_ok tryEnd_keeps_ok
    session_identifyUser_def session_reportCrash_def session_sendBizEvent_def session_sendEvent_def
    op_return_def op_modify_def update_configuration_def clearCapturedData_def session_reportNetworkTechnology_def
    session_reportConnectionType_def session_reportCarrier_def Let_def
    intro: while_open_keeps_ok elim: session_ok_fields)

lemma reached_ok: "reached fp s \<Longrightarrow> session_ok s"
proof (induction rule: reached.induct)
  case initial
  show ?case by (simp add: session_ok_def Session_new_def)
qed (rule session_step_keeps_ok)

text \<open>C5: Whatever calls a session gets, on itself or on its actions and web requests, the objects
  in its tree are neither left nor stopped, every action has a name and every web request a URL; it is
  not caught between finishing and finished, and once it has finished it has no children.\<close>

theorem session_states:
  assumes "reached fp s"
  shows "list_all live (mChildren s) \<and> mIsSessionFinishing s = mIsSessionFinished s \<and>
     (if mIsSessionFinished s then mChildren s = [] else True)"
  using reached_ok [OF assms] by (simp add: session_ok_def)

lemma ended_silent:
  assumes "session_ok s" and "mIsSessionFinished s"
  shows "case x of Configure f \<Rightarrow> True | ClearCapturedData \<Rightarrow> True
    | _ \<Rightarrow> \<exists>d. session_step fp x s = (Inr (), s\<lparr>mSupplementaryBasicData := d\<rparr>)"
proof -
  have e: "isFinishingOrFinished s" "mChildren s = []" using assms by (simp_all add: session_ok_def isFinishingOrFinished_def)
  have same: "\<exists>d. s = s\<lparr>mSupplementaryBasicData := d\<rparr>" by (rule exI [of _ "mSupplementaryBasicData s"]) simp
  have c: "result_lost (session_call i (node_call y)) s = (Inr (), s)" for i y
    using e by (simp add: result_lost_def session_call_def op_bind_def op_return_def)
  show ?thesis
    using e same c
    by (cases x)
      (auto simp: session_enterAction_def session_traceWebRequest_def session_identifyUser_def session_reportCrash_def
        session_sendBizEvent_def session_sendEvent_def while_open_def result_lost_def op_bind_def op_return_def op_modify_def
        session_reportNetworkTechnology_def session_reportConnectionType_def session_reportCarrier_def Let_def
        session_end_def markAsIsFinishing_def tryEnd_def)
qed

lemma session_states_witness:
  "\<forall>fp :: unit double_ops. list_all live (mChildren (snd (session_step fp (EnterRootAction \<lparr>mData = ''a'', mStringLength = 1\<rparr>) sample_session)))
   \<and> mChildren (snd (session_step fp (EnterRootAction \<lparr>mData = ''a'', mStringLength = 1\<rparr>) sample_session)) \<noteq> []"
proof
  fix fp :: "unit double_ops"
  have "reached fp sample_session" unfolding sample_session_def by (rule reached.initial)
  then have "reached fp (snd (session_step fp (EnterRootAction \<lparr>mData = ''a'', mStringLength = 1\<rparr>) sample_session))"
    by (rule reached.step) simp
  from session_states [OF this]
  show "list_all live (mChildren (snd (session_step fp (EnterRootAction \<lparr>mData = ''a'', mStringLength = 1\<rparr>) sample_session)))
    \<and> mChildren (snd (session_step fp (EnterRootAction \<lparr>mData = ''a'', mStringLength = 1\<rparr>) sample_session)) \<noteq> []"
    by (simp add: session_enterAction_def sample_session_def Session_new_def isFinishingOrFinished_def utf8_isEmpty_def
        result_lost_def ActionCommonImpl_new_def op_bind_def op_return_def op_modify_def getCurrentTimestamp_def provide_def
        next_number_def createSequenceNumber_def next_id_def createID_def new_object_def)
qed



end
