(* ===== verification/Session_Proxy.thy ===== *)
theory Session_Proxy
  imports Session_Facts
begin

text \<open>
  The layer above sessions: the proxies the application holds (src/core/objects/SessionProxy.cxx), the
  creator of their sessions (SessionCreator.cxx), the watchdog that closes and splits sessions
  (src/core/SessionWatchdogContext.cxx) and the library object (OpenKit.cxx). The objects live in
  stores, and a handle is the index of its object; so the sessions of a proxy share its supplementary
  data, and all share the cache. The operations run as one thread executes them.
\<close>

subsection \<open>State\<close>

text \<open>What a proxy's creator draws once for all sessions of a series.\<close>

record SessionCreator =
  crUseClientIpAddress :: bool
  crClientIpAddress :: UTF8String
  crServerId :: int32
  crSessionId :: int32
  crPercentageValue :: int32
  crPositiveInt64 :: int64
  crSessionSequenceNumber :: int32
  crSupplementaryBasicData :: SupplementaryBasicData

record SessionProxy =
  prCreator :: SessionCreator
  prChildren :: "nat list"
  mCurrentSession :: "nat option"
  mCurrentSessionIdentifier :: "int32 \<times> int32"
  mTopLevelActionCount :: int32
  mLastInteractionTime :: int64
  mServerConfiguration :: "ServerConfiguration option"
  mIsFinished :: bool
  mLastUserTag :: UTF8String

text \<open>
  A session is stored with the proxy that is its parent. \<open>kSendingSessions\<close>, \<open>kServerConfiguration\<close> and
  \<open>kServerID\<close> are those of the sender's context; the random generator's \<open>n\<close>-th draw is \<open>kDraws n\<close>.
\<close>

record Kit =
  kOpenKitConfiguration :: OpenKitConfiguration
  kPrivacyConfiguration :: PrivacyConfiguration
  kCache :: BeaconCache
  kReadings :: "nat \<Rightarrow> readings"
  kTick :: nat
  kNextObject :: nat
  kDraws :: "nat \<Rightarrow> int32 \<times> int64"
  kNextDraw :: nat
  mLastSessionNumber :: int32
  kSessions :: "(nat \<times> Session) list"
  kProxies :: "SessionProxy list"
  kChildren :: "nat list"
  mIsShutdown :: bool
  mWatchdogIsShutdown :: bool
  mSenderShutdown :: bool
  mSessionsToClose :: "nat list"
  mSessionsToSplitByTimeout :: "nat list"
  kSendingSessions :: "nat list"
  kServerConfiguration :: ServerConfigurationPtr
  kServerID :: int32

type_synonym ('s, 'a) kit_op = "('s Kit_scheme, 'a) cpp_op"

definition kit_provide :: "('s, readings) kit_op" where
  "kit_provide = (\<lambda>k. (Inr (kReadings k (kTick k)), k\<lparr>kTick := kTick k + 1\<rparr>))"

definition provideTimestampInMilliseconds :: "('s, int64) kit_op" where
  "provideTimestampInMilliseconds = op_bind kit_provide (\<lambda>rd. op_return (now rd))"

definition proxy_at :: "nat \<Rightarrow> 's Kit_scheme \<Rightarrow> SessionProxy" where
  "proxy_at p k = kProxies k ! p"

definition update_proxy :: "nat \<Rightarrow> (SessionProxy \<Rightarrow> SessionProxy) \<Rightarrow> 's Kit_scheme \<Rightarrow> 's Kit_scheme" where
  "update_proxy p f k = k\<lparr>kProxies := (kProxies k)[p := f (proxy_at p k)]\<rparr>"

definition session_at :: "nat \<Rightarrow> 's Kit_scheme \<Rightarrow> Session" where
  "session_at i k = snd (kSessions k ! i)"

definition parent_of :: "nat \<Rightarrow> 's Kit_scheme \<Rightarrow> nat" where
  "parent_of i k = fst (kSessions k ! i)"

text \<open>A session as its calls see it, and the state behind such a call.\<close>

definition load_session :: "nat \<Rightarrow> 's Kit_scheme \<Rightarrow> Session" where
  "load_session i k = (session_at i k)\<lparr>sCache := kCache k, sReadings := kReadings k, sTick := kTick k, sNextObject := kNextObject k,
     mSupplementaryBasicData := crSupplementaryBasicData (prCreator (proxy_at (parent_of i k) k))\<rparr>"

definition save_session :: "nat \<Rightarrow> Session \<Rightarrow> 's Kit_scheme \<Rightarrow> 's Kit_scheme" where
  "save_session i s k =
     update_proxy (parent_of i k)
       (\<lambda>p. p\<lparr>prCreator := (prCreator p)\<lparr>crSupplementaryBasicData := mSupplementaryBasicData s\<rparr>\<rparr>)
       (k\<lparr>kSessions := (kSessions k)[i := (parent_of i k, s)], kCache := sCache s, kTick := sTick s, kNextObject := sNextObject s\<rparr>)"

definition on_session :: "nat \<Rightarrow> 'a session_op \<Rightarrow> ('s, 'a) kit_op" where
  "on_session i m = (\<lambda>k. let (r, s) = m (load_session i k) in (r, save_session i s k))"

primrec op_each :: "('a \<Rightarrow> ('s, unit) cpp_op) \<Rightarrow> 'a list \<Rightarrow> ('s, unit) cpp_op" where
  "op_each f [] = op_return ()"
| "op_each f (x # xs) = op_bind (f x) (\<lambda>_. op_each f xs)"

subsection \<open>The end of a session and the watchdog\<close>

text \<open>A session that ends tells its proxy, which takes it from its children and from the watchdog.\<close>

definition dequeueFromClosing :: "nat \<Rightarrow> 's Kit_scheme \<Rightarrow> 's Kit_scheme" where
  "dequeueFromClosing i k = k\<lparr>mSessionsToClose := snd (queue_remove i (mSessionsToClose k))\<rparr>"

definition proxy_onChildClosed :: "nat \<Rightarrow> ('s, unit) kit_op" where
  "proxy_onChildClosed i = op_modify (\<lambda>k. dequeueFromClosing i
     (update_proxy (parent_of i k) (\<lambda>p. p\<lparr>prChildren := removeAll i (prChildren p)\<rparr>) k))"

definition tell_parent :: "nat \<Rightarrow> bool \<Rightarrow> ('s, unit) kit_op" where
  "tell_parent i told = (if told then proxy_onChildClosed i else op_return ())"

definition kit_endSession :: "nat \<Rightarrow> bool \<Rightarrow> ('s, unit) kit_op" where
  "kit_endSession i sendSessionEndEvent =
     op_bind (on_session i (session_end sendSessionEndEvent)) (tell_parent i)"

definition kit_tryEnd :: "nat \<Rightarrow> ('s, bool) kit_op" where
  "kit_tryEnd i =
     op_bind (on_session i tryEnd) (\<lambda>(r, told). op_bind (tell_parent i told) (\<lambda>_. op_return r))"

definition kit_object_call :: "nat \<Rightarrow> nat \<Rightarrow> (node \<Rightarrow> (Session, node option \<times> 'a) cpp_op) \<Rightarrow> ('s, 'a option) kit_op" where
  "kit_object_call i h f =
     op_bind (on_session i (session_call h f)) (\<lambda>(r, told). op_bind (tell_parent i told) (\<lambda>_. op_return r))"

definition closeOrEnqueueForClosing :: "nat \<Rightarrow> int64 \<Rightarrow> ('s, unit) kit_op" where
  "closeOrEnqueueForClosing i closeGracePeriodInMillis =
     op_bind (kit_tryEnd i) (\<lambda>ended.
       if ended then op_return ()
       else
         op_bind provideTimestampInMilliseconds (\<lambda>t.
         op_bind (on_session i (op_modify (\<lambda>s. s\<lparr>mSplitByEventsGracePeriodEndTimeInMillis := t + closeGracePeriodInMillis\<rparr>))) (\<lambda>_.
         op_modify (\<lambda>k. k\<lparr>mSessionsToClose := queue_put i (mSessionsToClose k)\<rparr>))))"

definition addToSplitByTimeout :: "nat \<Rightarrow> 's Kit_scheme \<Rightarrow> 's Kit_scheme" where
  "addToSplitByTimeout p k =
     (if mIsFinished (proxy_at p k) then k else k\<lparr>mSessionsToSplitByTimeout := queue_put p (mSessionsToSplitByTimeout k)\<rparr>)"

definition removeFromSplitByTimeout :: "nat \<Rightarrow> 's Kit_scheme \<Rightarrow> 's Kit_scheme" where
  "removeFromSplitByTimeout p k = k\<lparr>mSessionsToSplitByTimeout := snd (queue_remove p (mSessionsToSplitByTimeout k))\<rparr>"

subsection \<open>The configuration of the server\<close>

definition onServerConfigurationUpdate :: "nat \<Rightarrow> ServerConfiguration \<Rightarrow> 's Kit_scheme \<Rightarrow> 's Kit_scheme" where
  "onServerConfigurationUpdate p serverConfig k =
     (case mServerConfiguration (proxy_at p k) of
        Some c \<Rightarrow> update_proxy p (\<lambda>x. x\<lparr>mServerConfiguration := Some (server_merge c serverConfig)\<rparr>) k
      | None \<Rightarrow>
          (let k = update_proxy p (\<lambda>x. x\<lparr>mServerConfiguration := Some serverConfig\<rparr>) k in
           if mIsFinished (proxy_at p k) then k
           else if isSessionSplitBySessionDurationEnabled serverConfig \<or> isSessionSplitByIdleTimeoutEnabled serverConfig
           then addToSplitByTimeout p k
           else k))"

text \<open>An update of the configuration of a session, with the call of the proxy it may cause.\<close>

definition configure_session ::
    "(BeaconConfiguration \<Rightarrow> BeaconConfiguration \<times> ServerConfiguration option) \<Rightarrow> nat \<Rightarrow> ('s, unit) kit_op" where
  "configure_session f i = (\<lambda>k.
     let (_, notified) = f (mBeaconConfiguration (sBeacon (session_at i k)));
         (_, k') = on_session i (op_modify (update_configuration (\<lambda>b. fst (f b)))) k
     in (Inr (), case notified of None \<Rightarrow> k' | Some c \<Rightarrow> onServerConfigurationUpdate (parent_of i k) c k'))"

definition kit_initializeServerConfiguration :: "ServerConfigurationPtr \<Rightarrow> nat \<Rightarrow> ('s, unit) kit_op" where
  "kit_initializeServerConfiguration c = configure_session (bc_initializeServerConfiguration c)"

definition kit_updateServerConfiguration :: "ServerConfigurationPtr \<Rightarrow> nat \<Rightarrow> ('s, unit) kit_op" where
  "kit_updateServerConfiguration c = configure_session (bc_updateServerConfiguration c)"

subsection \<open>The creation of sessions\<close>

definition getNextSessionID :: "('s, int32) kit_op" where
  "getNextSessionID = (\<lambda>k.
     let n = (if sint (mLastSessionNumber k) = 2 ^ 31 - 1 then 0 else mLastSessionNumber k) + 1
     in (Inr n, k\<lparr>mLastSessionNumber := n\<rparr>))"

text \<open>The percentage and the number that the fixed generator keeps.\<close>

definition draw :: "('s, int32 \<times> int64) kit_op" where
  "draw = (\<lambda>k. (Inr (kDraws k (kNextDraw k)), k\<lparr>kNextDraw := kNextDraw k + 1\<rparr>))"

definition SessionCreator_new :: "string option \<Rightarrow> ('s, SessionCreator) kit_op" where
  "SessionCreator_new clientIpAddress =
     op_bind getNextSessionID (\<lambda>n.
     op_bind draw (\<lambda>(percentage, number) k.
       (Inr \<lparr>crUseClientIpAddress = clientIpAddress \<noteq> None, crClientIpAddress = UTF8String_of_ptr clientIpAddress,
             crServerId = kServerID k, crSessionId = n, crPercentageValue = percentage, crPositiveInt64 = number,
             crSessionSequenceNumber = 0, crSupplementaryBasicData = SupplementaryBasicData_new\<rparr>, k)))"

definition creator_reset :: "nat \<Rightarrow> ('s, unit) kit_op" where
  "creator_reset p =
     op_bind getNextSessionID (\<lambda>n.
     op_bind draw (\<lambda>(percentage, number).
     op_modify (update_proxy p (\<lambda>x. x\<lparr>prCreator := (prCreator x)\<lparr>crSessionSequenceNumber := 0, crSessionId := n,
       crPercentageValue := percentage, crPositiveInt64 := number\<rparr>\<rparr>))))"

definition creator_createSession :: "nat \<Rightarrow> ('s, nat) kit_op" where
  "creator_createSession p = op_bind provideTimestampInMilliseconds (\<lambda>t k.
     let c = prCreator (proxy_at p k);
         configuration = BeaconConfiguration_from (kOpenKitConfiguration k) (kPrivacyConfiguration k) (crServerId c)
     in case Beacon_new \<lparr>biUseClientIpAddress = crUseClientIpAddress c, biClientIpAddress = crClientIpAddress c,
               biNextSessionID = crSessionId c, biSessionSequenceNumber = crSessionSequenceNumber c,
               biNextPercentageValue = crPercentageValue c, biNextPositiveInt64 = crPositiveInt64 c, biTimestamp = t\<rparr> configuration of
          Inl e \<Rightarrow> (Inl e, k)
        | Inr b \<Rightarrow>
            (Inr (length (kSessions k)),
             update_proxy p (\<lambda>x. x\<lparr>prCreator := c\<lparr>crSessionSequenceNumber := crSessionSequenceNumber c + 1\<rparr>\<rparr>)
               (k\<lparr>kSessions := kSessions k @
                    [(p, Session_new b (crSupplementaryBasicData c) (kCache k) (kReadings k) (kTick k) (kNextObject k))]\<rparr>)))"

definition createAndAssignCurrentSession :: "nat \<Rightarrow> ServerConfigurationPtr \<Rightarrow> ServerConfigurationPtr \<Rightarrow> ('s, unit) kit_op" where
  "createAndAssignCurrentSession p initialServerConfig updatedServerConfig =
     op_bind (creator_createSession p) (\<lambda>i.
     op_bind (configure_session (\<lambda>b. (bc_setServerConfigurationUpdateCallback True b, None)) i) (\<lambda>_.
     op_bind (op_modify (\<lambda>k. update_proxy p (\<lambda>x. x\<lparr>prChildren := prChildren x @ [i],
         mLastInteractionTime := mSessionStartTime (sBeacon (session_at i k)), mTopLevelActionCount := 0\<rparr>) k)) (\<lambda>_.
     op_bind (if initialServerConfig = NullConfiguration then op_return () else kit_initializeServerConfiguration initialServerConfig i) (\<lambda>_.
     op_bind (if updatedServerConfig = NullConfiguration then op_return () else kit_updateServerConfiguration updatedServerConfig i) (\<lambda>_.
     op_modify (\<lambda>k. update_proxy p (\<lambda>x. x\<lparr>mCurrentSession := Some i\<rparr>)
       (k\<lparr>kSendingSessions := queue_put i (kSendingSessions k)\<rparr>)))))))"

text \<open>A null pointer as the current session ends the run; the callers hold a current session.\<close>

definition current_session :: "nat \<Rightarrow> ('s, nat) kit_op" where
  "current_session p = (\<lambda>k. (case mCurrentSession (proxy_at p k) of
       None \<Rightarrow> Inl (UndefinedBehaviour ''null pointer dereferenced'') | Some i \<Rightarrow> Inr i, k))"

definition updateCurrentSessionIdentifier :: "nat \<Rightarrow> ('s, unit) kit_op" where
  "updateCurrentSessionIdentifier p = op_bind (current_session p) (\<lambda>i.
     op_modify (\<lambda>k. update_proxy p (\<lambda>x. x\<lparr>mCurrentSessionIdentifier :=
       (mSessionNumber (sBeacon (session_at i k)), mSessionSequenceNumber (sBeacon (session_at i k)))\<rparr>) k))"

definition reTagCurrentSession :: "nat \<Rightarrow> ('s, unit) kit_op" where
  "reTagCurrentSession p = (\<lambda>k.
     let tag = mLastUserTag (proxy_at p k) in
     if utf8_isEmpty tag then (Inr (), k)
     else op_bind (current_session p) (\<lambda>i. on_session i (session_identifyUser (UTF8String_of (mData tag)))) k)"

definition pointer_of :: "ServerConfiguration option \<Rightarrow> ServerConfigurationPtr" where
  "pointer_of c = (case c of None \<Rightarrow> NullConfiguration | Some c \<Rightarrow> Created c)"

subsection \<open>Splitting\<close>

definition createInitialSessionAndMakeCurrent :: "nat \<Rightarrow> ('s, unit) kit_op" where
  "createInitialSessionAndMakeCurrent p =
     op_bind (\<lambda>k. createAndAssignCurrentSession p (kServerConfiguration k) NullConfiguration k) (\<lambda>_.
     updateCurrentSessionIdentifier p)"

definition createSplitSessionAndMakeCurrent :: "nat \<Rightarrow> ServerConfigurationPtr \<Rightarrow> ('s, unit) kit_op" where
  "createSplitSessionAndMakeCurrent p updatedServerConfig =
     op_bind (createAndAssignCurrentSession p NullConfiguration updatedServerConfig) (\<lambda>_.
     op_bind (updateCurrentSessionIdentifier p) (\<lambda>_.
     reTagCurrentSession p))"

text \<open>
  The grace period is a 32-bit number. A proxy that no configuration has reached holds a null pointer,
  which is dereferenced here.
\<close>

definition closeOrEnqueueCurrentSessionForClosing :: "nat \<Rightarrow> ('s, unit) kit_op" where
  "closeOrEnqueueCurrentSessionForClosing p = (\<lambda>k.
     case mServerConfiguration (proxy_at p k) of
       None \<Rightarrow> (Inl (UndefinedBehaviour ''null pointer dereferenced''), k)
     | Some c \<Rightarrow>
         (let closeGracePeriodInMillis = (if sint (scSessionTimeoutInMilliseconds c) > 0
                then word_of_int (sint (scSessionTimeoutInMilliseconds c) div 2)
                else scast (scSendIntervalInMilliseconds c))
          in op_bind (current_session p) (\<lambda>i. closeOrEnqueueForClosing i closeGracePeriodInMillis) k))"

definition splitAndCreateNewInitialSession :: "nat \<Rightarrow> ('s, unit) kit_op" where
  "splitAndCreateNewInitialSession p =
     op_bind (closeOrEnqueueCurrentSessionForClosing p) (\<lambda>_.
     op_bind (creator_reset p) (\<lambda>_.
     op_bind (\<lambda>k. createAndAssignCurrentSession p (pointer_of (mServerConfiguration (proxy_at p k))) NullConfiguration k) (\<lambda>_.
     op_bind (updateCurrentSessionIdentifier p) (\<lambda>_.
     reTagCurrentSession p))))"

definition isSessionSplitByEventsRequired :: "SessionProxy \<Rightarrow> bool" where
  "isSessionSplitByEventsRequired x =
     (case mServerConfiguration x of
        None \<Rightarrow> False
      | Some c \<Rightarrow> if \<not> isSessionSplitByEventsEnabled c then False
                  else sint (scMaxEventsPerSession c) \<le> sint (mTopLevelActionCount x))"

definition getOrSplitCurrentSessionByEvents :: "nat \<Rightarrow> ('s, nat) kit_op" where
  "getOrSplitCurrentSessionByEvents p = (\<lambda>k.
     op_bind
       (if isSessionSplitByEventsRequired (proxy_at p k)
        then op_bind (closeOrEnqueueCurrentSessionForClosing p) (\<lambda>_ k.
               createSplitSessionAndMakeCurrent p (pointer_of (mServerConfiguration (proxy_at p k))) k)
        else op_return ())
       (\<lambda>_. current_session p) k)"

definition recordTopLevelEventInteraction :: "nat \<Rightarrow> ('s, unit) kit_op" where
  "recordTopLevelEventInteraction p = op_bind provideTimestampInMilliseconds (\<lambda>t.
     op_modify (update_proxy p (\<lambda>x. x\<lparr>mLastInteractionTime := t\<rparr>)))"

definition recordTopLevelActionEvent :: "nat \<Rightarrow> ('s, unit) kit_op" where
  "recordTopLevelActionEvent p =
     op_bind (op_modify (update_proxy p (\<lambda>x. x\<lparr>mTopLevelActionCount := mTopLevelActionCount x + 1\<rparr>))) (\<lambda>_.
     recordTopLevelEventInteraction p)"

definition calculateNextSplitTime :: "nat \<Rightarrow> ('s, int64) kit_op" where
  "calculateNextSplitTime p = (\<lambda>k.
     let x = proxy_at p k in
     case mServerConfiguration x of
       None \<Rightarrow> (Inr (-1), k)
     | Some c \<Rightarrow>
         op_bind (current_session p) (\<lambda>i.
           let splitByIdleTimeout = isSessionSplitByIdleTimeoutEnabled c;
               splitBySessionDuration = isSessionSplitBySessionDurationEnabled c;
               idleTimeout = mLastInteractionTime x + scast (scSessionTimeoutInMilliseconds c);
               sessionMaxTime = mSessionStartTime (sBeacon (session_at i k)) + scast (scMaxSessionDurationInMilliseconds c)
           in op_return
             (if splitByIdleTimeout \<and> splitBySessionDuration
              then (if sint sessionMaxTime < sint idleTimeout then sessionMaxTime else idleTimeout)
              else if splitByIdleTimeout then idleTimeout
              else if splitBySessionDuration then sessionMaxTime
              else -1)) k)"

definition splitSessionByTime :: "nat \<Rightarrow> ('s, int64) kit_op" where
  "splitSessionByTime p = (\<lambda>k.
     if mIsFinished (proxy_at p k) then (Inr (-1), k)
     else
       op_bind (calculateNextSplitTime p) (\<lambda>nextSplitTime.
       op_bind provideTimestampInMilliseconds (\<lambda>t.
         if sint nextSplitTime < 0 \<or> sint t < sint nextSplitTime then op_return nextSplitTime
         else op_bind (splitAndCreateNewInitialSession p) (\<lambda>_. calculateNextSplitTime p))) k)"

subsection \<open>The calls of the application on a proxy\<close>

text \<open>A text argument is a null pointer or a C string.\<close>

definition unless_finished :: "nat \<Rightarrow> 'a \<Rightarrow> ('s, 'a) kit_op \<Rightarrow> ('s, 'a) kit_op" where
  "unless_finished p a m = (\<lambda>k. if mIsFinished (proxy_at p k) then (Inr a, k) else m k)"

text \<open>A call that reaches the current session as an event: the session may be split first.\<close>

definition as_event :: "nat \<Rightarrow> 'a session_op \<Rightarrow> ('s, 'a) kit_op" where
  "as_event p m =
     op_bind (getOrSplitCurrentSessionByEvents p) (\<lambda>i.
     op_bind (recordTopLevelEventInteraction p) (\<lambda>_.
     on_session i m))"

text \<open>The handle of a new object: its session and its number in the session.\<close>

definition proxy_enterAction :: "string option \<Rightarrow> nat \<Rightarrow> ('s, (nat \<times> nat) option) kit_op" where
  "proxy_enterAction actionName p =
     (let name = UTF8String_of_ptr actionName in
      if utf8_isEmpty name then op_return None
      else
        unless_finished p None
          (op_bind (getOrSplitCurrentSessionByEvents p) (\<lambda>i.
           op_bind (\<lambda>k. if isActionReportingAllowedByPrivacySettings (sBeacon (session_at i k))
                        then recordTopLevelActionEvent p k else recordTopLevelEventInteraction p k) (\<lambda>_.
           op_bind (on_session i (session_enterAction name)) (\<lambda>h.
           op_return (map_option (Pair i) h))))))"

definition proxy_identifyUser :: "string option \<Rightarrow> nat \<Rightarrow> ('s, unit) kit_op" where
  "proxy_identifyUser userTag p =
     unless_finished p ()
       (op_bind (as_event p (session_identifyUser (UTF8String_of_ptr userTag))) (\<lambda>_.
        op_modify (update_proxy p (\<lambda>x. x\<lparr>mLastUserTag := UTF8String_of_ptr userTag\<rparr>))))"

definition proxy_reportCrash :: "string option \<Rightarrow> string option \<Rightarrow> string option \<Rightarrow> nat \<Rightarrow> ('s, unit) kit_op" where
  "proxy_reportCrash errorName reason stacktrace p =
     (let name = UTF8String_of_ptr errorName in
      if utf8_isEmpty name then op_return ()
      else
        unless_finished p ()
          (op_bind (as_event p (session_reportCrash name (UTF8String_of_ptr reason) (UTF8String_of_ptr stacktrace))) (\<lambda>_.
           splitAndCreateNewInitialSession p)))"

text \<open>The three settings reach the current session as long as there is one.\<close>

definition on_current :: "nat \<Rightarrow> (Session \<Rightarrow> Session) \<Rightarrow> ('s, unit) kit_op" where
  "on_current p f = (\<lambda>k. case mCurrentSession (proxy_at p k) of None \<Rightarrow> (Inr (), k) | Some i \<Rightarrow> on_session i (op_modify f) k)"

definition proxy_reportNetworkTechnology :: "string option \<Rightarrow> nat \<Rightarrow> ('s, unit) kit_op" where
  "proxy_reportNetworkTechnology technology p =
     (if technology \<noteq> None \<and> utf8_isEmpty (UTF8String_of_ptr technology) then op_return ()
      else on_current p (session_reportNetworkTechnology technology))"

definition proxy_reportConnectionType :: "ConnectionType \<Rightarrow> nat \<Rightarrow> ('s, unit) kit_op" where
  "proxy_reportConnectionType connectionType p = on_current p (session_reportConnectionType connectionType)"

definition proxy_reportCarrier :: "string option \<Rightarrow> nat \<Rightarrow> ('s, unit) kit_op" where
  "proxy_reportCarrier carrier p =
     (if carrier \<noteq> None \<and> utf8_isEmpty (UTF8String_of_ptr carrier) then op_return ()
      else on_current p (session_reportCarrier carrier))"

definition proxy_traceWebRequest :: "string option \<Rightarrow> nat \<Rightarrow> ('s, (nat \<times> nat) option) kit_op" where
  "proxy_traceWebRequest url p =
     (let u = UTF8String_of_ptr url in
      if utf8_isEmpty u then op_return None
      else if \<not> isValidURLScheme u then op_return None
      else
        unless_finished p None
          (op_bind (getOrSplitCurrentSessionByEvents p) (\<lambda>i.
           op_bind (recordTopLevelEventInteraction p) (\<lambda>_.
           op_bind (on_session i (session_traceWebRequest u)) (\<lambda>h.
           op_return (map_option (Pair i) h))))))"

definition proxy_sendBizEvent :: "'d double_ops \<Rightarrow> string option \<Rightarrow> 'd JsonObjectMap option \<Rightarrow> nat \<Rightarrow> ('s, unit) kit_op" where
  "proxy_sendBizEvent fp type attributes p =
     (if type = None \<or> utf8_isEmpty (UTF8String_of_ptr type) then op_return ()
      else unless_finished p () (as_event p (session_sendBizEvent fp (UTF8String_of_ptr type) attributes)))"

definition proxy_sendEvent :: "'d double_ops \<Rightarrow> string option \<Rightarrow> 'd JsonObjectMap option \<Rightarrow> nat \<Rightarrow> ('s, unit) kit_op" where
  "proxy_sendEvent fp name attributes p =
     (if name = None \<or> utf8_isEmpty (UTF8String_of_ptr name) then op_return ()
      else unless_finished p () (as_event p (session_sendEvent fp (UTF8String_of_ptr name) attributes)))"

definition proxy_end :: "nat \<Rightarrow> ('s, unit) kit_op" where
  "proxy_end p =
     unless_finished p ()
       (op_bind (op_modify (update_proxy p (\<lambda>x. x\<lparr>mIsFinished := True\<rparr>))) (\<lambda>_ k.
          let current = mCurrentSession (proxy_at p k) in
          op_bind (op_each (\<lambda>i. kit_endSession i (current = Some i)) (prChildren (proxy_at p k))) (\<lambda>_.
          op_modify (\<lambda>k. update_proxy p (\<lambda>x. x\<lparr>mCurrentSession := None\<rparr>)
            (removeFromSplitByTimeout p (k\<lparr>kChildren := removeAll p (kChildren k)\<rparr>)))) k))"

subsection \<open>The watchdog\<close>

definition DEFAULT_SLEEP_TIME_MILLISECONDS :: int64 where "DEFAULT_SLEEP_TIME_MILLISECONDS = 5000"

definition min64 :: "int64 \<Rightarrow> int64 \<Rightarrow> int64" where
  "min64 a b = (if sint b < sint a then b else a)"

primrec closableSessions :: "nat list \<Rightarrow> int64 \<Rightarrow> nat list \<Rightarrow> ('s, int64 \<times> nat list) kit_op" where
  "closableSessions [] sleepTimeInMillis closable = op_return (sleepTimeInMillis, closable)"
| "closableSessions (i # is) sleepTimeInMillis closable =
     op_bind provideTimestampInMilliseconds (\<lambda>nowInMillis k.
       let gracePeriodEndTimeInMillis = mSplitByEventsGracePeriodEndTimeInMillis (session_at i k) in
       (if sint gracePeriodEndTimeInMillis \<le> sint nowInMillis
        then closableSessions is sleepTimeInMillis (closable @ [i])
        else closableSessions is (min64 sleepTimeInMillis (gracePeriodEndTimeInMillis - nowInMillis)) closable) k)"

definition closeExpiredSessions :: "('s, int64) kit_op" where
  "closeExpiredSessions =
     op_bind (\<lambda>k. closableSessions (queue_toStdVector (mSessionsToClose k)) DEFAULT_SLEEP_TIME_MILLISECONDS [] k)
       (\<lambda>(sleepTimeInMillis, closable).
     op_bind (op_each (\<lambda>i. op_bind (op_modify (dequeueFromClosing i)) (\<lambda>_. kit_endSession i False)) closable) (\<lambda>_.
     op_return sleepTimeInMillis))"

primrec splitProxies :: "nat list \<Rightarrow> int64 \<Rightarrow> nat list \<Rightarrow> ('s, int64 \<times> nat list) kit_op" where
  "splitProxies [] sleepTimeInMillis toRemove = op_return (sleepTimeInMillis, toRemove)"
| "splitProxies (p # ps) sleepTimeInMillis toRemove =
     op_bind (splitSessionByTime p) (\<lambda>nextSessionSplitInMillis.
       if sint nextSessionSplitInMillis < 0 then splitProxies ps sleepTimeInMillis (toRemove @ [p])
       else
         op_bind provideTimestampInMilliseconds (\<lambda>nowInMillis.
           let durationToNextSplit = nextSessionSplitInMillis - nowInMillis in
           if sint durationToNextSplit < 0 then splitProxies ps sleepTimeInMillis toRemove
           else splitProxies ps (min64 sleepTimeInMillis durationToNextSplit) toRemove))"

definition splitTimedOutSessions :: "('s, int64) kit_op" where
  "splitTimedOutSessions =
     op_bind (\<lambda>k. splitProxies (queue_toStdVector (mSessionsToSplitByTimeout k)) DEFAULT_SLEEP_TIME_MILLISECONDS [] k)
       (\<lambda>(sleepTimeInMillis, toRemove).
     op_bind (op_each (\<lambda>p. op_modify (removeFromSplitByTimeout p)) toRemove) (\<lambda>_.
     op_return sleepTimeInMillis))"

text \<open>One round of the watchdog; the result is how long it sleeps.\<close>

definition watchdog_execute :: "('s, int64) kit_op" where
  "watchdog_execute =
     op_bind closeExpiredSessions (\<lambda>durationToNextCloseInMillis.
     op_bind splitTimedOutSessions (\<lambda>durationToNextSplitInMillis.
     op_return (min64 durationToNextCloseInMillis durationToNextSplitInMillis)))"

definition watchdog_requestShutdown :: "'s Kit_scheme \<Rightarrow> 's Kit_scheme" where
  "watchdog_requestShutdown k = k\<lparr>mWatchdogIsShutdown := True\<rparr>"

subsection \<open>The library object\<close>

definition openkit_createSession :: "string option \<Rightarrow> ('s, nat option) kit_op" where
  "openkit_createSession clientIPAddress = (\<lambda>k.
     if mIsShutdown k then (Inr None, k)
     else
       op_bind (SessionCreator_new clientIPAddress) (\<lambda>creator k.
         let p = length (kProxies k) in
         op_bind (op_modify (\<lambda>k. k\<lparr>kProxies := kProxies k @
           [\<lparr>prCreator = creator, prChildren = [], mCurrentSession = None, mCurrentSessionIdentifier = (-1, -1),
             mTopLevelActionCount = 0, mLastInteractionTime = 0, mServerConfiguration = None, mIsFinished = False,
             mLastUserTag = UTF8String_empty\<rparr>]\<rparr>)) (\<lambda>_.
         op_bind (createInitialSessionAndMakeCurrent p) (\<lambda>_.
         op_bind (op_modify (\<lambda>k. k\<lparr>kChildren := kChildren k @ [p]\<rparr>)) (\<lambda>_.
         op_return (Some p)))) k) k)"

text \<open>The last two steps ask the watchdog and the sender to shut down.\<close>

definition openkit_shutdown :: "('s, unit) kit_op" where
  "openkit_shutdown = (\<lambda>k.
     if mIsShutdown k then (Inr (), k)
     else
       op_bind (op_modify (\<lambda>k. k\<lparr>mIsShutdown := True\<rparr>)) (\<lambda>_.
       op_bind (op_each proxy_end (kChildren k)) (\<lambda>_.
       op_bind (op_modify watchdog_requestShutdown) (\<lambda>_.
       op_modify (\<lambda>k. k\<lparr>mSenderShutdown := True\<rparr>)))) k)"

end
