(* ===== verification/Proxy_Facts.thy ===== *)
theory Proxy_Facts
  imports Session_Proxy
begin

text \<open>
  What holds of the proxies, their sessions and the library object: the proxies know exactly their open
  sessions, whatever the application, the watchdog and the sender do, and the end of a proxy is complete.
\<close>

subsection \<open>Outcomes of operations\<close>

text \<open>An operation from a state with \<open>P\<close> ends with \<open>Q\<close> for its result, or with \<open>E\<close> after an exception.\<close>

definition triple :: "('s \<Rightarrow> bool) \<Rightarrow> ('s, 'a) cpp_op \<Rightarrow> ('a \<Rightarrow> 's \<Rightarrow> bool) \<Rightarrow> ('s \<Rightarrow> bool) \<Rightarrow> bool" where
  "triple P m Q E \<longleftrightarrow> (\<forall>k. P k \<longrightarrow> (case m k of (Inr a, k') \<Rightarrow> Q a k' | (Inl e, k') \<Rightarrow> E k'))"

abbreviation keeps :: "('s \<Rightarrow> bool) \<Rightarrow> ('s, 'a) cpp_op \<Rightarrow> bool" where
  "keeps P m \<equiv> triple P m (\<lambda>_. P) P"

lemma triple_bind: "triple P m Q E \<Longrightarrow> (\<And>a. triple (Q a) (f a) R E) \<Longrightarrow> triple P (op_bind m f) R E"
  unfolding triple_def op_bind_def by (fastforce split: prod.splits sum.splits)

lemma triple_weaken:
  "triple P m Q E \<Longrightarrow> (\<And>k. P' k \<Longrightarrow> P k) \<Longrightarrow> (\<And>a k. Q a k \<Longrightarrow> Q' a k) \<Longrightarrow> (\<And>k. E k \<Longrightarrow> E' k) \<Longrightarrow> triple P' m Q' E'"
  unfolding triple_def by (fastforce split: prod.splits sum.splits)

lemma triple_state: "(\<And>k. P k \<Longrightarrow> triple (\<lambda>k'. k' = k) (f k) Q E) \<Longrightarrow> triple P (\<lambda>k. f k k) Q E"
  unfolding triple_def by auto

lemma triple_now: "triple P (f k) Q E \<Longrightarrow> P k \<Longrightarrow> triple (\<lambda>k'. k' = k) (f k) Q E"
  unfolding triple_def by auto

lemma keeps_state: "(\<And>k. P k \<Longrightarrow> keeps P (f k)) \<Longrightarrow> keeps P (\<lambda>k. f k k)"
  unfolding triple_def by auto

lemma triple_return: "(\<And>k. P k \<Longrightarrow> Q a k) \<Longrightarrow> triple P (op_return a) Q E"
  by (simp add: triple_def op_return_def)

lemma triple_modify: "(\<And>k. P k \<Longrightarrow> Q () (f k)) \<Longrightarrow> triple P (op_modify f) Q E"
  by (simp add: triple_def op_modify_def)

lemma keepsI: "(\<And>k. P k \<Longrightarrow> P (snd (m k))) \<Longrightarrow> keeps P m"
  unfolding triple_def by (metis (mono_tags, lifting) case_prod_beta sum.case_eq_if)

lemma keeps_return: "keeps P (op_return a)"
  by (rule triple_return)

lemma keeps_if: "(b \<Longrightarrow> triple P m Q E) \<Longrightarrow> (\<not> b \<Longrightarrow> triple P m' Q E) \<Longrightarrow> triple P (if b then m else m') Q E"
  by simp

lemma keeps_if_state: "keeps P m \<Longrightarrow> keeps P m' \<Longrightarrow> keeps P (\<lambda>k. if b k then m k else m' k)"
  by (auto simp: triple_def)

lemma keeps_each: "(\<And>x. x \<in> set xs \<Longrightarrow> keeps P (f x)) \<Longrightarrow> keeps P (op_each f xs)"
  by (induction xs) (auto intro: keeps_return triple_bind)

lemma triple_result: "triple P m Q E \<Longrightarrow> P k \<Longrightarrow> m k = (Inr a, k') \<Longrightarrow> Q a k'"
  by (auto simp: triple_def split: prod.splits)

lemma keeps_result: "keeps P m \<Longrightarrow> P k \<Longrightarrow> P (snd (m k))"
  by (cases "m k") (auto simp: triple_def split: sum.splits)

lemma nth_update: "xs[i := y] ! j = (if j = i \<and> i < length xs then y else xs ! j)"
  by (cases "i < length xs") (auto simp: nth_list_update list_update_beyond)

subsection \<open>The objects of the library\<close>

definition open_sessions :: "nat \<Rightarrow> 's Kit_scheme \<Rightarrow> nat list" where
  "open_sessions p k = filter (\<lambda>i. parent_of i k = p \<and> \<not> mIsSessionFinished (session_at i k)) [0..<length (kSessions k)]"

text \<open>
  The relation between sessions, proxies and the sender, but for the new sessions of \<open>X\<close>, of which
  the sender does not know, and of \<open>C\<close>, of which their proxy does not; the proxies
  of \<open>A\<close> are in use, and those of \<open>F\<close> are about to end.
\<close>

definition kit_inv :: "nat set \<Rightarrow> nat set \<Rightarrow> nat set \<Rightarrow> nat set \<Rightarrow> 's Kit_scheme \<Rightarrow> bool" where
  "kit_inv X C F A k \<longleftrightarrow>
     (\<forall>i<length (kSessions k). session_ok (session_at i k) \<and> parent_of i k < length (kProxies k) \<and>
        (mIsSessionFinished (session_at i k) \<or> i \<in> set (kSendingSessions k) \<or> i \<in> X)) \<and>
     (\<forall>p<length (kProxies k). prChildren (proxy_at p k) = filter (\<lambda>i. i \<notin> C) (open_sessions p k) \<and>
        (mIsFinished (proxy_at p k) \<longrightarrow> p \<in> F \<or> open_sessions p k = [])) \<and>
     (\<forall>p\<in>A. p < length (kProxies k) \<and> \<not> mIsFinished (proxy_at p k)) \<and>
     set (mSessionsToSplitByTimeout k) \<subseteq> {..<length (kProxies k)} \<and> set (kChildren k) \<subseteq> {..<length (kProxies k)} \<and>
     set (kSendingSessions k) \<subseteq> {..<length (kSessions k)}"

lemma stored_sessions [simp]:
  "length (kSessions (save_session i s k)) = length (kSessions k)"
  "length (kProxies (save_session i s k)) = length (kProxies k)"
  "kSendingSessions (save_session i s k) = kSendingSessions k"
  "mSessionsToSplitByTimeout (save_session i s k) = mSessionsToSplitByTimeout k" "kChildren (save_session i s k) = kChildren k"
  "session_at j (save_session i s k) = (if j = i \<and> i < length (kSessions k) then s else session_at j k)"
  "parent_of j (save_session i s k) = parent_of j k"
  by (auto simp: save_session_def update_proxy_def session_at_def parent_of_def nth_update)

lemma updated_proxy [simp]:
  "length (kProxies (update_proxy p f k)) = length (kProxies k)"
  "kSessions (update_proxy p f k) = kSessions k"
  "kSendingSessions (update_proxy p f k) = kSendingSessions k"
  "mSessionsToSplitByTimeout (update_proxy p f k) = mSessionsToSplitByTimeout k" "kChildren (update_proxy p f k) = kChildren k"
  "session_at j (update_proxy p f k) = session_at j k"
  "parent_of j (update_proxy p f k) = parent_of j k"
  by (auto simp: update_proxy_def session_at_def parent_of_def)

lemma proxy_at_update:
  "proxy_at q (update_proxy p f k) = (if q = p \<and> p < length (kProxies k) then f (proxy_at p k) else proxy_at q k)"
  by (auto simp: update_proxy_def proxy_at_def nth_update)

lemma proxy_field_update:
  "(\<And>x. g (f x) = g x) \<Longrightarrow> g (proxy_at q (update_proxy p f k)) = g (proxy_at q k)"
  by (auto simp: update_proxy_def proxy_at_def nth_update)

lemma stored_proxies [simp]:
  "prChildren (proxy_at q (save_session i s k)) = prChildren (proxy_at q k)"
  "mIsFinished (proxy_at q (save_session i s k)) = mIsFinished (proxy_at q k)"
proof -
  let ?k = "k\<lparr>kSessions := (kSessions k)[i := (parent_of i k, s)], kCache := sCache s, kTick := sTick s, kNextObject := sNextObject s\<rparr>"
  have "proxy_at q ?k = proxy_at q k" by (simp add: proxy_at_def)
  then show "prChildren (proxy_at q (save_session i s k)) = prChildren (proxy_at q k)"
    "mIsFinished (proxy_at q (save_session i s k)) = mIsFinished (proxy_at q k)"
    unfolding save_session_def by (simp_all add: proxy_field_update [where g = prChildren] proxy_field_update [where g = mIsFinished])
qed

lemma load_ok: "session_ok (load_session i k) = session_ok (session_at i k)"
  "mIsSessionFinished (load_session i k) = mIsSessionFinished (session_at i k)"
  by (simp_all add: load_session_def session_ok_def)

lemma open_sessions_update [simp]: "open_sessions q (update_proxy p f k) = open_sessions q k"
  by (simp add: open_sessions_def)

text \<open>A session operation that neither ends the session nor breaks it, and one that tells whether it has ended it.\<close>

definition steady :: "'a session_op \<Rightarrow> bool" where
  "steady m \<longleftrightarrow> (\<forall>s. session_ok s \<longrightarrow> session_ok (snd (m s)) \<and> mIsSessionFinished (snd (m s)) = mIsSessionFinished s)"

definition ending :: "'a session_op \<Rightarrow> ('a \<Rightarrow> bool) \<Rightarrow> bool" where
  "ending m told \<longleftrightarrow> (\<forall>s. session_ok s \<longrightarrow> (case m s of (r, s') \<Rightarrow> session_ok s' \<and>
     mIsSessionFinished s' = (mIsSessionFinished s \<or> (case r of Inl e \<Rightarrow> False | Inr a \<Rightarrow> told a)) \<and>
     (case r of Inl e \<Rightarrow> True | Inr a \<Rightarrow> told a \<longrightarrow> \<not> mIsSessionFinished s)))"

lemma saved_unfinished:
  assumes "kit_inv X C F A k" and "i < length (kSessions k) \<Longrightarrow> session_ok s"
    and "i < length (kSessions k) \<Longrightarrow> mIsSessionFinished s = mIsSessionFinished (session_at i k)"
  shows "kit_inv X C F A (save_session i s k)"
proof -
  have "open_sessions p (save_session i s k) = open_sessions p k" for p
    unfolding open_sessions_def by (rule filter_cong) (auto simp: assms(3))
  then show ?thesis using assms by (auto simp: kit_inv_def)
qed

lemma steady_keeps: "steady m \<Longrightarrow> keeps (kit_inv X C F A) (on_session i m)"
proof -
  assume m: "steady m"
  have "kit_inv X C F A (snd (on_session i m k))" if k: "kit_inv X C F A k" for k
  proof -
    have "session_ok (load_session i k)" if "i < length (kSessions k)" using k that by (simp add: load_ok kit_inv_def)
    then show ?thesis
      unfolding on_session_def using m load_ok(2) [of i k]
      by (auto simp: steady_def split: prod.splits intro!: saved_unfinished [OF k])
  qed
  then show ?thesis by (rule keepsI)
qed

lemma removeAll_filter: "removeAll x (filter P xs) = filter (\<lambda>y. P y \<and> y \<noteq> x) xs"
  by (induction xs) auto

lemma dequeued [simp]:
  "kSessions (dequeueFromClosing i k) = kSessions k" "kProxies (dequeueFromClosing i k) = kProxies k"
  "kSendingSessions (dequeueFromClosing i k) = kSendingSessions k"
  "mSessionsToSplitByTimeout (dequeueFromClosing i k) = mSessionsToSplitByTimeout k" "kChildren (dequeueFromClosing i k) = kChildren k"
  "session_at j (dequeueFromClosing i k) = session_at j k" "parent_of j (dequeueFromClosing i k) = parent_of j k"
  "proxy_at q (dequeueFromClosing i k) = proxy_at q k"
  by (simp_all add: dequeueFromClosing_def session_at_def parent_of_def proxy_at_def)

text \<open>A session that has ended, once its proxy knows.\<close>

lemma ended_known:
  assumes k: "kit_inv X C F A k" and i: "i < length (kSessions k) \<Longrightarrow> session_ok s \<and> mIsSessionFinished s"
  shows "kit_inv X C F A (snd (proxy_onChildClosed i (save_session i s k)))"
proof -
  let ?k = "save_session i s k"
  let ?p = "parent_of i k"
  let ?drop = "\<lambda>p. p\<lparr>prChildren := removeAll i (prChildren p)\<rparr>"
  define k' where "k' = snd (proxy_onChildClosed i ?k)"
  have k': "k' = dequeueFromClosing i (update_proxy ?p ?drop ?k)"
    by (simp add: k'_def proxy_onChildClosed_def op_modify_def)
  have sessions: "length (kSessions k') = length (kSessions k)" "length (kProxies k') = length (kProxies k)"
    "kSendingSessions k' = kSendingSessions k" "\<And>j. session_at j k' = session_at j ?k" "\<And>j. parent_of j k' = parent_of j k"
    "mSessionsToSplitByTimeout k' = mSessionsToSplitByTimeout k" "kChildren k' = kChildren k"
    by (simp_all add: k')
  have finished: "mIsFinished (proxy_at q k') = mIsFinished (proxy_at q k)" for q
    by (simp add: k' proxy_field_update [where g = mIsFinished])
  have children: "prChildren (proxy_at q k') = (if q = ?p \<and> ?p < length (kProxies k) then removeAll i (prChildren (proxy_at q k)) else prChildren (proxy_at q k))" for q
    by (simp add: k' proxy_at_update)
  have opened: "open_sessions q k' = filter (\<lambda>j. j \<noteq> i) (open_sessions q k)" for q
    unfolding open_sessions_def sessions filter_filter
    by (rule filter_cong) (use i in \<open>auto simp: open_sessions_def\<close>)
  have member: "parent_of j k = q \<and> j < length (kSessions k)" if "j \<in> set (open_sessions q k)" for j q
    using that by (simp add: open_sessions_def)
  show ?thesis unfolding k'_def [symmetric]
    using k i by (auto dest!: member simp: kit_inv_def sessions finished children opened removeAll_filter conj_ac intro!: filter_cong)
qed

lemma ending_keeps:
  assumes m: "ending m told" and g: "\<And>a. keeps (kit_inv X C F A) (g a)"
  shows "keeps (kit_inv X C F A) (op_bind (on_session i m) (\<lambda>a. op_bind (tell_parent i (told a)) (\<lambda>_. g a)))"
proof -
  have "kit_inv X C F A (snd (op_bind (on_session i m) (\<lambda>a. op_bind (tell_parent i (told a)) (\<lambda>_. g a)) k))"
    if k: "kit_inv X C F A k" for k
  proof -
    obtain r s where r: "m (load_session i k) = (r, s)" by fastforce
    have l: "session_ok (load_session i k)" if "i < length (kSessions k)" using k that by (simp add: load_ok kit_inv_def)
    have e: "session_ok s \<and> mIsSessionFinished s = (mIsSessionFinished (session_at i k) \<or> (case r of Inl e \<Rightarrow> False | Inr a \<Rightarrow> told a))"
      if "i < length (kSessions k)"
      using m [unfolded ending_def, rule_format, OF l [OF that]] by (simp add: r load_ok)
    show ?thesis
    proof (cases r)
      case (Inl x)
      have "kit_inv X C F A (save_session i s k)" by (rule saved_unfinished [OF k]) (use e Inl in auto)
      then show ?thesis using Inl r by (simp add: op_bind_def on_session_def)
    next
      case (Inr a)
      show ?thesis
      proof (cases "told a")
        case True
        have "kit_inv X C F A (snd (proxy_onChildClosed i (save_session i s k)))"
          by (rule ended_known [OF k]) (use e Inr True in auto)
        from keeps_result [OF g this] show ?thesis
          using True Inr r by (simp add: op_bind_def on_session_def tell_parent_def proxy_onChildClosed_def op_modify_def)
      next
        case False
        have "kit_inv X C F A (save_session i s k)" by (rule saved_unfinished [OF k]) (use e Inr False in auto)
        from keeps_result [OF g this] show ?thesis
          using False Inr r by (simp add: op_bind_def on_session_def tell_parent_def op_return_def)
      qed
    qed
  qed
  then show ?thesis by (rule keepsI)
qed

lemma ending_end: "ending (session_end b) (\<lambda>told. told)"
proof -
  have "case session_end b s of (r, s') \<Rightarrow> session_ok s' \<and>
     mIsSessionFinished s' = (mIsSessionFinished s \<or> (case r of Inl e \<Rightarrow> False | Inr a \<Rightarrow> a)) \<and>
     (case r of Inl e \<Rightarrow> True | Inr a \<Rightarrow> a \<longrightarrow> \<not> mIsSessionFinished s)" if s: "session_ok s" for s
  proof (cases "isFinishingOrFinished s")
    case True
    then show ?thesis using s by (simp add: session_end_def markAsIsFinishing_def op_bind_def op_return_def)
  next
    case False
    then show ?thesis using s session_end_ok [of s b] by (auto simp: session_ok_def isFinishingOrFinished_def)
  qed
  then show ?thesis by (simp add: ending_def)
qed

lemma ending_tryEnd: "ending tryEnd snd"
proof -
  have e: "case session_end False s of (r, s') \<Rightarrow> session_ok s' \<and>
     mIsSessionFinished s' = (mIsSessionFinished s \<or> (case r of Inl e \<Rightarrow> False | Inr a \<Rightarrow> a)) \<and>
     (case r of Inl e \<Rightarrow> True | Inr a \<Rightarrow> a \<longrightarrow> \<not> mIsSessionFinished s)" if "session_ok s" for s
    using that ending_end [of False] by (auto simp: ending_def)
  have "case tryEnd s of (r, s') \<Rightarrow> session_ok s' \<and>
     mIsSessionFinished s' = (mIsSessionFinished s \<or> (case r of Inl e \<Rightarrow> False | Inr a \<Rightarrow> snd a)) \<and>
     (case r of Inl e \<Rightarrow> True | Inr a \<Rightarrow> snd a \<longrightarrow> \<not> mIsSessionFinished s)" if s: "session_ok s" for s
    using s e [OF s]
    by (auto simp: tryEnd_def op_bind_def op_return_def session_ok_def split: prod.splits sum.splits)
  then show ?thesis by (simp add: ending_def)
qed

lemma op_bind_return_right [simp]: "op_bind m op_return = m"
  by (simp add: op_bind_def op_return_def fun_eq_iff split: prod.split sum.split)

lemma op_bind_unit: "op_bind m (\<lambda>_. op_return ()) = m"
  using op_bind_return_right [of m] by (simp add: fun_eq_iff op_bind_def op_return_def split: prod.split sum.split)

lemma endSession_keeps: "keeps (kit_inv X C F A) (kit_endSession i b)"
  using ending_keeps [OF ending_end, of X C F A "\<lambda>_. op_return ()" i b]
  by (simp add: kit_endSession_def op_bind_unit keeps_return)

lemma tryEnd_keeps: "keeps (kit_inv X C F A) (kit_tryEnd i)"
  using ending_keeps [OF ending_tryEnd, of X C F A "\<lambda>a. op_return (fst a)" i]
  by (simp add: kit_tryEnd_def case_prod_unfold keeps_return)

subsection \<open>Calls that do not end a session\<close>

definition flagged :: "'a session_op \<Rightarrow> bool" where
  "flagged m \<longleftrightarrow> (\<forall>s. mIsSessionFinished (snd (m s)) = mIsSessionFinished s)"

lemma flagged_frames: "frames m \<Longrightarrow> flagged m"
  by (simp add: flagged_def frames_session)

lemma flagged_bind: "flagged m \<Longrightarrow> (\<And>a. flagged (f a)) \<Longrightarrow> flagged (op_bind m f)"
  by (auto simp: flagged_def op_bind_def split: prod.split sum.split) (metis snd_conv)+

lemma flagged_modify: "(\<And>s. mIsSessionFinished (f s) = mIsSessionFinished s) \<Longrightarrow> flagged (op_modify f)"
  by (simp add: flagged_def op_modify_def)

lemma flagged_if: "(\<And>s. flagged (m s)) \<Longrightarrow> flagged (\<lambda>s. m s s)"
  by (simp add: flagged_def)

lemma steadyI: "(\<And>s. session_ok s \<Longrightarrow> session_ok (snd (m s))) \<Longrightarrow> flagged m \<Longrightarrow> steady m"
  by (simp add: steady_def flagged_def)

lemma flagged_new_child:
  "flagged (op_bind new_object (\<lambda>i. op_bind (op_modify (\<lambda>s. s\<lparr>mChildren := mChildren s @ [f i x]\<rparr>)) (\<lambda>_. op_return (Some i))))"
  by (intro flagged_bind flagged_modify) (auto intro: flagged_frames)

lemma steady_enter: "steady (session_enterAction u)"
proof (rule steadyI)
  have "flagged (op_bind (ActionCommonImpl_new DEFAULT_ACTION_ID u) (\<lambda>a. op_bind new_object (\<lambda>i.
       op_bind (op_modify (\<lambda>s. s\<lparr>mChildren := mChildren s @ [Action i a []]\<rparr>)) (\<lambda>_. op_return (Some i)))))"
    by (rule flagged_bind [OF flagged_frames [OF frames_action_new]]) (rule flagged_new_child [where f = "\<lambda>i a. Action i a []"])
  then show "flagged (session_enterAction u)" by (simp add: session_enterAction_def flagged_def)
qed (rule enterAction_keeps_ok)

lemma steady_trace: "well_formed u \<Longrightarrow> steady (session_traceWebRequest u)"
proof (rule steadyI)
  have "flagged (op_bind (WebRequestTracer_new DEFAULT_ACTION_ID u) (\<lambda>a. op_bind new_object (\<lambda>i.
       op_bind (op_modify (\<lambda>s. s\<lparr>mChildren := mChildren s @ [Tracer i a]\<rparr>)) (\<lambda>_. op_return (Some i)))))"
    by (rule flagged_bind [OF flagged_frames [OF frames_tracer_new]]) (rule flagged_new_child)
  then show "flagged (session_traceWebRequest u)" by (simp add: session_traceWebRequest_def flagged_def)
qed (rule traceRequest_keeps_ok)

lemma steady_while_open: "frames m \<Longrightarrow> steady (while_open m)"
  by (rule steadyI) (auto intro: while_open_keeps_ok, auto simp: while_open_def flagged_def frames_session)

lemma steady_return: "steady (op_return ())"
  by (simp add: steady_def op_return_def)

lemma steady_reports:
  "steady (session_identifyUser u)" "steady (session_reportCrash u v w)" "steady (session_sendBizEvent fp u m)" "steady (session_sendEvent fp u m)"
  by (simp_all add: session_identifyUser_def session_reportCrash_def session_sendBizEvent_def session_sendEvent_def
      steady_while_open steady_return)

lemma steady_modify:
  "(\<And>s. mChildren (f s) = mChildren s \<and> mIsSessionFinished (f s) = mIsSessionFinished s \<and> mIsSessionFinishing (f s) = mIsSessionFinishing s)
   \<Longrightarrow> steady (op_modify f)"
  by (simp add: steady_def op_modify_def session_ok_def)

lemma steady_settings:
  "steady (op_modify (session_reportNetworkTechnology t))" "steady (op_modify (session_reportConnectionType c))"
  "steady (op_modify (session_reportCarrier r))" "steady (op_modify (update_configuration f))"
  "steady (op_modify (\<lambda>s. s\<lparr>mSplitByEventsGracePeriodEndTimeInMillis := x\<rparr>))" "steady (op_modify clearCapturedData)"
  by (auto simp: session_reportNetworkTechnology_def session_reportConnectionType_def session_reportCarrier_def Let_def
      update_configuration_def clearCapturedData_def intro!: steady_modify split: if_splits)

lemma ending_call: "keeps_live f \<Longrightarrow> (\<And>n. frames (f n)) \<Longrightarrow> ending (session_call h f) snd"
proof -
  assume f: "keeps_live f" "\<And>n. frames (f n)"
  have "case session_call h f s of (r, s') \<Rightarrow> session_ok s' \<and>
     mIsSessionFinished s' = (mIsSessionFinished s \<or> (case r of Inl e \<Rightarrow> False | Inr a \<Rightarrow> snd a)) \<and>
     (case r of Inl e \<Rightarrow> True | Inr a \<Rightarrow> snd a \<longrightarrow> \<not> mIsSessionFinished s)" if s: "session_ok s" for s
  proof -
    obtain q t where m: "on_nodes f h (mChildren s) s = (q, t)" by fastforce
    have fr: "frames (on_nodes f h (mChildren s))" by (rule frames_on(2)) (rule f(2))
    have t: "mIsSessionFinished t = mIsSessionFinished s" using frames_session [OF fr, of s] m by simp
    have ok: "session_ok (snd (session_call h f s))" by (rule session_call_keeps_ok [OF s f])
    show ?thesis
    proof (cases q)
      case (Inl e)
      then show ?thesis using ok t by (simp add: session_call_def op_bind_def m)
    next
      case (Inr c)
      obtain cs x where c: "c = (cs, x)" by (cases c)
      let ?t = "t\<lparr>mChildren := cs\<rparr>"
      have "list_all live cs"
        using on_nodes_live(2) [OF f(1), where i = h and ns = "mChildren s"] s m Inr c by (auto simp: session_ok_def yields_def)
      moreover have "mIsSessionFinished s \<longrightarrow> cs = []"
        using s m Inr c by (auto simp: session_ok_def op_return_def)
      ultimately have okt: "session_ok ?t"
        using frames_session [OF fr, of s] m s by (simp add: session_ok_def)
      obtain r' s' where r': "session_end True ?t = (r', s')" by fastforce
      have e: "session_ok s' \<and> mIsSessionFinished s' = (mIsSessionFinished ?t \<or> (case r' of Inl e \<Rightarrow> False | Inr a \<Rightarrow> a)) \<and>
         (case r' of Inl e \<Rightarrow> True | Inr a \<Rightarrow> a \<longrightarrow> \<not> mIsSessionFinished ?t)"
        using ending_end [of True, unfolded ending_def, rule_format, OF okt] by (simp add: r')
      have b: "session_call h f s =
          (if length cs < length (mChildren s) \<and> mWasTriedForEnding ?t \<and> cs = []
           then (case r' of Inl e \<Rightarrow> (Inl e, s') | Inr a \<Rightarrow> (Inr (x, a), s')) else (Inr (x, False), ?t))"
        using frames_session(1) [OF fr, of s] m r'
        by (cases "cs = []"; cases r')
          (simp_all add: session_call_def op_bind_def op_return_def m Inr c Let_def session_onChildClosed_def)
      show ?thesis unfolding b using e t okt by (cases r') auto
    qed
  qed
  then show ?thesis by (simp add: ending_def)
qed

lemma object_call_keeps: "keeps_live f \<Longrightarrow> (\<And>n. frames (f n)) \<Longrightarrow> keeps (kit_inv X C F A) (kit_object_call i h f)"
  using ending_keeps [OF ending_call, of f X C F A "\<lambda>a. op_return (fst a)" i h]
  by (simp add: kit_object_call_def case_prod_unfold keeps_return)

subsection \<open>Configurations and new sessions\<close>

lemma keeps_bind: "keeps P m \<Longrightarrow> (\<And>a. keeps P (f a)) \<Longrightarrow> keeps P (op_bind m f)"
  by (rule triple_bind)

lemma keeps_modify: "(\<And>k. P k \<Longrightarrow> P (f k)) \<Longrightarrow> keeps P (op_modify f)"
  by (rule triple_modify)

lemma keeps_Inr: "(\<And>k. P k \<Longrightarrow> P (g k)) \<Longrightarrow> keeps P (\<lambda>k. (r k, g k))"
  by (simp add: triple_def split: sum.split)

lemma kit_inv_fields [simp]:
  "kit_inv X C F A (k\<lparr>kTick := t\<rparr>) = kit_inv X C F A k" "kit_inv X C F A (k\<lparr>kNextDraw := t\<rparr>) = kit_inv X C F A k"
  "kit_inv X C F A (k\<lparr>mLastSessionNumber := n\<rparr>) = kit_inv X C F A k"
  "kit_inv X C F A (k\<lparr>mIsShutdown := b\<rparr>) = kit_inv X C F A k" "kit_inv X C F A (k\<lparr>mWatchdogIsShutdown := b\<rparr>) = kit_inv X C F A k"
  "kit_inv X C F A (k\<lparr>mSenderShutdown := b\<rparr>) = kit_inv X C F A k" "kit_inv X C F A (k\<lparr>mSessionsToClose := l\<rparr>) = kit_inv X C F A k"
  by (simp_all add: kit_inv_def open_sessions_def session_at_def parent_of_def proxy_at_def)

lemma kit_inv_proxy:
  "(\<And>x. prChildren (f x) = prChildren x) \<Longrightarrow> (\<And>x. mIsFinished (f x) = mIsFinished x) \<Longrightarrow>
   kit_inv X C F A (update_proxy p f k) = kit_inv X C F A k"
  by (simp add: kit_inv_def proxy_field_update [where g = prChildren] proxy_field_update [where g = mIsFinished])

lemma kit_inv_watchdog:
  "kit_inv X C F A k \<Longrightarrow> kit_inv X C F A (dequeueFromClosing i k)"
  "kit_inv X C F A k \<Longrightarrow> kit_inv X C F A (removeFromSplitByTimeout p k)"
  "kit_inv X C F A k \<Longrightarrow> p < length (kProxies k) \<Longrightarrow> kit_inv X C F A (addToSplitByTimeout p k)"
proof -
  show "kit_inv X C F A k \<Longrightarrow> kit_inv X C F A (dequeueFromClosing i k)" by (simp add: dequeueFromClosing_def)
  show "kit_inv X C F A k \<Longrightarrow> kit_inv X C F A (removeFromSplitByTimeout p k)"
    using set_remove1_subset [of p "mSessionsToSplitByTimeout k"]
    by (simp add: kit_inv_def removeFromSplitByTimeout_def open_sessions_def session_at_def parent_of_def proxy_at_def queue_remove_eq) blast
  show "kit_inv X C F A k \<Longrightarrow> p < length (kProxies k) \<Longrightarrow> kit_inv X C F A (addToSplitByTimeout p k)"
    by (simp add: kit_inv_def addToSplitByTimeout_def open_sessions_def session_at_def parent_of_def proxy_at_def queue_put_def)
qed

lemma kit_inv_child_gone: "kit_inv X C F A k \<Longrightarrow> kit_inv X C F A (k\<lparr>kChildren := removeAll p (kChildren k)\<rparr>)"
  by (simp add: kit_inv_def open_sessions_def session_at_def parent_of_def proxy_at_def) blast

lemma kit_inv_update: "kit_inv X C F A k \<Longrightarrow> p < length (kProxies k) \<Longrightarrow> kit_inv X C F A (onServerConfigurationUpdate p c k)"
  by (simp add: onServerConfigurationUpdate_def Let_def kit_inv_watchdog kit_inv_proxy split: option.split)

lemma provide_keeps: "keeps (kit_inv X C F A) kit_provide" "keeps (kit_inv X C F A) provideTimestampInMilliseconds"
  "keeps (kit_inv X C F A) getNextSessionID" "keeps (kit_inv X C F A) draw"
proof -
  show p: "keeps (kit_inv X C F A) kit_provide" unfolding kit_provide_def by (rule keeps_Inr) simp
  show "keeps (kit_inv X C F A) provideTimestampInMilliseconds"
    unfolding provideTimestampInMilliseconds_def by (intro keeps_bind p keeps_return)
  show "keeps (kit_inv X C F A) getNextSessionID" unfolding getNextSessionID_def Let_def by (rule keeps_Inr) simp
  show "keeps (kit_inv X C F A) draw" unfolding draw_def by (rule keeps_Inr) simp
qed

lemma current_keeps: "keeps P (current_session p)"
  by (simp add: current_session_def triple_def split: option.split)

lemma configure_inv:
  assumes k: "kit_inv X C F A k" and i: "i < length (kSessions k)"
  shows "kit_inv X C F A (snd (configure_session f i k))"
proof -
  let ?k = "snd (on_session i (op_modify (update_configuration (\<lambda>b. fst (f b)))) k)"
  have "kit_inv X C F A ?k" by (rule keeps_result [OF steady_keeps [OF steady_settings(4)] k])
  moreover have "parent_of i k < length (kProxies ?k)" using k i by (simp add: kit_inv_def on_session_def split: prod.split)
  ultimately show ?thesis
    by (auto simp: configure_session_def Let_def kit_inv_update split: prod.split option.split)
qed

lemma creator_reset_keeps: "keeps (kit_inv X C F A) (creator_reset p)"
  unfolding creator_reset_def
  by (intro keeps_bind provide_keeps) (auto intro!: keeps_bind provide_keeps keeps_modify simp: kit_inv_proxy split: prod.split)

text \<open>The new session \<open>i\<close> of the proxy \<open>p\<close>, before the sender and, with \<open>C\<close>, the proxy know of it.\<close>

definition new_session :: "nat set \<Rightarrow> nat set \<Rightarrow> nat \<Rightarrow> nat \<Rightarrow> 's Kit_scheme \<Rightarrow> bool" where
  "new_session C A p i k \<longleftrightarrow> kit_inv {i} C {} A k \<and> Suc i = length (kSessions k) \<and> parent_of i k = p \<and>
     \<not> mIsSessionFinished (session_at i k)"

lemma created:
  assumes k: "kit_inv {} {} {} A k" and p: "p \<in> A" and s: "session_ok s" "\<not> mIsSessionFinished s" and i: "i = length (kSessions k)"
  shows "new_session {i} A p i (k\<lparr>kSessions := kSessions k @ [(p, s)]\<rparr>)"
proof -
  let ?k = "k\<lparr>kSessions := kSessions k @ [(p, s)]\<rparr>"
  have at: "session_at j ?k = (if j = i then s else session_at j k)" "parent_of j ?k = (if j = i then p else parent_of j k)"
    if "j < length (kSessions ?k)" for j
    using that by (auto simp: i session_at_def parent_of_def nth_append)
  have opened: "open_sessions q ?k = (if q = p then open_sessions q k @ [i] else open_sessions q k)" for q
  proof -
    have "filter (\<lambda>j. parent_of j ?k = q \<and> \<not> mIsSessionFinished (session_at j ?k)) [0..<i] = open_sessions q k"
      unfolding open_sessions_def i [symmetric] by (rule filter_cong) (auto simp: at i [symmetric])
    then show ?thesis using s at [of i] by (simp add: open_sessions_def i)
  qed
  have "filter (\<lambda>j. j \<noteq> i) (open_sessions q k) = open_sessions q k" for q
    by (rule filter_True) (simp add: open_sessions_def i)
  then show ?thesis
    using k p s at by (auto simp: new_session_def kit_inv_def opened proxy_at_def i less_Suc_eq)
qed

lemma new_session_saved:
  assumes "new_session C A p i k" and "steady m"
  shows "new_session C A p i (snd (on_session j m k))"
proof -
  obtain r s where m: "m (load_session j k) = (r, s)" by fastforce
  have "kit_inv {i} C {} A (snd (on_session j m k))"
    using assms by (intro keeps_result [OF steady_keeps]) (auto simp: new_session_def)
  moreover have "\<not> mIsSessionFinished s" if "j = i"
  proof -
    have "session_ok (session_at i k)" using assms(1) by (auto simp: new_session_def kit_inv_def)
    then show ?thesis
      using assms that m load_ok [of i k] unfolding steady_def new_session_def by (metis snd_conv)
  qed
  ultimately show ?thesis
    using assms(1) m by (simp add: new_session_def on_session_def)
qed

lemma new_session_update:
  "new_session C A p i k \<Longrightarrow> q < length (kProxies k) \<Longrightarrow> new_session C A p i (onServerConfigurationUpdate q c k)"
  by (simp add: new_session_def kit_inv_update)
    (simp add: onServerConfigurationUpdate_def addToSplitByTimeout_def Let_def session_at_def parent_of_def update_proxy_def split: option.split)

lemma configure_new: "keeps (new_session C A p i) (configure_session f i)"
proof (rule keepsI)
  fix k :: "'a Kit_scheme"
  assume k: "new_session C A p i k"
  let ?k = "snd (on_session i (op_modify (update_configuration (\<lambda>b. fst (f b)))) k)"
  have "new_session C A p i ?k" using k by (rule new_session_saved) (rule steady_settings)
  moreover have "parent_of i k < length (kProxies ?k)"
    using k by (auto simp: new_session_def kit_inv_def on_session_def split: prod.split)
  ultimately show "new_session C A p i (snd (configure_session f i k))"
    by (auto simp: configure_session_def Let_def split: prod.split option.split) (metis new_session_update snd_conv)+
qed

lemma new_session_proxy:
  "(\<And>x. prChildren (f x) = prChildren x) \<Longrightarrow> (\<And>x. mIsFinished (f x) = mIsFinished x) \<Longrightarrow>
   new_session C A p i (update_proxy q f k) = new_session C A p i k"
  by (simp add: new_session_def kit_inv_proxy)

lemma createSession_new:
  assumes "p \<in> A"
  shows "triple (kit_inv {} {} {} A) (creator_createSession p) (\<lambda>i. new_session {i} A p i) (kit_inv {} {} {} A)"
  unfolding creator_createSession_def
proof (rule triple_bind [OF provide_keeps(2)])
  fix t
  show "triple (kit_inv {} {} {} A) (\<lambda>k. let c = prCreator (proxy_at p k);
         configuration = BeaconConfiguration_from (kOpenKitConfiguration k) (kPrivacyConfiguration k) (crServerId c)
     in case Beacon_new \<lparr>biUseClientIpAddress = crUseClientIpAddress c, biClientIpAddress = crClientIpAddress c,
               biNextSessionID = crSessionId c, biSessionSequenceNumber = crSessionSequenceNumber c,
               biNextPercentageValue = crPercentageValue c, biNextPositiveInt64 = crPositiveInt64 c, biTimestamp = t\<rparr> configuration of
          Inl e \<Rightarrow> (Inl e, k)
        | Inr b \<Rightarrow>
            (Inr (length (kSessions k)),
             update_proxy p (\<lambda>x. x\<lparr>prCreator := c\<lparr>crSessionSequenceNumber := crSessionSequenceNumber c + 1\<rparr>\<rparr>)
               (k\<lparr>kSessions := kSessions k @
                    [(p, Session_new b (crSupplementaryBasicData c) (kCache k) (kReadings k) (kTick k) (kNextObject k))]\<rparr>)))
     (\<lambda>i. new_session {i} A p i) (kit_inv {} {} {} A)"
  proof -
    have "new_session {length (kSessions k)} A p (length (kSessions k))
        (k\<lparr>kSessions := kSessions k @ [(p, Session_new b d c rds u n)]\<rparr>)" if "kit_inv {} {} {} A k" for k b d c rds u n
      by (rule created [OF that assms]) (simp_all add: session_ok_def Session_new_def)
    then show ?thesis
      by (auto simp: triple_def Let_def new_session_proxy split: sum.splits)
  qed
qed

lemma added_to_proxy:
  assumes n: "new_session {i} A p i k" and f: "\<And>x. prChildren (f x) = prChildren x @ [i]" "\<And>x. mIsFinished (f x) = mIsFinished x"
  shows "new_session {} A p i (update_proxy p f k)"
proof -
  have k: "kit_inv {i} {i} {} A k" "Suc i = length (kSessions k)" "parent_of i k = p" "\<not> mIsSessionFinished (session_at i k)"
    using n by (simp_all add: new_session_def)
  then have p: "p < length (kProxies k)" by (auto simp: kit_inv_def)
  have at: "filter (\<lambda>j. j \<noteq> i) (open_sessions q k) = (filter (\<lambda>j. parent_of j k = q \<and> \<not> mIsSessionFinished (session_at j k)) [0..<i])" for q
  proof -
    have "filter (\<lambda>j. j \<noteq> i) (filter P [0..<i]) = filter P [0..<i]" for P by (rule filter_True) simp
    then show ?thesis by (simp add: open_sessions_def k(2) [symmetric] del: filter_filter)
  qed
  have opened: "open_sessions q k = (if q = p then filter (\<lambda>j. j \<noteq> i) (open_sessions q k) @ [i] else filter (\<lambda>j. j \<noteq> i) (open_sessions q k))" for q
    unfolding at using k(3,4) by (simp add: open_sessions_def k(2) [symmetric])
  have c: "prChildren (proxy_at q (update_proxy p f k)) = open_sessions q k" if "q < length (kProxies k)" for q
  proof -
    have "prChildren (proxy_at q (update_proxy p f k)) =
        (if q = p then filter (\<lambda>j. j \<noteq> i) (open_sessions q k) @ [i] else filter (\<lambda>j. j \<noteq> i) (open_sessions q k))"
      using k(1) that p by (simp add: kit_inv_def proxy_at_update f)
    also have "\<dots> = open_sessions q k" by (rule opened [symmetric])
    finally show ?thesis .
  qed
  show ?thesis
    using k p c by (auto simp: new_session_def kit_inv_def proxy_field_update [where g = mIsFinished] f)
qed

lemma added_to_sender:
  "new_session {} A p i k \<Longrightarrow> kit_inv {} {} {} A (k\<lparr>kSendingSessions := queue_put i (kSendingSessions k)\<rparr>)"
  by (auto simp: new_session_def kit_inv_def open_sessions_def session_at_def parent_of_def proxy_at_def queue_put_def)

lemma createAndAssign_keeps:
  assumes "p \<in> A"
  shows "keeps (kit_inv {} {} {} A) (createAndAssignCurrentSession p c u)"
  unfolding createAndAssignCurrentSession_def
proof (rule triple_bind [OF createSession_new [OF assms]])
  fix i
  have never: "triple (new_session {i} A p i) (configure_session f i) (\<lambda>_. new_session {i} A p i) E" for f E
    using configure_new [of "{i}" A p i f] by (auto simp: triple_def configure_session_def Let_def split: prod.splits)
  have never': "triple (new_session {} A p i) (configure_session f i) (\<lambda>_. new_session {} A p i) E" for f E
    using configure_new [of "{}" A p i f] by (auto simp: triple_def configure_session_def Let_def split: prod.splits)
  show "triple (new_session {i} A p i)
     (op_bind (configure_session (\<lambda>b. (bc_setServerConfigurationUpdateCallback True b, None)) i) (\<lambda>_.
     op_bind (op_modify (\<lambda>k. update_proxy p (\<lambda>x. x\<lparr>prChildren := prChildren x @ [i],
         mLastInteractionTime := mSessionStartTime (sBeacon (session_at i k)), mTopLevelActionCount := 0\<rparr>) k)) (\<lambda>_.
     op_bind (if c = NullConfiguration then op_return () else kit_initializeServerConfiguration c i) (\<lambda>_.
     op_bind (if u = NullConfiguration then op_return () else kit_updateServerConfiguration u i) (\<lambda>_.
     op_modify (\<lambda>k. update_proxy p (\<lambda>x. x\<lparr>mCurrentSession := Some i\<rparr>)
       (k\<lparr>kSendingSessions := queue_put i (kSendingSessions k)\<rparr>)))))))
     (\<lambda>_. kit_inv {} {} {} A) (kit_inv {} {} {} A)"
    unfolding kit_initializeServerConfiguration_def kit_updateServerConfiguration_def
    by (rule triple_bind [OF never] triple_bind [where Q = "\<lambda>_. new_session {} A p i"] keeps_if never' triple_return triple_modify |
        simp add: added_to_proxy added_to_sender kit_inv_proxy)+
qed

subsection \<open>Every call keeps the library in order\<close>

lemma closeOrEnqueue_keeps: "keeps (kit_inv X C F A) (closeOrEnqueueForClosing i g)"
  unfolding closeOrEnqueueForClosing_def
  by (intro keeps_bind keeps_if tryEnd_keeps provide_keeps keeps_return keeps_modify steady_keeps steady_settings) simp

lemma closeCurrent_keeps: "keeps (kit_inv X C F A) (closeOrEnqueueCurrentSessionForClosing p)"
proof -
  have "keeps (kit_inv X C F A) (op_bind (current_session p) (\<lambda>i. closeOrEnqueueForClosing i g))" for g
    by (intro keeps_bind current_keeps closeOrEnqueue_keeps)
  then show ?thesis
    by (intro keepsI) (auto simp: closeOrEnqueueCurrentSessionForClosing_def Let_def split: option.split dest: keeps_result)
qed

lemma proxy_modify_keeps:
  "(\<And>x. prChildren (f x) = prChildren x) \<Longrightarrow> (\<And>x. mIsFinished (f x) = mIsFinished x) \<Longrightarrow>
   keeps (kit_inv X C F A) (op_modify (update_proxy p f))"
  by (rule keeps_modify) (simp add: kit_inv_proxy)

lemma identifier_keeps: "keeps (kit_inv X C F A) (updateCurrentSessionIdentifier p)"
  unfolding updateCurrentSessionIdentifier_def
  by (intro keeps_bind current_keeps keeps_modify) (simp add: kit_inv_proxy)

lemma reTag_keeps: "keeps (kit_inv X C F A) (reTagCurrentSession p)"
proof -
  have "keeps (kit_inv X C F A) (op_bind (current_session p) (\<lambda>i. on_session i (session_identifyUser u)))" for u
    by (intro keeps_bind current_keeps steady_keeps steady_reports)
  then show ?thesis by (intro keepsI) (auto simp: reTagCurrentSession_def Let_def dest: keeps_result)
qed

lemma record_keeps: "keeps (kit_inv X C F A) (recordTopLevelEventInteraction p)" "keeps (kit_inv X C F A) (recordTopLevelActionEvent p)"
proof -
  show e: "keeps (kit_inv X C F A) (recordTopLevelEventInteraction p)"
    unfolding recordTopLevelEventInteraction_def by (intro keeps_bind provide_keeps proxy_modify_keeps) simp_all
  show "keeps (kit_inv X C F A) (recordTopLevelActionEvent p)"
    unfolding recordTopLevelActionEvent_def by (intro keeps_bind e proxy_modify_keeps) simp_all
qed

lemma split_keeps:
  assumes "p \<in> A"
  shows "keeps (kit_inv {} {} {} A) (splitAndCreateNewInitialSession p)" "keeps (kit_inv {} {} {} A) (createSplitSessionAndMakeCurrent p c)"
    "keeps (kit_inv {} {} {} A) (createInitialSessionAndMakeCurrent p)" "keeps (kit_inv {} {} {} A) (getOrSplitCurrentSessionByEvents p)"
proof -
  have c: "keeps (kit_inv {} {} {} A) (\<lambda>k. createAndAssignCurrentSession p (f k) (g k) k)" for f g
    by (rule keeps_state) (rule createAndAssign_keeps [OF assms])
  show "keeps (kit_inv {} {} {} A) (splitAndCreateNewInitialSession p)"
    unfolding splitAndCreateNewInitialSession_def
    by (intro keeps_bind closeCurrent_keeps creator_reset_keeps c identifier_keeps reTag_keeps)
  show s: "keeps (kit_inv {} {} {} A) (createSplitSessionAndMakeCurrent p c)" for c
    unfolding createSplitSessionAndMakeCurrent_def
    by (intro keeps_bind createAndAssign_keeps [OF assms] identifier_keeps reTag_keeps)
  show "keeps (kit_inv {} {} {} A) (createInitialSessionAndMakeCurrent p)"
    unfolding createInitialSessionAndMakeCurrent_def by (intro keeps_bind c identifier_keeps)
  have s': "keeps (kit_inv {} {} {} A) (\<lambda>k. createSplitSessionAndMakeCurrent p (f k) k)" for f
    by (rule keeps_state) (rule s)
  show "keeps (kit_inv {} {} {} A) (getOrSplitCurrentSessionByEvents p)"
    unfolding getOrSplitCurrentSessionByEvents_def
    by (rule keeps_state) (intro keeps_bind keeps_if closeCurrent_keeps s' keeps_return current_keeps)
qed

lemma as_event_keeps: "p \<in> A \<Longrightarrow> steady m \<Longrightarrow> keeps (kit_inv {} {} {} A) (as_event p m)"
  unfolding as_event_def by (intro keeps_bind split_keeps(4) record_keeps steady_keeps)

text \<open>The calls on a proxy in use.\<close>

lemma unless_finished_keeps:
  assumes m: "keeps (kit_inv {} {} {} {p}) m" and k: "kit_inv {} {} {} {} k" "p < length (kProxies k)"
  shows "kit_inv {} {} {} {} (snd (unless_finished p a m k))"
proof (cases "mIsFinished (proxy_at p k)")
  case False
  then have "kit_inv {} {} {} {p} k" using k by (simp add: kit_inv_def)
  from keeps_result [OF m this] show ?thesis using False by (simp add: unless_finished_def kit_inv_def)
qed (use k in \<open>simp add: unless_finished_def\<close>)

lemma endSession_effect:
  assumes "session_ok (session_at i k)" and "i < length (kSessions k)"
  shows "\<exists>k'. kit_endSession i b k = (Inr (), k') \<and> mIsSessionFinished (session_at i k') \<and>
    length (kSessions k') = length (kSessions k) \<and> length (kProxies k') = length (kProxies k) \<and>
    (\<forall>j. parent_of j k' = parent_of j k) \<and> (\<forall>q. mIsFinished (proxy_at q k') = mIsFinished (proxy_at q k)) \<and>
    (\<forall>j. j \<noteq> i \<longrightarrow> session_at j k' = session_at j k)"
proof -
  have l: "session_ok (load_session i k)" using assms(1) by (simp add: load_ok)
  obtain told s where s: "session_end b (load_session i k) = (Inr told, s)" "mIsSessionFinished s"
  proof (cases "isFinishingOrFinished (load_session i k)")
    case True
    then show ?thesis using l that [of False "load_session i k"]
      by (auto simp: session_end_def markAsIsFinishing_def op_bind_def op_return_def session_ok_def isFinishingOrFinished_def)
  next
    case False
    then show ?thesis using l session_end_ok [of "load_session i k" b] that by (auto simp: session_ok_def)
  qed
  then show ?thesis using assms(2)
    by (simp add: kit_endSession_def op_bind_def on_session_def tell_parent_def op_return_def proxy_onChildClosed_def op_modify_def
        proxy_field_update [where g = mIsFinished])
qed

lemma end_each:
  assumes "kit_inv X C F A k" and "set xs \<subseteq> {..<length (kSessions k)}"
  shows "\<exists>k'. op_each (\<lambda>i. kit_endSession i (f i)) xs k = (Inr (), k') \<and> kit_inv X C F A k' \<and>
    length (kSessions k') = length (kSessions k) \<and> length (kProxies k') = length (kProxies k) \<and>
    (\<forall>j. parent_of j k' = parent_of j k) \<and> (\<forall>q. mIsFinished (proxy_at q k') = mIsFinished (proxy_at q k)) \<and>
    (\<forall>j. mIsSessionFinished (session_at j k') = (j \<in> set xs \<or> mIsSessionFinished (session_at j k)))"
  using assms
proof (induction xs arbitrary: k)
  case Nil
  then show ?case by (simp add: op_return_def)
next
  case (Cons i xs)
  have "session_ok (session_at i k)" "i < length (kSessions k)" using Cons.prems by (auto simp: kit_inv_def)
  from endSession_effect [OF this, of "f i"] obtain k1 where k1: "kit_endSession i (f i) k = (Inr (), k1)"
    "mIsSessionFinished (session_at i k1)" "length (kSessions k1) = length (kSessions k)" "length (kProxies k1) = length (kProxies k)"
    "\<And>j. parent_of j k1 = parent_of j k" "\<And>q. mIsFinished (proxy_at q k1) = mIsFinished (proxy_at q k)" "\<And>j. j \<noteq> i \<Longrightarrow> session_at j k1 = session_at j k" by blast
  have inv: "kit_inv X C F A k1" using keeps_result [OF endSession_keeps Cons.prems(1), of i "f i"] k1(1) by simp
  have "set xs \<subseteq> {..<length (kSessions k1)}" using Cons.prems(2) k1(3) by simp
  from Cons.IH [OF inv this] obtain k' where k': "op_each (\<lambda>i. kit_endSession i (f i)) xs k1 = (Inr (), k')" "kit_inv X C F A k'"
    "length (kSessions k') = length (kSessions k1)" "length (kProxies k') = length (kProxies k1)"
    "\<And>j. parent_of j k' = parent_of j k1" "\<And>q. mIsFinished (proxy_at q k') = mIsFinished (proxy_at q k1)"
    "\<And>j. mIsSessionFinished (session_at j k') = (j \<in> set xs \<or> mIsSessionFinished (session_at j k1))" by blast
  have "mIsSessionFinished (session_at j k') = (j \<in> set (i # xs) \<or> mIsSessionFinished (session_at j k))" for j
    using k'(7) [of j] k1(2,7) by (cases "j = i") simp_all
  then show ?case using k' k1 by (intro exI [of _ k']) (simp add: op_bind_def)
qed

text \<open>The end of a proxy ends all its open sessions.\<close>

lemma proxy_end_effect:
  assumes k: "kit_inv {} {} {} {} k" and p: "p < length (kProxies k)" "\<not> mIsFinished (proxy_at p k)"
  shows "\<exists>k'. proxy_end p k = (Inr (), k') \<and> kit_inv {} {} {} {} k' \<and> mIsFinished (proxy_at p k') \<and>
     prChildren (proxy_at p k') = [] \<and> mCurrentSession (proxy_at p k') = None \<and>
     length (kSessions k') = length (kSessions k) \<and> length (kProxies k') = length (kProxies k) \<and>
     (\<forall>j. parent_of j k' = parent_of j k) \<and>
     (\<forall>j. mIsSessionFinished (session_at j k') = (j \<in> set (open_sessions p k) \<or> mIsSessionFinished (session_at j k)))"
proof -
  define k1 where "k1 = update_proxy p (\<lambda>x. x\<lparr>mIsFinished := True\<rparr>) k"
  have "prChildren (proxy_at p k1) = open_sessions p k" using k p by (simp add: k1_def kit_inv_def proxy_at_update)
  moreover have i1: "kit_inv {} {} {p} {} k1"
    using k by (auto simp: k1_def kit_inv_def proxy_at_update)
  moreover have "set (open_sessions p k) \<subseteq> {..<length (kSessions k1)}" by (auto simp: open_sessions_def k1_def)
  ultimately obtain k2 where k2: "op_each (\<lambda>i. kit_endSession i (mCurrentSession (proxy_at p k1) = Some i)) (prChildren (proxy_at p k1)) k1 = (Inr (), k2)"
    "kit_inv {} {} {p} {} k2" "length (kSessions k2) = length (kSessions k1)" "length (kProxies k2) = length (kProxies k1)"
    "\<And>j. parent_of j k2 = parent_of j k1" "\<And>q. mIsFinished (proxy_at q k2) = mIsFinished (proxy_at q k1)"
    "\<And>j. mIsSessionFinished (session_at j k2) = (j \<in> set (open_sessions p k) \<or> mIsSessionFinished (session_at j k1))"
    using end_each [OF i1, of "open_sessions p k" "\<lambda>i. mCurrentSession (proxy_at p k1) = Some i"] by auto
  have none: "open_sessions p k2 = []"
  proof -
    have "\<not> (parent_of j k2 = p \<and> \<not> mIsSessionFinished (session_at j k2))" if "j < length (kSessions k2)" for j
      using that k2(3) unfolding k2(5,7) by (auto simp: k1_def open_sessions_def)
    then show ?thesis by (auto simp: open_sessions_def filter_empty_conv)
  qed
  define k3 where "k3 = update_proxy p (\<lambda>x. x\<lparr>mCurrentSession := None\<rparr>) (removeFromSplitByTimeout p (k2\<lparr>kChildren := removeAll p (kChildren k2)\<rparr>))"
  have e: "proxy_end p k = (Inr (), k3)"
    using p(2) k2(1) by (simp add: proxy_end_def unless_finished_def op_bind_def op_modify_def k1_def [symmetric] k3_def)
  have f: "mIsFinished (proxy_at p k2)" using p(1) by (simp add: k2(6) k1_def proxy_at_update)
  have "kit_inv {} {} {} {} k2" using k2(2) none by (auto simp: kit_inv_def)
  then have i3: "kit_inv {} {} {} {} k3" by (simp add: k3_def kit_inv_proxy kit_inv_watchdog kit_inv_child_gone)
  have same: "length (kSessions k3) = length (kSessions k2)" "length (kProxies k3) = length (kProxies k2)"
    "\<And>j. parent_of j k3 = parent_of j k2" "\<And>j. session_at j k3 = session_at j k2"
    "prChildren (proxy_at p k3) = prChildren (proxy_at p k2)" "mIsFinished (proxy_at p k3) = mIsFinished (proxy_at p k2)"
    by (simp_all add: k3_def proxy_field_update [where g = prChildren] proxy_field_update [where g = mIsFinished])
      (simp_all add: removeFromSplitByTimeout_def parent_of_def session_at_def proxy_at_def)
  have "prChildren (proxy_at p k2) = []" using k2(2,4) none p(1) by (simp add: kit_inv_def k1_def)
  moreover have "mCurrentSession (proxy_at p k3) = None"
    using p(1) k2(4) by (simp add: k3_def proxy_at_update removeFromSplitByTimeout_def k1_def)
  ultimately show ?thesis
    using e i3 f by (intro exI [of _ k3]) (simp add: same k2 k1_def)
qed

subsection \<open>The states of the library\<close>

datatype 'd proxy_input =
  Enter "string option"
| Trace "string option"
| Identify "string option"
| Crashed "string option" "string option" "string option"
| BizEvent "string option" "'d JsonObjectMap option"
| NamedEventSent "string option" "'d JsonObjectMap option"
| NetworkTechnology "string option"
| Connection ConnectionType
| Carrier "string option"
| EndProxy
| SplitByTime

text \<open>The calls of the application, a round of the watchdog, and what the sender does with an answer of the server.\<close>

datatype 'd kit_input =
  CreateSession "string option"
| ProxyCall nat "'d proxy_input"
| ObjectCall nat nat node_input
| WatchdogRound
| Shutdown
| ServerAnswer ServerConfigurationPtr int32
| ConfigureSession nat ServerConfigurationPtr

fun proxy_call :: "'d double_ops \<Rightarrow> 'd proxy_input \<Rightarrow> nat \<Rightarrow> ('s, unit) kit_op" where
  "proxy_call fp (Enter name) p = result_lost (proxy_enterAction name p)"
| "proxy_call fp (Trace url) p = result_lost (proxy_traceWebRequest url p)"
| "proxy_call fp (Identify tag) p = proxy_identifyUser tag p"
| "proxy_call fp (Crashed n r st) p = proxy_reportCrash n r st p"
| "proxy_call fp (BizEvent ty m) p = proxy_sendBizEvent fp ty m p"
| "proxy_call fp (NamedEventSent n m) p = proxy_sendEvent fp n m p"
| "proxy_call fp (NetworkTechnology t) p = proxy_reportNetworkTechnology t p"
| "proxy_call fp (Connection c) p = proxy_reportConnectionType c p"
| "proxy_call fp (Carrier c) p = proxy_reportCarrier c p"
| "proxy_call fp EndProxy p = proxy_end p"
| "proxy_call fp SplitByTime p = result_lost (splitSessionByTime p)"

fun kit_step :: "'d double_ops \<Rightarrow> 'd kit_input \<Rightarrow> ('s, unit) kit_op" where
  "kit_step fp (CreateSession ip) = result_lost (openkit_createSession ip)"
| "kit_step fp (ProxyCall p x) = proxy_call fp x p"
| "kit_step fp (ObjectCall i h x) = result_lost (kit_object_call i h (node_call x))"
| "kit_step fp WatchdogRound = result_lost watchdog_execute"
| "kit_step fp Shutdown = openkit_shutdown"
| "kit_step fp (ServerAnswer c n) = op_modify (\<lambda>k. k\<lparr>kServerConfiguration := c, kServerID := n\<rparr>)"
| "kit_step fp (ConfigureSession i c) = kit_updateServerConfiguration c i"

text \<open>Handles are those of existing objects; URLs are valid strings.\<close>

fun proper_call :: "'d kit_input \<Rightarrow> 's Kit_scheme \<Rightarrow> bool" where
  "proper_call (ProxyCall p (Trace url)) k \<longleftrightarrow> p < length (kProxies k) \<and> well_formed (UTF8String_of_ptr url)"
| "proper_call (ProxyCall p x) k \<longleftrightarrow> p < length (kProxies k)"
| "proper_call (ObjectCall i h (TraceRequest url)) k \<longleftrightarrow> well_formed url"
| "proper_call (ConfigureSession i c) k \<longleftrightarrow> i < length (kSessions k)"
| "proper_call x k \<longleftrightarrow> True"

definition Kit_new :: "OpenKitConfiguration \<Rightarrow> PrivacyConfiguration \<Rightarrow> (nat \<Rightarrow> readings) \<Rightarrow> (nat \<Rightarrow> int32 \<times> int64) \<Rightarrow> int32 \<Rightarrow> Kit" where
  "Kit_new ok pc rds draws n =
     \<lparr>kOpenKitConfiguration = ok, kPrivacyConfiguration = pc, kCache = BeaconCache_new, kReadings = rds, kTick = 0, kNextObject = 0,
      kDraws = draws, kNextDraw = 0, mLastSessionNumber = n, kSessions = [], kProxies = [], kChildren = [], mIsShutdown = False,
      mWatchdogIsShutdown = False, mSenderShutdown = False, mSessionsToClose = [], mSessionsToSplitByTimeout = [],
      kSendingSessions = [], kServerConfiguration = DefaultInstance, kServerID = okDefaultServerId ok\<rparr>"

inductive kit_reached :: "'d double_ops \<Rightarrow> Kit \<Rightarrow> bool" for fp where
  initial: "kit_reached fp (Kit_new ok pc rds draws n)"
| step: "kit_reached fp k \<Longrightarrow> proper_call x k \<Longrightarrow> kit_reached fp (snd (kit_step fp x k))"

abbreviation in_order :: "'s Kit_scheme \<Rightarrow> bool" where
  "in_order \<equiv> kit_inv {} {} {} {}"

lemma splitByTime_keeps: "in_order k \<Longrightarrow> p < length (kProxies k) \<Longrightarrow> in_order (snd (splitSessionByTime p k))"
proof (cases "mIsFinished (proxy_at p k)")
  case False
  assume "in_order k" "p < length (kProxies k)"
  then have i: "kit_inv {} {} {} {p} k" using False by (simp add: kit_inv_def)
  have c: "keeps (kit_inv {} {} {} {p}) (calculateNextSplitTime p)"
    by (rule keepsI) (auto simp: calculateNextSplitTime_def current_session_def op_bind_def op_return_def Let_def split: option.split)
  have "keeps (kit_inv {} {} {} {p}) (op_bind (calculateNextSplitTime p) (\<lambda>n. op_bind provideTimestampInMilliseconds (\<lambda>t.
         if sint n < 0 \<or> sint t < sint n then op_return n
         else op_bind (splitAndCreateNewInitialSession p) (\<lambda>_. calculateNextSplitTime p))))"
    by (intro keeps_bind keeps_if c provide_keeps keeps_return split_keeps(1)) simp
  from keeps_result [OF this i] show ?thesis using False by (simp add: splitSessionByTime_def kit_inv_def)
qed (simp add: splitSessionByTime_def)

lemma on_current_keeps: "steady (op_modify f) \<Longrightarrow> keeps (kit_inv X C F A) (on_current p f)"
  by (intro keepsI) (auto simp: on_current_def split: option.split dest: keeps_result [OF steady_keeps])

lemma proxy_call_keeps:
  assumes k: "in_order k" and p: "p < length (kProxies k)" and u: "\<And>url. x = Trace url \<Longrightarrow> well_formed (UTF8String_of_ptr url)"
  shows "in_order (snd (proxy_call fp x p k))"
proof (cases x)
  case (Enter name)
  have m: "keeps (kit_inv {} {} {} {p}) (op_bind (getOrSplitCurrentSessionByEvents p) (\<lambda>i.
      op_bind (\<lambda>k. if isActionReportingAllowedByPrivacySettings (sBeacon (session_at i k))
                        then recordTopLevelActionEvent p k else recordTopLevelEventInteraction p k) (\<lambda>_.
           op_bind (on_session i (session_enterAction (UTF8String_of_ptr name))) (\<lambda>h. op_return (map_option (Pair i) h)))))"
    by (intro keeps_bind split_keeps(4) steady_keeps steady_enter keeps_return keeps_if_state record_keeps) simp
  then show ?thesis using k unless_finished_keeps [OF m k p] Enter by (simp add: proxy_enterAction_def Let_def op_return_def)
next
  case (Trace url)
  have m: "keeps (kit_inv {} {} {} {p}) (op_bind (getOrSplitCurrentSessionByEvents p) (\<lambda>i.
      op_bind (recordTopLevelEventInteraction p) (\<lambda>_.
      op_bind (on_session i (session_traceWebRequest (UTF8String_of_ptr url))) (\<lambda>h. op_return (map_option (Pair i) h)))))"
    by (intro keeps_bind split_keeps(4) steady_keeps steady_trace u [OF Trace] keeps_return record_keeps) simp
  then show ?thesis using k unless_finished_keeps [OF m k p] Trace by (simp add: proxy_traceWebRequest_def Let_def op_return_def)
next
  case (Identify tag)
  have m: "keeps (kit_inv {} {} {} {p}) (op_bind (as_event p (session_identifyUser (UTF8String_of_ptr tag))) (\<lambda>_.
        op_modify (update_proxy p (\<lambda>x. x\<lparr>mLastUserTag := UTF8String_of_ptr tag\<rparr>))))"
    by (intro keeps_bind as_event_keeps steady_reports proxy_modify_keeps) simp_all
  then show ?thesis using unless_finished_keeps [OF m k p] Identify by (simp add: proxy_identifyUser_def)
next
  case (Crashed n r st)
  have m: "keeps (kit_inv {} {} {} {p}) (op_bind (as_event p (session_reportCrash u v w)) (\<lambda>_. splitAndCreateNewInitialSession p))" for u v w
    by (intro keeps_bind as_event_keeps steady_reports split_keeps(1)) simp_all
  then show ?thesis using k unless_finished_keeps [OF m k p] Crashed by (simp add: proxy_reportCrash_def Let_def op_return_def)
next
  case (BizEvent ty m)
  have e: "keeps (kit_inv {} {} {} {p}) (as_event p (session_sendBizEvent fp v m))" for v
    by (rule as_event_keeps [OF _ steady_reports(3)]) simp
  show ?thesis using k unless_finished_keeps [OF e k p] BizEvent
    by (simp add: proxy_sendBizEvent_def op_return_def)
next
  case (NamedEventSent ty m)
  have e: "keeps (kit_inv {} {} {} {p}) (as_event p (session_sendEvent fp v m))" for v
    by (rule as_event_keeps [OF _ steady_reports(4)]) simp
  show ?thesis using k unless_finished_keeps [OF e k p] NamedEventSent
    by (simp add: proxy_sendEvent_def op_return_def)
next
  case EndProxy
  show ?thesis using k proxy_end_effect [OF k p] EndProxy by (cases "mIsFinished (proxy_at p k)") (auto simp: proxy_end_def unless_finished_def)
next
  case SplitByTime
  then show ?thesis using splitByTime_keeps [OF k p] by simp
next
  case (NetworkTechnology t)
  then show ?thesis using k keeps_result [OF on_current_keeps [OF steady_settings(1)] k]
    by (simp add: proxy_reportNetworkTechnology_def op_return_def)
next
  case (Connection c)
  then show ?thesis using keeps_result [OF on_current_keeps [OF steady_settings(2)] k]
    by (simp add: proxy_reportConnectionType_def)
next
  case (Carrier c)
  then show ?thesis using k keeps_result [OF on_current_keeps [OF steady_settings(3)] k]
    by (simp add: proxy_reportCarrier_def op_return_def)
qed

lemma children_in_order: "in_order (k\<lparr>kServerConfiguration := c, kServerID := n\<rparr>) = in_order k"
  by (simp add: kit_inv_def open_sessions_def session_at_def parent_of_def proxy_at_def)

text \<open>A round of the watchdog and the end of the library work on what they find in their lists.\<close>

lemma closeExpired_keeps: "keeps in_order closeExpiredSessions"
proof -
  have c: "keeps in_order (closableSessions xs t cl)" for xs t cl
  proof (induction xs arbitrary: t cl)
    case (Cons i xs)
    show ?case unfolding closableSessions.simps Let_def
      by (rule keeps_bind [OF provide_keeps(2)], rule keeps_state) (auto intro: Cons.IH)
  qed (simp add: keeps_return)
  have c': "keeps in_order (\<lambda>k. closableSessions (queue_toStdVector (mSessionsToClose k)) DEFAULT_SLEEP_TIME_MILLISECONDS [] k)"
    by (rule keeps_state) (rule c)
  have d: "keeps in_order (op_bind (op_modify (dequeueFromClosing i)) (\<lambda>_. kit_endSession i False))" for i
    by (intro keeps_bind keeps_modify endSession_keeps) (simp add: kit_inv_watchdog)
  show ?thesis unfolding closeExpiredSessions_def
    by (rule keeps_bind [OF c']) (auto intro!: keeps_bind keeps_each d keeps_return split: prod.split)
qed

text \<open>Only the library makes proxies.\<close>

definition same_size :: "('s Kit_scheme, 'a) cpp_op \<Rightarrow> bool" where
  "same_size m \<longleftrightarrow> (\<forall>k. length (kProxies (snd (m k))) = length (kProxies k))"

lemma same_size_basic:
  "same_size (op_return a)" "same_size (current_session p)" "same_size kit_provide" "same_size getNextSessionID" "same_size draw"
  "same_size (on_session i n)" "same_size (proxy_onChildClosed i)"
  "(\<And>k. length (kProxies (f k)) = length (kProxies k)) \<Longrightarrow> same_size (op_modify f)"
  by (simp_all add: same_size_def op_return_def current_session_def kit_provide_def getNextSessionID_def Let_def draw_def
      on_session_def proxy_onChildClosed_def op_modify_def split: prod.split)

lemma same_size_bind: "same_size m \<Longrightarrow> (\<And>a. same_size (f a)) \<Longrightarrow> same_size (op_bind m f)"
  by (auto simp: same_size_def op_bind_def split: prod.split sum.split) (metis snd_conv)+

lemma same_size_if: "(b \<Longrightarrow> same_size m) \<Longrightarrow> (\<not> b \<Longrightarrow> same_size m') \<Longrightarrow> same_size (if b then m else m')"
  by simp

lemma same_size_state: "(\<And>k. same_size (f k)) \<Longrightarrow> same_size (\<lambda>k. f k k)"
  by (simp add: same_size_def)

lemma same_size_update [simp]: "length (kProxies (onServerConfigurationUpdate p c k)) = length (kProxies k)"
  by (simp add: onServerConfigurationUpdate_def addToSplitByTimeout_def Let_def split: option.split)

lemma same_size_configure: "same_size (configure_session f i)"
  by (auto simp: same_size_def configure_session_def on_session_def Let_def split: prod.split option.split)

lemmas same_size_intros = same_size_basic same_size_bind same_size_if same_size_configure

lemma same_size_time: "same_size provideTimestampInMilliseconds"
  unfolding provideTimestampInMilliseconds_def by (intro same_size_intros)

lemma same_size_closeCurrent: "same_size (closeOrEnqueueCurrentSessionForClosing p)"
proof -
  have "same_size (op_bind (current_session p) (\<lambda>i. closeOrEnqueueForClosing i g))" for g
    unfolding closeOrEnqueueForClosing_def kit_tryEnd_def tell_parent_def case_prod_unfold
    by (intro same_size_intros same_size_time) simp_all
  then show ?thesis by (auto simp: same_size_def closeOrEnqueueCurrentSessionForClosing_def Let_def split: option.split)
qed

lemma same_size_createSession: "same_size (creator_createSession p)"
  unfolding creator_createSession_def
  by (rule same_size_bind [OF same_size_time]) (auto simp: same_size_def Let_def split: sum.split)

lemma same_size_create: "same_size (createAndAssignCurrentSession p c u)"
  unfolding createAndAssignCurrentSession_def kit_initializeServerConfiguration_def kit_updateServerConfiguration_def
  by (intro same_size_intros same_size_createSession) simp_all

lemma same_size_reset: "same_size (creator_reset p)"
  unfolding creator_reset_def case_prod_unfold by (intro same_size_intros) simp_all

lemma same_size_identifier: "same_size (updateCurrentSessionIdentifier p)"
  unfolding updateCurrentSessionIdentifier_def by (intro same_size_intros) simp_all

lemma same_size_reTag: "same_size (reTagCurrentSession p)"
proof -
  have "same_size (op_bind (current_session p) (\<lambda>i. on_session i m))" for m :: "unit session_op" by (intro same_size_intros)
  then show ?thesis by (auto simp: same_size_def reTagCurrentSession_def Let_def)
qed

lemma same_size_calculate: "same_size (calculateNextSplitTime p)"
  by (auto simp: same_size_def calculateNextSplitTime_def current_session_def op_bind_def op_return_def Let_def split: option.split)

lemma same_size_initial: "same_size (splitAndCreateNewInitialSession p)"
proof -
  have "same_size (\<lambda>k. createAndAssignCurrentSession p (f k) u k)" for f u
    by (rule same_size_state) (rule same_size_create)
  then show ?thesis
    unfolding splitAndCreateNewInitialSession_def
    by (intro same_size_intros same_size_closeCurrent same_size_reset same_size_identifier same_size_reTag)
qed

lemma same_size_split [simp]:
  fixes k :: "'s Kit_scheme"
  shows "length (kProxies (snd (splitSessionByTime p k))) = length (kProxies k)"
proof -
  have "same_size (op_bind (calculateNextSplitTime p) (\<lambda>n. op_bind provideTimestampInMilliseconds (\<lambda>t.
         if sint n < 0 \<or> sint t < sint n then op_return n
         else op_bind (splitAndCreateNewInitialSession p) (\<lambda>_. calculateNextSplitTime p))) :: ('s, int64) kit_op)"
    by (intro same_size_intros same_size_initial same_size_calculate same_size_time)
  then show ?thesis unfolding splitSessionByTime_def by (simp add: same_size_def)
qed

lemma same_size_timestamp [simp]: "length (kProxies (snd (provideTimestampInMilliseconds k))) = length (kProxies k)"
  by (rule same_size_time [unfolded same_size_def, rule_format])

text \<open>The proxies of \<open>B\<close> exist.\<close>

definition with_proxies :: "nat set \<Rightarrow> 's Kit_scheme \<Rightarrow> bool" where
  "with_proxies B k \<longleftrightarrow> in_order k \<and> B \<subseteq> {..<length (kProxies k)}"

lemma splitProxies_keeps: "set ps \<subseteq> B \<Longrightarrow> keeps (with_proxies B) (splitProxies ps t rs :: ('s, int64 \<times> nat list) kit_op)"
proof (induction ps arbitrary: t rs)
  case (Cons p ps)
  have s: "keeps (with_proxies B) (splitSessionByTime p)"
    by (rule keepsI) (use Cons.prems splitByTime_keeps in \<open>auto simp: with_proxies_def\<close>)
  have time: "keeps (with_proxies B) provideTimestampInMilliseconds"
    by (rule keepsI) (use keeps_result [OF provide_keeps(2)] in \<open>auto simp: with_proxies_def\<close>)
  have r: "keeps (with_proxies B) (splitProxies ps t rs :: ('s, int64 \<times> nat list) kit_op)" for t rs
    using Cons by simp
  show ?case unfolding splitProxies.simps Let_def by (intro keeps_bind s keeps_if r time)
qed (simp add: keeps_return)

lemma splitTimedOut_keeps: "keeps in_order splitTimedOutSessions"
proof -
  have remove: "with_proxies B (removeFromSplitByTimeout p k)" if "with_proxies B k" for p B and k :: "'a Kit_scheme"
    using that kit_inv_watchdog(2) [of "{}" "{}" "{}" "{}" k p]
    by (simp add: with_proxies_def) (simp add: removeFromSplitByTimeout_def)
  have "in_order (snd (splitTimedOutSessions k))" if k: "in_order k" for k :: "'a Kit_scheme"
  proof -
    let ?B = "set (mSessionsToSplitByTimeout k)"
    have "with_proxies ?B k" using k by (simp add: with_proxies_def kit_inv_def)
    moreover have "keeps (with_proxies ?B) (op_bind (splitProxies (mSessionsToSplitByTimeout k) DEFAULT_SLEEP_TIME_MILLISECONDS [])
       (\<lambda>(t, toRemove). op_bind (op_each (\<lambda>p. op_modify (removeFromSplitByTimeout p)) toRemove) (\<lambda>_. op_return t)) :: ('a, int64) kit_op)"
      by (auto intro!: keeps_bind splitProxies_keeps keeps_each keeps_modify keeps_return
          simp: remove split: prod.split)
    ultimately show ?thesis
      by (auto dest: keeps_result simp: with_proxies_def splitTimedOutSessions_def op_bind_def queue_toStdVector_def)
  qed
  then show ?thesis by (rule keepsI)
qed

lemma watchdog_keeps: "keeps in_order watchdog_execute"
  unfolding watchdog_execute_def
  by (intro keeps_bind closeExpired_keeps splitTimedOut_keeps keeps_return)

text \<open>A new proxy, and the end of the library.\<close>

lemma new_proxy:
  assumes k: "in_order k" and x: "prChildren x = []" "\<not> mIsFinished x"
  shows "kit_inv {} {} {} {length (kProxies k)} (k\<lparr>kProxies := kProxies k @ [x]\<rparr>)"
proof -
  let ?k = "k\<lparr>kProxies := kProxies k @ [x]\<rparr>"
  have at: "proxy_at q ?k = (if q = length (kProxies k) then x else proxy_at q k)" if "q < Suc (length (kProxies k))" for q
    using that by (auto simp: proxy_at_def nth_append)
  have "open_sessions q ?k = open_sessions q k" for q
    by (simp add: open_sessions_def session_at_def parent_of_def)
  moreover have "open_sessions (length (kProxies k)) k = []"
    using k by (auto simp: open_sessions_def kit_inv_def filter_empty_conv)
  ultimately show ?thesis
    using k x at by (auto simp: kit_inv_def session_at_def parent_of_def less_Suc_eq)
qed

lemma creator_new_keeps: "keeps (kit_inv X C F A) (SessionCreator_new ip)"
  unfolding SessionCreator_new_def
  by (intro keeps_bind provide_keeps) (auto intro!: keeps_bind provide_keeps keeps_Inr split: prod.split)

text \<open>The part of the creation that follows the draws.\<close>

definition make_proxy :: "SessionCreator \<Rightarrow> nat \<Rightarrow> ('s, nat option) kit_op" where
  "make_proxy creator p =
     op_bind (op_modify (\<lambda>k. k\<lparr>kProxies := kProxies k @
           [\<lparr>prCreator = creator, prChildren = [], mCurrentSession = None, mCurrentSessionIdentifier = (-1, -1),
             mTopLevelActionCount = 0, mLastInteractionTime = 0, mServerConfiguration = None, mIsFinished = False,
             mLastUserTag = UTF8String_empty\<rparr>]\<rparr>)) (\<lambda>_.
         op_bind (createInitialSessionAndMakeCurrent p) (\<lambda>_.
         op_bind (op_modify (\<lambda>k. k\<lparr>kChildren := kChildren k @ [p]\<rparr>)) (\<lambda>_.
         op_return (Some p))))"

lemma openkit_createSession_parts:
  "openkit_createSession ip = (\<lambda>k. if mIsShutdown k then (Inr None, k)
     else op_bind (SessionCreator_new ip) (\<lambda>creator k. make_proxy creator (length (kProxies k)) k) k)"
  unfolding openkit_createSession_def make_proxy_def Let_def by (rule refl)

lemma new_child_listed: "p \<in> A \<Longrightarrow> kit_inv {} {} {} A k \<Longrightarrow> kit_inv {} {} {} A (k\<lparr>kChildren := kChildren k @ [p]\<rparr>)"
  by (simp add: kit_inv_def open_sessions_def session_at_def parent_of_def proxy_at_def)

lemma make_proxy_keeps: "in_order k \<Longrightarrow> p = length (kProxies k) \<Longrightarrow> in_order (snd (make_proxy creator p k))"
proof -
  assume k: "in_order k" and p: "p = length (kProxies k)"
  have "triple (\<lambda>k'. k' = k) (make_proxy creator p) (\<lambda>_. kit_inv {} {} {} {p}) (kit_inv {} {} {} {p})"
    unfolding make_proxy_def
  proof (rule triple_bind [where Q = "\<lambda>_. kit_inv {} {} {} {p}"])
    show "keeps (kit_inv {} {} {} {p}) (op_bind (createInitialSessionAndMakeCurrent p) (\<lambda>_.
         op_bind (op_modify (\<lambda>k. k\<lparr>kChildren := kChildren k @ [p]\<rparr>)) (\<lambda>_. op_return (Some p))))"
      by (intro keeps_bind split_keeps(3) keeps_modify keeps_return new_child_listed) simp_all
  qed (auto intro!: triple_modify simp: p new_proxy [OF k])
  then have "kit_inv {} {} {} {p} (snd (make_proxy creator p k))"
    by (auto simp: triple_def split: prod.splits sum.splits)
  then show ?thesis by (simp add: kit_inv_def)
qed

lemma createSession_keeps: "keeps in_order (openkit_createSession ip)"
proof -
  have "keeps in_order (op_bind (SessionCreator_new ip) (\<lambda>creator k. make_proxy creator (length (kProxies k)) k))"
    by (intro keeps_bind creator_new_keeps keepsI make_proxy_keeps refl)
  then show ?thesis
    unfolding openkit_createSession_parts by (auto intro!: keepsI dest: keeps_result)
qed

lemma proxy_end_keeps: "in_order k \<Longrightarrow> p < length (kProxies k) \<Longrightarrow> in_order (snd (proxy_end p k)) \<and> length (kProxies (snd (proxy_end p k))) = length (kProxies k)"
  using proxy_end_effect [of k p] by (cases "mIsFinished (proxy_at p k)") (auto simp: proxy_end_def unless_finished_def)

lemma shutdown_keeps: "keeps in_order openkit_shutdown"
proof -
  have "in_order (snd (openkit_shutdown k))" if k: "in_order k" for k :: "'a Kit_scheme"
  proof -
    let ?B = "set (kChildren k)"
    have "keeps (with_proxies ?B) (proxy_end p :: ('a, unit) kit_op)" if "p \<in> ?B" for p
      by (rule keepsI) (use that in \<open>auto simp: with_proxies_def proxy_end_keeps subset_iff\<close>)
    then have "keeps (with_proxies ?B) (op_bind (op_modify (\<lambda>k. k\<lparr>mIsShutdown := True\<rparr>)) (\<lambda>_.
       op_bind (op_each proxy_end (kChildren k)) (\<lambda>_.
       op_bind (op_modify watchdog_requestShutdown) (\<lambda>_.
       op_modify (\<lambda>k. k\<lparr>mSenderShutdown := True\<rparr>)))) :: ('a, unit) kit_op)"
      by (intro keeps_bind keeps_each keeps_modify) (simp_all add: with_proxies_def watchdog_requestShutdown_def)
    moreover have "with_proxies ?B k" using k by (simp add: with_proxies_def kit_inv_def)
    ultimately show ?thesis using k by (auto dest: keeps_result simp: openkit_shutdown_def with_proxies_def)
  qed
  then show ?thesis by (rule keepsI)
qed

lemma kit_step_keeps:
  assumes k: "in_order k" and x: "proper_call x k"
  shows "in_order (snd (kit_step fp x k))"
proof (cases x)
  case (CreateSession ip)
  then show ?thesis using keeps_result [OF createSession_keeps k] by simp
next
  case (ProxyCall p y)
  then have "p < length (kProxies k)" "\<And>url. y = Trace url \<Longrightarrow> well_formed (UTF8String_of_ptr url)"
    using x by (cases y; simp)+
  from proxy_call_keeps [OF k this] show ?thesis using ProxyCall by simp
next
  case (ObjectCall i h y)
  then have "proper_input (OnObject i y :: 'd session_input)" using x by (cases y) simp_all
  from keeps_result [OF object_call_keeps [OF node_call_live [OF this] node_call_frames] k]
  show ?thesis using ObjectCall by simp
next
  case WatchdogRound
  then show ?thesis using keeps_result [OF watchdog_keeps k] by simp
next
  case Shutdown
  then show ?thesis using keeps_result [OF shutdown_keeps k] by simp
next
  case (ServerAnswer c n)
  then show ?thesis using k by (simp add: children_in_order op_modify_def)
next
  case (ConfigureSession i c)
  then show ?thesis using configure_inv [OF k] x by (simp add: kit_updateServerConfiguration_def)
qed

lemma reached_in_order: "kit_reached fp k \<Longrightarrow> in_order k"
proof (induction rule: kit_reached.induct)
  case (initial ok pc rds draws n)
  then show ?case by (simp add: Kit_new_def kit_inv_def)
qed (rule kit_step_keeps)

subsection \<open>A new proxy, and a crash before the server has answered\<close>

lemma creator_without_address:
  "\<exists>cr k'. SessionCreator_new None k = (Inr cr, k') \<and> \<not> crUseClientIpAddress cr \<and> kProxies k' = kProxies k \<and>
     kSessions k' = kSessions k \<and> kServerConfiguration k' = kServerConfiguration k"
  by (cases "kDraws k (kNextDraw k)")
    (simp add: SessionCreator_new_def getNextSessionID_def draw_def Let_def op_bind_def)

text \<open>Two states of a proxy that differ in its creator.\<close>

definition same_proxy :: "SessionProxy \<Rightarrow> SessionProxy \<Rightarrow> bool" where
  "same_proxy x y \<longleftrightarrow> mServerConfiguration y = mServerConfiguration x \<and> mIsFinished y = mIsFinished x \<and>
     mCurrentSession y = mCurrentSession x"

lemma same_proxy_trans: "same_proxy x y \<Longrightarrow> same_proxy y z \<Longrightarrow> same_proxy x z"
  by (simp add: same_proxy_def)

lemma same_proxy_update: "(\<And>x. same_proxy x (f x)) \<Longrightarrow> same_proxy (proxy_at q k) (proxy_at q (update_proxy p f k))"
  by (auto simp: proxy_at_update) (simp_all add: same_proxy_def)

lemma same_proxy_save: "same_proxy (proxy_at q k) (proxy_at q (save_session i s k))"
proof -
  let ?k = "k\<lparr>kSessions := (kSessions k)[i := (parent_of i k, s)], kCache := sCache s, kTick := sTick s, kNextObject := sNextObject s\<rparr>"
  have "same_proxy (proxy_at q ?k) (proxy_at q (save_session i s k))"
    unfolding save_session_def by (rule same_proxy_update) (simp add: same_proxy_def)
  then show ?thesis by (simp add: proxy_at_def)
qed

lemma session_without_address:
  assumes "\<not> crUseClientIpAddress (prCreator (proxy_at p k))" and "p < length (kProxies k)"
  shows "\<exists>k'. creator_createSession p k = (Inr (length (kSessions k)), k') \<and> length (kSessions k') = Suc (length (kSessions k)) \<and>
     length (kProxies k') = length (kProxies k) \<and> parent_of (length (kSessions k)) k' = p \<and>
     same_proxy (proxy_at p k) (proxy_at p k')"
  using assms
  by (simp add: creator_createSession_def provideTimestampInMilliseconds_def kit_provide_def op_bind_def op_return_def Let_def
      Beacon_new_def proxy_at_update)
    (simp add: parent_of_def update_proxy_def proxy_at_def same_proxy_def)

lemma configure_quiet:
  assumes "\<And>b. snd (f b) = None"
  shows "\<exists>k'. configure_session f i k = (Inr (), k') \<and> length (kSessions k') = length (kSessions k) \<and>
     length (kProxies k') = length (kProxies k) \<and> same_proxy (proxy_at p k) (proxy_at p k')"
  using assms
  by (simp add: configure_session_def on_session_def op_modify_def Let_def case_prod_unfold same_proxy_save)

lemma initialize_quiet:
  "\<exists>k'. kit_initializeServerConfiguration DefaultInstance i k = (Inr (), k') \<and> length (kSessions k') = length (kSessions k) \<and>
     length (kProxies k') = length (kProxies k) \<and> same_proxy (proxy_at p k) (proxy_at p k')"
  unfolding kit_initializeServerConfiguration_def
  by (rule configure_quiet) (simp add: bc_initializeServerConfiguration_def)

lemma first_session:
  assumes a: "\<not> crUseClientIpAddress (prCreator (proxy_at p k))" and p: "p < length (kProxies k)"
  shows "\<exists>k'. createAndAssignCurrentSession p DefaultInstance NullConfiguration k = (Inr (), k') \<and>
     length (kProxies k') = length (kProxies k) \<and> same_proxy ((proxy_at p k)\<lparr>mCurrentSession := Some (length (kSessions k))\<rparr>) (proxy_at p k')"
proof -
  let ?i = "length (kSessions k)"
  obtain k1 where k1: "creator_createSession p k = (Inr ?i, k1)" "length (kProxies k1) = length (kProxies k)"
    "same_proxy (proxy_at p k) (proxy_at p k1)"
    using session_without_address [OF a p] by blast
  obtain k2 where k2: "configure_session (\<lambda>b. (bc_setServerConfigurationUpdateCallback True b, None)) ?i k1 = (Inr (), k2)"
    "length (kProxies k2) = length (kProxies k1)" "same_proxy (proxy_at p k1) (proxy_at p k2)"
    using configure_quiet [of "\<lambda>b. (bc_setServerConfigurationUpdateCallback True b, None)" ?i k1 p] by auto
  define k3 where "k3 = update_proxy p (\<lambda>x. x\<lparr>prChildren := prChildren x @ [?i],
         mLastInteractionTime := mSessionStartTime (sBeacon (session_at ?i k2)), mTopLevelActionCount := 0\<rparr>) k2"
  have k3: "length (kProxies k3) = length (kProxies k2)" "same_proxy (proxy_at p k2) (proxy_at p k3)"
    unfolding k3_def by (simp, rule same_proxy_update) (simp add: same_proxy_def)
  obtain k4 where k4: "kit_initializeServerConfiguration DefaultInstance ?i k3 = (Inr (), k4)"
    "length (kProxies k4) = length (kProxies k3)" "same_proxy (proxy_at p k3) (proxy_at p k4)"
    using initialize_quiet [of ?i k3 p] by auto
  define k5 where "k5 = update_proxy p (\<lambda>x. x\<lparr>mCurrentSession := Some ?i\<rparr>) (k4\<lparr>kSendingSessions := queue_put ?i (kSendingSessions k4)\<rparr>)"
  have "createAndAssignCurrentSession p DefaultInstance NullConfiguration k = (Inr (), k5)"
    by (simp add: createAndAssignCurrentSession_def op_bind_def k1(1) k2(1) op_modify_def k3_def [symmetric] k4(1) op_return_def k5_def)
  moreover have "proxy_at p k5 = (proxy_at p k4)\<lparr>mCurrentSession := Some ?i\<rparr>"
    using p k1(2) k2(2) k3(1) k4(2) by (simp add: k5_def proxy_at_def update_proxy_def)
  moreover have "length (kProxies k5) = length (kProxies k4)" by (simp add: k5_def)
  ultimately show ?thesis
    using k1 k2 k3 k4 by (auto simp: same_proxy_def)
qed

lemma new_sessions_proxy:
  assumes "\<not> mIsShutdown k" and "kServerConfiguration k = DefaultInstance"
  shows "\<exists>k'. openkit_createSession None k = (Inr (Some (length (kProxies k))), k') \<and>
     length (kProxies k') = Suc (length (kProxies k)) \<and>
     mServerConfiguration (proxy_at (length (kProxies k)) k') = None \<and> \<not> mIsFinished (proxy_at (length (kProxies k)) k') \<and>
     mCurrentSession (proxy_at (length (kProxies k)) k') = Some (length (kSessions k))"
proof -
  let ?p = "length (kProxies k)"
  obtain cr k1 where k1: "SessionCreator_new None k = (Inr cr, k1)" "\<not> crUseClientIpAddress cr" "kProxies k1 = kProxies k"
     "kSessions k1 = kSessions k" "kServerConfiguration k1 = kServerConfiguration k"
    using creator_without_address [of k] by blast
  define x where "x = \<lparr>prCreator = cr, prChildren = [], mCurrentSession = None, mCurrentSessionIdentifier = (-1, -1),
             mTopLevelActionCount = 0, mLastInteractionTime = 0, mServerConfiguration = None, mIsFinished = False,
             mLastUserTag = UTF8String_empty\<rparr>"
  define k2 where "k2 = k1\<lparr>kProxies := kProxies k1 @ [x]\<rparr>"
  have at: "proxy_at ?p k2 = x" "length (kProxies k2) = Suc ?p" "kServerConfiguration k2 = DefaultInstance" "kSessions k2 = kSessions k"
    by (simp_all add: k2_def k1 proxy_at_def assms)
  have p: "length (kProxies k1) = ?p" by (simp add: k1)
  obtain k3 where k3: "createAndAssignCurrentSession ?p DefaultInstance NullConfiguration k2 = (Inr (), k3)"
    "length (kProxies k3) = Suc ?p" "same_proxy (x\<lparr>mCurrentSession := Some (length (kSessions k))\<rparr>) (proxy_at ?p k3)"
    using first_session [of ?p k2] by (auto simp: at x_def k1)
  obtain k4 where k4: "updateCurrentSessionIdentifier ?p k3 = (Inr (), k4)" "length (kProxies k4) = Suc ?p"
    "same_proxy (proxy_at ?p k3) (proxy_at ?p k4)"
    using k3 by (auto simp: updateCurrentSessionIdentifier_def op_bind_def current_session_def op_modify_def same_proxy_def x_def proxy_at_update)
  have "openkit_createSession None k = (Inr (Some ?p), k4\<lparr>kChildren := kChildren k4 @ [?p]\<rparr>)"
    using assms by (simp add: openkit_createSession_parts make_proxy_def op_bind_def k1(1,5) p op_modify_def x_def [symmetric]
        k2_def [symmetric] createInitialSessionAndMakeCurrent_def at k3 k4 op_return_def)
  then show ?thesis
    using k3 k4 by (auto simp: same_proxy_def x_def proxy_at_def)
qed

lemma crash_reported:
  assumes "\<not> utf8_isEmpty u"
  shows "\<exists>k'. on_session i (session_reportCrash u v w) k = (Inr (), k') \<and> same_proxy (proxy_at p k) (proxy_at p k')"
proof -
  have "\<exists>s'. session_reportCrash u v w s = (Inr (), s')" for s
    using assms by (simp add: session_reportCrash_def while_open_def beacon_do_def provide_def op_bind_def beacon_reportCrash_def Let_def
      split: prod.split)
  then show ?thesis by (auto simp: on_session_def same_proxy_save split: prod.split) (metis Inr_not_Inl prod.inject same_proxy_save)
qed

lemma crash_unconfigured:
  assumes "\<not> utf8_isEmpty (UTF8String_of_ptr errorName)" and "p < length (kProxies k)"
    and "mServerConfiguration (proxy_at p k) = None" and "\<not> mIsFinished (proxy_at p k)" and "mCurrentSession (proxy_at p k) = Some i"
  shows "fst (proxy_reportCrash errorName reason stacktrace p k) = Inl (UndefinedBehaviour ''null pointer dereferenced'')"
proof -
  obtain k1 where k1: "recordTopLevelEventInteraction p k = (Inr (), k1)" "same_proxy (proxy_at p k) (proxy_at p k1)"
    by (simp add: recordTopLevelEventInteraction_def provideTimestampInMilliseconds_def kit_provide_def op_bind_def op_return_def
        op_modify_def proxy_at_update) (simp add: same_proxy_def proxy_at_def)
  obtain k2 where k2: "on_session i (session_reportCrash (UTF8String_of_ptr errorName) (UTF8String_of_ptr reason) (UTF8String_of_ptr stacktrace)) k1 = (Inr (), k2)"
    "same_proxy (proxy_at p k1) (proxy_at p k2)"
    using crash_reported [OF assms(1)] by blast
  have "mServerConfiguration (proxy_at p k2) = None" using assms(3) k1(2) k2(2) by (simp add: same_proxy_def)
  then show ?thesis
    using assms by (simp add: proxy_reportCrash_def Let_def unless_finished_def as_event_def getOrSplitCurrentSessionByEvents_def
        isSessionSplitByEventsRequired_def op_bind_def op_return_def current_session_def k1(1) k2(1)
        splitAndCreateNewInitialSession_def closeOrEnqueueCurrentSessionForClosing_def)
qed

subsection \<open>Properties\<close>

text \<open>C8: Whatever the application calls, in any order with rounds of the watchdog and answers of the
  server: a proxy's children are exactly its sessions that have not ended, in the order of their creation,
  a proxy that has ended has none, and the sender knows of every session that has not ended.\<close>

theorem proxies_track_sessions:
  assumes "kit_reached fp k"
  shows "(\<forall>p<length (kProxies k). prChildren (proxy_at p k) = open_sessions p k \<and>
      (mIsFinished (proxy_at p k) \<longrightarrow> open_sessions p k = [])) \<and>
    (\<forall>i<length (kSessions k). mIsSessionFinished (session_at i k) \<or> i \<in> set (kSendingSessions k))"
  using reached_in_order [OF assms] by (auto simp: kit_inv_def)

definition sample_kit :: "OpenKitConfiguration \<Rightarrow> PrivacyConfiguration \<Rightarrow> Kit" where
  "sample_kit ok pc = Kit_new ok pc (\<lambda>_. sample_readings) (\<lambda>n. (7, word_of_nat n)) 0"

lemma sample_kit_ready: "\<not> mIsShutdown (sample_kit ok pc)" "kServerConfiguration (sample_kit ok pc) = DefaultInstance"
  "kProxies (sample_kit ok pc) = []" "kSessions (sample_kit ok pc) = []"
  by (simp_all add: sample_kit_def Kit_new_def)

lemma sample_proxy:
  "kit_reached fp (snd (kit_step fp (CreateSession None) (sample_kit ok pc)))"
  "snd (kit_step fp (CreateSession None) (sample_kit ok pc)) = snd (openkit_createSession None (sample_kit ok pc))"
  "length (kProxies (snd (openkit_createSession None (sample_kit ok pc)))) = 1"
  "\<not> mIsFinished (proxy_at 0 (snd (openkit_createSession None (sample_kit ok pc))))"
  "mCurrentSession (proxy_at 0 (snd (openkit_createSession None (sample_kit ok pc)))) = Some 0"
proof -
  show "kit_reached fp (snd (kit_step fp (CreateSession None) (sample_kit ok pc)))"
    unfolding sample_kit_def by (rule kit_reached.step [OF kit_reached.initial]) simp
  show "snd (kit_step fp (CreateSession None) (sample_kit ok pc)) = snd (openkit_createSession None (sample_kit ok pc))"
    by (simp add: result_lost_def op_bind_def op_return_def split: prod.split sum.split)
  show "length (kProxies (snd (openkit_createSession None (sample_kit ok pc)))) = 1"
    "\<not> mIsFinished (proxy_at 0 (snd (openkit_createSession None (sample_kit ok pc))))"
    "mCurrentSession (proxy_at 0 (snd (openkit_createSession None (sample_kit ok pc)))) = Some 0"
    using new_sessions_proxy [OF sample_kit_ready(1,2), of ok pc] by (auto simp: sample_kit_ready)
qed

lemma proxies_track_sessions_witness:
  "\<forall>(fp :: unit double_ops) ok pc. prChildren (proxy_at 0 (snd (kit_step fp (CreateSession None) (sample_kit ok pc)))) =
     open_sessions 0 (snd (kit_step fp (CreateSession None) (sample_kit ok pc)))"
  using proxies_track_sessions [OF sample_proxy(1)] sample_proxy(2,3) by simp

lemma ended_call:
  assumes "mIsFinished (proxy_at p k)" and "mCurrentSession (proxy_at p k) = None"
  shows "proxy_call fp x p k = (Inr (), k)"
  using assms
  by (cases x)
    (simp_all add: result_lost_def op_bind_def op_return_def unless_finished_def on_current_def splitSessionByTime_def Let_def
      proxy_enterAction_def proxy_traceWebRequest_def proxy_identifyUser_def proxy_reportCrash_def proxy_sendBizEvent_def
      proxy_sendEvent_def proxy_reportNetworkTechnology_def proxy_reportConnectionType_def proxy_reportCarrier_def proxy_end_def)

text \<open>C9: The end of a proxy, of whatever history: the call returns, ends every open session of the proxy and no
  session of another proxy, and leaves the proxy without children or a current session; after it no call on the
  proxy throws or changes anything.\<close>

theorem proxy_end_complete:
  assumes "kit_reached fp k" and "p < length (kProxies k)" and "\<not> mIsFinished (proxy_at p k)"
  shows "\<exists>k'. proxy_end p k = (Inr (), k') \<and> mIsFinished (proxy_at p k') \<and> prChildren (proxy_at p k') = [] \<and>
     mCurrentSession (proxy_at p k') = None \<and>
     (\<forall>j<length (kSessions k). mIsSessionFinished (session_at j k') = (parent_of j k = p \<or> mIsSessionFinished (session_at j k))) \<and>
     (\<forall>x. proxy_call fp x p k' = (Inr (), k'))"
proof -
  obtain k' where k': "proxy_end p k = (Inr (), k')" "mIsFinished (proxy_at p k')" "prChildren (proxy_at p k') = []"
    "mCurrentSession (proxy_at p k') = None"
    "\<forall>j. mIsSessionFinished (session_at j k') = (j \<in> set (open_sessions p k) \<or> mIsSessionFinished (session_at j k))"
    using proxy_end_effect [OF reached_in_order [OF assms(1)] assms(2,3)] by auto
  have "proxy_call fp x p k' = (Inr (), k')" for x
    by (rule ended_call [OF k'(2,4)])
  then show ?thesis using k' by (auto simp: open_sessions_def)
qed

lemma proxy_end_complete_witness:
  "\<forall>(fp :: unit double_ops) ok pc. \<exists>k'. proxy_end 0 (snd (kit_step fp (CreateSession None) (sample_kit ok pc))) = (Inr (), k') \<and>
     mIsFinished (proxy_at 0 k')"
  using proxy_end_complete [OF sample_proxy(1)] sample_proxy(2,3,4) by fastforce

text \<open>C15: A crash reported before the server has answered: in a library that has no configuration from the server, the
  first crash reported on a new proxy dereferences a null pointer, after the crash has been recorded.\<close>

theorem crash_before_configuration:
  assumes "\<not> mIsShutdown k" and "kServerConfiguration k = DefaultInstance" and "\<not> utf8_isEmpty (UTF8String_of_ptr errorName)"
  shows "\<exists>k'. openkit_createSession None k = (Inr (Some (length (kProxies k))), k') \<and>
     fst (proxy_reportCrash errorName reason stacktrace (length (kProxies k)) k') = Inl (UndefinedBehaviour ''null pointer dereferenced'')"
proof -
  obtain k' where k': "openkit_createSession None k = (Inr (Some (length (kProxies k))), k')" "length (kProxies k') = Suc (length (kProxies k))"
     "mServerConfiguration (proxy_at (length (kProxies k)) k') = None" "\<not> mIsFinished (proxy_at (length (kProxies k)) k')"
     "mCurrentSession (proxy_at (length (kProxies k)) k') = Some (length (kSessions k))"
    using new_sessions_proxy [OF assms(1,2)] by blast
  then show ?thesis
    using crash_unconfigured [OF assms(3) _ k'(3-5), of reason stacktrace] by (intro exI [of _ k']) simp
qed

lemma crash_before_configuration_witness:
  "\<forall>ok pc. \<exists>k'. openkit_createSession None (sample_kit ok pc) = (Inr (Some 0), k') \<and>
     fst (proxy_reportCrash (Some ''crash'') None None 0 k') = Inl (UndefinedBehaviour ''null pointer dereferenced'')"
proof (intro allI)
  fix ok pc
  have "\<not> utf8_isEmpty (UTF8String_of_ptr (Some ''crash''))" by code_simp
  from crash_before_configuration [OF sample_kit_ready(1,2) this, of ok pc None None]
  show "\<exists>k'. openkit_createSession None (sample_kit ok pc) = (Inr (Some 0), k') \<and>
     fst (proxy_reportCrash (Some ''crash'') None None 0 k') = Inl (UndefinedBehaviour ''null pointer dereferenced'')"
    by (simp add: sample_kit_ready)
qed

end
