(* ===== verification/Beacon_Sender.thy ===== *)
theory Beacon_Sender
  imports Proxy_Facts
begin

text \<open>
  The sender (src/core/communication, src/core/BeaconSender.cxx): a thread with a context and a state
  machine that asks the server for its configuration, sends the data of the sessions and flushes them at
  the end. The context extends the library object with what only the sender's thread changes. The HTTP
  client is the interface \<^verbatim>\<open>IHTTPClient\<close>; the other threads run while the sender sleeps, and all they do
  in that time is a parameter.
\<close>

subsection \<open>Operations that may not return\<close>

text \<open>The loop of the initial state and the one that sends a beacon may run for ever: \<open>None\<close>.\<close>

type_synonym ('s, 'a) run = "'s \<Rightarrow> ((cpp_exception + 'a) \<times> 's) option"

definition run_op :: "('s, 'a) cpp_op \<Rightarrow> ('s, 'a) run" where
  "run_op m = (\<lambda>s. Some (m s))"

definition run_bind :: "('s, 'a) run \<Rightarrow> ('a \<Rightarrow> ('s, 'b) run) \<Rightarrow> ('s, 'b) run" where
  "run_bind m f = (\<lambda>s. case m s of None \<Rightarrow> None | Some (Inl e, s') \<Rightarrow> Some (Inl e, s') | Some (Inr a, s') \<Rightarrow> f a s')"

primrec run_each :: "('a \<Rightarrow> ('s, unit) run) \<Rightarrow> 'a list \<Rightarrow> ('s, unit) run" where
  "run_each f [] = run_op (op_return ())"
| "run_each f (x # xs) = run_bind (f x) (\<lambda>_. run_each f xs)"

subsection \<open>State\<close>

datatype SendingState =
  InitialState
| CaptureOnState
| CaptureOffState int64
| FlushSessionsState
| TerminalState

text \<open>The shutdown flag, the sessions and the server configuration of the context are in the library object.\<close>

record 'w Sender = Kit +
  mSendingState :: SendingState
  mNextSendingState :: "SendingState option"
  mInitSucceeded :: bool
  mInitCountdown :: "32 word"
  mSenderHTTPConfiguration :: HTTPClientConfiguration
  mLastStatusCheckTime :: int64
  mLastOpenSessionBeaconSendTime :: int64
  mLastResponseAttributes :: ResponseAttributes
  mWorld :: 'w

text \<open>The additional parameters of a request are the configuration's timestamp. A null pointer is no response.\<close>

record 'w IHTTPClient =
  vSendStatusRequest :: "int64 \<Rightarrow> 'w \<Rightarrow> (cpp_exception + StatusResponse option) \<times> 'w"
  vSendNewSessionRequest :: "int64 \<Rightarrow> 'w \<Rightarrow> (cpp_exception + StatusResponse option) \<times> 'w"
  vSendBeaconRequest :: "UTF8String \<Rightarrow> UTF8String \<Rightarrow> int64 \<Rightarrow> int32 \<Rightarrow> int64 \<Rightarrow> 'w \<Rightarrow> (cpp_exception + StatusResponse option) \<times> 'w"

text \<open>The provider of clients never gives a null pointer, so the check of \<^verbatim>\<open>BeaconSendingRequestUtil\<close> has no effect.\<close>

record 'w sender_env =
  createClient :: "HTTPClientConfiguration \<Rightarrow> 'w IHTTPClient"
  threadSleep :: "int64 \<Rightarrow> 'w Sender \<Rightarrow> 'w Sender"

type_synonym ('w, 'a) sender_op = "('w Sender, 'a) cpp_op"

text \<open>The clients the library makes.\<close>

definition client_call ::
    "HTTPClientConfiguration \<Rightarrow> (HTTPClient \<Rightarrow> 'w \<Rightarrow> (cpp_exception + StatusResponse) \<times> HTTPClient \<times> 'w) \<Rightarrow>
     'w \<Rightarrow> (cpp_exception + StatusResponse option) \<times> 'w" where
  "client_call c f w =
     (let (r, _, w') = f (HTTPClient_new (hcBaseURL c) (hcApplicationID c) (hcServerID c)) w
      in (map_sum id Some r, w'))"

definition DefaultHTTPClientProvider_createClient ::
    "'d double_ops \<Rightarrow> 'w http_env \<Rightarrow> HTTPClientConfiguration \<Rightarrow> 'w IHTTPClient" where
  "DefaultHTTPClientProvider_createClient fp env c =
     \<lparr>vSendStatusRequest = (\<lambda>t. client_call c (sendStatusRequest fp env t)),
      vSendNewSessionRequest = (\<lambda>t. client_call c (sendNewSessionRequest fp env t)),
      vSendBeaconRequest = (\<lambda>ip chunk t sn d. client_call c (Http_Transfer.sendBeaconRequest fp env ip chunk t sn d))\<rparr>"

subsection \<open>The context\<close>

definition isSuccessfulResponse :: "StatusResponse option \<Rightarrow> bool" where
  "isSuccessfulResponse response = (case response of None \<Rightarrow> False | Some r \<Rightarrow> \<not> Response_Parsing.isErroneousResponse r)"

definition tooManyRequests :: "StatusResponse option \<Rightarrow> bool" where
  "tooManyRequests response = (case response of None \<Rightarrow> False | Some r \<Rightarrow> isTooManyRequestsResponse r)"

definition retryAfter :: "StatusResponse option \<Rightarrow> int64" where
  "retryAfter response = (case response of None \<Rightarrow> 0 | Some r \<Rightarrow> getRetryAfterInMilliseconds r)"

definition SENDER_SLEEP_TIME_MILLISECONDS :: int64 where "SENDER_SLEEP_TIME_MILLISECONDS = 1000"

definition context_sleep :: "'w sender_env \<Rightarrow> int64 \<Rightarrow> ('w, unit) sender_op" where
  "context_sleep env ms = op_modify (threadSleep env ms)"

definition setNextState :: "SendingState \<Rightarrow> 'w Sender \<Rightarrow> 'w Sender" where
  "setNextState nextState s = s\<lparr>mNextSendingState := Some nextState\<rparr>"

definition setInitCompleted :: "bool \<Rightarrow> 'w Sender \<Rightarrow> 'w Sender" where
  "setInitCompleted success s = s\<lparr>mInitSucceeded := success, mInitCountdown := mInitCountdown s - 1\<rparr>"

definition sender_requestShutdown :: "'w Sender \<Rightarrow> 'w Sender" where
  "sender_requestShutdown s = s\<lparr>mSenderShutdown := True\<rparr>"

definition isCaptureOn :: "'w Sender \<Rightarrow> bool" where
  "isCaptureOn s = scIsCaptureEnabled (getServerConfigurationOrDefault (kServerConfiguration s))"

definition removeSession :: "nat \<Rightarrow> 's Kit_scheme \<Rightarrow> 's Kit_scheme" where
  "removeSession i k = k\<lparr>kSendingSessions := snd (queue_remove i (kSendingSessions k))\<rparr>"

definition context_disableCapture :: "'w Sender \<Rightarrow> 'w Sender" where
  "context_disableCapture s = s\<lparr>kServerConfiguration :=
     Created (sc_withCapture False (ServerConfiguration_copy (getServerConfigurationOrDefault (kServerConfiguration s))))\<rparr>"

definition clear_session :: "nat \<Rightarrow> ('s, unit) kit_op" where
  "clear_session i = on_session i (op_modify clearCapturedData)"

definition clearAllSessionData :: "('s, unit) kit_op" where
  "clearAllSessionData = (\<lambda>k. op_each (\<lambda>i. op_bind (clear_session i) (\<lambda>_.
       op_modify (\<lambda>k. if mIsSessionFinished (session_at i k) then removeSession i k else k)))
     (queue_toStdVector (kSendingSessions k)) k)"

definition disableCaptureAndClear :: "('w, unit) sender_op" where
  "disableCaptureAndClear = op_bind (op_modify context_disableCapture) (\<lambda>_. clearAllSessionData)"

definition isApplicationIdMismatch :: "ResponseAttributes \<Rightarrow> 'w Sender \<Rightarrow> bool" where
  "isApplicationIdMismatch lastResponseAttributes s \<longleftrightarrow>
     isAttributeSet APPLICATION_ID lastResponseAttributes \<and>
     \<not> equals (hcApplicationID (mSenderHTTPConfiguration s)) (mApplicationId lastResponseAttributes)"

text \<open>The current server identifier, which new sessions read, is that of the configuration of the client.\<close>

definition set_server_id :: "int32 \<Rightarrow> 'w Sender \<Rightarrow> 'w Sender" where
  "set_server_id serverId s =
     (if serverId \<noteq> hcServerID (mSenderHTTPConfiguration s)
      then s\<lparr>mSenderHTTPConfiguration := withServerID serverId (mSenderHTTPConfiguration s), kServerID := serverId\<rparr>
      else s)"

definition updateFrom :: "StatusResponse option \<Rightarrow> ('w, ResponseAttributes) sender_op" where
  "updateFrom statusResponse = (\<lambda>s.
     case statusResponse of
       None \<Rightarrow> (Inr (mLastResponseAttributes s), s)
     | Some r \<Rightarrow>
         if Response_Parsing.isErroneousResponse r then (Inr (mLastResponseAttributes s), s)
         else
           (let a = merge (mLastResponseAttributes s) (mResponseAttributes r);
                b = ServerConfiguration_from a;
                c = (if isApplicationIdMismatch a s then sc_withCapture False b else b)
            in (Inr a, set_server_id (scServerId c) (s\<lparr>mLastResponseAttributes := a, kServerConfiguration := Created c\<rparr>))))"

definition context_handleStatusResponse :: "StatusResponse option \<Rightarrow> ('w, unit) sender_op" where
  "context_handleStatusResponse response =
     (if \<not> isSuccessfulResponse response then disableCaptureAndClear
      else op_bind (updateFrom response) (\<lambda>_ s.
        if \<not> isCaptureOn s then clearAllSessionData s else (Inr (), s)))"

definition sessions_with :: "(Session \<Rightarrow> bool) \<Rightarrow> 's Kit_scheme \<Rightarrow> nat list" where
  "sessions_with p k = filter (\<lambda>i. p (session_at i k)) (queue_toStdVector (kSendingSessions k))"

definition getAllNotConfiguredSessions :: "'s Kit_scheme \<Rightarrow> nat list" where
  "getAllNotConfiguredSessions = sessions_with (\<lambda>x. \<not> isConfigured x)"

definition getAllOpenAndConfiguredSessions :: "'s Kit_scheme \<Rightarrow> nat list" where
  "getAllOpenAndConfiguredSessions = sessions_with isConfiguredAndOpen"

definition getAllFinishedAndConfiguredSessions :: "'s Kit_scheme \<Rightarrow> nat list" where
  "getAllFinishedAndConfiguredSessions = sessions_with isConfiguredAndFinished"

subsection \<open>Requests\<close>

definition context_request ::
    "('w IHTTPClient \<Rightarrow> int64 \<Rightarrow> 'w \<Rightarrow> (cpp_exception + StatusResponse option) \<times> 'w) \<Rightarrow> 'w sender_env \<Rightarrow>
     ('w, StatusResponse option) sender_op" where
  "context_request call env = (\<lambda>s.
     let (r, w) = call (createClient env (mSenderHTTPConfiguration s)) (mTimestampInMilliseconds (mLastResponseAttributes s)) (mWorld s)
     in (r, s\<lparr>mWorld := w\<rparr>))"

text \<open>
  The loop of the status request with \<open>numRetries\<close> retries left; the time to sleep is doubled as an
  unsigned number of 64 bits.
\<close>

fun sendStatusRequest_loop ::
    "'w sender_env \<Rightarrow> nat \<Rightarrow> int64 \<Rightarrow> StatusResponse option \<Rightarrow> ('w, StatusResponse option) sender_op" where
  "sendStatusRequest_loop env numRetries sleepTimeInMillis statusResponse s =
     (if mSenderShutdown s then (Inr statusResponse, s)
      else
        (case context_request vSendStatusRequest env s of
           (Inl e, s) \<Rightarrow> (Inl e, s)
         | (Inr statusResponse, s) \<Rightarrow>
             if isSuccessfulResponse statusResponse \<or> tooManyRequests statusResponse \<or> numRetries = 0 then (Inr statusResponse, s)
             else sendStatusRequest_loop env (numRetries - 1) (sleepTimeInMillis * 2) statusResponse
                    (threadSleep env sleepTimeInMillis s)))"

declare sendStatusRequest_loop.simps [simp del]

definition util_sendStatusRequest :: "'w sender_env \<Rightarrow> nat \<Rightarrow> int64 \<Rightarrow> ('w, StatusResponse option) sender_op" where
  "util_sendStatusRequest env numRetries initialRetryDelayInMillis =
     sendStatusRequest_loop env numRetries initialRetryDelayInMillis None"

text \<open>
  A beacon is sent with the client of its own configuration. Each chunk takes the readings for its
  prefix. An exception of the client ends the program, as no handler is in the thread; what the loop does
  after it to the cache has no meaning.
\<close>

definition beacon_client ::
    "'w IHTTPClient \<Rightarrow> int64 \<Rightarrow> UTF8String \<Rightarrow> UTF8String \<Rightarrow> int32 \<Rightarrow> int64 \<Rightarrow> 'w \<times> nat \<times> cpp_exception option \<Rightarrow>
     StatusResponse option \<times> 'w \<times> nat \<times> cpp_exception option" where
  "beacon_client client timestamp ip chunk sessionNumber deviceID = (\<lambda>(w, tick, _).
     case vSendBeaconRequest client ip chunk timestamp sessionNumber deviceID w of
       (Inl e, w') \<Rightarrow> (None, w', tick + 1, Some e)
     | (Inr r, w') \<Rightarrow> (r, w', tick + 1, None))"

definition session_sendBeacon :: "'w sender_env \<Rightarrow> nat \<Rightarrow> ('w Sender, StatusResponse option) run" where
  "session_sendBeacon env i = (\<lambda>s.
     let x = load_session i s; b = sBeacon x;
         client = beacon_client (createClient env (bcHTTPClientConfiguration (mBeaconConfiguration b)))
           (mTimestampInMilliseconds (mLastResponseAttributes s))
     in case beacon_send BeaconCache_vtable (mBeaconKey b)
              (beacon_send_env b (mSupplementaryBasicData x) (\<lambda>(w, tick, _). kReadings s tick) client) (kCache s) (mWorld s, kTick s, None) of
          None \<Rightarrow> None
        | Some (r, c, w, tick, thrown) \<Rightarrow>
            Some (case thrown of None \<Rightarrow> Inr r | Some e \<Rightarrow> Inl e, s\<lparr>kCache := c, mWorld := w, kTick := tick\<rparr>))"

subsection \<open>The initial state\<close>

definition MAX_INITIAL_STATUS_REQUEST_RETRIES :: nat where "MAX_INITIAL_STATUS_REQUEST_RETRIES = 5"
definition INITIAL_RETRY_SLEEP_TIME_MILLISECONDS :: int64 where "INITIAL_RETRY_SLEEP_TIME_MILLISECONDS = 1000"

definition REINIT_DELAY_MILLISECONDS :: "int64 list" where
  "REINIT_DELAY_MILLISECONDS = [60000, 300000, 900000, 3600000, 7200000]"

text \<open>One round of the loop: the request, and what precedes the next round.\<close>

definition initial_request :: "'w sender_env \<Rightarrow> ('w, StatusResponse option) sender_op" where
  "initial_request env =
     op_bind provideTimestampInMilliseconds (\<lambda>currentTimestamp.
     op_bind (op_modify (\<lambda>s. s\<lparr>mLastOpenSessionBeaconSendTime := currentTimestamp, mLastStatusCheckTime := currentTimestamp\<rparr>)) (\<lambda>_.
     util_sendStatusRequest env MAX_INITIAL_STATUS_REQUEST_RETRIES INITIAL_RETRY_SLEEP_TIME_MILLISECONDS))"

definition reinitialize_delay :: "'w sender_env \<Rightarrow> nat \<Rightarrow> StatusResponse option \<Rightarrow> ('w, unit) sender_op" where
  "reinitialize_delay env mReinitializeDelayIndex statusResponse =
     (if tooManyRequests statusResponse
      then op_bind disableCaptureAndClear (\<lambda>_. context_sleep env (retryAfter statusResponse))
      else context_sleep env (REINIT_DELAY_MILLISECONDS ! mReinitializeDelayIndex))"

definition next_delay_index :: "nat \<Rightarrow> nat" where
  "next_delay_index mReinitializeDelayIndex = min (mReinitializeDelayIndex + 1) (length REINIT_DELAY_MILLISECONDS - 1)"

text \<open>The object of the initial state is left after its one execution, so its index is an argument of the loop.\<close>

partial_function (option) executeStatusRequest ::
    "'w sender_env \<Rightarrow> nat \<Rightarrow> StatusResponse option \<Rightarrow> ('w Sender, StatusResponse option) run" where
  "executeStatusRequest env mReinitializeDelayIndex statusResponse s =
     (if mSenderShutdown s then Some (Inr statusResponse, s)
      else
        (case initial_request env s of
           (Inl e, s) \<Rightarrow> Some (Inl e, s)
         | (Inr statusResponse, s) \<Rightarrow>
             if isSuccessfulResponse statusResponse then Some (Inr statusResponse, s)
             else
               (case reinitialize_delay env mReinitializeDelayIndex statusResponse s of
                  (Inl e, s) \<Rightarrow> Some (Inl e, s)
                | (Inr _, s) \<Rightarrow> executeStatusRequest env (next_delay_index mReinitializeDelayIndex) statusResponse s)))"

definition initial_doExecute :: "'w sender_env \<Rightarrow> ('w Sender, unit) run" where
  "initial_doExecute env =
     run_bind (executeStatusRequest env 0 None) (\<lambda>statusResponse. run_op (\<lambda>s.
       if mSenderShutdown s then (Inr (), setInitCompleted False s)
       else if isSuccessfulResponse statusResponse
       then
         op_bind (context_handleStatusResponse statusResponse) (\<lambda>_.
         op_modify (\<lambda>s. setInitCompleted True
           (setNextState (if isCaptureOn s then CaptureOnState else CaptureOffState (-1)) s))) s
       else (Inr (), s)))"

subsection \<open>Capture on\<close>

primrec new_session_requests :: "'w sender_env \<Rightarrow> nat list \<Rightarrow> StatusResponse option \<Rightarrow> ('w, StatusResponse option) sender_op" where
  "new_session_requests env [] statusResponse = op_return statusResponse"
| "new_session_requests env (i # is) statusResponse = (\<lambda>s.
     if \<not> canSendNewSessionRequest (session_at i s)
     then op_bind (on_session i (op_modify (update_configuration bc_disableCapture))) (\<lambda>_. new_session_requests env is statusResponse) s
     else
       op_bind (context_request vSendNewSessionRequest env) (\<lambda>statusResponse.
         if isSuccessfulResponse statusResponse
         then
           op_bind (updateFrom statusResponse) (\<lambda>updatedAttributes.
           op_bind (kit_updateServerConfiguration (Created (ServerConfiguration_from updatedAttributes)) i) (\<lambda>_.
           new_session_requests env is statusResponse))
         else if tooManyRequests statusResponse then op_return statusResponse
         else op_bind (on_session i (op_modify decreaseNumRemainingSessionRequests)) (\<lambda>_. new_session_requests env is statusResponse)) s)"

definition sendNewSessionRequests :: "'w sender_env \<Rightarrow> ('w, StatusResponse option) sender_op" where
  "sendNewSessionRequests env = (\<lambda>s. new_session_requests env (getAllNotConfiguredSessions s) None s)"

primrec finished_sessions :: "'w sender_env \<Rightarrow> nat list \<Rightarrow> StatusResponse option \<Rightarrow> ('w Sender, StatusResponse option) run" where
  "finished_sessions env [] statusResponse = run_op (op_return statusResponse)"
| "finished_sessions env (i # is) statusResponse = (\<lambda>s.
     let finish = (\<lambda>statusResponse. run_bind (run_op (op_bind (op_modify (removeSession i)) (\<lambda>_. clear_session i)))
       (\<lambda>_. finished_sessions env is statusResponse))
     in if isDataSendingAllowed (session_at i s)
        then
          run_bind (session_sendBeacon env i) (\<lambda>statusResponse s.
            if \<not> isSuccessfulResponse statusResponse \<and> (tooManyRequests statusResponse \<or> \<not> session_isEmpty (load_session i s))
            then Some (Inr statusResponse, s)
            else finish statusResponse s) s
        else finish statusResponse s)"

definition sendFinishedSessions :: "'w sender_env \<Rightarrow> ('w Sender, StatusResponse option) run" where
  "sendFinishedSessions env = (\<lambda>s. finished_sessions env (getAllFinishedAndConfiguredSessions s) None s)"

primrec running_sessions :: "'w sender_env \<Rightarrow> nat list \<Rightarrow> StatusResponse option \<Rightarrow> ('w Sender, StatusResponse option) run" where
  "running_sessions env [] statusResponse = run_op (op_return statusResponse)"
| "running_sessions env (i # is) statusResponse = (\<lambda>s.
     if isDataSendingAllowed (session_at i s)
     then
       run_bind (session_sendBeacon env i) (\<lambda>statusResponse.
         if tooManyRequests statusResponse then run_op (op_return statusResponse)
         else running_sessions env is statusResponse) s
     else run_bind (run_op (clear_session i)) (\<lambda>_. running_sessions env is statusResponse) s)"

definition sendOpenSessions :: "'w sender_env \<Rightarrow> ('w Sender, StatusResponse option) run" where
  "sendOpenSessions env =
     run_bind (run_op provideTimestampInMilliseconds) (\<lambda>currentTimestamp s.
       if sint currentTimestamp \<le> sint (mLastOpenSessionBeaconSendTime s + scast (mSendIntervalInMilliseconds (mLastResponseAttributes s)))
       then Some (Inr None, s)
       else
         run_bind (\<lambda>s. running_sessions env (getAllOpenAndConfiguredSessions s) None s) (\<lambda>statusResponse.
         run_op (op_bind (op_modify (\<lambda>s. s\<lparr>mLastOpenSessionBeaconSendTime := currentTimestamp\<rparr>)) (\<lambda>_.
           op_return statusResponse))) s)"

definition captureOn_handleStatusResponse :: "StatusResponse option \<Rightarrow> ('w, unit) sender_op" where
  "captureOn_handleStatusResponse statusResponse =
     (if statusResponse = None then op_return ()
      else op_bind (context_handleStatusResponse statusResponse) (\<lambda>_.
        op_modify (\<lambda>s. if \<not> isCaptureOn s then setNextState (CaptureOffState (-1)) s else s)))"

text \<open>A response that there were too many requests ends the round and sets the next state.\<close>

definition unless_too_many :: "StatusResponse option \<Rightarrow> ('w Sender, unit) run \<Rightarrow> ('w Sender, unit) run" where
  "unless_too_many response m =
     (if tooManyRequests response then run_op (op_modify (setNextState (CaptureOffState (retryAfter response)))) else m)"

definition captureOn_doExecute :: "'w sender_env \<Rightarrow> ('w Sender, unit) run" where
  "captureOn_doExecute env =
     run_bind (run_op (context_sleep env SENDER_SLEEP_TIME_MILLISECONDS)) (\<lambda>_ s.
       if mSenderShutdown s then Some (Inr (), s)
       else
         run_bind (run_op (sendNewSessionRequests env)) (\<lambda>newSessionsResponse.
         unless_too_many newSessionsResponse
           (run_bind (sendFinishedSessions env) (\<lambda>finishedSessionsResponse.
            unless_too_many finishedSessionsResponse
              (run_bind (sendOpenSessions env) (\<lambda>openSessionsResponse.
               unless_too_many openSessionsResponse
                 (run_op (captureOn_handleStatusResponse
                   (if openSessionsResponse \<noteq> None then openSessionsResponse
                    else if finishedSessionsResponse \<noteq> None then finishedSessionsResponse
                    else newSessionsResponse)))))))) s)"

subsection \<open>Capture off\<close>

definition STATUS_REQUEST_RETRIES :: nat where "STATUS_REQUEST_RETRIES = 5"
definition STATUS_CHECK_INTERVAL_MILLISECONDS :: int64 where "STATUS_CHECK_INTERVAL_MILLISECONDS = 7200000"

definition captureOff_handleStatusResponse :: "StatusResponse option \<Rightarrow> ('w, unit) sender_op" where
  "captureOff_handleStatusResponse statusResponse =
     op_bind (if statusResponse = None then op_return () else context_handleStatusResponse statusResponse) (\<lambda>_.
     op_modify (\<lambda>s.
       if tooManyRequests statusResponse then setNextState (CaptureOffState (retryAfter statusResponse)) s
       else if isSuccessfulResponse statusResponse \<and> isCaptureOn s then setNextState CaptureOnState s
       else s))"

definition captureOff_delta :: "int64 \<Rightarrow> int64 \<Rightarrow> int64 \<Rightarrow> int64" where
  "captureOff_delta mSleepTimeInMilliseconds currentTime lastStatusCheckTime =
     (if sint mSleepTimeInMilliseconds > 0 then mSleepTimeInMilliseconds
      else STATUS_CHECK_INTERVAL_MILLISECONDS - (currentTime - lastStatusCheckTime))"

definition captureOff_request :: "'w sender_env \<Rightarrow> int64 \<Rightarrow> ('w, unit) sender_op" where
  "captureOff_request env currentTime =
     op_bind (util_sendStatusRequest env STATUS_REQUEST_RETRIES INITIAL_RETRY_SLEEP_TIME_MILLISECONDS) (\<lambda>statusResponse.
     op_bind (captureOff_handleStatusResponse statusResponse) (\<lambda>_.
     op_modify (\<lambda>s. s\<lparr>mLastStatusCheckTime := currentTime\<rparr>)))"

definition captureOff_doExecute :: "'w sender_env \<Rightarrow> int64 \<Rightarrow> ('w, unit) sender_op" where
  "captureOff_doExecute env mSleepTimeInMilliseconds =
     op_bind disableCaptureAndClear (\<lambda>_.
     op_bind provideTimestampInMilliseconds (\<lambda>currentTime s.
       let delta = captureOff_delta mSleepTimeInMilliseconds currentTime (mLastStatusCheckTime s) in
       if sint delta > 0 \<and> \<not> mSenderShutdown s
       then op_bind (context_sleep env delta) (\<lambda>_ s.
              if mSenderShutdown s then (Inr (), s) else captureOff_request env currentTime s) s
       else captureOff_request env currentTime s))"

subsection \<open>Flushing\<close>

primrec flush_sessions :: "'w sender_env \<Rightarrow> nat list \<Rightarrow> bool \<Rightarrow> ('w Sender, unit) run" where
  "flush_sessions env [] tooManyRequestsReceived = run_op (op_return ())"
| "flush_sessions env (i # is) tooManyRequestsReceived =
     run_bind (\<lambda>s. if \<not> tooManyRequestsReceived \<and> isDataSendingAllowed (session_at i s)
               then run_bind (session_sendBeacon env i) (\<lambda>response. run_op (op_return (tooManyRequests response))) s
               else Some (Inr tooManyRequestsReceived, s)) (\<lambda>tooManyRequestsReceived.
     run_bind (run_op (op_bind (clear_session i) (\<lambda>_. op_modify (removeSession i)))) (\<lambda>_.
     flush_sessions env is tooManyRequestsReceived))"

definition flush_doExecute :: "'w sender_env \<Rightarrow> ('w Sender, unit) run" where
  "flush_doExecute env =
     run_bind (\<lambda>s. run_op (op_each (\<lambda>i. on_session i (op_modify (update_configuration bc_enableCapture))) (getAllNotConfiguredSessions s)) s) (\<lambda>_.
     run_bind (\<lambda>s. run_op (op_each (\<lambda>i. kit_endSession i False) (getAllOpenAndConfiguredSessions s)) s) (\<lambda>_.
     run_bind (\<lambda>s. flush_sessions env (getAllFinishedAndConfiguredSessions s) False s) (\<lambda>_.
     run_op (op_modify (setNextState TerminalState)))))"

subsection \<open>The state machine\<close>

fun doExecute :: "'w sender_env \<Rightarrow> SendingState \<Rightarrow> ('w Sender, unit) run" where
  "doExecute env InitialState = initial_doExecute env"
| "doExecute env CaptureOnState = captureOn_doExecute env"
| "doExecute env (CaptureOffState sleepTime) = run_op (captureOff_doExecute env sleepTime)"
| "doExecute env FlushSessionsState = flush_doExecute env"
| "doExecute env TerminalState = run_op (op_modify sender_requestShutdown)"

fun getShutdownState :: "SendingState \<Rightarrow> SendingState" where
  "getShutdownState CaptureOnState = FlushSessionsState"
| "getShutdownState (CaptureOffState sleepTime) = FlushSessionsState"
| "getShutdownState state = TerminalState"

definition state_execute :: "'w sender_env \<Rightarrow> SendingState \<Rightarrow> ('w Sender, unit) run" where
  "state_execute env state =
     run_bind (doExecute env state) (\<lambda>_. run_op (op_modify (\<lambda>s.
       if mSenderShutdown s then setNextState (getShutdownState state) s else s)))"

text \<open>A state object that is set as the next one is always a new one.\<close>

definition executeCurrentState :: "'w sender_env \<Rightarrow> ('w Sender, unit) run" where
  "executeCurrentState env = (\<lambda>s.
     run_bind (state_execute env (mSendingState s)) (\<lambda>_. run_op (op_modify (\<lambda>s.
       case mNextSendingState s of None \<Rightarrow> s | Some state \<Rightarrow> s\<lparr>mSendingState := state\<rparr>))) (s\<lparr>mNextSendingState := None\<rparr>))"

definition isInTerminalState :: "'w Sender \<Rightarrow> bool" where
  "isInTerminalState s \<longleftrightarrow> mSendingState s = TerminalState"

text \<open>The thread of the sender.\<close>

partial_function (option) sender_thread :: "'w sender_env \<Rightarrow> ('w Sender, unit) run" where
  "sender_thread env s =
     (if isInTerminalState s then Some (Inr (), s)
      else
        (case executeCurrentState env s of
           None \<Rightarrow> None
         | Some (Inl e, s) \<Rightarrow> Some (Inl e, s)
         | Some (Inr _, s) \<Rightarrow> sender_thread env s))"

definition Sender_new :: "Kit \<Rightarrow> 'w \<Rightarrow> 'w Sender" where
  "Sender_new k w = Kit.extend k
     \<lparr>mSendingState = InitialState, mNextSendingState = None, mInitSucceeded = False, mInitCountdown = 1,
      mSenderHTTPConfiguration = HTTPClientConfiguration_from (kOpenKitConfiguration k), mLastStatusCheckTime = 0,
      mLastOpenSessionBeaconSendTime = 0, mLastResponseAttributes = build withUndefinedDefaults, mWorld = w\<rparr>"

end
