(* ===== verification/Beacon_Identity.thy ===== *)
theory Beacon_Identity
  imports Session_Facts
begin

text \<open>
  No call of the application, and no end of a session, changes what makes a beacon the one it is: its
  key, its configuration and all that is fixed when it is made. Only its two counters change.
\<close>

subsection \<open>The calls of the beacon\<close>

definition beacon_fixed :: "Beacon \<Rightarrow> Beacon" where
  "beacon_fixed b = b\<lparr>mSequenceNumber := 0, mID := 0\<rparr>"

lemma beacon_fixed_fields:
  assumes "beacon_fixed b' = beacon_fixed b"
  shows "mBeaconKey b' = mBeaconKey b" "mBeaconConfiguration b' = mBeaconConfiguration b"
  using assms by (cases b; cases b'; simp add: beacon_fixed_def)+

lemma fixed_number [simp]: "beacon_fixed (snd (createSequenceNumber b)) = beacon_fixed b" "beacon_fixed (snd (createID b)) = beacon_fixed b"
  by (simp_all add: beacon_fixed_def createSequenceNumber_def createID_def)

definition fixed_call :: "beacon_call \<Rightarrow> bool" where
  "fixed_call f \<longleftrightarrow> (\<forall>b c. case f b c of Inl e \<Rightarrow> True | Inr (b', c') \<Rightarrow> beacon_fixed b' = beacon_fixed b)"

lemma fixed_callI: "(\<And>b c b' c'. f b c = Inr (b', c') \<Longrightarrow> beacon_fixed b' = beacon_fixed b) \<Longrightarrow> fixed_call f"
  by (auto simp: fixed_call_def split: sum.split)

lemmas call_body_simps = Let_def buildEvent_def beacon_fixed_def createSequenceNumber_def

lemma fixed_records:
  "fixed_call (addAction rd a)" "fixed_call (addWebRequest rd i y)" "fixed_call (beacon_endSession rd)"
  "fixed_call (beacon_startSession rd)" "fixed_call (beacon_identifyUser rd u)" "fixed_call (beacon_reportCrash rd u v w)"
  by (rule fixed_callI, force simp: addAction_def addWebRequest_def beacon_endSession_def beacon_startSession_def
      beacon_identifyUser_def beacon_reportCrash_def call_body_simps split: option.splits if_splits)+

lemma fixed_reports:
  "fixed_call (reportValue_long rd i u n)" "fixed_call (reportValue_int rd i u m)" "fixed_call (reportValue_double rd i u d)"
  "fixed_call (reportValue_string rd i u v)" "fixed_call (reportEvent rd i u)"
  "fixed_call (reportError_code rd i u m)" "fixed_call (reportError_cause rd i u v w x)"
  by (rule fixed_callI, force simp: reportValue_long_def reportValue_int_def reportValue_double_def reportValue_string_def
      reportEvent_def reportError_code_def reportError_cause_def call_body_simps split: option.splits if_splits)+

lemma fixed_payload: "fixed_call (sendEventPayload fp rd m)"
  by (rule fixed_callI) (auto simp: sendEventPayload_def split: option.splits if_splits)

lemma fixed_checked: "fixed_call (sendChecked fp rd m)"
proof -
  have "case sendEventPayload fp rd m b c of Inl e \<Rightarrow> True | Inr (b', c') \<Rightarrow> beacon_fixed b' = beacon_fixed b" for m b c
    by (rule fixed_payload [unfolded fixed_call_def, rule_format])
  then show ?thesis by (auto simp: fixed_call_def sendChecked_def split: option.split)
qed

lemma fixed_events: "fixed_call (sendBizEvent fp rd u m)" "fixed_call (sendEvent fp rd u m)"
proof -
  have c: "case sendChecked fp rd m b c of Inl e \<Rightarrow> True | Inr (b', c') \<Rightarrow> beacon_fixed b' = beacon_fixed b" for m b c
    by (rule fixed_checked [unfolded fixed_call_def, rule_format])
  show "fixed_call (sendBizEvent fp rd u m)" "fixed_call (sendEvent fp rd u m)"
    using c by (auto simp: fixed_call_def sendBizEvent_def sendEvent_def Let_def split: option.split)
qed

subsection \<open>The objects of a session\<close>

definition keyed :: "('s scene_scheme, 'a) cpp_op \<Rightarrow> bool" where
  "keyed m \<longleftrightarrow> (\<forall>s. beacon_fixed (sBeacon (snd (m s))) = beacon_fixed (sBeacon s))"

lemma keyed_basic [intro, simp]: "keyed (op_return a)" "keyed (op_throw e)"
  by (simp_all add: keyed_def op_return_def op_throw_def)

lemma keyed_bind [intro]: "keyed m \<Longrightarrow> (\<And>a. keyed (f a)) \<Longrightarrow> keyed (op_bind m f)"
  by (auto simp: keyed_def op_bind_def split: prod.split sum.split) (metis snd_conv)+

lemma keyed_if [intro]: "(b \<Longrightarrow> keyed m) \<Longrightarrow> (\<not> b \<Longrightarrow> keyed m') \<Longrightarrow> keyed (if b then m else m')"
  by simp

lemma keyed_at: "(\<And>s. keyed (m s)) \<Longrightarrow> keyed (\<lambda>s. m s s)"
  by (simp add: keyed_def)

lemma keyed_modify: "(\<And>s. sBeacon (f s) = sBeacon s) \<Longrightarrow> keyed (op_modify f)"
  by (simp add: keyed_def op_modify_def)

lemma keyed_providers [intro, simp]: "keyed provide" "keyed next_number" "keyed next_id" "keyed new_object"
  by (simp_all add: keyed_def provide_def next_number_def next_id_def new_object_def beacon_fixed_def createSequenceNumber_def
      createID_def)

lemma keyed_clock [intro, simp]: "keyed getCurrentTimestamp"
  unfolding getCurrentTimestamp_def by auto

lemma keyed_do: "(\<And>rd. fixed_call (f rd)) \<Longrightarrow> keyed (beacon_do f)"
  unfolding beacon_do_def
proof (rule keyed_bind [OF keyed_providers(1)])
  fix rd
  assume "\<And>rd. fixed_call (f rd)"
  then have fixed: "fixed_call (f rd)" .
  show "keyed (\<lambda>s. case f rd (sBeacon s) (sCache s) of Inl e \<Rightarrow> (Inl e, s) | Inr (b, c) \<Rightarrow> (Inr (), s\<lparr>sBeacon := b, sCache := c\<rparr>))"
    unfolding keyed_def
  proof
    fix s
    show "beacon_fixed (sBeacon (snd (case f rd (sBeacon s) (sCache s) of Inl e \<Rightarrow> (Inl e, s) | Inr (b, c) \<Rightarrow> (Inr (), s\<lparr>sBeacon := b, sCache := c\<rparr>)))) =
      beacon_fixed (sBeacon s)"
      using fixed [unfolded fixed_call_def, rule_format, of "sBeacon s" "sCache s"]
      by (cases "f rd (sBeacon s) (sCache s)") auto
  qed
qed

lemma keyed_tracer_new [intro, simp]: "keyed (WebRequestTracer_new i u)"
  unfolding WebRequestTracer_new_def by (auto split: sum.split intro!: keyed_bind) (simp add: keyed_def)

lemma keyed_action_new [intro, simp]: "keyed (ActionCommonImpl_new i u)"
  unfolding ActionCommonImpl_new_def by (intro keyed_bind keyed_basic keyed_providers keyed_clock)

lemma keyed_doStop [intro, simp]: "keyed (doStop rc d t)"
  unfolding doStop_def Let_def by (intro keyed_bind keyed_basic keyed_providers keyed_clock keyed_if keyed_do fixed_records)

lemma keyed_close:
  "keyed (close_node d n :: ('s scene_scheme, _) cpp_op)" "keyed (close_nodes d ns :: ('s scene_scheme, _) cpp_op)"
  by (induction d n and d ns rule: close_node_close_nodes.induct)
    (auto simp: Let_def split: prod.split intro!: keyed_bind keyed_do fixed_records)

lemma keyed_on:
  fixes f :: "node \<Rightarrow> ('s scene_scheme, node option \<times> 'a) cpp_op"
  shows "(\<And>n. keyed (f n)) \<Longrightarrow> keyed (on_node f i n)" "(\<And>n. keyed (f n)) \<Longrightarrow> keyed (on_nodes f i ns)"
  by (induction f i n and f i ns rule: on_node_on_nodes.induct)
    (auto split: prod.split option.split intro!: keyed_bind)

lemmas keyed_intros = keyed_bind keyed_basic keyed_providers keyed_clock keyed_if keyed_do
  keyed_tracer_new keyed_action_new keyed_doStop keyed_close keyed_on fixed_records fixed_reports fixed_events

subsection \<open>The calls of a session\<close>

lemma keyed_unless_left: "keyed m \<Longrightarrow> keyed (unless_left m n)"
  unfolding unless_left_def by (auto split: node.split intro!: keyed_bind)

lemma keyed_on_tracer: "(\<And>t. keyed (f t)) \<Longrightarrow> keyed (on_tracer f n)"
  unfolding on_tracer_def by (auto split: node.split prod.split intro!: keyed_bind)

lemma keyed_node_call: "keyed (node_call x n)"
  by (cases x)
    (auto simp: node_result_lost_def action_enterAction_def action_traceWebRequest_def leaveAction_def cancelAction_def
      action_reportEvent_def action_reportValue_int_def action_reportValue_long_def action_reportValue_double_def
      action_reportValue_string_def action_reportError_code_def action_reportError_cause_def tracer_stop_def tracer_cancel_def
      tracer_start_def split: node.split intro!: keyed_intros keyed_unless_left keyed_on_tracer)

lemma keyed_end: "keyed (session_end b)"
  unfolding session_end_def
proof (intro keyed_intros keyed_modify)
  show "keyed markAsIsFinishing" by (simp add: keyed_def markAsIsFinishing_def)
  show "keyed (\<lambda>s. close_nodes False (mChildren s) s)" by (rule keyed_at) (rule keyed_close)
qed simp_all

lemma keyed_tryEnd: "keyed tryEnd"
proof -
  have e: "keyed (op_bind (session_end False) (\<lambda>told. op_return (True, told)))" by (intro keyed_intros keyed_end)
  then show ?thesis by (auto simp: keyed_def tryEnd_def)
qed

lemma keyed_session_call:
  fixes f :: "node \<Rightarrow> (Session, node option \<times> 'a) cpp_op"
  shows "(\<And>n. keyed (f n)) \<Longrightarrow> keyed (session_call h f)"
proof -
  assume f: "\<And>n. keyed (f n)"
  have c: "keyed (op_bind session_onChildClosed (\<lambda>told. op_return (r, told)))" for r :: "'a option"
    unfolding session_onChildClosed_def
    by (intro keyed_bind keyed_basic) (use keyed_end [of True] in \<open>auto simp: keyed_def\<close>)
  show ?thesis unfolding session_call_def
  proof (rule keyed_bind)
    show "keyed (\<lambda>s. on_nodes f h (mChildren s) s)" by (rule keyed_at) (rule keyed_on(2) [OF f])
    show "keyed (case a of (cs, r) \<Rightarrow> \<lambda>s. let s' = s\<lparr>mChildren := cs\<rparr> in
       if length cs < length (mChildren s) then op_bind session_onChildClosed (\<lambda>told. op_return (r, told)) s'
       else (Inr (r, False), s'))" for a :: "node list \<times> 'a option"
    proof -
      obtain cs r where a: "a = (cs, r)" by (cases a)
      have "beacon_fixed (sBeacon (snd (op_bind session_onChildClosed (\<lambda>told. op_return (r, told)) (s\<lparr>mChildren := cs\<rparr>)))) =
          beacon_fixed (sBeacon s)" for s
        using c [of r, unfolded keyed_def, rule_format, of "s\<lparr>mChildren := cs\<rparr>"] by simp
      then show ?thesis by (simp add: a keyed_def Let_def)
    qed
  qed
qed

lemma keyed_while_open: "keyed m \<Longrightarrow> keyed (while_open m)"
  by (simp add: while_open_def keyed_def)

lemma keyed_reports:
  "keyed (session_identifyUser u)" "keyed (session_reportCrash u v w)" "keyed (session_sendBizEvent fp u m)" "keyed (session_sendEvent fp u m)"
  unfolding session_identifyUser_def session_reportCrash_def session_sendBizEvent_def session_sendEvent_def
  by (intro keyed_intros keyed_while_open)+

lemma keyed_new_child:
  "keyed (op_bind new_object (\<lambda>i. op_bind (op_modify (\<lambda>s. s\<lparr>mChildren := mChildren s @ [f i x]\<rparr>)) (\<lambda>_. op_return (Some i))))"
  by (intro keyed_intros keyed_modify) simp

lemma keyed_enter: "keyed (session_enterAction u)"
proof -
  have "keyed (op_bind (ActionCommonImpl_new DEFAULT_ACTION_ID u) (\<lambda>a. op_bind new_object (\<lambda>i.
       op_bind (op_modify (\<lambda>s. s\<lparr>mChildren := mChildren s @ [Action i a []]\<rparr>)) (\<lambda>_. op_return (Some i)))))"
    by (rule keyed_bind [OF keyed_action_new]) (rule keyed_new_child [where f = "\<lambda>i a. Action i a []"])
  then show ?thesis unfolding session_enterAction_def keyed_def by (auto simp: op_return_def)
qed

lemma keyed_trace: "keyed (session_traceWebRequest u)"
proof -
  have "keyed (op_bind (WebRequestTracer_new DEFAULT_ACTION_ID u) (\<lambda>a. op_bind new_object (\<lambda>i.
       op_bind (op_modify (\<lambda>s. s\<lparr>mChildren := mChildren s @ [Tracer i a]\<rparr>)) (\<lambda>_. op_return (Some i)))))"
    by (rule keyed_bind [OF keyed_tracer_new]) (rule keyed_new_child)
  then show ?thesis unfolding session_traceWebRequest_def keyed_def by (auto simp: op_return_def)
qed

end
