(* ===== verification/Sender_Facts.thy ===== *)
theory Sender_Facts
  imports Beacon_Sender Beacon_Identity
begin

text \<open>
  What holds of the sender: the transitions of its states, the sessions it knows of, its end after a
  shutdown, the loop of its initial state, and two of its answers to the server. The locale
  \<open>sender_invariant\<close> lists the single steps of the sender; what they keep, every execution of a state keeps.
\<close>

subsection \<open>Outcomes of the operations that may not return\<close>

definition run_triple :: "('s \<Rightarrow> bool) \<Rightarrow> ('s, 'a) run \<Rightarrow> ('a \<Rightarrow> 's \<Rightarrow> bool) \<Rightarrow> ('s \<Rightarrow> bool) \<Rightarrow> bool" where
  "run_triple P m Q E \<longleftrightarrow> (\<forall>s. P s \<longrightarrow> (case m s of None \<Rightarrow> True | Some (Inr a, s') \<Rightarrow> Q a s' | Some (Inl e, s') \<Rightarrow> E s'))"

abbreviation run_keeps :: "('s \<Rightarrow> bool) \<Rightarrow> ('s, 'a) run \<Rightarrow> bool" where
  "run_keeps P m \<equiv> run_triple P m (\<lambda>_. P) P"

lemma run_triple_op: "triple P m Q E \<Longrightarrow> run_triple P (run_op m) Q E"
  by (auto simp: triple_def run_triple_def run_op_def split: prod.splits sum.splits)

lemma run_triple_bind: "run_triple P m Q E \<Longrightarrow> (\<And>a. run_triple (Q a) (f a) R E) \<Longrightarrow> run_triple P (run_bind m f) R E"
  unfolding run_triple_def run_bind_def by (fastforce split: prod.splits sum.splits option.splits)

lemma run_keeps_bind: "run_keeps P m \<Longrightarrow> (\<And>a. run_keeps P (f a)) \<Longrightarrow> run_keeps P (run_bind m f)"
  by (rule run_triple_bind)

lemma run_keeps_if: "(b \<Longrightarrow> run_triple P m Q E) \<Longrightarrow> (\<not> b \<Longrightarrow> run_triple P m' Q E) \<Longrightarrow> run_triple P (if b then m else m') Q E"
  by simp

lemma run_keeps_state: "(\<And>s. P s \<Longrightarrow> run_keeps P (f s)) \<Longrightarrow> run_keeps P (\<lambda>s. f s s)"
  unfolding run_triple_def by auto

lemma run_keeps_at: "(\<And>s. P s \<Longrightarrow> \<exists>P'. run_keeps P' (f s) \<and> P' s \<and> (\<forall>t. P' t \<longrightarrow> P t)) \<Longrightarrow> run_keeps P (\<lambda>s. f s s)"
  unfolding run_triple_def by (fastforce split: option.splits prod.splits sum.splits)

lemma keeps_at: "(\<And>s. P s \<Longrightarrow> \<exists>P'. keeps P' (f s) \<and> P' s \<and> (\<forall>t. P' t \<longrightarrow> P t)) \<Longrightarrow> keeps P (\<lambda>s. f s s)"
  unfolding triple_def by (fastforce split: prod.splits sum.splits)

lemma run_triple_now: "run_triple P (f s) Q E \<Longrightarrow> P s \<Longrightarrow> run_triple (\<lambda>t. t = s) (f s) Q E"
  by (auto simp: run_triple_def)

lemma run_result: "run_triple P m Q E \<Longrightarrow> P s \<Longrightarrow> m s = Some (Inr a, s') \<Longrightarrow> Q a s'"
  by (force simp: run_triple_def)

lemma run_keeps_result: "run_keeps P m \<Longrightarrow> P s \<Longrightarrow> m s = Some (r, s') \<Longrightarrow> P s'"
  by (cases r) (force simp: run_triple_def)+

lemma request_loop_ends:
  assumes "executeStatusRequest env i r s = Some (Inr a, s')"
  shows "mSenderShutdown s' \<or> isSuccessfulResponse a"
proof -
  have "\<forall>a t. y = (Inr a, t) \<longrightarrow> mSenderShutdown t \<or> isSuccessfulResponse a"
    if "executeStatusRequest env i r s = Some y" for y :: "(cpp_exception + StatusResponse option) \<times> 'a Sender"
    by (rule executeStatusRequest.raw_induct [where P = "\<lambda>e i r s y. \<forall>a t. y = (Inr a, t) \<longrightarrow> mSenderShutdown t \<or> isSuccessfulResponse a", OF _ that])
      (fastforce split: if_splits prod.splits sum.splits)
  from this [OF assms] show ?thesis by simp
qed

subsection \<open>What the steps of the sender keep\<close>

inductive transition :: "SendingState \<Rightarrow> SendingState \<Rightarrow> bool" where
  initial_on: "transition InitialState CaptureOnState"
| initial_off: "transition InitialState (CaptureOffState (-1))"
| initial_end: "transition InitialState TerminalState"
| on_on: "transition CaptureOnState CaptureOnState"
| on_off: "transition CaptureOnState (CaptureOffState t)"
| on_flush: "transition CaptureOnState FlushSessionsState"
| off_off: "transition (CaptureOffState t) (CaptureOffState t')"
| off_on: "transition (CaptureOffState t) CaptureOnState"
| off_flush: "transition (CaptureOffState t) FlushSessionsState"
| flush_end: "transition FlushSessionsState TerminalState"
| end_end: "transition TerminalState TerminalState"

inductive_simps transition_from [simp]:
  "transition InitialState n" "transition CaptureOnState n" "transition (CaptureOffState t) n"
  "transition FlushSessionsState n" "transition TerminalState n"

text \<open>
  A property of the sender, of sessions \<open>B\<close> it has taken from its list and of those of \<open>F\<close> that have ended, that
  the single steps keep; the next state is one of \<open>N\<close>.
\<close>

locale sender_invariant =
  fixes env :: "'w sender_env"
    and P :: "nat set \<Rightarrow> nat set \<Rightarrow> 'w Sender \<Rightarrow> bool"
    and N :: "SendingState set"
  assumes enter: "P {} {} s \<Longrightarrow> B \<subseteq> set (kSendingSessions s) \<Longrightarrow> F \<subseteq> B \<Longrightarrow>
      (\<And>i. i \<in> F \<Longrightarrow> mIsSessionFinished (session_at i s)) \<Longrightarrow> P B F s"
    and leave: "P B F s \<Longrightarrow> P {} {} s"
    and request: "keeps (P B F) (context_request call env)"
    and sleep: "P {} {} s \<Longrightarrow> P {} {} (threadSleep env t s)"
    and time: "keeps (P B F) (provideTimestampInMilliseconds :: ('w, int64) sender_op)"
    and sending: "run_keeps (P B F) (session_sendBeacon env i)"
    and clearing: "keeps (P B F) (clear_session i :: ('w, unit) sender_op)"
    and settings: "keeps (P B F) (on_session i (op_modify (update_configuration f)) :: ('w, unit) sender_op)"
      "keeps (P B F) (on_session i (op_modify decreaseNumRemainingSessionRequests) :: ('w, unit) sender_op)"
    and configuring: "i \<in> B \<Longrightarrow> keeps (P B F) (kit_updateServerConfiguration c i :: ('w, unit) sender_op)"
    and ending: "i \<in> B \<Longrightarrow> keeps (P B F) (kit_endSession i b :: ('w, unit) sender_op)"
    and removing: "P B F s \<Longrightarrow> mIsSessionFinished (session_at i s) \<Longrightarrow> P B F (removeSession i s)"
    and removing_ended: "i \<in> F \<Longrightarrow> P B F s \<Longrightarrow> P B F (removeSession i s)"
    and fields: "P B F s \<Longrightarrow> P B F (s\<lparr>kServerConfiguration := c\<rparr>)" "P B F s \<Longrightarrow> P B F (s\<lparr>kServerID := sid\<rparr>)"
      "P B F s \<Longrightarrow> P B F (s\<lparr>mSenderHTTPConfiguration := h\<rparr>)" "P B F s \<Longrightarrow> P B F (s\<lparr>mLastResponseAttributes := a\<rparr>)"
      "P B F s \<Longrightarrow> P B F (s\<lparr>mLastStatusCheckTime := t\<rparr>)" "P B F s \<Longrightarrow> P B F (s\<lparr>mLastOpenSessionBeaconSendTime := t\<rparr>)"
      "P B F s \<Longrightarrow> P B F (setInitCompleted ok s)" "P B F s \<Longrightarrow> P B F (sender_requestShutdown s)"
    and next_state: "n \<in> N \<Longrightarrow> P B F s \<Longrightarrow> P B F (setNextState n s)"
begin

abbreviation I :: "'w Sender \<Rightarrow> bool" where "I \<equiv> P {} {}"

lemma over_sessions:
  assumes "\<And>xs. set xs \<subseteq> B' \<Longrightarrow> keeps (P B' {}) (f xs)" and "I s" and "B' = set (g s)" and "set (g s) \<subseteq> set (kSendingSessions s)"
  shows "\<exists>P'. keeps P' (f (g s)) \<and> P' s \<and> (\<forall>t. P' t \<longrightarrow> I t)"
  using assms enter [of s B' "{}"] leave by blast

lemma clearAll: "keeps I clearAllSessionData"
proof -
  have one: "keeps (P B F) (op_bind (clear_session i) (\<lambda>_. op_modify (\<lambda>k. if mIsSessionFinished (session_at i k) then removeSession i k else k)))" for B F i
    by (intro keeps_bind clearing keeps_modify) (simp add: removing)
  show ?thesis unfolding clearAllSessionData_def by (rule keeps_state) (rule keeps_each [OF one])
qed

lemma disable: "keeps I disableCaptureAndClear"
  unfolding disableCaptureAndClear_def context_disableCapture_def
  by (intro keeps_bind clearAll keeps_modify fields)

lemma update: "keeps (P B F) (updateFrom r)"
  unfolding updateFrom_def Let_def by (rule keepsI) (auto simp: set_server_id_def fields split: option.split)

lemma handle: "keeps I (context_handleStatusResponse r)"
  unfolding context_handleStatusResponse_def
  by (intro keeps_if disable keeps_bind update keeps_if_state clearAll) (rule keeps_return [unfolded op_return_def])

lemma sleeping: "keeps I (context_sleep env t)"
  unfolding context_sleep_def by (intro keeps_modify sleep)

lemma status_request_loop: "I s \<Longrightarrow> I (snd (sendStatusRequest_loop env n t r s))"
proof (induction n arbitrary: t r s)
  case 0
  have "I (snd (context_request vSendStatusRequest env s))" using keeps_result [OF request 0] by simp
  then show ?case
    using 0 by (subst sendStatusRequest_loop.simps) (auto split: prod.split sum.split)
next
  case (Suc n)
  then have "I (snd (context_request vSendStatusRequest env s))" using keeps_result [OF request] by simp
  then show ?case
    using Suc by (subst sendStatusRequest_loop.simps) (auto split: prod.split sum.split intro!: Suc.IH sleep)
qed

lemma status_request: "keeps I (util_sendStatusRequest env n t)"
  unfolding util_sendStatusRequest_def by (rule keepsI) (rule status_request_loop)

lemma initial_request_kept: "keeps I (initial_request env)"
  unfolding initial_request_def by (intro keeps_bind time keeps_modify fields status_request)

lemma reinitialize: "keeps I (reinitialize_delay env i r)"
  unfolding reinitialize_delay_def by (intro keeps_if keeps_bind disable sleeping)

lemma initial_loop: "executeStatusRequest env i r s = Some y \<Longrightarrow> I s \<Longrightarrow> I (snd y)"
proof -
  have "e = env \<longrightarrow> I s \<longrightarrow> I (snd y)" if "executeStatusRequest e i r s = Some y" for e y
  proof (rule executeStatusRequest.raw_induct [where P = "\<lambda>e i r s y. e = env \<longrightarrow> I s \<longrightarrow> I (snd y)", OF _ that])
    fix loop :: "'w sender_env \<Rightarrow> nat \<Rightarrow> StatusResponse option \<Rightarrow> ('w Sender, StatusResponse option) run" and e i r s y
    assume IH: "\<And>e i r s y. loop e i r s = Some y \<Longrightarrow> e = env \<longrightarrow> I s \<longrightarrow> I (snd y)"
      and y: "(if mSenderShutdown s then Some (Inr r, s)
      else
        (case initial_request e s of
           (Inl x, s) \<Rightarrow> Some (Inl x, s)
         | (Inr r, s) \<Rightarrow>
             if isSuccessfulResponse r then Some (Inr r, s)
             else
               (case reinitialize_delay e i r s of
                  (Inl x, s) \<Rightarrow> Some (Inl x, s)
                | (Inr _, s) \<Rightarrow> loop e (next_delay_index i) r s))) = Some y"
    show "e = env \<longrightarrow> I s \<longrightarrow> I (snd y)"
    proof (intro impI)
      assume e: "e = env" and s: "I s"
      obtain q t where q: "initial_request env s = (q, t)" by fastforce
      have t: "I t" using keeps_result [OF initial_request_kept s] q by simp
      show "I (snd y)"
      proof (cases q)
        case (Inr a)
        obtain d u where d: "reinitialize_delay env i a t = (d, u)" by fastforce
        have u: "I u" using keeps_result [OF reinitialize [of i a] t] d by simp
        have "I (snd y)" if "loop env (next_delay_index i) a u = Some y" using IH [OF that] u by simp
        then show ?thesis using y s t u d
          by (cases "mSenderShutdown s"; cases "isSuccessfulResponse a"; cases d) (auto simp: e q Inr)
      next
        case (Inl x)
        then show ?thesis using y s t by (cases "mSenderShutdown s") (auto simp: e q)
      qed
    qed
  qed
  then show "executeStatusRequest env i r s = Some y \<Longrightarrow> I s \<Longrightarrow> I (snd y)" by blast
qed

lemma initial_state:
  assumes "{n. transition InitialState n} \<subseteq> N"
  shows "run_keeps I (initial_doExecute env)"
  unfolding initial_doExecute_def
proof (rule run_keeps_bind)
  show "run_keeps I (executeStatusRequest env 0 None)"
    unfolding run_triple_def by (auto dest: initial_loop split: option.split sum.split)
  fix r
  have "keeps I (op_bind (context_handleStatusResponse r) (\<lambda>_. op_modify (\<lambda>s. setInitCompleted True
           (setNextState (if isCaptureOn s then CaptureOnState else CaptureOffState (-1)) s))))"
    using assms by (intro keeps_bind handle keeps_modify fields next_state) auto
  then have "keeps I (\<lambda>s. if mSenderShutdown s then (Inr (), setInitCompleted False s)
       else if isSuccessfulResponse r
       then
         op_bind (context_handleStatusResponse r) (\<lambda>_.
         op_modify (\<lambda>s. setInitCompleted True
           (setNextState (if isCaptureOn s then CaptureOnState else CaptureOffState (-1)) s))) s
       else (Inr (), s))"
    by (intro keepsI) (auto dest: keeps_result simp: fields)
  then show "run_keeps I (run_op (\<lambda>s. if mSenderShutdown s then (Inr (), setInitCompleted False s)
       else if isSuccessfulResponse r
       then
         op_bind (context_handleStatusResponse r) (\<lambda>_.
         op_modify (\<lambda>s. setInitCompleted True
           (setNextState (if isCaptureOn s then CaptureOnState else CaptureOffState (-1)) s))) s
       else (Inr (), s)))" by (rule run_triple_op)
qed

lemma new_sessions: "set is \<subseteq> B \<Longrightarrow> keeps (P B F) (new_session_requests env is r)"
proof (induction "is" arbitrary: r)
  case (Cons i "is")
  have more: "keeps (P B F) (new_session_requests env is r)" for r using Cons by simp
  have "i \<in> B" using Cons.prems by simp
  then have a: "keeps (P B F) (op_bind (context_request vSendNewSessionRequest env) (\<lambda>statusResponse.
         if isSuccessfulResponse statusResponse
         then
           op_bind (updateFrom statusResponse) (\<lambda>updatedAttributes.
           op_bind (kit_updateServerConfiguration (Created (ServerConfiguration_from updatedAttributes)) i) (\<lambda>_.
           new_session_requests env is statusResponse))
         else if tooManyRequests statusResponse then op_return statusResponse
         else op_bind (on_session i (op_modify decreaseNumRemainingSessionRequests)) (\<lambda>_. new_session_requests env is statusResponse)))"
    by (intro keeps_bind keeps_if request update configuring settings more keeps_return)
  have "keeps (P B F) (op_bind (on_session i (op_modify (update_configuration bc_disableCapture))) (\<lambda>_. new_session_requests env is r))"
    by (intro keeps_bind settings more)
  then show ?case unfolding new_session_requests.simps by (intro keeps_if_state a)
qed (simp add: keeps_return)

lemma new_session_state: "keeps I (sendNewSessionRequests env)"
  unfolding sendNewSessionRequests_def
proof (rule keeps_at [where f = "\<lambda>s. new_session_requests env (getAllNotConfiguredSessions s) None"])
  fix s
  assume s: "I s"
  show "\<exists>P'. keeps P' (new_session_requests env (getAllNotConfiguredSessions s) None) \<and> P' s \<and> (\<forall>t. P' t \<longrightarrow> I t)"
    by (rule over_sessions [where g = getAllNotConfiguredSessions and f = "\<lambda>is. new_session_requests env is None", OF _ s refl])
      (auto intro: new_sessions simp: getAllNotConfiguredSessions_def sessions_with_def queue_toStdVector_def)
qed

lemma finished: "set is \<subseteq> F \<Longrightarrow> run_keeps (P B F) (finished_sessions env is r)"
proof (induction "is" arbitrary: r)
  case (Cons i "is")
  have more: "run_keeps (P B F) (finished_sessions env is r)" for r using Cons by simp
  have "i \<in> F" using Cons.prems by simp
  then have f: "run_keeps (P B F) (run_bind (run_op (op_bind (op_modify (removeSession i)) (\<lambda>_. clear_session i))) (\<lambda>_. finished_sessions env is r))" for r
    by (intro run_keeps_bind more run_triple_op keeps_bind keeps_modify clearing removing_ended)
  have "run_keeps (P B F) (\<lambda>s. if \<not> isSuccessfulResponse r \<and> (tooManyRequests r \<or> \<not> session_isEmpty (load_session i s))
        then Some (Inr r, s)
        else run_bind (run_op (op_bind (op_modify (removeSession i)) (\<lambda>_. clear_session i))) (\<lambda>_. finished_sessions env is r) s)" for r
    using f [of r] by (auto simp: run_triple_def)
  then have "run_keeps (P B F) (run_bind (session_sendBeacon env i) (\<lambda>r s. if \<not> isSuccessfulResponse r \<and> (tooManyRequests r \<or> \<not> session_isEmpty (load_session i s))
        then Some (Inr r, s)
        else run_bind (run_op (op_bind (op_modify (removeSession i)) (\<lambda>_. clear_session i))) (\<lambda>_. finished_sessions env is r) s))"
    by (intro run_keeps_bind sending)
  with f [of r] show ?case unfolding finished_sessions.simps Let_def by (auto simp: run_triple_def)
qed (simp add: keeps_return run_triple_op)

lemma over_run:
  assumes "\<And>B F xs. set xs \<subseteq> F \<Longrightarrow> run_keeps (P B F) (f xs)" and "I s" and "set (g s) \<subseteq> set (kSendingSessions s)"
    and "\<And>i. i \<in> set (g s) \<Longrightarrow> mIsSessionFinished (session_at i s)"
  shows "\<exists>P'. run_keeps P' (f (g s)) \<and> P' s \<and> (\<forall>t. P' t \<longrightarrow> I t)"
  using assms(1) [of "g s" "set (g s)" "set (g s)"] assms(2-4) enter [of s "set (g s)" "set (g s)"] leave by blast

lemma finished_state: "run_keeps I (sendFinishedSessions env)"
  unfolding sendFinishedSessions_def
proof (rule run_keeps_at [where f = "\<lambda>s. finished_sessions env (getAllFinishedAndConfiguredSessions s) None"])
  fix s
  assume "I s"
  then show "\<exists>P'. run_keeps P' (finished_sessions env (getAllFinishedAndConfiguredSessions s) None) \<and> P' s \<and> (\<forall>t. P' t \<longrightarrow> I t)"
    by (intro over_run [where f = "\<lambda>is. finished_sessions env is None" and g = getAllFinishedAndConfiguredSessions])
      (auto intro: finished simp: getAllFinishedAndConfiguredSessions_def sessions_with_def queue_toStdVector_def isConfiguredAndFinished_def)
qed

lemma running: "run_keeps I (running_sessions env is r)"
proof (induction "is" arbitrary: r)
  case (Cons i "is")
  have "run_keeps I (run_bind (session_sendBeacon env i) (\<lambda>r. if tooManyRequests r then run_op (op_return r) else running_sessions env is r))"
    "run_keeps I (run_bind (run_op (clear_session i)) (\<lambda>_. running_sessions env is r))"
    by (intro run_keeps_bind run_keeps_if sending run_triple_op keeps_return clearing Cons.IH)+
  then show ?case unfolding running_sessions.simps by (auto simp: run_triple_def)
qed (simp add: keeps_return run_triple_op)

lemma open_state: "run_keeps I (sendOpenSessions env)"
proof -
  have "run_keeps I (run_bind (\<lambda>s. running_sessions env (getAllOpenAndConfiguredSessions s) None s) (\<lambda>statusResponse.
         run_op (op_bind (op_modify (\<lambda>s. s\<lparr>mLastOpenSessionBeaconSendTime := t\<rparr>)) (\<lambda>_. op_return statusResponse))))" for t
    by (rule run_keeps_bind, rule run_keeps_state [where f = "\<lambda>s. running_sessions env (getAllOpenAndConfiguredSessions s) None"], rule running)
      (intro run_triple_op keeps_bind keeps_modify keeps_return fields)
  then have "run_keeps I (\<lambda>s. if sint t \<le> sint (mLastOpenSessionBeaconSendTime s + scast (mSendIntervalInMilliseconds (mLastResponseAttributes s)))
       then Some (Inr None, s)
       else run_bind (\<lambda>s. running_sessions env (getAllOpenAndConfiguredSessions s) None s) (\<lambda>statusResponse.
         run_op (op_bind (op_modify (\<lambda>s. s\<lparr>mLastOpenSessionBeaconSendTime := t\<rparr>)) (\<lambda>_. op_return statusResponse))) s)" for t
    by (auto simp: run_triple_def)
  then show ?thesis unfolding sendOpenSessions_def by (intro run_keeps_bind run_triple_op time)
qed

lemma unless_too_many_kept: "(\<And>t. CaptureOffState t \<in> N) \<Longrightarrow> run_keeps I m \<Longrightarrow> run_keeps I (unless_too_many r m)"
  unfolding unless_too_many_def by (intro run_keeps_if run_triple_op keeps_modify next_state)

lemma captureOn_state:
  assumes "{n. transition CaptureOnState n} \<subseteq> N"
  shows "run_keeps I (captureOn_doExecute env)"
proof -
  have off: "CaptureOffState t \<in> N" for t using assms by auto
  have h: "keeps I (captureOn_handleStatusResponse r)" for r
    unfolding captureOn_handleStatusResponse_def
    by (intro keeps_if keeps_return keeps_bind handle keeps_modify) (simp add: next_state off)
  have "run_keeps I (run_bind (run_op (sendNewSessionRequests env)) (\<lambda>newSessionsResponse.
         unless_too_many newSessionsResponse
           (run_bind (sendFinishedSessions env) (\<lambda>finishedSessionsResponse.
            unless_too_many finishedSessionsResponse
              (run_bind (sendOpenSessions env) (\<lambda>openSessionsResponse.
               unless_too_many openSessionsResponse
                 (run_op (captureOn_handleStatusResponse
                   (if openSessionsResponse \<noteq> None then openSessionsResponse
                    else if finishedSessionsResponse \<noteq> None then finishedSessionsResponse
                    else newSessionsResponse)))))))))"
    by (intro run_keeps_bind unless_too_many_kept run_triple_op new_session_state finished_state open_state h off)
  then have "run_keeps I (\<lambda>s. if mSenderShutdown s then Some (Inr (), s) else
      run_bind (run_op (sendNewSessionRequests env)) (\<lambda>newSessionsResponse.
         unless_too_many newSessionsResponse
           (run_bind (sendFinishedSessions env) (\<lambda>finishedSessionsResponse.
            unless_too_many finishedSessionsResponse
              (run_bind (sendOpenSessions env) (\<lambda>openSessionsResponse.
               unless_too_many openSessionsResponse
                 (run_op (captureOn_handleStatusResponse
                   (if openSessionsResponse \<noteq> None then openSessionsResponse
                    else if finishedSessionsResponse \<noteq> None then finishedSessionsResponse
                    else newSessionsResponse)))))))) s)"
    by (auto simp: run_triple_def)
  then show ?thesis unfolding captureOn_doExecute_def by (intro run_keeps_bind run_triple_op sleeping)
qed

lemma captureOff_state:
  assumes "{n. transition (CaptureOffState t) n} \<subseteq> N"
  shows "keeps I (captureOff_doExecute env t)"
proof -
  have h: "keeps I (captureOff_handleStatusResponse r)" for r
    unfolding captureOff_handleStatusResponse_def using assms
    by (intro keeps_bind keeps_if keeps_return handle keeps_modify) (auto intro: next_state)
  have r: "keeps I (captureOff_request env now)" for now
    unfolding captureOff_request_def by (intro keeps_bind status_request h keeps_modify fields)
  have "keeps I (op_bind (context_sleep env d) (\<lambda>_ s. if mSenderShutdown s then (Inr (), s) else captureOff_request env now s))" for d now
    by (intro keeps_bind sleeping keeps_if_state r) (rule keeps_return [unfolded op_return_def])
  then have "keeps I (\<lambda>s. let delta = captureOff_delta t now (mLastStatusCheckTime s) in
       if sint delta > 0 \<and> \<not> mSenderShutdown s
       then op_bind (context_sleep env delta) (\<lambda>_ s. if mSenderShutdown s then (Inr (), s) else captureOff_request env now s) s
       else captureOff_request env now s)" for now
    using r [of now] by (auto simp: triple_def Let_def)
  then show ?thesis unfolding captureOff_doExecute_def by (intro keeps_bind disable time)
qed

lemma flushing: "set is \<subseteq> F \<Longrightarrow> run_keeps (P B F) (flush_sessions env is b)"
proof (induction "is" arbitrary: b)
  case (Cons i "is")
  have more: "run_keeps (P B F) (flush_sessions env is b)" for b using Cons by simp
  have i: "i \<in> F" using Cons.prems by simp
  have "run_keeps (P B F) (run_bind (session_sendBeacon env i) (\<lambda>response. run_op (op_return (tooManyRequests response))))"
    by (intro run_keeps_bind sending run_triple_op keeps_return)
  then have s: "run_keeps (P B F) (\<lambda>s. if \<not> b \<and> isDataSendingAllowed (session_at i s)
       then run_bind (session_sendBeacon env i) (\<lambda>response. run_op (op_return (tooManyRequests response))) s else Some (Inr b, s))"
    by (auto simp: run_triple_def)
  show ?case unfolding flush_sessions.simps
    by (intro run_keeps_bind s run_triple_op keeps_bind clearing keeps_modify removing_ended i more)
qed (simp add: keeps_return run_triple_op)

lemma flush_state:
  assumes "{n. transition FlushSessionsState n} \<subseteq> N"
  shows "run_keeps I (flush_doExecute env)"
  unfolding flush_doExecute_def
proof (intro run_keeps_bind)
  show "run_keeps I (\<lambda>s. run_op (op_each (\<lambda>i. on_session i (op_modify (update_configuration bc_enableCapture))) (getAllNotConfiguredSessions s)) s)"
    by (rule run_keeps_state [where f = "\<lambda>s. run_op (op_each (\<lambda>i. on_session i (op_modify (update_configuration bc_enableCapture))) (getAllNotConfiguredSessions s))"])
      (intro run_triple_op keeps_each settings)
  have "keeps I (\<lambda>s. op_each (\<lambda>i. kit_endSession i False) (getAllOpenAndConfiguredSessions s) s)"
  proof (rule keeps_at [where f = "\<lambda>s. op_each (\<lambda>i. kit_endSession i False) (getAllOpenAndConfiguredSessions s)"])
    fix s
    assume s: "I s"
    show "\<exists>P'. keeps P' (op_each (\<lambda>i. kit_endSession i False) (getAllOpenAndConfiguredSessions s)) \<and> P' s \<and> (\<forall>t. P' t \<longrightarrow> I t)"
      by (rule over_sessions [where g = getAllOpenAndConfiguredSessions and f = "op_each (\<lambda>i. kit_endSession i False)", OF _ s refl])
        (auto intro!: keeps_each ending simp: getAllOpenAndConfiguredSessions_def sessions_with_def queue_toStdVector_def)
  qed
  from run_triple_op [OF this]
  show "run_keeps I (\<lambda>s. run_op (op_each (\<lambda>i. kit_endSession i False) (getAllOpenAndConfiguredSessions s)) s)"
    by (simp add: run_op_def)
  show "run_keeps I (\<lambda>s. flush_sessions env (getAllFinishedAndConfiguredSessions s) False s)"
  proof (rule run_keeps_at [where f = "\<lambda>s. flush_sessions env (getAllFinishedAndConfiguredSessions s) False"])
    fix s
    assume "I s"
    then show "\<exists>P'. run_keeps P' (flush_sessions env (getAllFinishedAndConfiguredSessions s) False) \<and> P' s \<and> (\<forall>t. P' t \<longrightarrow> I t)"
      by (intro over_run [where f = "\<lambda>is. flush_sessions env is False" and g = getAllFinishedAndConfiguredSessions])
        (auto intro: flushing simp: getAllFinishedAndConfiguredSessions_def sessions_with_def queue_toStdVector_def isConfiguredAndFinished_def)
  qed
  show "run_keeps I (run_op (op_modify (setNextState TerminalState)))"
    using assms by (intro run_triple_op keeps_modify next_state) auto
qed

text \<open>An execution of a state keeps the property, if it allows the transitions of the state.\<close>

lemma execution: "{n. transition st n} \<subseteq> N \<Longrightarrow> run_keeps I (doExecute env st)"
proof (cases st)
  case TerminalState
  then show ?thesis by (simp add: run_triple_op keeps_modify fields)
next
  case (CaptureOffState t)
  assume "{n. transition st n} \<subseteq> N"
  then have "keeps I (captureOff_doExecute env t)" using CaptureOffState by (intro captureOff_state) simp
  then show ?thesis using CaptureOffState by (simp add: run_triple_op)
qed (simp_all add: initial_state captureOn_state flush_state)

lemma state_execution:
  assumes "{n. transition st n} \<subseteq> N"
  shows "run_keeps I (state_execute env st)"
proof -
  have "transition st (getShutdownState st)" by (cases st) simp_all
  then show ?thesis unfolding state_execute_def using assms
    by (intro run_keeps_bind execution run_triple_op keeps_modify) (auto intro: next_state)
qed

end

lemma request_keeps: "(\<And>s w. P s \<Longrightarrow> P (s\<lparr>mWorld := w\<rparr>)) \<Longrightarrow> keeps P (context_request call env)"
  by (rule keepsI) (simp add: context_request_def split: prod.split)

lemma sendBeacon_keeps:
  assumes "\<And>s c w t. P s \<Longrightarrow> P (s\<lparr>kCache := c, mWorld := w, kTick := t\<rparr>)"
  shows "run_keeps P (session_sendBeacon env i)"
proof -
  have "P s'" if p: "P s" and r: "session_sendBeacon env i s = Some (r, s')" for s r s'
  proof -
    obtain c w t where "s' = s\<lparr>kCache := c, mWorld := w, kTick := t\<rparr>"
      using r unfolding session_sendBeacon_def Let_def by (auto split: option.splits)
    then show ?thesis using assms p by simp
  qed
  then show ?thesis unfolding run_triple_def by (auto split: option.split sum.split)
qed

subsection \<open>The operations of the library leave the state of the thread alone\<close>

definition outer :: "('s, 'a) kit_op \<Rightarrow> bool" where
  "outer m \<longleftrightarrow> (\<forall>k. Kit.more (snd (m k)) = Kit.more k \<and> mSenderShutdown (snd (m k)) = mSenderShutdown k \<and>
     kServerConfiguration (snd (m k)) = kServerConfiguration k)"

lemma outer_basic: "outer (op_return a)" "outer (current_session p)" "outer kit_provide"
  "(\<And>k. Kit.more (f k) = Kit.more k \<and> mSenderShutdown (f k) = mSenderShutdown k \<and> kServerConfiguration (f k) = kServerConfiguration k)
    \<Longrightarrow> outer (op_modify f)"
  by (simp_all add: outer_def op_return_def current_session_def kit_provide_def op_modify_def)

lemma outer_bind: "outer m \<Longrightarrow> (\<And>a. outer (f a)) \<Longrightarrow> outer (op_bind m f)"
  by (auto simp: outer_def op_bind_def split: prod.split sum.split) (metis snd_conv)+

lemma update_proxy_outer [simp]: "Kit.more (update_proxy p f k) = Kit.more k" "mSenderShutdown (update_proxy p f k) = mSenderShutdown k"
  "kServerConfiguration (update_proxy p f k) = kServerConfiguration k"
  by (simp_all add: update_proxy_def)

lemma outer_session: "outer (on_session i m)"
  by (simp add: outer_def on_session_def save_session_def split: prod.split)

lemma outer_configure: "outer (configure_session f i)"
proof -
  have "Kit.more (onServerConfigurationUpdate p c k) = Kit.more k \<and>
     mSenderShutdown (onServerConfigurationUpdate p c k) = mSenderShutdown k \<and>
     kServerConfiguration (onServerConfigurationUpdate p c k) = kServerConfiguration k" for p c and k :: "'a Kit_scheme"
    by (simp add: onServerConfigurationUpdate_def addToSplitByTimeout_def Let_def split: option.split)
  then show ?thesis
    by (simp add: outer_def configure_session_def on_session_def save_session_def Let_def split: prod.split option.split)
qed

lemma outer_end: "outer (kit_endSession i b)"
  unfolding kit_endSession_def tell_parent_def proxy_onChildClosed_def
  by (intro outer_bind outer_session) (simp add: outer_basic dequeueFromClosing_def)

lemma outer_each: "(\<And>x. outer (f x)) \<Longrightarrow> outer (op_each f xs)"
  by (induction xs) (auto intro: outer_basic outer_bind)

lemma outer_clear: "outer (clearAllSessionData :: ('s, unit) kit_op)"
proof -
  have "outer (op_each (\<lambda>i. op_bind (clear_session i) (\<lambda>_.
       op_modify (\<lambda>k. if mIsSessionFinished (session_at i k) then removeSession i k else k))) xs :: ('s, unit) kit_op)" for xs
    unfolding clear_session_def
    by (intro outer_each outer_bind outer_session outer_basic) (simp add: removeSession_def)
  then show ?thesis by (simp add: outer_def clearAllSessionData_def)
qed

lemma outer_time: "outer provideTimestampInMilliseconds"
  unfolding provideTimestampInMilliseconds_def by (intro outer_bind outer_basic)

lemma thread_fields:
  fixes s s' :: "'w Sender"
  assumes "Kit.more s' = Kit.more s"
  shows "mSendingState s' = mSendingState s" "mNextSendingState s' = mNextSendingState s"
  using assms by (cases s; cases s'; simp)+

subsection \<open>Transitions\<close>

text \<open>While the sender sleeps, the other threads leave its state alone and do not take a shutdown back.\<close>

definition calm :: "'w sender_env \<Rightarrow> bool" where
  "calm env \<longleftrightarrow> (\<forall>t s. mSendingState (threadSleep env t s) = mSendingState s \<and>
     mNextSendingState (threadSleep env t s) = mNextSendingState s \<and> (mSenderShutdown s \<longrightarrow> mSenderShutdown (threadSleep env t s)))"

definition next_in :: "'w sender_env \<Rightarrow> SendingState \<Rightarrow> bool \<Rightarrow> nat set \<Rightarrow> nat set \<Rightarrow> 'w Sender \<Rightarrow> bool" where
  "next_in env st stopped B F s \<longleftrightarrow> calm env \<longrightarrow> mSendingState s = st \<and>
     (case mNextSendingState s of None \<Rightarrow> True | Some n \<Rightarrow> transition st n) \<and> (stopped \<longrightarrow> mSenderShutdown s)"

lemma outer_next: "outer m \<Longrightarrow> keeps (next_in env st stopped B F) m"
proof (rule keepsI)
  fix k :: "'a Sender"
  assume "outer m" and k: "next_in env st stopped B F k"
  then have "Kit.more (snd (m k)) = Kit.more k" "mSenderShutdown (snd (m k)) = mSenderShutdown k" by (simp_all add: outer_def)
  then show "next_in env st stopped B F (snd (m k))"
    using k thread_fields [of "snd (m k)" k] by (simp add: next_in_def)
qed

interpretation transitions: sender_invariant env "next_in env st stopped" "{n. transition st n}"
  for env :: "'w sender_env" and st stopped
proof unfold_locales
  show "keeps (next_in env st stopped B F) (context_request call env)" for B F call
    by (rule request_keeps) (simp add: next_in_def)
  show "run_keeps (next_in env st stopped B F) (session_sendBeacon env i)" for B F i
    by (rule sendBeacon_keeps) (simp add: next_in_def)
  show "keeps (next_in env st stopped B F) (provideTimestampInMilliseconds :: ('w, int64) sender_op)" for B F
    by (intro outer_next outer_time)
  show "keeps (next_in env st stopped B F) (clear_session i :: ('w, unit) sender_op)" for B F i
    unfolding clear_session_def by (intro outer_next outer_session)
  show "keeps (next_in env st stopped B F) (on_session i (op_modify f) :: ('w, unit) sender_op)"
    "keeps (next_in env st stopped B F) (on_session i (op_modify f) :: ('w, unit) sender_op)" for B F i f
    by (intro outer_next outer_session)+
  show "keeps (next_in env st stopped B F) (kit_updateServerConfiguration c i :: ('w, unit) sender_op)" for B F i c
    unfolding kit_updateServerConfiguration_def by (intro outer_next outer_configure)
  show "keeps (next_in env st stopped B F) (kit_endSession i b :: ('w, unit) sender_op)" for B F i b
    by (intro outer_next outer_end)
qed (simp_all add: next_in_def calm_def removeSession_def setInitCompleted_def sender_requestShutdown_def setNextState_def)

subsection \<open>The library stays in order\<close>

text \<open>So do the other threads while the sender sleeps.\<close>

definition orderly :: "'w sender_env \<Rightarrow> bool" where
  "orderly env \<longleftrightarrow> (\<forall>t s. in_order s \<longrightarrow> in_order (threadSleep env t s))"

definition ordered :: "'w sender_env \<Rightarrow> nat set \<Rightarrow> nat set \<Rightarrow> 'w Sender \<Rightarrow> bool" where
  "ordered env B F s \<longleftrightarrow> orderly env \<longrightarrow> in_order s \<and> B \<subseteq> {..<length (kSessions s)} \<and> (\<forall>i\<in>F. mIsSessionFinished (session_at i s))"

lemma steady_finished:
  assumes "steady m" and "in_order k"
  shows "mIsSessionFinished (session_at j (snd (on_session i m k))) = mIsSessionFinished (session_at j k)"
proof -
  have "session_ok (load_session i k)" if "i < length (kSessions k)" using assms(2) that by (simp add: load_ok kit_inv_def)
  then have "mIsSessionFinished (snd (m (load_session i k))) = mIsSessionFinished (session_at i k)" if "i < length (kSessions k)"
    using assms(1) that load_ok(2) [of i k] by (simp add: steady_def)
  then show ?thesis by (simp add: on_session_def split_beta)
qed

lemma session_count [simp]: "length (kSessions (snd (on_session i m k))) = length (kSessions k)"
  by (simp add: on_session_def split: prod.split)

lemma ordered_session: "steady m \<Longrightarrow> keeps (ordered env B F) (on_session i m)"
  by (rule keepsI) (auto simp: ordered_def steady_finished dest: keeps_result [OF steady_keeps])

lemma ordered_cong:
  assumes "ordered env B F s" and "kSessions s' = kSessions s" and "kProxies s' = kProxies s" and "kSendingSessions s' = kSendingSessions s"
    and "mSessionsToSplitByTimeout s' = mSessionsToSplitByTimeout s" and "kChildren s' = kChildren s"
  shows "ordered env B F s'"
  using assms by (simp add: ordered_def kit_inv_def open_sessions_def session_at_def parent_of_def proxy_at_def)

lemma configure_flags:
  "length (kSessions (snd (configure_session f i k))) = length (kSessions k)"
  "in_order k \<Longrightarrow> mIsSessionFinished (session_at j (snd (configure_session f i k))) = mIsSessionFinished (session_at j k)"
proof -
  let ?k = "snd (on_session i (op_modify (update_configuration (\<lambda>b. fst (f b)))) k)"
  have k: "kSessions (snd (configure_session f i k)) = kSessions ?k"
    by (simp add: configure_session_def onServerConfigurationUpdate_def addToSplitByTimeout_def Let_def split: prod.split option.split)
  then show "length (kSessions (snd (configure_session f i k))) = length (kSessions k)" by simp
  show "in_order k \<Longrightarrow> mIsSessionFinished (session_at j (snd (configure_session f i k))) = mIsSessionFinished (session_at j k)"
    using steady_finished [OF steady_settings(4)] by (simp add: session_at_def k) (simp add: session_at_def [symmetric])
qed

lemma remove_ended:
  assumes "in_order k" and "mIsSessionFinished (session_at i k)"
  shows "in_order (removeSession i k)"
proof -
  have "j \<in> set (remove1 i (kSendingSessions k))" if "j \<in> set (kSendingSessions k)" "\<not> mIsSessionFinished (snd (kSessions k ! j))" for j
    using that assms(2) by (cases "j = i") (simp_all add: session_at_def)
  then show ?thesis
    using assms set_remove1_subset [of i "kSendingSessions k"]
    by (simp add: kit_inv_def removeSession_def open_sessions_def session_at_def parent_of_def proxy_at_def queue_remove_eq) blast
qed

interpretation order: sender_invariant env "ordered env" UNIV
  for env :: "'w sender_env"
proof unfold_locales
  show "ordered env B F s" if "ordered env {} {} s" "B \<subseteq> set (kSendingSessions s)" "F \<subseteq> B"
    "\<And>i. i \<in> F \<Longrightarrow> mIsSessionFinished (session_at i s)" for B F s
    using that by (auto simp: ordered_def kit_inv_def)
  show "ordered env {} {} s" if "ordered env B F s" for B F s
    using that by (simp add: ordered_def)
  show "keeps (ordered env B F) (context_request call env)" for B F call
    by (rule request_keeps) (erule ordered_cong; simp)
  show "run_keeps (ordered env B F) (session_sendBeacon env i)" for B F i
    by (rule sendBeacon_keeps) (erule ordered_cong; simp)
  show "ordered env {} {} (threadSleep env t s)" if "ordered env {} {} s" for t s
    using that by (simp add: ordered_def orderly_def)
  show "keeps (ordered env B F) (provideTimestampInMilliseconds :: ('w, int64) sender_op)" for B F
    unfolding provideTimestampInMilliseconds_def kit_provide_def
    by (intro keeps_bind keeps_return keeps_Inr) (erule ordered_cong; simp)
  show "keeps (ordered env B F) (clear_session i :: ('w, unit) sender_op)" for B F i
    unfolding clear_session_def by (intro ordered_session steady_settings)
  show "keeps (ordered env B F) (on_session i (op_modify (update_configuration f)) :: ('w, unit) sender_op)" for B F i f
    by (intro ordered_session steady_settings)
  show "keeps (ordered env B F) (on_session i (op_modify decreaseNumRemainingSessionRequests) :: ('w, unit) sender_op)" for B F i
    by (intro ordered_session steady_modify) (simp add: decreaseNumRemainingSessionRequests_def)
  show "keeps (ordered env B F) (kit_updateServerConfiguration c i :: ('w, unit) sender_op)" if "i \<in> B" for B F i c
    unfolding kit_updateServerConfiguration_def
    by (rule keepsI) (use that in \<open>auto simp: ordered_def configure_flags intro!: configure_inv\<close>)
  show "keeps (ordered env B F) (kit_endSession i b :: ('w, unit) sender_op)" if "i \<in> B" for B F i b
  proof (rule keepsI)
    fix s :: "'w Sender"
    assume s: "ordered env B F s"
    show "ordered env B F (snd (kit_endSession i b s))"
    proof (cases "orderly env")
      case True
      then have k: "in_order s" "i < length (kSessions s)" using s that by (auto simp: ordered_def)
      then have "session_ok (session_at i s)" by (simp add: kit_inv_def)
      from endSession_effect [OF this k(2), of b] obtain s' where s': "kit_endSession i b s = (Inr (), s')"
        "mIsSessionFinished (session_at i s')" "length (kSessions s') = length (kSessions s)"
        "\<And>j. j \<noteq> i \<Longrightarrow> session_at j s' = session_at j s" by blast
      have "in_order s'" using keeps_result [OF endSession_keeps k(1), of i b] s'(1) by simp
      moreover have "mIsSessionFinished (session_at j s')" if "mIsSessionFinished (session_at j s)" for j
        using s'(2,4) that by (cases "j = i") simp_all
      ultimately show ?thesis using s True by (simp add: ordered_def s')
    qed (simp add: ordered_def)
  qed
  show "ordered env B F (removeSession i s)" if "ordered env B F s" "mIsSessionFinished (session_at i s)" for B F s i
    using that remove_ended [of s i] by (auto simp: ordered_def) (auto simp: removeSession_def session_at_def)
  show "ordered env B F (removeSession i s)" if "i \<in> F" "ordered env B F s" for B F s i
    using that remove_ended [of s i] by (auto simp: ordered_def) (auto simp: removeSession_def session_at_def)
qed (erule ordered_cong; simp add: setInitCompleted_def sender_requestShutdown_def setNextState_def)+

subsection \<open>Executions\<close>

lemma Some_after:
  assumes "run_bind m f s = Some (Inr a, s')"
  obtains b t where "m s = Some (Inr b, t)" and "f b t = Some (Inr a, s')"
  using assms by (auto simp: run_bind_def split: option.splits sum.splits prod.splits)

lemma initial_decides:
  assumes "initial_doExecute env s = Some (Inr (), s')"
  shows "mSenderShutdown s' \<or> mNextSendingState s' \<noteq> None"
proof -
  obtain r t where r: "executeStatusRequest env 0 None s = Some (Inr r, t)" and s': "run_op (\<lambda>s.
       if mSenderShutdown s then (Inr (), setInitCompleted False s)
       else if isSuccessfulResponse r
       then
         op_bind (context_handleStatusResponse r) (\<lambda>_.
         op_modify (\<lambda>s. setInitCompleted True
           (setNextState (if isCaptureOn s then CaptureOnState else CaptureOffState (-1)) s))) s
       else (Inr (), s)) t = Some (Inr (), s')"
    using assms unfolding initial_doExecute_def by (rule Some_after)
  have "mSenderShutdown t \<or> isSuccessfulResponse r" using request_loop_ends [OF r] by simp
  then show ?thesis using s'
    by (auto simp: run_op_def op_bind_def op_modify_def setInitCompleted_def setNextState_def split: if_splits prod.splits sum.splits)
qed

lemma execution_decides:
  assumes "doExecute env st s = Some (Inr (), s')" and "\<not> transition st st"
  shows "mSenderShutdown s' \<or> mNextSendingState s' \<noteq> None"
  using assms
proof (cases st)
  case FlushSessionsState
  then show ?thesis using assms(1) unfolding FlushSessionsState doExecute.simps flush_doExecute_def
    by (elim Some_after) (auto simp: run_op_def op_modify_def setNextState_def)
qed (use assms initial_decides in auto)

lemma state_execution_next:
  assumes "state_execute env st s = Some (Inr (), s')"
  shows "(if mSenderShutdown s' then mNextSendingState s' = Some (getShutdownState st)
    else transition st st \<or> mNextSendingState s' \<noteq> None)"
proof -
  obtain t where t: "doExecute env st s = Some (Inr (), t)"
    "s' = (if mSenderShutdown t then setNextState (getShutdownState st) t else t)"
    using assms unfolding state_execute_def by (rule Some_after) (auto simp: run_op_def op_modify_def)
  then show ?thesis using execution_decides [OF t(1)] by (auto simp: setNextState_def)
qed

lemma executed:
  assumes "calm env" and "executeCurrentState env s = Some (Inr (), s')"
  shows "transition (mSendingState s) (mSendingState s') \<and>
     (mSenderShutdown s' \<longrightarrow> mSendingState s' = getShutdownState (mSendingState s)) \<and> (mSenderShutdown s \<longrightarrow> mSenderShutdown s')"
proof -
  let ?s = "s\<lparr>mNextSendingState := None\<rparr>" and ?st = "mSendingState s"
  obtain t where t: "state_execute env ?st ?s = Some (Inr (), t)"
    "s' = (case mNextSendingState t of None \<Rightarrow> t | Some state \<Rightarrow> t\<lparr>mSendingState := state\<rparr>)"
    using assms(2) unfolding executeCurrentState_def by (rule Some_after) (auto simp: run_op_def op_modify_def)
  have "next_in env ?st (mSenderShutdown s) {} {} ?s" by (simp add: next_in_def)
  from run_result [OF transitions.state_execution [of ?st ?st env "mSenderShutdown s"] this t(1)]
  have "mSendingState t = ?st" "case mNextSendingState t of None \<Rightarrow> True | Some n \<Rightarrow> transition ?st n" "mSenderShutdown s \<longrightarrow> mSenderShutdown t"
    using assms(1) by (simp_all add: next_in_def)
  then show ?thesis using state_execution_next [OF t(1)] t(2) by (auto split: option.splits if_splits)
qed

subsection \<open>The end\<close>

lemma each_done: "(\<And>i k. i \<in> set xs \<Longrightarrow> fst (f i k) = Inr ()) \<Longrightarrow> fst (op_each f xs k) = Inr ()"
proof (induction xs arbitrary: k)
  case (Cons i xs)
  have "fst (f i k) = Inr ()" using Cons.prems by simp
  then show ?case using Cons by (cases "f i k") (simp add: op_bind_def)
qed (simp add: op_return_def)

lemma session_modify_done: "fst (on_session i (op_modify f) k) = Inr ()"
  by (simp add: on_session_def op_modify_def)

lemma clear_done: "fst (clearAllSessionData k) = Inr ()"
  unfolding clearAllSessionData_def
  by (rule each_done) (simp add: clear_session_def op_bind_def on_session_def op_modify_def)

lemma disable_done: "fst (disableCaptureAndClear s) = Inr ()"
  by (cases "clearAllSessionData (context_disableCapture s)")
    (use clear_done [of "context_disableCapture s"] in \<open>simp add: disableCaptureAndClear_def op_bind_def op_modify_def\<close>)

lemma doExecute_stopped:
  assumes "mSenderShutdown s" and "calm env" and "getShutdownState st = FlushSessionsState" and "mSendingState s = st" "mNextSendingState s = None"
  shows "\<exists>s'. doExecute env st s = Some (Inr (), s')"
proof (cases st)
  case CaptureOnState
  then show ?thesis using assms
    by (simp add: captureOn_doExecute_def run_bind_def run_op_def context_sleep_def op_modify_def calm_def)
next
  case (CaptureOffState t)
  obtain s1 where s1: "disableCaptureAndClear s = (Inr (), s1)" using disable_done [of s] by (cases "disableCaptureAndClear s") auto
  have "next_in env st True {} {} s" using assms by (simp add: next_in_def)
  from keeps_result [OF transitions.disable this] s1 have "mSenderShutdown s1" using assms(2) by (simp add: next_in_def)
  then show ?thesis using CaptureOffState s1
    by (simp add: captureOff_doExecute_def run_op_def op_bind_def provideTimestampInMilliseconds_def kit_provide_def op_return_def
        Let_def captureOff_request_def util_sendStatusRequest_def sendStatusRequest_loop.simps captureOff_handleStatusResponse_def
        op_modify_def)
qed (use assms in simp_all)

definition configured_in :: "nat list \<Rightarrow> nat \<Rightarrow> nat set \<Rightarrow> 's Kit_scheme \<Rightarrow> bool" where
  "configured_in L n D k \<longleftrightarrow> kSendingSessions k = L \<and> length (kSessions k) = n \<and> (\<forall>j\<in>D. isConfigured (session_at j k))"

lemma configured_session:
  assumes "\<And>s. isConfigured s \<Longrightarrow> isConfigured (snd (m s))"
  shows "keeps (configured_in L n D) (on_session i m)"
proof (rule keepsI)
  fix k :: "'b Kit_scheme"
  assume k: "configured_in L n D k"
  have "isConfigured (load_session i k) = isConfigured (session_at i k)" by (simp add: load_session_def isConfigured_def)
  then show "configured_in L n D (snd (on_session i m k))"
    using k assms [of "load_session i k"] by (auto simp: configured_in_def on_session_def split: prod.split)
qed

lemma configured_end: "keeps (configured_in L n D) (kit_endSession i b)"
proof -
  have "isConfigured (snd (session_end b s))" if "isConfigured s" for s
    using that beacon_fixed_fields(2) [OF keyed_end [unfolded keyed_def, rule_format, of b s]] by (simp add: isConfigured_def)
  then show ?thesis unfolding kit_endSession_def tell_parent_def proxy_onChildClosed_def
    by (intro keeps_bind configured_session keeps_if keeps_return keeps_modify) (auto simp: configured_in_def)
qed

lemma enabled:
  "set xs \<subseteq> {..<n} \<Longrightarrow> configured_in L n D k \<Longrightarrow>
   configured_in L n (D \<union> set xs) (snd (op_each (\<lambda>i. on_session i (op_modify (update_configuration bc_enableCapture))) xs k))"
proof (induction xs arbitrary: D k)
  case (Cons i xs)
  let ?f = "on_session i (op_modify (update_configuration bc_enableCapture))"
  have all: "isConfigured (update_configuration bc_enableCapture s)" for s
    by (simp add: isConfigured_def update_configuration_def bc_enableCapture_def updateCaptureWith_def)
  have "configured_in L n D (snd (?f k))"
    by (rule keeps_result [OF configured_session Cons.prems(2)]) (simp add: op_modify_def all)
  then have "configured_in L n (insert i D) (snd (?f k))"
    using Cons.prems by (auto simp: configured_in_def on_session_def op_modify_def all)
  from Cons.IH [OF _ this] have "configured_in L n (insert i D \<union> set xs) (snd (op_each (\<lambda>i. on_session i (op_modify (update_configuration bc_enableCapture))) xs (snd (?f k))))"
    using Cons.prems by simp
  moreover have "fst (?f k) = Inr ()" by (rule session_modify_done)
  ultimately show ?case by (cases "?f k") (simp add: op_bind_def)
qed (simp add: op_return_def)

lemma flushed:
  assumes "\<And>i s. \<exists>r s'. session_sendBeacon env i s = Some (Inr r, s')"
  shows "\<exists>s'. flush_sessions env xs b s = Some (Inr (), s') \<and> kSendingSessions s' = fold remove1 xs (kSendingSessions s)"
proof (induction xs arbitrary: b s)
  case (Cons i xs)
  obtain c t where t: "(if \<not> b \<and> isDataSendingAllowed (session_at i s)
      then run_bind (session_sendBeacon env i) (\<lambda>response. run_op (op_return (tooManyRequests response))) s
      else Some (Inr b, s)) = Some (Inr c, t)" "kSendingSessions t = kSendingSessions s"
  proof -
    obtain r s' where r: "session_sendBeacon env i s = Some (Inr r, s')" using assms by blast
    then have "kSendingSessions s' = kSendingSessions s"
      unfolding session_sendBeacon_def Let_def by (auto split: option.splits)
    then show ?thesis using that r by (cases "\<not> b \<and> isDataSendingAllowed (session_at i s)") (auto simp: run_bind_def run_op_def op_return_def)
  qed
  define u where "u = removeSession i (snd (clear_session i t))"
  have u: "op_bind (clear_session i) (\<lambda>_. op_modify (removeSession i)) t = (Inr (), u)"
    by (simp add: u_def clear_session_def op_bind_def on_session_def op_modify_def)
  have k: "kSendingSessions u = remove1 i (kSendingSessions s)"
    using t(2) by (simp add: u_def removeSession_def clear_session_def on_session_def op_modify_def queue_remove_eq)
  from Cons.IH [of c u] show ?case using t(1) u k by (auto simp: run_bind_def run_op_def)
qed (simp add: run_op_def op_return_def)

lemma remove_all: "fold remove1 xs xs = []"
proof -
  have "fold remove1 xs (xs @ ys) = ys" for ys by (induction xs arbitrary: ys) simp_all
  from this [of "[]"] show ?thesis by simp
qed

lemma flush_complete:
  fixes s :: "'w Sender"
  assumes sends: "\<And>i s. \<exists>r s'. session_sendBeacon env i s = Some (Inr r, s')" and order: "in_order s"
  shows "\<exists>s'. flush_doExecute env s = Some (Inr (), s') \<and> kSendingSessions s' = []"
proof -
  let ?L = "kSendingSessions s" and ?n = "length (kSessions s)"
  let ?enable = "op_each (\<lambda>i. on_session i (op_modify (update_configuration bc_enableCapture))) (getAllNotConfiguredSessions s)"
  have valid: "set ?L \<subseteq> {..<?n}" using order by (simp add: kit_inv_def)
  obtain s1 where s1: "?enable s = (Inr (), s1)"
    using each_done [of "getAllNotConfiguredSessions s" "\<lambda>i. on_session i (op_modify (update_configuration bc_enableCapture))" s]
      session_modify_done by (cases "?enable s") auto
  have "configured_in ?L ?n {j \<in> set ?L. isConfigured (session_at j s)} s" by (simp add: configured_in_def)
  from enabled [OF _ this, of "getAllNotConfiguredSessions s"] s1 valid
  have "configured_in ?L ?n ({j \<in> set ?L. isConfigured (session_at j s)} \<union> set (getAllNotConfiguredSessions s)) s1"
    by (auto simp: getAllNotConfiguredSessions_def sessions_with_def queue_toStdVector_def)
  then have c1: "configured_in ?L ?n (set ?L) s1"
    by (auto simp: configured_in_def getAllNotConfiguredSessions_def sessions_with_def queue_toStdVector_def)
  have "keeps in_order (?enable :: ('w, unit) sender_op)" by (intro keeps_each steady_keeps steady_settings)
  from keeps_result [OF this order] s1 have o1: "in_order s1" by simp
  let ?O = "getAllOpenAndConfiguredSessions s1"
  have "set ?O \<subseteq> {..<length (kSessions s1)}"
    using o1 by (auto simp: kit_inv_def getAllOpenAndConfiguredSessions_def sessions_with_def queue_toStdVector_def)
  from end_each [OF o1 this, of "\<lambda>_. False"] obtain s2 where s2: "op_each (\<lambda>i. kit_endSession i False) ?O s1 = (Inr (), s2)"
    "\<And>j. mIsSessionFinished (session_at j s2) = (j \<in> set ?O \<or> mIsSessionFinished (session_at j s1))" by blast
  have "keeps (configured_in ?L ?n (set ?L)) (op_each (\<lambda>i. kit_endSession i False) ?O :: ('w, unit) sender_op)"
    by (intro keeps_each configured_end)
  from keeps_result [OF this c1] s2(1) have c2: "configured_in ?L ?n (set ?L) s2" by simp
  have "mIsSessionFinished (session_at j s2)" if "j \<in> set ?L" for j
    using that c1 unfolding s2(2)
    by (auto simp: getAllOpenAndConfiguredSessions_def sessions_with_def queue_toStdVector_def configured_in_def isConfiguredAndOpen_def)
  then have all: "getAllFinishedAndConfiguredSessions s2 = ?L"
    using c2 by (simp add: getAllFinishedAndConfiguredSessions_def sessions_with_def queue_toStdVector_def configured_in_def
        isConfiguredAndFinished_def)
  from flushed [OF sends, of ?L False s2] obtain s3 where s3: "flush_sessions env ?L False s2 = Some (Inr (), s3)" "kSendingSessions s3 = []"
    using c2 by (auto simp: configured_in_def remove_all)
  show ?thesis
    using s1 s2(1) s3 by (simp add: flush_doExecute_def run_bind_def run_op_def all op_modify_def setNextState_def)
qed

lemma one_execution:
  assumes "doExecute env (mSendingState s) (s\<lparr>mNextSendingState := None\<rparr>) = Some (Inr (), t)"
  shows "\<exists>s'. executeCurrentState env s = Some (Inr (), s') \<and> kSendingSessions s' = kSendingSessions t \<and> kSessions s' = kSessions t"
  using assms by (simp add: executeCurrentState_def state_execute_def run_bind_def run_op_def op_modify_def setNextState_def split: option.split)

lemma execution_in_order:
  assumes "orderly env" and "in_order s" and "executeCurrentState env s = Some (r, s')"
  shows "in_order s'"
proof -
  let ?s = "s\<lparr>mNextSendingState := None\<rparr>"
  have k: "run_keeps (ordered env {} {}) (run_bind (state_execute env (mSendingState s)) (\<lambda>_. run_op (op_modify (\<lambda>s.
       case mNextSendingState s of None \<Rightarrow> s | Some state \<Rightarrow> s\<lparr>mSendingState := state\<rparr>))))"
  proof (intro run_keeps_bind run_triple_op keeps_modify order.state_execution)
    show "ordered env {} {} (case mNextSendingState s of None \<Rightarrow> s | Some state \<Rightarrow> s\<lparr>mSendingState := state\<rparr>)"
      if "ordered env {} {} s" for s
      using that by (auto split: option.split elim: ordered_cong)
  qed simp
  have "ordered env {} {} s" using assms(2) by (simp add: ordered_def)
  then have "ordered env {} {} ?s" by (rule ordered_cong) simp_all
  from run_keeps_result [OF k this] assms(3) have "ordered env {} {} s'" by (simp add: executeCurrentState_def)
  then show ?thesis using assms(1) by (simp add: ordered_def)
qed

lemma thread_flushes:
  fixes s :: "'w Sender"
  assumes env: "calm env" "orderly env" and sends: "\<And>i s. \<exists>r s'. session_sendBeacon env i s = Some (Inr r, s')"
    and s: "in_order s" "mSenderShutdown s" and st: "mSendingState s = FlushSessionsState"
  shows "\<exists>s'. sender_thread env s = Some (Inr (), s') \<and> isInTerminalState s' \<and> kSendingSessions s' = [] \<and> in_order s'"
proof -
  have "in_order (s\<lparr>mNextSendingState := None\<rparr>)"
    using s(1) by (simp add: kit_inv_def open_sessions_def session_at_def parent_of_def proxy_at_def)
  from flush_complete [OF sends this] obtain t where "flush_doExecute env (s\<lparr>mNextSendingState := None\<rparr>) = Some (Inr (), t)"
    "kSendingSessions t = []" by blast
  then obtain s' where s': "executeCurrentState env s = Some (Inr (), s')" "kSendingSessions s' = []"
    using one_execution [of env s t] st by auto
  have "mSendingState s' = TerminalState" using executed [OF env(1) s'(1)] st by simp
  moreover have "in_order s'" by (rule execution_in_order [OF env(2) s(1) s'(1)])
  ultimately show ?thesis
    using s' st by (subst sender_thread.simps) (simp add: isInTerminalState_def sender_thread.simps)
qed

lemma thread_ends:
  fixes s :: "'w Sender"
  assumes env: "calm env" "orderly env" and sends: "\<And>i s. \<exists>r s'. session_sendBeacon env i s = Some (Inr r, s')"
    and s: "in_order s" "mSenderShutdown s" and st: "mSendingState s \<noteq> InitialState" "mSendingState s \<noteq> TerminalState"
  shows "\<exists>s'. sender_thread env s = Some (Inr (), s') \<and> isInTerminalState s' \<and> kSendingSessions s' = [] \<and> in_order s'"
proof (cases "mSendingState s = FlushSessionsState")
  case True
  then show ?thesis by (rule thread_flushes [OF env sends s])
next
  case False
  then have st': "getShutdownState (mSendingState s) = FlushSessionsState" using st by (cases "mSendingState s") simp_all
  then obtain t where "doExecute env (mSendingState s) (s\<lparr>mNextSendingState := None\<rparr>) = Some (Inr (), t)"
    using doExecute_stopped [of "s\<lparr>mNextSendingState := None\<rparr>" env "mSendingState s"] s(2) env(1) by auto
  then obtain s' where s': "executeCurrentState env s = Some (Inr (), s')" using one_execution by blast
  have "mSendingState s' = FlushSessionsState" "mSenderShutdown s'" using executed [OF env(1) s'] st' s(2) by simp_all
  with execution_in_order [OF env(2) s(1) s'] obtain t where "sender_thread env s' = Some (Inr (), t)" "isInTerminalState t"
    "kSendingSessions t = []" "in_order t"
    using thread_flushes [OF env sends, of s'] by blast
  then show ?thesis using s' st(2) by (subst sender_thread.simps) (auto simp: isInTerminalState_def)
qed

subsection \<open>The rounds of the initial state\<close>

text \<open>A round that does not end the loop: the index, the response and the state the next one starts with.\<close>

definition initial_round :: "'w sender_env \<Rightarrow> nat \<times> StatusResponse option \<times> 'w Sender \<Rightarrow> (nat \<times> StatusResponse option \<times> 'w Sender) option" where
  "initial_round env = (\<lambda>(i, r, s).
     if mSenderShutdown s then None
     else (case initial_request env s of
         (Inl e, s) \<Rightarrow> None
       | (Inr r, s) \<Rightarrow>
           if isSuccessfulResponse r then None
           else (case reinitialize_delay env i r s of (Inl e, s) \<Rightarrow> None | (Inr _, s) \<Rightarrow> Some (next_delay_index i, r, s))))"

primrec initial_rounds :: "'w sender_env \<Rightarrow> nat \<Rightarrow> 'w Sender \<Rightarrow> (nat \<times> StatusResponse option \<times> 'w Sender) option" where
  "initial_rounds env 0 s = Some (0, None, s)"
| "initial_rounds env (Suc n) s = Option.bind (initial_rounds env n s) (initial_round env)"

lemma request_loop_step:
  "executeStatusRequest env i r s = (case initial_round env (i, r, s) of
     None \<Rightarrow> executeStatusRequest env i r s | Some (i', r', s') \<Rightarrow> executeStatusRequest env i' r' s')"
  by (subst executeStatusRequest.simps, subst (2) executeStatusRequest.simps)
    (auto simp: initial_round_def split: prod.split sum.split option.split)

lemma loop_stops: "initial_round env (i, r, s) = None \<Longrightarrow> executeStatusRequest env i r s \<noteq> None"
  by (subst executeStatusRequest.simps) (auto simp: initial_round_def split: prod.splits sum.splits if_splits)

lemma loop_rounds:
  "initial_rounds env n s = Some (i, r, t) \<Longrightarrow> executeStatusRequest env 0 None s = executeStatusRequest env i r t"
proof (induction n arbitrary: i r t)
  case (Suc n)
  then obtain j q u where u: "initial_rounds env n s = Some (j, q, u)" "initial_round env (j, q, u) = Some (i, r, t)"
    by (auto simp: bind_eq_Some_conv)
  show ?case using Suc.IH [OF u(1)] request_loop_step [of env j q u] u(2) by simp
qed simp

lemma round_index: "initial_rounds env n s = Some (i, r, t) \<Longrightarrow> i = min n 4"
proof (induction n arbitrary: i r t)
  case (Suc n)
  then obtain j q u where "initial_rounds env n s = Some (j, q, u)" "initial_round env (j, q, u) = Some (i, r, t)"
    by (auto simp: bind_eq_Some_conv)
  then show ?case using Suc.IH
    by (auto simp: initial_round_def next_delay_index_def REINIT_DELAY_MILLISECONDS_def split: if_splits prod.splits sum.splits)
qed simp

lemma loop_returns_rounds:
  assumes "executeStatusRequest env i r s \<noteq> None" and "initial_rounds env n u = Some (i, r, s)"
  shows "\<exists>m. initial_rounds env m u = None"
proof -
  obtain y where y: "executeStatusRequest env i r s = Some y" using assms(1) by blast
  have "e = env \<longrightarrow> (\<forall>n. initial_rounds env n u = Some (i, r, s) \<longrightarrow> (\<exists>m. initial_rounds env m u = None))"
    if "executeStatusRequest e i r s = Some y" for e
  proof (rule executeStatusRequest.raw_induct [where
      P = "\<lambda>e i r s y. e = env \<longrightarrow> (\<forall>n. initial_rounds env n u = Some (i, r, s) \<longrightarrow> (\<exists>m. initial_rounds env m u = None))", OF _ that])
    fix loop :: "'a sender_env \<Rightarrow> nat \<Rightarrow> StatusResponse option \<Rightarrow> ('a Sender, StatusResponse option) run" and e i r s y
    assume IH: "\<And>e i r s y. loop e i r s = Some y \<Longrightarrow> e = env \<longrightarrow> (\<forall>n. initial_rounds env n u = Some (i, r, s) \<longrightarrow> (\<exists>m. initial_rounds env m u = None))"
      and y: "(if mSenderShutdown s then Some (Inr r, s)
      else
        (case initial_request e s of
           (Inl x, s) \<Rightarrow> Some (Inl x, s)
         | (Inr r, s) \<Rightarrow>
             if isSuccessfulResponse r then Some (Inr r, s)
             else
               (case reinitialize_delay e i r s of
                  (Inl x, s) \<Rightarrow> Some (Inl x, s)
                | (Inr _, s) \<Rightarrow> loop e (next_delay_index i) r s))) = Some y"
    show "e = env \<longrightarrow> (\<forall>n. initial_rounds env n u = Some (i, r, s) \<longrightarrow> (\<exists>m. initial_rounds env m u = None))"
    proof (intro impI allI)
      fix n
      assume e: "e = env" and n: "initial_rounds env n u = Some (i, r, s)"
      show "\<exists>m. initial_rounds env m u = None"
      proof (cases "initial_round env (i, r, s)")
        case None
        then have "initial_rounds env (Suc n) u = None" using n by simp
        then show ?thesis by blast
      next
        case (Some z)
        obtain i' r' s' where z: "z = (i', r', s')" by (cases z)
        have "loop env i' r' s' = Some y"
          using y Some by (auto simp: e z initial_round_def split: if_splits prod.splits sum.splits)
        moreover have "initial_rounds env (Suc n) u = Some (i', r', s')" using n Some z by simp
        ultimately show ?thesis using IH by blast
      qed
    qed
  qed
  then show ?thesis using y assms(2) by blast
qed

subsection \<open>The states of the system\<close>

text \<open>The calls of the application come between the executions of the sender, and while it sleeps.\<close>

inductive sender_reached :: "'d double_ops \<Rightarrow> 'w sender_env \<Rightarrow> 'w Sender \<Rightarrow> bool" for fp env where
  start: "sender_reached fp env (Sender_new (Kit_new ok pc rds draws n) w)"
| called: "sender_reached fp env s \<Longrightarrow> proper_call x s \<Longrightarrow> sender_reached fp env (snd (kit_step fp x s))"
| executes: "sender_reached fp env s \<Longrightarrow> executeCurrentState env s = Some (r, s') \<Longrightarrow> sender_reached fp env s'"

lemma sender_new_order: "in_order (Sender_new k w) = in_order k"
  by (simp add: Sender_new_def Kit.extend_def kit_inv_def open_sessions_def session_at_def parent_of_def proxy_at_def)

lemma sender_order: "sender_reached fp env s \<Longrightarrow> orderly env \<Longrightarrow> in_order s"
proof (induction rule: sender_reached.induct)
  case (start ok pc rds draws n w)
  show ?case unfolding sender_new_order by (rule reached_in_order [OF kit_reached.initial])
next
  case (called s x)
  then show ?case by (intro kit_step_keeps) simp_all
next
  case (executes s r s')
  then show ?case by (intro execution_in_order [of env s r s']) simp_all
qed

subsection \<open>An environment\<close>

text \<open>No request gets an answer, and nothing happens while the sender sleeps.\<close>

definition quiet_env :: "unit sender_env" where
  "quiet_env =
     \<lparr>createClient = (\<lambda>_. \<lparr>vSendStatusRequest = (\<lambda>t w. (Inr None, w)), vSendNewSessionRequest = (\<lambda>t w. (Inr None, w)),
        vSendBeaconRequest = (\<lambda>ip chunk t n d w. (Inr None, w))\<rparr>),
      threadSleep = (\<lambda>t s. s)\<rparr>"

lemma quiet_env_calm: "calm quiet_env" "orderly quiet_env"
  by (simp_all add: calm_def orderly_def quiet_env_def)

lemma quiet_env_sends: "\<exists>r s'. session_sendBeacon quiet_env i s = Some (Inr r, s')"
proof -
  have "\<exists>r c' w t. send_loop BeaconCache_vtable k (beacon_send_env b d rd (beacon_client (createClient quiet_env h) ts)) r0 c (w0, t0, None)
      = Some (r, c', w, t, None)" for k b d rd h ts r0 c w0 t0
    by (subst send_loop.simps) (auto simp: Let_def beacon_send_env_def beacon_client_def quiet_env_def)
  note loop = this
  let ?x = "load_session i s"
  let ?b = "sBeacon ?x"
  obtain r c' w t where "send_loop BeaconCache_vtable (mBeaconKey ?b) (beacon_send_env ?b (mSupplementaryBasicData ?x) (\<lambda>(w, tick, _). kReadings s tick)
      (beacon_client (createClient quiet_env (bcHTTPClientConfiguration (mBeaconConfiguration ?b))) (mTimestampInMilliseconds (mLastResponseAttributes s))))
      None (vPrepareDataForSending BeaconCache_vtable (mBeaconKey ?b) (kCache s)) (mWorld s, kTick s, None) = Some (r, c', w, t, None)"
    using loop by blast
  then show ?thesis by (simp add: session_sendBeacon_def beacon_send_def Let_def)
qed

subsection \<open>Properties\<close>

text \<open>C10: The states of the sender: an execution of a state that returns goes from the initial state to capture on, capture
  off or the end, from capture on and capture off to each other or to the flush of the sessions, and from the flush to the end;
  it stays at capture on, capture off and the end only. When a shutdown has been requested it goes to the flush, or to the
  end from the initial state, and a request of a shutdown is never taken back.\<close>

theorem sending_state_actions:
  assumes "calm env" and "executeCurrentState env s = Some (Inr (), s')"
  shows "transition (mSendingState s) (mSendingState s') \<and>
     (mSenderShutdown s' \<longrightarrow> mSendingState s' = getShutdownState (mSendingState s)) \<and> (mSenderShutdown s \<longrightarrow> mSenderShutdown s')"
  using assms by (rule executed)

lemma sending_state_actions_witness:
  "\<forall>ok pc. \<exists>s'. executeCurrentState quiet_env ((Sender_new (sample_kit ok pc) ())\<lparr>mSendingState := FlushSessionsState\<rparr>) = Some (Inr (), s')
     \<and> transition FlushSessionsState (mSendingState s')"
proof (intro allI)
  fix ok pc
  let ?s = "(Sender_new (sample_kit ok pc) ())\<lparr>mSendingState := FlushSessionsState\<rparr>"
  have "kSendingSessions ?s = []" by (simp add: Sender_new_def Kit.extend_def sample_kit_def Kit_new_def)
  then obtain s' where s': "executeCurrentState quiet_env ?s = Some (Inr (), s')"
    by (simp add: executeCurrentState_def state_execute_def flush_doExecute_def run_bind_def run_op_def op_return_def op_modify_def
      getAllNotConfiguredSessions_def getAllOpenAndConfiguredSessions_def getAllFinishedAndConfiguredSessions_def sessions_with_def
      queue_toStdVector_def setNextState_def)
  show "\<exists>s'. executeCurrentState quiet_env ?s = Some (Inr (), s') \<and> transition FlushSessionsState (mSendingState s')"
    using s' sending_state_actions [OF quiet_env_calm(1) s'] by auto
qed

text \<open>C12: In every state of the whole system, whatever the application calls between and during the executions of the
  sender: a proxy's children are exactly its open sessions, and every session that has not ended is in the list of the
  sender. So the sender never loses a session that can still record data.\<close>

theorem sender_keeps_sessions:
  assumes "sender_reached fp env s" and "orderly env"
  shows "(\<forall>p<length (kProxies s). prChildren (proxy_at p s) = open_sessions p s) \<and>
    (\<forall>i<length (kSessions s). mIsSessionFinished (session_at i s) \<or> i \<in> set (kSendingSessions s))"
  using sender_order [OF assms] by (simp add: kit_inv_def)

lemma sender_keeps_sessions_witness:
  "\<forall>(fp :: unit double_ops) ok pc. prChildren (proxy_at 0 (snd (kit_step fp (CreateSession None) (Sender_new (sample_kit ok pc) ())))) =
     open_sessions 0 (snd (kit_step fp (CreateSession None) (Sender_new (sample_kit ok pc) ())))"
proof (intro allI)
  fix fp :: "unit double_ops" and ok pc
  let ?s = "Sender_new (sample_kit ok pc) ()"
  have r: "sender_reached fp quiet_env (snd (kit_step fp (CreateSession None) ?s))"
    unfolding sample_kit_def by (rule sender_reached.called [OF sender_reached.start]) simp
  have s: "\<not> mIsShutdown ?s" "kServerConfiguration ?s = DefaultInstance" "kProxies ?s = []"
    by (simp_all add: Sender_new_def Kit.extend_def sample_kit_def Kit_new_def)
  obtain k' where "openkit_createSession None ?s = (Inr (Some 0), k')" "length (kProxies k') = 1"
    using new_sessions_proxy [OF s(1,2)] s(3) by auto
  then have "0 < length (kProxies (snd (kit_step fp (CreateSession None) ?s)))"
    by (simp add: result_lost_def op_bind_def op_return_def)
  with sender_keeps_sessions [OF r quiet_env_calm(2)]
  show "prChildren (proxy_at 0 (snd (kit_step fp (CreateSession None) ?s))) = open_sessions 0 (snd (kit_step fp (CreateSession None) ?s))"
    by blast
qed




definition same_phase :: "'w Sender \<Rightarrow> 'w Sender \<Rightarrow> bool" where
  "same_phase s t \<longleftrightarrow> mSendingState t = mSendingState s \<and> mNextSendingState t = mNextSendingState s \<and> mSenderShutdown t = mSenderShutdown s"

lemma same_phase_trans: "same_phase s t \<Longrightarrow> same_phase t u \<Longrightarrow> same_phase s u"
  by (simp add: same_phase_def)

lemma clear_same_phase: "\<exists>t. clearAllSessionData s = (Inr (), t) \<and> same_phase s t \<and> isCaptureOn t = isCaptureOn s"
proof -
  obtain t where t: "clearAllSessionData s = (Inr (), t)" using clear_done [of s] by (cases "clearAllSessionData s") auto
  then have "Kit.more t = Kit.more s" "mSenderShutdown t = mSenderShutdown s" "kServerConfiguration t = kServerConfiguration s"
    using outer_clear [unfolded outer_def, rule_format, of s] by simp_all
  then show ?thesis using t thread_fields [of t s] by (simp add: same_phase_def isCaptureOn_def)
qed

lemma disable_same_phase: "\<exists>t. disableCaptureAndClear s = (Inr (), t) \<and> same_phase s t"
proof -
  obtain t where "clearAllSessionData (context_disableCapture s) = (Inr (), t)" "same_phase (context_disableCapture s) t"
    using clear_same_phase by blast
  then show ?thesis
    by (simp add: disableCaptureAndClear_def op_bind_def op_modify_def same_phase_def context_disableCapture_def)
qed

lemma update_same_phase:
  assumes "\<not> Response_Parsing.isErroneousResponse r" and "isAttributeSet IS_CAPTURE (mResponseAttributes r)" and "\<not> mIsCapture (mResponseAttributes r)"
  shows "\<exists>a t. updateFrom (Some r) s = (Inr a, t) \<and> same_phase s t \<and> \<not> isCaptureOn t"
proof -
  have "\<not> mIsCapture (merge (mLastResponseAttributes s) (mResponseAttributes r))"
    using assms(2,3) unfolding merge_with_values by (simp add: with_values_def chosen_def)
  then show ?thesis using assms(1)
    by (simp add: updateFrom_def Let_def set_server_id_def sc_withCapture_def ServerConfiguration_from_def same_phase_def isCaptureOn_def
        getServerConfigurationOrDefault_def)
qed

lemma off_after_answer:
  assumes "\<not> Response_Parsing.isErroneousResponse r" and "isAttributeSet IS_CAPTURE (mResponseAttributes r)" and "\<not> mIsCapture (mResponseAttributes r)"
  shows "\<exists>t. captureOff_handleStatusResponse (Some r) s = (Inr (), t) \<and> same_phase s t"
proof -
  obtain a u where u: "updateFrom (Some r) s = (Inr a, u)" "same_phase s u" "\<not> isCaptureOn u"
    using update_same_phase [OF assms] by blast
  obtain t where t: "clearAllSessionData u = (Inr (), t)" "same_phase u t" "isCaptureOn t = isCaptureOn u"
    using clear_same_phase by blast
  have "\<not> isTooManyRequestsResponse r"
    using assms(1) by (auto simp: isTooManyRequestsResponse_def Response_Parsing.isErroneousResponse_def)
  then have "captureOff_handleStatusResponse (Some r) s = (Inr (), t)"
    using assms(1) u t
    by (simp add: captureOff_handleStatusResponse_def context_handleStatusResponse_def isSuccessfulResponse_def op_bind_def
        op_modify_def tooManyRequests_def)
  then show ?thesis using same_phase_trans u(2) t(2) by blast
qed

lemma captureOff_waits:
  assumes "calm env" and "\<And>c t w. vSendStatusRequest (createClient env c) t w = (Inr (Some r), w)"
    and "\<not> Response_Parsing.isErroneousResponse r" and "isAttributeSet IS_CAPTURE (mResponseAttributes r)" and "\<not> mIsCapture (mResponseAttributes r)"
    and "0 < sint delay" and "\<not> mSenderShutdown s" and "\<And>t s. \<not> mSenderShutdown s \<Longrightarrow> \<not> mSenderShutdown (threadSleep env t s)"
  shows "\<exists>t. captureOff_doExecute env delay s = (Inr (), t) \<and> same_phase s t"
proof -
  obtain s1 where s1: "disableCaptureAndClear s = (Inr (), s1)" "same_phase s s1" using disable_same_phase by blast
  define s2 where "s2 = s1\<lparr>kTick := kTick s1 + 1\<rparr>"
  define now' where "now' = now (kReadings s1 (kTick s1))"
  have time: "provideTimestampInMilliseconds s1 = (Inr now', s2)"
    by (simp add: provideTimestampInMilliseconds_def kit_provide_def op_bind_def op_return_def s2_def now'_def)
  have s2: "same_phase s s2" using s1(2) by (simp add: s2_def same_phase_def)
  define s3 where "s3 = threadSleep env delay s2"
  have s3: "same_phase s s3"
    using s2 assms(1,7) assms(8) [of s2 delay] by (simp add: s3_def same_phase_def calm_def)
  then have open3: "\<not> mSenderShutdown s3" using assms(7) by (simp add: same_phase_def)
  define s4 where "s4 = s3\<lparr>mWorld := mWorld s3\<rparr>"
  have req: "util_sendStatusRequest env STATUS_REQUEST_RETRIES INITIAL_RETRY_SLEEP_TIME_MILLISECONDS s3 = (Inr (Some r), s4)"
    unfolding util_sendStatusRequest_def
    by (subst sendStatusRequest_loop.simps) (use open3 assms(2,3) in \<open>simp add: context_request_def isSuccessfulResponse_def s4_def\<close>)
  have s4: "same_phase s s4" using s3 by (simp add: s4_def same_phase_def)
  obtain s5 where s5: "captureOff_handleStatusResponse (Some r) s4 = (Inr (), s5)" "same_phase s4 s5"
    using off_after_answer [OF assms(3-5)] by blast
  have "captureOff_doExecute env delay s = (Inr (), s5\<lparr>mLastStatusCheckTime := now'\<rparr>)"
    using s1(1) time assms(6) s2 open3 req s5(1) assms(7)
    by (simp add: captureOff_doExecute_def op_bind_def captureOff_delta_def Let_def same_phase_def context_sleep_def op_modify_def
        s3_def [symmetric] captureOff_request_def)
  moreover have "same_phase s (s5\<lparr>mLastStatusCheckTime := now'\<rparr>)"
    using same_phase_trans [OF s4 s5(2)] by (simp add: same_phase_def)
  ultimately show ?thesis by blast
qed

text \<open>Once the server has named a delay, the state of capture off keeps it: while the answers of the server keep
  capturing off, every status request comes after that delay, and never again after the interval of two hours.\<close>

theorem capture_off_keeps_delay:
  assumes "calm env" and "\<And>c t w. vSendStatusRequest (createClient env c) t w = (Inr (Some r), w)"
    and "\<not> Response_Parsing.isErroneousResponse r" and "isAttributeSet IS_CAPTURE (mResponseAttributes r)" and "\<not> mIsCapture (mResponseAttributes r)"
    and "mSendingState s = CaptureOffState delay" and "0 < sint delay" and "\<not> mSenderShutdown s"
    and "\<And>t s. \<not> mSenderShutdown s \<Longrightarrow> \<not> mSenderShutdown (threadSleep env t s)"
  shows "\<exists>s'. executeCurrentState env s = Some (Inr (), s') \<and> mSendingState s' = CaptureOffState delay"
proof -
  let ?s = "s\<lparr>mNextSendingState := None\<rparr>"
  obtain t where t: "captureOff_doExecute env delay ?s = (Inr (), t)" "same_phase ?s t"
    using captureOff_waits [OF assms(1-5,7), of ?s] assms(8,9) by auto
  then show ?thesis using assms(6,8)
    by (simp add: executeCurrentState_def state_execute_def run_bind_def run_op_def op_modify_def same_phase_def)
qed

definition answering_env :: "StatusResponse \<Rightarrow> unit sender_env" where
  "answering_env r =
     \<lparr>createClient = (\<lambda>_. \<lparr>vSendStatusRequest = (\<lambda>t w. (Inr (Some r), w)), vSendNewSessionRequest = (\<lambda>t w. (Inr (Some r), w)),
        vSendBeaconRequest = (\<lambda>ip chunk t n d w. (Inr (Some r), w))\<rparr>),
      threadSleep = (\<lambda>t s. s)\<rparr>"

definition capture_off_answer :: StatusResponse where
  "capture_off_answer = createSuccessResponse (build (withCapture False withUndefinedDefaults)) 200 []"

lemma capture_off_keeps_delay_witness:
  "\<forall>ok pc. \<exists>s'. executeCurrentState (answering_env capture_off_answer)
       ((Sender_new (sample_kit ok pc) ())\<lparr>mSendingState := CaptureOffState 10000\<rparr>) = Some (Inr (), s') \<and> mSendingState s' = CaptureOffState 10000"
proof (intro allI)
  fix ok pc
  let ?s = "(Sender_new (sample_kit ok pc) ())\<lparr>mSendingState := CaptureOffState 10000\<rparr>"
  have "\<not> Response_Parsing.isErroneousResponse capture_off_answer" by code_simp
  moreover have "isAttributeSet IS_CAPTURE (mResponseAttributes capture_off_answer)" by code_simp
  moreover have "\<not> mIsCapture (mResponseAttributes capture_off_answer)" by code_simp
  moreover have "calm (answering_env capture_off_answer)" by (simp add: calm_def answering_env_def)
  moreover have "\<not> mSenderShutdown ?s" by (simp add: Sender_new_def Kit.extend_def sample_kit_def Kit_new_def)
  ultimately show "\<exists>s'. executeCurrentState (answering_env capture_off_answer) ?s = Some (Inr (), s') \<and> mSendingState s' = CaptureOffState 10000"
    by (intro capture_off_keeps_delay [where r = capture_off_answer]) (simp_all add: answering_env_def)
qed

text \<open>C16: The first answer of the server that names no server identifier replaces the configured one by -1, for the requests
  of the sender and for the sessions to come.\<close>

theorem first_answer_server_id:
  assumes "mLastResponseAttributes s = build withUndefinedDefaults" and "\<not> Response_Parsing.isErroneousResponse r"
    and "\<not> isAttributeSet SERVER_ID (mResponseAttributes r)" and "hcServerID (mSenderHTTPConfiguration s) \<noteq> -1"
  shows "\<exists>a s'. updateFrom (Some r) s = (Inr a, s') \<and> hcServerID (mSenderHTTPConfiguration s') = -1 \<and> kServerID s' = -1"
proof -
  let ?a = "merge (mLastResponseAttributes s) (mResponseAttributes r)"
  have "mServerId ?a = -1"
    using assms(1,3) unfolding merge_with_values
    by (simp add: with_values_def chosen_def build_def withUndefinedDefaults_def Builder_new_eq UndefinedDefaults_def)
  then have "scServerId (ServerConfiguration_from ?a) = -1" by (simp add: ServerConfiguration_from_def)
  then show ?thesis using assms(2,4)
    by (simp add: updateFrom_def Let_def set_server_id_def withServerID_def sc_withCapture_def)
qed

lemma first_answer_server_id_witness:
  "\<forall>ok pc. \<exists>a s'. updateFrom (Some capture_off_answer) (Sender_new (sample_kit (ok\<lparr>okDefaultServerId := 1\<rparr>) pc) ()) = (Inr a, s') \<and>
     hcServerID (mSenderHTTPConfiguration s') = -1"
proof (intro allI)
  fix ok :: OpenKitConfiguration and pc
  let ?s = "Sender_new (sample_kit (ok\<lparr>okDefaultServerId := 1\<rparr>) pc) ()"
  have "hcServerID (mSenderHTTPConfiguration ?s) \<noteq> -1"
    by (simp add: Sender_new_def Kit.extend_def sample_kit_def Kit_new_def HTTPClientConfiguration_from_def)
  moreover have "mLastResponseAttributes ?s = build withUndefinedDefaults"
    by (simp add: Sender_new_def Kit.extend_def)
  moreover have "\<not> Response_Parsing.isErroneousResponse capture_off_answer" by code_simp
  moreover have "\<not> isAttributeSet SERVER_ID (mResponseAttributes capture_off_answer)" by code_simp
  ultimately show "\<exists>a s'. updateFrom (Some capture_off_answer) ?s = (Inr a, s') \<and> hcServerID (mSenderHTTPConfiguration s') = -1"
    using first_answer_server_id [of ?s capture_off_answer] by blast
qed

end
