(* ===== verification/Kit_Invariants.thy ===== *)
theory Kit_Invariants
  imports Sender_Facts Beacon_Identity
begin

text \<open>
  Invariants that depend only on the identities of proxies and sessions: the number of the series and of the
  session a proxy gives next, the keys of the beacons, and what has been drawn for them. Few operations change
  them; the locale \<open>kit_invariant\<close> asks these to keep the invariant, and proves that every call then does. Its
  interpretations: the number of proxies, which never falls, and the keys of the beacons, which are distinct.
\<close>

subsection \<open>Identities\<close>

definition identity_of :: "'s Kit_scheme \<Rightarrow> (int32 \<times> int32) list \<times> (nat \<times> BeaconKey) list \<times> nat \<times> int32" where
  "identity_of k =
     (map (\<lambda>x. (crSessionId (prCreator x), crSessionSequenceNumber (prCreator x))) (kProxies k),
      map (\<lambda>(p, s). (p, mBeaconKey (sBeacon s))) (kSessions k), kNextDraw k, mLastSessionNumber k)"

definition same_identity :: "('s Kit_scheme, 'a) cpp_op \<Rightarrow> bool" where
  "same_identity m \<longleftrightarrow> (\<forall>k. identity_of (snd (m k)) = identity_of k)"

lemma identity_proxy:
  assumes "\<And>x. crSessionId (prCreator (f x)) = crSessionId (prCreator x)"
    and "\<And>x. crSessionSequenceNumber (prCreator (f x)) = crSessionSequenceNumber (prCreator x)"
  shows "identity_of (update_proxy p f k) = identity_of k"
proof -
  have "map g (xs[i := f (xs ! i)]) = map g xs" if "\<And>x. g (f x) = g x" for g :: "SessionProxy \<Rightarrow> int32 \<times> int32" and xs and i
    by (rule nth_equalityI) (auto simp: nth_update that)
  then show ?thesis using assms by (simp add: identity_of_def update_proxy_def proxy_at_def)
qed

lemma identity_basic:
  "same_identity (op_return a)" "same_identity (op_throw e)" "same_identity (current_session p)" "same_identity kit_provide"
  "(\<And>k. identity_of (f k) = identity_of k) \<Longrightarrow> same_identity (op_modify f)"
  by (simp_all add: same_identity_def op_return_def op_throw_def current_session_def kit_provide_def op_modify_def identity_of_def)

lemma identity_bind: "same_identity m \<Longrightarrow> (\<And>a. same_identity (f a)) \<Longrightarrow> same_identity (op_bind m f)"
  by (auto simp: same_identity_def op_bind_def split: prod.split sum.split) (metis snd_conv)+

lemma identity_if: "(b \<Longrightarrow> same_identity m) \<Longrightarrow> (\<not> b \<Longrightarrow> same_identity m') \<Longrightarrow> same_identity (if b then m else m')"
  by simp

lemma identity_state: "(\<And>k. same_identity (f k)) \<Longrightarrow> same_identity (\<lambda>k. f k k)"
  by (simp add: same_identity_def)

lemma identity_each: "(\<And>x. same_identity (f x)) \<Longrightarrow> same_identity (op_each f xs)"
  by (induction xs) (auto intro: identity_basic identity_bind)

lemma identity_session:
  assumes "\<And>s. mBeaconKey (sBeacon (snd (m s))) = mBeaconKey (sBeacon s)"
  shows "same_identity (on_session i m)"
proof -
  have "identity_of (save_session i (snd (m (load_session i k))) k) = identity_of k" for k :: "'b Kit_scheme"
  proof -
    let ?s = "snd (m (load_session i k))"
    have "mBeaconKey (sBeacon ?s) = mBeaconKey (sBeacon (session_at i k))"
      using assms [of "load_session i k"] by (simp add: load_session_def)
    then have "map (\<lambda>(p, s). (p, mBeaconKey (sBeacon s))) ((kSessions k)[i := (parent_of i k, ?s)]) =
        map (\<lambda>(p, s). (p, mBeaconKey (sBeacon s))) (kSessions k)"
      by (intro nth_equalityI) (auto simp: nth_update parent_of_def session_at_def split_beta)
    then show ?thesis
      unfolding save_session_def by (subst identity_proxy) (simp_all add: identity_of_def)
  qed
  then show ?thesis by (simp add: same_identity_def on_session_def split_beta)
qed

lemma identity_keyed: "keyed m \<Longrightarrow> same_identity (on_session i m)"
  by (rule identity_session) (rule beacon_fixed_fields(1), simp add: keyed_def)

lemma identity_session_modify: "(\<And>s. sBeacon (f s) = sBeacon s) \<Longrightarrow> same_identity (on_session i (op_modify f))"
  by (rule identity_keyed) (rule keyed_modify)

lemma identity_lists [simp]:
  "identity_of (dequeueFromClosing i k) = identity_of k" "identity_of (removeFromSplitByTimeout p k) = identity_of k"
  "identity_of (addToSplitByTimeout p k) = identity_of k" "identity_of (removeSession i k) = identity_of k"
  "identity_of (k\<lparr>kChildren := ns\<rparr>) = identity_of k" "identity_of (k\<lparr>kSendingSessions := ns\<rparr>) = identity_of k"
  "identity_of (k\<lparr>mSessionsToClose := ns\<rparr>) = identity_of k"
  by (simp_all add: identity_of_def dequeueFromClosing_def removeFromSplitByTimeout_def addToSplitByTimeout_def removeSession_def)

lemma identity_update [simp]: "identity_of (onServerConfigurationUpdate p c k) = identity_of k"
  by (simp add: onServerConfigurationUpdate_def Let_def identity_proxy split: option.split)

lemma identity_configure: "same_identity (configure_session f i)"
proof -
  have "same_identity (on_session i (op_modify (update_configuration g)) :: ('a, unit) kit_op)" for g
    by (rule identity_session) (simp add: op_modify_def update_configuration_def)
  then show ?thesis
    by (auto simp: same_identity_def configure_session_def Let_def split: prod.split option.split) (metis snd_conv)+
qed

lemmas identity_intros = identity_basic identity_bind identity_if identity_configure identity_keyed

lemma identity_time: "same_identity provideTimestampInMilliseconds"
  unfolding provideTimestampInMilliseconds_def by (intro identity_intros)

lemma identity_tell: "same_identity (tell_parent i told)"
  unfolding tell_parent_def proxy_onChildClosed_def by (intro identity_intros) (simp add: identity_proxy)

lemma identity_end: "same_identity (kit_endSession i b)"
  unfolding kit_endSession_def by (intro identity_intros identity_tell keyed_end)

lemma identity_tryEnd: "same_identity (kit_tryEnd i)"
  unfolding kit_tryEnd_def case_prod_unfold by (intro identity_intros identity_tell keyed_tryEnd)

lemma identity_object_call: "same_identity (kit_object_call i h (node_call x))"
  unfolding kit_object_call_def case_prod_unfold
  by (intro identity_intros identity_tell keyed_session_call keyed_node_call)

lemma identity_closeCurrent: "same_identity (closeOrEnqueueCurrentSessionForClosing p)"
proof -
  have "same_identity (op_bind (current_session p) (\<lambda>i. closeOrEnqueueForClosing i g))" for g
    unfolding closeOrEnqueueForClosing_def
    by (intro identity_intros identity_tryEnd identity_time keyed_modify) simp_all
  then show ?thesis by (auto simp: same_identity_def closeOrEnqueueCurrentSessionForClosing_def Let_def split: option.split)
qed

lemma identity_modify_proxy:
  "(\<And>x. prCreator (f x) = prCreator x) \<Longrightarrow> same_identity (op_modify (update_proxy p f))"
  by (rule identity_basic(5)) (simp add: identity_proxy)

lemma identity_identifier: "same_identity (updateCurrentSessionIdentifier p)"
  unfolding updateCurrentSessionIdentifier_def by (intro identity_intros) (simp add: identity_proxy)

lemma identity_reTag: "same_identity (reTagCurrentSession p)"
proof -
  have "same_identity (op_bind (current_session p) (\<lambda>i. on_session i (session_identifyUser u)))" for u
    by (intro identity_intros keyed_reports)
  then show ?thesis by (auto simp: same_identity_def reTagCurrentSession_def Let_def)
qed

lemma identity_record: "same_identity (recordTopLevelEventInteraction p)" "same_identity (recordTopLevelActionEvent p)"
proof -
  show e: "same_identity (recordTopLevelEventInteraction p)"
    unfolding recordTopLevelEventInteraction_def by (intro identity_intros identity_time identity_modify_proxy; simp)
  show "same_identity (recordTopLevelActionEvent p)"
    unfolding recordTopLevelActionEvent_def by (intro identity_intros e identity_modify_proxy; simp)
qed

lemma identity_current: "(\<And>s. sBeacon (f s) = sBeacon s) \<Longrightarrow> same_identity (on_current p f)"
  using identity_session_modify by (auto simp: on_current_def same_identity_def split: option.split)

lemma identity_calculate: "same_identity (calculateNextSplitTime p)"
  by (auto simp: same_identity_def calculateNextSplitTime_def current_session_def op_bind_def op_return_def Let_def split: option.split)

lemma identity_proxy_end: "same_identity (proxy_end p)"
proof -
  have "same_identity (op_bind (op_modify (update_proxy p (\<lambda>x. x\<lparr>mIsFinished := True\<rparr>))) (\<lambda>_ k.
          let current = mCurrentSession (proxy_at p k) in
          op_bind (op_each (\<lambda>i. kit_endSession i (current = Some i)) (prChildren (proxy_at p k))) (\<lambda>_.
          op_modify (\<lambda>k. update_proxy p (\<lambda>x. x\<lparr>mCurrentSession := None\<rparr>)
            (removeFromSplitByTimeout p (k\<lparr>kChildren := removeAll p (kChildren k)\<rparr>)))) k) :: ('a, unit) kit_op)"
    unfolding Let_def
    by (rule identity_bind [OF identity_modify_proxy], simp, rule identity_state)
      (intro identity_intros identity_each identity_end; simp add: identity_proxy)
  then show ?thesis by (simp add: proxy_end_def unless_finished_def same_identity_def)
qed

lemma identity_closeExpired: "same_identity closeExpiredSessions"
proof -
  have c: "same_identity (closableSessions xs t cl)" for xs t cl
  proof (induction xs arbitrary: t cl)
    case (Cons i xs)
    show ?case unfolding closableSessions.simps Let_def
      by (rule identity_bind [OF identity_time], rule identity_state) (auto intro: Cons.IH)
  qed (simp add: identity_basic)
  have "same_identity (\<lambda>k. closableSessions (queue_toStdVector (mSessionsToClose k)) DEFAULT_SLEEP_TIME_MILLISECONDS [] k)"
    by (rule identity_state) (rule c)
  then show ?thesis unfolding closeExpiredSessions_def case_prod_unfold
    by (intro identity_intros identity_each identity_end) simp_all
qed

lemma identity_shutdown: "same_identity (openkit_shutdown :: ('s, unit) kit_op)"
proof -
  have "same_identity (op_bind (op_modify (\<lambda>k. k\<lparr>mIsShutdown := True\<rparr>)) (\<lambda>_. op_bind (op_each proxy_end ps) (\<lambda>_.
     op_bind (op_modify watchdog_requestShutdown) (\<lambda>_. op_modify (\<lambda>k. k\<lparr>mSenderShutdown := True\<rparr>)))) :: ('s, unit) kit_op)" for ps
    by (intro identity_intros identity_each identity_proxy_end) (simp_all add: identity_of_def watchdog_requestShutdown_def)
  then show ?thesis by (simp add: openkit_shutdown_def same_identity_def)
qed

lemma tripleD: "triple P m (\<lambda>_. Q) Q \<Longrightarrow> P k \<Longrightarrow> Q (snd (m k))"
  by (cases "m k") (auto simp: triple_def split: sum.splits)

lemma tripleI: "(\<And>k. P k \<Longrightarrow> Q (snd (m k))) \<Longrightarrow> triple P m (\<lambda>_. Q) Q"
  unfolding triple_def by (metis (mono_tags, lifting) case_prod_beta sum.case_eq_if)

text \<open>A session that is assigned changes the identities only where it is created.\<close>

lemma identity_assign:
  "\<exists>f. createAndAssignCurrentSession p c u = op_bind (creator_createSession p) f \<and> (\<forall>i. same_identity (f i))"
  unfolding createAndAssignCurrentSession_def kit_initializeServerConfiguration_def kit_updateServerConfiguration_def
  by (rule exI, rule conjI, rule refl, intro allI identity_intros) (simp_all add: identity_proxy)

subsection \<open>Invariants of identities\<close>

text \<open>The proxies of \<open>B\<close> exist.\<close>

definition existing :: "('s Kit_scheme \<Rightarrow> bool) \<Rightarrow> nat set \<Rightarrow> 's Kit_scheme \<Rightarrow> bool" where
  "existing P B k \<longleftrightarrow> P k \<and> B \<subseteq> {..<length (kProxies k)}"

definition fresh_proxy :: "SessionCreator \<Rightarrow> SessionProxy" where
  "fresh_proxy creator = \<lparr>prCreator = creator, prChildren = [], mCurrentSession = None, mCurrentSessionIdentifier = (-1, -1),
     mTopLevelActionCount = 0, mLastInteractionTime = 0, mServerConfiguration = None, mIsFinished = False,
     mLastUserTag = UTF8String_empty\<rparr>"

locale kit_invariant =
  fixes P :: "'s Kit_scheme \<Rightarrow> bool"
  assumes depends: "identity_of k' = identity_of k \<Longrightarrow> P k \<Longrightarrow> P k'"
    and reset: "p \<in> B \<Longrightarrow> keeps (existing P B) (creator_reset p)"
    and create: "p \<in> B \<Longrightarrow> keeps (existing P B) (creator_createSession p)"
    and make: "triple (existing P B) (SessionCreator_new ip)
      (\<lambda>c k. existing P B k \<and> P (k\<lparr>kProxies := kProxies k @ [fresh_proxy c]\<rparr>)) (existing P B)"
begin

lemma same: "same_identity m \<Longrightarrow> keeps (existing P B) m"
proof (rule keepsI)
  fix k :: "'s Kit_scheme"
  assume m: "same_identity m" and k: "existing P B k"
  have i: "identity_of (snd (m k)) = identity_of k" using m by (simp add: same_identity_def)
  have "length (kProxies (snd (m k))) = length (kProxies k)"
    using arg_cong [OF i, of "\<lambda>x. length (fst x)"] by (simp add: identity_of_def)
  then show "existing P B (snd (m k))" using k depends [OF i] by (simp add: existing_def)
qed

lemma assign: "p \<in> B \<Longrightarrow> keeps (existing P B) (createAndAssignCurrentSession p c u)"
proof -
  assume p: "p \<in> B"
  obtain f where f: "createAndAssignCurrentSession p c u = op_bind (creator_createSession p) f" "\<And>i. same_identity (f i :: ('s, unit) kit_op)"
    using identity_assign by blast
  show ?thesis unfolding f(1) by (intro keeps_bind create p same f(2))
qed

lemma splits:
  assumes "p \<in> B"
  shows "keeps (existing P B) (splitAndCreateNewInitialSession p)" "keeps (existing P B) (createSplitSessionAndMakeCurrent p c)"
    "keeps (existing P B) (createInitialSessionAndMakeCurrent p)" "keeps (existing P B) (getOrSplitCurrentSessionByEvents p)"
proof -
  have a: "keeps (existing P B) (\<lambda>k. createAndAssignCurrentSession p (f k) (g k) k)" for f g
    by (rule keeps_state) (rule assign [OF assms])
  have tags: "keeps (existing P B) (updateCurrentSessionIdentifier p)" "keeps (existing P B) (reTagCurrentSession p)"
    "keeps (existing P B) (closeOrEnqueueCurrentSessionForClosing p)"
    by (intro same identity_identifier identity_reTag identity_closeCurrent)+
  show "keeps (existing P B) (splitAndCreateNewInitialSession p)"
    unfolding splitAndCreateNewInitialSession_def by (intro keeps_bind tags reset [OF assms] a)
  show s: "keeps (existing P B) (createSplitSessionAndMakeCurrent p c)" for c
    unfolding createSplitSessionAndMakeCurrent_def by (intro keeps_bind assign [OF assms] tags)
  show "keeps (existing P B) (createInitialSessionAndMakeCurrent p)"
    unfolding createInitialSessionAndMakeCurrent_def by (intro keeps_bind a tags)
  have s': "keeps (existing P B) (\<lambda>k. createSplitSessionAndMakeCurrent p (f k) k)" for f by (rule keeps_state) (rule s)
  show "keeps (existing P B) (getOrSplitCurrentSessionByEvents p)"
    unfolding getOrSplitCurrentSessionByEvents_def
    by (rule keeps_state) (intro keeps_bind keeps_if tags s' keeps_return current_keeps)
qed

lemma event: "p \<in> B \<Longrightarrow> keyed m \<Longrightarrow> keeps (existing P B) (as_event p m)"
  unfolding as_event_def by (intro keeps_bind splits(4) same identity_record identity_keyed)

lemma unless: "keeps (existing P B) m \<Longrightarrow> keeps (existing P B) (unless_finished p a m)"
  unfolding unless_finished_def by (rule keepsI) (auto dest: keeps_result)

lemma entering:
  assumes "p \<in> B"
  shows "keeps (existing P B) (proxy_enterAction name p)" "keeps (existing P B) (proxy_traceWebRequest url p)"
proof -
  show "keeps (existing P B) (proxy_enterAction name p)"
    unfolding proxy_enterAction_def Let_def
    by (intro keeps_if keeps_return unless keeps_bind splits(4) [OF assms] keeps_if_state same identity_record identity_keyed keyed_enter)
  show "keeps (existing P B) (proxy_traceWebRequest url p)"
    unfolding proxy_traceWebRequest_def Let_def
    by (intro keeps_if keeps_return unless keeps_bind splits(4) [OF assms] same identity_record identity_keyed keyed_trace)
qed

lemma by_time: "p \<in> B \<Longrightarrow> keeps (existing P B) (splitSessionByTime p)"
proof -
  assume p: "p \<in> B"
  have "keeps (existing P B) (op_bind (calculateNextSplitTime p) (\<lambda>n. op_bind provideTimestampInMilliseconds (\<lambda>t.
         if sint n < 0 \<or> sint t < sint n then op_return n
         else op_bind (splitAndCreateNewInitialSession p) (\<lambda>_. calculateNextSplitTime p))))"
    by (intro keeps_bind keeps_if keeps_return splits(1) [OF p] same identity_calculate identity_time)
  then show ?thesis unfolding splitSessionByTime_def by (intro keepsI) (auto dest: keeps_result)
qed

lemma settings_kept:
  "keeps (existing P B) (proxy_reportNetworkTechnology t p)" "keeps (existing P B) (proxy_reportConnectionType ct p)"
  "keeps (existing P B) (proxy_reportCarrier c p)"
  unfolding proxy_reportNetworkTechnology_def proxy_reportConnectionType_def proxy_reportCarrier_def
  by (intro keeps_if keeps_return same identity_current;
      simp add: session_reportNetworkTechnology_def session_reportConnectionType_def session_reportCarrier_def Let_def)+

lemma called:
  assumes p: "p \<in> B"
  shows "keeps (existing P B) (proxy_call fp x p)"
proof -
  have lost: "keeps (existing P B) (result_lost m)" if "keeps (existing P B) m" for m :: "('s Kit_scheme, 'b) cpp_op"
    unfolding result_lost_def by (rule keeps_bind [OF that]) (rule keeps_return)
  note reports = keyed_reports [THEN event [OF p]]
  show ?thesis
  proof (cases x)
    case (Identify tag)
    show ?thesis unfolding Identify proxy_call.simps proxy_identifyUser_def
      by (intro unless keeps_bind reports same identity_modify_proxy) simp
  next
    case (Crashed n r st)
    show ?thesis unfolding Crashed proxy_call.simps proxy_reportCrash_def Let_def
      by (intro keeps_if keeps_return unless keeps_bind reports splits(1) p)
  next
    case (BizEvent ty m)
    show ?thesis unfolding BizEvent proxy_call.simps proxy_sendBizEvent_def
      by (intro keeps_if keeps_return unless reports)
  next
    case (NamedEventSent ty m)
    show ?thesis unfolding NamedEventSent proxy_call.simps proxy_sendEvent_def
      by (intro keeps_if keeps_return unless reports)
  qed (simp_all add: lost entering [OF p] settings_kept same [OF identity_proxy_end] by_time [OF p])
qed

lemma proxy_made:
  assumes "P k" "P (k\<lparr>kProxies := kProxies k @ [fresh_proxy c]\<rparr>)"
  shows "P (snd (make_proxy c (length (kProxies k)) k))"
proof -
  let ?p = "length (kProxies k)"
  have "triple (\<lambda>k'. k' = k) (make_proxy c ?p) (\<lambda>_. existing P {?p}) (existing P {?p})"
    unfolding make_proxy_def
  proof (rule triple_bind [where Q = "\<lambda>_. existing P {?p}"])
    show "keeps (existing P {?p}) (op_bind (createInitialSessionAndMakeCurrent ?p) (\<lambda>_.
         op_bind (op_modify (\<lambda>k. k\<lparr>kChildren := kChildren k @ [?p]\<rparr>)) (\<lambda>_. op_return (Some ?p))))"
      by (intro keeps_bind splits(3) same identity_basic) (simp_all add: identity_of_def)
  qed (auto intro!: triple_modify simp: existing_def assms(2) fresh_proxy_def [symmetric])
  then show ?thesis by (auto simp: triple_def existing_def split: prod.splits sum.splits)
qed

lemma creating: "keeps P (openkit_createSession ip)"
proof -
  have "keeps (existing P {}) (op_bind (SessionCreator_new ip) (\<lambda>c k. make_proxy c (length (kProxies k)) k))"
  proof (rule triple_bind [OF make])
    show "triple (\<lambda>k. existing P {} k \<and> P (k\<lparr>kProxies := kProxies k @ [fresh_proxy c]\<rparr>)) (\<lambda>k. make_proxy c (length (kProxies k)) k)
        (\<lambda>_. existing P {}) (existing P {})" for c
      using proxy_made [of _ c] by (auto simp: triple_def existing_def split: prod.split sum.split) (metis snd_conv)+
  qed
  then show ?thesis
    unfolding openkit_createSession_parts by (auto intro!: keepsI dest: keeps_result simp: existing_def)
qed

lemma splitting: "set ps \<subseteq> B \<Longrightarrow> keeps (existing P B) (splitProxies ps t rs)"
proof (induction ps arbitrary: t rs)
  case (Cons p ps)
  have r: "keeps (existing P B) (splitProxies ps t rs)" for t rs using Cons by simp
  show ?case unfolding splitProxies.simps Let_def
    by (intro keeps_bind by_time keeps_if r same identity_time) (use Cons.prems in simp)
qed (simp add: keeps_return)

lemma watching:
  assumes k: "P k" "in_order k"
  shows "P (snd (watchdog_execute k))"
proof -
  have split: "P (snd (splitTimedOutSessions k))" if k: "P k" "in_order k" for k
  proof -
    let ?B = "set (mSessionsToSplitByTimeout k)"
    have "existing P ?B k" using k by (simp add: existing_def kit_inv_def)
    moreover have "keeps (existing P ?B) (op_bind (splitProxies (mSessionsToSplitByTimeout k) DEFAULT_SLEEP_TIME_MILLISECONDS [])
       (\<lambda>(t, toRemove). op_bind (op_each (\<lambda>p. op_modify (removeFromSplitByTimeout p)) toRemove) (\<lambda>_. op_return t)))"
      unfolding case_prod_unfold
      by (intro keeps_bind splitting same identity_each identity_basic) simp_all
    ultimately show ?thesis
      by (auto dest: keeps_result simp: existing_def splitTimedOutSessions_def op_bind_def queue_toStdVector_def)
  qed
  obtain r k' where c: "closeExpiredSessions k = (r, k')" by fastforce
  have k': "P k'" "in_order k'"
    using keeps_result [OF same [OF identity_closeExpired, of "{}"], of k] keeps_result [OF closeExpired_keeps k(2)] k(1) c
    by (simp_all add: existing_def)
  have "snd (watchdog_execute k) = (case r of Inl e \<Rightarrow> k' | Inr t \<Rightarrow> snd (splitTimedOutSessions k'))"
    by (simp add: watchdog_execute_def op_bind_def c op_return_def split: sum.split prod.split)
  then show ?thesis using k' split [of k'] by (simp split: sum.split)
qed

lemma stepped:
  assumes k: "P k" "in_order k" and x: "proper_call x k"
  shows "P (snd (kit_step fp x k))"
proof -
  have lost: "snd (result_lost m k) = snd (m k)" for m :: "('s Kit_scheme, 'b) cpp_op"
    by (simp add: result_lost_def op_bind_def op_return_def split: prod.split sum.split)
  have s: "P (snd (m k))" if "same_identity m" for m :: "('s Kit_scheme, 'b) cpp_op"
    using depends k(1) that by (simp add: same_identity_def)
  show ?thesis
  proof (cases x)
    case (ProxyCall p y)
    then have "p < length (kProxies k)" using x by (cases y) simp_all
    then show ?thesis using ProxyCall keeps_result [OF called [of p "{p}"], of k fp y] k by (simp add: existing_def)
  next
    case (ServerAnswer c n)
    then show ?thesis using s [OF identity_basic(5), of "\<lambda>k. k\<lparr>kServerConfiguration := c, kServerID := n\<rparr>"] by (simp add: identity_of_def)
  qed (use k in \<open>simp_all add: lost keeps_result [OF creating] s identity_object_call watching identity_shutdown
      identity_configure kit_updateServerConfiguration_def\<close>)
qed

end

end
