(* ===== verification/Beacon_Keys.thy ===== *)
theory Beacon_Keys
  imports Kit_Invariants
begin

text \<open>
  The keys of the beacons (src/core/objects/SessionCreator.cxx, src/providers/DefaultSessionIDProvider.cxx). The
  cache keeps the data of a beacon under its key, the number of a series of sessions and the number of the session
  in it; two beacons with one key would share their data. The provider counts from 1 to the largest number of 32
  bits and starts again, so that the keys are distinct as long as it has not come round.
\<close>

subsection \<open>The numbers of the provider\<close>

abbreviation largest :: int where "largest \<equiv> 2 ^ 31 - 1"

text \<open>The \<open>j\<close>-th number drawn when the provider starts with \<open>a\<close>.\<close>

definition drawn_number :: "int \<Rightarrow> nat \<Rightarrow> int" where
  "drawn_number a j = (if a + int j \<le> largest then a + int j else a + int j - largest)"

definition next_number :: "int32 \<Rightarrow> int32" where
  "next_number l = (if sint l = largest then 0 else l) + 1"

lemma next_drawn:
  assumes "- (2 ^ 31) \<le> a" "a \<le> largest" "int j < largest" "sint l = drawn_number a j"
  shows "sint (next_number l) = drawn_number a (Suc j)"
proof (cases "sint l = largest")
  case True
  then show ?thesis using assms by (simp add: next_number_def drawn_number_def split: if_splits)
next
  case False
  have l: "- (2 ^ 31) \<le> sint l" "sint l < 2 ^ 31" using sint_range_size [of l] by (simp_all add: word_size)
  have "sint (l + 1) = sint l + 1"
    using False l by (simp add: sint_word_ariths(1) signed_take_bit_int_eq_self)
  then show ?thesis using assms False by (auto simp: next_number_def drawn_number_def split: if_splits)
qed

lemma drawn_distinct: "a \<le> largest \<Longrightarrow> 0 < i \<Longrightarrow> i < j \<Longrightarrow> int j \<le> largest \<Longrightarrow> drawn_number a i \<noteq> drawn_number a j"
  by (auto simp: drawn_number_def split: if_splits)

subsection \<open>The invariant\<close>

text \<open>The number was drawn, as one of the first \<open>d\<close>.\<close>

definition drawn_in :: "int \<Rightarrow> nat \<Rightarrow> int32 \<Rightarrow> bool" where
  "drawn_in a d i \<longleftrightarrow> (\<exists>j. 0 < j \<and> j \<le> d \<and> sint i = drawn_number a j)"

lemma drawn_new: "a \<le> largest \<Longrightarrow> int (Suc d) \<le> largest \<Longrightarrow> sint l = drawn_number a (Suc d) \<Longrightarrow> drawn_in a d i \<Longrightarrow> i \<noteq> l"
  unfolding drawn_in_def using drawn_distinct [of a _ "Suc d"] by (metis le_imp_less_Suc)

lemma drawn_more: "drawn_in a d i \<Longrightarrow> drawn_in a (Suc d) i"
  unfolding drawn_in_def using le_SucI by blast

definition keys_ok :: "int \<Rightarrow> (int32 \<times> int32) list \<Rightarrow> BeaconKey list \<Rightarrow> nat \<Rightarrow> bool" where
  "keys_ok a prs ks d \<longleftrightarrow> (\<forall>x\<in>set prs. drawn_in a d (fst x) \<and> unat (snd x) \<le> length ks) \<and> distinct (map fst prs) \<and>
     (\<forall>k\<in>set ks. drawn_in a d (mBeaconId k) \<and> (\<forall>x\<in>set prs. fst x = mBeaconId k \<longrightarrow> unat (mBeaconSequenceNumber k) < unat (snd x))) \<and>
     distinct ks"

lemma keys_draw: "keys_ok a prs ks d \<Longrightarrow> keys_ok a prs ks (Suc d)"
  unfolding keys_ok_def using drawn_more by blast

lemma number_new:
  assumes "keys_ok a prs ks d" "a \<le> largest" "int (Suc d) \<le> largest" "sint l = drawn_number a (Suc d)"
  shows "l \<notin> set (map fst prs)" "l \<notin> set (map mBeaconId ks)"
  using assms drawn_new [OF assms(2-4)] unfolding keys_ok_def by auto

lemma keys_new_proxy:
  assumes k: "keys_ok a prs ks d" and l: "a \<le> largest" "int (Suc d) \<le> largest" "sint l = drawn_number a (Suc d)"
  shows "keys_ok a (prs @ [(l, 0)]) ks (Suc d)"
proof -
  have "drawn_in a (Suc d) l" using l(3) unfolding drawn_in_def by (intro exI [of _ "Suc d"]) simp
  then show ?thesis using keys_draw [OF k] number_new [OF k l] unfolding keys_ok_def by auto
qed

lemma keys_reset:
  assumes k: "keys_ok a prs ks d" and l: "a \<le> largest" "int (Suc d) \<le> largest" "sint l = drawn_number a (Suc d)"
  shows "keys_ok a (prs[p := (l, 0)]) ks (Suc d)"
proof -
  have s: "set (prs[p := (l, 0)]) \<subseteq> insert (l, 0) (set prs)" by (rule set_update_subset_insert)
  have "distinct (map fst (prs[p := (l, 0)]))"
    using k number_new [OF k l] by (simp add: map_update keys_ok_def distinct_list_update)
  moreover have "drawn_in a (Suc d) l" using l(3) unfolding drawn_in_def by (intro exI [of _ "Suc d"]) simp
  ultimately show ?thesis
    using keys_draw [OF k] number_new [OF k l] s unfolding keys_ok_def by (force dest!: subsetD [OF s])
qed

lemma keys_new_session:
  assumes k: "keys_ok a prs ks d" and p: "p < length prs" "prs ! p = (i, q)" and b: "length ks < 2 ^ 32 - 1"
  shows "keys_ok a (prs[p := (i, q + 1)]) (ks @ [\<lparr>mBeaconId = i, mBeaconSequenceNumber = q\<rparr>]) d"
proof -
  have x: "(i, q) \<in> set prs" using p nth_mem by metis
  then have le: "unat q \<le> length ks" using k by (auto simp: keys_ok_def)
  have u: "unat (q + 1) = Suc (unat q)" using le b by (simp add: unat_word_ariths)
  have s: "set (prs[p := (i, q + 1)]) \<subseteq> insert (i, q + 1) (set prs)" by (rule set_update_subset_insert)
  have d: "map fst (prs[p := (i, q + 1)]) = map fst prs" using p by (simp add: map_update list_update_same_conv)
  have o: "y = (i, q + 1) \<or> y \<in> set prs \<and> fst y \<noteq> i" if y: "y \<in> set (prs[p := (i, q + 1)])" for y
  proof -
    obtain j where j: "j < length prs" "y = (prs[p := (i, q + 1)]) ! j" using y by (auto simp: in_set_conv_nth)
    have "distinct (map fst prs)" using k by (simp add: keys_ok_def)
    then have "fst (prs ! j) = i \<longleftrightarrow> j = p" using j(1) p nth_eq_iff_index_eq [of "map fst prs" j p] by simp
    then show ?thesis using j p by (cases "j = p") auto
  qed
  have lt: "unat (mBeaconSequenceNumber k') < unat q" if "k' \<in> set ks" "mBeaconId k' = i" for k'
    using k x that by (force simp: keys_ok_def)
  have new: "\<lparr>mBeaconId = i, mBeaconSequenceNumber = q\<rparr> \<notin> set ks" using k x by (force simp: keys_ok_def)
  show ?thesis
    unfolding keys_ok_def
  proof (intro conjI ballI impI)
    fix y assume "y \<in> set (prs[p := (i, q + 1)])"
    then show "drawn_in a d (fst y)" "unat (snd y) \<le> length (ks @ [\<lparr>mBeaconId = i, mBeaconSequenceNumber = q\<rparr>])"
      using o [of y] k x u le by (auto simp: keys_ok_def)
  next
    fix k' assume k': "k' \<in> set (ks @ [\<lparr>mBeaconId = i, mBeaconSequenceNumber = q\<rparr>])"
    then show "drawn_in a d (mBeaconId k')" using k x by (auto simp: keys_ok_def)
    fix y assume "y \<in> set (prs[p := (i, q + 1)])" "fst y = mBeaconId k'"
    then show "unat (mBeaconSequenceNumber k') < unat (snd y)"
      using o [of y] k x k' u lt [of k'] by (auto simp: keys_ok_def less_Suc_eq)
  qed (use k d new in \<open>auto simp: keys_ok_def\<close>)
qed

subsection \<open>The operations that draw\<close>

definition beacon_keys :: "'s Kit_scheme \<Rightarrow> BeaconKey list" where
  "beacon_keys k = map (\<lambda>(p, s). mBeaconKey (sBeacon s)) (kSessions k)"

definition series_of :: "'s Kit_scheme \<Rightarrow> (int32 \<times> int32) list" where
  "series_of k = map (\<lambda>x. (crSessionId (prCreator x), crSessionSequenceNumber (prCreator x))) (kProxies k)"

text \<open>The invariant, until the provider has come round or there are more sessions than numbers of 32 bits.\<close>

definition keys_inv :: "int \<Rightarrow> 's Kit_scheme \<Rightarrow> bool" where
  "keys_inv a k \<longleftrightarrow> (int (kNextDraw k) \<le> largest \<longrightarrow> length (kSessions k) < 2 ^ 32 \<longrightarrow>
     sint (mLastSessionNumber k) = drawn_number a (kNextDraw k) \<and> keys_ok a (series_of k) (beacon_keys k) (kNextDraw k))"

lemma keys_of_identity: "identity_of k' = identity_of k \<Longrightarrow> keys_inv a k \<Longrightarrow> keys_inv a k'"
proof -
  assume i: "identity_of k' = identity_of k"
  have f: "beacon_keys k = map snd (fst (snd (identity_of k)))" for k :: "'c Kit_scheme"
    by (simp add: identity_of_def beacon_keys_def comp_def split_beta)
  have b: "beacon_keys k' = beacon_keys k" unfolding f i ..
  have s: "series_of k' = series_of k" "kNextDraw k' = kNextDraw k" "mLastSessionNumber k' = mLastSessionNumber k"
    using i by (simp_all add: identity_of_def series_of_def)
  have "length (kSessions k') = length (kSessions k)" using arg_cong [OF b, of length] by (simp add: beacon_keys_def)
  then show "keys_inv a k \<Longrightarrow> keys_inv a k'" using b s by (simp add: keys_inv_def)
qed

lemma next_number_run: "getNextSessionID k = (Inr (next_number (mLastSessionNumber k)), k\<lparr>mLastSessionNumber := next_number (mLastSessionNumber k)\<rparr>)"
  by (simp add: getNextSessionID_def next_number_def Let_def)

lemma reset_run:
  "\<exists>u v. snd (creator_reset p k) = update_proxy p (\<lambda>x. x\<lparr>prCreator := (prCreator x)\<lparr>crSessionSequenceNumber := 0,
     crSessionId := next_number (mLastSessionNumber k), crPercentageValue := u, crPositiveInt64 := v\<rparr>\<rparr>)
     (k\<lparr>mLastSessionNumber := next_number (mLastSessionNumber k), kNextDraw := kNextDraw k + 1\<rparr>)"
  by (cases "kDraws k (kNextDraw k)")
    (auto simp: creator_reset_def op_bind_def next_number_run draw_def op_modify_def)

lemma keys_inv_reset:
  assumes k: "keys_inv a k" and a: "- (2 ^ 31) \<le> a" "a \<le> largest" and p: "p < length (kProxies k)"
  shows "keys_inv a (snd (creator_reset p k)) \<and> length (kProxies (snd (creator_reset p k))) = length (kProxies k)"
proof -
  obtain u v where r: "snd (creator_reset p k) = update_proxy p (\<lambda>x. x\<lparr>prCreator := (prCreator x)\<lparr>crSessionSequenceNumber := 0,
     crSessionId := next_number (mLastSessionNumber k), crPercentageValue := u, crPositiveInt64 := v\<rparr>\<rparr>)
     (k\<lparr>mLastSessionNumber := next_number (mLastSessionNumber k), kNextDraw := kNextDraw k + 1\<rparr>)" (is "_ = ?k") using reset_run by blast
  have s: "series_of ?k = (series_of k)[p := (next_number (mLastSessionNumber k), 0)]"
    using p by (simp add: series_of_def update_proxy_def proxy_at_def map_update)
  have "keys_inv a ?k"
    unfolding keys_inv_def
  proof (intro impI)
    assume d: "int (kNextDraw ?k) \<le> largest" "length (kSessions ?k) < 2 ^ 32"
    then have ok: "sint (mLastSessionNumber k) = drawn_number a (kNextDraw k)" "keys_ok a (series_of k) (beacon_keys k) (kNextDraw k)"
      using k by (simp_all add: keys_inv_def update_proxy_def)
    have n: "sint (next_number (mLastSessionNumber k)) = drawn_number a (Suc (kNextDraw k))"
      using next_drawn [OF a _ ok(1)] d(1) by (simp add: update_proxy_def)
    then show "sint (mLastSessionNumber ?k) = drawn_number a (kNextDraw ?k) \<and> keys_ok a (series_of ?k) (beacon_keys ?k) (kNextDraw ?k)"
      using keys_reset [OF ok(2) a(2) _ n, of p] d(1) unfolding s by (simp add: update_proxy_def beacon_keys_def)
  qed
  then show ?thesis unfolding r by (simp add: update_proxy_def)
qed

lemma new_key: "Beacon_new i c = Inr b \<Longrightarrow> mBeaconKey b = \<lparr>mBeaconId = biNextSessionID i, mBeaconSequenceNumber = biSessionSequenceNumber i\<rparr>"
  by (auto simp: Beacon_new_def Let_def split: sum.splits if_splits)

text \<open>A creation adds one session, or none where the constructor of its beacon throws.\<close>

lemma create_run:
  "\<exists>k'. identity_of k' = identity_of k \<and> (snd (creator_createSession p k) = k' \<or>
     (\<exists>s. mBeaconKey (sBeacon s) = \<lparr>mBeaconId = crSessionId (prCreator (proxy_at p k')), mBeaconSequenceNumber = crSessionSequenceNumber (prCreator (proxy_at p k'))\<rparr> \<and>
     snd (creator_createSession p k) =
       update_proxy p (\<lambda>x. x\<lparr>prCreator := (prCreator (proxy_at p k'))\<lparr>crSessionSequenceNumber := crSessionSequenceNumber (prCreator (proxy_at p k')) + 1\<rparr>\<rparr>)
       (k'\<lparr>kSessions := kSessions k' @ [(p, s)]\<rparr>)))"
proof -
  obtain t k' where t: "provideTimestampInMilliseconds k = (Inr t, k')" "identity_of k' = identity_of k"
    using identity_time [of, unfolded same_identity_def, rule_format, of k]
    by (cases "provideTimestampInMilliseconds k") (auto simp: provideTimestampInMilliseconds_def op_bind_def kit_provide_def op_return_def)
  let ?c = "prCreator (proxy_at p k')"
  let ?key = "\<lparr>mBeaconId = crSessionId ?c, mBeaconSequenceNumber = crSessionSequenceNumber ?c\<rparr>"
  have "snd (creator_createSession p k) = k' \<or> (\<exists>s. mBeaconKey (sBeacon s) = ?key \<and>
     snd (creator_createSession p k) = update_proxy p (\<lambda>x. x\<lparr>prCreator := ?c\<lparr>crSessionSequenceNumber := crSessionSequenceNumber ?c + 1\<rparr>\<rparr>)
       (k'\<lparr>kSessions := kSessions k' @ [(p, s)]\<rparr>))"
  proof (cases "Beacon_new \<lparr>biUseClientIpAddress = crUseClientIpAddress ?c, biClientIpAddress = crClientIpAddress ?c,
      biNextSessionID = crSessionId ?c, biSessionSequenceNumber = crSessionSequenceNumber ?c,
      biNextPercentageValue = crPercentageValue ?c, biNextPositiveInt64 = crPositiveInt64 ?c, biTimestamp = t\<rparr>
      (BeaconConfiguration_from (kOpenKitConfiguration k') (kPrivacyConfiguration k') (crServerId ?c))")
    case (Inr b)
    then show ?thesis using new_key [OF Inr]
      by (intro disjI2 exI [of _ "Session_new b (crSupplementaryBasicData ?c) (kCache k') (kReadings k') (kTick k') (kNextObject k')"])
        (simp add: creator_createSession_def op_bind_def t(1) Let_def Session_new_def)
  qed (simp add: creator_createSession_def op_bind_def t(1) Let_def)
  then show ?thesis using t(2) by blast
qed

lemma keys_inv_create:
  assumes k: "keys_inv a k" and p: "p < length (kProxies k)"
  shows "keys_inv a (snd (creator_createSession p k)) \<and> length (kProxies (snd (creator_createSession p k))) = length (kProxies k)"
proof -
  obtain k' where k': "identity_of k' = identity_of k" "snd (creator_createSession p k) = k' \<or>
     (\<exists>s. mBeaconKey (sBeacon s) = \<lparr>mBeaconId = crSessionId (prCreator (proxy_at p k')), mBeaconSequenceNumber = crSessionSequenceNumber (prCreator (proxy_at p k'))\<rparr> \<and>
     snd (creator_createSession p k) =
       update_proxy p (\<lambda>x. x\<lparr>prCreator := (prCreator (proxy_at p k'))\<lparr>crSessionSequenceNumber := crSessionSequenceNumber (prCreator (proxy_at p k')) + 1\<rparr>\<rparr>)
       (k'\<lparr>kSessions := kSessions k' @ [(p, s)]\<rparr>))" using create_run by blast
  have i: "keys_inv a k'" by (rule keys_of_identity [OF k'(1) k])
  have l: "length (kProxies k') = length (kProxies k)" using arg_cong [OF k'(1), of "\<lambda>x. length (fst x)"] by (simp add: identity_of_def)
  let ?c = "prCreator (proxy_at p k')"
  from k'(2) consider "snd (creator_createSession p k) = k'" | s where
    "mBeaconKey (sBeacon s) = \<lparr>mBeaconId = crSessionId ?c, mBeaconSequenceNumber = crSessionSequenceNumber ?c\<rparr>"
    "snd (creator_createSession p k) = update_proxy p (\<lambda>x. x\<lparr>prCreator := ?c\<lparr>crSessionSequenceNumber := crSessionSequenceNumber ?c + 1\<rparr>\<rparr>)
       (k'\<lparr>kSessions := kSessions k' @ [(p, s)]\<rparr>)" by blast
  then show ?thesis
  proof cases
    case (2 s)
    have at: "series_of k' ! p = (crSessionId ?c, crSessionSequenceNumber ?c)" "p < length (series_of k')"
      using p l by (simp_all add: series_of_def proxy_at_def)
    have "keys_inv a (snd (creator_createSession p k))"
      unfolding 2(2) keys_inv_def
      using i keys_new_session [OF _ at(2,1), of a "beacon_keys k'" "kNextDraw k'"] 2(1) p l
      by (auto simp: keys_inv_def update_proxy_def series_of_def beacon_keys_def proxy_at_def map_update)
    then show ?thesis using l by (simp add: 2(2) update_proxy_def)
  qed (use i l in simp)
qed

lemma keys_inv_make:
  assumes k: "keys_inv a k" and a: "- (2 ^ 31) \<le> a" "a \<le> largest"
  shows "\<exists>c. fst (SessionCreator_new ip k) = Inr c \<and> keys_inv a (snd (SessionCreator_new ip k)) \<and>
    kProxies (snd (SessionCreator_new ip k)) = kProxies k \<and>
    keys_inv a ((snd (SessionCreator_new ip k))\<lparr>kProxies := kProxies k @ [fresh_proxy c]\<rparr>)"
proof -
  let ?k = "k\<lparr>mLastSessionNumber := next_number (mLastSessionNumber k), kNextDraw := kNextDraw k + 1\<rparr>"
  obtain c where c: "SessionCreator_new ip k = (Inr c, ?k)"
    "crSessionId c = next_number (mLastSessionNumber k)" "crSessionSequenceNumber c = 0"
    by (cases "kDraws k (kNextDraw k)") (simp add: SessionCreator_new_def op_bind_def next_number_run draw_def)
  have ok: "sint (next_number (mLastSessionNumber k)) = drawn_number a (Suc (kNextDraw k)) \<and>
      keys_ok a (series_of k) (beacon_keys k) (Suc (kNextDraw k)) \<and>
      keys_ok a (series_of k @ [(next_number (mLastSessionNumber k), 0)]) (beacon_keys k) (Suc (kNextDraw k))"
    if "int (Suc (kNextDraw k)) \<le> largest" "length (kSessions k) < 2 ^ 32"
  proof -
    have o: "sint (mLastSessionNumber k) = drawn_number a (kNextDraw k)" "keys_ok a (series_of k) (beacon_keys k) (kNextDraw k)"
      using k that by (simp_all add: keys_inv_def)
    have "sint (next_number (mLastSessionNumber k)) = drawn_number a (Suc (kNextDraw k))"
      using next_drawn [OF a _ o(1)] that(1) by simp
    then show ?thesis using keys_draw [OF o(2)] keys_new_proxy [OF o(2) a(2) that(1)] by simp
  qed
  have s: "series_of ?k = series_of k" "beacon_keys ?k = beacon_keys k"
    "series_of (?k\<lparr>kProxies := kProxies k @ [fresh_proxy c]\<rparr>) = series_of k @ [(next_number (mLastSessionNumber k), 0)]"
    "beacon_keys (?k\<lparr>kProxies := kProxies k @ [fresh_proxy c]\<rparr>) = beacon_keys k"
    using c(2,3) by (simp_all add: series_of_def beacon_keys_def fresh_proxy_def)
  have "keys_inv a ?k" "keys_inv a (?k\<lparr>kProxies := kProxies k @ [fresh_proxy c]\<rparr>)"
    using ok unfolding keys_inv_def s by simp_all
  then show ?thesis using c(1) by simp
qed

subsection \<open>The number of proxies\<close>

interpretation proxies: kit_invariant "\<lambda>k. n \<le> length (kProxies k)"
proof
  show "n \<le> length (kProxies k')" if "identity_of k' = identity_of k" "n \<le> length (kProxies k)" for k k' :: "'a Kit_scheme"
    using that(2) arg_cong [OF that(1), of "\<lambda>x. length (fst x)"] by (simp add: identity_of_def)
  show "keeps (existing (\<lambda>k. n \<le> length (kProxies k)) B) (creator_reset p :: ('a, unit) kit_op)" for p B
  proof (rule keepsI)
    fix k :: "'a Kit_scheme"
    have "length (kProxies (snd (creator_reset p k))) = length (kProxies k)" using reset_run [of p k] by (auto simp: update_proxy_def)
    then show "existing (\<lambda>k. n \<le> length (kProxies k)) B k \<Longrightarrow> existing (\<lambda>k. n \<le> length (kProxies k)) B (snd (creator_reset p k))"
      by (simp add: existing_def)
  qed
  show "keeps (existing (\<lambda>k. n \<le> length (kProxies k)) B) (creator_createSession p :: ('a, nat) kit_op)" for p B
  proof (rule keepsI)
    fix k :: "'a Kit_scheme"
    obtain k' where k': "identity_of k' = identity_of k" "snd (creator_createSession p k) = k' \<or>
      (\<exists>x s. snd (creator_createSession p k) = update_proxy p x (k'\<lparr>kSessions := kSessions k' @ [(p, s)]\<rparr>))" using create_run by blast
    have "length (kProxies k') = length (kProxies k)" using arg_cong [OF k'(1), of "\<lambda>x. length (fst x)"] by (simp add: identity_of_def)
    then have "length (kProxies (snd (creator_createSession p k))) = length (kProxies k)" using k'(2) by (auto simp: update_proxy_def)
    then show "existing (\<lambda>k. n \<le> length (kProxies k)) B k \<Longrightarrow> existing (\<lambda>k. n \<le> length (kProxies k)) B (snd (creator_createSession p k))"
      by (simp add: existing_def)
  qed
  show "triple (existing (\<lambda>k. n \<le> length (kProxies k)) B) (SessionCreator_new ip :: ('a, SessionCreator) kit_op)
      (\<lambda>c k. existing (\<lambda>k. n \<le> length (kProxies k)) B k \<and> n \<le> length (kProxies (k\<lparr>kProxies := kProxies k @ [fresh_proxy c]\<rparr>)))
      (existing (\<lambda>k. n \<le> length (kProxies k)) B)" for B ip
    unfolding triple_def
  proof (intro allI impI)
    fix k :: "'a Kit_scheme" assume k: "existing (\<lambda>k. n \<le> length (kProxies k)) B k"
    then show "case SessionCreator_new ip k of (Inl e, k') \<Rightarrow> existing (\<lambda>k. n \<le> length (kProxies k)) B k'
      | (Inr c, k') \<Rightarrow> existing (\<lambda>k. n \<le> length (kProxies k)) B k' \<and> n \<le> length (kProxies (k'\<lparr>kProxies := kProxies k' @ [fresh_proxy c]\<rparr>))"
      by (cases "kDraws k (kNextDraw k)") (simp add: SessionCreator_new_def op_bind_def next_number_run draw_def existing_def)
  qed
qed

lemma proxies_stay:
  "kit_reached fp k \<Longrightarrow> proper_call x k \<Longrightarrow> length (kProxies k) \<le> length (kProxies (snd (kit_step fp x k)))"
  by (rule proxies.stepped [OF _ reached_in_order]) simp_all

subsection \<open>The keys are distinct\<close>

text \<open>The number the provider starts with is one of 32 bits.\<close>

definition keys_from :: "int \<Rightarrow> 's Kit_scheme \<Rightarrow> bool" where
  "keys_from a k \<longleftrightarrow> - (2 ^ 31) \<le> a \<and> a \<le> largest \<and> keys_inv a k"

interpretation keys: kit_invariant "keys_from a"
proof
  show "keys_from a k'" if "identity_of k' = identity_of k" "keys_from a k" for k k' :: "'a Kit_scheme"
    using that(2) keys_of_identity [OF that(1)] unfolding keys_from_def by blast
  show "keeps (existing (keys_from a) B) (creator_reset p :: ('a, unit) kit_op)" if p: "p \<in> B" for p B
  proof (rule keepsI)
    fix k :: "'a Kit_scheme" assume "existing (keys_from a) B k"
    then show "existing (keys_from a) B (snd (creator_reset p k))"
      using keys_inv_reset [of a k p] p unfolding existing_def keys_from_def by (metis lessThan_iff subsetD)
  qed
  show "keeps (existing (keys_from a) B) (creator_createSession p :: ('a, nat) kit_op)" if p: "p \<in> B" for p B
  proof (rule keepsI)
    fix k :: "'a Kit_scheme" assume "existing (keys_from a) B k"
    then show "existing (keys_from a) B (snd (creator_createSession p k))"
      using keys_inv_create [of a k p] p unfolding existing_def keys_from_def by (metis lessThan_iff subsetD)
  qed
  show "triple (existing (keys_from a) B) (SessionCreator_new ip :: ('a, SessionCreator) kit_op)
      (\<lambda>c k. existing (keys_from a) B k \<and> keys_from a (k\<lparr>kProxies := kProxies k @ [fresh_proxy c]\<rparr>)) (existing (keys_from a) B)" for B ip
    unfolding triple_def
  proof (intro allI impI)
    fix k :: "'a Kit_scheme" assume k: "existing (keys_from a) B k"
    then obtain c where c: "fst (SessionCreator_new ip k) = Inr c" "keys_inv a (snd (SessionCreator_new ip k))"
      "kProxies (snd (SessionCreator_new ip k)) = kProxies k"
      "keys_inv a ((snd (SessionCreator_new ip k))\<lparr>kProxies := kProxies k @ [fresh_proxy c]\<rparr>)"
      using keys_inv_make [of a k ip] unfolding existing_def keys_from_def by blast
    show "case SessionCreator_new ip k of (Inl e, k') \<Rightarrow> existing (keys_from a) B k'
      | (Inr c, k') \<Rightarrow> existing (keys_from a) B k' \<and> keys_from a (k'\<lparr>kProxies := kProxies k' @ [fresh_proxy c]\<rparr>)"
      using k c by (cases "SessionCreator_new ip k") (simp add: existing_def keys_from_def)
  qed
qed

lemma reached_keys: "kit_reached fp k \<Longrightarrow> \<exists>a. keys_from a k"
proof (induction rule: kit_reached.induct)
  case (initial ok pc rds draws n)
  have "keys_from (sint n) (Kit_new ok pc rds draws n)"
    using sint_range_size [of n]
    by (simp add: keys_from_def keys_inv_def Kit_new_def keys_ok_def series_of_def beacon_keys_def drawn_number_def word_size)
  then show ?case ..
next
  case (step k x)
  then show ?case using keys.stepped [OF _ reached_in_order] by blast
qed

text \<open>How many series and sessions there are at most.\<close>

definition few :: "nat \<Rightarrow> nat \<Rightarrow> 's Kit_scheme \<Rightarrow> bool" where
  "few d n k \<longleftrightarrow> kNextDraw k \<le> d \<and> length (kSessions k) \<le> n"

lemma few_same: "identity_of k' = identity_of k \<Longrightarrow> few d n k' = few d n k"
proof -
  assume i: "identity_of k' = identity_of k"
  have "length (kSessions k') = length (kSessions k)"
    using arg_cong [OF i, of "\<lambda>x. length (fst (snd x))"] by (simp add: identity_of_def)
  then show ?thesis using i by (simp add: few_def identity_of_def)
qed

lemma few_identity: "same_identity m \<Longrightarrow> keeps (few d n) m"
  unfolding same_identity_def by (rule keepsI) (metis few_same)

lemma few_more: "few d n k \<Longrightarrow> d \<le> d' \<Longrightarrow> n \<le> n' \<Longrightarrow> few d' n' k"
  by (simp add: few_def)

lemma few_created: "few d n k \<Longrightarrow> few (Suc d) (Suc n) (snd (openkit_createSession ip k))"
proof -
  assume k: "few d n k"
  have drawn: "few (Suc d) n (snd (SessionCreator_new ip k))" if "few d n k" for k :: "'a Kit_scheme"
    using that by (cases "kDraws k (kNextDraw k)") (simp add: few_def SessionCreator_new_def op_bind_def next_number_run draw_def)
  have new: "triple (few d n) (SessionCreator_new ip :: ('a, SessionCreator) kit_op) (\<lambda>_. few (Suc d) n) (few (Suc d) (Suc n))"
    by (rule triple_weaken [OF tripleI], erule drawn) (auto elim: few_more)
  have one: "few (Suc d) (Suc n) (snd (creator_createSession p k))" if "few (Suc d) n k" for p and k :: "'a Kit_scheme"
  proof -
    obtain k' where k': "identity_of k' = identity_of k" "snd (creator_createSession p k) = k' \<or>
      (\<exists>x s. snd (creator_createSession p k) = update_proxy p x (k'\<lparr>kSessions := kSessions k' @ [(p, s)]\<rparr>))" using create_run by blast
    have "few (Suc d) n k'" using that few_same [OF k'(1)] by simp
    then show ?thesis using k'(2) by (auto simp: few_def update_proxy_def)
  qed
  have assign: "triple (few (Suc d) n) (createAndAssignCurrentSession p c u :: ('a, unit) kit_op) (\<lambda>_. few (Suc d) (Suc n)) (few (Suc d) (Suc n))" for p c u
  proof -
    obtain f where f: "createAndAssignCurrentSession p c u = op_bind (creator_createSession p) f" "\<And>i. same_identity (f i :: ('a, unit) kit_op)"
      using identity_assign by blast
    show ?thesis unfolding f(1) by (rule triple_bind [OF tripleI few_identity [OF f(2)]], erule one)
  qed
  have first: "triple (few (Suc d) n) (createInitialSessionAndMakeCurrent p :: ('a, unit) kit_op) (\<lambda>_. few (Suc d) (Suc n)) (few (Suc d) (Suc n))" for p
    unfolding createInitialSessionAndMakeCurrent_def
    by (rule triple_bind [OF _ few_identity [OF identity_identifier]], rule triple_state, rule triple_now [OF assign])
  have made: "triple (few (Suc d) n) (make_proxy c p :: ('a, nat option) kit_op) (\<lambda>_. few (Suc d) (Suc n)) (few (Suc d) (Suc n))" for c p
    unfolding make_proxy_def
  proof (rule triple_bind [where Q = "\<lambda>_. few (Suc d) n"], rule triple_modify)
    show "triple (few (Suc d) n) (op_bind (createInitialSessionAndMakeCurrent p) (\<lambda>_.
         op_bind (op_modify (\<lambda>k. k\<lparr>kChildren := kChildren k @ [p]\<rparr>)) (\<lambda>_. op_return (Some p))) :: ('a, nat option) kit_op)
        (\<lambda>_. few (Suc d) (Suc n)) (few (Suc d) (Suc n))"
      by (rule triple_bind [OF first]) (intro few_identity identity_intros; simp add: identity_of_def)
  qed (simp add: few_def)
  have "triple (few d n) (op_bind (SessionCreator_new ip) (\<lambda>c k. make_proxy c (length (kProxies k)) k) :: ('a, nat option) kit_op)
      (\<lambda>_. few (Suc d) (Suc n)) (few (Suc d) (Suc n))"
    by (rule triple_bind [OF new], rule triple_state, rule triple_now [OF made])
  then show ?thesis using k few_more [OF k, of "Suc d" "Suc n"]
    by (simp add: openkit_createSession_parts tripleD)
qed

text \<open>C13: No two beacons have the same key: whatever calls are made on the library, by the application and by the
  background threads, the pairs of series and sequence number of all sessions ever created are different, as long as
  fewer than \<open>2 ^ 31\<close> series were begun, so that the provider of the numbers has not come round, and fewer than
  \<open>2 ^ 32\<close> sessions were created. This also holds when the number of the series started anywhere and overflowed.\<close>

theorem beacon_keys_distinct:
  assumes "kit_reached fp k" and "kNextDraw k < 2 ^ 31" and "length (kSessions k) < 2 ^ 32"
  shows "distinct (beacon_keys k)"
  using reached_keys [OF assms(1)] assms(2,3) by (auto simp: keys_from_def keys_inv_def keys_ok_def)

lemma beacon_keys_distinct_witness:
  "\<forall>(fp :: unit double_ops) ok pc. distinct (beacon_keys (snd (kit_step fp (CreateSession None)
     (snd (kit_step fp (CreateSession None) (sample_kit ok pc))))))"
proof (intro allI)
  fix fp :: "unit double_ops" and ok pc
  let ?next = "\<lambda>k. snd (kit_step fp (CreateSession None) k)"
  have n: "?next k = snd (openkit_createSession None k)" for k
    by (simp add: result_lost_def op_bind_def op_return_def split: prod.split sum.split)
  have "few 0 0 (sample_kit ok pc)" by (simp add: few_def sample_kit_def Kit_new_def)
  then have "few 2 2 (?next (?next (sample_kit ok pc)))"
    unfolding n using few_created [OF few_created] by (simp add: numeral_2_eq_2)
  then show "distinct (beacon_keys (?next (?next (sample_kit ok pc))))"
    by (intro beacon_keys_distinct [of fp] kit_reached.step [OF sample_proxy(1)]) (simp_all add: few_def)
qed

end
