(* ===== verification/Open_Kit_Library.thy ===== *)
theory Open_Kit_Library
  imports Eviction Inet_Address Sender_Facts
begin

text \<open>
  The library object with all that it is made of (src/core/objects/OpenKitInitializer.cxx, OpenKit.cxx,
  src/api/DynatraceOpenKitBuilder.cxx), waiting for its initialisation (src/core/BeaconSender.cxx,
  src/core/util/CountDownLatch.cxx), and the interfaces through which an application calls it: the objects
  behind them are those of the library or the null objects (src/core/objects/NullSession.cxx,
  NullRootAction.cxx, NullAction.h, NullWebRequestTracer.cxx), on which no call has an effect.
\<close>

subsection \<open>The library object\<close>

definition BeaconCacheConfiguration_from :: "OpenKitBuilder \<Rightarrow> BeaconCacheConfiguration" where
  "BeaconCacheConfiguration_from b =
     \<lparr>mMaxRecordAge = okbBeaconCacheMaxRecordAge b, mCacheSizeLowerBound = okbBeaconCacheLowerMemoryBoundary b,
      mCacheSizeUpperBound = okbBeaconCacheUpperMemoryBoundary b\<rparr>"

record 'w OpenKit =
  okLogger :: ILogger
  okCacheConfiguration :: BeaconCacheConfiguration
  okEvictor :: BeaconCacheEvictor
  okSender :: "'w Sender"

text \<open>
  What the \<open>n\<close>-th library object reads of the platform. \<open>plAwait\<close> is what the other threads do while a call
  waits for the initialisation, for a number of milliseconds or without a limit.
\<close>

record 'w platform =
  plVersion :: string
  plCompany :: string
  plReadings :: "nat \<Rightarrow> nat \<Rightarrow> readings"
  plDraws :: "nat \<Rightarrow> nat \<Rightarrow> int32 \<times> int64"
  plFirstSessionNumber :: "nat \<Rightarrow> int32"
  plWorld :: "nat \<Rightarrow> 'w"
  plAwait :: "int64 option \<Rightarrow> 'w Sender \<Rightarrow> 'w Sender"

definition OpenKit_new :: "'w platform \<Rightarrow> nat \<Rightarrow> OpenKitBuilder \<Rightarrow> 'w OpenKit" where
  "OpenKit_new pl n b =
     \<lparr>okLogger = builder_getLogger b, okCacheConfiguration = BeaconCacheConfiguration_from b, okEvictor = BeaconCacheEvictor_new,
      okSender = Sender_new (Kit_new (OpenKitConfiguration_from b) (PrivacyConfiguration_from b) (plReadings pl n) (plDraws pl n)
        (plFirstSessionNumber pl n)) (plWorld pl n)\<rparr>"

definition evictor_start :: "BeaconCacheEvictor \<Rightarrow> BeaconCacheEvictor" where
  "evictor_start e = (if phase e \<noteq> NotStarted then e else e\<lparr>phase := Registering\<rparr>)"

definition evictor_stop :: "BeaconCacheEvictor \<Rightarrow> BeaconCacheEvictor" where
  "evictor_stop e = (if phase e = NotStarted \<or> phase e = Exited then e else e\<lparr>mStop := True\<rparr>)"

text \<open>The threads of the watchdog and of the sender start with the first round of each.\<close>

definition OpenKit_initialize :: "'w OpenKit \<Rightarrow> 'w OpenKit" where
  "OpenKit_initialize k = k\<lparr>okEvictor := evictor_start (okEvictor k)\<rparr>"

definition builder_build :: "'w platform \<Rightarrow> nat \<Rightarrow> OpenKitBuilder \<Rightarrow> 'w OpenKit" where
  "builder_build pl n b = OpenKit_initialize (OpenKit_new pl n b)"

definition on_sender :: "('w Sender, 'a) cpp_op \<Rightarrow> ('w OpenKit, 'a) cpp_op" where
  "on_sender m = (\<lambda>k. let (r, s) = m (okSender k) in (r, k\<lparr>okSender := s\<rparr>))"

text \<open>The evictor is stopped between the proxies and the two other threads.\<close>

definition OpenKit_shutdown :: "('w OpenKit, unit) cpp_op" where
  "OpenKit_shutdown = (\<lambda>k.
     if mIsShutdown (okSender k) then (Inr (), k)
     else op_bind (on_sender openkit_shutdown) (\<lambda>_. op_modify (\<lambda>k. k\<lparr>okEvictor := evictor_stop (okEvictor k)\<rparr>)) k)"

subsection \<open>Waiting for the initialisation\<close>

definition waitForInit :: "'w platform \<Rightarrow> int64 option \<Rightarrow> ('w Sender, bool) cpp_op" where
  "waitForInit pl timeout = (\<lambda>s. let s' = plAwait pl timeout s in (Inr (mInitSucceeded s'), s'))"

definition sender_isInitialized :: "('w Sender, bool) cpp_op" where
  "sender_isInitialized = (\<lambda>s. (Inr (mInitSucceeded s), s))"

text \<open>What the latch promises: without a limit the wait ends when the count is zero.\<close>

subsection \<open>The thread of the watchdog\<close>

text \<open>One execution of the loop of the thread; \<open>None\<close> where the loop ends.\<close>

definition watchdog_round :: "('s Kit_scheme \<Rightarrow> int64 \<Rightarrow> 's Kit_scheme) \<Rightarrow> 's Kit_scheme \<Rightarrow> ((cpp_exception + unit) \<times> 's Kit_scheme) option" where
  "watchdog_round sleep k =
     (if mWatchdogIsShutdown k then None
      else Some (op_bind watchdog_execute (\<lambda>t. op_modify (\<lambda>k. sleep k t)) k))"

subsection \<open>The interfaces of the application\<close>

text \<open>
  A session is known by its library object and its proxy, an action or a tracer by its library object, its
  session and its number there. The tag of a tracer is fixed when it is made.
\<close>

datatype ISession = SessionObject nat nat | NullSession
datatype IAction = ActionObject nat nat nat | NullAction
datatype IWebRequestTracer = TracerObject nat nat nat string | NullWebRequestTracer

type_synonym 'w library = "'w OpenKit list"

definition on_instance :: "nat \<Rightarrow> ('w OpenKit, 'a) cpp_op \<Rightarrow> ('w library, 'a) cpp_op" where
  "on_instance n m = (\<lambda>ks. let (r, k) = m (ks ! n) in (r, ks[n := k]))"

definition session_dispatch :: "'a \<Rightarrow> (nat \<Rightarrow> ('w Sender, 'a) cpp_op) \<Rightarrow> ISession \<Rightarrow> ('w library, 'a) cpp_op" where
  "session_dispatch a m o' = (case o' of NullSession \<Rightarrow> op_return a | SessionObject n p \<Rightarrow> on_instance n (on_sender (m p)))"

definition ISession_enterAction :: "string option \<Rightarrow> ISession \<Rightarrow> ('w library, IAction) cpp_op" where
  "ISession_enterAction name o' = op_bind (session_dispatch None (proxy_enterAction name) o') (\<lambda>r.
     op_return (case (o', r) of (SessionObject n p, Some (i, h)) \<Rightarrow> ActionObject n i h | _ \<Rightarrow> NullAction))"

text \<open>The tag of the tracer with a number, as it is in the tree of its session.\<close>

fun find_tag :: "nat \<Rightarrow> node \<Rightarrow> string option" and find_tags :: "nat \<Rightarrow> node list \<Rightarrow> string option" where
  "find_tag h (Tracer j t) = (if j = h then Some (mData (wrWebRequestTag t)) else None)"
| "find_tag h (Action j a cs) = find_tags h cs"
| "find_tags h [] = None"
| "find_tags h (n # ns) = (case find_tag h n of Some t \<Rightarrow> Some t | None \<Rightarrow> find_tags h ns)"

definition tracer_object :: "nat \<Rightarrow> (nat \<times> nat) option \<Rightarrow> 'w library \<Rightarrow> IWebRequestTracer" where
  "tracer_object n r ks =
     (case r of
        None \<Rightarrow> NullWebRequestTracer
      | Some (i, h) \<Rightarrow> TracerObject n i h (case find_tags h (mChildren (session_at i (okSender (ks ! n)))) of Some t \<Rightarrow> t | None \<Rightarrow> ''''))"

definition ISession_traceWebRequest :: "string option \<Rightarrow> ISession \<Rightarrow> ('w library, IWebRequestTracer) cpp_op" where
  "ISession_traceWebRequest url o' = op_bind (session_dispatch None (proxy_traceWebRequest url) o') (\<lambda>r ks.
     (Inr (case o' of SessionObject n p \<Rightarrow> tracer_object n r ks | NullSession \<Rightarrow> NullWebRequestTracer), ks))"

definition action_dispatch :: "node_input \<Rightarrow> IAction \<Rightarrow> ('w library, unit) cpp_op" where
  "action_dispatch x o' =
     (case o' of
        NullAction \<Rightarrow> op_return ()
      | ActionObject n i h \<Rightarrow> on_instance n (on_sender (result_lost (kit_object_call i h (node_call x)))))"

text \<open>A call on an action that is in the tree no more finds it left.\<close>

definition IAction_enterAction :: "string option \<Rightarrow> IAction \<Rightarrow> ('w library, IAction) cpp_op" where
  "IAction_enterAction name o' =
     (case o' of
        NullAction \<Rightarrow> op_return NullAction
      | ActionObject n i h \<Rightarrow>
          op_bind (on_instance n (on_sender (kit_object_call i h (action_enterAction (UTF8String_of_ptr name))))) (\<lambda>r.
          op_return (case r of Some (Some j) \<Rightarrow> ActionObject n i j | _ \<Rightarrow> NullAction)))"

definition IAction_traceWebRequest :: "string option \<Rightarrow> IAction \<Rightarrow> ('w library, IWebRequestTracer) cpp_op" where
  "IAction_traceWebRequest url o' =
     (case o' of
        NullAction \<Rightarrow> op_return NullWebRequestTracer
      | ActionObject n i h \<Rightarrow>
          op_bind (on_instance n (on_sender (kit_object_call i h (action_traceWebRequest (UTF8String_of_ptr url))))) (\<lambda>r ks.
          (Inr (case r of Some (Some j) \<Rightarrow> tracer_object n (Some (i, j)) ks | _ \<Rightarrow> NullWebRequestTracer), ks)))"

definition tracer_dispatch :: "node_input \<Rightarrow> IWebRequestTracer \<Rightarrow> ('w library, unit) cpp_op" where
  "tracer_dispatch x o' =
     (case o' of
        NullWebRequestTracer \<Rightarrow> op_return ()
      | TracerObject n i h tag \<Rightarrow> on_instance n (on_sender (result_lost (kit_object_call i h (node_call x)))))"

definition ITracer_getTag :: "IWebRequestTracer \<Rightarrow> string" where
  "ITracer_getTag o' = (case o' of NullWebRequestTracer \<Rightarrow> '''' | TracerObject n i h tag \<Rightarrow> tag)"

text \<open>A library object that has been shut down gives a null object.\<close>

definition IOpenKit_createSession :: "string option \<Rightarrow> nat \<Rightarrow> ('w library, ISession) cpp_op" where
  "IOpenKit_createSession clientIPAddress n =
     op_bind (on_instance n (on_sender (openkit_createSession clientIPAddress))) (\<lambda>r.
     op_return (case r of None \<Rightarrow> NullSession | Some p \<Rightarrow> SessionObject n p))"

end
