(* ===== verification/C_Handles.thy ===== *)
theory C_Handles
  imports Open_Kit_Library
begin

text \<open>
  The memory behind the handles of the C interface (src/api-c/OpenKit-c.cxx): what it allocates and
  frees, copies of strings, and the singly linked lists of strings. A pointer is an address, and 0 the null
  pointer; an address is not used again after it has been freed. An allocation does not fail. Using an address
  that is not allocated, or one of another type, and following a null pointer are errors of the memory, which
  no handler catches.
\<close>

subsection \<open>Memory\<close>

type_synonym ptr = nat

abbreviation nullptr :: ptr where "nullptr \<equiv> 0"

text \<open>The handles of a session, a root action, an action and a tracer: the object and the logger.\<close>

record 'o Handle =
  hSharedPointer :: "'o option"
  hLogger :: "ILogger option"

type_synonym SessionHandle = "ISession Handle"
type_synonym RootActionHandle = "IAction Handle"
type_synonym ActionHandle = "IAction Handle"
type_synonym WebRequestTracerHandle = "IWebRequestTracer Handle"

record OpenKitHandle = "nat Handle" +
  ohLoggerHandle :: ptr
  ohOwnsLoggerHandle :: bool
  ohTrustManagerHandle :: ptr
  ohOwnsTrustManagerHandle :: bool

text \<open>An enumeration of C is an unsigned number of 32 bits.\<close>

type_synonym c_enum = "32 word"

record OpenKitConfigurationHandle =
  chEndpointURL :: ptr
  chApplicationID :: ptr
  chDeviceID :: int64
  chOrigDeviceID :: ptr
  chLoggerHandle :: ptr
  chDefaultLogLevel :: c_enum
  chOwnsLoggerHandle :: bool
  chApplicationVersion :: ptr
  chTrustMode :: c_enum
  chTrustManagerHandle :: ptr
  chOwnsTrustManagerHandle :: bool
  chOperatingSystem :: ptr
  chManufacturer :: ptr
  chModelID :: ptr
  chBeaconCacheMaxRecordAge :: int64
  chBeaconCacheLowerMemoryBoundary :: int64
  chBeaconCacheUpperMemoryBoundary :: int64
  chDataCollectionLevel :: c_enum
  chCrashReportingLevel :: c_enum
  chInterceptHttpRequestFunc :: nat
  chInterceptHttpResponseFunc :: nat

record OpenKitSList =
  slNext :: ptr
  slValue :: ptr

datatype cell =
  TextCell (text_of: string)
| SListCell (slist_of: OpenKitSList)
| TrustManagerCell (trust_manager_of: "ISSLTrustManager option")
| LoggerCell (logger_of: "ILogger option")
| ConfigurationCell (configuration_of: OpenKitConfigurationHandle)
| OpenKitCell (openkit_of: OpenKitHandle)
| SessionCell (session_of: SessionHandle)
| RootActionCell (root_action_of: RootActionHandle)
| ActionCell (action_of: ActionHandle)
| TracerCell (tracer_of: WebRequestTracerHandle)

record 'w Api =
  aMemory :: "ptr \<Rightarrow> cell option"
  aNext :: ptr
  aLibrary :: "'w library"
  aLog :: "(ILogger \<times> LogLevel \<times> string) list"

datatype c_error = FreedMemory | WrongType | NullPointer | Uncaught cpp_exception

type_synonym ('w, 'a) c_op = "'w Api \<Rightarrow> (c_error + 'a) \<times> 'w Api"

definition c_return :: "'a \<Rightarrow> ('w, 'a) c_op" where
  "c_return a = (\<lambda>s. (Inr a, s))"

definition c_fail :: "c_error \<Rightarrow> ('w, 'a) c_op" where
  "c_fail e = (\<lambda>s. (Inl e, s))"

definition c_bind :: "('w, 'a) c_op \<Rightarrow> ('a \<Rightarrow> ('w, 'b) c_op) \<Rightarrow> ('w, 'b) c_op" where
  "c_bind m f = (\<lambda>s. case m s of (Inl e, s') \<Rightarrow> (Inl e, s') | (Inr a, s') \<Rightarrow> f a s')"

definition c_modify :: "('w Api \<Rightarrow> 'w Api) \<Rightarrow> ('w, unit) c_op" where
  "c_modify f = (\<lambda>s. (Inr (), f s))"

definition malloc :: "cell \<Rightarrow> ('w, ptr) c_op" where
  "malloc c = (\<lambda>s. (Inr (aNext s), s\<lparr>aMemory := (aMemory s)(aNext s \<mapsto> c), aNext := aNext s + 1\<rparr>))"

text \<open>
  The type of a handle is given by the constructor \<open>mk\<close> and the selector \<open>sel\<close> of its cells: a cell of
  another constructor is not what \<open>mk\<close> makes of its selection.
\<close>

definition load :: "(cell \<Rightarrow> 'h) \<Rightarrow> ('h \<Rightarrow> cell) \<Rightarrow> ptr \<Rightarrow> ('w, 'h) c_op" where
  "load sel mk p = (\<lambda>s.
     if p = nullptr then (Inl NullPointer, s)
     else
       (case aMemory s p of
          None \<Rightarrow> (Inl FreedMemory, s)
        | Some c \<Rightarrow> if mk (sel c) = c then (Inr (sel c), s) else (Inl WrongType, s)))"

definition store :: "(cell \<Rightarrow> 'h) \<Rightarrow> ('h \<Rightarrow> cell) \<Rightarrow> ptr \<Rightarrow> 'h \<Rightarrow> ('w, unit) c_op" where
  "store sel mk p h = c_bind (load sel mk p) (\<lambda>_. c_modify (\<lambda>s. s\<lparr>aMemory := (aMemory s)(p \<mapsto> mk h)\<rparr>))"

text \<open>Freeing a null pointer has no effect.\<close>

definition free :: "ptr \<Rightarrow> ('w, unit) c_op" where
  "free p = (\<lambda>s.
     if p = nullptr then (Inr (), s)
     else if aMemory s p = None then (Inl FreedMemory, s)
     else (Inr (), s\<lparr>aMemory := (aMemory s)(p := None)\<rparr>))"

definition load_text :: "ptr \<Rightarrow> ('w, string) c_op" where
  "load_text = load text_of TextCell"

subsection \<open>Strings\<close>

text \<open>The copy of a null pointer and that of an empty string are null pointers.\<close>

definition duplicateString :: "string option \<Rightarrow> ('w, ptr) c_op" where
  "duplicateString str =
     (case str of
        None \<Rightarrow> c_return nullptr
      | Some t \<Rightarrow> if 0 < length t then malloc (TextCell t) else c_return nullptr)"

text \<open>The length of a C string and its copy end at the first null character, which a string of the model does not hold.\<close>

definition FREE_DUPLICATED_STRING :: "ptr \<Rightarrow> ('w, unit) c_op" where
  "FREE_DUPLICATED_STRING p = (if p \<noteq> nullptr then free p else c_return ())"

subsection \<open>Lists of strings\<close>

definition load_node :: "ptr \<Rightarrow> ('w, OpenKitSList) c_op" where
  "load_node = load slist_of SListCell"

definition createNode :: "string \<Rightarrow> ('w, ptr) c_op" where
  "createNode t =
     c_bind (malloc (SListCell \<lparr>slNext = nullptr, slValue = nullptr\<rparr>)) (\<lambda>node.
     c_bind (duplicateString (Some t)) (\<lambda>v.
     c_bind (store slist_of SListCell node \<lparr>slNext = nullptr, slValue = v\<rparr>) (\<lambda>_.
     if v = nullptr then c_bind (free node) (\<lambda>_. c_return nullptr) else c_return node)))"

text \<open>A list may be cyclic, so that the loop need not end: \<open>None\<close>.\<close>

partial_function (option) destroyOpenKitSList :: "ptr \<Rightarrow> 'w Api \<Rightarrow> ((c_error + unit) \<times> 'w Api) option" where
  "destroyOpenKitSList current s =
     (if current = nullptr then Some (Inr (), s)
      else
        (case load_node current s of
           (Inl e, s) \<Rightarrow> Some (Inl e, s)
         | (Inr n, s) \<Rightarrow>
             (case c_bind (FREE_DUPLICATED_STRING (slValue n)) (\<lambda>_.
                   c_bind (store slist_of SListCell current \<lparr>slNext = nullptr, slValue = nullptr\<rparr>) (\<lambda>_.
                   free current)) s of
                (Inl e, s) \<Rightarrow> Some (Inl e, s)
              | (Inr _, s) \<Rightarrow> destroyOpenKitSList (slNext n) s)))"

text \<open>
  The loop over the list of C++ with the first and the last node of what has been made. A node that cannot
  be made takes all of it away again.
\<close>

primrec createFromCxxList_loop :: "string list \<Rightarrow> ptr \<Rightarrow> ptr \<Rightarrow> 'w Api \<Rightarrow> ((c_error + ptr) \<times> 'w Api) option" where
  "createFromCxxList_loop [] first current s = Some (Inr first, s)"
| "createFromCxxList_loop (entry # es) first current s =
     (case createNode entry s of
        (Inl e, s) \<Rightarrow> Some (Inl e, s)
      | (Inr tmp, s) \<Rightarrow>
          if tmp = nullptr
          then (case destroyOpenKitSList first s of
                  None \<Rightarrow> None
                | Some (Inl e, s) \<Rightarrow> Some (Inl e, s)
                | Some (Inr _, s) \<Rightarrow> Some (Inr nullptr, s))
          else if first = nullptr then createFromCxxList_loop es tmp tmp s
          else
            (case c_bind (load_node current) (\<lambda>n. store slist_of SListCell current (n\<lparr>slNext := tmp\<rparr>)) s of
               (Inl e, s) \<Rightarrow> Some (Inl e, s)
             | (Inr _, s) \<Rightarrow> createFromCxxList_loop es first tmp s))"

definition createFromCxxList :: "string list \<Rightarrow> 'w Api \<Rightarrow> ((c_error + ptr) \<times> 'w Api) option" where
  "createFromCxxList cxxList = createFromCxxList_loop cxxList nullptr nullptr"

end
