(* ===== verification/C_Lists.thy ===== *)
theory C_Lists
  imports C_Handles
begin

text \<open>
  The contract of the types of handles, and what the lists of strings the C interface makes are: what is
  in memory when one has been made, and that destroying it leaves the memory as it was before.
\<close>

subsection \<open>The types of handles\<close>

locale handle_type =
  fixes sel :: "cell \<Rightarrow> 'h"
    and mk :: "'h \<Rightarrow> cell"
  assumes sel_mk [simp]: "sel (mk h) = h"
begin

lemma load_valid: "p \<noteq> nullptr \<Longrightarrow> aMemory s p = Some (mk h) \<Longrightarrow> load sel mk p s = (Inr h, s)"
  by (simp add: load_def)

lemma loaded: "load sel mk p s = (Inr h, s') \<Longrightarrow> s' = s \<and> p \<noteq> nullptr \<and> aMemory s p = Some (mk h)"
  by (auto simp: load_def split: if_splits option.splits)

lemma store_valid:
  "p \<noteq> nullptr \<Longrightarrow> aMemory s p = Some (mk h) \<Longrightarrow>
    store sel mk p h' s = (Inr (), s\<lparr>aMemory := (aMemory s)(p \<mapsto> mk h')\<rparr>)"
  by (simp add: store_def c_bind_def load_valid c_modify_def)

end

interpretation text_cell: handle_type text_of TextCell by unfold_locales simp
interpretation slist_node: handle_type slist_of SListCell by unfold_locales simp
interpretation trust_manager: handle_type trust_manager_of TrustManagerCell by unfold_locales simp
interpretation logger: handle_type logger_of LoggerCell by unfold_locales simp
interpretation configuration: handle_type configuration_of ConfigurationCell by unfold_locales simp
interpretation openkit: handle_type openkit_of OpenKitCell by unfold_locales simp
interpretation session: handle_type session_of SessionCell by unfold_locales simp
interpretation root_action: handle_type root_action_of RootActionCell by unfold_locales simp
interpretation action: handle_type action_of ActionCell by unfold_locales simp
interpretation tracer: handle_type tracer_of TracerCell by unfold_locales simp

text \<open>An address that has not been given out is not allocated.\<close>

definition memory_ok :: "'w Api \<Rightarrow> bool" where
  "memory_ok s \<longleftrightarrow> 0 < aNext s \<and> aMemory s nullptr = None \<and> (\<forall>p\<ge>aNext s. aMemory s p = None)"

lemma c_bind_Inr: "m s = (Inr a, s') \<Longrightarrow> c_bind m f s = f a s'"
  by (simp add: c_bind_def)

lemma c_return_apply [simp]: "c_return a s = (Inr a, s)"
  by (simp add: c_return_def)

lemma malloc_apply: "malloc c s = (Inr (aNext s), s\<lparr>aMemory := (aMemory s)(aNext s \<mapsto> c), aNext := aNext s + 1\<rparr>)"
  by (simp add: malloc_def)

lemma free_valid: "p \<noteq> nullptr \<Longrightarrow> aMemory s p = Some c \<Longrightarrow> free p s = (Inr (), s\<lparr>aMemory := (aMemory s)(p := None)\<rparr>)"
  by (simp add: free_def)

lemma duplicateString_apply:
  "duplicateString (Some t) s =
    (if t = [] then (Inr nullptr, s)
     else (Inr (aNext s), s\<lparr>aMemory := (aMemory s)(aNext s \<mapsto> TextCell t), aNext := aNext s + 1\<rparr>))"
  by (simp add: duplicateString_def malloc_apply)

subsection \<open>Lists in memory\<close>

primrec slist :: "(ptr \<Rightarrow> cell option) \<Rightarrow> ptr \<Rightarrow> string list \<Rightarrow> bool" where
  "slist m p [] \<longleftrightarrow> p = nullptr"
| "slist m p (t # ts) \<longleftrightarrow> p \<noteq> nullptr \<and> (\<exists>n. m p = Some (SListCell n) \<and> slValue n \<noteq> nullptr \<and>
     m (slValue n) = Some (TextCell t) \<and> slist m (slNext n) ts)"

text \<open>The cells of a list whose nodes and texts lie one behind the other.\<close>

fun chain :: "ptr \<Rightarrow> string list \<Rightarrow> ptr \<Rightarrow> cell option" where
  "chain a [] = Map.empty"
| "chain a (t # ts) = (chain (a + 2) ts)(a \<mapsto> SListCell \<lparr>slNext = if ts = [] then nullptr else a + 2, slValue = a + 1\<rparr>,
     a + 1 \<mapsto> TextCell t)"

lemma chain_dom: "p < a \<or> a + 2 * length ts \<le> p \<Longrightarrow> chain a ts p = None"
  by (induction ts arbitrary: a) auto

lemma chain_snoc:
  "chain a (ts @ [t]) = (if ts = [] then Map.empty
      else (chain a ts)(a + 2 * length ts - 2 \<mapsto> SListCell \<lparr>slNext = a + 2 * length ts, slValue = a + 2 * length ts - 1\<rparr>))
    (a + 2 * length ts \<mapsto> SListCell \<lparr>slNext = nullptr, slValue = a + 2 * length ts + 1\<rparr>, a + 2 * length ts + 1 \<mapsto> TextCell t)"
proof (induction ts arbitrary: a)
  case (Cons u us)
  show ?case
  proof (cases "us = []")
    case False
    then have l: "2 \<le> 2 * length us" by (cases us) simp_all
    have e: "chain a ((u # us) @ [t]) = (chain (a + 2) (us @ [t]))
        (a \<mapsto> SListCell \<lparr>slNext = a + 2, slValue = a + 1\<rparr>, a + 1 \<mapsto> TextCell u)" by simp
    show ?thesis unfolding e Cons.IH using False l by (auto simp: fun_eq_iff)
  qed (auto simp: fun_eq_iff)
qed simp

lemma chain_last:
  "ts \<noteq> [] \<Longrightarrow> chain a ts (a + 2 * length ts - 2) = Some (SListCell \<lparr>slNext = nullptr, slValue = a + 2 * length ts - 1\<rparr>)"
proof (induction ts arbitrary: a)
  case (Cons u us)
  then show ?case using Cons.IH [of "a + 2"] by (cases us) auto
qed simp

lemma chain_list:
  assumes "0 < a"
  shows "slist (m ++ chain a ts) (if ts = [] then nullptr else a) ts"
  using assms
proof (induction ts arbitrary: a m)
  case (Cons t ts)
  let ?m = "m(a \<mapsto> SListCell \<lparr>slNext = if ts = [] then nullptr else a + 2, slValue = a + 1\<rparr>, a + 1 \<mapsto> TextCell t)"
  have e: "m ++ chain a (t # ts) = ?m ++ chain (a + 2) ts"
    using chain_dom [of _ "a + 2" ts] by (fastforce simp: fun_eq_iff map_add_def split: option.split)
  have "slist (?m ++ chain (a + 2) ts) (if ts = [] then nullptr else a + 2) ts" by (rule Cons.IH) simp
  moreover have "chain (a + 2) ts a = None" "chain (a + 2) ts (Suc a) = None" by (rule chain_dom; simp)+
  ultimately show ?case using Cons.prems unfolding e by (simp add: map_add_def)
qed simp

subsection \<open>Destroying a list\<close>

lemma destroy_null: "destroyOpenKitSList nullptr s = Some (Inr (), s)"
  by (subst destroyOpenKitSList.simps) simp

lemma destroy_node:
  assumes "p \<noteq> nullptr" "aMemory s p = Some (SListCell n)" "slValue n \<noteq> nullptr" "aMemory s (slValue n) = Some c" "slValue n \<noteq> p"
  shows "destroyOpenKitSList p s = destroyOpenKitSList (slNext n) (s\<lparr>aMemory := (aMemory s)(slValue n := None, p := None)\<rparr>)"
proof -
  let ?s = "s\<lparr>aMemory := (aMemory s)(slValue n := None)\<rparr>"
  have "FREE_DUPLICATED_STRING (slValue n) s = (Inr (), ?s)"
    using assms by (simp add: FREE_DUPLICATED_STRING_def free_valid)
  moreover have "store slist_of SListCell p \<lparr>slNext = nullptr, slValue = nullptr\<rparr> ?s =
      (Inr (), ?s\<lparr>aMemory := (aMemory ?s)(p \<mapsto> SListCell \<lparr>slNext = nullptr, slValue = nullptr\<rparr>)\<rparr>)"
    using assms by (intro slist_node.store_valid [where h = n]) simp_all
  ultimately show ?thesis
    using assms slist_node.load_valid [OF assms(1,2)]
    by (subst destroyOpenKitSList.simps) (simp add: load_node_def c_bind_def free_def)
qed

lemma destroy_chain:
  assumes "0 < a" "aMemory s = m ++ chain a ts" "\<And>p. a \<le> p \<Longrightarrow> m p = None"
  shows "destroyOpenKitSList (if ts = [] then nullptr else a) s = Some (Inr (), s\<lparr>aMemory := m\<rparr>)"
  using assms
proof (induction ts arbitrary: a s)
  case (Cons t ts)
  let ?s = "s\<lparr>aMemory := (aMemory s)(a + 1 := None, a := None)\<rparr>"
  have l: "aMemory s a = Some (SListCell \<lparr>slNext = if ts = [] then nullptr else a + 2, slValue = a + 1\<rparr>)"
    "aMemory s (a + 1) = Some (TextCell t)"
    using Cons.prems by simp_all
  have "m ++ chain (a + 2) ts = aMemory ?s"
    using Cons.prems chain_dom [of _ "a + 2" ts] by (fastforce simp: fun_eq_iff map_add_def split: option.split)
  then have "destroyOpenKitSList (if ts = [] then nullptr else a + 2) ?s = Some (Inr (), ?s\<lparr>aMemory := m\<rparr>)"
    using Cons.prems by (intro Cons.IH) simp_all
  then show ?case using destroy_node [OF _ l(1)] l(2) Cons.prems by simp
qed (simp add: destroy_null)

subsection \<open>Making a list\<close>

lemma createNode_apply:
  assumes "memory_ok s"
  shows "createNode [] s = (Inr nullptr, s\<lparr>aNext := aNext s + 1\<rparr>)"
    and "t \<noteq> [] \<Longrightarrow> createNode t s = (Inr (aNext s), s\<lparr>aNext := aNext s + 2,
      aMemory := (aMemory s)(aNext s \<mapsto> SListCell \<lparr>slNext = nullptr, slValue = aNext s + 1\<rparr>, aNext s + 1 \<mapsto> TextCell t)\<rparr>)"
proof -
  have o: "0 < aNext s" "(aMemory s)(aNext s := None) = aMemory s" using assms by (auto simp: memory_ok_def)
  let ?n = "\<lparr>slNext = nullptr, slValue = nullptr\<rparr>"
  let ?s = "s\<lparr>aMemory := (aMemory s)(aNext s \<mapsto> SListCell ?n), aNext := aNext s + 1\<rparr>"
  have st: "store slist_of SListCell (aNext s) \<lparr>slNext = nullptr, slValue = v\<rparr> u =
      (Inr (), u\<lparr>aMemory := (aMemory u)(aNext s \<mapsto> SListCell \<lparr>slNext = nullptr, slValue = v\<rparr>)\<rparr>)"
    if "aMemory u (aNext s) = Some (SListCell ?n)" for u :: "'a Api" and v
    using that o(1) by (intro slist_node.store_valid [where h = ?n]) simp_all
  show "createNode [] s = (Inr nullptr, s\<lparr>aNext := aNext s + 1\<rparr>)"
    using o st [of ?s nullptr] by (simp add: createNode_def c_bind_def malloc_apply duplicateString_apply free_def)
  assume "t \<noteq> []"
  then show "createNode t s = (Inr (aNext s), s\<lparr>aNext := aNext s + 2,
      aMemory := (aMemory s)(aNext s \<mapsto> SListCell \<lparr>slNext = nullptr, slValue = aNext s + 1\<rparr>, aNext s + 1 \<mapsto> TextCell t)\<rparr>)"
    using o by (simp add: createNode_def c_bind_def malloc_apply duplicateString_apply st fun_upd_twist)
qed

lemma loop_continues:
  assumes "0 < a" "\<And>p. a \<le> p \<Longrightarrow> m p = None" "m nullptr = None"
  shows "ds \<noteq> [] \<Longrightarrow> aMemory s = m ++ chain a ds \<Longrightarrow> aNext s = a + 2 * length ds \<Longrightarrow>
    \<exists>n. createFromCxxList_loop es a (a + 2 * length ds - 2) s =
      Some (if [] \<in> set es then (Inr nullptr, s\<lparr>aMemory := m, aNext := n\<rparr>)
            else (Inr a, s\<lparr>aMemory := m ++ chain a (ds @ es), aNext := n\<rparr>))"
proof (induction es arbitrary: ds s)
  case Nil
  show ?case by (intro exI [of _ "aNext s"]) (use Nil.prems in simp)
next
  case (Cons t es)
  let ?N = "a + 2 * length ds"
  have o: "memory_ok s"
    using assms Cons.prems chain_dom [of _ a ds] by (auto simp: memory_ok_def map_add_def)
  show ?case
  proof (cases "t = []")
    case True
    have "destroyOpenKitSList a (s\<lparr>aNext := aNext s + 1\<rparr>) = Some (Inr (), s\<lparr>aNext := aNext s + 1, aMemory := m\<rparr>)"
      using destroy_chain [OF assms(1), of "s\<lparr>aNext := aNext s + 1\<rparr>" m ds] assms(2) Cons.prems by simp
    then show ?thesis using True assms(1) createNode_apply(1) [OF o] by (simp add: exI [of _ "aNext s + 1"])
  next
    case False
    let ?s = "s\<lparr>aNext := ?N + 2, aMemory := (aMemory s)(?N \<mapsto> SListCell \<lparr>slNext = nullptr, slValue = ?N + 1\<rparr>, ?N + 1 \<mapsto> TextCell t)\<rparr>"
    let ?n = "\<lparr>slNext = nullptr, slValue = ?N - 1\<rparr>"
    let ?u = "?s\<lparr>aMemory := (aMemory ?s)(?N - 2 \<mapsto> SListCell (?n\<lparr>slNext := ?N\<rparr>))\<rparr>"
    have l: "2 \<le> 2 * length ds" using Cons.prems by (cases ds) simp_all
    have n: "createNode t s = (Inr ?N, ?s)" using createNode_apply(2) [OF o False] Cons.prems by simp
    have c: "aMemory ?s (?N - 2) = Some (SListCell ?n)"
      using Cons.prems chain_last [of ds a] l by (simp add: map_add_def) arith
    have z: "?N - 2 \<noteq> nullptr" using assms(1) l by simp
    have w: "c_bind (load_node (?N - 2)) (\<lambda>n. store slist_of SListCell (?N - 2) (n\<lparr>slNext := ?N\<rparr>)) ?s = (Inr (), ?u)"
      using slist_node.load_valid [OF z c] slist_node.store_valid [OF z c] by (simp add: c_bind_def load_node_def)
    have "aMemory ?u = m ++ chain a (ds @ [t])"
      using Cons.prems l unfolding chain_snoc by (auto simp: fun_eq_iff map_add_def)
    then have "\<exists>n. createFromCxxList_loop es a (a + 2 * length (ds @ [t]) - 2) ?u =
      Some (if [] \<in> set es then (Inr nullptr, ?u\<lparr>aMemory := m, aNext := n\<rparr>)
            else (Inr a, ?u\<lparr>aMemory := m ++ chain a ((ds @ [t]) @ es), aNext := n\<rparr>))"
      by (intro Cons.IH) simp_all
    then show ?thesis using False assms(1) n w by (auto split: if_splits)
  qed
qed

lemma list_made:
  assumes "memory_ok s"
  shows "\<exists>n. createFromCxxList ts s =
    Some (if [] \<in> set ts then (Inr nullptr, s\<lparr>aNext := n\<rparr>)
          else (Inr (if ts = [] then nullptr else aNext s), s\<lparr>aMemory := aMemory s ++ chain (aNext s) ts, aNext := n\<rparr>))"
proof (cases ts)
  case Nil
  then show ?thesis by (auto simp: createFromCxxList_def intro: exI [of _ "aNext s"])
next
  case (Cons t us)
  let ?a = "aNext s"
  show ?thesis
  proof (cases "t = []")
    case True
    then show ?thesis
      using Cons createNode_apply(1) [OF assms] by (simp add: createFromCxxList_def destroy_null exI [of _ "?a + 1"])
  next
    case False
    let ?s = "s\<lparr>aNext := ?a + 2, aMemory := (aMemory s)(?a \<mapsto> SListCell \<lparr>slNext = nullptr, slValue = ?a + 1\<rparr>, ?a + 1 \<mapsto> TextCell t)\<rparr>"
    have "\<exists>n. createFromCxxList_loop us ?a (?a + 2 * length [t] - 2) ?s =
      Some (if [] \<in> set us then (Inr nullptr, ?s\<lparr>aMemory := aMemory s, aNext := n\<rparr>)
            else (Inr ?a, ?s\<lparr>aMemory := aMemory s ++ chain ?a ([t] @ us), aNext := n\<rparr>))"
      using assms by (intro loop_continues) (auto simp: memory_ok_def)
    then show ?thesis
      using Cons False createNode_apply(2) [OF assms False] assms
      by (auto simp: createFromCxxList_def memory_ok_def split: if_splits)
  qed
qed

text \<open>C28: A list of strings for C holds the strings of the list of C++ in their order, and destroying it
  leaves the memory as it was; but where one of them is empty there is no list at all, and nothing is left
  in memory.\<close>

theorem string_list_for_c:
  assumes "memory_ok s"
  shows "\<exists>p s'. createFromCxxList ts s = Some (Inr p, s') \<and>
    (if [] \<in> set ts then p = nullptr \<and> aMemory s' = aMemory s
     else slist (aMemory s') p ts \<and>
       (\<exists>s''. destroyOpenKitSList p s' = Some (Inr (), s'') \<and> aMemory s'' = aMemory s))"
proof -
  obtain n where n: "createFromCxxList ts s =
    Some (if [] \<in> set ts then (Inr nullptr, s\<lparr>aNext := n\<rparr>)
          else (Inr (if ts = [] then nullptr else aNext s), s\<lparr>aMemory := aMemory s ++ chain (aNext s) ts, aNext := n\<rparr>))"
    using list_made [OF assms] by blast
  have a: "0 < aNext s" "\<And>p. aNext s \<le> p \<Longrightarrow> aMemory s p = None" using assms by (auto simp: memory_ok_def)
  have "destroyOpenKitSList (if ts = [] then nullptr else aNext s) (s\<lparr>aMemory := aMemory s ++ chain (aNext s) ts, aNext := n\<rparr>) =
      Some (Inr (), s\<lparr>aMemory := aMemory s, aNext := n\<rparr>)"
    using destroy_chain [OF a(1) _ a(2), where s = "s\<lparr>aMemory := aMemory s ++ chain (aNext s) ts, aNext := n\<rparr>" and ts = ts] by simp
  then show ?thesis using n chain_list [OF a(1), of "aMemory s" ts] by auto
qed

lemma string_list_for_c_witness:
  "\<exists>p s'. createFromCxxList [''a'', ''b''] (\<lparr>aMemory = Map.empty, aNext = 1, aLibrary = [], aLog = []\<rparr> :: unit Api) = Some (Inr p, s') \<and>
    slist (aMemory s') p [''a'', ''b'']"
proof -
  have "memory_ok (\<lparr>aMemory = Map.empty, aNext = 1, aLibrary = [], aLog = []\<rparr> :: unit Api)" by (simp add: memory_ok_def)
  from string_list_for_c [OF this, of "[''a'', ''b'']"] show ?thesis by auto
qed

end
