(* ===== verification/C_Interface.thy ===== *)
theory C_Interface
  imports C_Lists
begin

text \<open>
  The functions of the C interface (src/api-c/OpenKit-c.cxx). Every function checks its handle, calls the
  object behind it and logs an exception; creating functions make a new handle, and those that end an object
  free its handle. Names that an operation of the library has taken carry the suffix \<open>_c\<close>.
\<close>

subsection \<open>Exceptions and logging\<close>

definition exception_text :: "cpp_exception \<Rightarrow> string" where
  "exception_text e =
     (case e of
        JsonLexerException t \<Rightarrow> t | JsonParserException t \<Rightarrow> t | LogicError t \<Rightarrow> t | InvalidArgument t \<Rightarrow> t
      | OutOfRange t \<Rightarrow> t | UndefinedBehaviour t \<Rightarrow> t)"

definition caught :: "c_error \<Rightarrow> bool" where
  "caught e \<longleftrightarrow> (case e of Uncaught (UndefinedBehaviour t) \<Rightarrow> False | Uncaught _ \<Rightarrow> True | _ \<Rightarrow> False)"

definition log_message :: "LogLevel \<Rightarrow> string \<Rightarrow> ILogger option \<Rightarrow> ('w, unit) c_op" where
  "log_message l t p =
     (case p of
        None \<Rightarrow> c_fail NullPointer
      | Some g \<Rightarrow> c_modify (\<lambda>s. if logger_writes l g then s\<lparr>aLog := aLog s @ [(g, l, t)]\<rparr> else s))"

text \<open>
  The logger of a handle: \<open>None\<close> for a null handle. Of the message, the text of the exception is kept;
  the file and the line are left out.
\<close>

definition handle_logger :: "(cell \<Rightarrow> ('o, 'z) Handle_scheme) \<Rightarrow> (('o, 'z) Handle_scheme \<Rightarrow> cell) \<Rightarrow> ptr \<Rightarrow> ('w, ILogger option option) c_op" where
  "handle_logger sel mk p = (if p = nullptr then c_return None else c_bind (load sel mk p) (\<lambda>h. c_return (Some (hLogger h))))"

definition CATCH_AND_LOG :: "('w, ILogger option option) c_op \<Rightarrow> 'a \<Rightarrow> ('w, 'a) c_op \<Rightarrow> ('w, 'a) c_op" where
  "CATCH_AND_LOG logger a m = (\<lambda>s.
     case m s of
       (Inl e, s') \<Rightarrow>
         if caught e
         then c_bind logger (\<lambda>r. case r of
                None \<Rightarrow> c_return a
              | Some g \<Rightarrow> c_bind (log_message LOG_LEVEL_ERROR (case e of Uncaught x \<Rightarrow> exception_text x | _ \<Rightarrow> '''') g) (\<lambda>_. c_return a)) s'
         else (Inl e, s')
     | (Inr r, s') \<Rightarrow> (Inr r, s'))"

definition CATCH_AND_IGNORE_ALL :: "'a \<Rightarrow> ('w, 'a) c_op \<Rightarrow> ('w, 'a) c_op" where
  "CATCH_AND_IGNORE_ALL a m = (\<lambda>s. case m s of (Inl e, s') \<Rightarrow> if caught e then (Inr a, s') else (Inl e, s') | (Inr r, s') \<Rightarrow> (Inr r, s'))"

definition on_library :: "('w library, 'a) cpp_op \<Rightarrow> ('w, 'a) c_op" where
  "on_library m = (\<lambda>s. let (r, ks) = m (aLibrary s) in (map_sum Uncaught id r, s\<lparr>aLibrary := ks\<rparr>))"

text \<open>A string of C++ is not made of a null pointer.\<close>

definition std_string :: "string option \<Rightarrow> ('w, string) c_op" where
  "std_string p = (case p of None \<Rightarrow> c_fail (Uncaught (UndefinedBehaviour ''string of a null pointer'')) | Some t \<Rightarrow> c_return t)"

definition text_at :: "ptr \<Rightarrow> ('w, string option) c_op" where
  "text_at p = (if p = nullptr then c_return None else c_bind (load_text p) (\<lambda>t. c_return (Some t)))"

subsection \<open>Trust managers and loggers\<close>

text \<open>A function pointer that is null is 0.\<close>

definition createCustomTrustManager :: "nat \<Rightarrow> ('w, ptr) c_op" where
  "createCustomTrustManager applyTrustManagerFunc =
     CATCH_AND_IGNORE_ALL nullptr (malloc (TrustManagerCell (Some (CustomTrustManager applyTrustManagerFunc))))"

definition createStrictTrustManager :: "('w, ptr) c_op" where
  "createStrictTrustManager = CATCH_AND_IGNORE_ALL nullptr (malloc (TrustManagerCell (Some SSLStrictTrustManager)))"

definition createBlindTrustManager :: "('w, ptr) c_op" where
  "createBlindTrustManager = CATCH_AND_IGNORE_ALL nullptr (malloc (TrustManagerCell (Some SSLBlindTrustManager)))"

definition destroyTrustManager :: "ptr \<Rightarrow> ('w, unit) c_op" where
  "destroyTrustManager p =
     (if p = nullptr then c_return () else c_bind (store trust_manager_of TrustManagerCell p None) (\<lambda>_. free p))"

definition createLogger :: "nat \<Rightarrow> nat \<Rightarrow> ('w, ptr) c_op" where
  "createLogger levelEnabledFunc logFunc =
     (if levelEnabledFunc = 0 \<or> logFunc = 0 then c_return nullptr
      else CATCH_AND_IGNORE_ALL nullptr (malloc (LoggerCell (Some (CustomLogger levelEnabledFunc logFunc)))))"

definition toCppLogLevel :: "c_enum \<Rightarrow> LogLevel" where
  "toCppLogLevel l =
     (if l = 0 then LOG_LEVEL_DEBUG else if l = 1 then LOG_LEVEL_INFO else if l = 2 then LOG_LEVEL_WARN
      else if l = 3 then LOG_LEVEL_ERROR else LOG_LEVEL_WARN)"

definition createDefaultLogger :: "c_enum \<Rightarrow> ('w, ptr) c_op" where
  "createDefaultLogger logLevel = CATCH_AND_IGNORE_ALL nullptr (malloc (LoggerCell (Some (DefaultLogger (toCppLogLevel logLevel)))))"

definition destroyLogger :: "ptr \<Rightarrow> ('w, unit) c_op" where
  "destroyLogger p = (if p = nullptr then c_return () else c_bind (store logger_of LoggerCell p None) (\<lambda>_. free p))"

subsection \<open>The configuration\<close>

definition LOGLEVEL_WARN :: c_enum where "LOGLEVEL_WARN = 2"
definition STRICT_TRUST :: c_enum where "STRICT_TRUST = 0"
definition BLIND_TRUST :: c_enum where "BLIND_TRUST = 1"
definition CUSTOM_TRUST :: c_enum where "CUSTOM_TRUST = 2"
definition DATA_COLLECTION_LEVEL_COUNT :: c_enum where "DATA_COLLECTION_LEVEL_COUNT = 3"
definition CRASH_REPORTING_LEVEL_COUNT :: c_enum where "CRASH_REPORTING_LEVEL_COUNT = 3"

definition OpenKitConfigurationHandle_new :: OpenKitConfigurationHandle where
  "OpenKitConfigurationHandle_new =
     \<lparr>chEndpointURL = nullptr, chApplicationID = nullptr, chDeviceID = -1, chOrigDeviceID = nullptr, chLoggerHandle = nullptr,
      chDefaultLogLevel = LOGLEVEL_WARN, chOwnsLoggerHandle = False, chApplicationVersion = nullptr, chTrustMode = STRICT_TRUST,
      chTrustManagerHandle = nullptr, chOwnsTrustManagerHandle = False, chOperatingSystem = nullptr, chManufacturer = nullptr,
      chModelID = nullptr, chBeaconCacheMaxRecordAge = -1, chBeaconCacheLowerMemoryBoundary = -1,
      chBeaconCacheUpperMemoryBoundary = -1, chDataCollectionLevel = 2, chCrashReportingLevel = 2,
      chInterceptHttpRequestFunc = 0, chInterceptHttpResponseFunc = 0\<rparr>"

definition load_configuration :: "ptr \<Rightarrow> ('w, OpenKitConfigurationHandle) c_op" where
  "load_configuration = load configuration_of ConfigurationCell"

definition store_configuration :: "ptr \<Rightarrow> OpenKitConfigurationHandle \<Rightarrow> ('w, unit) c_op" where
  "store_configuration = store configuration_of ConfigurationCell"

definition createOpenKitConfigurationWithOrigAndHashedDeviceId ::
    "string option \<Rightarrow> string option \<Rightarrow> int64 \<Rightarrow> string option \<Rightarrow> ('w, ptr) c_op" where
  "createOpenKitConfigurationWithOrigAndHashedDeviceId endpointURL applicationID deviceID origDeviceID =
     c_bind (malloc (ConfigurationCell OpenKitConfigurationHandle_new)) (\<lambda>handle.
     c_bind (duplicateString endpointURL) (\<lambda>u.
     c_bind (duplicateString applicationID) (\<lambda>a.
     c_bind (duplicateString origDeviceID) (\<lambda>d.
     c_bind (store_configuration handle
       (OpenKitConfigurationHandle_new\<lparr>chEndpointURL := u, chApplicationID := a, chDeviceID := deviceID, chOrigDeviceID := d\<rparr>)) (\<lambda>_.
     c_return handle)))))"

definition createOpenKitConfiguration :: "string option \<Rightarrow> string option \<Rightarrow> int64 \<Rightarrow> ('w, ptr) c_op" where
  "createOpenKitConfiguration endpointURL applicationID deviceID =
     createOpenKitConfigurationWithOrigAndHashedDeviceId endpointURL applicationID deviceID (Some (show_int (sint deviceID)))"

definition createOpenKitConfigurationWithStringDeviceID :: "string option \<Rightarrow> string option \<Rightarrow> string option \<Rightarrow> ('w, ptr) c_op" where
  "createOpenKitConfigurationWithStringDeviceID endpointURL applicationID deviceID =
     createOpenKitConfigurationWithOrigAndHashedDeviceId endpointURL applicationID (toNumericOr64BitHash deviceID) deviceID"

definition destroyOpenKitConfiguration :: "ptr \<Rightarrow> ('w, unit) c_op" where
  "destroyOpenKitConfiguration handle =
     (if handle = nullptr then c_return ()
      else
        c_bind (load_configuration handle) (\<lambda>c.
        c_bind (FREE_DUPLICATED_STRING (chEndpointURL c)) (\<lambda>_.
        c_bind (FREE_DUPLICATED_STRING (chApplicationID c)) (\<lambda>_.
        c_bind (FREE_DUPLICATED_STRING (chApplicationVersion c)) (\<lambda>_.
        c_bind (FREE_DUPLICATED_STRING (chOperatingSystem c)) (\<lambda>_.
        c_bind (FREE_DUPLICATED_STRING (chManufacturer c)) (\<lambda>_.
        c_bind (FREE_DUPLICATED_STRING (chModelID c)) (\<lambda>_.
        free handle))))))))"

definition configure_c :: "ptr \<Rightarrow> (OpenKitConfigurationHandle \<Rightarrow> OpenKitConfigurationHandle) \<Rightarrow> ('w, unit) c_op" where
  "configure_c handle f =
     (if handle \<noteq> nullptr then c_bind (load_configuration handle) (\<lambda>c. store_configuration handle (f c)) else c_return ())"

definition useDefaultLogLevelForConfiguration :: "ptr \<Rightarrow> c_enum \<Rightarrow> ('w, unit) c_op" where
  "useDefaultLogLevelForConfiguration handle l = configure_c handle (\<lambda>c. c\<lparr>chDefaultLogLevel := l\<rparr>)"

definition useLoggerForConfiguration :: "ptr \<Rightarrow> ptr \<Rightarrow> ('w, unit) c_op" where
  "useLoggerForConfiguration handle p = configure_c handle (\<lambda>c. c\<lparr>chLoggerHandle := p\<rparr>)"

definition configure_text :: "ptr \<Rightarrow> string option \<Rightarrow> (ptr \<Rightarrow> OpenKitConfigurationHandle \<Rightarrow> OpenKitConfigurationHandle) \<Rightarrow> ('w, unit) c_op" where
  "configure_text handle t f =
     (if handle \<noteq> nullptr \<and> t \<noteq> None then c_bind (duplicateString t) (\<lambda>p. configure_c handle (f p)) else c_return ())"

definition useApplicationVersionForConfiguration :: "ptr \<Rightarrow> string option \<Rightarrow> ('w, unit) c_op" where
  "useApplicationVersionForConfiguration handle t = configure_text handle t (\<lambda>p c. c\<lparr>chApplicationVersion := p\<rparr>)"

definition useTrustModeForConfiguration :: "ptr \<Rightarrow> c_enum \<Rightarrow> ptr \<Rightarrow> ('w, unit) c_op" where
  "useTrustModeForConfiguration handle trustMode p = configure_c handle (\<lambda>c. c\<lparr>chTrustMode := trustMode, chTrustManagerHandle := p\<rparr>)"

definition useOperatingSystemForConfiguration :: "ptr \<Rightarrow> string option \<Rightarrow> ('w, unit) c_op" where
  "useOperatingSystemForConfiguration handle t = configure_text handle t (\<lambda>p c. c\<lparr>chOperatingSystem := p\<rparr>)"

definition useManufacturerForConfiguration :: "ptr \<Rightarrow> string option \<Rightarrow> ('w, unit) c_op" where
  "useManufacturerForConfiguration handle t = configure_text handle t (\<lambda>p c. c\<lparr>chManufacturer := p\<rparr>)"

definition useModelIDForConfiguration :: "ptr \<Rightarrow> string option \<Rightarrow> ('w, unit) c_op" where
  "useModelIDForConfiguration handle t = configure_text handle t (\<lambda>p c. c\<lparr>chModelID := p\<rparr>)"

definition configure_if :: "bool \<Rightarrow> ptr \<Rightarrow> (OpenKitConfigurationHandle \<Rightarrow> OpenKitConfigurationHandle) \<Rightarrow> ('w, unit) c_op" where
  "configure_if b handle f = (if b then configure_c handle f else c_return ())"

definition useBeaconCacheBehaviorForConfiguration :: "ptr \<Rightarrow> int64 \<Rightarrow> int64 \<Rightarrow> int64 \<Rightarrow> ('w, unit) c_op" where
  "useBeaconCacheBehaviorForConfiguration handle beaconCacheMaxRecordAge beaconCacheLowerMemoryBoundary beaconCacheUpperMemoryBoundary =
     c_bind (configure_if (sint beaconCacheMaxRecordAge \<ge> 0) handle (\<lambda>c. c\<lparr>chBeaconCacheMaxRecordAge := beaconCacheMaxRecordAge\<rparr>)) (\<lambda>_.
     c_bind (configure_if (sint beaconCacheLowerMemoryBoundary \<ge> 0) handle
       (\<lambda>c. c\<lparr>chBeaconCacheLowerMemoryBoundary := beaconCacheLowerMemoryBoundary\<rparr>)) (\<lambda>_.
     configure_if (sint beaconCacheUpperMemoryBoundary \<ge> 0) handle
       (\<lambda>c. c\<lparr>chBeaconCacheUpperMemoryBoundary := beaconCacheUpperMemoryBoundary\<rparr>)))"

definition useDataCollectionLevelForConfiguration :: "ptr \<Rightarrow> c_enum \<Rightarrow> ('w, unit) c_op" where
  "useDataCollectionLevelForConfiguration handle l = configure_c handle (\<lambda>c. c\<lparr>chDataCollectionLevel := l\<rparr>)"

definition useCrashReportingLevelForConfiguration :: "ptr \<Rightarrow> c_enum \<Rightarrow> ('w, unit) c_op" where
  "useCrashReportingLevelForConfiguration handle l = configure_c handle (\<lambda>c. c\<lparr>chCrashReportingLevel := l\<rparr>)"

definition useHttpRequestInterceptorForConfiguration :: "ptr \<Rightarrow> nat \<Rightarrow> ('w, unit) c_op" where
  "useHttpRequestInterceptorForConfiguration handle f =
     configure_if (f \<noteq> 0) handle (\<lambda>c. c\<lparr>chInterceptHttpRequestFunc := f\<rparr>)"

definition useHttpResponseInterceptorForConfiguration :: "ptr \<Rightarrow> nat \<Rightarrow> ('w, unit) c_op" where
  "useHttpResponseInterceptorForConfiguration handle f =
     configure_if (f \<noteq> 0) handle (\<lambda>c. c\<lparr>chInterceptHttpResponseFunc := f\<rparr>)"

end
