(* ===== verification/C_Calls.thy ===== *)
theory C_Calls
  imports C_Interface
begin

text \<open>
  The functions of the C interface on the library object, sessions, actions and tracers
  (src/api-c/OpenKit-c.cxx).
\<close>

subsection \<open>The library object\<close>

definition load_openkit :: "ptr \<Rightarrow> ('w, OpenKitHandle) c_op" where
  "load_openkit = load openkit_of OpenKitCell"

definition store_openkit :: "ptr \<Rightarrow> OpenKitHandle \<Rightarrow> ('w, unit) c_op" where
  "store_openkit = store openkit_of OpenKitCell"

definition load_logger :: "ptr \<Rightarrow> ('w, ILogger option) c_op" where
  "load_logger = load logger_of LoggerCell"

definition load_trust_manager :: "ptr \<Rightarrow> ('w, ISSLTrustManager option) c_op" where
  "load_trust_manager = load trust_manager_of TrustManagerCell"

definition createTrustManagerHandle :: "ptr \<Rightarrow> c_enum \<Rightarrow> ptr \<Rightarrow> ('w, ptr) c_op" where
  "createTrustManagerHandle loggerHandle trustMode trustManagerHandle =
     (if trustMode = BLIND_TRUST then createBlindTrustManager
      else if trustMode = CUSTOM_TRUST \<and> trustManagerHandle \<noteq> nullptr then c_return trustManagerHandle
      else
        c_bind (if loggerHandle \<noteq> nullptr \<and> trustMode \<noteq> STRICT_TRUST
                then c_bind (load_logger loggerHandle) (log_message LOG_LEVEL_WARN
                  (''Unexpected trust mode '' @ show_int (sint trustMode) @ ''. Falling back to STRICT trust mode''))
                else c_return ()) (\<lambda>_.
        createStrictTrustManager))"

definition getLoggerHandle :: "ptr \<Rightarrow> ('w, ptr) c_op" where
  "getLoggerHandle handle =
     c_bind (load_configuration handle) (\<lambda>c.
       if chLoggerHandle c = nullptr
       then
         c_bind (createDefaultLogger (chDefaultLogLevel c)) (\<lambda>defaultLogger.
         c_bind (store_configuration handle (c\<lparr>chLoggerHandle := defaultLogger, chOwnsLoggerHandle := True\<rparr>)) (\<lambda>_.
         c_return defaultLogger))
       else c_return (chLoggerHandle c))"

text \<open>The levels of the library for the numbers that lie below the count.\<close>

definition DataCollectionLevel_of :: "c_enum \<Rightarrow> DataCollectionLevel" where
  "DataCollectionLevel_of l = (if l = 0 then DATA_OFF else if l = 1 then PERFORMANCE else USER_BEHAVIOR)"

definition CrashReportingLevel_of :: "c_enum \<Rightarrow> CrashReportingLevel" where
  "CrashReportingLevel_of l = (if l = 0 then CRASH_OFF else if l = 1 then OPT_OUT_CRASHES else OPT_IN_CRASHES)"

text \<open>What the configuration sets of the builder, once its texts are read.\<close>

definition configure_builder ::
    "OpenKitConfigurationHandle \<Rightarrow> string option \<Rightarrow> string option \<Rightarrow> string option \<Rightarrow> string option \<Rightarrow> OpenKitBuilder \<Rightarrow> OpenKitBuilder" where
  "configure_builder c applicationVersion operatingSystem manufacturer modelID b =
     (let b = withApplicationVersion applicationVersion b;
          b = withOperatingSystem operatingSystem b;
          b = withManufacturer manufacturer b;
          b = withModelID modelID b;
          b = (if sint (chBeaconCacheMaxRecordAge c) \<ge> 0 then withBeaconCacheMaxRecordAge (chBeaconCacheMaxRecordAge c) b else b);
          b = (if sint (chBeaconCacheLowerMemoryBoundary c) \<ge> 0 then withBeaconCacheLowerMemoryBoundary (chBeaconCacheLowerMemoryBoundary c) b else b);
          b = (if sint (chBeaconCacheUpperMemoryBoundary c) \<ge> 0 then withBeaconCacheUpperMemoryBoundary (chBeaconCacheUpperMemoryBoundary c) b else b);
          b = (if chDataCollectionLevel c < DATA_COLLECTION_LEVEL_COUNT then withDataCollectionLevel (DataCollectionLevel_of (chDataCollectionLevel c)) b else b);
          b = (if chCrashReportingLevel c < CRASH_REPORTING_LEVEL_COUNT then withCrashReportingLevel (CrashReportingLevel_of (chCrashReportingLevel c)) b else b);
          b = (if chInterceptHttpRequestFunc c \<noteq> 0 then withHttpRequestInterceptor (Some (CustomHttpRequestInterceptor (chInterceptHttpRequestFunc c))) b else b)
      in if chInterceptHttpResponseFunc c \<noteq> 0 then withHttpResponseInterceptor (Some (CustomHttpResponseInterceptor (chInterceptHttpResponseFunc c))) b else b)"

definition initializeOpenKitBuilder :: "OpenKitBuilder \<Rightarrow> ptr \<Rightarrow> ('w, OpenKitBuilder) c_op" where
  "initializeOpenKitBuilder builder handle =
     c_bind (load_configuration handle) (\<lambda>c.
     c_bind (createTrustManagerHandle (chLoggerHandle c) (chTrustMode c) (chTrustManagerHandle c)) (\<lambda>usedTrustManagerHandle.
     c_bind (store_configuration handle (c\<lparr>chOwnsTrustManagerHandle := usedTrustManagerHandle \<noteq> chTrustManagerHandle c,
       chTrustManagerHandle := usedTrustManagerHandle\<rparr>)) (\<lambda>_.
     c_bind (getLoggerHandle handle) (\<lambda>loggerHandle.
     c_bind (if loggerHandle \<noteq> nullptr then c_bind (load_logger loggerHandle) (\<lambda>g. c_return (withLogger g builder))
             else c_return builder) (\<lambda>builder.
     c_bind (if usedTrustManagerHandle \<noteq> nullptr then c_bind (load_trust_manager usedTrustManagerHandle) (\<lambda>t. c_return (withTrustManager t builder))
             else c_return builder) (\<lambda>builder.
     c_bind (text_at (chApplicationVersion c)) (\<lambda>applicationVersion.
     c_bind (text_at (chOperatingSystem c)) (\<lambda>operatingSystem.
     c_bind (text_at (chManufacturer c)) (\<lambda>manufacturer.
     c_bind (text_at (chModelID c)) (\<lambda>modelID.
     c_return (configure_builder c applicationVersion operatingSystem manufacturer modelID builder)))))))))))"

definition build_c :: "'w platform \<Rightarrow> OpenKitBuilder \<Rightarrow> ('w, nat) c_op" where
  "build_c pl b = (\<lambda>s. (Inr (length (aLibrary s)), s\<lparr>aLibrary := aLibrary s @ [builder_build pl (length (aLibrary s)) b]\<rparr>))"

text \<open>The handle \<^verbatim>\<open>configurationHandle->loggerHandle\<close> of the handlers of exceptions.\<close>

definition configured_logger :: "ptr \<Rightarrow> ('w, ILogger option option) c_op" where
  "configured_logger handle =
     c_bind (load_configuration handle) (\<lambda>c.
       if chLoggerHandle c = nullptr then c_return None else c_bind (load_logger (chLoggerHandle c)) (\<lambda>g. c_return (Some g)))"

definition createOpenKitHandle :: "ptr \<Rightarrow> nat \<Rightarrow> ('w, ptr) c_op" where
  "createOpenKitHandle handle openKit =
     CATCH_AND_LOG (configured_logger handle) nullptr
       (c_bind (load_configuration handle) (\<lambda>c.
        c_bind (load_logger (chLoggerHandle c)) (\<lambda>g.
        malloc (OpenKitCell \<lparr>hSharedPointer = Some openKit, hLogger = g, ohLoggerHandle = chLoggerHandle c,
          ohOwnsLoggerHandle = chOwnsLoggerHandle c, ohTrustManagerHandle = chTrustManagerHandle c,
          ohOwnsTrustManagerHandle = chOwnsTrustManagerHandle c\<rparr>))))"

definition createDynatraceOpenKit :: "'w platform \<Rightarrow> ptr \<Rightarrow> ('w, ptr) c_op" where
  "createDynatraceOpenKit pl handle =
     CATCH_AND_LOG (configured_logger handle) nullptr
       (c_bind (load_configuration handle) (\<lambda>c.
        c_bind (c_bind (text_at (chEndpointURL c)) std_string) (\<lambda>endpointURL.
        c_bind (c_bind (text_at (chApplicationID c)) std_string) (\<lambda>applicationID.
        c_bind (initializeOpenKitBuilder (DynatraceOpenKitBuilder (plVersion pl) (plCompany pl) endpointURL applicationID (chDeviceID c)) handle) (\<lambda>builder.
        c_bind (build_c pl builder) (createOpenKitHandle handle))))))"

text \<open>
  A function on a handle: a null handle is refused, the shared pointer is followed, and an exception is
  logged with the logger of the handle.
\<close>

definition shared_pointer :: "(cell \<Rightarrow> ('o, 'z) Handle_scheme) \<Rightarrow> (('o, 'z) Handle_scheme \<Rightarrow> cell) \<Rightarrow> ptr \<Rightarrow> ('w, 'o) c_op" where
  "shared_pointer sel mk p = c_bind (load sel mk p) (\<lambda>h. case hSharedPointer h of None \<Rightarrow> c_fail NullPointer | Some o' \<Rightarrow> c_return o')"

definition call_c :: "(cell \<Rightarrow> ('o, 'z) Handle_scheme) \<Rightarrow> (('o, 'z) Handle_scheme \<Rightarrow> cell) \<Rightarrow> ptr \<Rightarrow> 'a \<Rightarrow> ('o \<Rightarrow> ('w, 'a) c_op) \<Rightarrow> ('w, 'a) c_op" where
  "call_c sel mk p a m =
     (if p = nullptr then c_return a else CATCH_AND_LOG (handle_logger sel mk p) a (c_bind (shared_pointer sel mk p) m))"

definition shutdownOpenKit :: "ptr \<Rightarrow> ('w, unit) c_op" where
  "shutdownOpenKit p =
     call_c openkit_of OpenKitCell p () (\<lambda>n.
       c_bind (on_library (on_instance n OpenKit_shutdown)) (\<lambda>_.
       c_bind (load_openkit p) (\<lambda>h.
       c_bind (store_openkit p (h\<lparr>hSharedPointer := None, hLogger := None\<rparr>)) (\<lambda>_.
       c_bind (if ohOwnsTrustManagerHandle h \<and> ohTrustManagerHandle h \<noteq> nullptr
               then c_bind (destroyTrustManager (ohTrustManagerHandle h)) (\<lambda>_.
                    c_bind (load_openkit p) (\<lambda>h. store_openkit p (h\<lparr>ohTrustManagerHandle := nullptr\<rparr>)))
               else c_return ()) (\<lambda>_.
       c_bind (if ohOwnsLoggerHandle h \<and> ohLoggerHandle h \<noteq> nullptr
               then c_bind (destroyLogger (ohLoggerHandle h)) (\<lambda>_.
                    c_bind (load_openkit p) (\<lambda>h. store_openkit p (h\<lparr>ohLoggerHandle := nullptr\<rparr>)))
               else c_return ()) (\<lambda>_.
       free p))))))"

definition waitForInitCompletion :: "'w platform \<Rightarrow> ptr \<Rightarrow> ('w, bool) c_op" where
  "waitForInitCompletion pl p =
     call_c openkit_of OpenKitCell p False (\<lambda>n. on_library (on_instance n (on_sender (waitForInit pl None))))"

definition waitForInitCompletionWithTimeout :: "'w platform \<Rightarrow> ptr \<Rightarrow> int64 \<Rightarrow> ('w, bool) c_op" where
  "waitForInitCompletionWithTimeout pl p timeoutMillis =
     c_bind (call_c openkit_of OpenKitCell p ()
       (\<lambda>n. c_bind (on_library (on_instance n (on_sender (waitForInit pl (Some timeoutMillis))))) (\<lambda>_. c_return ()))) (\<lambda>_.
     c_return False)"

definition isInitialized :: "ptr \<Rightarrow> ('w, bool) c_op" where
  "isInitialized p = call_c openkit_of OpenKitCell p False (\<lambda>n. on_library (on_instance n (on_sender sender_isInitialized)))"

subsection \<open>Handles of objects\<close>

text \<open>A new handle with an object and the logger of the handle it comes from, and the end of a handle.\<close>

definition new_handle ::
    "(cell \<Rightarrow> ('p, 'z) Handle_scheme) \<Rightarrow> (('p, 'z) Handle_scheme \<Rightarrow> cell) \<Rightarrow> ptr \<Rightarrow> ('o Handle \<Rightarrow> cell) \<Rightarrow> 'o \<Rightarrow> ('w, ptr) c_op" where
  "new_handle sel mk p mk' o' = c_bind (load sel mk p) (\<lambda>h. malloc (mk' \<lparr>hSharedPointer = Some o', hLogger = hLogger h\<rparr>))"

definition release :: "(cell \<Rightarrow> 'o Handle) \<Rightarrow> ('o Handle \<Rightarrow> cell) \<Rightarrow> ptr \<Rightarrow> ('w, unit) c_op" where
  "release sel mk p = c_bind (store sel mk p \<lparr>hSharedPointer = None, hLogger = None\<rparr>) (\<lambda>_. free p)"

definition releaseRootAction :: "ptr \<Rightarrow> ('w, unit) c_op" where
  "releaseRootAction = release root_action_of RootActionCell"

definition releaseAction :: "ptr \<Rightarrow> ('w, unit) c_op" where
  "releaseAction = release action_of ActionCell"

subsection \<open>Sessions\<close>

definition toCppConnectionType :: "c_enum \<Rightarrow> ConnectionType" where
  "toCppConnectionType c =
     (if c = 3 then LAN else if c = 0 then MOBILE else if c = 2 then OFFLINE else if c = 1 then WIFI else UNSET)"

definition createSession :: "ptr \<Rightarrow> string option \<Rightarrow> ('w, ptr) c_op" where
  "createSession p clientIPAddress =
     call_c openkit_of OpenKitCell p nullptr (\<lambda>n.
       c_bind (on_library (IOpenKit_createSession clientIPAddress n)) (new_handle openkit_of OpenKitCell p SessionCell))"

definition createSessionWithAutoIpDetermination :: "ptr \<Rightarrow> ('w, ptr) c_op" where
  "createSessionWithAutoIpDetermination p = createSession p None"

definition session_c :: "ptr \<Rightarrow> (nat \<Rightarrow> ('w Sender, unit) cpp_op) \<Rightarrow> ('w, unit) c_op" where
  "session_c p m = call_c session_of SessionCell p () (\<lambda>x. on_library (session_dispatch () m x))"

definition endSession :: "ptr \<Rightarrow> ('w, unit) c_op" where
  "endSession p =
     call_c session_of SessionCell p () (\<lambda>x.
       c_bind (on_library (session_dispatch () proxy_end x)) (\<lambda>_. release session_of SessionCell p))"

definition identifyUser :: "ptr \<Rightarrow> string option \<Rightarrow> ('w, unit) c_op" where
  "identifyUser p userTag = session_c p (proxy_identifyUser userTag)"

definition reportCrash :: "ptr \<Rightarrow> string option \<Rightarrow> string option \<Rightarrow> string option \<Rightarrow> ('w, unit) c_op" where
  "reportCrash p errorName reason stacktrace = session_c p (proxy_reportCrash errorName reason stacktrace)"

definition reportNetworkTechnology :: "ptr \<Rightarrow> string option \<Rightarrow> ('w, unit) c_op" where
  "reportNetworkTechnology p technology = session_c p (proxy_reportNetworkTechnology technology)"

definition reportCarrier :: "ptr \<Rightarrow> string option \<Rightarrow> ('w, unit) c_op" where
  "reportCarrier p carrier = session_c p (proxy_reportCarrier carrier)"

definition reportConnectionType :: "ptr \<Rightarrow> c_enum \<Rightarrow> ('w, unit) c_op" where
  "reportConnectionType p connectionType = session_c p (proxy_reportConnectionType (toCppConnectionType connectionType))"

text \<open>
  The attributes of an event: an array of keys and values with its size, or a null pointer. Each value is parsed
  as JSON; the first value of a key is kept.
\<close>

type_synonym OpenKitPair = "string option \<times> string option"

primrec convert_pairs :: "'d double_ops \<Rightarrow> OpenKitPair list \<Rightarrow> nat \<Rightarrow> nat \<Rightarrow> 'd JsonObjectMap \<Rightarrow> ('w, 'd JsonObjectMap) c_op" where
  "convert_pairs fp attributes i 0 m = c_return m"
| "convert_pairs fp attributes i (Suc n) m =
     (if i < length attributes
      then
        c_bind (std_string (snd (attributes ! i))) (\<lambda>v.
        c_bind (\<lambda>s. (map_sum Uncaught id (fst (parse fp (JsonParser_new v))), s)) (\<lambda>j.
        c_bind (std_string (fst (attributes ! i))) (\<lambda>k.
        convert_pairs fp attributes (i + 1) n (um_insert (=) k j m))))
      else c_fail (Uncaught (UndefinedBehaviour ''read behind the end of an array'')))"

definition convert_attributes :: "'d double_ops \<Rightarrow> OpenKitPair list option \<Rightarrow> nat \<Rightarrow> ('w, 'd JsonObjectMap) c_op" where
  "convert_attributes fp attributes attributesSize =
     (case attributes of None \<Rightarrow> c_return [] | Some a \<Rightarrow> convert_pairs fp a 0 attributesSize [])"

definition sendBizEvent_c :: "'d double_ops \<Rightarrow> ptr \<Rightarrow> string option \<Rightarrow> OpenKitPair list option \<Rightarrow> nat \<Rightarrow> ('w, unit) c_op" where
  "sendBizEvent_c fp p type attributes attributesSize =
     call_c session_of SessionCell p () (\<lambda>x.
       c_bind (convert_attributes fp attributes attributesSize) (\<lambda>m.
       on_library (session_dispatch () (proxy_sendBizEvent fp type (Some m)) x)))"

definition sendEvent_c :: "'d double_ops \<Rightarrow> ptr \<Rightarrow> string option \<Rightarrow> OpenKitPair list option \<Rightarrow> nat \<Rightarrow> ('w, unit) c_op" where
  "sendEvent_c fp p name attributes attributesSize =
     call_c session_of SessionCell p () (\<lambda>x.
       c_bind (convert_attributes fp attributes attributesSize) (\<lambda>m.
       on_library (session_dispatch () (proxy_sendEvent fp name (Some m)) x)))"

subsection \<open>Actions\<close>

definition enterRootAction :: "ptr \<Rightarrow> string option \<Rightarrow> ('w, ptr) c_op" where
  "enterRootAction p rootActionName =
     call_c session_of SessionCell p nullptr (\<lambda>x.
       c_bind (on_library (ISession_enterAction rootActionName x)) (new_handle session_of SessionCell p RootActionCell))"

definition root_action_c :: "ptr \<Rightarrow> node_input \<Rightarrow> ('w, unit) c_op" where
  "root_action_c p x = call_c root_action_of RootActionCell p () (\<lambda>a. on_library (action_dispatch x a))"

definition leaveRootAction :: "ptr \<Rightarrow> ('w, unit) c_op" where
  "leaveRootAction p =
     call_c root_action_of RootActionCell p () (\<lambda>a. c_bind (on_library (action_dispatch LeaveAction a)) (\<lambda>_. releaseRootAction p))"

definition cancelRootAction :: "ptr \<Rightarrow> ('w, unit) c_op" where
  "cancelRootAction p =
     call_c root_action_of RootActionCell p () (\<lambda>a. c_bind (on_library (action_dispatch CancelAction a)) (\<lambda>_. releaseRootAction p))"

definition reportEventOnRootAction :: "ptr \<Rightarrow> string option \<Rightarrow> ('w, unit) c_op" where
  "reportEventOnRootAction p eventName = root_action_c p (ReportNamed (UTF8String_of_ptr eventName))"

definition reportIntValueOnRootAction :: "ptr \<Rightarrow> string option \<Rightarrow> int32 \<Rightarrow> ('w, unit) c_op" where
  "reportIntValueOnRootAction p valueName v = root_action_c p (ReportInt (UTF8String_of_ptr valueName) v)"

definition reportInt64ValueOnRootAction :: "ptr \<Rightarrow> string option \<Rightarrow> int64 \<Rightarrow> ('w, unit) c_op" where
  "reportInt64ValueOnRootAction p valueName v = root_action_c p (ReportLong (UTF8String_of_ptr valueName) v)"

text \<open>A number of floating point is the text the library makes of it.\<close>

definition reportDoubleValueOnRootAction :: "ptr \<Rightarrow> string option \<Rightarrow> string \<Rightarrow> ('w, unit) c_op" where
  "reportDoubleValueOnRootAction p valueName v = root_action_c p (ReportDouble (UTF8String_of_ptr valueName) v)"

definition reportStringValueOnRootAction :: "ptr \<Rightarrow> string option \<Rightarrow> string option \<Rightarrow> ('w, unit) c_op" where
  "reportStringValueOnRootAction p valueName v = root_action_c p (ReportText (UTF8String_of_ptr valueName) (UTF8String_of_ptr v))"

definition reportErrorCodeOnRootAction :: "ptr \<Rightarrow> string option \<Rightarrow> int32 \<Rightarrow> ('w, unit) c_op" where
  "reportErrorCodeOnRootAction p errorName errorCode = root_action_c p (ReportErrorCode (UTF8String_of_ptr errorName) errorCode)"

definition reportErrorCauseOnRootAction :: "ptr \<Rightarrow> string option \<Rightarrow> string option \<Rightarrow> string option \<Rightarrow> string option \<Rightarrow> ('w, unit) c_op" where
  "reportErrorCauseOnRootAction p errorName causeName causeDescription causeStackTrace = root_action_c p (ReportErrorCause (UTF8String_of_ptr errorName) (UTF8String_of_ptr causeName)
     (UTF8String_of_ptr causeDescription) (UTF8String_of_ptr causeStackTrace))"

definition action_c :: "ptr \<Rightarrow> node_input \<Rightarrow> ('w, unit) c_op" where
  "action_c p x = call_c action_of ActionCell p () (\<lambda>a. on_library (action_dispatch x a))"

definition enterAction :: "ptr \<Rightarrow> string option \<Rightarrow> ('w, ptr) c_op" where
  "enterAction p actionName =
     call_c root_action_of RootActionCell p nullptr (\<lambda>a.
       c_bind (on_library (IAction_enterAction actionName a)) (new_handle root_action_of RootActionCell p ActionCell))"

definition leaveAction_c :: "ptr \<Rightarrow> ('w, unit) c_op" where
  "leaveAction_c p =
     call_c action_of ActionCell p () (\<lambda>a. c_bind (on_library (action_dispatch LeaveAction a)) (\<lambda>_. releaseAction p))"

definition cancelAction_c :: "ptr \<Rightarrow> ('w, unit) c_op" where
  "cancelAction_c p =
     call_c action_of ActionCell p () (\<lambda>a. c_bind (on_library (action_dispatch CancelAction a)) (\<lambda>_. releaseAction p))"

definition reportEventOnAction :: "ptr \<Rightarrow> string option \<Rightarrow> ('w, unit) c_op" where
  "reportEventOnAction p eventName = action_c p (ReportNamed (UTF8String_of_ptr eventName))"

definition reportIntValueOnAction :: "ptr \<Rightarrow> string option \<Rightarrow> int32 \<Rightarrow> ('w, unit) c_op" where
  "reportIntValueOnAction p valueName v = action_c p (ReportInt (UTF8String_of_ptr valueName) v)"

definition reportInt64ValueOnAction :: "ptr \<Rightarrow> string option \<Rightarrow> int64 \<Rightarrow> ('w, unit) c_op" where
  "reportInt64ValueOnAction p valueName v = action_c p (ReportLong (UTF8String_of_ptr valueName) v)"

definition reportDoubleValueOnAction :: "ptr \<Rightarrow> string option \<Rightarrow> string \<Rightarrow> ('w, unit) c_op" where
  "reportDoubleValueOnAction p valueName v = action_c p (ReportDouble (UTF8String_of_ptr valueName) v)"

definition reportStringValueOnAction :: "ptr \<Rightarrow> string option \<Rightarrow> string option \<Rightarrow> ('w, unit) c_op" where
  "reportStringValueOnAction p valueName v = action_c p (ReportText (UTF8String_of_ptr valueName) (UTF8String_of_ptr v))"

definition reportErrorCodeOnAction :: "ptr \<Rightarrow> string option \<Rightarrow> int32 \<Rightarrow> ('w, unit) c_op" where
  "reportErrorCodeOnAction p errorName errorCode = action_c p (ReportErrorCode (UTF8String_of_ptr errorName) errorCode)"

definition reportErrorCauseOnAction :: "ptr \<Rightarrow> string option \<Rightarrow> string option \<Rightarrow> string option \<Rightarrow> string option \<Rightarrow> ('w, unit) c_op" where
  "reportErrorCauseOnAction p errorName causeName causeDescription causeStackTrace = action_c p (ReportErrorCause (UTF8String_of_ptr errorName) (UTF8String_of_ptr causeName)
     (UTF8String_of_ptr causeDescription) (UTF8String_of_ptr causeStackTrace))"

subsection \<open>Web request tracers\<close>

definition traceWebRequestOnSession :: "ptr \<Rightarrow> string option \<Rightarrow> ('w, ptr) c_op" where
  "traceWebRequestOnSession p url =
     call_c session_of SessionCell p nullptr (\<lambda>x.
       c_bind (on_library (ISession_traceWebRequest url x)) (new_handle session_of SessionCell p TracerCell))"

definition traceWebRequestOnRootAction :: "ptr \<Rightarrow> string option \<Rightarrow> ('w, ptr) c_op" where
  "traceWebRequestOnRootAction p url =
     call_c root_action_of RootActionCell p nullptr (\<lambda>a.
       c_bind (on_library (IAction_traceWebRequest url a)) (new_handle root_action_of RootActionCell p TracerCell))"

definition traceWebRequestOnAction :: "ptr \<Rightarrow> string option \<Rightarrow> ('w, ptr) c_op" where
  "traceWebRequestOnAction p url =
     call_c action_of ActionCell p nullptr (\<lambda>a.
       c_bind (on_library (IAction_traceWebRequest url a)) (new_handle action_of ActionCell p TracerCell))"

definition tracer_c :: "ptr \<Rightarrow> node_input \<Rightarrow> ('w, unit) c_op" where
  "tracer_c p x = call_c tracer_of TracerCell p () (\<lambda>t. on_library (tracer_dispatch x t))"

definition startWebRequest :: "ptr \<Rightarrow> ('w, unit) c_op" where
  "startWebRequest p = tracer_c p StartTracer"

definition stopWebRequestWithResponseCode :: "ptr \<Rightarrow> int32 \<Rightarrow> ('w, unit) c_op" where
  "stopWebRequestWithResponseCode p responseCode =
     call_c tracer_of TracerCell p () (\<lambda>t.
       c_bind (on_library (tracer_dispatch (StopTracer responseCode) t)) (\<lambda>_. release tracer_of TracerCell p))"

text \<open>The pointer returned is one into the object of the tracer; here it is the string.\<close>

definition getTag :: "ptr \<Rightarrow> ('w, string option) c_op" where
  "getTag p = call_c tracer_of TracerCell p None (\<lambda>t. c_return (Some (ITracer_getTag t)))"

definition setBytesSentLong :: "ptr \<Rightarrow> int64 \<Rightarrow> ('w, unit) c_op" where
  "setBytesSentLong p bytesSent = tracer_c p (SetBytesSent bytesSent)"

definition setBytesSent :: "ptr \<Rightarrow> int32 \<Rightarrow> ('w, unit) c_op" where
  "setBytesSent p bytesSent = setBytesSentLong p (scast bytesSent)"

definition setBytesReceivedLong :: "ptr \<Rightarrow> int64 \<Rightarrow> ('w, unit) c_op" where
  "setBytesReceivedLong p bytesReceived = tracer_c p (SetBytesReceived bytesReceived)"

definition setBytesReceived :: "ptr \<Rightarrow> int32 \<Rightarrow> ('w, unit) c_op" where
  "setBytesReceived p bytesReceived = setBytesReceivedLong p (scast bytesReceived)"

end
