(* ===== verification/C_Safety.thy ===== *)
theory C_Safety
  imports C_Calls
begin

text \<open>
  No call of the C interface on live handles uses memory that is not allocated, follows a null pointer, or takes
  one thing for another. Weakest preconditions compute the outcome of a call; the invariant says of every cell
  what it holds and which cells it owns, each of which has no other owner.
\<close>

subsection \<open>Weakest preconditions\<close>

text \<open>What holds after a call that returns, and after one that fails.\<close>

definition c_wp :: "('w, 'a) c_op \<Rightarrow> ('a \<Rightarrow> 'w Api \<Rightarrow> bool) \<Rightarrow> (c_error \<Rightarrow> 'w Api \<Rightarrow> bool) \<Rightarrow> 'w Api \<Rightarrow> bool" where
  "c_wp m Q R s = (case m s of (Inl e, s') \<Rightarrow> R e s' | (Inr a, s') \<Rightarrow> Q a s')"

lemma wp_bind [simp]: "c_wp (c_bind m f) Q R s = c_wp m (\<lambda>a. c_wp (f a) Q R) R s"
  by (simp add: c_wp_def c_bind_def split: prod.split sum.split)

lemma wp_bind_return: "c_wp (c_bind m f) Q R = c_wp m (\<lambda>a. c_wp (f a) Q R) R" "c_wp (c_return a) Q R = Q a"
  by (rule ext; simp add: c_wp_def c_bind_def c_return_def split: prod.split sum.split)+

lemma wp_basic [simp]:
  "c_wp (c_return a) Q R s = Q a s" "c_wp (c_fail e) Q R s = R e s" "c_wp (c_modify f) Q' R s = Q' () (f s)"
  "c_wp (malloc c) P R s = P (aNext s) (s\<lparr>aMemory := (aMemory s)(aNext s \<mapsto> c), aNext := aNext s + 1\<rparr>)"
  by (simp_all add: c_wp_def c_return_def c_fail_def c_modify_def malloc_def)

lemma wp_if [simp]: "c_wp (if b then m else m') Q R s = (if b then c_wp m Q R s else c_wp m' Q R s)"
  by simp

lemma wp_free: "p \<noteq> nullptr \<Longrightarrow> aMemory s p = Some c \<Longrightarrow> c_wp (free p) Q R s = Q () (s\<lparr>aMemory := (aMemory s)(p := None)\<rparr>)"
  by (simp add: c_wp_def free_valid)

lemma wp_library [simp]:
  "c_wp (on_library m) Q R s = (case m (aLibrary s) of
     (Inl e, ks) \<Rightarrow> R (Uncaught e) (s\<lparr>aLibrary := ks\<rparr>) | (Inr a, ks) \<Rightarrow> Q a (s\<lparr>aLibrary := ks\<rparr>))"
  by (simp add: c_wp_def on_library_def Let_def split: prod.split sum.split)

lemma wp_ignore: "c_wp (CATCH_AND_IGNORE_ALL a m) Q R s = c_wp m Q (\<lambda>e s. if caught e then Q a s else R e s) s"
  by (simp add: c_wp_def CATCH_AND_IGNORE_ALL_def split: prod.split sum.split)

lemma wp_log:
  "c_wp (CATCH_AND_LOG g a m) Q R s = c_wp m Q (\<lambda>e s. if caught e
     then c_wp g (\<lambda>r s. case r of
            None \<Rightarrow> Q a s
          | Some g \<Rightarrow> c_wp (log_message LOG_LEVEL_ERROR (case e of Uncaught x \<Rightarrow> exception_text x | _ \<Rightarrow> '''') g) (\<lambda>_. Q a) R s) R s
     else R e s) s"
  by (cases "m s")
    (auto simp: c_wp_def CATCH_AND_LOG_def c_bind_def c_return_def split: sum.split option.split prod.split)

lemma wp_message [simp]:
  "c_wp (log_message l t (Some g)) Q R s = Q () (if logger_writes l g then s\<lparr>aLog := aLog s @ [(g, l, t)]\<rparr> else s)"
  by (simp add: c_wp_def log_message_def c_modify_def)

lemma wp_mono: "c_wp m Q R s \<Longrightarrow> (\<And>a s'. Q a s' \<Longrightarrow> Q' a s') \<Longrightarrow> (\<And>e s'. R e s' \<Longrightarrow> R' e s') \<Longrightarrow> c_wp m Q' R' s"
  by (auto simp: c_wp_def split: prod.splits sum.splits)

context handle_type
begin

lemma wp_load: "p \<noteq> nullptr \<Longrightarrow> aMemory s p = Some (mk h) \<Longrightarrow> c_wp (load sel mk p) Q R s = Q h s"
  by (simp add: c_wp_def load_valid)

lemma wp_store:
  "p \<noteq> nullptr \<Longrightarrow> aMemory s p = Some (mk h) \<Longrightarrow>
    c_wp (store sel mk p h') Q R s = Q () (s\<lparr>aMemory := (aMemory s)(p \<mapsto> mk h')\<rparr>)"
  by (simp add: c_wp_def store_valid)

end

lemmas wp_cells = text_cell.wp_load trust_manager.wp_load trust_manager.wp_store logger.wp_load logger.wp_store
  configuration.wp_load configuration.wp_store openkit.wp_load openkit.wp_store

lemma wp_duplicate:
  "c_wp (duplicateString t) Q R s =
    (if t = None \<or> t = Some [] then Q nullptr s
     else Q (aNext s) (s\<lparr>aMemory := (aMemory s)(aNext s \<mapsto> TextCell (the t)), aNext := aNext s + 1\<rparr>))"
  by (auto simp: duplicateString_def split: option.split)

subsection \<open>What the cells hold\<close>

datatype kind = KText | KSList | KTrustManager | KLogger | KConfiguration | KOpenKit | KSession | KRootAction | KAction | KTracer

fun kind_of :: "cell \<Rightarrow> kind" where
  "kind_of (TextCell t) = KText"
| "kind_of (SListCell n) = KSList"
| "kind_of (TrustManagerCell t) = KTrustManager"
| "kind_of (LoggerCell g) = KLogger"
| "kind_of (ConfigurationCell c) = KConfiguration"
| "kind_of (OpenKitCell h) = KOpenKit"
| "kind_of (SessionCell h) = KSession"
| "kind_of (RootActionCell h) = KRootAction"
| "kind_of (ActionCell h) = KAction"
| "kind_of (TracerCell h) = KTracer"

definition session_in :: "nat \<Rightarrow> ISession \<Rightarrow> bool" where
  "session_in N o' = (case o' of SessionObject n p \<Rightarrow> n < N | NullSession \<Rightarrow> True)"

definition action_in :: "nat \<Rightarrow> IAction \<Rightarrow> bool" where
  "action_in N o' = (case o' of ActionObject n i h \<Rightarrow> n < N | NullAction \<Rightarrow> True)"

definition tracer_in :: "nat \<Rightarrow> IWebRequestTracer \<Rightarrow> bool" where
  "tracer_in N o' = (case o' of TracerObject n i h t \<Rightarrow> n < N | NullWebRequestTracer \<Rightarrow> True)"

text \<open>A handle with an object of which \<open>ok\<close> holds, and with a logger.\<close>

definition handle_ok :: "('o \<Rightarrow> bool) \<Rightarrow> ('o, 'z) Handle_scheme \<Rightarrow> bool" where
  "handle_ok ok h \<longleftrightarrow> (\<exists>x g. hSharedPointer h = Some x \<and> ok x \<and> hLogger h = Some g)"

fun cell_ok :: "nat \<Rightarrow> cell \<Rightarrow> bool" where
  "cell_ok N (TrustManagerCell t) \<longleftrightarrow> t \<noteq> None"
| "cell_ok N (LoggerCell g) \<longleftrightarrow> g \<noteq> None"
| "cell_ok N (OpenKitCell h) \<longleftrightarrow> handle_ok (\<lambda>n. n < N) h"
| "cell_ok N (SessionCell h) \<longleftrightarrow> handle_ok (session_in N) h"
| "cell_ok N (RootActionCell h) \<longleftrightarrow> handle_ok (action_in N) h"
| "cell_ok N (ActionCell h) \<longleftrightarrow> handle_ok (action_in N) h"
| "cell_ok N (TracerCell h) \<longleftrightarrow> handle_ok (tracer_in N) h"
| "cell_ok N c \<longleftrightarrow> True"

text \<open>The cells a cell owns.\<close>

definition configuration_pointers :: "OpenKitConfigurationHandle \<Rightarrow> ptr list" where
  "configuration_pointers c = [chEndpointURL c, chApplicationID c, chApplicationVersion c, chOperatingSystem c,
     chManufacturer c, chModelID c, chOrigDeviceID c]"

definition configuration_texts :: "OpenKitConfigurationHandle \<Rightarrow> ptr list" where
  "configuration_texts c = filter (\<lambda>p. p \<noteq> nullptr) (configuration_pointers c)"

fun owned :: "cell \<Rightarrow> (ptr \<times> kind) list" where
  "owned (ConfigurationCell c) = map (\<lambda>p. (p, KText)) (configuration_texts c)"
| "owned (OpenKitCell h) =
     (if ohOwnsTrustManagerHandle h \<and> ohTrustManagerHandle h \<noteq> nullptr then [(ohTrustManagerHandle h, KTrustManager)] else []) @
     (if ohOwnsLoggerHandle h \<and> ohLoggerHandle h \<noteq> nullptr then [(ohLoggerHandle h, KLogger)] else [])"
| "owned c = []"

definition owns :: "cell \<Rightarrow> ptr set" where
  "owns c = fst ` set (owned c)"

definition cells_ok :: "nat \<Rightarrow> (ptr \<Rightarrow> cell option) \<Rightarrow> bool" where
  "cells_ok N m \<longleftrightarrow> (\<forall>p c. m p = Some c \<longrightarrow> cell_ok N c \<and> distinct (map fst (owned c)) \<and>
     (\<forall>q k. (q, k) \<in> set (owned c) \<longrightarrow> (\<exists>d. m q = Some d \<and> kind_of d = k)) \<and>
     (\<forall>p' c'. m p' = Some c' \<longrightarrow> p \<noteq> p' \<longrightarrow> owns c \<inter> owns c' = {}))"

definition api_ok :: "'w Api \<Rightarrow> bool" where
  "api_ok s \<longleftrightarrow> memory_ok s \<and> cells_ok (length (aLibrary s)) (aMemory s)"

lemma allocated: "memory_ok s \<Longrightarrow> aMemory s p = Some c \<Longrightarrow> p \<noteq> nullptr \<and> p < aNext s"
  by (cases "p = nullptr"; cases "aNext s \<le> p") (auto simp: memory_ok_def)

lemma api_cell: "api_ok s \<Longrightarrow> aMemory s p = Some c \<Longrightarrow> cell_ok (length (aLibrary s)) c \<and> p \<noteq> nullptr \<and> p < aNext s"
  using allocated [of s p c] by (simp add: api_ok_def cells_ok_def)

subsection \<open>Changes of the memory\<close>

definition unowned :: "ptr \<Rightarrow> (ptr \<Rightarrow> cell option) \<Rightarrow> bool" where
  "unowned p m \<longleftrightarrow> (\<forall>q c. m q = Some c \<longrightarrow> p \<notin> owns c)"

lemma owned_kind: "(q, k) \<in> set (owned c) \<Longrightarrow> k \<in> {KText, KTrustManager, KLogger}"
  by (cases c) (auto split: if_splits)

lemma owned_cell: "cells_ok N m \<Longrightarrow> m p = Some c \<Longrightarrow> (q, k) \<in> set (owned c) \<Longrightarrow> \<exists>d. m q = Some d \<and> kind_of d = k"
  unfolding cells_ok_def by blast

lemma owned_apart: "cells_ok N m \<Longrightarrow> m p = Some c \<Longrightarrow> m p' = Some c' \<Longrightarrow> p \<noteq> p' \<Longrightarrow> owns c \<inter> owns c' = {}"
  unfolding cells_ok_def by blast

lemma owned_allocated: "cells_ok N m \<Longrightarrow> m p = Some c \<Longrightarrow> q \<in> owns c \<Longrightarrow> \<exists>d. m q = Some d \<and> kind_of d \<in> {KText, KTrustManager, KLogger}"
  using owned_kind owned_cell [of N m p c] unfolding owns_def by fastforce

lemma unowned_kind: "cells_ok N m \<Longrightarrow> m p = Some c \<Longrightarrow> kind_of c \<notin> {KText, KTrustManager, KLogger} \<Longrightarrow> unowned p m"
  using owned_allocated [of N m _ _ p] unfolding unowned_def by fastforce

lemma unowned_free: "cells_ok N m \<Longrightarrow> m p = None \<Longrightarrow> unowned p m"
  using owned_allocated [of N m _ _ p] unfolding unowned_def by fastforce

lemma cells_put:
  assumes "cells_ok N m" and "cell_ok N c" and "distinct (map fst (owned c))"
    and "\<And>d. m p = Some d \<Longrightarrow> kind_of d = kind_of c"
    and "\<And>q k. (q, k) \<in> set (owned c) \<Longrightarrow> \<exists>d. m q = Some d \<and> kind_of d = k"
    and "\<And>p' c'. m p' = Some c' \<Longrightarrow> p' \<noteq> p \<Longrightarrow> owns c \<inter> owns c' = {}"
  shows "cells_ok N (m(p \<mapsto> c))"
proof -
  have k: "\<exists>d. (m(p \<mapsto> c)) q = Some d \<and> kind_of d = k" if "\<exists>d. m q = Some d \<and> kind_of d = k" for q k
    using that assms(4) by auto
  show ?thesis
    unfolding cells_ok_def
  proof (intro allI impI conjI)
    fix q d assume q: "(m(p \<mapsto> c)) q = Some d"
    show "cell_ok N d" "distinct (map fst (owned d))"
      using q assms(1-3) by (auto simp: cells_ok_def split: if_splits)
    show "\<exists>d. (m(p \<mapsto> c)) r = Some d \<and> kind_of d = k'" if "(r, k') \<in> set (owned d)" for r k'
      by (rule k) (use q that assms(5) owned_cell [OF assms(1), of q d r k'] in \<open>auto split: if_splits\<close>)
    show "owns d \<inter> owns d' = {}" if "(m(p \<mapsto> c)) q' = Some d'" "q \<noteq> q'" for q' d'
      using q that assms(6) owned_apart [OF assms(1), of q d q' d'] by (cases "q = p"; cases "q' = p") auto
  qed
qed

lemma cells_remove:
  assumes "cells_ok N m" "\<And>p c. m p = Some c \<Longrightarrow> p \<notin> D \<Longrightarrow> owns c \<inter> D = {}"
  shows "cells_ok N (m |` (- D))"
proof -
  have k: "\<exists>d. (m |` (- D)) q = Some d \<and> kind_of d = k" if "m p = Some c" "p \<notin> D" "(q, k) \<in> set (owned c)" for p c q k
  proof -
    have "q \<notin> D" using assms(2) [OF that(1,2)] that(3) by (force simp: owns_def)
    then show ?thesis using owned_cell [OF assms(1) that(1,3)] by simp
  qed
  show ?thesis
    unfolding cells_ok_def
  proof (intro allI impI conjI)
    fix p c assume "(m |` (- D)) p = Some c"
    then have p: "m p = Some c" "p \<notin> D" by (auto simp: restrict_map_def split: if_splits)
    show "cell_ok N c" "distinct (map fst (owned c))" using p(1) assms(1) by (simp_all add: cells_ok_def)
    show "\<exists>d. (m |` (- D)) q = Some d \<and> kind_of d = k" if "(q, k) \<in> set (owned c)" for q k
      by (rule k [OF p that])
    show "owns c \<inter> owns c' = {}" if "(m |` (- D)) p' = Some c'" "p \<noteq> p'" for p' c'
    proof -
      have "m p' = Some c'" using that(1) by (auto simp: restrict_map_def split: if_splits)
      then show ?thesis using owned_apart [OF assms(1) p(1) _ that(2)] by blast
    qed
  qed
qed

lemma handle_mono: "handle_ok ok h \<Longrightarrow> (\<And>x. ok x \<Longrightarrow> ok' x) \<Longrightarrow> handle_ok ok' h"
  unfolding handle_ok_def by blast

lemma object_grow:
  "N \<le> N' \<Longrightarrow> session_in N x \<Longrightarrow> session_in N' x" "N \<le> N' \<Longrightarrow> action_in N y \<Longrightarrow> action_in N' y" "N \<le> N' \<Longrightarrow> tracer_in N z \<Longrightarrow> tracer_in N' z"
  by (cases x; cases y; cases z; simp add: session_in_def action_in_def tracer_in_def)+

lemma cells_grow: "cells_ok N m \<Longrightarrow> N \<le> N' \<Longrightarrow> cells_ok N' m"
proof -
  have "cell_ok N c \<Longrightarrow> N \<le> N' \<Longrightarrow> cell_ok N' c" for c
    by (cases c) (auto elim!: handle_mono intro: object_grow)
  then show "cells_ok N m \<Longrightarrow> N \<le> N' \<Longrightarrow> cells_ok N' m" by (simp add: cells_ok_def)
qed

lemma api_library: "api_ok s \<Longrightarrow> length (aLibrary s) \<le> length ks \<Longrightarrow> api_ok (s\<lparr>aLibrary := ks\<rparr>)"
  using cells_grow by (auto simp: api_ok_def memory_ok_def)

lemma api_log [simp]: "api_ok (s\<lparr>aLog := l\<rparr>) = api_ok s"
  by (simp add: api_ok_def memory_ok_def)

lemma api_put:
  assumes "api_ok s" "aMemory s p = Some d" "kind_of d = kind_of c" "cell_ok (length (aLibrary s)) c" "distinct (map fst (owned c))"
    and "\<And>q k. (q, k) \<in> set (owned c) \<Longrightarrow> (q, k) \<in> set (owned d) \<or> unowned q (aMemory s) \<and> (\<exists>d. aMemory s q = Some d \<and> kind_of d = k)"
  shows "api_ok (s\<lparr>aMemory := (aMemory s)(p \<mapsto> c)\<rparr>)"
proof -
  have ok: "cells_ok (length (aLibrary s)) (aMemory s)" using assms(1) by (simp add: api_ok_def)
  have "cells_ok (length (aLibrary s)) ((aMemory s)(p \<mapsto> c))"
  proof (rule cells_put [OF ok assms(4,5)])
    show "\<exists>d. aMemory s q = Some d \<and> kind_of d = k" if "(q, k) \<in> set (owned c)" for q k
      using assms(6) [OF that] owned_cell [OF ok assms(2), of q k] by blast
    show "owns c \<inter> owns c' = {}" if c': "aMemory s p' = Some c'" "p' \<noteq> p" for p' c'
    proof -
      have "owns d \<inter> owns c' = {}" using owned_apart [OF ok assms(2) c'(1)] c'(2) by blast
      moreover have "q \<in> owns d \<or> q \<notin> owns c'" if "q \<in> owns c" for q
        using that assms(6) c' by (force simp: owns_def unowned_def)
      ultimately show ?thesis by blast
    qed
  qed (use assms(2,3) in simp)
  then show ?thesis
    using assms(1,2) allocated [of s p d] by (auto simp: api_ok_def memory_ok_def)
qed

lemma api_malloc:
  assumes "api_ok s" "cell_ok (length (aLibrary s)) c" "distinct (map fst (owned c))"
    and "\<And>q k. (q, k) \<in> set (owned c) \<Longrightarrow> unowned q (aMemory s) \<and> (\<exists>d. aMemory s q = Some d \<and> kind_of d = k)"
  shows "api_ok (s\<lparr>aMemory := (aMemory s)(aNext s \<mapsto> c), aNext := aNext s + 1\<rparr>)"
proof -
  have f: "aMemory s (aNext s) = None" and ok: "cells_ok (length (aLibrary s)) (aMemory s)"
    using assms(1) by (auto simp: api_ok_def memory_ok_def)
  have "cells_ok (length (aLibrary s)) ((aMemory s)(aNext s \<mapsto> c))"
  proof (rule cells_put [OF ok assms(2,3)])
    show "owns c \<inter> owns c' = {}" if "aMemory s p' = Some c'" for p' c'
      using assms(4) that by (force simp: owns_def unowned_def)
  qed (use f assms(4) in auto)
  then show ?thesis using assms(1) by (auto simp: api_ok_def memory_ok_def)
qed

lemma api_remove:
  assumes "api_ok s" "\<And>p c. aMemory s p = Some c \<Longrightarrow> p \<notin> D \<Longrightarrow> owns c \<inter> D = {}"
  shows "api_ok (s\<lparr>aMemory := (aMemory s) |` (- D)\<rparr>)"
  using assms cells_remove [of _ "aMemory s" D] by (auto simp: api_ok_def memory_ok_def restrict_map_def)

subsection \<open>Calls of the library\<close>

text \<open>A call of the library that keeps the library objects, and returns an object of one of them.\<close>

definition library_call :: "(nat \<Rightarrow> 'a \<Rightarrow> bool) \<Rightarrow> ('w library, 'a) cpp_op \<Rightarrow> bool" where
  "library_call ok m \<longleftrightarrow> (\<forall>ks. length (snd (m ks)) = length ks \<and> (\<forall>a. fst (m ks) = Inr a \<longrightarrow> ok (length ks) a))"

lemma library_return: "(\<And>N. ok N a) \<Longrightarrow> library_call ok (op_return a)"
  by (simp add: library_call_def op_return_def)

lemma library_instance: "library_call (\<lambda>_ _. True) (on_instance n m)"
  by (simp add: library_call_def on_instance_def split_beta Let_def)

lemma library_bind:
  assumes "library_call ok' m" "\<And>a ks. ok' (length ks) a \<Longrightarrow> length (snd (f a ks)) = length ks \<and> (\<forall>b. fst (f a ks) = Inr b \<longrightarrow> ok (length ks) b)"
  shows "library_call ok (op_bind m f)"
  unfolding library_call_def
proof
  fix ks
  have m: "length (snd (m ks)) = length ks" "\<And>a. fst (m ks) = Inr a \<Longrightarrow> ok' (length ks) a"
    using assms(1) by (simp_all add: library_call_def)
  obtain r ks' where e: "m ks = (r, ks')" by (cases "m ks")
  show "length (snd (op_bind m f ks)) = length ks \<and> (\<forall>b. fst (op_bind m f ks) = Inr b \<longrightarrow> ok (length ks) b)"
    using m assms(2) [of ks'] by (cases r) (simp_all add: op_bind_def e)
qed

lemma library_dispatch:
  "library_call (\<lambda>_ _. True) (session_dispatch a m x)" "library_call (\<lambda>_ _. True) (action_dispatch y b)"
  "library_call (\<lambda>_ _. True) (tracer_dispatch y t)"
  by (simp_all add: session_dispatch_def action_dispatch_def tracer_dispatch_def library_return library_instance
      split: ISession.split IAction.split IWebRequestTracer.split)

lemma library_create: "n < N \<Longrightarrow> library_call (\<lambda>N' x. N' = N \<longrightarrow> session_in N' x) (IOpenKit_createSession ip n)"
  unfolding IOpenKit_createSession_def
  by (rule library_bind [OF library_instance]) (simp add: op_return_def session_in_def split: option.split)

lemma library_enter:
  "session_in N x \<Longrightarrow> library_call (\<lambda>N' a. N' = N \<longrightarrow> action_in N' a) (ISession_enterAction name x)"
  unfolding ISession_enterAction_def
  by (rule library_bind [OF library_dispatch(1)])
    (auto simp: op_return_def session_in_def action_in_def split: ISession.splits option.split)

lemma library_enter_action:
  "action_in N x \<Longrightarrow> library_call (\<lambda>N' a. N' = N \<longrightarrow> action_in N' a) (IAction_enterAction name x)"
proof (cases x)
  case (ActionObject n i h)
  show "action_in N x \<Longrightarrow> ?thesis"
    unfolding IAction_enterAction_def ActionObject IAction.case
    by (rule library_bind [OF library_instance]) (simp add: op_return_def action_in_def split: option.split)
qed (simp add: IAction_enterAction_def library_return action_in_def)

lemma library_trace:
  "session_in N x \<Longrightarrow> library_call (\<lambda>N' t. N' = N \<longrightarrow> tracer_in N' t) (ISession_traceWebRequest url x)"
  unfolding ISession_traceWebRequest_def
  by (rule library_bind [OF library_dispatch(1)])
    (auto simp: tracer_object_def session_in_def tracer_in_def split: ISession.splits option.splits)

lemma library_trace_action:
  "action_in N x \<Longrightarrow> library_call (\<lambda>N' t. N' = N \<longrightarrow> tracer_in N' t) (IAction_traceWebRequest url x)"
proof (cases x)
  case (ActionObject n i h)
  show "action_in N x \<Longrightarrow> ?thesis"
    unfolding IAction_traceWebRequest_def ActionObject IAction.case
    by (rule library_bind [OF library_instance])
      (use ActionObject in \<open>auto simp: tracer_object_def action_in_def tracer_in_def split: option.splits\<close>)
qed (simp add: IAction_traceWebRequest_def library_return tracer_in_def)

subsection \<open>Calls on handles\<close>

definition undefined_behaviour :: "c_error \<Rightarrow> 'w Api \<Rightarrow> bool" where
  "undefined_behaviour e s \<longleftrightarrow> (\<exists>t. e = Uncaught (UndefinedBehaviour t))"

text \<open>A null pointer or the address of a cell of a kind.\<close>

definition live_at :: "kind \<Rightarrow> ptr \<Rightarrow> 'w Api \<Rightarrow> bool" where
  "live_at k p s \<longleftrightarrow> p = nullptr \<or> (\<exists>c. aMemory s p = Some c \<and> kind_of c = k)"

text \<open>What is known after a call: the invariant, and what is at the address returned.\<close>

definition done_with :: "kind \<Rightarrow> ptr \<Rightarrow> 'w Api \<Rightarrow> bool" where
  "done_with k p s \<longleftrightarrow> api_ok s \<and> live_at k p s"

definition log_only :: "'w Api \<Rightarrow> 'w Api \<Rightarrow> bool" where
  "log_only s s' \<longleftrightarrow> aMemory s' = aMemory s \<and> aNext s' = aNext s \<and> length (aLibrary s') = length (aLibrary s)"

lemma log_only_ok: "log_only s s' \<Longrightarrow> api_ok s \<Longrightarrow> api_ok s'"
  by (simp add: log_only_def api_ok_def memory_ok_def)

lemma kept_ok:
  "api_ok s \<Longrightarrow> aMemory s' = aMemory s \<Longrightarrow> aNext s' = aNext s \<Longrightarrow> length (aLibrary s') = length (aLibrary s) \<Longrightarrow> api_ok s'"
  by (simp add: api_ok_def memory_ok_def)

text \<open>A type of handles with objects: its kind, and what holds of the objects.\<close>

locale object_handle = handle_type sel mk
  for sel :: "cell \<Rightarrow> ('o, 'z) Handle_scheme" and mk :: "('o, 'z) Handle_scheme \<Rightarrow> cell" +
  fixes k :: kind and ok :: "nat \<Rightarrow> 'o \<Rightarrow> bool"
  assumes kind: "kind_of (mk h) = k" and of_kind: "kind_of c = k \<Longrightarrow> \<exists>h. c = mk h"
    and cell: "cell_ok N (mk h) \<longleftrightarrow> handle_ok (ok N) h" and not_owned: "k \<notin> {KText, KTrustManager, KLogger}"
begin

lemma live_handle:
  assumes "api_ok s" "live_at k p s" "p \<noteq> nullptr"
  obtains h x g where "aMemory s p = Some (mk h)" "hSharedPointer h = Some x" "ok (length (aLibrary s)) x" "hLogger h = Some g"
proof -
  obtain c where c: "aMemory s p = Some c" "kind_of c = k" using assms(2,3) by (auto simp: live_at_def)
  obtain h where h: "c = mk h" using of_kind [OF c(2)] by blast
  show ?thesis using api_cell [OF assms(1) c(1)] that c(1) unfolding h cell handle_ok_def by blast
qed

lemma call:
  assumes s: "api_ok s" "live_at k p s" and a: "Q a s"
    and m: "\<And>h x g. aMemory s p = Some (mk h) \<Longrightarrow> hLogger h = Some g \<Longrightarrow> ok (length (aLibrary s)) x \<Longrightarrow> p \<noteq> nullptr \<Longrightarrow>
      c_wp (m x) Q (\<lambda>e s'. if caught e then log_only s s' \<and> (\<forall>s''. log_only s' s'' \<longrightarrow> Q a s'') else undefined_behaviour e s') s"
  shows "c_wp (call_c sel mk p a m) Q undefined_behaviour s"
proof (cases "p = nullptr")
  case False
  obtain h x g where h: "aMemory s p = Some (mk h)" "hSharedPointer h = Some x" "ok (length (aLibrary s)) x" "hLogger h = Some g"
    by (rule live_handle [OF s False])
  have "c_wp (CATCH_AND_LOG (handle_logger sel mk p) a (m x)) Q undefined_behaviour s"
    unfolding wp_log
  proof (rule wp_mono [OF m [OF h(1,4,3) False]])
    fix e s' assume e: "if caught e then log_only s s' \<and> (\<forall>s''. log_only s' s'' \<longrightarrow> Q a s'') else undefined_behaviour e s'"
    show "if caught e
         then c_wp (handle_logger sel mk p) (\<lambda>r s. case r of None \<Rightarrow> Q a s
            | Some g \<Rightarrow> c_wp (log_message LOG_LEVEL_ERROR (case e of Uncaught x \<Rightarrow> exception_text x | _ \<Rightarrow> '''') g)
                (\<lambda>_. Q a) undefined_behaviour s) undefined_behaviour s'
         else undefined_behaviour e s'"
    proof (cases "caught e")
      case True
      then have "aMemory s' p = Some (mk h)" "\<And>s''. log_only s' s'' \<Longrightarrow> Q a s''" using e h(1) by (simp_all add: log_only_def)
      then show ?thesis using True False h(4) wp_load [of p s' h] by (simp add: handle_logger_def log_only_def)
    qed (use e in simp)
  qed
  moreover have "shared_pointer sel mk p s = (Inr x, s)" using h(2) load_valid [OF False h(1)] by (simp add: shared_pointer_def c_bind_def)
  ultimately show ?thesis using False by (simp add: call_c_def c_wp_def CATCH_AND_LOG_def c_bind_def)
qed (simp add: call_c_def a)

lemma calling:
  assumes "api_ok s" "live_at k p s" "\<And>x. library_call (\<lambda>_ _. True) (f x)"
  shows "c_wp (call_c sel mk p a (\<lambda>x. on_library (f x))) (\<lambda>_. api_ok) undefined_behaviour s"
proof (rule call [where Q = "\<lambda>_. api_ok", OF assms(1,2,1)])
  fix x
  have "length (snd (f x (aLibrary s))) = length (aLibrary s)" using assms(3) by (simp add: library_call_def)
  then show "c_wp (on_library (f x)) (\<lambda>_. api_ok)
      (\<lambda>e s'. if caught e then log_only s s' \<and> (\<forall>s''. log_only s' s'' \<longrightarrow> api_ok s'') else undefined_behaviour e s') s"
    using assms(1)
    by (auto simp: undefined_behaviour_def caught_def log_only_def intro: api_library log_only_ok
        split: prod.split sum.split cpp_exception.splits)
qed

lemma creating:
  assumes s: "api_ok s" "live_at k p s" and o: "\<And>h. owned (mk' h) = []" and t: "object_handle sel' mk' k' ok'"
    and f: "\<And>x. ok (length (aLibrary s)) x \<Longrightarrow> library_call (\<lambda>N y. N = length (aLibrary s) \<longrightarrow> ok' N y) (f x)"
  shows "c_wp (call_c sel mk p nullptr (\<lambda>x. c_bind (on_library (f x)) (new_handle sel mk p mk'))) (done_with k') undefined_behaviour s"
proof (rule call [OF s])
  show "done_with k' nullptr s" using s(1) by (simp add: done_with_def live_at_def)
next
  fix h x g assume h: "aMemory s p = Some (mk h)" "hLogger h = Some g" and x: "ok (length (aLibrary s)) x" and p: "p \<noteq> nullptr"
  obtain r ks where r: "f x (aLibrary s) = (r, ks)" by (cases "f x (aLibrary s)")
  have l: "length ks = length (aLibrary s)" and y: "\<And>y. r = Inr y \<Longrightarrow> ok' (length (aLibrary s)) y"
    using f [OF x, unfolded library_call_def, rule_format, of "aLibrary s"] r by simp_all
  let ?s = "s\<lparr>aLibrary := ks\<rparr>"
  show "c_wp (c_bind (on_library (f x)) (new_handle sel mk p mk')) (done_with k')
      (\<lambda>e s'. if caught e then log_only s s' \<and> (\<forall>s''. log_only s' s'' \<longrightarrow> done_with k' nullptr s'') else undefined_behaviour e s') s"
  proof (cases r)
    case (Inl e)
    show ?thesis
      using s(1) l Inl r by (auto simp: caught_def undefined_behaviour_def log_only_def done_with_def live_at_def
        intro: api_library log_only_ok split: cpp_exception.splits)
  next
    case (Inr y')
    let ?h = "\<lparr>hSharedPointer = Some y', hLogger = hLogger h\<rparr>"
    have "api_ok ?s" using s(1) l by (simp add: api_library)
    then have "api_ok (?s\<lparr>aMemory := (aMemory ?s)(aNext ?s \<mapsto> mk' ?h), aNext := aNext ?s + 1\<rparr>)"
      using y [OF Inr] h(2) l object_handle.cell [OF t] by (intro api_malloc) (simp_all add: o handle_ok_def)
    then show ?thesis
      using r Inr wp_load [OF p, of ?s h] h(1) object_handle.kind [OF t]
      by (simp add: new_handle_def done_with_def live_at_def)
  qed
qed

end

text \<open>A type of handles that end with the object.\<close>

locale closable_handle = object_handle sel mk k ok
  for sel :: "cell \<Rightarrow> 'o Handle" and mk :: "'o Handle \<Rightarrow> cell" and k ok +
  assumes owns_nothing: "owned (mk h) = []"
begin

lemma released:
  assumes "api_ok s" "aMemory s p = Some (mk h)" "p \<noteq> nullptr"
  shows "c_wp (release sel mk p) (\<lambda>_. api_ok) R s"
proof -
  have u: "unowned p (aMemory s)" using assms(1,2) kind not_owned unowned_kind by (metis api_ok_def)
  have "api_ok (s\<lparr>aMemory := (aMemory s) |` (- {p})\<rparr>)"
    using assms(1) by (rule api_remove) (use u in \<open>auto simp: unowned_def\<close>)
  moreover have "(aMemory s)(p := None) = (aMemory s) |` (- {p})" by (auto simp: restrict_map_def)
  ultimately show ?thesis
    using wp_store [OF assms(3,2)] assms(3) by (simp add: release_def wp_free)
qed

lemma ending:
  assumes s: "api_ok s" "live_at k p s" and f: "\<And>x. library_call (\<lambda>_ _. True) (f x)"
  shows "c_wp (call_c sel mk p () (\<lambda>x. c_bind (on_library (f x)) (\<lambda>_. release sel mk p))) (\<lambda>_. api_ok) undefined_behaviour s"
proof (rule call [where Q = "\<lambda>_. api_ok", OF s s(1)])
  fix h x g assume h: "aMemory s p = Some (mk h)" and p: "p \<noteq> nullptr"
  obtain r ks where r: "f x (aLibrary s) = (r, ks)" by (cases "f x (aLibrary s)")
  have l: "length ks = length (aLibrary s)" using f [of x, unfolded library_call_def, rule_format, of "aLibrary s"] r by simp
  have ok: "api_ok (s\<lparr>aLibrary := ks\<rparr>)" using s(1) l by (simp add: api_library)
  show "c_wp (c_bind (on_library (f x)) (\<lambda>_. release sel mk p)) (\<lambda>_. api_ok)
      (\<lambda>e s'. if caught e then log_only s s' \<and> (\<forall>s''. log_only s' s'' \<longrightarrow> api_ok s'') else undefined_behaviour e s') s"
    using r l h p released [OF ok, of p h]
    by (cases r) (auto simp: caught_def undefined_behaviour_def log_only_def intro: kept_ok [OF s(1)] split: cpp_exception.splits)
qed

end

lemma kind_cases:
  "kind_of c = KOpenKit \<Longrightarrow> \<exists>h. c = OpenKitCell h" "kind_of c = KSession \<Longrightarrow> \<exists>h. c = SessionCell h"
  "kind_of c = KRootAction \<Longrightarrow> \<exists>h. c = RootActionCell h" "kind_of c = KAction \<Longrightarrow> \<exists>h. c = ActionCell h"
  "kind_of c = KTracer \<Longrightarrow> \<exists>h. c = TracerCell h" "kind_of c = KText \<Longrightarrow> \<exists>t. c = TextCell t"
  "kind_of c = KLogger \<Longrightarrow> \<exists>g. c = LoggerCell g" "kind_of c = KTrustManager \<Longrightarrow> \<exists>t. c = TrustManagerCell t"
  "kind_of c = KConfiguration \<Longrightarrow> \<exists>f. c = ConfigurationCell f"
  by (cases c; simp)+

interpretation openkit_handle: object_handle openkit_of OpenKitCell KOpenKit "\<lambda>N n. n < N"
  by unfold_locales (simp_all add: kind_cases)
interpretation session_handle: closable_handle session_of SessionCell KSession session_in
  by unfold_locales (simp_all add: kind_cases)
interpretation root_action_handle: closable_handle root_action_of RootActionCell KRootAction action_in
  by unfold_locales (simp_all add: kind_cases)
interpretation action_handle: closable_handle action_of ActionCell KAction action_in
  by unfold_locales (simp_all add: kind_cases)
interpretation tracer_handle: closable_handle tracer_of TracerCell KTracer tracer_in
  by unfold_locales (simp_all add: kind_cases)

subsection \<open>Events\<close>

lemma pairs_safe:
  "c_wp (convert_pairs fp a i n m) (\<lambda>_ s'. s' = s) (\<lambda>e s'. s' = s \<and> (\<exists>x. e = Uncaught x)) s"
proof (induction n arbitrary: i m)
  case (Suc n)
  have p: "c_wp (\<lambda>s. (map_sum Uncaught id r, s)) Q R s = (case r of Inl x \<Rightarrow> R (Uncaught x) s | Inr j \<Rightarrow> Q j s)" for r Q R
    by (simp add: c_wp_def split: sum.split)
  have t: "c_wp (std_string v) Q R s = (case v of None \<Rightarrow> R (Uncaught (UndefinedBehaviour ''string of a null pointer'')) s | Some t \<Rightarrow> Q t s)"
    for v Q R by (simp add: std_string_def split: option.split)
  show ?case using Suc by (simp add: p t split: option.split sum.split)
qed simp

lemma attributes_safe:
  "c_wp (convert_attributes fp a n) (\<lambda>_ s'. s' = s) (\<lambda>e s'. s' = s \<and> (\<exists>x. e = Uncaught x)) s"
  by (simp add: convert_attributes_def pairs_safe split: option.split)

lemma event_safe:
  assumes s: "api_ok s" "live_at KSession p s" and f: "\<And>m x. library_call (\<lambda>_ _. True) (f m x)"
  shows "c_wp (call_c session_of SessionCell p () (\<lambda>x. c_bind (convert_attributes fp a n) (\<lambda>m. on_library (f m x))))
    (\<lambda>_. api_ok) undefined_behaviour s"
proof (rule session_handle.call [where Q = "\<lambda>_. api_ok", OF s s(1)])
  fix h :: SessionHandle and x and g
  have l: "length (snd (f m x (aLibrary s))) = length (aLibrary s)" for m
    using f [of m x, unfolded library_call_def, rule_format, of "aLibrary s"] by simp
  let ?R = "\<lambda>e s'. if caught e then log_only s s' \<and> (\<forall>s''. log_only s' s'' \<longrightarrow> api_ok s'') else undefined_behaviour e s'"
  have e: "?R (Uncaught y) s'" if "aMemory s' = aMemory s" "aNext s' = aNext s" "length (aLibrary s') = length (aLibrary s)" for y s'
    using that by (cases y) (auto simp: caught_def undefined_behaviour_def log_only_def intro: kept_ok [OF s(1)])
  have "c_wp (on_library (f m x)) (\<lambda>_. api_ok) ?R s" for m
  proof (cases "f m x (aLibrary s)")
    case (Pair r ks)
    let ?s = "s\<lparr>aLibrary := ks\<rparr>"
    have k: "length ks = length (aLibrary s)" using l [of m] Pair by simp
    have "?R (Uncaught y) ?s" for y by (rule e) (simp_all add: k)
    moreover have "api_ok ?s" by (rule kept_ok [OF s(1)]) (simp_all add: k)
    ultimately show ?thesis unfolding wp_library Pair by (cases r) simp_all
  qed
  then have "c_wp (convert_attributes fp a n) (\<lambda>m. c_wp (on_library (f m x)) (\<lambda>_. api_ok) ?R) ?R s"
    by (intro wp_mono [OF attributes_safe]) (use e in blast)+
  then show "c_wp (c_bind (convert_attributes fp a n) (\<lambda>m. on_library (f m x))) (\<lambda>_. api_ok) ?R s" by simp
qed

subsection \<open>Trust managers, loggers and configurations\<close>

lemma made_safe: "api_ok s \<Longrightarrow> cell_ok (length (aLibrary s)) c \<Longrightarrow> owned c = [] \<Longrightarrow> kind_of c = k \<Longrightarrow>
    c_wp (CATCH_AND_IGNORE_ALL nullptr (malloc c)) (done_with k) R s"
  using api_malloc [of s c] by (simp add: wp_ignore done_with_def live_at_def)

lemma destroyed_safe:
  assumes "api_ok s" "live_at KTrustManager p s \<and> d = destroyTrustManager p \<or> live_at KLogger p s \<and> d = destroyLogger p"
    and "unowned p (aMemory s)"
  shows "c_wp d (\<lambda>_. api_ok) R s"
proof (cases "p = nullptr")
  case False
  have "api_ok (s\<lparr>aMemory := (aMemory s) |` (- {p})\<rparr>)"
    using assms(1) by (rule api_remove) (use assms(3) in \<open>auto simp: unowned_def\<close>)
  moreover have "(aMemory s)(p := None) = (aMemory s) |` (- {p})" by (auto simp: restrict_map_def)
  ultimately show ?thesis
    using assms(2) False
    by (auto simp: live_at_def destroyTrustManager_def destroyLogger_def wp_cells wp_free dest!: kind_cases)
qed (use assms in \<open>auto simp: destroyTrustManager_def destroyLogger_def\<close>)

lemma configuration_cell:
  assumes "live_at KConfiguration p s" "p \<noteq> nullptr"
  obtains c where "aMemory s p = Some (ConfigurationCell c)"
  using assms kind_cases(9) unfolding live_at_def by metis

text \<open>A change of a configuration that takes no text but one of its own or one without an owner.\<close>

lemma configured_safe:
  assumes "api_ok s" "live_at KConfiguration p s"
    and "\<And>c. set (configuration_texts (f c)) \<subseteq> set (configuration_texts c) \<union> {q. unowned q (aMemory s) \<and> (\<exists>t. aMemory s q = Some (TextCell t))}"
    and "\<And>c. aMemory s p = Some (ConfigurationCell c) \<Longrightarrow> distinct (configuration_texts (f c))"
  shows "c_wp (configure_c p f) (\<lambda>_. api_ok) R s"
proof (cases "p = nullptr")
  case False
  obtain c where c: "aMemory s p = Some (ConfigurationCell c)" by (rule configuration_cell [OF assms(2) False])
  have "api_ok (s\<lparr>aMemory := (aMemory s)(p \<mapsto> ConfigurationCell (f c))\<rparr>)"
  proof (rule api_put [OF assms(1) c])
    show "distinct (map fst (owned (ConfigurationCell (f c))))" using assms(4) [OF c] by (simp add: comp_def)
    show "(q, k) \<in> set (owned (ConfigurationCell c)) \<or> unowned q (aMemory s) \<and> (\<exists>d. aMemory s q = Some d \<and> kind_of d = k)"
      if "(q, k) \<in> set (owned (ConfigurationCell (f c)))" for q k
      using that assms(3) [of c] by auto
  qed simp_all
  then show ?thesis
    using c False by (simp add: configure_c_def load_configuration_def store_configuration_def wp_cells)
qed (use assms(1) in \<open>simp add: configure_c_def\<close>)

lemma texts_distinct: "api_ok s \<Longrightarrow> aMemory s p = Some (ConfigurationCell c) \<Longrightarrow> distinct (configuration_texts c)"
  unfolding api_ok_def cells_ok_def by (force simp: comp_def)

text \<open>What stays when memory is allocated.\<close>

definition extends :: "'w Api \<Rightarrow> 'w Api \<Rightarrow> bool" where
  "extends s s' \<longleftrightarrow> aMemory s \<subseteq>\<^sub>m aMemory s' \<and> (\<forall>p. unowned p (aMemory s) \<longrightarrow> unowned p (aMemory s')) \<and> aLibrary s' = aLibrary s"

lemma extends_trans: "extends s s' \<Longrightarrow> extends s' s'' \<Longrightarrow> extends s s''"
  unfolding extends_def by (auto intro: map_le_trans)

lemma extends_cell: "extends s s' \<Longrightarrow> aMemory s p = Some c \<Longrightarrow> aMemory s' p = Some c"
  unfolding extends_def map_le_def by (metis domI)

lemma extends_unowned: "extends s s' \<Longrightarrow> unowned p (aMemory s) \<Longrightarrow> unowned p (aMemory s')"
  unfolding extends_def by blast

lemma malloc_safe:
  assumes s: "api_ok s" "cell_ok (length (aLibrary s)) c" "owned c = []"
    and Q: "\<And>q s'. api_ok s' \<Longrightarrow> extends s s' \<Longrightarrow> q \<noteq> nullptr \<Longrightarrow> aMemory s q = None \<Longrightarrow> aMemory s' q = Some c \<Longrightarrow>
      unowned q (aMemory s') \<Longrightarrow> Q q s'"
  shows "c_wp (malloc c) Q R s"
proof -
  let ?s = "s\<lparr>aMemory := (aMemory s)(aNext s \<mapsto> c), aNext := aNext s + 1\<rparr>"
  have n: "aMemory s (aNext s) = None" "aNext s \<noteq> nullptr" "cells_ok (length (aLibrary s)) (aMemory s)"
    using s(1) by (auto simp: api_ok_def memory_ok_def)
  have u: "unowned q (aMemory ?s)" if "unowned q (aMemory s)" for q
    using that s(3) by (auto simp: unowned_def owns_def)
  have "api_ok ?s" using s by (intro api_malloc) simp_all
  moreover have "extends s ?s" using n(1) u by (auto simp: extends_def map_le_def)
  ultimately have "Q (aNext s) ?s" using n u [OF unowned_free [OF n(3,1)]] by (intro Q) simp_all
  then show ?thesis by simp
qed

lemma duplicate_safe:
  assumes "api_ok s"
    and "Q nullptr s"
    and "\<And>q t s'. api_ok s' \<Longrightarrow> extends s s' \<Longrightarrow> q \<noteq> nullptr \<Longrightarrow> aMemory s q = None \<Longrightarrow> aMemory s' q = Some (TextCell t) \<Longrightarrow>
      unowned q (aMemory s') \<Longrightarrow> Q q s'"
  shows "c_wp (duplicateString t) Q R s"
  using assms malloc_safe [of s _ Q R] by (auto simp: duplicateString_def simp del: wp_basic(4) split: option.split)

lemma owns_configuration: "owns (ConfigurationCell c) = set (configuration_texts c)"
  by (simp add: owns_def image_image)

lemma distinct_replaced:
  "distinct (filter P xs) \<Longrightarrow> \<not> P q \<or> q \<notin> set xs \<Longrightarrow> distinct (filter P (xs[i := q]))"
proof (induction xs arbitrary: i)
  case (Cons x xs)
  have "set (filter P (xs[j := q])) \<subseteq> insert q (set (filter P xs))" for j
    using set_update_subset_insert [of xs j q] by auto
  then show ?case using Cons by (cases i) (auto split: if_splits)
qed simp

lemma texts_allocated:
  "api_ok s \<Longrightarrow> aMemory s p = Some (ConfigurationCell c) \<Longrightarrow> q \<in> set (configuration_texts c) \<Longrightarrow> \<exists>t. aMemory s q = Some (TextCell t)"
  using owned_cell [of _ "aMemory s" p "ConfigurationCell c" q KText] kind_cases(6) by (fastforce simp: api_ok_def)

lemma text_configured_safe:
  assumes "api_ok s" "live_at KConfiguration p s" "\<And>q c. configuration_pointers (f q c) = (configuration_pointers c)[i := q]"
  shows "c_wp (configure_text p t f) (\<lambda>_. api_ok) R s"
proof -
  have step: "c_wp (configure_c p (f q)) (\<lambda>_. api_ok) R s'"
    if s': "api_ok s'" "extends s s'" and q: "q = nullptr \<or> aMemory s q = None \<and> unowned q (aMemory s') \<and> (\<exists>t. aMemory s' q = Some (TextCell t))" for q s'
  proof (rule configured_safe [OF s'(1)])
    show "live_at KConfiguration p s'" using assms(2) extends_cell [OF s'(2)] by (auto simp: live_at_def)
    show "set (configuration_texts (f q c)) \<subseteq> set (configuration_texts c) \<union>
        {q. unowned q (aMemory s') \<and> (\<exists>t. aMemory s' q = Some (TextCell t))}" for c
      using q set_update_subset_insert [of "configuration_pointers c" i q] by (auto simp: configuration_texts_def assms(3))
    fix c assume c: "aMemory s' p = Some (ConfigurationCell c)"
    have "distinct (configuration_texts c)" by (rule texts_distinct [OF s'(1) c])
    moreover have "q = nullptr \<or> q \<notin> set (configuration_pointers c)"
      using q c owns_configuration [of c] by (auto simp: configuration_texts_def unowned_def)
    ultimately show "distinct (configuration_texts (f q c))"
      unfolding configuration_texts_def assms(3) by (intro distinct_replaced) auto
  qed
  have "c_wp (duplicateString t) (\<lambda>q. c_wp (configure_c p (f q)) (\<lambda>_. api_ok) R) R s"
  proof (rule duplicate_safe [OF assms(1)])
    show "c_wp (configure_c p (f nullptr)) (\<lambda>_. api_ok) R s"
      by (rule step [OF assms(1)]) (simp_all add: extends_def)
  qed (blast intro: step)
  then show ?thesis using assms(1) by (simp add: configure_text_def)
qed

text \<open>Null pointers and texts without an owner, no two of them the same text.\<close>

definition fresh_texts :: "ptr list \<Rightarrow> 'w Api \<Rightarrow> bool" where
  "fresh_texts qs s \<longleftrightarrow> distinct (filter (\<lambda>q. q \<noteq> nullptr) qs) \<and>
     (\<forall>q\<in>set qs. q \<noteq> nullptr \<longrightarrow> unowned q (aMemory s) \<and> (\<exists>t. aMemory s q = Some (TextCell t)))"

lemma duplicate_fresh:
  assumes s: "api_ok s" "aMemory s h = Some c" "fresh_texts qs s"
    and Q: "\<And>q s'. api_ok s' \<Longrightarrow> aMemory s' h = Some c \<Longrightarrow> fresh_texts (q # qs) s' \<Longrightarrow> Q q s'"
  shows "c_wp (duplicateString t) Q R s"
proof (rule duplicate_safe [OF s(1)])
  show "Q nullptr s" using s by (intro Q) (simp_all add: fresh_texts_def)
  fix q t s' assume s': "api_ok s'" "extends s s'"
    and q: "q \<noteq> nullptr" "aMemory s q = None" "aMemory s' q = Some (TextCell t)" "unowned q (aMemory s')"
  have "q \<notin> set qs" using s(3) q(1,2) by (auto simp: fresh_texts_def)
  moreover have "unowned r (aMemory s') \<and> (\<exists>t. aMemory s' r = Some (TextCell t))" if "r \<in> set qs" "r \<noteq> nullptr" for r
    using s(3) that extends_cell [OF s'(2)] extends_unowned [OF s'(2)] unfolding fresh_texts_def by blast
  ultimately have "fresh_texts (q # qs) s'" using s(3) q by (simp add: fresh_texts_def)
  then show "Q q s'" by (rule Q [OF s'(1) extends_cell [OF s'(2) s(2)]])
qed

lemma stored_safe:
  assumes s: "api_ok s" "h \<noteq> nullptr" "aMemory s h = Some (ConfigurationCell c)"
    and t: "fresh_texts qs s" "configuration_texts c' = filter (\<lambda>p. p \<noteq> nullptr) (rev qs)"
  shows "c_wp (store_configuration h c') (\<lambda>_. done_with KConfiguration h) R s"
proof -
  have "api_ok (s\<lparr>aMemory := (aMemory s)(h \<mapsto> ConfigurationCell c')\<rparr>)"
  proof (rule api_put [OF s(1,3)])
    show "distinct (map fst (owned (ConfigurationCell c')))"
      using t by (simp add: comp_def fresh_texts_def rev_filter [symmetric])
    show "(q, k) \<in> set (owned (ConfigurationCell c)) \<or> unowned q (aMemory s) \<and> (\<exists>d. aMemory s q = Some d \<and> kind_of d = k)"
      if "(q, k) \<in> set (owned (ConfigurationCell c'))" for q k
      using that t by (auto simp: fresh_texts_def)
  qed simp_all
  then show ?thesis
    using configuration.wp_store [OF s(2,3)] by (simp add: store_configuration_def done_with_def live_at_def)
qed

lemma new_texts:
  "configuration_texts (OpenKitConfigurationHandle_new\<lparr>chEndpointURL := p1, chApplicationID := p2, chDeviceID := n, chOrigDeviceID := p3\<rparr>) =
    filter (\<lambda>p. p \<noteq> nullptr) (rev [p3, p2, p1])"
  by (simp add: configuration_texts_def configuration_pointers_def OpenKitConfigurationHandle_new_def)

lemma created_safe:
  fixes s :: "'w Api"
  assumes "api_ok s"
  shows "c_wp (createOpenKitConfigurationWithOrigAndHashedDeviceId u a n d) (done_with KConfiguration) R s"
  unfolding createOpenKitConfigurationWithOrigAndHashedDeviceId_def wp_bind wp_basic(1)
proof (rule malloc_safe [OF assms])
  fix h and s0 :: "'w Api" assume h: "h \<noteq> nullptr"
    and 0: "api_ok s0" "aMemory s0 h = Some (ConfigurationCell OpenKitConfigurationHandle_new)"
  have "fresh_texts [] s0" by (simp add: fresh_texts_def)
  with 0 show "c_wp (duplicateString u) (\<lambda>p1. c_wp (duplicateString a) (\<lambda>p2. c_wp (duplicateString d) (\<lambda>p3.
      c_wp (store_configuration h (OpenKitConfigurationHandle_new\<lparr>chEndpointURL := p1, chApplicationID := p2, chDeviceID := n, chOrigDeviceID := p3\<rparr>))
        (\<lambda>_. done_with KConfiguration h) R) R) R) R s0"
    by - ((erule duplicate_fresh, assumption, assumption)+, erule stored_safe [OF _ h], assumption, assumption, rule new_texts)
qed (simp_all add: configuration_texts_def configuration_pointers_def OpenKitConfigurationHandle_new_def)

text \<open>The end of a configuration: its texts are freed one after the other, but for the original device id.\<close>

primrec c_each :: "('a \<Rightarrow> ('w, unit) c_op) \<Rightarrow> 'a list \<Rightarrow> ('w, unit) c_op" where
  "c_each f [] = c_return ()"
| "c_each f (x # xs) = c_bind (f x) (\<lambda>_. c_each f xs)"

lemma texts_freed:
  "distinct (filter (\<lambda>p. p \<noteq> nullptr) ts) \<Longrightarrow> \<forall>t\<in>set ts. t \<noteq> nullptr \<longrightarrow> aMemory s t \<noteq> None \<Longrightarrow> aMemory s nullptr = None \<Longrightarrow>
    c_wp (c_each FREE_DUPLICATED_STRING ts) Q R s = Q () (s\<lparr>aMemory := aMemory s |` (- set ts)\<rparr>)"
proof (induction ts arbitrary: s)
  case (Cons t ts)
  let ?s = "s\<lparr>aMemory := (aMemory s)(t := None)\<rparr>"
  have "c_wp (FREE_DUPLICATED_STRING t) P R s = P () ?s" for P
  proof (cases "t = nullptr")
    case True
    then have "(aMemory s)(t := None) = aMemory s" using Cons.prems(3) by auto
    then show ?thesis using True by (simp add: FREE_DUPLICATED_STRING_def)
  next
    case False
    then obtain c where "aMemory s t = Some c" using Cons.prems(2) by auto
    then show ?thesis using False by (simp add: FREE_DUPLICATED_STRING_def wp_free)
  qed
  moreover have "c_wp (c_each FREE_DUPLICATED_STRING ts) Q R ?s = Q () (?s\<lparr>aMemory := aMemory ?s |` (- set ts)\<rparr>)"
    using Cons.prems by (intro Cons.IH) (auto split: if_splits)
  moreover have "(aMemory s)(t := None) |` (- set ts) = aMemory s |` (- set (t # ts))" by (auto simp: restrict_map_def)
  ultimately show ?case by simp
qed (simp add: restrict_map_def)

lemma configuration_destroyed:
  assumes "api_ok s" "live_at KConfiguration p s"
  shows "c_wp (destroyOpenKitConfiguration p) (\<lambda>_. api_ok) R s"
proof (cases "p = nullptr")
  case False
  obtain c where c: "aMemory s p = Some (ConfigurationCell c)" by (rule configuration_cell [OF assms(2) False])
  define ts where "ts = [chEndpointURL c, chApplicationID c, chApplicationVersion c, chOperatingSystem c, chManufacturer c, chModelID c]"
  have e: "configuration_texts c = filter (\<lambda>p. p \<noteq> nullptr) ts @ filter (\<lambda>p. p \<noteq> nullptr) [chOrigDeviceID c]"
    by (simp add: configuration_texts_def configuration_pointers_def ts_def)
  have d: "distinct (filter (\<lambda>p. p \<noteq> nullptr) ts)" using texts_distinct [OF assms(1) c] unfolding e distinct_append by blast
  have sub: "q = nullptr \<or> q \<in> set (configuration_texts c)" if "q \<in> set ts" for q using that by (auto simp: e)
  have t: "\<exists>t. aMemory s q = Some (TextCell t)" if "q \<in> set ts" "q \<noteq> nullptr" for q
    using texts_allocated [OF assms(1) c, of q] sub that by blast
  have n: "aMemory s nullptr = None" and ok: "cells_ok (length (aLibrary s)) (aMemory s)" using assms(1) by (auto simp: api_ok_def memory_ok_def)
  have p: "p \<notin> set ts" using t [of p] c False by (metis cell.distinct(7) option.inject)
  let ?D = "insert p (set ts)"
  have "api_ok (s\<lparr>aMemory := aMemory s |` (- ?D)\<rparr>)"
  proof (rule api_remove [OF assms(1)])
    fix p' c' assume c': "aMemory s p' = Some c'" "p' \<notin> ?D"
    have "owns c' \<inter> set (configuration_texts c) = {}" using owned_apart [OF ok c c'(1)] c'(2) by (auto simp: owns_configuration)
    moreover have "p \<notin> owns c'" using unowned_kind [OF ok c] c'(1) by (simp add: unowned_def)
    moreover have "nullptr \<notin> owns c'" using unowned_free [OF ok n] c'(1) by (simp add: unowned_def)
    ultimately show "owns c' \<inter> ?D = {}" using sub by blast
  qed
  moreover have "(aMemory s |` (- set ts))(p := None) = aMemory s |` (- ?D)" by (rule ext) (simp add: restrict_map_def)
  moreover have "c_wp (destroyOpenKitConfiguration p) (\<lambda>_. api_ok) R s =
      c_wp (c_each FREE_DUPLICATED_STRING ts) (\<lambda>_. c_wp (free p) (\<lambda>_. api_ok) R) R s"
    using False c by (simp add: destroyOpenKitConfiguration_def load_configuration_def wp_cells ts_def wp_bind_return)
  moreover have "c_wp (free p) (\<lambda>_. api_ok) R (s\<lparr>aMemory := aMemory s |` (- set ts)\<rparr>) =
      api_ok (s\<lparr>aMemory := (aMemory s |` (- set ts))(p := None)\<rparr>)"
    using wp_free [OF False, of "s\<lparr>aMemory := aMemory s |` (- set ts)\<rparr>" "ConfigurationCell c"] c p by (simp add: restrict_map_def)
  moreover have "c_wp (c_each FREE_DUPLICATED_STRING ts) Q R s = Q () (s\<lparr>aMemory := aMemory s |` (- set ts)\<rparr>)" for Q
    by (rule texts_freed [OF d _ n]) (use t in fastforce)
  ultimately show ?thesis by simp
qed (use assms(1) in \<open>simp add: destroyOpenKitConfiguration_def\<close>)

subsection \<open>The library object\<close>

lemma handle_destroyed_run:
  assumes s: "api_ok s" "aMemory s p = Some (OpenKitCell h)" "p \<noteq> nullptr"
  shows "c_wp (c_bind (load_openkit p) (\<lambda>h.
       c_bind (store_openkit p (h\<lparr>hSharedPointer := None, hLogger := None\<rparr>)) (\<lambda>_.
       c_bind (if ohOwnsTrustManagerHandle h \<and> ohTrustManagerHandle h \<noteq> nullptr
               then c_bind (destroyTrustManager (ohTrustManagerHandle h)) (\<lambda>_.
                    c_bind (load_openkit p) (\<lambda>h. store_openkit p (h\<lparr>ohTrustManagerHandle := nullptr\<rparr>)))
               else c_return ()) (\<lambda>_.
       c_bind (if ohOwnsLoggerHandle h \<and> ohLoggerHandle h \<noteq> nullptr
               then c_bind (destroyLogger (ohLoggerHandle h)) (\<lambda>_.
                    c_bind (load_openkit p) (\<lambda>h. store_openkit p (h\<lparr>ohLoggerHandle := nullptr\<rparr>)))
               else c_return ()) (\<lambda>_.
       free p))))) Q R s = Q () (s\<lparr>aMemory := aMemory s |` (- insert p (owns (OpenKitCell h)))\<rparr>)"
proof -
  let ?T = "ohOwnsTrustManagerHandle h \<and> ohTrustManagerHandle h \<noteq> nullptr"
  let ?L = "ohOwnsLoggerHandle h \<and> ohLoggerHandle h \<noteq> nullptr"
  let ?D = "insert p (owns (OpenKitCell h))"
  have ok: "cells_ok (length (aLibrary s)) (aMemory s)" using s(1) by (simp add: api_ok_def)
  have t: "\<exists>t. aMemory s (ohTrustManagerHandle h) = Some (TrustManagerCell t)" if ?T
    using owned_cell [OF ok s(2), of "ohTrustManagerHandle h" KTrustManager] that kind_cases(8) by fastforce
  have l: "\<exists>g. aMemory s (ohLoggerHandle h) = Some (LoggerCell g)" if ?L
    using owned_cell [OF ok s(2), of "ohLoggerHandle h" KLogger] that kind_cases(7) by fastforce
  note run = load_openkit_def store_openkit_def destroyTrustManager_def destroyLogger_def wp_cells wp_free
  consider "?T" "?L" | "?T" "\<not> ?L" | "\<not> ?T" "?L" | "\<not> ?T" "\<not> ?L" by blast
  then show ?thesis
  proof cases
    case 1
    obtain t' g' where c: "aMemory s (ohTrustManagerHandle h) = Some (TrustManagerCell t')" "aMemory s (ohLoggerHandle h) = Some (LoggerCell g')"
      using t [OF 1(1)] l [OF 1(2)] by blast
    then have n: "ohTrustManagerHandle h \<noteq> p" "ohLoggerHandle h \<noteq> p" "ohLoggerHandle h \<noteq> ohTrustManagerHandle h" using s(2) by auto
    have "(aMemory s)(ohTrustManagerHandle h := None, ohLoggerHandle h := None, p := None) = aMemory s |` (- ?D)"
      using 1 by (rule_tac ext) (auto simp: restrict_map_def owns_def)
    then show ?thesis using 1 c n s by (simp add: run fun_upd_twist)
  next
    case 2
    obtain t' where c: "aMemory s (ohTrustManagerHandle h) = Some (TrustManagerCell t')" using t [OF 2(1)] by blast
    then have n: "ohTrustManagerHandle h \<noteq> p" using s(2) by auto
    have "(aMemory s)(ohTrustManagerHandle h := None, p := None) = aMemory s |` (- ?D)"
      using 2 by (rule_tac ext) (auto simp: restrict_map_def owns_def)
    then show ?thesis using 2 c n s by (auto simp: run fun_upd_twist)
  next
    case 3
    obtain g' where c: "aMemory s (ohLoggerHandle h) = Some (LoggerCell g')" using l [OF 3(2)] by blast
    then have n: "ohLoggerHandle h \<noteq> p" using s(2) by auto
    have "(aMemory s)(ohLoggerHandle h := None, p := None) = aMemory s |` (- ?D)"
      using 3 by (rule_tac ext) (auto simp: restrict_map_def owns_def)
    then show ?thesis using 3 c n s by (auto simp: run fun_upd_twist)
  next
    case 4
    have "(aMemory s)(p := None) = aMemory s |` (- ?D)"
      using 4 by (rule_tac ext) (auto simp: restrict_map_def owns_def)
    then show ?thesis using 4 s by (auto simp: run)
  qed
qed

lemma handle_destroyed:
  assumes s: "api_ok s" "aMemory s p = Some (OpenKitCell h)"
  shows "api_ok (s\<lparr>aMemory := aMemory s |` (- insert p (owns (OpenKitCell h)))\<rparr>)"
proof (rule api_remove [OF s(1)])
  have ok: "cells_ok (length (aLibrary s)) (aMemory s)" using s(1) by (simp add: api_ok_def)
  fix p' c' assume c': "aMemory s p' = Some c'" "p' \<notin> insert p (owns (OpenKitCell h))"
  have "p \<notin> owns c'" using unowned_kind [OF ok s(2)] c'(1) by (simp add: unowned_def)
  then show "owns c' \<inter> insert p (owns (OpenKitCell h)) = {}" using owned_apart [OF ok s(2) c'(1)] c'(2) by auto
qed

lemma shutdown_safe:
  assumes s: "api_ok s" "live_at KOpenKit p s"
  shows "c_wp (shutdownOpenKit p) (\<lambda>_. api_ok) undefined_behaviour s"
  unfolding shutdownOpenKit_def
proof (rule openkit_handle.call [where Q = "\<lambda>_. api_ok", OF s s(1)])
  fix h :: OpenKitHandle and n g assume h: "aMemory s p = Some (OpenKitCell h)" and p: "p \<noteq> nullptr"
  obtain r ks where r: "on_instance n OpenKit_shutdown (aLibrary s) = (r, ks)" by (cases "on_instance n OpenKit_shutdown (aLibrary s)")
  have l: "length ks = length (aLibrary s)"
    using library_instance [of n OpenKit_shutdown, unfolded library_call_def, rule_format, of "aLibrary s"] r by simp
  have ok: "api_ok (s\<lparr>aLibrary := ks\<rparr>)" using s(1) l by (simp add: api_library)
  show "c_wp (c_bind (on_library (on_instance n OpenKit_shutdown)) (\<lambda>_.
       c_bind (load_openkit p) (\<lambda>h.
       c_bind (store_openkit p (h\<lparr>hSharedPointer := None, hLogger := None\<rparr>)) (\<lambda>_.
       c_bind (if ohOwnsTrustManagerHandle h \<and> ohTrustManagerHandle h \<noteq> nullptr
               then c_bind (destroyTrustManager (ohTrustManagerHandle h)) (\<lambda>_.
                    c_bind (load_openkit p) (\<lambda>h. store_openkit p (h\<lparr>ohTrustManagerHandle := nullptr\<rparr>)))
               else c_return ()) (\<lambda>_.
       c_bind (if ohOwnsLoggerHandle h \<and> ohLoggerHandle h \<noteq> nullptr
               then c_bind (destroyLogger (ohLoggerHandle h)) (\<lambda>_.
                    c_bind (load_openkit p) (\<lambda>h. store_openkit p (h\<lparr>ohLoggerHandle := nullptr\<rparr>)))
               else c_return ()) (\<lambda>_.
       free p)))))) (\<lambda>_. api_ok)
      (\<lambda>e s'. if caught e then log_only s s' \<and> (\<forall>s''. log_only s' s'' \<longrightarrow> api_ok s'') else undefined_behaviour e s') s"
    unfolding wp_bind [of "on_library _"] wp_library r
    using handle_destroyed [OF ok, of p h] handle_destroyed_run [OF ok _ p, of h] h l
    by (cases r) (auto simp: caught_def undefined_behaviour_def log_only_def intro: kept_ok [OF s(1)] split: cpp_exception.splits)
qed

lemma wp_log_safe: "c_wp m Q (\<lambda>e s. \<not> caught e \<and> R e s) s \<Longrightarrow> c_wp (CATCH_AND_LOG g a m) Q R s"
  unfolding wp_log by (erule wp_mono) auto

lemma live_cells:
  "live_at KLogger p s \<Longrightarrow> p \<noteq> nullptr \<Longrightarrow> api_ok s \<Longrightarrow> \<exists>g. aMemory s p = Some (LoggerCell (Some g))"
  "live_at KTrustManager p s \<Longrightarrow> p \<noteq> nullptr \<Longrightarrow> \<exists>t. aMemory s p = Some (TrustManagerCell t)"
  unfolding live_at_def by (metis api_cell cell_ok.simps(2) kind_cases(7) option.exhaust) (metis kind_cases(8))

lemma trust_safe:
  assumes s: "api_ok s" "live_at KLogger lg s" "mode = CUSTOM_TRUST \<Longrightarrow> live_at KTrustManager tm s"
    and Q: "\<And>u t s'. api_ok s' \<Longrightarrow> extends s s' \<Longrightarrow> u \<noteq> nullptr \<Longrightarrow> aMemory s' u = Some (TrustManagerCell t) \<Longrightarrow>
      u = tm \<or> unowned u (aMemory s') \<Longrightarrow> Q u s'"
  shows "c_wp (createTrustManagerHandle lg mode tm) Q R s"
proof -
  have new: "c_wp (CATCH_AND_IGNORE_ALL nullptr (malloc (TrustManagerCell (Some t)))) Q R' (s\<lparr>aLog := l\<rparr>)" for t l R'
    unfolding wp_ignore
  proof (rule malloc_safe)
    fix q s' assume s': "api_ok s'" "extends (s\<lparr>aLog := l\<rparr>) s'" "q \<noteq> nullptr" "aMemory s' q = Some (TrustManagerCell (Some t))" "unowned q (aMemory s')"
    have "extends s s'" using s'(2) by (simp add: extends_def)
    then show "Q q s'" using s' by (intro Q) simp_all
  qed (use s(1) in simp_all)
  have new': "c_wp (CATCH_AND_IGNORE_ALL nullptr (malloc (TrustManagerCell (Some t)))) Q R' s" for t R'
    using new [of t R' "aLog s"] by simp
  have given: "Q tm s" if "mode = CUSTOM_TRUST" "tm \<noteq> nullptr"
    using live_cells(2) [OF s(3) [OF that(1)] that(2)] s(1) that(2) by (elim exE) (rule Q, simp_all add: extends_def)
  have logged: "c_wp (c_bind (load_logger lg) (log_message LOG_LEVEL_WARN t)) (\<lambda>_. c_wp createStrictTrustManager Q R) R s"
    if l: "lg \<noteq> nullptr" for t
  proof -
    obtain g where "aMemory s lg = Some (LoggerCell (Some g))" using live_cells(1) [OF s(2) l s(1)] by blast
    then show ?thesis using l new new' by (simp add: load_logger_def wp_cells createStrictTrustManager_def)
  qed
  show ?thesis
    using new' given logged by (simp add: createTrustManagerHandle_def createBlindTrustManager_def wp_bind_return) (simp add: createStrictTrustManager_def)
qed

lemma restored:
  assumes "api_ok s" "aMemory s h = Some (ConfigurationCell c)" "configuration_texts c' = configuration_texts c"
  shows "api_ok (s\<lparr>aMemory := (aMemory s)(h \<mapsto> ConfigurationCell c')\<rparr>)"
    and "unowned p (aMemory s) \<Longrightarrow> unowned p ((aMemory s)(h \<mapsto> ConfigurationCell c'))"
proof -
  show "api_ok (s\<lparr>aMemory := (aMemory s)(h \<mapsto> ConfigurationCell c')\<rparr>)"
    using assms(1,2) by (rule api_put) (use assms(3) texts_distinct [OF assms(1,2)] in \<open>auto simp: comp_def\<close>)
  show "unowned p (aMemory s) \<Longrightarrow> unowned p ((aMemory s)(h \<mapsto> ConfigurationCell c'))"
    using assms(2) owns_configuration [of c] owns_configuration [of c'] unfolding assms(3) by (auto simp: unowned_def)
qed

text \<open>A configuration whose trust manager and logger can be given to a library object.\<close>

definition equipped :: "ptr \<Rightarrow> ptr list \<Rightarrow> ptr \<Rightarrow> ptr \<Rightarrow> 'w Api \<Rightarrow> bool" where
  "equipped h ts u l s \<longleftrightarrow> api_ok s \<and> u \<noteq> nullptr \<and> l \<noteq> nullptr \<and> (\<exists>c g t. aMemory s h = Some (ConfigurationCell c) \<and>
     configuration_texts c = ts \<and> chTrustManagerHandle c = u \<and> aMemory s u = Some (TrustManagerCell t) \<and>
     (chOwnsTrustManagerHandle c \<longrightarrow> unowned u (aMemory s)) \<and> chLoggerHandle c = l \<and>
     aMemory s l = Some (LoggerCell (Some g)) \<and> (chOwnsLoggerHandle c \<longrightarrow> unowned l (aMemory s)))"

lemma logger_safe:
  assumes s: "api_ok s" "h \<noteq> nullptr" "aMemory s h = Some (ConfigurationCell c)" "live_at KLogger (chLoggerHandle c) s" "\<not> chOwnsLoggerHandle c"
    and u: "chTrustManagerHandle c \<noteq> nullptr" "aMemory s (chTrustManagerHandle c) = Some (TrustManagerCell t)"
      "chOwnsTrustManagerHandle c \<Longrightarrow> unowned (chTrustManagerHandle c) (aMemory s)"
  shows "c_wp (getLoggerHandle h) (\<lambda>l s'. equipped h (configuration_texts c) (chTrustManagerHandle c) l s') R s"
proof (cases "chLoggerHandle c = nullptr")
  case True
  have "c_wp (CATCH_AND_IGNORE_ALL nullptr (malloc (LoggerCell (Some g)))) (\<lambda>l. c_wp (store_configuration h
      (c\<lparr>chLoggerHandle := l, chOwnsLoggerHandle := True\<rparr>)) (\<lambda>_. equipped h (configuration_texts c) (chTrustManagerHandle c) l) R) R' s" for g R'
    unfolding wp_ignore
  proof (rule malloc_safe [OF s(1)])
    fix l s' assume s': "api_ok s'" "extends s s'" and l: "l \<noteq> nullptr" "aMemory s' l = Some (LoggerCell (Some g))" "unowned l (aMemory s')"
    let ?c = "c\<lparr>chLoggerHandle := l, chOwnsLoggerHandle := True\<rparr>"
    have h: "aMemory s' h = Some (ConfigurationCell c)" by (rule extends_cell [OF s'(2) s(3)])
    have t: "configuration_texts ?c = configuration_texts c" by (simp add: configuration_texts_def configuration_pointers_def)
    have "equipped h (configuration_texts c) (chTrustManagerHandle c) l (s'\<lparr>aMemory := (aMemory s')(h \<mapsto> ConfigurationCell ?c)\<rparr>)"
      using restored [OF s'(1) h t] t l u h extends_cell [OF s'(2) u(2)] extends_unowned [OF s'(2) u(3)] by (auto simp: equipped_def)
    then show "c_wp (store_configuration h ?c) (\<lambda>_. equipped h (configuration_texts c) (chTrustManagerHandle c) l) R s'"
      using h s(2) by (simp add: store_configuration_def wp_cells)
  qed simp_all
  then show ?thesis
    using True s(2,3) by (simp add: getLoggerHandle_def load_configuration_def wp_cells createDefaultLogger_def wp_bind_return)
next
  case False
  then show ?thesis
    using s live_cells(1) [OF s(4) False s(1)] u by (auto simp: getLoggerHandle_def load_configuration_def wp_cells equipped_def)
qed

lemma text_at_safe:
  "p = nullptr \<or> (\<exists>t. aMemory s p = Some (TextCell t)) \<Longrightarrow> (\<And>t. (t = None) = (p = nullptr) \<Longrightarrow> Q t s) \<Longrightarrow> c_wp (text_at p) Q R s"
  by (auto simp: text_at_def load_text_def wp_cells)

lemma pointer_text:
  "api_ok s \<Longrightarrow> aMemory s h = Some (ConfigurationCell c) \<Longrightarrow> set (configuration_pointers c') \<subseteq> insert nullptr (set (configuration_texts c)) \<Longrightarrow>
    p \<in> set (configuration_pointers c') \<Longrightarrow> p = nullptr \<or> (\<exists>t. aMemory s p = Some (TextCell t))"
  using texts_allocated by blast

text \<open>The configuration is one that has not given a logger of its own to a library object.\<close>

definition configuration_usable :: "OpenKitConfigurationHandle \<Rightarrow> 'w Api \<Rightarrow> bool" where
  "configuration_usable c s \<longleftrightarrow> \<not> chOwnsLoggerHandle c \<and> live_at KLogger (chLoggerHandle c) s \<and>
     (chTrustMode c = CUSTOM_TRUST \<longrightarrow> live_at KTrustManager (chTrustManagerHandle c) s)"

lemma builder_finished:
  fixes s :: "'w Api"
  assumes e: "equipped h (configuration_texts c) u l s"
  shows "c_wp (if l \<noteq> nullptr then c_bind (load_logger l) (\<lambda>g. c_return (withLogger g b)) else c_return b) (\<lambda>b.
      c_wp (if u \<noteq> nullptr then c_bind (load_trust_manager u) (\<lambda>t. c_return (withTrustManager t b)) else c_return b) (\<lambda>b.
      c_wp (text_at (chApplicationVersion c)) (\<lambda>v. c_wp (text_at (chOperatingSystem c)) (\<lambda>o'. c_wp (text_at (chManufacturer c)) (\<lambda>m.
      c_wp (text_at (chModelID c)) (\<lambda>d. c_wp (c_return (configure_builder c v o' m d b))
        (\<lambda>_ s. \<exists>u l. equipped h (configuration_texts c) u l s) R) R) R) R) R) R) R s"
proof -
  obtain c' g t where c': "api_ok s" "aMemory s h = Some (ConfigurationCell c')" "configuration_texts c' = configuration_texts c"
    and p: "l \<noteq> nullptr" "aMemory s l = Some (LoggerCell (Some g))" "u \<noteq> nullptr" "aMemory s u = Some (TrustManagerCell t)"
    using e by (auto simp: equipped_def)
  have t: "q = nullptr \<or> (\<exists>t. aMemory s q = Some (TextCell t))" if "q \<in> set (configuration_pointers c)" for q
    by (rule pointer_text [OF c'(1,2) _ that]) (unfold c'(3), auto simp: configuration_texts_def)
  have "{chApplicationVersion c, chOperatingSystem c, chManufacturer c, chModelID c} \<subseteq> set (configuration_pointers c)"
    by (simp add: configuration_pointers_def)
  then have "c_wp (text_at (chApplicationVersion c)) (\<lambda>v. c_wp (text_at (chOperatingSystem c)) (\<lambda>o'. c_wp (text_at (chManufacturer c)) (\<lambda>m.
      c_wp (text_at (chModelID c)) (\<lambda>d. c_wp (c_return (configure_builder c v o' m d b))
        (\<lambda>_ s. \<exists>u l. equipped h (configuration_texts c) u l s) R) R) R) R) R s" for b
    by (intro text_at_safe t) (use e in auto)
  then show ?thesis using p by (simp add: load_logger_def load_trust_manager_def wp_cells)
qed

lemma initialize_safe:
  fixes s :: "'w Api"
  assumes s: "api_ok s" "h \<noteq> nullptr" "aMemory s h = Some (ConfigurationCell c)" "configuration_usable c s"
  shows "c_wp (initializeOpenKitBuilder b h) (\<lambda>_ s'. \<exists>u l. equipped h (configuration_texts c) u l s') R s"
  unfolding initializeOpenKitBuilder_def load_configuration_def wp_bind configuration.wp_load [OF s(2,3)]
proof (rule trust_safe [OF s(1)])
  show "live_at KLogger (chLoggerHandle c) s" and "chTrustMode c = CUSTOM_TRUST \<Longrightarrow> live_at KTrustManager (chTrustManagerHandle c) s"
    using s(4) by (simp_all add: configuration_usable_def)
  fix u t and s1 :: "'w Api"
  assume s1: "api_ok s1" "extends s s1" and u: "u \<noteq> nullptr" "aMemory s1 u = Some (TrustManagerCell t)" "u = chTrustManagerHandle c \<or> unowned u (aMemory s1)"
  let ?c = "c\<lparr>chOwnsTrustManagerHandle := u \<noteq> chTrustManagerHandle c, chTrustManagerHandle := u\<rparr>"
  let ?s = "s1\<lparr>aMemory := (aMemory s1)(h \<mapsto> ConfigurationCell ?c)\<rparr>"
  have h: "aMemory s1 h = Some (ConfigurationCell c)" by (rule extends_cell [OF s1(2) s(3)])
  have tx: "configuration_texts ?c = configuration_texts c" by (simp add: configuration_texts_def configuration_pointers_def)
  have l: "live_at KLogger (chLoggerHandle c) ?s"
    using s(4) extends_cell [OF s1(2)] h by (fastforce simp: configuration_usable_def live_at_def)
  have g: "c_wp (getLoggerHandle h) (\<lambda>l s'. equipped h (configuration_texts ?c) (chTrustManagerHandle ?c) l s') R ?s"
    using s(2,4) l u restored [OF s1(1) h tx] h by (intro logger_safe) (auto simp: configuration_usable_def)
  have "c_wp (getLoggerHandle h) (\<lambda>loggerHandle.
     c_wp (if loggerHandle \<noteq> nullptr then c_bind (load_logger loggerHandle) (\<lambda>g. c_return (withLogger g b)) else c_return b) (\<lambda>b.
     c_wp (if u \<noteq> nullptr then c_bind (load_trust_manager u) (\<lambda>t. c_return (withTrustManager t b)) else c_return b) (\<lambda>b.
     c_wp (text_at (chApplicationVersion c)) (\<lambda>v. c_wp (text_at (chOperatingSystem c)) (\<lambda>o'. c_wp (text_at (chManufacturer c)) (\<lambda>m.
     c_wp (text_at (chModelID c)) (\<lambda>d. c_wp (c_return (configure_builder c v o' m d b))
       (\<lambda>_ s. \<exists>u l. equipped h (configuration_texts c) u l s) R) R) R) R) R) R) R) R ?s"
    by (rule wp_mono [OF g]) (rule builder_finished, use tx in simp, assumption)
  then show "c_wp (store_configuration h ?c) (\<lambda>_. c_wp (getLoggerHandle h) (\<lambda>loggerHandle.
     c_wp (if loggerHandle \<noteq> nullptr then c_bind (load_logger loggerHandle) (\<lambda>g. c_return (withLogger g b)) else c_return b) (\<lambda>b.
     c_wp (if u \<noteq> nullptr then c_bind (load_trust_manager u) (\<lambda>t. c_return (withTrustManager t b)) else c_return b) (\<lambda>b.
     c_wp (text_at (chApplicationVersion c)) (\<lambda>v. c_wp (text_at (chOperatingSystem c)) (\<lambda>o'. c_wp (text_at (chManufacturer c)) (\<lambda>m.
     c_wp (text_at (chModelID c)) (\<lambda>d. c_wp (c_return (configure_builder c v o' m d b))
       (\<lambda>_ s. \<exists>u l. equipped h (configuration_texts c) u l s) R) R) R) R) R) R) R) R) R s1"
    unfolding store_configuration_def configuration.wp_store [OF s(2) h] .
qed

lemma handle_made:
  assumes "equipped h ts u l s" "h \<noteq> nullptr" "n < length (aLibrary s)"
  shows "c_wp (createOpenKitHandle h n) (done_with KOpenKit) undefined_behaviour s"
  unfolding createOpenKitHandle_def
proof (rule wp_log_safe)
  obtain c g t where s: "api_ok s" "u \<noteq> nullptr" "l \<noteq> nullptr" and c: "aMemory s h = Some (ConfigurationCell c)"
    and u: "chTrustManagerHandle c = u" "aMemory s u = Some (TrustManagerCell t)" "chOwnsTrustManagerHandle c \<Longrightarrow> unowned u (aMemory s)"
    and l: "chLoggerHandle c = l" "aMemory s l = Some (LoggerCell (Some g))" "chOwnsLoggerHandle c \<Longrightarrow> unowned l (aMemory s)"
    using assms(1) by (auto simp: equipped_def)
  let ?h = "\<lparr>hSharedPointer = Some n, hLogger = Some g, ohLoggerHandle = l, ohOwnsLoggerHandle = chOwnsLoggerHandle c,
    ohTrustManagerHandle = u, ohOwnsTrustManagerHandle = chOwnsTrustManagerHandle c\<rparr>"
  have "api_ok (s\<lparr>aMemory := (aMemory s)(aNext s \<mapsto> OpenKitCell ?h), aNext := aNext s + 1\<rparr>)"
    using s(1)
  proof (rule api_malloc)
    show "distinct (map fst (owned (OpenKitCell ?h)))" using u(2) l(2) by auto
    show "unowned q (aMemory s) \<and> (\<exists>d. aMemory s q = Some d \<and> kind_of d = k)" if "(q, k) \<in> set (owned (OpenKitCell ?h))" for q k
      using that u l by (auto split: if_splits)
  qed (use assms(3) in \<open>simp add: handle_ok_def\<close>)
  then show "c_wp (c_bind (load_configuration h) (\<lambda>c. c_bind (load_logger (chLoggerHandle c)) (\<lambda>g.
        malloc (OpenKitCell \<lparr>hSharedPointer = Some n, hLogger = g, ohLoggerHandle = chLoggerHandle c,
          ohOwnsLoggerHandle = chOwnsLoggerHandle c, ohTrustManagerHandle = chTrustManagerHandle c,
          ohOwnsTrustManagerHandle = chOwnsTrustManagerHandle c\<rparr>)))) (done_with KOpenKit) (\<lambda>e s. \<not> caught e \<and> undefined_behaviour e s) s"
    using c u(1) l(1,2) s(3) assms(2) by (simp add: load_configuration_def load_logger_def wp_cells done_with_def live_at_def)
qed

lemma wp_build:
  "c_wp (build_c pl b) Q R s = Q (length (aLibrary s)) (s\<lparr>aLibrary := aLibrary s @ [builder_build pl (length (aLibrary s)) b]\<rparr>)"
  by (simp add: c_wp_def build_c_def)

lemma creation_safe:
  fixes s :: "'w Api"
  assumes s: "api_ok s" "h \<noteq> nullptr" "aMemory s h = Some (ConfigurationCell c)" "configuration_usable c s"
  shows "c_wp (createDynatraceOpenKit pl h) (done_with KOpenKit) undefined_behaviour s"
proof -
  let ?R = "\<lambda>e s. \<not> caught e \<and> undefined_behaviour e s"
  have p: "q = nullptr \<or> (\<exists>t. aMemory s q = Some (TextCell t))" if "q \<in> set (configuration_pointers c)" for q
    by (rule pointer_text [OF s(1,3) _ that]) (auto simp: configuration_texts_def)
  have std: "(\<And>t. v = Some t \<Longrightarrow> Q t s) \<Longrightarrow> c_wp (std_string v) Q ?R s" for v and Q :: "string \<Rightarrow> 'w Api \<Rightarrow> bool"
    by (simp add: std_string_def caught_def undefined_behaviour_def split: option.split)
  have built: "c_wp (build_c pl b) (\<lambda>n. c_wp (createOpenKitHandle h n) (done_with KOpenKit) ?R) ?R s'"
    if "equipped h (configuration_texts c) u l s'" for b u l and s' :: "'w Api"
  proof -
    let ?s = "s'\<lparr>aLibrary := aLibrary s' @ [builder_build pl (length (aLibrary s')) b]\<rparr>"
    have "equipped h (configuration_texts c) u l ?s"
      using that api_library [of s' "aLibrary ?s"] by (auto simp: equipped_def)
    then have "c_wp (createOpenKitHandle h (length (aLibrary s'))) (done_with KOpenKit) undefined_behaviour ?s"
      by (rule handle_made [OF _ s(2)]) simp
    then have "c_wp (createOpenKitHandle h (length (aLibrary s'))) (done_with KOpenKit) ?R ?s"
      by (rule wp_mono) (auto simp: caught_def undefined_behaviour_def)
    then show ?thesis unfolding wp_build .
  qed
  have init: "c_wp (initializeOpenKitBuilder b h) (\<lambda>b. c_wp (build_c pl b) (\<lambda>n. c_wp (createOpenKitHandle h n) (done_with KOpenKit) ?R) ?R) ?R s" for b
    by (rule wp_mono [OF initialize_safe [OF s]]) (use built in blast)+
  show ?thesis
    unfolding createDynatraceOpenKit_def
  proof (rule wp_log_safe)
    have "chEndpointURL c \<in> set (configuration_pointers c)" "chApplicationID c \<in> set (configuration_pointers c)"
      by (simp_all add: configuration_pointers_def)
    then have "c_wp (text_at (chEndpointURL c)) (\<lambda>t. c_wp (std_string t) (\<lambda>u. c_wp (text_at (chApplicationID c)) (\<lambda>t. c_wp (std_string t) (\<lambda>a.
        c_wp (initializeOpenKitBuilder (DynatraceOpenKitBuilder (plVersion pl) (plCompany pl) u a (chDeviceID c)) h) (\<lambda>b.
        c_wp (build_c pl b) (\<lambda>n. c_wp (createOpenKitHandle h n) (done_with KOpenKit) ?R) ?R) ?R) ?R) ?R) ?R) ?R s"
      by (intro text_at_safe p std init)
    then show "c_wp (c_bind (load_configuration h) (\<lambda>c. c_bind (c_bind (text_at (chEndpointURL c)) std_string) (\<lambda>u.
        c_bind (c_bind (text_at (chApplicationID c)) std_string) (\<lambda>a.
        c_bind (initializeOpenKitBuilder (DynatraceOpenKitBuilder (plVersion pl) (plCompany pl) u a (chDeviceID c)) h) (\<lambda>b.
        c_bind (build_c pl b) (createOpenKitHandle h)))))) (done_with KOpenKit) ?R s"
      using s(2,3) by (simp add: load_configuration_def wp_cells wp_bind_return)
  qed
qed

end
