(* ===== verification/C_Http.thy ===== *)
theory C_Http
  imports C_Interface
begin

text \<open>
  What an interceptor of the application may ask of a request or a response through the C interface
  (src/api-c/OpenKit-c.cxx). The structure of C holds a pointer to the object; either may be null. Strings
  returned are those of the object; they end at the first null character.
\<close>

type_synonym OpenKitHttpRequest = "HttpRequest option option"
type_synonym OpenKitHttpResponse = "HttpResponse option option"

definition http_object :: "'o option option \<Rightarrow> 'o option" where
  "http_object p = (case p of Some (Some x) \<Rightarrow> Some x | _ \<Rightarrow> None)"

text \<open>An exception is ignored, and the value for it returned.\<close>

definition http_call :: "'o option option \<Rightarrow> 'a \<Rightarrow> ('o \<Rightarrow> ('w, 'a) c_op) \<Rightarrow> ('w, 'a) c_op" where
  "http_call p a m = (case http_object p of None \<Rightarrow> c_return a | Some x \<Rightarrow> CATCH_AND_IGNORE_ALL a (m x))"

definition thrown :: "cpp_exception + 'a \<Rightarrow> ('w, 'a) c_op" where
  "thrown r = (\<lambda>s. (map_sum Uncaught id r, s))"

subsection \<open>Requests\<close>

definition getOpenKitHttpRequestUri :: "OpenKitHttpRequest \<Rightarrow> ('w, string option) c_op" where
  "getOpenKitHttpRequestUri p = http_call p None (\<lambda>r. c_return (Some (mUri r)))"

definition getOpenKitHttpRequestMethod :: "OpenKitHttpRequest \<Rightarrow> ('w, string option) c_op" where
  "getOpenKitHttpRequestMethod p = http_call p None (\<lambda>r. c_return (Some (mMethod r)))"

definition getOpenKitHttpRequestHeaderNames :: "OpenKitHttpRequest \<Rightarrow> 'w Api \<Rightarrow> ((c_error + ptr) \<times> 'w Api) option" where
  "getOpenKitHttpRequestHeaderNames p s =
     (case http_object p of None \<Rightarrow> Some (Inr nullptr, s) | Some r \<Rightarrow> createFromCxxList (headers_getHeaderNames (mHeaders r)) s)"

definition containsOpenKitHttpRequestHeader :: "OpenKitHttpRequest \<Rightarrow> string option \<Rightarrow> ('w, bool) c_op" where
  "containsOpenKitHttpRequestHeader p name =
     http_call p False (\<lambda>r. c_bind (std_string name) (\<lambda>n. c_return (request_containsHeader n r)))"

definition getOpenKitHttpRequestHeader :: "OpenKitHttpRequest \<Rightarrow> string option \<Rightarrow> ('w, string option) c_op" where
  "getOpenKitHttpRequestHeader p name =
     http_call p None (\<lambda>r. c_bind (std_string name) (\<lambda>n. c_bind (thrown (request_getHeader n r)) (\<lambda>v. c_return (Some v))))"

text \<open>The result is the structure with the changed request.\<close>

definition setOpenKitHttpRequestHeader :: "OpenKitHttpRequest \<Rightarrow> string option \<Rightarrow> string option \<Rightarrow> ('w, OpenKitHttpRequest) c_op" where
  "setOpenKitHttpRequestHeader p name v =
     http_call p p (\<lambda>r. c_bind (std_string name) (\<lambda>n. c_bind (std_string v) (\<lambda>v. c_return (Some (Some (request_setHeader n v r))))))"

subsection \<open>Responses\<close>

definition getOpenKitHttpRequestUriFromResponse :: "OpenKitHttpResponse \<Rightarrow> ('w, string option) c_op" where
  "getOpenKitHttpRequestUriFromResponse p = http_call p None (\<lambda>r. c_return (Some (HttpResponse.mRequestUri r)))"

definition getOpenKitHttpRequestMethodFromResponse :: "OpenKitHttpResponse \<Rightarrow> ('w, string option) c_op" where
  "getOpenKitHttpRequestMethodFromResponse p = http_call p None (\<lambda>r. c_return (Some (HttpResponse.mRequestMethod r)))"

definition getOpenKitHttpResponseStatusCode :: "OpenKitHttpResponse \<Rightarrow> ('w, int32) c_op" where
  "getOpenKitHttpResponseStatusCode p = http_call p (-1) (\<lambda>r. c_return (HttpResponse.mStatusCode r))"

definition getOpenKitHttpResponseReasonPhrase :: "OpenKitHttpResponse \<Rightarrow> ('w, string option) c_op" where
  "getOpenKitHttpResponseReasonPhrase p = http_call p None (\<lambda>r. c_return (Some (HttpResponse.mReasonPhrase r)))"

definition getOpenKitHttpResponseHeaderNames :: "OpenKitHttpResponse \<Rightarrow> 'w Api \<Rightarrow> ((c_error + ptr) \<times> 'w Api) option" where
  "getOpenKitHttpResponseHeaderNames p s =
     (case http_object p of None \<Rightarrow> Some (Inr nullptr, s) | Some r \<Rightarrow> createFromCxxList (headers_getHeaderNames (HttpResponse.mResponseHeaders r)) s)"

definition containsOpenKitHttpResponseHeader :: "OpenKitHttpResponse \<Rightarrow> string option \<Rightarrow> ('w, bool) c_op" where
  "containsOpenKitHttpResponseHeader p name =
     http_call p False (\<lambda>r. c_bind (std_string name) (\<lambda>n. c_return (headers_contains n (HttpResponse.mResponseHeaders r))))"

text \<open>A null pointer as the name is undefined behaviour; the header of an exception is that of no header.\<close>

definition getOpenKitHttpResponseHeader ::
    "OpenKitHttpResponse \<Rightarrow> string option \<Rightarrow> 'w Api \<Rightarrow> ((c_error + ptr) \<times> 'w Api) option" where
  "getOpenKitHttpResponseHeader p name s =
     (case http_object p of
        None \<Rightarrow> Some (Inr nullptr, s)
      | Some r \<Rightarrow>
          (case std_string name s of
             (Inl e, s) \<Rightarrow> Some (Inl e, s)
           | (Inr headerName, s) \<Rightarrow>
               if headers_contains headerName (HttpResponse.mResponseHeaders r)
               then (case response_getHeader headerName r of Inl e \<Rightarrow> Some (Inr nullptr, s) | Inr values \<Rightarrow> createFromCxxList values s)
               else Some (Inr nullptr, s)))"

subsection \<open>Interceptors of the application\<close>

text \<open>
  The adapters (src/api-c/CustomHttpRequestInterceptor.cxx, CustomHttpResponseInterceptor.cxx) make the structure on
  the stack and call the function of the application, whose result is the structure when it returns.
\<close>

definition request_intercept :: "(OpenKitHttpRequest \<Rightarrow> ('w, OpenKitHttpRequest) c_op) \<Rightarrow> HttpRequest \<Rightarrow> ('w, HttpRequest) c_op" where
  "request_intercept mInterceptHttpRequestFunc httpRequest =
     c_bind (mInterceptHttpRequestFunc (Some (Some httpRequest)))
       (\<lambda>p. c_return (case http_object p of None \<Rightarrow> httpRequest | Some r \<Rightarrow> r))"

definition response_intercept :: "(OpenKitHttpResponse \<Rightarrow> ('w, unit) c_op) \<Rightarrow> HttpResponse \<Rightarrow> ('w, unit) c_op" where
  "response_intercept mInterceptHttpResponseFunc httpResponse = mInterceptHttpResponseFunc (Some (Some httpResponse))"

text \<open>An interceptor in C that sets a header sets it in the request that is sent.\<close>

lemma request_intercept_sets:
  "request_intercept (\<lambda>p. setOpenKitHttpRequestHeader p (Some n) (Some v)) r s = (Inr (request_setHeader n v r), s)"
  by (simp add: request_intercept_def setOpenKitHttpRequestHeader_def http_call_def http_object_def std_string_def
      CATCH_AND_IGNORE_ALL_def c_bind_def c_return_def)

end
