(* ===== verification/C_Facts.thy ===== *)
theory C_Facts
  imports C_Safety C_Http
begin

text \<open>
  What an application can rely on, and what it cannot: the calls of the C interface with the states they reach, and
  the errors of the interface.
\<close>

subsection \<open>Calls\<close>

datatype c_setting =
  UseDefaultLogLevel c_enum | UseLogger ptr | UseApplicationVersion "string option" | UseTrustMode c_enum ptr
| UseOperatingSystem "string option" | UseManufacturer "string option" | UseModelID "string option"
| UseBeaconCacheBehavior int64 int64 int64 | UseDataCollectionLevel c_enum | UseCrashReportingLevel c_enum
| UseHttpRequestInterceptor nat | UseHttpResponseInterceptor nat

datatype c_report =
  CEvent "string option" | CInt "string option" int32 | CInt64 "string option" int64 | CDouble "string option" string
| CString "string option" "string option" | CErrorCode "string option" int32
| CErrorCause "string option" "string option" "string option" "string option"

datatype c_session_report =
  CIdentifyUser "string option" | CCrash "string option" "string option" "string option" | CNetworkTechnology "string option"
| CCarrier "string option" | CConnectionType c_enum | CBizEvent "string option" "OpenKitPair list option" nat
| CSendEvent "string option" "OpenKitPair list option" nat

datatype c_tracer_call = CStart | CBytesSent int32 | CBytesSentLong int64 | CBytesReceived int32 | CBytesReceivedLong int64 | CGetTag

datatype c_call =
  CreateCustomTrustManager nat | DestroyTrustManager ptr | CreateLogger nat nat | DestroyLogger ptr
| CreateConfiguration "string option" "string option" int64
| CreateConfigurationWithStringDeviceID "string option" "string option" "string option"
| DestroyConfiguration ptr | Configure ptr c_setting
| CreateOpenKit ptr | ShutdownOpenKit ptr | WaitForInit ptr | WaitForInitTimeout ptr int64 | IsInitialized ptr
| CreateSession ptr "string option" | OnSession ptr c_session_report | EndSession ptr
| EnterRootAction ptr "string option" | OnRootAction ptr c_report | LeaveRootAction ptr | CancelRootAction ptr
| EnterAction ptr "string option" | OnAction ptr c_report | LeaveTheAction ptr | CancelTheAction ptr
| TraceOnSession ptr "string option" | TraceOnRootAction ptr "string option" | TraceOnAction ptr "string option"
| OnTracer ptr c_tracer_call | StopWebRequest ptr int32

fun c_configure :: "ptr \<Rightarrow> c_setting \<Rightarrow> ('w, unit) c_op" where
  "c_configure p (UseDefaultLogLevel l) = useDefaultLogLevelForConfiguration p l"
| "c_configure p (UseLogger g) = useLoggerForConfiguration p g"
| "c_configure p (UseApplicationVersion t) = useApplicationVersionForConfiguration p t"
| "c_configure p (UseTrustMode m t) = useTrustModeForConfiguration p m t"
| "c_configure p (UseOperatingSystem t) = useOperatingSystemForConfiguration p t"
| "c_configure p (UseManufacturer t) = useManufacturerForConfiguration p t"
| "c_configure p (UseModelID t) = useModelIDForConfiguration p t"
| "c_configure p (UseBeaconCacheBehavior a l u) = useBeaconCacheBehaviorForConfiguration p a l u"
| "c_configure p (UseDataCollectionLevel l) = useDataCollectionLevelForConfiguration p l"
| "c_configure p (UseCrashReportingLevel l) = useCrashReportingLevelForConfiguration p l"
| "c_configure p (UseHttpRequestInterceptor f) = useHttpRequestInterceptorForConfiguration p f"
| "c_configure p (UseHttpResponseInterceptor f) = useHttpResponseInterceptorForConfiguration p f"

fun c_on_root_action :: "ptr \<Rightarrow> c_report \<Rightarrow> ('w, unit) c_op" where
  "c_on_root_action p (CEvent t) = reportEventOnRootAction p t"
| "c_on_root_action p (CInt t v) = reportIntValueOnRootAction p t v"
| "c_on_root_action p (CInt64 t v) = reportInt64ValueOnRootAction p t v"
| "c_on_root_action p (CDouble t v) = reportDoubleValueOnRootAction p t v"
| "c_on_root_action p (CString t v) = reportStringValueOnRootAction p t v"
| "c_on_root_action p (CErrorCode t c) = reportErrorCodeOnRootAction p t c"
| "c_on_root_action p (CErrorCause t n d st) = reportErrorCauseOnRootAction p t n d st"

fun c_on_action :: "ptr \<Rightarrow> c_report \<Rightarrow> ('w, unit) c_op" where
  "c_on_action p (CEvent t) = reportEventOnAction p t"
| "c_on_action p (CInt t v) = reportIntValueOnAction p t v"
| "c_on_action p (CInt64 t v) = reportInt64ValueOnAction p t v"
| "c_on_action p (CDouble t v) = reportDoubleValueOnAction p t v"
| "c_on_action p (CString t v) = reportStringValueOnAction p t v"
| "c_on_action p (CErrorCode t c) = reportErrorCodeOnAction p t c"
| "c_on_action p (CErrorCause t n d st) = reportErrorCauseOnAction p t n d st"

fun c_on_session :: "'d double_ops \<Rightarrow> ptr \<Rightarrow> c_session_report \<Rightarrow> ('w, unit) c_op" where
  "c_on_session fp p (CIdentifyUser t) = identifyUser p t"
| "c_on_session fp p (CCrash n r st) = reportCrash p n r st"
| "c_on_session fp p (CNetworkTechnology t) = reportNetworkTechnology p t"
| "c_on_session fp p (CCarrier t) = reportCarrier p t"
| "c_on_session fp p (CConnectionType c) = reportConnectionType p c"
| "c_on_session fp p (CBizEvent t a n) = sendBizEvent_c fp p t a n"
| "c_on_session fp p (CSendEvent t a n) = sendEvent_c fp p t a n"

text \<open>A call returns the address of what it makes, and a null pointer where it makes nothing.\<close>

definition c_nothing :: "('w, 'a) c_op \<Rightarrow> ('w, ptr) c_op" where
  "c_nothing m = c_bind m (\<lambda>_. c_return nullptr)"

fun c_on_tracer :: "ptr \<Rightarrow> c_tracer_call \<Rightarrow> ('w, ptr) c_op" where
  "c_on_tracer p CStart = c_nothing (startWebRequest p)"
| "c_on_tracer p (CBytesSent n) = c_nothing (setBytesSent p n)"
| "c_on_tracer p (CBytesSentLong n) = c_nothing (setBytesSentLong p n)"
| "c_on_tracer p (CBytesReceived n) = c_nothing (setBytesReceived p n)"
| "c_on_tracer p (CBytesReceivedLong n) = c_nothing (setBytesReceivedLong p n)"
| "c_on_tracer p CGetTag = c_nothing (getTag p)"

fun c_perform :: "'w platform \<Rightarrow> 'd double_ops \<Rightarrow> c_call \<Rightarrow> ('w, ptr) c_op" where
  "c_perform pl fp (CreateCustomTrustManager f) = createCustomTrustManager f"
| "c_perform pl fp (DestroyTrustManager p) = c_nothing (destroyTrustManager p)"
| "c_perform pl fp (CreateLogger e f) = createLogger e f"
| "c_perform pl fp (DestroyLogger p) = c_nothing (destroyLogger p)"
| "c_perform pl fp (CreateConfiguration u a d) = createOpenKitConfiguration u a d"
| "c_perform pl fp (CreateConfigurationWithStringDeviceID u a d) = createOpenKitConfigurationWithStringDeviceID u a d"
| "c_perform pl fp (DestroyConfiguration p) = c_nothing (destroyOpenKitConfiguration p)"
| "c_perform pl fp (Configure p x) = c_nothing (c_configure p x)"
| "c_perform pl fp (CreateOpenKit p) = createDynatraceOpenKit pl p"
| "c_perform pl fp (ShutdownOpenKit p) = c_nothing (shutdownOpenKit p)"
| "c_perform pl fp (WaitForInit p) = c_nothing (waitForInitCompletion pl p)"
| "c_perform pl fp (WaitForInitTimeout p t) = c_nothing (waitForInitCompletionWithTimeout pl p t)"
| "c_perform pl fp (IsInitialized p) = c_nothing (isInitialized p)"
| "c_perform pl fp (CreateSession p ip) = createSession p ip"
| "c_perform pl fp (OnSession p x) = c_nothing (c_on_session fp p x)"
| "c_perform pl fp (EndSession p) = c_nothing (endSession p)"
| "c_perform pl fp (EnterRootAction p t) = enterRootAction p t"
| "c_perform pl fp (OnRootAction p x) = c_nothing (c_on_root_action p x)"
| "c_perform pl fp (LeaveRootAction p) = c_nothing (leaveRootAction p)"
| "c_perform pl fp (CancelRootAction p) = c_nothing (cancelRootAction p)"
| "c_perform pl fp (EnterAction p t) = enterAction p t"
| "c_perform pl fp (OnAction p x) = c_nothing (c_on_action p x)"
| "c_perform pl fp (LeaveTheAction p) = c_nothing (leaveAction_c p)"
| "c_perform pl fp (CancelTheAction p) = c_nothing (cancelAction_c p)"
| "c_perform pl fp (TraceOnSession p u) = traceWebRequestOnSession p u"
| "c_perform pl fp (TraceOnRootAction p u) = traceWebRequestOnRootAction p u"
| "c_perform pl fp (TraceOnAction p u) = traceWebRequestOnAction p u"
| "c_perform pl fp (OnTracer p x) = c_on_tracer p x"
| "c_perform pl fp (StopWebRequest p c) = c_nothing (stopWebRequestWithResponseCode p c)"

text \<open>The kind of what a call makes; \<open>None\<close> where it makes nothing.\<close>

fun c_makes :: "c_call \<Rightarrow> kind option" where
  "c_makes (CreateCustomTrustManager f) = Some KTrustManager"
| "c_makes (CreateLogger e f) = Some KLogger"
| "c_makes (CreateConfiguration u a d) = Some KConfiguration"
| "c_makes (CreateConfigurationWithStringDeviceID u a d) = Some KConfiguration"
| "c_makes (CreateOpenKit p) = Some KOpenKit"
| "c_makes (CreateSession p ip) = Some KSession"
| "c_makes (EnterRootAction p t) = Some KRootAction"
| "c_makes (EnterAction p t) = Some KAction"
| "c_makes (TraceOnSession p u) = Some KTracer"
| "c_makes (TraceOnRootAction p u) = Some KTracer"
| "c_makes (TraceOnAction p u) = Some KTracer"
| "c_makes x = None"

text \<open>
  What a call asks of the application: its handle is live and of the right type, or null; a trust manager or a logger
  that a library object owns is not destroyed; and a configuration is used for a library object only while its
  logger and trust manager live, and no more once it has given a default logger away.
\<close>

fun c_proper :: "c_call \<Rightarrow> 'w Api \<Rightarrow> bool" where
  "c_proper (DestroyTrustManager p) s \<longleftrightarrow> live_at KTrustManager p s \<and> unowned p (aMemory s)"
| "c_proper (DestroyLogger p) s \<longleftrightarrow> live_at KLogger p s \<and> unowned p (aMemory s)"
| "c_proper (DestroyConfiguration p) s \<longleftrightarrow> live_at KConfiguration p s"
| "c_proper (Configure p x) s \<longleftrightarrow> live_at KConfiguration p s"
| "c_proper (CreateOpenKit p) s \<longleftrightarrow> p \<noteq> nullptr \<and> (\<exists>c. aMemory s p = Some (ConfigurationCell c) \<and> configuration_usable c s)"
| "c_proper (ShutdownOpenKit p) s \<longleftrightarrow> live_at KOpenKit p s"
| "c_proper (WaitForInit p) s \<longleftrightarrow> live_at KOpenKit p s"
| "c_proper (WaitForInitTimeout p t) s \<longleftrightarrow> live_at KOpenKit p s"
| "c_proper (IsInitialized p) s \<longleftrightarrow> live_at KOpenKit p s"
| "c_proper (CreateSession p ip) s \<longleftrightarrow> live_at KOpenKit p s"
| "c_proper (OnSession p x) s \<longleftrightarrow> live_at KSession p s"
| "c_proper (EndSession p) s \<longleftrightarrow> live_at KSession p s"
| "c_proper (EnterRootAction p t) s \<longleftrightarrow> live_at KSession p s"
| "c_proper (TraceOnSession p u) s \<longleftrightarrow> live_at KSession p s"
| "c_proper (OnRootAction p y) s \<longleftrightarrow> live_at KRootAction p s"
| "c_proper (LeaveRootAction p) s \<longleftrightarrow> live_at KRootAction p s"
| "c_proper (CancelRootAction p) s \<longleftrightarrow> live_at KRootAction p s"
| "c_proper (EnterAction p t) s \<longleftrightarrow> live_at KRootAction p s"
| "c_proper (TraceOnRootAction p u) s \<longleftrightarrow> live_at KRootAction p s"
| "c_proper (OnAction p y) s \<longleftrightarrow> live_at KAction p s"
| "c_proper (LeaveTheAction p) s \<longleftrightarrow> live_at KAction p s"
| "c_proper (CancelTheAction p) s \<longleftrightarrow> live_at KAction p s"
| "c_proper (TraceOnAction p u) s \<longleftrightarrow> live_at KAction p s"
| "c_proper (OnTracer p z) s \<longleftrightarrow> live_at KTracer p s"
| "c_proper (StopWebRequest p n) s \<longleftrightarrow> live_at KTracer p s"
| "c_proper x s \<longleftrightarrow> True"

subsection \<open>Every proper call is safe\<close>

lemma wp_nothing: "c_wp (c_nothing m) Q R s = c_wp m (\<lambda>_. Q nullptr) R s"
  by (simp add: c_nothing_def wp_bind_return)

definition configurable :: "ptr \<Rightarrow> 'w Api \<Rightarrow> bool" where
  "configurable p s \<longleftrightarrow> api_ok s \<and> live_at KConfiguration p s"

lemma settings_safe:
  assumes s: "configurable p s" and f: "\<And>c. configuration_pointers (f c) = configuration_pointers c"
  shows "c_wp (configure_c p f) (\<lambda>_. configurable p) R s"
proof (cases "p = nullptr")
  case False
  obtain c where c: "aMemory s p = Some (ConfigurationCell c)"
    using s by (auto simp: configurable_def intro: configuration_cell [OF _ False])
  let ?s = "s\<lparr>aMemory := (aMemory s)(p \<mapsto> ConfigurationCell (f c))\<rparr>"
  have "configuration_texts (f c) = configuration_texts c" by (simp add: configuration_texts_def f)
  then have "api_ok ?s" using restored(1) [OF _ c] s by (simp add: configurable_def)
  moreover have "live_at KConfiguration p ?s" by (simp add: live_at_def)
  ultimately show ?thesis
    using False c by (simp add: configure_c_def load_configuration_def store_configuration_def wp_cells configurable_def)
qed (use s in \<open>simp add: configure_c_def\<close>)

lemma settings_if_safe:
  "configurable p s \<Longrightarrow> (\<And>c. configuration_pointers (f c) = configuration_pointers c) \<Longrightarrow>
    (\<And>s'. configurable p s' \<Longrightarrow> Q () s') \<Longrightarrow> c_wp (configure_if b p f) Q R s"
  unfolding configure_if_def using settings_safe [of p s f R] by (auto elim!: wp_mono)

lemma configure_safe:
  assumes s: "api_ok s" "live_at KConfiguration p s"
  shows "c_wp (c_configure p x) (\<lambda>_. api_ok) R s"
proof -
  have c: "configurable p s" using s by (simp add: configurable_def)
  have plain: "c_wp (configure_c p f) (\<lambda>_. api_ok) R s" if "\<And>c. configuration_pointers (f c) = configuration_pointers c" for f
    by (rule wp_mono [OF settings_safe [OF c that]]) (simp_all add: configurable_def)
  have fresh: "c_wp (configure_text p t f) (\<lambda>_. api_ok) R s"
    if "\<And>q c. configuration_pointers (f q c) = (configuration_pointers c)[i := q]" for t f i
    by (rule text_configured_safe [OF s that])
  have cache: "c_wp (useBeaconCacheBehaviorForConfiguration p a l u) (\<lambda>_. api_ok) R s" for a l u
    unfolding useBeaconCacheBehaviorForConfiguration_def wp_bind
    by (intro settings_if_safe; (rule c | assumption | simp add: configuration_pointers_def | simp add: configurable_def)?)
  show ?thesis
    by (cases x)
      (simp_all add: useDefaultLogLevelForConfiguration_def useLoggerForConfiguration_def useTrustModeForConfiguration_def
        useDataCollectionLevelForConfiguration_def useCrashReportingLevelForConfiguration_def configure_if_def s(1)
        useHttpRequestInterceptorForConfiguration_def useHttpResponseInterceptorForConfiguration_def cache
        useApplicationVersionForConfiguration_def useOperatingSystemForConfiguration_def useManufacturerForConfiguration_def
        useModelIDForConfiguration_def plain configuration_pointers_def fresh [where i = 2] fresh [where i = 3] fresh [where i = 4] fresh [where i = 5])
qed

lemma reports_safe:
  "api_ok s \<Longrightarrow> live_at KRootAction p s \<Longrightarrow> c_wp (c_on_root_action p x) (\<lambda>_. api_ok) undefined_behaviour s"
  "api_ok s \<Longrightarrow> live_at KAction p s \<Longrightarrow> c_wp (c_on_action p x) (\<lambda>_. api_ok) undefined_behaviour s"
  by (cases x; simp add: reportEventOnRootAction_def reportIntValueOnRootAction_def reportInt64ValueOnRootAction_def
      reportDoubleValueOnRootAction_def reportStringValueOnRootAction_def reportErrorCodeOnRootAction_def
      reportErrorCauseOnRootAction_def root_action_c_def root_action_handle.calling library_dispatch reportEventOnAction_def
      reportIntValueOnAction_def reportInt64ValueOnAction_def reportDoubleValueOnAction_def reportStringValueOnAction_def
      reportErrorCodeOnAction_def reportErrorCauseOnAction_def action_c_def action_handle.calling)+

lemma session_reports_safe:
  "api_ok s \<Longrightarrow> live_at KSession p s \<Longrightarrow> c_wp (c_on_session fp p x) (\<lambda>_. api_ok) undefined_behaviour s"
  by (cases x) (simp_all add: identifyUser_def reportCrash_def reportNetworkTechnology_def reportCarrier_def reportConnectionType_def
      session_c_def session_handle.calling library_dispatch sendBizEvent_c_def sendEvent_c_def event_safe)

lemma tracer_calls_safe:
  assumes s: "api_ok s" "live_at KTracer p s"
  shows "c_wp (c_on_tracer p x) (\<lambda>q s'. api_ok s' \<and> q = nullptr) undefined_behaviour s"
proof -
  have tag: "c_wp (getTag p) (\<lambda>_. api_ok) undefined_behaviour s"
    unfolding getTag_def by (rule tracer_handle.call [where Q = "\<lambda>_. api_ok", OF s s(1)]) (simp add: s(1))
  show ?thesis
    by (cases x) (simp_all add: wp_nothing tag startWebRequest_def setBytesSent_def setBytesSentLong_def setBytesReceived_def
        setBytesReceivedLong_def tracer_c_def tracer_handle.calling [OF s] library_dispatch)
qed

lemma ends_safe:
  "api_ok s \<Longrightarrow> live_at KSession p s \<Longrightarrow> c_wp (endSession p) (\<lambda>_. api_ok) undefined_behaviour s"
  "api_ok s \<Longrightarrow> live_at KRootAction p s \<Longrightarrow> c_wp (leaveRootAction p) (\<lambda>_. api_ok) undefined_behaviour s"
  "api_ok s \<Longrightarrow> live_at KRootAction p s \<Longrightarrow> c_wp (cancelRootAction p) (\<lambda>_. api_ok) undefined_behaviour s"
  "api_ok s \<Longrightarrow> live_at KAction p s \<Longrightarrow> c_wp (leaveAction_c p) (\<lambda>_. api_ok) undefined_behaviour s"
  "api_ok s \<Longrightarrow> live_at KAction p s \<Longrightarrow> c_wp (cancelAction_c p) (\<lambda>_. api_ok) undefined_behaviour s"
  "api_ok s \<Longrightarrow> live_at KTracer p s \<Longrightarrow> c_wp (stopWebRequestWithResponseCode p c) (\<lambda>_. api_ok) undefined_behaviour s"
  unfolding endSession_def leaveRootAction_def cancelRootAction_def leaveAction_c_def cancelAction_c_def
    stopWebRequestWithResponseCode_def releaseRootAction_def releaseAction_def
  by (simp_all add: session_handle.ending root_action_handle.ending action_handle.ending tracer_handle.ending library_dispatch)

lemma creations_safe:
  "api_ok s \<Longrightarrow> live_at KOpenKit p s \<Longrightarrow> c_wp (createSession p ip) (done_with KSession) undefined_behaviour s"
  "api_ok s \<Longrightarrow> live_at KSession p s \<Longrightarrow> c_wp (enterRootAction p t) (done_with KRootAction) undefined_behaviour s"
  "api_ok s \<Longrightarrow> live_at KRootAction p s \<Longrightarrow> c_wp (enterAction p t) (done_with KAction) undefined_behaviour s"
  "api_ok s \<Longrightarrow> live_at KSession p s \<Longrightarrow> c_wp (traceWebRequestOnSession p u) (done_with KTracer) undefined_behaviour s"
  "api_ok s \<Longrightarrow> live_at KRootAction p s \<Longrightarrow> c_wp (traceWebRequestOnRootAction p u) (done_with KTracer) undefined_behaviour s"
  "api_ok s \<Longrightarrow> live_at KAction p s \<Longrightarrow> c_wp (traceWebRequestOnAction p u) (done_with KTracer) undefined_behaviour s"
  unfolding createSession_def enterRootAction_def enterAction_def traceWebRequestOnSession_def traceWebRequestOnRootAction_def
    traceWebRequestOnAction_def
  by (erule (1) openkit_handle.creating session_handle.creating root_action_handle.creating action_handle.creating;
      (rule owned.simps library_create library_enter library_enter_action library_trace library_trace_action
        session_handle.object_handle_axioms root_action_handle.object_handle_axioms action_handle.object_handle_axioms
        tracer_handle.object_handle_axioms; assumption?))+

definition c_outcome :: "c_call \<Rightarrow> ptr \<Rightarrow> 'w Api \<Rightarrow> bool" where
  "c_outcome x p s \<longleftrightarrow> (case c_makes x of None \<Rightarrow> p = nullptr | Some k \<Rightarrow> live_at k p s)"

lemma outcome_done: "c_makes x = Some k \<Longrightarrow> c_wp m (done_with k) R s \<Longrightarrow> c_wp m (\<lambda>p s'. api_ok s' \<and> c_outcome x p s') R s"
  by (erule wp_mono) (simp_all add: done_with_def c_outcome_def)

lemma outcome_nothing: "c_makes x = None \<Longrightarrow> c_wp m (\<lambda>_. api_ok) R s \<Longrightarrow> c_wp (c_nothing m) (\<lambda>p s'. api_ok s' \<and> c_outcome x p s') R s"
  unfolding wp_nothing by (erule wp_mono) (simp_all add: c_outcome_def)

lemma waits_safe:
  assumes "api_ok s" "live_at KOpenKit p s"
  shows "c_wp (waitForInitCompletion pl p) (\<lambda>_. api_ok) undefined_behaviour s"
    and "c_wp (waitForInitCompletionWithTimeout pl p t) (\<lambda>_. api_ok) undefined_behaviour s"
    and "c_wp (isInitialized p) (\<lambda>_. api_ok) undefined_behaviour s"
proof -
  show "c_wp (waitForInitCompletion pl p) (\<lambda>_. api_ok) undefined_behaviour s" "c_wp (isInitialized p) (\<lambda>_. api_ok) undefined_behaviour s"
    unfolding waitForInitCompletion_def isInitialized_def
    by (rule openkit_handle.calling [OF assms library_instance])+
  have "c_wp (call_c openkit_of OpenKitCell p () (\<lambda>n. c_bind (on_library (on_instance n (on_sender (waitForInit pl (Some t))))) (\<lambda>_. c_return ())))
      (\<lambda>_. api_ok) undefined_behaviour s"
  proof (rule openkit_handle.call [where Q = "\<lambda>_. api_ok", OF assms assms(1)])
    fix n
    have e: "fst (on_instance n (on_sender (waitForInit pl (Some t))) (aLibrary s)) \<noteq> Inl e" for e
      by (simp add: on_instance_def on_sender_def waitForInit_def Let_def split_beta)
    obtain r ks where r: "on_instance n (on_sender (waitForInit pl (Some t))) (aLibrary s) = (r, ks)" by fastforce
    have "length ks = length (aLibrary s)"
      using library_instance [of n "on_sender (waitForInit pl (Some t))", unfolded library_call_def, rule_format, of "aLibrary s"] r by simp
    then show "c_wp (c_bind (on_library (on_instance n (on_sender (waitForInit pl (Some t))))) (\<lambda>_. c_return ())) (\<lambda>_. api_ok)
        (\<lambda>e s'. if caught e then log_only s s' \<and> (\<forall>s''. log_only s' s'' \<longrightarrow> api_ok s'') else undefined_behaviour e s') s"
      using r e assms(1) by (cases r) (auto simp: wp_bind_return intro: api_library)
  qed
  then show "c_wp (waitForInitCompletionWithTimeout pl p t) (\<lambda>_. api_ok) undefined_behaviour s"
    by (simp add: waitForInitCompletionWithTimeout_def wp_bind_return)
qed

lemma logger_made_safe: "api_ok s \<Longrightarrow> c_wp (createLogger e f) (done_with KLogger) R s"
  by (simp add: createLogger_def made_safe done_with_def live_at_def)

lemma perform_safe:
  assumes s: "api_ok s" and p: "c_proper x s"
  shows "c_wp (c_perform pl fp x) (\<lambda>p s'. api_ok s' \<and> c_outcome x p s') undefined_behaviour s"
proof (cases x)
  case (OnTracer p y)
  then show ?thesis using tracer_calls_safe [OF s, of p y] p by (auto simp: c_outcome_def elim!: wp_mono)
next
  case (DestroyTrustManager q)
  then show ?thesis using destroyed_safe [OF s, of q "destroyTrustManager q"] p by (simp add: outcome_nothing)
next
  case (DestroyLogger q)
  then show ?thesis using destroyed_safe [OF s, of q "destroyLogger q"] p by (simp add: outcome_nothing)
next
  case (CreateOpenKit q)
  then show ?thesis using creation_safe [OF s, of q] p by (auto intro: outcome_done)
next
  case (CreateCustomTrustManager f)
  then show ?thesis by (auto intro!: outcome_done made_safe s simp: createCustomTrustManager_def)
qed (use s p in \<open>simp_all add: outcome_nothing configuration_destroyed configure_safe shutdown_safe waits_safe
    reports_safe session_reports_safe ends_safe outcome_done creations_safe logger_made_safe created_safe
    createOpenKitConfiguration_def createOpenKitConfigurationWithStringDeviceID_def\<close>)

text \<open>
  The states of the interface: nothing at first, then proper calls that return, and between them whatever other threads do
  to the library objects.
\<close>

inductive c_reached :: "'w platform \<Rightarrow> 'd double_ops \<Rightarrow> 'w Api \<Rightarrow> bool" for pl fp where
  start: "c_reached pl fp \<lparr>aMemory = Map.empty, aNext = 1, aLibrary = [], aLog = []\<rparr>"
| called: "c_reached pl fp s \<Longrightarrow> c_proper x s \<Longrightarrow> c_perform pl fp x s = (Inr p, s') \<Longrightarrow> c_reached pl fp s'"
| others: "c_reached pl fp s \<Longrightarrow> length ks = length (aLibrary s) \<Longrightarrow> c_reached pl fp (s\<lparr>aLibrary := ks\<rparr>)"

lemma c_reached_ok: "c_reached pl fp s \<Longrightarrow> api_ok s"
proof (induction rule: c_reached.induct)
  case start
  show ?case by (simp add: api_ok_def memory_ok_def cells_ok_def)
next
  case (called s x p s')
  show ?case using perform_safe [OF called.IH called.hyps(2), of pl fp] called.hyps(3) by (simp add: c_wp_def)
qed (simp add: api_library)

subsection \<open>What the application can rely on\<close>



text \<open>C26: The end of a library object frees its handle and the trust manager and the logger it owns, and nothing else.\<close>

theorem shutdown_frees:
  assumes "c_reached pl fp s" "aMemory s p = Some (OpenKitCell h)" "hSharedPointer h = Some n"
    and "on_instance n OpenKit_shutdown (aLibrary s) = (Inr (), ks)"
  shows "shutdownOpenKit p s = (Inr (), s\<lparr>aLibrary := ks, aMemory := aMemory s |` (- insert p (owns (OpenKitCell h)))\<rparr>)"
proof -
  have s: "api_ok s" by (rule c_reached_ok [OF assms(1)])
  have p: "p \<noteq> nullptr" using api_cell [OF s assms(2)] by blast
  let ?s = "s\<lparr>aLibrary := ks\<rparr>"
  have "length ks = length (aLibrary s)"
    using library_instance [of n OpenKit_shutdown, unfolded library_call_def, rule_format, of "aLibrary s"] assms(4) by simp
  then have ok: "api_ok ?s" using s by (simp add: api_library)
  have "c_wp (shutdownOpenKit p) (\<lambda>_ s'. s' = ?s\<lparr>aMemory := aMemory s |` (- insert p (owns (OpenKitCell h)))\<rparr>) (\<lambda>_ _. False) s"
    using p assms(2,3,4) handle_destroyed_run [OF ok _ p, of h]
    by (simp add: shutdownOpenKit_def call_c_def wp_log shared_pointer_def openkit.wp_load wp_bind_return)
  then show ?thesis by (auto simp: c_wp_def split: prod.splits sum.splits)
qed

definition logged_call :: "ILogger \<Rightarrow> ('w library, unit) cpp_op \<Rightarrow> ('w, unit) c_op" where
  "logged_call g m = (\<lambda>s. case m (aLibrary s) of
     (Inr u, ks) \<Rightarrow> (Inr (), s\<lparr>aLibrary := ks\<rparr>)
   | (Inl (UndefinedBehaviour t), ks) \<Rightarrow> (Inl (Uncaught (UndefinedBehaviour t)), s\<lparr>aLibrary := ks\<rparr>)
   | (Inl e, ks) \<Rightarrow> (Inr (), s\<lparr>aLibrary := ks, aLog := aLog s @ (if logger_writes LOG_LEVEL_ERROR g then [(g, LOG_LEVEL_ERROR, exception_text e)] else [])\<rparr>))"

lemma session_call_logged:
  assumes "p \<noteq> nullptr" "aMemory s p = Some (SessionCell h)" "hSharedPointer h = Some (SessionObject n q)" "hLogger h = Some g"
  shows "session_c p m s = logged_call g (on_instance n (on_sender (m q))) s"
proof -
  have l: "shared_pointer session_of SessionCell p s = (Inr (SessionObject n q), s)"
    using session.load_valid [OF assms(1,2)] assms(3) by (simp add: shared_pointer_def c_bind_def)
  obtain r ks where r: "on_instance n (on_sender (m q)) (aLibrary s) = (r, ks)" by fastforce
  have g: "handle_logger session_of SessionCell p (s\<lparr>aLibrary := ks\<rparr>) = (Inr (Some (Some g)), s\<lparr>aLibrary := ks\<rparr>)"
    using session.load_valid [OF assms(1), of "s\<lparr>aLibrary := ks\<rparr>" h] assms by (simp add: handle_logger_def c_bind_def)
  have c: "session_c p m s = CATCH_AND_LOG (handle_logger session_of SessionCell p) () (on_library (on_instance n (on_sender (m q)))) s"
    using assms(1) l by (simp add: session_c_def call_c_def CATCH_AND_LOG_def c_bind_def session_dispatch_def)
  show ?thesis
  proof (cases r)
    case (Inl e)
    then show ?thesis using r g unfolding c
      by (cases e) (simp_all add: CATCH_AND_LOG_def on_library_def logged_call_def caught_def c_bind_def log_message_def c_modify_def)
  next
    case (Inr u)
    then show ?thesis using r unfolding c by (simp add: CATCH_AND_LOG_def on_library_def logged_call_def)
  qed
qed

text \<open>C25: A report on a live session handle calls the session; an exception of it does not reach the application, it
  is handed to the logger of the handle, where that writes errors.\<close>

theorem session_calls_logged:
  assumes "p \<noteq> nullptr" "aMemory s p = Some (SessionCell h)" "hSharedPointer h = Some (SessionObject n q)" "hLogger h = Some g"
  shows "identifyUser p tag s = logged_call g (on_instance n (on_sender (proxy_identifyUser tag q))) s \<and>
    reportCrash p name reason trace s = logged_call g (on_instance n (on_sender (proxy_reportCrash name reason trace q))) s \<and>
    reportNetworkTechnology p tech s = logged_call g (on_instance n (on_sender (proxy_reportNetworkTechnology tech q))) s \<and>
    reportCarrier p carrier s = logged_call g (on_instance n (on_sender (proxy_reportCarrier carrier q))) s \<and>
    reportConnectionType p ct s = logged_call g (on_instance n (on_sender (proxy_reportConnectionType (toCppConnectionType ct) q))) s"
  unfolding identifyUser_def reportCrash_def reportNetworkTechnology_def reportCarrier_def reportConnectionType_def
  by (intro conjI session_call_logged [OF assms])

lemma session_calls_logged_witness:
  "\<forall>ks :: unit library. let s = \<lparr>aMemory = [1 \<mapsto> SessionCell \<lparr>hSharedPointer = Some (SessionObject 0 0), hLogger = Some (DefaultLogger LOG_LEVEL_WARN)\<rparr>],
       aNext = 2, aLibrary = ks, aLog = []\<rparr>
     in identifyUser 1 None s = logged_call (DefaultLogger LOG_LEVEL_WARN) (on_instance 0 (on_sender (proxy_identifyUser None 0))) s"
  unfolding Let_def
  by (intro allI) (rule session_calls_logged [THEN conjunct1], simp, simp, simp, simp)

subsection \<open>What the application cannot rely on\<close>

lemma std_run [simp]: "c_wp (std_string (Some t)) Q R s = Q t s"
  by (simp add: std_string_def)

lemma text_run: "aMemory s p = Some (TextCell t) \<Longrightarrow> p \<noteq> nullptr \<Longrightarrow> c_wp (text_at p) Q R s = Q (Some t) s" "c_wp (text_at nullptr) Q R s = Q None s"
  by (simp_all add: text_at_def load_text_def wp_cells)

lemma new_run:
  assumes "memory_ok s" "u \<noteq> []" "a \<noteq> []"
  shows "c_wp (createOpenKitConfiguration (Some u) (Some a) d) Q R s =
    Q (aNext s) (s\<lparr>aNext := aNext s + 4, aMemory := (aMemory s)(aNext s \<mapsto> ConfigurationCell (OpenKitConfigurationHandle_new
      \<lparr>chEndpointURL := aNext s + 1, chApplicationID := aNext s + 2, chDeviceID := d, chOrigDeviceID := aNext s + 3\<rparr>),
      aNext s + 1 \<mapsto> TextCell u, aNext s + 2 \<mapsto> TextCell a, aNext s + 3 \<mapsto> TextCell (show_int (sint d)))\<rparr>)"
  using assms by (simp add: createOpenKitConfiguration_def createOpenKitConfigurationWithOrigAndHashedDeviceId_def wp_duplicate
    store_configuration_def wp_cells memory_ok_def fun_upd_twist numeral_eq_Suc)

lemma fresh_shutdown: "fst (OpenKit_shutdown (builder_build pl n b)) = Inr ()"
  by (simp add: OpenKit_shutdown_def builder_build_def OpenKit_initialize_def OpenKit_new_def Sender_new_def Kit_new_def on_sender_def
    openkit_shutdown_def op_bind_def op_modify_def op_return_def Kit.defs)

lemma fresh_instance_shutdown: "n < length ks \<Longrightarrow> ks ! n = builder_build pl m b \<Longrightarrow> on_instance n OpenKit_shutdown ks = (Inr (), ks[n := snd (OpenKit_shutdown (builder_build pl m b))])"
  by (simp add: on_instance_def Let_def split_beta fresh_shutdown)

lemma call_run: "p \<noteq> nullptr \<Longrightarrow> aMemory s p = Some (OpenKitCell h) \<Longrightarrow> hSharedPointer h = Some n \<Longrightarrow>
  c_wp (call_c openkit_of OpenKitCell p a m) Q R s = c_wp (CATCH_AND_LOG (handle_logger openkit_of OpenKitCell p) a (m n)) Q R s"
  using openkit.load_valid [of p s h] by (simp add: call_c_def shared_pointer_def c_wp_def CATCH_AND_LOG_def c_bind_def)

text \<open>C27: A configuration without a logger gives its default logger to the first library object made of it, and gives it
  again to the second: when both have been shut down, the logger has been destroyed twice.\<close>

theorem default_logger_destroyed_twice:
  assumes "memory_ok s" "endpointURL \<noteq> []" "applicationID \<noteq> []"
  shows "fst (c_bind (createOpenKitConfiguration (Some endpointURL) (Some applicationID) deviceID) (\<lambda>c.
     c_bind (createDynatraceOpenKit pl c) (\<lambda>k. c_bind (createDynatraceOpenKit pl c) (\<lambda>k'.
     c_bind (shutdownOpenKit k) (\<lambda>_. shutdownOpenKit k')))) s) = Inl FreedMemory"
    (is "fst (?m s) = _")
proof -
  have e: "STRICT_TRUST \<noteq> BLIND_TRUST" "STRICT_TRUST \<noteq> CUSTOM_TRUST" by (simp_all add: STRICT_TRUST_def BLIND_TRUST_def CUSTOM_TRUST_def)
  have f: "c_wp (store logger_of LoggerCell p g) Q R s = R FreedMemory s" if "p \<noteq> nullptr" "aMemory s p = None"
    for p g Q R and s :: "'a Api" using that by (simp add: c_wp_def store_def c_bind_def load_def)
  have n: "0 < aNext s" using assms(1) by (simp add: memory_ok_def)
  have "c_wp ?m (\<lambda>_ _. False) (\<lambda>e _. e = FreedMemory) s"
    using n assms(2,3)
    by (simp add: new_run [OF assms] createDynatraceOpenKit_def wp_log load_configuration_def wp_cells text_run wp_bind_return
      initializeOpenKitBuilder_def createTrustManagerHandle_def e createStrictTrustManager_def wp_ignore store_configuration_def
      getLoggerHandle_def createDefaultLogger_def load_logger_def load_trust_manager_def wp_build createOpenKitHandle_def
      OpenKitConfigurationHandle_new_def numeral_eq_Suc shutdownOpenKit_def call_run fresh_instance_shutdown nth_append list_update_append
      load_openkit_def store_openkit_def destroyTrustManager_def destroyLogger_def wp_free f caught_def)
  then show ?thesis by (auto simp: c_wp_def split: prod.splits sum.splits)
qed

lemma default_logger_destroyed_twice_witness:
  "\<forall>pl :: unit platform. fst (c_bind (createOpenKitConfiguration (Some ''https://a'') (Some ''b'') 1) (\<lambda>c.
     c_bind (createDynatraceOpenKit pl c) (\<lambda>k. c_bind (createDynatraceOpenKit pl c) (\<lambda>k'.
     c_bind (shutdownOpenKit k) (\<lambda>_. shutdownOpenKit k')))) \<lparr>aMemory = Map.empty, aNext = 1, aLibrary = [], aLog = []\<rparr>) = Inl FreedMemory"
  by (intro allI default_logger_destroyed_twice) (simp_all add: memory_ok_def)

text \<open>A configuration that is destroyed leaves the text of its device id in memory, where no pointer leads to it.\<close>

theorem configuration_leaks:
  assumes "memory_ok s" "endpointURL \<noteq> []" "applicationID \<noteq> []"
  shows "\<exists>q s'. c_bind (createOpenKitConfiguration (Some endpointURL) (Some applicationID) deviceID) destroyOpenKitConfiguration s = (Inr (), s') \<and>
     aMemory s q = None \<and> aMemory s' = (aMemory s)(q \<mapsto> TextCell (show_int (sint deviceID)))"
    (is "\<exists>q s'. ?m s = _ \<and> _")
proof -
  have n: "0 < aNext s" "\<And>p. aNext s \<le> p \<Longrightarrow> aMemory s p = None" using assms(1) by (simp_all add: memory_ok_def)
  let ?m' = "(aMemory s)(Suc (Suc (Suc (aNext s))) \<mapsto> TextCell (show_int (sint deviceID)))"
  have "(aMemory s)(aNext s := None) = aMemory s" "(aMemory s)(Suc (aNext s) := None) = aMemory s"
    "(aMemory s)(Suc (Suc (aNext s)) := None) = aMemory s" using n(2) by auto
  then have "c_wp ?m (\<lambda>_ s'. aMemory s' = ?m') (\<lambda>_ _. False) s"
    using n by (simp add: new_run [OF assms] destroyOpenKitConfiguration_def load_configuration_def wp_cells FREE_DUPLICATED_STRING_def
      OpenKitConfigurationHandle_new_def wp_free numeral_eq_Suc fun_upd_twist wp_bind_return)
  then have "fst (?m s) = Inr () \<and> aMemory (snd (?m s)) = ?m'" by (auto simp: c_wp_def split: prod.splits sum.splits)
  then show ?thesis using n(2) by (intro exI [of _ "Suc (Suc (Suc (aNext s)))"] exI [of _ "snd (?m s)"]) (simp add: prod_eq_iff)
qed

lemma configuration_leaks_witness:
  "\<exists>q s'. c_bind (createOpenKitConfiguration (Some ''https://a'') (Some ''b'') 1) destroyOpenKitConfiguration
     (\<lparr>aMemory = Map.empty, aNext = 1, aLibrary = [], aLog = []\<rparr> :: unit Api) = (Inr (), s') \<and> aMemory s' = [q \<mapsto> TextCell (show_int 1)]"
  using configuration_leaks [of "\<lparr>aMemory = Map.empty, aNext = 1, aLibrary = [], aLog = []\<rparr> :: unit Api" "''https://a''" "''b''" 1]
  by (auto simp: memory_ok_def)

lemma shutdown_frees_witness:
  "\<forall>(pl :: unit platform) (fp :: unit double_ops). \<exists>s k h ks. aMemory s k = Some (OpenKitCell h) \<and> c_reached pl fp s \<and>
     shutdownOpenKit k s = (Inr (), s\<lparr>aLibrary := ks, aMemory := aMemory s |` (- insert k (owns (OpenKitCell h)))\<rparr>)"
proof (intro allI)
  fix pl :: "unit platform" and fp :: "unit double_ops"
  define i :: "unit Api" where "i = \<lparr>aMemory = Map.empty, aNext = 1, aLibrary = [], aLog = []\<rparr>"
  have i: "aNext i = Suc 0" "aLibrary i = []" "c_reached pl fp i" using c_reached.start by (simp_all add: i_def)
  let ?P = "\<lambda>k s. \<exists>h b. k \<noteq> nullptr \<and> aMemory s k = Some (OpenKitCell h) \<and> hSharedPointer h = Some 0 \<and> aLibrary s = [builder_build pl 0 b]"
  let ?c = "OpenKitConfigurationHandle_new\<lparr>chEndpointURL := 2, chApplicationID := 3, chDeviceID := 1, chOrigDeviceID := 4\<rparr>"
  have z: "memory_ok i" by (simp add: memory_ok_def i_def)
  have e: "STRICT_TRUST \<noteq> BLIND_TRUST" "STRICT_TRUST \<noteq> CUSTOM_TRUST" by (simp_all add: STRICT_TRUST_def BLIND_TRUST_def CUSTOM_TRUST_def)
  have "c_wp (createOpenKitConfiguration (Some ''https://a'') (Some ''b'') 1) (\<lambda>c s. c = 1 \<and> aMemory s 1 = Some (ConfigurationCell ?c) \<and>
      c_wp (createDynatraceOpenKit pl 1) ?P (\<lambda>_ _. False) s) (\<lambda>_ _. False) i"
    by (simp add: new_run [OF z] i  createDynatraceOpenKit_def wp_log load_configuration_def wp_cells text_run wp_bind_return
      initializeOpenKitBuilder_def createTrustManagerHandle_def e createStrictTrustManager_def wp_ignore store_configuration_def
      getLoggerHandle_def createDefaultLogger_def load_logger_def load_trust_manager_def wp_build createOpenKitHandle_def
      OpenKitConfigurationHandle_new_def numeral_eq_Suc) blast
  then obtain s1 s2 k where r: "createOpenKitConfiguration (Some ''https://a'') (Some ''b'') 1 i = (Inr 1, s1)"
      "aMemory s1 1 = Some (ConfigurationCell ?c)" "createDynatraceOpenKit pl 1 s1 = (Inr k, s2)" and k: "?P k s2"
    by (auto simp: c_wp_def split: prod.splits sum.splits)
  have 1: "c_reached pl fp s1"
    by (rule c_reached.called [OF i(3), of "CreateConfiguration (Some ''https://a'') (Some ''b'') 1"]) (use r(1) in simp_all)
  have "configuration_usable ?c s1"
    by (simp add: configuration_usable_def live_at_def OpenKitConfigurationHandle_new_def e)
  then have 2: "c_reached pl fp s2"
    using r(2,3) by (intro c_reached.called [OF 1, of "CreateOpenKit 1" k]) simp_all
  obtain h b where h: "aMemory s2 k = Some (OpenKitCell h)" "hSharedPointer h = Some 0" "aLibrary s2 = [builder_build pl 0 b]"
    using k by blast
  have "on_instance 0 OpenKit_shutdown (aLibrary s2) = (Inr (), (aLibrary s2)[0 := snd (OpenKit_shutdown (builder_build pl 0 b))])"
    by (rule fresh_instance_shutdown) (simp_all add: h(3))
  from shutdown_frees [OF 2 h(1,2) this] h(1) 2
  show "\<exists>s k h ks. aMemory s k = Some (OpenKitCell h) \<and> c_reached pl fp s \<and>
     shutdownOpenKit k s = (Inr (), s\<lparr>aLibrary := ks, aMemory := aMemory s |` (- insert k (owns (OpenKitCell h)))\<rparr>)" by blast
qed

end
