(* ===== verification/Monitors.thy ===== *)
theory Monitors
  imports Prelude
begin

text \<open>
  The classes over a mutex and a condition variable (src/core/util/CountDownLatch.cxx,
  InterruptibleThreadSuspender.cxx, ThreadSurrogate.cxx, CyclicBarrier.cxx), for any number of threads. What a
  thread does between taking the mutex and releasing it, or waiting on the condition variable, is one section; the
  sections of the threads follow one another in any order, the clock runs on, and a waiting thread may wake at any
  time, because it was notified, because its time is over, or without any cause, as C++ allows. The locale
  \<open>condition_loop\<close> holds what the loops around the waits rely on and proves that no wakeup is lost.
\<close>

subsection \<open>Threads and monitors\<close>

text \<open>
  A thread is outside, before a section \<open>c\<close>, waits to go on with \<open>c\<close>, or has left its call with a result. A section
  computes the new value, the result or how to go on after the wait, and whether it notifies all.
\<close>

datatype ('c, 'r) place = Outside | Ready 'c | Waits 'c | Done 'r

record ('v, 'c, 'r) monitor =
  mValue :: 'v
  mNow :: int
  mPlace :: "nat \<Rightarrow> ('c, 'r) place"

type_synonym ('v, 'c, 'r) section_of = "'c \<Rightarrow> int \<Rightarrow> 'v \<Rightarrow> 'v \<times> ('c + 'r) \<times> bool"

datatype 'q event = Enter nat 'q | Run nat | Wake nat | Time int

definition Monitor_new :: "'v \<Rightarrow> int \<Rightarrow> ('v, 'c, 'r) monitor" where
  "Monitor_new v n = \<lparr>mValue = v, mNow = n, mPlace = (\<lambda>_. Outside)\<rparr>"

definition notify_all :: "(nat \<Rightarrow> ('c, 'r) place) \<Rightarrow> nat \<Rightarrow> ('c, 'r) place" where
  "notify_all p t = (case p t of Waits c \<Rightarrow> Ready c | q \<Rightarrow> q)"

definition in_call :: "('c, 'r) place \<Rightarrow> bool" where
  "in_call q = (case q of Ready c \<Rightarrow> True | Waits c \<Rightarrow> True | _ \<Rightarrow> False)"

text \<open>What an event does, or nothing where it cannot happen. A call begins as \<open>entry\<close> says, at the time of the clock.\<close>

fun monitor_step :: "('v, 'c, 'r) section_of \<Rightarrow> ('q \<Rightarrow> int \<Rightarrow> 'c) \<Rightarrow> 'q event \<Rightarrow> ('v, 'c, 'r) monitor \<Rightarrow> ('v, 'c, 'r) monitor option" where
  "monitor_step sec entry (Enter t q) m =
     (if in_call (mPlace m t) then None else Some (m\<lparr>mPlace := (mPlace m)(t := Ready (entry q (mNow m)))\<rparr>))"
| "monitor_step sec entry (Run t) m =
     (case mPlace m t of
        Ready c \<Rightarrow>
          (let (v, go_on, notifies) = sec c (mNow m) (mValue m);
               p = (if notifies then notify_all (mPlace m) else mPlace m)
           in Some (m\<lparr>mValue := v, mPlace := p(t := (case go_on of Inl c' \<Rightarrow> Waits c' | Inr r \<Rightarrow> Done r))\<rparr>))
      | _ \<Rightarrow> None)"
| "monitor_step sec entry (Wake t) m =
     (case mPlace m t of Waits c \<Rightarrow> Some (m\<lparr>mPlace := (mPlace m)(t := Ready c)\<rparr>) | _ \<Rightarrow> None)"
| "monitor_step sec entry (Time n) m = (if mNow m \<le> n then Some (m\<lparr>mNow := n\<rparr>) else None)"

fun monitor_run :: "('v, 'c, 'r) section_of \<Rightarrow> ('q \<Rightarrow> int \<Rightarrow> 'c) \<Rightarrow> 'q event list \<Rightarrow> ('v, 'c, 'r) monitor \<Rightarrow> ('v, 'c, 'r) monitor option" where
  "monitor_run sec entry [] m = Some m"
| "monitor_run sec entry (e # es) m = (case monitor_step sec entry e m of None \<Rightarrow> None | Some m' \<Rightarrow> monitor_run sec entry es m')"

lemma monitor_run_append:
  "monitor_run sec entry (es @ fs) m = (case monitor_run sec entry es m of None \<Rightarrow> None | Some m' \<Rightarrow> monitor_run sec entry fs m')"
  by (induction es arbitrary: m) (auto split: option.split)

lemma monitor_run_invariant:
  assumes run: "monitor_run sec entry es m = Some m'" and m: "P m"
    and step: "\<And>e m m'. e \<in> set es \<Longrightarrow> P m \<Longrightarrow> monitor_step sec entry e m = Some m' \<Longrightarrow> P m'"
  shows "P m'"
  using run m step
proof (induction es arbitrary: m)
  case Nil
  then show ?case by simp
next
  case (Cons e es)
  from Cons.prems(1) obtain m1 where m1: "monitor_step sec entry e m = Some m1" "monitor_run sec entry es m1 = Some m'"
    unfolding monitor_run.simps by (auto split: option.splits)
  have "P m1" by (rule Cons.prems(3) [OF _ Cons.prems(2) m1(1)]) simp
  then show ?case by (rule Cons.IH [OF m1(2)]) (rule Cons.prems(3), simp_all)
qed

lemma run_cases:
  assumes "monitor_step sec entry (Run t) m = Some m'"
  obtains c v go_on notifies where "mPlace m t = Ready c" "sec c (mNow m) (mValue m) = (v, go_on, notifies)"
    "m' = m\<lparr>mValue := v, mPlace := (if notifies then notify_all (mPlace m) else mPlace m)
       (t := (case go_on of Inl c' \<Rightarrow> Waits c' | Inr r \<Rightarrow> Done r))\<rparr>"
proof (cases "mPlace m t")
  case (Ready c)
  obtain v g w where r: "sec c (mNow m) (mValue m) = (v, g, w)" by (rule prod_cases3)
  then show thesis using assms Ready by (intro that [OF Ready r]) simp
qed (use assms in simp_all)

lemma notified_not_waiting [simp]: "notify_all p t \<noteq> Waits c"
  by (simp add: notify_all_def split: place.split)

subsection \<open>Loops around a wait\<close>

text \<open>
  A thread waits only while it is blocked, and a section after which a blocked thread is no longer blocked notifies.
\<close>

locale condition_loop =
  fixes sec :: "('v, 'c, 'r) section_of" and entry :: "'q \<Rightarrow> int \<Rightarrow> 'c" and blocked :: "'c \<Rightarrow> 'v \<Rightarrow> bool"
  assumes waits: "sec c n v = (v', Inl c', w) \<Longrightarrow> blocked c' v'"
    and notifies: "sec c n v = (v', go_on, False) \<Longrightarrow> blocked d v \<Longrightarrow> blocked d v'"
    and passes: "\<not> blocked c v \<Longrightarrow> \<exists>r w. sec c n v = (v, Inr r, w)"
begin

definition waiters_blocked :: "('v, 'c, 'r) monitor \<Rightarrow> bool" where
  "waiters_blocked m \<longleftrightarrow> (\<forall>t c. mPlace m t = Waits c \<longrightarrow> blocked c (mValue m))"

lemma blocked_step:
  assumes m: "waiters_blocked m" and s: "monitor_step sec entry e m = Some m'"
  shows "waiters_blocked m'"
proof (cases e)
  case (Run t)
  obtain c v g w where r: "sec c (mNow m) (mValue m) = (v, g, w)"
    "m' = m\<lparr>mValue := v, mPlace := (if w then notify_all (mPlace m) else mPlace m)(t := (case g of Inl c' \<Rightarrow> Waits c' | Inr r \<Rightarrow> Done r))\<rparr>"
    by (rule run_cases [OF s [unfolded Run]])
  have "blocked d v" if d: "mPlace m' u = Waits d" for u d
  proof (cases "u = t")
    case True
    then obtain c' where "g = Inl c'" "d = c'" using d r(2) by (auto split: sum.splits)
    then show ?thesis using waits r(1) by simp
  next
    case False
    then have "\<not> w \<and> mPlace m u = Waits d" using d r(2) by (simp split: if_splits)
    then show ?thesis using m notifies [of c "mNow m" "mValue m" v g d] r(1) by (auto simp: waiters_blocked_def)
  qed
  then show ?thesis using r(2) by (simp add: waiters_blocked_def)
qed (use m s in \<open>auto simp: waiters_blocked_def split: if_splits place.splits\<close>)

lemma no_wakeup_lost:
  assumes "monitor_run sec entry es (Monitor_new v n) = Some m" "mPlace m t = Waits c"
  shows "blocked c (mValue m)"
proof -
  have "waiters_blocked (Monitor_new v n :: ('v, 'c, 'r) monitor)" by (simp add: waiters_blocked_def Monitor_new_def)
  then have "waiters_blocked m" by (rule monitor_run_invariant [OF assms(1)]) (rule blocked_step)
  then show ?thesis using assms(2) by (simp add: waiters_blocked_def)
qed

text \<open>A section that never waits is never waited at.\<close>

lemma never_waits:
  assumes c: "\<And>d n v. fst (snd (sec d n v)) \<noteq> Inl c" and run: "monitor_run sec entry es (Monitor_new v n) = Some m"
  shows "mPlace m t \<noteq> Waits c"
proof -
  have "\<forall>t. mPlace m t \<noteq> Waits c"
  proof (rule monitor_run_invariant [where P = "\<lambda>m. \<forall>t. mPlace m t \<noteq> Waits c", OF run])
    fix e m m' assume m: "\<forall>t. mPlace m t \<noteq> Waits c" and s: "monitor_step sec entry e m = Some m'"
    show "\<forall>t. mPlace m' t \<noteq> Waits c"
    proof (cases e)
      case (Run t)
      show ?thesis
      proof (rule run_cases [OF s [unfolded Run]])
        fix b v g w assume "sec b (mNow m) (mValue m) = (v, g, w)"
          "m' = m\<lparr>mValue := v, mPlace := (if w then notify_all (mPlace m) else mPlace m)(t := (case g of Inl c' \<Rightarrow> Waits c' | Inr r \<Rightarrow> Done r))\<rparr>"
        then show ?thesis using m c [of b "mNow m" "mValue m"] by (auto split: sum.split)
      qed
    qed (use m s in \<open>auto split: if_splits place.splits\<close>)
  qed (simp add: Monitor_new_def)
  then show ?thesis by simp
qed

text \<open>A thread that is not blocked is not waiting, and leaves its call with the next section it runs.\<close>

lemma unblocked_leaves:
  assumes "monitor_run sec entry es (Monitor_new v n) = Some m" and "mPlace m t \<in> {Ready c, Waits c}" and "\<not> blocked c (mValue m)"
  shows "\<exists>m' r. monitor_step sec entry (Run t) m = Some m' \<and> mPlace m' t = Done r \<and> mValue m' = mValue m"
proof -
  have "mPlace m t = Ready c" using assms no_wakeup_lost [OF assms(1)] by auto
  moreover obtain r w where "sec c (mNow m) (mValue m) = (mValue m, Inr r, w)" using passes [OF assms(3)] by blast
  ultimately show ?thesis by simp
qed

end

subsection \<open>The latch\<close>

datatype latch_point = CountDown | Await "int option"

datatype latch_call = CallCountDown | CallAwait | CallAwaitFor int64

text \<open>\<open>entry\<close> computes the time until which \<open>await\<close> waits, before the mutex is taken. Times are
  integers of milliseconds; that a limit centuries ahead overflows the clock of the platform is left out.\<close>

fun latch_entry :: "latch_call \<Rightarrow> int \<Rightarrow> latch_point" where
  "latch_entry CallCountDown now = CountDown"
| "latch_entry CallAwait now = Await None"
| "latch_entry (CallAwaitFor milliseconds) now = Await (Some (now + sint milliseconds))"

definition countDown :: "32 word \<Rightarrow> 32 word \<times> (latch_point + unit) \<times> bool" where
  "countDown mCount = (let mCount = mCount - 1 in (mCount, Inr (), mCount = 0))"

definition latch_await :: "int option \<Rightarrow> int \<Rightarrow> 32 word \<Rightarrow> 32 word \<times> (latch_point + unit) \<times> bool" where
  "latch_await waitUntil now mCount =
     (if mCount > 0 \<and> (case waitUntil of None \<Rightarrow> True | Some t \<Rightarrow> now < t) then (mCount, Inl (Await waitUntil), False)
      else (mCount, Inr (), False))"

fun latch_section :: "(32 word, latch_point, unit) section_of" where
  "latch_section CountDown now mCount = countDown mCount"
| "latch_section (Await waitUntil) now mCount = latch_await waitUntil now mCount"

fun latch_blocked :: "latch_point \<Rightarrow> 32 word \<Rightarrow> bool" where
  "latch_blocked CountDown mCount = True"
| "latch_blocked (Await waitUntil) mCount = (mCount > 0)"

interpretation latch: condition_loop latch_section latch_entry latch_blocked
proof
  show "latch_blocked c' v'" if "latch_section c n v = (v', Inl c', w)" for c n v v' c' w
    using that by (cases c) (auto simp: countDown_def latch_await_def Let_def split: if_splits)
  show "latch_blocked d v'" if "latch_section c n v = (v', g, False)" "latch_blocked d v" for c n v v' g d
    using that by (cases c; cases d) (auto simp: countDown_def latch_await_def Let_def word_gt_0 split: if_splits)
  show "\<exists>r w. latch_section c n v = (v, Inr r, w)" if "\<not> latch_blocked c v" for c n v
    using that by (cases c) (auto simp: latch_await_def)
qed

text \<open>A thread that waits without a limit leaves only when the count is zero.\<close>

lemma await_left:
  assumes "mPlace m t = Ready (Await None)" "monitor_step latch_section latch_entry (Run t) m = Some m'" "mPlace m' t = Done r"
  shows "mValue m = 0"
  using assms by (auto simp: latch_await_def word_gt_0 split: if_splits)

lemma latch_opens:
  assumes "monitor_run latch_section latch_entry es (Monitor_new v n) = Some m" and "mPlace m t \<in> {Ready (Await d), Waits (Await d)}"
    and "mValue m = 0"
  shows "\<exists>m' r. monitor_step latch_section latch_entry (Run t) m = Some m' \<and> mPlace m' t = Done r \<and> mValue m' = 0"
  using latch.unblocked_leaves [OF assms(1,2)] assms(3) by simp

subsection \<open>The suspender of a thread\<close>

datatype suspender_point = SleepUntil int | Wakeup

datatype suspender_call = CallSleep int64 | CallWakeup

fun suspender_entry :: "suspender_call \<Rightarrow> int \<Rightarrow> suspender_point" where
  "suspender_entry (CallSleep millis) now = SleepUntil (now + sint millis)"
| "suspender_entry CallWakeup now = Wakeup"

definition suspender_sleep :: "int \<Rightarrow> int \<Rightarrow> bool \<Rightarrow> bool \<times> (suspender_point + unit) \<times> bool" where
  "suspender_sleep waitUntil now mSignaled =
     (if \<not> mSignaled \<and> now < waitUntil then (mSignaled, Inl (SleepUntil waitUntil), False) else (mSignaled, Inr (), False))"

definition suspender_wakeup :: "bool \<Rightarrow> bool \<times> (suspender_point + unit) \<times> bool" where
  "suspender_wakeup mSignaled = (True, Inr (), True)"

fun suspender_section :: "(bool, suspender_point, unit) section_of" where
  "suspender_section (SleepUntil waitUntil) now mSignaled = suspender_sleep waitUntil now mSignaled"
| "suspender_section Wakeup now mSignaled = suspender_wakeup mSignaled"

fun suspender_blocked :: "suspender_point \<Rightarrow> bool \<Rightarrow> bool" where
  "suspender_blocked (SleepUntil waitUntil) mSignaled = (\<not> mSignaled)"
| "suspender_blocked Wakeup mSignaled = True"

interpretation suspender: condition_loop suspender_section suspender_entry suspender_blocked
proof
  show "suspender_blocked c' v'" if "suspender_section c n v = (v', Inl c', w)" for c n v v' c' w
    using that by (cases c) (auto simp: suspender_sleep_def suspender_wakeup_def split: if_splits)
  show "suspender_blocked d v'" if "suspender_section c n v = (v', g, False)" "suspender_blocked d v" for c n v v' g d
    using that by (cases c; cases d) (auto simp: suspender_sleep_def suspender_wakeup_def split: if_splits)
  show "\<exists>r w. suspender_section c n v = (v, Inr r, w)" if "\<not> suspender_blocked c v" for c n v
    using that by (cases c) (auto simp: suspender_sleep_def)
qed

text \<open>A suspender that was woken stays so: there is no way back to sleep.\<close>

lemma signal_stays:
  assumes "mValue m" and "monitor_step suspender_section suspender_entry e m = Some m'"
  shows "mValue m'"
proof (cases e)
  case (Run t)
  show ?thesis
  proof (rule run_cases [OF assms(2) [unfolded Run]])
    fix c v g w assume "suspender_section c (mNow m) (mValue m) = (v, g, w)"
      "m' = m\<lparr>mValue := v, mPlace := (if w then notify_all (mPlace m) else mPlace m)
         (t := (case g of Inl c' \<Rightarrow> Waits c' | Inr r \<Rightarrow> Done r))\<rparr>"
    then show "mValue m'" using assms(1) by (cases c) (auto simp: suspender_sleep_def suspender_wakeup_def)
  qed
qed (use assms in \<open>auto split: if_splits place.splits\<close>)

lemma suspender_no_wakeup_wait: "fst (snd (suspender_section d n v)) \<noteq> Inl Wakeup"
  by (cases d) (simp_all add: suspender_sleep_def suspender_wakeup_def)

text \<open>C36: A sleep is ended by \<open>wakeup\<close>. Whatever the threads have done before, in any order, with the clock and with
  wakeups without a cause: once a thread has called \<open>wakeup\<close>, no thread waits in \<open>sleep\<close>, a thread in a call leaves it
  with the next section it runs, and so it stays for every later call; no notification is lost.\<close>

theorem wakeup_ends_sleep:
  assumes "monitor_run suspender_section suspender_entry es (Monitor_new False n) = Some m" and "mValue m"
    and "monitor_run suspender_section suspender_entry later m = Some m'"
  shows "mValue m' \<and> (\<forall>t. (\<exists>c. mPlace m' t = Ready c) \<or> mPlace m' t = Outside \<or> mPlace m' t = Done ()) \<and>
    (\<forall>t c. mPlace m' t = Ready c \<longrightarrow>
      (\<exists>m''. monitor_step suspender_section suspender_entry (Run t) m' = Some m'' \<and> mPlace m'' t = Done ()))"
proof -
  have run: "monitor_run suspender_section suspender_entry (es @ later) (Monitor_new False n) = Some m'"
    using assms(1,3) by (simp add: monitor_run_append)
  have v: "mValue m'" by (rule monitor_run_invariant [where P = mValue, OF assms(3,2)]) (rule signal_stays)
  have w: "\<not> mPlace m' t = Waits c" for t c
  proof
    assume t: "mPlace m' t = Waits c"
    then have "suspender_blocked c (mValue m')" by (rule suspender.no_wakeup_lost [OF run])
    then have "c = Wakeup" using v by (cases c) simp_all
    then show False using suspender.never_waits [OF suspender_no_wakeup_wait run] t by simp
  qed
  have "\<exists>m''. monitor_step suspender_section suspender_entry (Run t) m' = Some m'' \<and> mPlace m'' t = Done ()"
    if "mPlace m' t = Ready c" for t c
    using that v by (cases c) (simp_all add: suspender_sleep_def suspender_wakeup_def)
  then show ?thesis using v w by (metis (full_types) place.exhaust unit.exhaust)
qed

lemma wakeup_ends_sleep_witness:
  "\<exists>m m''. monitor_run suspender_section suspender_entry [Enter 0 (CallSleep 5), Run 0, Enter 1 CallWakeup, Run 1] (Monitor_new False 0) = Some m \<and>
     monitor_step suspender_section suspender_entry (Run 0) m = Some m'' \<and> mPlace m'' 0 = Done ()"
proof -
  obtain m where m: "monitor_run suspender_section suspender_entry [Enter 0 (CallSleep 5), Run 0, Enter 1 CallWakeup, Run 1] (Monitor_new False 0) = Some m"
    "mValue m" "mPlace m 0 = Ready (SleepUntil 5)"
    by (simp add: Monitor_new_def in_call_def suspender_sleep_def suspender_wakeup_def notify_all_def)
  have "monitor_run suspender_section suspender_entry [] m = Some m" by simp
  from wakeup_ends_sleep [OF m(1,2) this] m(3)
  obtain m'' where "monitor_step suspender_section suspender_entry (Run 0) m = Some m''" "mPlace m'' 0 = Done ()" by blast
  then show ?thesis using m(1) by blast
qed

subsection \<open>Threads\<close>

record ThreadSurrogate =
  mThread :: bool
  mIsThreadStopped :: bool

text \<open>
  The surrogate of a thread knows whether one was started and whether its function has returned. \<open>Exit\<close> is the end of
  \<^verbatim>\<open>threadWrapperFunction\<close>. \<open>join\<close> computes its limit after it has taken the mutex. A result is what the call returns.
\<close>

datatype thread_point = Start | Join int64 | JoinUntil int | IsStarted | IsAlive | Exit

definition ThreadSurrogate_new :: ThreadSurrogate where
  "ThreadSurrogate_new = \<lparr>mThread = False, mIsThreadStopped = False\<rparr>"

definition thread_start :: "ThreadSurrogate \<Rightarrow> ThreadSurrogate \<times> (thread_point + bool) \<times> bool" where
  "thread_start v = (if mThread v then (v, Inr False, False) else (v\<lparr>mThread := True\<rparr>, Inr True, False))"

definition thread_join_loop :: "int \<Rightarrow> int \<Rightarrow> ThreadSurrogate \<Rightarrow> ThreadSurrogate \<times> (thread_point + bool) \<times> bool" where
  "thread_join_loop waitUntil now v =
     (if \<not> mIsThreadStopped v \<and> now < waitUntil then (v, Inl (JoinUntil waitUntil), False) else (v, Inr (mIsThreadStopped v), False))"

definition thread_join :: "int64 \<Rightarrow> int \<Rightarrow> ThreadSurrogate \<Rightarrow> ThreadSurrogate \<times> (thread_point + bool) \<times> bool" where
  "thread_join waitTimeInMillis now v =
     (if \<not> mThread v then (v, Inr True, False) else thread_join_loop (now + sint waitTimeInMillis) now v)"

definition isStarted :: "ThreadSurrogate \<Rightarrow> bool" where
  "isStarted v \<longleftrightarrow> mThread v"

definition isAlive :: "ThreadSurrogate \<Rightarrow> bool" where
  "isAlive v \<longleftrightarrow> mThread v \<and> \<not> mIsThreadStopped v"

definition threadWrapperFunction :: "ThreadSurrogate \<Rightarrow> ThreadSurrogate \<times> (thread_point + bool) \<times> bool" where
  "threadWrapperFunction v = (v\<lparr>mIsThreadStopped := True\<rparr>, Inr True, True)"

fun thread_section :: "(ThreadSurrogate, thread_point, bool) section_of" where
  "thread_section Start now v = thread_start v"
| "thread_section (Join waitTimeInMillis) now v = thread_join waitTimeInMillis now v"
| "thread_section (JoinUntil waitUntil) now v = thread_join_loop waitUntil now v"
| "thread_section IsStarted now v = (v, Inr (isStarted v), False)"
| "thread_section IsAlive now v = (v, Inr (isAlive v), False)"
| "thread_section Exit now v = threadWrapperFunction v"

fun thread_blocked :: "thread_point \<Rightarrow> ThreadSurrogate \<Rightarrow> bool" where
  "thread_blocked (Join waitTimeInMillis) v = (\<not> mIsThreadStopped v)"
| "thread_blocked (JoinUntil waitUntil) v = (\<not> mIsThreadStopped v)"
| "thread_blocked _ v = True"

interpretation surrogate: condition_loop thread_section "\<lambda>c now. c" thread_blocked
proof
  note defs = thread_start_def thread_join_def thread_join_loop_def threadWrapperFunction_def
  show "thread_blocked c' v'" if "thread_section c n v = (v', Inl c', w)" for c n v v' c' w
    using that by (cases c) (auto simp: defs split: if_splits)
  show "thread_blocked d v'" if "thread_section c n v = (v', g, False)" "thread_blocked d v" for c n v v' g d
    using that by (cases c; cases d) (auto simp: defs split: if_splits)
  show "\<exists>r w. thread_section c n v = (v, Inr r, w)" if "\<not> thread_blocked c v" for c n v
    using that by (cases c) (auto simp: defs)
qed

subsection \<open>The barrier\<close>

record CyclicBarrier =
  mNumThreads :: "32 word"
  mWaits :: "32 word"

datatype barrier_point = Arrive | Pass

definition CyclicBarrier_new :: "32 word \<Rightarrow> CyclicBarrier" where
  "CyclicBarrier_new numThreads = \<lparr>mNumThreads = numThreads, mWaits = 0\<rparr>"

definition barrier_await :: "CyclicBarrier \<Rightarrow> CyclicBarrier \<times> (barrier_point + unit) \<times> bool" where
  "barrier_await v =
     (let v = v\<lparr>mWaits := mWaits v + 1\<rparr>
      in if mWaits v < mNumThreads v then (v, Inl Pass, False) else (v\<lparr>mWaits := 0\<rparr>, Inr (), True))"

fun barrier_section :: "(CyclicBarrier, barrier_point, unit) section_of" where
  "barrier_section Arrive now v = barrier_await v"
| "barrier_section Pass now v = (v, Inr (), False)"

definition barrier_entry :: "unit \<Rightarrow> int \<Rightarrow> barrier_point" where
  "barrier_entry u now = Arrive"

text \<open>
  As long as no thread wakes without being notified, the count is the number of the threads that wait; so the thread
  that passes the barrier without waiting finds all the others there.
\<close>

definition at_barrier :: "(CyclicBarrier, barrier_point, unit) monitor \<Rightarrow> nat set" where
  "at_barrier m = {t. mPlace m t = Waits Pass}"

definition barrier_ok :: "32 word \<Rightarrow> (CyclicBarrier, barrier_point, unit) monitor \<Rightarrow> bool" where
  "barrier_ok n m \<longleftrightarrow> mNumThreads (mValue m) = n \<and> finite (at_barrier m) \<and> card (at_barrier m) = unat (mWaits (mValue m)) \<and>
     (mWaits (mValue m) = 0 \<or> mWaits (mValue m) < n) \<and> (\<forall>t. mPlace m t \<noteq> Waits Arrive)"

lemma barrier_count:
  assumes "w = 0 \<or> w < n" and "w + 1 < (n :: 32 word)"
  shows "unat (w + 1) = Suc (unat w)"
proof -
  have "unat w + 1 < 2 ^ 32" using assms unsigned_less [of n, where 'a = nat] by (auto simp: word_less_nat_alt)
  then show ?thesis by (simp add: unat_word_ariths)
qed

lemma barrier_run:
  assumes m: "barrier_ok n m" and s: "monitor_step barrier_section barrier_entry (Run t) m = Some m'"
  shows "barrier_ok n m'"
proof (rule run_cases [OF s])
  fix c v g w assume c: "mPlace m t = Ready c" "barrier_section c (mNow m) (mValue m) = (v, g, w)"
    and m': "m' = m\<lparr>mValue := v, mPlace := (if w then notify_all (mPlace m) else mPlace m)
       (t := (case g of Inl c' \<Rightarrow> Waits c' | Inr r \<Rightarrow> Done r))\<rparr>"
  have t: "t \<notin> at_barrier m" using c(1) by (simp add: at_barrier_def)
  show "barrier_ok n m'"
  proof (cases c)
    case Pass
    then have "at_barrier m' = at_barrier m" "mValue m' = mValue m" using c m' t by (auto simp: at_barrier_def)
    moreover have "\<forall>u. mPlace m' u \<noteq> Waits Arrive" using m m' c(2) Pass by (auto simp: barrier_ok_def)
    ultimately show ?thesis using m by (simp add: barrier_ok_def)
  next
    case Arrive
    show ?thesis
    proof (cases "mWaits (mValue m) + 1 < n")
      case True
      then have "at_barrier m' = insert t (at_barrier m)" "mValue m' = (mValue m)\<lparr>mWaits := mWaits (mValue m) + 1\<rparr>"
        "\<forall>u. mPlace m' u \<noteq> Waits Arrive"
        using m c(2) Arrive m' by (auto simp: barrier_await_def Let_def barrier_ok_def at_barrier_def)
      then show ?thesis using m t True barrier_count [of "mWaits (mValue m)" n] by (simp add: barrier_ok_def)
    next
      case False
      then have "at_barrier m' = {}" "mValue m' = (mValue m)\<lparr>mWaits := 0\<rparr>" "\<forall>u. mPlace m' u \<noteq> Waits Arrive"
        using m c(2) Arrive m' by (auto simp: barrier_await_def Let_def barrier_ok_def at_barrier_def)
      then show ?thesis using m by (simp add: barrier_ok_def)
    qed
  qed
qed

lemma barrier_step:
  assumes "barrier_ok n m" and "monitor_step barrier_section barrier_entry e m = Some m'" and "\<And>t. e \<noteq> Wake t"
  shows "barrier_ok n m'"
proof (cases e)
  case (Enter t q)
  then have m': "mPlace m t \<noteq> Waits Pass" "m' = m\<lparr>mPlace := (mPlace m)(t := Ready (barrier_entry q (mNow m)))\<rparr>"
    using assms(2) by (auto simp: in_call_def split: if_splits)
  then have "at_barrier m' = at_barrier m" by (auto simp: at_barrier_def)
  then show ?thesis using assms(1) m' by (simp add: barrier_ok_def)
next
  case (Run t)
  show ?thesis by (rule barrier_run [OF assms(1) assms(2) [unfolded Run]])
next
  case (Wake t)
  then show ?thesis using assms(3) by simp
next
  case (Time k)
  then have m': "m' = m\<lparr>mNow := k\<rparr>" using assms(2) by (simp split: if_splits)
  then have "at_barrier m' = at_barrier m" by (simp add: at_barrier_def)
  then show ?thesis using assms(1) m' by (simp add: barrier_ok_def)
qed

lemma barrier_opens_for_all:
  assumes r: "monitor_run barrier_section barrier_entry es (Monitor_new (CyclicBarrier_new n) now) = Some m" "\<forall>t. Wake t \<notin> set es"
    and t: "mPlace m t = Ready Arrive" "monitor_step barrier_section barrier_entry (Run t) m = Some m'" "mPlace m' t = Done ()"
  shows "unat n \<le> card (at_barrier m) + 1 \<and> (\<forall>u\<in>at_barrier m. mPlace m' u = Ready Pass)"
proof -
  have "barrier_ok n (Monitor_new (CyclicBarrier_new n) now)"
    by (simp add: barrier_ok_def Monitor_new_def CyclicBarrier_new_def at_barrier_def)
  then have ok: "barrier_ok n m"
  proof (rule monitor_run_invariant [OF r(1)])
    show "barrier_ok n m1" if "e \<in> set es" "barrier_ok n m" "monitor_step barrier_section barrier_entry e m = Some m1" for e m m1
      using barrier_step [OF that(2,3)] that(1) r(2) by metis
  qed
  let ?w = "mWaits (mValue m)"
  have le: "\<not> ?w + 1 < n" using t ok by (auto simp: barrier_await_def Let_def barrier_ok_def split: if_splits)
  have "unat (?w + 1) \<le> unat ?w + 1" by (simp add: unat_word_ariths)
  then have "unat n \<le> card (at_barrier m) + 1" using le ok by (simp add: barrier_ok_def word_less_nat_alt)
  moreover have "t \<notin> at_barrier m" using t(1) by (simp add: at_barrier_def)
  ultimately show ?thesis
    using t le ok by (auto simp: barrier_await_def Let_def barrier_ok_def at_barrier_def notify_all_def)
qed

text \<open>
  The wait of the barrier is in no loop: a thread that wakes without a cause passes alone, where two are needed.
\<close>

lemma barrier_passed_alone:
  "\<exists>m. monitor_run barrier_section barrier_entry [Enter 0 (), Run 0, Wake 0, Run 0] (Monitor_new (CyclicBarrier_new 2) 0) = Some m \<and>
     mPlace m 0 = Done () \<and> (\<forall>t\<noteq>0. mPlace m t = Outside) \<and> mWaits (mValue m) = 1"
  by (simp add: Monitor_new_def CyclicBarrier_new_def barrier_entry_def barrier_await_def Let_def in_call_def)

end
