(* ===== verification/Scoped_Locks.thy ===== *)
theory Scoped_Locks
  imports Prelude
begin

text \<open>
  The lock for readers and writers and the scopes that hold it (src/core/util/ReadWriteLock.h, ScopedReadLock.h,
  ScopedWriteLock.h), which guard the map of the beacon cache. The lock is that of POSIX threads: any number of
  readers or one writer hold it. An operation that has to wait has no value until it can go on; the codes of error,
  which the class ignores, are left out. The locale \<open>scope_class\<close> is the contract of the two classes of scopes.
\<close>

subsection \<open>The lock\<close>

record ReadWriteLock =
  rwReaders :: nat
  rwWriter :: bool

definition ReadWriteLock_new :: ReadWriteLock where
  "ReadWriteLock_new = \<lparr>rwReaders = 0, rwWriter = False\<rparr>"

definition ReadLock :: "ReadWriteLock \<Rightarrow> ReadWriteLock option" where
  "ReadLock l = (if rwWriter l then None else Some (l\<lparr>rwReaders := rwReaders l + 1\<rparr>))"

definition WriteLock :: "ReadWriteLock \<Rightarrow> ReadWriteLock option" where
  "WriteLock l = (if rwWriter l \<or> rwReaders l > 0 then None else Some (l\<lparr>rwWriter := True\<rparr>))"

text \<open>Both give back the lock in the way it is held.\<close>

definition rwlock_unlock :: "ReadWriteLock \<Rightarrow> ReadWriteLock" where
  "rwlock_unlock l = (if rwWriter l then l\<lparr>rwWriter := False\<rparr> else l\<lparr>rwReaders := rwReaders l - 1\<rparr>)"

definition ReadUnlock :: "ReadWriteLock \<Rightarrow> ReadWriteLock" where
  "ReadUnlock l = rwlock_unlock l"

definition WriteUnlock :: "ReadWriteLock \<Rightarrow> ReadWriteLock" where
  "WriteUnlock l = rwlock_unlock l"

subsection \<open>Scopes\<close>

text \<open>The state of a scope is \<^verbatim>\<open>mOwns\<close>.\<close>

definition ScopedReadLock_new :: "ReadWriteLock \<Rightarrow> (bool \<times> ReadWriteLock) option" where
  "ScopedReadLock_new l = (case ReadLock l of None \<Rightarrow> None | Some l' \<Rightarrow> Some (True, l'))"

definition ScopedReadLock_delete :: "bool \<Rightarrow> ReadWriteLock \<Rightarrow> ReadWriteLock" where
  "ScopedReadLock_delete mOwns l = (if mOwns then ReadUnlock l else l)"

definition ScopedReadLock_lock :: "bool \<Rightarrow> ReadWriteLock \<Rightarrow> (bool \<times> ReadWriteLock) option" where
  "ScopedReadLock_lock mOwns l =
     (if \<not> mOwns then (case ReadLock l of None \<Rightarrow> None | Some l' \<Rightarrow> Some (True, l')) else Some (mOwns, l))"

definition ScopedReadLock_unlock :: "bool \<Rightarrow> ReadWriteLock \<Rightarrow> bool \<times> ReadWriteLock" where
  "ScopedReadLock_unlock mOwns l = (if mOwns then (False, ReadUnlock l) else (mOwns, l))"

definition ScopedWriteLock_new :: "ReadWriteLock \<Rightarrow> (bool \<times> ReadWriteLock) option" where
  "ScopedWriteLock_new l = (case WriteLock l of None \<Rightarrow> None | Some l' \<Rightarrow> Some (True, l'))"

definition ScopedWriteLock_delete :: "bool \<Rightarrow> ReadWriteLock \<Rightarrow> ReadWriteLock" where
  "ScopedWriteLock_delete mOwns l = (if mOwns then WriteUnlock l else l)"

definition ScopedWriteLock_lock :: "bool \<Rightarrow> ReadWriteLock \<Rightarrow> (bool \<times> ReadWriteLock) option" where
  "ScopedWriteLock_lock mOwns l =
     (if \<not> mOwns then (case WriteLock l of None \<Rightarrow> None | Some l' \<Rightarrow> Some (True, l')) else Some (mOwns, l))"

definition ScopedWriteLock_unlock :: "bool \<Rightarrow> ReadWriteLock \<Rightarrow> bool \<times> ReadWriteLock" where
  "ScopedWriteLock_unlock mOwns l = (if mOwns then (False, WriteUnlock l) else (mOwns, l))"

text \<open>
  The contract: what acquires the lock is given back by what releases it. Then a scope leaves the lock as it found
  it, whatever calls of \<open>lock\<close> and \<open>unlock\<close> lie between its begin and its end.
\<close>

locale scope_class =
  fixes make :: "'l \<Rightarrow> (bool \<times> 'l) option" and delete :: "bool \<Rightarrow> 'l \<Rightarrow> 'l"
    and acquire :: "bool \<Rightarrow> 'l \<Rightarrow> (bool \<times> 'l) option" and release :: "bool \<Rightarrow> 'l \<Rightarrow> bool \<times> 'l"
  assumes made: "make l = acquire False l"
    and deleted: "delete b l = snd (release b l)"
    and acquired: "acquire False l = Some (b, l') \<Longrightarrow> b \<and> release True l' = (False, l)"
    and released: "fst (release True l) = False"
    and held: "acquire True l = Some (True, l)" "release False l = (False, l)"
begin

fun calls :: "bool list \<Rightarrow> bool \<times> 'l \<Rightarrow> (bool \<times> 'l) option" where
  "calls [] s = Some s"
| "calls (True # cs) s = (case acquire (fst s) (snd s) of None \<Rightarrow> None | Some s' \<Rightarrow> calls cs s')"
| "calls (False # cs) s = calls cs (release (fst s) (snd s))"

text \<open>The scope does not own the lock, or it has acquired it from the state \<open>l\<close>.\<close>

definition of_scope :: "'l \<Rightarrow> bool \<times> 'l \<Rightarrow> bool" where
  "of_scope l s \<longleftrightarrow> s = (False, l) \<or> acquire False l = Some s"

lemma of_scope_calls: "calls cs s = Some s' \<Longrightarrow> of_scope l s \<Longrightarrow> of_scope l s'"
proof (induction cs s rule: calls.induct)
  case (2 cs s)
  then obtain s1 where s1: "acquire (fst s) (snd s) = Some s1" "calls cs s1 = Some s'" by (auto split: option.splits)
  have "s1 = s \<or> s = (False, l)" using 2(3) s1(1) acquired [of l "fst s" "snd s"] held(1) by (cases s) (auto simp: of_scope_def)
  then have "of_scope l s1" using s1(1) 2(3) by (auto simp: of_scope_def)
  then show ?case using 2(1) s1 by simp
next
  case (3 cs s)
  have "release (fst s) (snd s) = (False, l)"
    using 3(3) acquired [of l "fst s" "snd s"] held(2) by (cases s) (auto simp: of_scope_def)
  then show ?case using 3(1) 3(2) by (simp add: of_scope_def)
qed simp

lemma scope_restores:
  assumes "make l = Some s" and "calls cs s = Some (b, l')"
  shows "delete b l' = l"
proof -
  have "of_scope l (b, l')" using assms by (intro of_scope_calls [OF assms(2)]) (simp add: made of_scope_def)
  then show ?thesis using acquired [of l b l'] held(2) by (auto simp: of_scope_def deleted)
qed

end

lemmas scope_defs = ScopedReadLock_new_def ScopedReadLock_delete_def ScopedReadLock_lock_def ScopedReadLock_unlock_def
  ScopedWriteLock_new_def ScopedWriteLock_delete_def ScopedWriteLock_lock_def ScopedWriteLock_unlock_def
  ReadLock_def WriteLock_def ReadUnlock_def WriteUnlock_def rwlock_unlock_def

interpretation read_scope: scope_class ScopedReadLock_new ScopedReadLock_delete ScopedReadLock_lock ScopedReadLock_unlock
  by unfold_locales (auto simp: scope_defs split: if_splits option.splits)

interpretation write_scope: scope_class ScopedWriteLock_new ScopedWriteLock_delete ScopedWriteLock_lock ScopedWriteLock_unlock
  by unfold_locales (auto simp: scope_defs split: if_splits option.splits)

subsection \<open>Many scopes on one lock\<close>

datatype scope = Reading bool | Writing bool

record scopes =
  scLock :: ReadWriteLock
  scScopes :: "nat \<Rightarrow> scope option"

datatype scope_event = NewRead nat | NewWrite nat | Delete nat | LockAgain nat | UnlockEarly nat

text \<open>What a thread does with a scope of its own; nothing where the scope does not exist or the thread has to wait.\<close>

definition put_scope :: "nat \<Rightarrow> (bool \<Rightarrow> scope) \<Rightarrow> scopes \<Rightarrow> (bool \<times> ReadWriteLock) option \<Rightarrow> scopes option" where
  "put_scope i mk s r = (case r of None \<Rightarrow> None | Some (b, l) \<Rightarrow> Some \<lparr>scLock = l, scScopes = (scScopes s)(i \<mapsto> mk b)\<rparr>)"

fun scopes_step :: "scope_event \<Rightarrow> scopes \<Rightarrow> scopes option" where
  "scopes_step (NewRead i) s = (if scScopes s i = None then put_scope i Reading s (ScopedReadLock_new (scLock s)) else None)"
| "scopes_step (NewWrite i) s = (if scScopes s i = None then put_scope i Writing s (ScopedWriteLock_new (scLock s)) else None)"
| "scopes_step (Delete i) s =
     (case scScopes s i of None \<Rightarrow> None
      | Some (Reading b) \<Rightarrow> Some \<lparr>scLock = ScopedReadLock_delete b (scLock s), scScopes = (scScopes s)(i := None)\<rparr>
      | Some (Writing b) \<Rightarrow> Some \<lparr>scLock = ScopedWriteLock_delete b (scLock s), scScopes = (scScopes s)(i := None)\<rparr>)"
| "scopes_step (LockAgain i) s =
     (case scScopes s i of None \<Rightarrow> None
      | Some (Reading b) \<Rightarrow> put_scope i Reading s (ScopedReadLock_lock b (scLock s))
      | Some (Writing b) \<Rightarrow> put_scope i Writing s (ScopedWriteLock_lock b (scLock s)))"
| "scopes_step (UnlockEarly i) s =
     (case scScopes s i of None \<Rightarrow> None
      | Some (Reading b) \<Rightarrow> put_scope i Reading s (Some (ScopedReadLock_unlock b (scLock s)))
      | Some (Writing b) \<Rightarrow> put_scope i Writing s (Some (ScopedWriteLock_unlock b (scLock s))))"

definition owns :: "scopes \<Rightarrow> (bool \<Rightarrow> scope) \<Rightarrow> nat set" where
  "owns s mk = {i. scScopes s i = Some (mk True)}"

text \<open>The lock counts the scopes that hold it to read, and is held to write by at most one scope, and then by no other.\<close>

definition scopes_ok :: "scopes \<Rightarrow> bool" where
  "scopes_ok s \<longleftrightarrow> finite (owns s Reading) \<and> rwReaders (scLock s) = card (owns s Reading) \<and>
     (if rwWriter (scLock s) then owns s Reading = {} \<and> (\<exists>i. owns s Writing = {i}) else owns s Writing = {})"

lemma owns_put [simp]:
  "owns \<lparr>scLock = l, scScopes = (scScopes s)(i := x)\<rparr> mk =
     (if x = Some (mk True) then insert i (owns s mk) else owns s mk - {i})"
  by (auto simp: owns_def)

inductive scopes_reached :: "scopes \<Rightarrow> bool" where
  initial: "scopes_reached \<lparr>scLock = ReadWriteLock_new, scScopes = (\<lambda>_. None)\<rparr>"
| step: "scopes_reached s \<Longrightarrow> scopes_step e s = Some s' \<Longrightarrow> scopes_reached s'"

lemma scopes_kept:
  assumes ok: "scopes_ok s" and s: "scopes_step e s = Some s'"
  shows "scopes_ok s'"
proof -
  have o: "i \<in> owns s mk \<longleftrightarrow> scScopes s i = Some (mk True)" for i mk by (simp add: owns_def)
  note defs = scopes_ok_def put_scope_def scope_defs
  show ?thesis
  proof (cases e)
    case (NewRead i)
    then show ?thesis using ok s o [of i Reading] o [of i Writing] by (auto simp: defs split: if_splits)
  next
    case (NewWrite i)
    then show ?thesis using ok s o [of i Reading] o [of i Writing] by (auto simp: defs split: if_splits)
  next
    case (Delete i)
    then show ?thesis using ok s o [of i Reading] o [of i Writing]
      by (auto simp: defs card_Diff_singleton split: if_splits option.splits scope.splits)
  next
    case (LockAgain i)
    then show ?thesis using ok s o [of i Reading] o [of i Writing]
      by (auto simp: defs insert_absorb split: if_splits option.splits scope.splits)
  next
    case (UnlockEarly i)
    then show ?thesis using ok s o [of i Reading] o [of i Writing]
      by (auto simp: defs card_Diff_singleton split: if_splits option.splits scope.splits)
  qed
qed

lemma scopes_reached_ok: "scopes_reached s \<Longrightarrow> scopes_ok s"
proof (induction rule: scopes_reached.induct)
  case initial
  show ?case by (simp add: scopes_ok_def owns_def ReadWriteLock_new_def)
qed (rule scopes_kept)

text \<open>C37: Two scopes exclude each other. In whatever order scopes are begun and ended, locked again and unlocked
  before their end: while one scope holds the lock to write, no other scope holds it, neither to write nor to read,
  and the lock counts the scopes that hold it to read.\<close>

theorem writer_alone:
  assumes "scopes_reached s"
  shows "(\<forall>i j. scScopes s i = Some (Writing True) \<longrightarrow> scScopes s j \<in> {Some (Reading True), Some (Writing True)} \<longrightarrow> j = i) \<and>
    rwReaders (scLock s) = card {i. scScopes s i = Some (Reading True)}"
proof -
  have ok: "scopes_ok s" by (rule scopes_reached_ok [OF assms])
  have "j = i" if "scScopes s i = Some (Writing True)" "scScopes s j \<in> {Some (Reading True), Some (Writing True)}" for i j
  proof -
    have "i \<in> owns s Writing" "j \<in> owns s Reading \<union> owns s Writing" using that by (auto simp: owns_def)
    then show ?thesis using ok by (auto simp: scopes_ok_def split: if_splits)
  qed
  then show ?thesis using ok by (auto simp: scopes_ok_def owns_def)
qed

lemma writer_alone_witness:
  "\<exists>s. scopes_reached s \<and> scScopes s 0 = Some (Writing True) \<and> scopes_step (NewRead 1) s = None \<and> scScopes s 1 \<noteq> Some (Reading True)"
proof -
  have r: "scopes_reached \<lparr>scLock = \<lparr>rwReaders = 0, rwWriter = True\<rparr>, scScopes = (\<lambda>_. None)(0 \<mapsto> Writing True)\<rparr>"
    by (rule scopes_reached.step [OF scopes_reached.initial, of "NewWrite 0"])
      (simp add: put_scope_def scope_defs ReadWriteLock_new_def)
  then obtain s where s: "scopes_reached s" "scScopes s 0 = Some (Writing True)" "rwWriter (scLock s)" by force
  have "scopes_step (NewRead 1) s = None" using s(3) by (simp add: put_scope_def ScopedReadLock_new_def ReadLock_def)
  moreover have "scScopes s 1 \<noteq> Some (Reading True)"
    using writer_alone [OF s(1)] s(2) by (metis insertI1 zero_neq_one)
  ultimately show ?thesis using s(1,2) by blast
qed

text \<open>A scope that ends gives the lock back: with the last of them the lock is free.\<close>

lemma all_scopes_ended:
  assumes "scopes_reached s" and "\<And>i. scScopes s i = None"
  shows "scLock s = ReadWriteLock_new"
proof -
  have "owns s mk = {}" for mk using assms(2) by (simp add: owns_def)
  then show ?thesis using scopes_reached_ok [OF assms(1)] by (cases "scLock s") (auto simp: scopes_ok_def ReadWriteLock_new_def split: if_splits)
qed

end
