(* ===== verification/Adapters.thy ===== *)
theory Adapters
  imports Configuration
begin

text \<open>
  What stands between the library and the outside: the loggers (src/core/util/DefaultLogger.cxx, src/api/LogLevel.cxx,
  src/api-c/CustomLogger.cxx) and the trust managers (src/protocol/ssl, src/api-c/CustomTrustManager.cxx). The text
  \<^verbatim>\<open>vsnprintf\<close> makes of a format and its arguments is an argument, \<open>None\<close> where it fails; so are the date and the
  thread as text, and the functions of the application.
\<close>

subsection \<open>Levels\<close>

text \<open>The levels are ordered as their numbers.\<close>

instantiation LogLevel :: linorder
begin

definition less_eq_LogLevel :: "LogLevel \<Rightarrow> LogLevel \<Rightarrow> bool" where
  "less_eq_LogLevel l m \<longleftrightarrow> sint (log_level_number l) \<le> sint (log_level_number m)"

definition less_LogLevel :: "LogLevel \<Rightarrow> LogLevel \<Rightarrow> bool" where
  "less_LogLevel l m \<longleftrightarrow> sint (log_level_number l) < sint (log_level_number m)"

instance
proof
  fix l m n :: LogLevel
  show "(l < m) = (l \<le> m \<and> \<not> m \<le> l)" by (auto simp: less_eq_LogLevel_def less_LogLevel_def)
  show "l \<le> l" by (simp add: less_eq_LogLevel_def)
  show "l \<le> m \<Longrightarrow> m \<le> n \<Longrightarrow> l \<le> n" by (simp add: less_eq_LogLevel_def)
  show "l \<le> m \<Longrightarrow> m \<le> l \<Longrightarrow> l = m" by (cases l; cases m) (simp_all add: less_eq_LogLevel_def log_level_number_def)
  show "l \<le> m \<or> m \<le> l" by (auto simp: less_eq_LogLevel_def)
qed

end

fun getLogLevelName :: "LogLevel \<Rightarrow> string" where
  "getLogLevelName LOG_LEVEL_DEBUG = ''DEBUG''"
| "getLogLevelName LOG_LEVEL_INFO = ''INFO ''"
| "getLogLevelName LOG_LEVEL_WARN = ''WARN ''"
| "getLogLevelName LOG_LEVEL_ERROR = ''ERROR''"

subsection \<open>The default logger\<close>

text \<open>
  What the logger reads when it writes: the date, the thread, and the message. Where \<^verbatim>\<open>vsnprintf\<close> fails, its result,
  taken for a length, asks for no memory, and the memory behind it is printed.
\<close>

record log_call =
  lcDate :: string
  lcThread :: string
  lcText :: "string option"

type_synonym log_op = "log_call \<Rightarrow> (string, unit) cpp_op"

definition traceStatement :: "log_call \<Rightarrow> cpp_exception + string" where
  "traceStatement c = (case lcText c of
     None \<Rightarrow> Inl (UndefinedBehaviour ''text of a message that was not written'')
   | Some t \<Rightarrow> Inr (takeWhile (\<lambda>x. x \<noteq> CHR 0x00) t))"

definition default_doLog :: "string \<Rightarrow> log_op" where
  "default_doLog level c = (\<lambda>mStream. case traceStatement c of
     Inl e \<Rightarrow> (Inl e, mStream)
   | Inr t \<Rightarrow> (Inr (), mStream @ lcDate c @ '' '' @ level @ '' ['' @ lcThread c @ ''] '' @ t @ [CHR 0x0A]))"

definition default_log :: "LogLevel \<Rightarrow> LogLevel \<Rightarrow> log_op" where
  "default_log mLogLevel logLevel c = (if logLevel < mLogLevel then op_return () else default_doLog (getLogLevelName logLevel) c)"

definition default_isErrorEnabled :: "LogLevel \<Rightarrow> bool" where
  "default_isErrorEnabled mLogLevel \<longleftrightarrow> LOG_LEVEL_ERROR \<ge> mLogLevel"

definition default_isWarningEnabled :: "LogLevel \<Rightarrow> bool" where
  "default_isWarningEnabled mLogLevel \<longleftrightarrow> LOG_LEVEL_WARN \<ge> mLogLevel"

definition default_isInfoEnabled :: "LogLevel \<Rightarrow> bool" where
  "default_isInfoEnabled mLogLevel \<longleftrightarrow> LOG_LEVEL_INFO \<ge> mLogLevel"

definition default_isDebugEnabled :: "LogLevel \<Rightarrow> bool" where
  "default_isDebugEnabled mLogLevel \<longleftrightarrow> LOG_LEVEL_DEBUG \<ge> mLogLevel"

definition default_error :: "LogLevel \<Rightarrow> log_op" where
  "default_error mLogLevel c =
     (if \<not> default_isErrorEnabled mLogLevel then op_return () else default_doLog (getLogLevelName LOG_LEVEL_ERROR) c)"

definition default_warning :: "LogLevel \<Rightarrow> log_op" where
  "default_warning mLogLevel c =
     (if \<not> default_isWarningEnabled mLogLevel then op_return () else default_doLog (getLogLevelName LOG_LEVEL_WARN) c)"

definition default_info :: "LogLevel \<Rightarrow> log_op" where
  "default_info mLogLevel c =
     (if \<not> default_isInfoEnabled mLogLevel then op_return () else default_doLog (getLogLevelName LOG_LEVEL_INFO) c)"

definition default_debug :: "LogLevel \<Rightarrow> log_op" where
  "default_debug mLogLevel c =
     (if \<not> default_isDebugEnabled mLogLevel then op_return () else default_doLog (getLogLevelName LOG_LEVEL_DEBUG) c)"

lemmas default_logger_defs = default_log_def default_error_def default_warning_def default_info_def default_debug_def
  default_isErrorEnabled_def default_isWarningEnabled_def default_isInfoEnabled_def default_isDebugEnabled_def

text \<open>The four functions are \<open>log\<close> at their levels, and write exactly what the model of the other components says.\<close>

lemma default_by_level:
  "default_error m = default_log m LOG_LEVEL_ERROR" "default_warning m = default_log m LOG_LEVEL_WARN"
  "default_info m = default_log m LOG_LEVEL_INFO" "default_debug m = default_log m LOG_LEVEL_DEBUG"
  by (intro ext; simp add: default_logger_defs not_le)+

lemma level_name_width: "length (getLogLevelName l) = 5"
  by (cases l) simp_all

lemma default_writes:
  assumes "lcText c = Some t" and "CHR 0x00 \<notin> set t"
  shows "default_log m l c s = (Inr (), if logger_writes l (DefaultLogger m)
    then s @ lcDate c @ '' '' @ getLogLevelName l @ '' ['' @ lcThread c @ ''] '' @ t @ [CHR 0x0A] else s)"
proof -
  have "takeWhile (\<lambda>x. x \<noteq> CHR 0x00) t = t" unfolding takeWhile_eq_all_conv using assms(2) by blast
  then show ?thesis
    using assms(1) by (auto simp: default_log_def less_LogLevel_def logger_writes_def default_doLog_def traceStatement_def op_return_def)
qed

subsection \<open>The logger of an application in C\<close>

datatype LOG_LEVEL = LOGLEVEL_DEBUG | LOGLEVEL_INFO | LOGLEVEL_WARN | LOGLEVEL_ERROR

text \<open>The state are the messages the application has been given; \<open>f\<close> tells whether a level is enabled.\<close>

type_synonym custom_op = "(LOG_LEVEL \<Rightarrow> bool) \<Rightarrow> log_call \<Rightarrow> ((LOG_LEVEL \<times> string) list, unit) cpp_op"

fun cppLogLevelToCLogLevel :: "LogLevel \<Rightarrow> LOG_LEVEL" where
  "cppLogLevelToCLogLevel LOG_LEVEL_DEBUG = LOGLEVEL_DEBUG"
| "cppLogLevelToCLogLevel LOG_LEVEL_INFO = LOGLEVEL_INFO"
| "cppLogLevelToCLogLevel LOG_LEVEL_WARN = LOGLEVEL_WARN"
| "cppLogLevelToCLogLevel LOG_LEVEL_ERROR = LOGLEVEL_ERROR"

definition custom_doLog :: "LOG_LEVEL \<Rightarrow> log_call \<Rightarrow> ((LOG_LEVEL \<times> string) list, unit) cpp_op" where
  "custom_doLog level c = (\<lambda>messages. case traceStatement c of
     Inl e \<Rightarrow> (Inl e, messages) | Inr t \<Rightarrow> (Inr (), messages @ [(level, t)]))"

definition custom_log :: "LogLevel \<Rightarrow> custom_op" where
  "custom_log logLevel f c = custom_doLog (cppLogLevelToCLogLevel logLevel) c"

definition custom_error :: custom_op where
  "custom_error f c = custom_doLog LOGLEVEL_ERROR c"

definition custom_warning :: custom_op where
  "custom_warning f c = custom_doLog LOGLEVEL_WARN c"

definition custom_isErrorEnabled :: "(LOG_LEVEL \<Rightarrow> bool) \<Rightarrow> bool" where
  "custom_isErrorEnabled f \<longleftrightarrow> f LOGLEVEL_ERROR"

definition custom_isWarningEnabled :: "(LOG_LEVEL \<Rightarrow> bool) \<Rightarrow> bool" where
  "custom_isWarningEnabled f \<longleftrightarrow> f LOGLEVEL_WARN"

definition custom_isInfoEnabled :: "(LOG_LEVEL \<Rightarrow> bool) \<Rightarrow> bool" where
  "custom_isInfoEnabled f \<longleftrightarrow> f LOGLEVEL_INFO"

definition custom_isDebugEnabled :: "(LOG_LEVEL \<Rightarrow> bool) \<Rightarrow> bool" where
  "custom_isDebugEnabled f \<longleftrightarrow> f LOGLEVEL_DEBUG"

definition custom_info :: custom_op where
  "custom_info f c = (if custom_isInfoEnabled f then custom_doLog LOGLEVEL_INFO c else op_return ())"

definition custom_debug :: custom_op where
  "custom_debug f c = (if custom_isDebugEnabled f then custom_doLog LOGLEVEL_DEBUG c else op_return ())"

text \<open>
  Errors, warnings and all messages of \<open>log\<close> reach the application whether their level is enabled or not; information
  and debug messages only when it is.
\<close>

lemma custom_unconditional:
  "custom_error f = custom_log LOG_LEVEL_ERROR f" "custom_warning f = custom_log LOG_LEVEL_WARN f"
  "custom_log l f = custom_log l g"
  by (intro ext; simp add: custom_error_def custom_warning_def custom_log_def)+

lemma custom_conditional:
  "custom_info f c = (if f LOGLEVEL_INFO then custom_log LOG_LEVEL_INFO f c else op_return ())"
  "custom_debug f c = (if f LOGLEVEL_DEBUG then custom_log LOG_LEVEL_DEBUG f c else op_return ())"
  by (simp_all add: custom_info_def custom_debug_def custom_log_def custom_isInfoEnabled_def custom_isDebugEnabled_def)

subsection \<open>Trust managers\<close>

datatype curl_option = CURLOPT_SSL_VERIFYPEER | CURLOPT_SSL_VERIFYHOST

text \<open>The options of a handle of libcurl, or \<open>None\<close> for a null pointer. \<open>app\<close> are the functions of the application.\<close>

type_synonym curl = "(curl_option \<Rightarrow> int) option"

definition curl_easy_setopt :: "curl_option \<Rightarrow> int \<Rightarrow> curl \<Rightarrow> curl" where
  "curl_easy_setopt opt v curl = map_option (\<lambda>f. f(opt := v)) curl"

definition strict_applyTrustManager :: "curl \<Rightarrow> curl" where
  "strict_applyTrustManager curl =
     (if curl = None then curl
      else curl_easy_setopt CURLOPT_SSL_VERIFYHOST 2 (curl_easy_setopt CURLOPT_SSL_VERIFYPEER 1 curl))"

definition blind_applyTrustManager :: "curl \<Rightarrow> curl" where
  "blind_applyTrustManager curl = curl_easy_setopt CURLOPT_SSL_VERIFYHOST 0 (curl_easy_setopt CURLOPT_SSL_VERIFYPEER 0 curl)"

definition custom_applyTrustManager :: "(curl \<Rightarrow> curl) \<Rightarrow> curl \<Rightarrow> curl" where
  "custom_applyTrustManager mApplyTrustManagerFunc curl = mApplyTrustManagerFunc curl"

definition applyTrustManager :: "(nat \<Rightarrow> curl \<Rightarrow> curl) \<Rightarrow> ISSLTrustManager \<Rightarrow> curl \<Rightarrow> curl" where
  "applyTrustManager app t = (case t of SSLStrictTrustManager \<Rightarrow> strict_applyTrustManager
     | SSLBlindTrustManager \<Rightarrow> blind_applyTrustManager | CustomTrustManager f \<Rightarrow> custom_applyTrustManager (app f))"

text \<open>The options a transfer is done with do not depend on those set before, unless the application sets them.\<close>

lemma trust_manager_decides:
  "t = SSLStrictTrustManager \<or> t = SSLBlindTrustManager \<Longrightarrow> applyTrustManager app t (Some f) = applyTrustManager app t (Some g)"
  by (auto simp: applyTrustManager_def strict_applyTrustManager_def blind_applyTrustManager_def curl_easy_setopt_def fun_eq_iff
      intro: curl_option.exhaust)

lemma verified_iff_strict:
  "\<forall>n. t \<noteq> CustomTrustManager n \<Longrightarrow>
   (\<exists>g. applyTrustManager app t (Some f) = Some g \<and> g CURLOPT_SSL_VERIFYPEER = 1 \<and> g CURLOPT_SSL_VERIFYHOST = 2) = (t = SSLStrictTrustManager)"
  by (cases t) (simp_all add: applyTrustManager_def strict_applyTrustManager_def blind_applyTrustManager_def curl_easy_setopt_def)

end
